(* ===== verification/Prelude.thy ===== *)
theory Prelude
  imports Main "HOL-Library.Word"
begin

section \<open>Prelude: results, faults, mutexes and generic lemmas\<close>

text \<open>
  The vocabulary every other theory uses.  A C function of the package is translated to a
  function whose result is \<open>fault + 'a\<close>: \<open>Inr\<close> is a normal return, \<open>Inl\<close> is a run that
  C leaves undefined or that does not come back (a null or dangling pointer, a write past the end of
  an array, a mutex locked twice by the same thread).  Return codes of the rmw interface are
  ordinary values and never faults.
\<close>

named_theorems run_simps \<open>equations that execute a step of the model\<close>
named_theorems frame_simps \<open>fields that an operation leaves alone\<close>

subsection \<open>Faults and sequencing\<close>

datatype fault =
    NullDeref
  | NullCall
  | UseAfterFree
  | OutOfBounds
  | BadPointer
  | Uninitialised
  | Deadlock
  | Blocked
  | Nontermination
  | Unreachable
  | Overflow

type_synonym 'a res = "fault + 'a"

definition andthen :: "'a res \<Rightarrow> ('a \<Rightarrow> 'b res) \<Rightarrow> 'b res" where
  "andthen r f = (case r of Inl e \<Rightarrow> Inl e | Inr x \<Rightarrow> f x)"

lemma andthen_Inr [simp, run_simps]: "andthen (Inr x) f = f x"
  by (simp add: andthen_def)

lemma andthen_Inl [simp, run_simps]: "andthen (Inl e) f = Inl e"
  by (simp add: andthen_def)

lemma andthen_eq_Inr: "andthen r f = Inr y \<longleftrightarrow> (\<exists>x. r = Inr x \<and> f x = Inr y)"
  by (cases r) auto

lemma andthen_eq_Inl: "andthen r f = Inl e \<longleftrightarrow> r = Inl e \<or> (\<exists>x. r = Inr x \<and> f x = Inl e)"
  by (cases r) auto

lemma andthen_assoc: "andthen (andthen r f) g = andthen r (\<lambda>x. andthen (f x) g)"
  by (cases r) auto

lemma andthen_cong [fundef_cong]:
  "r = r' \<Longrightarrow> (\<And>x. r' = Inr x \<Longrightarrow> f x = f' x) \<Longrightarrow> andthen r f = andthen r' f'"
  by (cases r') auto

definition returns :: "'a res \<Rightarrow> bool" where
  "returns r = (case r of Inl _ \<Rightarrow> False | Inr _ \<Rightarrow> True)"

lemma returns_simps [simp]: "returns (Inr x)" "\<not> returns (Inl e)"
  by (simp_all add: returns_def)

lemma returns_iff: "returns r \<longleftrightarrow> (\<exists>x. r = Inr x)"
  by (cases r) auto

definition deref :: "('k \<rightharpoonup> 'v) \<Rightarrow> 'k option \<Rightarrow> 'v res" where
  "deref h p = (case p of None \<Rightarrow> Inl NullDeref
     | Some a \<Rightarrow> (case h a of None \<Rightarrow> Inl UseAfterFree | Some v \<Rightarrow> Inr v))"

lemma deref_simps [simp, run_simps]:
  "deref h None = Inl NullDeref"
  "h a = Some v \<Longrightarrow> deref h (Some a) = Inr v"
  "h a = None \<Longrightarrow> deref h (Some a) = Inl UseAfterFree"
  by (simp_all add: deref_def)

lemma deref_eq_Inr: "deref h p = Inr v \<longleftrightarrow> (\<exists>a. p = Some a \<and> h a = Some v)"
  by (auto simp: deref_def split: option.splits)

subsection \<open>Mutexes\<close>

text \<open>
  A \<open>z_owned_mutex_t\<close> is a non-recursive pthread mutex.  An object that the code only zeroes has the
  value of the static initialiser on the Linux port, so it counts as \<open>Unlocked\<close>.  One thread runs at
  a time in the sequential definitions, so finding the mutex held means that the thread waits for
  itself.
\<close>

datatype mutex = Unlocked | Locked | Dropped

definition z_mutex_lock :: "mutex \<Rightarrow> mutex res" where
  "z_mutex_lock m = (case m of Unlocked \<Rightarrow> Inr Locked | Locked \<Rightarrow> Inl Deadlock | Dropped \<Rightarrow> Inl UseAfterFree)"

definition z_mutex_unlock :: "mutex \<Rightarrow> mutex res" where
  "z_mutex_unlock m = (case m of Locked \<Rightarrow> Inr Unlocked | Unlocked \<Rightarrow> Inr Unlocked | Dropped \<Rightarrow> Inl UseAfterFree)"

lemma z_mutex_lock_simps [simp, run_simps]:
  "z_mutex_lock Unlocked = Inr Locked"
  "z_mutex_lock Locked = Inl Deadlock"
  "z_mutex_lock Dropped = Inl UseAfterFree"
  by (simp_all add: z_mutex_lock_def)

lemma z_mutex_unlock_simps [simp, run_simps]:
  "z_mutex_unlock Locked = Inr Unlocked"
  "z_mutex_unlock Unlocked = Inr Unlocked"
  "z_mutex_unlock Dropped = Inl UseAfterFree"
  by (simp_all add: z_mutex_unlock_def)

subsection \<open>Return codes of the rmw interface\<close>

text \<open>
  The values of \<open>rmw/ret_types.h\<close>, kept as integers because the code mixes them with booleans
  (a \<open>bool\<close> returned from a function of type \<open>rmw_ret_t\<close> becomes 0 or 1).
\<close>

type_synonym rmw_ret_t = int

abbreviation (input) RMW_RET_OK :: rmw_ret_t where "RMW_RET_OK \<equiv> 0"
abbreviation (input) RMW_RET_ERROR :: rmw_ret_t where "RMW_RET_ERROR \<equiv> 1"
abbreviation (input) RMW_RET_TIMEOUT :: rmw_ret_t where "RMW_RET_TIMEOUT \<equiv> 2"
abbreviation (input) RMW_RET_UNSUPPORTED :: rmw_ret_t where "RMW_RET_UNSUPPORTED \<equiv> 3"
abbreviation (input) RMW_RET_BAD_ALLOC :: rmw_ret_t where "RMW_RET_BAD_ALLOC \<equiv> 10"
abbreviation (input) RMW_RET_INVALID_ARGUMENT :: rmw_ret_t where "RMW_RET_INVALID_ARGUMENT \<equiv> 11"
abbreviation (input) RMW_RET_INCORRECT_RMW_IMPLEMENTATION :: rmw_ret_t where
  "RMW_RET_INCORRECT_RMW_IMPLEMENTATION \<equiv> 12"

definition ret_of_bool :: "bool \<Rightarrow> rmw_ret_t" where
  "ret_of_bool b = (if b then 1 else 0)"

subsection \<open>Searching with a test that may fault\<close>

text \<open>\<open>List.find\<close> for a test that may fault: the fault of the first test that has one, unless an element before it passes.\<close>

fun find_res :: "('a \<Rightarrow> bool res) \<Rightarrow> 'a list \<Rightarrow> 'a option res" where
  "find_res f [] = Inr None"
| "find_res f (x # xs) = andthen (f x) (\<lambda>b. if b then Inr (Some x) else find_res f xs)"

lemma find_res_None: "find_res f xs = Inr None \<longleftrightarrow> (\<forall>x \<in> set xs. f x = Inr False)"
  by (induction xs) (auto simp: andthen_eq_Inr)

lemma find_res_prefix: "\<forall>u \<in> set us. f u = Inr False \<Longrightarrow> find_res f (us @ xs) = find_res f xs"
  by (induction us) auto

lemma find_res_Some: "find_res f xs = Inr (Some c) \<Longrightarrow>
    \<exists>us vs. xs = us @ c # vs \<and> (\<forall>u \<in> set us. f u = Inr False) \<and> f c = Inr True"
proof (induction xs)
  case (Cons x xs)
  then show ?case
  proof (cases "f x = Inr True")
    case True
    then show ?thesis using Cons.prems by (intro exI [of _ "[]"] exI [of _ xs]) simp
  next
    case False
    then have x: "f x = Inr False" "find_res f xs = Inr (Some c)" using Cons.prems by (auto simp: andthen_eq_Inr split: if_splits)
    then obtain us vs where "xs = us @ c # vs" "\<forall>u \<in> set us. f u = Inr False" "f c = Inr True" using Cons.IH by blast
    then show ?thesis using x(1) by (intro exI [of _ "x # us"] exI [of _ vs]) simp
  qed
qed simp

lemma find_res_Inl: "find_res f xs = Inl e \<Longrightarrow>
    \<exists>us x vs. xs = us @ x # vs \<and> (\<forall>u \<in> set us. f u = Inr False) \<and> f x = Inl e"
proof (induction xs)
  case (Cons x xs)
  then show ?case
  proof (cases "f x = Inl e")
    case True
    then show ?thesis by (intro exI [of _ "[]"] exI [of _ x] exI [of _ xs]) simp
  next
    case False
    then have x: "f x = Inr False" "find_res f xs = Inl e" using Cons.prems by (auto simp: andthen_eq_Inl split: if_splits)
    then obtain us y vs where "xs = us @ y # vs" "\<forall>u \<in> set us. f u = Inr False" "f y = Inl e" using Cons.IH by blast
    then show ?thesis using x(1) by (intro exI [of _ "x # us"] exI [of _ y] exI [of _ vs]) simp
  qed
qed simp

lemma find_res_total: "(\<And>x. x \<in> set xs \<Longrightarrow> f x = Inr (g x)) \<Longrightarrow> find_res f xs = Inr (find g xs)"
  by (induction xs) auto

lemma find_res_find: "find_res f xs = Inr r \<Longrightarrow> (\<And>x b. f x = Inr b \<Longrightarrow> b = g x) \<Longrightarrow> find g xs = r"
proof (induction xs)
  case (Cons x xs)
  obtain b where "f x = Inr b" using Cons.prems(1) by (auto simp: andthen_eq_Inr)
  with Cons show ?case by (cases b) (auto split: if_splits)
qed simp

lemma find_res_cong: "(\<And>x. x \<in> set xs \<Longrightarrow> f x = g x) \<Longrightarrow> find_res f xs = find_res g xs"
  by (induction xs) (auto intro!: andthen_cong)

lemma find_res_map: "find_res f (map g xs) = andthen (find_res (\<lambda>x. f (g x)) xs) (\<lambda>r. Inr (map_option g r))"
  by (induction xs) (auto simp: andthen_def split: sum.splits)

subsection \<open>Generic lemmas on lists and maps\<close>

lemma takeWhile_neq_append_stop [simp]:
  "z \<notin> set xs \<Longrightarrow> takeWhile (\<lambda>c. c \<noteq> z) (xs @ z # ys) = xs"
  by (induction xs) auto

lemma takeWhile_neq_replicate [simp]:
  "z \<notin> set xs \<Longrightarrow> takeWhile (\<lambda>c. c \<noteq> z) (xs @ replicate n z) = xs"
  by (induction xs) (auto simp: takeWhile_eq_Nil_iff)

lemma notin_takeWhile_neq [simp]: "z \<notin> set (takeWhile (\<lambda>c. c \<noteq> z) xs)"
  by (auto dest: set_takeWhileD)

lemma takeWhile_neq_id: "z \<notin> set xs \<Longrightarrow> takeWhile (\<lambda>c. c \<noteq> z) xs = xs"
  by (induction xs) auto

lemma notin_set_take: "z \<notin> set xs \<Longrightarrow> z \<notin> set (take n xs)"
  by (auto dest: in_set_takeD)

lemma map_upd_Some_iff: "(m(a \<mapsto> v)) b = Some u \<longleftrightarrow> (if a = b then u = v else m b = Some u)"
  by auto

end
