(* ===== verification/XXH3.thy ===== *)
theory XXH3
  imports Prelude
begin

unbundle bit_operations_syntax

section \<open>The hash behind the identifiers: XXH3, 128 bits\<close>

text \<open>
  The part of the vendored \<open>utilities/xxhash.h\<close> that \<open>XXH3_128bits\<close> runs.  The header selects code by compiler and processor;
  a record \<open>xxh_target\<close> says which variant is compiled, and the definitions take it as their first argument.  A pointer into an input or
  the secret is the list of bytes and an offset, and a read past the end is a fault.
\<close>

subsection \<open>What the preprocessor selects\<close>

datatype neon_lanes = Neon2 | Neon4 | Neon6 | Neon8

datatype xxh_vector = XXH_SCALAR | XXH_SSE2 | XXH_AVX2 | XXH_AVX512 | XXH_NEON bool neon_lanes | XXH_VSX bool | XXH_SVE nat

text \<open>
  NEON has a variant for WebAssembly and the macro \<open>XXH3_NEON_LANES\<close>, which is 2, 4, 6 or 8; VSX has \<open>vec_revb\<close> or not; the registers of SVE have a number
  of lanes that is known only when the program runs, \<open>svcntd() = 2 * (n + 1)\<close>.  A big-endian processor runs the portable code, VSX or SVE: the header asks for a little-endian
  one before it takes NEON, and not before it takes SVE; SSE2, AVX2 and AVX512 exist on little-endian processors only.
  \<open>__SIZEOF_INT128__\<close>, the width of pointers and \<open>XXH_SIZE_OPT >= 1\<close> make up the rest of a target.
\<close>

datatype xxh_processor = Big_Endian | Big_Endian_VSX bool | Big_Endian_SVE nat | Little_Endian xxh_vector

record xxh_target =
  processor :: xxh_processor
  has_int128 :: bool
  wide_pointers :: bool
  size_opt :: bool

definition little_endian :: "xxh_target \<Rightarrow> bool" where
  "little_endian t = (case processor t of Little_Endian v \<Rightarrow> True | _ \<Rightarrow> False)"

definition simd :: "xxh_target \<Rightarrow> xxh_vector" where
  "simd t = (case processor t of Big_Endian \<Rightarrow> XXH_SCALAR | Big_Endian_VSX r \<Rightarrow> XXH_VSX r | Big_Endian_SVE n \<Rightarrow> XXH_SVE n
     | Little_Endian v \<Rightarrow> v)"

lemma simd_little_endian: "simd t = XXH_SCALAR \<or> (\<exists>r. simd t = XXH_VSX r) \<or> (\<exists>n. simd t = XXH_SVE n) \<or> little_endian t"
  by (simp add: little_endian_def simd_def split: xxh_processor.split)

record XXH128_hash_t =
  low64 :: "64 word"
  high64 :: "64 word"

subsection \<open>Constants\<close>

definition XXH_PRIME32_1 :: "32 word" where "XXH_PRIME32_1 = 0x9E3779B1"
definition XXH_PRIME32_2 :: "32 word" where "XXH_PRIME32_2 = 0x85EBCA77"
definition XXH_PRIME32_3 :: "32 word" where "XXH_PRIME32_3 = 0xC2B2AE3D"
definition XXH_PRIME64_1 :: "64 word" where "XXH_PRIME64_1 = 0x9E3779B185EBCA87"
definition XXH_PRIME64_2 :: "64 word" where "XXH_PRIME64_2 = 0xC2B2AE3D27D4EB4F"
definition XXH_PRIME64_3 :: "64 word" where "XXH_PRIME64_3 = 0x165667B19E3779F9"
definition XXH_PRIME64_4 :: "64 word" where "XXH_PRIME64_4 = 0x85EBCA77C2B2AE63"
definition XXH_PRIME64_5 :: "64 word" where "XXH_PRIME64_5 = 0x27D4EB2F165667C5"
definition PRIME_MX1 :: "64 word" where "PRIME_MX1 = 0x165667919E3779F9"
definition PRIME_MX2 :: "64 word" where "PRIME_MX2 = 0x9FB21C651E98DF25"

lemmas xxh_primes = XXH_PRIME32_1_def XXH_PRIME32_2_def XXH_PRIME32_3_def XXH_PRIME64_1_def XXH_PRIME64_2_def XXH_PRIME64_3_def
  XXH_PRIME64_4_def XXH_PRIME64_5_def PRIME_MX1_def PRIME_MX2_def

definition XXH3_SECRET_SIZE_MIN :: nat where "XXH3_SECRET_SIZE_MIN = 136"
definition XXH3_MIDSIZE_MAX :: nat where "XXH3_MIDSIZE_MAX = 240"
definition XXH3_MIDSIZE_STARTOFFSET :: nat where "XXH3_MIDSIZE_STARTOFFSET = 3"
definition XXH3_MIDSIZE_LASTOFFSET :: nat where "XXH3_MIDSIZE_LASTOFFSET = 17"
definition XXH_STRIPE_LEN :: nat where "XXH_STRIPE_LEN = 64"
definition XXH_SECRET_CONSUME_RATE :: nat where "XXH_SECRET_CONSUME_RATE = 8"
definition XXH_ACC_NB :: nat where "XXH_ACC_NB = 8"
definition XXH_SECRET_LASTACC_START :: nat where "XXH_SECRET_LASTACC_START = 7"
definition XXH_SECRET_MERGEACCS_START :: nat where "XXH_SECRET_MERGEACCS_START = 11"

lemmas xxh_sizes = XXH3_SECRET_SIZE_MIN_def XXH3_MIDSIZE_MAX_def XXH3_MIDSIZE_STARTOFFSET_def XXH3_MIDSIZE_LASTOFFSET_def
  XXH_STRIPE_LEN_def XXH_SECRET_CONSUME_RATE_def XXH_ACC_NB_def XXH_SECRET_LASTACC_START_def XXH_SECRET_MERGEACCS_START_def

definition XXH3_kSecret :: "8 word list" where
  "XXH3_kSecret = [
    0xb8, 0xfe, 0x6c, 0x39, 0x23, 0xa4, 0x4b, 0xbe, 0x7c, 0x01, 0x81, 0x2c, 0xf7, 0x21, 0xad, 0x1c,
    0xde, 0xd4, 0x6d, 0xe9, 0x83, 0x90, 0x97, 0xdb, 0x72, 0x40, 0xa4, 0xa4, 0xb7, 0xb3, 0x67, 0x1f,
    0xcb, 0x79, 0xe6, 0x4e, 0xcc, 0xc0, 0xe5, 0x78, 0x82, 0x5a, 0xd0, 0x7d, 0xcc, 0xff, 0x72, 0x21,
    0xb8, 0x08, 0x46, 0x74, 0xf7, 0x43, 0x24, 0x8e, 0xe0, 0x35, 0x90, 0xe6, 0x81, 0x3a, 0x26, 0x4c,
    0x3c, 0x28, 0x52, 0xbb, 0x91, 0xc3, 0x00, 0xcb, 0x88, 0xd0, 0x65, 0x8b, 0x1b, 0x53, 0x2e, 0xa3,
    0x71, 0x64, 0x48, 0x97, 0xa2, 0x0d, 0xf9, 0x4e, 0x38, 0x19, 0xef, 0x46, 0xa9, 0xde, 0xac, 0xd8,
    0xa8, 0xfa, 0x76, 0x3f, 0xe3, 0x9c, 0x34, 0x3f, 0xf9, 0xdc, 0xbb, 0xc7, 0xc7, 0x0b, 0x4f, 0x1d,
    0x8a, 0x51, 0xe0, 0x4b, 0xcd, 0xb4, 0x59, 0x31, 0xc8, 0x9f, 0x7e, 0xc9, 0xd9, 0x78, 0x73, 0x64,
    0xea, 0xc5, 0xac, 0x83, 0x34, 0xd3, 0xeb, 0xc3, 0xc5, 0x81, 0xa0, 0xff, 0xfa, 0x13, 0x63, 0xeb,
    0x17, 0x0d, 0xdd, 0x51, 0xb7, 0xf0, 0xda, 0x49, 0xd3, 0x16, 0x55, 0x26, 0x29, 0xd4, 0x68, 0x9e,
    0x2b, 0x16, 0xbe, 0x58, 0x7d, 0x47, 0xa1, 0xfc, 0x8f, 0xf8, 0xb8, 0xd1, 0x7a, 0xd0, 0x31, 0xce,
    0x45, 0xcb, 0x3a, 0x8f, 0x95, 0x16, 0x04, 0x28, 0xaf, 0xd7, 0xfb, 0xca, 0xbb, 0x4b, 0x40, 0x7e]"

lemma length_kSecret [simp]: "length XXH3_kSecret = 192"
  by (simp add: XXH3_kSecret_def)

subsection \<open>Reading memory\<close>

text \<open>\<open>memcpy\<close> of bytes into an integer, in the byte order of the processor.\<close>

definition le32 :: "8 word \<Rightarrow> 8 word \<Rightarrow> 8 word \<Rightarrow> 8 word \<Rightarrow> 32 word" where
  "le32 b0 b1 b2 b3 = ucast b0 OR push_bit 8 (ucast b1) OR push_bit 16 (ucast b2) OR push_bit 24 (ucast b3)"

definition le64 :: "8 word \<Rightarrow> 8 word \<Rightarrow> 8 word \<Rightarrow> 8 word \<Rightarrow> 8 word \<Rightarrow> 8 word \<Rightarrow> 8 word \<Rightarrow> 8 word \<Rightarrow> 64 word" where
  "le64 b0 b1 b2 b3 b4 b5 b6 b7 = ucast b0 OR push_bit 8 (ucast b1) OR push_bit 16 (ucast b2) OR push_bit 24 (ucast b3) OR
     push_bit 32 (ucast b4) OR push_bit 40 (ucast b5) OR push_bit 48 (ucast b6) OR push_bit 56 (ucast b7)"

definition read8 :: "8 word list \<Rightarrow> nat \<Rightarrow> 8 word res" where
  "read8 p i = (if i < length p then Inr (p ! i) else Inl OutOfBounds)"

definition XXH_read32 :: "xxh_target \<Rightarrow> 8 word list \<Rightarrow> nat \<Rightarrow> 32 word res" where
  "XXH_read32 t p i =
     (if i + 4 \<le> length p
      then Inr (if little_endian t then le32 (p ! i) (p ! (i+1)) (p ! (i+2)) (p ! (i+3))
                else le32 (p ! (i+3)) (p ! (i+2)) (p ! (i+1)) (p ! i))
      else Inl OutOfBounds)"

definition XXH_read64 :: "xxh_target \<Rightarrow> 8 word list \<Rightarrow> nat \<Rightarrow> 64 word res" where
  "XXH_read64 t p i =
     (if i + 8 \<le> length p
      then Inr (if little_endian t
                then le64 (p ! i) (p ! (i+1)) (p ! (i+2)) (p ! (i+3)) (p ! (i+4)) (p ! (i+5)) (p ! (i+6)) (p ! (i+7))
                else le64 (p ! (i+7)) (p ! (i+6)) (p ! (i+5)) (p ! (i+4)) (p ! (i+3)) (p ! (i+2)) (p ! (i+1)) (p ! i))
      else Inl OutOfBounds)"

definition XXH_swap32 :: "32 word \<Rightarrow> 32 word" where
  "XXH_swap32 x = (push_bit 24 x AND 0xff000000) OR (push_bit 8 x AND 0x00ff0000) OR (drop_bit 8 x AND 0x0000ff00) OR
     (drop_bit 24 x AND 0x000000ff)"

definition XXH_swap64 :: "64 word \<Rightarrow> 64 word" where
  "XXH_swap64 x = (push_bit 56 x AND 0xff00000000000000) OR (push_bit 40 x AND 0x00ff000000000000) OR
     (push_bit 24 x AND 0x0000ff0000000000) OR (push_bit 8 x AND 0x000000ff00000000) OR
     (drop_bit 8 x AND 0x00000000ff000000) OR (drop_bit 24 x AND 0x0000000000ff0000) OR
     (drop_bit 40 x AND 0x000000000000ff00) OR (drop_bit 56 x AND 0x00000000000000ff)"

definition XXH_readLE32 :: "xxh_target \<Rightarrow> 8 word list \<Rightarrow> nat \<Rightarrow> 32 word res" where
  "XXH_readLE32 t p i = andthen (XXH_read32 t p i) (\<lambda>v. Inr (if little_endian t then v else XXH_swap32 v))"

definition XXH_readLE64 :: "xxh_target \<Rightarrow> 8 word list \<Rightarrow> nat \<Rightarrow> 64 word res" where
  "XXH_readLE64 t p i = andthen (XXH_read64 t p i) (\<lambda>v. Inr (if little_endian t then v else XXH_swap64 v))"

subsection \<open>Arithmetic\<close>

definition XXH_rotl32 :: "32 word \<Rightarrow> nat \<Rightarrow> 32 word" where
  "XXH_rotl32 x r = push_bit r x OR drop_bit (32 - r) x"

definition XXH_mult32to64 :: "64 word \<Rightarrow> 64 word \<Rightarrow> 64 word" where
  "XXH_mult32to64 x y = ucast (ucast x :: 32 word) * ucast (ucast y :: 32 word)"

text \<open>The product of \<open>__uint128_t\<close>, and the portable way through the four products of the halves.\<close>

definition XXH_mult64to128_int128 :: "64 word \<Rightarrow> 64 word \<Rightarrow> XXH128_hash_t" where
  "XXH_mult64to128_int128 lhs rhs =
     (let product = (ucast lhs * ucast rhs :: 128 word) in \<lparr>low64 = ucast product, high64 = ucast (drop_bit 64 product)\<rparr>)"

definition XXH_mult64to128_portable :: "64 word \<Rightarrow> 64 word \<Rightarrow> XXH128_hash_t" where
  "XXH_mult64to128_portable lhs rhs =
     (let lo_lo = XXH_mult32to64 (lhs AND 0xFFFFFFFF) (rhs AND 0xFFFFFFFF);
          hi_lo = XXH_mult32to64 (drop_bit 32 lhs) (rhs AND 0xFFFFFFFF);
          lo_hi = XXH_mult32to64 (lhs AND 0xFFFFFFFF) (drop_bit 32 rhs);
          hi_hi = XXH_mult32to64 (drop_bit 32 lhs) (drop_bit 32 rhs);
          cross = drop_bit 32 lo_lo + (hi_lo AND 0xFFFFFFFF) + lo_hi;
          upper = drop_bit 32 hi_lo + drop_bit 32 cross + hi_hi;
          lower = push_bit 32 cross OR (lo_lo AND 0xFFFFFFFF)
      in \<lparr>low64 = lower, high64 = upper\<rparr>)"

definition XXH_mult64to128 :: "xxh_target \<Rightarrow> 64 word \<Rightarrow> 64 word \<Rightarrow> XXH128_hash_t" where
  "XXH_mult64to128 t lhs rhs = (if has_int128 t then XXH_mult64to128_int128 lhs rhs else XXH_mult64to128_portable lhs rhs)"

definition XXH3_mul128_fold64 :: "xxh_target \<Rightarrow> 64 word \<Rightarrow> 64 word \<Rightarrow> 64 word" where
  "XXH3_mul128_fold64 t lhs rhs = (let product = XXH_mult64to128 t lhs rhs in low64 product XOR high64 product)"

definition XXH_xorshift64 :: "64 word \<Rightarrow> nat \<Rightarrow> 64 word" where
  "XXH_xorshift64 v64 shift = v64 XOR drop_bit shift v64"

definition XXH64_avalanche :: "64 word \<Rightarrow> 64 word" where
  "XXH64_avalanche hash =
     (let hash = hash XOR drop_bit 33 hash; hash = hash * XXH_PRIME64_2; hash = hash XOR drop_bit 29 hash;
          hash = hash * XXH_PRIME64_3; hash = hash XOR drop_bit 32 hash in hash)"

definition XXH3_avalanche :: "64 word \<Rightarrow> 64 word" where
  "XXH3_avalanche h64 = (let h64 = XXH_xorshift64 h64 37; h64 = h64 * PRIME_MX1; h64 = XXH_xorshift64 h64 32 in h64)"

subsection \<open>Up to 16 bytes\<close>

definition XXH3_len_1to3_128b :: "xxh_target \<Rightarrow> 8 word list \<Rightarrow> nat \<Rightarrow> 8 word list \<Rightarrow> 64 word \<Rightarrow> XXH128_hash_t res" where
  "XXH3_len_1to3_128b t input len secret seed =
     andthen (read8 input 0) (\<lambda>c1. andthen (read8 input (len div 2)) (\<lambda>c2. andthen (read8 input (len - 1)) (\<lambda>c3.
     andthen (XXH_readLE32 t secret 0) (\<lambda>s0. andthen (XXH_readLE32 t secret 4) (\<lambda>s4.
     andthen (XXH_readLE32 t secret 8) (\<lambda>s8. andthen (XXH_readLE32 t secret 12) (\<lambda>s12.
       let combinedl = push_bit 16 (ucast c1) OR push_bit 24 (ucast c2) OR ucast c3 OR push_bit 8 (of_nat len) :: 32 word;
           combinedh = XXH_rotl32 (XXH_swap32 combinedl) 13;
           bitflipl = ucast (s0 XOR s4) + seed;
           bitfliph = ucast (s8 XOR s12) - seed;
           keyed_lo = ucast combinedl XOR bitflipl;
           keyed_hi = ucast combinedh XOR bitfliph
       in Inr \<lparr>low64 = XXH64_avalanche keyed_lo, high64 = XXH64_avalanche keyed_hi\<rparr>)))))))"

definition XXH3_len_4to8_128b :: "xxh_target \<Rightarrow> 8 word list \<Rightarrow> nat \<Rightarrow> 8 word list \<Rightarrow> 64 word \<Rightarrow> XXH128_hash_t res" where
  "XXH3_len_4to8_128b t input len secret seed =
     (let seed = seed XOR push_bit 32 (ucast (XXH_swap32 (ucast seed))) in
      andthen (XXH_readLE32 t input 0) (\<lambda>input_lo. andthen (XXH_readLE32 t input (len - 4)) (\<lambda>input_hi.
      andthen (XXH_readLE64 t secret 16) (\<lambda>s16. andthen (XXH_readLE64 t secret 24) (\<lambda>s24.
        let input_64 = ucast input_lo + push_bit 32 (ucast input_hi);
            bitflip = (s16 XOR s24) + seed;
            keyed = input_64 XOR bitflip;
            m128 = XXH_mult64to128 t keyed (XXH_PRIME64_1 + push_bit 2 (of_nat len));
            m128 = m128\<lparr>high64 := high64 m128 + push_bit 1 (low64 m128)\<rparr>;
            m128 = m128\<lparr>low64 := low64 m128 XOR drop_bit 3 (high64 m128)\<rparr>;
            m128 = m128\<lparr>low64 := XXH_xorshift64 (low64 m128) 35\<rparr>;
            m128 = m128\<lparr>low64 := low64 m128 * PRIME_MX2\<rparr>;
            m128 = m128\<lparr>low64 := XXH_xorshift64 (low64 m128) 28\<rparr>;
            m128 = m128\<lparr>high64 := XXH3_avalanche (high64 m128)\<rparr>
        in Inr m128)))))"

text \<open>The high half is completed in one of two ways, for narrow and for wide pointers.\<close>

definition add_input_hi :: "xxh_target \<Rightarrow> 64 word \<Rightarrow> 64 word" where
  "add_input_hi t input_hi =
     (if \<not> wide_pointers t then (input_hi AND 0xFFFFFFFF00000000) + XXH_mult32to64 (ucast (ucast input_hi :: 32 word)) (ucast XXH_PRIME32_2)
      else input_hi + XXH_mult32to64 (ucast (ucast input_hi :: 32 word)) (ucast (XXH_PRIME32_2 - 1)))"

definition XXH3_len_9to16_128b :: "xxh_target \<Rightarrow> 8 word list \<Rightarrow> nat \<Rightarrow> 8 word list \<Rightarrow> 64 word \<Rightarrow> XXH128_hash_t res" where
  "XXH3_len_9to16_128b t input len secret seed =
     andthen (XXH_readLE64 t secret 32) (\<lambda>s32. andthen (XXH_readLE64 t secret 40) (\<lambda>s40.
     andthen (XXH_readLE64 t secret 48) (\<lambda>s48. andthen (XXH_readLE64 t secret 56) (\<lambda>s56.
     andthen (XXH_readLE64 t input 0) (\<lambda>input_lo. andthen (XXH_readLE64 t input (len - 8)) (\<lambda>input_hi.
       let bitflipl = (s32 XOR s40) - seed;
           bitfliph = (s48 XOR s56) + seed;
           m128 = XXH_mult64to128 t (input_lo XOR input_hi XOR bitflipl) XXH_PRIME64_1;
           m128 = m128\<lparr>low64 := low64 m128 + push_bit 54 (of_nat (len - 1))\<rparr>;
           input_hi = input_hi XOR bitfliph;
           m128 = m128\<lparr>high64 := high64 m128 + add_input_hi t input_hi\<rparr>;
           m128 = m128\<lparr>low64 := low64 m128 XOR XXH_swap64 (high64 m128)\<rparr>;
           h128 = XXH_mult64to128 t (low64 m128) XXH_PRIME64_2;
           h128 = h128\<lparr>high64 := high64 h128 + high64 m128 * XXH_PRIME64_2\<rparr>;
           h128 = h128\<lparr>low64 := XXH3_avalanche (low64 h128)\<rparr>;
           h128 = h128\<lparr>high64 := XXH3_avalanche (high64 h128)\<rparr>
       in Inr h128))))))"

definition XXH3_len_0to16_128b :: "xxh_target \<Rightarrow> 8 word list \<Rightarrow> nat \<Rightarrow> 8 word list \<Rightarrow> 64 word \<Rightarrow> XXH128_hash_t res" where
  "XXH3_len_0to16_128b t input len secret seed =
     (if len > 8 then XXH3_len_9to16_128b t input len secret seed
      else if len \<ge> 4 then XXH3_len_4to8_128b t input len secret seed
      else if len \<noteq> 0 then XXH3_len_1to3_128b t input len secret seed
      else andthen (XXH_readLE64 t secret 64) (\<lambda>s64. andthen (XXH_readLE64 t secret 72) (\<lambda>s72.
           andthen (XXH_readLE64 t secret 80) (\<lambda>s80. andthen (XXH_readLE64 t secret 88) (\<lambda>s88.
             let bitflipl = s64 XOR s72; bitfliph = s80 XOR s88
             in Inr \<lparr>low64 = XXH64_avalanche (seed XOR bitflipl), high64 = XXH64_avalanche (seed XOR bitfliph)\<rparr>)))))"

subsection \<open>Up to 240 bytes\<close>

definition XXH3_mix16B :: "xxh_target \<Rightarrow> 8 word list \<Rightarrow> nat \<Rightarrow> 8 word list \<Rightarrow> nat \<Rightarrow> 64 word \<Rightarrow> 64 word res" where
  "XXH3_mix16B t input i secret k seed64 =
     andthen (XXH_readLE64 t input i) (\<lambda>input_lo. andthen (XXH_readLE64 t input (i + 8)) (\<lambda>input_hi.
     andthen (XXH_readLE64 t secret k) (\<lambda>s_lo. andthen (XXH_readLE64 t secret (k + 8)) (\<lambda>s_hi.
       Inr (XXH3_mul128_fold64 t (input_lo XOR (s_lo + seed64)) (input_hi XOR (s_hi - seed64)))))))"

definition XXH128_mix32B ::
  "xxh_target \<Rightarrow> 8 word list \<Rightarrow> nat \<Rightarrow> nat \<Rightarrow> 8 word list \<Rightarrow> nat \<Rightarrow> 64 word \<Rightarrow> XXH128_hash_t \<Rightarrow> XXH128_hash_t res" where
  "XXH128_mix32B t input i1 i2 secret k seed acc =
     andthen (XXH3_mix16B t input i1 secret k seed) (\<lambda>m1. let acc = acc\<lparr>low64 := low64 acc + m1\<rparr> in
     andthen (XXH_readLE64 t input i2) (\<lambda>a. andthen (XXH_readLE64 t input (i2 + 8)) (\<lambda>b.
       let acc = acc\<lparr>low64 := low64 acc XOR (a + b)\<rparr> in
     andthen (XXH3_mix16B t input i2 secret (k + 16) seed) (\<lambda>m2. let acc = acc\<lparr>high64 := high64 acc + m2\<rparr> in
     andthen (XXH_readLE64 t input i1) (\<lambda>c. andthen (XXH_readLE64 t input (i1 + 8)) (\<lambda>d.
       Inr (acc\<lparr>high64 := high64 acc XOR (c + d)\<rparr>)))))))"

text \<open>The end of both functions for inputs of medium length.\<close>

definition finish_mid :: "nat \<Rightarrow> 64 word \<Rightarrow> XXH128_hash_t \<Rightarrow> XXH128_hash_t" where
  "finish_mid len seed acc =
     (let lo = low64 acc + high64 acc;
          hi = low64 acc * XXH_PRIME64_1 + high64 acc * XXH_PRIME64_4 + (of_nat len - seed) * XXH_PRIME64_2
      in \<lparr>low64 = XXH3_avalanche lo, high64 = 0 - XXH3_avalanche hi\<rparr>)"

text \<open>The loop of the version for small code, from round \<open>i\<close> down to 0.\<close>

primrec small_loop :: "xxh_target \<Rightarrow> 8 word list \<Rightarrow> nat \<Rightarrow> 8 word list \<Rightarrow> 64 word \<Rightarrow> nat \<Rightarrow> XXH128_hash_t \<Rightarrow> XXH128_hash_t res" where
  "small_loop t input len secret seed 0 acc = XXH128_mix32B t input 0 (len - 16) secret 0 seed acc"
| "small_loop t input len secret seed (Suc i) acc =
     andthen (XXH128_mix32B t input (16 * Suc i) (len - 16 * (Suc i + 1)) secret (32 * Suc i) seed acc)
       (small_loop t input len secret seed i)"

definition XXH3_len_17to128_128b :: "xxh_target \<Rightarrow> 8 word list \<Rightarrow> nat \<Rightarrow> 8 word list \<Rightarrow> 64 word \<Rightarrow> XXH128_hash_t res" where
  "XXH3_len_17to128_128b t input len secret seed =
     (let acc = \<lparr>low64 = of_nat len * XXH_PRIME64_1, high64 = 0\<rparr>; mix = XXH128_mix32B t input in
      andthen (if size_opt t then small_loop t input len secret seed ((len - 1) div 32) acc
               else andthen (if len > 32
                     then andthen (if len > 64
                          then andthen (if len > 96 then mix 48 (len - 64) secret 96 seed acc else Inr acc)
                            (mix 32 (len - 48) secret 64 seed)
                          else Inr acc)
                       (mix 16 (len - 32) secret 32 seed)
                     else Inr acc)
                 (mix 0 (len - 16) secret 0 seed)) (\<lambda>acc.
        Inr (finish_mid len seed acc)))"

primrec each_step :: "('a \<Rightarrow> 's \<Rightarrow> 's res) \<Rightarrow> 'a list \<Rightarrow> 's \<Rightarrow> 's res" where
  "each_step f [] s = Inr s"
| "each_step f (x # xs) s = andthen (f x s) (each_step f xs)"

text \<open>The counters of the two loops run over 32, 64, 96, 128 and over the \<open>160 + 32 * n\<close> up to the length.\<close>

definition XXH3_len_129to240_128b :: "xxh_target \<Rightarrow> 8 word list \<Rightarrow> nat \<Rightarrow> 8 word list \<Rightarrow> 64 word \<Rightarrow> XXH128_hash_t res" where
  "XXH3_len_129to240_128b t input len secret seed =
     (let acc = \<lparr>low64 = of_nat len * XXH_PRIME64_1, high64 = 0\<rparr> in
      andthen (each_step (\<lambda>i. XXH128_mix32B t input (i - 32) (i - 16) secret (i - 32) seed) [32, 64, 96, 128] acc) (\<lambda>acc.
      let acc = acc\<lparr>low64 := XXH3_avalanche (low64 acc)\<rparr>; acc = acc\<lparr>high64 := XXH3_avalanche (high64 acc)\<rparr> in
      andthen (each_step (\<lambda>i. XXH128_mix32B t input (i - 32) (i - 16) secret (XXH3_MIDSIZE_STARTOFFSET + i - 160) seed)
          (map (\<lambda>n. 160 + 32 * n) [0..<(len - 128) div 32]) acc) (\<lambda>acc.
      andthen (XXH128_mix32B t input (len - 16) (len - 32) secret (XXH3_SECRET_SIZE_MIN - XXH3_MIDSIZE_LASTOFFSET - 16) (0 - seed) acc) (\<lambda>acc.
        Inr (finish_mid len seed acc)))))"

end
