(* ===== verification/XXH3_Lanes.thy ===== *)
theory XXH3_Lanes
  imports XXH3
begin

section \<open>One stripe of XXH3: portable, SSE2, AVX2 and AVX512\<close>

text \<open>
  Inputs of more than 240 bytes go through eight accumulators, stripe by stripe of 64 bytes.  The stripe and the scrambling step exist
  as portable code and for SSE2, AVX2 and AVX512.  A vector register is the list of its 64-bit lanes; the intrinsics are defined lane by lane.
\<close>

subsection \<open>Portable steps\<close>

definition XXH_mult32to64_add64 :: "64 word \<Rightarrow> 64 word \<Rightarrow> 64 word \<Rightarrow> 64 word" where
  "XXH_mult32to64_add64 lhs rhs acc = XXH_mult32to64 (ucast (ucast lhs :: 32 word)) (ucast (ucast rhs :: 32 word)) + acc"

definition XXH3_scalarRound ::
  "xxh_target \<Rightarrow> 8 word list \<Rightarrow> nat \<Rightarrow> 8 word list \<Rightarrow> nat \<Rightarrow> nat \<Rightarrow> 64 word list \<Rightarrow> 64 word list res" where
  "XXH3_scalarRound t input i secret k lane acc =
     andthen (XXH_readLE64 t input (i + lane * 8)) (\<lambda>data_val.
     andthen (XXH_readLE64 t secret (k + lane * 8)) (\<lambda>key.
       let data_key = data_val XOR key;
           acc = acc[lane XOR 1 := acc ! (lane XOR 1) + data_val];
           acc = acc[lane := XXH_mult32to64_add64 data_key (drop_bit 32 data_key) (acc ! lane)]
       in Inr acc))"

definition XXH3_accumulate_512_scalar ::
  "xxh_target \<Rightarrow> 8 word list \<Rightarrow> nat \<Rightarrow> 8 word list \<Rightarrow> nat \<Rightarrow> 64 word list \<Rightarrow> 64 word list res" where
  "XXH3_accumulate_512_scalar t input i secret k acc = each_step (XXH3_scalarRound t input i secret k) [0..<XXH_ACC_NB] acc"

definition XXH3_scalarScrambleRound ::
  "xxh_target \<Rightarrow> 8 word list \<Rightarrow> nat \<Rightarrow> nat \<Rightarrow> 64 word list \<Rightarrow> 64 word list res" where
  "XXH3_scalarScrambleRound t secret k lane acc =
     andthen (XXH_readLE64 t secret (k + lane * 8)) (\<lambda>key64.
       let acc64 = acc ! lane; acc64 = XXH_xorshift64 acc64 47; acc64 = acc64 XOR key64; acc64 = acc64 * ucast XXH_PRIME32_1
       in Inr (acc[lane := acc64]))"

definition XXH3_scrambleAcc_scalar :: "xxh_target \<Rightarrow> 8 word list \<Rightarrow> nat \<Rightarrow> 64 word list \<Rightarrow> 64 word list res" where
  "XXH3_scrambleAcc_scalar t secret k acc = each_step (XXH3_scalarScrambleRound t secret k) [0..<XXH_ACC_NB] acc"

subsection \<open>Vector registers\<close>

type_synonym lanes = "64 word list"

primrec mm_loadu :: "nat \<Rightarrow> xxh_target \<Rightarrow> 8 word list \<Rightarrow> nat \<Rightarrow> lanes res" where
  "mm_loadu 0 t p i = Inr []"
| "mm_loadu (Suc n) t p i = andthen (XXH_read64 t p i) (\<lambda>v. andthen (mm_loadu n t p (i + 8)) (\<lambda>vs. Inr (v # vs)))"

definition mm_xor :: "lanes \<Rightarrow> lanes \<Rightarrow> lanes" where "mm_xor = map2 (XOR)"
definition mm_add_epi64 :: "lanes \<Rightarrow> lanes \<Rightarrow> lanes" where "mm_add_epi64 = map2 (+)"
definition mm_srli_epi64 :: "lanes \<Rightarrow> nat \<Rightarrow> lanes" where "mm_srli_epi64 v n = map (drop_bit n) v"
definition mm_slli_epi64 :: "lanes \<Rightarrow> nat \<Rightarrow> lanes" where "mm_slli_epi64 v n = map (push_bit n) v"

definition mm_mul_epu32 :: "lanes \<Rightarrow> lanes \<Rightarrow> lanes" where
  "mm_mul_epu32 = map2 (\<lambda>a b. ucast (ucast a :: 32 word) * ucast (ucast b :: 32 word))"

definition join32 :: "32 word \<Rightarrow> 32 word \<Rightarrow> 64 word" where
  "join32 lo hi = ucast lo OR push_bit 32 (ucast hi)"

definition mm_set1_epi32 :: "nat \<Rightarrow> 32 word \<Rightarrow> lanes" where
  "mm_set1_epi32 n x = replicate n (join32 x x)"

text \<open>\<open>_MM_SHUFFLE(z, y, x, w)\<close> selects, within each 128 bits, the 32-bit parts that become the parts 3, 2, 1, 0 of the result.\<close>

fun mm_shuffle_epi32 :: "nat \<times> nat \<times> nat \<times> nat \<Rightarrow> lanes \<Rightarrow> lanes" where
  "mm_shuffle_epi32 (z, y, x, w) (a # b # r) =
     (let q = [ucast a, ucast (drop_bit 32 a), ucast b, ucast (drop_bit 32 b)]
      in join32 (q ! w) (q ! x) # join32 (q ! y) (q ! z) # mm_shuffle_epi32 (z, y, x, w) r)"
| "mm_shuffle_epi32 s r = r"

text \<open>The registers of \<open>n\<close> lanes that lie one after the other in the accumulators.\<close>

definition xacc :: "nat \<Rightarrow> 64 word list \<Rightarrow> nat \<Rightarrow> lanes" where
  "xacc n acc i = take n (drop (n * i) acc)"

definition xacc_put :: "nat \<Rightarrow> 64 word list \<Rightarrow> nat \<Rightarrow> lanes \<Rightarrow> 64 word list" where
  "xacc_put n acc i v = take (n * i) acc @ v @ drop (n * (i + 1)) acc"

subsection \<open>SSE2\<close>

definition XXH3_accumulate_512_sse2 ::
  "xxh_target \<Rightarrow> 8 word list \<Rightarrow> nat \<Rightarrow> 8 word list \<Rightarrow> nat \<Rightarrow> 64 word list \<Rightarrow> 64 word list res" where
  "XXH3_accumulate_512_sse2 t input i0 secret k0 =
     each_step (\<lambda>i acc.
       andthen (mm_loadu 2 t input (i0 + 16 * i)) (\<lambda>data_vec.
       andthen (mm_loadu 2 t secret (k0 + 16 * i)) (\<lambda>key_vec.
         let data_key = mm_xor data_vec key_vec;
             data_key_lo = mm_shuffle_epi32 (0, 3, 0, 1) data_key;
             product = mm_mul_epu32 data_key data_key_lo;
             data_swap = mm_shuffle_epi32 (1, 0, 3, 2) data_vec;
             sum = mm_add_epi64 (xacc 2 acc i) data_swap
         in Inr (xacc_put 2 acc i (mm_add_epi64 product sum))))) [0..<4]"

definition XXH3_scrambleAcc_sse2 :: "xxh_target \<Rightarrow> 8 word list \<Rightarrow> nat \<Rightarrow> 64 word list \<Rightarrow> 64 word list res" where
  "XXH3_scrambleAcc_sse2 t secret k0 =
     (let prime32 = mm_set1_epi32 2 XXH_PRIME32_1 in
      each_step (\<lambda>i acc.
        let acc_vec = xacc 2 acc i;
            shifted = mm_srli_epi64 acc_vec 47;
            data_vec = mm_xor acc_vec shifted in
        andthen (mm_loadu 2 t secret (k0 + 16 * i)) (\<lambda>key_vec.
          let data_key = mm_xor data_vec key_vec;
              data_key_hi = mm_shuffle_epi32 (0, 3, 0, 1) data_key;
              prod_lo = mm_mul_epu32 data_key prime32;
              prod_hi = mm_mul_epu32 data_key_hi prime32
          in Inr (xacc_put 2 acc i (mm_add_epi64 prod_lo (mm_slli_epi64 prod_hi 32))))) [0..<4])"

subsection \<open>AVX2\<close>

definition XXH3_accumulate_512_avx2 ::
  "xxh_target \<Rightarrow> 8 word list \<Rightarrow> nat \<Rightarrow> 8 word list \<Rightarrow> nat \<Rightarrow> 64 word list \<Rightarrow> 64 word list res" where
  "XXH3_accumulate_512_avx2 t input i0 secret k0 =
     each_step (\<lambda>i acc.
       andthen (mm_loadu 4 t input (i0 + 32 * i)) (\<lambda>data_vec.
       andthen (mm_loadu 4 t secret (k0 + 32 * i)) (\<lambda>key_vec.
         let data_key = mm_xor data_vec key_vec;
             data_key_lo = mm_srli_epi64 data_key 32;
             product = mm_mul_epu32 data_key data_key_lo;
             data_swap = mm_shuffle_epi32 (1, 0, 3, 2) data_vec;
             sum = mm_add_epi64 (xacc 4 acc i) data_swap
         in Inr (xacc_put 4 acc i (mm_add_epi64 product sum))))) [0..<2]"

definition XXH3_scrambleAcc_avx2 :: "xxh_target \<Rightarrow> 8 word list \<Rightarrow> nat \<Rightarrow> 64 word list \<Rightarrow> 64 word list res" where
  "XXH3_scrambleAcc_avx2 t secret k0 =
     (let prime32 = mm_set1_epi32 4 XXH_PRIME32_1 in
      each_step (\<lambda>i acc.
        let acc_vec = xacc 4 acc i;
            shifted = mm_srli_epi64 acc_vec 47;
            data_vec = mm_xor acc_vec shifted in
        andthen (mm_loadu 4 t secret (k0 + 32 * i)) (\<lambda>key_vec.
          let data_key = mm_xor data_vec key_vec;
              data_key_hi = mm_srli_epi64 data_key 32;
              prod_lo = mm_mul_epu32 data_key prime32;
              prod_hi = mm_mul_epu32 data_key_hi prime32
          in Inr (xacc_put 4 acc i (mm_add_epi64 prod_lo (mm_slli_epi64 prod_hi 32))))) [0..<2])"

subsection \<open>AVX512\<close>

definition XXH3_accumulate_512_avx512 ::
  "xxh_target \<Rightarrow> 8 word list \<Rightarrow> nat \<Rightarrow> 8 word list \<Rightarrow> nat \<Rightarrow> 64 word list \<Rightarrow> 64 word list res" where
  "XXH3_accumulate_512_avx512 t input i0 secret k0 acc =
     andthen (mm_loadu 8 t input i0) (\<lambda>data_vec.
     andthen (mm_loadu 8 t secret k0) (\<lambda>key_vec.
       let data_key = mm_xor data_vec key_vec;
           data_key_lo = mm_srli_epi64 data_key 32;
           product = mm_mul_epu32 data_key data_key_lo;
           data_swap = mm_shuffle_epi32 (1, 0, 3, 2) data_vec;
           sum = mm_add_epi64 (xacc 8 acc 0) data_swap
       in Inr (xacc_put 8 acc 0 (mm_add_epi64 product sum))))"

text \<open>\<open>_mm512_ternarylogic_epi32\<close> with \<open>0x96\<close> is the exclusive or of three registers.\<close>

definition mm_ternarylogic_96 :: "lanes \<Rightarrow> lanes \<Rightarrow> lanes \<Rightarrow> lanes" where
  "mm_ternarylogic_96 a b c = mm_xor a (mm_xor b c)"

definition XXH3_scrambleAcc_avx512 :: "xxh_target \<Rightarrow> 8 word list \<Rightarrow> nat \<Rightarrow> 64 word list \<Rightarrow> 64 word list res" where
  "XXH3_scrambleAcc_avx512 t secret k0 acc =
     (let prime32 = mm_set1_epi32 8 XXH_PRIME32_1;
          acc_vec = xacc 8 acc 0;
          shifted = mm_srli_epi64 acc_vec 47 in
      andthen (mm_loadu 8 t secret k0) (\<lambda>key_vec.
        let data_key = mm_ternarylogic_96 key_vec acc_vec shifted;
            data_key_hi = mm_srli_epi64 data_key 32;
            prod_lo = mm_mul_epu32 data_key prime32;
            prod_hi = mm_mul_epu32 data_key_hi prime32
        in Inr (xacc_put 8 acc 0 (mm_add_epi64 prod_lo (mm_slli_epi64 prod_hi 32)))))"

end
