(* ===== verification/XXH3_Arm.thy ===== *)
theory XXH3_Arm
  imports XXH3_Lanes
begin

unbundle bit_operations_syntax

section \<open>One stripe of XXH3 with NEON, VSX and SVE\<close>

text \<open>
  The vector units of ARM, POWER and System z.  A register is the list of its lanes, of 64 or 32 bits; exclusive or, sum and shift of lanes of 64 bits are the
  operations of theory XXH3_Lanes, and the other intrinsics and instructions are defined lane by lane.
\<close>

subsection \<open>NEON\<close>

primrec XXH3_NEON_LANES :: "neon_lanes \<Rightarrow> nat" where
  "XXH3_NEON_LANES Neon2 = 2" | "XXH3_NEON_LANES Neon4 = 4" | "XXH3_NEON_LANES Neon6 = 6" | "XXH3_NEON_LANES Neon8 = 8"

type_synonym parts32 = "32 word list"

definition vreinterpretq_u32_u64 :: "lanes \<Rightarrow> parts32" where
  "vreinterpretq_u32_u64 v = concat (map (\<lambda>x. [ucast x, ucast (drop_bit 32 x)]) v)"

fun vreinterpretq_u64_u32 :: "parts32 \<Rightarrow> lanes" where
  "vreinterpretq_u64_u32 (lo # hi # r) = join32 lo hi # vreinterpretq_u64_u32 r"
| "vreinterpretq_u64_u32 r = []"

definition vextq_u64 :: "lanes \<Rightarrow> lanes \<Rightarrow> nat \<Rightarrow> lanes" where
  "vextq_u64 a b n = take (length a) (drop n (a @ b))"

definition vuzpq_u32 :: "parts32 \<Rightarrow> parts32 \<Rightarrow> parts32 \<times> parts32" where
  "vuzpq_u32 a b = (let v = a @ b in ([v ! 0, v ! 2, v ! 4, v ! 6], [v ! 1, v ! 3, v ! 5, v ! 7]))"

definition vget_low_u32 :: "parts32 \<Rightarrow> parts32" where "vget_low_u32 v = take 2 v"
definition vget_high_u32 :: "parts32 \<Rightarrow> parts32" where "vget_high_u32 v = drop 2 v"
definition vmovn_u64 :: "lanes \<Rightarrow> parts32" where "vmovn_u64 v = map ucast v"
definition vshrn_n_u64 :: "lanes \<Rightarrow> nat \<Rightarrow> parts32" where "vshrn_n_u64 v n = map (\<lambda>x. ucast (drop_bit n x)) v"
definition vmulq_u32 :: "parts32 \<Rightarrow> parts32 \<Rightarrow> parts32" where "vmulq_u32 = map2 (*)"

definition vmlal_u32 :: "lanes \<Rightarrow> parts32 \<Rightarrow> parts32 \<Rightarrow> lanes" where
  "vmlal_u32 acc a b = map2 (+) acc (map2 (\<lambda>x y. ucast x * ucast y) a b)"

definition XXH_vmlal_low_u32 :: "lanes \<Rightarrow> parts32 \<Rightarrow> parts32 \<Rightarrow> lanes" where
  "XXH_vmlal_low_u32 acc lhs rhs = vmlal_u32 acc (vget_low_u32 lhs) (vget_low_u32 rhs)"

definition XXH_vmlal_high_u32 :: "lanes \<Rightarrow> parts32 \<Rightarrow> parts32 \<Rightarrow> lanes" where
  "XXH_vmlal_high_u32 acc lhs rhs = vmlal_u32 acc (vget_high_u32 lhs) (vget_high_u32 rhs)"

definition XXH_vld1q_u64 :: "xxh_target \<Rightarrow> 8 word list \<Rightarrow> nat \<Rightarrow> lanes res" where
  "XXH_vld1q_u64 t p i = mm_loadu 2 t p i"

text \<open>The lanes from \<open>XXH3_NEON_LANES\<close> on are portable, then four lanes at a time, then two.\<close>

definition neon_four ::
  "xxh_target \<Rightarrow> 8 word list \<Rightarrow> nat \<Rightarrow> 8 word list \<Rightarrow> nat \<Rightarrow> nat \<Rightarrow> 64 word list \<Rightarrow> 64 word list res" where
  "neon_four t input i0 secret k0 i acc =
     andthen (XXH_vld1q_u64 t input (i0 + i * 16)) (\<lambda>data_vec_1.
     andthen (XXH_vld1q_u64 t input (i0 + (i + 1) * 16)) (\<lambda>data_vec_2.
     andthen (XXH_vld1q_u64 t secret (k0 + i * 16)) (\<lambda>key_vec_1.
     andthen (XXH_vld1q_u64 t secret (k0 + (i + 1) * 16)) (\<lambda>key_vec_2.
       let data_swap_1 = vextq_u64 data_vec_1 data_vec_1 1;
           data_swap_2 = vextq_u64 data_vec_2 data_vec_2 1;
           data_key_1 = mm_xor data_vec_1 key_vec_1;
           data_key_2 = mm_xor data_vec_2 key_vec_2;
           unzipped = vuzpq_u32 (vreinterpretq_u32_u64 data_key_1) (vreinterpretq_u32_u64 data_key_2);
           data_key_lo = fst unzipped;
           data_key_hi = snd unzipped;
           sum_1 = XXH_vmlal_low_u32 data_swap_1 data_key_lo data_key_hi;
           sum_2 = XXH_vmlal_high_u32 data_swap_2 data_key_lo data_key_hi;
           acc = xacc_put 2 acc i (mm_add_epi64 (xacc 2 acc i) sum_1)
       in Inr (xacc_put 2 acc (i + 1) (mm_add_epi64 (xacc 2 acc (i + 1)) sum_2))))))"

definition neon_two ::
  "xxh_target \<Rightarrow> 8 word list \<Rightarrow> nat \<Rightarrow> 8 word list \<Rightarrow> nat \<Rightarrow> nat \<Rightarrow> 64 word list \<Rightarrow> 64 word list res" where
  "neon_two t input i0 secret k0 i acc =
     andthen (XXH_vld1q_u64 t input (i0 + i * 16)) (\<lambda>data_vec.
     andthen (XXH_vld1q_u64 t secret (k0 + i * 16)) (\<lambda>key_vec.
       let data_swap = vextq_u64 data_vec data_vec 1;
           data_key = mm_xor data_vec key_vec;
           data_key_lo = vmovn_u64 data_key;
           data_key_hi = vshrn_n_u64 data_key 32;
           sum = vmlal_u32 data_swap data_key_lo data_key_hi
       in Inr (xacc_put 2 acc i (mm_add_epi64 (xacc 2 acc i) sum))))"

definition XXH3_accumulate_512_neon ::
  "neon_lanes \<Rightarrow> xxh_target \<Rightarrow> 8 word list \<Rightarrow> nat \<Rightarrow> 8 word list \<Rightarrow> nat \<Rightarrow> 64 word list \<Rightarrow> 64 word list res" where
  "XXH3_accumulate_512_neon l t input i0 secret k0 acc =
     andthen (each_step (XXH3_scalarRound t input i0 secret k0) [XXH3_NEON_LANES l..<XXH_ACC_NB] acc) (\<lambda>acc.
     andthen (each_step (neon_four t input i0 secret k0) (map (\<lambda>j. 2 * j) [0..<XXH3_NEON_LANES l div 4]) acc)
       (each_step (neon_two t input i0 secret k0) [2 * (XXH3_NEON_LANES l div 4)..<XXH3_NEON_LANES l div 2]))"

text \<open>WebAssembly multiplies lanes of 64 bits; elsewhere the product is put together from its halves.\<close>

definition neon_scramble_two :: "bool \<Rightarrow> xxh_target \<Rightarrow> 8 word list \<Rightarrow> nat \<Rightarrow> nat \<Rightarrow> 64 word list \<Rightarrow> 64 word list res" where
  "neon_scramble_two wasm t secret k0 i acc =
     (let kPrimeLo = replicate 2 XXH_PRIME32_1;
          kPrimeHi = vreinterpretq_u32_u64 (replicate 2 (push_bit 32 (ucast XXH_PRIME32_1)));
          acc_vec = xacc 2 acc i;
          shifted = mm_srli_epi64 acc_vec 47;
          data_vec = mm_xor acc_vec shifted in
      andthen (XXH_vld1q_u64 t secret (k0 + i * 16)) (\<lambda>key_vec.
        let data_key = mm_xor data_vec key_vec in
        if wasm then Inr (xacc_put 2 acc i (map (\<lambda>x. x * ucast XXH_PRIME32_1) data_key))
        else let prod_hi = vmulq_u32 (vreinterpretq_u32_u64 data_key) kPrimeHi;
                 data_key_lo = vmovn_u64 data_key
             in Inr (xacc_put 2 acc i (vmlal_u32 (vreinterpretq_u64_u32 prod_hi) data_key_lo kPrimeLo))))"

definition XXH3_scrambleAcc_neon :: "bool \<Rightarrow> neon_lanes \<Rightarrow> xxh_target \<Rightarrow> 8 word list \<Rightarrow> nat \<Rightarrow> 64 word list \<Rightarrow> 64 word list res" where
  "XXH3_scrambleAcc_neon wasm l t secret k0 acc =
     andthen (each_step (XXH3_scalarScrambleRound t secret k0) [XXH3_NEON_LANES l..<XXH_ACC_NB] acc)
       (each_step (neon_scramble_two wasm t secret k0) [0..<XXH3_NEON_LANES l div 2])"

subsection \<open>VSX\<close>

text \<open>
  The byte 0 of a register on a big-endian processor is the highest of its first lane.  \<open>vec_mule\<close> and \<open>vec_mulo\<close> multiply the 32-bit parts with even and odd
  number, counted from there; the code calls the instructions in a way that does not depend on the byte order.
\<close>

definition vec_bytes :: "lanes \<Rightarrow> 8 word list" where
  "vec_bytes v = concat (map (\<lambda>x. map (\<lambda>j. ucast (drop_bit (56 - 8 * j) x)) [0..<8]) v)"

definition bytes_vec :: "8 word list \<Rightarrow> lanes" where
  "bytes_vec b = [le64 (b ! 7) (b ! 6) (b ! 5) (b ! 4) (b ! 3) (b ! 2) (b ! 1) (b ! 0),
     le64 (b ! 15) (b ! 14) (b ! 13) (b ! 12) (b ! 11) (b ! 10) (b ! 9) (b ! 8)]"

definition vec_perm :: "lanes \<Rightarrow> lanes \<Rightarrow> nat list \<Rightarrow> lanes" where
  "vec_perm a b pattern = bytes_vec (map (\<lambda>j. (vec_bytes a @ vec_bytes b) ! (j mod 32)) pattern)"

definition XXH_vec_revb :: "bool \<Rightarrow> lanes \<Rightarrow> lanes" where
  "XXH_vec_revb revb val =
     (if revb then map XXH_swap64 val
      else let vByteSwap = [0x07, 0x06, 0x05, 0x04, 0x03, 0x02, 0x01, 0x00, 0x0F, 0x0E, 0x0D, 0x0C, 0x0B, 0x0A, 0x09, 0x08]
           in vec_perm val val vByteSwap)"

definition XXH_vec_loadu :: "bool \<Rightarrow> xxh_target \<Rightarrow> 8 word list \<Rightarrow> nat \<Rightarrow> lanes res" where
  "XXH_vec_loadu revb t p i = andthen (mm_loadu 2 t p i) (\<lambda>ret. Inr (if \<not> little_endian t then XXH_vec_revb revb ret else ret))"

definition XXH_vec_mulo :: "lanes \<Rightarrow> lanes \<Rightarrow> lanes" where
  "XXH_vec_mulo = map2 (\<lambda>a b. ucast (ucast a :: 32 word) * ucast (ucast b :: 32 word))"

definition XXH_vec_mule :: "lanes \<Rightarrow> lanes \<Rightarrow> lanes" where
  "XXH_vec_mule = map2 (\<lambda>a b. ucast (ucast (drop_bit 32 a) :: 32 word) * ucast (ucast (drop_bit 32 b) :: 32 word))"

definition vec_rl :: "lanes \<Rightarrow> nat \<Rightarrow> lanes" where
  "vec_rl v n = map (\<lambda>x. push_bit n x OR drop_bit (64 - n) x) v"

text \<open>\<open>vec_permi(a, b, 2)\<close> and \<open>vec_xxpermdi(a, b, 2)\<close>: the second lane of \<open>a\<close> and the first of \<open>b\<close>.\<close>

definition vec_permi2 :: "lanes \<Rightarrow> lanes \<Rightarrow> lanes" where
  "vec_permi2 a b = [a ! 1, b ! 0]"

definition XXH3_accumulate_512_vsx ::
  "bool \<Rightarrow> xxh_target \<Rightarrow> 8 word list \<Rightarrow> nat \<Rightarrow> 8 word list \<Rightarrow> nat \<Rightarrow> 64 word list \<Rightarrow> 64 word list res" where
  "XXH3_accumulate_512_vsx revb t input i0 secret k0 =
     each_step (\<lambda>i acc.
       andthen (XXH_vec_loadu revb t input (i0 + 16 * i)) (\<lambda>data_vec.
       andthen (XXH_vec_loadu revb t secret (k0 + 16 * i)) (\<lambda>key_vec.
         let data_key = mm_xor data_vec key_vec;
             shuffled = vec_rl data_key 32;
             product = XXH_vec_mulo data_key shuffled;
             acc_vec = xacc 2 acc i;
             acc_vec = mm_add_epi64 acc_vec product;
             acc_vec = mm_add_epi64 acc_vec (vec_permi2 data_vec data_vec)
         in Inr (xacc_put 2 acc i acc_vec)))) [0..<4]"

definition XXH3_scrambleAcc_vsx :: "bool \<Rightarrow> xxh_target \<Rightarrow> 8 word list \<Rightarrow> nat \<Rightarrow> 64 word list \<Rightarrow> 64 word list res" where
  "XXH3_scrambleAcc_vsx revb t secret k0 =
     (let prime = replicate 2 (join32 XXH_PRIME32_1 XXH_PRIME32_1) in
      each_step (\<lambda>i acc.
        let acc_vec = xacc 2 acc i;
            data_vec = mm_xor acc_vec (mm_srli_epi64 acc_vec 47) in
        andthen (XXH_vec_loadu revb t secret (k0 + 16 * i)) (\<lambda>key_vec.
          let data_key = mm_xor data_vec key_vec;
              prod_even = XXH_vec_mule data_key prime;
              prod_odd = XXH_vec_mulo data_key prime
          in Inr (xacc_put 2 acc i (mm_add_epi64 prod_odd (mm_slli_epi64 prod_even 32))))) [0..<4])"

subsection \<open>SVE\<close>

text \<open>
  A mask enables the first 8, 4 or 2 lanes, depending on the number of lanes that a register has; a register here has the enabled lanes only.  The accumulators fill one, two
  or four registers.
\<close>

definition svcntd :: "nat \<Rightarrow> nat" where
  "svcntd n = 2 * (n + 1)"

definition sve_mask :: "nat \<Rightarrow> nat" where
  "sve_mask element_count = (if element_count \<ge> 8 then 8 else if element_count = 2 then 2 else 4)"

definition svtbl_u64 :: "lanes \<Rightarrow> nat list \<Rightarrow> lanes" where
  "svtbl_u64 v idx = map (\<lambda>j. if j < length v then v ! j else 0) (take (length v) idx)"

definition svextw_u64 :: "lanes \<Rightarrow> lanes" where "svextw_u64 v = map (take_bit 32) v"
definition svmad_u64 :: "lanes \<Rightarrow> lanes \<Rightarrow> lanes \<Rightarrow> lanes" where "svmad_u64 a b c = map2 (+) (map2 (*) a b) c"

definition ACCRND :: "nat \<Rightarrow> nat list \<Rightarrow> xxh_target \<Rightarrow> 8 word list \<Rightarrow> nat \<Rightarrow> 8 word list \<Rightarrow> nat \<Rightarrow> nat \<Rightarrow> lanes \<Rightarrow> lanes res" where
  "ACCRND pg kSwap t xinput i xsecret k offset acc =
     andthen (mm_loadu pg t xinput (i + 8 * offset)) (\<lambda>input_vec.
     andthen (mm_loadu pg t xsecret (k + 8 * offset)) (\<lambda>secret_vec.
       let mixed = mm_xor secret_vec input_vec;
           swapped = svtbl_u64 input_vec kSwap;
           mixed_lo = svextw_u64 mixed;
           mixed_hi = mm_srli_epi64 mixed 32;
           mul = svmad_u64 mixed_lo mixed_hi swapped
       in Inr (mm_add_epi64 acc mul)))"

definition sve_rounds :: "nat \<Rightarrow> xxh_target \<Rightarrow> 8 word list \<Rightarrow> nat \<Rightarrow> 8 word list \<Rightarrow> nat \<Rightarrow> lanes list \<Rightarrow> lanes list res" where
  "sve_rounds element_count t input i secret k =
     (let kSwap = map (\<lambda>j. j XOR 1) [0..<element_count]; pg = sve_mask element_count in
      each_step (\<lambda>r regs. andthen (ACCRND pg kSwap t input i secret k (r * pg) (regs ! r)) (\<lambda>v. Inr (regs[r := v]))) [0..<8 div pg])"

definition sve_load :: "nat \<Rightarrow> 64 word list \<Rightarrow> lanes list" where
  "sve_load pg acc = map (xacc pg acc) [0..<8 div pg]"

definition sve_store :: "nat \<Rightarrow> lanes list \<Rightarrow> 64 word list \<Rightarrow> 64 word list" where
  "sve_store pg regs acc = fold (\<lambda>r acc. xacc_put pg acc r (regs ! r)) [0..<8 div pg] acc"

definition XXH3_accumulate_512_sve ::
  "nat \<Rightarrow> xxh_target \<Rightarrow> 8 word list \<Rightarrow> nat \<Rightarrow> 8 word list \<Rightarrow> nat \<Rightarrow> 64 word list \<Rightarrow> 64 word list res" where
  "XXH3_accumulate_512_sve n t input i secret k acc =
     (let element_count = svcntd n; pg = sve_mask element_count in
      andthen (sve_rounds element_count t input i secret k (sve_load pg acc)) (\<lambda>regs. Inr (sve_store pg regs acc)))"

primrec sve_loop :: "nat \<Rightarrow> xxh_target \<Rightarrow> 8 word list \<Rightarrow> nat \<Rightarrow> 8 word list \<Rightarrow> nat \<Rightarrow> nat \<Rightarrow> lanes list \<Rightarrow> lanes list res" where
  "sve_loop element_count t input i secret k 0 regs = Inr regs"
| "sve_loop element_count t input i secret k (Suc nbStripes) regs =
     andthen (sve_rounds element_count t input i secret k regs) (sve_loop element_count t input (i + 64) secret (k + 8) nbStripes)"

definition XXH3_accumulate_sve ::
  "nat \<Rightarrow> xxh_target \<Rightarrow> 8 word list \<Rightarrow> nat \<Rightarrow> 8 word list \<Rightarrow> nat \<Rightarrow> nat \<Rightarrow> 64 word list \<Rightarrow> 64 word list res" where
  "XXH3_accumulate_sve n t input i secret k nbStripes acc =
     (if nbStripes \<noteq> 0
      then let element_count = svcntd n; pg = sve_mask element_count in
        andthen (sve_loop element_count t input i secret k nbStripes (sve_load pg acc)) (\<lambda>regs. Inr (sve_store pg regs acc))
      else Inr acc)"

end
