(* ===== verification/XXH3_Long.thy ===== *)
theory XXH3_Long
  imports XXH3_Arm
begin

section \<open>XXH3 on long inputs\<close>

text \<open>
  Inputs of more than 240 bytes go through eight accumulators, stripe by stripe of 64 bytes, with the vector unit of the target.  SVE keeps the accumulators in
  registers from stripe to stripe; the other units load and store them for each.
\<close>

subsection \<open>The loop over the stripes\<close>

definition XXH3_accumulate_512 ::
  "xxh_target \<Rightarrow> 8 word list \<Rightarrow> nat \<Rightarrow> 8 word list \<Rightarrow> nat \<Rightarrow> 64 word list \<Rightarrow> 64 word list res" where
  "XXH3_accumulate_512 t = (case simd t of XXH_SCALAR \<Rightarrow> XXH3_accumulate_512_scalar t | XXH_SSE2 \<Rightarrow> XXH3_accumulate_512_sse2 t
     | XXH_AVX2 \<Rightarrow> XXH3_accumulate_512_avx2 t | XXH_AVX512 \<Rightarrow> XXH3_accumulate_512_avx512 t | XXH_NEON wasm l \<Rightarrow> XXH3_accumulate_512_neon l t
     | XXH_VSX revb \<Rightarrow> XXH3_accumulate_512_vsx revb t | XXH_SVE n \<Rightarrow> XXH3_accumulate_512_sve n t)"

definition XXH3_scrambleAcc :: "xxh_target \<Rightarrow> 8 word list \<Rightarrow> nat \<Rightarrow> 64 word list \<Rightarrow> 64 word list res" where
  "XXH3_scrambleAcc t = (case simd t of XXH_SCALAR \<Rightarrow> XXH3_scrambleAcc_scalar t | XXH_SSE2 \<Rightarrow> XXH3_scrambleAcc_sse2 t
     | XXH_AVX2 \<Rightarrow> XXH3_scrambleAcc_avx2 t | XXH_AVX512 \<Rightarrow> XXH3_scrambleAcc_avx512 t | XXH_NEON wasm l \<Rightarrow> XXH3_scrambleAcc_neon wasm l t
     | XXH_VSX revb \<Rightarrow> XXH3_scrambleAcc_vsx revb t | XXH_SVE n \<Rightarrow> XXH3_scrambleAcc_scalar t)"

definition XXH3_ACCUMULATE_TEMPLATE ::
  "xxh_target \<Rightarrow> 8 word list \<Rightarrow> nat \<Rightarrow> 8 word list \<Rightarrow> nat \<Rightarrow> nat \<Rightarrow> 64 word list \<Rightarrow> 64 word list res" where
  "XXH3_ACCUMULATE_TEMPLATE t input i secret k nbStripes =
     each_step (\<lambda>n. XXH3_accumulate_512 t input (i + n * XXH_STRIPE_LEN) secret (k + n * XXH_SECRET_CONSUME_RATE)) [0..<nbStripes]"

definition XXH3_accumulate ::
  "xxh_target \<Rightarrow> 8 word list \<Rightarrow> nat \<Rightarrow> 8 word list \<Rightarrow> nat \<Rightarrow> nat \<Rightarrow> 64 word list \<Rightarrow> 64 word list res" where
  "XXH3_accumulate t = (case simd t of XXH_SVE n \<Rightarrow> XXH3_accumulate_sve n t | _ \<Rightarrow> XXH3_ACCUMULATE_TEMPLATE t)"

definition XXH3_hashLong_internal_loop :: "xxh_target \<Rightarrow> 8 word list \<Rightarrow> nat \<Rightarrow> 8 word list \<Rightarrow> nat \<Rightarrow> 64 word list \<Rightarrow> 64 word list res" where
  "XXH3_hashLong_internal_loop t input len secret secretSize acc =
     (let nbStripesPerBlock = (secretSize - XXH_STRIPE_LEN) div XXH_SECRET_CONSUME_RATE;
          block_len = XXH_STRIPE_LEN * nbStripesPerBlock;
          nb_blocks = (len - 1) div block_len in
      andthen (each_step (\<lambda>n acc.
          andthen (XXH3_accumulate t input (n * block_len) secret 0 nbStripesPerBlock acc)
            (XXH3_scrambleAcc t secret (secretSize - XXH_STRIPE_LEN))) [0..<nb_blocks] acc) (\<lambda>acc.
      let nbStripes = ((len - 1) - block_len * nb_blocks) div XXH_STRIPE_LEN in
      andthen (XXH3_accumulate t input (nb_blocks * block_len) secret 0 nbStripes acc) (\<lambda>acc.
        XXH3_accumulate_512 t input (len - XXH_STRIPE_LEN) secret (secretSize - XXH_STRIPE_LEN - XXH_SECRET_LASTACC_START) acc)))"

definition XXH3_mix2Accs :: "xxh_target \<Rightarrow> 64 word list \<Rightarrow> nat \<Rightarrow> 8 word list \<Rightarrow> nat \<Rightarrow> 64 word res" where
  "XXH3_mix2Accs t acc a secret k =
     andthen (XXH_readLE64 t secret k) (\<lambda>s. andthen (XXH_readLE64 t secret (k + 8)) (\<lambda>s'.
       Inr (XXH3_mul128_fold64 t (acc ! a XOR s) (acc ! (a + 1) XOR s'))))"

definition XXH3_mergeAccs :: "xxh_target \<Rightarrow> 64 word list \<Rightarrow> 8 word list \<Rightarrow> nat \<Rightarrow> 64 word \<Rightarrow> 64 word res" where
  "XXH3_mergeAccs t acc secret k start =
     andthen (each_step (\<lambda>i result64. andthen (XXH3_mix2Accs t acc (2 * i) secret (k + 16 * i)) (\<lambda>m. Inr (result64 + m))) [0..<4] start)
       (\<lambda>result64. Inr (XXH3_avalanche result64))"

definition XXH3_INIT_ACC :: "64 word list" where
  "XXH3_INIT_ACC = [ucast XXH_PRIME32_3, XXH_PRIME64_1, XXH_PRIME64_2, XXH_PRIME64_3,
     XXH_PRIME64_4, ucast XXH_PRIME32_2, XXH_PRIME64_5, ucast XXH_PRIME32_1]"

definition XXH3_hashLong_128b_internal :: "xxh_target \<Rightarrow> 8 word list \<Rightarrow> nat \<Rightarrow> 8 word list \<Rightarrow> nat \<Rightarrow> XXH128_hash_t res" where
  "XXH3_hashLong_128b_internal t input len secret secretSize =
     andthen (XXH3_hashLong_internal_loop t input len secret secretSize XXH3_INIT_ACC) (\<lambda>acc.
     andthen (XXH3_mergeAccs t acc secret XXH_SECRET_MERGEACCS_START (of_nat len * XXH_PRIME64_1)) (\<lambda>lo.
     andthen (XXH3_mergeAccs t acc secret (secretSize - 64 - XXH_SECRET_MERGEACCS_START) (NOT (of_nat len * XXH_PRIME64_2))) (\<lambda>hi.
       Inr \<lparr>low64 = lo, high64 = hi\<rparr>)))"

text \<open>A function for long inputs gets the input, its length, the seed, the secret and its length. \<open>XXH_ASSERT\<close> tells the compiler that its
  condition holds, so that a failed one is a fault.\<close>

type_synonym XXH3_hashLong128_f = "8 word list \<Rightarrow> nat \<Rightarrow> 64 word \<Rightarrow> 8 word list \<Rightarrow> nat \<Rightarrow> XXH128_hash_t res"

definition XXH3_hashLong_128b_default :: "xxh_target \<Rightarrow> XXH3_hashLong128_f" where
  "XXH3_hashLong_128b_default t input len seed64 secret secretLen = XXH3_hashLong_128b_internal t input len XXH3_kSecret (length XXH3_kSecret)"

definition XXH3_128bits_internal ::
  "xxh_target \<Rightarrow> 8 word list \<Rightarrow> nat \<Rightarrow> 64 word \<Rightarrow> 8 word list \<Rightarrow> nat \<Rightarrow> XXH3_hashLong128_f \<Rightarrow> XXH128_hash_t res" where
  "XXH3_128bits_internal t input len seed64 secret secretLen f_hl128 =
     (if \<not> secretLen \<ge> XXH3_SECRET_SIZE_MIN then Inl Unreachable
      else if len \<le> 16 then XXH3_len_0to16_128b t input len secret seed64
      else if len \<le> 128 then XXH3_len_17to128_128b t input len secret seed64
      else if len \<le> XXH3_MIDSIZE_MAX then XXH3_len_129to240_128b t input len secret seed64
      else f_hl128 input len seed64 secret secretLen)"

definition XXH3_128bits :: "xxh_target \<Rightarrow> 8 word list \<Rightarrow> nat \<Rightarrow> XXH128_hash_t res" where
  "XXH3_128bits t input len = XXH3_128bits_internal t input len 0 XXH3_kSecret (length XXH3_kSecret) (XXH3_hashLong_128b_default t)"

end
