(* ===== verification/XXH3_Targets.thy ===== *)
theory XXH3_Targets
  imports XXH3_Long
begin

unbundle bit_operations_syntax

section \<open>What is the same on every target\<close>

subsection \<open>Reading in either byte order\<close>

lemma byte_bound: "bit (b :: 8 word) n \<Longrightarrow> n < 8"
  using bit_imp_le_length [of b n] by simp

lemma bytes_le32: "ucast (le32 b0 b1 b2 b3) = b0" "ucast (drop_bit 8 (le32 b0 b1 b2 b3)) = b1"
  "ucast (drop_bit 16 (le32 b0 b1 b2 b3)) = b2" "ucast (drop_bit 24 (le32 b0 b1 b2 b3)) = b3"
  unfolding le32_def by (rule bit_word_eqI; fastforce simp: bit_simps dest: byte_bound)+

lemma bytes_le64: "ucast (le64 b0 b1 b2 b3 b4 b5 b6 b7) = b0" "ucast (drop_bit 8 (le64 b0 b1 b2 b3 b4 b5 b6 b7)) = b1"
  "ucast (drop_bit 16 (le64 b0 b1 b2 b3 b4 b5 b6 b7)) = b2" "ucast (drop_bit 24 (le64 b0 b1 b2 b3 b4 b5 b6 b7)) = b3"
  "ucast (drop_bit 32 (le64 b0 b1 b2 b3 b4 b5 b6 b7)) = b4" "ucast (drop_bit 40 (le64 b0 b1 b2 b3 b4 b5 b6 b7)) = b5"
  "ucast (drop_bit 48 (le64 b0 b1 b2 b3 b4 b5 b6 b7)) = b6" "ucast (drop_bit 56 (le64 b0 b1 b2 b3 b4 b5 b6 b7)) = b7"
  unfolding le64_def by (rule bit_word_eqI; fastforce simp: bit_simps dest: byte_bound)+

lemma swap32_bytes: "XXH_swap32 x = le32 (ucast (drop_bit 24 x)) (ucast (drop_bit 16 x)) (ucast (drop_bit 8 x)) (ucast x)"
proof -
  have m: "(0xff000000 :: 32 word) = push_bit 24 (mask 8)" "(0x00ff0000 :: 32 word) = push_bit 16 (mask 8)"
    "(0x0000ff00 :: 32 word) = push_bit 8 (mask 8)" "(0x000000ff :: 32 word) = mask 8"
    by (simp_all add: mask_numeral)
  have "push_bit 24 x AND 0xff000000 = push_bit 24 (ucast (ucast x :: 8 word))"
    "push_bit 8 x AND 0x00ff0000 = push_bit 16 (ucast (ucast (drop_bit 8 x) :: 8 word))"
    "drop_bit 8 x AND 0x0000ff00 = push_bit 8 (ucast (ucast (drop_bit 16 x) :: 8 word))"
    "drop_bit 24 x AND 0x000000ff = ucast (ucast (drop_bit 24 x) :: 8 word)"
    unfolding m by (rule bit_word_eqI; auto simp: bit_simps)+
  then show ?thesis unfolding XXH_swap32_def le32_def by (simp add: or.assoc or.commute or.left_commute)
qed

lemma swap64_bytes: "XXH_swap64 x = le64 (ucast (drop_bit 56 x)) (ucast (drop_bit 48 x)) (ucast (drop_bit 40 x)) (ucast (drop_bit 32 x))
    (ucast (drop_bit 24 x)) (ucast (drop_bit 16 x)) (ucast (drop_bit 8 x)) (ucast x)"
proof -
  have m: "(0xff00000000000000 :: 64 word) = push_bit 56 (mask 8)" "(0x00ff000000000000 :: 64 word) = push_bit 48 (mask 8)"
    "(0x0000ff0000000000 :: 64 word) = push_bit 40 (mask 8)" "(0x000000ff00000000 :: 64 word) = push_bit 32 (mask 8)"
    "(0x00000000ff000000 :: 64 word) = push_bit 24 (mask 8)" "(0x0000000000ff0000 :: 64 word) = push_bit 16 (mask 8)"
    "(0x000000000000ff00 :: 64 word) = push_bit 8 (mask 8)" "(0x00000000000000ff :: 64 word) = mask 8"
    by (simp_all add: mask_numeral)
  have "push_bit 56 x AND 0xff00000000000000 = push_bit 56 (ucast (ucast x :: 8 word))"
    "push_bit 40 x AND 0x00ff000000000000 = push_bit 48 (ucast (ucast (drop_bit 8 x) :: 8 word))"
    "push_bit 24 x AND 0x0000ff0000000000 = push_bit 40 (ucast (ucast (drop_bit 16 x) :: 8 word))"
    "push_bit 8 x AND 0x000000ff00000000 = push_bit 32 (ucast (ucast (drop_bit 24 x) :: 8 word))"
    "drop_bit 8 x AND 0x00000000ff000000 = push_bit 24 (ucast (ucast (drop_bit 32 x) :: 8 word))"
    "drop_bit 24 x AND 0x0000000000ff0000 = push_bit 16 (ucast (ucast (drop_bit 40 x) :: 8 word))"
    "drop_bit 40 x AND 0x000000000000ff00 = push_bit 8 (ucast (ucast (drop_bit 48 x) :: 8 word))"
    "drop_bit 56 x AND 0x00000000000000ff = ucast (ucast (drop_bit 56 x) :: 8 word)"
    unfolding m by (rule bit_word_eqI; auto simp: bit_simps)+
  then show ?thesis unfolding XXH_swap64_def le64_def by (simp add: or.assoc or.commute or.left_commute)
qed

text \<open>A little-endian read, on every target.\<close>

lemma readLE32_eq: "XXH_readLE32 t p i =
    (if i + 4 \<le> length p then Inr (le32 (p ! i) (p ! (i+1)) (p ! (i+2)) (p ! (i+3))) else Inl OutOfBounds)"
  by (simp add: XXH_readLE32_def XXH_read32_def swap32_bytes bytes_le32)

definition word_at :: "8 word list \<Rightarrow> nat \<Rightarrow> 64 word" where
  "word_at p i = le64 (p ! i) (p ! (i+1)) (p ! (i+2)) (p ! (i+3)) (p ! (i+4)) (p ! (i+5)) (p ! (i+6)) (p ! (i+7))"

lemma readLE64_eq: "XXH_readLE64 t p i = (if i + 8 \<le> length p then Inr (word_at p i) else Inl OutOfBounds)"
  by (simp add: XXH_readLE64_def XXH_read64_def swap64_bytes bytes_le64 word_at_def)

subsection \<open>The product of two 64-bit words\<close>

lemma unat_ucast_mod: "unat (ucast x :: 'b::len word) = unat x mod 2 ^ LENGTH('b)"
  by (simp add: unsigned_ucast_eq take_bit_eq_mod)

lemma product_less: "a < 2 ^ n \<Longrightarrow> b < 2 ^ n \<Longrightarrow> a * b < 2 ^ (n + n)" for a b :: nat
  by (simp add: power_add mult_strict_mono)

lemma unat_mult32to64: "unat (XXH_mult32to64 x y) = (unat x mod 2 ^ 32) * (unat y mod 2 ^ 32)"
proof -
  have "(unat x mod 2 ^ 32) * (unat y mod 2 ^ 32) < 2 ^ (32 + 32)" by (rule product_less) simp_all
  then show ?thesis by (simp add: XXH_mult32to64_def unat_word_ariths unat_ucast_mod)
qed

lemma int128_product: "unat (high64 (XXH_mult64to128_int128 a b)) * 2 ^ 64 + unat (low64 (XXH_mult64to128_int128 a b)) = unat a * unat b"
proof -
  have b: "unat a < 2 ^ 64" "unat b < 2 ^ 64" using unsigned_less [of a] unsigned_less [of b] by simp_all
  then have lt: "unat a * unat b < 2 ^ (64 + 64)" by (rule product_less)
  then have p: "unat (ucast a * ucast b :: 128 word) = unat a * unat b"
    using b by (simp add: unat_word_ariths unat_ucast_mod)
  have d: "unat (drop_bit 64 x) = unat x div 2 ^ 64" for x :: "128 word"
    by (simp only: unat_drop_bit_eq) (simp add: drop_bit_eq_div)
  have "unat a * unat b div 2 ^ 64 < 2 ^ 64" using lt by (intro less_mult_imp_div_less) (simp add: power_add)
  then have "unat (high64 (XXH_mult64to128_int128 a b)) = unat a * unat b div 2 ^ 64"
    unfolding XXH_mult64to128_int128_def Let_def XXH128_hash_t.select_convs unat_ucast_mod d p by simp
  moreover have "unat (low64 (XXH_mult64to128_int128 a b)) = unat a * unat b mod 2 ^ 64"
    unfolding XXH_mult64to128_int128_def Let_def XXH128_hash_t.select_convs unat_ucast_mod p by simp
  ultimately show ?thesis by (simp only: div_mult_mod_eq)
qed

text \<open>The portable product: none of its sums overflows.\<close>

lemma schoolbook:
  fixes a b c d :: nat
  assumes "b * d = q1 * B + r1" "a * d = q2 * B + r2" "q1 + r2 + b * c = q3 * B + r3"
  shows "(q2 + q3 + a * c) * B * B + (r3 * B + r1) = (a * B + b) * (c * B + d)"
proof -
  have "(q2 + q3 + a * c) * B * B + (r3 * B + r1) = (a * c * B + q2 * B) * B + (q3 * B + r3) * B + r1" by (simp add: algebra_simps)
  also have "\<dots> = a * c * B * B + (q2 * B + r2) * B + b * c * B + (q1 * B + r1)"
    unfolding assms(3) [symmetric] by (simp add: algebra_simps)
  also have "\<dots> = (a * B + b) * (c * B + d)" unfolding assms(1,2) [symmetric] by (simp add: algebra_simps)
  finally show ?thesis .
qed

lemma portable_sums:
  fixes a b c d :: nat
  assumes "a < 2 ^ 32" "b < 2 ^ 32" "c < 2 ^ 32" "d < 2 ^ 32"
    and cross: "cross = (b * d) div 2 ^ 32 + (a * d) mod 2 ^ 32 + b * c"
    and upper: "upper = (a * d) div 2 ^ 32 + cross div 2 ^ 32 + a * c"
  shows "cross < 2 ^ 64" and "upper < 2 ^ 64"
    and "upper * 2 ^ 64 + (cross mod 2 ^ 32 * 2 ^ 32 + (b * d) mod 2 ^ 32) = (a * 2 ^ 32 + b) * (c * 2 ^ 32 + d)"
proof -
  let ?B = "2 ^ 32 :: nat"
  have "upper * ?B * ?B + (cross mod ?B * ?B + (b * d) mod ?B) = (a * ?B + b) * (c * ?B + d)"
    unfolding upper by (rule schoolbook) (simp_all only: div_mult_mod_eq cross)
  then show fin: "upper * 2 ^ 64 + (cross mod 2 ^ 32 * 2 ^ 32 + (b * d) mod 2 ^ 32) = (a * 2 ^ 32 + b) * (c * 2 ^ 32 + d)" by simp
  have lt: "x * y \<le> (?B - 1) * (?B - 1)" if "x < ?B" "y < ?B" for x y using that by (intro mult_le_mono) simp_all
  have "b * d < ?B * ?B" using assms(2,4) by (intro mult_strict_mono) simp_all
  then have "(b * d) div ?B < ?B" by (rule less_mult_imp_div_less)
  moreover have "(a * d) mod ?B < ?B" by simp
  ultimately show "cross < 2 ^ 64" using lt [OF assms(2,3)] unfolding cross by simp
  have "(a * ?B + b) < ?B * ?B" "(c * ?B + d) < ?B * ?B" using assms(1-4) by simp_all
  then have "(a * ?B + b) * (c * ?B + d) < (?B * ?B) * (?B * ?B)" by (intro mult_strict_mono) simp_all
  then show "upper < 2 ^ 64" unfolding fin [symmetric] by simp
qed

lemma low32_word: "(x :: 64 word) AND 0xFFFFFFFF = take_bit 32 x"
proof -
  have "(0xFFFFFFFF :: 64 word) = mask 32" by (simp add: mask_numeral)
  then show ?thesis by (simp only: take_bit_eq_mask)
qed

lemma unat_take32: "unat (take_bit 32 (x :: 64 word)) = unat x mod 2 ^ 32"
  by (simp only: unsigned_take_bit_eq) (simp add: take_bit_eq_mod)

lemma unat_low32: "unat ((x :: 64 word) AND 0xFFFFFFFF) = unat x mod 2 ^ 32"
  unfolding low32_word by (rule unat_take32)

lemma unat_high32: "unat (drop_bit 32 (x :: 64 word)) = unat x div 2 ^ 32"
  by (simp only: unat_drop_bit_eq) (simp add: drop_bit_eq_div)

lemma unat_join: "unat (push_bit 32 x OR take_bit 32 y) = unat x mod 2 ^ 32 * 2 ^ 32 + unat y mod 2 ^ 32" for x y :: "64 word"
proof -
  have "push_bit 32 x OR take_bit 32 y = push_bit 32 x + take_bit 32 y"
    by (rule disjunctive_add_eq_or [symmetric], rule bit_word_eqI) (auto simp: bit_simps)
  moreover have "unat (push_bit 32 x) = unat x mod 2 ^ 32 * 2 ^ 32"
    by (simp add: unsigned_push_bit_eq take_bit_push_bit) (simp add: push_bit_eq_mult take_bit_eq_mod)
  moreover note unat_take32 [of y]
  moreover have "unat x mod 2 ^ 32 * 2 ^ 32 + unat y mod 2 ^ 32 < 2 ^ 64"
  proof -
    have "unat x mod 2 ^ 32 < 2 ^ 32" "unat y mod 2 ^ 32 < 2 ^ 32" by simp_all
    then show ?thesis by simp
  qed
  ultimately show ?thesis by (simp add: unat_word_ariths)
qed

lemma unat_sum3: "unat (x + y + z) = (unat x + unat y + unat z) mod 2 ^ 64" for x y z :: "64 word"
  by (simp add: unat_word_ariths mod_simps)

lemma portable_product: "unat (high64 (XXH_mult64to128_portable l r)) * 2 ^ 64 + unat (low64 (XXH_mult64to128_portable l r)) = unat l * unat r"
proof -
  define a b c d where "a = unat l div 2 ^ 32" "b = unat l mod 2 ^ 32" "c = unat r div 2 ^ 32" "d = unat r mod 2 ^ 32"
  note abcd = this
  have lr: "unat l = a * 2 ^ 32 + b" "unat r = c * 2 ^ 32 + d" by (simp_all only: abcd div_mult_mod_eq)
  have "unat l < 2 ^ 32 * 2 ^ 32" "unat r < 2 ^ 32 * 2 ^ 32" using unsigned_less [of l] unsigned_less [of r] by simp_all
  then have lt: "a < 2 ^ 32" "b < 2 ^ 32" "c < 2 ^ 32" "d < 2 ^ 32" unfolding abcd by (simp_all add: less_mult_imp_div_less)
  let ?lo_lo = "XXH_mult32to64 (l AND 0xFFFFFFFF) (r AND 0xFFFFFFFF)" and ?hi_lo = "XXH_mult32to64 (drop_bit 32 l) (r AND 0xFFFFFFFF)"
    and ?lo_hi = "XXH_mult32to64 (l AND 0xFFFFFFFF) (drop_bit 32 r)" and ?hi_hi = "XXH_mult32to64 (drop_bit 32 l) (drop_bit 32 r)"
  have p: "unat ?lo_lo = b * d" "unat ?hi_lo = a * d" "unat ?lo_hi = b * c" "unat ?hi_hi = a * c"
    using lt by (simp_all only: unat_mult32to64 unat_low32 unat_high32 abcd [symmetric] mod_mod_trivial mod_less)
  let ?cross = "drop_bit 32 ?lo_lo + (?hi_lo AND 0xFFFFFFFF) + ?lo_hi"
  let ?upper = "drop_bit 32 ?hi_lo + drop_bit 32 ?cross + ?hi_hi"
  note sums = portable_sums [OF lt refl refl]
  have "unat ?cross = ((b * d) div 2 ^ 32 + (a * d) mod 2 ^ 32 + b * c) mod 2 ^ 64"
    by (simp only: unat_sum3 unat_high32 unat_low32 p)
  then have c: "unat ?cross = (b * d) div 2 ^ 32 + (a * d) mod 2 ^ 32 + b * c" using sums(1) by simp
  have "unat ?upper = ((a * d) div 2 ^ 32 + ((b * d) div 2 ^ 32 + (a * d) mod 2 ^ 32 + b * c) div 2 ^ 32 + a * c) mod 2 ^ 64"
    unfolding unat_sum3 [of _ "drop_bit 32 ?cross"] by (simp only: unat_high32 c p)
  then have u: "unat ?upper = (a * d) div 2 ^ 32 + ((b * d) div 2 ^ 32 + (a * d) mod 2 ^ 32 + b * c) div 2 ^ 32 + a * c"
    using sums(2) by simp
  have lo: "unat (push_bit 32 ?cross OR (?lo_lo AND 0xFFFFFFFF)) =
      ((b * d) div 2 ^ 32 + (a * d) mod 2 ^ 32 + b * c) mod 2 ^ 32 * 2 ^ 32 + (b * d) mod 2 ^ 32"
    by (simp only: low32_word unat_join) (simp only: low32_word [symmetric] c p)
  show ?thesis
    unfolding XXH_mult64to128_portable_def Let_def XXH128_hash_t.select_convs u lo lr by (rule sums(3))
qed

lemma mult64to128_unique:
  assumes "unat (high64 x) * 2 ^ 64 + unat (low64 x) = unat (high64 y) * 2 ^ 64 + unat (low64 (y :: XXH128_hash_t))"
  shows "x = y"
proof -
  have l: "unat (low64 x) < 2 ^ 64" "unat (low64 y) < 2 ^ 64" using unsigned_less [of "low64 x"] unsigned_less [of "low64 y"] by simp_all
  have "(unat (high64 x) * 2 ^ 64 + unat (low64 x)) div 2 ^ 64 = (unat (high64 y) * 2 ^ 64 + unat (low64 y)) div 2 ^ 64"
    "(unat (high64 x) * 2 ^ 64 + unat (low64 x)) mod 2 ^ 64 = (unat (high64 y) * 2 ^ 64 + unat (low64 y)) mod 2 ^ 64"
    by (simp_all only: assms)
  then have "unat (high64 x) = unat (high64 y)" "unat (low64 x) = unat (low64 y)" using l by simp_all
  then show ?thesis by (simp add: word_unat_eq_iff)
qed

lemma mult64to128_eq: "XXH_mult64to128 t = XXH_mult64to128_int128"
  using mult64to128_unique [OF trans [OF portable_product int128_product [symmetric]]] by (simp add: fun_eq_iff XXH_mult64to128_def)

lemma fold64_eq: "XXH3_mul128_fold64 t = XXH3_mul128_fold64 u"
  by (intro ext) (simp add: XXH3_mul128_fold64_def mult64to128_eq)

lemma high_low_sum: "(x AND 0xFFFFFFFF00000000) + ucast (ucast x :: 32 word) = (x :: 64 word)"
proof -
  have m: "(0xFFFFFFFF00000000 :: 64 word) = push_bit 32 (mask 32)" by (simp add: mask_numeral)
  have "(x AND push_bit 32 (mask 32)) AND ucast (ucast x :: 32 word) = 0"
    by (rule bit_word_eqI) (auto simp: bit_simps)
  moreover have "(x AND push_bit 32 (mask 32)) OR ucast (ucast x :: 32 word) = x"
    by (rule bit_word_eqI) (auto simp: bit_simps)
  ultimately show ?thesis unfolding m by (simp only: disjunctive_add_eq_or)
qed

lemma ucast_pred: "(ucast (XXH_PRIME32_2 - 1) :: 64 word) = ucast XXH_PRIME32_2 - 1"
  by (simp add: XXH_PRIME32_2_def)

lemma mult32to64_low: "XXH_mult32to64 (ucast (a :: 32 word)) (ucast (b :: 32 word)) = ucast a * ucast b"
proof -
  have "(ucast (ucast x :: 64 word) :: 32 word) = x" for x by (rule bit_word_eqI) (auto simp: bit_simps)
  then show ?thesis by (simp only: XXH_mult32to64_def)
qed

lemma add_input_hi_eq: "add_input_hi t x = x + ucast (ucast x :: 32 word) * (ucast XXH_PRIME32_2 - 1)"
proof -
  let ?lo = "ucast (ucast x :: 32 word) :: 64 word" and ?hi = "x AND 0xFFFFFFFF00000000"
  have "?hi + ?lo * ucast XXH_PRIME32_2 = (?hi + ?lo) + ?lo * (ucast XXH_PRIME32_2 - 1)" by (simp add: algebra_simps)
  then have "?hi + ?lo * ucast XXH_PRIME32_2 = x + ?lo * (ucast XXH_PRIME32_2 - 1)" by (simp only: high_low_sum)
  then show ?thesis unfolding add_input_hi_def mult32to64_low unfolding ucast_pred by simp
qed

subsection \<open>Inputs of up to 240 bytes\<close>

lemma short_eq: "XXH3_len_0to16_128b t = XXH3_len_0to16_128b u"
  by (intro ext) (simp add: XXH3_len_0to16_128b_def XXH3_len_9to16_128b_def XXH3_len_4to8_128b_def XXH3_len_1to3_128b_def readLE64_eq readLE32_eq
      mult64to128_eq add_input_hi_eq Let_def)

lemma mix32B_eq: "XXH128_mix32B t = XXH128_mix32B u"
  by (intro ext) (simp add: XXH128_mix32B_def XXH3_mix16B_def readLE64_eq XXH3_mul128_fold64_def mult64to128_eq)

lemma small_loop_eq: "small_loop t input len secret seed i = small_loop u input len secret seed i"
proof (induction i)
  case (Suc i)
  show ?case by (rule ext) (simp add: Suc mix32B_eq [of t u])
qed (simp add: fun_eq_iff mix32B_eq [of t u])

lemma small_loop_unrolled:
  assumes "16 < len" "len \<le> 128"
  shows "small_loop t input len secret seed ((len - 1) div 32) acc =
    andthen (if len > 32
             then andthen (if len > 64
                  then andthen (if len > 96 then XXH128_mix32B t input 48 (len - 64) secret 96 seed acc else Inr acc)
                    (XXH128_mix32B t input 32 (len - 48) secret 64 seed)
                  else Inr acc)
               (XXH128_mix32B t input 16 (len - 32) secret 32 seed)
             else Inr acc)
      (XXH128_mix32B t input 0 (len - 16) secret 0 seed)"
proof -
  have zero: "small_loop t input len secret seed 0 = XXH128_mix32B t input 0 (len - 16) secret 0 seed"
    "small_loop t input len secret seed (Suc i) = (\<lambda>acc. andthen
      (XXH128_mix32B t input (16 * Suc i) (len - 16 * (Suc i + 1)) secret (32 * Suc i) seed acc) (small_loop t input len secret seed i))" for i
    by (rule ext, simp)+
  consider "len \<le> 32" | "32 < len" "len \<le> 64" | "64 < len" "len \<le> 96" | "96 < len" using assms by linarith
  then show ?thesis
  proof cases
    case 1
    then have "(len - 1) div 32 = 0" using assms by auto
    then show ?thesis using 1 by simp
  next
    case 2
    then have "(len - 1) div 32 = Suc 0" using assms by auto
    then show ?thesis using 2 by (simp add: zero andthen_assoc)
  next
    case 3
    then have "(len - 1) div 32 = Suc (Suc 0)" using assms by auto
    then show ?thesis using 3 by (simp add: zero andthen_assoc)
  next
    case 4
    then have "(len - 1) div 32 = Suc (Suc (Suc 0))" using assms by auto
    then show ?thesis using 4 by (simp add: zero andthen_assoc)
  qed
qed

lemma medium_eq:
  assumes "16 < len" "len \<le> 128"
  shows "XXH3_len_17to128_128b t input len secret seed = XXH3_len_17to128_128b u input len secret seed"
  unfolding XXH3_len_17to128_128b_def Let_def small_loop_unrolled [OF assms] mix32B_eq [of t u] by simp

lemma mid_eq: "XXH3_len_129to240_128b t = XXH3_len_129to240_128b u"
  by (intro ext) (simp only: XXH3_len_129to240_128b_def mix32B_eq [of t u])

lemma andthen_returns: "\<exists>x. r = Inr x \<Longrightarrow> (\<And>x. \<exists>y. f x = Inr y) \<Longrightarrow> \<exists>y. andthen r f = Inr y"
  by auto

lemma Inr_ex: "\<exists>y. Inr x = Inr y"
  by simp

text \<open>Two runs that return the same value.\<close>

definition agree :: "'a res \<Rightarrow> 'a res \<Rightarrow> bool" where
  "agree r r' \<longleftrightarrow> (\<exists>x. r = Inr x \<and> r' = Inr x)"

lemma agreeI: "r = r' \<Longrightarrow> \<exists>x. r = Inr x \<Longrightarrow> agree r r'"
  by (auto simp: agree_def)

lemma agreeD: "agree r r' \<Longrightarrow> r = r'" "agree r r' \<Longrightarrow> \<exists>x. r = Inr x" "agree r r' \<Longrightarrow> returns r" "agree r r' \<Longrightarrow> returns r'"
  by (auto simp: agree_def)

lemma mix32B_returns:
  assumes "i1 + 16 \<le> length p" "i2 + 16 \<le> length p" "k + 32 \<le> length s"
  shows "\<exists>r. XXH128_mix32B t p i1 i2 s k seed acc = Inr r"
  using assms by (simp add: XXH128_mix32B_def XXH3_mix16B_def readLE64_eq)

lemma each_step_invariant:
  assumes "\<And>x s. x \<in> set xs \<Longrightarrow> P s \<Longrightarrow> \<exists>s'. f x s = Inr s' \<and> P s'" and "P s"
  shows "\<exists>s'. each_step f xs s = Inr s' \<and> P s'"
  using assms
proof (induction xs arbitrary: s)
  case (Cons x xs)
  obtain s1 where "f x s = Inr s1" "P s1" using Cons.prems by (meson list.set_intros(1))
  moreover have "\<exists>s'. each_step f xs s1 = Inr s' \<and> P s'" using Cons.prems(1) calculation(2) by (intro Cons.IH) auto
  ultimately show ?case by auto
qed simp

lemma short_returns: "len \<le> 16 \<Longrightarrow> len \<le> length p \<Longrightarrow> 136 \<le> length s \<Longrightarrow> \<exists>r. XXH3_len_0to16_128b t p len s seed = Inr r"
  by (auto simp: XXH3_len_0to16_128b_def XXH3_len_9to16_128b_def XXH3_len_4to8_128b_def XXH3_len_1to3_128b_def readLE64_eq readLE32_eq
      read8_def Let_def)

lemma medium_returns:
  assumes "16 < len" "len \<le> 128" "len \<le> length p" "136 \<le> length s"
  shows "\<exists>r. XXH3_len_17to128_128b t p len s seed = Inr r"
proof -
  have m: "\<exists>r. XXH128_mix32B t p 48 (len - 64) s 96 seed a = Inr r" if "96 < len" for a
    by (rule mix32B_returns) (use assms that in simp_all)
  have m2: "\<exists>r. XXH128_mix32B t p 32 (len - 48) s 64 seed a = Inr r" if "64 < len" for a
    by (rule mix32B_returns) (use assms that in simp_all)
  have m1: "\<exists>r. XXH128_mix32B t p 16 (len - 32) s 32 seed a = Inr r" if "32 < len" for a
    by (rule mix32B_returns) (use assms that in simp_all)
  have m0: "\<exists>r. XXH128_mix32B t p 0 (len - 16) s 0 seed a = Inr r" for a
    by (rule mix32B_returns) (use assms in simp_all)
  have "\<exists>r. (if len > 32
         then andthen (if len > 64
              then andthen (if len > 96 then XXH128_mix32B t p 48 (len - 64) s 96 seed a else Inr a)
                (XXH128_mix32B t p 32 (len - 48) s 64 seed)
              else Inr a)
           (XXH128_mix32B t p 16 (len - 32) s 32 seed)
         else Inr a) = Inr r" for a
    by (auto intro!: andthen_returns m m1 m2)
  note steps = this
  show ?thesis
    unfolding XXH3_len_17to128_128b_def Let_def small_loop_unrolled [OF assms(1,2)] if_cancel
    by (intro andthen_returns steps m0) simp
qed

lemma mid_returns:
  assumes "128 < len" "len \<le> 240" "len \<le> length p" "136 \<le> length s"
  shows "\<exists>r. XXH3_len_129to240_128b t p len s seed = Inr r"
proof -
  have one: "\<exists>r. each_step (\<lambda>i. XXH128_mix32B t p (i - 32) (i - 16) s (i - 32) seed) [32, 64, 96, 128] a = Inr r \<and> True" for a
    by (rule each_step_invariant) (use assms in \<open>auto intro!: mix32B_returns\<close>)
  have two: "\<exists>r. each_step (\<lambda>i. XXH128_mix32B t p (i - 32) (i - 16) s (XXH3_MIDSIZE_STARTOFFSET + i - 160) seed)
      (map (\<lambda>n. 160 + 32 * n) [0..<(len - 128) div 32]) a = Inr r \<and> True" for a
  proof (rule each_step_invariant)
    fix i b
    assume "i \<in> set (map (\<lambda>n. 160 + 32 * n) [0..<(len - 128) div 32])"
    then obtain n where "i = 160 + 32 * n" "n < (len - 128) div 32" by auto
    then have "i \<le> len" "160 \<le> i" by auto
    then show "\<exists>s'. XXH128_mix32B t p (i - 32) (i - 16) s (XXH3_MIDSIZE_STARTOFFSET + i - 160) seed b = Inr s' \<and> True"
      using assms by (auto intro!: mix32B_returns simp: XXH3_MIDSIZE_STARTOFFSET_def)
  qed simp
  have three: "\<exists>r. XXH128_mix32B t p (len - 16) (len - 32) s (XXH3_SECRET_SIZE_MIN - XXH3_MIDSIZE_LASTOFFSET - 16) e a = Inr r" for e a
    by (rule mix32B_returns) (use assms in \<open>simp_all add: XXH3_SECRET_SIZE_MIN_def XXH3_MIDSIZE_LASTOFFSET_def\<close>)
  have one': "\<exists>r. each_step (\<lambda>i. XXH128_mix32B t p (i - 32) (i - 16) s (i - 32) seed) [32, 64, 96, 128] a = Inr r" for a
    using one by blast
  have two': "\<exists>r. each_step (\<lambda>i. XXH128_mix32B t p (i - 32) (i - 16) s (XXH3_MIDSIZE_STARTOFFSET + i - 160) seed)
      (map (\<lambda>n. 160 + 32 * n) [0..<(len - 128) div 32]) a = Inr r" for a using two by blast
  show ?thesis unfolding XXH3_len_129to240_128b_def Let_def
    by (intro andthen_returns one' two' three Inr_ex)
qed

end
