(* ===== verification/XXH3_Units.thy ===== *)
theory XXH3_Units
  imports XXH3_Targets
begin

unbundle bit_operations_syntax

section \<open>The vector units compute what the portable code computes\<close>

text \<open>
  A stripe and a scrambling step as functions of the eight accumulators and of eight words of input and secret.  The portable code, SSE2,
  AVX2 and AVX512 all compute them.
\<close>

definition words8 :: "8 word list \<Rightarrow> nat \<Rightarrow> 64 word list" where
  "words8 p i = map (\<lambda>j. word_at p (i + 8 * j)) [0..<8]"

definition halves :: "64 word \<Rightarrow> 64 word" where
  "halves x = ucast (ucast x :: 32 word) * ucast (ucast (drop_bit 32 x) :: 32 word)"

definition stripe :: "64 word list \<Rightarrow> 64 word list \<Rightarrow> 64 word list \<Rightarrow> 64 word list" where
  "stripe ds ks acc = map (\<lambda>j. acc ! j + ds ! (j XOR 1) + halves (ds ! j XOR ks ! j)) [0..<8]"

definition scramble :: "64 word list \<Rightarrow> 64 word list \<Rightarrow> 64 word list" where
  "scramble ks acc = map (\<lambda>j. (XXH_xorshift64 (acc ! j) 47 XOR ks ! j) * ucast XXH_PRIME32_1) [0..<8]"

lemma length_stripe [simp]: "length (stripe ds ks acc) = 8" and length_scramble [simp]: "length (scramble ks acc) = 8"
  by (simp_all add: stripe_def scramble_def)

lemma upto8: "[0..<8] = [0, 1, 2, 3, 4, 5, 6, 7::nat]" and upto4: "[0..<4] = [0, 1, 2, 3::nat]" and upto2: "[0..<2] = [0, 1::nat]"
  by (simp_all add: upt_rec)

lemma eight: "length xs = 8 \<Longrightarrow> \<exists>a b c d e f g h. xs = [a, b, c, d, e, f, g, h]"
  by (auto simp: numeral_eq_Suc length_Suc_conv)

lemma ucast_down_up: "(ucast (ucast x :: 64 word) :: 32 word) = x"
  by (rule bit_word_eqI) (auto simp: bit_simps)

lemma scalar_scramble:
  assumes "length acc = 8" "k + 64 \<le> length s"
  shows "XXH3_scrambleAcc_scalar t s k acc = Inr (scramble (words8 s k) acc)"
proof -
  obtain a b c d e f g h where acc: "acc = [a, b, c, d, e, f, g, h]" using eight [OF assms(1)] by blast
  show ?thesis using assms(2)
    by (simp add: acc XXH3_scrambleAcc_scalar_def XXH_ACC_NB_def upto8 XXH3_scalarScrambleRound_def readLE64_eq Let_def scramble_def words8_def
        add.commute)
qed

subsection \<open>Lanes\<close>

lemma mm_loadu_eq:
  assumes "little_endian t" "i + 8 * n \<le> length p"
  shows "mm_loadu n t p i = Inr (map (\<lambda>j. word_at p (i + 8 * j)) [0..<n])"
  using assms(2)
proof (induction n arbitrary: i)
  case (Suc n)
  have "mm_loadu n t p (i + 8) = Inr (map (\<lambda>j. word_at p (i + 8 + 8 * j)) [0..<n])" by (rule Suc.IH) (use Suc.prems in simp)
  moreover have "XXH_read64 t p i = Inr (word_at p i)" using assms(1) Suc.prems by (simp add: XXH_read64_def word_at_def)
  ultimately show ?case by (simp add: upt_conv_Cons map_Suc_upt [symmetric] add.assoc del: upt_Suc)
qed simp

lemma join32_parts: "(ucast (join32 x y) :: 32 word) = x" "(ucast (drop_bit 32 (join32 x y)) :: 32 word) = y"
  unfolding join32_def by (rule bit_word_eqI; fastforce simp: bit_simps dest: bit_imp_le_length)+

lemma join32_id: "join32 (ucast x) (ucast (drop_bit 32 x)) = x"
  unfolding join32_def by (rule bit_word_eqI) (auto simp: bit_simps)

text \<open>Multiplying a word by a small constant through its halves.\<close>

lemma product_by_halves:
  "ucast (ucast x :: 32 word) * ucast (c :: 32 word) + push_bit 32 (ucast (ucast (drop_bit 32 x) :: 32 word) * ucast c) = x * (ucast c :: 64 word)"
proof -
  let ?lo = "ucast (ucast x :: 32 word) :: 64 word" and ?hi = "ucast (ucast (drop_bit 32 x) :: 32 word) :: 64 word"
  have "?lo + push_bit 32 ?hi = ?lo OR push_bit 32 ?hi"
    by (rule disjunctive_add_eq_or, rule bit_word_eqI) (auto simp: bit_simps)
  also have "\<dots> = x" using join32_id [of x] by (simp add: join32_def)
  finally have "x * ucast c = (?lo + push_bit 32 ?hi) * ucast c" by simp
  then show ?thesis by (simp add: push_bit_eq_mult algebra_simps)
qed

lemma unsigned_prime: "(ucast (ucast XXH_PRIME32_1 :: 64 word) :: 32 word) = XXH_PRIME32_1"
  by (rule ucast_down_up)

lemmas lane_defs = mm_xor_def mm_add_epi64_def mm_mul_epu32_def mm_srli_epi64_def mm_slli_epi64_def mm_set1_epi32_def

lemma swap_lanes: "mm_shuffle_epi32 (1, 0, 3, 2) (a # b # r) = b # a # mm_shuffle_epi32 (1, 0, 3, 2) r"
  by (simp add: Let_def join32_id)

lemma shuffle_nil: "mm_shuffle_epi32 q [] = []"
  by (cases q) simp

lemma replicates: "replicate 2 x = [x, x]" "replicate 4 x = [x, x, x, x]" "replicate 8 x = [x, x, x, x, x, x, x, x]"
  by (simp_all add: numeral_eq_Suc)

lemma high_lanes: "mm_mul_epu32 [x, y] (mm_shuffle_epi32 (0, 3, 0, 1) [x, y]) = [halves x, halves y]"
  by (simp add: Let_def join32_parts mm_mul_epu32_def halves_def)

lemma high_lanes_prime: "mm_mul_epu32 (mm_shuffle_epi32 (0, 3, 0, 1) [x, y]) (mm_set1_epi32 2 c) =
    [ucast (ucast (drop_bit 32 x) :: 32 word) * ucast c, ucast (ucast (drop_bit 32 y) :: 32 word) * ucast c]"
  by (simp add: Let_def join32_parts mm_mul_epu32_def mm_set1_epi32_def replicates)

lemma sse2_lanes:
  "mm_add_epi64 (mm_mul_epu32 (mm_xor [v, w] [y, z]) (mm_shuffle_epi32 (0, 3, 0, 1) (mm_xor [v, w] [y, z])))
     (mm_add_epi64 [x0, x1] (mm_shuffle_epi32 (1, 0, 3, 2) [v, w])) = [x0 + w + halves (v XOR y), x1 + v + halves (w XOR z)]"
proof -
  have "mm_xor [v, w] [y, z] = [v XOR y, w XOR z]" by (simp add: mm_xor_def)
  then show ?thesis unfolding swap_lanes shuffle_nil by (simp only: high_lanes) (simp add: mm_add_epi64_def add.commute)
qed

lemma xacc2: "xacc 2 [a, b, c, d, e, f, g, h] 0 = [a, b]" "xacc 2 [a, b, c, d, e, f, g, h] 1 = [c, d]"
  "xacc 2 [a, b, c, d, e, f, g, h] 2 = [e, f]" "xacc 2 [a, b, c, d, e, f, g, h] 3 = [g, h]"
  by (simp_all add: xacc_def)

lemma xacc_put2: "xacc_put 2 [a, b, c, d, e, f, g, h] 0 [x, y] = [x, y, c, d, e, f, g, h]"
  "xacc_put 2 [a, b, c, d, e, f, g, h] 1 [x, y] = [a, b, x, y, e, f, g, h]"
  "xacc_put 2 [a, b, c, d, e, f, g, h] 2 [x, y] = [a, b, c, d, x, y, g, h]"
  "xacc_put 2 [a, b, c, d, e, f, g, h] 3 [x, y] = [a, b, c, d, e, f, x, y]"
  by (simp_all add: xacc_put_def)

lemma words8_explicit: "words8 p i = [word_at p i, word_at p (i + 8), word_at p (i + 16), word_at p (i + 24), word_at p (i + 32),
    word_at p (i + 40), word_at p (i + 48), word_at p (i + 56)]"
  by (simp add: words8_def upto8)

lemma stripe_explicit: "stripe [d0, d1, d2, d3, d4, d5, d6, d7] [k0, k1, k2, k3, k4, k5, k6, k7] [a, b, c, d, e, f, g, h] =
    [a + d1 + halves (d0 XOR k0), b + d0 + halves (d1 XOR k1), c + d3 + halves (d2 XOR k2), d + d2 + halves (d3 XOR k3),
     e + d5 + halves (d4 XOR k4), f + d4 + halves (d5 XOR k5), g + d7 + halves (d6 XOR k6), h + d6 + halves (d7 XOR k7)]"
  by (simp add: stripe_def upto8)

text \<open>The portable stripe, two lanes at a time: each adds its word of input to its neighbour.\<close>

lemma scalar_round:
  assumes "lane < 8" "i + 64 \<le> length p" "k + 64 \<le> length s"
  shows "XXH3_scalarRound t p i s k lane acc = (let d = word_at p (i + lane * 8); acc = acc[lane XOR 1 := acc ! (lane XOR 1) + d] in
    Inr (acc[lane := halves (d XOR word_at s (k + lane * 8)) + acc ! lane]))"
  using assms by (simp add: XXH3_scalarRound_def readLE64_eq Let_def halves_def XXH_mult32to64_add64_def XXH_mult32to64_def ucast_down_up)

lemma scalar_stripe:
  assumes "length acc = 8" "i + 64 \<le> length p" "k + 64 \<le> length s"
  shows "XXH3_accumulate_512_scalar t p i s k acc = Inr (stripe (words8 p i) (words8 s k) acc)"
proof -
  obtain a b c d e f g h where acc: "acc = [a, b, c, d, e, f, g, h]" using eight [OF assms(1)] by blast
  have sum: "halves z + a + w = a + w + halves z" "halves z + (a + w) = a + w + halves z" for a w z by (simp_all add: add.commute add.left_commute)
  show ?thesis
    unfolding acc XXH3_accumulate_512_scalar_def XXH_ACC_NB_def upto8 words8_explicit stripe_explicit
    by (simp add: scalar_round [OF _ assms(2,3)] Let_def sum)
qed

lemma loads2:
  assumes "little_endian t" "i + 64 \<le> length p"
  shows "mm_loadu 2 t p (i + 16 * 0) = Inr [word_at p i, word_at p (i + 8)]"
    "mm_loadu 2 t p (i + 16 * 1) = Inr [word_at p (i + 16), word_at p (i + 24)]"
    "mm_loadu 2 t p (i + 16 * 2) = Inr [word_at p (i + 32), word_at p (i + 40)]"
    "mm_loadu 2 t p (i + 16 * 3) = Inr [word_at p (i + 48), word_at p (i + 56)]"
  using assms by (simp_all add: mm_loadu_eq upto2 add.commute)

lemma sse2_stripe:
  assumes "little_endian t" "length acc = 8" "i + 64 \<le> length p" "k + 64 \<le> length s"
  shows "XXH3_accumulate_512_sse2 t p i s k acc = Inr (stripe (words8 p i) (words8 s k) acc)"
proof -
  obtain a b c d e f g h where acc: "acc = [a, b, c, d, e, f, g, h]" using eight [OF assms(2)] by blast
  show ?thesis
    unfolding acc XXH3_accumulate_512_sse2_def upto4 each_step.simps words8_explicit stripe_explicit
    by (simp only: loads2 [OF assms(1,3)] loads2 [OF assms(1,4)] andthen_Inr Let_def xacc2 xacc_put2 sse2_lanes)
qed

definition scrambled :: "64 word \<Rightarrow> 64 word \<Rightarrow> 64 word" where
  "scrambled a k = (XXH_xorshift64 a 47 XOR k) * ucast XXH_PRIME32_1"

lemma scramble_explicit: "scramble [k0, k1, k2, k3, k4, k5, k6, k7] [a, b, c, d, e, f, g, h] =
    [scrambled a k0, scrambled b k1, scrambled c k2, scrambled d k3, scrambled e k4, scrambled f k5, scrambled g k6, scrambled h k7]"
  by (simp add: scramble_def scrambled_def upto8)

lemma low_lanes_prime: "mm_mul_epu32 [x, y] (mm_set1_epi32 2 c) = [ucast (ucast x :: 32 word) * ucast c, ucast (ucast y :: 32 word) * ucast c]"
  by (simp add: join32_parts mm_mul_epu32_def mm_set1_epi32_def replicates)

lemma sse2_scramble_lanes:
  "mm_add_epi64 (mm_mul_epu32 (mm_xor (mm_xor [a, b] (mm_srli_epi64 [a, b] 47)) [y, z]) (mm_set1_epi32 2 XXH_PRIME32_1))
     (mm_slli_epi64 (mm_mul_epu32 (mm_shuffle_epi32 (0, 3, 0, 1) (mm_xor (mm_xor [a, b] (mm_srli_epi64 [a, b] 47)) [y, z])) (mm_set1_epi32 2 XXH_PRIME32_1)) 32)
   = [scrambled a y, scrambled b z]"
proof -
  have "mm_xor (mm_xor [a, b] (mm_srli_epi64 [a, b] 47)) [y, z] = [XXH_xorshift64 a 47 XOR y, XXH_xorshift64 b 47 XOR z]"
    by (simp add: mm_xor_def mm_srli_epi64_def XXH_xorshift64_def)
  then show ?thesis
    by (simp only: high_lanes_prime low_lanes_prime) (simp only: mm_slli_epi64_def mm_add_epi64_def list.map zip_Cons_Cons prod.case product_by_halves
        zip_Nil scrambled_def)
qed

lemma sse2_scramble:
  assumes "little_endian t" "length acc = 8" "k + 64 \<le> length s"
  shows "XXH3_scrambleAcc_sse2 t s k acc = Inr (scramble (words8 s k) acc)"
proof -
  obtain a b c d e f g h where acc: "acc = [a, b, c, d, e, f, g, h]" using eight [OF assms(2)] by blast
  show ?thesis
    unfolding acc XXH3_scrambleAcc_sse2_def upto4 each_step.simps words8_explicit scramble_explicit
    by (simp only: loads2 [OF assms(1,3)] andthen_Inr Let_def xacc2 xacc_put2 sse2_scramble_lanes)
qed

subsection \<open>AVX2 and AVX512\<close>

lemma loads4:
  assumes "little_endian t" "i + 64 \<le> length p"
  shows "mm_loadu 4 t p (i + 32 * 0) = Inr [word_at p i, word_at p (i + 8), word_at p (i + 16), word_at p (i + 24)]"
    "mm_loadu 4 t p (i + 32 * 1) = Inr [word_at p (i + 32), word_at p (i + 40), word_at p (i + 48), word_at p (i + 56)]"
  using assms by (simp_all add: mm_loadu_eq upto4 add.commute)

lemma loads8: "little_endian t \<Longrightarrow> i + 64 \<le> length p \<Longrightarrow> mm_loadu 8 t p i = Inr (words8 p i)"
  by (simp add: mm_loadu_eq words8_def)

lemma xacc4: "xacc 4 [a, b, c, d, e, f, g, h] 0 = [a, b, c, d]" "xacc 4 [a, b, c, d, e, f, g, h] 1 = [e, f, g, h]"
  "xacc_put 4 [a, b, c, d, e, f, g, h] 0 [x, y, u, v] = [x, y, u, v, e, f, g, h]"
  "xacc_put 4 [a, b, c, d, e, f, g, h] 1 [x, y, u, v] = [a, b, c, d, x, y, u, v]"
  by (simp_all add: xacc_def xacc_put_def)

lemma xacc8: "xacc 8 [a, b, c, d, e, f, g, h] 0 = [a, b, c, d, e, f, g, h]"
  "xacc_put 8 [a, b, c, d, e, f, g, h] 0 v = v"
  by (simp_all add: xacc_def xacc_put_def)

text \<open>Lanes with the shift instead of the shuffle, any number of them.\<close>

lemma shift_lanes:
  "mm_mul_epu32 (x # v) (mm_srli_epi64 (x # v) 32) = halves x # mm_mul_epu32 v (mm_srli_epi64 v 32)"
  by (simp add: mm_mul_epu32_def mm_srli_epi64_def halves_def)

lemma lanes_nil: "mm_mul_epu32 [] v = []" "mm_srli_epi64 [] n = []" "mm_xor [] v = []" "mm_add_epi64 [] v = []" "mm_slli_epi64 [] n = []"
  by (simp_all add: lane_defs)

lemma lanes_cons: "mm_xor (x # v) (y # w) = (x XOR y) # mm_xor v w" "mm_add_epi64 (x # v) (y # w) = (x + y) # mm_add_epi64 v w"
  "mm_slli_epi64 (x # v) n = push_bit n x # mm_slli_epi64 v n" "mm_srli_epi64 (x # v) n = drop_bit n x # mm_srli_epi64 v n"
  "mm_mul_epu32 (x # v) (join32 l r # w) = ucast (ucast x :: 32 word) * ucast l # mm_mul_epu32 v w"
  by (simp_all add: lane_defs join32_parts)

lemma halves_sum: "halves z + (a + d) = a + d + halves z"
  by (rule add.commute)

lemma avx2_stripe:
  assumes "little_endian t" "length acc = 8" "i + 64 \<le> length p" "k + 64 \<le> length s"
  shows "XXH3_accumulate_512_avx2 t p i s k acc = Inr (stripe (words8 p i) (words8 s k) acc)"
proof -
  obtain a b c d e f g h where acc: "acc = [a, b, c, d, e, f, g, h]" using eight [OF assms(2)] by blast
  show ?thesis
    unfolding acc XXH3_accumulate_512_avx2_def upto2 each_step.simps words8_explicit stripe_explicit
    by (simp only: loads4 [OF assms(1,3)] loads4 [OF assms(1,4)] andthen_Inr Let_def xacc4 lanes_cons(1,2) lanes_nil shift_lanes swap_lanes shuffle_nil
        halves_sum)
qed

lemma avx512_stripe:
  assumes "little_endian t" "length acc = 8" "i + 64 \<le> length p" "k + 64 \<le> length s"
  shows "XXH3_accumulate_512_avx512 t p i s k acc = Inr (stripe (words8 p i) (words8 s k) acc)"
proof -
  obtain a b c d e f g h where acc: "acc = [a, b, c, d, e, f, g, h]" using eight [OF assms(2)] by blast
  show ?thesis
    unfolding acc XXH3_accumulate_512_avx512_def loads8 [OF assms(1,3)] loads8 [OF assms(1,4)] words8_explicit stripe_explicit
    by (simp only: andthen_Inr Let_def xacc8 lanes_cons(1,2) lanes_nil shift_lanes swap_lanes shuffle_nil halves_sum)
qed

lemma scrambled_lane:
  "ucast (ucast (XXH_xorshift64 a 47 XOR k) :: 32 word) * ucast XXH_PRIME32_1 +
     push_bit 32 (ucast (ucast (drop_bit 32 (XXH_xorshift64 a 47 XOR k)) :: 32 word) * ucast XXH_PRIME32_1) = scrambled a k"
  by (simp only: product_by_halves scrambled_def)

lemma prime_lanes: "mm_set1_epi32 4 c = [join32 c c, join32 c c, join32 c c, join32 c c]"
  "mm_set1_epi32 8 c = [join32 c c, join32 c c, join32 c c, join32 c c, join32 c c, join32 c c, join32 c c, join32 c c]"
  by (simp_all add: mm_set1_epi32_def replicates)

lemma avx2_scramble:
  assumes "little_endian t" "length acc = 8" "k + 64 \<le> length s"
  shows "XXH3_scrambleAcc_avx2 t s k acc = Inr (scramble (words8 s k) acc)"
proof -
  obtain a b c d e f g h where acc: "acc = [a, b, c, d, e, f, g, h]" using eight [OF assms(2)] by blast
  show ?thesis
    unfolding acc XXH3_scrambleAcc_avx2_def upto2 each_step.simps words8_explicit scramble_explicit
    by (simp only: loads4 [OF assms(1,3)] andthen_Inr Let_def xacc4 lanes_cons lanes_nil prime_lanes XXH_xorshift64_def [symmetric] scrambled_lane)
qed

lemma avx512_scramble:
  assumes "little_endian t" "length acc = 8" "k + 64 \<le> length s"
  shows "XXH3_scrambleAcc_avx512 t s k acc = Inr (scramble (words8 s k) acc)"
proof -
  obtain a b c d e f g h where acc: "acc = [a, b, c, d, e, f, g, h]" using eight [OF assms(2)] by blast
  have x: "y XOR (x XOR drop_bit 47 x) = XXH_xorshift64 x 47 XOR y" for x y :: "64 word"
    by (simp add: XXH_xorshift64_def xor.commute)
  show ?thesis
    unfolding acc XXH3_scrambleAcc_avx512_def loads8 [OF assms(1,3)] words8_explicit scramble_explicit mm_ternarylogic_96_def
    by (simp only: andthen_Inr Let_def xacc8 lanes_cons lanes_nil prime_lanes x scrambled_lane)
qed

end
