(* ===== verification/XXH3_Arm_Units.thy ===== *)
theory XXH3_Arm_Units
  imports XXH3_Units
begin

unbundle bit_operations_syntax

section \<open>NEON, VSX and SVE compute what the portable code computes\<close>

text \<open>
  NEON and VSX work on registers of two lanes.  A register that has taken part in a stripe is \<open>paired\<close>, whichever lanes the portable code does beside it;
  SVE maps all its lanes, so its lemmas are about the lists of registers that \<open>sve_load\<close> makes.
\<close>

subsection \<open>Two lanes of a stripe\<close>

definition paired :: "64 word list \<Rightarrow> 64 word list \<Rightarrow> 64 word list \<Rightarrow> nat \<Rightarrow> lanes" where
  "paired ds ks acc j = [acc ! (2 * j) + ds ! (2 * j + 1) + halves (ds ! (2 * j) XOR ks ! (2 * j)),
     acc ! (2 * j + 1) + ds ! (2 * j) + halves (ds ! (2 * j + 1) XOR ks ! (2 * j + 1))]"

definition scrambled_pair :: "64 word list \<Rightarrow> 64 word list \<Rightarrow> nat \<Rightarrow> lanes" where
  "scrambled_pair ks acc j = [scrambled (acc ! (2 * j)) (ks ! (2 * j)), scrambled (acc ! (2 * j + 1)) (ks ! (2 * j + 1))]"

lemma four_cases: "j < 4 \<Longrightarrow> j = 0 \<or> j = 1 \<or> j = 2 \<or> j = (3 :: nat)"
  by linarith

lemma xacc_pair: "length acc = 8 \<Longrightarrow> j < 4 \<Longrightarrow> xacc 2 acc j = [acc ! (2 * j), acc ! (2 * j + 1)]"
  using eight [of acc] four_cases [of j] by (auto simp: xacc2 xacc2 [unfolded One_nat_def])

lemma xacc_put_length: "length acc = 8 \<Longrightarrow> j < 4 \<Longrightarrow> length v = 2 \<Longrightarrow> length (xacc_put 2 acc j v) = 8"
  by (simp add: xacc_put_def)

lemma words8_nth: "m < 8 \<Longrightarrow> words8 p i ! m = word_at p (i + 8 * m)"
  by (simp add: words8_def)

lemma paired_length [simp]: "length (paired ds ks acc j) = 2" "length (scrambled_pair ks acc j) = 2"
  by (simp_all add: paired_def scrambled_pair_def)

lemma load_pair:
  assumes "little_endian t" "i + 64 \<le> length p" "j < 4"
  shows "mm_loadu 2 t p (i + 16 * j) = Inr [words8 p i ! (2 * j), words8 p i ! (2 * j + 1)]"
proof -
  have "i + 16 * j + 8 * 2 \<le> length p" using assms by simp
  then show ?thesis using mm_loadu_eq [OF assms(1)] assms(3) by (simp add: upto2 words8_nth algebra_simps)
qed

subsection \<open>NEON\<close>

lemma reinterpret2: "vreinterpretq_u32_u64 [x, y] = [ucast x, ucast (drop_bit 32 x), ucast y, ucast (drop_bit 32 y)]"
  by (simp add: vreinterpretq_u32_u64_def)

lemma extract_swap: "vextq_u64 [v, w] [v, w] 1 = [w, v]" "vextq_u64 [v, w] [v, w] (Suc 0) = [w, v]"
  by (simp_all add: vextq_u64_def)

lemma multiply_halves:
  "XXH_vmlal_low_u32 [x, y] (fst (vuzpq_u32 (vreinterpretq_u32_u64 [a, b]) v)) (snd (vuzpq_u32 (vreinterpretq_u32_u64 [a, b]) v)) = [x + halves a, y + halves b]"
  "XXH_vmlal_high_u32 [x, y] (fst (vuzpq_u32 (vreinterpretq_u32_u64 [a, b]) (vreinterpretq_u32_u64 [c, d])))
     (snd (vuzpq_u32 (vreinterpretq_u32_u64 [a, b]) (vreinterpretq_u32_u64 [c, d]))) = [x + halves c, y + halves d]"
  "vmlal_u32 [x, y] (vmovn_u64 [a, b]) (vshrn_n_u64 [a, b] 32) = [x + halves a, y + halves b]"
  by (simp_all add: vuzpq_u32_def reinterpret2 Let_def XXH_vmlal_low_u32_def XXH_vmlal_high_u32_def vmlal_u32_def vget_low_u32_def vget_high_u32_def
      vmovn_u64_def vshrn_n_u64_def halves_def)

lemma pair_ops: "mm_xor [a, b] [c, d] = [a XOR c, b XOR d]" "mm_add_epi64 [a, b] [c, d] = [a + c, b + d]"
  by (simp_all add: mm_xor_def mm_add_epi64_def)

lemma neon_two_eq:
  assumes "little_endian t" "i + 64 \<le> length p" "k + 64 \<le> length s" "length acc = 8" "j < 4"
  shows "neon_two t p i s k j acc = Inr (xacc_put 2 acc j (paired (words8 p i) (words8 s k) acc j))"
  using load_pair [OF assms(1,2,5)] load_pair [OF assms(1,3,5)]
  by (simp add: neon_two_def XXH_vld1q_u64_def mult.commute [of j] Let_def xacc_pair [OF assms(4,5)] extract_swap pair_ops multiply_halves paired_def add.assoc)

lemma neon_four_eq:
  assumes "little_endian t" "i + 64 \<le> length p" "k + 64 \<le> length s" "length acc = 8" "j < 3"
  shows "neon_four t p i s k j acc =
    (let acc = xacc_put 2 acc j (paired (words8 p i) (words8 s k) acc j) in Inr (xacc_put 2 acc (Suc j) (paired (words8 p i) (words8 s k) acc (Suc j))))"
proof -
  have j: "j < 4" "Suc j < 4" using assms(5) by simp_all
  have l: "i + (16 + 16 * j) = i + 16 * Suc j" "k + (16 + 16 * j) = k + 16 * Suc j" by simp_all
  have acc': "length (xacc_put 2 acc j v) = 8" if "length v = 2" for v using xacc_put_length [OF assms(4) j(1) that] .
  show ?thesis
    using load_pair [OF assms(1,2) j(1)] load_pair [OF assms(1,3) j(1)] load_pair [OF assms(1,2) j(2)] load_pair [OF assms(1,3) j(2)]
    by (simp add: neon_four_def XXH_vld1q_u64_def l mult.commute [of j] Let_def xacc_pair [OF assms(4) j(1)] xacc_pair [OF acc' j(2)] extract_swap pair_ops
        multiply_halves paired_def add.assoc del: mult_Suc_right)
qed

text \<open>The portable code does the lanes that NEON leaves.\<close>

lemma upto_8: "[2..<8] = [2, 3, 4, 5, 6, 7 :: nat]" "[4..<8] = [4, 5, 6, 7 :: nat]" "[6..<8] = [6, 7 :: nat]" "[8..<8] = ([] :: nat list)"
  "[0..<3] = [0, 1, 2 :: nat]"
  by (simp_all add: upt_rec)

lemma neon_stripe:
  assumes "little_endian t" "length acc = 8" "i + 64 \<le> length p" "k + 64 \<le> length s"
  shows "XXH3_accumulate_512_neon l t p i s k acc = Inr (stripe (words8 p i) (words8 s k) acc)"
proof -
  obtain a b c d e f g h where acc: "acc = [a, b, c, d, e, f, g, h]" using eight [OF assms(2)] by blast
  have add: "halves z + x + w = x + w + halves z" "halves z + (x + w) = x + w + halves z" for x w z by (simp_all add: add.commute add.left_commute)
  note two = neon_two_eq [OF assms(1,3,4)] and four = neon_four_eq [OF assms(1,3,4)]
  show ?thesis
    by (cases l) (simp_all add: acc XXH3_accumulate_512_neon_def XXH_ACC_NB_def upto_8 upto2 upt_rec [of 0 1] upt_rec [of 1 2] upt_rec [of 0 "Suc 0"]
        scalar_round [OF _ assms(3,4)] Let_def two four paired_def xacc_put_def stripe_explicit words8_explicit add)
qed

lemma prime_pair: "replicate 2 x = [x, x]"
  by (simp add: numeral_eq_Suc)

lemma push_product: "push_bit 32 (ucast (x * y) :: 64 word) = push_bit 32 (ucast x * ucast y)" for x y :: "32 word"
proof -
  have "ucast (x * y) = take_bit 32 (ucast x * ucast y :: 64 word)"
    by (rule word_uint_eqI, simp only: unsigned_take_bit_eq) (simp add: uint_word_ariths unsigned_ucast_eq take_bit_eq_mod mod_mult_eq mod_mod_cancel)
  moreover have "push_bit 32 (take_bit 32 z) = push_bit 32 z" for z :: "64 word"
    by (rule bit_word_eqI) (auto simp: bit_simps)
  ultimately show ?thesis by simp
qed

lemma neon_product:
  "vmlal_u32 (vreinterpretq_u64_u32 (vmulq_u32 (vreinterpretq_u32_u64 [x, y]) (vreinterpretq_u32_u64 [push_bit 32 (ucast c), push_bit 32 (ucast c)])))
     (vmovn_u64 [x, y]) [c, c] = [x * ucast c, y * ucast c]"
proof -
  have parts: "(ucast (push_bit 32 (ucast c :: 64 word)) :: 32 word) = 0" "(ucast (drop_bit 32 (push_bit 32 (ucast c :: 64 word))) :: 32 word) = c"
    by (rule bit_word_eqI; auto simp: bit_simps)+
  have join: "join32 0 h = push_bit 32 (ucast h)" for h by (simp add: join32_def)
  show ?thesis
    using product_by_halves [of x c] product_by_halves [of y c]
    by (simp add: reinterpret2 parts vmulq_u32_def join push_product vmovn_u64_def vmlal_u32_def add.commute)
qed

lemma neon_scramble_pair:
  assumes "little_endian t" "k + 64 \<le> length s" "length acc = 8" "j < 4"
  shows "neon_scramble_two wasm t s k j acc = Inr (xacc_put 2 acc j (scrambled_pair (words8 s k) acc j))"
  using load_pair [OF assms(1,2,4)]
  by (simp add: neon_scramble_two_def XXH_vld1q_u64_def mult.commute [of j] Let_def xacc_pair [OF assms(3,4)] pair_ops prime_pair neon_product
      mm_srli_epi64_def scrambled_pair_def scrambled_def XXH_xorshift64_def)

lemma scalar_scramble_round:
  "lane < 8 \<Longrightarrow> k + 64 \<le> length s \<Longrightarrow> XXH3_scalarScrambleRound t s k lane acc = Inr (acc[lane := scrambled (acc ! lane) (word_at s (k + lane * 8))])"
  by (simp add: XXH3_scalarScrambleRound_def readLE64_eq Let_def scrambled_def)

lemma neon_scramble:
  assumes "little_endian t" "length acc = 8" "k + 64 \<le> length s"
  shows "XXH3_scrambleAcc_neon wasm l t s k acc = Inr (scramble (words8 s k) acc)"
proof -
  obtain a b c d e f g h where acc: "acc = [a, b, c, d, e, f, g, h]" using eight [OF assms(2)] by blast
  show ?thesis
    by (cases l) (simp_all add: acc XXH3_scrambleAcc_neon_def XXH_ACC_NB_def upto_8 upto2 upto4 upt_rec [of 0 1] upt_rec [of 0 "Suc 0"] scalar_scramble_round [OF _ assms(3)] neon_scramble_pair [OF assms(1,3)] scrambled_pair_def
        xacc_put_def scramble_explicit words8_explicit)
qed

subsection \<open>VSX\<close>

lemma vec_revb2: "XXH_vec_revb revb [x, y] = [XXH_swap64 x, XXH_swap64 y]"
proof (cases revb)
  case False
  have "vec_bytes [x, y] = map (\<lambda>j. ucast (drop_bit (56 - 8 * j) x)) [0, 1, 2, 3, 4, 5, 6, 7] @ map (\<lambda>j. ucast (drop_bit (56 - 8 * j) y)) [0, 1, 2, 3, 4, 5, 6, 7]"
    by (simp add: vec_bytes_def upto8)
  with False show ?thesis by (simp add: XXH_vec_revb_def vec_perm_def bytes_vec_def swap64_bytes)
qed (simp add: XXH_vec_revb_def)

lemma vec_loadu_pair:
  assumes "i + 64 \<le> length p" "j < 4"
  shows "XXH_vec_loadu revb t p (i + 16 * j) = Inr [words8 p i ! (2 * j), words8 p i ! (2 * j + 1)]"
proof (cases "little_endian t")
  case True
  then show ?thesis using load_pair [OF True assms] by (simp add: XXH_vec_loadu_def)
next
  case False
  have "XXH_readLE64 t p (i + 16 * j) = Inr (words8 p i ! (2 * j))" "XXH_readLE64 t p (i + 16 * j + 8) = Inr (words8 p i ! (2 * j + 1))"
    using assms by (simp_all add: readLE64_eq words8_nth algebra_simps)
  then obtain x y where "XXH_read64 t p (i + 16 * j) = Inr x" "XXH_swap64 x = words8 p i ! (2 * j)"
    "XXH_read64 t p (i + 16 * j + 8) = Inr y" "XXH_swap64 y = words8 p i ! (2 * j + 1)"
    using False by (auto simp: XXH_readLE64_def andthen_eq_Inr)
  then show ?thesis using False by (simp add: XXH_vec_loadu_def numeral_2_eq_2 vec_revb2)
qed

lemma vec_loads:
  assumes "i + 64 \<le> length p"
  shows "XXH_vec_loadu revb t p (i + 16 * 0) = Inr [word_at p i, word_at p (i + 8)]"
    "XXH_vec_loadu revb t p (i + 16 * 1) = Inr [word_at p (i + 16), word_at p (i + 24)]"
    "XXH_vec_loadu revb t p (i + 16 * 2) = Inr [word_at p (i + 32), word_at p (i + 40)]"
    "XXH_vec_loadu revb t p (i + 16 * 3) = Inr [word_at p (i + 48), word_at p (i + 56)]"
  using vec_loadu_pair [OF assms, of 0] vec_loadu_pair [OF assms, of 1] vec_loadu_pair [OF assms, of 2] vec_loadu_pair [OF assms, of 3]
  by (simp_all add: words8_explicit)

lemma rotated_halves: "(ucast (push_bit 32 x OR drop_bit 32 x) :: 32 word) = ucast (drop_bit 32 x)" for x :: "64 word"
  by (rule bit_word_eqI) (auto simp: bit_simps)

lemma vsx_product: "XXH_vec_mulo [x, y] (vec_rl [x, y] 32) = [halves x, halves y]"
  by (simp add: XXH_vec_mulo_def vec_rl_def rotated_halves halves_def)

lemma vsx_lanes:
  "mm_add_epi64 (mm_add_epi64 [x0, x1] (XXH_vec_mulo (mm_xor [v, w] [y, z]) (vec_rl (mm_xor [v, w] [y, z]) 32))) (vec_permi2 [v, w] [v, w]) =
     [x0 + w + halves (v XOR y), x1 + v + halves (w XOR z)]"
  unfolding pair_ops vsx_product vec_permi2_def by (simp add: pair_ops add.commute add.left_commute)

lemma vsx_stripe:
  assumes "length acc = 8" "i + 64 \<le> length p" "k + 64 \<le> length s"
  shows "XXH3_accumulate_512_vsx revb t p i s k acc = Inr (stripe (words8 p i) (words8 s k) acc)"
proof -
  obtain a b c d e f g h where acc: "acc = [a, b, c, d, e, f, g, h]" using eight [OF assms(1)] by blast
  show ?thesis
    unfolding acc XXH3_accumulate_512_vsx_def upto4 each_step.simps words8_explicit stripe_explicit
    by (simp only: vec_loads [OF assms(2)] vec_loads [OF assms(3)] andthen_Inr Let_def xacc2 xacc_put2 vsx_lanes)
qed

lemma vsx_scramble_lanes:
  "mm_add_epi64 (XXH_vec_mulo (mm_xor (mm_xor [a, b] (mm_srli_epi64 [a, b] 47)) [y, z]) (replicate 2 (join32 XXH_PRIME32_1 XXH_PRIME32_1)))
     (mm_slli_epi64 (XXH_vec_mule (mm_xor (mm_xor [a, b] (mm_srli_epi64 [a, b] 47)) [y, z]) (replicate 2 (join32 XXH_PRIME32_1 XXH_PRIME32_1))) 32)
   = [scrambled a y, scrambled b z]"
proof -
  have x: "mm_xor (mm_xor [a, b] (mm_srli_epi64 [a, b] 47)) [y, z] = [XXH_xorshift64 a 47 XOR y, XXH_xorshift64 b 47 XOR z]"
    by (simp add: mm_xor_def mm_srli_epi64_def XXH_xorshift64_def)
  show ?thesis
    unfolding x prime_pair XXH_vec_mulo_def XXH_vec_mule_def mm_slli_epi64_def
    by (simp only: list.map zip_Cons_Cons zip_Nil prod.case join32_parts pair_ops scrambled_lane)
qed

lemma vsx_scramble:
  assumes "length acc = 8" "k + 64 \<le> length s"
  shows "XXH3_scrambleAcc_vsx revb t s k acc = Inr (scramble (words8 s k) acc)"
proof -
  obtain a b c d e f g h where acc: "acc = [a, b, c, d, e, f, g, h]" using eight [OF assms(1)] by blast
  show ?thesis
    unfolding acc XXH3_scrambleAcc_vsx_def upto4 each_step.simps words8_explicit scramble_explicit
    by (simp only: vec_loads [OF assms(2)] andthen_Inr Let_def xacc2 xacc_put2 vsx_scramble_lanes)
qed

subsection \<open>SVE\<close>

lemma low_times_high: "take_bit 32 x * drop_bit 32 x = halves x" for x :: "64 word"
proof -
  have "ucast (ucast x :: 32 word) = take_bit 32 x" "ucast (ucast (drop_bit 32 x) :: 32 word) = drop_bit 32 x"
    by (rule bit_word_eqI; auto simp: bit_simps dest: bit_imp_le_length)+
  then show ?thesis by (simp add: halves_def)
qed

lemma sve_mask_cases:
  obtains "sve_mask (svcntd n) = 8" "8 \<le> svcntd n" | "sve_mask (svcntd n) = 4" "4 \<le> svcntd n" | "sve_mask (svcntd n) = 2" "svcntd n = 2"
  by (cases "svcntd n \<ge> 8"; cases "svcntd n = 2") (auto simp: sve_mask_def svcntd_def)

text \<open>The words of input that the neighbours get.\<close>

lemma swapped:
  assumes "even m" "m = length v" "m \<le> c"
  shows "svtbl_u64 v (map (\<lambda>j. j XOR 1) [0..<c]) = map (\<lambda>j. v ! (j XOR 1)) [0..<m]"
proof -
  have "j XOR 1 < m" if "j < m" for j
    using that assms(1) by (auto simp: xor_Suc_0_eq elim!: evenE)
  then show ?thesis using assms(2,3) by (simp add: svtbl_u64_def take_map)
qed

text \<open>SVE reads words in the byte order of the processor.\<close>

definition native_words :: "xxh_target \<Rightarrow> 8 word list \<Rightarrow> nat \<Rightarrow> 64 word list" where
  "native_words t p i = map (if little_endian t then id else XXH_swap64) (words8 p i)"

lemma read64_native: "i + 64 \<le> length p \<Longrightarrow> j < 8 \<Longrightarrow> XXH_read64 t p (i + 8 * j) = Inr (native_words t p i ! j)"
proof -
  assume i: "i + 64 \<le> length p" "j < 8"
  then have "XXH_read64 t p (i + 8 * j) = Inr (if little_endian t then word_at p (i + 8 * j) else XXH_swap64 (word_at p (i + 8 * j)))"
    by (simp add: XXH_read64_def word_at_def swap64_bytes bytes_le64)
  then show ?thesis using i by (simp add: native_words_def words8_def)
qed

lemma load_native: "i + 64 \<le> length p \<Longrightarrow> off + m \<le> 8 \<Longrightarrow> mm_loadu m t p (i + 8 * off) = Inr (map (\<lambda>j. native_words t p i ! (off + j)) [0..<m])"
proof (induction m arbitrary: off)
  case (Suc m)
  have "mm_loadu m t p (i + 8 * Suc off) = Inr (map (\<lambda>j. native_words t p i ! (Suc off + j)) [0..<m])" by (rule Suc.IH) (use Suc.prems in auto)
  then show ?case using read64_native [of i p off t] Suc.prems by (simp add: upt_conv_Cons map_Suc_upt [symmetric] comp_def algebra_simps del: upt_Suc)
qed simp

lemma sve_round:
  assumes "i + 64 \<le> length p" "k + 64 \<le> length s" "even m" "off + m \<le> 8" "m \<le> c" "length v = m"
  shows "ACCRND m (map (\<lambda>j. j XOR 1) [0..<c]) t p i s k off v =
    Inr (map (\<lambda>j. v ! j + native_words t p i ! (off + (j XOR 1)) + halves (native_words t p i ! (off + j) XOR native_words t s k ! (off + j))) [0..<m])"
proof -
  have "j XOR 1 < m" if "j < m" for j using that assms(3) by (auto simp: xor_Suc_0_eq elim!: evenE)
  then show ?thesis
    using assms(6) swapped [OF assms(3) _ assms(5), of "map (\<lambda>j. native_words t p i ! (off + j)) [0..<m]"]
    by (auto simp: ACCRND_def load_native [OF assms(1,4)] load_native [OF assms(2,4)] Let_def lane_defs svextw_u64_def svmad_u64_def
        low_times_high [symmetric] xor.commute intro!: nth_equalityI)
qed

text \<open>All registers, for each number of lanes.\<close>

lemma sve_load_lanes: "length acc = 8 \<Longrightarrow> sve_load 8 acc = [acc]" "length acc = 8 \<Longrightarrow> sve_load 4 acc = [xacc 4 acc 0, xacc 4 acc 1]"
  "sve_load 2 acc = [xacc 2 acc 0, xacc 2 acc 1, xacc 2 acc 2, xacc 2 acc 3]"
  by (simp_all add: sve_load_def upto2 upto4 xacc_def)

lemma xacc_stripe:
  assumes "length acc = 8" "even m" "m * r + m \<le> 8"
  shows "xacc m (stripe ds ks acc) r = map (\<lambda>j. xacc m acc r ! j + ds ! (m * r + (j XOR 1)) + halves (ds ! (m * r + j) XOR ks ! (m * r + j))) [0..<m]"
proof -
  have x: "(m * r + j) XOR 1 = m * r + (j XOR 1)" for j using assms(2) by (cases j) (auto simp: xor_Suc_0_eq)
  show ?thesis using assms(1,3) by (intro nth_equalityI) (simp_all add: xacc_def stripe_def x [simplified])
qed

lemma sve_round_register:
  assumes "i + 64 \<le> length p" "k + 64 \<le> length s" "length acc = 8" "even m" "m * r + m \<le> 8" "m \<le> c"
  shows "ACCRND m (map (\<lambda>j. j XOR 1) [0..<c]) t p i s k (r * m) (xacc m acc r) = Inr (xacc m (stripe (native_words t p i) (native_words t s k) acc) r)"
  using sve_round [OF assms(1,2,4) _ assms(6), of "r * m" "xacc m acc r"] assms(3,5) xacc_stripe [OF assms(3,4,5)]
  by (simp add: xacc_def mult.commute)

lemma sve_rounds_eq:
  assumes "i + 64 \<le> length p" "k + 64 \<le> length s" "length acc = 8"
  shows "sve_rounds (svcntd n) t p i s k (sve_load (sve_mask (svcntd n)) acc) =
    Inr (sve_load (sve_mask (svcntd n)) (stripe (native_words t p i) (native_words t s k) acc))"
proof -
  note round = sve_round_register [OF assms]
  have acc: "xacc 8 acc 0 = acc" "xacc 8 (stripe ds ks acc) 0 = stripe ds ks acc" for ds ks using assms(3) by (simp_all add: xacc_def)
  show ?thesis
  proof (cases n rule: sve_mask_cases)
    case 1
    then show ?thesis using round [of 8 0] by (simp add: sve_rounds_def sve_load_lanes assms(3) acc)
  next
    case 2
    then show ?thesis using round [of 4 0] round [of 4 1] by (simp add: sve_rounds_def sve_load_lanes assms(3) upto2)
  next
    case 3
    then show ?thesis
      using round [of 2 0] round [of 2 1] round [of 2 2] round [of 2 3] by (simp add: sve_rounds_def sve_load_lanes assms(3) upto4)
  qed
qed

lemma sve_store_load:
  assumes "length acc = 8" "length acc' = 8"
  shows "sve_store (sve_mask (svcntd n)) (sve_load (sve_mask (svcntd n)) acc') acc = acc'"
proof -
  obtain a b c d e f g h where acc: "acc = [a, b, c, d, e, f, g, h]" using eight [OF assms(1)] by blast
  obtain a' b' c' d' e' f' g' h' where acc': "acc' = [a', b', c', d', e', f', g', h']" using eight [OF assms(2)] by blast
  show ?thesis by (cases n rule: sve_mask_cases) (simp_all add: acc acc' sve_store_def sve_load_def upto2 upto4 xacc_def xacc_put_def)
qed

lemma sve_stripe_native:
  assumes "length acc = 8" "i + 64 \<le> length p" "k + 64 \<le> length s"
  shows "XXH3_accumulate_512_sve n t p i s k acc = Inr (stripe (native_words t p i) (native_words t s k) acc)"
  using sve_rounds_eq [OF assms(2,3,1)] sve_store_load [OF assms(1), of "stripe (native_words t p i) (native_words t s k) acc"]
  by (simp add: XXH3_accumulate_512_sve_def Let_def)

text \<open>
  The header takes SVE wherever the compiler has it, whatever the byte order.  On a big-endian processor it sees the words of a stripe in the byte order of the
  processor, and nothing swaps them: \<open>stripe_words\<close> are the words the stripes of a target are made of.
\<close>

definition native_stripes :: "xxh_target \<Rightarrow> bool" where
  "native_stripes t = (case processor t of Big_Endian_SVE n \<Rightarrow> True | _ \<Rightarrow> False)"

definition stripe_words :: "xxh_target \<Rightarrow> 8 word list \<Rightarrow> nat \<Rightarrow> 64 word list" where
  "stripe_words t p i = (if native_stripes t then map XXH_swap64 (words8 p i) else words8 p i)"

lemma native_stripes_iff: "native_stripes t \<longleftrightarrow> \<not> little_endian t \<and> (\<exists>n. simd t = XXH_SVE n)"
  by (simp add: native_stripes_def little_endian_def simd_def split: xxh_processor.split)

lemma sve_words: "simd t = XXH_SVE n \<Longrightarrow> native_words t p i = stripe_words t p i"
  by (auto simp: native_words_def stripe_words_def native_stripes_iff)

lemma portable_words: "\<not> native_stripes t \<Longrightarrow> stripe_words t p i = words8 p i"
  by (simp add: stripe_words_def)

lemma stripe_words_alike: "native_stripes t = native_stripes u \<Longrightarrow> stripe_words t = stripe_words u"
  by (simp add: stripe_words_def fun_eq_iff)

lemma length_stripe_words [simp]: "length (stripe_words t p i) = 8"
  by (simp add: stripe_words_def words8_def)

lemma sve_stripe:
  assumes "simd t = XXH_SVE n" "length acc = 8" "i + 64 \<le> length p" "k + 64 \<le> length s"
  shows "XXH3_accumulate_512_sve n' t p i s k acc = Inr (stripe (stripe_words t p i) (stripe_words t s k) acc)"
  using sve_stripe_native [OF assms(2-4), where t = t] by (simp add: sve_words [OF assms(1)])

end
