(* ===== verification/XXH3_Stripes.thy ===== *)
theory XXH3_Stripes
  imports XXH3_Arm_Units
begin

unbundle bit_operations_syntax

section \<open>The loops over the stripes\<close>

text \<open>
  With every vector unit a stripe and a scrambling step are the functions of theory XXH3_Units, so the loops differ only in the words the stripes are made of,
  and so does the hash: only SVE on a big-endian processor has others.
\<close>

lemmas stripe_units = scalar_stripe sse2_stripe avx2_stripe avx512_stripe neon_stripe vsx_stripe
lemmas scramble_units = scalar_scramble sse2_scramble avx2_scramble avx512_scramble neon_scramble vsx_scramble

lemma accumulate_512_eq:
  assumes "length acc = 8" "i + 64 \<le> length p" "k + 64 \<le> length s"
  shows "XXH3_accumulate_512 t p i s k acc = Inr (stripe (stripe_words t p i) (stripe_words t s k) acc)"
proof (cases "\<exists>n. simd t = XXH_SVE n")
  case True
  then show ?thesis using sve_stripe [OF _ assms] by (auto simp: XXH3_accumulate_512_def)
next
  case False
  then have "stripe_words t q j = words8 q j" for q j by (simp add: stripe_words_def native_stripes_iff)
  then show ?thesis using assms False simd_little_endian [of t] by (cases "simd t") (simp_all add: XXH3_accumulate_512_def stripe_units)
qed

lemma scrambleAcc_eq:
  assumes "length acc = 8" "k + 64 \<le> length s"
  shows "XXH3_scrambleAcc t s k acc = Inr (scramble (words8 s k) acc)"
  using assms simd_little_endian [of t] by (cases "simd t") (simp_all add: XXH3_scrambleAcc_def scramble_units)

subsection \<open>Long inputs\<close>

text \<open>
  What the loops come to: stripe after stripe, with the secret moving by eight bytes, and a scrambling step after each block of \<open>N\<close> stripes, where
  \<open>N\<close> is what the secret has room for.
\<close>

definition stripes :: "xxh_target \<Rightarrow> 8 word list \<Rightarrow> 8 word list \<Rightarrow> nat \<Rightarrow> nat \<Rightarrow> nat \<Rightarrow> 64 word list \<Rightarrow> 64 word list" where
  "stripes t s p i k n acc = fold (\<lambda>m. stripe (stripe_words t p (i + 64 * m)) (stripe_words t s (k + 8 * m))) [0..<n] acc"

lemma length_stripes: "length acc = 8 \<Longrightarrow> length (stripes t s p i k n acc) = 8"
  by (induction n) (simp_all add: stripes_def)

lemma each_step_fold:
  assumes "\<And>x s. x \<in> set xs \<Longrightarrow> P s \<Longrightarrow> f x s = Inr (g x s) \<and> P (g x s)" and "P s"
  shows "each_step f xs s = Inr (fold g xs s) \<and> P (fold g xs s)"
  using assms by (induction xs arbitrary: s) auto

lemma template_eq:
  assumes "length acc = 8" "i + 64 * n \<le> length p" "k + 8 * n + 56 \<le> length s"
  shows "XXH3_ACCUMULATE_TEMPLATE t p i s k n acc = Inr (stripes t s p i k n acc)"
proof -
  have "each_step (\<lambda>m. XXH3_accumulate_512 t p (i + m * XXH_STRIPE_LEN) s (k + m * XXH_SECRET_CONSUME_RATE)) [0..<n] acc =
      Inr (fold (\<lambda>m. stripe (stripe_words t p (i + 64 * m)) (stripe_words t s (k + 8 * m))) [0..<n] acc) \<and>
    length (fold (\<lambda>m. stripe (stripe_words t p (i + 64 * m)) (stripe_words t s (k + 8 * m))) [0..<n] acc) = 8"
  proof (rule each_step_fold [where P = "\<lambda>a. length a = 8"])
    fix m a
    assume m: "m \<in> set [0..<n]" and a: "length (a :: 64 word list) = 8"
    have e: "m * XXH_STRIPE_LEN = 64 * m" "m * XXH_SECRET_CONSUME_RATE = 8 * m" by (simp_all add: XXH_STRIPE_LEN_def XXH_SECRET_CONSUME_RATE_def)
    show "XXH3_accumulate_512 t p (i + m * XXH_STRIPE_LEN) s (k + m * XXH_SECRET_CONSUME_RATE) a =
        Inr (stripe (stripe_words t p (i + 64 * m)) (stripe_words t s (k + 8 * m)) a) \<and>
      length (stripe (stripe_words t p (i + 64 * m)) (stripe_words t s (k + 8 * m)) a) = 8"
      unfolding e using m a assms by (auto intro!: accumulate_512_eq)
  qed fact
  then show ?thesis by (simp add: XXH3_ACCUMULATE_TEMPLATE_def stripes_def)
qed

text \<open>SVE leaves the accumulators in its registers.\<close>

lemma stripes_first: "stripes t s p i k (Suc n) acc = stripes t s p (i + 64) (k + 8) n (stripe (stripe_words t p i) (stripe_words t s k) acc)"
  by (induction n) (simp_all add: stripes_def algebra_simps)

lemma sve_loop_eq:
  assumes "simd t = XXH_SVE e'" "length acc = 8" "i + 64 * n \<le> length p" "k + 8 * n + 56 \<le> length s"
  shows "sve_loop (svcntd e) t p i s k n (sve_load (sve_mask (svcntd e)) acc) = Inr (sve_load (sve_mask (svcntd e)) (stripes t s p i k n acc))"
  using assms
proof (induction n arbitrary: i k acc)
  case 0
  then show ?case by (simp add: stripes_def)
next
  case (Suc n)
  have "sve_rounds (svcntd e) t p i s k (sve_load (sve_mask (svcntd e)) acc) = Inr (sve_load (sve_mask (svcntd e)) (stripe (stripe_words t p i) (stripe_words t s k) acc))"
    using sve_rounds_eq [of i p k s acc e t] Suc.prems by (simp add: sve_words [OF assms(1)])
  then show ?case using Suc.IH [of "stripe (stripe_words t p i) (stripe_words t s k) acc" "i + 64" "k + 8"] Suc.prems by (simp add: stripes_first)
qed

lemma sve_eq:
  assumes "simd t = XXH_SVE e'" "length acc = 8" "i + 64 * n \<le> length p" "k + 8 * n + 56 \<le> length s"
  shows "XXH3_accumulate_sve e t p i s k n acc = Inr (stripes t s p i k n acc)"
proof (cases "n = 0")
  case False
  then show ?thesis using sve_loop_eq [OF assms, of e] sve_store_load [OF assms(2) length_stripes [OF assms(2)]]
    by (simp add: XXH3_accumulate_sve_def Let_def)
qed (simp add: XXH3_accumulate_sve_def stripes_def)

lemma accumulate_eq:
  assumes "length acc = 8" "i + 64 * n \<le> length p" "k + 8 * n + 56 \<le> length s"
  shows "XXH3_accumulate t p i s k n acc = Inr (stripes t s p i k n acc)"
  using template_eq [OF assms] sve_eq [OF _ assms] simd_little_endian [of t] by (cases "simd t") (simp_all add: XXH3_accumulate_def)

definition one_block :: "xxh_target \<Rightarrow> 8 word list \<Rightarrow> nat \<Rightarrow> 8 word list \<Rightarrow> nat \<Rightarrow> 64 word list \<Rightarrow> 64 word list" where
  "one_block t s limit p i acc = scramble (words8 s limit) (stripes t s p i 0 (limit div 8) acc)"

definition hash_stripes :: "xxh_target \<Rightarrow> 8 word list \<Rightarrow> nat \<Rightarrow> 8 word list \<Rightarrow> nat \<Rightarrow> 64 word list" where
  "hash_stripes t s limit p len =
     (let N = limit div 8;
          blocks = (len - 1) div (64 * N);
          acc = fold (\<lambda>b. one_block t s limit p (64 * N * b)) [0..<blocks] XXH3_INIT_ACC;
          acc = stripes t s p (64 * N * blocks) 0 ((len - 1 - 64 * N * blocks) div 64) acc
      in stripe (stripe_words t p (len - 64)) (stripe_words t s (limit - 7)) acc)"

lemma length_one_block: "length (one_block t s limit p i acc) = 8"
  by (simp add: one_block_def)

lemma internal_loop_eq:
  assumes len: "64 < len" "len \<le> length p" and s: "136 \<le> sz" "sz \<le> length s"
  shows "XXH3_hashLong_internal_loop t p len s sz XXH3_INIT_ACC = Inr (hash_stripes t s (sz - 64) p len)"
proof -
  define limit where "limit = sz - 64"
  define N where "N = limit div 8"
  define blocks where "blocks = (len - 1) div (64 * N)"
  have N: "0 < N" "8 * N \<le> limit" "limit + 64 \<le> length s" using s by (simp_all add: N_def limit_def)
  have whole: "64 * N * blocks \<le> len - 1" unfolding blocks_def by (rule times_div_less_eq_dividend)
  let ?g = "\<lambda>b. one_block t s limit p (64 * N * b)"
  let ?acc = "fold ?g [0..<blocks] XXH3_INIT_ACC" and ?n = "(len - 1 - 64 * N * blocks) div 64"
  have all: "each_step (\<lambda>n acc. andthen (XXH3_accumulate t p (n * (64 * N)) s 0 N acc) (XXH3_scrambleAcc t s limit)) [0..<blocks] XXH3_INIT_ACC =
      Inr ?acc \<and> length ?acc = 8"
  proof (rule each_step_fold [where P = "\<lambda>a. length a = 8"])
    fix b a
    assume b: "b \<in> set [0..<blocks]" and a: "length (a :: 64 word list) = 8"
    have "64 * N * (b + 1) \<le> 64 * N * blocks" using b by (intro mult_le_mono2) auto
    then have "64 * N * b + 64 * N \<le> length p" using whole len(2) by (simp add: algebra_simps)
    then have "XXH3_accumulate t p (b * (64 * N)) s 0 N a = Inr (stripes t s p (64 * N * b) 0 N a)"
      using accumulate_eq [OF a, of "64 * N * b" N p 0 s t] N by (simp add: mult.commute)
    moreover have "XXH3_scrambleAcc t s limit (stripes t s p (64 * N * b) 0 N a) = Inr (?g b a)"
      unfolding one_block_def N_def using N by (intro scrambleAcc_eq) (simp_all add: length_stripes a)
    ultimately show "andthen (XXH3_accumulate t p (b * (64 * N)) s 0 N a) (XXH3_scrambleAcc t s limit) = Inr (?g b a) \<and> length (?g b a) = 8"
      by (simp add: length_one_block)
  qed (simp add: XXH3_INIT_ACC_def)
  have "len - 1 - 64 * N * blocks < 64 * N" using N by (simp add: blocks_def minus_mult_div_eq_mod)
  then have n: "?n \<le> N" "64 * N * blocks + 64 * ?n \<le> length p"
    using whole len div_times_less_eq_dividend [of "len - 1 - 64 * N * blocks" 64] by auto
  have last: "XXH3_accumulate t p (blocks * (64 * N)) s 0 ?n ?acc = Inr (stripes t s p (64 * N * blocks) 0 ?n ?acc)"
    using accumulate_eq [OF conjunct2 [OF all] n(2), of 0 s t] n(1) N by (simp add: mult.commute)
  have fin: "XXH3_accumulate_512 t p (len - 64) s (limit - 7) (stripes t s p (64 * N * blocks) 0 ?n ?acc) =
      Inr (stripe (stripe_words t p (len - 64)) (stripe_words t s (limit - 7)) (stripes t s p (64 * N * blocks) 0 ?n ?acc))"
    by (rule accumulate_512_eq) (use len N all in \<open>simp_all add: length_stripes\<close>)
  show ?thesis
    unfolding XXH3_hashLong_internal_loop_def Let_def xxh_sizes limit_def [symmetric] N_def [symmetric] blocks_def [symmetric]
      conjunct1 [OF all] andthen_Inr last hash_stripes_def by (rule fin)
qed

lemma mergeAccs_returns:
  assumes "k + 64 \<le> length s"
  shows "\<exists>r. XXH3_mergeAccs t acc s k start = Inr r"
proof -
  have "\<exists>r. each_step (\<lambda>i result64. andthen (XXH3_mix2Accs t acc (2 * i) s (k + 16 * i)) (\<lambda>m. Inr (result64 + m))) [0..<4] start = Inr r \<and> True"
    by (rule each_step_invariant) (use assms in \<open>auto simp: XXH3_mix2Accs_def readLE64_eq\<close>)
  then show ?thesis unfolding XXH3_mergeAccs_def by auto
qed

lemma mergeAccs_eq: "XXH3_mergeAccs t = XXH3_mergeAccs u"
  by (intro ext) (simp add: XXH3_mergeAccs_def XXH3_mix2Accs_def readLE64_eq fold64_eq [of t u])

lemma hash_stripes_alike:
  assumes "native_stripes t = native_stripes u"
  shows "hash_stripes t = hash_stripes u"
proof -
  have s: "stripes t = stripes u" by (intro ext) (simp add: stripes_def stripe_words_alike [OF assms])
  have "one_block t = one_block u" by (intro ext) (simp add: one_block_def s)
  then show ?thesis by (intro ext) (simp add: hash_stripes_def s stripe_words_alike [OF assms])
qed

lemma long_eq:
  assumes "native_stripes t = native_stripes u" and "64 < len" "len \<le> length p" "136 \<le> sz" "sz \<le> length s"
  shows "XXH3_hashLong_128b_internal t p len s sz = XXH3_hashLong_128b_internal u p len s sz"
  by (simp only: XXH3_hashLong_128b_internal_def internal_loop_eq [OF assms(2-5)] hash_stripes_alike [OF assms(1)] mergeAccs_eq [of t u])

lemma long_returns:
  assumes "64 < len" "len \<le> length p" "136 \<le> sz" "sz \<le> length s"
  shows "\<exists>r. XXH3_hashLong_128b_internal t p len s sz = Inr r"
  unfolding XXH3_hashLong_128b_internal_def internal_loop_eq [OF assms] andthen_Inr xxh_sizes
  using assms(3,4) by (intro andthen_returns mergeAccs_returns Inr_ex) simp_all

subsection \<open>One hash\<close>

text \<open>The published values for the empty input and for the text \<open>a\<close>.\<close>

lemma kSecret_words:
  "word_at XXH3_kSecret 64 = 0xcb00c391bb52283c" "word_at XXH3_kSecret 72 = 0xa32e531b8b65d088"
  "word_at XXH3_kSecret 80 = 0x4ef90da297486471" "word_at XXH3_kSecret 88 = 0xd8acdea946ef1938"
  by (simp_all add: word_at_def XXH3_kSecret_def le64_def)

lemma xxh3_empty: "XXH3_128bits t [] 0 = Inr \<lparr>low64 = 0x6001c324468d497f, high64 = 0x99aa06d3014798d8\<rparr>"
  by (simp add: XXH3_SECRET_SIZE_MIN_def XXH3_128bits_def XXH3_128bits_internal_def XXH3_len_0to16_128b_def readLE64_eq kSecret_words XXH64_avalanche_def xxh_primes Let_def)

definition big_server :: xxh_target where
  "big_server = \<lparr>processor = Little_Endian XXH_AVX512, has_int128 = True, wide_pointers = True, size_opt = False\<rparr>"

definition small_board :: xxh_target where
  "small_board = \<lparr>processor = Big_Endian, has_int128 = False, wide_pointers = False, size_opt = True\<rparr>"

lemma xxh3_a: "XXH3_128bits big_server [0x61] 1 = Inr \<lparr>low64 = 0xe6c632b61e964e1f, high64 = 0xa96faf705af16834\<rparr>"
  by (simp add: XXH3_SECRET_SIZE_MIN_def XXH3_128bits_def XXH3_128bits_internal_def XXH3_len_0to16_128b_def XXH3_len_1to3_128b_def readLE32_eq read8_def
      le32_def XXH3_kSecret_def XXH_rotl32_def XXH_swap32_def XXH64_avalanche_def xxh_primes Let_def)

text \<open>
  The portable product is exact. On every target the two halves of XXH_mult64to128 make up the product of its arguments, so
  the additions of the portable version never overflow.
\<close>

theorem mult64to128_exact:
  "unat (high64 (XXH_mult64to128 t a b)) * 2 ^ 64 + unat (low64 (XXH_mult64to128 t a b)) = unat a * unat b \<and>
   XXH_mult64to128_portable a b = XXH_mult64to128_int128 a b"
  unfolding mult64to128_eq using mult64to128_unique [OF trans [OF portable_product int128_product [symmetric]], of a b] int128_product [of a b] by blast

text \<open>Any secret of the least size, and any function for long inputs that does as well.\<close>

lemma internal_cases:
  assumes "len \<le> length p" "136 \<le> sz" "sz \<le> length s" and "240 < len \<Longrightarrow> agree (f p len seed s sz) (f' p len seed s sz)"
  shows "agree (XXH3_128bits_internal t p len seed s sz f) (XXH3_128bits_internal u p len seed s sz f')"
proof -
  have s: "136 \<le> length s" "\<not> sz < 136" using assms(2,3) by simp_all
  consider "len \<le> 16" | "16 < len" "len \<le> 128" | "128 < len" "len \<le> 240" | "240 < len" by linarith
  then show ?thesis
  proof cases
    case 1
    then show ?thesis using short_returns [OF 1 assms(1) s(1)] s
      by (intro agreeI) (simp_all add: XXH3_128bits_internal_def xxh_sizes short_eq [of t u])
  next
    case 2
    then show ?thesis using medium_returns [OF 2 assms(1) s(1)] medium_eq [OF 2, of t] s
      by (intro agreeI) (simp_all add: XXH3_128bits_internal_def xxh_sizes)
  next
    case 3
    then show ?thesis using mid_returns [OF 3 assms(1) s(1)] s
      by (intro agreeI) (simp_all add: XXH3_128bits_internal_def xxh_sizes mid_eq [of t u])
  next
    case 4
    then show ?thesis using assms(4) s by (simp add: XXH3_128bits_internal_def xxh_sizes)
  qed
qed

lemma long_agree:
  assumes "native_stripes t = native_stripes u" and "64 < len" "len \<le> length p" "136 \<le> sz" "sz \<le> length s"
  shows "agree (XXH3_hashLong_128b_internal t p len s sz) (XXH3_hashLong_128b_internal u p len s sz)"
  using long_eq [OF assms] long_returns [OF assms(2-5)] by (rule agreeI)

text \<open>Two targets hash inputs of a length alike.\<close>

definition alike :: "xxh_target \<Rightarrow> xxh_target \<Rightarrow> nat \<Rightarrow> bool" where
  "alike t u len \<longleftrightarrow> native_stripes t = native_stripes u \<or> len \<le> 240"

lemma alike_refl [simp]: "alike t t len"
  by (simp add: alike_def)

lemma alike_long: "alike t u len \<Longrightarrow> 240 < len \<Longrightarrow> native_stripes t = native_stripes u"
  by (simp add: alike_def)

lemma xxh3_agree: "alike t u len \<Longrightarrow> len \<le> length p \<Longrightarrow> agree (XXH3_128bits t p len) (XXH3_128bits u p len)"
  unfolding XXH3_128bits_def
  using long_agree [of t u len p 192 XXH3_kSecret] alike_long [of t u len]
  by (intro internal_cases) (simp_all add: XXH3_hashLong_128b_default_def)

lemma xxh3_returns: "len \<le> length p \<Longrightarrow> \<exists>h. XXH3_128bits t p len = Inr h"
  using xxh3_agree [of t t len p] agreeD(2) by force

subsection \<open>SVE on a big-endian processor\<close>

text \<open>
  241 zeros are enough for another hash.  The words of the secret the computation uses come first, then the accumulators on either kind of target, then the low half.
\<close>

lemma zero_stripe:
  assumes "\<forall>j < 8. ds ! j = 0" "length acc = 8" "length ks = 8"
  shows "stripe ds ks acc = map2 (\<lambda>a k. a + halves k) acc ks"
proof (rule nth_equalityI)
  fix j assume "j < length (stripe ds ks acc)"
  then have j: "j < 8" by (simp add: stripe_def)
  then have "j XOR 1 < 8" by (cases "even j") (auto simp: xor_Suc_0_eq elim!: evenE oddE)
  then show "stripe ds ks acc ! j = map2 (\<lambda>a k. a + halves k) acc ks ! j" using assms j by (simp add: stripe_def)
qed (use assms in \<open>simp add: stripe_def\<close>)

lemma zero_words:
  assumes "i + 64 \<le> n" "j < 8"
  shows "stripe_words t (replicate n 0) i ! j = 0"
proof -
  have "word_at (replicate n 0) (i + 8 * j) = 0" using assms by (simp add: word_at_def le64_def)
  then show ?thesis using assms by (simp add: stripe_words_def words8_def XXH_swap64_def)
qed

lemma kSecret_stripe_words:
  "word_at XXH3_kSecret 0 = 0xbe4ba423396cfeb8" "word_at XXH3_kSecret 8 = 0x1cad21f72c81017c"
  "word_at XXH3_kSecret 11 = 0x6dd4de1cad21f72c" "word_at XXH3_kSecret 16 = 0xdb979083e96dd4de"
  "word_at XXH3_kSecret 19 = 0xa44072db979083e9" "word_at XXH3_kSecret 24 = 0x1f67b3b7a4a44072"
  "word_at XXH3_kSecret 27 = 0xe679cb1f67b3b7a4" "word_at XXH3_kSecret 32 = 0x78e5c0cc4ee679cb"
  "word_at XXH3_kSecret 35 = 0xd05a8278e5c0cc4e" "word_at XXH3_kSecret 40 = 0x2172ffcc7dd05a82"
  "word_at XXH3_kSecret 43 = 0x4608b82172ffcc7d" "word_at XXH3_kSecret 48 = 0x8e2443f7744608b8"
  "word_at XXH3_kSecret 51 = 0x9035e08e2443f774" "word_at XXH3_kSecret 56 = 0x4c263a81e69035e0"
  "word_at XXH3_kSecret 59 = 0x52283c4c263a81e6" "word_at XXH3_kSecret 64 = 0xcb00c391bb52283c"
  "word_at XXH3_kSecret 67 = 0x65d088cb00c391bb" "word_at XXH3_kSecret 72 = 0xa32e531b8b65d088"
  "word_at XXH3_kSecret 121 = 0xea647378d9c97e9f" "word_at XXH3_kSecret 129 = 0xc5c3ebd33483acc5"
  "word_at XXH3_kSecret 137 = 0x17eb6313faffa081" "word_at XXH3_kSecret 145 = 0xd349daf0b751dd0d"
  "word_at XXH3_kSecret 153 = 0x2b9e68d429265516" "word_at XXH3_kSecret 161 = 0x8ffca1477d58be16"
  "word_at XXH3_kSecret 169 = 0x45ce31d07ad1b8f8" "word_at XXH3_kSecret 177 = 0xaf280416958f3acb"
  by (simp_all add: word_at_def XXH3_kSecret_def le64_def)

lemma swapped_stripe_words:
  "XXH_swap64 0xbe4ba423396cfeb8 = 0xb8fe6c3923a44bbe" "XXH_swap64 0x1cad21f72c81017c = 0x7c01812cf721ad1c"
  "XXH_swap64 0xdb979083e96dd4de = 0xded46de9839097db" "XXH_swap64 0x1f67b3b7a4a44072 = 0x7240a4a4b7b3671f"
  "XXH_swap64 0x78e5c0cc4ee679cb = 0xcb79e64eccc0e578" "XXH_swap64 0x2172ffcc7dd05a82 = 0x825ad07dccff7221"
  "XXH_swap64 0x8e2443f7744608b8 = 0xb8084674f743248e" "XXH_swap64 0x4c263a81e69035e0 = 0xe03590e6813a264c"
  "XXH_swap64 0xcb00c391bb52283c = 0x3c2852bb91c300cb" "XXH_swap64 0xa32e531b8b65d088 = 0x88d0658b1b532ea3"
  "XXH_swap64 0xea647378d9c97e9f = 0x9f7ec9d9787364ea" "XXH_swap64 0xc5c3ebd33483acc5 = 0xc5ac8334d3ebc3c5"
  "XXH_swap64 0x17eb6313faffa081 = 0x81a0fffa1363eb17" "XXH_swap64 0xd349daf0b751dd0d = 0xddd51b7f0da49d3"
  "XXH_swap64 0x2b9e68d429265516 = 0x16552629d4689e2b" "XXH_swap64 0x8ffca1477d58be16 = 0x16be587d47a1fc8f"
  "XXH_swap64 0x45ce31d07ad1b8f8 = 0xf8b8d17ad031ce45" "XXH_swap64 0xaf280416958f3acb = 0xcb3a8f95160428af"
  by (simp_all add: XXH_swap64_def)

lemma stripe_products:
  "halves 0xbe4ba423396cfeb8 = 0x2aafdcccdcfcb328" "halves 0x1cad21f72c81017c = 0x4fc353f22756aa4"
  "halves 0xdb979083e96dd4de = 0xc83b28a7b3e2cd9a" "halves 0x1f67b3b7a4a44072 = 0x143295784657c77e"
  "halves 0x78e5c0cc4ee679cb = 0x2542d8add5984dc4" "halves 0x2172ffcc7dd05a82 = 0x10706029dc139d98"
  "halves 0x8e2443f7744608b8 = 0x408f518dcdba9188" "halves 0x4c263a81e69035e0 = 0x44953e175a1fe5e0"
  "halves 0xcb00c391bb52283c = 0x948ab501422e7dfc" "halves 0xa32e531b8b65d088 = 0x58db0d52c6c91658"
  "halves 0xea647378d9c97e9f = 0xc767a2ae6670c788" "halves 0xc5c3ebd33483acc5 = 0x289184a05b2f3d5f"
  "halves 0x17eb6313faffa081 = 0x1773c1376975cc93" "halves 0xd349daf0b751dd0d = 0x974d5c5152b14e30"
  "halves 0x2b9e68d429265516 = 0x702e6ccdbe36638" "halves 0x8ffca1477d58be16 = 0x46804480fad08e1a"
  "halves 0x45ce31d07ad1b8f8 = 0x217d73839e5dc180" "halves 0xaf280416958f3acb = 0x665449f50bf23972"
  "halves 0xb8fe6c3923a44bbe = 0x19c18284f60d054e" "halves 0x7c01812cf721ad1c = 0x77b5c3adaf20dcd0"
  "halves 0xded46de9839097db = 0x72848fe9fa9e7553" "halves 0x7240a4a4b7b3671f = 0x51fc46ea32bdebdc"
  "halves 0xcb79e64eccc0e578 = 0xa2be75564ea7ba90" "halves 0x825ad07dccff7221 = 0x686270b6870f8a1d"
  "halves 0xb8084674f743248e = 0xb1c0406b9adb6458" "halves 0xe03590e6813a264c = 0x712debb13d852848"
  "halves 0x3c2852bb91c300cb = 0x2240a9c2a36a9a49" "halves 0x88d0658b1b532ea3 = 0xe9a6f332400a181"
  "halves 0x9f7ec9d9787364ea = 0x4b0b5371b538445a" "halves 0xc5ac8334d3ebc3c5 = 0xa3a33caad26d9304"
  "halves 0x81a0fffa1363eb17 = 0x9d18b4cfc1f7d76" "halves 0xddd51b7f0da49d3 = 0xd0b4f12af8d88d5"
  "halves 0x16552629d4689e2b = 0x1287a3fdc282b6e3" "halves 0x16be587d47a1fc8f = 0x65d2eb0650b79d3"
  "halves 0xf8b8d17ad031ce45 = 0xca468dfafabaa1e2" "halves 0xcb3a8f95160428af = 0x117a558d1fcb6edb"
  by (simp_all add: halves_def)

lemma zeros_accumulated:
  "hash_stripes t XXH3_kSecret 128 (replicate 241 0) 241 = (if native_stripes t
     then [0x4f07298f17b74a08, 0x7e1150de34d69b8a, 0x33c385b49ff88484, 0x807ee3bb563a3357, 0x555494edf5c80e4b, 0x91adcb844a675b07, 0x374a4f098cdc3090, 0xb3835a34c2f34c9e]
     else [0xbf4edd62dc78612b, 0xa832f1b0fdcb07a2, 0xdbd70642611d9abe, 0xf7899252e8ec7b03, 0x3313baa1dfc917f, 0xdc15345084aa6d91, 0x6301a3591ebd1ea9, 0x984f4a610d412d57])"
proof -
  have z: "stripe (stripe_words t (replicate 241 0) i) ks acc = map2 (\<lambda>a k. a + halves k) acc ks"
    if "i \<le> 177" "length acc = 8" "length ks = 8" for i ks acc
    using zero_words [of i 241] that by (intro zero_stripe) simp_all
  have k: "stripe_words t XXH3_kSecret i = (if native_stripes t then map XXH_swap64 (words8 XXH3_kSecret i) else words8 XXH3_kSecret i)" for i
    by (simp add: stripe_words_def)
  have upt: "[0..<3] = [0, 1, 2 :: nat]" by (simp add: upt_rec)
  show ?thesis
    by (simp add: hash_stripes_def stripes_def upt z XXH3_INIT_ACC_def xxh_primes k words8_explicit kSecret_stripe_words swapped_stripe_words stripe_products)
qed

lemma zeros_hashed:
  "\<exists>hi. XXH3_128bits t (replicate 241 0) 241 = Inr \<lparr>low64 = (if native_stripes t then 0xcef15a30c4edb3ff else 0x5c5b5d5d40c59ce3), high64 = hi\<rparr>"
proof -
  have m: "XXH3_mergeAccs t (hash_stripes t XXH3_kSecret 128 (replicate 241 0) 241) XXH3_kSecret 11 0x94f239901f12f9a917 = Inr (if native_stripes t then 0xcef15a30c4edb3ff else 0x5c5b5d5d40c59ce3)"
    unfolding zeros_accumulated
    by (simp add: XXH3_mergeAccs_def upto4 XXH3_mix2Accs_def readLE64_eq kSecret_stripe_words XXH3_mul128_fold64_def mult64to128_eq
        XXH_mult64to128_int128_def XXH3_avalanche_def XXH_xorshift64_def PRIME_MX1_def Let_def)
  obtain hi where "XXH3_mergeAccs t (hash_stripes t XXH3_kSecret 128 (replicate 241 0) 241) XXH3_kSecret 117 (NOT (241 * XXH_PRIME64_2)) = Inr hi"
    using mergeAccs_returns [of 117 XXH3_kSecret] by force
  then show ?thesis using m
    by (simp add: XXH3_128bits_def XXH3_128bits_internal_def xxh_sizes XXH3_hashLong_128b_default_def XXH3_hashLong_128b_internal_def
        internal_loop_eq XXH_PRIME64_1_def)
qed

lemma sve_needs_little_endian:
  assumes "native_stripes t \<noteq> native_stripes u"
  shows "XXH3_128bits t (replicate 241 0) 241 \<noteq> XXH3_128bits u (replicate 241 0) 241"
proof -
  obtain x y where "XXH3_128bits t (replicate 241 0) 241 = Inr \<lparr>low64 = (if native_stripes t then 0xcef15a30c4edb3ff else 0x5c5b5d5d40c59ce3), high64 = x\<rparr>"
    "XXH3_128bits u (replicate 241 0) 241 = Inr \<lparr>low64 = (if native_stripes u then 0xcef15a30c4edb3ff else 0x5c5b5d5d40c59ce3), high64 = y\<rparr>"
    using zeros_hashed by blast
  then show ?thesis using assms by (cases "native_stripes t"; cases "native_stripes u") simp_all
qed

definition big_sve :: xxh_target where
  "big_sve = \<lparr>processor = Big_Endian_SVE 1, has_int128 = True, wide_pointers = True, size_opt = False\<rparr>"

text \<open>
  C10: The hash stays inside its input, and which targets agree on it. On every target, for an input of any length, a hash over as many bytes
  as there are returns a value and reads neither outside the input nor outside the secret. Whether there are 128-bit integers, the width of pointers, the
  optimisation for size and the byte order make no difference to it, nor does the vector unit, with one exception: up to 240 bytes all targets
  agree; beyond, the big-endian processors with SVE agree with each other, whatever the length of their registers, and all other targets agree
  with each other, and the two kinds differ on 241 zeros.
\<close>

theorem xxh3_same_on_alike_targets:
  assumes "len \<le> length p"
  shows "(\<exists>h. XXH3_128bits t p len = Inr h) \<and>
    (len \<le> 240 \<longrightarrow> XXH3_128bits t p len = XXH3_128bits u p len) \<and>
    (native_stripes t = native_stripes u \<longrightarrow> XXH3_128bits t p len = XXH3_128bits u p len) \<and>
    (native_stripes t \<noteq> native_stripes u \<longrightarrow> XXH3_128bits t (replicate 241 0) 241 \<noteq> XXH3_128bits u (replicate 241 0) 241)"
  using xxh3_returns [OF assms] xxh3_agree [of t u len p] agreeD(1) assms sve_needs_little_endian [of t u] unfolding alike_def by blast

theorem xxh3_same_on_alike_targets_witness:
  "XXH3_128bits small_board [0x61] 1 = Inr \<lparr>low64 = 0xe6c632b61e964e1f, high64 = 0xa96faf705af16834\<rparr> \<and>
   XXH3_128bits big_sve [0x61] 1 = Inr \<lparr>low64 = 0xe6c632b61e964e1f, high64 = 0xa96faf705af16834\<rparr> \<and>
   XXH3_128bits big_sve (replicate 241 0) 241 \<noteq> XXH3_128bits small_board (replicate 241 0) 241"
proof -
  have "native_stripes big_sve \<noteq> native_stripes small_board" by (simp add: native_stripes_def big_sve_def small_board_def)
  then show ?thesis
    using xxh3_same_on_alike_targets [of 1 "[0x61]" small_board big_server] xxh3_same_on_alike_targets [of 1 "[0x61]" big_sve big_server]
      xxh3_same_on_alike_targets [of 1 "[0x61]" big_sve small_board] xxh3_a by simp
qed

end
