(* ===== verification/Memory.thy ===== *)
theory Memory
  imports XXH3_Stripes
begin

section \<open>Memory, the outside world and the trace of calls into it\<close>

text \<open>
  The part of the state that every component shares.  \<open>z_malloc\<close>/\<open>z_free\<close>, the zenoh-pico calls
  and the clock are not code of the repository: what they answer is the environment record
  \<open>zenv\<close>, which no operation changes and which every theorem leaves arbitrary.  \<open>mem\<close> holds the
  allocation counter, the byte buffers obtained from the allocator, the list of calls made so far
  to zenoh-pico and to user callbacks (latest first) and the number of clock readings.  Each component
  extends \<open>mem\<close> with the heap of its own objects.
\<close>

type_synonym byte = "8 word"
type_synonym addr = nat

datatype zcall =
    ZPublisherPut string "byte list" "byte list"
  | ZGet string "byte list" "byte list"
  | ZQueryReply nat "byte list" "byte list"
  | ZQueryReplyErr nat string
  | ZQueryClone nat
  | ZQueryDrop nat
  | ZDeclarePublisher string bool
  | ZDeclareSubscriber string
  | ZDeclareQueryable string
  | ZDeclareToken string
  | ZUndeclare string
  | ZOpen "(string \<times> string) list option"
  | ZConfigInsert string string
  | ZStartReadTask
  | ZStartLeaseTask
  | ZStopReadTask
  | ZStopLeaseTask
  | UserCallback nat "nat option" nat

text \<open>
  The environment.  \<open>oom\<close> says which allocation fails, \<open>zok\<close> which zenoh-pico call returns
  \<open>Z_OK\<close> after which history, \<open>clk\<close> what the clock shows, \<open>copy_ok\<close> which text
  \<open>z_string_copy_from_str\<close> manages to copy, \<open>id_text\<close> is \<open>z_id_to_string\<close>, \<open>info_zid\<close> the
  session's identity (\<open>z_info_zid\<close>), \<open>target\<close> how the
  vendored hash is compiled, \<open>layout\<close> how structures are laid out, \<open>lineness_len\<close> the configured
  \<open>RMW_ZENOH_PICO_MAX_LINENESS_LEN\<close> and \<open>valid_topic\<close> what \<open>rmw_validate_full_topic_name\<close>
  of the rmw package says of a name.  A query is replied to under its own key expression, so a reply names
  the query only; a publisher is declared with or without blocking congestion control.

  The serialiser of zenoh-pico (\<open>ze_serializer_*\<close>, \<open>ze_deserializer_*\<close>): an encoder returns the bytes
  it appends or an error, a decoder returns the value and the rest of the input or an error.
\<close>

record ze_codec =
  enc_int64 :: "64 word \<Rightarrow> byte list option"
  enc_slice :: "byte list \<Rightarrow> byte list option"
  dec_int64 :: "byte list \<Rightarrow> (64 word \<times> byte list) option"
  dec_slice :: "byte list \<Rightarrow> (byte list \<times> byte list) option"

text \<open>
  How the compiler lays out the structures, as far as the program's behaviour depends on it: the size of \<open>size_t\<close>
  and of a pointer, and the size of \<open>z_owned_mutex_t\<close>, which differs between the ports of zenoh-pico.  \<open>lp64\<close> is Linux on a
  64-bit processor, where a mutex is a \<open>pthread_mutex_t\<close>.
\<close>

record c_layout =
  word_bytes :: nat
  mutex_bytes :: nat

definition lp64 :: c_layout where
  "lp64 = \<lparr>word_bytes = 8, mutex_bytes = 40\<rparr>"

record zenv =
  oom :: "nat \<Rightarrow> bool"
  zok :: "zcall list \<Rightarrow> zcall \<Rightarrow> bool"
  clk :: "nat \<Rightarrow> nat \<times> nat"
  codec :: ze_codec
  copy_ok :: "string \<Rightarrow> bool"
  id_text :: "byte list \<Rightarrow> string"
  info_zid :: "byte list"
  target :: xxh_target
  layout :: c_layout
  lineness_len :: nat
  valid_topic :: "string \<Rightarrow> bool"

record mem =
  env :: zenv
  next_addr :: addr
  bufs :: "addr \<rightharpoonup> byte list"
  trace :: "zcall list"
  ticks :: nat

subsection \<open>Allocation\<close>

text \<open>
  Addresses are never handed out twice, so an address missing from a heap is one that was freed.
  The environment decides which allocation fails.
\<close>

definition z_malloc :: "'a mem_scheme \<Rightarrow> addr option \<times> 'a mem_scheme" where
  "z_malloc w = ((if oom (env w) (next_addr w) then None else Some (next_addr w)),
                 w\<lparr>next_addr := Suc (next_addr w)\<rparr>)"

text \<open>Every allocated buffer has an address below the counter, so a new address is fresh.\<close>

definition mem_ok :: "'a mem_scheme \<Rightarrow> bool" where
  "mem_ok w \<longleftrightarrow> (\<forall>a \<in> dom (bufs w). a < next_addr w)"

definition buf_put :: "addr \<Rightarrow> byte list \<Rightarrow> 'a mem_scheme \<Rightarrow> 'a mem_scheme" where
  "buf_put a bs w = w\<lparr>bufs := (bufs w)(a \<mapsto> bs)\<rparr>"

text \<open>\<open>free(NULL)\<close> does nothing; freeing a buffer twice is a fault.\<close>

definition z_free :: "addr option \<Rightarrow> 'a mem_scheme \<Rightarrow> 'a mem_scheme res" where
  "z_free p w = (case p of None \<Rightarrow> Inr w
     | Some a \<Rightarrow> (if bufs w a = None then Inl UseAfterFree
                 else Inr (w\<lparr>bufs := (bufs w)(a := None)\<rparr>)))"

lemma z_free_None [simp, run_simps]: "z_free None w = Inr w"
  by (simp add: z_free_def)

lemma z_free_Some [simp, run_simps]:
  "bufs w a = Some bs \<Longrightarrow> z_free (Some a) w = Inr (w\<lparr>bufs := (bufs w)(a := None)\<rparr>)"
  by (simp add: z_free_def)

lemma mem_ok_fresh: "mem_ok w \<Longrightarrow> bufs w (next_addr w) = None"
  by (auto simp: mem_ok_def dom_def)

subsection \<open>Calls into zenoh-pico and user callbacks\<close>

text \<open>A call is recorded, and the environment says whether it returned \<open>Z_OK\<close>.\<close>

definition zcall :: "zcall \<Rightarrow> 'a mem_scheme \<Rightarrow> bool \<times> 'a mem_scheme" where
  "zcall c w = (zok (env w) (trace w) c, w\<lparr>trace := c # trace w\<rparr>)"

definition znote :: "zcall \<Rightarrow> 'a mem_scheme \<Rightarrow> 'a mem_scheme" where
  "znote c w = w\<lparr>trace := c # trace w\<rparr>"

definition clock_gettime :: "'a mem_scheme \<Rightarrow> (nat \<times> nat) \<times> 'a mem_scheme" where
  "clock_gettime w = (clk (env w) (ticks w), w\<lparr>ticks := Suc (ticks w)\<rparr>)"

text \<open>\<open>zenoh_pico_gen_timestamp\<close>: seconds and nanoseconds in one 64-bit count.\<close>

definition zenoh_pico_gen_timestamp :: "'a mem_scheme \<Rightarrow> 64 word \<times> 'a mem_scheme" where
  "zenoh_pico_gen_timestamp w =
     (case clock_gettime w of ((sec, nsec), w') \<Rightarrow>
        (of_nat sec * 1000000000 + of_nat nsec, w'))"

lemma unat_gen_timestamp:
  assumes "clk (env w) (ticks w) = (sec, nsec)" and "sec * 1000000000 + nsec < 2 ^ 64"
  shows "unat (fst (zenoh_pico_gen_timestamp w)) = sec * 1000000000 + nsec"
proof -
  have "fst (zenoh_pico_gen_timestamp w) = (of_nat (sec * 1000000000 + nsec) :: 64 word)"
    using assms(1) by (simp add: zenoh_pico_gen_timestamp_def clock_gettime_def)
  then show ?thesis
    using assms(2) by (simp add: unat_of_nat take_bit_nat_eq_self del: of_nat_add of_nat_mult)
qed

subsection \<open>The implementation identifier\<close>

definition zenoh_pico_identifier :: string where
  "zenoh_pico_identifier = ''rmw_zenoh_pico''"

definition zenoh_pico_serialization_format :: string where
  "zenoh_pico_serialization_format = ''cdr''"

definition rosidl_typesupport_rmw_zenoh_identifier :: string where
  "rosidl_typesupport_rmw_zenoh_identifier = ''rosidl_typesupport_microxrcedds_c''"

definition rmw_get_implementation_identifier :: string where
  "rmw_get_implementation_identifier = zenoh_pico_identifier"

definition rmw_get_serialization_format :: string where
  "rmw_get_serialization_format = zenoh_pico_serialization_format"

definition rmw_zenoh_pico_typesupport_c :: string where
  "rmw_zenoh_pico_typesupport_c = rosidl_typesupport_rmw_zenoh_identifier"

text \<open>\<open>RMW_CHECK_TYPE_IDENTIFIERS_MATCH\<close> lets a null identifier pass.\<close>

definition identifiers_match :: "string option \<Rightarrow> bool" where
  "identifiers_match i = (case i of None \<Rightarrow> True | Some s \<Rightarrow> s = rmw_get_implementation_identifier)"

end
