(* ===== verification/Data_Object.thy ===== *)
theory Data_Object
  imports Memory
begin

section \<open>Reference-counted data objects\<close>

text \<open>
  \<open>zenoh_pico_data.c\<close> generates four functions for each of eleven struct types with the macro
  \<open>ZenohPicoDataFunctions(T)\<close>.  Every such struct carries the two fields of \<open>data_obj\<close>, so its
  record extends \<open>data_obj\<close> and the four functions are written once, over the extensible record and
  over the heap \<open>addr \<rightharpoonup> T\<close> of that type.
\<close>

record data_obj =
  ref :: int
  lock :: mutex

text \<open>
  \<open>T##Generate(NULL)\<close>: allocate, zero, initialise the lock, \<open>ref += 1\<close>.  The all-zero object of the
  type is an argument.  With a pointer to existing storage (the static session) only the second part
  runs, which is \<open>data_obj_init\<close>.
\<close>

definition data_obj_init :: "'a data_obj_scheme \<Rightarrow> 'a data_obj_scheme" where
  "data_obj_init zero = zero\<lparr>lock := Unlocked, ref := 0 + 1\<rparr>"

definition ZenohPicoDataGenerate ::
  "'a data_obj_scheme \<Rightarrow> (addr \<rightharpoonup> 'a data_obj_scheme) \<Rightarrow> 'w mem_scheme
     \<Rightarrow> addr option \<times> (addr \<rightharpoonup> 'a data_obj_scheme) \<times> 'w mem_scheme" where
  "ZenohPicoDataGenerate zero h w =
     (case z_malloc w of
        (None, w') \<Rightarrow> (None, h, w')
      | (Some a, w') \<Rightarrow> (Some a, h(a \<mapsto> data_obj_init zero), w'))"

text \<open>\<open>T##Destroy\<close> frees only an object whose count is zero.\<close>

definition ZenohPicoDataDestroy ::
  "(addr \<rightharpoonup> 'a data_obj_scheme) \<Rightarrow> addr option \<Rightarrow> (addr \<rightharpoonup> 'a data_obj_scheme) res" where
  "ZenohPicoDataDestroy h p =
     andthen (deref h p) (\<lambda>d.
       if ref d = 0 then Inr (h(the p := None)) else Inr h)"

definition ZenohPicoDataRefClone ::
  "(addr \<rightharpoonup> 'a data_obj_scheme) \<Rightarrow> addr option \<Rightarrow> (addr option \<times> (addr \<rightharpoonup> 'a data_obj_scheme)) res" where
  "ZenohPicoDataRefClone h p =
     andthen (deref h p) (\<lambda>d.
     andthen (z_mutex_lock (lock d)) (\<lambda>l.
       let d = d\<lparr>lock := l\<rparr>; d = d\<lparr>ref := ref d + 1\<rparr> in
     andthen (z_mutex_unlock (lock d)) (\<lambda>l.
       Inr (p, h(the p \<mapsto> d\<lparr>lock := l\<rparr>)))))"

definition ZenohPicoDataRefDec ::
  "(addr \<rightharpoonup> 'a data_obj_scheme) \<Rightarrow> addr option \<Rightarrow> (int \<times> (addr \<rightharpoonup> 'a data_obj_scheme)) res" where
  "ZenohPicoDataRefDec h p =
     andthen (deref h p) (\<lambda>d.
     andthen (z_mutex_lock (lock d)) (\<lambda>l.
       let d = d\<lparr>lock := l\<rparr>; d = d\<lparr>ref := ref d - 1\<rparr> in
     andthen (z_mutex_unlock (lock d)) (\<lambda>l.
       Inr (ref d, h(the p \<mapsto> d\<lparr>lock := l\<rparr>)))))"

text \<open>The macro \<open>ZenohPicoDataRelease\<close>: did the count reach zero?\<close>

definition ZenohPicoDataRelease ::
  "(addr \<rightharpoonup> 'a data_obj_scheme) \<Rightarrow> addr option \<Rightarrow> (bool \<times> (addr \<rightharpoonup> 'a data_obj_scheme)) res" where
  "ZenohPicoDataRelease h p = andthen (ZenohPicoDataRefDec h p) (\<lambda>(n, h). Inr (n = 0, h))"

subsection \<open>Behaviour on a live object\<close>

definition live :: "(addr \<rightharpoonup> 'a data_obj_scheme) \<Rightarrow> addr \<Rightarrow> 'a data_obj_scheme \<Rightarrow> bool" where
  "live h a d \<longleftrightarrow> h a = Some d \<and> lock d = Unlocked"

lemma RefClone_live:
  "live h a d \<Longrightarrow> ZenohPicoDataRefClone h (Some a) = Inr (Some a, h(a \<mapsto> d\<lparr>ref := ref d + 1\<rparr>))"
  by (cases d) (simp add: live_def ZenohPicoDataRefClone_def Let_def)

lemma RefDec_live:
  "live h a d \<Longrightarrow> ZenohPicoDataRefDec h (Some a) = Inr (ref d - 1, h(a \<mapsto> d\<lparr>ref := ref d - 1\<rparr>))"
  by (cases d) (simp add: live_def ZenohPicoDataRefDec_def Let_def)

lemma Release_live:
  "live h a d \<Longrightarrow> ZenohPicoDataRelease h (Some a) = Inr (ref d = 1, h(a \<mapsto> d\<lparr>ref := ref d - 1\<rparr>))"
  by (simp add: ZenohPicoDataRelease_def RefDec_live)

lemma Destroy_simps [simp]:
  "h a = Some d \<Longrightarrow> ref d = 0 \<Longrightarrow> ZenohPicoDataDestroy h (Some a) = Inr (h(a := None))"
  "h a = Some d \<Longrightarrow> ref d \<noteq> 0 \<Longrightarrow> ZenohPicoDataDestroy h (Some a) = Inr h"
  by (simp_all add: ZenohPicoDataDestroy_def)

lemma released_dangling:
  "h a = None \<Longrightarrow> ZenohPicoDataRelease h (Some a) = Inl UseAfterFree"
  "h a = None \<Longrightarrow> ZenohPicoDataRefClone h (Some a) = Inl UseAfterFree"
  by (simp_all add: ZenohPicoDataRelease_def ZenohPicoDataRefDec_def ZenohPicoDataRefClone_def)

text \<open>
  The release pattern of every destructor of the package: decrement, and when the count reaches zero
  run the type's own clean-up and free the object.  \<open>release_n\<close> is a run of \<open>n\<close> such releases with an
  empty clean-up.
\<close>

definition release_once ::
  "(addr \<rightharpoonup> 'a data_obj_scheme) \<Rightarrow> addr option \<Rightarrow> (addr \<rightharpoonup> 'a data_obj_scheme) res" where
  "release_once h p = andthen (ZenohPicoDataRelease h p) (\<lambda>(zero, h).
     if zero then ZenohPicoDataDestroy h p else Inr h)"

fun clone_n where
  "clone_n 0 h p = Inr h"
| "clone_n (Suc n) h p = andthen (ZenohPicoDataRefClone h p) (\<lambda>(_, h). clone_n n h p)"

fun release_n where
  "release_n 0 h p = Inr h"
| "release_n (Suc n) h p = andthen (release_once h p) (\<lambda>h. release_n n h p)"

lemma release_once_live:
  assumes "live h a d"
  shows "release_once h (Some a) =
    Inr (if ref d = 1 then h(a := None) else h(a \<mapsto> d\<lparr>ref := ref d - 1\<rparr>))"
  using assms by (simp add: release_once_def Release_live)

lemma clone_n_live:
  "live h a d \<Longrightarrow> clone_n n h (Some a) = Inr (h(a \<mapsto> d\<lparr>ref := ref d + int n\<rparr>))"
proof (induction n arbitrary: h d)
  case 0
  then show ?case by (simp add: live_def fun_upd_idem)
next
  case (Suc n)
  let ?d = "d\<lparr>ref := ref d + 1\<rparr>"
  have l: "live (h(a \<mapsto> ?d)) a ?d" using Suc.prems by (simp add: live_def)
  have "clone_n (Suc n) h (Some a) = clone_n n (h(a \<mapsto> ?d)) (Some a)"
    using Suc.prems by (simp add: RefClone_live)
  also have "\<dots> = Inr ((h(a \<mapsto> ?d))(a \<mapsto> ?d\<lparr>ref := ref ?d + int n\<rparr>))"
    by (rule Suc.IH [OF l])
  also have "(h(a \<mapsto> ?d))(a \<mapsto> ?d\<lparr>ref := ref ?d + int n\<rparr>) = h(a \<mapsto> d\<lparr>ref := ref d + int (Suc n)\<rparr>)"
    by (simp add: add.assoc)
  finally show ?case .
qed

lemma release_n_live:
  "live h a d \<Longrightarrow> int n < ref d \<Longrightarrow> release_n n h (Some a) = Inr (h(a \<mapsto> d\<lparr>ref := ref d - int n\<rparr>))"
proof (induction n arbitrary: h d)
  case 0
  then show ?case by (simp add: live_def fun_upd_idem)
next
  case (Suc n)
  let ?d = "d\<lparr>ref := ref d - 1\<rparr>"
  have l: "live (h(a \<mapsto> ?d)) a ?d" using Suc.prems by (simp add: live_def)
  have "release_n (Suc n) h (Some a) = release_n n (h(a \<mapsto> ?d)) (Some a)"
    using Suc.prems by (simp add: release_once_live)
  also have "\<dots> = Inr ((h(a \<mapsto> ?d))(a \<mapsto> ?d\<lparr>ref := ref ?d - int n\<rparr>))"
    using Suc.prems(2) by (intro Suc.IH [OF l]) auto
  also have "(h(a \<mapsto> ?d))(a \<mapsto> ?d\<lparr>ref := ref ?d - int n\<rparr>) = h(a \<mapsto> d\<lparr>ref := ref d - int (Suc n)\<rparr>)"
    by (simp add: diff_diff_eq)
  finally show ?case .
qed

lemma andthen_Inr_right [simp]: "andthen r Inr = r"
  by (cases r) auto

lemma release_n_Suc_right:
  "release_n (Suc n) h p = andthen (release_n n h p) (\<lambda>h. release_once h p)"
proof (induction n arbitrary: h)
  case 0
  then show ?case by simp
next
  case (Suc n)
  have "release_n (Suc (Suc n)) h p = andthen (release_once h p) (\<lambda>h. release_n (Suc n) h p)"
    by (rule release_n.simps(2))
  also have "\<dots> = andthen (release_once h p) (\<lambda>h. andthen (release_n n h p) (\<lambda>h. release_once h p))"
    by (simp only: Suc.IH)
  also have "\<dots> = andthen (release_n (Suc n) h p) (\<lambda>h. release_once h p)"
    by (simp add: andthen_assoc)
  finally show ?case .
qed

subsection \<open>The interface of a typed heap inside the state\<close>

text \<open>
  Each object type has its own heap, a field of the state record.  What the destructors rely on is the
  same for all of them: reading after writing gives what was written, and the write touches no other
  field.  The components interpret this locale on their heap fields.
\<close>

locale typed_heap =
  fixes get :: "'w \<Rightarrow> addr \<rightharpoonup> 'a data_obj_scheme"
    and put :: "(addr \<rightharpoonup> 'a data_obj_scheme) \<Rightarrow> 'w \<Rightarrow> 'w"
  assumes get_put: "get (put h w) = h"
    and put_get: "put (get w) w = w"
    and put_put: "put h (put h' w) = put h w"
begin

lemma balanced_references:
  assumes "live (get w) a d" and "0 < ref d"
  shows "andthen (clone_n n (get w) (Some a)) (\<lambda>h. andthen (release_n n h (Some a)) (\<lambda>h. Inr (put h w))) = Inr w"
proof -
  let ?d = "d\<lparr>ref := ref d + int n\<rparr>"
  let ?h = "(get w)(a \<mapsto> ?d)"
  have l: "live ?h a ?d" using assms(1) by (simp add: live_def)
  have "int n < ref ?d" using assms(2) by simp
  with l have "release_n n ?h (Some a) = Inr (?h(a \<mapsto> ?d\<lparr>ref := ref ?d - int n\<rparr>))"
    by (rule release_n_live)
  moreover have "?h(a \<mapsto> ?d\<lparr>ref := ref ?d - int n\<rparr>) = get w"
    using assms(1) by (auto simp: live_def fun_upd_idem)
  ultimately show ?thesis
    using assms(1) by (simp add: clone_n_live put_get)
qed

lemma last_release_frees:
  assumes "live (get w) a d" and "ref d = int (Suc n)"
  shows "andthen (release_n (Suc n) (get w) (Some a)) (\<lambda>h. Inr (put h w)) = Inr (put ((get w)(a := None)) w)"
proof -
  let ?d = "d\<lparr>ref := ref d - int n\<rparr>"
  let ?h = "(get w)(a \<mapsto> ?d)"
  have expand: "release_n (Suc n) h p = andthen (release_n n h p) (\<lambda>h. release_once h p)" for h p
    by (rule release_n_Suc_right)
  have "release_n n (get w) (Some a) = Inr ?h"
    using assms by (intro release_n_live) auto
  moreover have "release_once ?h (Some a) = Inr (?h(a := None))"
    using assms release_once_live [of ?h a ?d] by (simp add: live_def)
  ultimately show ?thesis by (simp add: expand del: release_n.simps)
qed

lemma release_after_free:
  assumes "get w a = None"
  shows "release_n (Suc n) (get w) (Some a) = Inl UseAfterFree"
  using assms by (simp add: release_once_def released_dangling)

end

end
