(* ===== verification/C_Strings.thy ===== *)
theory C_Strings
  imports Prelude
begin

section \<open>C strings and formatted printing into a buffer\<close>

text \<open>
  What the code uses of \<open><string.h>\<close> and \<open><stdio.h>\<close>.  A buffer is a list of characters of
  fixed length; \<open>snprintf\<close> writes the text cut to the size it is given, then a terminating zero
  character, and returns the length of the whole text.  A write outside the buffer is the fault
  \<open>OutOfBounds\<close>, so the proofs that a buffer suffices are proofs about the code's own arithmetic.
\<close>

definition NUL :: char where
  "NUL = CHR 0x00"

definition cstr :: "string \<Rightarrow> string" where
  "cstr s = takeWhile (\<lambda>c. c \<noteq> NUL) s"

lemma NUL_notin_cstr [simp]: "NUL \<notin> set (cstr s)"
  by (simp add: cstr_def)

lemma cstr_id: "NUL \<notin> set s \<Longrightarrow> cstr s = s"
  by (simp add: cstr_def takeWhile_neq_id)

lemma cstr_idem [simp]: "cstr (cstr s) = cstr s"
  by (simp add: cstr_id)

lemma length_cstr_le: "length (cstr s) \<le> length s"
  by (simp add: cstr_def length_takeWhile_le)

lemma cstr_Nil [simp]: "cstr [] = []"
  by (simp add: cstr_def)

subsection \<open>Decimal numbers\<close>

definition digit_char :: "nat \<Rightarrow> char" where
  "digit_char d = char_of (48 + d)"

lemma digit_char_simps:
  "digit_char 0 = CHR ''0''" "digit_char 1 = CHR ''1''" "digit_char (Suc 0) = CHR ''1''"
  "digit_char 2 = CHR ''2''" "digit_char 3 = CHR ''3''" "digit_char 4 = CHR ''4''"
  "digit_char 5 = CHR ''5''" "digit_char 6 = CHR ''6''" "digit_char 7 = CHR ''7''"
  "digit_char 8 = CHR ''8''" "digit_char 9 = CHR ''9''"
  by (simp_all add: digit_char_def char_of_def bit_0)

definition char_digit :: "char \<Rightarrow> nat" where
  "char_digit c = of_char c - 48"

lemma char_digit_char [simp]: "d < 10 \<Longrightarrow> char_digit (digit_char d) = d"
  by (simp add: char_digit_def digit_char_def)

fun show_nat :: "nat \<Rightarrow> string" where
  "show_nat n = (if n < 10 then [digit_char n] else show_nat (n div 10) @ [digit_char (n mod 10)])"

declare show_nat.simps [simp del]

definition read_nat :: "string \<Rightarrow> nat" where
  "read_nat s = foldl (\<lambda>a c. 10 * a + char_digit c) 0 s"

text \<open>Printing a number in decimal and reading it back gives the number.\<close>

lemma read_show_nat [simp]: "read_nat (show_nat n) = n"
proof (induction n rule: show_nat.induct)
  case (1 n)
  show ?case
  proof (cases "n < 10")
    case True
    then show ?thesis by (simp add: show_nat.simps [of n] read_nat_def)
  next
    case False
    with "1.IH" have "read_nat (show_nat (n div 10)) = n div 10" by simp
    with False show ?thesis
      by (simp add: show_nat.simps [of n] read_nat_def)
  qed
qed

lemma show_nat_inject [simp]: "show_nat m = show_nat n \<longleftrightarrow> m = n"
  by (metis read_show_nat)

definition decimal_char :: "char \<Rightarrow> bool" where
  "decimal_char c \<longleftrightarrow> 48 \<le> (of_char c :: nat) \<and> (of_char c :: nat) \<le> 57"

lemma decimal_digit_char: "d < 10 \<Longrightarrow> decimal_char (digit_char d)"
  by (simp add: decimal_char_def digit_char_def)

lemma show_nat_decimal: "c \<in> set (show_nat n) \<Longrightarrow> decimal_char c"
proof (induction n rule: show_nat.induct)
  case (1 n)
  then show ?case
    by (cases "n < 10") (auto simp: show_nat.simps [of n] decimal_digit_char)
qed

lemma show_nat_nonempty [simp]: "show_nat n \<noteq> []"
  by (subst show_nat.simps) simp

lemma length_show_nat_le: "n < 10 ^ k \<Longrightarrow> 0 < k \<Longrightarrow> length (show_nat n) \<le> k"
proof (induction k arbitrary: n)
  case 0
  then show ?case by simp
next
  case (Suc k)
  show ?case
  proof (cases "n < 10")
    case True
    then show ?thesis by (simp add: show_nat.simps [of n])
  next
    case False
    have "n div 10 < 10 ^ k" using Suc.prems(1) by (simp add: less_mult_imp_div_less)
    moreover have "0 < k" using False Suc.prems(1) by (cases k) auto
    ultimately have "length (show_nat (n div 10)) \<le> k" by (rule Suc.IH)
    with False show ?thesis by (simp add: show_nat.simps [of n])
  qed
qed

text \<open>\<open>printf("%d", v)\<close>.\<close>

definition show_int :: "int \<Rightarrow> string" where
  "show_int i = (if i < 0 then CHR ''-'' # show_nat (nat (- i)) else show_nat (nat i))"

lemma decimal_char_not: "decimal_char c \<Longrightarrow> c \<noteq> CHR ''-'' \<and> c \<noteq> CHR ''/'' \<and> c \<noteq> NUL \<and> c \<noteq> CHR '':'' \<and> c \<noteq> CHR '',''"
  by (auto simp: decimal_char_def NUL_def)

lemma show_int_chars:
  assumes "c \<in> set (show_int i)"
  shows "c = CHR ''-'' \<or> decimal_char c"
  using assms show_nat_decimal by (auto simp: show_int_def split: if_splits)

lemma show_int_clean [simp]:
  "NUL \<notin> set (show_int i)" "CHR ''/'' \<notin> set (show_int i)"
  "CHR '':'' \<notin> set (show_int i)" "CHR '','' \<notin> set (show_int i)"
  using show_int_chars [of _ i] decimal_char_not by (fastforce simp: NUL_def)+

lemma show_int_inject [simp]: "show_int i = show_int j \<longleftrightarrow> i = j"
proof
  assume eq: "show_int i = show_int j"
  have no: "CHR ''-'' \<notin> set (show_nat n)" for n
    using show_nat_decimal decimal_char_not by blast
  have ne: "show_nat m \<noteq> CHR ''-'' # show_nat n" for m n
    using no [of m] by auto
  show "i = j"
    using eq ne ne [symmetric] by (auto simp: show_int_def eq_nat_nat_iff split: if_splits)
qed simp

lemma length_show_int_int32:
  assumes "- (2 ^ 31) \<le> i" "i < 2 ^ 31"
  shows "length (show_int i) \<le> 11"
proof -
  have "nat i < 10 ^ 10 \<and> nat (- i) < 10 ^ 10" using assms by (simp add: nat_less_iff) arith
  then show ?thesis
    using length_show_nat_le [of "nat i" 10] length_show_nat_le [of "nat (- i)" 10]
    by (simp add: show_int_def)
qed

text \<open>The cast \<open>(int)v\<close> of a \<open>size_t\<close>: the low 32 bits read as two's complement.\<close>

definition int_of_size :: "nat \<Rightarrow> int" where
  "int_of_size n = (let m = n mod 2 ^ 32 in if m < 2 ^ 31 then int m else int m - 2 ^ 32)"

lemma int_of_size_small [simp]: "n < 2 ^ 31 \<Longrightarrow> int_of_size n = int n"
  by (simp add: int_of_size_def Let_def)

lemma int_of_size_range: "- (2 ^ 31) \<le> int_of_size n" "int_of_size n < 2 ^ 31"
proof -
  have "n mod 2 ^ 32 < (2 :: nat) ^ 32" by (rule mod_less_divisor) simp
  then show "- (2 ^ 31) \<le> int_of_size n" "int_of_size n < 2 ^ 31"
    by (auto simp: int_of_size_def Let_def)
qed

text \<open>The conversion of an \<open>int\<close> to \<open>size_t\<close> at a call of \<open>snprintf\<close> (64-bit targets).\<close>

definition size_of_int :: "int \<Rightarrow> nat" where
  "size_of_int i = nat (i mod 2 ^ 64)"

lemma size_of_int_nonneg: "0 \<le> i \<Longrightarrow> i < 2 ^ 64 \<Longrightarrow> size_of_int i = nat i"
  by (simp add: size_of_int_def)

subsection \<open>snprintf at an offset of a buffer\<close>

definition snprintf_at :: "char list \<Rightarrow> nat \<Rightarrow> nat \<Rightarrow> string \<Rightarrow> char list res" where
  "snprintf_at buf pos sz s =
     (if sz = 0 then Inr buf
      else let out = take (sz - 1) s @ [NUL] in
        if pos + length out \<le> length buf
        then Inr (take pos buf @ out @ drop (pos + length out) buf)
        else Inl OutOfBounds)"

lemma snprintf_at_0 [simp]: "snprintf_at buf pos 0 s = Inr buf"
  by (simp add: snprintf_at_def)

text \<open>The buffer invariant: the text so far, then zero characters only.\<close>

definition holds_text :: "char list \<Rightarrow> nat \<Rightarrow> string \<Rightarrow> bool" where
  "holds_text buf n s \<longleftrightarrow> length s \<le> n \<and> buf = s @ replicate (n - length s) NUL"

lemma holds_text_init: "holds_text (replicate n NUL) n []"
  by (simp add: holds_text_def)

lemma holds_text_length: "holds_text buf n s \<Longrightarrow> length buf = n"
  by (simp add: holds_text_def)

lemma holds_text_cstr: "holds_text buf n s \<Longrightarrow> NUL \<notin> set s \<Longrightarrow> cstr buf = s"
  by (auto simp: holds_text_def cstr_def)

text \<open>Printing right behind the text appends what fits.\<close>

lemma snprintf_at_append:
  assumes "holds_text buf n s" and "0 < sz" and "length s + sz \<le> n"
  shows "\<exists>buf'. snprintf_at buf (length s) sz t = Inr buf' \<and> holds_text buf' n (s @ take (sz - 1) t)"
proof -
  define u where "u = take (sz - 1) t"
  have lu: "length s + length u + 1 \<le> n" using assms(2,3) by (simp add: u_def)
  have buf: "buf = s @ replicate (n - length s) NUL" using assms(1) by (simp add: holds_text_def)
  have len: "length buf = n" using assms(1) by (rule holds_text_length)
  have d: "drop (length s + (length u + 1)) buf = replicate (n - length s - (length u + 1)) NUL"
    using buf by simp
  have eq: "snprintf_at buf (length s) sz t =
      Inr (take (length s) buf @ (u @ [NUL]) @ drop (length s + (length u + 1)) buf)"
    using assms(2) lu len by (simp add: snprintf_at_def Let_def u_def)
  have t: "take (length s) buf = s" using buf by simp
  have "NUL # replicate (n - length s - (length u + 1)) NUL = replicate (n - length (s @ u)) NUL"
    using lu by (simp flip: replicate_Suc add: Suc_diff_Suc)
  then have "take (length s) buf @ (u @ [NUL]) @ drop (length s + (length u + 1)) buf
      = (s @ u) @ replicate (n - length (s @ u)) NUL"
    by (simp only: t d append_assoc append_Cons append_Nil)
  with eq lu show ?thesis by (simp add: holds_text_def u_def)
qed

end
