(* ===== verification/Entity_Data.thy ===== *)
theory Entity_Data
  imports Data_Object C_Strings
begin

section \<open>Node, topic and entity descriptions\<close>

text \<open>
  The data types of \<open>zenoh_pico_nodeInfo.c\<close>, \<open>zenoh_pico_topicInfo.c\<close> and
  \<open>zenoh_pico_entity.c\<close> with their accessors, and the heaps they live in.  An owned zenoh string is
  its contents; pointers between objects are addresses, null pointers are \<open>None\<close>.
\<close>

record ZenohPicoNodeInfo = data_obj +
  ni_domain :: string
  ni_ns :: string
  ni_name :: string
  ni_enclave :: string

record ZenohPicoTopicInfo = data_obj +
  ti_name :: string
  ti_type :: string
  ti_hash :: string
  ti_qos :: string

datatype ZenohPicoEntityType = Node | Publisher | Subscription | Service | Client

record ZenohPicoEntity = data_obj +
  ent_zid :: string
  ent_id :: nat
  ent_nid :: nat
  ent_type :: ZenohPicoEntityType
  node_info :: "addr option"
  topic_info :: "addr option"

record ent_mem = mem +
  node_infos :: "addr \<rightharpoonup> ZenohPicoNodeInfo"
  topic_infos :: "addr \<rightharpoonup> ZenohPicoTopicInfo"
  entities :: "addr \<rightharpoonup> ZenohPicoEntity"
  next_entity_id :: nat
  next_node_id :: nat

subsection \<open>Accessors\<close>

definition get_zid :: "ZenohPicoEntity \<Rightarrow> string" where
  "get_zid e = ent_zid e"

definition get_nid :: "ZenohPicoEntity \<Rightarrow> nat" where
  "get_nid e = ent_nid e"

definition get_id :: "ZenohPicoEntity \<Rightarrow> nat" where
  "get_id e = ent_id e"

definition get_type :: "ZenohPicoEntity \<Rightarrow> ZenohPicoEntityType" where
  "get_type e = ent_type e"

definition get_node_domain :: "'a ent_mem_scheme \<Rightarrow> ZenohPicoEntity \<Rightarrow> string res" where
  "get_node_domain w e = andthen (deref (node_infos w) (node_info e)) (\<lambda>n. Inr (ni_domain n))"

definition get_node_namespace :: "'a ent_mem_scheme \<Rightarrow> ZenohPicoEntity \<Rightarrow> string res" where
  "get_node_namespace w e = andthen (deref (node_infos w) (node_info e)) (\<lambda>n. Inr (ni_ns n))"

definition get_node_name :: "'a ent_mem_scheme \<Rightarrow> ZenohPicoEntity \<Rightarrow> string res" where
  "get_node_name w e = andthen (deref (node_infos w) (node_info e)) (\<lambda>n. Inr (ni_name n))"

definition get_node_enclave :: "'a ent_mem_scheme \<Rightarrow> ZenohPicoEntity \<Rightarrow> string res" where
  "get_node_enclave w e = andthen (deref (node_infos w) (node_info e)) (\<lambda>n. Inr (ni_enclave n))"

definition get_topic_name :: "'a ent_mem_scheme \<Rightarrow> ZenohPicoEntity \<Rightarrow> string res" where
  "get_topic_name w e = andthen (deref (topic_infos w) (topic_info e)) (\<lambda>t. Inr (ti_name t))"

definition get_topic_type :: "'a ent_mem_scheme \<Rightarrow> ZenohPicoEntity \<Rightarrow> string res" where
  "get_topic_type w e = andthen (deref (topic_infos w) (topic_info e)) (\<lambda>t. Inr (ti_type t))"

definition get_topic_hash :: "'a ent_mem_scheme \<Rightarrow> ZenohPicoEntity \<Rightarrow> string res" where
  "get_topic_hash w e = andthen (deref (topic_infos w) (topic_info e)) (\<lambda>t. Inr (ti_hash t))"

definition get_topic_qos :: "'a ent_mem_scheme \<Rightarrow> ZenohPicoEntity \<Rightarrow> string res" where
  "get_topic_qos w e = andthen (deref (topic_infos w) (topic_info e)) (\<lambda>t. Inr (ti_qos t))"

lemmas accessor_defs = get_zid_def get_nid_def get_id_def get_type_def
  get_node_domain_def get_node_namespace_def get_node_name_def get_node_enclave_def
  get_topic_name_def get_topic_type_def get_topic_hash_def get_topic_qos_def

subsection \<open>The heaps are typed heaps\<close>

interpretation node_info_heap: typed_heap node_infos "\<lambda>h w. w\<lparr>node_infos := h\<rparr>"
  by unfold_locales auto

interpretation topic_info_heap: typed_heap topic_infos "\<lambda>h w. w\<lparr>topic_infos := h\<rparr>"
  by unfold_locales auto

interpretation entity_heap: typed_heap entities "\<lambda>h w. w\<lparr>entities := h\<rparr>"
  by unfold_locales auto

end
