(* ===== verification/Liveliness.thy ===== *)
theory Liveliness
  imports Entity_Data
begin

section \<open>Liveliness keys\<close>

text \<open>
  \<open>zenoh_pico_liveliness.c\<close>: the key expression that announces an entity to the graph, and the
  conversions of domain ids, type hashes, type names and quality-of-service profiles into the texts it
  is built from.  \<open>N\<close> is the configured \<open>RMW_ZENOH_PICO_MAX_LINENESS_LEN\<close>, and \<open>cp\<close> says for
  which text the zenoh call \<open>z_string_copy_from_str\<close> succeeds; its result is \<open>None\<close> otherwise.
\<close>

definition z_string_copy_from_str :: "(string \<Rightarrow> bool) \<Rightarrow> string \<Rightarrow> string option" where
  "z_string_copy_from_str cp s = (if cp (cstr s) then Some (cstr s) else None)"

definition ADMIN_SPACE :: string where "ADMIN_SPACE = ''@ros2_lv''"
definition SLASH_REPLACEMENT :: char where "SLASH_REPLACEMENT = CHR ''%''"
definition STRING_MAX_LEN :: nat where "STRING_MAX_LEN = 128"

fun conv_entity_type :: "ZenohPicoEntityType \<Rightarrow> string" where
  "conv_entity_type Node = ''NN''"
| "conv_entity_type Publisher = ''MP''"
| "conv_entity_type Subscription = ''MS''"
| "conv_entity_type Service = ''SS''"
| "conv_entity_type Client = ''SC''"

definition mangle_char :: "char \<Rightarrow> char" where
  "mangle_char c = (if c = CHR ''/'' then SLASH_REPLACEMENT else c)"

definition demangle_char :: "char \<Rightarrow> char" where
  "demangle_char c = (if c = SLASH_REPLACEMENT then CHR ''/'' else c)"

text \<open>The loops of \<open>mangle_name\<close> and \<open>demangle_name\<close> over the first \<open>n\<close> characters of a buffer.\<close>

definition mangle_name :: "string \<Rightarrow> nat \<Rightarrow> string" where
  "mangle_name buf n = map mangle_char (take n buf) @ drop n buf"

definition demangle_name :: "string \<Rightarrow> nat \<Rightarrow> string" where
  "demangle_name buf n = map demangle_char (take n buf) @ drop n buf"

subsection \<open>Appending to the key buffer\<close>

record key_buf =
  kb_buf :: "char list"
  kb_ptr :: nat
  kb_left :: int

text \<open>
  The three \<open>add_\<dots>_value\<close> functions and \<open>add_delimiter\<close> end in the same four lines: print with the
  space left, advance the pointer and reduce the space by the length that \<open>snprintf\<close> reports.
\<close>

definition add_text :: "string \<Rightarrow> key_buf \<Rightarrow> (bool \<times> key_buf) res" where
  "add_text t b =
     andthen (snprintf_at (kb_buf b) (kb_ptr b) (size_of_int (kb_left b)) t) (\<lambda>buf.
       Inr (True, b\<lparr>kb_buf := buf, kb_ptr := kb_ptr b + length t, kb_left := kb_left b - int (length t)\<rparr>))"

definition add_int_value :: "nat \<Rightarrow> key_buf \<Rightarrow> (bool \<times> key_buf) res" where
  "add_int_value v b =
     (if kb_left b \<le> 0 then Inr (False, b) else add_text (show_int (int_of_size v)) b)"

definition add_string_value :: "string \<Rightarrow> key_buf \<Rightarrow> (bool \<times> key_buf) res" where
  "add_string_value v b =
     (if kb_left b \<le> 0 then Inr (False, b)
      else let worker = take (STRING_MAX_LEN - 1) (cstr v);
               worker = mangle_name worker (length worker)
           in add_text worker b)"

definition add_loan_string_value :: "string \<Rightarrow> key_buf \<Rightarrow> (bool \<times> key_buf) res" where
  "add_loan_string_value v b =
     (if kb_left b \<le> 0 then Inr (False, b)
      else let len = (if length v > STRING_MAX_LEN - 1 then STRING_MAX_LEN - 1 else length v);
               worker = take len v @ replicate (STRING_MAX_LEN - len) NUL;
               worker = mangle_name worker len
           in add_text (cstr worker) b)"

definition add_delimiter :: "key_buf \<Rightarrow> (bool \<times> key_buf) res" where
  "add_delimiter b = (if kb_left b \<le> 0 then Inr (False, b) else add_text ''/'' b)"

subsection \<open>generate_liveliness\<close>

definition liveliness_topic_part :: "'a ent_mem_scheme \<Rightarrow> ZenohPicoEntity \<Rightarrow> key_buf \<Rightarrow> key_buf res" where
  "liveliness_topic_part w e b =
     andthen (add_delimiter b) (\<lambda>(_, b).
     andthen (get_topic_name w e) (\<lambda>s. andthen (add_loan_string_value s b) (\<lambda>(_, b).
     andthen (add_delimiter b) (\<lambda>(_, b).
     andthen (get_topic_type w e) (\<lambda>s. andthen (add_loan_string_value s b) (\<lambda>(_, b).
     andthen (add_delimiter b) (\<lambda>(_, b).
     andthen (get_topic_hash w e) (\<lambda>s. andthen (add_loan_string_value s b) (\<lambda>(_, b).
     andthen (add_delimiter b) (\<lambda>(_, b).
     andthen (get_topic_qos w e) (\<lambda>s. andthen (add_loan_string_value s b) (\<lambda>(_, b).
     Inr b))))))))))))"

definition liveliness_node_part :: "'a ent_mem_scheme \<Rightarrow> ZenohPicoEntity \<Rightarrow> key_buf \<Rightarrow> key_buf res" where
  "liveliness_node_part w e b =
     andthen (add_string_value ADMIN_SPACE b) (\<lambda>(_, b).
     andthen (add_delimiter b) (\<lambda>(_, b).
     andthen (get_node_domain w e) (\<lambda>s. andthen (add_loan_string_value s b) (\<lambda>(_, b).
     andthen (add_delimiter b) (\<lambda>(_, b).
     andthen (add_loan_string_value (get_zid e) b) (\<lambda>(_, b).
     andthen (add_delimiter b) (\<lambda>(_, b).
     andthen (add_int_value (get_nid e) b) (\<lambda>(_, b).
     andthen (add_delimiter b) (\<lambda>(_, b).
     andthen (add_int_value (get_id e) b) (\<lambda>(_, b).
     andthen (add_delimiter b) (\<lambda>(_, b).
     andthen (add_string_value (conv_entity_type (ent_type e)) b) (\<lambda>(_, b).
     andthen (add_delimiter b) (\<lambda>(_, b).
     andthen (get_node_enclave w e) (\<lambda>s. andthen (add_loan_string_value s b) (\<lambda>(_, b).
     andthen (add_delimiter b) (\<lambda>(_, b).
     andthen (get_node_namespace w e) (\<lambda>s. andthen (add_loan_string_value s b) (\<lambda>(_, b).
     andthen (add_delimiter b) (\<lambda>(_, b).
     andthen (get_node_name w e) (\<lambda>s. andthen (add_loan_string_value s b) (\<lambda>(_, b).
     Inr b)))))))))))))))))))))"

definition generate_liveliness ::
  "nat \<Rightarrow> (string \<Rightarrow> bool) \<Rightarrow> 'a ent_mem_scheme \<Rightarrow> ZenohPicoEntity \<Rightarrow> string option res" where
  "generate_liveliness N cp w e =
     (let b = \<lparr>kb_buf = replicate N NUL, kb_ptr = 0, kb_left = int N - 1\<rparr> in
      andthen (if node_info e \<noteq> None
               then andthen (liveliness_node_part w e b) (\<lambda>b.
                      if topic_info e \<noteq> None then liveliness_topic_part w e b else Inr b)
               else Inr b) (\<lambda>b.
      Inr (z_string_copy_from_str cp (kb_buf b))))"

subsection \<open>What the key should be\<close>

text \<open>The components of a key, each without a slash and at most 127 characters, joined by slashes.\<close>

definition key_component :: "string \<Rightarrow> string" where
  "key_component s = map mangle_char (take (STRING_MAX_LEN - 1) (cstr s))"

fun join_with :: "char \<Rightarrow> string list \<Rightarrow> string" where
  "join_with d [] = []"
| "join_with d [s] = s"
| "join_with d (s # t # ts) = s @ d # join_with d (t # ts)"

fun split_on :: "char \<Rightarrow> string \<Rightarrow> string list" where
  "split_on d [] = [[]]"
| "split_on d (c # s) = (if c = d then [] # split_on d s
     else (case split_on d s of [] \<Rightarrow> [[c]] | x # xs \<Rightarrow> (c # x) # xs))"

definition node_components :: "ZenohPicoNodeInfo \<Rightarrow> ZenohPicoEntity \<Rightarrow> string list" where
  "node_components n e =
     [key_component ADMIN_SPACE, key_component (ni_domain n), key_component (ent_zid e),
      show_int (int_of_size (ent_nid e)), show_int (int_of_size (ent_id e)),
      conv_entity_type (ent_type e),
      key_component (ni_enclave n), key_component (ni_ns n), key_component (ni_name n)]"

definition topic_components :: "ZenohPicoTopicInfo \<Rightarrow> string list" where
  "topic_components t =
     [key_component (ti_name t), key_component (ti_type t), key_component (ti_hash t), key_component (ti_qos t)]"

definition liveliness_components ::
  "ZenohPicoNodeInfo \<Rightarrow> ZenohPicoTopicInfo option \<Rightarrow> ZenohPicoEntity \<Rightarrow> string list" where
  "liveliness_components n t e =
     node_components n e @ (case t of None \<Rightarrow> [] | Some t \<Rightarrow> topic_components t)"

subsection \<open>Components and mangling\<close>

lemma mangle_char_simps [simp]:
  "mangle_char c \<noteq> CHR ''/''" "mangle_char c = NUL \<longleftrightarrow> c = NUL"
  by (auto simp: mangle_char_def SLASH_REPLACEMENT_def NUL_def)

lemma demangle_mangle_char: "c \<noteq> SLASH_REPLACEMENT \<Longrightarrow> demangle_char (mangle_char c) = c"
  by (auto simp: mangle_char_def demangle_char_def)

lemma demangle_mangle_name:
  "SLASH_REPLACEMENT \<notin> set s \<Longrightarrow> n \<le> length s \<Longrightarrow> demangle_name (mangle_name s n) n = s"
proof -
  assume "SLASH_REPLACEMENT \<notin> set s" "n \<le> length s"
  then have "map (\<lambda>c. demangle_char (mangle_char c)) (take n s) = take n s"
    by (intro map_idI demangle_mangle_char) (auto dest: in_set_takeD)
  with \<open>n \<le> length s\<close> show ?thesis
    by (simp add: mangle_name_def demangle_name_def comp_def)
qed

lemma key_component_clean [simp]:
  "NUL \<notin> set (key_component s)" "CHR ''/'' \<notin> set (key_component s)"
proof -
  have "NUL \<notin> set (take n (cstr s))" for n by (simp add: notin_set_take)
  moreover have "NUL = mangle_char c \<longleftrightarrow> c = NUL" for c by (metis mangle_char_simps(2))
  ultimately show "NUL \<notin> set (key_component s)" by (auto simp: key_component_def)
  have "CHR ''/'' \<noteq> mangle_char c" for c using mangle_char_simps(1) by metis
  then show "CHR ''/'' \<notin> set (key_component s)" by (auto simp: key_component_def)
qed

lemma length_key_component: "length (key_component s) \<le> 127"
  by (simp add: key_component_def STRING_MAX_LEN_def)

lemma conv_entity_type_clean [simp]:
  "NUL \<notin> set (conv_entity_type t)" "CHR ''/'' \<notin> set (conv_entity_type t)"
  by (cases t; simp add: NUL_def)+

lemma key_component_entity_type [simp]: "key_component (conv_entity_type t) = conv_entity_type t"
  by (cases t) (simp_all add: key_component_def cstr_def NUL_def mangle_char_def STRING_MAX_LEN_def)

lemma conv_entity_type_inject [simp]: "conv_entity_type s = conv_entity_type t \<longleftrightarrow> s = t"
  by (cases s; cases t) simp_all

lemma cstr_map_mangle: "cstr (map mangle_char s) = map mangle_char (cstr s)"
  by (simp add: cstr_def takeWhile_map comp_def)

lemma cstr_take: "cstr (take n s) = take n (cstr s)"
proof (induction s arbitrary: n)
  case Nil
  then show ?case by simp
next
  case (Cons c s)
  then show ?case by (cases n) (auto simp: cstr_def)
qed

lemma cstr_append_NULs: "cstr (s @ replicate n NUL) = cstr s"
  by (cases n) (auto simp: cstr_def takeWhile_append takeWhile_neq_id)

lemma loan_worker_text:
  "cstr (mangle_name (take (min (length v) m) v @ replicate k NUL) (min (length v) m)) = map mangle_char (take m (cstr v))"
proof -
  have "mangle_name (take (min (length v) m) v @ replicate k NUL) (min (length v) m)
      = map mangle_char (take m v) @ replicate k NUL"
    by (auto simp: mangle_name_def min_def)
  then show ?thesis by (simp add: cstr_append_NULs cstr_map_mangle cstr_take)
qed

subsection \<open>The buffer holds the text so far, cut to what fits\<close>

definition kb_ok :: "nat \<Rightarrow> key_buf \<Rightarrow> string \<Rightarrow> bool" where
  "kb_ok N b s \<longleftrightarrow>
     0 < N \<and> N < 2 ^ 31 \<and> NUL \<notin> set s \<and> holds_text (kb_buf b) N (take (N - 2) s) \<and>
     (if length s < N - 1 then kb_ptr b = length s \<and> kb_left b = int N - 1 - int (length s)
      else kb_left b \<le> 0)"

definition leads :: "nat \<Rightarrow> string \<Rightarrow> key_buf res \<Rightarrow> bool" where
  "leads N u r \<longleftrightarrow> (\<exists>b. r = Inr b \<and> kb_ok N b u)"

lemma kb_ok_init:
  "0 < N \<Longrightarrow> N < 2 ^ 31 \<Longrightarrow> kb_ok N \<lparr>kb_buf = replicate N NUL, kb_ptr = 0, kb_left = int N - 1\<rparr> []"
  by (auto simp: kb_ok_def holds_text_init)

lemma kb_ok_skip: "kb_ok N b s \<Longrightarrow> kb_left b \<le> 0 \<Longrightarrow> NUL \<notin> set t \<Longrightarrow> kb_ok N b (s @ t)"
  by (auto simp: kb_ok_def split: if_splits)

lemma kb_ok_left: "kb_ok N b s \<Longrightarrow> 0 < kb_left b \<Longrightarrow> length s < N - 1"
  by (auto simp: kb_ok_def split: if_splits)

lemma add_text_ok:
  assumes ok: "kb_ok N b s" and left: "0 < kb_left b" and t: "NUL \<notin> set t"
  shows "\<exists>b'. add_text t b = Inr (True, b') \<and> kb_ok N b' (s @ t)"
proof -
  have ls: "length s < N - 1" using ok left by (rule kb_ok_left)
  have ptr: "kb_ptr b = length s" and lft: "kb_left b = int N - 1 - int (length s)"
    and N: "N < 2 ^ 31" and s: "NUL \<notin> set s" and h: "holds_text (kb_buf b) N s"
    using ok ls by (auto simp: kb_ok_def)
  define k where "k = N - 1 - length s"
  have sz: "size_of_int (kb_left b) = k"
    using ls N by (simp add: lft k_def size_of_int_nonneg nat_diff_distrib)
  obtain buf' where w: "snprintf_at (kb_buf b) (length s) k t = Inr buf'"
    and h': "holds_text buf' N (s @ take (k - 1) t)"
    using snprintf_at_append [OF h, of k t] ls by (fastforce simp: k_def)
  define b' where "b' = b\<lparr>kb_buf := buf', kb_ptr := kb_ptr b + length t, kb_left := kb_left b - int (length t)\<rparr>"
  have "take (N - 2) (s @ t) = s @ take (k - 1) t"
    using ls by (simp add: k_def)
  then have "kb_ok N b' (s @ t)"
    using h' ls N s t by (auto simp: kb_ok_def b'_def ptr lft)
  moreover have "add_text t b = Inr (True, b')"
    using w by (simp add: add_text_def sz ptr b'_def)
  ultimately show ?thesis by blast
qed

lemma leads_ret: "kb_ok N b u \<Longrightarrow> leads N u (Inr b)"
  by (simp add: leads_def)

lemma leads_add:
  assumes "kb_ok N b s" and "NUL \<notin> set t"
    and "\<And>r b'. kb_ok N b' (s @ t) \<Longrightarrow> leads N u (f (r, b'))"
  shows "leads N u (andthen (if kb_left b \<le> 0 then Inr (False, b) else add_text t b) f)"
proof (cases "kb_left b \<le> 0")
  case True
  with assms show ?thesis by (simp add: kb_ok_skip)
next
  case False
  with assms(1,2) obtain b' where "add_text t b = Inr (True, b')" "kb_ok N b' (s @ t)"
    using add_text_ok by fastforce
  with False assms(3) show ?thesis by simp
qed

lemma add_string_value_eq:
  "add_string_value v b = (if kb_left b \<le> 0 then Inr (False, b) else add_text (key_component v) b)"
  by (simp add: add_string_value_def Let_def mangle_name_def key_component_def)

lemma add_loan_string_value_eq:
  "add_loan_string_value v b = (if kb_left b \<le> 0 then Inr (False, b) else add_text (key_component v) b)"
proof -
  have "(if length v > m then m else length v) = min (length v) m" for m :: nat
    by auto
  then show ?thesis
    by (simp only: add_loan_string_value_def Let_def loan_worker_text key_component_def)
qed

lemma leads_string: "kb_ok N b s \<Longrightarrow> (\<And>r b'. kb_ok N b' (s @ key_component v) \<Longrightarrow> leads N u (f (r, b')))
    \<Longrightarrow> leads N u (andthen (add_string_value v b) f)"
  unfolding add_string_value_eq by (rule leads_add) auto

lemma leads_loan: "kb_ok N b s \<Longrightarrow> (\<And>r b'. kb_ok N b' (s @ key_component v) \<Longrightarrow> leads N u (f (r, b')))
    \<Longrightarrow> leads N u (andthen (add_loan_string_value v b) f)"
  unfolding add_loan_string_value_eq by (rule leads_add) auto

lemma leads_int: "kb_ok N b s \<Longrightarrow> (\<And>r b'. kb_ok N b' (s @ show_int (int_of_size v)) \<Longrightarrow> leads N u (f (r, b')))
    \<Longrightarrow> leads N u (andthen (add_int_value v b) f)"
  unfolding add_int_value_def by (rule leads_add) auto

lemma leads_delimiter: "kb_ok N b s \<Longrightarrow> (\<And>r b'. kb_ok N b' (s @ ''/'') \<Longrightarrow> leads N u (f (r, b')))
    \<Longrightarrow> leads N u (andthen (add_delimiter b) f)"
  unfolding add_delimiter_def by (rule leads_add) (auto simp: NUL_def)

lemmas leads_steps = leads_string leads_loan leads_int leads_delimiter

lemma join_with_Cons: "ts \<noteq> [] \<Longrightarrow> join_with d (s # ts) = s @ d # join_with d ts"
  by (cases ts) auto

lemma join_with_append:
  "xs \<noteq> [] \<Longrightarrow> ys \<noteq> [] \<Longrightarrow> join_with d (xs @ ys) = join_with d xs @ d # join_with d ys"
  by (induction d xs rule: join_with.induct) (auto simp: join_with_Cons)

lemma split_on_no_delim: "d \<notin> set s \<Longrightarrow> split_on d s = [s]"
  by (induction s) auto

lemma split_on_append: "d \<notin> set s \<Longrightarrow> split_on d (s @ d # t) = s # split_on d t"
  by (induction s) auto

lemma split_join:
  "xs \<noteq> [] \<Longrightarrow> \<forall>x \<in> set xs. d \<notin> set x \<Longrightarrow> split_on d (join_with d xs) = xs"
  by (induction d xs rule: join_with.induct) (auto simp: split_on_append split_on_no_delim)

lemma leads_node_part:
  assumes "kb_ok N b []" and "deref (node_infos w) (node_info e) = Inr n"
  shows "leads N (join_with CHR ''/'' (node_components n e)) (liveliness_node_part w e b)"
  unfolding liveliness_node_part_def
  by (rule leads_steps, rule assms(1), simp only: accessor_defs assms(2) andthen_Inr prod.case append_Nil,
      (simp only: accessor_defs assms(2) andthen_Inr prod.case | erule leads_steps)+,
      rule leads_ret, simp add: node_components_def key_component_entity_type)

lemma leads_topic_part:
  assumes "kb_ok N b s" and "deref (topic_infos w) (topic_info e) = Inr t"
  shows "leads N (s @ CHR ''/'' # join_with CHR ''/'' (topic_components t)) (liveliness_topic_part w e b)"
  unfolding liveliness_topic_part_def
  by (rule leads_steps, rule assms(1),
      (simp only: accessor_defs assms(2) andthen_Inr prod.case | erule leads_steps)+,
      rule leads_ret, simp add: topic_components_def)

subsection \<open>The key that is generated\<close>

lemma join_clean:
  "z \<noteq> d \<Longrightarrow> \<forall>x \<in> set xs. z \<notin> set x \<Longrightarrow> z \<notin> set (join_with d xs)"
  by (induction d xs rule: join_with.induct) auto

lemma components_clean:
  "\<forall>x \<in> set (liveliness_components n t e). NUL \<notin> set x"
  "\<forall>x \<in> set (liveliness_components n t e). CHR ''/'' \<notin> set x"
  by (auto simp: liveliness_components_def node_components_def topic_components_def split: option.splits)

lemma components_nonempty [simp]: "liveliness_components n t e \<noteq> []" "node_components n e \<noteq> []"
  by (simp_all add: liveliness_components_def node_components_def)

lemma kb_ok_text: "kb_ok N b s \<Longrightarrow> cstr (kb_buf b) = take (N - 2) s"
  unfolding kb_ok_def by (auto intro!: holds_text_cstr dest: in_set_takeD)

definition topic_of :: "'a ent_mem_scheme \<Rightarrow> ZenohPicoEntity \<Rightarrow> ZenohPicoTopicInfo option \<Rightarrow> bool" where
  "topic_of w e t \<longleftrightarrow> (case t of None \<Rightarrow> topic_info e = None
     | Some ti \<Rightarrow> deref (topic_infos w) (topic_info e) = Inr ti)"

lemma generate_liveliness_key:
  assumes N: "0 < N" "N < 2 ^ 31"
    and n: "deref (node_infos w) (node_info e) = Inr n"
    and t: "topic_of w e t"
  shows "generate_liveliness N cp w e =
    Inr (let k = take (N - 2) (join_with CHR ''/'' (liveliness_components n t e))
         in if cp k then Some k else None)"
proof -
  let ?b = "\<lparr>kb_buf = replicate N NUL, kb_ptr = 0, kb_left = int N - 1\<rparr>"
  have b: "kb_ok N ?b []" using N by (rule kb_ok_init)
  from leads_node_part [OF b n] obtain b1 where
    1: "liveliness_node_part w e ?b = Inr b1" "kb_ok N b1 (join_with CHR ''/'' (node_components n e))"
    by (auto simp: leads_def)
  have ni: "node_info e \<noteq> None" using n by (auto simp: deref_eq_Inr)
  have "\<exists>b2. (if topic_info e \<noteq> None then liveliness_topic_part w e b1 else Inr b1) = Inr b2 \<and>
      kb_ok N b2 (join_with CHR ''/'' (liveliness_components n t e))"
  proof (cases t)
    case None
    with t 1 show ?thesis by (simp add: topic_of_def liveliness_components_def)
  next
    case (Some ti)
    with t have ti: "deref (topic_infos w) (topic_info e) = Inr ti" by (simp add: topic_of_def)
    have "leads N (join_with CHR ''/'' (liveliness_components n t e)) (liveliness_topic_part w e b1)"
      using leads_topic_part [OF 1(2) ti] Some
      by (simp add: liveliness_components_def join_with_append topic_components_def)
    with ti show ?thesis by (auto simp: leads_def deref_eq_Inr)
  qed
  then obtain b2 where
    2: "(if topic_info e \<noteq> None then liveliness_topic_part w e b1 else Inr b1) = Inr b2"
       "kb_ok N b2 (join_with CHR ''/'' (liveliness_components n t e))" by blast
  have "generate_liveliness N cp w e = Inr (z_string_copy_from_str cp (kb_buf b2))"
    using ni 2(1) by (simp add: generate_liveliness_def Let_def 1(1))
  then show ?thesis
    by (simp add: z_string_copy_from_str_def kb_ok_text [OF 2(2)] Let_def)
qed

text \<open>
  C15: Refinement of the key builder. For every entity whose node description (and topic description,
  if it has one) is live and every buffer size, the pointer-and-remaining-space code of
  generate_liveliness runs without a write outside its buffer and returns exactly the abstract key: the
  components (admin space, domain, session id, node id, entity id, kind, enclave, namespace, name, and for
  endpoints topic name, type, hash and qos), with slashes inside a component replaced, joined by slashes and
  cut to the N - 2 characters the buffer takes.
\<close>

theorem generate_liveliness_refines:
  assumes "0 < N" and "N < 2 ^ 31"
    and "deref (node_infos w) (node_info e) = Inr n"
    and "topic_of w e t"
  shows "generate_liveliness N cp w e =
    Inr (let k = take (N - 2) (join_with CHR ''/'' (liveliness_components n t e))
         in if cp k then Some k else None)"
  using assms by (rule generate_liveliness_key)

definition example_node_info :: ZenohPicoNodeInfo where
  "example_node_info = \<lparr>ref = 1, lock = Unlocked, ni_domain = ''0'', ni_ns = ''/'', ni_name = ''talker'', ni_enclave = ''/''\<rparr>"

definition example_topic_info :: ZenohPicoTopicInfo where
  "example_topic_info = \<lparr>ref = 1, lock = Unlocked, ti_name = ''/chatter'', ti_type = ''std_msgs::msg::dds_::String_'',
     ti_hash = ''RIHS01_df'', ti_qos = '':2:,10:,:,:,,''\<rparr>"

definition example_entity :: ZenohPicoEntity where
  "example_entity = \<lparr>ref = 1, lock = Unlocked, ent_zid = ''aabb'', ent_id = 3, ent_nid = 1, ent_type = Publisher,
     node_info = Some 10, topic_info = Some 11\<rparr>"

definition example_env :: zenv where
  "example_env = \<lparr>oom = (\<lambda>_. False), zok = (\<lambda>_ _. True), clk = (\<lambda>n. (100 + n, 5)),
     codec = \<lparr>enc_int64 = (\<lambda>v. Some [ucast v]), enc_slice = (\<lambda>s. Some s),
              dec_int64 = (\<lambda>s. None), dec_slice = (\<lambda>s. None)\<rparr>,
     copy_ok = (\<lambda>_. True), id_text = (\<lambda>_. ''aabb''), info_zid = [1], target = big_server, layout = lp64, lineness_len = 256, valid_topic = (\<lambda>_. True)\<rparr>"

definition example_ent_mem :: ent_mem where
  "example_ent_mem = \<lparr>env = example_env, next_addr = 20, bufs = Map.empty, trace = [], ticks = 0,
     node_infos = [10 \<mapsto> example_node_info], topic_infos = [11 \<mapsto> example_topic_info],
     entities = [12 \<mapsto> example_entity], next_entity_id = 4, next_node_id = 2\<rparr>"

lemmas key_text_evals = liveliness_components_def node_components_def topic_components_def
  key_component_def cstr_def NUL_def mangle_char_def SLASH_REPLACEMENT_def STRING_MAX_LEN_def ADMIN_SPACE_def
  show_int_def show_nat.simps digit_char_simps

lemma example_key:
  "join_with CHR ''/'' (liveliness_components example_node_info (Some example_topic_info) example_entity) =
     ''@ros2_lv/0/aabb/1/3/MP/%/%/talker/%chatter/std_msgs::msg::dds_::String_/RIHS01_df/:2:,10:,:,:,,''"
  by (simp add: key_text_evals example_node_info_def example_topic_info_def example_entity_def)

theorem generate_liveliness_refines_witness:
  "generate_liveliness 256 (\<lambda>_. True) example_ent_mem example_entity =
     Inr (Some ''@ros2_lv/0/aabb/1/3/MP/%/%/talker/%chatter/std_msgs::msg::dds_::String_/RIHS01_df/:2:,10:,:,:,,'')"
proof -
  have d: "deref (node_infos example_ent_mem) (node_info example_entity) = Inr example_node_info"
    by (simp add: example_ent_mem_def example_entity_def)
  have t: "topic_of example_ent_mem example_entity (Some example_topic_info)"
    by (simp add: topic_of_def example_ent_mem_def example_entity_def)
  show ?thesis
    using generate_liveliness_refines [OF _ _ d t, of 256 "\<lambda>_. True"] by (simp add: example_key)
qed

text \<open>
  C34: Keys identify entities. If the complete keys of two entities fit the buffer and generate_liveliness
  returns the same key for both, then all their components agree, so in particular their kinds agree, and
  their node ids and entity ids agree as 32-bit integers.
\<close>

theorem liveliness_key_injective:
  assumes "0 < N" and "N < 2 ^ 31"
    and "deref (node_infos w) (node_info e) = Inr n" and "topic_of w e t"
    and "deref (node_infos w') (node_info e') = Inr n'" and "topic_of w' e' t'"
    and "length (join_with CHR ''/'' (liveliness_components n t e)) \<le> N - 2"
    and "length (join_with CHR ''/'' (liveliness_components n' t' e')) \<le> N - 2"
    and "generate_liveliness N cp w e = Inr (Some k)"
    and "generate_liveliness N cp w' e' = Inr (Some k)"
  shows "liveliness_components n t e = liveliness_components n' t' e' \<and> ent_type e = ent_type e' \<and>
     int_of_size (ent_id e) = int_of_size (ent_id e') \<and> int_of_size (ent_nid e) = int_of_size (ent_nid e')"
proof -
  have "k = join_with CHR ''/'' (liveliness_components n t e)"
    using generate_liveliness_key [OF assms(1-4), of cp] assms(7,9) by (simp add: Let_def split: if_splits)
  moreover have "k = join_with CHR ''/'' (liveliness_components n' t' e')"
    using generate_liveliness_key [OF assms(1,2,5,6), of cp] assms(8,10) by (simp add: Let_def split: if_splits)
  ultimately have "split_on CHR ''/'' (join_with CHR ''/'' (liveliness_components n t e))
      = split_on CHR ''/'' (join_with CHR ''/'' (liveliness_components n' t' e'))" by simp
  then have eq: "liveliness_components n t e = liveliness_components n' t' e'"
    by (simp add: split_join components_clean)
  then have "ent_type e = ent_type e'" "int_of_size (ent_id e) = int_of_size (ent_id e')"
    "int_of_size (ent_nid e) = int_of_size (ent_nid e')"
    by (auto simp: liveliness_components_def node_components_def)
  with eq show ?thesis by blast
qed

theorem liveliness_key_injective_witness:
  "\<exists>k. generate_liveliness 256 (\<lambda>_. True) example_ent_mem example_entity = Inr (Some k) \<and>
     ent_type example_entity = ent_type (example_entity\<lparr>ref := 2\<rparr>)"
proof -
  let ?e' = "example_entity\<lparr>ref := 2\<rparr>"
  have d: "deref (node_infos example_ent_mem) (node_info example_entity) = Inr example_node_info"
    "deref (node_infos example_ent_mem) (node_info ?e') = Inr example_node_info"
    by (simp_all add: example_ent_mem_def example_entity_def)
  have t: "topic_of example_ent_mem example_entity (Some example_topic_info)"
    "topic_of example_ent_mem ?e' (Some example_topic_info)"
    by (simp_all add: topic_of_def example_ent_mem_def example_entity_def)
  have c: "liveliness_components example_node_info (Some example_topic_info) ?e'
      = liveliness_components example_node_info (Some example_topic_info) example_entity"
    by (simp add: liveliness_components_def node_components_def)
  have l: "length (join_with CHR ''/'' (liveliness_components example_node_info (Some example_topic_info) example_entity)) \<le> 256 - 2"
    by (simp add: example_key)
  have l': "length (join_with CHR ''/'' (liveliness_components example_node_info (Some example_topic_info) ?e')) \<le> 256 - 2"
    using l by (simp only: c)
  obtain k where k: "generate_liveliness 256 (\<lambda>_. True) example_ent_mem example_entity = Inr (Some k)"
    using generate_liveliness_key [OF _ _ d(1) t(1), of 256 "\<lambda>_. True"] by (simp add: Let_def)
  have k': "generate_liveliness 256 (\<lambda>_. True) example_ent_mem ?e' = Inr (Some k)"
    using k generate_liveliness_key [OF _ _ d(1) t(1), of 256 "\<lambda>_. True"]
      generate_liveliness_key [OF _ _ d(2) t(2), of 256 "\<lambda>_. True"]
    by (simp add: Let_def liveliness_components_def node_components_def)
  have "ent_type example_entity = ent_type ?e'"
    using liveliness_key_injective [OF _ _ d(1) t(1) d(2) t(2) l l' k k'] by simp
  with k show ?thesis by blast
qed

end
