(* ===== verification/Type_Names.thy ===== *)
theory Type_Names
  imports Liveliness
begin

unbundle bit_operations_syntax

section \<open>Domain ids, type hashes, type names and quality of service as text\<close>

text \<open>
  The second half of \<open>zenoh_pico_liveliness.c\<close>.  A type name or message namespace is a C pointer, so
  it may be null (\<open>None\<close>).  Results are the text that \<open>z_string_copy_from_str\<close> is given; an error
  return is \<open>None\<close> and leaves the caller's string unwritten.
\<close>

subsection \<open>Domain ids\<close>

definition conv_domain :: "(string \<Rightarrow> bool) \<Rightarrow> nat \<Rightarrow> string option res" where
  "conv_domain cp domain =
     andthen (snprintf_at (replicate 16 NUL) 0 16 (show_int (int_of_size domain))) (\<lambda>buf.
       Inr (z_string_copy_from_str cp buf))"

text \<open>One print into a zeroed buffer of \<open>n\<close> characters.\<close>

lemma snprintf_fresh:
  assumes "0 < n" and "NUL \<notin> set t"
  shows "\<exists>buf. snprintf_at (replicate n NUL) 0 n t = Inr buf \<and> cstr buf = take (n - 1) t"
proof -
  from snprintf_at_append [OF holds_text_init [of n] assms(1), of t]
  obtain buf where buf: "snprintf_at (replicate n NUL) 0 n t = Inr buf" "holds_text buf n (take (n - 1) t)"
    by auto
  have "cstr buf = take (n - 1) t"
    using buf(2) notin_set_take [OF assms(2)] by (rule holds_text_cstr)
  with buf(1) show ?thesis by blast
qed

lemma conv_domain_eq: "conv_domain cp d = Inr (z_string_copy_from_str cp (show_int (int_of_size d)))"
proof -
  have "length (show_int (int_of_size d)) \<le> 11"
    by (rule length_show_int_int32 [OF int_of_size_range])
  then show ?thesis
    using snprintf_fresh [of 16 "show_int (int_of_size d)"]
    by (auto simp: conv_domain_def z_string_copy_from_str_def cstr_id)
qed

subsection \<open>Type hashes\<close>

definition RIHS01_PREFIX :: string where "RIHS01_PREFIX = ''RIHS01_''"
definition ROSIDL_TYPE_HASH_SIZE :: nat where "ROSIDL_TYPE_HASH_SIZE = 32"
definition RIHS01_STRING_LEN :: nat where "RIHS01_STRING_LEN = 71"

definition nibble_char :: "byte \<Rightarrow> char" where
  "nibble_char nibble =
     (if nibble < 0xa then char_of (48 + unat nibble) else char_of (97 + (unat nibble - 0xa)))"

definition hex_byte :: "byte \<Rightarrow> string" where
  "hex_byte b = [nibble_char (drop_bit 4 b AND 0x0f), nibble_char (drop_bit 0 b AND 0x0f)]"

text \<open>The loop writes two characters at offset \<open>7 + 2 * i\<close> for each byte \<open>i\<close>.\<close>

fun hash_loop :: "byte list \<Rightarrow> nat \<Rightarrow> char list \<Rightarrow> char list res" where
  "hash_loop [] i buf = Inr buf"
| "hash_loop (b # bs) i buf =
     (let dest = length RIHS01_PREFIX + i * 2 in
      if dest + 1 < length buf
      then hash_loop bs (Suc i) (buf[dest := hex_byte b ! 0, dest + 1 := hex_byte b ! 1])
      else Inl OutOfBounds)"

definition convert_hash :: "(string \<Rightarrow> bool) \<Rightarrow> byte list \<Rightarrow> string option res" where
  "convert_hash cp value =
     andthen (hash_loop value 0
        (RIHS01_PREFIX @ replicate (RIHS01_STRING_LEN + 1 - length RIHS01_PREFIX) NUL)) (\<lambda>buf.
     Inr (z_string_copy_from_str cp buf))"

definition char_nibble :: "char \<Rightarrow> nat" where
  "char_nibble c = (if (of_char c :: nat) < 97 then of_char c - 48 else of_char c - 97 + 10)"

fun unhex :: "string \<Rightarrow> byte list" where
  "unhex (c # d # s) = of_nat (16 * char_nibble c + char_nibble d) # unhex s"
| "unhex _ = []"

lemma char_nibble_char: "unat n < 16 \<Longrightarrow> char_nibble (nibble_char n) = unat n"
  by (auto simp: nibble_char_def char_nibble_def word_less_nat_alt)

lemma nibble_char_not_NUL: "unat n < 16 \<Longrightarrow> nibble_char n \<noteq> NUL"
proof
  assume "unat n < 16" "nibble_char n = NUL"
  then have "(of_char (nibble_char n) :: nat) = of_char NUL" by simp
  with \<open>unat n < 16\<close> show False
    by (auto simp: nibble_char_def NUL_def word_less_nat_alt split: if_splits)
qed

lemma unat_high_nibble: "unat (drop_bit 4 (b :: byte) AND 0x0f) = unat b div 16"
proof -
  have "drop_bit 4 b AND 0x0f = take_bit 4 (drop_bit 4 b)"
    by (simp add: take_bit_eq_mask mask_eq_exp_minus_1)
  moreover have "unat b < 256" using unsigned_less [of b, where ?'a = nat] by simp
  ultimately show ?thesis
    by (simp add: drop_bit_eq_div take_bit_eq_mod unat_mod_distrib unat_div_distrib)
qed

lemma unat_low_nibble: "unat (drop_bit 0 (b :: byte) AND 0x0f) = unat b mod 16"
proof -
  have "drop_bit 0 b AND 0x0f = take_bit 4 b"
    by (simp add: take_bit_eq_mask mask_eq_exp_minus_1)
  then show ?thesis by (simp add: take_bit_eq_mod unat_mod_distrib)
qed

lemma unat_byte_nibbles: "unat b div 16 < 16" "unat (b :: byte) mod 16 < 16"
proof -
  have "unat b < 256" using unsigned_less [of b, where ?'a = nat] by simp
  then show "unat b div 16 < 16" "unat b mod 16 < 16" by simp_all
qed

lemma hex_byte_clean: "NUL \<notin> set (hex_byte b)"
  using nibble_char_not_NUL unat_byte_nibbles [of b]
  by (auto simp: hex_byte_def unat_high_nibble unat_low_nibble simp del: drop_bit_0 dest: sym)

lemma unhex_hex_byte: "unhex (hex_byte b @ s) = b # unhex s"
proof -
  have "16 * (unat b div 16) + unat b mod 16 = unat b" by simp
  then have "(of_nat (16 * (unat b div 16) + unat b mod 16) :: byte) = b"
    by simp
  then show ?thesis
    by (simp add: hex_byte_def char_nibble_char unat_high_nibble unat_low_nibble unat_byte_nibbles
        del: drop_bit_0 of_nat_add of_nat_mult)
qed

lemma unhex_hex: "unhex (concat (map hex_byte bs)) = bs"
  by (induction bs) (simp_all add: unhex_hex_byte)

lemma length_hex: "length (concat (map hex_byte bs)) = 2 * length bs"
  by (induction bs) (simp_all add: hex_byte_def)

lemma list_update2_append:
  "(p @ a # b # q)[length p := x, length p + 1 := y] = p @ x # y # q"
  by (induction p) simp_all

lemma hash_loop_text:
  assumes "length p = 7 + 2 * i" and "2 * length bs < k"
  shows "hash_loop bs i (p @ replicate k NUL) =
    Inr (p @ concat (map hex_byte bs) @ replicate (k - 2 * length bs) NUL)"
  using assms
proof (induction bs arbitrary: i p k)
  case Nil
  then show ?case by simp
next
  case (Cons b bs)
  have pre: "length RIHS01_PREFIX = 7" by (simp add: RIHS01_PREFIX_def)
  obtain m where k: "k = Suc (Suc m)" using Cons.prems(2) by (cases k; cases "k - 1") auto
  have hb: "hex_byte b = [hex_byte b ! 0, hex_byte b ! 1]" by (simp add: hex_byte_def)
  have "hash_loop (b # bs) i (p @ replicate k NUL)
      = hash_loop bs (Suc i) ((p @ NUL # NUL # replicate m NUL)[length p := hex_byte b ! 0, length p + 1 := hex_byte b ! 1])"
    using Cons.prems by (simp add: pre k Let_def mult.commute)
  also have "\<dots> = hash_loop bs (Suc i) ((p @ hex_byte b) @ replicate m NUL)"
    by (subst list_update2_append, subst (3) hb) simp
  also have "\<dots> = Inr ((p @ hex_byte b) @ concat (map hex_byte bs) @ replicate (m - 2 * length bs) NUL)"
    using Cons.prems by (intro Cons.IH) (simp_all add: k hex_byte_def)
  finally show ?case by (simp add: k)
qed

lemma convert_hash_eq:
  assumes "length value = ROSIDL_TYPE_HASH_SIZE"
  shows "convert_hash cp value = Inr (z_string_copy_from_str cp (RIHS01_PREFIX @ concat (map hex_byte value)))"
proof -
  have p: "length RIHS01_PREFIX = 7 + 2 * 0" by (simp add: RIHS01_PREFIX_def)
  have k: "2 * length value < RIHS01_STRING_LEN + 1 - length RIHS01_PREFIX"
    using assms by (simp add: RIHS01_STRING_LEN_def ROSIDL_TYPE_HASH_SIZE_def RIHS01_PREFIX_def)
  have "convert_hash cp value = Inr (z_string_copy_from_str cp
     ((RIHS01_PREFIX @ concat (map hex_byte value)) @ replicate (RIHS01_STRING_LEN + 1 - length RIHS01_PREFIX - 2 * length value) NUL))"
    unfolding convert_hash_def hash_loop_text [OF p k] by simp
  then show ?thesis by (simp only: z_string_copy_from_str_def cstr_append_NULs)
qed

text \<open>
  Type hashes. For every 32-byte type hash convert_hash stays inside its 72-character buffer and gives
  the RIHS01 text: exactly RIHS01_STRING_LEN (71) characters, the prefix followed by the hash in lower-case
  hexadecimal, from which the 32 bytes can be read back; so different hashes get different texts.
\<close>

theorem convert_hash_roundtrip:
  assumes "length value = ROSIDL_TYPE_HASH_SIZE"
  shows "\<exists>s. convert_hash (\<lambda>_. True) value = Inr (Some s) \<and> length s = RIHS01_STRING_LEN \<and>
     take (length RIHS01_PREFIX) s = RIHS01_PREFIX \<and> unhex (drop (length RIHS01_PREFIX) s) = value"
proof -
  let ?s = "RIHS01_PREFIX @ concat (map hex_byte value)"
  have "NUL \<notin> set ?s" using hex_byte_clean by (auto simp: RIHS01_PREFIX_def NUL_def)
  then have "convert_hash (\<lambda>_. True) value = Inr (Some ?s)"
    using convert_hash_eq [OF assms, of "\<lambda>_. True"] cstr_id [of ?s] by (simp add: z_string_copy_from_str_def)
  moreover have "length ?s = RIHS01_STRING_LEN"
    using assms by (simp add: length_hex RIHS01_STRING_LEN_def RIHS01_PREFIX_def ROSIDL_TYPE_HASH_SIZE_def)
  ultimately show ?thesis by (intro exI [of _ ?s]) (simp add: unhex_hex)
qed

theorem convert_hash_roundtrip_witness:
  "\<exists>s. convert_hash (\<lambda>_. True) (replicate 32 0xAB) = Inr (Some s) \<and> length s = RIHS01_STRING_LEN"
  using convert_hash_roundtrip [of "replicate 32 0xAB"] by (auto simp: ROSIDL_TYPE_HASH_SIZE_def)

subsection \<open>Type names\<close>

text \<open>
  The typesupport structure the code reads (a type of \<open>rosidl_typesupport_microxrcedds_c\<close>): two
  pointers to characters and the serialisation callbacks.  A ROS message is the byte image of its C
  struct, as behind the code's \<open>void *\<close>.  \<open>cdr_serialize m n\<close> writes into a buffer of \<open>n\<close> bytes
  and says whether it fitted.
\<close>

type_synonym ros_message = "byte list"

record message_type_support_callbacks_t =
  message_namespace :: "string option"
  message_name :: "string option"
  get_serialized_size :: "ros_message \<Rightarrow> nat"
  cdr_serialize :: "ros_message \<Rightarrow> nat \<Rightarrow> bool \<times> byte list"
  cdr_deserialize :: "byte list \<Rightarrow> bool \<times> ros_message"

definition TYPE_NAME_LEN :: nat where "TYPE_NAME_LEN = 128"

definition snprintf_type_name :: "(string \<Rightarrow> bool) \<Rightarrow> string \<Rightarrow> string option res" where
  "snprintf_type_name cp t =
     andthen (snprintf_at (replicate TYPE_NAME_LEN NUL) 0 TYPE_NAME_LEN t) (\<lambda>buf.
       Inr (z_string_copy_from_str cp buf))"

text \<open>
  \<open>_convert_message_type\<close> tests \<open>message_name\<close>, not the namespace, and prints a null name in the
  other branch; a null pointer given to \<open>%s\<close> is a fault.
\<close>

definition convert_message_type_impl ::
  "(string \<Rightarrow> bool) \<Rightarrow> string option \<Rightarrow> string option \<Rightarrow> string option res" where
  "convert_message_type_impl cp msg_namespace msg_name =
     (case msg_name of
        Some name \<Rightarrow>
          (case msg_namespace of
             Some ns \<Rightarrow> snprintf_type_name cp (cstr ns @ ''::dds_::'' @ cstr name @ ''_'')
           | None \<Rightarrow> Inl NullDeref)
      | None \<Rightarrow>
          (case msg_name of
             Some name \<Rightarrow> snprintf_type_name cp (''dds_::'' @ cstr name @ ''_'')
           | None \<Rightarrow> Inl NullDeref))"

definition convert_message_type ::
  "(string \<Rightarrow> bool) \<Rightarrow> message_type_support_callbacks_t \<Rightarrow> string option res" where
  "convert_message_type cp callbacks =
     convert_message_type_impl cp (message_namespace callbacks) (message_name callbacks)"

text \<open>\<open>strstr\<close>: the offset of the first occurrence.\<close>

fun strstr :: "string \<Rightarrow> string \<Rightarrow> nat option" where
  "strstr pat [] = (if pat = [] then Some 0 else None)"
| "strstr pat (c # s) = (if take (length pat) (c # s) = pat then Some 0 else map_option Suc (strstr pat s))"

text \<open>
  The prefix before \<open>_Request\<close> is copied into a zeroed array of 128 characters without a length
  check: 128 characters or more leave no terminator or run past the array.
\<close>

definition convert_client_type ::
  "(string \<Rightarrow> bool) \<Rightarrow> message_type_support_callbacks_t \<Rightarrow> string option res" where
  "convert_client_type cp callbacks =
     (case message_name callbacks of None \<Rightarrow> Inl NullDeref
      | Some name \<Rightarrow>
          (case strstr ''_Request'' (cstr name) of None \<Rightarrow> Inr None
           | Some suffix_position \<Rightarrow>
               (if suffix_position < 128
                then convert_message_type_impl cp (message_namespace callbacks)
                       (Some (take suffix_position (cstr name)))
                else Inl OutOfBounds)))"

lemma strstr_append:
  assumes "strstr pat s = Some k"
  shows "k + length pat \<le> length s \<and> take (length pat) (drop k s) = pat"
  using assms
proof (induction s arbitrary: k)
  case Nil
  then show ?case by (auto split: if_splits)
next
  case (Cons c s)
  show ?case
  proof (cases "take (length pat) (c # s) = pat")
    case True
    then have "length pat \<le> length (c # s)" by (metis length_take min.cobounded1)
    with True Cons.prems show ?thesis by simp
  next
    case False
    then obtain j where "k = Suc j" "strstr pat s = Some j" using Cons.prems by auto
    with Cons.IH [of j] show ?thesis by simp
  qed
qed

lemma strstr_suffix:
  "take (length pat) pat = pat \<Longrightarrow> pat \<noteq> [] \<Longrightarrow> hd pat \<notin> set s \<Longrightarrow> strstr pat (s @ pat) = Some (length s)"
proof (induction s)
  case Nil
  then show ?case by (cases pat) auto
next
  case (Cons c s)
  then have "take (length pat) (c # s @ pat) \<noteq> pat" by (cases pat) auto
  with Cons show ?case by simp
qed

lemma convert_message_type_some:
  assumes "NUL \<notin> set ns" and "NUL \<notin> set name"
  shows "convert_message_type_impl cp (Some ns) (Some name) =
    Inr (let s = take (TYPE_NAME_LEN - 1) (ns @ ''::dds_::'' @ name @ ''_'') in if cp s then Some s else None)"
proof -
  let ?t = "ns @ ''::dds_::'' @ name @ ''_''"
  have t: "NUL \<notin> set ?t" using assms by (auto simp: NUL_def)
  then obtain buf where "snprintf_at (replicate TYPE_NAME_LEN NUL) 0 TYPE_NAME_LEN ?t = Inr buf"
    "cstr buf = take (TYPE_NAME_LEN - 1) ?t"
    using snprintf_fresh [of TYPE_NAME_LEN ?t] by (auto simp: TYPE_NAME_LEN_def)
  then show ?thesis
    using assms by (simp add: convert_message_type_impl_def snprintf_type_name_def z_string_copy_from_str_def Let_def cstr_id)
qed

lemma convert_client_type_name:
  assumes "message_name cb = Some (name @ ''_Request'')" and "message_namespace cb = Some ns"
    and "NUL \<notin> set name" and "NUL \<notin> set ns" and "CHR ''_'' \<notin> set name" and "length name < 128"
  shows "convert_client_type (\<lambda>_. True) cb =
     Inr (Some (take 127 (ns @ ''::dds_::'' @ name @ ''_'')))"
proof -
  have c: "cstr (name @ ''_Request'') = name @ ''_Request''"
    using assms(3) by (intro cstr_id) (auto simp: NUL_def)
  have "strstr ''_Request'' (name @ ''_Request'') = Some (length name)"
    using assms(5) by (intro strstr_suffix) auto
  then show ?thesis
    using assms convert_message_type_some [OF assms(4,3), of "\<lambda>_. True"]
    by (simp add: convert_client_type_def c TYPE_NAME_LEN_def Let_def)
qed

text \<open>
  Service type names. For the request type of a service, whose name is the service name followed by
  _Request, convert_client_type strips the suffix: clients and servers of one service type build the same
  type name, namespace::dds_::Name_ (cut to 127 characters), whatever the request type is called further on.
\<close>

theorem convert_client_type_strips_request:
  assumes "message_name cb = Some (name @ ''_Request'')" and "message_namespace cb = Some ns"
    and "NUL \<notin> set name" and "NUL \<notin> set ns" and "CHR ''_'' \<notin> set name" and "length name < 128"
  shows "convert_client_type (\<lambda>_. True) cb =
     Inr (Some (take 127 (ns @ ''::dds_::'' @ name @ ''_'')))"
  using assms by (rule convert_client_type_name)

definition example_callbacks :: message_type_support_callbacks_t where
  "example_callbacks = \<lparr>message_namespace = Some ''example_interfaces::srv'',
     message_name = Some ''AddTwoInts_Request'',
     get_serialized_size = length, cdr_serialize = (\<lambda>m n. (length m \<le> n, m)), cdr_deserialize = (\<lambda>b. (True, b))\<rparr>"

theorem convert_client_type_strips_request_witness:
  "convert_client_type (\<lambda>_. True) example_callbacks =
     Inr (Some ''example_interfaces::srv::dds_::AddTwoInts_'')"
proof -
  have "message_name example_callbacks = Some (''AddTwoInts'' @ ''_Request'')"
    by (simp add: example_callbacks_def)
  moreover have "message_namespace example_callbacks = Some ''example_interfaces::srv''"
    by (simp add: example_callbacks_def)
  ultimately show ?thesis
    using convert_client_type_strips_request [of example_callbacks "''AddTwoInts''" "''example_interfaces::srv''"]
    by (simp add: NUL_def)
qed

lemma convert_message_type_null_name:
  "message_name cb = None \<Longrightarrow> convert_message_type cp cb = Inl NullDeref"
  by (simp add: convert_message_type_def convert_message_type_impl_def)

subsection \<open>Quality of service\<close>

record rmw_time_t =
  sec :: nat
  nsec :: nat

record rmw_qos_profile_t =
  history :: int
  depth :: nat
  reliability :: int
  durability :: int
  deadline :: rmw_time_t
  lifespan :: rmw_time_t
  liveliness :: int
  liveliness_lease_duration :: rmw_time_t
  avoid_ros_namespace_conventions :: bool

definition zero_time :: rmw_time_t where "zero_time = \<lparr>sec = 0, nsec = 0\<rparr>"

definition zero_qos :: rmw_qos_profile_t where
  "zero_qos = \<lparr>history = 0, depth = 0, reliability = 0, durability = 0, deadline = zero_time, lifespan = zero_time,
     liveliness = 0, liveliness_lease_duration = zero_time, avoid_ros_namespace_conventions = False\<rparr>"

text \<open>\<open>test_qos_profile\<close>: the fixed profile that every topic is announced with.\<close>

definition test_qos_profile :: "rmw_qos_profile_t \<Rightarrow> rmw_qos_profile_t" where
  "test_qos_profile qos = qos\<lparr>
     reliability := 0, durability := 2, history := 0, depth := 10,
     deadline := zero_time, lifespan := zero_time,
     liveliness := 0, liveliness_lease_duration := zero_time\<rparr>"

definition QOS_DELIMITER :: char where "QOS_DELIMITER = CHR '':''"
definition QOS_COMPONENT_DELIMITER :: char where "QOS_COMPONENT_DELIMITER = CHR '',''"

text \<open>Here the space left is a \<open>size_t\<close>: the subtraction wraps around.\<close>

record qos_buf =
  qb_buf :: "char list"
  qb_ptr :: nat
  qb_left :: nat

definition size_sub :: "nat \<Rightarrow> nat \<Rightarrow> nat" where
  "size_sub a b = (if b \<le> a then a - b else a + 2 ^ 64 - b)"

definition qos_append_value :: "int \<Rightarrow> qos_buf \<Rightarrow> (bool \<times> qos_buf) res" where
  "qos_append_value v b =
     (if qb_left b \<le> 0 then Inr (False, b)
      else if v \<noteq> 0 then
        andthen (snprintf_at (qb_buf b) (qb_ptr b) (qb_left b) (show_int v)) (\<lambda>buf.
          Inr (True, b\<lparr>qb_buf := buf, qb_ptr := qb_ptr b + length (show_int v),
                       qb_left := size_sub (qb_left b) (length (show_int v))\<rparr>))
      else Inr (True, b))"

definition qos_add_delimiter :: "char \<Rightarrow> qos_buf \<Rightarrow> (bool \<times> qos_buf) res" where
  "qos_add_delimiter d b =
     (if qb_left b \<le> 0 then Inr (False, b)
      else if qb_ptr b < length (qb_buf b)
        then Inr (True, b\<lparr>qb_buf := (qb_buf b)[qb_ptr b := d], qb_ptr := qb_ptr b + 1, qb_left := size_sub (qb_left b) 1\<rparr>)
        else Inl OutOfBounds)"

definition qos_fields :: "rmw_qos_profile_t \<Rightarrow> qos_buf \<Rightarrow> qos_buf res" where
  "qos_fields qos b =
     andthen (qos_append_value (reliability qos) b) (\<lambda>(_, b).
     andthen (qos_add_delimiter QOS_DELIMITER b) (\<lambda>(_, b).
     andthen (qos_append_value (durability qos) b) (\<lambda>(_, b).
     andthen (qos_add_delimiter QOS_DELIMITER b) (\<lambda>(_, b).
     andthen (qos_append_value (history qos) b) (\<lambda>(_, b).
     andthen (qos_add_delimiter QOS_COMPONENT_DELIMITER b) (\<lambda>(_, b).
     andthen (qos_append_value (int_of_size (depth qos)) b) (\<lambda>(_, b).
     andthen (qos_add_delimiter QOS_DELIMITER b) (\<lambda>(_, b).
     andthen (qos_append_value (int_of_size (sec (deadline qos))) b) (\<lambda>(_, b).
     andthen (qos_add_delimiter QOS_COMPONENT_DELIMITER b) (\<lambda>(_, b).
     andthen (qos_append_value (int_of_size (nsec (deadline qos))) b) (\<lambda>(_, b).
     andthen (qos_add_delimiter QOS_DELIMITER b) (\<lambda>(_, b).
     andthen (qos_append_value (int_of_size (sec (lifespan qos))) b) (\<lambda>(_, b).
     andthen (qos_add_delimiter QOS_COMPONENT_DELIMITER b) (\<lambda>(_, b).
     andthen (qos_append_value (int_of_size (nsec (lifespan qos))) b) (\<lambda>(_, b).
     andthen (qos_add_delimiter QOS_DELIMITER b) (\<lambda>(_, b).
     andthen (qos_append_value (liveliness qos) b) (\<lambda>(_, b).
     andthen (qos_add_delimiter QOS_COMPONENT_DELIMITER b) (\<lambda>(_, b).
     andthen (qos_append_value (int_of_size (sec (liveliness_lease_duration qos))) b) (\<lambda>(_, b).
     andthen (qos_add_delimiter QOS_COMPONENT_DELIMITER b) (\<lambda>(_, b).
     andthen (qos_append_value (int_of_size (nsec (liveliness_lease_duration qos))) b) (\<lambda>(_, b).
     Inr b)))))))))))))))))))))"

definition qos_to_keyexpr :: "(string \<Rightarrow> bool) \<Rightarrow> rmw_qos_profile_t option \<Rightarrow> string option res" where
  "qos_to_keyexpr cp qos =
     (let b = \<lparr>qb_buf = replicate 64 NUL, qb_ptr = 0, qb_left = 64 - 1\<rparr> in
      andthen (case qos of None \<Rightarrow> Inr b | Some q \<Rightarrow> qos_fields q b) (\<lambda>b.
      Inr (z_string_copy_from_str cp (qb_buf b))))"

text \<open>The text of a profile: a zero field prints as nothing.\<close>

definition qos_field :: "int \<Rightarrow> string" where
  "qos_field v = (if v = 0 then [] else show_int v)"

definition qos_values :: "rmw_qos_profile_t \<Rightarrow> int list list" where
  "qos_values q =
     [[reliability q], [durability q], [history q, int_of_size (depth q)],
      [int_of_size (sec (deadline q)), int_of_size (nsec (deadline q))],
      [int_of_size (sec (lifespan q)), int_of_size (nsec (lifespan q))],
      [liveliness q, int_of_size (sec (liveliness_lease_duration q)), int_of_size (nsec (liveliness_lease_duration q))]]"

definition qos_parts :: "rmw_qos_profile_t \<Rightarrow> string list list" where
  "qos_parts q = map (map qos_field) (qos_values q)"

definition qos_text :: "rmw_qos_profile_t \<Rightarrow> string" where
  "qos_text q = join_with QOS_DELIMITER (map (join_with QOS_COMPONENT_DELIMITER) (qos_parts q))"

lemma qos_field_clean [simp]:
  "NUL \<notin> set (qos_field v)" "CHR '':'' \<notin> set (qos_field v)" "CHR '','' \<notin> set (qos_field v)"
  by (simp_all add: qos_field_def)

lemma show_int_nonempty [simp]: "show_int v \<noteq> []"
  by (simp add: show_int_def)

lemma qos_field_inject [simp]: "qos_field u = qos_field v \<longleftrightarrow> u = v"
  using show_int_nonempty [of u] show_int_nonempty [of v]
  by (cases "u = 0"; cases "v = 0") (simp_all add: qos_field_def, metis show_int_nonempty)

definition qb_ok :: "qos_buf \<Rightarrow> string \<Rightarrow> bool" where
  "qb_ok b s \<longleftrightarrow> NUL \<notin> set s \<and> length s \<le> 62 \<and> holds_text (qb_buf b) 64 s \<and>
     qb_ptr b = length s \<and> qb_left b = 63 - length s"

definition qleads :: "string \<Rightarrow> qos_buf res \<Rightarrow> bool" where
  "qleads u r \<longleftrightarrow> (\<exists>b. r = Inr b \<and> qb_ok b u)"

lemma qleads_ret: "qb_ok b u \<Longrightarrow> qleads u (Inr b)"
  by (simp add: qleads_def)

lemma qleads_value:
  assumes ok: "qb_ok b s" and len: "length s + length (qos_field v) \<le> 62"
    and cont: "\<And>r b'. qb_ok b' (s @ qos_field v) \<Longrightarrow> qleads u (f (r, b'))"
  shows "qleads u (andthen (qos_append_value v b) f)"
proof (cases "v = 0")
  case True
  then show ?thesis using ok len cont [of b True] by (simp add: qos_append_value_def qb_ok_def qos_field_def)
next
  case False
  define t where "t = show_int v"
  have ft: "qos_field v = t" using False by (simp add: qos_field_def t_def)
  have h: "holds_text (qb_buf b) 64 s" and ptr: "qb_ptr b = length s" and left: "qb_left b = 63 - length s"
    and s: "NUL \<notin> set s" using ok by (simp_all add: qb_ok_def)
  have lt: "length s + length t \<le> 62" using len by (simp add: ft)
  obtain buf where w: "snprintf_at (qb_buf b) (length s) (63 - length s) t = Inr buf"
    and hb: "holds_text buf 64 (s @ t)"
    using snprintf_at_append [OF h, of "63 - length s" t] lt by fastforce
  define b' where "b' = b\<lparr>qb_buf := buf, qb_ptr := length s + length t, qb_left := 63 - length s - length t\<rparr>"
  have "qb_ok b' (s @ t)" using hb lt s by (simp add: qb_ok_def b'_def t_def)
  moreover have "qos_append_value v b = Inr (True, b')"
    using False w lt by (simp add: qos_append_value_def ptr left b'_def size_sub_def flip: t_def)
  ultimately show ?thesis using cont [of b' True] by (simp add: ft)
qed

lemma qleads_delim:
  assumes ok: "qb_ok b s" and len: "length s + 1 \<le> 62" and d: "d \<noteq> NUL"
    and cont: "\<And>r b'. qb_ok b' (s @ [d]) \<Longrightarrow> qleads u (f (r, b'))"
  shows "qleads u (andthen (qos_add_delimiter d b) f)"
proof -
  have h: "qb_buf b = s @ NUL # replicate (63 - length s) NUL"
    using ok len by (simp add: qb_ok_def holds_text_def flip: replicate_Suc)
  define b' where "b' = b\<lparr>qb_buf := s @ d # replicate (63 - length s) NUL, qb_ptr := length s + 1, qb_left := 63 - length s - 1\<rparr>"
  have "qb_ok b' (s @ [d])"
    using ok len d by (simp add: qb_ok_def b'_def holds_text_def)
  moreover have "qos_add_delimiter d b = Inr (True, b')"
    using ok len by (simp add: qos_add_delimiter_def qb_ok_def b'_def size_sub_def h)
  ultimately show ?thesis using cont [of b' True] by simp
qed

text \<open>The steps of \<open>qos_fields\<close> as a list, so that one induction covers all of them.\<close>

datatype qos_step = QValue int | QDelim char

fun qos_run :: "qos_step list \<Rightarrow> qos_buf \<Rightarrow> qos_buf res" where
  "qos_run [] b = Inr b"
| "qos_run (QValue v # ss) b = andthen (qos_append_value v b) (\<lambda>(_, b). qos_run ss b)"
| "qos_run (QDelim d # ss) b = andthen (qos_add_delimiter d b) (\<lambda>(_, b). qos_run ss b)"

fun qos_steps_text :: "qos_step list \<Rightarrow> string" where
  "qos_steps_text [] = []"
| "qos_steps_text (QValue v # ss) = qos_field v @ qos_steps_text ss"
| "qos_steps_text (QDelim d # ss) = d # qos_steps_text ss"

lemma qos_run_text:
  assumes "qb_ok b s" and "length s + length (qos_steps_text ss) \<le> 62" and "QDelim NUL \<notin> set ss"
  shows "qleads (s @ qos_steps_text ss) (qos_run ss b)"
  using assms
proof (induction ss arbitrary: b s rule: qos_steps_text.induct)
  case (2 v ss)
  have "qleads ((s @ qos_field v) @ qos_steps_text ss) (qos_run ss b')" if "qb_ok b' (s @ qos_field v)" for b'
    using 2(1) [OF that] 2(3,4) by simp
  then show ?case using qleads_value [OF 2(2), of v "s @ qos_steps_text (QValue v # ss)" "\<lambda>(_, b). qos_run ss b"] 2(3)
    by simp
next
  case (3 d ss)
  have "qleads ((s @ [d]) @ qos_steps_text ss) (qos_run ss b')" if "qb_ok b' (s @ [d])" for b'
    using 3(1) [OF that] 3(3,4) by simp
  then show ?case using qleads_delim [OF 3(2), of d "s @ qos_steps_text (QDelim d # ss)" "\<lambda>(_, b). qos_run ss b"] 3(3,4)
    by auto
qed (simp add: qleads_ret)

definition qos_steps :: "rmw_qos_profile_t \<Rightarrow> qos_step list" where
  "qos_steps q =
     [QValue (reliability q), QDelim QOS_DELIMITER, QValue (durability q), QDelim QOS_DELIMITER,
      QValue (history q), QDelim QOS_COMPONENT_DELIMITER, QValue (int_of_size (depth q)), QDelim QOS_DELIMITER,
      QValue (int_of_size (sec (deadline q))), QDelim QOS_COMPONENT_DELIMITER, QValue (int_of_size (nsec (deadline q))), QDelim QOS_DELIMITER,
      QValue (int_of_size (sec (lifespan q))), QDelim QOS_COMPONENT_DELIMITER, QValue (int_of_size (nsec (lifespan q))), QDelim QOS_DELIMITER,
      QValue (liveliness q), QDelim QOS_COMPONENT_DELIMITER, QValue (int_of_size (sec (liveliness_lease_duration q))),
      QDelim QOS_COMPONENT_DELIMITER, QValue (int_of_size (nsec (liveliness_lease_duration q)))]"

lemma qos_fields_text:
  assumes "length (qos_text q) \<le> 62"
  shows "qleads (qos_text q) (qos_fields q \<lparr>qb_buf = replicate 64 NUL, qb_ptr = 0, qb_left = 63\<rparr>)"
proof -
  let ?b = "\<lparr>qb_buf = replicate 64 NUL, qb_ptr = 0, qb_left = 63\<rparr>"
  have t: "qos_steps_text (qos_steps q) = qos_text q"
    by (simp add: qos_steps_def qos_text_def qos_parts_def qos_values_def)
  have r: "qos_run (qos_steps q) ?b = qos_fields q ?b"
    unfolding qos_steps_def qos_run.simps qos_fields_def by (rule refl)
  have "qb_ok ?b []" by (simp add: qb_ok_def holds_text_init)
  moreover have "QDelim NUL \<notin> set (qos_steps q)"
    by (simp add: qos_steps_def QOS_DELIMITER_def QOS_COMPONENT_DELIMITER_def NUL_def)
  ultimately show ?thesis
    using qos_run_text [of ?b "[]" "qos_steps q"] assms by (simp add: t r)
qed

lemma qos_to_keyexpr_text:
  assumes "length (qos_text q) \<le> 62"
  shows "qos_to_keyexpr cp (Some q) = Inr (if cp (qos_text q) then Some (qos_text q) else None)"
proof -
  obtain b where "qos_fields q \<lparr>qb_buf = replicate 64 NUL, qb_ptr = 0, qb_left = 63\<rparr> = Inr b" "qb_ok b (qos_text q)"
    using qos_fields_text [OF assms] by (auto simp: qleads_def)
  moreover then have "cstr (qb_buf b) = qos_text q"
    using holds_text_cstr by (auto simp: qb_ok_def)
  ultimately show ?thesis by (simp add: qos_to_keyexpr_def z_string_copy_from_str_def)
qed

lemma join_qos_field_inject:
  assumes "join_with CHR '','' (map qos_field xs) = join_with CHR '','' (map qos_field ys)"
    and "length xs = length ys" and "xs \<noteq> []"
  shows "xs = ys"
proof -
  have "ys \<noteq> []" using assms(2,3) by auto
  have s: "split_on CHR '','' (join_with CHR '','' (map qos_field zs)) = map qos_field zs" if "zs \<noteq> []" for zs
    by (rule split_join) (simp_all add: that)
  have "map qos_field xs = map qos_field ys"
    by (subst s [OF assms(3), symmetric], subst assms(1), rule s [OF \<open>ys \<noteq> []\<close>])
  moreover have "inj qos_field" by (rule injI) simp
  ultimately show ?thesis by (simp only: inj_map_eq_map)
qed

lemma join_qos_fields_inject:
  assumes "map (\<lambda>vs. join_with CHR '','' (map qos_field vs)) xss = map (\<lambda>vs. join_with CHR '','' (map qos_field vs)) yss"
    and "list_all2 (\<lambda>xs ys. length xs = length ys \<and> xs \<noteq> []) xss yss"
  shows "xss = yss"
  using assms(2,1) by induction (auto dest: join_qos_field_inject)

lemma int_of_size_inject: "int_of_size m = int_of_size n \<longleftrightarrow> m mod 2 ^ 32 = n mod 2 ^ 32"
proof
  have "m mod 2 ^ 32 < 2 ^ 32" "n mod 2 ^ 32 < 2 ^ 32" by simp_all
  then show "int_of_size m = int_of_size n \<Longrightarrow> m mod 2 ^ 32 = n mod 2 ^ 32"
    unfolding int_of_size_def Let_def by (auto split: if_splits)
qed (simp add: int_of_size_def)

text \<open>Two times whose two counters look the same to the code that prints them.\<close>

definition same_time :: "rmw_time_t \<Rightarrow> rmw_time_t \<Rightarrow> bool" where
  "same_time s t \<longleftrightarrow> sec s mod 2 ^ 32 = sec t mod 2 ^ 32 \<and> nsec s mod 2 ^ 32 = nsec t mod 2 ^ 32"

lemma qos_text_inject: "qos_text p = qos_text q \<longleftrightarrow> qos_values p = qos_values q"
proof
  assume "qos_text p = qos_text q"
  moreover have "split_on CHR '':'' (qos_text r) = map (join_with CHR '','') (qos_parts r)" for r
    unfolding qos_text_def QOS_DELIMITER_def QOS_COMPONENT_DELIMITER_def
    by (rule split_join) (auto simp: qos_parts_def qos_values_def)
  ultimately have "map (join_with CHR '','') (qos_parts p) = map (join_with CHR '','') (qos_parts q)" by metis
  then have "map (\<lambda>vs. join_with CHR '','' (map qos_field vs)) (qos_values p) =
      map (\<lambda>vs. join_with CHR '','' (map qos_field vs)) (qos_values q)"
    by (simp add: qos_parts_def comp_def)
  then show "qos_values p = qos_values q"
    by (rule join_qos_fields_inject) (auto simp: qos_values_def list_all2_Cons1)
qed (simp add: qos_text_def qos_parts_def)

text \<open>
  C37: What the text of a quality of service says. When the text of a profile has at most 62 characters, qos_to_keyexpr fills its
  64-character buffer without overflow and returns exactly that text. Two such profiles have the same text exactly
  when they agree in reliability, durability, history and liveliness, and, modulo 2^32, in the depth and in the seconds
  and nanoseconds of deadline, lifespan and lease duration: avoid_ros_namespace_conventions and the upper halves of the counters are not said.
\<close>

theorem qos_keyexpr_says:
  assumes "length (qos_text p) \<le> 62" and "length (qos_text q) \<le> 62"
  shows "qos_to_keyexpr (\<lambda>_. True) (Some p) = Inr (Some (qos_text p)) \<and>
    (qos_to_keyexpr (\<lambda>_. True) (Some p) = qos_to_keyexpr (\<lambda>_. True) (Some q) \<longleftrightarrow>
      reliability p = reliability q \<and> durability p = durability q \<and> history p = history q \<and> liveliness p = liveliness q \<and>
      depth p mod 2 ^ 32 = depth q mod 2 ^ 32 \<and> same_time (deadline p) (deadline q) \<and> same_time (lifespan p) (lifespan q) \<and>
      same_time (liveliness_lease_duration p) (liveliness_lease_duration q))"
proof -
  have t: "qos_to_keyexpr (\<lambda>_. True) (Some p) = Inr (Some (qos_text p))" "qos_to_keyexpr (\<lambda>_. True) (Some q) = Inr (Some (qos_text q))"
    using qos_to_keyexpr_text [OF assms(1), of "\<lambda>_. True"] qos_to_keyexpr_text [OF assms(2), of "\<lambda>_. True"] by simp_all
  show ?thesis unfolding t by (auto simp: qos_text_inject qos_values_def int_of_size_inject same_time_def simp del: power_numeral)
qed

lemma qos_text_test_profile: "qos_text (test_qos_profile q) = '':2:,10:,:,:,,''"
  by (simp add: qos_text_def qos_parts_def qos_values_def test_qos_profile_def zero_time_def qos_field_def QOS_DELIMITER_def
      QOS_COMPONENT_DELIMITER_def show_int_def show_nat.simps digit_char_simps)

definition long_depth :: rmw_qos_profile_t where
  "long_depth = (test_qos_profile zero_qos)\<lparr>depth := 2 ^ 32 + 10, avoid_ros_namespace_conventions := True\<rparr>"

theorem qos_keyexpr_says_witness:
  "qos_to_keyexpr (\<lambda>_. True) (Some (test_qos_profile zero_qos)) = Inr (Some '':2:,10:,:,:,,'') \<and>
   qos_to_keyexpr (\<lambda>_. True) (Some long_depth) = Inr (Some '':2:,10:,:,:,,'') \<and>
   qos_to_keyexpr (\<lambda>_. True) (Some ((test_qos_profile zero_qos)\<lparr>lifespan := \<lparr>sec = 1, nsec = 0\<rparr>\<rparr>)) \<noteq> Inr (Some '':2:,10:,:,:,,'')"
proof -
  let ?p = "test_qos_profile zero_qos" and ?r = "(test_qos_profile zero_qos)\<lparr>lifespan := \<lparr>sec = 1, nsec = 0\<rparr>\<rparr>"
  have "qos_values long_depth = qos_values ?p"
    by (simp add: long_depth_def qos_values_def test_qos_profile_def int_of_size_def)
  then have l: "qos_text long_depth = qos_text ?p" by (simp add: qos_text_inject)
  have r: "qos_text ?r = '':2:,10:,:1,:,,''"
    by (simp add: qos_text_def qos_parts_def qos_values_def test_qos_profile_def zero_time_def qos_field_def QOS_DELIMITER_def
      QOS_COMPONENT_DELIMITER_def show_int_def show_nat.simps digit_char_simps)
  have p: "length (qos_text ?p) \<le> 62" "length (qos_text long_depth) \<le> 62" "length (qos_text ?r) \<le> 62"
    unfolding r l qos_text_test_profile by simp_all
  have f: "reliability ?p = reliability long_depth" "durability ?p = durability long_depth" "history ?p = history long_depth"
    "liveliness ?p = liveliness long_depth" "depth ?p mod 2 ^ 32 = depth long_depth mod 2 ^ 32"
    "same_time (deadline ?p) (deadline long_depth)" "same_time (lifespan ?p) (lifespan long_depth)"
    "same_time (liveliness_lease_duration ?p) (liveliness_lease_duration long_depth)" "\<not> same_time (lifespan ?p) (lifespan ?r)"
    by (simp_all add: long_depth_def test_qos_profile_def same_time_def zero_time_def)
  have t: "qos_to_keyexpr (\<lambda>_. True) (Some ?p) = Inr (Some '':2:,10:,:,:,,'')"
    using qos_keyexpr_says [OF p(1) p(2)] unfolding qos_text_test_profile by blast
  then show ?thesis using qos_keyexpr_says [OF p(1) p(2)] qos_keyexpr_says [OF p(1) p(3)] f by metis
qed

end
