(* ===== verification/Topic_Key.thy ===== *)
theory Topic_Key
  imports Type_Names
begin

section \<open>Topic keys\<close>

text \<open>
  \<open>ros_topic_name_to_zenoh_key\<close> (\<open>zenoh_pico_topicInfo.c\<close>): the key expression on which publishers,
  subscriptions, services and clients exchange data.  The four arguments are zenoh strings, which
  \<open>%.*s\<close> prints up to their length or their first zero character.  The code works in a buffer
  of \<open>N\<close> characters and never looks at the space left before it prints.
\<close>

definition ros_topic_name_to_zenoh_key ::
  "nat \<Rightarrow> (string \<Rightarrow> bool) \<Rightarrow> string \<Rightarrow> string \<Rightarrow> string \<Rightarrow> string \<Rightarrow> string option res" where
  "ros_topic_name_to_zenoh_key N cp domain name type hash =
     (let b = \<lparr>kb_buf = replicate N NUL, kb_ptr = 0, kb_left = int N\<rparr> in
      andthen (add_text (cstr domain @ ''/'') b) (\<lambda>(_, b).
      andthen (if name \<noteq> []
               then andthen (if hd name \<noteq> CHR ''/'' then add_text (cstr name) b
                             else add_text (cstr (tl name)) b) (\<lambda>(_, b).
                    if last name \<noteq> CHR ''/'' then add_text ''/'' b else Inr (True, b))
               else Inr (True, b)) (\<lambda>(_, b).
      andthen (add_text (cstr type @ ''/'' @ cstr hash) b) (\<lambda>(_, b).
      Inr (z_string_copy_from_str cp (kb_buf b))))))"

text \<open>The text the key should be: the name without a leading slash and with one slash behind it.\<close>

definition name_part :: "string \<Rightarrow> string" where
  "name_part name =
     (if name = [] then []
      else (if hd name = CHR ''/'' then tl name else name) @ (if last name = CHR ''/'' then [] else ''/''))"

definition key_front :: "string \<Rightarrow> string \<Rightarrow> string" where
  "key_front domain name = domain @ ''/'' @ name_part name"

definition topic_key_text :: "string \<Rightarrow> string \<Rightarrow> string \<Rightarrow> string \<Rightarrow> string" where
  "topic_key_text domain name type hash = key_front domain name @ type @ ''/'' @ hash"

definition z_text :: "string \<Rightarrow> bool" where
  "z_text s \<longleftrightarrow> NUL \<notin> set s"

subsection \<open>The buffer while the key is printed\<close>

definition tk_ok :: "nat \<Rightarrow> key_buf \<Rightarrow> string \<Rightarrow> bool" where
  "tk_ok N b s \<longleftrightarrow> z_text s \<and> holds_text (kb_buf b) N (take (N - 1) s) \<and>
     kb_ptr b = length s \<and> kb_left b = int N - int (length s)"

lemma tk_ok_init: "0 < N \<Longrightarrow> tk_ok N \<lparr>kb_buf = replicate N NUL, kb_ptr = 0, kb_left = int N\<rparr> []"
  by (simp add: tk_ok_def z_text_def holds_text_init)

lemma add_text_fits:
  assumes ok: "tk_ok N b s" and t: "z_text t" and N: "0 < N" "N < 2 ^ 31" and len: "length s \<le> N"
  shows "\<exists>b'. add_text t b = Inr (True, b') \<and> tk_ok N b' (s @ t)"
proof -
  have ptr: "kb_ptr b = length s" and left: "kb_left b = int N - int (length s)"
    and h: "holds_text (kb_buf b) N (take (N - 1) s)" and s: "z_text s"
    using ok by (simp_all add: tk_ok_def)
  have sz: "size_of_int (kb_left b) = N - length s"
    using len N by (simp add: left size_of_int_def)
  show ?thesis
  proof (cases "length s = N")
    case True
    have "add_text t b = Inr (True, b\<lparr>kb_ptr := length s + length t, kb_left := int N - int (length s) - int (length t)\<rparr>)"
      using True sz by (simp add: add_text_def ptr left)
    then show ?thesis
      using True h s t by (auto simp: tk_ok_def z_text_def)
  next
    case False
    then have lt: "length s < N" using len by simp
    then have ts: "take (N - 1) s = s" by simp
    from snprintf_at_append [of "kb_buf b" N s "N - length s" t] h lt
    obtain buf where buf: "snprintf_at (kb_buf b) (length s) (N - length s) t = Inr buf"
      "holds_text buf N (s @ take (N - length s - 1) t)"
      by (auto simp: ts)
    have "take (N - 1) (s @ t) = s @ take (N - length s - 1) t"
      using lt by (simp add: diff_right_commute)
    moreover have "add_text t b = Inr (True, b\<lparr>kb_buf := buf, kb_ptr := length s + length t, kb_left := int N - int (length s) - int (length t)\<rparr>)"
      using buf(1) sz by (simp add: add_text_def ptr left)
    ultimately show ?thesis
      using buf(2) s t by (auto simp: tk_ok_def z_text_def)
  qed
qed

lemma add_text_overflows:
  assumes ok: "tk_ok N b s" and N: "N < 2 ^ 31" and len: "N < length s" "length s < 2 ^ 31"
  shows "add_text t b = Inl OutOfBounds"
proof -
  have ptr: "kb_ptr b = length s" and left: "kb_left b = int N - int (length s)"
    and h: "length (kb_buf b) = N"
    using ok by (auto simp: tk_ok_def holds_text_length)
  have "(int N - int (length s)) mod 2 ^ 64 = (int N - int (length s) + 2 ^ 64) mod 2 ^ 64"
    by (simp only: mod_add_self2)
  also have "\<dots> = int N - int (length s) + 2 ^ 64"
    using len N by (intro mod_pos_pos_trivial) auto
  finally have "(int N - int (length s)) mod 2 ^ 64 = int N - int (length s) + 2 ^ 64" .
  then have "size_of_int (kb_left b) \<noteq> 0"
    using len N by (simp add: left size_of_int_def)
  then show ?thesis
    using len(1) h by (simp add: add_text_def snprintf_at_def ptr Let_def)
qed

lemma cstr_z_text [simp]: "z_text s \<Longrightarrow> cstr s = s"
  by (simp add: z_text_def cstr_id)

lemma z_text_simps [simp]:
  "z_text []" "z_text (s @ t) \<longleftrightarrow> z_text s \<and> z_text t" "z_text (c # s) \<longleftrightarrow> c \<noteq> NUL \<and> z_text s"
  by (auto simp: z_text_def)

lemma z_text_tl [simp]: "z_text s \<Longrightarrow> z_text (tl s)"
  by (cases s) auto

lemma slash_not_NUL [simp]: "CHR ''/'' \<noteq> NUL"
  by (simp add: NUL_def)

text \<open>A run of prints: it keeps the invariant while the text is within the buffer and is a fault beyond it.\<close>

definition tk_run :: "nat \<Rightarrow> string \<Rightarrow> (bool \<times> key_buf) res \<Rightarrow> bool" where
  "tk_run N s r \<longleftrightarrow> z_text s \<and> (\<exists>x b. r = Inr (x, b) \<and> tk_ok N b s)"

lemma tk_run_print:
  assumes "tk_ok N b s" and "z_text t" and "0 < N" "N < 2 ^ 31" and "length s + length t < 2 ^ 31"
  shows "if length s \<le> N then tk_run N (s @ t) (add_text t b) else add_text t b = Inl OutOfBounds"
  using assms add_text_fits [of N b s t] add_text_overflows [of N b s t]
  by (auto simp: tk_run_def tk_ok_def)

lemma tk_run_then:
  assumes "tk_run N s r" and "z_text t" and "0 < N" "N < 2 ^ 31" and "length s + length t < 2 ^ 31"
  shows "if length s \<le> N then tk_run N (s @ t) (andthen r (\<lambda>(_, b). add_text t b))
         else andthen r (\<lambda>(_, b). add_text t b) = Inl OutOfBounds"
proof -
  obtain x b where "r = Inr (x, b)" "tk_ok N b s" using assms(1) by (auto simp: tk_run_def)
  then show ?thesis using tk_run_print [of N b s t] assms by simp
qed

text \<open>The middle of the key: the name, and the slash behind it.\<close>

definition print_name :: "string \<Rightarrow> key_buf \<Rightarrow> (bool \<times> key_buf) res" where
  "print_name name b =
     (if name \<noteq> []
      then andthen (if hd name \<noteq> CHR ''/'' then add_text (cstr name) b
                    else add_text (cstr (tl name)) b) (\<lambda>(_, b).
           if last name \<noteq> CHR ''/'' then add_text ''/'' b else Inr (True, b))
      else Inr (True, b))"

lemma print_name_run:
  assumes ok: "tk_ok N b s" and n: "z_text name" and N: "0 < N" "N < 2 ^ 31"
    and len: "length s + length (name_part name) < 2 ^ 31"
  shows "tk_run N (s @ name_part name) (print_name name b) \<or>
    print_name name b = Inl OutOfBounds \<and> N < length (s @ name_part name)"
proof (cases "name = []")
  case True
  then show ?thesis using ok by (auto simp: print_name_def name_part_def tk_run_def tk_ok_def intro: exI [of _ True])
next
  case False
  define body where "body = (if hd name = CHR ''/'' then tl name else name)"
  have zb: "z_text body" using n by (simp add: body_def)
  have np: "name_part name = body @ (if last name = CHR ''/'' then [] else ''/'')"
    using False by (simp add: name_part_def body_def)
  have pn: "print_name name b = andthen (add_text body b) (\<lambda>(_, b). if last name \<noteq> CHR ''/'' then add_text ''/'' b else Inr (True, b))"
    using False n by (simp add: print_name_def body_def)
  have lb: "length s + length body < 2 ^ 31" using len by (simp add: np split: if_splits)
  show ?thesis
  proof (cases "length s \<le> N")
    case False
    then show ?thesis using tk_run_print [OF ok zb N lb] by (simp add: pn np)
  next
    case True
    then have run: "tk_run N (s @ body) (add_text body b)" using tk_run_print [OF ok zb N lb] by simp
    then obtain x b' where b': "add_text body b = Inr (x, b')" "tk_ok N b' (s @ body)" by (auto simp: tk_run_def)
    show ?thesis
    proof (cases "last name = CHR ''/''")
      case True
      then show ?thesis using run b' by (auto simp: pn np tk_run_def intro: exI [of _ True])
    next
      case False
      then show ?thesis
        using tk_run_print [OF b'(2), of "''/''"] N len by (auto simp: pn np b'(1) split: if_splits)
    qed
  qed
qed

lemma topic_key_general:
  assumes z: "z_text domain" "z_text name" "z_text type" "z_text hash"
    and N: "0 < N" "N < 2 ^ 31" and len: "length (topic_key_text domain name type hash) < 2 ^ 31"
  shows "ros_topic_name_to_zenoh_key N cp domain name type hash =
    (if length (key_front domain name) \<le> N
     then let k = take (N - 1) (topic_key_text domain name type hash) in Inr (if cp k then Some k else None)
     else Inl OutOfBounds)"
proof -
  let ?b = "\<lparr>kb_buf = replicate N NUL, kb_ptr = 0, kb_left = int N\<rparr>"
  let ?d = "domain @ ''/''" and ?t = "type @ ''/'' @ hash"
  have unf: "ros_topic_name_to_zenoh_key N cp domain name type hash =
      andthen (add_text ?d ?b) (\<lambda>(_, b). andthen (print_name name b) (\<lambda>(_, b).
      andthen (add_text ?t b) (\<lambda>(_, b). Inr (z_string_copy_from_str cp (kb_buf b)))))"
    unfolding ros_topic_name_to_zenoh_key_def Let_def print_name_def
    by (simp only: z cstr_z_text)
  have l: "length domain + length (name_part name) + length type + length hash + 2 < 2 ^ 31"
    using len by (simp add: topic_key_text_def key_front_def)
  obtain b1 x1 where b1: "add_text ?d ?b = Inr (x1, b1)" "tk_ok N b1 ?d"
    using add_text_fits [OF tk_ok_init [OF N(1)], of ?d] N z by auto
  have nm: "tk_run N (?d @ name_part name) (print_name name b1) \<or>
      print_name name b1 = Inl OutOfBounds \<and> N < length (?d @ name_part name)"
    using print_name_run [OF b1(2) z(2) N] l by simp
  show ?thesis
  proof (cases "tk_run N (?d @ name_part name) (print_name name b1)")
    case False
    then show ?thesis using nm by (simp add: unf b1(1) key_front_def)
  next
    case True
    then obtain x2 b2 where b2: "print_name name b1 = Inr (x2, b2)" "tk_ok N b2 (?d @ name_part name)"
      by (auto simp: tk_run_def)
    have run: "if length (?d @ name_part name) \<le> N then tk_run N ((?d @ name_part name) @ ?t) (add_text ?t b2)
        else add_text ?t b2 = Inl OutOfBounds"
      using tk_run_print [OF b2(2), of ?t] N z l by simp
    show ?thesis
    proof (cases "length (key_front domain name) \<le> N")
      case False
      then show ?thesis using run by (simp add: unf b1(1) b2(1) key_front_def)
    next
      case True
      then obtain x3 b3 where b3: "add_text ?t b2 = Inr (x3, b3)" "tk_ok N b3 (topic_key_text domain name type hash)"
        using run by (auto simp: tk_run_def key_front_def topic_key_text_def)
      have "z_text (take (N - 1) (topic_key_text domain name type hash))"
        using b3(2) by (simp add: tk_ok_def z_text_def notin_set_take)
      then have "cstr (kb_buf b3) = take (N - 1) (topic_key_text domain name type hash)"
        using b3(2) holds_text_cstr [of "kb_buf b3" N] by (simp add: tk_ok_def z_text_def)
      with True show ?thesis
        by (simp add: unf b1(1) b2(1) b3(1) [simplified] z_string_copy_from_str_def Let_def)
    qed
  qed
qed

text \<open>
  C36: Topic keys and their buffer. For zenoh strings without zero characters, ros_topic_name_to_zenoh_key
  returns the key domain / name / type / hash, cut to the N - 1 characters of its buffer, exactly when
  the part in front of the type has at most N characters; when that part is longer the
  remaining space has become negative, is read as a huge size, and the last print
  writes outside the array.
\<close>

theorem topic_key_or_overflow:
  assumes "z_text domain" "z_text name" "z_text type" "z_text hash"
    and "0 < N" "N < 2 ^ 31" and "length (topic_key_text domain name type hash) < 2 ^ 31"
  shows "ros_topic_name_to_zenoh_key N cp domain name type hash =
    (if length (key_front domain name) \<le> N
     then let k = take (N - 1) (topic_key_text domain name type hash) in Inr (if cp k then Some k else None)
     else Inl OutOfBounds)"
  using assms by (rule topic_key_general)

theorem topic_key_or_overflow_witness:
  "ros_topic_name_to_zenoh_key 24 (\<lambda>_. True) ''0'' ''/chatter'' ''std::String_'' ''RIHS01_d'' =
     Inr (Some ''0/chatter/std::String_/'') \<and>
   ros_topic_name_to_zenoh_key 9 (\<lambda>_. True) ''0'' ''/chatter'' ''std::String_'' ''RIHS01_d'' = Inl OutOfBounds"
  using topic_key_or_overflow [of "''0''" "''/chatter''" "''std::String_''" "''RIHS01_d''" 24 "\<lambda>_. True"]
    topic_key_or_overflow [of "''0''" "''/chatter''" "''std::String_''" "''RIHS01_d''" 9 "\<lambda>_. True"]
  by (simp add: z_text_def NUL_def topic_key_text_def key_front_def name_part_def Let_def)

text \<open>Two endpoints meet on the same key exactly when these four texts agree.\<close>

lemma append_slash_inject:
  assumes "CHR ''/'' \<notin> set a" "CHR ''/'' \<notin> set a'"
  shows "a @ CHR ''/'' # x = a' @ CHR ''/'' # x' \<longleftrightarrow> a = a' \<and> x = x'"
proof
  assume eq: "a @ CHR ''/'' # x = a' @ CHR ''/'' # x'"
  then have "takeWhile (\<lambda>c. c \<noteq> CHR ''/'') (a @ CHR ''/'' # x) = takeWhile (\<lambda>c. c \<noteq> CHR ''/'') (a' @ CHR ''/'' # x')"
    by (rule arg_cong)
  then have "a = a'" using assms by simp
  with eq show "a = a' \<and> x = x'" by simp
qed simp

lemma append_slash_inject_right:
  assumes "CHR ''/'' \<notin> set b" "CHR ''/'' \<notin> set b'"
  shows "x @ CHR ''/'' # b = x' @ CHR ''/'' # b' \<longleftrightarrow> x = x' \<and> b = b'"
  using append_slash_inject [of "rev b" "rev b'" "rev x" "rev x'"] assms
  by (metis (no_types, lifting) append.assoc append_Cons append_Nil rev.simps(2) rev_append rev_rev_ident set_rev)

lemma name_part_ends: "name_part name = [] \<or> last (name_part name) = CHR ''/''"
  by (cases name) (auto simp: name_part_def)

lemma front_of_type:
  assumes "CHR ''/'' \<notin> set t" "CHR ''/'' \<notin> set t'"
    and "p = [] \<or> last p = CHR ''/''" "p' = [] \<or> last p' = CHR ''/''"
  shows "p @ t = p' @ t' \<longleftrightarrow> p = p' \<and> t = t'"
proof -
  have snoc: "q = [] \<or> (\<exists>r. q = r @ [CHR ''/''])" if "q = [] \<or> last q = CHR ''/''" for q
    using that by (metis append_butlast_last_id)
  consider "p = []" "p' = []" | r where "p = r @ [CHR ''/'']" "p' = []" | r where "p = []" "p' = r @ [CHR ''/'']"
    | r r' where "p = r @ [CHR ''/'']" "p' = r' @ [CHR ''/'']"
    using snoc [OF assms(3)] snoc [OF assms(4)] by blast
  then show ?thesis
  proof cases
    case 4
    then show ?thesis using append_slash_inject_right [OF assms(1,2), of r r'] by simp
  qed (use assms(1,2) in auto)
qed

lemma topic_key_text_eq:
  assumes "CHR ''/'' \<notin> set d" "CHR ''/'' \<notin> set d'" and "CHR ''/'' \<notin> set t" "CHR ''/'' \<notin> set t'"
    and "CHR ''/'' \<notin> set h" "CHR ''/'' \<notin> set h'"
  shows "topic_key_text d n t h = topic_key_text d' n' t' h' \<longleftrightarrow>
     d = d' \<and> name_part n = name_part n' \<and> t = t' \<and> h = h'"
proof -
  have "(name_part n @ t) @ CHR ''/'' # h = (name_part n' @ t') @ CHR ''/'' # h' \<longleftrightarrow>
      name_part n @ t = name_part n' @ t' \<and> h = h'"
    by (rule append_slash_inject_right) (use assms in auto)
  moreover have "name_part n @ t = name_part n' @ t' \<longleftrightarrow> name_part n = name_part n' \<and> t = t'"
    using front_of_type [OF assms(3,4) name_part_ends name_part_ends] .
  ultimately show ?thesis
    using append_slash_inject [OF assms(1,2)] by (auto simp: topic_key_text_def key_front_def)
qed

text \<open>
  C35: Endpoints meet exactly on equal topics. When domain, type and hash contain no slash and both keys fit
  the buffer, ros_topic_name_to_zenoh_key returns the same key for two endpoints if and only if their domain,
  type, hash and name part agree, where the name part ignores one leading slash and a trailing one.
\<close>

theorem topic_keys_meet:
  assumes "z_text d" "z_text n" "z_text t" "z_text h" "z_text d'" "z_text n'" "z_text t'" "z_text h'"
    and "CHR ''/'' \<notin> set (d @ t @ h)" "CHR ''/'' \<notin> set (d' @ t' @ h')"
    and "N < 2 ^ 31" "length (topic_key_text d n t h) < N" "length (topic_key_text d' n' t' h') < N"
  shows "(ros_topic_name_to_zenoh_key N (\<lambda>_. True) d n t h = ros_topic_name_to_zenoh_key N (\<lambda>_. True) d' n' t' h')
     = (d = d' \<and> name_part n = name_part n' \<and> t = t' \<and> h = h')"
proof -
  have key: "ros_topic_name_to_zenoh_key N (\<lambda>_. True) a b c e = Inr (Some (topic_key_text a b c e))"
    if "z_text a" "z_text b" "z_text c" "z_text e" "length (topic_key_text a b c e) < N" for a b c e
  proof -
    have "length (key_front a b) \<le> N" using that(5) by (simp add: topic_key_text_def)
    then show ?thesis
      using topic_key_general [OF that(1-4), of N "\<lambda>_. True"] that(5) assms(11) by (simp add: Let_def)
  qed
  show ?thesis
    using key [OF assms(1-4) assms(12)] key [OF assms(5-8) assms(13)]
      topic_key_text_eq [of d d' t t' h h' n n'] assms(9,10) by simp
qed

theorem topic_keys_meet_witness:
  "ros_topic_name_to_zenoh_key 64 (\<lambda>_. True) ''0'' ''/chatter'' ''T_'' ''h'' =
   ros_topic_name_to_zenoh_key 64 (\<lambda>_. True) ''0'' ''chatter/'' ''T_'' ''h'' \<and>
   ros_topic_name_to_zenoh_key 64 (\<lambda>_. True) ''0'' ''/chatter'' ''T_'' ''h'' \<noteq>
   ros_topic_name_to_zenoh_key 64 (\<lambda>_. True) ''0'' ''/chatter2'' ''T_'' ''h''"
  using topic_keys_meet [of "''0''" "''/chatter''" "''T_''" "''h''" "''0''" "''chatter/''" "''T_''" "''h''" 64]
    topic_keys_meet [of "''0''" "''/chatter''" "''T_''" "''h''" "''0''" "''/chatter2''" "''T_''" "''h''" 64]
  by (simp add: z_text_def NUL_def topic_key_text_def key_front_def name_part_def)

end
