(* ===== verification/Entity_Ops.thy ===== *)
theory Entity_Ops
  imports Topic_Key
begin

section \<open>Creating and destroying node, topic and entity descriptions\<close>

text \<open>
  The generate and destroy functions of \<open>zenoh_pico_nodeInfo.c\<close>, \<open>zenoh_pico_topicInfo.c\<close> and
  \<open>zenoh_pico_entity.c\<close>.  A string the code has set to the empty string first keeps that value when
  the copy into it fails; a string on the stack that a failed conversion leaves unwritten is a fault
  when it is read.
\<close>

subsection \<open>Type supports\<close>

text \<open>
  The rosidl structures that the generate functions read.  \<open>ts_data\<close> is the \<open>data\<close> member cast to
  the callbacks, \<open>ts_hash\<close> what \<open>get_type_hash_func\<close> returns.
\<close>

record rosidl_message_type_support_t =
  ts_data :: message_type_support_callbacks_t
  ts_hash :: "byte list"

record rosidl_service_type_support_t =
  request_members :: rosidl_message_type_support_t
  response_members :: rosidl_message_type_support_t
  service_hash :: "byte list"

definition get_request_callback :: "rosidl_service_type_support_t \<Rightarrow> message_type_support_callbacks_t" where
  "get_request_callback type_support = ts_data (request_members type_support)"

definition get_response_callback :: "rosidl_service_type_support_t \<Rightarrow> message_type_support_callbacks_t" where
  "get_response_callback type_support = ts_data (response_members type_support)"

subsection \<open>Strings\<close>

definition copied :: "string option \<Rightarrow> string" where
  "copied r = (case r of None \<Rightarrow> [] | Some s \<Rightarrow> s)"

definition written :: "string option \<Rightarrow> string res" where
  "written r = (case r of None \<Rightarrow> Inl Uninitialised | Some s \<Rightarrow> Inr s)"

lemma copied_simps [simp]: "copied None = []" "copied (Some s) = s"
  by (simp_all add: copied_def)

lemma written_simps [simp]: "written None = Inl Uninitialised" "written (Some s) = Inr s"
  by (simp_all add: written_def)

definition z_string_clone :: "(string \<Rightarrow> bool) \<Rightarrow> string \<Rightarrow> string" where
  "z_string_clone cp s = (if cp s then s else [])"

subsection \<open>Node descriptions\<close>

definition zero_node_info :: ZenohPicoNodeInfo where
  "zero_node_info = \<lparr>ref = 0, lock = Unlocked, ni_domain = [], ni_ns = [], ni_name = [], ni_enclave = []\<rparr>"

definition zenoh_pico_generate_node_info ::
  "nat \<Rightarrow> string \<Rightarrow> string \<Rightarrow> string \<Rightarrow> 'a ent_mem_scheme \<Rightarrow> (addr option \<times> 'a ent_mem_scheme) res" where
  "zenoh_pico_generate_node_info domain_id ns name enclave w =
     (case ZenohPicoDataGenerate zero_node_info (node_infos w) w of
        (None, h, w) \<Rightarrow> Inr (None, w\<lparr>node_infos := h\<rparr>)
      | (Some a, h, w) \<Rightarrow>
          andthen (conv_domain (copy_ok (env w)) domain_id) (\<lambda>domain.
          andthen (deref h (Some a)) (\<lambda>node.
            Inr (Some a, w\<lparr>node_infos := h(a \<mapsto> node\<lparr>
              ni_domain := copied domain,
              ni_ns := copied (z_string_copy_from_str (copy_ok (env w)) ns),
              ni_name := copied (z_string_copy_from_str (copy_ok (env w)) name),
              ni_enclave := z_string_clone (copy_ok (env w)) enclave\<rparr>)\<rparr>))))"

definition drop_node_info :: "ZenohPicoNodeInfo \<Rightarrow> ZenohPicoNodeInfo" where
  "drop_node_info n = n\<lparr>ni_domain := [], ni_ns := [], ni_name := [], ni_enclave := []\<rparr>"

definition zenoh_pico_destroy_node_info ::
  "addr option \<Rightarrow> 'a ent_mem_scheme \<Rightarrow> (bool \<times> 'a ent_mem_scheme) res" where
  "zenoh_pico_destroy_node_info p w =
     (if p = None then Inr (False, w)
      else andthen (ZenohPicoDataRelease (node_infos w) p) (\<lambda>(last, h).
        if last then
          andthen (deref h p) (\<lambda>node.
          andthen (ZenohPicoDataDestroy (h(the p \<mapsto> drop_node_info node)) p) (\<lambda>h.
            Inr (True, w\<lparr>node_infos := h\<rparr>)))
        else Inr (True, w\<lparr>node_infos := h\<rparr>)))"

subsection \<open>Topic descriptions\<close>

definition zero_topic_info :: ZenohPicoTopicInfo where
  "zero_topic_info = \<lparr>ref = 0, lock = Unlocked, ti_name = [], ti_type = [], ti_hash = [], ti_qos = []\<rparr>"

text \<open>The profile argument is not used: the code announces \<open>test_qos_profile\<close>.\<close>

definition zenoh_pico_generate_topic_info ::
  "string \<Rightarrow> rmw_qos_profile_t \<Rightarrow> string \<Rightarrow> string \<Rightarrow> 'a ent_mem_scheme \<Rightarrow> (addr option \<times> 'a ent_mem_scheme) res" where
  "zenoh_pico_generate_topic_info name qos type hash w =
     (case ZenohPicoDataGenerate zero_topic_info (topic_infos w) w of
        (None, h, w) \<Rightarrow> Inr (None, w\<lparr>topic_infos := h\<rparr>)
      | (Some a, h, w) \<Rightarrow>
          andthen (deref h (Some a)) (\<lambda>topic.
          andthen (qos_to_keyexpr (copy_ok (env w)) (Some (test_qos_profile zero_qos))) (\<lambda>qos_key.
          andthen (written qos_key) (\<lambda>qos_key.
            Inr (Some a, w\<lparr>topic_infos := h(a \<mapsto> topic\<lparr>
              ti_name := copied (z_string_copy_from_str (copy_ok (env w)) name),
              ti_type := z_string_clone (copy_ok (env w)) type,
              ti_hash := z_string_clone (copy_ok (env w)) hash,
              ti_qos := z_string_clone (copy_ok (env w)) qos_key\<rparr>)\<rparr>)))))"

definition drop_topic_info :: "ZenohPicoTopicInfo \<Rightarrow> ZenohPicoTopicInfo" where
  "drop_topic_info t = t\<lparr>ti_name := [], ti_type := [], ti_hash := [], ti_qos := []\<rparr>"

definition zenoh_pico_destroy_topic_info ::
  "addr option \<Rightarrow> 'a ent_mem_scheme \<Rightarrow> (bool \<times> 'a ent_mem_scheme) res" where
  "zenoh_pico_destroy_topic_info p w =
     (if p = None then Inr (False, w)
      else andthen (ZenohPicoDataRelease (topic_infos w) p) (\<lambda>(last, h).
        if last then
          andthen (deref h p) (\<lambda>topic.
          andthen (ZenohPicoDataDestroy (h(the p \<mapsto> drop_topic_info topic)) p) (\<lambda>h.
            Inr (True, w\<lparr>topic_infos := h\<rparr>)))
        else Inr (True, w\<lparr>topic_infos := h\<rparr>)))"

subsection \<open>Entities\<close>

definition zenoh_pico_get_next_entity_id :: "'a ent_mem_scheme \<Rightarrow> nat \<times> 'a ent_mem_scheme" where
  "zenoh_pico_get_next_entity_id w =
     (next_entity_id w, w\<lparr>next_entity_id := (next_entity_id w + 1) mod 2 ^ 64\<rparr>)"

definition zero_entity :: ZenohPicoEntity where
  "zero_entity = \<lparr>ref = 0, lock = Unlocked, ent_zid = [], ent_id = 0, ent_nid = 0, ent_type = Node,
     node_info = None, topic_info = None\<rparr>"

text \<open>\<open>_z_id_check\<close>: a session id is valid when it is not all zero.\<close>

definition z_id_check :: "byte list \<Rightarrow> bool" where
  "z_id_check zid \<longleftrightarrow> (\<exists>b \<in> set zid. b \<noteq> 0)"

definition zenoh_pico_generate_entity ::
  "byte list \<Rightarrow> nat \<Rightarrow> ZenohPicoEntityType \<Rightarrow> addr option \<Rightarrow> addr option \<Rightarrow> 'a ent_mem_scheme
     \<Rightarrow> (addr option \<times> 'a ent_mem_scheme) res" where
  "zenoh_pico_generate_entity zid nid type ni ti w =
     (case ZenohPicoDataGenerate zero_entity (entities w) w of
        (None, h, w) \<Rightarrow> Inr (None, w\<lparr>entities := h\<rparr>)
      | (Some a, h, w) \<Rightarrow>
          andthen (deref h (Some a)) (\<lambda>entity.
            case zenoh_pico_get_next_entity_id w of (i, w) \<Rightarrow>
            Inr (Some a, w\<lparr>entities := h(a \<mapsto> entity\<lparr>
              ent_zid := (if z_id_check zid then id_text (env w) zid else []),
              ent_id := i, ent_nid := nid, ent_type := type,
              node_info := ni, topic_info := ti\<rparr>)\<rparr>)))"

definition zenoh_pico_generate_node_entity where
  "zenoh_pico_generate_node_entity zid nid type ni ti w = zenoh_pico_generate_entity zid nid type ni ti w"

definition zenoh_pico_generate_topic_entity ::
  "byte list \<Rightarrow> nat \<Rightarrow> addr option \<Rightarrow> string \<Rightarrow> rosidl_message_type_support_t \<Rightarrow> rmw_qos_profile_t
     \<Rightarrow> ZenohPicoEntityType \<Rightarrow> 'a ent_mem_scheme \<Rightarrow> (addr option \<times> 'a ent_mem_scheme) res" where
  "zenoh_pico_generate_topic_entity zid nid ni topic_name type_support qos_profile type w =
     andthen (convert_hash (copy_ok (env w)) (ts_hash type_support)) (\<lambda>hash_data.
     andthen (convert_message_type (copy_ok (env w)) (ts_data type_support)) (\<lambda>type_name.
     andthen (written type_name) (\<lambda>type_name. andthen (written hash_data) (\<lambda>hash_data.
     andthen (zenoh_pico_generate_topic_info topic_name qos_profile type_name hash_data w) (\<lambda>(ti, w).
       if ti = None then Inr (None, w)
       else zenoh_pico_generate_entity zid nid type ni ti w)))))"

definition zenoh_pico_generate_subscription_entity where
  "zenoh_pico_generate_subscription_entity zid nid ni topic_name type_support qos_profile w =
     zenoh_pico_generate_topic_entity zid nid ni topic_name type_support qos_profile Subscription w"

definition zenoh_pico_generate_publisher_entity where
  "zenoh_pico_generate_publisher_entity zid nid ni topic_name type_support qos_profile w =
     zenoh_pico_generate_topic_entity zid nid ni topic_name type_support qos_profile Publisher w"

text \<open>The service variant does not test the topic description for null.\<close>

definition zenoh_pico_generate_service_entity_impl ::
  "byte list \<Rightarrow> nat \<Rightarrow> addr option \<Rightarrow> string \<Rightarrow> rosidl_service_type_support_t \<Rightarrow> rmw_qos_profile_t
     \<Rightarrow> ZenohPicoEntityType \<Rightarrow> 'a ent_mem_scheme \<Rightarrow> (addr option \<times> 'a ent_mem_scheme) res" where
  "zenoh_pico_generate_service_entity_impl zid nid ni topic_name type_support qos_profile type w =
     andthen (convert_hash (copy_ok (env w)) (service_hash type_support)) (\<lambda>hash_data.
     andthen (convert_client_type (copy_ok (env w)) (get_request_callback type_support)) (\<lambda>type_name.
     andthen (written type_name) (\<lambda>type_name. andthen (written hash_data) (\<lambda>hash_data.
     andthen (zenoh_pico_generate_topic_info topic_name qos_profile type_name hash_data w) (\<lambda>(ti, w).
       zenoh_pico_generate_entity zid nid type ni ti w)))))"

definition zenoh_pico_generate_service_entity where
  "zenoh_pico_generate_service_entity zid nid ni topic_name type_support qos_profile w =
     zenoh_pico_generate_service_entity_impl zid nid ni topic_name type_support qos_profile Service w"

definition zenoh_pico_generate_client_entity where
  "zenoh_pico_generate_client_entity zid nid ni topic_name type_support qos_profile w =
     zenoh_pico_generate_service_entity_impl zid nid ni topic_name type_support qos_profile Client w"

definition zenoh_pico_destroy_entity :: "addr option \<Rightarrow> 'a ent_mem_scheme \<Rightarrow> (bool \<times> 'a ent_mem_scheme) res" where
  "zenoh_pico_destroy_entity p w =
     (if p = None then Inr (False, w)
      else andthen (ZenohPicoDataRelease (entities w) p) (\<lambda>(last, h).
        let w = w\<lparr>entities := h\<rparr> in
        if last then
          andthen (deref (entities w) p) (\<lambda>e.
          andthen (if node_info e \<noteq> None then zenoh_pico_destroy_node_info (node_info e) w else Inr (True, w)) (\<lambda>(_, w).
          andthen (if topic_info e \<noteq> None then zenoh_pico_destroy_topic_info (topic_info e) w else Inr (True, w)) (\<lambda>(_, w).
          andthen (ZenohPicoDataDestroy ((entities w)(the p \<mapsto> e\<lparr>ent_zid := [], node_info := None, topic_info := None\<rparr>)) p) (\<lambda>h.
            Inr (True, w\<lparr>entities := h\<rparr>)))))
        else Inr (True, w)))"

subsection \<open>What they do when memory suffices\<close>

definition ent_ok :: "'a ent_mem_scheme \<Rightarrow> bool" where
  "ent_ok w \<longleftrightarrow> dom (node_infos w) \<subseteq> {..<next_addr w} \<and> dom (topic_infos w) \<subseteq> {..<next_addr w} \<and>
     dom (entities w) \<subseteq> {..<next_addr w}"

lemma ent_ok_fresh:
  assumes "ent_ok w" and "next_addr w \<le> a"
  shows "node_infos w a = None" "topic_infos w a = None" "entities w a = None"
  using assms by (auto simp: ent_ok_def)

text \<open>Enough memory, and strings that can be copied.\<close>

definition roomy :: "'a mem_scheme \<Rightarrow> bool" where
  "roomy w \<longleftrightarrow> (\<forall>n. \<not> oom (env w) n) \<and> (\<forall>s. copy_ok (env w) s)"

lemma roomy_malloc [simp]: "roomy w \<Longrightarrow> z_malloc w = (Some (next_addr w), w\<lparr>next_addr := Suc (next_addr w)\<rparr>)"
  by (simp add: roomy_def z_malloc_def)

lemma roomy_copy: "roomy w \<Longrightarrow> copy_ok (env w) = (\<lambda>_. True)"
  by (auto simp: roomy_def)

lemma roomy_generate: "roomy w \<Longrightarrow> ZenohPicoDataGenerate z h w =
    (Some (next_addr w), h(next_addr w \<mapsto> data_obj_init z), w\<lparr>next_addr := Suc (next_addr w)\<rparr>)"
  by (simp add: ZenohPicoDataGenerate_def)

lemma test_qos_keyexpr:
  "qos_to_keyexpr (\<lambda>_. True) (Some (test_qos_profile q)) = Inr (Some '':2:,10:,:,:,,'')"
  using qos_to_keyexpr_text [of "test_qos_profile q" "\<lambda>_. True"] by (simp add: qos_text_test_profile)

definition topic_info_of :: "string \<Rightarrow> string \<Rightarrow> string \<Rightarrow> ZenohPicoTopicInfo" where
  "topic_info_of name type hash = \<lparr>ref = 1, lock = Unlocked, ti_name = cstr name, ti_type = type, ti_hash = hash,
     ti_qos = '':2:,10:,:,:,,''\<rparr>"

lemma generate_topic_info_roomy:
  assumes "roomy w"
  shows "zenoh_pico_generate_topic_info name qos type hash w =
    Inr (Some (next_addr w), w\<lparr>next_addr := Suc (next_addr w),
      topic_infos := (topic_infos w)(next_addr w \<mapsto> topic_info_of name type hash)\<rparr>)"
  using assms
  by (simp add: zenoh_pico_generate_topic_info_def roomy_generate roomy_copy test_qos_keyexpr data_obj_init_def
      zero_topic_info_def topic_info_of_def z_string_copy_from_str_def z_string_clone_def)

definition entity_of :: "'a ent_mem_scheme \<Rightarrow> byte list \<Rightarrow> nat \<Rightarrow> ZenohPicoEntityType \<Rightarrow> addr option \<Rightarrow> addr option \<Rightarrow> ZenohPicoEntity" where
  "entity_of w zid nid type ni ti = \<lparr>ref = 1, lock = Unlocked,
     ent_zid = (if z_id_check zid then id_text (env w) zid else []), ent_id = next_entity_id w, ent_nid = nid,
     ent_type = type, node_info = ni, topic_info = ti\<rparr>"

lemma generate_entity_roomy:
  assumes "roomy w"
  shows "zenoh_pico_generate_entity zid nid type ni ti w =
    Inr (Some (next_addr w), w\<lparr>next_addr := Suc (next_addr w), next_entity_id := (next_entity_id w + 1) mod 2 ^ 64,
      entities := (entities w)(next_addr w \<mapsto> entity_of w zid nid type ni ti)\<rparr>)"
  using assms
  by (simp add: zenoh_pico_generate_entity_def roomy_generate zenoh_pico_get_next_entity_id_def data_obj_init_def
      zero_entity_def entity_of_def)

text \<open>The state after a topic entity was made with these three texts.\<close>

definition with_topic_entity ::
  "byte list \<Rightarrow> nat \<Rightarrow> ZenohPicoEntityType \<Rightarrow> addr option \<Rightarrow> string \<Rightarrow> string \<Rightarrow> string \<Rightarrow> 'a ent_mem_scheme \<Rightarrow> 'a ent_mem_scheme" where
  "with_topic_entity zid nid type ni name tname hash w =
     w\<lparr>next_addr := Suc (Suc (next_addr w)), next_entity_id := (next_entity_id w + 1) mod 2 ^ 64,
       topic_infos := (topic_infos w)(next_addr w \<mapsto> topic_info_of name tname hash),
       entities := (entities w)(Suc (next_addr w) \<mapsto> entity_of w zid nid type ni (Some (next_addr w)))\<rparr>"

lemma generate_topic_entity_roomy:
  assumes "roomy w"
    and "convert_hash (\<lambda>_. True) (ts_hash ts) = Inr (Some hash)"
    and "convert_message_type (\<lambda>_. True) (ts_data ts) = Inr (Some tname)"
  shows "zenoh_pico_generate_topic_entity zid nid ni name ts qos type w =
    Inr (Some (Suc (next_addr w)), with_topic_entity zid nid type ni name tname hash w)"
proof -
  let ?w = "w\<lparr>next_addr := Suc (next_addr w), topic_infos := (topic_infos w)(next_addr w \<mapsto> topic_info_of name tname hash)\<rparr>"
  have r: "roomy ?w" using assms(1) by (simp add: roomy_def)
  show ?thesis
    using assms generate_entity_roomy [OF r, of zid nid type ni "Some (next_addr w)"]
    by (simp add: zenoh_pico_generate_topic_entity_def roomy_copy generate_topic_info_roomy
        with_topic_entity_def entity_of_def)
qed

lemma generate_service_entity_roomy:
  assumes "roomy w"
    and "convert_hash (\<lambda>_. True) (service_hash ts) = Inr (Some hash)"
    and "convert_client_type (\<lambda>_. True) (get_request_callback ts) = Inr (Some tname)"
  shows "zenoh_pico_generate_service_entity_impl zid nid ni name ts qos type w =
    Inr (Some (Suc (next_addr w)), with_topic_entity zid nid type ni name tname hash w)"
proof -
  let ?w = "w\<lparr>next_addr := Suc (next_addr w), topic_infos := (topic_infos w)(next_addr w \<mapsto> topic_info_of name tname hash)\<rparr>"
  have r: "roomy ?w" using assms(1) by (simp add: roomy_def)
  show ?thesis
    using assms generate_entity_roomy [OF r, of zid nid type ni "Some (next_addr w)"]
    by (simp add: zenoh_pico_generate_service_entity_impl_def roomy_copy generate_topic_info_roomy
        with_topic_entity_def entity_of_def)
qed

subsection \<open>Destruction\<close>

text \<open>One release of a node or topic description: the last one frees it.\<close>

definition drop_ref :: "(addr \<rightharpoonup> 'a data_obj_scheme) \<Rightarrow> addr \<Rightarrow> (addr \<rightharpoonup> 'a data_obj_scheme)" where
  "drop_ref h a = (case h a of None \<Rightarrow> h
     | Some d \<Rightarrow> if ref d = 1 then h(a := None) else h(a \<mapsto> d\<lparr>ref := ref d - 1\<rparr>))"

lemma destroy_node_info_live:
  assumes "live (node_infos w) a n"
  shows "zenoh_pico_destroy_node_info (Some a) w = Inr (True, w\<lparr>node_infos := drop_ref (node_infos w) a\<rparr>)"
  using assms by (auto simp: zenoh_pico_destroy_node_info_def Release_live drop_node_info_def drop_ref_def live_def)

lemma destroy_topic_info_live:
  assumes "live (topic_infos w) a t"
  shows "zenoh_pico_destroy_topic_info (Some a) w = Inr (True, w\<lparr>topic_infos := drop_ref (topic_infos w) a\<rparr>)"
  using assms by (auto simp: zenoh_pico_destroy_topic_info_def Release_live drop_topic_info_def drop_ref_def live_def)

lemma destroy_entity_last:
  assumes "live (entities w) a e" and "ref e = 1" and "node_info e = Some ni" "live (node_infos w) ni n"
    and "topic_info e = Some ti" "live (topic_infos w) ti t"
  shows "zenoh_pico_destroy_entity (Some a) w =
    Inr (True, w\<lparr>entities := (entities w)(a := None), node_infos := drop_ref (node_infos w) ni,
      topic_infos := drop_ref (topic_infos w) ti\<rparr>)"
  using assms
  by (simp add: zenoh_pico_destroy_entity_def Release_live Let_def destroy_node_info_live destroy_topic_info_live)

lemma destroy_entity_shared:
  assumes "live (entities w) a e" and "ref e \<noteq> 1"
  shows "zenoh_pico_destroy_entity (Some a) w =
    Inr (True, w\<lparr>entities := (entities w)(a \<mapsto> e\<lparr>ref := ref e - 1\<rparr>)\<rparr>)"
  using assms by (simp add: zenoh_pico_destroy_entity_def Release_live Let_def)

text \<open>
  Making and destroying an endpoint description is balanced. With memory and a live node
  description, generate_publisher_entity returns a new entity; destroying that entity restores
  every heap, except that it releases one reference on the node description (the last reference frees it),
  which the caller has to have taken for it; only the address and entity-id counters have moved.
\<close>

theorem publisher_entity_roundtrip:
  assumes "roomy w" and "ent_ok w"
    and "convert_hash (\<lambda>_. True) (ts_hash ts) = Inr (Some hash)"
    and "convert_message_type (\<lambda>_. True) (ts_data ts) = Inr (Some tname)"
    and "live (node_infos w) ni n"
  shows "andthen (zenoh_pico_generate_publisher_entity zid nid (Some ni) name ts qos w)
      (\<lambda>(e, w). zenoh_pico_destroy_entity e w) =
    Inr (True, w\<lparr>next_addr := next_addr w + 2, next_entity_id := (next_entity_id w + 1) mod 2 ^ 64,
      node_infos := drop_ref (node_infos w) ni\<rparr>)"
proof -
  let ?w = "with_topic_entity zid nid Publisher (Some ni) name tname hash w"
  let ?e = "entity_of w zid nid Publisher (Some ni) (Some (next_addr w))"
  have g: "zenoh_pico_generate_publisher_entity zid nid (Some ni) name ts qos w = Inr (Some (Suc (next_addr w)), ?w)"
    using assms(1,3,4) by (simp add: zenoh_pico_generate_publisher_entity_def generate_topic_entity_roomy)
  have "zenoh_pico_destroy_entity (Some (Suc (next_addr w))) ?w =
    Inr (True, ?w\<lparr>entities := (entities ?w)(Suc (next_addr w) := None), node_infos := drop_ref (node_infos ?w) ni,
      topic_infos := drop_ref (topic_infos ?w) (next_addr w)\<rparr>)"
    by (rule destroy_entity_last [of _ _ ?e _ n _ "topic_info_of name tname hash"])
      (use assms(5) in \<open>simp_all add: live_def with_topic_entity_def entity_of_def topic_info_of_def\<close>)
  also have "(entities ?w)(Suc (next_addr w) := None) = entities w"
    using ent_ok_fresh(3) [OF assms(2)] by (simp add: with_topic_entity_def fun_upd_idem)
  also have "drop_ref (topic_infos ?w) (next_addr w) = topic_infos w"
    using ent_ok_fresh(2) [OF assms(2)] by (simp add: with_topic_entity_def drop_ref_def topic_info_of_def fun_upd_idem)
  finally show ?thesis by (simp add: g with_topic_entity_def)
qed

definition example_type_support :: rosidl_message_type_support_t where
  "example_type_support = \<lparr>ts_data = example_callbacks, ts_hash = replicate 32 0xAB\<rparr>"

lemma roomy_example [simp]: "roomy (example_ent_mem\<lparr>node_infos := h\<rparr>)" "roomy example_ent_mem"
  by (simp_all add: roomy_def example_ent_mem_def example_env_def)

lemma ent_ok_example: "ent_ok example_ent_mem"
  by (auto simp: ent_ok_def example_ent_mem_def)

lemma example_type_name:
  "convert_message_type (\<lambda>_. True) example_callbacks =
     Inr (Some ''example_interfaces::srv::dds_::AddTwoInts_Request_'')"
  using convert_message_type_some [of "''example_interfaces::srv''" "''AddTwoInts_Request''" "\<lambda>_. True"]
  by (simp add: convert_message_type_def example_callbacks_def NUL_def TYPE_NAME_LEN_def Let_def)

theorem publisher_entity_roundtrip_witness:
  "\<exists>w'. andthen (zenoh_pico_generate_publisher_entity [1] 1 (Some 10) ''/chatter'' example_type_support zero_qos example_ent_mem)
      (\<lambda>(e, w). zenoh_pico_destroy_entity e w) = Inr (True, w') \<and>
    node_infos w' 10 = None \<and> topic_infos w' = topic_infos example_ent_mem \<and> entities w' = entities example_ent_mem"
proof -
  obtain hash where h: "convert_hash (\<lambda>_. True) (ts_hash example_type_support) = Inr (Some hash)"
    using convert_hash_eq [of "replicate 32 0xAB" "\<lambda>_. True"]
    by (auto simp: example_type_support_def ROSIDL_TYPE_HASH_SIZE_def z_string_copy_from_str_def)
  have t: "convert_message_type (\<lambda>_. True) (ts_data example_type_support) =
      Inr (Some ''example_interfaces::srv::dds_::AddTwoInts_Request_'')"
    using example_type_name by (simp add: example_type_support_def)
  have l: "live (node_infos example_ent_mem) 10 example_node_info"
    by (simp add: live_def example_ent_mem_def example_node_info_def)
  show ?thesis
    using publisher_entity_roundtrip [OF roomy_example(2) ent_ok_example h t l, of "[1]" 1 "''/chatter''" zero_qos] l
    by (simp add: drop_ref_def example_ent_mem_def example_node_info_def)
qed

text \<open>
  The announced quality of service is not the requested one. With memory, generate_subscription_entity
  gives a new subscription entity that refers to the node description it was handed and to a topic
  description holding the topic name, the converted type name and hash, and always the text of
  test_qos_profile, whatever profile was requested.
\<close>

theorem subscription_entity_contents:
  assumes "roomy w"
    and "convert_hash (\<lambda>_. True) (ts_hash ts) = Inr (Some hash)"
    and "convert_message_type (\<lambda>_. True) (ts_data ts) = Inr (Some tname)"
  shows "\<exists>a ti w'. zenoh_pico_generate_subscription_entity zid nid ni name ts qos w = Inr (Some a, w') \<and>
     next_addr w \<le> a \<and>
     entities w' a = Some \<lparr>ref = 1, lock = Unlocked, ent_zid = (if z_id_check zid then id_text (env w) zid else []),
       ent_id = next_entity_id w, ent_nid = nid, ent_type = Subscription, node_info = ni, topic_info = Some ti\<rparr> \<and>
     topic_infos w' ti = Some \<lparr>ref = 1, lock = Unlocked, ti_name = cstr name, ti_type = tname, ti_hash = hash,
       ti_qos = '':2:,10:,:,:,,''\<rparr>"
proof -
  have "zenoh_pico_generate_subscription_entity zid nid ni name ts qos w =
      Inr (Some (Suc (next_addr w)), with_topic_entity zid nid Subscription ni name tname hash w)"
    using assms by (simp add: zenoh_pico_generate_subscription_entity_def generate_topic_entity_roomy)
  then show ?thesis
    by (simp add: with_topic_entity_def entity_of_def topic_info_of_def)
qed

theorem subscription_entity_contents_witness:
  "\<exists>a ti w'. zenoh_pico_generate_subscription_entity [1] 1 (Some 10) ''/chatter'' example_type_support
       (zero_qos\<lparr>depth := 1000\<rparr>) example_ent_mem = Inr (Some a, w') \<and>
     map_option ti_qos (topic_infos w' ti) = Some '':2:,10:,:,:,,''"
proof -
  obtain hash where h: "convert_hash (\<lambda>_. True) (ts_hash example_type_support) = Inr (Some hash)"
    using convert_hash_eq [of "replicate 32 0xAB" "\<lambda>_. True"]
    by (auto simp: example_type_support_def ROSIDL_TYPE_HASH_SIZE_def z_string_copy_from_str_def)
  have t: "convert_message_type (\<lambda>_. True) (ts_data example_type_support) =
      Inr (Some ''example_interfaces::srv::dds_::AddTwoInts_Request_'')"
    using example_type_name by (simp add: example_type_support_def)
  show ?thesis
    using subscription_entity_contents [OF roomy_example(2) h t, of "[1]" 1 "Some 10" "''/chatter''" "zero_qos\<lparr>depth := 1000\<rparr>"]
    by fastforce
qed

end
