(* ===== verification/Attachment.thy ===== *)
theory Attachment
  imports Memory C_Strings
begin

unbundle bit_operations_syntax

section \<open>Message attachments and global identifiers\<close>

text \<open>
  \<open>zenoh_pico_attach.c\<close>, \<open>zenoh_pico_gid.c\<close> and \<open>rmw_gid.c\<close>.  Every message carries an
  attachment: a sequence number, the time of sending and the sender's 16-byte global identifier.  The
  encoders and decoders of zenoh-pico's serialiser are the \<open>codec\<close> of the environment; the hash behind
  the identifier is \<open>XXH3_128bits\<close> of theory XXH3_Long.
\<close>

record zenoh_pico_attachemt_data =
  sequence_num :: "64 word"
  timestamp :: "64 word"
  gid :: "byte list"

text \<open>\<open>return data->sequence_num ++\<close>: the old value is returned, the new one stored.\<close>

definition attachment_sequence_num_inc ::
  "zenoh_pico_attachemt_data \<Rightarrow> 64 word \<times> zenoh_pico_attachemt_data" where
  "attachment_sequence_num_inc data = (sequence_num data, data\<lparr>sequence_num := sequence_num data + 1\<rparr>)"

text \<open>Each \<open>CHECK_ATTACHMENT_\<dots>\<close> macro returns at the first error; the fields read so far are stored.\<close>

definition attachment_data_get ::
  "ze_codec \<Rightarrow> byte list \<Rightarrow> zenoh_pico_attachemt_data \<Rightarrow> bool \<times> zenoh_pico_attachemt_data" where
  "attachment_data_get c attachment data =
     (case dec_int64 c attachment of None \<Rightarrow> (False, data)
      | Some (n, rest) \<Rightarrow> let data = data\<lparr>sequence_num := n\<rparr> in
     (case dec_int64 c rest of None \<Rightarrow> (False, data)
      | Some (t, rest) \<Rightarrow> let data = data\<lparr>timestamp := t, gid := []\<rparr> in
     (case dec_slice c rest of None \<Rightarrow> (False, data)
      | Some (g, rest) \<Rightarrow> (True, data\<lparr>gid := g\<rparr>))))"

text \<open>\<open>attachment_gen\<close>: on an error the timestamp has been updated already.\<close>

definition attachment_gen ::
  "zenoh_pico_attachemt_data \<Rightarrow> 'a mem_scheme
     \<Rightarrow> byte list option \<times> zenoh_pico_attachemt_data \<times> 'a mem_scheme" where
  "attachment_gen data w =
     (case zenoh_pico_gen_timestamp w of (ts, w) \<Rightarrow>
      let data = data\<lparr>timestamp := ts\<rparr>; c = codec (env w) in
      (case enc_int64 c (sequence_num data) of None \<Rightarrow> (None, data, w)
       | Some s \<Rightarrow>
      (case enc_int64 c (timestamp data) of None \<Rightarrow> (None, data, w)
       | Some t \<Rightarrow>
      (case enc_slice c (gid data) of None \<Rightarrow> (None, data, w)
       | Some g \<Rightarrow> (Some (s @ t @ g), data, w)))))"

definition attachment_destroy :: "zenoh_pico_attachemt_data option \<Rightarrow> bool \<times> zenoh_pico_attachemt_data option" where
  "attachment_destroy p = (case p of None \<Rightarrow> (False, None) | Some data \<Rightarrow> (True, Some (data\<lparr>gid := []\<rparr>)))"

subsection \<open>Round trip\<close>

text \<open>What the serialiser is documented to do: a decoder reads back what its encoder wrote.\<close>

definition codec_ok :: "ze_codec \<Rightarrow> bool" where
  "codec_ok c \<longleftrightarrow>
     (\<forall>v s rest. enc_int64 c v = Some s \<longrightarrow> dec_int64 c (s @ rest) = Some (v, rest)) \<and>
     (\<forall>v s rest. enc_slice c v = Some s \<longrightarrow> dec_slice c (s @ rest) = Some (v, rest))"

lemma codec_okD:
  "codec_ok c \<Longrightarrow> enc_int64 c v = Some s \<Longrightarrow> dec_int64 c (s @ rest) = Some (v, rest)"
  "codec_ok c \<Longrightarrow> enc_slice c g = Some s \<Longrightarrow> dec_slice c (s @ rest) = Some (g, rest)"
  by (auto simp: codec_ok_def)

lemma attachment_gen_keeps:
  "attachment_gen data w = (r, data', w') \<Longrightarrow>
     sequence_num data' = sequence_num data \<and> gid data' = gid data \<and> w' = w\<lparr>ticks := Suc (ticks w)\<rparr>"
  by (auto simp: attachment_gen_def zenoh_pico_gen_timestamp_def clock_gettime_def Let_def split: prod.splits option.splits)

lemma attachment_gen_timestamp:
  assumes "attachment_gen data w = (r, data', w')"
  shows "timestamp data' = fst (zenoh_pico_gen_timestamp w)"
  using assms
  by (auto simp: attachment_gen_def zenoh_pico_gen_timestamp_def clock_gettime_def Let_def split: prod.splits option.splits)

lemma attachment_gen_get:
  assumes "codec_ok (codec (env w))" and "attachment_gen data w = (Some bytes, data', w')"
  shows "attachment_data_get (codec (env w)) bytes old = (True, old\<lparr>sequence_num := sequence_num data',
     timestamp := timestamp data', gid := gid data'\<rparr>)"
proof -
  let ?c = "codec (env w)"
  obtain s t g where e: "enc_int64 ?c (sequence_num data') = Some s" "enc_int64 ?c (timestamp data') = Some t"
      "enc_slice ?c (gid data') = Some g" and b: "bytes = s @ t @ g"
    using assms(2)
    by (auto simp: attachment_gen_def zenoh_pico_gen_timestamp_def clock_gettime_def Let_def split: prod.splits option.splits)
  show ?thesis
    using codec_okD(1) [OF assms(1) e(1), of "t @ g"] codec_okD(1) [OF assms(1) e(2), of g]
      codec_okD(2) [OF assms(1) e(3), of "[]"]
    by (simp add: attachment_data_get_def b)
qed

text \<open>
  C33: Attachment round trip. With a serialiser that reads back what it wrote, the attachment bytes
  that attachment_gen makes are decoded by attachment_data_get without error to exactly the sender's
  sequence number, global identifier and the time of sending (whatever the receiving structure held), and
  generating it changes nothing of the sender's data but the timestamp.
\<close>

theorem attachment_roundtrip:
  assumes "codec_ok (codec (env w))" and "attachment_gen data w = (Some bytes, data', w')"
  shows "attachment_data_get (codec (env w)) bytes old =
      (True, old\<lparr>sequence_num := sequence_num data, timestamp := fst (zenoh_pico_gen_timestamp w), gid := gid data\<rparr>) \<and>
    data' = data\<lparr>timestamp := fst (zenoh_pico_gen_timestamp w)\<rparr>"
proof -
  have k: "sequence_num data' = sequence_num data" "gid data' = gid data" "timestamp data' = fst (zenoh_pico_gen_timestamp w)"
    using attachment_gen_keeps [OF assms(2)] attachment_gen_timestamp [OF assms(2)] by simp_all
  show ?thesis
    using attachment_gen_get [OF assms, of old] k by (simp add: k)
qed

text \<open>
  A concrete serialiser: integers as eight bytes with the least significant byte first, slices behind
  their length in one byte.
\<close>

fun le_bytes :: "nat \<Rightarrow> 64 word \<Rightarrow> byte list" where
  "le_bytes 0 v = []"
| "le_bytes (Suc n) v = ucast v # le_bytes n (drop_bit 8 v)"

fun of_le_bytes :: "byte list \<Rightarrow> 64 word" where
  "of_le_bytes [] = 0"
| "of_le_bytes (b # bs) = ucast b OR push_bit 8 (of_le_bytes bs)"

lemma length_le_bytes [simp]: "length (le_bytes n v) = n"
  by (induction n arbitrary: v) auto

lemma of_le_bytes_le_bytes: "of_le_bytes (le_bytes n v) = take_bit (8 * n) v"
proof (induction n arbitrary: v)
  case (Suc n)
  have "ucast (ucast v :: byte) OR push_bit 8 (take_bit (8 * n) (drop_bit 8 v)) = take_bit (8 + 8 * n) v"
    by (rule bit_word_eqI) (auto simp: bit_simps)
  then show ?case by (simp add: Suc.IH)
qed simp

definition le_codec :: ze_codec where
  "le_codec = \<lparr>enc_int64 = (\<lambda>v. Some (le_bytes 8 v)),
     enc_slice = (\<lambda>s. if length s < 256 then Some (of_nat (length s) # s) else None),
     dec_int64 = (\<lambda>s. if 8 \<le> length s then Some (of_le_bytes (take 8 s), drop 8 s) else None),
     dec_slice = (\<lambda>s. case s of [] \<Rightarrow> None | n # r \<Rightarrow>
        if unat n \<le> length r then Some (take (unat n) r, drop (unat n) r) else None)\<rparr>"

lemma take_bit_64_word [simp]: "take_bit 64 (v :: 64 word) = v"
  by (rule bit_word_eqI) (simp add: bit_simps)

lemma le_codec_ok: "codec_ok le_codec"
  using of_le_bytes_le_bytes [of 8] by (auto simp: codec_ok_def le_codec_def unat_of_nat split: if_splits)

text \<open>The byte lists of \<open>le_bytes\<close> determine the number.\<close>

lemma of_le_bytes_8: "of_le_bytes (le_bytes 8 v) = v"
  by (simp add: of_le_bytes_le_bytes)

lemma le_bytes_inject: "le_bytes 8 u = le_bytes 8 v \<longleftrightarrow> u = v"
  by (metis of_le_bytes_8)

definition small_env :: zenv where
  "small_env = \<lparr>oom = (\<lambda>_. False), zok = (\<lambda>_ _. True), clk = (\<lambda>n. (100 + n, 5)), codec = le_codec,
     copy_ok = (\<lambda>_. True), id_text = (\<lambda>_. ''aabb''), info_zid = [1], target = big_server, layout = lp64, lineness_len = 256, valid_topic = (\<lambda>_. True)\<rparr>"

definition small_mem :: mem where
  "small_mem = \<lparr>env = small_env, next_addr = 0, bufs = Map.empty, trace = [], ticks = 0\<rparr>"

theorem attachment_roundtrip_witness:
  "\<exists>bytes data' w'. attachment_gen \<lparr>sequence_num = 7, timestamp = 0, gid = [1, 2, 3]\<rparr> small_mem = (Some bytes, data', w') \<and>
     attachment_data_get le_codec bytes \<lparr>sequence_num = 0, timestamp = 0, gid = []\<rparr> =
       (True, \<lparr>sequence_num = 7, timestamp = 100000000005, gid = [1, 2, 3]\<rparr>)"
proof -
  let ?d = "\<lparr>sequence_num = 7, timestamp = 0, gid = [1, 2, 3]\<rparr>"
  obtain bytes data' w' where g: "attachment_gen ?d small_mem = (Some bytes, data', w')"
    by (simp add: attachment_gen_def zenoh_pico_gen_timestamp_def clock_gettime_def small_mem_def small_env_def
        le_codec_def Let_def)
  have c: "codec (env small_mem) = le_codec" by (simp add: small_mem_def small_env_def)
  have t: "fst (zenoh_pico_gen_timestamp small_mem) = 100000000005"
    by (simp add: zenoh_pico_gen_timestamp_def clock_gettime_def small_mem_def small_env_def)
  show ?thesis
    using attachment_roundtrip [of small_mem ?d bytes data' w' "\<lparr>sequence_num = 0, timestamp = 0, gid = []\<rparr>"] g le_codec_ok
    by (auto simp: c t)
qed

subsection \<open>Global identifiers\<close>

text \<open>\<open>memcpy\<close> from a 64-bit variable, in the byte order of the processor.\<close>

definition native_bytes :: "xxh_target \<Rightarrow> 64 word \<Rightarrow> byte list" where
  "native_bytes t v = (if little_endian t then le_bytes 8 v else rev (le_bytes 8 v))"

definition zenoh_pico_gen_gid_impl :: "zenv \<Rightarrow> string \<Rightarrow> (bool \<times> 64 word \<times> 64 word) res" where
  "zenoh_pico_gen_gid_impl z key =
     andthen (XXH3_128bits (target z) (map of_char key) (length key)) (\<lambda>result. Inr (True, high64 result, low64 result))"

text \<open>Low half first.\<close>

definition zenoh_pico_gen_gid :: "zenv \<Rightarrow> string \<Rightarrow> byte list option res" where
  "zenoh_pico_gen_gid z key =
     andthen (zenoh_pico_gen_gid_impl z key) (\<lambda>(ok, high, low).
       if \<not> ok then Inr None else Inr (Some (native_bytes (target z) low @ native_bytes (target z) high)))"

definition RMW_GID_STORAGE_SIZE :: nat where "RMW_GID_STORAGE_SIZE = 16"

text \<open>The identifier that a key gets.\<close>

definition hash_of :: "xxh_target \<Rightarrow> string \<Rightarrow> XXH128_hash_t" where
  "hash_of t key = projr (XXH3_128bits t (map of_char key) (length key))"

definition gid_of :: "zenv \<Rightarrow> string \<Rightarrow> byte list" where
  "gid_of z key = (let t = target z in native_bytes t (low64 (hash_of t key)) @ native_bytes t (high64 (hash_of t key)))"

lemma hash_of_eq: "XXH3_128bits t (map of_char key) (length key) = Inr (hash_of t key)"
  using xxh3_returns [of "length key" "map of_char key" t] by (auto simp: hash_of_def)

lemma hash_of_alike: "alike t u (length key) \<Longrightarrow> hash_of t key = hash_of u key"
  using agreeD(1) [OF xxh3_agree [of t u "length key" "map of_char key"]] by (simp add: hash_of_eq)

lemma gen_gid_eq: "zenoh_pico_gen_gid z key = Inr (Some (gid_of z key))"
  by (simp add: zenoh_pico_gen_gid_def zenoh_pico_gen_gid_impl_def hash_of_eq gid_of_def Let_def)

lemma length_native_bytes [simp]: "length (native_bytes t v) = 8"
  by (simp add: native_bytes_def)

lemma native_bytes_inject: "native_bytes t v = native_bytes t v' \<longleftrightarrow> v = v'"
  by (simp add: native_bytes_def le_bytes_inject)

text \<open>
  Global identifiers. On every target zenoh_pico_gen_gid always succeeds with exactly RMW_GID_STORAGE_SIZE bytes, without reading outside the
  key; two keys get the same identifier exactly when their 128-bit hashes are equal: nothing of the hash is lost. Targets of the same
  byte order that hash keys of its length alike, whatever their word size and vector unit, agree on the identifier of a key.
\<close>

theorem gid_is_hash:
  "(\<exists>g. zenoh_pico_gen_gid z k = Inr (Some g) \<and> length g = RMW_GID_STORAGE_SIZE) \<and>
   (zenoh_pico_gen_gid z k = zenoh_pico_gen_gid z k' \<longleftrightarrow>
      XXH3_128bits (target z) (map of_char k) (length k) = XXH3_128bits (target z) (map of_char k') (length k')) \<and>
   (little_endian (target z) = little_endian (target z') \<and> alike (target z) (target z') (length k) \<longrightarrow> zenoh_pico_gen_gid z k = zenoh_pico_gen_gid z' k)"
  using hash_of_alike [of "target z" "target z'" k]
  by (auto simp: gen_gid_eq gid_of_def Let_def hash_of_eq RMW_GID_STORAGE_SIZE_def native_bytes_inject intro: XXH128_hash_t.equality)
    (simp_all add: native_bytes_def)

theorem gid_is_hash_witness:
  "zenoh_pico_gen_gid small_env ''a'' = zenoh_pico_gen_gid (small_env\<lparr>target := big_server\<lparr>size_opt := True, processor := Little_Endian XXH_SCALAR\<rparr>\<rparr>) ''a''"
  using gid_is_hash [of small_env "''a''" "''a''" "small_env\<lparr>target := big_server\<lparr>size_opt := True, processor := Little_Endian XXH_SCALAR\<rparr>\<rparr>"]
  by (simp add: small_env_def big_server_def little_endian_def alike_def)

text \<open>
  \<open>rmw_compare_gids_equal\<close>: \<open>memcmp\<close> runs over \<open>sizeof(rmw_gid_t)\<close> = 24 bytes, eight more than the
  \<open>data\<close> member has; \<open>tail\<close> is whatever follows it in memory.
\<close>

record rmw_gid_t =
  gid_identifier :: "string option"
  gid_data :: "byte list"
  gid_tail :: "byte list"

definition rmw_compare_gids_equal :: "rmw_gid_t option \<Rightarrow> rmw_gid_t option \<Rightarrow> rmw_ret_t \<times> bool option" where
  "rmw_compare_gids_equal gid1 gid2 =
     (case gid1 of None \<Rightarrow> (RMW_RET_INVALID_ARGUMENT, None) | Some g1 \<Rightarrow>
     (case gid2 of None \<Rightarrow> (RMW_RET_INVALID_ARGUMENT, None) | Some g2 \<Rightarrow>
       if \<not> identifiers_match (gid_identifier g1) then (RMW_RET_INCORRECT_RMW_IMPLEMENTATION, None)
       else if \<not> identifiers_match (gid_identifier g2) then (RMW_RET_INCORRECT_RMW_IMPLEMENTATION, None)
       else (RMW_RET_OK, Some (take 24 (gid_data g1 @ gid_tail g1) = take 24 (gid_data g2 @ gid_tail g2)))))"

text \<open>
  Comparing identifiers reads past them. With matching implementation identifiers
  rmw_compare_gids_equal answers whether the 16 identifier bytes and the 8 bytes stored behind them
  agree, so equal identifiers compare as different whenever the bytes behind them differ.
\<close>

theorem compare_gids_reads_tail:
  assumes "identifiers_match (gid_identifier g1)" "identifiers_match (gid_identifier g2)"
    and "length (gid_data g1) = RMW_GID_STORAGE_SIZE" "length (gid_data g2) = RMW_GID_STORAGE_SIZE"
    and "length (gid_tail g1) = 8" "length (gid_tail g2) = 8"
  shows "rmw_compare_gids_equal (Some g1) (Some g2) =
    (RMW_RET_OK, Some (gid_data g1 = gid_data g2 \<and> gid_tail g1 = gid_tail g2))"
  using assms by (simp add: rmw_compare_gids_equal_def RMW_GID_STORAGE_SIZE_def)

theorem compare_gids_reads_tail_witness:
  "rmw_compare_gids_equal
     (Some \<lparr>gid_identifier = None, gid_data = replicate 16 7, gid_tail = replicate 8 0\<rparr>)
     (Some \<lparr>gid_identifier = None, gid_data = replicate 16 7, gid_tail = replicate 8 1\<rparr>) = (RMW_RET_OK, Some False)"
  using compare_gids_reads_tail
    [of "\<lparr>gid_identifier = None, gid_data = replicate 16 7, gid_tail = replicate 8 0\<rparr>"
        "\<lparr>gid_identifier = None, gid_data = replicate 16 7, gid_tail = replicate 8 1\<rparr>"]
  by (simp add: identifiers_match_def RMW_GID_STORAGE_SIZE_def)

end
