(* ===== verification/Ros_Message.thy ===== *)
theory Ros_Message
  imports Entity_Ops Attachment
begin

section \<open>Received messages and serialisation\<close>

text \<open>
  The first half of \<open>zenoh_pico_rosMessage.c\<close>: turning a ROS message into bytes and back, and the
  reference-counted \<open>ReceiveMessageData\<close> objects made from an incoming sample or query.  Bytes obtained
  from the allocator live in \<open>bufs\<close>, the message objects in \<open>msgs\<close>.
\<close>

datatype ZenohPicoMessageType = Sample | Query

record ReceiveMessageData = data_obj +
  next_msg :: "addr option"
  payload_start :: "addr option"
  payload_size :: nat
  recv_timestamp :: "64 word"
  reception_num :: nat
  attachment :: zenoh_pico_attachemt_data
  msg_type :: ZenohPicoMessageType
  query :: "nat option"
  keyexpr :: string

record msg_mem = ent_mem +
  msgs :: "addr \<rightharpoonup> ReceiveMessageData"

interpretation msg_heap: typed_heap msgs "\<lambda>h w. w\<lparr>msgs := h\<rparr>"
  by unfold_locales auto

text \<open>What zenoh-pico hands to the callbacks: a sample, or a query with an identity.\<close>

record z_sample =
  sample_payload :: "byte list"
  sample_attachment :: "byte list"

record z_query =
  query_id :: nat
  query_payload :: "byte list"
  query_attachment :: "byte list"
  query_keyexpr :: string

definition zero_attachment :: zenoh_pico_attachemt_data where
  "zero_attachment = \<lparr>sequence_num = 0, timestamp = 0, gid = []\<rparr>"

definition zero_msg :: ReceiveMessageData where
  "zero_msg = \<lparr>ref = 0, lock = Unlocked, next_msg = None, payload_start = None, payload_size = 0,
     recv_timestamp = 0, reception_num = 0, attachment = zero_attachment, msg_type = Sample, query = None, keyexpr = []\<rparr>"

subsection \<open>Serialisation\<close>

definition ROS2_MSG_OFFSET :: nat where "ROS2_MSG_OFFSET = 4"

definition set_ros2_header :: "byte list \<Rightarrow> byte list" where
  "set_ros2_header msg_bytes = [0x00, 0x01, 0x00, 0x00] @ drop 4 msg_bytes"

text \<open>
  The result of \<open>cdr_serialize\<close> is stored in a variable that nothing reads: a failed serialisation
  gives the zeroed rest of the buffer.
\<close>

definition serialized_bytes :: "message_type_support_callbacks_t \<Rightarrow> ros_message \<Rightarrow> byte list" where
  "serialized_bytes callbacks m =
     (let n = get_serialized_size callbacks m;
          bytes = replicate (n + ROS2_MSG_OFFSET) 0;
          out = take n (snd (cdr_serialize callbacks m n));
          bytes = take ROS2_MSG_OFFSET bytes @ out @ drop (ROS2_MSG_OFFSET + length out) bytes
      in set_ros2_header bytes)"

definition rmw_zenoh_pico_serialize ::
  "message_type_support_callbacks_t \<Rightarrow> ros_message \<Rightarrow> 'a mem_scheme \<Rightarrow> (addr \<times> nat) option \<times> 'a mem_scheme" where
  "rmw_zenoh_pico_serialize callbacks ros_message w =
     (let alloc_size = get_serialized_size callbacks ros_message + ROS2_MSG_OFFSET in
      case z_malloc w of
        (None, w) \<Rightarrow> (None, w)
      | (Some a, w) \<Rightarrow> (Some (a, alloc_size), buf_put a (serialized_bytes callbacks ros_message) w))"

text \<open>
  The bytes behind the header are handed to \<open>cdr_deserialize\<close> together with \<open>payload_size - 4\<close>,
  which wraps around for a payload shorter than the header: the buffer it describes then starts and
  ends outside the payload.
\<close>

definition rmw_zenoh_pico_deserialize ::
  "addr option \<Rightarrow> nat \<Rightarrow> message_type_support_callbacks_t \<Rightarrow> ros_message \<Rightarrow> 'a mem_scheme \<Rightarrow> (bool \<times> ros_message) res" where
  "rmw_zenoh_pico_deserialize start sz callbacks ros_message w =
     (if start \<noteq> None
      then andthen (deref (bufs w) start) (\<lambda>bytes.
        if sz < ROS2_MSG_OFFSET \<or> length bytes < sz then Inl OutOfBounds
        else Inr (cdr_deserialize callbacks (take (sz - ROS2_MSG_OFFSET) (drop ROS2_MSG_OFFSET bytes))))
      else Inr (False, ros_message))"

subsection \<open>Message objects from samples and queries\<close>

definition msg_put :: "addr \<Rightarrow> ReceiveMessageData \<Rightarrow> 'a msg_mem_scheme \<Rightarrow> 'a msg_mem_scheme" where
  "msg_put a d w = w\<lparr>msgs := (msgs w)(a \<mapsto> d)\<rparr>"

text \<open>When the payload or the attachment fails the object itself is neither released nor freed.\<close>

definition rmw_zenoh_pico_generate_recv_sample_msg_data ::
  "z_sample \<Rightarrow> 64 word \<Rightarrow> 'a msg_mem_scheme \<Rightarrow> (addr option \<times> 'a msg_mem_scheme) res" where
  "rmw_zenoh_pico_generate_recv_sample_msg_data sample recv_ts w =
     (case ZenohPicoDataGenerate zero_msg (msgs w) w of
        (None, h, w) \<Rightarrow> Inr (None, w\<lparr>msgs := h\<rparr>)
      | (Some a, h, w) \<Rightarrow>
          andthen (deref h (Some a)) (\<lambda>d.
          let w = w\<lparr>msgs := h\<rparr>; d = d\<lparr>msg_type := Sample\<rparr>; payload = sample_payload sample in
          (case z_malloc w of
             (None, w) \<Rightarrow> Inr (None, msg_put a d w)
           | (Some p, w) \<Rightarrow>
               let d = d\<lparr>payload_start := Some p, payload_size := length payload, recv_timestamp := recv_ts\<rparr>;
                   w = buf_put p payload w in
               (case attachment_data_get (codec (env w)) (sample_attachment sample) (attachment d) of
                  (ok, att) \<Rightarrow>
                    let d = d\<lparr>attachment := att\<rparr> in
                    if \<not> ok then andthen (z_free (payload_start d) w) (\<lambda>w. Inr (None, msg_put a d w))
                    else Inr (Some a, msg_put a d w)))))"

definition rmw_zenoh_pico_generate_recv_query_msg_data ::
  "z_query \<Rightarrow> 64 word \<Rightarrow> 'a msg_mem_scheme \<Rightarrow> (addr option \<times> 'a msg_mem_scheme) res" where
  "rmw_zenoh_pico_generate_recv_query_msg_data q recv_ts w =
     (case ZenohPicoDataGenerate zero_msg (msgs w) w of
        (None, h, w) \<Rightarrow> Inr (None, w\<lparr>msgs := h\<rparr>)
      | (Some a, h, w) \<Rightarrow>
          andthen (deref h (Some a)) (\<lambda>d.
          let w = w\<lparr>msgs := h\<rparr>; d = d\<lparr>msg_type := Query\<rparr>; payload = query_payload q in
          (case z_malloc w of
             (None, w) \<Rightarrow> Inr (None, msg_put a d w)
           | (Some p, w) \<Rightarrow>
               let d = d\<lparr>payload_start := Some p, payload_size := length payload\<rparr>;
                   w = buf_put p payload w;
                   d = d\<lparr>query := Some (query_id q)\<rparr>; w = znote (ZQueryClone (query_id q)) w;
                   d = d\<lparr>keyexpr := z_string_clone (copy_ok (env w)) (query_keyexpr q), recv_timestamp := recv_ts\<rparr> in
               (case attachment_data_get (codec (env w)) (query_attachment q) (attachment d) of
                  (ok, att) \<Rightarrow>
                    let d = d\<lparr>attachment := att\<rparr> in
                    if \<not> ok then
                      andthen (z_free (payload_start d) w) (\<lambda>w.
                        Inr (None, znote (ZQueryDrop (query_id q)) (msg_put a (d\<lparr>keyexpr := [], query := None\<rparr>) w)))
                    else Inr (Some a, msg_put a d w)))))"

definition query_drop :: "nat option \<Rightarrow> 'a mem_scheme \<Rightarrow> 'a mem_scheme" where
  "query_drop q w = (case q of None \<Rightarrow> w | Some i \<Rightarrow> znote (ZQueryDrop i) w)"

definition zenoh_pico_delete_recv_msg_data :: "addr option \<Rightarrow> 'a msg_mem_scheme \<Rightarrow> (bool \<times> 'a msg_mem_scheme) res" where
  "zenoh_pico_delete_recv_msg_data p w =
     (if p = None then Inr (False, w)
      else andthen (ZenohPicoDataRelease (msgs w) p) (\<lambda>(last, h).
        let w = w\<lparr>msgs := h\<rparr> in
        if last then
          andthen (deref (msgs w) p) (\<lambda>d.
          andthen (if payload_start d \<noteq> None then z_free (payload_start d) w else Inr w) (\<lambda>w.
            let d = d\<lparr>attachment := (attachment d)\<lparr>gid := []\<rparr>\<rparr>;
                w = (if msg_type d = Query then query_drop (query d) w else w);
                d = (if msg_type d = Query then d\<lparr>keyexpr := [], query := None\<rparr> else d) in
          andthen (ZenohPicoDataDestroy ((msgs w)(the p \<mapsto> d)) p) (\<lambda>h.
            Inr (True, w\<lparr>msgs := h\<rparr>))))
        else Inr (True, w)))"

subsection \<open>What the receivers are told about a message\<close>

record rmw_message_info_t =
  source_timestamp :: "64 word"
  received_timestamp :: "64 word"
  publication_sequence_number :: "64 word"
  reception_sequence_number :: nat
  publisher_gid_identifier :: "string option"
  publisher_gid :: "byte list"
  from_intra_process :: bool

record rmw_service_info_t =
  si_source_timestamp :: "64 word"
  si_received_timestamp :: "64 word"
  request_sequence_number :: "64 word"
  writer_guid :: "byte list"

text \<open>\<open>memcpy\<close> of at most 16 identifier bytes into the receiver's array; bytes it does not reach stay.\<close>

definition copy_gid :: "byte list \<Rightarrow> byte list \<Rightarrow> byte list" where
  "copy_gid old g =
     (let n = (if length g > RMW_GID_STORAGE_SIZE then RMW_GID_STORAGE_SIZE else length g)
      in take n g @ drop n old)"

definition rmw_zenoh_pico_deserialize_topic_msg ::
  "addr option \<Rightarrow> message_type_support_callbacks_t \<Rightarrow> ros_message \<Rightarrow> rmw_message_info_t option \<Rightarrow> 'a msg_mem_scheme
     \<Rightarrow> (bool \<times> ros_message \<times> rmw_message_info_t option) res" where
  "rmw_zenoh_pico_deserialize_topic_msg p callbacks ros_message message_info w =
     andthen (deref (msgs w) p) (\<lambda>d.
     andthen (rmw_zenoh_pico_deserialize (payload_start d) (payload_size d) callbacks ros_message w) (\<lambda>(ok, m).
       if \<not> ok then Inr (False, m, message_info)
       else Inr (True, m, map_option (\<lambda>info. info\<lparr>
          source_timestamp := timestamp (attachment d),
          received_timestamp := recv_timestamp d,
          publication_sequence_number := sequence_num (attachment d),
          reception_sequence_number := reception_num d,
          publisher_gid_identifier := Some rmw_get_implementation_identifier,
          publisher_gid := copy_gid (publisher_gid info) (gid (attachment d)),
          from_intra_process := False\<rparr>) message_info)))"

definition rmw_zneoh_fill_request_header :: "rmw_service_info_t \<Rightarrow> ReceiveMessageData \<Rightarrow> rmw_service_info_t" where
  "rmw_zneoh_fill_request_header request_header d = request_header\<lparr>
     si_source_timestamp := timestamp (attachment d),
     si_received_timestamp := recv_timestamp d,
     request_sequence_number := sequence_num (attachment d),
     writer_guid := copy_gid (writer_guid request_header) (gid (attachment d))\<rparr>"

definition rmw_zenoh_pico_deserialize_response_msg ::
  "addr option \<Rightarrow> message_type_support_callbacks_t \<Rightarrow> ros_message \<Rightarrow> rmw_service_info_t option \<Rightarrow> 'a msg_mem_scheme
     \<Rightarrow> (bool \<times> ros_message \<times> rmw_service_info_t option) res" where
  "rmw_zenoh_pico_deserialize_response_msg p callbacks ros_response request_header w =
     andthen (deref (msgs w) p) (\<lambda>d.
     andthen (rmw_zenoh_pico_deserialize (payload_start d) (payload_size d) callbacks ros_response w) (\<lambda>(ok, m).
       if \<not> ok then Inr (False, m, request_header)
       else Inr (True, m, map_option (\<lambda>h. rmw_zneoh_fill_request_header h d) request_header)))"

definition rmw_zenoh_pico_deserialize_request_msg ::
  "addr option \<Rightarrow> message_type_support_callbacks_t \<Rightarrow> ros_message \<Rightarrow> rmw_service_info_t option \<Rightarrow> 'a msg_mem_scheme
     \<Rightarrow> (bool \<times> ros_message \<times> rmw_service_info_t option) res" where
  "rmw_zenoh_pico_deserialize_request_msg p callbacks ros_request request_header w =
     andthen (deref (msgs w) p) (\<lambda>d.
     andthen (rmw_zenoh_pico_deserialize (payload_start d) (payload_size d) callbacks ros_request w) (\<lambda>(ok, m).
       if \<not> ok then Inr (False, m, request_header)
       else Inr (True, m, map_option (\<lambda>h. rmw_zneoh_fill_request_header h d) request_header)))"

subsection \<open>Lemmas\<close>

text \<open>What the typesupport promises: a message fits the size announced and is read back from its bytes.\<close>

definition cdr_ok :: "message_type_support_callbacks_t \<Rightarrow> ros_message \<Rightarrow> bool" where
  "cdr_ok callbacks m \<longleftrightarrow>
     length (snd (cdr_serialize callbacks m (get_serialized_size callbacks m))) = get_serialized_size callbacks m \<and>
     cdr_deserialize callbacks (snd (cdr_serialize callbacks m (get_serialized_size callbacks m))) = (True, m)"

lemma serialized_bytes_eq:
  assumes "cdr_ok cb m"
  shows "serialized_bytes cb m = [0, 1, 0, 0] @ snd (cdr_serialize cb m (get_serialized_size cb m))"
  using assms by (simp add: serialized_bytes_def cdr_ok_def set_ros2_header_def ROS2_MSG_OFFSET_def Let_def)

lemma length_serialized_bytes: "length (serialized_bytes cb m) = get_serialized_size cb m + ROS2_MSG_OFFSET"
  by (simp add: serialized_bytes_def set_ros2_header_def ROS2_MSG_OFFSET_def Let_def)

lemma deserialize_serialized:
  assumes "cdr_ok cb m" and "bufs w a = Some (serialized_bytes cb m)"
  shows "rmw_zenoh_pico_deserialize (Some a) (length (serialized_bytes cb m)) cb old w = Inr (True, m)"
  using assms
  by (simp add: rmw_zenoh_pico_deserialize_def length_serialized_bytes)
    (simp add: serialized_bytes_eq cdr_ok_def ROS2_MSG_OFFSET_def)

text \<open>The object of a sample whose attachment could be read.\<close>

definition sample_msg :: "addr \<Rightarrow> byte list \<Rightarrow> 64 word \<Rightarrow> zenoh_pico_attachemt_data \<Rightarrow> ReceiveMessageData" where
  "sample_msg p payload ts att = \<lparr>ref = 1, lock = Unlocked, next_msg = None, payload_start = Some p,
     payload_size = length payload, recv_timestamp = ts, reception_num = 0, attachment = att, msg_type = Sample,
     query = None, keyexpr = []\<rparr>"

definition query_msg :: "addr \<Rightarrow> z_query \<Rightarrow> 64 word \<Rightarrow> zenoh_pico_attachemt_data \<Rightarrow> ReceiveMessageData" where
  "query_msg p q ts att = \<lparr>ref = 1, lock = Unlocked, next_msg = None, payload_start = Some p,
     payload_size = length (query_payload q), recv_timestamp = ts, reception_num = 0, attachment = att, msg_type = Query,
     query = Some (query_id q), keyexpr = query_keyexpr q\<rparr>"

definition with_msg :: "ReceiveMessageData \<Rightarrow> byte list \<Rightarrow> 'a msg_mem_scheme \<Rightarrow> 'a msg_mem_scheme" where
  "with_msg d payload w = w\<lparr>next_addr := Suc (Suc (next_addr w)), bufs := (bufs w)(Suc (next_addr w) \<mapsto> payload),
     msgs := (msgs w)(next_addr w \<mapsto> d)\<rparr>"

lemma recv_sample_roomy:
  assumes "roomy w" and "attachment_data_get (codec (env w)) (sample_attachment s) zero_attachment = (True, att)"
  shows "rmw_zenoh_pico_generate_recv_sample_msg_data s ts w =
    Inr (Some (next_addr w), with_msg (sample_msg (Suc (next_addr w)) (sample_payload s) ts att) (sample_payload s) w)"
proof -
  have r: "roomy (w\<lparr>next_addr := n, msgs := h\<rparr>)" for n h using assms(1) by (simp add: roomy_def)
  show ?thesis
    using assms r
    by (simp add: rmw_zenoh_pico_generate_recv_sample_msg_data_def roomy_generate Let_def zero_msg_def data_obj_init_def
        buf_put_def msg_put_def with_msg_def sample_msg_def)
qed

lemma recv_query_roomy:
  assumes "roomy w" and "attachment_data_get (codec (env w)) (query_attachment q) zero_attachment = (True, att)"
  shows "rmw_zenoh_pico_generate_recv_query_msg_data q ts w =
    Inr (Some (next_addr w), znote (ZQueryClone (query_id q))
      (with_msg (query_msg (Suc (next_addr w)) q ts att) (query_payload q) w))"
proof -
  have r: "roomy (w\<lparr>next_addr := n, msgs := h\<rparr>)" for n h using assms(1) by (simp add: roomy_def)
  show ?thesis
    using assms r
    by (simp add: rmw_zenoh_pico_generate_recv_query_msg_data_def roomy_generate Let_def zero_msg_def data_obj_init_def
        buf_put_def msg_put_def with_msg_def query_msg_def znote_def z_string_clone_def roomy_copy)
qed

text \<open>Releasing a message object: the last release frees the object, its payload and its query.\<close>

definition msg_ok :: "'a msg_mem_scheme \<Rightarrow> addr \<Rightarrow> ReceiveMessageData \<Rightarrow> bool" where
  "msg_ok w a d \<longleftrightarrow> live (msgs w) a d \<and> (\<forall>p. payload_start d = Some p \<longrightarrow> bufs w p \<noteq> None)"

definition msg_freed :: "'a msg_mem_scheme \<Rightarrow> addr \<Rightarrow> ReceiveMessageData \<Rightarrow> 'a msg_mem_scheme" where
  "msg_freed w a d =
     (let w = (case payload_start d of None \<Rightarrow> w | Some p \<Rightarrow> w\<lparr>bufs := (bufs w)(p := None)\<rparr>);
          w = (if msg_type d = Query then query_drop (query d) w else w)
      in w\<lparr>msgs := (msgs w)(a := None)\<rparr>)"

lemma delete_msg_shared:
  assumes "msg_ok w a d" and "ref d \<noteq> 1"
  shows "zenoh_pico_delete_recv_msg_data (Some a) w = Inr (True, w\<lparr>msgs := (msgs w)(a \<mapsto> d\<lparr>ref := ref d - 1\<rparr>)\<rparr>)"
  using assms by (auto simp: zenoh_pico_delete_recv_msg_data_def msg_ok_def Release_live Let_def)

definition query_calls :: "nat option \<Rightarrow> zcall list \<Rightarrow> zcall list" where
  "query_calls q t = (case q of None \<Rightarrow> t | Some i \<Rightarrow> ZQueryDrop i # t)"

lemma query_calls_simps [simp]: "query_calls None t = t" "query_calls (Some i) t = ZQueryDrop i # t"
  by (simp_all add: query_calls_def)

lemma query_drop_eq: "query_drop q w = w\<lparr>trace := query_calls q (trace w)\<rparr>"
  by (simp add: query_drop_def znote_def split: option.split)

lemma query_drop_fields [simp]: "msgs (query_drop q w) = msgs w" "bufs (query_drop q w) = bufs w"
  by (simp_all add: query_drop_def znote_def split: option.split)

lemma delete_msg_last:
  assumes "msg_ok w a d" and "ref d = 1"
  shows "zenoh_pico_delete_recv_msg_data (Some a) w = Inr (True, msg_freed w a d)"
proof (cases "payload_start d")
  case None
  then show ?thesis
    using assms by (auto simp: zenoh_pico_delete_recv_msg_data_def msg_ok_def Release_live Let_def msg_freed_def query_drop_eq)
next
  case (Some p)
  then obtain bs where bs: "bufs w p = Some bs" using assms(1) by (auto simp: msg_ok_def)
  show ?thesis
    using assms Some bs
    by (auto simp: zenoh_pico_delete_recv_msg_data_def msg_ok_def Release_live Let_def msg_freed_def z_free_def query_drop_eq)
qed

text \<open>
  C7: From one application to another. Take a typesupport that reads back what it wrote and a serialiser that
  does: the bytes rmw_zenoh_pico_serialize makes of a message, with an attachment made by attachment_gen,
  arrive as a sample; with memory, generate_recv_sample_msg_data and deserialize_topic_msg then give the
  receiver exactly that message, with the sender's time stamp, sequence number and global identifier, and the
  time of reception.
\<close>

theorem sample_end_to_end:
  assumes "cdr_ok cb m" and "codec_ok (codec (env u))" and "attachment_gen att u = (Some bytes, att', u')"
    and "length (gid att) = RMW_GID_STORAGE_SIZE" and "length (publisher_gid info) = RMW_GID_STORAGE_SIZE"
    and "roomy w" and "codec (env w) = codec (env u)"
  shows "andthen (rmw_zenoh_pico_generate_recv_sample_msg_data
        \<lparr>sample_payload = serialized_bytes cb m, sample_attachment = bytes\<rparr> ts w) (\<lambda>(p, w).
      rmw_zenoh_pico_deserialize_topic_msg p cb old (Some info) w) =
    Inr (True, m, Some (info\<lparr>source_timestamp := fst (zenoh_pico_gen_timestamp u), received_timestamp := ts,
      publication_sequence_number := sequence_num att, reception_sequence_number := 0,
      publisher_gid_identifier := Some rmw_get_implementation_identifier, publisher_gid := gid att,
      from_intra_process := False\<rparr>))"
proof -
  let ?p = "serialized_bytes cb m"
  let ?att = "zero_attachment\<lparr>sequence_num := sequence_num att, timestamp := fst (zenoh_pico_gen_timestamp u), gid := gid att\<rparr>"
  have keep: "sequence_num att' = sequence_num att" "gid att' = gid att" "timestamp att' = fst (zenoh_pico_gen_timestamp u)"
    using attachment_gen_keeps [OF assms(3)] attachment_gen_timestamp [OF assms(3)] by simp_all
  have "attachment_data_get (codec (env w)) bytes zero_attachment = (True, ?att)"
    using attachment_gen_get [OF assms(2,3), of zero_attachment] by (simp add: assms(7) keep)
  then have g: "rmw_zenoh_pico_generate_recv_sample_msg_data \<lparr>sample_payload = ?p, sample_attachment = bytes\<rparr> ts w =
      Inr (Some (next_addr w), with_msg (sample_msg (Suc (next_addr w)) ?p ts ?att) ?p w)"
    using recv_sample_roomy [OF assms(6), of "\<lparr>sample_payload = ?p, sample_attachment = bytes\<rparr>"] by simp
  have d: "rmw_zenoh_pico_deserialize (Some (Suc (next_addr w))) (length ?p) cb old
      (with_msg (sample_msg (Suc (next_addr w)) ?p ts ?att) ?p w) = Inr (True, m)"
    by (rule deserialize_serialized [OF assms(1)]) (simp add: with_msg_def)
  have c: "copy_gid (publisher_gid info) (gid att) = gid att"
    using assms(4,5) by (simp add: copy_gid_def)
  show ?thesis
    unfolding g andthen_Inr prod.case rmw_zenoh_pico_deserialize_topic_msg_def
    using d c by (simp add: with_msg_def sample_msg_def)
qed

definition small_msg_mem :: msg_mem where
  "small_msg_mem = ent_mem.extend (mem.extend small_mem
     \<lparr>node_infos = Map.empty, topic_infos = Map.empty, entities = Map.empty, next_entity_id = 0, next_node_id = 0\<rparr>)
     \<lparr>msgs = Map.empty\<rparr>"

lemma small_msg_mem_facts:
  "roomy small_msg_mem" "codec (env small_msg_mem) = le_codec" "codec (env small_mem) = le_codec"
  by (simp_all add: roomy_def small_msg_mem_def small_mem_def small_env_def ent_mem.defs mem.defs)

definition echo_callbacks :: message_type_support_callbacks_t where
  "echo_callbacks = \<lparr>message_namespace = Some ''std_msgs::msg'', message_name = Some ''String'',
     get_serialized_size = length, cdr_serialize = (\<lambda>m n. (length m \<le> n, m)), cdr_deserialize = (\<lambda>b. (True, b))\<rparr>"

lemma echo_cdr_ok: "cdr_ok echo_callbacks m"
  by (simp add: cdr_ok_def echo_callbacks_def)

definition empty_message_info :: rmw_message_info_t where
  "empty_message_info = \<lparr>source_timestamp = 0, received_timestamp = 0, publication_sequence_number = 0,
     reception_sequence_number = 0, publisher_gid_identifier = None, publisher_gid = replicate 16 0, from_intra_process = True\<rparr>"

theorem sample_end_to_end_witness:
  "\<exists>bytes att' u'.
     attachment_gen \<lparr>sequence_num = 7, timestamp = 0, gid = replicate 16 9\<rparr> small_mem = (Some bytes, att', u') \<and>
     map_sum id (\<lambda>(ok, m, info). (ok, m, map_option publication_sequence_number info))
      (andthen (rmw_zenoh_pico_generate_recv_sample_msg_data
        \<lparr>sample_payload = serialized_bytes echo_callbacks [1, 2], sample_attachment = bytes\<rparr> 11 small_msg_mem) (\<lambda>(p, w).
      rmw_zenoh_pico_deserialize_topic_msg p echo_callbacks [] (Some empty_message_info) w)) = Inr (True, [1, 2], Some 7)"
proof -
  let ?d = "\<lparr>sequence_num = 7, timestamp = 0, gid = replicate 16 9\<rparr>"
  obtain bytes att' u' where g: "attachment_gen ?d small_mem = (Some bytes, att', u')"
    by (simp add: attachment_gen_def zenoh_pico_gen_timestamp_def clock_gettime_def small_mem_def small_env_def
        le_codec_def Let_def)
  show ?thesis
    using sample_end_to_end [OF echo_cdr_ok, of small_mem ?d bytes att' u' empty_message_info small_msg_mem "[1, 2]" 11 "[]"]
      g le_codec_ok
    by (auto simp: small_msg_mem_facts RMW_GID_STORAGE_SIZE_def empty_message_info_def)
qed

text \<open>
  Receiving and releasing a query is balanced. With memory, a message object made from a query whose
  attachment can be read keeps a clone of the query; its last release frees object and
  payload and drops that clone, so that every heap is as it was before.
\<close>

theorem query_message_balanced:
  assumes "roomy w" and "msgs w (next_addr w) = None" and "bufs w (Suc (next_addr w)) = None"
    and "attachment_data_get (codec (env w)) (query_attachment q) zero_attachment = (True, att)"
  shows "andthen (rmw_zenoh_pico_generate_recv_query_msg_data q ts w) (\<lambda>(p, w). zenoh_pico_delete_recv_msg_data p w) =
    Inr (True, w\<lparr>next_addr := next_addr w + 2,
      trace := ZQueryDrop (query_id q) # ZQueryClone (query_id q) # trace w\<rparr>)"
proof -
  let ?d = "query_msg (Suc (next_addr w)) q ts att"
  let ?w = "znote (ZQueryClone (query_id q)) (with_msg ?d (query_payload q) w)"
  have "msg_ok ?w (next_addr w) ?d" "ref ?d = 1"
    by (simp_all add: msg_ok_def live_def with_msg_def query_msg_def znote_def)
  then have "zenoh_pico_delete_recv_msg_data (Some (next_addr w)) ?w = Inr (True, msg_freed ?w (next_addr w) ?d)"
    by (rule delete_msg_last)
  then show ?thesis
    using recv_query_roomy [OF assms(1,4), of ts] assms(2,3)
    by (simp add: msg_freed_def query_msg_def with_msg_def znote_def query_drop_eq Let_def fun_upd_idem)
qed

definition example_query :: z_query where
  "example_query = \<lparr>query_id = 5, query_payload = [0, 1, 0, 0, 42],
     query_attachment = le_bytes 8 3 @ le_bytes 8 4 @ [1, 9], query_keyexpr = ''0/srv''\<rparr>"

lemma example_query_attachment:
  "attachment_data_get le_codec (query_attachment example_query) zero_attachment =
     (True, \<lparr>sequence_num = 3, timestamp = 4, gid = [9]\<rparr>)"
  by (simp add: attachment_data_get_def le_codec_def example_query_def zero_attachment_def of_le_bytes_8)

theorem query_message_balanced_witness:
  "andthen (rmw_zenoh_pico_generate_recv_query_msg_data example_query 1 small_msg_mem) (\<lambda>(p, w). zenoh_pico_delete_recv_msg_data p w) =
    Inr (True, small_msg_mem\<lparr>next_addr := 2, trace := [ZQueryDrop 5, ZQueryClone 5]\<rparr>)"
proof -
  have "attachment_data_get (codec (env small_msg_mem)) (query_attachment example_query) zero_attachment =
     (True, \<lparr>sequence_num = 3, timestamp = 4, gid = [9]\<rparr>)"
    using example_query_attachment by (simp add: small_msg_mem_facts)
  moreover have "next_addr small_msg_mem = 0" "trace small_msg_mem = []" "msgs small_msg_mem = Map.empty" "bufs small_msg_mem = Map.empty"
    by (simp_all add: small_msg_mem_def small_mem_def ent_mem.defs mem.defs)
  ultimately show ?thesis
    using query_message_balanced [OF small_msg_mem_facts(1), of example_query _ 1]
    by (simp add: example_query_def)
qed

text \<open>
  A sample with an unreadable attachment leaks. With memory, generate_recv_sample_msg_data answers null for a sample
  whose attachment cannot be decoded and frees the payload, but the message object
  stays allocated with a reference count of one and nobody holds its address.
\<close>

theorem bad_attachment_leaks:
  assumes "roomy w" and "bufs w (Suc (next_addr w)) = None"
    and "attachment_data_get (codec (env w)) (sample_attachment s) zero_attachment = (False, att)"
  shows "\<exists>w' d. rmw_zenoh_pico_generate_recv_sample_msg_data s ts w = Inr (None, w') \<and>
     bufs w' = bufs w \<and> msgs w' = (msgs w)(next_addr w \<mapsto> d) \<and> ref d = 1"
proof -
  have r: "roomy (w\<lparr>next_addr := n, msgs := h\<rparr>)" for n h using assms(1) by (simp add: roomy_def)
  show ?thesis
    using assms r
    by (auto simp: rmw_zenoh_pico_generate_recv_sample_msg_data_def roomy_generate Let_def zero_msg_def data_obj_init_def
        buf_put_def msg_put_def fun_upd_idem)
qed

theorem bad_attachment_leaks_witness:
  "\<exists>w' d. rmw_zenoh_pico_generate_recv_sample_msg_data \<lparr>sample_payload = [1], sample_attachment = []\<rparr> 1 small_msg_mem = Inr (None, w') \<and>
     bufs w' = Map.empty \<and> msgs w' 0 = Some d \<and> ref d = 1"
proof -
  have "bufs small_msg_mem = Map.empty" "msgs small_msg_mem = Map.empty" "next_addr small_msg_mem = 0"
    by (simp_all add: small_msg_mem_def small_mem_def ent_mem.defs mem.defs)
  moreover have "attachment_data_get (codec (env small_msg_mem)) [] zero_attachment = (False, zero_attachment)"
    by (simp add: attachment_data_get_def small_msg_mem_facts le_codec_def)
  ultimately show ?thesis
    using bad_attachment_leaks [OF small_msg_mem_facts(1), of "\<lparr>sample_payload = [1], sample_attachment = []\<rparr>" zero_attachment 1]
    by auto
qed

end
