(* ===== verification/Message_Queue.thy ===== *)
theory Message_Queue
  imports Ros_Message
begin

section \<open>The message queue\<close>

text \<open>
  The \<open>recv_msg_list_\<dots>\<close> functions of \<open>zenoh_pico_rosMessage.c\<close>: a singly linked list through the
  message objects with a pointer to either end, a count and a mutex.  Every operation takes the mutex
  first.  A null list pointer is \<open>None\<close>.  The loops walk the heap, so they take fuel; callers give the
  allocation counter, which exceeds the number of objects, so that running out of fuel means a
  cycle.
\<close>

record ReceiveMessageDataList =
  que_mutex :: mutex
  que_top :: "addr option"
  que_bottom :: "addr option"
  que_count :: int

type_synonym msg_heap = "addr \<rightharpoonup> ReceiveMessageData"

definition recv_msg_list_init :: ReceiveMessageDataList where
  "recv_msg_list_init = \<lparr>que_mutex = Unlocked, que_top = None, que_bottom = None, que_count = 0\<rparr>"

definition recv_msg_list_append ::
  "ReceiveMessageDataList option \<Rightarrow> addr option \<Rightarrow> msg_heap \<Rightarrow> (addr option \<times> ReceiveMessageDataList option \<times> msg_heap) res" where
  "recv_msg_list_append msg_list recv_data h =
     (case msg_list of None \<Rightarrow> Inr (None, None, h) | Some l \<Rightarrow>
      if recv_data = None then Inr (None, Some l, h)
      else
        andthen (z_mutex_lock (que_mutex l)) (\<lambda>m. let l = l\<lparr>que_mutex := m\<rparr> in
        andthen (deref h recv_data) (\<lambda>d. let h = h(the recv_data \<mapsto> d\<lparr>next_msg := None\<rparr>) in
        andthen (if que_bottom l \<noteq> None
                 then andthen (deref h (que_bottom l)) (\<lambda>b. Inr (h(the (que_bottom l) \<mapsto> b\<lparr>next_msg := recv_data\<rparr>)))
                 else Inr h) (\<lambda>h.
          let l = l\<lparr>que_bottom := recv_data, que_count := que_count l + 1\<rparr>;
              l = (if que_top l = None then l\<lparr>que_top := recv_data\<rparr> else l) in
        andthen (z_mutex_unlock (que_mutex l)) (\<lambda>m.
          Inr (recv_data, Some (l\<lparr>que_mutex := m\<rparr>), h))))))"

definition recv_msg_list_pop ::
  "ReceiveMessageDataList option \<Rightarrow> msg_heap \<Rightarrow> (addr option \<times> ReceiveMessageDataList option \<times> msg_heap) res" where
  "recv_msg_list_pop msg_list h =
     (case msg_list of None \<Rightarrow> Inr (None, None, h) | Some l \<Rightarrow>
        andthen (z_mutex_lock (que_mutex l)) (\<lambda>m. let l = l\<lparr>que_mutex := m\<rparr>; top_msg = que_top l in
        if top_msg = None
        then andthen (z_mutex_unlock (que_mutex l)) (\<lambda>m. Inr (None, Some (l\<lparr>que_mutex := m\<rparr>), h))
        else
          andthen (deref h top_msg) (\<lambda>d.
            let l = l\<lparr>que_top := next_msg d, que_count := que_count l - 1\<rparr>;
                l = (if que_bottom l = top_msg then l\<lparr>que_bottom := None\<rparr> else l);
                h = h(the top_msg \<mapsto> d\<lparr>next_msg := None\<rparr>) in
          andthen (z_mutex_unlock (que_mutex l)) (\<lambda>m. Inr (top_msg, Some (l\<lparr>que_mutex := m\<rparr>), h)))))"

text \<open>
  The loop of \<open>recv_msg_list_pickup\<close> from the second message on: \<open>before\<close> is the message in front of
  \<open>current\<close>'s successor.  \<open>f\<close> is the match function, which reads the message
  and may fault there.
\<close>

fun pickup_loop ::
  "nat \<Rightarrow> (ReceiveMessageData \<Rightarrow> bool res) \<Rightarrow> addr \<Rightarrow> ReceiveMessageDataList \<Rightarrow> msg_heap
     \<Rightarrow> (addr option \<times> ReceiveMessageDataList \<times> msg_heap) res" where
  "pickup_loop 0 f before l h = Inl Nontermination"
| "pickup_loop (Suc n) f before l h =
     andthen (deref h (Some before)) (\<lambda>b.
       (case next_msg b of
          None \<Rightarrow> Inr (None, l, h)
        | Some c \<Rightarrow>
            andthen (deref h (Some c)) (\<lambda>d.
            andthen (f d) (\<lambda>found.
            if found then
              let h = h(before \<mapsto> b\<lparr>next_msg := next_msg d\<rparr>);
                  l = l\<lparr>que_count := que_count l - 1\<rparr>;
                  l = (if que_bottom l = Some c then l\<lparr>que_bottom := Some before\<rparr> else l) in
              andthen (deref h (Some c)) (\<lambda>d. Inr (Some c, l, h(c \<mapsto> d\<lparr>next_msg := None\<rparr>)))
            else pickup_loop n f c l h))))"

definition recv_msg_list_pickup ::
  "nat \<Rightarrow> ReceiveMessageDataList option \<Rightarrow> (ReceiveMessageData \<Rightarrow> bool res) \<Rightarrow> msg_heap
     \<Rightarrow> (addr option \<times> ReceiveMessageDataList option \<times> msg_heap) res" where
  "recv_msg_list_pickup fuel msg_list f h =
     (case msg_list of None \<Rightarrow> Inr (None, None, h) | Some l \<Rightarrow>
        andthen (z_mutex_lock (que_mutex l)) (\<lambda>m. let l = l\<lparr>que_mutex := m\<rparr> in
        (case que_top l of
           None \<Rightarrow> andthen (z_mutex_unlock (que_mutex l)) (\<lambda>m. Inr (None, Some (l\<lparr>que_mutex := m\<rparr>), h))
         | Some c \<Rightarrow>
            andthen (deref h (Some c)) (\<lambda>d.
            andthen (f d) (\<lambda>found.
            andthen (if found then
                let l = l\<lparr>que_top := next_msg d, que_count := que_count l - 1\<rparr>;
                    l = (if que_bottom l = Some c then l\<lparr>que_bottom := None\<rparr> else l) in
                Inr (Some c, l, h(c \<mapsto> d\<lparr>next_msg := None\<rparr>))
              else pickup_loop fuel f c l h) (\<lambda>(p, l, h).
            andthen (z_mutex_unlock (que_mutex l)) (\<lambda>m. Inr (p, Some (l\<lparr>que_mutex := m\<rparr>), h))))))))"

definition recv_msg_list_count :: "ReceiveMessageDataList option \<Rightarrow> (int \<times> ReceiveMessageDataList option) res" where
  "recv_msg_list_count msg_list =
     (case msg_list of None \<Rightarrow> Inr (0, None) | Some l \<Rightarrow>
        andthen (z_mutex_lock (que_mutex l)) (\<lambda>m. let l = l\<lparr>que_mutex := m\<rparr>; n = que_count l in
        andthen (z_mutex_unlock (que_mutex l)) (\<lambda>m. Inr (n, Some (l\<lparr>que_mutex := m\<rparr>)))))"

definition recv_msg_list_empty :: "ReceiveMessageDataList option \<Rightarrow> (bool \<times> ReceiveMessageDataList option) res" where
  "recv_msg_list_empty msg_list =
     (if msg_list = None then Inr (False, None)
      else andthen (recv_msg_list_count msg_list) (\<lambda>(n, l). Inr (n = 0, l)))"

text \<open>The loop reads \<open>next\<close> of a message after it was handed to \<open>zenoh_pico_delete_recv_msg_data\<close>.\<close>

fun destroy_loop :: "nat \<Rightarrow> addr option \<Rightarrow> 'a msg_mem_scheme \<Rightarrow> 'a msg_mem_scheme res" where
  "destroy_loop 0 p w = (if p = None then Inr w else Inl Nontermination)"
| "destroy_loop (Suc n) p w =
     (if p = None then Inr w
      else andthen (zenoh_pico_delete_recv_msg_data p w) (\<lambda>(_, w).
           andthen (deref (msgs w) p) (\<lambda>d. destroy_loop n (next_msg d) w)))"

definition recv_msg_list_destroy ::
  "ReceiveMessageDataList option \<Rightarrow> 'a msg_mem_scheme \<Rightarrow> (ReceiveMessageDataList option \<times> 'a msg_mem_scheme) res" where
  "recv_msg_list_destroy msg_list w =
     (case msg_list of None \<Rightarrow> Inr (None, w) | Some l \<Rightarrow>
        andthen (z_mutex_lock (que_mutex l)) (\<lambda>m. let l = l\<lparr>que_mutex := m\<rparr> in
        andthen (destroy_loop (next_addr w) (que_top l) w) (\<lambda>w.
        andthen (z_mutex_unlock (que_mutex l)) (\<lambda>m.
          Inr (Some (l\<lparr>que_mutex := Dropped\<rparr>), w)))))"

subsection \<open>What a queue represents\<close>

fun chain :: "msg_heap \<Rightarrow> addr option \<Rightarrow> addr list \<Rightarrow> bool" where
  "chain h p [] \<longleftrightarrow> p = None"
| "chain h p (a # as) \<longleftrightarrow> p = Some a \<and> a \<in> dom h \<and> chain h (next_msg (the (h a))) as"

definition queue_rep :: "msg_heap \<Rightarrow> ReceiveMessageDataList \<Rightarrow> addr list \<Rightarrow> bool" where
  "queue_rep h l as \<longleftrightarrow> que_mutex l = Unlocked \<and> distinct as \<and> chain h (que_top l) as \<and>
     que_bottom l = (if as = [] then None else Some (last as)) \<and> que_count l = int (length as)"

lemma chain_frame: "a \<notin> set as \<Longrightarrow> chain (h(a := x)) p as = chain h p as"
  by (induction as arbitrary: p) auto

lemma chain_dom: "chain h p as \<Longrightarrow> a \<in> set as \<Longrightarrow> \<exists>d. h a = Some d"
  by (induction as arbitrary: p) auto

text \<open>Linking a message behind the last one.\<close>

lemma chain_snoc:
  assumes "chain h p as" and "as \<noteq> []" and "distinct as" and "a \<notin> set as"
    and "h (last as) = Some b" and "h a = Some d" and "next_msg d = None"
  shows "chain (h(last as \<mapsto> b\<lparr>next_msg := Some a\<rparr>)) p (as @ [a])"
  using assms
proof (induction as arbitrary: p)
  case (Cons x xs)
  show ?case
  proof (cases "xs = []")
    case True
    then show ?thesis using Cons.prems by auto
  next
    case False
    obtain e where e: "h x = Some e" "chain h (next_msg e) xs" using Cons.prems(1) by auto
    have "x \<noteq> last xs" using Cons.prems(3) False by auto
    moreover have "chain (h(last xs \<mapsto> b\<lparr>next_msg := Some a\<rparr>)) (next_msg e) (xs @ [a])"
      using Cons.IH [OF e(2) False] Cons.prems False by (simp del: fun_upd_apply)
    moreover have "(h(last xs \<mapsto> b\<lparr>next_msg := Some a\<rparr>)) x = Some e"
      using e(1) calculation(1) by simp
    moreover have "last (x # xs) = last xs" using False by simp
    ultimately show ?thesis using Cons.prems(1) by (simp add: domIff del: fun_upd_apply)
  qed
qed simp

text \<open>Queue operations change nothing of a message but its link.\<close>

definition same_msgs :: "msg_heap \<Rightarrow> msg_heap \<Rightarrow> bool" where
  "same_msgs h h' \<longleftrightarrow> (\<forall>a. map_option (\<lambda>d. d\<lparr>next_msg := None\<rparr>) (h a) = map_option (\<lambda>d. d\<lparr>next_msg := None\<rparr>) (h' a))"

lemma same_msgs_refl [simp]: "same_msgs h h"
  by (simp add: same_msgs_def)

lemma same_msgs_trans: "same_msgs h h' \<Longrightarrow> same_msgs h' h'' \<Longrightarrow> same_msgs h h''"
  by (simp add: same_msgs_def)

lemma same_msgs_upd: "h a = Some d \<Longrightarrow> same_msgs h (h(a \<mapsto> d\<lparr>next_msg := p\<rparr>))"
  by (simp add: same_msgs_def)

lemma same_msgs_dom: "same_msgs h h' \<Longrightarrow> dom h' = dom h"
  by (auto simp: same_msgs_def dom_def) (metis map_option_is_None not_None_eq)+

lemma same_msgsD:
  assumes "same_msgs h h'" and "h a = Some d"
  shows "\<exists>n. h' a = Some (d\<lparr>next_msg := n\<rparr>)"
proof -
  obtain d' where d': "h' a = Some d'" "d'\<lparr>next_msg := None\<rparr> = d\<lparr>next_msg := None\<rparr>"
    using assms unfolding same_msgs_def by (metis map_option_eq_Some)
  have "d' = (d'\<lparr>next_msg := None\<rparr>)\<lparr>next_msg := next_msg d'\<rparr>" by simp
  also have "\<dots> = d\<lparr>next_msg := next_msg d'\<rparr>" by (simp only: d'(2)) simp
  finally have "d' = d\<lparr>next_msg := next_msg d'\<rparr>" .
  then show ?thesis using d'(1) by (intro exI [of _ "next_msg d'"]) simp
qed

lemma queue_rep_init: "queue_rep h recv_msg_list_init []"
  by (simp add: queue_rep_def recv_msg_list_init_def)

lemma append_rep:
  assumes r: "queue_rep h l as" and a: "h a = Some d" "a \<notin> set as"
  shows "\<exists>l' h'. recv_msg_list_append (Some l) (Some a) h = Inr (Some a, Some l', h') \<and> queue_rep h' l' (as @ [a]) \<and>
    same_msgs h h'"
proof (cases "as = []")
  case True
  then show ?thesis using assms by (auto simp: recv_msg_list_append_def queue_rep_def Let_def same_msgs_def)
next
  case False
  let ?h = "h(a \<mapsto> d\<lparr>next_msg := None\<rparr>)"
  have c: "chain ?h (que_top l) as" using r a by (simp add: queue_rep_def chain_frame)
  have lin: "last as \<in> set as" using False by simp
  then obtain b where b: "?h (last as) = Some b" using chain_dom [OF c] by blast
  have ne: "last as \<noteq> a" using a(2) lin by auto
  have s: "chain (?h(last as \<mapsto> b\<lparr>next_msg := Some a\<rparr>)) (que_top l) (as @ [a])"
    by (rule chain_snoc [OF c False _ a(2) b, of "d\<lparr>next_msg := None\<rparr>"]) (use r in \<open>simp_all add: queue_rep_def\<close>)
  have top: "que_top l \<noteq> None" using r False by (cases as) (auto simp: queue_rep_def)
  show ?thesis
    using r a b s ne top False by (auto simp: recv_msg_list_append_def queue_rep_def Let_def same_msgs_def)
qed

lemma pop_empty: "queue_rep h l [] \<Longrightarrow> recv_msg_list_pop (Some l) h = Inr (None, Some l, h)"
  by (cases l) (simp add: recv_msg_list_pop_def queue_rep_def Let_def)

lemma pop_cons:
  assumes "queue_rep h l (a # as)"
  shows "\<exists>l' d. h a = Some d \<and> recv_msg_list_pop (Some l) h = Inr (Some a, Some l', h(a \<mapsto> d\<lparr>next_msg := None\<rparr>)) \<and>
    queue_rep (h(a \<mapsto> d\<lparr>next_msg := None\<rparr>)) l' as"
  using assms by (auto simp: recv_msg_list_pop_def queue_rep_def Let_def chain_frame)

lemma count_rep: "queue_rep h l as \<Longrightarrow> recv_msg_list_count (Some l) = Inr (int (length as), Some l)"
  by (cases l) (simp add: recv_msg_list_count_def queue_rep_def Let_def)

lemma empty_rep: "queue_rep h l as \<Longrightarrow> recv_msg_list_empty (Some l) = Inr (as = [], Some l)"
  by (simp add: recv_msg_list_empty_def count_rep)

subsection \<open>pickup takes the first match\<close>

text \<open>
  The reference: the match function on each message in turn, up to the first that matches or faults.  For a match function that
  does not fault this is \<open>find\<close>.
\<close>

definition match_at :: "msg_heap \<Rightarrow> (ReceiveMessageData \<Rightarrow> bool res) \<Rightarrow> addr \<Rightarrow> bool res" where
  "match_at h f a = andthen (deref h (Some a)) f"

definition first_match :: "msg_heap \<Rightarrow> (ReceiveMessageData \<Rightarrow> bool res) \<Rightarrow> addr list \<Rightarrow> addr option res" where
  "first_match h f as = find_res (match_at h f) as"

definition matches :: "msg_heap \<Rightarrow> (ReceiveMessageData \<Rightarrow> bool) \<Rightarrow> addr \<Rightarrow> bool" where
  "matches h f a = (case h a of None \<Rightarrow> False | Some d \<Rightarrow> f d)"

lemma match_at_simp [simp]: "h a = Some d \<Longrightarrow> match_at h f a = f d"
  by (simp add: match_at_def)

lemma match_at_eq_Inr: "match_at h f a = Inr b \<longleftrightarrow> (\<exists>d. h a = Some d \<and> f d = Inr b)"
  by (auto simp: match_at_def andthen_eq_Inr deref_eq_Inr)

lemma first_match_find:
  assumes "first_match h f as = Inr r" and "\<And>d b. f d = Inr b \<Longrightarrow> b = g d"
  shows "find (matches h g) as = r"
  using assms(1) unfolding first_match_def
  by (rule find_res_find) (use assms(2) in \<open>auto simp: match_at_eq_Inr matches_def\<close>)

lemma first_match_total:
  assumes "\<forall>a \<in> set as. \<exists>d. h a = Some d \<and> f d = Inr (g d)"
  shows "first_match h f as = Inr (find (matches h g) as)"
  unfolding first_match_def by (rule find_res_total) (use assms in \<open>force simp: matches_def\<close>)

lemma chain_remove:
  assumes "chain h p (us @ x # c # vs)" and "distinct (us @ x # c # vs)" and "h x = Some b" and "h c = Some d"
  shows "chain (h(x \<mapsto> b\<lparr>next_msg := next_msg d\<rparr>, c \<mapsto> d')) p (us @ x # vs)"
  using assms
proof (induction us arbitrary: p)
  case Nil
  then have "chain (h(x \<mapsto> b\<lparr>next_msg := next_msg d\<rparr>, c \<mapsto> d')) (next_msg d) vs" "x \<noteq> c"
    by (auto simp: chain_frame simp del: fun_upd_apply)
  then show ?case using Nil by (simp add: domIff fun_upd_other fun_upd_same del: fun_upd_apply)
next
  case (Cons u us)
  obtain e where e: "h u = Some e" "chain h (next_msg e) (us @ x # c # vs)" using Cons.prems(1) by auto
  have "chain (h(x \<mapsto> b\<lparr>next_msg := next_msg d\<rparr>, c \<mapsto> d')) (next_msg e) (us @ x # vs)"
    using Cons.IH [OF e(2)] Cons.prems by (simp del: fun_upd_apply)
  moreover have "(h(x \<mapsto> b\<lparr>next_msg := next_msg d\<rparr>, c \<mapsto> d')) u = Some e"
    using e(1) Cons.prems(2) by auto
  ultimately show ?case using Cons.prems(1) by (simp add: domIff del: fun_upd_apply)
qed

lemma pickup_loop_none:
  assumes "chain h (Some a) (a # cs)" and "\<forall>c \<in> set cs. match_at h f c = Inr False" and "length cs < n"
  shows "pickup_loop n f a l h = Inr (None, l, h)"
  using assms
proof (induction cs arbitrary: a n)
  case Nil
  then show ?case by (cases n) auto
next
  case (Cons c cs)
  obtain m where n: "n = Suc m" using Cons.prems(3) by (cases n) auto
  have "pickup_loop m f c l h = Inr (None, l, h)"
    using Cons.prems n by (intro Cons.IH) auto
  then show ?case using Cons.prems n by (auto simp: match_at_eq_Inr)
qed

lemma pickup_loop_fault:
  assumes "chain h (Some a) (a # us @ c # vs)" and "\<forall>u \<in> set us. match_at h f u = Inr False" and "match_at h f c = Inl e"
    and "length us < n"
  shows "pickup_loop n f a l h = Inl e"
  using assms
proof (induction us arbitrary: a n)
  case Nil
  then show ?case by (cases n) auto
next
  case (Cons u us)
  obtain m where n: "n = Suc m" using Cons.prems(4) by (cases n) auto
  have "pickup_loop m f u l h = Inl e" using Cons.prems n by (intro Cons.IH) auto
  then show ?case using Cons.prems n by (auto simp: match_at_eq_Inr)
qed

lemma pickup_loop_some:
  assumes "chain h (Some a) (a # us @ c # vs)" and "distinct (a # us @ c # vs)"
    and "\<forall>u \<in> set us. match_at h f u = Inr False" and "match_at h f c = Inr True" and "length us < n"
    and "h (last (a # us)) = Some b" and "h c = Some d"
  shows "pickup_loop n f a l h = Inr (Some c,
      l\<lparr>que_count := que_count l - 1, que_bottom := (if que_bottom l = Some c then Some (last (a # us)) else que_bottom l)\<rparr>,
      h(last (a # us) \<mapsto> b\<lparr>next_msg := next_msg d\<rparr>, c \<mapsto> d\<lparr>next_msg := None\<rparr>))"
  using assms
proof (induction us arbitrary: a n)
  case Nil
  then show ?case by (cases n) (auto simp: match_at_eq_Inr Let_def)
next
  case (Cons u us)
  obtain m where n: "n = Suc m" using Cons.prems(5) by (cases n) auto
  obtain e g where e: "h a = Some e" "next_msg e = Some u" and g: "h u = Some g" "f g = Inr False"
    using Cons.prems(1,3) by (auto simp: match_at_eq_Inr)
  have "pickup_loop m f u l h = Inr (Some c,
      l\<lparr>que_count := que_count l - 1, que_bottom := (if que_bottom l = Some c then Some (last (u # us)) else que_bottom l)\<rparr>,
      h(last (u # us) \<mapsto> b\<lparr>next_msg := next_msg d\<rparr>, c \<mapsto> d\<lparr>next_msg := None\<rparr>))"
    using Cons.prems n by (intro Cons.IH) auto
  moreover have "last (a # u # us) = last (u # us)" by simp
  ultimately show ?case using e g n by (simp only: pickup_loop.simps deref_simps andthen_Inr option.case if_False)
qed

lemma pickup_none:
  assumes r: "queue_rep h l as" and no: "\<forall>a \<in> set as. match_at h f a = Inr False" and n: "length as \<le> n"
  shows "recv_msg_list_pickup n (Some l) f h = Inr (None, Some l, h)"
proof (cases as)
  case Nil
  then show ?thesis using r by (cases l) (simp add: recv_msg_list_pickup_def queue_rep_def Let_def)
next
  case (Cons a cs)
  have c: "chain h (Some a) (a # cs)" "que_top l = Some a" using r Cons by (auto simp: queue_rep_def)
  obtain d where d: "h a = Some d" "f d = Inr False" using c(1) no Cons by (auto simp: match_at_eq_Inr)
  have "pickup_loop n f a (l\<lparr>que_mutex := Locked\<rparr>) h = Inr (None, l\<lparr>que_mutex := Locked\<rparr>, h)"
    using c(1) no n Cons by (intro pickup_loop_none) auto
  then show ?thesis
    using r c d by (cases l) (simp add: recv_msg_list_pickup_def queue_rep_def Let_def)
qed

lemma pickup_some:
  assumes r: "queue_rep h l (us @ c # vs)" and no: "\<forall>u \<in> set us. match_at h f u = Inr False" and m: "match_at h f c = Inr True"
    and n: "length us \<le> n"
  shows "\<exists>l' h'. recv_msg_list_pickup n (Some l) f h = Inr (Some c, Some l', h') \<and> queue_rep h' l' (us @ vs) \<and> same_msgs h h'"
proof (cases us)
  case Nil
  obtain d where d: "h c = Some d" "f d = Inr True" using m by (auto simp: match_at_eq_Inr)
  have ch: "que_top l = Some c" "chain h (next_msg d) vs" using r Nil d by (auto simp: queue_rep_def)
  have bot: "(que_bottom l = Some c) = (vs = [])"
    using r Nil last_in_set [of vs] by (auto simp: queue_rep_def split: if_splits)
  have q: "queue_rep (h(c \<mapsto> d\<lparr>next_msg := None\<rparr>)) (l\<lparr>que_top := next_msg d, que_count := que_count l - 1,
      que_bottom := (if que_bottom l = Some c then None else que_bottom l)\<rparr>) vs"
    using r Nil ch bot by (auto simp: queue_rep_def chain_frame)
  have "recv_msg_list_pickup n (Some l) f h = Inr (Some c, Some (l\<lparr>que_top := next_msg d, que_count := que_count l - 1,
      que_bottom := (if que_bottom l = Some c then None else que_bottom l)\<rparr>), h(c \<mapsto> d\<lparr>next_msg := None\<rparr>))"
    using r Nil ch d by (cases l) (simp add: recv_msg_list_pickup_def queue_rep_def Let_def)
  then show ?thesis using Nil q same_msgs_upd [of h c d None] d(1) by auto
next
  case (Cons a ws)
  have c: "chain h (Some a) (a # ws @ c # vs)" "que_top l = Some a" and dist: "distinct (a # ws @ c # vs)"
    using r Cons by (auto simp: queue_rep_def)
  obtain e where e: "h a = Some e" "f e = Inr False" using c(1) no Cons by (auto simp: match_at_eq_Inr)
  obtain d where d: "h c = Some d" using m by (auto simp: match_at_eq_Inr)
  let ?x = "last (a # ws)"
  have "?x \<in> set (a # ws @ c # vs)" using last_in_set [of "a # ws"] by auto
  then obtain b where b: "h ?x = Some b" using chain_dom [OF c(1)] by blast
  have ne: "?x \<noteq> c" using dist last_in_set [of "a # ws"] by (auto split: if_splits)
  let ?h = "h(?x \<mapsto> b\<lparr>next_msg := next_msg d\<rparr>, c \<mapsto> d\<lparr>next_msg := None\<rparr>)"
  let ?l = "l\<lparr>que_count := que_count l - 1, que_bottom := (if que_bottom l = Some c then Some ?x else que_bottom l)\<rparr>"
  have split: "a # ws = butlast (a # ws) @ [?x]" by simp
  have loop: "pickup_loop n f a (l\<lparr>que_mutex := Locked\<rparr>) h = Inr (Some c, ?l\<lparr>que_mutex := Locked\<rparr>, ?h)"
    using pickup_loop_some [OF c(1) dist _ m _ b d, of n "l\<lparr>que_mutex := Locked\<rparr>"] no n Cons by simp
  have "chain ?h (Some a) (butlast (a # ws) @ ?x # vs)"
    using chain_remove [of h "Some a" "butlast (a # ws)" ?x c vs b d "d\<lparr>next_msg := None\<rparr>"] c(1) dist b d split
    by (metis append.assoc append_Cons append_Nil)
  then have ch: "chain ?h (Some a) (a # ws @ vs)" using split by (metis append.assoc append_Cons append_Nil)
  have q: "queue_rep ?h ?l (us @ vs)"
    using r ch c(2) dist Cons unfolding queue_rep_def by (auto simp: last_append split: if_splits)
  have "same_msgs h (h(?x \<mapsto> b\<lparr>next_msg := next_msg d\<rparr>))" using b by (rule same_msgs_upd)
  moreover have "same_msgs (h(?x \<mapsto> b\<lparr>next_msg := next_msg d\<rparr>)) ?h" using d ne by (intro same_msgs_upd) auto
  ultimately have s: "same_msgs h ?h" by (rule same_msgs_trans)
  have "recv_msg_list_pickup n (Some l) f h = Inr (Some c, Some ?l, ?h)"
    using r c e loop by (cases l) (simp add: recv_msg_list_pickup_def queue_rep_def Let_def)
  with q s show ?thesis by blast
qed

lemma pickup_fault:
  assumes r: "queue_rep h l as" and x: "first_match h f as = Inl e" and n: "length as \<le> n"
  shows "recv_msg_list_pickup n (Some l) f h = Inl e"
proof -
  obtain us c vs where s: "as = us @ c # vs" "\<forall>u \<in> set us. match_at h f u = Inr False" "match_at h f c = Inl e"
    using find_res_Inl [OF x [unfolded first_match_def]] by blast
  obtain a cs where as: "as = a # cs" using s(1) by (cases us) auto
  then have a: "as = a # cs" "que_top l = Some a" "chain h (Some a) (a # cs)" using r by (auto simp: queue_rep_def)
  obtain d where d: "h a = Some d" using a(3) by auto
  show ?thesis
  proof (cases us)
    case Nil
    then have "f d = Inl e" using s a d by simp
    then show ?thesis using r a d by (simp add: recv_msg_list_pickup_def queue_rep_def Let_def)
  next
    case (Cons u ws)
    then have u: "u = a" "cs = ws @ c # vs" using s a by simp_all
    have "f d = Inr False" using s(2) Cons u(1) d by simp
    moreover have "pickup_loop n f a (l\<lparr>que_mutex := Locked\<rparr>) h = Inl e"
      by (rule pickup_loop_fault [of h a ws c vs]) (use a s Cons u n in auto)
    ultimately show ?thesis using r a d by (simp add: recv_msg_list_pickup_def queue_rep_def Let_def)
  qed
qed

lemma pickup_takes_first:
  assumes "queue_rep h l as" and "length as \<le> n" and "first_match h f as = Inr r"
  shows "\<exists>l' h'. recv_msg_list_pickup n (Some l) f h = Inr (r, Some l', h') \<and>
     queue_rep h' l' (case r of None \<Rightarrow> as | Some c \<Rightarrow> remove1 c as) \<and> same_msgs h h'"
proof (cases r)
  case None
  then have "\<forall>a \<in> set as. match_at h f a = Inr False" using assms(3) by (simp add: first_match_def find_res_None)
  then show ?thesis using pickup_none [OF assms(1) _ assms(2), of f] assms(1) None by auto
next
  case (Some c)
  then obtain us vs where s: "as = us @ c # vs" "\<forall>u \<in> set us. match_at h f u = Inr False" "match_at h f c = Inr True"
    using find_res_Some [OF assms(3) [unfolded first_match_def Some]] by blast
  have "c \<notin> set us" using s(2,3) by auto
  then have "remove1 c as = us @ vs" using s(1) by (simp add: remove1_append)
  moreover have "length us \<le> n" using assms(2) s(1) by simp
  ultimately show ?thesis using pickup_some [of h l us c vs f n] assms(1) s Some by simp
qed

text \<open>
  C23: Picking a message out of the queue. For a well-formed queue whose length the fuel covers, recv_msg_list_pickup calls the
  match function on the messages in queue order up to the first that satisfies it. It returns that message and takes exactly
  that one out, keeping the order of the others, the end pointers and the count correct (also when it was the first or the
  last); without a match it returns null and changes nothing. No message changes except in its link. A fault of the match
  function on a message it gets to is the fault of recv_msg_list_pickup. With a match function that does not fault on the
  queue's messages the message is the one find gives.
\<close>

theorem pickup_takes_first_match:
  assumes "queue_rep h l as" and "length as \<le> n"
  shows "(case first_match h f as of
      Inl e \<Rightarrow> recv_msg_list_pickup n (Some l) f h = Inl e
    | Inr r \<Rightarrow> (\<exists>l' h'. recv_msg_list_pickup n (Some l) f h = Inr (r, Some l', h') \<and>
        queue_rep h' l' (case r of None \<Rightarrow> as | Some c \<Rightarrow> remove1 c as) \<and> same_msgs h h')) \<and>
    (\<forall>g. (\<forall>a \<in> set as. f (the (h a)) = Inr (g (the (h a)))) \<longrightarrow>
      (\<exists>l' h'. recv_msg_list_pickup n (Some l) f h = Inr (find (matches h g) as, Some l', h') \<and>
        queue_rep h' l' (case find (matches h g) as of None \<Rightarrow> as | Some c \<Rightarrow> remove1 c as) \<and> same_msgs h h'))"
proof (intro conjI allI impI)
  show "case first_match h f as of
      Inl e \<Rightarrow> recv_msg_list_pickup n (Some l) f h = Inl e
    | Inr r \<Rightarrow> (\<exists>l' h'. recv_msg_list_pickup n (Some l) f h = Inr (r, Some l', h') \<and>
        queue_rep h' l' (case r of None \<Rightarrow> as | Some c \<Rightarrow> remove1 c as) \<and> same_msgs h h')"
    using pickup_fault [OF assms(1) _ assms(2)] pickup_takes_first [OF assms] by (auto split: sum.split)
next
  fix g assume g: "\<forall>a \<in> set as. f (the (h a)) = Inr (g (the (h a)))"
  have "first_match h f as = Inr (find (matches h g) as)"
    by (rule first_match_total) (use g chain_dom [of h "que_top l" as] assms(1) in \<open>fastforce simp: queue_rep_def\<close>)
  then show "\<exists>l' h'. recv_msg_list_pickup n (Some l) f h = Inr (find (matches h g) as, Some l', h') \<and>
      queue_rep h' l' (case find (matches h g) as of None \<Rightarrow> as | Some c \<Rightarrow> remove1 c as) \<and> same_msgs h h'"
    by (rule pickup_takes_first [OF assms])
qed

subsection \<open>The queue as a first-in first-out queue\<close>

fun each :: "('a \<Rightarrow> 's \<Rightarrow> 's res) \<Rightarrow> 'a list \<Rightarrow> 's \<Rightarrow> 's res" where
  "each f [] s = Inr s"
| "each f (x # xs) s = andthen (f x s) (each f xs)"

fun collect :: "('s \<Rightarrow> ('a option \<times> 's) res) \<Rightarrow> nat \<Rightarrow> 's \<Rightarrow> ('a list \<times> 's) res" where
  "collect f 0 s = Inr ([], s)"
| "collect f (Suc n) s = andthen (f s) (\<lambda>(r, s). case r of None \<Rightarrow> Inr ([], s)
     | Some x \<Rightarrow> andthen (collect f n s) (\<lambda>(xs, s). Inr (x # xs, s)))"

text \<open>The contract that the subscription and the service use of their queue.\<close>

locale fifo_queue =
  fixes rep :: "'s \<Rightarrow> 'a list \<Rightarrow> bool"
    and present :: "'s \<Rightarrow> 'a \<Rightarrow> bool"
    and enq :: "'a \<Rightarrow> 's \<Rightarrow> 's res"
    and deq :: "'s \<Rightarrow> ('a option \<times> 's) res"
  assumes enq_law: "rep s as \<Longrightarrow> present s a \<Longrightarrow> a \<notin> set as \<Longrightarrow>
      \<exists>s'. enq a s = Inr s' \<and> rep s' (as @ [a]) \<and> present s' = present s"
    and deq_empty: "rep s [] \<Longrightarrow> deq s = Inr (None, s)"
    and deq_law: "rep s (a # as) \<Longrightarrow> \<exists>s'. deq s = Inr (Some a, s') \<and> rep s' as \<and> present s' = present s"
begin

lemma enq_many:
  "rep s as \<Longrightarrow> distinct bs \<Longrightarrow> set as \<inter> set bs = {} \<Longrightarrow> \<forall>b \<in> set bs. present s b \<Longrightarrow>
     \<exists>s'. each enq bs s = Inr s' \<and> rep s' (as @ bs)"
proof (induction bs arbitrary: s as)
  case (Cons b bs)
  obtain s1 where s1: "enq b s = Inr s1" "rep s1 (as @ [b])" "present s1 = present s"
    using enq_law [of s as b] Cons.prems by auto
  then have "\<exists>s'. each enq bs s1 = Inr s' \<and> rep s' ((as @ [b]) @ bs)"
    using Cons.prems by (intro Cons.IH) auto
  then show ?case using s1 by simp
qed auto

lemma deq_many: "rep s as \<Longrightarrow> \<exists>s'. collect deq (length as) s = Inr (as, s') \<and> rep s' []"
proof (induction as arbitrary: s)
  case (Cons a as)
  then obtain s1 where s1: "deq s = Inr (Some a, s1)" "rep s1 as" using deq_law by blast
  obtain s' where "collect deq (length as) s1 = Inr (as, s')" "rep s' []" using Cons.IH [OF s1(2)] by blast
  then show ?case using s1 by simp
qed auto

lemma first_in_first_out:
  assumes "rep s as" and "distinct bs" and "set as \<inter> set bs = {}" and "\<forall>b \<in> set bs. present s b"
  shows "\<exists>q q'. each enq bs s = Inr q \<and> collect deq (length (as @ bs)) q = Inr (as @ bs, q') \<and> deq q' = Inr (None, q')"
proof -
  obtain q where q: "each enq bs s = Inr q" "rep q (as @ bs)" using enq_many [OF assms] by blast
  obtain q' where "collect deq (length (as @ bs)) q = Inr (as @ bs, q')" "rep q' []" using deq_many [OF q(2)] by blast
  with q(1) deq_empty show ?thesis by blast
qed

end

definition queue_enq :: "addr \<Rightarrow> msg_heap \<times> ReceiveMessageDataList \<Rightarrow> (msg_heap \<times> ReceiveMessageDataList) res" where
  "queue_enq a q = andthen (recv_msg_list_append (Some (snd q)) (Some a) (fst q)) (\<lambda>(_, l, h). Inr (h, the l))"

definition queue_deq :: "msg_heap \<times> ReceiveMessageDataList \<Rightarrow> (addr option \<times> msg_heap \<times> ReceiveMessageDataList) res" where
  "queue_deq q = andthen (recv_msg_list_pop (Some (snd q)) (fst q)) (\<lambda>(p, l, h). Inr (p, h, the l))"

interpretation msg_queue: fifo_queue "\<lambda>q as. queue_rep (fst q) (snd q) as" "\<lambda>q a. a \<in> dom (fst q)" queue_enq queue_deq
proof
  fix s :: "msg_heap \<times> ReceiveMessageDataList" and as a
  assume r: "queue_rep (fst s) (snd s) as" and a: "a \<in> dom (fst s)" "a \<notin> set as"
  then obtain d where d: "fst s a = Some d" by auto
  obtain l' h' where "recv_msg_list_append (Some (snd s)) (Some a) (fst s) = Inr (Some a, Some l', h')"
    "queue_rep h' l' (as @ [a])" "same_msgs (fst s) h'" using append_rep [OF r d a(2)] by blast
  then show "\<exists>s'. queue_enq a s = Inr s' \<and> queue_rep (fst s') (snd s') (as @ [a]) \<and>
      (\<lambda>a. a \<in> dom (fst s')) = (\<lambda>a. a \<in> dom (fst s))"
    using same_msgs_dom by (simp add: queue_enq_def)
next
  fix s :: "msg_heap \<times> ReceiveMessageDataList"
  assume "queue_rep (fst s) (snd s) []"
  then show "queue_deq s = Inr (None, s)" using pop_empty by (simp add: queue_deq_def)
next
  fix s :: "msg_heap \<times> ReceiveMessageDataList" and a as
  assume "queue_rep (fst s) (snd s) (a # as)"
  then obtain l' d where p: "fst s a = Some d"
    "recv_msg_list_pop (Some (snd s)) (fst s) = Inr (Some a, Some l', (fst s)(a \<mapsto> d\<lparr>next_msg := None\<rparr>))"
    "queue_rep ((fst s)(a \<mapsto> d\<lparr>next_msg := None\<rparr>)) l' as" using pop_cons by blast
  then show "\<exists>s'. queue_deq s = Inr (Some a, s') \<and> queue_rep (fst s') (snd s') as \<and>
      (\<lambda>a. a \<in> dom (fst s')) = (\<lambda>a. a \<in> dom (fst s))"
    by (auto simp: queue_deq_def domIff)
qed

text \<open>
  C6: Messages leave in the order they arrived. Appending any number of distinct messages with
  recv_msg_list_append to a well-formed queue and then calling recv_msg_list_pop as often as
  there are messages returns the old messages and then the new ones, in order, each once, without
  a fault, and leaves a queue on which pop returns null.
\<close>

theorem message_queue_fifo:
  assumes "queue_rep h l as" and "distinct bs" and "set as \<inter> set bs = {}" and "\<forall>b \<in> set bs. b \<in> dom h"
  shows "\<exists>q q'. each queue_enq bs (h, l) = Inr q \<and> collect queue_deq (length (as @ bs)) q = Inr (as @ bs, q') \<and>
     queue_deq q' = Inr (None, q')"
  by (rule msg_queue.first_in_first_out) (use assms in auto)

definition three_msgs :: msg_heap where
  "three_msgs = [1 \<mapsto> sample_msg 11 [1] 0 zero_attachment, 2 \<mapsto> sample_msg 12 [2] 0 zero_attachment,
     3 \<mapsto> sample_msg 13 [3] 7 zero_attachment]"

theorem message_queue_fifo_witness:
  "\<exists>q q'. each queue_enq [3, 1, 2] (three_msgs, recv_msg_list_init) = Inr q \<and>
     collect queue_deq 3 q = Inr ([3, 1, 2], q')"
proof -
  have "\<forall>b \<in> set [3, 1, 2]. b \<in> dom three_msgs" by (simp add: three_msgs_def)
  then have "\<exists>q q'. each queue_enq [3, 1, 2] (three_msgs, recv_msg_list_init) = Inr q \<and>
      collect queue_deq (length ([] @ [3, 1, 2 :: nat])) q = Inr ([] @ [3, 1, 2], q') \<and> queue_deq q' = Inr (None, q')"
    by (intro message_queue_fifo queue_rep_init) simp_all
  moreover have "length ([] @ [3, 1, 2 :: nat]) = 3" "[] @ [3, 1, 2] = [3, 1, 2 :: nat]" by simp_all
  ultimately show ?thesis by metis
qed

theorem pickup_takes_first_match_witness:
  "\<exists>l h l' h'. queue_rep h l [1, 3] \<and>
     recv_msg_list_pickup 4 (Some l) (\<lambda>d. Inr (recv_timestamp d = 7)) h = Inr (Some 3, Some l', h') \<and> queue_rep h' l' [1]"
proof -
  let ?l = "\<lparr>que_mutex = Unlocked, que_top = Some 1, que_bottom = Some 3, que_count = 2\<rparr>"
  let ?h = "three_msgs(1 \<mapsto> sample_msg 11 [1] 0 zero_attachment\<lparr>next_msg := Some 3\<rparr>)"
  let ?f = "\<lambda>d :: ReceiveMessageData. recv_timestamp d = 7"
  have r: "queue_rep ?h ?l [1, 3]"
    by (simp add: queue_rep_def three_msgs_def sample_msg_def)
  have f: "find (matches ?h ?f) [1, 3] = Some 3"
    by (simp add: matches_def three_msgs_def sample_msg_def)
  have "length [1, 3 :: nat] \<le> 4" by simp
  then obtain l' h' where p: "recv_msg_list_pickup 4 (Some ?l) (\<lambda>d. Inr (?f d)) ?h = Inr (find (matches ?h ?f) [1, 3], Some l', h')"
    "queue_rep h' l' (case find (matches ?h ?f) [1, 3] of None \<Rightarrow> [1, 3] | Some c \<Rightarrow> remove1 c [1, 3])"
    using conjunct2 [OF pickup_takes_first_match [OF r, of 4 "\<lambda>d. Inr (?f d)"], rule_format, of ?f] by auto
  have "recv_msg_list_pickup 4 (Some ?l) (\<lambda>d. Inr (?f d)) ?h = Inr (Some 3, Some l', h')"
    using p(1) by (simp only: f)
  moreover have "queue_rep h' l' [1]" using p(2) unfolding f by simp
  ultimately show ?thesis using r by (intro exI conjI)
qed

subsection \<open>Destroying a queue that is not empty\<close>

text \<open>
  recv_msg_list_destroy on a queue with messages. When the first message is held by the
  queue alone, deleting it frees it, and the loop then reads its link: a use after
  free. Only on an empty queue does the function return.
\<close>

theorem destroy_nonempty_use_after_free:
  assumes "queue_rep (msgs w) l (a # as)" and "msg_ok w a d" and "ref d = 1" and "0 < next_addr w"
  shows "recv_msg_list_destroy (Some l) w = Inl UseAfterFree"
proof -
  obtain n where n: "next_addr w = Suc n" using assms(4) by (cases "next_addr w") auto
  have "msgs (msg_freed w a d) a = None" by (simp add: msg_freed_def Let_def)
  then have "destroy_loop (Suc n) (Some a) w = Inl UseAfterFree"
    using delete_msg_last [OF assms(2,3)] by simp
  moreover have "que_top l = Some a" "que_mutex l = Unlocked" using assms(1) by (auto simp: queue_rep_def)
  ultimately show ?thesis
    by (simp add: recv_msg_list_destroy_def n)
qed

theorem destroy_nonempty_use_after_free_witness:
  "recv_msg_list_destroy (Some \<lparr>que_mutex = Unlocked, que_top = Some 1, que_bottom = Some 1, que_count = 1\<rparr>)
     (small_msg_mem\<lparr>next_addr := 20, msgs := three_msgs, bufs := [11 \<mapsto> [1]]\<rparr>) = Inl UseAfterFree"
  by (rule destroy_nonempty_use_after_free [where d = "sample_msg 11 [1] 0 zero_attachment" and a = 1 and as = "[]"])
    (simp_all add: queue_rep_def msg_ok_def live_def three_msgs_def sample_msg_def)

lemma destroy_empty: "queue_rep (msgs w) l [] \<Longrightarrow>
    recv_msg_list_destroy (Some l) w = Inr (Some (l\<lparr>que_mutex := Dropped\<rparr>), w)"
  by (cases "next_addr w") (simp_all add: recv_msg_list_destroy_def queue_rep_def)

end
