(* ===== verification/Wait_Set.thy ===== *)
theory Wait_Set
  imports Message_Queue
begin

section \<open>Wait sets and wait conditions\<close>

text \<open>
  The wait set object of \<open>rmw_wait.c\<close> and the condition functions of
  \<open>zenoh_pico_condition.c\<close>.  A condition variable is modelled by the number of signals sent to it, so
  that a sleeping thread can see whether it was woken.
\<close>

record ZenohPicoWaitSetData = data_obj +
  condition_variable :: nat
  ws_condition_mutex :: mutex
  ws_triggered :: bool
  ws_context :: "addr option"

text \<open>
  The \<open>data\<close> member of a guard condition handle is a pointer to guard condition data; one place in
  the code stores the address of a function there instead.
\<close>

record ZenohPicoGuardConditionData =
  gc_condition_mutex :: mutex
  gc_triggered :: bool
  gc_wait_set_data :: "addr option"

record wait_mem = msg_mem +
  wait_sets :: "addr \<rightharpoonup> ZenohPicoWaitSetData"
  guards :: "addr \<rightharpoonup> ZenohPicoGuardConditionData"

interpretation wait_set_heap: typed_heap wait_sets "\<lambda>h w. w\<lparr>wait_sets := h\<rparr>"
  by unfold_locales auto

text \<open>A handle that the interface gives out: allocated storage with identifier and data pointer.\<close>

record rmw_handle =
  hdl :: addr
  implementation_identifier :: "string option"
  data :: "addr option"

type_synonym rmw_wait_set_t = rmw_handle

subsection \<open>The lock and the flag of a wait set\<close>

definition on_wait_set ::
  "addr option \<Rightarrow> 'a wait_mem_scheme \<Rightarrow> (ZenohPicoWaitSetData \<Rightarrow> ZenohPicoWaitSetData res) \<Rightarrow> 'a wait_mem_scheme res" where
  "on_wait_set p w f = andthen (deref (wait_sets w) p) (\<lambda>s. andthen (f s) (\<lambda>s.
     Inr (w\<lparr>wait_sets := (wait_sets w)(the p \<mapsto> s)\<rparr>)))"

definition wait_condition_lock :: "addr option \<Rightarrow> 'a wait_mem_scheme \<Rightarrow> 'a wait_mem_scheme res" where
  "wait_condition_lock p w =
     on_wait_set p w (\<lambda>s. andthen (z_mutex_lock (ws_condition_mutex s)) (\<lambda>m. Inr (s\<lparr>ws_condition_mutex := m\<rparr>)))"

definition wait_condition_unlock :: "addr option \<Rightarrow> 'a wait_mem_scheme \<Rightarrow> 'a wait_mem_scheme res" where
  "wait_condition_unlock p w =
     on_wait_set p w (\<lambda>s. andthen (z_mutex_unlock (ws_condition_mutex s)) (\<lambda>m. Inr (s\<lparr>ws_condition_mutex := m\<rparr>)))"

definition wait_condition_signal :: "addr option \<Rightarrow> 'a wait_mem_scheme \<Rightarrow> 'a wait_mem_scheme res" where
  "wait_condition_signal p w = on_wait_set p w (\<lambda>s. Inr (s\<lparr>condition_variable := Suc (condition_variable s)\<rparr>))"

definition wait_condition_triggered :: "addr option \<Rightarrow> bool \<Rightarrow> 'a wait_mem_scheme \<Rightarrow> 'a wait_mem_scheme res" where
  "wait_condition_triggered p value w = on_wait_set p w (\<lambda>s. Inr (s\<lparr>ws_triggered := value\<rparr>))"

lemma on_wait_set_Inr [simp]:
  "wait_sets w a = Some s \<Longrightarrow> on_wait_set (Some a) w f = andthen (f s) (\<lambda>s. Inr (w\<lparr>wait_sets := (wait_sets w)(a \<mapsto> s)\<rparr>))"
  by (simp add: on_wait_set_def)

lemma on_wait_set_dangling [simp]: "wait_sets w a = None \<Longrightarrow> on_wait_set (Some a) w f = Inl UseAfterFree"
  by (simp add: on_wait_set_def)

lemmas wait_set_ops = wait_condition_lock_def wait_condition_unlock_def wait_condition_signal_def wait_condition_triggered_def

subsection \<open>Wait conditions of queues\<close>

text \<open>
  \<open>ZenohPicoWaitCondition\<close> collects three pointers into its owner; here it carries the values behind
  them, and the owner writes the changed values back.
\<close>

record ZenohPicoWaitCondition =
  condition_mutex :: mutex
  msg_queue :: "ReceiveMessageDataList option"
  wait_set_data_ptr :: "addr option"

definition zenoh_pico_condition_trigger ::
  "ZenohPicoWaitCondition \<Rightarrow> 'a wait_mem_scheme \<Rightarrow> (ZenohPicoWaitCondition \<times> 'a wait_mem_scheme) res" where
  "zenoh_pico_condition_trigger cond w =
     andthen (z_mutex_lock (condition_mutex cond)) (\<lambda>m. let cond = cond\<lparr>condition_mutex := m\<rparr> in
     andthen (if wait_set_data_ptr cond \<noteq> None then
         (let p = wait_set_data_ptr cond in
          andthen (wait_condition_lock p w) (\<lambda>w.
          andthen (wait_condition_triggered p True w) (\<lambda>w.
          andthen (wait_condition_signal p w) (\<lambda>w.
          wait_condition_unlock p w))))
       else Inr w) (\<lambda>w.
     andthen (z_mutex_unlock (condition_mutex cond)) (\<lambda>m. Inr (cond\<lparr>condition_mutex := m\<rparr>, w))))"

definition zenoh_pico_condition_check_and_attach ::
  "addr option \<Rightarrow> ZenohPicoWaitCondition \<Rightarrow> (bool \<times> ZenohPicoWaitCondition) res" where
  "zenoh_pico_condition_check_and_attach ws cond =
     andthen (z_mutex_lock (condition_mutex cond)) (\<lambda>m. let cond = cond\<lparr>condition_mutex := m\<rparr> in
     andthen (recv_msg_list_empty (msg_queue cond)) (\<lambda>(empty, q). let cond = cond\<lparr>msg_queue := q\<rparr> in
     if \<not> empty then andthen (z_mutex_unlock (condition_mutex cond)) (\<lambda>m. Inr (True, cond\<lparr>condition_mutex := m\<rparr>))
     else let cond = cond\<lparr>wait_set_data_ptr := ws\<rparr> in
       andthen (z_mutex_unlock (condition_mutex cond)) (\<lambda>m. Inr (False, cond\<lparr>condition_mutex := m\<rparr>))))"

definition zenoh_pico_condition_detach_and_queue_is_empty ::
  "ZenohPicoWaitCondition \<Rightarrow> (bool \<times> ZenohPicoWaitCondition) res" where
  "zenoh_pico_condition_detach_and_queue_is_empty cond =
     andthen (z_mutex_lock (condition_mutex cond)) (\<lambda>m. let cond = cond\<lparr>condition_mutex := m, wait_set_data_ptr := None\<rparr> in
     andthen (recv_msg_list_empty (msg_queue cond)) (\<lambda>(empty, q). let cond = cond\<lparr>msg_queue := q\<rparr> in
     andthen (z_mutex_unlock (condition_mutex cond)) (\<lambda>m. Inr (empty, cond\<lparr>condition_mutex := m\<rparr>))))"

text \<open>
  \<open>z_condvar_timewait\<close>: the absolute time until which the thread sleeps, from the clock and the
  relative timeout, both in seconds and nanoseconds; the nanoseconds are added in a \<open>uint64_t\<close>.
\<close>

definition timewait_deadline :: "nat \<times> nat \<Rightarrow> nat \<times> nat \<Rightarrow> nat \<times> nat" where
  "timewait_deadline now timeout =
     (let n = (snd now + snd timeout) mod 2 ^ 64 in (fst now + fst timeout + n div 1000000000, n mod 1000000000))"

text \<open>
  The deadline of a timed wait. As long as the nanosecond fields do not overflow 64 bits the
  deadline is normalised (its nanoseconds are below one second) and lies exactly the timeout after the
  current time, also when the timeout's nanosecond field holds more than a second.
\<close>

theorem timewait_deadline_exact:
  assumes "snd now + snd timeout < 2 ^ 64"
  shows "snd (timewait_deadline now timeout) < 1000000000 \<and>
    fst (timewait_deadline now timeout) * 1000000000 + snd (timewait_deadline now timeout) =
      (fst now * 1000000000 + snd now) + (fst timeout * 1000000000 + snd timeout)"
proof -
  let ?n = "snd now + snd timeout"
  have m: "?n mod 2 ^ 64 = ?n" using assms by (rule mod_less)
  have "?n div 1000000000 * 1000000000 + ?n mod 1000000000 = ?n" by (rule div_mult_mod_eq)
  then show ?thesis
    unfolding timewait_deadline_def Let_def m fst_conv snd_conv add_mult_distrib by linarith
qed

theorem timewait_deadline_exact_witness:
  "timewait_deadline (10, 999999999) (0, 2500000000) = (13, 499999999)"
  using timewait_deadline_exact [of "(10, 999999999)" "(0, 2500000000)"] by (simp add: timewait_deadline_def)

subsection \<open>Lemmas\<close>

definition signalled :: "ZenohPicoWaitSetData \<Rightarrow> ZenohPicoWaitSetData" where
  "signalled s = s\<lparr>ws_triggered := True, condition_variable := Suc (condition_variable s)\<rparr>"

definition ws_idle :: "'a wait_mem_scheme \<Rightarrow> addr \<Rightarrow> ZenohPicoWaitSetData \<Rightarrow> bool" where
  "ws_idle w a s \<longleftrightarrow> wait_sets w a = Some s \<and> ws_condition_mutex s = Unlocked"

lemma trigger_attached:
  assumes "condition_mutex cond = Unlocked" and "wait_set_data_ptr cond = Some a" and "ws_idle w a s"
  shows "zenoh_pico_condition_trigger cond w = Inr (cond, w\<lparr>wait_sets := (wait_sets w)(a \<mapsto> signalled s)\<rparr>)"
  using assms by (cases cond; cases s) (simp add: zenoh_pico_condition_trigger_def wait_set_ops ws_idle_def signalled_def)

lemma trigger_detached:
  assumes "condition_mutex cond = Unlocked" and "wait_set_data_ptr cond = None"
  shows "zenoh_pico_condition_trigger cond w = Inr (cond, w)"
  using assms by (cases cond) (simp add: zenoh_pico_condition_trigger_def)

lemma trigger_dangling:
  assumes "condition_mutex cond = Unlocked" and "wait_set_data_ptr cond = Some a" and "wait_sets w a = None"
  shows "zenoh_pico_condition_trigger cond w = Inl UseAfterFree"
  using assms by (simp add: zenoh_pico_condition_trigger_def wait_set_ops Let_def)

lemma attach_queue:
  assumes "condition_mutex cond = Unlocked" and "msg_queue cond = Some l" and "queue_rep h l as"
  shows "zenoh_pico_condition_check_and_attach ws cond =
    Inr (as \<noteq> [], if as = [] then cond\<lparr>wait_set_data_ptr := ws\<rparr> else cond)"
  using assms by (cases cond) (auto simp: zenoh_pico_condition_check_and_attach_def empty_rep)

lemma detach_queue:
  assumes "condition_mutex cond = Unlocked" and "msg_queue cond = Some l" and "queue_rep h l as"
  shows "zenoh_pico_condition_detach_and_queue_is_empty cond = Inr (as = [], cond\<lparr>wait_set_data_ptr := None\<rparr>)"
  using assms by (cases cond) (auto simp: zenoh_pico_condition_detach_and_queue_is_empty_def empty_rep)

subsection \<open>Wait set objects\<close>

definition zero_wait_set :: ZenohPicoWaitSetData where
  "zero_wait_set = \<lparr>ref = 0, lock = Unlocked, condition_variable = 0, ws_condition_mutex = Unlocked,
     ws_triggered = False, ws_context = None\<rparr>"

definition zenoh_pico_generate_wait_set_data ::
  "addr option \<Rightarrow> 'a wait_mem_scheme \<Rightarrow> (addr option \<times> 'a wait_mem_scheme) res" where
  "zenoh_pico_generate_wait_set_data context w =
     (case ZenohPicoDataGenerate zero_wait_set (wait_sets w) w of
        (None, h, w) \<Rightarrow> Inr (None, w\<lparr>wait_sets := h\<rparr>)
      | (Some a, h, w) \<Rightarrow>
          andthen (deref h (Some a)) (\<lambda>s.
            Inr (Some a, w\<lparr>wait_sets := h(a \<mapsto> s\<lparr>ws_condition_mutex := Unlocked, condition_variable := 0,
              ws_triggered := False, ws_context := context\<rparr>)\<rparr>)))"

definition zenoh_pico_destroy_wait_set_data :: "addr option \<Rightarrow> 'a wait_mem_scheme \<Rightarrow> (bool \<times> 'a wait_mem_scheme) res" where
  "zenoh_pico_destroy_wait_set_data p w =
     andthen (ZenohPicoDataRelease (wait_sets w) p) (\<lambda>(last, h).
       if last then
         andthen (deref h p) (\<lambda>s.
         andthen (ZenohPicoDataDestroy (h(the p \<mapsto> s\<lparr>ws_condition_mutex := Dropped\<rparr>)) p) (\<lambda>h.
           Inr (True, w\<lparr>wait_sets := h\<rparr>)))
       else Inr (True, w\<lparr>wait_sets := h\<rparr>))"

text \<open>
  A context is given by its address and implementation identifier.  When the second allocation
  fails the handle is not freed.
\<close>

definition rmw_create_wait_set ::
  "(addr \<times> string option) option \<Rightarrow> nat \<Rightarrow> 'a wait_mem_scheme \<Rightarrow> (rmw_wait_set_t option \<times> 'a wait_mem_scheme) res" where
  "rmw_create_wait_set context max_conditions w =
     (case context of None \<Rightarrow> Inr (None, w) | Some (c, ident) \<Rightarrow>
      if \<not> identifiers_match ident then Inr (None, w)
      else (case z_malloc w of
          (None, w) \<Rightarrow> Inr (None, w)
        | (Some a, w) \<Rightarrow>
            let w = buf_put a [] w in
            andthen (zenoh_pico_generate_wait_set_data (Some c) w) (\<lambda>(d, w).
              if d = None then Inr (None, w)
              else Inr (Some \<lparr>hdl = a, implementation_identifier = Some rmw_get_implementation_identifier, data = d\<rparr>, w))))"

definition rmw_destroy_wait_set :: "rmw_wait_set_t option \<Rightarrow> 'a wait_mem_scheme \<Rightarrow> (rmw_ret_t \<times> 'a wait_mem_scheme) res" where
  "rmw_destroy_wait_set wait_set w =
     (case wait_set of None \<Rightarrow> Inr (RMW_RET_INVALID_ARGUMENT, w) | Some s \<Rightarrow>
      if data s = None then Inr (RMW_RET_INVALID_ARGUMENT, w)
      else if \<not> identifiers_match (implementation_identifier s) then Inr (RMW_RET_INCORRECT_RMW_IMPLEMENTATION, w)
      else andthen (zenoh_pico_destroy_wait_set_data (data s) w) (\<lambda>(_, w).
           andthen (z_free (Some (hdl s)) w) (\<lambda>w. Inr (RMW_RET_OK, w))))"

text \<open>
  Wait sets are given back completely. With memory, rmw_create_wait_set for a context of this
  implementation returns a handle that rmw_destroy_wait_set accepts, and destroying it frees both the handle
  and the wait set object: every heap is as before. When only the handle can be allocated, create answers null
  and the handle stays allocated.
\<close>

theorem wait_set_roundtrip:
  assumes "identifiers_match ident" and "\<not> oom (env w) (next_addr w)"
    and "bufs w (next_addr w) = None" and "wait_sets w (Suc (next_addr w)) = None"
  shows "andthen (rmw_create_wait_set (Some (c, ident)) n w) (\<lambda>(s, w). if s = None then Inr (-1, w) else rmw_destroy_wait_set s w) =
    Inr (if oom (env w) (Suc (next_addr w))
         then (-1, w\<lparr>next_addr := next_addr w + 2, bufs := (bufs w)(next_addr w \<mapsto> [])\<rparr>)
         else (RMW_RET_OK, w\<lparr>next_addr := next_addr w + 2\<rparr>))"
  using assms
  by (simp add: rmw_create_wait_set_def z_malloc_def buf_put_def zenoh_pico_generate_wait_set_data_def ZenohPicoDataGenerate_def
      data_obj_init_def zero_wait_set_def Let_def rmw_destroy_wait_set_def identifiers_match_def[of "Some _"]
      zenoh_pico_destroy_wait_set_data_def ZenohPicoDataRelease_def ZenohPicoDataRefDec_def fun_upd_idem)

definition small_wait_mem :: wait_mem where
  "small_wait_mem = msg_mem.extend small_msg_mem \<lparr>wait_sets = Map.empty, guards = Map.empty\<rparr>"

theorem wait_set_roundtrip_witness:
  "\<exists>w'. andthen (rmw_create_wait_set (Some (7, None)) 3 small_wait_mem)
      (\<lambda>(s, w). if s = None then Inr (-1, w) else rmw_destroy_wait_set s w) = Inr (RMW_RET_OK, w') \<and> wait_sets w' = Map.empty"
  using wait_set_roundtrip [of None small_wait_mem 7 3]
  by (simp add: identifiers_match_def small_wait_mem_def small_msg_mem_def small_mem_def small_env_def
      msg_mem.defs ent_mem.defs mem.defs)

subsection \<open>What rmw_wait needs of a waitable object\<close>

text \<open>
  \<open>rmw_wait\<close> treats queues, guard conditions and event managers alike: attach the wait set unless
  the object is ready, later detach it and ask again.  The contract: attaching answers
  readiness and only attaches an object that is not ready; detaching answers readiness and
  leaves no wait set behind; neither changes readiness.
\<close>

locale waitable =
  fixes wf :: "'s \<Rightarrow> bool"
    and ready :: "'s \<Rightarrow> bool"
    and attached :: "'s \<Rightarrow> addr option"
    and attach :: "addr \<Rightarrow> 's \<Rightarrow> (bool \<times> 's) res"
    and detach :: "'s \<Rightarrow> (bool \<times> 's) res"
  assumes attach_law: "wf s \<Longrightarrow> \<exists>s'. attach a s = Inr (ready s, s') \<and> wf s' \<and> ready s' = ready s \<and>
      attached s' = (if ready s then attached s else Some a)"
    and detach_law: "wf s \<Longrightarrow> \<exists>s'. detach s = Inr (ready s, s') \<and> wf s' \<and> ready s' = ready s \<and> attached s' = None"
begin

lemma attach_detach:
  assumes "wf s"
  shows "\<exists>s1 s2. attach a s = Inr (ready s, s1) \<and> detach s1 = Inr (ready s, s2) \<and>
     wf s2 \<and> ready s2 = ready s \<and> attached s2 = None"
proof -
  obtain s1 where s1: "attach a s = Inr (ready s, s1)" "wf s1" "ready s1 = ready s" using attach_law [OF assms] by blast
  then show ?thesis using detach_law [OF s1(2)] by auto
qed

text \<open>Whatever happened between, when the object is ready at detachment the caller is told so.\<close>

lemma never_missed:
  assumes "wf s" and "attach a s = Inr (False, s1)" and "wf s1'" and "ready s1'"
  shows "\<exists>s2. detach s1' = Inr (True, s2) \<and> attached s2 = None"
  using detach_law [OF assms(3)] assms(4) by auto

end

definition queue_of :: "msg_heap \<Rightarrow> ZenohPicoWaitCondition \<Rightarrow> addr list \<Rightarrow> bool" where
  "queue_of h cond as \<longleftrightarrow> condition_mutex cond = Unlocked \<and> (\<exists>l. msg_queue cond = Some l \<and> queue_rep h l as)"

definition condition_wf :: "ZenohPicoWaitCondition \<Rightarrow> bool" where
  "condition_wf cond \<longleftrightarrow> (\<exists>h as. queue_of h cond as)"

definition condition_ready :: "ZenohPicoWaitCondition \<Rightarrow> bool" where
  "condition_ready cond \<longleftrightarrow> (case msg_queue cond of None \<Rightarrow> False | Some l \<Rightarrow> que_count l \<noteq> 0)"

definition condition_detach :: "ZenohPicoWaitCondition \<Rightarrow> (bool \<times> ZenohPicoWaitCondition) res" where
  "condition_detach cond = andthen (zenoh_pico_condition_detach_and_queue_is_empty cond) (\<lambda>(empty, c). Inr (\<not> empty, c))"

lemma condition_ready_rep: "msg_queue cond = Some l \<Longrightarrow> queue_rep h l as \<Longrightarrow> condition_ready cond = (as \<noteq> [])"
  by (simp add: condition_ready_def queue_rep_def)

interpretation queue_waitable: waitable condition_wf condition_ready wait_set_data_ptr
  "\<lambda>a. zenoh_pico_condition_check_and_attach (Some a)" condition_detach
proof
  fix s a assume "condition_wf s"
  then obtain h l as where q: "condition_mutex s = Unlocked" "msg_queue s = Some l" "queue_rep h l as"
    by (auto simp: condition_wf_def queue_of_def)
  have "condition_ready (s\<lparr>wait_set_data_ptr := p\<rparr>) = condition_ready s" for p by (simp add: condition_ready_def)
  moreover have "condition_wf (s\<lparr>wait_set_data_ptr := p\<rparr>)" for p using q by (auto simp: condition_wf_def queue_of_def)
  moreover have "condition_wf s" using q by (auto simp: condition_wf_def queue_of_def)
  ultimately show "\<exists>s'. zenoh_pico_condition_check_and_attach (Some a) s = Inr (condition_ready s, s') \<and> condition_wf s' \<and>
      condition_ready s' = condition_ready s \<and> wait_set_data_ptr s' = (if condition_ready s then wait_set_data_ptr s else Some a)"
    using attach_queue [OF q, of "Some a"] condition_ready_rep [OF q(2,3)] by simp
next
  fix s assume "condition_wf s"
  then obtain h l as where q: "condition_mutex s = Unlocked" "msg_queue s = Some l" "queue_rep h l as"
    by (auto simp: condition_wf_def queue_of_def)
  have "condition_ready (s\<lparr>wait_set_data_ptr := p\<rparr>) = condition_ready s" for p by (simp add: condition_ready_def)
  moreover have "condition_wf (s\<lparr>wait_set_data_ptr := p\<rparr>)" for p using q by (auto simp: condition_wf_def queue_of_def)
  ultimately show "\<exists>s'. condition_detach s = Inr (condition_ready s, s') \<and> condition_wf s' \<and>
      condition_ready s' = condition_ready s \<and> wait_set_data_ptr s' = None"
    using detach_queue [OF q] condition_ready_rep [OF q(2,3)] by (simp add: condition_detach_def)
qed

end
