(* ===== verification/Guard_Condition.thy ===== *)
theory Guard_Condition
  imports Wait_Set
begin

section \<open>Guard conditions\<close>

text \<open>
  \<open>rmw_guard_condition.c\<close>.  Guard condition data has its own mutex, a flag and the wait set that
  waits for it.  The functions work on one object; \<open>on_guard\<close> applies them to the object a
  pointer refers to.  A pointer that holds the address of a function is not data: locking the mutex it
  seems to have writes into code.
\<close>

datatype guard_ptr = GuardData addr | FunctionAddress

record rmw_guard_condition_t =
  gh_hdl :: addr
  gh_identifier :: "string option"
  gh_data :: "guard_ptr option"

definition on_guard ::
  "guard_ptr option \<Rightarrow> 'a wait_mem_scheme
     \<Rightarrow> (ZenohPicoGuardConditionData \<Rightarrow> 'a wait_mem_scheme \<Rightarrow> ('r \<times> ZenohPicoGuardConditionData \<times> 'a wait_mem_scheme) res)
     \<Rightarrow> ('r \<times> 'a wait_mem_scheme) res" where
  "on_guard p w f = (case p of None \<Rightarrow> Inl NullDeref | Some FunctionAddress \<Rightarrow> Inl BadPointer
     | Some (GuardData a) \<Rightarrow> andthen (deref (guards w) (Some a)) (\<lambda>d. andthen (f d w) (\<lambda>(r, d, w).
         Inr (r, w\<lparr>guards := (guards w)(a \<mapsto> d)\<rparr>))))"

lemma on_guard_simps [simp]:
  "on_guard None w f = Inl NullDeref" "on_guard (Some FunctionAddress) w f = Inl BadPointer"
  "guards w a = Some d \<Longrightarrow> on_guard (Some (GuardData a)) w f =
     andthen (f d w) (\<lambda>(r, d, w). Inr (r, w\<lparr>guards := (guards w)(a \<mapsto> d)\<rparr>))"
  by (simp_all add: on_guard_def)

text \<open>The flag of the waiting set is raised under its lock, but its condition variable is not signalled.\<close>

definition guard_trigger ::
  "ZenohPicoGuardConditionData \<Rightarrow> 'a wait_mem_scheme \<Rightarrow> (unit \<times> ZenohPicoGuardConditionData \<times> 'a wait_mem_scheme) res" where
  "guard_trigger d w =
     andthen (z_mutex_lock (gc_condition_mutex d)) (\<lambda>m. let d = d\<lparr>gc_condition_mutex := m, gc_triggered := True\<rparr> in
     andthen (if gc_wait_set_data d \<noteq> None then
         (let p = gc_wait_set_data d in
          andthen (wait_condition_lock p w) (\<lambda>w.
          andthen (on_wait_set p w (\<lambda>s. Inr (s\<lparr>ws_triggered := True\<rparr>))) (\<lambda>w.
          wait_condition_unlock p w)))
       else Inr w) (\<lambda>w.
     andthen (z_mutex_unlock (gc_condition_mutex d)) (\<lambda>m. Inr ((), d\<lparr>gc_condition_mutex := m\<rparr>, w))))"

definition guard_condition_trigger :: "guard_ptr option \<Rightarrow> 'a wait_mem_scheme \<Rightarrow> (unit \<times> 'a wait_mem_scheme) res" where
  "guard_condition_trigger p w = on_guard p w guard_trigger"

definition guard_attach ::
  "addr option \<Rightarrow> ZenohPicoGuardConditionData \<Rightarrow> (bool \<times> ZenohPicoGuardConditionData) res" where
  "guard_attach ws d =
     andthen (z_mutex_lock (gc_condition_mutex d)) (\<lambda>m. let d = d\<lparr>gc_condition_mutex := m\<rparr> in
     if gc_triggered d then andthen (z_mutex_unlock (gc_condition_mutex d)) (\<lambda>m. Inr (True, d\<lparr>gc_condition_mutex := m\<rparr>))
     else let d = (if ws \<noteq> None then d\<lparr>gc_wait_set_data := ws\<rparr> else d) in
       andthen (z_mutex_unlock (gc_condition_mutex d)) (\<lambda>m. Inr (False, d\<lparr>gc_condition_mutex := m\<rparr>)))"

definition guard_condition_check_and_attach ::
  "guard_ptr option \<Rightarrow> addr option \<Rightarrow> 'a wait_mem_scheme \<Rightarrow> (bool \<times> 'a wait_mem_scheme) res" where
  "guard_condition_check_and_attach p ws w =
     on_guard p w (\<lambda>d w. andthen (guard_attach ws d) (\<lambda>(r, d). Inr (r, d, w)))"

definition guard_detach :: "ZenohPicoGuardConditionData \<Rightarrow> (bool \<times> ZenohPicoGuardConditionData) res" where
  "guard_detach d =
     andthen (z_mutex_lock (gc_condition_mutex d)) (\<lambda>m. let d = d\<lparr>gc_condition_mutex := m\<rparr>;
       value = gc_triggered d; d = d\<lparr>gc_wait_set_data := None\<rparr> in
     andthen (z_mutex_unlock (gc_condition_mutex d)) (\<lambda>m. Inr (value, d\<lparr>gc_condition_mutex := m\<rparr>)))"

definition guard_condition_detach_and_is_trigger_set ::
  "guard_ptr option \<Rightarrow> 'a wait_mem_scheme \<Rightarrow> (bool \<times> 'a wait_mem_scheme) res" where
  "guard_condition_detach_and_is_trigger_set p w =
     on_guard p w (\<lambda>d w. andthen (guard_detach d) (\<lambda>(r, d). Inr (r, d, w)))"

subsection \<open>Objects and handles\<close>

definition zenoh_pico_guard_condition_data :: "'a wait_mem_scheme \<Rightarrow> addr option \<times> 'a wait_mem_scheme" where
  "zenoh_pico_guard_condition_data w =
     (case z_malloc w of (None, w) \<Rightarrow> (None, w)
      | (Some a, w) \<Rightarrow> (Some a, w\<lparr>guards := (guards w)(a \<mapsto>
          \<lparr>gc_condition_mutex = Unlocked, gc_triggered = False, gc_wait_set_data = None\<rparr>)\<rparr>))"

text \<open>The mutex is dropped before the pointer is tested for null.\<close>

definition zenoh_pico_destroy_guard_condition_data ::
  "guard_ptr option \<Rightarrow> 'a wait_mem_scheme \<Rightarrow> (bool \<times> 'a wait_mem_scheme) res" where
  "zenoh_pico_destroy_guard_condition_data p w =
     (case p of None \<Rightarrow> Inl NullDeref | Some FunctionAddress \<Rightarrow> Inl BadPointer
      | Some (GuardData a) \<Rightarrow> andthen (deref (guards w) (Some a)) (\<lambda>_.
          Inr (True, w\<lparr>guards := (guards w)(a := None)\<rparr>)))"

definition rmw_create_guard_condition ::
  "'a wait_mem_scheme \<Rightarrow> rmw_guard_condition_t option \<times> 'a wait_mem_scheme" where
  "rmw_create_guard_condition w =
     (case z_malloc w of (None, w) \<Rightarrow> (None, w)
      | (Some a, w) \<Rightarrow>
          (case zenoh_pico_guard_condition_data (buf_put a [] w) of
             (None, w) \<Rightarrow> (None, w)
           | (Some d, w) \<Rightarrow> (Some \<lparr>gh_hdl = a, gh_identifier = Some rmw_get_implementation_identifier,
               gh_data = Some (GuardData d)\<rparr>, w)))"

definition rmw_destroy_guard_condition ::
  "rmw_guard_condition_t option \<Rightarrow> 'a wait_mem_scheme \<Rightarrow> (rmw_ret_t \<times> 'a wait_mem_scheme) res" where
  "rmw_destroy_guard_condition g w =
     (case g of None \<Rightarrow> Inr (RMW_RET_INVALID_ARGUMENT, w) | Some g \<Rightarrow>
        andthen (if gh_data g \<noteq> None then zenoh_pico_destroy_guard_condition_data (gh_data g) w else Inr (True, w)) (\<lambda>(_, w).
        andthen (z_free (Some (gh_hdl g)) w) (\<lambda>w. Inr (RMW_RET_OK, w))))"

definition rmw_trigger_guard_condition ::
  "rmw_guard_condition_t option \<Rightarrow> 'a wait_mem_scheme \<Rightarrow> (rmw_ret_t \<times> 'a wait_mem_scheme) res" where
  "rmw_trigger_guard_condition g w =
     (case g of None \<Rightarrow> Inr (RMW_RET_INVALID_ARGUMENT, w) | Some g \<Rightarrow>
      if \<not> identifiers_match (gh_identifier g) then Inr (RMW_RET_INCORRECT_RMW_IMPLEMENTATION, w)
      else if gh_data g = None then Inr (RMW_RET_INVALID_ARGUMENT, w)
      else andthen (guard_condition_trigger (gh_data g) w) (\<lambda>(_, w). Inr (RMW_RET_OK, w)))"

subsection \<open>Guard conditions are waitable\<close>

definition guard_wf :: "ZenohPicoGuardConditionData \<Rightarrow> bool" where
  "guard_wf d \<longleftrightarrow> gc_condition_mutex d = Unlocked"

lemma guard_attach_wf:
  assumes "guard_wf d"
  shows "guard_attach ws d = Inr (gc_triggered d,
    if gc_triggered d \<or> ws = None then d else d\<lparr>gc_wait_set_data := ws\<rparr>)"
  using assms by (cases d) (simp add: guard_attach_def guard_wf_def Let_def)

lemma guard_detach_wf: "guard_wf d \<Longrightarrow> guard_detach d = Inr (gc_triggered d, d\<lparr>gc_wait_set_data := None\<rparr>)"
  by (cases d) (simp add: guard_detach_def guard_wf_def Let_def)

interpretation guard_waitable: waitable guard_wf gc_triggered gc_wait_set_data "\<lambda>a. guard_attach (Some a)" guard_detach
  by unfold_locales (simp_all add: guard_attach_wf guard_detach_wf, simp_all add: guard_wf_def)

lemma guard_trigger_attached:
  assumes "guard_wf d" and "gc_wait_set_data d = Some a" and "ws_idle w a s"
  shows "guard_trigger d w = Inr ((), d\<lparr>gc_triggered := True\<rparr>, w\<lparr>wait_sets := (wait_sets w)(a \<mapsto> s\<lparr>ws_triggered := True\<rparr>)\<rparr>)"
  using assms by (cases d; cases s) (simp add: guard_trigger_def guard_wf_def ws_idle_def wait_set_ops)

lemma guard_trigger_detached:
  "guard_wf d \<Longrightarrow> gc_wait_set_data d = None \<Longrightarrow> guard_trigger d w = Inr ((), d\<lparr>gc_triggered := True\<rparr>, w)"
  by (cases d) (simp add: guard_trigger_def guard_wf_def)

text \<open>
  Triggering a guard condition never wakes a sleeper. rmw_trigger_guard_condition on a guard condition
  that a wait set waits for answers OK and raises the flags of the guard condition and of the wait
  set, but leaves the number of signals on the wait set's condition variable as it was: a thread that
  already sleeps in rmw_wait is not woken by it.
\<close>

theorem trigger_guard_sends_no_signal:
  assumes "identifiers_match (gh_identifier g)" and "gh_data g = Some (GuardData a)" and "guards w a = Some d"
    and "guard_wf d" and "gc_wait_set_data d = Some b" and "ws_idle w b s"
  shows "\<exists>w' s'. rmw_trigger_guard_condition (Some g) w = Inr (RMW_RET_OK, w') \<and>
     map_option gc_triggered (guards w' a) = Some True \<and> wait_sets w' b = Some s' \<and>
     ws_triggered s' \<and> condition_variable s' = condition_variable s"
  using assms by (simp add: rmw_trigger_guard_condition_def guard_condition_trigger_def guard_trigger_attached)

definition waiting_guard_mem :: wait_mem where
  "waiting_guard_mem = small_wait_mem\<lparr>next_addr := 10,
     wait_sets := [4 \<mapsto> zero_wait_set\<lparr>ref := 1\<rparr>],
     guards := [5 \<mapsto> \<lparr>gc_condition_mutex = Unlocked, gc_triggered = False, gc_wait_set_data = Some 4\<rparr>]\<rparr>"

theorem trigger_guard_sends_no_signal_witness:
  "\<exists>w' s'. rmw_trigger_guard_condition (Some \<lparr>gh_hdl = 3, gh_identifier = None, gh_data = Some (GuardData 5)\<rparr>) waiting_guard_mem
      = Inr (RMW_RET_OK, w') \<and> wait_sets w' 4 = Some s' \<and> ws_triggered s' \<and> condition_variable s' = 0"
  using trigger_guard_sends_no_signal [of "\<lparr>gh_hdl = 3, gh_identifier = None, gh_data = Some (GuardData 5)\<rparr>" 5 waiting_guard_mem
      "\<lparr>gc_condition_mutex = Unlocked, gc_triggered = False, gc_wait_set_data = Some 4\<rparr>" 4 "zero_wait_set\<lparr>ref := 1\<rparr>"]
  by (auto simp: identifiers_match_def waiting_guard_mem_def guard_wf_def ws_idle_def zero_wait_set_def)

fun wait_rounds :: "nat \<Rightarrow> addr \<Rightarrow> ZenohPicoGuardConditionData \<Rightarrow> (bool list \<times> ZenohPicoGuardConditionData) res" where
  "wait_rounds 0 ws d = Inr ([], d)"
| "wait_rounds (Suc n) ws d =
     andthen (guard_attach (Some ws) d) (\<lambda>(skip, d).
     andthen (guard_detach d) (\<lambda>(value, d).
     andthen (wait_rounds n ws d) (\<lambda>(rs, d). Inr ((skip \<and> value) # rs, d))))"

text \<open>
  A triggered guard condition stays triggered. Once triggered, a guard condition is reported as ready by
  every later attach and detach round of rmw_wait: nothing in the code lowers its flag, so each
  round returns at once without attaching the wait set.
\<close>

theorem triggered_guard_never_resets:
  assumes "guard_wf d" and "guard_trigger d w = Inr ((), d', w')"
  shows "\<exists>d''. wait_rounds n ws d' = Inr (replicate n True, d'') \<and> gc_triggered d''"
proof -
  have step: "\<exists>d''. wait_rounds n ws e = Inr (replicate n True, d'') \<and> gc_triggered d''"
    if "guard_wf e" "gc_triggered e" for e
    using that
  proof (induction n arbitrary: e)
    case (Suc n)
    obtain e1 e2 where e: "guard_attach (Some ws) e = Inr (True, e1)" "guard_detach e1 = Inr (True, e2)" "guard_wf e2" "gc_triggered e2"
      using guard_waitable.attach_detach [OF Suc.prems(1), of ws] Suc.prems(2) by auto
    then show ?case using Suc.IH [OF e(3,4)] by auto
  qed simp
  have t: "d' = d\<lparr>gc_triggered := True\<rparr>"
    using assms by (auto simp: guard_trigger_def guard_wf_def andthen_eq_Inr Let_def)
  show ?thesis by (rule step) (use assms(1) t in \<open>simp_all add: guard_wf_def\<close>)
qed

theorem triggered_guard_never_resets_witness:
  "\<exists>d'. wait_rounds 3 4 \<lparr>gc_condition_mutex = Unlocked, gc_triggered = True, gc_wait_set_data = None\<rparr> = Inr (replicate 3 True, d')"
proof -
  let ?d = "\<lparr>gc_condition_mutex = Unlocked, gc_triggered = False, gc_wait_set_data = None\<rparr>"
  have "guard_wf ?d" by (simp add: guard_wf_def)
  moreover have "guard_trigger ?d waiting_guard_mem =
      Inr ((), \<lparr>gc_condition_mutex = Unlocked, gc_triggered = True, gc_wait_set_data = None\<rparr>, waiting_guard_mem)"
    by (simp add: guard_trigger_def)
  ultimately show ?thesis using triggered_guard_never_resets [of ?d waiting_guard_mem _ _ 3 4] by blast
qed

end
