(* ===== verification/Event_Manager.thy ===== *)
theory Event_Manager
  imports Guard_Condition
begin

section \<open>Event managers and user callbacks\<close>

text \<open>
  \<open>rmw_event.c\<close> without the entry points that need a publisher, subscription or service.  A
  \<open>DataEventManager\<close> is a member of those objects; the functions take and return it.  The table of
  supported events is empty, and the loops over it are compiled out because the macro
  \<open>EVENT_TABLE_SIZE\<close> is defined.  User callbacks are numbers; a call is recorded in the trace.
\<close>

datatype rmw_event_type_t =
    LIVELINESS_CHANGED | REQUESTED_DEADLINE_MISSED | REQUESTED_QOS_INCOMPATIBLE | MESSAGE_LOST
  | SUBSCRIPTION_INCOMPATIBLE_TYPE | SUBSCRIPTION_MATCHED | LIVELINESS_LOST | OFFERED_DEADLINE_MISSED
  | OFFERED_QOS_INCOMPATIBLE | PUBLISHER_INCOMPATIBLE_TYPE | PUBLICATION_MATCHED | EVENT_INVALID

record EventStatus =
  total_count :: nat
  total_count_change :: nat
  current_count :: nat
  current_count_change :: nat
  changed :: bool

record DataEventManager =
  ev_mutex :: mutex
  callback :: "nat option"
  user_data :: "nat option"
  unread_count :: nat
  event_status :: "EventStatus list"
  ev_condition_mutex :: mutex
  ev_wait_set_data :: "addr option"

text \<open>\<open>_support_event[]\<close> has no element.\<close>

definition support_event :: "rmw_event_type_t list" where
  "support_event = []"

definition support_event_type :: "rmw_event_type_t \<Rightarrow> int" where
  "support_event_type type = -1"

definition take_event_status :: "DataEventManager \<Rightarrow> rmw_event_type_t \<Rightarrow> nat option" where
  "take_event_status m type = (let index = support_event_type type in if index < 0 then None else Some (nat index))"

definition upd_status :: "nat \<Rightarrow> (EventStatus \<Rightarrow> EventStatus) \<Rightarrow> DataEventManager \<Rightarrow> DataEventManager res" where
  "upd_status i f m = (if i < length (event_status m)
     then Inr (m\<lparr>event_status := (event_status m)[i := f (event_status m ! i)]\<rparr>) else Inl OutOfBounds)"

definition locked :: "(DataEventManager \<Rightarrow> ('r \<times> DataEventManager) res) \<Rightarrow> DataEventManager \<Rightarrow> ('r \<times> DataEventManager) res" where
  "locked f m = andthen (z_mutex_lock (ev_mutex m)) (\<lambda>l. andthen (f (m\<lparr>ev_mutex := l\<rparr>)) (\<lambda>(r, m).
     andthen (z_mutex_unlock (ev_mutex m)) (\<lambda>l. Inr (r, m\<lparr>ev_mutex := l\<rparr>))))"

definition add_rmw_zenoh_pico_event_total ::
  "rmw_event_type_t \<Rightarrow> bool \<Rightarrow> DataEventManager \<Rightarrow> (unit \<times> DataEventManager) res" where
  "add_rmw_zenoh_pico_event_total type change = locked (\<lambda>m.
     (case take_event_status m type of None \<Rightarrow> Inr ((), m)
      | Some i \<Rightarrow> andthen (upd_status i (\<lambda>s. s\<lparr>total_count := total_count s + 1,
            total_count_change := total_count_change s + (if change then 1 else 0), changed := True\<rparr>) m) (\<lambda>m. Inr ((), m))))"

definition add_rmw_zenoh_pico_event_current ::
  "rmw_event_type_t \<Rightarrow> bool \<Rightarrow> DataEventManager \<Rightarrow> (unit \<times> DataEventManager) res" where
  "add_rmw_zenoh_pico_event_current type change = locked (\<lambda>m.
     (case take_event_status m type of None \<Rightarrow> Inr ((), m)
      | Some i \<Rightarrow> andthen (upd_status i (\<lambda>s. s\<lparr>current_count := current_count s + 1,
            current_count_change := current_count_change s + (if change then 1 else 0), changed := True\<rparr>) m) (\<lambda>m. Inr ((), m))))"

definition is_rmw_zenoh_pico_event_changed ::
  "rmw_event_type_t \<Rightarrow> DataEventManager \<Rightarrow> (bool \<times> DataEventManager) res" where
  "is_rmw_zenoh_pico_event_changed type = locked (\<lambda>m.
     (case take_event_status m type of None \<Rightarrow> Inr (False, m)
      | Some i \<Rightarrow> if i < length (event_status m)
          then (if changed (event_status m ! i)
                then andthen (upd_status i (\<lambda>s. s\<lparr>changed := False\<rparr>) m) (\<lambda>m. Inr (True, m)) else Inr (False, m))
          else Inl OutOfBounds))"

definition event_condition_check :: "DataEventManager \<Rightarrow> (bool \<times> DataEventManager) res" where
  "event_condition_check m = Inr (False, m)"

definition event_condition_trigger :: "DataEventManager \<Rightarrow> 'a wait_mem_scheme \<Rightarrow> (DataEventManager \<times> 'a wait_mem_scheme) res" where
  "event_condition_trigger m w =
     andthen (zenoh_pico_condition_trigger
       \<lparr>condition_mutex = ev_condition_mutex m, msg_queue = None, wait_set_data_ptr = ev_wait_set_data m\<rparr> w) (\<lambda>(cond, w).
     Inr (m\<lparr>ev_condition_mutex := condition_mutex cond, ev_wait_set_data := wait_set_data_ptr cond\<rparr>, w))"

definition event_condition_check_and_attach :: "addr option \<Rightarrow> DataEventManager \<Rightarrow> (bool \<times> DataEventManager) res" where
  "event_condition_check_and_attach ws m =
     andthen (z_mutex_lock (ev_condition_mutex m)) (\<lambda>l. let m = m\<lparr>ev_condition_mutex := l\<rparr> in
     andthen (event_condition_check m) (\<lambda>(found, m).
       if found then andthen (z_mutex_unlock (ev_condition_mutex m)) (\<lambda>l. Inr (True, m\<lparr>ev_condition_mutex := l\<rparr>))
       else let m = m\<lparr>ev_wait_set_data := ws\<rparr> in
         andthen (z_mutex_unlock (ev_condition_mutex m)) (\<lambda>l. Inr (False, m\<lparr>ev_condition_mutex := l\<rparr>))))"

definition event_condition_detach_and_queue_is_empty :: "DataEventManager \<Rightarrow> (bool \<times> DataEventManager) res" where
  "event_condition_detach_and_queue_is_empty m =
     andthen (z_mutex_lock (ev_condition_mutex m)) (\<lambda>l. let m = m\<lparr>ev_condition_mutex := l, ev_wait_set_data := None\<rparr> in
     andthen (event_condition_check m) (\<lambda>(found, m).
     andthen (z_mutex_unlock (ev_condition_mutex m)) (\<lambda>l. Inr (\<not> found, m\<lparr>ev_condition_mutex := l\<rparr>))))"

subsection \<open>User callbacks\<close>

text \<open>
  \<open>memset(event_status, 0, sizeof(EventStatus))\<close> on the array of length zero writes zeros behind the array, where
  the condition mutex and then the pointer to the wait set stand.  An \<open>EventStatus\<close> is four words and a flag padded to
  a fifth; the mutex, aligned at most like a word, takes its size rounded up to words before the pointer.  So which members are cleared
  depends on the layout: the mutex, or a part of it, whose zero image counts as unlocked; the pointer too when the
  mutex is shorter than five words; and memory behind the manager when both together are shorter, which is a fault.
\<close>

definition status_size :: "c_layout \<Rightarrow> nat" where
  "status_size a = 5 * word_bytes a"

definition mutex_size :: "c_layout \<Rightarrow> nat" where
  "mutex_size a = (mutex_bytes a + word_bytes a - 1) div word_bytes a * word_bytes a"

definition clear_event_status :: "c_layout \<Rightarrow> DataEventManager \<Rightarrow> DataEventManager res" where
  "clear_event_status a m =
     (if status_size a \<le> mutex_size a then Inr (m\<lparr>ev_condition_mutex := Unlocked\<rparr>)
      else if status_size a \<le> mutex_size a + word_bytes a then Inr (m\<lparr>ev_condition_mutex := Unlocked, ev_wait_set_data := None\<rparr>)
      else Inl OutOfBounds)"

definition data_callback_init :: "c_layout \<Rightarrow> DataEventManager \<Rightarrow> DataEventManager res" where
  "data_callback_init a m =
     clear_event_status a (m\<lparr>ev_mutex := Unlocked, callback := None, user_data := None, unread_count := 0\<rparr>)"

definition call_user :: "nat option \<Rightarrow> nat option \<Rightarrow> nat \<Rightarrow> 'a mem_scheme \<Rightarrow> 'a mem_scheme res" where
  "call_user cb ud n w = (case cb of None \<Rightarrow> Inl NullCall | Some c \<Rightarrow> Inr (znote (UserCallback c ud n) w))"

definition data_callback_set ::
  "nat option \<Rightarrow> nat option \<Rightarrow> DataEventManager \<Rightarrow> 'a mem_scheme \<Rightarrow> (DataEventManager \<times> 'a mem_scheme) res" where
  "data_callback_set ud cb m w =
     andthen (z_mutex_lock (ev_mutex m)) (\<lambda>l. let m = m\<lparr>ev_mutex := l\<rparr> in
     andthen (if cb \<noteq> None
              then andthen (if unread_count m \<noteq> 0
                    then andthen (call_user (callback m) (user_data m) (unread_count m) w) (\<lambda>w.
                         andthen (clear_event_status (layout (env w)) (m\<lparr>unread_count := 0\<rparr>)) (\<lambda>m. Inr (m, w)))
                    else Inr (m, w)) (\<lambda>(m, w). Inr (m\<lparr>user_data := ud, callback := cb\<rparr>, w))
              else Inr (m\<lparr>user_data := None, callback := None\<rparr>, w)) (\<lambda>(m, w).
     andthen (z_mutex_unlock (ev_mutex m)) (\<lambda>l. Inr (m\<lparr>ev_mutex := l\<rparr>, w))))"

definition data_callback_trigger :: "DataEventManager \<Rightarrow> 'a mem_scheme \<Rightarrow> (DataEventManager \<times> 'a mem_scheme) res" where
  "data_callback_trigger m w =
     andthen (z_mutex_lock (ev_mutex m)) (\<lambda>l. let m = m\<lparr>ev_mutex := l\<rparr> in
     andthen (if callback m \<noteq> None
              then andthen (call_user (callback m) (user_data m) 1 w) (\<lambda>w. Inr (m, w))
              else Inr (m\<lparr>unread_count := unread_count m + 1\<rparr>, w)) (\<lambda>(m, w).
     andthen (z_mutex_unlock (ev_mutex m)) (\<lambda>l. Inr (m\<lparr>ev_mutex := l\<rparr>, w))))"

subsection \<open>Event handles\<close>

record rmw_event_t =
  ev_identifier :: "string option"
  ev_data :: "DataEventManager option"
  ev_type :: rmw_event_type_t

definition rmw_event_type_is_supported :: "rmw_event_type_t \<Rightarrow> bool" where
  "rmw_event_type_is_supported type = (if support_event_type type = -1 then False else True)"

text \<open>What \<open>rmw_take_event\<close> copies for the kinds of event its switch handles.\<close>

definition copied_status :: "rmw_event_type_t \<Rightarrow> EventStatus \<Rightarrow> (nat \<times> nat \<times> (nat \<times> nat) option) option" where
  "copied_status type st =
     (if type \<in> {REQUESTED_QOS_INCOMPATIBLE, OFFERED_QOS_INCOMPATIBLE, MESSAGE_LOST,
                 SUBSCRIPTION_INCOMPATIBLE_TYPE, PUBLISHER_INCOMPATIBLE_TYPE}
      then Some (total_count st, total_count_change st, None)
      else if type \<in> {SUBSCRIPTION_MATCHED, PUBLICATION_MATCHED}
      then Some (total_count st, total_count_change st, Some (current_count st, current_count_change st))
      else None)"

definition rmw_take_event ::
  "rmw_event_t option \<Rightarrow> bool \<Rightarrow> bool
     \<Rightarrow> (rmw_ret_t \<times> (nat \<times> nat \<times> (nat \<times> nat) option) option \<times> bool \<times> rmw_event_t option) res" where
  "rmw_take_event event_handle has_info has_taken =
     (case event_handle of None \<Rightarrow> Inr (RMW_RET_INVALID_ARGUMENT, None, False, None) | Some e \<Rightarrow>
     (case ev_data e of None \<Rightarrow> Inr (RMW_RET_INVALID_ARGUMENT, None, False, Some e) | Some m \<Rightarrow>
      if \<not> has_info then Inr (RMW_RET_INVALID_ARGUMENT, None, False, Some e)
      else if \<not> has_taken then Inr (RMW_RET_INVALID_ARGUMENT, None, False, Some e)
      else (case take_event_status m (ev_type e) of
          None \<Rightarrow> Inr (RMW_RET_INCORRECT_RMW_IMPLEMENTATION, None, False, Some e)
        | Some i \<Rightarrow> if i < length (event_status m)
            then (case copied_status (ev_type e) (event_status m ! i) of
                None \<Rightarrow> Inr (RMW_RET_ERROR, None, False, Some e)
              | Some info \<Rightarrow> andthen (upd_status i (\<lambda>s. s\<lparr>changed := False\<rparr>) m) (\<lambda>m.
                  Inr (RMW_RET_OK, Some info, True, Some (e\<lparr>ev_data := Some m\<rparr>))))
            else Inl OutOfBounds)))"

text \<open>
  \<open>rmw_publisher_event_init\<close> and \<open>rmw_subscription_event_init\<close> differ only in the handle type; the
  manager is the member of the object behind the handle.
\<close>

definition rmw_publisher_event_init ::
  "rmw_event_t option \<Rightarrow> rmw_handle option \<Rightarrow> DataEventManager \<Rightarrow> rmw_event_type_t \<Rightarrow> rmw_ret_t \<times> rmw_event_t option" where
  "rmw_publisher_event_init rmw_event publisher mgr event_type =
     (case rmw_event of None \<Rightarrow> (RMW_RET_INVALID_ARGUMENT, None) | Some e \<Rightarrow>
     (case publisher of None \<Rightarrow> (RMW_RET_INVALID_ARGUMENT, Some e) | Some p \<Rightarrow>
      if implementation_identifier p = None then (RMW_RET_INVALID_ARGUMENT, Some e)
      else if data p = None then (RMW_RET_INVALID_ARGUMENT, Some e)
      else if support_event_type event_type < 0 then (RMW_RET_INCORRECT_RMW_IMPLEMENTATION, Some e)
      else if \<not> identifiers_match (implementation_identifier p) then (RMW_RET_INCORRECT_RMW_IMPLEMENTATION, Some e)
      else (RMW_RET_OK, Some (e\<lparr>ev_identifier := Some rmw_get_implementation_identifier, ev_data := Some mgr, ev_type := event_type\<rparr>))))"

definition rmw_subscription_event_init ::
  "rmw_event_t option \<Rightarrow> rmw_handle option \<Rightarrow> DataEventManager \<Rightarrow> rmw_event_type_t \<Rightarrow> rmw_ret_t \<times> rmw_event_t option" where
  "rmw_subscription_event_init rmw_event subscription mgr event_type =
     (case rmw_event of None \<Rightarrow> (RMW_RET_INVALID_ARGUMENT, None) | Some e \<Rightarrow>
     (case subscription of None \<Rightarrow> (RMW_RET_INVALID_ARGUMENT, Some e) | Some p \<Rightarrow>
      if implementation_identifier p = None then (RMW_RET_INVALID_ARGUMENT, Some e)
      else if data p = None then (RMW_RET_INVALID_ARGUMENT, Some e)
      else if support_event_type event_type < 0 then (RMW_RET_INCORRECT_RMW_IMPLEMENTATION, Some e)
      else if \<not> identifiers_match (implementation_identifier p) then (RMW_RET_INCORRECT_RMW_IMPLEMENTATION, Some e)
      else (RMW_RET_OK, Some (e\<lparr>ev_identifier := Some rmw_get_implementation_identifier, ev_data := Some mgr, ev_type := event_type\<rparr>))))"

definition rmw_event_set_callback ::
  "rmw_event_t option \<Rightarrow> nat option \<Rightarrow> nat option \<Rightarrow> 'a mem_scheme \<Rightarrow> (rmw_ret_t \<times> rmw_event_t option \<times> 'a mem_scheme) res" where
  "rmw_event_set_callback event cb ud w =
     (case event of None \<Rightarrow> Inr (RMW_RET_INVALID_ARGUMENT, None, w) | Some e \<Rightarrow>
     (case ev_data e of None \<Rightarrow> Inr (RMW_RET_INVALID_ARGUMENT, Some e, w) | Some m \<Rightarrow>
      andthen (data_callback_set ud cb m w) (\<lambda>(m, w). Inr (RMW_RET_OK, Some (e\<lparr>ev_data := Some m\<rparr>), w))))"

subsection \<open>Lemmas\<close>

definition mgr_ok :: "DataEventManager \<Rightarrow> bool" where
  "mgr_ok m \<longleftrightarrow> ev_mutex m = Unlocked \<and> ev_condition_mutex m = Unlocked"

text \<open>Layouts on which clearing the status does not leave the manager.\<close>

definition status_fits :: "c_layout \<Rightarrow> bool" where
  "status_fits a \<longleftrightarrow> status_size a \<le> mutex_size a + word_bytes a"

lemma status_fits_lp64 [simp]: "status_fits lp64"
  by (simp add: status_fits_def status_size_def mutex_size_def lp64_def)

definition cleared_mgr :: "DataEventManager \<Rightarrow> DataEventManager" where
  "cleared_mgr m = m\<lparr>ev_mutex := Unlocked, callback := None, user_data := None, unread_count := 0, ev_condition_mutex := Unlocked\<rparr>"

lemma data_callback_init_run:
  "status_fits a \<Longrightarrow> ev_wait_set_data m = None \<Longrightarrow> data_callback_init a m = Inr (cleared_mgr m)"
  "\<not> status_fits a \<Longrightarrow> data_callback_init a m = Inl OutOfBounds"
  by (cases m; simp add: data_callback_init_def clear_event_status_def status_fits_def cleared_mgr_def)+

lemma data_callback_init_ok: "data_callback_init a m = Inr m' \<Longrightarrow> mgr_ok m' \<and> unread_count m' = 0 \<and> callback m' = None"
  by (auto simp: data_callback_init_def clear_event_status_def mgr_ok_def split: if_splits)

lemma callback_trigger_simps:
  assumes "mgr_ok m"
  shows "callback m = Some c \<Longrightarrow> data_callback_trigger m w = Inr (m, znote (UserCallback c (user_data m) 1) w)"
    and "callback m = None \<Longrightarrow> data_callback_trigger m w = Inr (m\<lparr>unread_count := unread_count m + 1\<rparr>, w)"
  using assms by (cases m; simp add: data_callback_trigger_def mgr_ok_def call_user_def Let_def)+

lemma callback_set_simps:
  assumes "mgr_ok m"
  shows "data_callback_set ud None m w = Inr (m\<lparr>user_data := None, callback := None\<rparr>, w)"
    and "unread_count m = 0 \<Longrightarrow> data_callback_set ud (Some c) m w = Inr (m\<lparr>user_data := ud, callback := Some c\<rparr>, w)"
    and "unread_count m \<noteq> 0 \<Longrightarrow> callback m = None \<Longrightarrow> data_callback_set ud (Some c) m w = Inl NullCall"
  using assms by (cases m; simp add: data_callback_set_def mgr_ok_def call_user_def Let_def)+

lemma event_attach: "mgr_ok m \<Longrightarrow> event_condition_check_and_attach ws m = Inr (False, m\<lparr>ev_wait_set_data := ws\<rparr>)"
  by (cases m) (simp add: event_condition_check_and_attach_def event_condition_check_def mgr_ok_def)

lemma event_detach: "mgr_ok m \<Longrightarrow> event_condition_detach_and_queue_is_empty m = Inr (True, m\<lparr>ev_wait_set_data := None\<rparr>)"
  by (cases m) (simp add: event_condition_detach_and_queue_is_empty_def event_condition_check_def mgr_ok_def)

definition event_detach_ready :: "DataEventManager \<Rightarrow> (bool \<times> DataEventManager) res" where
  "event_detach_ready m = andthen (event_condition_detach_and_queue_is_empty m) (\<lambda>(empty, m). Inr (\<not> empty, m))"

interpretation event_waitable: waitable mgr_ok "\<lambda>_. False" ev_wait_set_data
  "\<lambda>a. event_condition_check_and_attach (Some a)" event_detach_ready
  by unfold_locales (simp_all add: event_attach event_detach event_detach_ready_def mgr_ok_def)

text \<open>The life of a manager: initialised once, then any sequence of triggers and callback changes.\<close>

inductive mgr_reach :: "DataEventManager \<Rightarrow> bool" where
  init: "data_callback_init a m = Inr m' \<Longrightarrow> mgr_reach m'"
| trigger: "mgr_reach m \<Longrightarrow> data_callback_trigger m (w :: mem) = Inr (m', w') \<Longrightarrow> mgr_reach m'"
| set_cb: "mgr_reach m \<Longrightarrow> data_callback_set ud cb m (w :: mem) = Inr (m', w') \<Longrightarrow> mgr_reach m'"

inductive_cases mgr_reach_cases: "mgr_reach m"

lemma mgr_reach_invariant:
  "mgr_reach m \<Longrightarrow> mgr_ok m \<and> (unread_count m \<noteq> 0 \<longrightarrow> callback m = None)"
proof (induction rule: mgr_reach.induct)
  case (init a m m')
  then show ?case using data_callback_init_ok by blast
next
  case (trigger m w m' w')
  then have ok: "mgr_ok m" by simp
  show ?case
  proof (cases "callback m")
    case None
    then show ?thesis using trigger callback_trigger_simps(2) [OF ok None, of w] by (auto simp: mgr_ok_def)
  next
    case (Some c)
    then show ?thesis using trigger callback_trigger_simps(1) [OF ok Some, of w] by (auto simp: mgr_ok_def)
  qed
next
  case (set_cb m ud cb w m' w')
  show ?case
  proof (cases cb)
    case None
    then show ?thesis using set_cb callback_set_simps(1) [of m ud w] by (auto simp: mgr_ok_def)
  next
    case (Some c)
    then have "unread_count m = 0" using set_cb callback_set_simps(3) [of m ud c w] by auto
    then show ?thesis using set_cb Some callback_set_simps(2) [of m ud c w] by (auto simp: mgr_ok_def)
  qed
qed

text \<open>
  Registering a callback after messages arrived crashes. In every state an event manager can reach,
  messages are only counted as unread while no callback is set; so data_callback_set with a callback either
  finds no unread messages and installs it, or calls the old callback, which is then always null. A callback
  set to null is always accepted.
\<close>

theorem callback_set_in_reachable_state:
  assumes "mgr_reach m"
  shows "data_callback_set ud (Some c) m w =
      (if unread_count m = 0 then Inr (m\<lparr>user_data := ud, callback := Some c\<rparr>, w) else Inl NullCall) \<and>
    data_callback_set ud None m w = Inr (m\<lparr>user_data := None, callback := None\<rparr>, w)"
  using mgr_reach_invariant [OF assms] callback_set_simps [of m] by auto

definition fresh_mgr :: DataEventManager where
  "fresh_mgr = \<lparr>ev_mutex = Unlocked, callback = None, user_data = None, unread_count = 0,
     event_status = [], ev_condition_mutex = Unlocked, ev_wait_set_data = None\<rparr>"

lemma fresh_mgr_reach: "mgr_reach fresh_mgr"
proof (rule mgr_reach.init)
  show "data_callback_init lp64 fresh_mgr = Inr fresh_mgr" by (simp add: data_callback_init_run cleared_mgr_def fresh_mgr_def)
qed

theorem callback_set_in_reachable_state_witness:
  "andthen (data_callback_trigger fresh_mgr small_mem) (\<lambda>(m, w). data_callback_set None (Some 1) m w) = Inl NullCall"
proof -
  let ?m = "fresh_mgr\<lparr>unread_count := 1\<rparr>"
  have t: "data_callback_trigger fresh_mgr small_mem = Inr (?m, small_mem)"
    using callback_trigger_simps(2) [of fresh_mgr small_mem] by (simp add: fresh_mgr_def mgr_ok_def)
  have "mgr_reach ?m" using fresh_mgr_reach t by (rule mgr_reach.trigger)
  then show ?thesis using callback_set_in_reachable_state [of ?m None 1 small_mem] by (simp add: t)
qed

text \<open>
  Every new message is either announced or counted. In a reachable state, data_callback_trigger never
  fails: with a callback it makes exactly one call with count one and the stored user data, without one it
  adds one to the unread count and calls nobody.
\<close>

theorem callback_trigger_counts:
  assumes "mgr_reach m"
  shows "\<exists>m' w'. data_callback_trigger m w = Inr (m', w') \<and>
    (case callback m of
       Some c \<Rightarrow> m' = m \<and> w' = w\<lparr>trace := UserCallback c (user_data m) 1 # trace w\<rparr>
     | None \<Rightarrow> m' = m\<lparr>unread_count := unread_count m + 1\<rparr> \<and> w' = w)"
  using mgr_reach_invariant [OF assms] callback_trigger_simps [of m] by (cases "callback m") (auto simp: znote_def)

theorem callback_trigger_counts_witness:
  "\<exists>m'. data_callback_trigger fresh_mgr small_mem = Inr (m', small_mem) \<and> unread_count m' = 1"
  using callback_trigger_counts [OF fresh_mgr_reach, of small_mem] by (simp add: fresh_mgr_def)

text \<open>
  No event is supported. For every event type and every event handle, event initialisation is
  refused, taking an event answers RMW_RET_INCORRECT_RMW_IMPLEMENTATION or an argument error and never
  hands anything out, and the code's event counters never change.
\<close>

theorem events_unsupported:
  "\<not> rmw_event_type_is_supported t \<and>
   fst (rmw_publisher_event_init e p mgr t) \<noteq> RMW_RET_OK \<and> fst (rmw_subscription_event_init e p mgr t) \<noteq> RMW_RET_OK \<and>
   (\<exists>r. rmw_take_event e i k = Inr (r, None, False, e) \<and> r \<in> {RMW_RET_INVALID_ARGUMENT, RMW_RET_INCORRECT_RMW_IMPLEMENTATION}) \<and>
   (let m = mgr\<lparr>ev_mutex := Unlocked\<rparr> in
      add_rmw_zenoh_pico_event_total t c m = Inr ((), m) \<and> add_rmw_zenoh_pico_event_current t c m = Inr ((), m) \<and>
      is_rmw_zenoh_pico_event_changed t m = Inr (False, m))"
  by (cases mgr) (auto simp: rmw_event_type_is_supported_def support_event_type_def rmw_publisher_event_init_def
      rmw_subscription_event_init_def rmw_take_event_def take_event_status_def add_rmw_zenoh_pico_event_total_def
      add_rmw_zenoh_pico_event_current_def is_rmw_zenoh_pico_event_changed_def locked_def Let_def split: option.splits)

end
