(* ===== verification/State.thy ===== *)
theory State
  imports Event_Manager
begin

section \<open>The state of the middleware\<close>

text \<open>
  The remaining data objects (session, transport parameters, nodes, subscriptions, publishers, and the
  one type that services and clients share), the handles the interface gives out, and the record
  \<open>rmw_mem\<close> that holds the heaps of all of them.  A declared zenoh entity (publisher, subscriber,
  queryable, liveliness token) is the key it was declared under, or \<open>None\<close> when it was never declared or
  has been moved away.
\<close>

subsection \<open>Data objects\<close>

text \<open>
  The configuration is the list of inserted keys and values; \<open>None\<close> once \<open>z_open\<close> or \<open>z_drop\<close> took it.
\<close>

type_synonym z_config = "(string \<times> string) list"

record ZenohPicoSession = data_obj +
  ss_enclave :: string
  ss_config :: "z_config option"
  enable_session :: bool
  graph_guard_condition :: rmw_guard_condition_t

record ZenohPicoTransportParams = data_obj +
  mode :: string
  connect_addr :: "char list"
  listen_addr :: "char list"
  mcast_addr :: "char list"
  serial_device :: "char list"

record ZenohPicoNodeData = data_obj +
  nd_id :: nat
  nd_liveliness_key :: string
  nd_token :: "string option"
  nd_session :: "addr option"
  nd_entity :: "addr option"

record ZenohPicoSubData = data_obj +
  sub_id :: nat
  sub_liveliness_key :: string
  sub_topic_key :: string
  sub_liveliness :: "string option"
  sub_topic :: "string option"
  sub_node :: "addr option"
  sub_entity :: "addr option"
  sub_qos_profile :: rmw_qos_profile_t
  sub_callbacks :: message_type_support_callbacks_t
  message_queue :: ReceiveMessageDataList
  sub_event_mgr :: DataEventManager
  sub_condition_mutex :: mutex
  sub_wait_set_data :: "addr option"

record ZenohPicoPubData = data_obj +
  pub_id :: nat
  pub_liveliness_key :: string
  pub_topic_key :: string
  pub_liveliness :: "string option"
  pub_topic :: "string option"
  pub_node :: "addr option"
  pub_entity :: "addr option"
  pub_callbacks :: message_type_support_callbacks_t
  pub_event_mgr :: DataEventManager
  pub_qos_profile :: rmw_qos_profile_t
  pub_mutex :: mutex
  pub_attachment :: zenoh_pico_attachemt_data

record ZenohPicoServiceData = data_obj +
  srv_id :: nat
  srv_liveliness_key :: string
  srv_topic_key :: string
  srv_liveliness :: "string option"
  srv_node :: "addr option"
  srv_entity :: "addr option"
  request_callback :: message_type_support_callbacks_t
  response_callback :: message_type_support_callbacks_t
  request_queue :: ReceiveMessageDataList
  response_queue :: ReceiveMessageDataList
  qable :: "string option"
  srv_event_mgr :: DataEventManager
  srv_condition_mutex :: mutex
  srv_wait_set_data :: "addr option"
  srv_attachment :: zenoh_pico_attachemt_data
  srv_qos_profile :: rmw_qos_profile_t
  srv_mutex :: mutex

subsection \<open>Handles and the whole state\<close>

text \<open>A context belongs to the caller; nodes point to it.\<close>

record rmw_context_t =
  ctx_instance_id :: nat
  ctx_identifier :: "string option"
  actual_domain_id :: nat
  impl :: "addr option"

record rmw_node_t = rmw_handle +
  node_name :: "addr option"
  node_namespace :: "addr option"
  node_context :: "addr option"

record rmw_endpoint_t = rmw_handle +
  topic_name :: "addr option"

type_synonym rmw_subscription_t = rmw_endpoint_t
type_synonym rmw_publisher_t = rmw_endpoint_t
type_synonym rmw_service_t = rmw_endpoint_t
type_synonym rmw_client_t = rmw_endpoint_t

record rmw_mem = wait_mem +
  contexts :: "addr \<rightharpoonup> rmw_context_t"
  sessions :: "addr \<rightharpoonup> ZenohPicoSession"
  transport_params :: "addr \<rightharpoonup> ZenohPicoTransportParams"
  node_datas :: "addr \<rightharpoonup> ZenohPicoNodeData"
  sub_datas :: "addr \<rightharpoonup> ZenohPicoSubData"
  pub_datas :: "addr \<rightharpoonup> ZenohPicoPubData"
  service_datas :: "addr \<rightharpoonup> ZenohPicoServiceData"

interpretation session_heap: typed_heap sessions "\<lambda>h w. w\<lparr>sessions := h\<rparr>"
  by unfold_locales auto

interpretation param_heap: typed_heap transport_params "\<lambda>h w. w\<lparr>transport_params := h\<rparr>"
  by unfold_locales auto

interpretation node_heap: typed_heap node_datas "\<lambda>h w. w\<lparr>node_datas := h\<rparr>"
  by unfold_locales auto

interpretation sub_heap: typed_heap sub_datas "\<lambda>h w. w\<lparr>sub_datas := h\<rparr>"
  by unfold_locales auto

interpretation pub_heap: typed_heap pub_datas "\<lambda>h w. w\<lparr>pub_datas := h\<rparr>"
  by unfold_locales auto

interpretation service_heap: typed_heap service_datas "\<lambda>h w. w\<lparr>service_datas := h\<rparr>"
  by unfold_locales auto

subsection \<open>Shared helpers\<close>

text \<open>
  \<open>zenoh_pico_string_clone\<close> copies a string into a new buffer and writes to it without testing the
  allocation.
\<close>

definition bytes_of :: "string \<Rightarrow> byte list" where
  "bytes_of s = map of_char s"

definition zenoh_pico_string_clone :: "string \<Rightarrow> 'a mem_scheme \<Rightarrow> (addr option \<times> 'a mem_scheme) res" where
  "zenoh_pico_string_clone s w = (case z_malloc w of (None, w) \<Rightarrow> Inl NullDeref
     | (Some a, w) \<Rightarrow> Inr (Some a, buf_put a (bytes_of s @ [0]) w))"

definition rmw_zenoh_pico_check_validate_name :: "string \<Rightarrow> 'a mem_scheme \<Rightarrow> bool" where
  "rmw_zenoh_pico_check_validate_name name w = valid_topic (env w) name"

text \<open>
  Undeclaring moves the entity out of its owner; undeclaring or dropping an entity that is not there does
  nothing.
\<close>

definition z_undeclare :: "string option \<Rightarrow> 'a mem_scheme \<Rightarrow> 'a mem_scheme" where
  "z_undeclare e w = (case e of None \<Rightarrow> w | Some k \<Rightarrow> znote (ZUndeclare k) w)"

lemma z_undeclare_simps [simp]: "z_undeclare None w = w" "z_undeclare (Some k) w = znote (ZUndeclare k) w"
  by (simp_all add: z_undeclare_def)

text \<open>\<open>declaration_liveliness\<close> in \<open>zenoh_pico_session.c\<close>: the token, when the declaration succeeded.\<close>

definition declaration_liveliness :: "string \<Rightarrow> 'a mem_scheme \<Rightarrow> (bool \<times> string option) \<times> 'a mem_scheme" where
  "declaration_liveliness key w = (case zcall (ZDeclareToken key) w of
     (ok, w) \<Rightarrow> ((ok, if ok then Some key else None), w))"

definition no_callbacks :: message_type_support_callbacks_t where
  "no_callbacks = \<lparr>message_namespace = None, message_name = None, get_serialized_size = \<lambda>_. 0,
     cdr_serialize = \<lambda>_ _. (False, []), cdr_deserialize = \<lambda>_. (False, [])\<rparr>"

definition zero_mgr :: DataEventManager where
  "zero_mgr = \<lparr>ev_mutex = Unlocked, callback = None, user_data = None, unread_count = 0, event_status = [],
     ev_condition_mutex = Unlocked, ev_wait_set_data = None\<rparr>"

subsection \<open>Well-formed states\<close>

text \<open>Every heap holds addresses below the allocation counter only, so new addresses are fresh in all of them.\<close>

definition rmw_ok :: "rmw_mem \<Rightarrow> bool" where
  "rmw_ok w \<longleftrightarrow> mem_ok w \<and> ent_ok w \<and>
     dom (msgs w) \<union> dom (wait_sets w) \<union> dom (guards w) \<union> dom (transport_params w) \<union> dom (node_datas w) \<union>
     dom (sub_datas w) \<union> dom (pub_datas w) \<union> dom (service_datas w) \<subseteq> {..<next_addr w}"

lemma below_fresh: "dom (h :: addr \<rightharpoonup> _) \<subseteq> {..<n} \<Longrightarrow> n \<le> a \<Longrightarrow> h a = None"
proof (rule ccontr)
  assume "dom h \<subseteq> {..<n}" and le: "n \<le> a" and "h a \<noteq> None"
  then have "a \<in> {..<n}" by blast
  with le show False by simp
qed

lemma mem_ok_below: "mem_ok w \<Longrightarrow> dom (bufs w) \<subseteq> {..<next_addr w}"
  by (auto simp: mem_ok_def)

lemma rmw_ok_fresh:
  assumes "rmw_ok w" and "next_addr w \<le> a"
  shows "bufs w a = None" "node_infos w a = None" "topic_infos w a = None" "entities w a = None" "msgs w a = None"
    "wait_sets w a = None" "guards w a = None" "transport_params w a = None" "node_datas w a = None"
    "sub_datas w a = None" "pub_datas w a = None" "service_datas w a = None"
  using assms by (simp_all add: rmw_ok_def ent_ok_def below_fresh [OF mem_ok_below] below_fresh [of _ "next_addr w"])

lemma rmw_ok_fresh_numeral:
  assumes "rmw_ok w"
  shows "bufs w (next_addr w + k) = None" "node_infos w (next_addr w + k) = None" "topic_infos w (next_addr w + k) = None"
    "entities w (next_addr w + k) = None" "msgs w (next_addr w + k) = None" "node_datas w (next_addr w + k) = None"
    "sub_datas w (next_addr w + k) = None" "pub_datas w (next_addr w + k) = None" "service_datas w (next_addr w + k) = None"
  using rmw_ok_fresh [OF assms] by simp_all

end
