(* ===== verification/Session.thy ===== *)
theory Session
  imports State
begin

section \<open>The zenoh session\<close>

text \<open>
  \<open>zenoh_pico_session.c\<close>.  There is one static session object, at the address \<open>zenohSession\<close>; contexts
  and nodes point to it and the reference count tells how many contexts use it.
\<close>

definition zenohSession :: addr where "zenohSession = 0"

definition zero_guard_handle :: rmw_guard_condition_t where
  "zero_guard_handle = \<lparr>gh_hdl = 0, gh_identifier = None, gh_data = None\<rparr>"

definition zero_session :: ZenohPicoSession where
  "zero_session = \<lparr>ref = 0, lock = Unlocked, ss_enclave = [], ss_config = None, enable_session = False,
     graph_guard_condition = zero_guard_handle\<rparr>"

text \<open>
  A session already in use is shared, whatever configuration is asked for.  A new one is zeroed after
  \<open>ZenohPicoDataGenerate\<close> initialised it, and the final \<open>RefClone\<close> counts its first user.  The data
  pointer of the graph guard condition is set to a function.
\<close>

definition zenoh_pico_generate_session ::
  "z_config \<Rightarrow> string option \<Rightarrow> rmw_mem \<Rightarrow> (addr option \<times> rmw_mem) res" where
  "zenoh_pico_generate_session config enclave w =
     andthen (deref (sessions w) (Some zenohSession)) (\<lambda>s.
       if ref s > 0 then
         andthen (ZenohPicoDataRefClone (sessions w) (Some zenohSession)) (\<lambda>(_, h).
           Inr (Some zenohSession, w\<lparr>sessions := h\<rparr>))
       else
         let s = s\<lparr>lock := Unlocked, ref := ref s + 1\<rparr>; s = zero_session;
             s = s\<lparr>ss_config := Some config\<rparr>;
             s = (case enclave of None \<Rightarrow> s
                  | Some e \<Rightarrow> s\<lparr>ss_enclave := copied (z_string_copy_from_str (copy_ok (env w)) e)\<rparr>);
             s = s\<lparr>graph_guard_condition := (graph_guard_condition s)\<lparr>
                   gh_identifier := Some rmw_get_implementation_identifier, gh_data := Some FunctionAddress\<rparr>\<rparr>;
             s = s\<lparr>enable_session := False\<rparr> in
         andthen (ZenohPicoDataRefClone ((sessions w)(zenohSession \<mapsto> s)) (Some zenohSession)) (\<lambda>(p, h).
           Inr (p, w\<lparr>sessions := h\<rparr>)))"

definition zenoh_pico_destroy_session :: "addr option \<Rightarrow> rmw_mem \<Rightarrow> (bool \<times> rmw_mem) res" where
  "zenoh_pico_destroy_session p w =
     (if p = None then Inr (False, w)
      else andthen (ZenohPicoDataRelease (sessions w) p) (\<lambda>(last, h). let w = w\<lparr>sessions := h\<rparr> in
        if last then
          andthen (deref (sessions w) p) (\<lambda>s.
            let w = (if enable_session s then znote ZStopLeaseTask (znote ZStopReadTask w) else w) in
          andthen (zenoh_pico_destroy_guard_condition_data (gh_data (graph_guard_condition s)) w) (\<lambda>(_, w).
            Inr (True, w\<lparr>sessions := (sessions w)(the p \<mapsto> s\<lparr>ss_config := None, ss_enclave := []\<rparr>)\<rparr>)))
        else Inr (True, w)))"

text \<open>\<open>return false\<close> on a null pointer is the value of \<open>RMW_RET_OK\<close>.  \<open>z_open\<close> takes the configuration.\<close>

definition session_connect :: "addr option \<Rightarrow> rmw_mem \<Rightarrow> (rmw_ret_t \<times> rmw_mem) res" where
  "session_connect p w =
     (if p = None then Inr (ret_of_bool False, w)
      else andthen (deref (sessions w) p) (\<lambda>s.
        if enable_session s then Inr (RMW_RET_OK, w)
        else (case zcall (ZOpen (ss_config s)) (w\<lparr>sessions := (sessions w)(the p \<mapsto> s\<lparr>ss_config := None\<rparr>)\<rparr>) of (opened, w) \<Rightarrow>
          if \<not> opened then Inr (RMW_RET_ERROR, w)
          else (case zcall ZStartReadTask w of (read_ok, w) \<Rightarrow>
               (case (if read_ok then zcall ZStartLeaseTask w else (False, w)) of (tasks_ok, w) \<Rightarrow>
                 if \<not> tasks_ok then Inr (RMW_RET_ERROR, w)
                 else Inr (RMW_RET_OK, w\<lparr>sessions :=
                        (sessions w)(the p \<mapsto> s\<lparr>ss_config := None, enable_session := True\<rparr>)\<rparr>))))))"

definition isEnableSession :: "addr option \<Rightarrow> rmw_mem \<Rightarrow> bool res" where
  "isEnableSession p w = andthen (deref (sessions w) p) (\<lambda>s. Inr (enable_session s))"

subsection \<open>Lemmas\<close>

text \<open>The state of a session that \<open>n\<close> contexts use.\<close>

definition used_session :: "nat \<Rightarrow> z_config \<Rightarrow> string \<Rightarrow> ZenohPicoSession" where
  "used_session n config enclave = \<lparr>ref = int n, lock = Unlocked, ss_enclave = enclave, ss_config = Some config,
     enable_session = False, graph_guard_condition = \<lparr>gh_hdl = 0, gh_identifier = Some rmw_get_implementation_identifier,
       gh_data = Some FunctionAddress\<rparr>\<rparr>"

definition session_free :: "rmw_mem \<Rightarrow> bool" where
  "session_free w \<longleftrightarrow> (\<exists>s. sessions w zenohSession = Some s \<and> ref s \<le> 0)"

definition with_session :: "ZenohPicoSession \<Rightarrow> rmw_mem \<Rightarrow> rmw_mem" where
  "with_session s w = w\<lparr>sessions := (sessions w)(zenohSession \<mapsto> s)\<rparr>"

lemma with_session_simps [simp]:
  "sessions (with_session s w) zenohSession = Some s"
  "with_session s (with_session t w) = with_session s w"
  "env (with_session s w) = env w" "trace (with_session s w) = trace w"
  by (simp_all add: with_session_def)

lemma generate_session_first:
  assumes "session_free w"
  shows "zenoh_pico_generate_session config (Some e) w = Inr (Some zenohSession,
    with_session (used_session 1 config (copied (z_string_copy_from_str (copy_ok (env w)) e))) w)"
  using assms
  by (auto simp: zenoh_pico_generate_session_def session_free_def Let_def ZenohPicoDataRefClone_def zero_session_def
      zero_guard_handle_def used_session_def with_session_def)

lemma generate_session_again:
  assumes "sessions w zenohSession = Some s" and "0 < ref s" and "lock s = Unlocked"
  shows "zenoh_pico_generate_session config e w = Inr (Some zenohSession, with_session (s\<lparr>ref := ref s + 1\<rparr>) w)"
  using assms RefClone_live [of "sessions w" zenohSession s]
  by (simp add: zenoh_pico_generate_session_def live_def with_session_def)

lemma destroy_session_shared:
  assumes "sessions w zenohSession = Some s" and "ref s \<noteq> 1" and "lock s = Unlocked"
  shows "zenoh_pico_destroy_session (Some zenohSession) w = Inr (True, with_session (s\<lparr>ref := ref s - 1\<rparr>) w)"
  using assms Release_live [of "sessions w" zenohSession s]
  by (simp add: zenoh_pico_destroy_session_def live_def with_session_def Let_def)

lemma destroy_session_last:
  assumes "sessions w zenohSession = Some s" and "ref s = 1" and "lock s = Unlocked"
    and "gh_data (graph_guard_condition s) = Some FunctionAddress"
  shows "zenoh_pico_destroy_session (Some zenohSession) w = Inl BadPointer"
  using assms Release_live [of "sessions w" zenohSession s]
  by (simp add: zenoh_pico_destroy_session_def live_def Let_def zenoh_pico_destroy_guard_condition_data_def)

fun session_users :: "(z_config \<times> string) list \<Rightarrow> rmw_mem \<Rightarrow> rmw_mem res" where
  "session_users [] w = Inr w"
| "session_users ((c, e) # us) w = andthen (zenoh_pico_generate_session c (Some e) w) (\<lambda>(_, w). session_users us w)"

fun session_leavers :: "nat \<Rightarrow> rmw_mem \<Rightarrow> rmw_mem res" where
  "session_leavers 0 w = Inr w"
| "session_leavers (Suc n) w = andthen (zenoh_pico_destroy_session (Some zenohSession) w) (\<lambda>(_, w). session_leavers n w)"

lemma session_users_more:
  assumes "sessions w zenohSession = Some (used_session (Suc n) c e)"
  shows "session_users us w = Inr (if us = [] then w else with_session (used_session (Suc n + length us) c e) w)"
  using assms
proof (induction us arbitrary: n w)
  case (Cons u us)
  let ?s = "used_session (Suc (Suc n)) c e"
  obtain c' e' where u: "u = (c', e')" by (cases u)
  have "zenoh_pico_generate_session c' (Some e') w = Inr (Some zenohSession, with_session ?s w)"
    using generate_session_again [OF Cons.prems, of c' "Some e'"] by (simp add: used_session_def)
  then show ?case using Cons.IH [of "with_session ?s w" "Suc n"] by (simp add: u)
qed simp

lemma session_leavers_some:
  assumes "sessions w zenohSession = Some (used_session (Suc n + k) c e)"
  shows "session_leavers k w = Inr (if k = 0 then w else with_session (used_session (Suc n) c e) w)"
  using assms
proof (induction k arbitrary: w)
  case (Suc k)
  have s: "sessions w zenohSession = Some (used_session (Suc (Suc n + k)) c e)" using Suc.prems by simp
  have "zenoh_pico_destroy_session (Some zenohSession) w = Inr (True, with_session (used_session (Suc n + k) c e) w)"
    using destroy_session_shared [OF s] by (simp add: used_session_def)
  then show ?case using Suc.IH [of "with_session (used_session (Suc n + k) c e) w"] by simp
qed simp

text \<open>
  One session for all contexts. From an unused session, any number of calls of
  zenoh_pico_generate_session hand out the one static object, with the configuration and enclave of the first
  caller (those of the others are ignored) and a count of the callers. All but the last
  zenoh_pico_destroy_session only count down; the last one hands the address of a function to the guard
  condition destructor, which drops a mutex inside the program's code.
\<close>

theorem session_shared_until_last:
  assumes "session_free w"
  shows "session_users ((c, e) # us) w =
      Inr (with_session (used_session (Suc (length us)) c (copied (z_string_copy_from_str (copy_ok (env w)) e))) w) \<and>
    andthen (session_users ((c, e) # us) w) (session_leavers (length us)) =
      Inr (with_session (used_session 1 c (copied (z_string_copy_from_str (copy_ok (env w)) e))) w) \<and>
    andthen (session_users ((c, e) # us) w) (session_leavers (Suc (length us))) = Inl BadPointer"
proof -
  let ?e = "copied (z_string_copy_from_str (copy_ok (env w)) e)"
  let ?w = "\<lambda>n. with_session (used_session n c ?e) w"
  have users: "session_users ((c, e) # us) w = Inr (?w (Suc (length us)))"
    using session_users_more [of "?w 1" 0 c ?e us] by (simp add: generate_session_first [OF assms])
  have leave: "session_leavers (length us) (?w (Suc (length us))) = Inr (?w 1)"
    using session_leavers_some [of "?w (Suc (length us))" 0 "length us" c ?e] by simp
  have split: "session_leavers (Suc k) v = andthen (session_leavers k v) (\<lambda>v.
      andthen (zenoh_pico_destroy_session (Some zenohSession) v) (\<lambda>(_, v). Inr v))" for k v
  proof (induction k arbitrary: v)
    case (Suc k)
    show ?case
    proof (cases "zenoh_pico_destroy_session (Some zenohSession) v")
      case (Inr r)
      then show ?thesis using Suc.IH [of "snd r"] by (cases r) simp
    qed simp
  qed (simp add: case_prod_unfold)
  have "zenoh_pico_destroy_session (Some zenohSession) (?w 1) = Inl BadPointer"
    by (rule destroy_session_last [of _ "used_session 1 c ?e"]) (simp_all add: used_session_def)
  then show ?thesis unfolding users andthen_Inr split leave by simp
qed

definition start_mem :: rmw_mem where
  "start_mem = wait_mem.extend small_wait_mem \<lparr>contexts = Map.empty, sessions = [zenohSession \<mapsto> zero_session],
     transport_params = Map.empty, node_datas = Map.empty, sub_datas = Map.empty, pub_datas = Map.empty,
     service_datas = Map.empty\<rparr>"

lemma start_mem_simps [simp]:
  "sessions start_mem = [zenohSession \<mapsto> zero_session]" "contexts start_mem = Map.empty"
  "transport_params start_mem = Map.empty" "node_datas start_mem = Map.empty" "sub_datas start_mem = Map.empty"
  "pub_datas start_mem = Map.empty" "service_datas start_mem = Map.empty"
  "env start_mem = small_env" "wait_sets start_mem = Map.empty" "guards start_mem = Map.empty" "msgs start_mem = Map.empty"
  "node_infos start_mem = Map.empty" "topic_infos start_mem = Map.empty" "entities start_mem = Map.empty"
  "trace start_mem = []"
  by (simp_all add: start_mem_def wait_mem.defs small_wait_mem_def small_msg_mem_def msg_mem.defs ent_mem.defs mem.defs
      small_mem_def)

lemma session_free_start: "session_free start_mem"
  by (simp add: session_free_def zero_session_def)

theorem session_shared_until_last_witness:
  "andthen (session_users [([], ''/''), ([(''mode'', ''peer'')], ''/other'')] start_mem) (session_leavers 2) = Inl BadPointer"
  using session_shared_until_last [OF session_free_start, of "[]" "''/''" "[([(''mode'', ''peer'')], ''/other'')]", THEN conjunct2, THEN conjunct2]
  by (simp only: numeral_2_eq_2 list.size add_0_right add_Suc_right add_0 plus_nat.simps One_nat_def)

text \<open>Every attempt to connect a closed session begins with \<open>z_open\<close> on what is left of its configuration.\<close>

lemma ex_prefix: "\<exists>cs. x # t = cs @ x # t" "\<exists>cs. a # x # t = cs @ x # t" "\<exists>cs. a # b # x # t = cs @ x # t"
  by (rule exI [of _ "[]"] exI [of _ "[a]"] exI [of _ "[a, b]"], simp)+

lemma connect_opens:
  assumes "sessions w zenohSession = Some s" and "\<not> enable_session s"
  shows "\<exists>r w' cs. session_connect (Some zenohSession) w = Inr (r, w') \<and> trace w' = cs @ ZOpen (ss_config s) # trace w"
  using assms by (simp add: session_connect_def zcall_def ex_prefix split: prod.splits)

text \<open>
  Opening the session. When zenoh opens the session and starts both tasks, session_connect answers OK and
  enables the session, and every further call answers OK without another call into zenoh. When opening or starting
  a task fails it answers an error, the session stays disabled and its configuration is gone, so the next
  attempt opens a session without configuration. A null session counts as connected.
\<close>

theorem session_connect_once:
  assumes "sessions w zenohSession = Some s" and "\<not> enable_session s"
  shows "session_connect None w = Inr (RMW_RET_OK, w) \<and>
    (\<exists>r w' s'. session_connect (Some zenohSession) w = Inr (r, w') \<and> sessions w' zenohSession = Some s' \<and>
       ss_config s' = None \<and> r = (if enable_session s' then RMW_RET_OK else RMW_RET_ERROR) \<and>
       (enable_session s' \<longleftrightarrow> zok (env w) (trace w) (ZOpen (ss_config s)) \<and>
          zok (env w) (ZOpen (ss_config s) # trace w) ZStartReadTask \<and>
          zok (env w) (ZStartReadTask # ZOpen (ss_config s) # trace w) ZStartLeaseTask) \<and>
       (if enable_session s' then session_connect (Some zenohSession) w' = Inr (RMW_RET_OK, w')
        else \<exists>r'' w'' cs. session_connect (Some zenohSession) w' = Inr (r'', w'') \<and> trace w'' = cs @ ZOpen None # trace w'))"
proof -
  let ?o = "zok (env w) (trace w) (ZOpen (ss_config s))"
  let ?r = "zok (env w) (ZOpen (ss_config s) # trace w) ZStartReadTask"
  let ?l = "zok (env w) (ZStartReadTask # ZOpen (ss_config s) # trace w) ZStartLeaseTask"
  show ?thesis
  proof (cases "?o \<and> ?r \<and> ?l")
    case True
    then show ?thesis using assms by (simp add: session_connect_def zcall_def ret_of_bool_def)
  next
    case False
    define v where "v = snd (case session_connect (Some zenohSession) w of Inr x \<Rightarrow> x)"
    have v: "session_connect (Some zenohSession) w = Inr (RMW_RET_ERROR, v)"
      "sessions v zenohSession = Some (s\<lparr>ss_config := None\<rparr>)"
      using False assms by (auto simp: v_def session_connect_def zcall_def)
    show ?thesis
      using connect_opens [OF v(2)] v False assms(2) by (simp add: session_connect_def [of None] ret_of_bool_def)
  qed
qed

theorem session_connect_once_witness:
  "\<exists>w' s'. session_connect (Some zenohSession) (with_session (used_session 1 [] ''/'') start_mem) = Inr (RMW_RET_OK, w') \<and>
     sessions w' zenohSession = Some s' \<and> enable_session s'"
proof -
  let ?w = "with_session (used_session 1 [] ''/'') start_mem"
  have s: "sessions ?w zenohSession = Some (used_session 1 [] ''/'')" by simp
  have "\<not> enable_session (used_session 1 [] ''/'')" by (simp add: used_session_def)
  note session_connect_once [OF s this, THEN conjunct2]
  then obtain r w' s' where "session_connect (Some zenohSession) ?w = Inr (r, w')" "sessions w' zenohSession = Some s'"
    "r = (if enable_session s' then RMW_RET_OK else RMW_RET_ERROR)" "enable_session s'"
    by (elim exE conjE) (simp add: small_env_def)
  then show ?thesis by auto
qed

end
