(* ===== verification/Init.thy ===== *)
theory Init
  imports Session
begin

section \<open>Options, initialisation and shutdown\<close>

text \<open>
  \<open>rmw_init.c\<close>.  The transport is chosen when the package is built; the static variables that the
  setters change start from the build configuration.  Both are the record \<open>init_statics\<close>.
\<close>

datatype transport = Serial | Unicast | Multicast

record init_statics =
  transport_type :: transport
  zenoh_id :: string
  pico_mode :: "string option"
  serial_dev :: string
  serial_param :: string
  uni_connect :: string
  uni_connect_port :: string
  uni_listen :: string
  uni_listen_port :: string
  mcast_address :: string
  mcast_port :: string
  mcast_dev :: string

definition MAX_INET_DEVICE :: nat where "MAX_INET_DEVICE = 50"
definition MAX_SERIAL_DEVICE :: nat where "MAX_SERIAL_DEVICE = 50"
definition Z_ZID_LENGTH :: nat where "Z_ZID_LENGTH = 16"
definition RMW_DEFAULT_DOMAIN_ID :: nat where "RMW_DEFAULT_DOMAIN_ID = 2 ^ 64 - 1"

subsection \<open>Static settings\<close>

definition rmw_zenoh_pico_set_mode :: "string option \<Rightarrow> init_statics \<Rightarrow> init_statics res" where
  "rmw_zenoh_pico_set_mode new_mode st = (case new_mode of None \<Rightarrow> Inl NullDeref
     | Some m \<Rightarrow> Inr (if m \<in> {''serial'', ''client'', ''peer''} then st\<lparr>pico_mode := Some m\<rparr> else st))"

definition rmw_zenoh_pico_get_mode :: "init_statics \<Rightarrow> string option" where
  "rmw_zenoh_pico_get_mode st = pico_mode st"

definition keep :: "string option \<Rightarrow> string \<Rightarrow> string" where
  "keep new old = (case new of None \<Rightarrow> old | Some s \<Rightarrow> s)"

definition rmw_zenoh_pico_set_serial_device :: "string option \<Rightarrow> string option \<Rightarrow> init_statics \<Rightarrow> init_statics" where
  "rmw_zenoh_pico_set_serial_device device param st =
     st\<lparr>serial_dev := keep device (serial_dev st), serial_param := keep param (serial_param st)\<rparr>"

definition rmw_zenoh_pico_set_unicast ::
  "string option \<Rightarrow> string option \<Rightarrow> string option \<Rightarrow> string option \<Rightarrow> init_statics \<Rightarrow> init_statics" where
  "rmw_zenoh_pico_set_unicast connect connect_port listen listen_port st =
     st\<lparr>uni_connect := keep connect (uni_connect st), uni_connect_port := keep connect_port (uni_connect_port st),
        uni_listen := keep listen (uni_listen st), uni_listen_port := keep listen_port (uni_listen_port st)\<rparr>"

definition rmw_zenoh_pico_set_mcast ::
  "string option \<Rightarrow> string option \<Rightarrow> string option \<Rightarrow> init_statics \<Rightarrow> init_statics" where
  "rmw_zenoh_pico_set_mcast mcast port dev st =
     st\<lparr>mcast_address := keep mcast (mcast_address st), mcast_port := keep port (mcast_port st),
        mcast_dev := keep dev (mcast_dev st)\<rparr>"

subsection \<open>Transport parameters\<close>

definition zero_params :: ZenohPicoTransportParams where
  "zero_params = \<lparr>ref = 0, lock = Unlocked, mode = [], connect_addr = replicate MAX_INET_DEVICE NUL,
     listen_addr = replicate MAX_INET_DEVICE NUL, mcast_addr = replicate MAX_INET_DEVICE NUL,
     serial_device = replicate MAX_SERIAL_DEVICE NUL\<rparr>"

definition zenoh_pico_generate_param :: "rmw_mem \<Rightarrow> addr option \<times> rmw_mem" where
  "zenoh_pico_generate_param w = (case ZenohPicoDataGenerate zero_params (transport_params w) w of
     (p, h, w) \<Rightarrow> (p, w\<lparr>transport_params := h\<rparr>))"

definition zenoh_pico_destroy_param :: "addr option \<Rightarrow> rmw_mem \<Rightarrow> (bool \<times> rmw_mem) res" where
  "zenoh_pico_destroy_param p w =
     andthen (ZenohPicoDataRelease (transport_params w) p) (\<lambda>(last, h).
       if last then andthen (ZenohPicoDataDestroy h p) (\<lambda>h. Inr (True, w\<lparr>transport_params := h\<rparr>))
       else Inr (True, w\<lparr>transport_params := h\<rparr>))"

text \<open>\<open>memcpy\<close> copies every field, the count and the lock included.\<close>

definition zenoh_pico_clone_param :: "addr option \<Rightarrow> addr option \<Rightarrow> rmw_mem \<Rightarrow> (bool \<times> rmw_mem) res" where
  "zenoh_pico_clone_param dst src w =
     (if dst = None \<or> src = None then Inr (False, w)
      else andthen (deref (transport_params w) src) (\<lambda>s. andthen (deref (transport_params w) dst) (\<lambda>_.
        Inr (True, w\<lparr>transport_params := (transport_params w)(the dst \<mapsto> s)\<rparr>))))"

text \<open>\<open>snprintf\<close> into the 256 byte buffer, the length test, and \<open>strcpy\<close> into the parameter.\<close>

definition strcpy_into :: "nat \<Rightarrow> string \<Rightarrow> char list res" where
  "strcpy_into n s = (if length (cstr s) < n then Inr (cstr s @ replicate (n - length (cstr s)) NUL) else Inl OutOfBounds)"

definition inet_address :: "string \<Rightarrow> char list option res" where
  "inet_address text =
     (let buf = take 255 text in
      if length (cstr buf) \<ge> MAX_INET_DEVICE - 1 then Inr None
      else andthen (strcpy_into MAX_INET_DEVICE buf) (\<lambda>b. Inr (Some b)))"

definition chosen_mode :: "string \<Rightarrow> init_statics \<Rightarrow> string" where
  "chosen_mode built_in st = (case pico_mode st of None \<Rightarrow> built_in | Some m \<Rightarrow> m)"

definition init_serial :: "init_statics \<Rightarrow> ZenohPicoTransportParams \<Rightarrow> (rmw_ret_t \<times> ZenohPicoTransportParams) res" where
  "init_serial st params =
     (let params = params\<lparr>mode := chosen_mode ''serial'' st, serial_device := replicate MAX_SERIAL_DEVICE NUL\<rparr> in
      if length (serial_dev st) + length (serial_param st) + 1 > MAX_SERIAL_DEVICE - 1
      then Inr (RMW_RET_INVALID_ARGUMENT, params)
      else andthen (strcpy_into MAX_SERIAL_DEVICE (take 255 (serial_dev st @ ''#'' @ serial_param st))) (\<lambda>b.
        Inr (RMW_RET_OK, params\<lparr>serial_device := b\<rparr>)))"

definition unicast_address :: "string \<Rightarrow> string \<Rightarrow> char list option res" where
  "unicast_address host port = (if port \<noteq> ''-1'' then inet_address (''tcp/'' @ host @ '':'' @ port)
     else Inr (Some (replicate MAX_INET_DEVICE NUL)))"

definition init_unicast :: "init_statics \<Rightarrow> ZenohPicoTransportParams \<Rightarrow> (rmw_ret_t \<times> ZenohPicoTransportParams) res" where
  "init_unicast st params =
     (let params = params\<lparr>mode := chosen_mode ''client'' st, connect_addr := replicate MAX_INET_DEVICE NUL\<rparr> in
      andthen (unicast_address (uni_connect st) (uni_connect_port st)) (\<lambda>c.
      (case c of None \<Rightarrow> Inr (RMW_RET_INVALID_ARGUMENT, params)
       | Some c \<Rightarrow> let params = params\<lparr>connect_addr := c, listen_addr := replicate MAX_INET_DEVICE NUL\<rparr> in
          andthen (unicast_address (uni_listen st) (uni_listen_port st)) (\<lambda>l.
          (case l of None \<Rightarrow> Inr (RMW_RET_INVALID_ARGUMENT, params)
           | Some l \<Rightarrow> Inr (RMW_RET_OK, params\<lparr>listen_addr := l\<rparr>))))))"

definition init_multicast :: "init_statics \<Rightarrow> ZenohPicoTransportParams \<Rightarrow> (rmw_ret_t \<times> ZenohPicoTransportParams) res" where
  "init_multicast st params =
     (let params = params\<lparr>mode := chosen_mode ''peer'' st, mcast_addr := replicate MAX_INET_DEVICE NUL\<rparr> in
      if mcast_port st \<noteq> ''-1''
      then andthen (inet_address (''udp/'' @ mcast_address st @ '':'' @ mcast_port st @ ''#iface='' @ mcast_dev st)) (\<lambda>b.
        (case b of None \<Rightarrow> Inr (RMW_RET_INVALID_ARGUMENT, params)
         | Some b \<Rightarrow> Inr (RMW_RET_OK, params\<lparr>mcast_addr := b\<rparr>)))
      else Inr (RMW_RET_OK, params))"

definition rmw_zenoh_pico_init_option ::
  "init_statics \<Rightarrow> ZenohPicoTransportParams \<Rightarrow> (rmw_ret_t \<times> ZenohPicoTransportParams) res" where
  "rmw_zenoh_pico_init_option st params = (case transport_type st of
     Serial \<Rightarrow> init_serial st params | Unicast \<Rightarrow> init_unicast st params | Multicast \<Rightarrow> init_multicast st params)"

subsection \<open>Init options\<close>

text \<open>The allocator counts only for being valid; the security options have one default.\<close>

record rmw_init_options_t =
  opt_instance_id :: nat
  opt_identifier :: "string option"
  opt_allocator_ok :: bool
  opt_enclave :: "string option"
  opt_domain_id :: nat
  opt_localhost_only :: int
  opt_impl :: "addr option"

definition rmw_init_options_init ::
  "init_statics \<Rightarrow> rmw_init_options_t option \<Rightarrow> bool \<Rightarrow> rmw_mem \<Rightarrow> (rmw_ret_t \<times> rmw_init_options_t option \<times> rmw_mem) res" where
  "rmw_init_options_init st init_options allocator_ok w =
     (case init_options of None \<Rightarrow> Inr (RMW_RET_INVALID_ARGUMENT, None, w) | Some opts \<Rightarrow>
      if \<not> allocator_ok then Inr (RMW_RET_INVALID_ARGUMENT, Some opts, w)
      else if opt_identifier opts \<noteq> None then Inr (RMW_RET_INVALID_ARGUMENT, Some opts, w)
      else let opts = opts\<lparr>opt_instance_id := 0, opt_identifier := Some rmw_get_implementation_identifier,
                 opt_allocator_ok := allocator_ok, opt_enclave := Some ''/'', opt_domain_id := 0, opt_localhost_only := 0\<rparr> in
        (case zenoh_pico_generate_param w of
           (None, w) \<Rightarrow> Inr (RMW_RET_ERROR, Some opts, w)
         | (Some a, w) \<Rightarrow>
             andthen (deref (transport_params w) (Some a)) (\<lambda>params.
             andthen (rmw_zenoh_pico_init_option st params) (\<lambda>(ret, params).
             let w = w\<lparr>transport_params := (transport_params w)(a \<mapsto> params)\<rparr> in
             if ret \<noteq> RMW_RET_OK then andthen (zenoh_pico_destroy_param (Some a) w) (\<lambda>(_, w). Inr (ret, Some opts, w))
             else Inr (RMW_RET_OK, Some (opts\<lparr>opt_impl := Some a\<rparr>), w)))))"

text \<open>The options are copied, pointer included, before the parameters of the copy are allocated.\<close>

definition rmw_init_options_copy ::
  "rmw_init_options_t option \<Rightarrow> rmw_init_options_t option \<Rightarrow> rmw_mem \<Rightarrow> (rmw_ret_t \<times> rmw_init_options_t option \<times> rmw_mem) res" where
  "rmw_init_options_copy src dst w =
     (case src of None \<Rightarrow> Inr (RMW_RET_INVALID_ARGUMENT, dst, w) | Some s \<Rightarrow>
     (case dst of None \<Rightarrow> Inr (RMW_RET_INVALID_ARGUMENT, None, w) | Some d \<Rightarrow>
      if \<not> identifiers_match (opt_identifier s) then Inr (RMW_RET_INCORRECT_RMW_IMPLEMENTATION, Some d, w)
      else if opt_identifier d \<noteq> None then Inr (RMW_RET_INVALID_ARGUMENT, Some d, w)
      else let d = s in
        if opt_impl s = None then Inr (RMW_RET_INVALID_ARGUMENT, Some d, w)
        else (case zenoh_pico_generate_param w of
            (None, w) \<Rightarrow> Inr (RMW_RET_ERROR, Some d, w)
          | (Some a, w) \<Rightarrow> andthen (zenoh_pico_clone_param (Some a) (opt_impl s) w) (\<lambda>(_, w).
              Inr (RMW_RET_OK, Some (d\<lparr>opt_impl := Some a\<rparr>), w)))))"

definition rmw_init_options_fini ::
  "rmw_init_options_t option \<Rightarrow> rmw_mem \<Rightarrow> (rmw_ret_t \<times> rmw_init_options_t option \<times> rmw_mem) res" where
  "rmw_init_options_fini init_options w =
     (case init_options of None \<Rightarrow> Inr (RMW_RET_INVALID_ARGUMENT, None, w) | Some opts \<Rightarrow>
      if \<not> opt_allocator_ok opts then Inr (RMW_RET_INVALID_ARGUMENT, Some opts, w)
      else if \<not> identifiers_match (opt_identifier opts) then Inr (RMW_RET_INCORRECT_RMW_IMPLEMENTATION, Some opts, w)
      else if opt_impl opts \<noteq> None
      then andthen (zenoh_pico_destroy_param (opt_impl opts) w) (\<lambda>(_, w). Inr (RMW_RET_OK, Some (opts\<lparr>opt_impl := None\<rparr>), w))
      else Inr (RMW_RET_OK, Some opts, w))"

subsection \<open>The zenoh configuration\<close>

text \<open>\<open>zp_config_insert\<close> may fail; a failure stops with the entries inserted so far.\<close>

definition zp_config_insert :: "string \<Rightarrow> string \<Rightarrow> z_config \<Rightarrow> 'a mem_scheme \<Rightarrow> bool \<times> z_config \<times> 'a mem_scheme" where
  "zp_config_insert key value config w = (case zcall (ZConfigInsert key value) w of
     (ok, w) \<Rightarrow> (ok, if ok then config @ [(key, value)] else config, w))"

fun config_inserts :: "(bool \<times> string \<times> string) list \<Rightarrow> z_config \<Rightarrow> 'a mem_scheme \<Rightarrow> rmw_ret_t \<times> z_config \<times> 'a mem_scheme" where
  "config_inserts [] config w = (RMW_RET_OK, config, w)"
| "config_inserts ((wanted, key, value) # rest) config w =
     (if \<not> wanted then config_inserts rest config w
      else (case zp_config_insert key value config w of (ok, config, w) \<Rightarrow>
        if \<not> ok then (RMW_RET_ERROR, config, w) else config_inserts rest config w))"

definition rmw_zenoh_pico_set_common_config ::
  "init_statics \<Rightarrow> ZenohPicoTransportParams \<Rightarrow> z_config \<Rightarrow> 'a mem_scheme \<Rightarrow> rmw_ret_t \<times> z_config \<times> 'a mem_scheme" where
  "rmw_zenoh_pico_set_common_config st params config w =
     config_inserts
       ([(zenoh_id st \<noteq> ''-1'' \<and> length (zenoh_id st) \<le> Z_ZID_LENGTH, ''zid'', zenoh_id st),
         (mode params \<noteq> [], ''mode'', mode params)] @
        (case transport_type st of
           Unicast \<Rightarrow> [(cstr (connect_addr params) \<noteq> [], ''connect'', cstr (connect_addr params)),
                       (cstr (listen_addr params) \<noteq> [], ''listen'', cstr (listen_addr params))]
         | Multicast \<Rightarrow> [(cstr (mcast_addr params) \<noteq> [], ''listen'', cstr (mcast_addr params))]
         | Serial \<Rightarrow> [])) config w"

definition rmw_zenoh_pico_set_unicast_config where
  "rmw_zenoh_pico_set_unicast_config st params config w = rmw_zenoh_pico_set_common_config st params config w"

definition rmw_zenoh_pico_set_mcast_config where
  "rmw_zenoh_pico_set_mcast_config st params config w = rmw_zenoh_pico_set_common_config st params config w"

definition rmw_zenoh_pico_set_serial_config ::
  "init_statics \<Rightarrow> ZenohPicoTransportParams \<Rightarrow> z_config \<Rightarrow> 'a mem_scheme \<Rightarrow> rmw_ret_t \<times> z_config \<times> 'a mem_scheme" where
  "rmw_zenoh_pico_set_serial_config st params config w = (RMW_RET_ERROR, config, w)"

definition set_config where
  "set_config st params config w = (case transport_type st of
     Unicast \<Rightarrow> rmw_zenoh_pico_set_unicast_config st params config w
   | Multicast \<Rightarrow> rmw_zenoh_pico_set_mcast_config st params config w
   | Serial \<Rightarrow> rmw_zenoh_pico_set_serial_config st params config w)"

subsection \<open>Contexts\<close>

text \<open>
  A context is the caller's memory at an address.  The argument checks of \<open>rmw_init\<close>, in its order;
  nothing undoes the changes to the context when the configuration fails.
\<close>

definition rmw_init ::
  "init_statics \<Rightarrow> rmw_init_options_t option \<Rightarrow> addr option \<Rightarrow> rmw_mem \<Rightarrow> (rmw_ret_t \<times> rmw_mem) res" where
  "rmw_init st options context w =
     (case options of None \<Rightarrow> Inr (RMW_RET_INVALID_ARGUMENT, w) | Some opts \<Rightarrow>
      if context = None then Inr (RMW_RET_INVALID_ARGUMENT, w)
      else if opt_impl opts = None then Inr (RMW_RET_INVALID_ARGUMENT, w)
      else if opt_identifier opts = None then Inr (RMW_RET_INVALID_ARGUMENT, w)
      else if \<not> identifiers_match (opt_identifier opts) then Inr (RMW_RET_INCORRECT_RMW_IMPLEMENTATION, w)
      else if opt_enclave opts = None then Inr (RMW_RET_INVALID_ARGUMENT, w)
      else andthen (deref (contexts w) context) (\<lambda>c.
        if ctx_identifier c \<noteq> None then Inr (RMW_RET_INVALID_ARGUMENT, w)
        else let c = c\<lparr>ctx_instance_id := opt_instance_id opts, ctx_identifier := Some rmw_get_implementation_identifier,
                   actual_domain_id := (if RMW_DEFAULT_DOMAIN_ID \<noteq> opt_domain_id opts then opt_domain_id opts else 0)\<rparr>;
                 w = w\<lparr>contexts := (contexts w)(the context \<mapsto> c)\<rparr> in
          andthen (deref (transport_params w) (opt_impl opts)) (\<lambda>params.
          (case set_config st params [] w of (ret, config, w) \<Rightarrow>
            if ret \<noteq> RMW_RET_OK then Inr (ret, w)
            else andthen (zenoh_pico_generate_session config (opt_enclave opts) w) (\<lambda>(session, w).
              if session = None then Inr (RMW_RET_ERROR, w)
              else Inr (RMW_RET_OK, w\<lparr>contexts := (contexts w)(the context \<mapsto> c\<lparr>impl := session\<rparr>)\<rparr>))))))"

definition zero_context :: rmw_context_t where
  "zero_context = \<lparr>ctx_instance_id = 0, ctx_identifier = None, actual_domain_id = 0, impl = None\<rparr>"

definition rmw_context_fini :: "addr option \<Rightarrow> rmw_mem \<Rightarrow> (rmw_ret_t \<times> rmw_mem) res" where
  "rmw_context_fini context w =
     andthen (deref (contexts w) context) (\<lambda>c.
       if impl c \<noteq> None
       then andthen (zenoh_pico_destroy_session (impl c) w) (\<lambda>(_, w).
         Inr (RMW_RET_OK, w\<lparr>contexts := (contexts w)(the context \<mapsto> c\<lparr>impl := None\<rparr>)\<rparr>))
       else Inr (RMW_RET_OK, w))"

definition rmw_shutdown :: "addr option \<Rightarrow> rmw_mem \<Rightarrow> (rmw_ret_t \<times> rmw_mem) res" where
  "rmw_shutdown context w =
     (if context = None then Inr (RMW_RET_INVALID_ARGUMENT, w)
      else andthen (deref (contexts w) context) (\<lambda>c.
        if \<not> identifiers_match (ctx_identifier c) then Inr (RMW_RET_INCORRECT_RMW_IMPLEMENTATION, w)
        else andthen (rmw_context_fini context w) (\<lambda>(ret, w).
          if ret = RMW_RET_OK then Inr (ret, w\<lparr>contexts := (contexts w)(the context \<mapsto> zero_context)\<rparr>)
          else Inr (ret, w))))"

subsection \<open>Lemmas\<close>

lemma cstr_take_id: "NUL \<notin> set s \<Longrightarrow> cstr (take n s) = take n s"
  by (simp add: cstr_def takeWhile_neq_id notin_set_take)

lemma cstr_padded: "NUL \<notin> set s \<Longrightarrow> cstr (s @ replicate n NUL) = s"
  by (simp add: cstr_def)

lemma strcpy_into_fits: "length s < n \<Longrightarrow> strcpy_into n s = Inr (cstr s @ replicate (n - length (cstr s)) NUL)"
  using length_cstr_le [of s] by (simp add: strcpy_into_def)

lemma inet_address_cases:
  "inet_address text = Inr (if length (cstr (take 255 text)) \<ge> 49 then None
     else Some (cstr (take 255 text) @ replicate (50 - length (cstr (take 255 text))) NUL))"
  by (simp add: inet_address_def strcpy_into_def MAX_INET_DEVICE_def Let_def cstr_def)

lemma inet_address_text:
  assumes "NUL \<notin> set text"
  shows "inet_address text = Inr (if length text \<ge> 49 then None else Some (text @ replicate (50 - length text) NUL))"
  using assms by (auto simp: inet_address_cases cstr_take_id min_def cstr_id)

text \<open>The address a transport uses, empty when the port switches it off.\<close>

definition unicast_text :: "string \<Rightarrow> string \<Rightarrow> string" where
  "unicast_text host port = (if port = ''-1'' then [] else ''tcp/'' @ host @ '':'' @ port)"

definition multicast_text :: "init_statics \<Rightarrow> string" where
  "multicast_text st = (if mcast_port st = ''-1'' then []
     else ''udp/'' @ mcast_address st @ '':'' @ mcast_port st @ ''#iface='' @ mcast_dev st)"

definition serial_text :: "init_statics \<Rightarrow> string" where
  "serial_text st = serial_dev st @ ''#'' @ serial_param st"

definition statics_ok :: "init_statics \<Rightarrow> bool" where
  "statics_ok st \<longleftrightarrow> NUL \<notin> set (serial_dev st @ serial_param st @ uni_connect st @ uni_connect_port st @ uni_listen st
     @ uni_listen_port st @ mcast_address st @ mcast_port st @ mcast_dev st)"

lemma unicast_address_text:
  assumes "NUL \<notin> set host" "NUL \<notin> set port"
  shows "unicast_address host port = Inr (if length (unicast_text host port) \<ge> 49 then None
    else Some (unicast_text host port @ replicate (50 - length (unicast_text host port)) NUL))"
  using assms inet_address_text [of "''tcp/'' @ host @ '':'' @ port"]
  by (simp add: unicast_address_def unicast_text_def NUL_def MAX_INET_DEVICE_def)

text \<open>
  Transport addresses fit their buffers. For settings without zero characters, rmw_zenoh_pico_init_option
  never writes outside a buffer: it refuses with RMW_RET_INVALID_ARGUMENT exactly when an address text of the
  chosen transport has more than 48 characters (49 for the serial device) and otherwise stores each text
  completely and terminated, together with the mode that was set or the transport's own.
\<close>

theorem init_option_fits:
  assumes "statics_ok st"
  shows "\<exists>ret p. rmw_zenoh_pico_init_option st params = Inr (ret, p) \<and>
    (case transport_type st of
       Unicast \<Rightarrow> let c = unicast_text (uni_connect st) (uni_connect_port st); l = unicast_text (uni_listen st) (uni_listen_port st) in
         ret = (if length c \<le> 48 \<and> length l \<le> 48 then RMW_RET_OK else RMW_RET_INVALID_ARGUMENT) \<and>
         mode p = chosen_mode ''client'' st \<and> length (connect_addr p) = 50 \<and>
         (ret \<noteq> RMW_RET_OK \<or> cstr (connect_addr p) = c \<and> cstr (listen_addr p) = l \<and> length (listen_addr p) = 50)
     | Multicast \<Rightarrow>
         ret = (if length (multicast_text st) \<le> 48 then RMW_RET_OK else RMW_RET_INVALID_ARGUMENT) \<and>
         mode p = chosen_mode ''peer'' st \<and> length (mcast_addr p) = 50 \<and>
         (ret \<noteq> RMW_RET_OK \<or> cstr (mcast_addr p) = multicast_text st)
     | Serial \<Rightarrow>
         ret = (if length (serial_text st) \<le> 49 then RMW_RET_OK else RMW_RET_INVALID_ARGUMENT) \<and>
         mode p = chosen_mode ''serial'' st \<and> length (serial_device p) = 50 \<and>
         (ret \<noteq> RMW_RET_OK \<or> cstr (serial_device p) = serial_text st))"
proof (cases "transport_type st")
  case Serial
  have n: "NUL \<notin> set (serial_text st)" using assms by (simp add: statics_ok_def serial_text_def NUL_def)
  have "strcpy_into 50 (take 255 (serial_text st)) = Inr (serial_text st @ replicate (50 - length (serial_text st)) NUL)"
    if "length (serial_text st) \<le> 49"
    using that strcpy_into_fits [of "serial_text st" 50] cstr_take_id [OF n, of 255] by simp
  then show ?thesis using Serial cstr_padded [OF n]
    by (simp add: rmw_zenoh_pico_init_option_def init_serial_def Let_def MAX_SERIAL_DEVICE_def serial_text_def)
next
  case Unicast
  let ?c = "unicast_text (uni_connect st) (uni_connect_port st)" and ?l = "unicast_text (uni_listen st) (uni_listen_port st)"
  have n: "NUL \<notin> set ?c" "NUL \<notin> set ?l" using assms by (simp_all add: statics_ok_def unicast_text_def NUL_def)
  show ?thesis using Unicast assms cstr_padded [OF n(1)] cstr_padded [OF n(2)]
    by (auto simp: rmw_zenoh_pico_init_option_def init_unicast_def Let_def unicast_address_text statics_ok_def MAX_INET_DEVICE_def)
next
  case Multicast
  have n: "NUL \<notin> set (multicast_text st)" using assms by (simp add: statics_ok_def multicast_text_def NUL_def)
  show ?thesis using Multicast cstr_padded [OF n] inet_address_text [OF n]
    by (auto simp: rmw_zenoh_pico_init_option_def init_multicast_def Let_def multicast_text_def MAX_INET_DEVICE_def cstr_def)
qed

definition default_statics :: init_statics where
  "default_statics = \<lparr>transport_type = Unicast, zenoh_id = ''-1'', pico_mode = None, serial_dev = ''/dev/ttyS0'',
     serial_param = ''baudrate=115200'', uni_connect = ''127.0.0.1'', uni_connect_port = ''7447'', uni_listen = ''127.0.0.1'',
     uni_listen_port = ''-1'', mcast_address = ''224.0.0.225'', mcast_port = ''7447'', mcast_dev = ''lo''\<rparr>"

lemma statics_ok_default: "statics_ok default_statics"
  by (simp add: statics_ok_def default_statics_def NUL_def)

theorem init_option_fits_witness:
  "\<exists>p. rmw_zenoh_pico_init_option default_statics zero_params = Inr (RMW_RET_OK, p) \<and>
     mode p = ''client'' \<and> cstr (connect_addr p) = ''tcp/127.0.0.1:7447'' \<and> cstr (listen_addr p) = []"
  using init_option_fits [OF statics_ok_default, of zero_params]
  by (auto simp: default_statics_def unicast_text_def chosen_mode_def Let_def)

subsection \<open>Copies of the options\<close>

text \<open>Options that own live parameters.\<close>

definition opts_own :: "rmw_init_options_t \<Rightarrow> addr \<Rightarrow> ZenohPicoTransportParams \<Rightarrow> rmw_mem \<Rightarrow> bool" where
  "opts_own opts a p w \<longleftrightarrow> opt_impl opts = Some a \<and> opt_allocator_ok opts \<and> identifiers_match (opt_identifier opts) \<and>
     live (transport_params w) a p \<and> ref p = 1"

lemma destroy_param_last:
  assumes "live (transport_params w) a p" and "ref p = 1"
  shows "zenoh_pico_destroy_param (Some a) w = Inr (True, w\<lparr>transport_params := (transport_params w)(a := None)\<rparr>)"
  using assms by (simp add: zenoh_pico_destroy_param_def Release_live)

lemma destroy_param_dangling:
  "transport_params w a = None \<Longrightarrow> zenoh_pico_destroy_param (Some a) w = Inl UseAfterFree"
  by (simp add: zenoh_pico_destroy_param_def released_dangling)

lemma fini_own:
  assumes "opts_own opts a p w"
  shows "rmw_init_options_fini (Some opts) w =
    Inr (RMW_RET_OK, Some (opts\<lparr>opt_impl := None\<rparr>), w\<lparr>transport_params := (transport_params w)(a := None)\<rparr>)"
  using assms destroy_param_last [of w a p] by (simp add: rmw_init_options_fini_def opts_own_def)

text \<open>
  Copying options. With memory, rmw_init_options_copy gives the copy parameters of its own with the same
  contents, and finishing both frees both and nothing else. When the allocation fails the call answers an error,
  but the destination already carries the source's pointer: finishing it frees the source's
  parameters, and finishing the source then uses freed memory.
\<close>

theorem options_copy_ownership:
  assumes "opts_own src a p w" and "opt_identifier dst = None" and "transport_params w (next_addr w) = None"
  shows "\<exists>r d w'. rmw_init_options_copy (Some src) (Some dst) w = Inr (r, Some d, w') \<and>
    (if oom (env w) (next_addr w)
     then r = RMW_RET_ERROR \<and> opt_impl d = opt_impl src \<and>
       andthen (rmw_init_options_fini (Some d) w') (\<lambda>(_, _, w'). rmw_init_options_fini (Some src) w') = Inl UseAfterFree
     else r = RMW_RET_OK \<and> opt_impl d = Some (next_addr w) \<and> transport_params w' (next_addr w) = Some p \<and>
       transport_params w' a = Some p \<and>
       andthen (rmw_init_options_fini (Some d) w') (\<lambda>(_, _, w'). rmw_init_options_fini (Some src) w') =
         Inr (RMW_RET_OK, Some (src\<lparr>opt_impl := None\<rparr>),
           w\<lparr>next_addr := Suc (next_addr w), transport_params := (transport_params w)(a := None)\<rparr>))"
proof (cases "oom (env w) (next_addr w)")
  case True
  let ?w = "w\<lparr>next_addr := Suc (next_addr w)\<rparr>"
  have c: "rmw_init_options_copy (Some src) (Some dst) w = Inr (RMW_RET_ERROR, Some src, ?w)"
    using True assms by (simp add: rmw_init_options_copy_def zenoh_pico_generate_param_def ZenohPicoDataGenerate_def
        z_malloc_def opts_own_def Let_def)
  have "opts_own src a p ?w" using assms(1) by (simp add: opts_own_def)
  moreover have "rmw_init_options_fini (Some src) (?w\<lparr>transport_params := (transport_params ?w)(a := None)\<rparr>) = Inl UseAfterFree"
    using assms(1) destroy_param_dangling [of _ a] by (simp add: rmw_init_options_fini_def opts_own_def)
  ultimately show ?thesis using True by (simp add: c fini_own)
next
  case False
  let ?n = "next_addr w"
  let ?h = "(transport_params w)(?n \<mapsto> p)"
  let ?w = "w\<lparr>next_addr := Suc ?n, transport_params := ?h\<rparr>"
  let ?d = "src\<lparr>opt_impl := Some ?n\<rparr>"
  have ne: "a \<noteq> ?n" using assms(1,3) by (auto simp: opts_own_def live_def)
  have c: "rmw_init_options_copy (Some src) (Some dst) w = Inr (RMW_RET_OK, Some ?d, ?w)"
    using False assms ne by (simp add: rmw_init_options_copy_def zenoh_pico_generate_param_def ZenohPicoDataGenerate_def
        z_malloc_def opts_own_def Let_def zenoh_pico_clone_param_def live_def)
  have "opts_own ?d ?n p ?w" using assms(1) ne by (simp add: opts_own_def live_def)
  then have f1: "rmw_init_options_fini (Some ?d) ?w =
      Inr (RMW_RET_OK, Some (?d\<lparr>opt_impl := None\<rparr>), ?w\<lparr>transport_params := ?h(?n := None)\<rparr>)"
    by (simp add: fini_own)
  have h: "?h(?n := None) = transport_params w" using assms(3) by (simp add: fun_upd_idem)
  have "opts_own src a p (w\<lparr>next_addr := Suc ?n\<rparr>)" using assms(1) by (simp add: opts_own_def)
  then have f2: "rmw_init_options_fini (Some src) (w\<lparr>next_addr := Suc ?n\<rparr>) = Inr (RMW_RET_OK, Some (src\<lparr>opt_impl := None\<rparr>),
      w\<lparr>next_addr := Suc ?n, transport_params := (transport_params w)(a := None)\<rparr>)"
    by (simp add: fini_own)
  have "?w\<lparr>transport_params := ?h(?n := None)\<rparr> = w\<lparr>next_addr := Suc ?n\<rparr>" unfolding h by simp
  then show ?thesis using False assms(1) ne f1 f2
    by (simp add: c opts_own_def live_def del: fun_upd_apply add: fun_upd_same fun_upd_other)
qed

definition example_params :: ZenohPicoTransportParams where
  "example_params = zero_params\<lparr>ref := 1, mode := ''client'', connect_addr := ''tcp/127.0.0.1:7447'' @ replicate 32 NUL\<rparr>"

definition example_opts :: rmw_init_options_t where
  "example_opts = \<lparr>opt_instance_id = 0, opt_identifier = Some rmw_get_implementation_identifier, opt_allocator_ok = True,
     opt_enclave = Some ''/'', opt_domain_id = 42, opt_localhost_only = 0, opt_impl = Some 1\<rparr>"

definition params_mem :: rmw_mem where
  "params_mem = start_mem\<lparr>transport_params := [1 \<mapsto> example_params], contexts := [7 \<mapsto> zero_context], next_addr := 2\<rparr>"

theorem options_copy_ownership_witness:
  "\<exists>d w'. rmw_init_options_copy (Some example_opts) (Some (example_opts\<lparr>opt_identifier := None\<rparr>)) params_mem =
      Inr (RMW_RET_OK, Some d, w') \<and> opt_impl d = Some 2"
proof -
  have o: "opts_own example_opts 1 example_params params_mem"
    by (simp add: opts_own_def example_opts_def identifiers_match_def live_def params_mem_def example_params_def zero_params_def)
  have n: "transport_params params_mem (next_addr params_mem) = None" "next_addr params_mem = 2"
    "\<not> oom (env params_mem) (next_addr params_mem)"
    by (simp_all add: params_mem_def small_env_def)
  show ?thesis
    using options_copy_ownership [OF o _ n(1), of "example_opts\<lparr>opt_identifier := None\<rparr>"] n(2,3) by auto
qed

subsection \<open>Initialisation and shutdown\<close>

lemma config_inserts_frame:
  "config_inserts xs c (w :: rmw_mem) = (r, c', w') \<Longrightarrow> sessions w' = sessions w \<and> contexts w' = contexts w \<and> env w' = env w"
proof (induction xs arbitrary: c w)
  case (Cons x xs)
  obtain b k v where x: "x = (b, k, v)" by (cases x)
  show ?case using Cons.prems Cons.IH
    by (fastforce simp: x zp_config_insert_def zcall_def split: if_splits prod.splits)
qed simp

lemma set_config_frame:
  assumes "set_config st p c (w :: rmw_mem) = (r, c', w')"
  shows "sessions w' = sessions w \<and> contexts w' = contexts w \<and> env w' = env w"
  using assms by (auto simp: set_config_def rmw_zenoh_pico_set_unicast_config_def rmw_zenoh_pico_set_mcast_config_def
      rmw_zenoh_pico_set_serial_config_def rmw_zenoh_pico_set_common_config_def
      simp del: config_inserts.simps dest!: config_inserts_frame split: transport.splits)

text \<open>Arguments that pass every check of \<open>rmw_init\<close>, for a zeroed context.\<close>

definition init_args_ok :: "rmw_init_options_t \<Rightarrow> addr \<Rightarrow> rmw_mem \<Rightarrow> bool" where
  "init_args_ok opts c w \<longleftrightarrow> opt_impl opts \<noteq> None \<and> opt_identifier opts \<noteq> None \<and>
     identifiers_match (opt_identifier opts) \<and> opt_enclave opts \<noteq> None \<and> contexts w c = Some zero_context \<and>
     returns (deref (transport_params w) (opt_impl opts))"

definition begun_context :: "rmw_init_options_t \<Rightarrow> rmw_context_t" where
  "begun_context opts = \<lparr>ctx_instance_id = opt_instance_id opts, ctx_identifier = Some rmw_get_implementation_identifier,
     actual_domain_id = (if opt_domain_id opts = RMW_DEFAULT_DOMAIN_ID then 0 else opt_domain_id opts), impl = None\<rparr>"

lemma init_run:
  assumes "init_args_ok opts c w"
  obtains p ret config w1 where
    "deref (transport_params w) (opt_impl opts) = Inr p"
    "set_config st p [] (w\<lparr>contexts := (contexts w)(c \<mapsto> begun_context opts)\<rparr>) = (ret, config, w1)"
    "rmw_init st (Some opts) (Some c) w = (if ret \<noteq> RMW_RET_OK then Inr (ret, w1)
       else andthen (zenoh_pico_generate_session config (opt_enclave opts) w1) (\<lambda>(session, w).
         if session = None then Inr (RMW_RET_ERROR, w)
         else Inr (RMW_RET_OK, w\<lparr>contexts := (contexts w)(the (Some c) \<mapsto> (begun_context opts)\<lparr>impl := session\<rparr>)\<rparr>)))"
proof -
  obtain p where p: "deref (transport_params w) (opt_impl opts) = Inr p"
    using assms by (auto simp: init_args_ok_def returns_iff)
  obtain ret config w1 where s: "set_config st p [] (w\<lparr>contexts := (contexts w)(c \<mapsto> begun_context opts)\<rparr>) = (ret, config, w1)"
    by (cases "set_config st p [] (w\<lparr>contexts := (contexts w)(c \<mapsto> begun_context opts)\<rparr>)")
  have b: "zero_context\<lparr>ctx_instance_id := opt_instance_id opts, ctx_identifier := Some rmw_get_implementation_identifier,
      actual_domain_id := (if RMW_DEFAULT_DOMAIN_ID \<noteq> opt_domain_id opts then opt_domain_id opts else 0)\<rparr> = begun_context opts"
    by (simp add: zero_context_def begun_context_def)
  have z: "ctx_identifier zero_context = None" by (simp add: zero_context_def)
  show thesis
    by (rule that [OF p s]) (use assms p s b z in \<open>auto simp: rmw_init_def init_args_ok_def Let_def\<close>)
qed

text \<open>
  A context cannot be initialised and shut down. When rmw_init succeeds for the first context of the program,
  the context holds the option's domain id (0 for the default) and the shared session, and shutting it down runs
  into the graph guard condition's code address. While another context still uses the session, shutdown only
  counts down and zeroes the context.
\<close>

theorem init_then_shutdown:
  assumes "init_args_ok opts c w" and "session_free w" and "rmw_init st (Some opts) (Some c) w = Inr (RMW_RET_OK, w')"
  shows "contexts w' c = Some ((begun_context opts)\<lparr>impl := Some zenohSession\<rparr>) \<and>
    rmw_shutdown (Some c) w' = Inl BadPointer \<and>
    (\<exists>s. sessions w' zenohSession = Some s \<and>
       rmw_shutdown (Some c) (with_session (s\<lparr>ref := ref s + 1\<rparr>) w') =
         Inr (RMW_RET_OK, w'\<lparr>contexts := (contexts w')(c \<mapsto> zero_context)\<rparr>))"
proof -
  obtain p ret config w1 where "deref (transport_params w) (opt_impl opts) = Inr p"
    and set: "set_config st p [] (w\<lparr>contexts := (contexts w)(c \<mapsto> begun_context opts)\<rparr>) = (ret, config, w1)"
    and run: "rmw_init st (Some opts) (Some c) w = (if ret \<noteq> RMW_RET_OK then Inr (ret, w1)
       else andthen (zenoh_pico_generate_session config (opt_enclave opts) w1) (\<lambda>(session, w).
         if session = None then Inr (RMW_RET_ERROR, w)
         else Inr (RMW_RET_OK, w\<lparr>contexts := (contexts w)(the (Some c) \<mapsto> (begun_context opts)\<lparr>impl := session\<rparr>)\<rparr>)))"
    by (rule init_run [OF assms(1), where st = st])
  obtain e where e: "opt_enclave opts = Some e" using assms(1) by (auto simp: init_args_ok_def)
  have ret: "ret = RMW_RET_OK" using assms(3) run by (auto split: if_splits)
  have free: "session_free w1" using assms(2) set_config_frame [OF set] by (simp add: session_free_def)
  define s where "s = used_session 1 config (copied (z_string_copy_from_str (copy_ok (env w1)) e))"
  have w': "w' = (with_session s w1)\<lparr>contexts := (contexts w1)(c \<mapsto> (begun_context opts)\<lparr>impl := Some zenohSession\<rparr>)\<rparr>"
    using assms(3) unfolding run ret e generate_session_first [OF free] s_def [symmetric]
    by (simp add: with_session_def)
  have i: "identifiers_match (ctx_identifier (begun_context opts))" by (simp add: begun_context_def identifiers_match_def)
  have s: "ref s = 1" "lock s = Unlocked" "gh_data (graph_guard_condition s) = Some FunctionAddress"
    by (simp_all add: s_def used_session_def)
  have s_eq: "s\<lparr>ref := 1\<rparr> = s" by (simp add: s_def used_session_def)
  have sw: "sessions w' zenohSession = Some s" by (simp add: w')
  have fini: "rmw_context_fini (Some c) v = andthen (zenoh_pico_destroy_session (Some zenohSession) v) (\<lambda>(_, w).
         Inr (RMW_RET_OK, w\<lparr>contexts := (contexts w)(c \<mapsto> begun_context opts)\<rparr>))"
    if "contexts v c = Some ((begun_context opts)\<lparr>impl := Some zenohSession\<rparr>)" for v
    using that by (simp add: rmw_context_fini_def begun_context_def)
  let ?v = "with_session (s\<lparr>ref := ref s + 1\<rparr>) w'"
  have "zenoh_pico_destroy_session (Some zenohSession) ?v = Inr (True, with_session s w')"
    using destroy_session_shared [of ?v "s\<lparr>ref := ref s + 1\<rparr>"] s by (simp add: s_eq)
  moreover have "with_session s w' = w'" using sw by (simp add: with_session_def fun_upd_idem)
  moreover have "zenoh_pico_destroy_session (Some zenohSession) w' = Inl BadPointer"
    by (rule destroy_session_last [OF sw s])
  moreover have cv: "contexts v c = Some ((begun_context opts)\<lparr>impl := Some zenohSession\<rparr>)" if "v = w' \<or> v = ?v" for v
    using that by (auto simp: w' with_session_def)
  ultimately have "rmw_shutdown (Some c) w' = Inl BadPointer"
    "rmw_shutdown (Some c) ?v = Inr (RMW_RET_OK, w'\<lparr>contexts := (contexts w')(c \<mapsto> zero_context)\<rparr>)"
    using i by (simp_all add: rmw_shutdown_def fini)
  then show ?thesis using cv [of w'] sw by simp
qed

lemma set_config_unicast:
  assumes "transport_type st = Unicast" and "\<And>h k. zok (env w) h k" and "zenoh_id st = ''-1''" and "mode p \<noteq> []"
  shows "\<exists>w'. set_config st p [] w = (RMW_RET_OK, [(''mode'', mode p)] @
      (if cstr (connect_addr p) = [] then [] else [(''connect'', cstr (connect_addr p))]) @
      (if cstr (listen_addr p) = [] then [] else [(''listen'', cstr (listen_addr p))]), w')"
  using assms by (simp add: set_config_def rmw_zenoh_pico_set_unicast_config_def rmw_zenoh_pico_set_common_config_def
      zp_config_insert_def zcall_def)

lemma params_mem_args: "init_args_ok example_opts 7 params_mem"
  by (simp add: init_args_ok_def example_opts_def params_mem_def identifiers_match_def)

theorem init_then_shutdown_witness:
  "\<exists>w'. rmw_init default_statics (Some example_opts) (Some 7) params_mem = Inr (RMW_RET_OK, w') \<and>
     rmw_shutdown (Some 7) w' = Inl BadPointer"
proof -
  have free: "session_free params_mem" by (simp add: session_free_def params_mem_def zero_session_def)
  obtain p ret config w1 where p: "deref (transport_params params_mem) (opt_impl example_opts) = Inr p"
    and set: "set_config default_statics p [] (params_mem\<lparr>contexts := (contexts params_mem)(7 \<mapsto> begun_context example_opts)\<rparr>)
        = (ret, config, w1)"
    and run: "rmw_init default_statics (Some example_opts) (Some 7) params_mem = (if ret \<noteq> RMW_RET_OK then Inr (ret, w1)
       else andthen (zenoh_pico_generate_session config (opt_enclave example_opts) w1) (\<lambda>(session, w).
         if session = None then Inr (RMW_RET_ERROR, w)
         else Inr (RMW_RET_OK, w\<lparr>contexts := (contexts w)(the (Some 7) \<mapsto> (begun_context example_opts)\<lparr>impl := session\<rparr>)\<rparr>)))"
    by (rule init_run [OF params_mem_args, where st = default_statics])
  have "mode p \<noteq> []" using p by (auto simp: example_opts_def params_mem_def example_params_def)
  then have ret: "ret = RMW_RET_OK"
    using set_config_unicast [of default_statics "params_mem\<lparr>contexts := (contexts params_mem)(7 \<mapsto> begun_context example_opts)\<rparr>" p] set
    by (auto simp: default_statics_def params_mem_def small_env_def)
  have f1: "session_free w1" using free set_config_frame [OF set] by (simp add: session_free_def)
  have "\<exists>w'. rmw_init default_statics (Some example_opts) (Some 7) params_mem = Inr (RMW_RET_OK, w')"
    unfolding run ret by (simp add: example_opts_def generate_session_first [OF f1])
  then show ?thesis using init_then_shutdown [OF params_mem_args free] by blast
qed

text \<open>
  A failed initialisation sticks. When setting up the configuration fails, rmw_init answers that error but leaves
  its identifier in the context, so every further rmw_init on this context, with whatever options, is refused;
  only rmw_shutdown, which then frees nothing, makes the context usable again.
\<close>

theorem failed_init_sticks:
  assumes "init_args_ok opts c w" and "rmw_init st (Some opts) (Some c) w = Inr (r, w')" and "r \<noteq> RMW_RET_OK"
  shows "r = RMW_RET_ERROR \<and> sessions w' = sessions w \<and> contexts w' c = Some (begun_context opts) \<and>
    (\<forall>st' opts'. \<exists>r'. rmw_init st' opts' (Some c) w' = Inr (r', w') \<and>
       r' \<in> {RMW_RET_INVALID_ARGUMENT, RMW_RET_INCORRECT_RMW_IMPLEMENTATION}) \<and>
    rmw_shutdown (Some c) w' = Inr (RMW_RET_OK, w'\<lparr>contexts := (contexts w')(c \<mapsto> zero_context)\<rparr>)"
proof -
  obtain p ret config w1 where "deref (transport_params w) (opt_impl opts) = Inr p"
    and set: "set_config st p [] (w\<lparr>contexts := (contexts w)(c \<mapsto> begun_context opts)\<rparr>) = (ret, config, w1)"
    and run: "rmw_init st (Some opts) (Some c) w = (if ret \<noteq> RMW_RET_OK then Inr (ret, w1)
       else andthen (zenoh_pico_generate_session config (opt_enclave opts) w1) (\<lambda>(session, w).
         if session = None then Inr (RMW_RET_ERROR, w)
         else Inr (RMW_RET_OK, w\<lparr>contexts := (contexts w)(the (Some c) \<mapsto> (begun_context opts)\<lparr>impl := session\<rparr>)\<rparr>)))"
    by (rule init_run [OF assms(1), where st = st])
  have codes: "config_inserts xs c0 v = (r0, c1, v1) \<Longrightarrow> r0 \<in> {RMW_RET_OK, RMW_RET_ERROR}" for xs c0 r0 c1 and v v1 :: rmw_mem
    by (induction xs c0 v rule: config_inserts.induct) (auto split: if_splits prod.splits)
  have rets: "ret \<in> {RMW_RET_OK, RMW_RET_ERROR}"
    using set codes by (auto simp: set_config_def rmw_zenoh_pico_set_unicast_config_def rmw_zenoh_pico_set_mcast_config_def
      rmw_zenoh_pico_set_serial_config_def rmw_zenoh_pico_set_common_config_def simp del: config_inserts.simps split: transport.splits)
  have some: "p = Some zenohSession" if "zenoh_pico_generate_session config e v = Inr (p, v')" for e v p v'
    using that by (auto simp: zenoh_pico_generate_session_def ZenohPicoDataRefClone_def andthen_eq_Inr Let_def
        split: if_splits option.splits)
  have ret: "ret = RMW_RET_ERROR"
  proof (rule ccontr)
    assume "ret \<noteq> RMW_RET_ERROR"
    then have "ret = RMW_RET_OK" using rets by simp
    with assms(2,3) run show False by (auto simp: andthen_eq_Inr dest: some)
  qed
  have f: "sessions w' = sessions w" "contexts w' c = Some (begun_context opts)" "r = RMW_RET_ERROR"
    using assms(2) run ret set_config_frame [OF set] by auto
  have "\<exists>r'. rmw_init st' opts' (Some c) w' = Inr (r', w') \<and>
       r' \<in> {RMW_RET_INVALID_ARGUMENT, RMW_RET_INCORRECT_RMW_IMPLEMENTATION}" for st' opts'
    using f(2) by (cases opts') (simp_all add: rmw_init_def begun_context_def)
  moreover have "rmw_shutdown (Some c) w' = Inr (RMW_RET_OK, w'\<lparr>contexts := (contexts w')(c \<mapsto> zero_context)\<rparr>)"
    using f(2) by (simp add: rmw_shutdown_def rmw_context_fini_def begun_context_def identifiers_match_def)
  ultimately show ?thesis using f by simp
qed

theorem failed_init_sticks_witness:
  "\<exists>w'. rmw_init (default_statics\<lparr>transport_type := Serial\<rparr>) (Some example_opts) (Some 7) params_mem = Inr (RMW_RET_ERROR, w') \<and>
     (\<exists>r'. rmw_init default_statics (Some example_opts) (Some 7) w' = Inr (r', w') \<and> r' \<noteq> RMW_RET_OK)"
proof -
  let ?st = "default_statics\<lparr>transport_type := Serial\<rparr>"
  obtain w' where r: "rmw_init ?st (Some example_opts) (Some 7) params_mem = Inr (RMW_RET_ERROR, w')"
    by (simp add: rmw_init_def example_opts_def params_mem_def identifiers_match_def zero_context_def set_config_def
        rmw_zenoh_pico_set_serial_config_def Let_def)
  obtain r' where "rmw_init default_statics (Some example_opts) (Some 7) w' = Inr (r', w')"
    "r' \<in> {RMW_RET_INVALID_ARGUMENT, RMW_RET_INCORRECT_RMW_IMPLEMENTATION}"
    using failed_init_sticks [OF params_mem_args r] by auto
  then show ?thesis using r by (intro exI [of _ w'] conjI exI [of _ r']) auto
qed

end
