(* ===== verification/Node.thy ===== *)
theory Node
  imports Init
begin

section \<open>Nodes\<close>

text \<open>
  \<open>rmw_node.c\<close>.  The label \<open>error\<close> at the end of a generate function tests pointers that an
  early jump has left unset: \<open>None\<close> in the last argument of the helper \<open>node_error\<close> is such an
  uninitialised variable, and reading it is a fault.
\<close>

definition zenoh_pico_get_next_node_id :: "'a ent_mem_scheme \<Rightarrow> nat \<times> 'a ent_mem_scheme" where
  "zenoh_pico_get_next_node_id w = (next_node_id w, w\<lparr>next_node_id := (next_node_id w + 1) mod 2 ^ 64\<rparr>)"

definition zero_node_data :: ZenohPicoNodeData where
  "zero_node_data = \<lparr>ref = 0, lock = Unlocked, nd_id = 0, nd_liveliness_key = [], nd_token = None, nd_session = None,
     nd_entity = None\<rparr>"

text \<open>The part of the error labels that all generate functions share.\<close>

definition release_descriptions :: "addr option \<Rightarrow> addr option \<Rightarrow> rmw_mem \<Rightarrow> rmw_mem res" where
  "release_descriptions ni entity w =
     andthen (if ni \<noteq> None then zenoh_pico_destroy_node_info ni w else Inr (True, w)) (\<lambda>(_, w).
     andthen (if entity \<noteq> None then zenoh_pico_destroy_entity entity w else Inr (True, w)) (\<lambda>(_, w). Inr w))"

definition node_error :: "addr option \<Rightarrow> addr option \<Rightarrow> addr option option \<Rightarrow> rmw_mem \<Rightarrow> (addr option \<times> rmw_mem) res" where
  "node_error ni entity node_data w =
     andthen (release_descriptions ni entity w) (\<lambda>w.
     (case node_data of None \<Rightarrow> Inl Uninitialised
      | Some None \<Rightarrow> Inr (None, w)
      | Some (Some a) \<Rightarrow> andthen (ZenohPicoDataDestroy (node_datas w) (Some a)) (\<lambda>h. Inr (None, w\<lparr>node_datas := h\<rparr>))))"

definition zenoh_pico_generate_node_data ::
  "nat \<Rightarrow> string \<Rightarrow> string \<Rightarrow> addr option \<Rightarrow> rmw_mem \<Rightarrow> (addr option \<times> rmw_mem) res" where
  "zenoh_pico_generate_node_data domain_id name namespace session w =
     (if session = None then Inr (None, w)
      else andthen (deref (sessions w) session) (\<lambda>s.
        andthen (zenoh_pico_generate_node_info domain_id namespace name (ss_enclave s) w) (\<lambda>(ni, w).
        if ni = None then node_error None None None w
        else (case zenoh_pico_get_next_node_id w of (node_id, w) \<Rightarrow>
          andthen (zenoh_pico_generate_node_entity (info_zid (env w)) node_id Node ni None w) (\<lambda>(entity, w).
          if entity = None then node_error ni None None w
          else (case ZenohPicoDataGenerate zero_node_data (node_datas w) w of
              (None, h, w) \<Rightarrow> node_error ni entity (Some None) (w\<lparr>node_datas := h\<rparr>)
            | (Some a, h, w) \<Rightarrow>
                andthen (deref h (Some a)) (\<lambda>d.
                let d = d\<lparr>nd_session := session, nd_entity := entity, nd_id := node_id, nd_liveliness_key := []\<rparr>;
                    w = w\<lparr>node_datas := h(a \<mapsto> d)\<rparr> in
                andthen (deref (entities w) entity) (\<lambda>e.
                andthen (generate_liveliness (lineness_len (env w)) (copy_ok (env w)) w e) (\<lambda>key.
                (case key of None \<Rightarrow> node_error ni entity (Some (Some a)) w
                 | Some key \<Rightarrow> Inr (Some a, w\<lparr>node_datas := h(a \<mapsto> d\<lparr>nd_liveliness_key := key\<rparr>)\<rparr>)))))))))))"

definition zenoh_pico_destroy_node_data :: "addr option \<Rightarrow> rmw_mem \<Rightarrow> (bool \<times> rmw_mem) res" where
  "zenoh_pico_destroy_node_data p w =
     (if p = None then Inr (False, w)
      else andthen (ZenohPicoDataRelease (node_datas w) p) (\<lambda>(last, h). let w = w\<lparr>node_datas := h\<rparr> in
        if last then
          andthen (deref (node_datas w) p) (\<lambda>d.
          let w = z_undeclare (nd_token d) w; d = d\<lparr>nd_token := None, nd_liveliness_key := []\<rparr> in
          andthen (if nd_entity d \<noteq> None then zenoh_pico_destroy_entity (nd_entity d) w else Inr (True, w)) (\<lambda>(_, w).
          andthen (ZenohPicoDataDestroy ((node_datas w)(the p \<mapsto> d\<lparr>nd_entity := None\<rparr>)) p) (\<lambda>h.
            Inr (True, w\<lparr>node_datas := h\<rparr>))))
        else Inr (True, w)))"

definition declaration_node_data :: "addr option \<Rightarrow> rmw_mem \<Rightarrow> (bool \<times> rmw_mem) res" where
  "declaration_node_data p w =
     andthen (deref (node_datas w) p) (\<lambda>d.
     andthen (deref (sessions w) (nd_session d)) (\<lambda>_.
     (case zcall (ZDeclareToken (nd_liveliness_key d)) w of (ok, w) \<Rightarrow>
        if \<not> ok then Inr (False, w)
        else Inr (True, w\<lparr>node_datas := (node_datas w)(the p \<mapsto> d\<lparr>nd_token := Some (nd_liveliness_key d)\<rparr>)\<rparr>))))"

definition rmw_node_generate :: "addr option \<Rightarrow> addr option \<Rightarrow> rmw_mem \<Rightarrow> (rmw_node_t option \<times> rmw_mem) res" where
  "rmw_node_generate context node_data w =
     andthen (deref (node_datas w) node_data) (\<lambda>d.
     andthen (deref (entities w) (nd_entity d)) (\<lambda>e.
       if node_info e = None then Inr (None, w)
       else (case z_malloc w of
           (None, w) \<Rightarrow> Inr (None, w)
         | (Some a, w) \<Rightarrow>
             let w = buf_put a [] w in
             andthen (deref (node_infos w) (node_info e)) (\<lambda>ni.
             andthen (zenoh_pico_string_clone (ni_name ni) w) (\<lambda>(name, w).
             andthen (zenoh_pico_string_clone (ni_ns ni) w) (\<lambda>(ns, w).
               Inr (Some \<lparr>hdl = a, implementation_identifier = Some rmw_get_implementation_identifier, data = node_data,
                 node_name = name, node_namespace = ns, node_context = context\<rparr>, w)))))))"

definition rmw_node_destroy :: "rmw_node_t option \<Rightarrow> rmw_mem \<Rightarrow> (rmw_ret_t \<times> rmw_mem) res" where
  "rmw_node_destroy node w =
     (case node of None \<Rightarrow> Inr (RMW_RET_OK, w)
      | Some n \<Rightarrow>
          andthen (if data n \<noteq> None then zenoh_pico_destroy_node_data (data n) w else Inr (True, w)) (\<lambda>(_, w).
          andthen (z_free (node_name n) w) (\<lambda>w.
          andthen (z_free (node_namespace n) w) (\<lambda>w.
          andthen (z_free (Some (hdl n)) w) (\<lambda>w. Inr (RMW_RET_OK, w))))))"

text \<open>When making the handle or declaring the token fails, a handle made so far is not freed.\<close>

definition rmw_create_node ::
  "addr option \<Rightarrow> string option \<Rightarrow> string option \<Rightarrow> rmw_mem \<Rightarrow> (rmw_node_t option \<times> rmw_mem) res" where
  "rmw_create_node context name namespace w =
     (if context = None then Inr (None, w)
      else andthen (deref (contexts w) context) (\<lambda>c.
        if \<not> identifiers_match (ctx_identifier c) then Inr (None, w)
        else if impl c = None then Inr (None, w)
        else if name = None then Inr (None, w)
        else if namespace = None then Inr (None, w)
        else if cstr (the name) = [] \<or> cstr (the namespace) = [] then Inr (None, w)
        else andthen (session_connect (impl c) w) (\<lambda>(ret, w).
          if ret \<noteq> RMW_RET_OK then Inr (None, w)
          else andthen (zenoh_pico_generate_node_data (actual_domain_id c) (the name) (the namespace) (impl c) w) (\<lambda>(d, w).
            if d = None then Inr (None, w)
            else andthen (rmw_node_generate context d w) (\<lambda>(node, w).
              if node = None then andthen (zenoh_pico_destroy_node_data d w) (\<lambda>(_, w). Inr (None, w))
              else andthen (declaration_node_data d w) (\<lambda>(ok, w).
                if \<not> ok then andthen (zenoh_pico_destroy_node_data d w) (\<lambda>(_, w). Inr (None, w))
                else Inr (node, w)))))))"

definition rmw_destroy_node :: "rmw_node_t option \<Rightarrow> rmw_mem \<Rightarrow> (rmw_ret_t \<times> rmw_mem) res" where
  "rmw_destroy_node node w =
     (case node of None \<Rightarrow> Inr (RMW_RET_INVALID_ARGUMENT, w)
      | Some n \<Rightarrow>
          if \<not> identifiers_match (implementation_identifier n) then Inr (RMW_RET_INCORRECT_RMW_IMPLEMENTATION, w)
          else if data n = None then Inr (RMW_RET_ERROR, w)
          else rmw_node_destroy node w)"

definition rmw_node_get_graph_guard_condition ::
  "rmw_node_t option \<Rightarrow> rmw_mem \<Rightarrow> rmw_guard_condition_t option res" where
  "rmw_node_get_graph_guard_condition node w =
     (case node of None \<Rightarrow> Inr None
      | Some n \<Rightarrow>
          if \<not> identifiers_match (implementation_identifier n) then Inr None
          else andthen (deref (node_datas w) (data n)) (\<lambda>d.
               andthen (deref (sessions w) (nd_session d)) (\<lambda>s. Inr (Some (graph_guard_condition s)))))"

subsection \<open>What creation does when memory suffices\<close>

definition node_info_of :: "rmw_context_t \<Rightarrow> ZenohPicoSession \<Rightarrow> string \<Rightarrow> string \<Rightarrow> ZenohPicoNodeInfo" where
  "node_info_of c s name ns = \<lparr>ref = 1, lock = Unlocked, ni_domain = show_int (int_of_size (actual_domain_id c)),
     ni_ns = cstr ns, ni_name = cstr name, ni_enclave = ss_enclave s\<rparr>"

lemma generate_node_info_roomy:
  assumes "roomy w"
  shows "zenoh_pico_generate_node_info (actual_domain_id c) ns name (ss_enclave s) w =
    Inr (Some (next_addr w), w\<lparr>next_addr := Suc (next_addr w),
      node_infos := (node_infos w)(next_addr w \<mapsto> node_info_of c s name ns)\<rparr>)"
  using assms by (simp add: zenoh_pico_generate_node_info_def roomy_generate roomy_copy conv_domain_eq data_obj_init_def
      zero_node_info_def node_info_of_def z_string_copy_from_str_def z_string_clone_def cstr_id)

text \<open>The key of an entity, in full and cut to the buffer, and the data of a node.\<close>

definition key_of :: "'a mem_scheme \<Rightarrow> ZenohPicoNodeInfo \<Rightarrow> ZenohPicoTopicInfo option \<Rightarrow> ZenohPicoEntity \<Rightarrow> string" where
  "key_of w n t e = take (lineness_len (env w) - 2) (join_with CHR ''/'' (liveliness_components n t e))"

definition len_ok :: "'a mem_scheme \<Rightarrow> bool" where
  "len_ok w \<longleftrightarrow> 0 < lineness_len (env w) \<and> lineness_len (env w) < 2 ^ 31"

lemma generate_key:
  assumes "roomy w" and "len_ok w" and "deref (node_infos w) (node_info e) = Inr n" and "topic_of w e t"
  shows "generate_liveliness (lineness_len (env w)) (copy_ok (env w)) w e = Inr (Some (key_of w n t e))"
  using generate_liveliness_key [of "lineness_len (env w)" w e n t "copy_ok (env w)"] assms
  by (simp add: len_ok_def roomy_copy key_of_def Let_def)

definition node_entity :: "rmw_mem \<Rightarrow> ZenohPicoEntity" where
  "node_entity w = entity_of w (info_zid (env w)) (next_node_id w) Node (Some (next_addr w)) None"

definition node_data_of ::
  "rmw_mem \<Rightarrow> rmw_context_t \<Rightarrow> ZenohPicoSession \<Rightarrow> string \<Rightarrow> string \<Rightarrow> string option \<Rightarrow> ZenohPicoNodeData" where
  "node_data_of w c s name ns token = \<lparr>ref = 1, lock = Unlocked, nd_id = next_node_id w,
     nd_liveliness_key = key_of w (node_info_of c s name ns) None (node_entity w), nd_token = token,
     nd_session = impl c, nd_entity = Some (Suc (next_addr w))\<rparr>"

text \<open>The state after a node's three objects were made.\<close>

definition with_node ::
  "rmw_context_t \<Rightarrow> ZenohPicoSession \<Rightarrow> string \<Rightarrow> string \<Rightarrow> string option \<Rightarrow> rmw_mem \<Rightarrow> rmw_mem" where
  "with_node c s name ns token w = w\<lparr>next_addr := next_addr w + 3,
     node_infos := (node_infos w)(next_addr w \<mapsto> node_info_of c s name ns),
     next_node_id := (next_node_id w + 1) mod 2 ^ 64, next_entity_id := (next_entity_id w + 1) mod 2 ^ 64,
     entities := (entities w)(next_addr w + 1 \<mapsto> node_entity w),
     node_datas := (node_datas w)(next_addr w + 2 \<mapsto> node_data_of w c s name ns token)\<rparr>"

lemma roomy_next [simp]:
  "roomy (w\<lparr>next_addr := a\<rparr>) = roomy w" "roomy (w\<lparr>next_entity_id := a\<rparr>) = roomy w"
  "roomy (w\<lparr>next_node_id := a\<rparr>) = roomy w" "roomy (w\<lparr>node_infos := ni\<rparr>) = roomy w"
  "roomy (w\<lparr>topic_infos := ti\<rparr>) = roomy w" "roomy (w\<lparr>entities := es\<rparr>) = roomy w"
  "roomy (v\<lparr>node_datas := nds\<rparr>) = roomy v" "roomy (w\<lparr>trace := t\<rparr>) = roomy w" "roomy (w\<lparr>bufs := bs\<rparr>) = roomy w"
  "roomy (v\<lparr>sub_datas := sds\<rparr>) = roomy v" "roomy (v\<lparr>pub_datas := pds\<rparr>) = roomy v"
  "roomy (v\<lparr>service_datas := vds\<rparr>) = roomy v"
  by (simp_all add: roomy_def)

lemma entity_of_frame [simp]:
  "entity_of (w\<lparr>next_addr := a\<rparr>) = entity_of w" "entity_of (w\<lparr>next_node_id := a\<rparr>) = entity_of w"
  "entity_of (w\<lparr>node_infos := ni\<rparr>) = entity_of w" "entity_of (w\<lparr>topic_infos := ti\<rparr>) = entity_of w"
  "entity_of (v\<lparr>node_datas := nds\<rparr>) = entity_of v"
  by (simp_all add: entity_of_def fun_eq_iff)

lemma generate_node_data_roomy:
  assumes "roomy w" and "len_ok w" and "deref (sessions w) (impl c) = Inr s"
  shows "zenoh_pico_generate_node_data (actual_domain_id c) name ns (impl c) w =
    Inr (Some (next_addr w + 2), with_node c s name ns None w)"
proof -
  let ?w1 = "w\<lparr>next_addr := Suc (next_addr w), node_infos := (node_infos w)(next_addr w \<mapsto> node_info_of c s name ns),
     next_node_id := (next_node_id w + 1) mod 2 ^ 64\<rparr>"
  let ?e = "entity_of w (info_zid (env w)) (next_node_id w) Node (Some (next_addr w)) None"
  have key: "generate_liveliness (lineness_len (env w)) (copy_ok (env w)) v ?e =
      Inr (Some (key_of w (node_info_of c s name ns) None ?e))"
    if "env v = env w" "node_infos v = node_infos ?w1" for v :: rmw_mem
    using generate_key [of v ?e "node_info_of c s name ns" None] that assms(1,2)
    by (simp add: roomy_def len_ok_def entity_of_def topic_of_def key_of_def)
  have "impl c \<noteq> None" using assms(3) by (auto simp: deref_eq_Inr)
  then show ?thesis
    using assms generate_entity_roomy [of ?w1 "info_zid (env w)" "next_node_id w" Node "Some (next_addr w)" None]
    by (simp add: zenoh_pico_generate_node_data_def generate_node_info_roomy zenoh_pico_get_next_node_id_def
        zenoh_pico_generate_node_entity_def roomy_generate data_obj_init_def zero_node_data_def Let_def key
        with_node_def node_data_of_def node_entity_def)
qed

text \<open>The last release of a node whose entity is its own.\<close>

lemma destroy_node_data_shared:
  assumes "live (node_datas w) a d" and "ref d \<noteq> 1"
  shows "zenoh_pico_destroy_node_data (Some a) w = Inr (True, w\<lparr>node_datas := (node_datas w)(a \<mapsto> d\<lparr>ref := ref d - 1\<rparr>)\<rparr>)"
  using assms by (simp add: zenoh_pico_destroy_node_data_def Release_live Let_def)

lemma destroy_node_entity:
  assumes "live (entities w) a e" and "ref e = 1" and "node_info e = Some ni" "live (node_infos w) ni n" "topic_info e = None"
  shows "zenoh_pico_destroy_entity (Some a) w =
    Inr (True, w\<lparr>entities := (entities w)(a := None), node_infos := drop_ref (node_infos w) ni\<rparr>)"
  using assms by (simp add: zenoh_pico_destroy_entity_def Release_live Let_def destroy_node_info_live)

lemma destroy_node_data_last:
  assumes "live (node_datas w) a d" and "ref d = 1" and "nd_entity d = Some ea" and "live (entities w) ea e" and "ref e = 1"
    and "node_info e = Some ni" "live (node_infos w) ni n" "topic_info e = None"
  shows "zenoh_pico_destroy_node_data (Some a) w = Inr (True, (z_undeclare (nd_token d) w)\<lparr>
    node_datas := (node_datas w)(a := None), entities := (entities w)(ea := None), node_infos := drop_ref (node_infos w) ni\<rparr>)"
proof -
  let ?v = "(z_undeclare (nd_token d) w)\<lparr>node_datas := (node_datas w)(a \<mapsto> d\<lparr>ref := 0\<rparr>)\<rparr>"
  have u: "z_undeclare t (v\<lparr>node_datas := h\<rparr>) = (z_undeclare t v)\<lparr>node_datas := h\<rparr>" for t h and v :: rmw_mem
    by (cases t) (simp_all add: znote_def)
  have f: "entities (z_undeclare t v) = entities v" "node_infos (z_undeclare t v) = node_infos v"
    "node_datas (z_undeclare t v) = node_datas v" for t and v :: rmw_mem
    by (cases t; simp add: znote_def)+
  have "zenoh_pico_destroy_entity (Some ea) ?v =
      Inr (True, ?v\<lparr>entities := (entities w)(ea := None), node_infos := drop_ref (node_infos w) ni\<rparr>)"
    using destroy_node_entity [of ?v ea e ni n] assms(4-8) by (simp add: f)
  then show ?thesis
    using assms(2,3) by (simp add: zenoh_pico_destroy_node_data_def Release_live [OF assms(1)] Let_def u f)
qed

subsection \<open>Creating and destroying a node\<close>

text \<open>Arguments for which \<open>rmw_create_node\<close> gets to the end when zenoh and memory allow: an open session.\<close>

definition node_args_ok :: "addr \<Rightarrow> rmw_context_t \<Rightarrow> ZenohPicoSession \<Rightarrow> string \<Rightarrow> string \<Rightarrow> rmw_mem \<Rightarrow> bool" where
  "node_args_ok a c s name ns w \<longleftrightarrow> contexts w a = Some c \<and> identifiers_match (ctx_identifier c) \<and>
     deref (sessions w) (impl c) = Inr s \<and> enable_session s \<and> cstr name \<noteq> [] \<and> cstr ns \<noteq> [] \<and> roomy w \<and> len_ok w"

definition node_handle :: "addr \<Rightarrow> rmw_mem \<Rightarrow> rmw_node_t" where
  "node_handle a w = \<lparr>hdl = next_addr w + 3, implementation_identifier = Some rmw_get_implementation_identifier,
     data = Some (next_addr w + 2), node_name = Some (next_addr w + 4), node_namespace = Some (next_addr w + 5),
     node_context = Some a\<rparr>"

definition with_node_bufs :: "string \<Rightarrow> string \<Rightarrow> addr \<Rightarrow> rmw_mem \<Rightarrow> rmw_mem" where
  "with_node_bufs name ns n w = w\<lparr>next_addr := n + 3, bufs := (bufs w)(n \<mapsto> [], n + 1 \<mapsto> bytes_of (cstr name) @ [0],
     n + 2 \<mapsto> bytes_of (cstr ns) @ [0])\<rparr>"

lemma connect_enabled: "deref (sessions w) p = Inr s \<Longrightarrow> enable_session s \<Longrightarrow> session_connect p w = Inr (RMW_RET_OK, w)"
  by (auto simp: session_connect_def deref_eq_Inr)

lemma string_clone_roomy:
  "roomy v \<Longrightarrow> zenoh_pico_string_clone str v = Inr (Some (next_addr v), v\<lparr>next_addr := Suc (next_addr v),
     bufs := (bufs v)(next_addr v \<mapsto> bytes_of str @ [0])\<rparr>)"
  by (simp add: zenoh_pico_string_clone_def buf_put_def)

lemma node_generate_run:
  assumes "roomy v" and "node_datas v nd = Some d" and "nd_entity d = Some ea" "entities v ea = Some e"
    and "node_info e = Some ni" "node_infos v ni = Some i"
  shows "rmw_node_generate ctx (Some nd) v =
    Inr (Some \<lparr>hdl = next_addr v, implementation_identifier = Some rmw_get_implementation_identifier, data = Some nd,
       node_name = Some (Suc (next_addr v)), node_namespace = Some (Suc (Suc (next_addr v))), node_context = ctx\<rparr>,
     v\<lparr>next_addr := Suc (Suc (Suc (next_addr v))), bufs := (bufs v)(next_addr v \<mapsto> [],
       Suc (next_addr v) \<mapsto> bytes_of (ni_name i) @ [0], Suc (Suc (next_addr v)) \<mapsto> bytes_of (ni_ns i) @ [0])\<rparr>)"
  using assms by (simp add: rmw_node_generate_def buf_put_def string_clone_roomy)

lemma node_generate_roomy:
  assumes "roomy w"
  shows "rmw_node_generate (Some a) (Some (next_addr w + 2)) (with_node c s name ns t w) =
    Inr (Some (node_handle a w), with_node_bufs name ns (next_addr w + 3) (with_node c s name ns t w))"
proof -
  let ?v = "with_node c s name ns t w"
  have n: "next_addr ?v = next_addr w + 3" "Suc (next_addr w + 3) = next_addr w + 4" "Suc (next_addr w + 4) = next_addr w + 5"
    "Suc (next_addr w + 5) = next_addr w + 6"
    by (simp_all add: with_node_def)
  have "rmw_node_generate (Some a) (Some (next_addr w + 2)) ?v =
    Inr (Some \<lparr>hdl = next_addr ?v, implementation_identifier = Some rmw_get_implementation_identifier,
       data = Some (next_addr w + 2), node_name = Some (Suc (next_addr ?v)), node_namespace = Some (Suc (Suc (next_addr ?v))),
       node_context = Some a\<rparr>,
     ?v\<lparr>next_addr := Suc (Suc (Suc (next_addr ?v))), bufs := (bufs ?v)(next_addr ?v \<mapsto> [],
       Suc (next_addr ?v) \<mapsto> bytes_of (ni_name (node_info_of c s name ns)) @ [0],
       Suc (Suc (next_addr ?v)) \<mapsto> bytes_of (ni_ns (node_info_of c s name ns)) @ [0])\<rparr>)"
    by (rule node_generate_run [of _ _ "node_data_of w c s name ns t" "next_addr w + 1" "node_entity w" "next_addr w"])
      (use assms in \<open>simp_all add: with_node_def node_data_of_def node_entity_def entity_of_def\<close>)
  then show ?thesis
    unfolding n by (simp add: node_handle_def with_node_bufs_def node_info_of_def add.commute)
qed

lemma create_node_roomy:
  assumes "node_args_ok a c s name ns w" and "key = key_of w (node_info_of c s name ns) None (node_entity w)"
  shows "rmw_create_node (Some a) (Some name) (Some ns) w =
    (if zok (env w) (trace w) (ZDeclareToken key)
     then Inr (Some (node_handle a w),
       (with_node_bufs name ns (next_addr w + 3) (with_node c s name ns (Some key) w))\<lparr>trace := ZDeclareToken key # trace w\<rparr>)
     else andthen (zenoh_pico_destroy_node_data (Some (next_addr w + 2))
       ((with_node_bufs name ns (next_addr w + 3) (with_node c s name ns None w))\<lparr>trace := ZDeclareToken key # trace w\<rparr>))
         (\<lambda>(_, w). Inr (None, w)))"
proof -
  let ?w = "with_node_bufs name ns (next_addr w + 3) (with_node c s name ns None w)"
  have i: "(impl c = None) = False" using assms(1) by (auto simp: node_args_ok_def deref_eq_Inr)
  have g: "zenoh_pico_generate_node_data (actual_domain_id c) name ns (impl c) w =
      Inr (Some (next_addr w + 2), with_node c s name ns None w)"
    using assms(1) by (intro generate_node_data_roomy) (simp_all add: node_args_ok_def)
  have h: "rmw_node_generate (Some a) (Some (next_addr w + 2)) (with_node c s name ns None w) = Inr (Some (node_handle a w), ?w)"
    using assms(1) by (intro node_generate_roomy) (simp add: node_args_ok_def)
  have d: "declaration_node_data (Some (next_addr w + 2)) ?w =
      (if zok (env w) (trace w) (ZDeclareToken key)
       then Inr (True, (with_node_bufs name ns (next_addr w + 3) (with_node c s name ns (Some key) w))\<lparr>trace := ZDeclareToken key # trace w\<rparr>)
       else Inr (False, ?w\<lparr>trace := ZDeclareToken key # trace w\<rparr>))"
    using assms by (simp add: declaration_node_data_def with_node_bufs_def with_node_def node_data_of_def zcall_def node_args_ok_def)
  show ?thesis
    using assms(1) by (simp add: rmw_create_node_def node_args_ok_def connect_enabled g h d i del: add_2_eq_Suc')
qed

lemma destroy_node_run:
  assumes "identifiers_match (implementation_identifier n)" and "data n = Some d"
    and "zenoh_pico_destroy_node_data (Some d) w = Inr (r, v)"
    and "node_name n = Some x" "node_namespace n = Some y" and "distinct [x, y, hdl n]"
    and "{x, y, hdl n} \<subseteq> dom (bufs v)"
  shows "rmw_destroy_node (Some n) w = Inr (RMW_RET_OK, v\<lparr>bufs := (bufs v)(x := None, y := None, hdl n := None)\<rparr>)"
  using assms by (auto simp: rmw_destroy_node_def rmw_node_destroy_def z_free_def)

text \<open>
  C28: A node's life. With an open session, memory and zenoh's consent, rmw_create_node returns a node of this
  implementation after declaring exactly one liveliness token, under the key of the node's entity, and
  rmw_destroy_node answers OK, undeclares that token and frees the handle, both names, the node data, its
  entity and its node description: every heap is as it was, only the counters have moved.
\<close>

theorem node_roundtrip:
  assumes "node_args_ok a c s name ns w" and "rmw_ok w"
    and "key = key_of w (node_info_of c s name ns) None (node_entity w)" and "zok (env w) (trace w) (ZDeclareToken key)"
  shows "\<exists>node w'. rmw_create_node (Some a) (Some name) (Some ns) w = Inr (Some node, w') \<and>
    trace w' = ZDeclareToken key # trace w \<and> node_context node = Some a \<and>
    rmw_destroy_node (Some node) w' = Inr (RMW_RET_OK, w\<lparr>next_addr := next_addr w + 6,
      next_node_id := (next_node_id w + 1) mod 2 ^ 64, next_entity_id := (next_entity_id w + 1) mod 2 ^ 64,
      trace := ZUndeclare key # ZDeclareToken key # trace w\<rparr>)"
proof -
  let ?n = "next_addr w"
  let ?w = "(with_node_bufs name ns (?n + 3) (with_node c s name ns (Some key) w))\<lparr>trace := ZDeclareToken key # trace w\<rparr>"
  let ?d = "node_data_of w c s name ns (Some key)"
  have c: "rmw_create_node (Some a) (Some name) (Some ns) w = Inr (Some (node_handle a w), ?w)"
    using create_node_roomy [OF assms(1,3)] assms(4) by simp
  note fresh = rmw_ok_fresh [OF assms(2)]
  have d: "zenoh_pico_destroy_node_data (Some (?n + 2)) ?w = Inr (True, (z_undeclare (nd_token ?d) ?w)\<lparr>
      node_datas := (node_datas ?w)(?n + 2 := None), entities := (entities ?w)(?n + 1 := None),
      node_infos := drop_ref (node_infos ?w) ?n\<rparr>)"
    by (rule destroy_node_data_last [of _ _ _ _ "node_entity w" _ "node_info_of c s name ns"])
      (simp_all add: live_def with_node_bufs_def with_node_def node_data_of_def node_entity_def entity_of_def node_info_of_def)
  have h: "(node_datas ?w)(?n + 2 := None) = node_datas w" "(entities ?w)(?n + 1 := None) = entities w"
    "drop_ref (node_infos ?w) ?n = node_infos w"
    using fresh by (simp_all add: with_node_bufs_def with_node_def drop_ref_def node_info_of_def fun_upd_idem)
  have b: "(bufs ?w)(?n + 4 := None, ?n + 5 := None, ?n + 3 := None) = bufs w"
    using fresh(1) by (auto simp: with_node_bufs_def with_node_def fun_eq_iff)
  let ?v = "(z_undeclare (nd_token ?d) ?w)\<lparr>node_datas := node_datas w, entities := entities w, node_infos := node_infos w\<rparr>"
  have "rmw_destroy_node (Some (node_handle a w)) ?w =
      Inr (RMW_RET_OK, ?v\<lparr>bufs := (bufs ?v)(?n + 4 := None, ?n + 5 := None, hdl (node_handle a w) := None)\<rparr>)"
    by (rule destroy_node_run [OF _ _ d [unfolded h]])
      (simp_all add: node_handle_def identifiers_match_def with_node_bufs_def with_node_def node_data_of_def znote_def)
  moreover have "(bufs ?v)(?n + 4 := None, ?n + 5 := None, hdl (node_handle a w) := None) = bufs w"
    unfolding b [symmetric] by (simp add: node_handle_def node_data_of_def znote_def)
  ultimately have "rmw_destroy_node (Some (node_handle a w)) ?w = Inr (RMW_RET_OK, w\<lparr>next_addr := ?n + 6,
      next_node_id := (next_node_id w + 1) mod 2 ^ 64, next_entity_id := (next_entity_id w + 1) mod 2 ^ 64,
      trace := ZUndeclare key # ZDeclareToken key # trace w\<rparr>)"
    by (simp add: with_node_bufs_def with_node_def node_data_of_def znote_def)
  moreover have "trace ?w = ZDeclareToken key # trace w" "node_context (node_handle a w) = Some a" by (simp_all add: node_handle_def)
  ultimately show ?thesis using c by blast
qed

subsection \<open>A concrete node and the failures\<close>

definition open_session :: ZenohPicoSession where
  "open_session = (used_session 1 [(''mode'', ''client'')] ''/'')\<lparr>ss_config := None, enable_session := True\<rparr>"

definition open_context :: rmw_context_t where
  "open_context = \<lparr>ctx_instance_id = 0, ctx_identifier = Some rmw_get_implementation_identifier, actual_domain_id = 42,
     impl = Some zenohSession\<rparr>"

definition open_mem :: rmw_mem where
  "open_mem = start_mem\<lparr>contexts := [7 \<mapsto> open_context], sessions := [zenohSession \<mapsto> open_session]\<rparr>"

lemma roomy_start [simp]: "roomy start_mem" "len_ok start_mem"
  by (simp_all add: roomy_def len_ok_def small_env_def)

lemma open_mem_ok: "rmw_ok open_mem"
  by (simp add: rmw_ok_def ent_ok_def mem_ok_def open_mem_def start_mem_def wait_mem.defs small_wait_mem_def
      small_msg_mem_def msg_mem.defs ent_mem.defs mem.defs small_mem_def)

lemma open_mem_args: "node_args_ok 7 open_context open_session ''talker'' ''/'' open_mem"
proof -
  have "roomy open_mem" "len_ok open_mem"
    using roomy_start by (simp_all add: open_mem_def roomy_def len_ok_def)
  then show ?thesis
    by (simp add: node_args_ok_def open_mem_def open_context_def open_session_def used_session_def
        identifiers_match_def cstr_def NUL_def)
qed

theorem node_roundtrip_witness:
  "\<exists>node w' w''. rmw_create_node (Some 7) (Some ''talker'') (Some ''/'') open_mem = Inr (Some node, w') \<and>
     rmw_destroy_node (Some node) w' = Inr (RMW_RET_OK, w'') \<and> node_datas w'' = Map.empty \<and> length (trace w'') = 2"
proof -
  let ?k = "key_of open_mem (node_info_of open_context open_session ''talker'' ''/'') None (node_entity open_mem)"
  have z: "zok (env open_mem) (trace open_mem) (ZDeclareToken ?k)" by (simp add: open_mem_def small_env_def)
  from node_roundtrip [OF open_mem_args open_mem_ok refl z]
  obtain node w' where "rmw_create_node (Some 7) (Some ''talker'') (Some ''/'') open_mem = Inr (Some node, w')"
    "rmw_destroy_node (Some node) w' = Inr (RMW_RET_OK, open_mem\<lparr>next_addr := next_addr open_mem + 6,
      next_node_id := (next_node_id open_mem + 1) mod 2 ^ 64, next_entity_id := (next_entity_id open_mem + 1) mod 2 ^ 64,
      trace := ZUndeclare ?k # ZDeclareToken ?k # trace open_mem\<rparr>)"
    by blast
  then show ?thesis by (intro exI conjI) (assumption | simp add: open_mem_def)+
qed

text \<open>
  Error paths of node creation. When the first or second allocation of zenoh_pico_generate_node_data fails,
  the clean-up reads an uninitialised pointer; when the third fails, it releases the node description
  by itself and then once more through the entity, which is a use after free. No failed allocation is
  handled.
\<close>

theorem node_alloc_failures:
  assumes "sessions w sp = Some s" and "\<And>t. copy_ok (env w) t" and "rmw_ok w"
    and "\<exists>k < 3. oom (env w) (next_addr w + k)"
  shows "zenoh_pico_generate_node_data domain name ns (Some sp) w =
    Inl (if oom (env w) (next_addr w) \<or> oom (env w) (next_addr w + 1) then Uninitialised else UseAfterFree)"
proof -
  let ?n = "next_addr w"
  have cp: "copy_ok (env w) = (\<lambda>_. True)" using assms(2) by auto
  have three: "oom (env w) ?n \<or> oom (env w) (Suc ?n) \<or> oom (env w) (Suc (Suc ?n))"
  proof -
    obtain k where "k < 3" "oom (env w) (?n + k)" using assms(4) by blast
    then show ?thesis by (cases k; cases "k - 1") (auto simp: less_Suc_eq numeral_3_eq_3)
  qed
  note defs = zenoh_pico_generate_node_data_def zenoh_pico_generate_node_info_def ZenohPicoDataGenerate_def z_malloc_def
    node_error_def release_descriptions_def conv_domain_eq data_obj_init_def zero_node_info_def cp
    z_string_copy_from_str_def zenoh_pico_get_next_node_id_def zenoh_pico_generate_node_entity_def zenoh_pico_generate_entity_def
    zero_entity_def zenoh_pico_get_next_entity_id_def zenoh_pico_destroy_node_info_def ZenohPicoDataRelease_def
    ZenohPicoDataRefDec_def drop_node_info_def zenoh_pico_destroy_entity_def
  show ?thesis
  proof (cases "oom (env w) ?n")
    case True
    then show ?thesis using assms(1) by (simp add: defs)
  next
    case False
    then show ?thesis using assms(1) three rmw_ok_fresh(2) [OF assms(3)]
      by (cases "oom (env w) (Suc ?n)") (simp_all add: defs Let_def)
  qed
qed

definition tight_mem :: "nat \<Rightarrow> rmw_mem" where
  "tight_mem n = open_mem\<lparr>env := small_env\<lparr>oom := (\<lambda>k. k = n)\<rparr>\<rparr>"

theorem node_alloc_failures_witness:
  "zenoh_pico_generate_node_data 0 ''talker'' ''/'' (Some zenohSession) (tight_mem (next_addr open_mem + 2)) = Inl UseAfterFree"
proof -
  let ?w = "tight_mem (next_addr open_mem + 2)"
  have "sessions ?w zenohSession = Some open_session" "\<And>t. copy_ok (env ?w) t" "\<exists>k < 3. oom (env ?w) (next_addr ?w + k)"
    "\<not> oom (env ?w) (next_addr ?w)" "\<not> oom (env ?w) (next_addr ?w + 1)"
    by (simp_all add: tight_mem_def open_mem_def small_env_def)
  moreover have "rmw_ok ?w" using open_mem_ok by (simp add: tight_mem_def rmw_ok_def ent_ok_def mem_ok_def)
  ultimately show ?thesis using node_alloc_failures [of ?w zenohSession open_session 0 "''talker''" "''/''"] by simp
qed

text \<open>
  The graph guard condition cannot be used. For every live node of a session made by
  zenoh_pico_generate_session, rmw_node_get_graph_guard_condition returns a handle of this implementation, but
  triggering it, or attaching a wait set to it as rmw_wait does, treats program code as a mutex.
\<close>

theorem graph_guard_unusable:
  assumes "node_datas w a = Some d" and "nd_session d = Some sp" and "sessions w sp = Some s"
    and "graph_guard_condition s = graph_guard_condition (used_session k cfg e)"
    and "identifiers_match (implementation_identifier node)" and "data node = Some a"
  shows "\<exists>g. rmw_node_get_graph_guard_condition (Some node) w = Inr (Some g) \<and>
    gh_identifier g = Some rmw_get_implementation_identifier \<and>
    rmw_trigger_guard_condition (Some g) w = Inl BadPointer \<and>
    guard_condition_check_and_attach (gh_data g) ws w = Inl BadPointer"
  using assms by (simp add: rmw_node_get_graph_guard_condition_def used_session_def rmw_trigger_guard_condition_def
      identifiers_match_def guard_condition_trigger_def guard_condition_check_and_attach_def)

theorem graph_guard_unusable_witness:
  "\<exists>node w' g. rmw_create_node (Some 7) (Some ''talker'') (Some ''/'') open_mem = Inr (Some node, w') \<and>
     rmw_node_get_graph_guard_condition (Some node) w' = Inr (Some g) \<and> rmw_trigger_guard_condition (Some g) w' = Inl BadPointer"
proof -
  let ?n = "next_addr open_mem"
  let ?k = "key_of open_mem (node_info_of open_context open_session ''talker'' ''/'') None (node_entity open_mem)"
  let ?w = "(with_node_bufs ''talker'' ''/'' (?n + 3) (with_node open_context open_session ''talker'' ''/'' (Some ?k) open_mem))
    \<lparr>trace := ZDeclareToken ?k # trace open_mem\<rparr>"
  have c: "rmw_create_node (Some 7) (Some ''talker'') (Some ''/'') open_mem = Inr (Some (node_handle 7 open_mem), ?w)"
    using create_node_roomy [OF open_mem_args refl] by (simp add: open_mem_def small_env_def)
  have "\<exists>g. rmw_node_get_graph_guard_condition (Some (node_handle 7 open_mem)) ?w = Inr (Some g) \<and>
    gh_identifier g = Some rmw_get_implementation_identifier \<and>
    rmw_trigger_guard_condition (Some g) ?w = Inl BadPointer \<and>
    guard_condition_check_and_attach (gh_data g) None ?w = Inl BadPointer"
    by (rule graph_guard_unusable [of _ "?n + 2" "node_data_of open_mem open_context open_session ''talker'' ''/'' (Some ?k)"
          zenohSession open_session 1 "[]" "''/''"])
      (simp_all add: with_node_bufs_def with_node_def node_data_of_def open_context_def open_mem_def open_session_def
        used_session_def node_handle_def identifiers_match_def)
  then show ?thesis using c by blast
qed

end
