(* ===== verification/Endpoint.thy ===== *)
theory Endpoint
  imports Node
begin

section \<open>What subscriptions, publishers, services and clients share\<close>

text \<open>
  Pieces of code that \<open>rmw_subscription.c\<close>, \<open>rmw_publisher.c\<close> and \<open>rmw_service.c\<close> repeat: the
  first lines of the generate functions, the topic key, the loops that empty a queue on destruction and the
  argument checks of the create functions.  The fuel of the loops is the allocation counter, which exceeds
  the number of messages.
\<close>

subsection \<open>The start of a generate function\<close>

text \<open>
  \<open>node->session\<close> is read for the session id, then a reference on the node description of
  \<open>node->entity\<close> is taken.
\<close>

definition clone_node_info :: "addr option \<Rightarrow> rmw_mem \<Rightarrow> (ZenohPicoNodeData \<times> addr option \<times> rmw_mem) res" where
  "clone_node_info node w =
     andthen (deref (node_datas w) node) (\<lambda>d.
     andthen (deref (sessions w) (nd_session d)) (\<lambda>_.
     andthen (deref (entities w) (nd_entity d)) (\<lambda>e.
     andthen (ZenohPicoDataRefClone (node_infos w) (node_info e)) (\<lambda>(ni, h).
       Inr (d, ni, w\<lparr>node_infos := h\<rparr>)))))"

definition endpoint_topic_key :: "addr option \<Rightarrow> addr option \<Rightarrow> rmw_mem \<Rightarrow> string option res" where
  "endpoint_topic_key ni ti w =
     andthen (deref (node_infos w) ni) (\<lambda>n.
     andthen (deref (topic_infos w) ti) (\<lambda>t.
       ros_topic_name_to_zenoh_key (lineness_len (env w)) (copy_ok (env w)) (ni_domain n) (ti_name t) (ti_type t) (ti_hash t)))"

subsection \<open>Emptying queues\<close>

text \<open>\<open>while(!empty) { pop; ZenohPicoDataDestroy }\<close>, which frees only messages whose count is zero.\<close>

fun pop_destroy_loop :: "nat \<Rightarrow> ReceiveMessageDataList \<Rightarrow> rmw_mem \<Rightarrow> (ReceiveMessageDataList \<times> rmw_mem) res" where
  "pop_destroy_loop fuel l w =
     andthen (recv_msg_list_empty (Some l)) (\<lambda>(empty, l).
       if empty then Inr (the l, w)
       else (case fuel of 0 \<Rightarrow> Inl Nontermination
         | Suc n \<Rightarrow> andthen (recv_msg_list_pop l (msgs w)) (\<lambda>(p, l, h).
             andthen (ZenohPicoDataDestroy h p) (\<lambda>h. pop_destroy_loop n (the l) (w\<lparr>msgs := h\<rparr>)))))"

declare pop_destroy_loop.simps [simp del]

text \<open>\<open>while(true) { pop; if NULL break; zenoh_pico_delete_recv_msg_data }\<close>\<close>

fun pop_delete_loop :: "nat \<Rightarrow> ReceiveMessageDataList \<Rightarrow> rmw_mem \<Rightarrow> (ReceiveMessageDataList \<times> rmw_mem) res" where
  "pop_delete_loop fuel l w =
     andthen (recv_msg_list_pop (Some l) (msgs w)) (\<lambda>(p, l, h). let w = w\<lparr>msgs := h\<rparr> in
       if p = None then Inr (the l, w)
       else (case fuel of 0 \<Rightarrow> Inl Nontermination
         | Suc n \<Rightarrow> andthen (zenoh_pico_delete_recv_msg_data p w) (\<lambda>(_, w). pop_delete_loop n (the l) w)))"

declare pop_delete_loop.simps [simp del]

text \<open>
  What \<open>zenoh_pico_destroy_service_data\<close> does with its two queues, for services and clients, and
  \<open>zenoh_pico_destroy_subscription_data\<close> with its own: \<open>if(count > 0) while(true) {...}\<close>.  The code has no bound; the model lets the loop
  run for \<open>next_addr\<close> rounds, the number of addresses ever given out, which is no fewer than the messages
  that a well-formed queue can hold.  \<open>drain_frees_queue\<close> of theory \<open>Teardown\<close> shows how many rounds are taken.
\<close>

definition drain_queue :: "ReceiveMessageDataList \<Rightarrow> rmw_mem \<Rightarrow> (ReceiveMessageDataList \<times> rmw_mem) res" where
  "drain_queue l w =
     andthen (recv_msg_list_count (Some l)) (\<lambda>(n, l).
       if n > 0 then pop_delete_loop (next_addr w) (the l) w else Inr (the l, w))"

subsection \<open>Names given to handles\<close>

text \<open>\<open>Z_MALLOC(strlen + 1)\<close>, \<open>memset\<close>, \<open>strcpy\<close>, with the allocation tested.\<close>

definition name_buffer :: "string \<Rightarrow> rmw_mem \<Rightarrow> addr option \<times> rmw_mem" where
  "name_buffer s w = (case z_malloc w of (None, w) \<Rightarrow> (None, w)
     | (Some a, w) \<Rightarrow> (Some a, buf_put a (bytes_of (cstr s) @ [0]) w))"

text \<open>A null context or a null session in it makes every create function answer null.\<close>

definition context_impl :: "rmw_node_t \<Rightarrow> rmw_mem \<Rightarrow> addr option res" where
  "context_impl node w = (case node_context node of None \<Rightarrow> Inr None
     | Some a \<Rightarrow> andthen (deref (contexts w) (Some a)) (\<lambda>c. Inr (impl c)))"

subsection \<open>Lemmas\<close>

lemma clone_node_info_live:
  assumes "node_datas w node = Some d" and "deref (sessions w) (nd_session d) = Inr s"
    and "nd_entity d = Some ea" "entities w ea = Some e" and "node_info e = Some ni" "live (node_infos w) ni n"
  shows "clone_node_info (Some node) w = Inr (d, Some ni, w\<lparr>node_infos := (node_infos w)(ni \<mapsto> n\<lparr>ref := ref n + 1\<rparr>)\<rparr>)"
  using assms RefClone_live [OF assms(6)] by (simp add: clone_node_info_def)

lemma name_buffer_roomy:
  "roomy w \<Longrightarrow> name_buffer s w = (Some (next_addr w), w\<lparr>next_addr := Suc (next_addr w),
     bufs := (bufs w)(next_addr w \<mapsto> bytes_of (cstr s) @ [0])\<rparr>)"
  by (simp add: name_buffer_def buf_put_def)

lemma drain_queue_empty: "queue_rep (msgs w) l [] \<Longrightarrow> drain_queue l w = Inr (l, w)"
  by (simp add: drain_queue_def count_rep)

lemma pop_destroy_loop_empty: "queue_rep (msgs w) l [] \<Longrightarrow> pop_destroy_loop n l w = Inr (l, w)"
  by (subst pop_destroy_loop.simps) (simp add: empty_rep)

text \<open>Messages that are still referenced survive the first loop, but nobody holds them any more.\<close>

lemma pop_destroy_loop_leaks:
  assumes "queue_rep (msgs w) l as" and "length as \<le> n" and "\<And>a d. a \<in> set as \<Longrightarrow> msgs w a = Some d \<Longrightarrow> ref d \<noteq> 0"
  shows "\<exists>l' h. pop_destroy_loop n l w = Inr (l', w\<lparr>msgs := h\<rparr>) \<and> queue_rep h l' [] \<and> same_msgs (msgs w) h"
  using assms
proof (induction as arbitrary: l w n)
  case Nil
  then show ?case by (intro exI [of _ l] exI [of _ "msgs w"]) (simp add: pop_destroy_loop_empty)
next
  case (Cons a as)
  obtain m where n: "n = Suc m" using Cons.prems(2) by (cases n) auto
  obtain l1 d where p: "msgs w a = Some d" "recv_msg_list_pop (Some l) (msgs w) = Inr (Some a, Some l1, (msgs w)(a \<mapsto> d\<lparr>next_msg := None\<rparr>))"
    "queue_rep ((msgs w)(a \<mapsto> d\<lparr>next_msg := None\<rparr>)) l1 as"
    using pop_cons [OF Cons.prems(1)] by blast
  let ?h = "(msgs w)(a \<mapsto> d\<lparr>next_msg := None\<rparr>)"
  have nz: "ref d \<noteq> 0" using Cons.prems(3) [of a] p(1) by simp
  have q: "queue_rep (msgs (w\<lparr>msgs := ?h\<rparr>)) l1 as" using p(3) by (simp del: fun_upd_apply)
  have le: "length as \<le> m" using Cons.prems(2) n by simp
  have keep: "b \<in> set as \<Longrightarrow> msgs (w\<lparr>msgs := ?h\<rparr>) b = Some x \<Longrightarrow> ref x \<noteq> 0" for b x
    using Cons.prems(3) [of b] nz by (auto split: if_splits)
  have ex: "\<exists>l' h. pop_destroy_loop m l1 (w\<lparr>msgs := ?h\<rparr>) = Inr (l', w\<lparr>msgs := ?h\<rparr>\<lparr>msgs := h\<rparr>) \<and>
      queue_rep h l' [] \<and> same_msgs (msgs (w\<lparr>msgs := ?h\<rparr>)) h"
    by (rule Cons.IH [OF q le]) (rule keep)
  obtain l' h where r: "pop_destroy_loop m l1 (w\<lparr>msgs := ?h\<rparr>) = Inr (l', w\<lparr>msgs := h\<rparr>)" "queue_rep h l' []"
    "same_msgs ?h h"
    using ex by (auto simp del: fun_upd_apply)
  have "pop_destroy_loop n l w = Inr (l', w\<lparr>msgs := h\<rparr>)"
    using nz r(1) by (subst pop_destroy_loop.simps) (simp add: n empty_rep [OF Cons.prems(1)] p(2) del: fun_upd_apply add: fun_upd_same)
  moreover have "same_msgs (msgs w) h" using same_msgs_upd [where h = "msgs w" and p = None, OF p(1)] r(3) by (rule same_msgs_trans)
  ultimately show ?case using r(2) by blast
qed

end
