(* ===== verification/Mailbox.thy ===== *)
theory Mailbox
  imports Endpoint
begin

section \<open>Delivery into a queue\<close>

text \<open>
  Subscriptions, servers and clients do the same with an incoming message: make a message object, append it to a
  queue, run or count the user's callback and wake the wait set that waits for the owner.  The locale states
  what the three \<open>add_new_\<dots>_message\<close> functions promise and derives from it what the zenoh callbacks do.
\<close>

text \<open>Appending and popping only touch messages of the queue.\<close>

lemma append_frame:
  assumes "queue_rep h l as" and "recv_msg_list_append (Some l) (Some a) h = Inr (p, l', h')" and "x \<notin> set as" and "x \<noteq> a"
  shows "h' x = h x"
proof -
  have b: "que_bottom l = None \<or> (\<exists>b. que_bottom l = Some b \<and> b \<in> set as)"
    using assms(1) by (cases as) (auto simp: queue_rep_def split: if_splits)
  have m: "que_mutex l = Unlocked" using assms(1) by (simp add: queue_rep_def)
  show ?thesis
    using assms(2-4) b m by (auto simp: recv_msg_list_append_def Let_def deref_def andthen_def split: option.splits sum.splits if_splits)
qed

lemma pickup_loop_frame:
  assumes "chain h (Some a) (a # cs)" and "pickup_loop n f a l h = Inr (p, l', h')" and "x \<notin> set (a # cs)"
  shows "h' x = h x"
  using assms
proof (induction cs arbitrary: a n)
  case Nil
  then show ?case by (cases n) auto
next
  case (Cons c cs)
  obtain b e where b: "h a = Some b" "next_msg b = Some c" "h c = Some e" using Cons.prems(1) by auto
  obtain m where n: "n = Suc m" using Cons.prems(2) by (cases n) auto
  show ?case
  proof (cases "f e = Inr True")
    case True
    then show ?thesis
      using Cons.prems(2,3) b n by (auto simp: Let_def deref_def andthen_def split: sum.splits option.splits if_splits)
  next
    case False
    then have "pickup_loop m f c l h = Inr (p, l', h')" using Cons.prems(2) b n by (auto simp: andthen_eq_Inr split: if_splits)
    then show ?thesis using Cons.IH [of c m] Cons.prems(1,3) b by auto
  qed
qed

lemma pickup_frame:
  assumes "queue_rep h l as" and "recv_msg_list_pickup n (Some l) f h = Inr (p, l', h')" and "x \<notin> set as"
  shows "h' x = h x"
proof (cases as)
  case Nil
  then show ?thesis using assms(1,2) by (auto simp: recv_msg_list_pickup_def queue_rep_def Let_def)
next
  case (Cons a cs)
  obtain d where a: "que_top l = Some a" "chain h (Some a) (a # cs)" "h a = Some d" "que_mutex l = Unlocked"
    using assms(1) Cons by (auto simp: queue_rep_def)
  show ?thesis
  proof (cases "f d = Inr True")
    case True
    then show ?thesis using assms(2,3) a Cons by (auto simp: recv_msg_list_pickup_def Let_def split: if_splits)
  next
    case False
    obtain p2 l2 h2 where r: "pickup_loop n f a (l\<lparr>que_mutex := Locked\<rparr>) h = Inr (p2, l2, h2)" "h2 = h'"
      using assms(2) a False
      by (auto simp: recv_msg_list_pickup_def Let_def andthen_eq_Inr split: prod.splits if_splits)
    then show ?thesis using pickup_loop_frame [OF a(2) r(1), of x] assms(3) Cons by auto
  qed
qed

lemma chain_cong: "(\<And>x. x \<in> set as \<Longrightarrow> h' x = h x) \<Longrightarrow> chain h' p as = chain h p as"
  by (induction as arbitrary: p) auto

lemma queue_rep_cong: "(\<And>x. x \<in> set as \<Longrightarrow> h' x = h x) \<Longrightarrow> queue_rep h' l as = queue_rep h l as"
  using chain_cong [of as h' h] by (simp add: queue_rep_def)

lemma queue_rep_frame: "a \<notin> set as \<Longrightarrow> queue_rep (h(a := x)) l as = queue_rep h l as"
  by (rule queue_rep_cong) auto

text \<open>The wait set waiting for an object, if any, is alive and not locked.\<close>

definition waiter_ok :: "rmw_mem \<Rightarrow> addr option \<Rightarrow> bool" where
  "waiter_ok w p \<longleftrightarrow> (case p of None \<Rightarrow> True | Some x \<Rightarrow> \<exists>s. ws_idle w x s)"

lemma waiter_ok_cong: "wait_sets w' = wait_sets w \<Longrightarrow> waiter_ok w' p = waiter_ok w p"
  by (simp add: waiter_ok_def ws_idle_def [abs_def] split: option.split)

definition wake :: "addr option \<Rightarrow> (addr \<rightharpoonup> ZenohPicoWaitSetData) \<Rightarrow> (addr \<rightharpoonup> ZenohPicoWaitSetData)" where
  "wake p h = (case p of None \<Rightarrow> h | Some x \<Rightarrow> h(x := map_option signalled (h x)))"

definition announced :: "DataEventManager \<Rightarrow> DataEventManager" where
  "announced m = (if callback m = None then m\<lparr>unread_count := unread_count m + 1\<rparr> else m)"

definition announcement :: "DataEventManager \<Rightarrow> zcall list" where
  "announcement m = (case callback m of None \<Rightarrow> [] | Some c \<Rightarrow> [UserCallback c (user_data m) 1])"

lemma callback_trigger_announces:
  "mgr_ok m \<Longrightarrow> data_callback_trigger m w = Inr (announced m, w\<lparr>trace := announcement m @ trace w\<rparr>)"
proof (cases "callback m")
  case None
  assume "mgr_ok m"
  then show ?thesis using callback_trigger_simps(2) [of m w] None by (simp add: announced_def announcement_def)
next
  case (Some c)
  assume "mgr_ok m"
  then show ?thesis using callback_trigger_simps(1) [of m c w] Some by (simp add: announced_def announcement_def znote_def)
qed

lemma announced_ok [simp]: "mgr_ok (announced m) = mgr_ok m"
  by (simp add: announced_def mgr_ok_def)

lemma condition_trigger_wakes:
  assumes "condition_mutex c = Unlocked" and "waiter_ok w (wait_set_data_ptr c)"
  shows "zenoh_pico_condition_trigger c w = Inr (c, w\<lparr>wait_sets := wake (wait_set_data_ptr c) (wait_sets w)\<rparr>)"
proof (cases "wait_set_data_ptr c")
  case None
  then show ?thesis using trigger_detached [OF assms(1) None, of w] by (simp add: wake_def)
next
  case (Some x)
  then obtain s where s: "ws_idle w x s" using assms(2) by (auto simp: waiter_ok_def)
  then have "wait_sets w x = Some s" by (simp add: ws_idle_def)
  then show ?thesis using trigger_attached [OF assms(1) Some s] Some by (simp add: wake_def)
qed

definition handle_sample ::
  "(addr option \<Rightarrow> rmw_mem \<Rightarrow> (unit \<times> rmw_mem) res) \<Rightarrow> z_sample \<Rightarrow> rmw_mem \<Rightarrow> (unit \<times> rmw_mem) res" where
  "handle_sample add sample w = (case zenoh_pico_gen_timestamp w of (ts, w) \<Rightarrow>
     andthen (rmw_zenoh_pico_generate_recv_sample_msg_data sample ts w) (\<lambda>(m, w). if m = None then Inr ((), w) else add m w))"

definition handle_query ::
  "(rmw_mem \<Rightarrow> rmw_mem) \<Rightarrow> (addr option \<Rightarrow> rmw_mem \<Rightarrow> (unit \<times> rmw_mem) res) \<Rightarrow> z_query \<Rightarrow> rmw_mem \<Rightarrow> (unit \<times> rmw_mem) res" where
  "handle_query fail add q w = (case zenoh_pico_gen_timestamp w of (ts, w) \<Rightarrow>
     andthen (rmw_zenoh_pico_generate_recv_query_msg_data q ts w) (\<lambda>(m, w). if m = None then Inr ((), fail w) else add m w))"

lemma timestamp_split: "zenoh_pico_gen_timestamp w = (fst (zenoh_pico_gen_timestamp w), w\<lparr>ticks := Suc (ticks w)\<rparr>)"
  by (simp add: zenoh_pico_gen_timestamp_def clock_gettime_def split: prod.split)

locale mailbox =
  fixes datas :: "rmw_mem \<Rightarrow> addr \<rightharpoonup> 'd"
    and queue :: "'d \<Rightarrow> ReceiveMessageDataList"
    and manager :: "'d \<Rightarrow> DataEventManager"
    and mutex_of :: "'d \<Rightarrow> mutex"
    and waiting :: "'d \<Rightarrow> addr option"
    and received :: "ReceiveMessageDataList \<Rightarrow> 'd \<Rightarrow> 'd"
    and add_new :: "addr option \<Rightarrow> addr option \<Rightarrow> rmw_mem \<Rightarrow> (unit \<times> rmw_mem) res"
  assumes add_new_law:
    "datas w a = Some d \<Longrightarrow> mgr_ok (manager d) \<Longrightarrow> mutex_of d = Unlocked \<Longrightarrow> waiter_ok w (waiting d) \<Longrightarrow>
     recv_msg_list_append (Some (queue d)) (Some m) (msgs w) = Inr (Some m, Some l, h) \<Longrightarrow>
     \<exists>w'. add_new (Some a) (Some m) w = Inr ((), w') \<and> datas w' = (datas w)(a \<mapsto> received l d) \<and> msgs w' = h \<and>
       bufs w' = bufs w \<and> trace w' = announcement (manager d) @ trace w \<and> wait_sets w' = wake (waiting d) (wait_sets w)"
    and datas_frame: "datas (w\<lparr>ticks := n\<rparr>) = datas w" "datas (with_msg md bs w) = datas w" "datas (znote c w) = datas w"
begin

definition ready_for :: "rmw_mem \<Rightarrow> addr \<Rightarrow> 'd \<Rightarrow> addr list \<Rightarrow> bool" where
  "ready_for w a d as \<longleftrightarrow> datas w a = Some d \<and> queue_rep (msgs w) (queue d) as \<and> mgr_ok (manager d) \<and>
     mutex_of d = Unlocked \<and> waiter_ok w (waiting d)"

lemma add_new_appends:
  assumes "ready_for w a d as" and "msgs w m = Some md" and "m \<notin> set as"
  shows "\<exists>w' l. add_new (Some a) (Some m) w = Inr ((), w') \<and> datas w' = (datas w)(a \<mapsto> received l d) \<and>
    queue_rep (msgs w') l (as @ [m]) \<and> same_msgs (msgs w) (msgs w') \<and> (\<forall>x. x \<notin> set as \<longrightarrow> x \<noteq> m \<longrightarrow> msgs w' x = msgs w x) \<and>
    bufs w' = bufs w \<and> trace w' = announcement (manager d) @ trace w \<and> wait_sets w' = wake (waiting d) (wait_sets w)"
proof -
  have d: "datas w a = Some d" "mgr_ok (manager d)" "mutex_of d = Unlocked" "waiter_ok w (waiting d)" "queue_rep (msgs w) (queue d) as"
    using assms(1) by (simp_all add: ready_for_def)
  obtain l h where ap: "recv_msg_list_append (Some (queue d)) (Some m) (msgs w) = Inr (Some m, Some l, h)"
    "queue_rep h l (as @ [m])" "same_msgs (msgs w) h"
    using append_rep [OF d(5) assms(2,3)] by blast
  show ?thesis
    using add_new_law [OF d(1-4) ap(1)] ap(2,3) append_frame [OF d(5) ap(1)] by fastforce
qed

text \<open>What a callback does with a message that can be read, when there is memory.\<close>

lemma sample_delivered:
  assumes "ready_for w a d as" and "roomy w" and "msgs w (next_addr w) = None"
    and "attachment_data_get (codec (env w)) (sample_attachment s) zero_attachment = (True, att)"
  shows "\<exists>w' l md. handle_sample (add_new (Some a)) s w = Inr ((), w') \<and>
    datas w' = (datas w)(a \<mapsto> received l d) \<and> queue_rep (msgs w') l (as @ [next_addr w]) \<and>
    md = sample_msg (Suc (next_addr w)) (sample_payload s) (fst (zenoh_pico_gen_timestamp w)) att \<and>
    same_msgs ((msgs w)(next_addr w \<mapsto> md)) (msgs w') \<and>
    (\<forall>x. x \<notin> set as \<longrightarrow> x \<noteq> next_addr w \<longrightarrow> msgs w' x = msgs w x) \<and>
    bufs w' = (bufs w)(Suc (next_addr w) \<mapsto> sample_payload s) \<and>
    trace w' = announcement (manager d) @ trace w \<and> wait_sets w' = wake (waiting d) (wait_sets w)"
proof -
  let ?m = "next_addr w" and ?ts = "fst (zenoh_pico_gen_timestamp w)" and ?w1 = "w\<lparr>ticks := Suc (ticks w)\<rparr>"
  let ?md = "sample_msg (Suc ?m) (sample_payload s) ?ts att"
  obtain w2 where w2: "w2 = with_msg ?md (sample_payload s) ?w1" by blast
  have f: "msgs w2 = (msgs w)(?m \<mapsto> ?md)" "datas w2 = datas w" "wait_sets w2 = wait_sets w" "trace w2 = trace w"
    "bufs w2 = (bufs w)(Suc ?m \<mapsto> sample_payload s)"
    by (simp_all add: w2 datas_frame) (simp_all add: with_msg_def)
  have g: "rmw_zenoh_pico_generate_recv_sample_msg_data s ?ts ?w1 = Inr (Some ?m, w2)"
    using recv_sample_roomy [of ?w1 s att ?ts] assms(2,4) by (simp add: roomy_def w2)
  have notin: "?m \<notin> set as"
    using assms(1,3) chain_dom [of "msgs w" _ as ?m] by (auto simp: ready_for_def queue_rep_def)
  have r: "ready_for w2 a d as"
    using assms(1) notin
    by (simp add: ready_for_def waiter_ok_cong [OF f(3)] f queue_rep_def chain_frame del: fun_upd_apply)
  have m: "msgs w2 ?m = Some ?md" by (simp add: f)
  have run: "handle_sample (add_new (Some a)) s w = add_new (Some a) (Some ?m) w2"
    by (subst handle_sample_def, subst timestamp_split) (simp only: option.simps if_False prod.case g andthen_Inr)
  show ?thesis
    using add_new_appends [OF r m notin] unfolding run f by (elim exE conjE, intro exI conjI) (assumption | rule refl | simp)+
qed

lemma query_delivered:
  assumes "ready_for w a d as" and "roomy w" and "msgs w (next_addr w) = None"
    and "attachment_data_get (codec (env w)) (query_attachment q) zero_attachment = (True, att)"
  shows "\<exists>w' l md. handle_query fail (add_new (Some a)) q w = Inr ((), w') \<and>
    datas w' = (datas w)(a \<mapsto> received l d) \<and> queue_rep (msgs w') l (as @ [next_addr w]) \<and>
    md = query_msg (Suc (next_addr w)) q (fst (zenoh_pico_gen_timestamp w)) att \<and>
    same_msgs ((msgs w)(next_addr w \<mapsto> md)) (msgs w') \<and>
    (\<forall>x. x \<notin> set as \<longrightarrow> x \<noteq> next_addr w \<longrightarrow> msgs w' x = msgs w x) \<and>
    bufs w' = (bufs w)(Suc (next_addr w) \<mapsto> query_payload q) \<and>
    trace w' = announcement (manager d) @ ZQueryClone (query_id q) # trace w \<and> wait_sets w' = wake (waiting d) (wait_sets w)"
proof -
  let ?m = "next_addr w" and ?ts = "fst (zenoh_pico_gen_timestamp w)" and ?w1 = "w\<lparr>ticks := Suc (ticks w)\<rparr>"
  let ?md = "query_msg (Suc ?m) q ?ts att"
  obtain w2 where w2: "w2 = znote (ZQueryClone (query_id q)) (with_msg ?md (query_payload q) ?w1)" by blast
  have f: "msgs w2 = (msgs w)(?m \<mapsto> ?md)" "datas w2 = datas w" "wait_sets w2 = wait_sets w"
    "trace w2 = ZQueryClone (query_id q) # trace w" "bufs w2 = (bufs w)(Suc ?m \<mapsto> query_payload q)"
    by (simp_all add: w2 datas_frame) (simp_all add: with_msg_def znote_def)
  have g: "rmw_zenoh_pico_generate_recv_query_msg_data q ?ts ?w1 = Inr (Some ?m, w2)"
    using recv_query_roomy [of ?w1 q att ?ts] assms(2,4) by (simp add: roomy_def w2)
  have notin: "?m \<notin> set as"
    using assms(1,3) chain_dom [of "msgs w" _ as ?m] by (auto simp: ready_for_def queue_rep_def)
  have r: "ready_for w2 a d as"
    using assms(1) notin
    by (simp add: ready_for_def waiter_ok_cong [OF f(3)] f queue_rep_def chain_frame del: fun_upd_apply)
  have m: "msgs w2 ?m = Some ?md" by (simp add: f)
  have run: "handle_query fail (add_new (Some a)) q w = add_new (Some a) (Some ?m) w2"
    by (subst handle_query_def, subst timestamp_split) (simp only: option.simps if_False prod.case g andthen_Inr)
  show ?thesis
    using add_new_appends [OF r m notin] unfolding run f by (elim exE conjE, intro exI conjI) (assumption | rule refl | simp)+
qed

end

end
