(* ===== verification/Subscription.thy ===== *)
theory Subscription
  imports Mailbox
begin

section \<open>Subscriptions\<close>

text \<open>
  \<open>rmw_subscription.c\<close>, the subscription part of \<open>rmw_event.c\<close> and \<open>rmw_take.c\<close>.  A subscription
  handle points to \<open>ZenohPicoSubData\<close>, whose queue the zenoh callback fills and the take functions empty.
\<close>

definition zero_sub_data :: ZenohPicoSubData where
  "zero_sub_data = \<lparr>ref = 0, lock = Unlocked, sub_id = 0, sub_liveliness_key = [], sub_topic_key = [],
     sub_liveliness = None, sub_topic = None, sub_node = None, sub_entity = None, sub_qos_profile = zero_qos,
     sub_callbacks = no_callbacks, message_queue = recv_msg_list_init, sub_event_mgr = zero_mgr,
     sub_condition_mutex = Unlocked, sub_wait_set_data = None\<rparr>"

text \<open>\<open>on_sub\<close> applies a function to the object behind a pointer.\<close>

definition on_sub ::
  "addr option \<Rightarrow> rmw_mem \<Rightarrow> (ZenohPicoSubData \<Rightarrow> rmw_mem \<Rightarrow> ('r \<times> ZenohPicoSubData \<times> rmw_mem) res) \<Rightarrow> ('r \<times> rmw_mem) res" where
  "on_sub p w f = andthen (deref (sub_datas w) p) (\<lambda>d. andthen (f d w) (\<lambda>(r, d, w).
     Inr (r, w\<lparr>sub_datas := (sub_datas w)(the p \<mapsto> d)\<rparr>)))"

lemma on_sub_simps [simp]:
  "on_sub None w f = Inl NullDeref"
  "sub_datas w a = None \<Longrightarrow> on_sub (Some a) w f = Inl UseAfterFree"
  "sub_datas w a = Some d \<Longrightarrow> on_sub (Some a) w f =
     andthen (f d w) (\<lambda>(r, d, w). Inr (r, w\<lparr>sub_datas := (sub_datas w)(a \<mapsto> d)\<rparr>))"
  by (simp_all add: on_sub_def)

subsection \<open>Waiting conditions\<close>

definition sub_condition :: "ZenohPicoSubData \<Rightarrow> ZenohPicoWaitCondition" where
  "sub_condition d = \<lparr>condition_mutex = sub_condition_mutex d, msg_queue = Some (message_queue d),
     wait_set_data_ptr = sub_wait_set_data d\<rparr>"

definition put_sub_condition :: "ZenohPicoWaitCondition \<Rightarrow> ZenohPicoSubData \<Rightarrow> ZenohPicoSubData" where
  "put_sub_condition c d = d\<lparr>sub_condition_mutex := condition_mutex c, message_queue := the (msg_queue c),
     sub_wait_set_data := wait_set_data_ptr c\<rparr>"

definition subscription_condition_trigger :: "addr option \<Rightarrow> rmw_mem \<Rightarrow> (unit \<times> rmw_mem) res" where
  "subscription_condition_trigger p w = on_sub p w (\<lambda>d w.
     andthen (zenoh_pico_condition_trigger (sub_condition d) w) (\<lambda>(c, w). Inr ((), put_sub_condition c d, w)))"

definition subscription_condition_check_and_attach :: "addr option \<Rightarrow> addr option \<Rightarrow> rmw_mem \<Rightarrow> (bool \<times> rmw_mem) res" where
  "subscription_condition_check_and_attach p ws w = on_sub p w (\<lambda>d w.
     andthen (zenoh_pico_condition_check_and_attach ws (sub_condition d)) (\<lambda>(r, c). Inr (r, put_sub_condition c d, w)))"

definition subscription_condition_detach_and_queue_is_empty :: "addr option \<Rightarrow> rmw_mem \<Rightarrow> (bool \<times> rmw_mem) res" where
  "subscription_condition_detach_and_queue_is_empty p w = on_sub p w (\<lambda>d w.
     andthen (zenoh_pico_condition_detach_and_queue_is_empty (sub_condition d)) (\<lambda>(r, c). Inr (r, put_sub_condition c d, w)))"

subsection \<open>Incoming samples\<close>

definition sub_append :: "addr option \<Rightarrow> addr option \<Rightarrow> rmw_mem \<Rightarrow> (unit \<times> rmw_mem) res" where
  "sub_append p m w = on_sub p w (\<lambda>d w.
     andthen (recv_msg_list_append (Some (message_queue d)) m (msgs w)) (\<lambda>(_, l, h).
       Inr ((), d\<lparr>message_queue := the l\<rparr>, w\<lparr>msgs := h\<rparr>)))"

definition sub_callback_trigger :: "addr option \<Rightarrow> rmw_mem \<Rightarrow> (unit \<times> rmw_mem) res" where
  "sub_callback_trigger p w = on_sub p w (\<lambda>d w.
     andthen (data_callback_trigger (sub_event_mgr d) w) (\<lambda>(m, w). Inr ((), d\<lparr>sub_event_mgr := m\<rparr>, w)))"

definition add_new_subscription_message :: "addr option \<Rightarrow> addr option \<Rightarrow> rmw_mem \<Rightarrow> (unit \<times> rmw_mem) res" where
  "add_new_subscription_message p m w =
     andthen (sub_append p m w) (\<lambda>(_, w).
     andthen (sub_callback_trigger p w) (\<lambda>(_, w).
     subscription_condition_trigger p w))"

definition subscription_data_handler :: "z_sample \<Rightarrow> addr option \<Rightarrow> rmw_mem \<Rightarrow> (unit \<times> rmw_mem) res" where
  "subscription_data_handler sample ctx w =
     (if ctx = None then Inr ((), w)
      else (case zenoh_pico_gen_timestamp w of (ts, w) \<Rightarrow>
        andthen (rmw_zenoh_pico_generate_recv_sample_msg_data sample ts w) (\<lambda>(m, w).
          if m = None then Inr ((), w) else add_new_subscription_message ctx m w)))"

subsection \<open>Generation and destruction\<close>

definition sub_error :: "addr option \<Rightarrow> addr option \<Rightarrow> addr option option \<Rightarrow> rmw_mem \<Rightarrow> (addr option \<times> rmw_mem) res" where
  "sub_error ni entity sub_data w =
     andthen (release_descriptions ni entity w) (\<lambda>w.
     (case sub_data of None \<Rightarrow> Inl Uninitialised
      | Some None \<Rightarrow> Inr (None, w)
      | Some (Some a) \<Rightarrow> andthen (ZenohPicoDataDestroy (sub_datas w) (Some a)) (\<lambda>h. Inr (None, w\<lparr>sub_datas := h\<rparr>))))"

definition zenoh_pico_generate_subscription_data ::
  "addr option \<Rightarrow> string \<Rightarrow> rosidl_message_type_support_t \<Rightarrow> rmw_qos_profile_t \<Rightarrow> rmw_mem \<Rightarrow> (addr option \<times> rmw_mem) res" where
  "zenoh_pico_generate_subscription_data node topic type_support qos_profile w =
     (if node = None then Inr (None, w)
      else andthen (clone_node_info node w) (\<lambda>(n, ni, w).
        andthen (zenoh_pico_generate_subscription_entity (info_zid (env w)) (nd_id n) ni topic type_support qos_profile w) (\<lambda>(entity, w).
        if entity = None then sub_error ni entity None w
        else (case ZenohPicoDataGenerate zero_sub_data (sub_datas w) w of
            (None, h, w) \<Rightarrow> sub_error ni entity (Some None) (w\<lparr>sub_datas := h\<rparr>)
          | (Some a, h, w) \<Rightarrow>
              andthen (deref h (Some a)) (\<lambda>d.
              andthen (deref (entities w) entity) (\<lambda>e.
              let d = d\<lparr>sub_id := ent_id e, sub_node := node, sub_entity := entity, sub_callbacks := ts_data type_support,
                        sub_qos_profile := qos_profile\<rparr>;
                  w = w\<lparr>sub_datas := h(a \<mapsto> d)\<rparr> in
              andthen (generate_liveliness (lineness_len (env w)) (copy_ok (env w)) w e) (\<lambda>key.
              (case key of None \<Rightarrow> sub_error ni entity (Some (Some a)) w
               | Some key \<Rightarrow>
                  let d = d\<lparr>sub_liveliness_key := key\<rparr>; w = w\<lparr>sub_datas := h(a \<mapsto> d)\<rparr> in
                  andthen (endpoint_topic_key ni (topic_info e) w) (\<lambda>tkey.
                  (case tkey of None \<Rightarrow> sub_error ni entity (Some (Some a)) w
                   | Some tkey \<Rightarrow>
                      andthen (data_callback_init (layout (env w)) (sub_event_mgr d)) (\<lambda>m.
                      let d = d\<lparr>sub_topic_key := tkey, message_queue := recv_msg_list_init, sub_event_mgr := m,
                                sub_condition_mutex := Unlocked, sub_wait_set_data := None\<rparr> in
                      Inr (Some a, w\<lparr>sub_datas := h(a \<mapsto> d)\<rparr>))))))))))))"

definition undeclaration_subscription_data :: "addr option \<Rightarrow> rmw_mem \<Rightarrow> (bool \<times> rmw_mem) res" where
  "undeclaration_subscription_data p w = on_sub p w (\<lambda>d w.
     Inr (True, d\<lparr>sub_topic := None, sub_liveliness := None\<rparr>, z_undeclare (sub_liveliness d) (z_undeclare (sub_topic d) w)))"

definition zenoh_pico_destroy_subscription_data :: "addr option \<Rightarrow> rmw_mem \<Rightarrow> (bool \<times> rmw_mem) res" where
  "zenoh_pico_destroy_subscription_data p w =
     (if p = None then Inr (False, w)
      else andthen (ZenohPicoDataRelease (sub_datas w) p) (\<lambda>(last, h). let w = w\<lparr>sub_datas := h\<rparr> in
        if last then
          andthen (undeclaration_subscription_data p w) (\<lambda>(_, w).
          andthen (deref (sub_datas w) p) (\<lambda>d.
          let d = d\<lparr>sub_liveliness_key := [], sub_topic_key := [], sub_liveliness := None, sub_topic := None\<rparr> in
          andthen (pop_destroy_loop (next_addr w) (message_queue d) w) (\<lambda>(l, w).
          andthen (if sub_node d \<noteq> None then zenoh_pico_destroy_node_data (sub_node d) w else Inr (True, w)) (\<lambda>(_, w).
          andthen (if sub_entity d \<noteq> None then zenoh_pico_destroy_entity (sub_entity d) w else Inr (True, w)) (\<lambda>(_, w).
          andthen (drain_queue l w) (\<lambda>(l, w).
          let d = d\<lparr>message_queue := l, sub_node := None, sub_entity := None, sub_condition_mutex := Dropped,
                    sub_wait_set_data := None\<rparr> in
          andthen (ZenohPicoDataDestroy ((sub_datas w)(the p \<mapsto> d)) p) (\<lambda>h. Inr (True, w\<lparr>sub_datas := h\<rparr>))))))))
        else Inr (True, w)))"

definition declaration_subscription_data :: "addr option \<Rightarrow> rmw_mem \<Rightarrow> (bool \<times> rmw_mem) res" where
  "declaration_subscription_data p w = on_sub p w (\<lambda>d w.
     andthen (deref (node_datas w) (sub_node d)) (\<lambda>n.
     andthen (deref (sessions w) (nd_session n)) (\<lambda>_.
     (case zcall (ZDeclareSubscriber (sub_topic_key d)) w of (ok, w) \<Rightarrow>
        if \<not> ok then Inr (False, d, w)
        else (case declaration_liveliness (sub_liveliness_key d) w of ((ok, token), w) \<Rightarrow>
          Inr (ok, d\<lparr>sub_topic := Some (sub_topic_key d), sub_liveliness := token\<rparr>, w))))))"

subsection \<open>Create and destroy\<close>

text \<open>
  The checks of \<open>rmw_create_subscription\<close> do not look at the node's identifier.  A type support that
  is not of this implementation is \<open>None\<close>.  When generation fails, the reference taken on the node
  is not given back; when declaring fails, the handle and its name are not freed.
\<close>

definition rmw_create_subscription ::
  "rmw_node_t option \<Rightarrow> rosidl_message_type_support_t option option \<Rightarrow> string option \<Rightarrow> rmw_qos_profile_t option \<Rightarrow> bool
     \<Rightarrow> rmw_mem \<Rightarrow> (rmw_subscription_t option \<times> rmw_mem) res" where
  "rmw_create_subscription node type_supports topic qos_profile has_options w =
     (case node of None \<Rightarrow> Inr (None, w) | Some n \<Rightarrow>
      if type_supports = None then Inr (None, w)
      else if topic = None then Inr (None, w)
      else if cstr (the topic) = [] then Inr (None, w)
      else if qos_profile = None then Inr (None, w)
      else if \<not> has_options then Inr (None, w)
      else andthen (context_impl n w) (\<lambda>i.
        if i = None then Inr (None, w)
        else if data n = None then Inr (None, w)
        else if \<not> avoid_ros_namespace_conventions (the qos_profile) \<and> \<not> rmw_zenoh_pico_check_validate_name (the topic) w
        then Inr (None, w)
        else (case the type_supports of None \<Rightarrow> Inr (None, w) | Some type_support \<Rightarrow>
          andthen (ZenohPicoDataRefClone (node_datas w) (data n)) (\<lambda>(nd, h).
          andthen (zenoh_pico_generate_subscription_data nd (the topic) type_support (the qos_profile) (w\<lparr>node_datas := h\<rparr>)) (\<lambda>(d, w).
            if d = None then Inr (None, w)
            else (case z_malloc w of
                (None, w) \<Rightarrow> andthen (zenoh_pico_destroy_subscription_data d w) (\<lambda>(_, w). Inr (None, w))
              | (Some a, w) \<Rightarrow>
                  let w = buf_put a [] w in
                  andthen (deref (sub_datas w) d) (\<lambda>sd.
                  andthen (deref (entities w) (sub_entity sd)) (\<lambda>e.
                  andthen (deref (topic_infos w) (topic_info e)) (\<lambda>t.
                  andthen (zenoh_pico_string_clone (ti_name t) w) (\<lambda>(name, w).
                  andthen (declaration_subscription_data d w) (\<lambda>(ok, w).
                    if \<not> ok then andthen (zenoh_pico_destroy_subscription_data d w) (\<lambda>(_, w). Inr (None, w))
                    else Inr (Some \<lparr>hdl = a, implementation_identifier = Some rmw_get_implementation_identifier, data = d,
                           topic_name = name\<rparr>, w))))))))))))"

definition rmw_destroy_subscription ::
  "rmw_node_t option \<Rightarrow> rmw_subscription_t option \<Rightarrow> rmw_mem \<Rightarrow> (rmw_ret_t \<times> rmw_mem) res" where
  "rmw_destroy_subscription node subscription w =
     (case node of None \<Rightarrow> Inr (RMW_RET_INVALID_ARGUMENT, w) | Some n \<Rightarrow>
     (case subscription of None \<Rightarrow> Inr (RMW_RET_INVALID_ARGUMENT, w) | Some s \<Rightarrow>
      if \<not> identifiers_match (implementation_identifier n) then Inr (RMW_RET_INCORRECT_RMW_IMPLEMENTATION, w)
      else if \<not> identifiers_match (implementation_identifier s) then Inr (RMW_RET_INCORRECT_RMW_IMPLEMENTATION, w)
      else andthen (if data s \<noteq> None
                    then andthen (undeclaration_subscription_data (data s) w) (\<lambda>(_, w). zenoh_pico_destroy_subscription_data (data s) w)
                    else Inr (True, w)) (\<lambda>(_, w).
           andthen (z_free (topic_name s) w) (\<lambda>w.
           andthen (z_free (Some (hdl s)) w) (\<lambda>w. Inr (RMW_RET_OK, w))))))"

definition rmw_subscription_set_on_new_message_callback ::
  "rmw_subscription_t option \<Rightarrow> nat option \<Rightarrow> nat option \<Rightarrow> rmw_mem \<Rightarrow> (rmw_ret_t \<times> rmw_mem) res" where
  "rmw_subscription_set_on_new_message_callback subscription cb ud w =
     (case subscription of None \<Rightarrow> Inr (RMW_RET_INVALID_ARGUMENT, w) | Some s \<Rightarrow>
      if data s = None then Inr (RMW_RET_INVALID_ARGUMENT, w)
      else on_sub (data s) w (\<lambda>d w.
        andthen (data_callback_set ud cb (sub_event_mgr d) w) (\<lambda>(m, w). Inr (RMW_RET_OK, d\<lparr>sub_event_mgr := m\<rparr>, w))))"

subsection \<open>Delivery\<close>

text \<open>A subscription between two calls: its queue holds \<open>as\<close> and nobody holds its mutexes.\<close>

definition sub_received :: "ReceiveMessageDataList \<Rightarrow> ZenohPicoSubData \<Rightarrow> ZenohPicoSubData" where
  "sub_received l d = d\<lparr>message_queue := l, sub_event_mgr := announced (sub_event_mgr d)\<rparr>"

definition sub_ready :: "rmw_mem \<Rightarrow> addr \<Rightarrow> ZenohPicoSubData \<Rightarrow> addr list \<Rightarrow> bool" where
  "sub_ready w a d as \<longleftrightarrow> sub_datas w a = Some d \<and> queue_rep (msgs w) (message_queue d) as \<and>
     mgr_ok (sub_event_mgr d) \<and> sub_condition_mutex d = Unlocked \<and> waiter_ok w (sub_wait_set_data d)"

lemma add_new_subscription_message_run:
  assumes d: "sub_datas w a = Some d" "mgr_ok (sub_event_mgr d)" "sub_condition_mutex d = Unlocked"
    and wt: "waiter_ok w (sub_wait_set_data d)"
    and ap: "recv_msg_list_append (Some (message_queue d)) (Some m) (msgs w) = Inr (Some m, Some l, h)"
  shows "add_new_subscription_message (Some a) (Some m) w = Inr ((), w\<lparr>msgs := h,
      trace := announcement (sub_event_mgr d) @ trace w, sub_datas := (sub_datas w)(a \<mapsto> sub_received l d),
      wait_sets := wake (sub_wait_set_data d) (wait_sets w)\<rparr>)"
proof -
  let ?d1 = "d\<lparr>message_queue := l\<rparr>"
  let ?w1 = "w\<lparr>msgs := h, sub_datas := (sub_datas w)(a \<mapsto> ?d1)\<rparr>"
  let ?d2 = "sub_received l d"
  let ?w2 = "w\<lparr>msgs := h, trace := announcement (sub_event_mgr d) @ trace w, sub_datas := (sub_datas w)(a \<mapsto> ?d2)\<rparr>"
  have 1: "sub_append (Some a) (Some m) w = Inr ((), ?w1)" using d(1) ap by (simp add: sub_append_def)
  have 2: "sub_callback_trigger (Some a) ?w1 = Inr ((), ?w2)"
    using d(2) by (simp add: sub_callback_trigger_def callback_trigger_announces sub_received_def)
  have wt: "waiter_ok ?w2 (wait_set_data_ptr (sub_condition ?d2))"
    using wt waiter_ok_cong [of ?w2 w "sub_wait_set_data d"] by (simp add: sub_condition_def sub_received_def)
  have c: "condition_mutex (sub_condition ?d2) = Unlocked" using d(3) by (simp add: sub_condition_def sub_received_def)
  have "put_sub_condition (sub_condition ?d2) ?d2 = ?d2" by (simp add: put_sub_condition_def sub_condition_def)
  then have 3: "subscription_condition_trigger (Some a) ?w2 = Inr ((), ?w2\<lparr>wait_sets := wake (sub_wait_set_data d) (wait_sets w)\<rparr>)"
    using condition_trigger_wakes [OF c wt]
    by (simp add: subscription_condition_trigger_def) (simp add: sub_condition_def sub_received_def)
  show ?thesis unfolding add_new_subscription_message_def 1 andthen_Inr prod.case 2 3 by simp
qed

interpretation sub_mailbox: mailbox sub_datas message_queue sub_event_mgr sub_condition_mutex sub_wait_set_data sub_received
  add_new_subscription_message
proof
  fix w a d m l h
  assume "sub_datas w a = Some d" "mgr_ok (sub_event_mgr d)" "sub_condition_mutex d = Unlocked" "waiter_ok w (sub_wait_set_data d)"
    "recv_msg_list_append (Some (message_queue d)) (Some m) (msgs w) = Inr (Some m, Some l, h)"
  from add_new_subscription_message_run [OF this]
  show "\<exists>w'. add_new_subscription_message (Some a) (Some m) w = Inr ((), w') \<and> sub_datas w' = (sub_datas w)(a \<mapsto> sub_received l d) \<and>
      msgs w' = h \<and> bufs w' = bufs w \<and> trace w' = announcement (sub_event_mgr d) @ trace w \<and>
      wait_sets w' = wake (sub_wait_set_data d) (wait_sets w)" by simp
qed (simp_all add: with_msg_def znote_def)

lemma sub_ready_for: "sub_mailbox.ready_for w a d as \<longleftrightarrow> sub_ready w a d as"
  by (simp add: sub_mailbox.ready_for_def sub_ready_def)

lemma subscription_data_handler_eq:
  "subscription_data_handler s (Some a) w = handle_sample (add_new_subscription_message (Some a)) s w"
  by (simp add: subscription_data_handler_def handle_sample_def)

text \<open>
  C12: Delivery of a sample. When a sample with a readable attachment arrives for a subscription between two calls,
  with memory, the zenoh callback appends one new message to its queue, carrying the payload, the sender's
  attachment and the time of reception; the older messages stay in front of it unchanged. The user's callback is
  called once, or the unread count grows by one when there is none, and a wait set attached to the
  subscription is triggered and signalled.
\<close>

theorem sample_is_delivered:
  assumes "sub_ready w a d as" and "roomy w" and "msgs w (next_addr w) = None"
    and "attachment_data_get (codec (env w)) (sample_attachment s) zero_attachment = (True, att)"
  shows "\<exists>w' l md. subscription_data_handler s (Some a) w = Inr ((), w') \<and>
    sub_datas w' = (sub_datas w)(a \<mapsto> d\<lparr>message_queue := l, sub_event_mgr := announced (sub_event_mgr d)\<rparr>) \<and>
    queue_rep (msgs w') l (as @ [next_addr w]) \<and>
    md = sample_msg (Suc (next_addr w)) (sample_payload s) (fst (zenoh_pico_gen_timestamp w)) att \<and>
    same_msgs ((msgs w)(next_addr w \<mapsto> md)) (msgs w') \<and>
    bufs w' = (bufs w)(Suc (next_addr w) \<mapsto> sample_payload s) \<and>
    trace w' = announcement (sub_event_mgr d) @ trace w \<and>
    wait_sets w' = wake (sub_wait_set_data d) (wait_sets w)"
  using sub_mailbox.sample_delivered [OF assms(1) [folded sub_ready_for] assms(2-4)]
  unfolding subscription_data_handler_eq sub_received_def by blast

definition echo_sub :: ZenohPicoSubData where
  "echo_sub = zero_sub_data\<lparr>ref := 1, sub_callbacks := echo_callbacks\<rparr>"

definition sub_mem :: rmw_mem where
  "sub_mem = start_mem\<lparr>sub_datas := [20 \<mapsto> echo_sub]\<rparr>"

lemma start_mem_addr [simp]: "next_addr start_mem = 0" "bufs start_mem = Map.empty"
  by (simp_all add: start_mem_def wait_mem.defs small_wait_mem_def small_msg_mem_def msg_mem.defs ent_mem.defs mem.defs small_mem_def)

theorem sample_is_delivered_witness:
  "\<exists>w' l'. subscription_data_handler \<lparr>sample_payload = [0, 1, 0, 0, 7], sample_attachment = query_attachment example_query\<rparr>
      (Some 20) sub_mem = Inr ((), w') \<and> queue_rep (msgs w') l' [0] \<and> bufs w' = [1 \<mapsto> [0, 1, 0, 0, 7]] \<and>
    map_option (unread_count \<circ> sub_event_mgr) (sub_datas w' 20) = Some 1"
proof -
  let ?s = "\<lparr>sample_payload = [0, 1, 0, 0, 7], sample_attachment = query_attachment example_query\<rparr>"
  have f: "next_addr sub_mem = 0" "bufs sub_mem = Map.empty" "msgs sub_mem = Map.empty" "env sub_mem = small_env"
    "sub_datas sub_mem = [20 \<mapsto> echo_sub]"
    by (simp_all add: sub_mem_def)
  have r: "sub_ready sub_mem 20 echo_sub []"
    by (simp add: sub_ready_def f echo_sub_def zero_sub_data_def mgr_ok_def zero_mgr_def queue_rep_def recv_msg_list_init_def
        waiter_ok_def)
  have ro: "roomy sub_mem" using roomy_start by (simp add: roomy_def f)
  have at: "attachment_data_get (codec (env sub_mem)) (sample_attachment ?s) zero_attachment =
      (True, \<lparr>sequence_num = 3, timestamp = 4, gid = [9]\<rparr>)"
    using example_query_attachment by (simp add: f small_env_def)
  have n: "msgs sub_mem (next_addr sub_mem) = None" by (simp add: f)
  obtain w' l' where d: "subscription_data_handler ?s (Some 20) sub_mem = Inr ((), w')"
    "sub_datas w' = (sub_datas sub_mem)(20 \<mapsto> echo_sub\<lparr>message_queue := l', sub_event_mgr := announced (sub_event_mgr echo_sub)\<rparr>)"
    "queue_rep (msgs w') l' ([] @ [next_addr sub_mem])" "bufs w' = (bufs sub_mem)(Suc (next_addr sub_mem) \<mapsto> sample_payload ?s)"
    using sample_is_delivered [OF r ro n at] by blast
  have "unread_count (announced (sub_event_mgr echo_sub)) = 1"
    by (simp add: announced_def echo_sub_def zero_sub_data_def zero_mgr_def)
  with d show ?thesis by (intro exI [of _ w'] exI [of _ l']) (simp add: f)
qed

end
