(* ===== verification/Take.thy ===== *)
theory Take
  imports Subscription
begin

section \<open>Taking messages\<close>

text \<open>
  \<open>rmw_take.c\<close>.  A message buffer of the caller is a \<open>ros_message\<close> value that is returned
  changed; pointers that the caller may leave null are options.
\<close>

definition sub_pop :: "addr option \<Rightarrow> rmw_mem \<Rightarrow> (addr option \<times> rmw_mem) res" where
  "sub_pop p w = on_sub p w (\<lambda>d w.
     andthen (recv_msg_list_pop (Some (message_queue d)) (msgs w)) (\<lambda>(m, l, h).
       Inr (m, d\<lparr>message_queue := the l\<rparr>, w\<lparr>msgs := h\<rparr>)))"

text \<open>A message that cannot be deserialised has left the queue and is not deleted.\<close>

definition rmw_zenoh_pico_take_one ::
  "addr option \<Rightarrow> ros_message \<Rightarrow> rmw_message_info_t option \<Rightarrow> bool option \<Rightarrow> rmw_mem
     \<Rightarrow> (rmw_ret_t \<times> bool option \<times> ros_message \<times> rmw_message_info_t option \<times> rmw_mem) res" where
  "rmw_zenoh_pico_take_one sub_data ros_message message_info taken w =
     andthen (sub_pop sub_data w) (\<lambda>(msg_data, w).
       if msg_data = None then Inr (RMW_RET_ERROR, taken, ros_message, message_info, w)
       else andthen (deref (sub_datas w) sub_data) (\<lambda>d.
         andthen (rmw_zenoh_pico_deserialize_topic_msg msg_data (sub_callbacks d) ros_message message_info w) (\<lambda>(rv, m, info).
           let taken = map_option (\<lambda>_. rv) taken in
           if \<not> rv then Inr (RMW_RET_ERROR, taken, m, info, w)
           else andthen (zenoh_pico_delete_recv_msg_data msg_data w) (\<lambda>(_, w). Inr (RMW_RET_OK, taken, m, info, w)))))"

definition rmw_take ::
  "rmw_subscription_t option \<Rightarrow> ros_message option \<Rightarrow> bool option \<Rightarrow> rmw_mem
     \<Rightarrow> (rmw_ret_t \<times> bool option \<times> ros_message option \<times> rmw_mem) res" where
  "rmw_take subscription ros_message taken w =
     (case subscription of None \<Rightarrow> Inr (RMW_RET_INVALID_ARGUMENT, taken, ros_message, w) | Some s \<Rightarrow>
      if topic_name s = None then Inr (RMW_RET_ERROR, taken, ros_message, w)
      else if data s = None then Inr (RMW_RET_ERROR, taken, ros_message, w)
      else if ros_message = None then Inr (RMW_RET_INVALID_ARGUMENT, taken, ros_message, w)
      else if taken = None then Inr (RMW_RET_INVALID_ARGUMENT, taken, ros_message, w)
      else if \<not> identifiers_match (implementation_identifier s)
      then Inr (RMW_RET_INCORRECT_RMW_IMPLEMENTATION, taken, ros_message, w)
      else andthen (rmw_zenoh_pico_take_one (data s) (the ros_message) None (Some False) w) (\<lambda>(r, taken, m, _, w).
        Inr (r, taken, Some m, w)))"

definition rmw_take_with_info ::
  "rmw_subscription_t option \<Rightarrow> ros_message option \<Rightarrow> bool option \<Rightarrow> rmw_message_info_t option \<Rightarrow> rmw_mem
     \<Rightarrow> (rmw_ret_t \<times> bool option \<times> ros_message option \<times> rmw_message_info_t option \<times> rmw_mem) res" where
  "rmw_take_with_info subscription ros_message taken message_info w =
     (case subscription of None \<Rightarrow> Inr (RMW_RET_INVALID_ARGUMENT, taken, ros_message, message_info, w) | Some s \<Rightarrow>
      if topic_name s = None then Inr (RMW_RET_ERROR, taken, ros_message, message_info, w)
      else if data s = None then Inr (RMW_RET_ERROR, taken, ros_message, message_info, w)
      else if ros_message = None then Inr (RMW_RET_INVALID_ARGUMENT, taken, ros_message, message_info, w)
      else if message_info = None then Inr (RMW_RET_INVALID_ARGUMENT, taken, ros_message, message_info, w)
      else if taken = None then Inr (RMW_RET_INVALID_ARGUMENT, taken, ros_message, message_info, w)
      else if \<not> identifiers_match (implementation_identifier s)
      then Inr (RMW_RET_INCORRECT_RMW_IMPLEMENTATION, taken, ros_message, message_info, w)
      else andthen (rmw_zenoh_pico_take_one (data s) (the ros_message) message_info (Some False) w) (\<lambda>(r, taken, m, info, w).
        Inr (r, taken, Some m, info, w)))"

record 'a rmw_sequence =
  seq_data :: "'a list"
  seq_size :: nat
  seq_capacity :: nat

type_synonym rmw_message_sequence_t = "ros_message rmw_sequence"
type_synonym rmw_message_info_sequence_t = "rmw_message_info_t rmw_sequence"

text \<open>The loop of \<open>rmw_take_sequence\<close> with \<open>n\<close> messages to go; \<open>taken\<close> of them are there.\<close>

fun take_sequence_loop ::
  "nat \<Rightarrow> nat \<Rightarrow> rmw_ret_t \<Rightarrow> addr option \<Rightarrow> ros_message list \<Rightarrow> rmw_message_info_t list \<Rightarrow> rmw_mem
     \<Rightarrow> (rmw_ret_t \<times> nat \<times> ros_message list \<times> rmw_message_info_t list \<times> rmw_mem) res" where
  "take_sequence_loop 0 taken ret sub_data ms infos w = Inr (ret, taken, ms, infos, w)"
| "take_sequence_loop (Suc n) taken ret sub_data ms infos w =
     (if length ms \<le> taken \<or> length infos \<le> taken then Inl OutOfBounds
      else andthen (rmw_zenoh_pico_take_one sub_data (ms ! taken) (Some (infos ! taken)) (Some False) w) (\<lambda>(ret, one_taken, m, info, w).
        let ms = ms[taken := m]; infos = infos[taken := the info] in
        if ret \<noteq> RMW_RET_OK then Inr (ret, taken, ms, infos, w)
        else if \<not> the one_taken then Inr (ret, taken, ms, infos, w)
        else take_sequence_loop n (Suc taken) ret sub_data ms infos w))"

definition rmw_take_sequence ::
  "rmw_subscription_t option \<Rightarrow> nat \<Rightarrow> rmw_message_sequence_t option \<Rightarrow> rmw_message_info_sequence_t option \<Rightarrow> nat option
     \<Rightarrow> rmw_mem \<Rightarrow> (rmw_ret_t \<times> nat option \<times> rmw_message_sequence_t option \<times> rmw_message_info_sequence_t option \<times> rmw_mem) res" where
  "rmw_take_sequence subscription count ms infos taken w =
     (case subscription of None \<Rightarrow> Inr (RMW_RET_INVALID_ARGUMENT, taken, ms, infos, w) | Some s \<Rightarrow>
      if topic_name s = None then Inr (RMW_RET_ERROR, taken, ms, infos, w)
      else if data s = None then Inr (RMW_RET_ERROR, taken, ms, infos, w)
      else if ms = None \<or> infos = None \<or> taken = None then Inr (RMW_RET_INVALID_ARGUMENT, taken, ms, infos, w)
      else if \<not> identifiers_match (implementation_identifier s)
      then Inr (RMW_RET_INCORRECT_RMW_IMPLEMENTATION, taken, ms, infos, w)
      else if count = 0 then Inr (RMW_RET_INVALID_ARGUMENT, taken, ms, infos, w)
      else if count > seq_capacity (the ms) then Inr (RMW_RET_INVALID_ARGUMENT, taken, ms, infos, w)
      else if count > seq_capacity (the infos) then Inr (RMW_RET_INVALID_ARGUMENT, taken, ms, infos, w)
      else if count > 2 ^ 32 - 1 then Inr (RMW_RET_ERROR, taken, ms, infos, w)
      else andthen (take_sequence_loop count 0 RMW_RET_ERROR (data s) (seq_data (the ms)) (seq_data (the infos)) w)
        (\<lambda>(ret, n, msgs, is, w). Inr (ret, Some n, Some ((the ms)\<lparr>seq_data := msgs, seq_size := n\<rparr>),
           Some ((the infos)\<lparr>seq_data := is, seq_size := n\<rparr>), w)))"

subsection \<open>Messages that can be taken\<close>

text \<open>
  \<open>inbox cb w as ms\<close>: the addresses \<open>as\<close> hold live samples, each referenced once, with payload buffers
  of their own from which the typesupport \<open>cb\<close> reads the messages \<open>ms\<close>.
\<close>

definition holds_msg :: "message_type_support_callbacks_t \<Rightarrow> rmw_mem \<Rightarrow> addr \<Rightarrow> addr \<Rightarrow> ros_message \<Rightarrow> bool" where
  "holds_msg cb w a p m \<longleftrightarrow> (\<exists>d bs. live (msgs w) a d \<and> ref d = 1 \<and> msg_type d = Sample \<and> payload_start d = Some p \<and>
     bufs w p = Some bs \<and> payload_size d = length bs \<and> ROS2_MSG_OFFSET \<le> length bs \<and>
     cdr_deserialize cb (drop ROS2_MSG_OFFSET bs) = (True, m))"

fun inbox :: "message_type_support_callbacks_t \<Rightarrow> rmw_mem \<Rightarrow> addr list \<Rightarrow> addr list \<Rightarrow> ros_message list \<Rightarrow> bool" where
  "inbox cb w [] [] [] \<longleftrightarrow> True"
| "inbox cb w (a # as) (p # ps) (m # ms) \<longleftrightarrow>
     holds_msg cb w a p m \<and> a \<notin> set as \<and> p \<notin> set ps \<and> inbox cb w as ps ms"
| "inbox _ _ _ _ _ \<longleftrightarrow> False"

lemma inbox_frame:
  assumes "inbox cb w as ps ms" and "\<And>a. a \<in> set as \<Longrightarrow> msgs w' a = msgs w a" and "\<And>p. p \<in> set ps \<Longrightarrow> bufs w' p = bufs w p"
  shows "inbox cb w' as ps ms"
  using assms by (induction cb w as ps ms rule: inbox.induct) (auto simp: holds_msg_def live_def)

definition info_of :: "ReceiveMessageData \<Rightarrow> rmw_message_info_t \<Rightarrow> rmw_message_info_t" where
  "info_of d info = info\<lparr>source_timestamp := timestamp (attachment d), received_timestamp := recv_timestamp d,
     publication_sequence_number := sequence_num (attachment d), reception_sequence_number := reception_num d,
     publisher_gid_identifier := Some rmw_get_implementation_identifier,
     publisher_gid := copy_gid (publisher_gid info) (gid (attachment d)), from_intra_process := False\<rparr>"

lemma take_one_front:
  assumes "sub_datas w s = Some d" and "queue_rep (msgs w) (message_queue d) (a # as)"
    and "inbox (sub_callbacks d) w (a # as) (p # ps) (m # ms)" and "msgs w a = Some md"
  shows "\<exists>w' l'. rmw_zenoh_pico_take_one (Some s) old info taken w =
      Inr (RMW_RET_OK, map_option (\<lambda>_. True) taken, m, map_option (info_of md) info, w') \<and>
    sub_datas w' = (sub_datas w)(s \<mapsto> d\<lparr>message_queue := l'\<rparr>) \<and> queue_rep (msgs w') l' as \<and>
    inbox (sub_callbacks d) w' as ps ms \<and> msgs w' = (msgs w)(a := None) \<and> bufs w' = (bufs w)(p := None)"
proof -
  obtain l' where pop: "recv_msg_list_pop (Some (message_queue d)) (msgs w) =
      Inr (Some a, Some l', (msgs w)(a \<mapsto> md\<lparr>next_msg := None\<rparr>))"
    and q: "queue_rep ((msgs w)(a \<mapsto> md\<lparr>next_msg := None\<rparr>)) l' as"
    using pop_cons [OF assms(2)] assms(4) by auto
  let ?md = "md\<lparr>next_msg := None\<rparr>"
  let ?d = "d\<lparr>message_queue := l'\<rparr>"
  let ?w = "w\<lparr>msgs := (msgs w)(a \<mapsto> ?md), sub_datas := (sub_datas w)(s \<mapsto> ?d)\<rparr>"
  obtain bs where md: "lock md = Unlocked" "ref md = 1" "msg_type md = Sample" "payload_start md = Some p"
    "bufs w p = Some bs" "payload_size md = length bs" "ROS2_MSG_OFFSET \<le> length bs"
    "cdr_deserialize (sub_callbacks d) (drop ROS2_MSG_OFFSET bs) = (True, m)"
    using assms(3,4) by (auto simp: holds_msg_def live_def)
  have na: "a \<notin> set as" "p \<notin> set ps" "inbox (sub_callbacks d) w as ps ms" using assms(3) by simp_all
  have p: "sub_pop (Some s) w = Inr (Some a, ?w)" using assms(1) pop by (simp add: sub_pop_def)
  have s: "sub_datas ?w s = Some ?d" "msgs ?w a = Some ?md" by simp_all
  have des: "rmw_zenoh_pico_deserialize_topic_msg (Some a) (sub_callbacks ?d) old info ?w = Inr (True, m, map_option (info_of md) info)"
    using md by (cases info) (simp_all add: rmw_zenoh_pico_deserialize_topic_msg_def rmw_zenoh_pico_deserialize_def info_of_def)
  have ok: "msg_ok ?w a ?md" using md by (simp add: msg_ok_def live_def)
  let ?v = "msg_freed ?w a ?md"
  have del: "zenoh_pico_delete_recv_msg_data (Some a) ?w = Inr (True, ?v)"
    using ok md(2) by (intro delete_msg_last) simp_all
  have run: "rmw_zenoh_pico_take_one (Some s) old info taken w =
      Inr (RMW_RET_OK, map_option (\<lambda>_. True) taken, m, map_option (info_of md) info, ?v)"
    unfolding rmw_zenoh_pico_take_one_def p andthen_Inr prod.case
    using des del by simp
  have v: "sub_datas ?v = (sub_datas w)(s \<mapsto> ?d)" "msgs ?v = (msgs w)(a := None)" "bufs ?v = (bufs w)(p := None)"
    using md by (simp_all add: msg_freed_def Let_def)
  have "queue_rep (msgs ?v) l' as"
    using q na(1) unfolding v queue_rep_def by (simp add: chain_frame)
  moreover have "inbox (sub_callbacks d) ?v as ps ms"
    by (rule inbox_frame [OF na(3)]) (use na(1,2) in \<open>auto simp: v\<close>)
  ultimately show ?thesis using run v by blast
qed

lemma take_one_empty:
  assumes "sub_datas w s = Some d" and "queue_rep (msgs w) (message_queue d) []"
  shows "rmw_zenoh_pico_take_one (Some s) old info taken w = Inr (RMW_RET_ERROR, taken, old, info, w)"
proof -
  have "d\<lparr>message_queue := message_queue d\<rparr> = d" by simp
  then show ?thesis
    using assms by (simp add: rmw_zenoh_pico_take_one_def sub_pop_def pop_empty fun_upd_idem)
qed

text \<open>
  C13: Taking one message. On a subscription handle of this implementation, rmw_take_with_info hands out the
  oldest message with its time stamps, sequence number and sender's gid, answers OK with taken set, frees the
  message object and its payload and leaves the other messages queued in order. On an empty queue it
  answers RMW_RET_ERROR with taken cleared and changes nothing.
\<close>

theorem take_returns_oldest:
  assumes "data h = Some s" "topic_name h = Some t" "identifiers_match (implementation_identifier h)"
    and "sub_datas w s = Some d" and "queue_rep (msgs w) (message_queue d) as" and "inbox (sub_callbacks d) w as ps ms"
  shows "case as of
      [] \<Rightarrow> rmw_take_with_info (Some h) (Some old) (Some b) (Some info) w = Inr (RMW_RET_ERROR, Some False, Some old, Some info, w)
    | a # as' \<Rightarrow> \<exists>w' l' md. msgs w a = Some md \<and>
        rmw_take_with_info (Some h) (Some old) (Some b) (Some info) w =
          Inr (RMW_RET_OK, Some True, Some (hd ms), Some (info_of md info), w') \<and>
        sub_datas w' = (sub_datas w)(s \<mapsto> d\<lparr>message_queue := l'\<rparr>) \<and> queue_rep (msgs w') l' as' \<and>
        inbox (sub_callbacks d) w' as' (tl ps) (tl ms) \<and> msgs w' a = None \<and> bufs w' (hd ps) = None"
proof (cases as)
  case Nil
  have "queue_rep (msgs w) (message_queue d) []" using assms(5) Nil by simp
  then show ?thesis
    using Nil assms(1-3) take_one_empty [OF assms(4), of old "Some info" "Some False"] by (simp add: rmw_take_with_info_def)
next
  case (Cons a as')
  obtain p ps' m ms' where l: "ps = p # ps'" "ms = m # ms'"
    using assms(6) Cons by (cases ps; cases ms) auto
  obtain md where md: "msgs w a = Some md" using assms(6) Cons l by (auto simp: holds_msg_def live_def)
  obtain w' l' where t: "rmw_zenoh_pico_take_one (Some s) old (Some info) (Some False) w = Inr (RMW_RET_OK, Some True, m, Some (info_of md info), w')"
    "sub_datas w' = (sub_datas w)(s \<mapsto> d\<lparr>message_queue := l'\<rparr>)" "queue_rep (msgs w') l' as'"
    "inbox (sub_callbacks d) w' as' ps' ms'" "msgs w' = (msgs w)(a := None)" "bufs w' = (bufs w)(p := None)"
    using take_one_front [OF assms(4), of a as' p ps' m ms' md old "Some info" "Some False"] assms(5,6) Cons l md by auto
  have "rmw_take_with_info (Some h) (Some old) (Some b) (Some info) w =
      Inr (RMW_RET_OK, Some True, Some m, Some (info_of md info), w')"
    using assms(1-3) t(1) by (simp add: rmw_take_with_info_def)
  then show ?thesis using md t(2-6) Cons l by auto
qed

text \<open>A subscription with two queued messages.\<close>

definition inbox_mem :: rmw_mem where
  "inbox_mem = sub_mem\<lparr>next_addr := 21, bufs := [11 \<mapsto> [0, 1, 0, 0, 7], 12 \<mapsto> [0, 1, 0, 0, 8]],
     msgs := [1 \<mapsto> (sample_msg 11 [0, 1, 0, 0, 7] 5 zero_attachment)\<lparr>next_msg := Some 2\<rparr>,
              2 \<mapsto> sample_msg 12 [0, 1, 0, 0, 8] 6 zero_attachment],
     sub_datas := [20 \<mapsto> echo_sub\<lparr>message_queue := \<lparr>que_mutex = Unlocked, que_top = Some 1, que_bottom = Some 2, que_count = 2\<rparr>\<rparr>]\<rparr>"

definition inbox_sub :: rmw_subscription_t where
  "inbox_sub = \<lparr>hdl = 3, implementation_identifier = None, data = Some 20, topic_name = Some 4\<rparr>"

definition two_messages :: ZenohPicoSubData where
  "two_messages = the (sub_datas inbox_mem 20)"

lemma inbox_mem_facts:
  "data inbox_sub = Some 20" "topic_name inbox_sub = Some 4" "identifiers_match (implementation_identifier inbox_sub)"
  "sub_datas inbox_mem 20 = Some two_messages" "queue_rep (msgs inbox_mem) (message_queue two_messages) [1, 2]"
  "inbox (sub_callbacks two_messages) inbox_mem [1, 2] [11, 12] [[7], [8]]" "sub_callbacks two_messages = echo_callbacks"
  by (simp_all add: inbox_sub_def two_messages_def inbox_mem_def identifiers_match_def queue_rep_def sample_msg_def echo_sub_def
      holds_msg_def live_def echo_callbacks_def ROS2_MSG_OFFSET_def)

theorem take_returns_oldest_witness:
  "\<exists>w' info. rmw_take_with_info (Some inbox_sub) (Some []) (Some False) (Some empty_message_info) inbox_mem =
      Inr (RMW_RET_OK, Some True, Some [7], Some info, w') \<and> msgs w' 1 = None \<and> bufs w' 11 = None"
  using take_returns_oldest [OF inbox_mem_facts(1-6), of "[]" False empty_message_info] by auto

text \<open>
  A message that cannot be read is lost. When the type support cannot deserialise the oldest message,
  rmw_take_with_info answers RMW_RET_ERROR with taken cleared and the information untouched; the message has left the queue,
  but the object and its payload stay allocated, with the reference count they had.
\<close>

theorem unreadable_message_lost:
  assumes "data h = Some s" "topic_name h = Some t" "identifiers_match (implementation_identifier h)"
    and "sub_datas w s = Some d" and "queue_rep (msgs w) (message_queue d) (a # as)" and "msgs w a = Some md"
    and "payload_start md = Some p" "bufs w p = Some bs" "payload_size md = length bs" "ROS2_MSG_OFFSET \<le> length bs"
    and "cdr_deserialize (sub_callbacks d) (drop ROS2_MSG_OFFSET bs) = (False, m)"
  shows "\<exists>w' l'. rmw_take_with_info (Some h) (Some old) (Some b) (Some info) w =
      Inr (RMW_RET_ERROR, Some False, Some m, Some info, w') \<and>
    sub_datas w' s = Some (d\<lparr>message_queue := l'\<rparr>) \<and> queue_rep (msgs w') l' as \<and>
    msgs w' = (msgs w)(a \<mapsto> md\<lparr>next_msg := None\<rparr>) \<and> bufs w' = bufs w"
proof -
  obtain l' where pop: "recv_msg_list_pop (Some (message_queue d)) (msgs w) =
      Inr (Some a, Some l', (msgs w)(a \<mapsto> md\<lparr>next_msg := None\<rparr>))"
    and q: "queue_rep ((msgs w)(a \<mapsto> md\<lparr>next_msg := None\<rparr>)) l' as"
    using pop_cons [OF assms(5)] assms(6) by auto
  let ?w = "w\<lparr>msgs := (msgs w)(a \<mapsto> md\<lparr>next_msg := None\<rparr>), sub_datas := (sub_datas w)(s \<mapsto> d\<lparr>message_queue := l'\<rparr>)\<rparr>"
  have p: "sub_pop (Some s) w = Inr (Some a, ?w)" using assms(4) pop by (simp add: sub_pop_def)
  have "rmw_zenoh_pico_take_one (Some s) old (Some info) (Some False) w = Inr (RMW_RET_ERROR, Some False, m, Some info, ?w)"
    unfolding rmw_zenoh_pico_take_one_def p andthen_Inr prod.case
    using assms(7-11) by (simp add: rmw_zenoh_pico_deserialize_topic_msg_def rmw_zenoh_pico_deserialize_def)
  then have "rmw_take_with_info (Some h) (Some old) (Some b) (Some info) w = Inr (RMW_RET_ERROR, Some False, Some m, Some info, ?w)"
    using assms(1-3) by (simp add: rmw_take_with_info_def)
  then show ?thesis using q by (intro exI [of _ ?w] exI [of _ l']) simp
qed

definition mute_mem :: rmw_mem where
  "mute_mem = inbox_mem\<lparr>sub_datas := [20 \<mapsto> two_messages\<lparr>sub_callbacks := echo_callbacks\<lparr>cdr_deserialize := \<lambda>b. (False, b)\<rparr>\<rparr>]\<rparr>"

theorem unreadable_message_lost_witness:
  "\<exists>w'. rmw_take_with_info (Some inbox_sub) (Some []) (Some True) (Some empty_message_info) mute_mem =
      Inr (RMW_RET_ERROR, Some False, Some [7], Some empty_message_info, w') \<and> map_option ref (msgs w' 1) = Some 1 \<and>
    bufs w' 11 = Some [0, 1, 0, 0, 7]"
proof -
  let ?d = "two_messages\<lparr>sub_callbacks := echo_callbacks\<lparr>cdr_deserialize := \<lambda>b. (False, b)\<rparr>\<rparr>"
  let ?md = "(sample_msg 11 [0, 1, 0, 0, 7] 5 zero_attachment)\<lparr>next_msg := Some 2\<rparr>"
  have "sub_datas mute_mem 20 = Some ?d" "queue_rep (msgs mute_mem) (message_queue ?d) [1, 2]" "msgs mute_mem 1 = Some ?md"
    "payload_start ?md = Some 11" "bufs mute_mem 11 = Some [0, 1, 0, 0, 7]" "payload_size ?md = length [0 :: byte, 1, 0, 0, 7]"
    "ROS2_MSG_OFFSET \<le> length [0 :: byte, 1, 0, 0, 7]" "ref ?md = 1"
    using inbox_mem_facts(5) by (simp_all add: mute_mem_def inbox_mem_def sample_msg_def ROS2_MSG_OFFSET_def)
  moreover have "cdr_deserialize (sub_callbacks ?d) (drop ROS2_MSG_OFFSET [0, 1, 0, 0, 7]) = (False, [7])"
    by (simp add: ROS2_MSG_OFFSET_def)
  ultimately show ?thesis
    using unreadable_message_lost [OF inbox_mem_facts(1-3), of mute_mem ?d 1 "[2]" ?md 11 "[0, 1, 0, 0, 7]" "[7]" "[]" True empty_message_info]
    by auto
qed

subsection \<open>Taking a sequence\<close>

lemma take_sequence_run:
  assumes "sub_datas w s = Some d" and "queue_rep (msgs w) (message_queue d) as" and "inbox (sub_callbacks d) w as ps ms"
    and "taken + n \<le> length dat" and "taken + n \<le> length infos"
  shows "\<exists>infos' w' l'. take_sequence_loop n taken ret (Some s) dat infos w =
      Inr (if n = 0 then ret else if n \<le> length as then RMW_RET_OK else RMW_RET_ERROR, taken + min n (length as),
        take taken dat @ take n ms @ drop (taken + min n (length as)) dat, infos', w') \<and>
    length infos' = length infos \<and> sub_datas w' s = Some (d\<lparr>message_queue := l'\<rparr>) \<and>
    queue_rep (msgs w') l' (drop n as) \<and> inbox (sub_callbacks d) w' (drop n as) (drop n ps) (drop n ms)"
  using assms
proof (induction n arbitrary: taken ret dat infos w d as ps ms)
  case 0
  have "d\<lparr>message_queue := message_queue d\<rparr> = d" by simp
  then show ?case using 0 by (intro exI [of _ infos] exI [of _ w] exI [of _ "message_queue d"]) simp
next
  case (Suc n)
  have len: "taken < length dat" "taken < length infos" using Suc.prems(4,5) by simp_all
  show ?case
  proof (cases as)
    case Nil
    then have ms: "ms = []" "ps = []" using Suc.prems(3) by (cases ms; cases ps; simp)+
    have q: "queue_rep (msgs w) (message_queue d) []" using Suc.prems(2) Nil by simp
    have "take_sequence_loop (Suc n) taken ret (Some s) dat infos w = Inr (RMW_RET_ERROR, taken, dat, infos, w)"
      using len take_one_empty [OF Suc.prems(1) q, of "dat ! taken" "Some (infos ! taken)" "Some False"] by simp
    moreover have "d\<lparr>message_queue := message_queue d\<rparr> = d" by simp
    ultimately show ?thesis
      using Suc.prems(1) q Nil ms by (intro exI [of _ infos] exI [of _ w] exI [of _ "message_queue d"]) simp
  next
    case (Cons a as')
    obtain p ps' m ms' where l: "ps = p # ps'" "ms = m # ms'"
      using Suc.prems(3) Cons by (cases ps; cases ms) auto
    obtain md where md: "msgs w a = Some md" using Suc.prems(3) Cons l by (auto simp: holds_msg_def live_def)
    obtain w1 l1 where t: "rmw_zenoh_pico_take_one (Some s) (dat ! taken) (Some (infos ! taken)) (Some False) w =
        Inr (RMW_RET_OK, Some True, m, Some (info_of md (infos ! taken)), w1)"
      "sub_datas w1 = (sub_datas w)(s \<mapsto> d\<lparr>message_queue := l1\<rparr>)" "queue_rep (msgs w1) l1 as'"
      "inbox (sub_callbacks d) w1 as' ps' ms'"
      using take_one_front [OF Suc.prems(1), of a as' p ps' m ms' md "dat ! taken" "Some (infos ! taken)" "Some False"]
        Suc.prems(2,3) Cons l md by auto
    let ?dat = "dat[taken := m]" and ?infos = "infos[taken := info_of md (infos ! taken)]"
    obtain infos' w' l' where r: "take_sequence_loop n (Suc taken) RMW_RET_OK (Some s) ?dat ?infos w1 =
        Inr (if n = 0 then RMW_RET_OK else if n \<le> length as' then RMW_RET_OK else RMW_RET_ERROR, Suc taken + min n (length as'),
          take (Suc taken) ?dat @ take n ms' @ drop (Suc taken + min n (length as')) ?dat, infos', w')"
      "length infos' = length infos" "sub_datas w' s = Some (d\<lparr>message_queue := l'\<rparr>)"
      "queue_rep (msgs w') l' (drop n as')" "inbox (sub_callbacks d) w' (drop n as') (drop n ps') (drop n ms')"
      using Suc.IH [of w1 "d\<lparr>message_queue := l1\<rparr>" as' ps' ms' "Suc taken" ?dat ?infos RMW_RET_OK] t(2-4) Suc.prems(4,5) by auto
    have "take_sequence_loop (Suc n) taken ret (Some s) dat infos w = take_sequence_loop n (Suc taken) RMW_RET_OK (Some s) ?dat ?infos w1"
      using len t(1) by simp
    moreover have "take (Suc taken) ?dat = take taken dat @ [m]" using len(1) by (simp add: take_Suc_conv_app_nth)
    moreover have "drop (Suc taken + min n (length as')) ?dat = drop (Suc taken + min n (length as')) dat" by simp
    ultimately show ?thesis using r Cons l by (intro exI [of _ infos'] exI [of _ w'] exI [of _ l']) simp
  qed
qed

text \<open>
  Taking a sequence. On a subscription handle of this implementation with count at least one and within the
  capacities, rmw_take_sequence hands out as many of the oldest messages as there are, at most count, in order
  into the front of the sequence, sets both sizes and taken to that number and leaves the rest queued. It answers
  OK only when it found count messages: running out of messages, even with none of them unreadable, is
  RMW_RET_ERROR, although its comment calls that "no error".
\<close>

theorem take_sequence_takes_prefix:
  assumes "data h = Some s" "topic_name h = Some t" "identifiers_match (implementation_identifier h)"
    and "sub_datas w s = Some d" and "queue_rep (msgs w) (message_queue d) as" and "inbox (sub_callbacks d) w as ps ms"
    and "0 < n" "n \<le> seq_capacity sq" "n \<le> seq_capacity iq" "n < 2 ^ 32" "n \<le> length (seq_data sq)" "n \<le> length (seq_data iq)"
  shows "\<exists>sq' iq' w' l'. rmw_take_sequence (Some h) n (Some sq) (Some iq) (Some t0) w =
      Inr (if n \<le> length as then RMW_RET_OK else RMW_RET_ERROR, Some (min n (length as)), Some sq', Some iq', w') \<and>
    seq_size sq' = min n (length as) \<and> seq_size iq' = min n (length as) \<and>
    seq_data sq' = take n ms @ drop (min n (length as)) (seq_data sq) \<and>
    sub_datas w' s = Some (d\<lparr>message_queue := l'\<rparr>) \<and> queue_rep (msgs w') l' (drop n as) \<and>
    inbox (sub_callbacks d) w' (drop n as) (drop n ps) (drop n ms)"
proof -
  obtain infos' w' l' where r: "take_sequence_loop n 0 RMW_RET_ERROR (Some s) (seq_data sq) (seq_data iq) w =
      Inr (if n = 0 then RMW_RET_ERROR else if n \<le> length as then RMW_RET_OK else RMW_RET_ERROR, 0 + min n (length as),
        take 0 (seq_data sq) @ take n ms @ drop (0 + min n (length as)) (seq_data sq), infos', w')"
    "sub_datas w' s = Some (d\<lparr>message_queue := l'\<rparr>)" "queue_rep (msgs w') l' (drop n as)"
    "inbox (sub_callbacks d) w' (drop n as) (drop n ps) (drop n ms)"
    using take_sequence_run [OF assms(4-6), of 0 n "seq_data sq" "seq_data iq" RMW_RET_ERROR] assms(11,12) by auto
  have le: "\<not> 2 ^ 32 - 1 < n" using assms(10) by simp
  have "rmw_take_sequence (Some h) n (Some sq) (Some iq) (Some t0) w =
      Inr (if n \<le> length as then RMW_RET_OK else RMW_RET_ERROR, Some (min n (length as)),
        Some (sq\<lparr>seq_data := take n ms @ drop (min n (length as)) (seq_data sq), seq_size := min n (length as)\<rparr>),
        Some (iq\<lparr>seq_data := infos', seq_size := min n (length as)\<rparr>), w')"
    using assms(1-3,7-9) le r(1) by (simp add: rmw_take_sequence_def)
  then show ?thesis using r(2-4) by fastforce
qed

theorem take_sequence_takes_prefix_witness:
  "\<exists>sq' iq' w'. rmw_take_sequence (Some inbox_sub) 3
      (Some \<lparr>seq_data = [[], [], []], seq_size = 0, seq_capacity = 3\<rparr>)
      (Some \<lparr>seq_data = replicate 3 empty_message_info, seq_size = 0, seq_capacity = 3\<rparr>) (Some 0) inbox_mem =
      Inr (RMW_RET_ERROR, Some 2, Some sq', Some iq', w') \<and> seq_data sq' = [[7], [8], []]"
proof -
  let ?sq = "\<lparr>seq_data = [[], [], []], seq_size = 0, seq_capacity = 3\<rparr>"
  let ?iq = "\<lparr>seq_data = replicate 3 empty_message_info, seq_size = 0, seq_capacity = 3\<rparr>"
  have c: "0 < (3::nat)" "3 \<le> seq_capacity ?sq" "3 \<le> seq_capacity ?iq" "(3::nat) < 2 ^ 32"
    "3 \<le> length (seq_data ?sq)" "3 \<le> length (seq_data ?iq)"
    by simp_all
  have m: "min 3 (length [1::nat, 2]) = 2" "\<not> 3 \<le> length [1::nat, 2]" by simp_all
  have l: "take 3 [[7], [8]] @ drop 2 (seq_data ?sq) = [[7], [8], [] :: byte list]" by simp
  obtain sq' iq' w' where "rmw_take_sequence (Some inbox_sub) 3 (Some ?sq) (Some ?iq) (Some 0) inbox_mem =
      Inr (if 3 \<le> length [1::nat, 2] then RMW_RET_OK else RMW_RET_ERROR, Some (min 3 (length [1::nat, 2])), Some sq', Some iq', w')"
    "seq_data sq' = take 3 [[7], [8]] @ drop (min 3 (length [1::nat, 2])) (seq_data ?sq)"
    using take_sequence_takes_prefix [OF inbox_mem_facts(1-6) c, of 0] by blast
  then show ?thesis unfolding m if_not_P [OF m(2)] l by blast
qed

end
