(* ===== verification/Publisher.thy ===== *)
theory Publisher
  imports Subscription
begin

section \<open>Publishers\<close>

text \<open>
  \<open>rmw_publisher.c\<close> and \<open>rmw_zenoh_pico_publish\<close> of \<open>zenoh_pico_rosMessage.c\<close>.  A publisher handle points
  to \<open>ZenohPicoPubData\<close>, whose attachment numbers the messages.
\<close>

definition zero_pub_data :: ZenohPicoPubData where
  "zero_pub_data = \<lparr>ref = 0, lock = Unlocked, pub_id = 0, pub_liveliness_key = [], pub_topic_key = [],
     pub_liveliness = None, pub_topic = None, pub_node = None, pub_entity = None, pub_callbacks = no_callbacks,
     pub_event_mgr = zero_mgr, pub_qos_profile = zero_qos, pub_mutex = Unlocked, pub_attachment = zero_attachment\<rparr>"

definition on_pub ::
  "addr option \<Rightarrow> rmw_mem \<Rightarrow> (ZenohPicoPubData \<Rightarrow> rmw_mem \<Rightarrow> ('r \<times> ZenohPicoPubData \<times> rmw_mem) res) \<Rightarrow> ('r \<times> rmw_mem) res" where
  "on_pub p w f = andthen (deref (pub_datas w) p) (\<lambda>d. andthen (f d w) (\<lambda>(r, d, w).
     Inr (r, w\<lparr>pub_datas := (pub_datas w)(the p \<mapsto> d)\<rparr>)))"

lemma on_pub_simps [simp]:
  "on_pub None w f = Inl NullDeref"
  "pub_datas w a = None \<Longrightarrow> on_pub (Some a) w f = Inl UseAfterFree"
  "pub_datas w a = Some d \<Longrightarrow> on_pub (Some a) w f =
     andthen (f d w) (\<lambda>(r, d, w). Inr (r, w\<lparr>pub_datas := (pub_datas w)(a \<mapsto> d)\<rparr>))"
  by (simp_all add: on_pub_def)

subsection \<open>Generation and destruction\<close>

text \<open>
  The error label first tests \<open>topic_info\<close>, which is declared below the first three jumps to the label;
  \<open>None\<close> stands for a variable that has no value yet.
\<close>

definition pub_error ::
  "addr option \<Rightarrow> addr option \<Rightarrow> addr option option \<Rightarrow> addr option \<Rightarrow> rmw_mem \<Rightarrow> (addr option \<times> rmw_mem) res" where
  "pub_error ni entity ti pub_data w =
     (case ti of None \<Rightarrow> Inl Uninitialised | Some ti \<Rightarrow>
      andthen (if ti \<noteq> None then zenoh_pico_destroy_topic_info ti w else Inr (True, w)) (\<lambda>(_, w).
      andthen (release_descriptions ni entity w) (\<lambda>w.
      (case pub_data of None \<Rightarrow> Inr (None, w)
       | Some a \<Rightarrow> andthen (ZenohPicoDataDestroy (pub_datas w) (Some a)) (\<lambda>h. Inr (None, w\<lparr>pub_datas := h\<rparr>))))))"

definition zenoh_pico_generate_publisher_data ::
  "addr option \<Rightarrow> string \<Rightarrow> rosidl_message_type_support_t \<Rightarrow> rmw_qos_profile_t \<Rightarrow> rmw_mem \<Rightarrow> (addr option \<times> rmw_mem) res" where
  "zenoh_pico_generate_publisher_data node topic type_support qos_profile w =
     (if node = None then Inr (None, w)
      else andthen (clone_node_info node w) (\<lambda>(n, ni, w).
        andthen (zenoh_pico_generate_publisher_entity (info_zid (env w)) (nd_id n) ni topic type_support qos_profile w) (\<lambda>(entity, w).
        if entity = None then pub_error ni entity None None w
        else (case ZenohPicoDataGenerate zero_pub_data (pub_datas w) w of
            (None, h, w) \<Rightarrow> pub_error ni entity None None (w\<lparr>pub_datas := h\<rparr>)
          | (Some a, h, w) \<Rightarrow>
              andthen (deref h (Some a)) (\<lambda>d.
              andthen (deref (entities w) entity) (\<lambda>e.
              let d = d\<lparr>pub_id := ent_id e, pub_node := node, pub_entity := entity, pub_callbacks := ts_data type_support,
                        pub_qos_profile := qos_profile\<rparr>;
                  w = w\<lparr>pub_datas := h(a \<mapsto> d)\<rparr> in
              andthen (generate_liveliness (lineness_len (env w)) (copy_ok (env w)) w e) (\<lambda>key.
              (case key of None \<Rightarrow> pub_error ni entity None (Some a) w
               | Some key \<Rightarrow>
                  let d = d\<lparr>pub_liveliness_key := key\<rparr>; w = w\<lparr>pub_datas := h(a \<mapsto> d)\<rparr> in
                  andthen (endpoint_topic_key ni (topic_info e) w) (\<lambda>tkey.
                  (case tkey of None \<Rightarrow> pub_error ni entity (Some (topic_info e)) (Some a) w
                   | Some tkey \<Rightarrow>
                      andthen (zenoh_pico_gen_gid (env w) tkey) (\<lambda>g.
                      let d = d\<lparr>pub_topic_key := tkey, pub_mutex := Unlocked,
                                pub_attachment := (pub_attachment d)\<lparr>gid := the g, sequence_num := 0\<rparr>\<rparr> in
                      Inr (Some a, w\<lparr>pub_datas := h(a \<mapsto> d)\<rparr>))))))))))))"

definition undeclaration_publisher_data :: "addr option \<Rightarrow> rmw_mem \<Rightarrow> (bool \<times> rmw_mem) res" where
  "undeclaration_publisher_data p w = on_pub p w (\<lambda>d w.
     Inr (True, d\<lparr>pub_topic := None, pub_liveliness := None\<rparr>, z_undeclare (pub_liveliness d) (z_undeclare (pub_topic d) w)))"

definition zenoh_pico_destroy_publisher_data :: "addr option \<Rightarrow> rmw_mem \<Rightarrow> (bool \<times> rmw_mem) res" where
  "zenoh_pico_destroy_publisher_data p w =
     (if p = None then Inr (False, w)
      else andthen (ZenohPicoDataRelease (pub_datas w) p) (\<lambda>(last, h). let w = w\<lparr>pub_datas := h\<rparr> in
        if last then
          andthen (undeclaration_publisher_data p w) (\<lambda>(_, w).
          andthen (deref (pub_datas w) p) (\<lambda>d.
          let d = d\<lparr>pub_liveliness_key := [], pub_topic_key := [], pub_liveliness := None, pub_topic := None,
                    pub_attachment := the (snd (attachment_destroy (Some (pub_attachment d)))), pub_mutex := Dropped\<rparr> in
          andthen (if pub_node d \<noteq> None then zenoh_pico_destroy_node_data (pub_node d) w else Inr (True, w)) (\<lambda>(_, w).
          andthen (if pub_entity d \<noteq> None then zenoh_pico_destroy_entity (pub_entity d) w else Inr (True, w)) (\<lambda>(_, w).
          let d = d\<lparr>pub_node := None, pub_entity := None\<rparr> in
          andthen (ZenohPicoDataDestroy ((pub_datas w)(the p \<mapsto> d)) p) (\<lambda>h. Inr (True, w\<lparr>pub_datas := h\<rparr>))))))
        else Inr (True, w)))"

text \<open>
  Reliable publishers that keep all messages are declared with blocking congestion control, all others
  drop messages under congestion.
\<close>

definition RMW_QOS_POLICY_HISTORY_KEEP_ALL :: int where "RMW_QOS_POLICY_HISTORY_KEEP_ALL = 2"
definition RMW_QOS_POLICY_RELIABILITY_RELIABLE :: int where "RMW_QOS_POLICY_RELIABILITY_RELIABLE = 1"

definition blocking_congestion :: "rmw_qos_profile_t \<Rightarrow> bool" where
  "blocking_congestion q \<longleftrightarrow> history q = RMW_QOS_POLICY_HISTORY_KEEP_ALL \<and> reliability q = RMW_QOS_POLICY_RELIABILITY_RELIABLE"

definition declaration_publisher_data :: "addr option \<Rightarrow> rmw_mem \<Rightarrow> (bool \<times> rmw_mem) res" where
  "declaration_publisher_data p w = on_pub p w (\<lambda>d w.
     andthen (deref (node_datas w) (pub_node d)) (\<lambda>n.
     andthen (deref (sessions w) (nd_session n)) (\<lambda>_.
     (case zcall (ZDeclarePublisher (pub_topic_key d) (blocking_congestion (pub_qos_profile d))) w of (ok, w) \<Rightarrow>
        if \<not> ok then Inr (False, d, w)
        else (case declaration_liveliness (pub_liveliness_key d) w of ((ok, token), w) \<Rightarrow>
          Inr (ok, d\<lparr>pub_topic := Some (pub_topic_key d), pub_liveliness := token\<rparr>, w))))))"

subsection \<open>Create and destroy\<close>

text \<open>
  Of the publisher options the code reads whether unique network flow endpoints are strictly required.
\<close>

definition rmw_create_publisher ::
  "rmw_node_t option \<Rightarrow> rosidl_message_type_support_t option option \<Rightarrow> string option \<Rightarrow> rmw_qos_profile_t option \<Rightarrow> bool option
     \<Rightarrow> rmw_mem \<Rightarrow> (rmw_publisher_t option \<times> rmw_mem) res" where
  "rmw_create_publisher node type_supports topic qos_profile strict_flow w =
     (case node of None \<Rightarrow> Inr (None, w) | Some n \<Rightarrow>
      if \<not> identifiers_match (implementation_identifier n) then Inr (None, w)
      else if type_supports = None then Inr (None, w)
      else if topic = None then Inr (None, w)
      else if cstr (the topic) = [] then Inr (None, w)
      else if qos_profile = None then Inr (None, w)
      else if data n = None then Inr (None, w)
      else andthen (context_impl n w) (\<lambda>i.
        if i = None then Inr (None, w)
        else if \<not> avoid_ros_namespace_conventions (the qos_profile) \<and> \<not> rmw_zenoh_pico_check_validate_name (the topic) w
        then Inr (None, w)
        else if strict_flow = None then Inr (None, w)
        else if the strict_flow then Inr (None, w)
        else (case the type_supports of None \<Rightarrow> Inr (None, w) | Some type_support \<Rightarrow>
          andthen (ZenohPicoDataRefClone (node_datas w) (data n)) (\<lambda>(nd, h).
          andthen (zenoh_pico_generate_publisher_data nd (the topic) type_support (the qos_profile) (w\<lparr>node_datas := h\<rparr>)) (\<lambda>(d, w).
            if d = None then Inr (None, w)
            else (case z_malloc w of
                (None, w) \<Rightarrow> andthen (zenoh_pico_destroy_publisher_data d w) (\<lambda>(_, w). Inr (None, w))
              | (Some a, w) \<Rightarrow>
                  let w = buf_put a [] w in
                  andthen (deref (pub_datas w) d) (\<lambda>pd.
                  andthen (deref (entities w) (pub_entity pd)) (\<lambda>e.
                  andthen (deref (topic_infos w) (topic_info e)) (\<lambda>t.
                  andthen (zenoh_pico_string_clone (ti_name t) w) (\<lambda>(name, w).
                  andthen (on_pub d w (\<lambda>pd w. andthen (data_callback_init (layout (env w)) (pub_event_mgr pd)) (\<lambda>m. Inr ((), pd\<lparr>pub_event_mgr := m\<rparr>, w)))) (\<lambda>(_, w).
                  andthen (declaration_publisher_data d w) (\<lambda>(ok, w).
                    if \<not> ok then andthen (zenoh_pico_destroy_publisher_data d w) (\<lambda>(_, w). Inr (None, w))
                    else Inr (Some \<lparr>hdl = a, implementation_identifier = Some rmw_get_implementation_identifier, data = d,
                           topic_name = name\<rparr>, w)))))))))))))"

definition rmw_destroy_publisher ::
  "rmw_node_t option \<Rightarrow> rmw_publisher_t option \<Rightarrow> rmw_mem \<Rightarrow> (rmw_ret_t \<times> rmw_mem) res" where
  "rmw_destroy_publisher node publisher w =
     (case node of None \<Rightarrow> Inr (RMW_RET_INVALID_ARGUMENT, w) | Some n \<Rightarrow>
     (case publisher of None \<Rightarrow> Inr (RMW_RET_INVALID_ARGUMENT, w) | Some s \<Rightarrow>
      if data s = None then Inr (RMW_RET_INVALID_ARGUMENT, w)
      else if \<not> identifiers_match (implementation_identifier n) then Inr (RMW_RET_INCORRECT_RMW_IMPLEMENTATION, w)
      else if \<not> identifiers_match (implementation_identifier s) then Inr (RMW_RET_INCORRECT_RMW_IMPLEMENTATION, w)
      else andthen (undeclaration_publisher_data (data s) w) (\<lambda>(_, w).
           andthen (zenoh_pico_destroy_publisher_data (data s) w) (\<lambda>(_, w).
           andthen (z_free (topic_name s) w) (\<lambda>w.
           andthen (z_free (Some (hdl s)) w) (\<lambda>w. Inr (RMW_RET_OK, w)))))))"

text \<open>The quality of service is not filled in, and the gid is never given.\<close>

definition rmw_publisher_get_actual_qos :: "rmw_publisher_t option \<Rightarrow> rmw_qos_profile_t option \<Rightarrow> rmw_ret_t \<times> rmw_qos_profile_t option" where
  "rmw_publisher_get_actual_qos publisher qos =
     (if publisher = None then (RMW_RET_INVALID_ARGUMENT, qos)
      else if qos = None then (RMW_RET_INVALID_ARGUMENT, qos)
      else (RMW_RET_OK, qos))"

definition rmw_get_gid_for_publisher :: "rmw_publisher_t option \<Rightarrow> rmw_gid_t option \<Rightarrow> rmw_ret_t \<times> rmw_gid_t option" where
  "rmw_get_gid_for_publisher publisher g =
     (case publisher of None \<Rightarrow> (RMW_RET_INVALID_ARGUMENT, g) | Some s \<Rightarrow>
      if g = None then (RMW_RET_INVALID_ARGUMENT, g)
      else if \<not> identifiers_match (implementation_identifier s) then (RMW_RET_INCORRECT_RMW_IMPLEMENTATION, g)
      else (RMW_RET_ERROR, g))"

subsection \<open>Publishing\<close>

text \<open>
  When the attachment cannot be encoded, the serialised bytes are not freed.  Putting asks for a declared publisher.
\<close>

definition rmw_zenoh_pico_publish :: "addr option \<Rightarrow> ros_message \<Rightarrow> rmw_mem \<Rightarrow> (rmw_ret_t \<times> rmw_mem) res" where
  "rmw_zenoh_pico_publish pub_data ros_message w = on_pub pub_data w (\<lambda>d w.
     (case rmw_zenoh_pico_serialize (pub_callbacks d) ros_message w of
        (None, w) \<Rightarrow> Inr (RMW_RET_ERROR, d, w)
      | (Some (msg_bytes, data_length), w) \<Rightarrow>
          andthen (z_mutex_lock (pub_mutex d)) (\<lambda>l.
          let d = d\<lparr>pub_mutex := l\<rparr>; att = snd (attachment_sequence_num_inc (pub_attachment d)) in
          (case attachment_gen att w of
             (None, att, w) \<Rightarrow>
               andthen (z_mutex_unlock (pub_mutex d)) (\<lambda>l. Inr (RMW_RET_ERROR, d\<lparr>pub_mutex := l, pub_attachment := att\<rparr>, w))
           | (Some bs, att, w) \<Rightarrow>
               andthen (deref (bufs w) (Some msg_bytes)) (\<lambda>payload.
               (case pub_topic d of None \<Rightarrow> Inl NullDeref | Some key \<Rightarrow>
               (case zcall (ZPublisherPut key (take data_length payload) bs) w of (ok, w) \<Rightarrow>
               andthen (z_free (Some msg_bytes) w) (\<lambda>w.
               andthen (z_mutex_unlock (pub_mutex d)) (\<lambda>l.
                 Inr (if ok then RMW_RET_OK else RMW_RET_ERROR, d\<lparr>pub_mutex := l, pub_attachment := att\<rparr>, w))))))))))"

definition rmw_publish :: "rmw_publisher_t option \<Rightarrow> ros_message option \<Rightarrow> rmw_mem \<Rightarrow> (rmw_ret_t \<times> rmw_mem) res" where
  "rmw_publish publisher ros_message w =
     (case publisher of None \<Rightarrow> Inr (RMW_RET_INVALID_ARGUMENT, w) | Some s \<Rightarrow>
      if \<not> identifiers_match (implementation_identifier s) then Inr (RMW_RET_INCORRECT_RMW_IMPLEMENTATION, w)
      else if ros_message = None then Inr (RMW_RET_INVALID_ARGUMENT, w)
      else rmw_zenoh_pico_publish (data s) (the ros_message) w)"

subsection \<open>What publishing sends\<close>

definition att_bytes :: "ze_codec \<Rightarrow> zenoh_pico_attachemt_data \<Rightarrow> byte list option" where
  "att_bytes c d = (case enc_int64 c (sequence_num d) of None \<Rightarrow> None | Some s \<Rightarrow>
     (case enc_int64 c (timestamp d) of None \<Rightarrow> None | Some t \<Rightarrow>
     (case enc_slice c (gid d) of None \<Rightarrow> None | Some g \<Rightarrow> Some (s @ t @ g))))"

text \<open>The attachment of the next message.\<close>

definition next_attachment :: "'a mem_scheme \<Rightarrow> zenoh_pico_attachemt_data \<Rightarrow> zenoh_pico_attachemt_data" where
  "next_attachment w d = d\<lparr>sequence_num := sequence_num d + 1, timestamp := fst (zenoh_pico_gen_timestamp w)\<rparr>"

lemma attachment_gen_eq: "attachment_gen d w =
    (att_bytes (codec (env w)) (d\<lparr>timestamp := fst (zenoh_pico_gen_timestamp w)\<rparr>), d\<lparr>timestamp := fst (zenoh_pico_gen_timestamp w)\<rparr>,
     w\<lparr>ticks := Suc (ticks w)\<rparr>)"
  by (simp add: attachment_gen_def att_bytes_def zenoh_pico_gen_timestamp_def clock_gettime_def Let_def
      split: prod.split option.split)

lemma att_bytes_read:
  assumes "codec_ok c" and "att_bytes c d = Some bs"
  shows "attachment_data_get c bs old = (True, old\<lparr>sequence_num := sequence_num d, timestamp := timestamp d, gid := gid d\<rparr>)"
proof -
  obtain s t g where e: "enc_int64 c (sequence_num d) = Some s" "enc_int64 c (timestamp d) = Some t" "enc_slice c (gid d) = Some g"
    and b: "bs = s @ t @ g"
    using assms(2) by (auto simp: att_bytes_def split: option.splits)
  show ?thesis
    using codec_okD(1) [OF assms(1) e(1), of "t @ g"] codec_okD(1) [OF assms(1) e(2), of g] codec_okD(2) [OF assms(1) e(3), of "[]"]
    by (simp add: attachment_data_get_def b)
qed

lemma timestamp_frame [simp]:
  "fst (zenoh_pico_gen_timestamp (w\<lparr>next_addr := n, bufs := h\<rparr>)) = fst (zenoh_pico_gen_timestamp w)"
  by (simp add: zenoh_pico_gen_timestamp_def clock_gettime_def split: prod.split)

lemma length_serialized [simp]: "length (serialized_bytes cb m) = get_serialized_size cb m + ROS2_MSG_OFFSET"
  by (simp add: serialized_bytes_def set_ros2_header_def ROS2_MSG_OFFSET_def Let_def)

text \<open>A publisher between two calls, declared under \<open>key\<close>, in a memory where the next buffer can be allocated.\<close>

definition pub_ready :: "rmw_mem \<Rightarrow> addr \<Rightarrow> ZenohPicoPubData \<Rightarrow> string \<Rightarrow> bool" where
  "pub_ready w s d key \<longleftrightarrow> pub_datas w s = Some d \<and> pub_mutex d = Unlocked \<and> pub_topic d = Some key \<and>
     \<not> oom (env w) (next_addr w) \<and> bufs w (next_addr w) = None"

lemma publish_run:
  assumes "pub_ready w s d key" and "att_bytes (codec (env w)) (next_attachment w (pub_attachment d)) = Some bs"
  defines "put \<equiv> \<lambda>m. ZPublisherPut key (serialized_bytes (pub_callbacks d) m) bs"
  shows "rmw_zenoh_pico_publish (Some s) m w =
    Inr (if zok (env w) (trace w) (put m) then RMW_RET_OK else RMW_RET_ERROR,
      w\<lparr>next_addr := Suc (next_addr w), ticks := Suc (ticks w), trace := put m # trace w,
        pub_datas := (pub_datas w)(s \<mapsto> d\<lparr>pub_attachment := next_attachment w (pub_attachment d)\<rparr>)\<rparr>)"
proof -
  have d: "pub_datas w s = Some d" "pub_mutex d = Unlocked" "pub_topic d = Some key"
    "\<not> oom (env w) (next_addr w)" "bufs w (next_addr w) = None"
    using assms(1) by (simp_all add: pub_ready_def)
  have l: "d\<lparr>pub_mutex := Unlocked, pub_attachment := x\<rparr> = d\<lparr>pub_attachment := x\<rparr>" for x
    using d(2) by (cases d) simp
  show ?thesis
    using d assms(2)
    by (simp add: rmw_zenoh_pico_publish_def rmw_zenoh_pico_serialize_def z_malloc_def buf_put_def attachment_sequence_num_inc_def
        attachment_gen_eq next_attachment_def zcall_def Let_def fun_upd_idem l put_def)
qed

text \<open>
  C17: What publishing sends. For a declared publisher of this implementation and with memory for the payload,
  rmw_publish makes exactly one put on the publisher's key, with the serialised message and an attachment from which
  a receiver reads the next sequence number, the current time and the publisher's gid; it answers OK exactly when zenoh
  accepted the put, keeps the new sequence number, frees its buffer and leaves the mutex unlocked.
\<close>

theorem publish_sends:
  assumes "data h = Some s" "identifiers_match (implementation_identifier h)" and "pub_ready w s d key" and "codec_ok (codec (env w))"
    and "att_bytes (codec (env w)) (next_attachment w (pub_attachment d)) = Some bs"
  shows "\<exists>w'. rmw_publish (Some h) (Some m) w =
      Inr (if zok (env w) (trace w) (ZPublisherPut key (serialized_bytes (pub_callbacks d) m) bs) then RMW_RET_OK else RMW_RET_ERROR, w') \<and>
    trace w' = ZPublisherPut key (serialized_bytes (pub_callbacks d) m) bs # trace w \<and> bufs w' = bufs w \<and>
    attachment_data_get (codec (env w)) bs zero_attachment = (True, \<lparr>sequence_num = sequence_num (pub_attachment d) + 1,
      timestamp = fst (zenoh_pico_gen_timestamp w), gid = gid (pub_attachment d)\<rparr>) \<and>
    pub_datas w' = (pub_datas w)(s \<mapsto> d\<lparr>pub_attachment := next_attachment w (pub_attachment d)\<rparr>)"
  using publish_run [OF assms(3,5)] att_bytes_read [OF assms(4,5), of zero_attachment] assms(1,2)
  by (simp add: rmw_publish_def next_attachment_def zero_attachment_def)

text \<open>
  A failed attachment leaks the payload. When the attachment cannot be encoded, rmw_publish answers RMW_RET_ERROR without a
  call to zenoh; the buffer with the serialised message stays allocated and the sequence number is used up, so
  receivers see a gap.
\<close>

theorem publish_attachment_leak:
  assumes "data h = Some s" "identifiers_match (implementation_identifier h)" and "pub_ready w s d key"
    and "att_bytes (codec (env w)) (next_attachment w (pub_attachment d)) = None"
  shows "\<exists>w'. rmw_publish (Some h) (Some m) w = Inr (RMW_RET_ERROR, w') \<and> trace w' = trace w \<and>
    bufs w' = (bufs w)(next_addr w \<mapsto> serialized_bytes (pub_callbacks d) m) \<and>
    pub_datas w' = (pub_datas w)(s \<mapsto> d\<lparr>pub_attachment := next_attachment w (pub_attachment d)\<rparr>)"
proof -
  have d: "pub_datas w s = Some d" "pub_mutex d = Unlocked" "pub_topic d = Some key"
    "\<not> oom (env w) (next_addr w)" "bufs w (next_addr w) = None"
    using assms(3) by (simp_all add: pub_ready_def)
  have l: "d\<lparr>pub_mutex := Unlocked, pub_attachment := x\<rparr> = d\<lparr>pub_attachment := x\<rparr>" for x
    using d(2) by (cases d) simp
  show ?thesis
    using d assms(1,2,4)
    by (simp add: l rmw_publish_def rmw_zenoh_pico_publish_def rmw_zenoh_pico_serialize_def z_malloc_def buf_put_def
        attachment_sequence_num_inc_def attachment_gen_eq next_attachment_def Let_def)
qed

subsection \<open>Publishing a series of messages\<close>

fun publish_all :: "rmw_publisher_t \<Rightarrow> ros_message list \<Rightarrow> rmw_mem \<Rightarrow> rmw_mem res" where
  "publish_all h [] w = Inr w"
| "publish_all h (m # ms) w = andthen (rmw_publish (Some h) (Some m) w) (\<lambda>(_, w). publish_all h ms w)"

definition put_of :: "string \<Rightarrow> message_type_support_callbacks_t \<Rightarrow> ros_message \<times> byte list \<Rightarrow> zcall" where
  "put_of key cb = (\<lambda>(m, bs). ZPublisherPut key (serialized_bytes cb m) bs)"

definition read_number :: "ze_codec \<Rightarrow> byte list \<Rightarrow> bool \<times> 64 word \<times> byte list" where
  "read_number c bs = (case attachment_data_get c bs zero_attachment of (ok, a) \<Rightarrow> (ok, sequence_num a, gid a))"

text \<open>Every attachment of the publisher can be encoded.\<close>

definition encodes :: "ze_codec \<Rightarrow> byte list \<Rightarrow> bool" where
  "encodes c g \<longleftrightarrow> codec_ok c \<and> (\<forall>v. enc_int64 c v \<noteq> None) \<and> enc_slice c g \<noteq> None"

lemma encodes_bytes:
  assumes "encodes c (gid a)"
  obtains bs where "att_bytes c (a\<lparr>sequence_num := n, timestamp := t\<rparr>) = Some bs"
    and "read_number c bs = (True, n, gid a)"
proof -
  obtain bs where bs: "att_bytes c (a\<lparr>sequence_num := n, timestamp := t\<rparr>) = Some bs"
  proof -
    obtain x y z where "enc_int64 c n = Some x" "enc_int64 c t = Some y" "enc_slice c (gid a) = Some z"
      using assms by (fastforce simp: encodes_def)
    then have "att_bytes c (a\<lparr>sequence_num := n, timestamp := t\<rparr>) = Some (x @ y @ z)" by (simp add: att_bytes_def)
    then show ?thesis by (rule that)
  qed
  have "codec_ok c" using assms by (simp add: encodes_def)
  from att_bytes_read [OF this bs, of zero_attachment] have "read_number c bs = (True, n, gid a)"
    by (simp add: read_number_def)
  with bs that show thesis by blast
qed

lemma numbers_Cons: "map (\<lambda>i. (True, (n :: 64 word) + of_nat (Suc i), g)) [0..<Suc k] =
    (True, n + 1, g) # map (\<lambda>i. (True, n + 1 + of_nat (Suc i), g)) [0..<k]"
  by (simp add: upt_conv_Cons map_Suc_upt [symmetric] add_ac del: upt_Suc map_Suc_upt)

lemma publish_all_run:
  assumes "data h = Some s" "identifiers_match (implementation_identifier h)" and "pub_datas w s = Some d"
    and "pub_mutex d = Unlocked" "pub_topic d = Some key" and "encodes (codec (env w)) (gid (pub_attachment d))"
    and "roomy w" "\<And>n. next_addr w \<le> n \<Longrightarrow> bufs w n = None"
  shows "\<exists>w' bss. publish_all h ms w = Inr w' \<and> length bss = length ms \<and> bufs w' = bufs w \<and>
    trace w' = rev (map (put_of key (pub_callbacks d)) (zip ms bss)) @ trace w \<and>
    map (read_number (codec (env w))) bss =
      map (\<lambda>i. (True, sequence_num (pub_attachment d) + of_nat (Suc i), gid (pub_attachment d))) [0..<length ms] \<and>
    (\<exists>k t x. w' = w\<lparr>next_addr := k, ticks := t, trace := trace w', pub_datas := (pub_datas w)(s \<mapsto> d\<lparr>pub_attachment := x\<rparr>)\<rparr>)"
  using assms(3-)
proof (induction ms arbitrary: w d)
  case Nil
  have fr: "\<exists>k t x. w = w\<lparr>next_addr := k, ticks := t, trace := trace w, pub_datas := (pub_datas w)(s \<mapsto> d\<lparr>pub_attachment := x\<rparr>)\<rparr>"
    by (rule exI [of _ "next_addr w"], rule exI [of _ "ticks w"], rule exI [of _ "pub_attachment d"]) (use Nil in \<open>simp add: fun_upd_idem\<close>)
  have "publish_all h [] w = Inr w \<and> length [] = length [] \<and> bufs w = bufs w \<and> trace w = rev (map (put_of key (pub_callbacks d)) (zip [] [])) @ trace w \<and>
    map (read_number (codec (env w))) [] = map (\<lambda>i. (True, sequence_num (pub_attachment d) + of_nat (Suc i), gid (pub_attachment d))) [0..<length []]"
    by simp
  with fr show ?case by blast
next
  case (Cons m ms)
  let ?att = "next_attachment w (pub_attachment d)"
  let ?d = "d\<lparr>pub_attachment := ?att\<rparr>"
  obtain bs where bs: "att_bytes (codec (env w)) ?att = Some bs"
    "read_number (codec (env w)) bs = (True, sequence_num (pub_attachment d) + 1, gid (pub_attachment d))"
    unfolding next_attachment_def using Cons.prems(4) by (rule encodes_bytes)
  have r: "pub_ready w s d key" using Cons.prems by (simp add: pub_ready_def roomy_def)
  obtain w1 where w1: "w1 = w\<lparr>next_addr := Suc (next_addr w), ticks := Suc (ticks w),
      trace := put_of key (pub_callbacks d) (m, bs) # trace w, pub_datas := (pub_datas w)(s \<mapsto> ?d)\<rparr>" by blast
  have f: "env w1 = env w" "bufs w1 = bufs w" "trace w1 = put_of key (pub_callbacks d) (m, bs) # trace w"
    "next_addr w1 = Suc (next_addr w)" "pub_datas w1 s = Some ?d"
    by (simp_all add: w1)
  have p: "publish_all h (m # ms) w = publish_all h ms w1"
    using publish_run [OF r bs(1), of m] assms(1,2) by (simp add: rmw_publish_def w1 put_of_def)
  have "\<exists>w' bss. publish_all h ms w1 = Inr w' \<and> length bss = length ms \<and> bufs w' = bufs w1 \<and>
    trace w' = rev (map (put_of key (pub_callbacks ?d)) (zip ms bss)) @ trace w1 \<and>
    map (read_number (codec (env w1))) bss =
      map (\<lambda>i. (True, sequence_num (pub_attachment ?d) + of_nat (Suc i), gid (pub_attachment ?d))) [0..<length ms] \<and>
    (\<exists>k t x. w' = w1\<lparr>next_addr := k, ticks := t, trace := trace w', pub_datas := (pub_datas w1)(s \<mapsto> ?d\<lparr>pub_attachment := x\<rparr>)\<rparr>)"
    by (rule Cons.IH [OF f(5)]) (use Cons.prems in \<open>simp_all add: f next_attachment_def roomy_def\<close>)
  then obtain w' bss where R: "publish_all h ms w1 = Inr w'" "length bss = length ms" "bufs w' = bufs w1"
    "trace w' = rev (map (put_of key (pub_callbacks ?d)) (zip ms bss)) @ trace w1"
    "map (read_number (codec (env w1))) bss =
      map (\<lambda>i. (True, sequence_num (pub_attachment ?d) + of_nat (Suc i), gid (pub_attachment ?d))) [0..<length ms]"
    "\<exists>k t x. w' = w1\<lparr>next_addr := k, ticks := t, trace := trace w', pub_datas := (pub_datas w1)(s \<mapsto> ?d\<lparr>pub_attachment := x\<rparr>)\<rparr>"
    by blast
  have IH: "publish_all h ms w1 = Inr w'" "length bss = length ms" "bufs w' = bufs w"
    "trace w' = rev (map (put_of key (pub_callbacks d)) (zip ms bss)) @ put_of key (pub_callbacks d) (m, bs) # trace w"
    "map (read_number (codec (env w))) bss =
      map (\<lambda>i. (True, sequence_num (pub_attachment d) + 1 + of_nat (Suc i), gid (pub_attachment d))) [0..<length ms]"
    using R(1-5) by (simp_all add: f next_attachment_def)
  from R(6) obtain k t x where
    fr: "w' = w\<lparr>next_addr := k, ticks := t, trace := trace w', pub_datas := (pub_datas w)(s \<mapsto> d\<lparr>pub_attachment := x\<rparr>)\<rparr>"
    unfolding w1 by (elim exE) (simp del: fun_upd_apply)
  have "map (\<lambda>i. (True, sequence_num (pub_attachment d) + of_nat (Suc i), gid (pub_attachment d))) [0..<length (m # ms)] =
      map (read_number (codec (env w))) (bs # bss)"
    unfolding length_Cons numbers_Cons by (simp only: list.map bs(2) IH(5))
  then have c: "publish_all h (m # ms) w = Inr w' \<and> length (bs # bss) = length (m # ms) \<and> bufs w' = bufs w \<and>
    trace w' = rev (map (put_of key (pub_callbacks d)) (zip (m # ms) (bs # bss))) @ trace w \<and>
    map (read_number (codec (env w))) (bs # bss) =
      map (\<lambda>i. (True, sequence_num (pub_attachment d) + of_nat (Suc i), gid (pub_attachment d))) [0..<length (m # ms)]"
    using p IH(1-4) by simp
  from fr have "\<exists>k t x. w' = w\<lparr>next_addr := k, ticks := t, trace := trace w', pub_datas := (pub_datas w)(s \<mapsto> d\<lparr>pub_attachment := x\<rparr>)\<rparr>"
    by (intro exI)
  with c show ?case by blast
qed

text \<open>
  Messages of a publisher are numbered. Publishing a list of messages with rmw_publish makes one put for each, in order and with
  that message's bytes; the attachment of the i-th carries the publisher's gid and the old sequence number plus
  i + 1 (modulo 2 to the 64), whether or not zenoh accepted the earlier puts. No buffer stays allocated.
\<close>

theorem publish_numbers_messages:
  assumes "data h = Some s" "identifiers_match (implementation_identifier h)" and "pub_datas w s = Some d"
    and "pub_mutex d = Unlocked" "pub_topic d = Some key" and "encodes (codec (env w)) (gid (pub_attachment d))"
    and "roomy w" "\<And>n. next_addr w \<le> n \<Longrightarrow> bufs w n = None"
  shows "\<exists>w' bss. publish_all h ms w = Inr w' \<and> length bss = length ms \<and> bufs w' = bufs w \<and>
    trace w' = rev (map (put_of key (pub_callbacks d)) (zip ms bss)) @ trace w \<and>
    map (read_number (codec (env w))) bss =
      map (\<lambda>i. (True, sequence_num (pub_attachment d) + of_nat (Suc i), gid (pub_attachment d))) [0..<length ms]"
  using publish_all_run [OF assms, of ms] by blast

definition echo_pub :: ZenohPicoPubData where
  "echo_pub = zero_pub_data\<lparr>ref := 1, pub_callbacks := echo_callbacks, pub_topic := Some ''0/chatter'',
     pub_attachment := zero_attachment\<lparr>gid := [9]\<rparr>\<rparr>"

definition pub_mem :: rmw_mem where
  "pub_mem = start_mem\<lparr>pub_datas := [30 \<mapsto> echo_pub]\<rparr>"

definition echo_publisher :: rmw_publisher_t where
  "echo_publisher = \<lparr>hdl = 3, implementation_identifier = None, data = Some 30, topic_name = None\<rparr>"

lemma pub_mem_facts:
  "data echo_publisher = Some 30" "identifiers_match (implementation_identifier echo_publisher)"
  "pub_datas pub_mem 30 = Some echo_pub" "pub_mutex echo_pub = Unlocked" "pub_topic echo_pub = Some ''0/chatter''"
  "encodes (codec (env pub_mem)) (gid (pub_attachment echo_pub))" "roomy pub_mem" "bufs pub_mem n = None"
  using le_codec_ok roomy_start
  by (simp_all add: echo_publisher_def identifiers_match_def echo_pub_def zero_pub_data_def pub_mem_def encodes_def small_env_def
      roomy_def) (simp add: le_codec_def)

theorem publish_numbers_messages_witness:
  "\<exists>w' bss. publish_all echo_publisher [[7], [8]] pub_mem = Inr w' \<and>
    map (read_number le_codec) bss = [(True, 1, [9]), (True, 2, [9])] \<and>
    trace w' = rev (map (put_of ''0/chatter'' echo_callbacks) (zip [[7], [8]] bss))"
proof -
  have "codec (env pub_mem) = le_codec" "trace pub_mem = []" "pub_callbacks echo_pub = echo_callbacks"
    "pub_attachment echo_pub = zero_attachment\<lparr>gid := [9]\<rparr>"
    by (simp_all add: pub_mem_def small_env_def echo_pub_def)
  then show ?thesis
    using publish_numbers_messages [OF pub_mem_facts(1-8), of "[[7], [8]]"]
    by (simp add: zero_attachment_def upt_rec) (elim exE conjE, intro exI conjI, assumption+)
qed

theorem publish_sends_witness:
  "\<exists>w' bs. rmw_publish (Some echo_publisher) (Some [7]) pub_mem = Inr (RMW_RET_OK, w') \<and>
    trace w' = [ZPublisherPut ''0/chatter'' (serialized_bytes echo_callbacks [7]) bs]"
proof -
  have f: "codec_ok (codec (env pub_mem))" "trace pub_mem = []" "pub_callbacks echo_pub = echo_callbacks"
    "zok (env pub_mem) t c" for t c
    using le_codec_ok by (simp_all add: pub_mem_def small_env_def echo_pub_def)
  have r: "pub_ready pub_mem 30 echo_pub ''0/chatter''"
    using pub_mem_facts(3-5,7,8) by (simp add: pub_ready_def roomy_def)
  obtain bs where bs: "att_bytes (codec (env pub_mem)) (next_attachment pub_mem (pub_attachment echo_pub)) = Some bs"
    unfolding next_attachment_def using pub_mem_facts(6) by (rule encodes_bytes)
  show ?thesis using publish_sends [OF pub_mem_facts(1,2) r f(1) bs, of "[7]"] by (auto simp: f)
qed

definition unencodable_mem :: rmw_mem where
  "unencodable_mem = pub_mem\<lparr>env := small_env\<lparr>codec := le_codec\<lparr>enc_slice := \<lambda>_. None\<rparr>\<rparr>\<rparr>"

theorem publish_attachment_leak_witness:
  "\<exists>w'. rmw_publish (Some echo_publisher) (Some [7]) unencodable_mem = Inr (RMW_RET_ERROR, w') \<and> trace w' = [] \<and>
    bufs w' = [0 \<mapsto> serialized_bytes echo_callbacks [7]]"
proof -
  have r: "pub_ready unencodable_mem 30 echo_pub ''0/chatter''"
    by (simp add: pub_ready_def unencodable_mem_def pub_mem_def small_env_def echo_pub_def zero_pub_data_def)
  have n: "att_bytes (codec (env unencodable_mem)) (next_attachment unencodable_mem (pub_attachment echo_pub)) = None"
    by (simp add: att_bytes_def unencodable_mem_def le_codec_def)
  show ?thesis
    using publish_attachment_leak [OF pub_mem_facts(1,2) r n, of "[7]"]
    by (auto simp: unencodable_mem_def pub_mem_def echo_pub_def)
qed

end
