(* ===== verification/Service.thy ===== *)
theory Service
  imports Publisher
begin

section \<open>Services\<close>

text \<open>
  \<open>rmw_service.c\<close>.  Servers and clients share the data type \<open>ZenohPicoServiceData\<close> and the functions that
  generate, declare and destroy it.  A request is a zenoh query: it waits in the request queue until it is taken
  and then in the response queue until it is answered.
\<close>

definition zero_service_data :: ZenohPicoServiceData where
  "zero_service_data = \<lparr>ref = 0, lock = Unlocked, srv_id = 0, srv_liveliness_key = [], srv_topic_key = [],
     srv_liveliness = None, srv_node = None, srv_entity = None, request_callback = no_callbacks,
     response_callback = no_callbacks, request_queue = recv_msg_list_init, response_queue = recv_msg_list_init, qable = None,
     srv_event_mgr = zero_mgr, srv_condition_mutex = Unlocked, srv_wait_set_data = None, srv_attachment = zero_attachment,
     srv_qos_profile = zero_qos, srv_mutex = Unlocked\<rparr>"

definition on_srv ::
  "addr option \<Rightarrow> rmw_mem \<Rightarrow> (ZenohPicoServiceData \<Rightarrow> rmw_mem \<Rightarrow> ('r \<times> ZenohPicoServiceData \<times> rmw_mem) res) \<Rightarrow> ('r \<times> rmw_mem) res" where
  "on_srv p w f = andthen (deref (service_datas w) p) (\<lambda>d. andthen (f d w) (\<lambda>(r, d, w).
     Inr (r, w\<lparr>service_datas := (service_datas w)(the p \<mapsto> d)\<rparr>)))"

lemma on_srv_simps [simp]:
  "on_srv None w f = Inl NullDeref"
  "service_datas w a = None \<Longrightarrow> on_srv (Some a) w f = Inl UseAfterFree"
  "service_datas w a = Some d \<Longrightarrow> on_srv (Some a) w f =
     andthen (f d w) (\<lambda>(r, d, w). Inr (r, w\<lparr>service_datas := (service_datas w)(a \<mapsto> d)\<rparr>))"
  by (simp_all add: on_srv_def)

subsection \<open>Waiting conditions\<close>

definition service_condition :: "ZenohPicoServiceData \<Rightarrow> ZenohPicoWaitCondition" where
  "service_condition d = \<lparr>condition_mutex = srv_condition_mutex d, msg_queue = Some (request_queue d),
     wait_set_data_ptr = srv_wait_set_data d\<rparr>"

definition put_service_condition :: "ZenohPicoWaitCondition \<Rightarrow> ZenohPicoServiceData \<Rightarrow> ZenohPicoServiceData" where
  "put_service_condition c d = d\<lparr>srv_condition_mutex := condition_mutex c, request_queue := the (msg_queue c),
     srv_wait_set_data := wait_set_data_ptr c\<rparr>"

definition service_condition_trigger :: "addr option \<Rightarrow> rmw_mem \<Rightarrow> (unit \<times> rmw_mem) res" where
  "service_condition_trigger p w = on_srv p w (\<lambda>d w.
     andthen (zenoh_pico_condition_trigger (service_condition d) w) (\<lambda>(c, w). Inr ((), put_service_condition c d, w)))"

definition service_condition_check_and_attach :: "addr option \<Rightarrow> addr option \<Rightarrow> rmw_mem \<Rightarrow> (bool \<times> rmw_mem) res" where
  "service_condition_check_and_attach p ws w = on_srv p w (\<lambda>d w.
     andthen (zenoh_pico_condition_check_and_attach ws (service_condition d)) (\<lambda>(r, c). Inr (r, put_service_condition c d, w)))"

definition service_condition_detach_and_queue_is_empty :: "addr option \<Rightarrow> rmw_mem \<Rightarrow> (bool \<times> rmw_mem) res" where
  "service_condition_detach_and_queue_is_empty p w = on_srv p w (\<lambda>d w.
     andthen (zenoh_pico_condition_detach_and_queue_is_empty (service_condition d)) (\<lambda>(r, c). Inr (r, put_service_condition c d, w)))"

subsection \<open>Generation and destruction\<close>

definition srv_error :: "addr option \<Rightarrow> addr option \<Rightarrow> addr option \<Rightarrow> rmw_mem \<Rightarrow> (addr option \<times> rmw_mem) res" where
  "srv_error ni entity d w =
     andthen (release_descriptions ni entity w) (\<lambda>w.
     (case d of None \<Rightarrow> Inr (None, w)
      | Some a \<Rightarrow> andthen (ZenohPicoDataDestroy (service_datas w) (Some a)) (\<lambda>h. Inr (None, w\<lparr>service_datas := h\<rparr>))))"

text \<open>The mutex that guards the attachment is never initialised; zeroed storage is taken to be an unlocked mutex.\<close>

definition zenoh_pico_generate_service_data ::
  "addr option \<Rightarrow> string \<Rightarrow> rosidl_service_type_support_t \<Rightarrow> rmw_qos_profile_t \<Rightarrow> ZenohPicoEntityType \<Rightarrow> rmw_mem
     \<Rightarrow> (addr option \<times> rmw_mem) res" where
  "zenoh_pico_generate_service_data node topic type_support qos_profile service_type w =
     (if node = None then Inr (None, w)
      else andthen (clone_node_info node w) (\<lambda>(n, ni, w).
        andthen (if service_type = Service
                 then zenoh_pico_generate_service_entity (info_zid (env w)) (nd_id n) ni topic type_support qos_profile w
                 else zenoh_pico_generate_client_entity (info_zid (env w)) (nd_id n) ni topic type_support qos_profile w) (\<lambda>(entity, w).
        if entity = None then srv_error ni entity None w
        else (case ZenohPicoDataGenerate zero_service_data (service_datas w) w of
            (None, h, w) \<Rightarrow> srv_error ni entity None (w\<lparr>service_datas := h\<rparr>)
          | (Some a, h, w) \<Rightarrow>
              andthen (deref h (Some a)) (\<lambda>d.
              andthen (deref (entities w) entity) (\<lambda>e.
              let d = d\<lparr>srv_id := ent_id e, srv_node := node, srv_entity := entity,
                        request_callback := get_request_callback type_support,
                        response_callback := get_response_callback type_support, srv_qos_profile := qos_profile\<rparr>;
                  w = w\<lparr>service_datas := h(a \<mapsto> d)\<rparr> in
              andthen (generate_liveliness (lineness_len (env w)) (copy_ok (env w)) w e) (\<lambda>key.
              (case key of None \<Rightarrow> srv_error ni entity (Some a) w
               | Some key \<Rightarrow>
                  let d = d\<lparr>srv_liveliness_key := key\<rparr>; w = w\<lparr>service_datas := h(a \<mapsto> d)\<rparr> in
                  andthen (endpoint_topic_key ni (topic_info e) w) (\<lambda>tkey.
                  (case tkey of None \<Rightarrow> srv_error ni entity (Some a) w
                   | Some tkey \<Rightarrow>
                      andthen (data_callback_init (layout (env w)) (srv_event_mgr d)) (\<lambda>m.
                      andthen (zenoh_pico_gen_gid (env w) tkey) (\<lambda>g.
                      let d = d\<lparr>srv_topic_key := tkey, request_queue := recv_msg_list_init, response_queue := recv_msg_list_init,
                                srv_event_mgr := m, srv_condition_mutex := Unlocked, srv_wait_set_data := None,
                                srv_attachment := (srv_attachment d)\<lparr>gid := the g, sequence_num := 0\<rparr>\<rparr> in
                      Inr (Some a, w\<lparr>service_datas := h(a \<mapsto> d)\<rparr>)))))))))))))"

text \<open>Destroying does not undeclare anything but the liveliness token, and does not drop the topic key.\<close>

definition zenoh_pico_destroy_service_data :: "addr option \<Rightarrow> rmw_mem \<Rightarrow> (bool \<times> rmw_mem) res" where
  "zenoh_pico_destroy_service_data p w =
     (if p = None then Inr (False, w)
      else andthen (ZenohPicoDataRelease (service_datas w) p) (\<lambda>(last, h). let w = w\<lparr>service_datas := h\<rparr> in
        if last then
          andthen (deref (service_datas w) p) (\<lambda>d.
          let w = z_undeclare (srv_liveliness d) w;
              d = d\<lparr>srv_liveliness_key := [], srv_liveliness := None,
                    srv_attachment := the (snd (attachment_destroy (Some (srv_attachment d)))), srv_mutex := Dropped\<rparr> in
          andthen (if srv_node d \<noteq> None then zenoh_pico_destroy_node_data (srv_node d) w else Inr (True, w)) (\<lambda>(_, w).
          andthen (if srv_entity d \<noteq> None then zenoh_pico_destroy_entity (srv_entity d) w else Inr (True, w)) (\<lambda>(_, w).
          andthen (drain_queue (request_queue d) w) (\<lambda>(q, w).
          andthen (drain_queue (response_queue d) w) (\<lambda>(r, w).
          let d = d\<lparr>srv_node := None, srv_entity := None, request_queue := q, response_queue := r\<rparr> in
          andthen (ZenohPicoDataDestroy ((service_datas w)(the p \<mapsto> d)) p) (\<lambda>h. Inr (True, w\<lparr>service_datas := h\<rparr>)))))))
        else Inr (True, w)))"

subsection \<open>Incoming requests\<close>

definition srv_append :: "addr option \<Rightarrow> addr option \<Rightarrow> rmw_mem \<Rightarrow> (unit \<times> rmw_mem) res" where
  "srv_append p m w = on_srv p w (\<lambda>d w.
     andthen (recv_msg_list_append (Some (request_queue d)) m (msgs w)) (\<lambda>(_, l, h).
       Inr ((), d\<lparr>request_queue := the l\<rparr>, w\<lparr>msgs := h\<rparr>)))"

definition srv_callback_trigger :: "addr option \<Rightarrow> rmw_mem \<Rightarrow> (unit \<times> rmw_mem) res" where
  "srv_callback_trigger p w = on_srv p w (\<lambda>d w.
     andthen (data_callback_trigger (srv_event_mgr d) w) (\<lambda>(m, w). Inr ((), d\<lparr>srv_event_mgr := m\<rparr>, w)))"

definition add_new_request_message :: "addr option \<Rightarrow> addr option \<Rightarrow> rmw_mem \<Rightarrow> (unit \<times> rmw_mem) res" where
  "add_new_request_message p m w =
     andthen (srv_append p m w) (\<lambda>(_, w).
     andthen (srv_callback_trigger p w) (\<lambda>(_, w).
     service_condition_trigger p w))"

definition error_reply :: "z_query \<Rightarrow> rmw_mem \<Rightarrow> rmw_mem" where
  "error_reply q w = znote (ZQueryReplyErr (query_id q) ''rmw_zenoh_pico error'') w"

definition request_handler :: "z_query \<Rightarrow> addr option \<Rightarrow> rmw_mem \<Rightarrow> (unit \<times> rmw_mem) res" where
  "request_handler q ctx w =
     (if ctx = None then Inr ((), error_reply q w)
      else (case zenoh_pico_gen_timestamp w of (ts, w) \<Rightarrow>
        andthen (rmw_zenoh_pico_generate_recv_query_msg_data q ts w) (\<lambda>(m, w).
          if m = None then Inr ((), error_reply q w) else add_new_request_message ctx m w)))"

subsection \<open>Declaring\<close>

definition declaration_service_data :: "addr option \<Rightarrow> rmw_mem \<Rightarrow> (bool \<times> rmw_mem) res" where
  "declaration_service_data p w = on_srv p w (\<lambda>d w.
     andthen (deref (node_datas w) (srv_node d)) (\<lambda>n.
     andthen (deref (sessions w) (nd_session n)) (\<lambda>_.
     (case zcall (ZDeclareQueryable (srv_topic_key d)) w of (ok, w) \<Rightarrow>
        if \<not> ok then Inr (False, d, w)
        else (case declaration_liveliness (srv_liveliness_key d) w of ((ok, token), w) \<Rightarrow>
          Inr (ok, d\<lparr>qable := Some (srv_topic_key d), srv_liveliness := token\<rparr>, w))))))"

text \<open>The result is zenoh's result code read as a bool, false on success; no caller reads it.\<close>

definition undeclaration_service_data :: "addr option \<Rightarrow> rmw_mem \<Rightarrow> (bool \<times> rmw_mem) res" where
  "undeclaration_service_data p w = on_srv p w (\<lambda>d w.
     Inr (False, d\<lparr>qable := None, srv_liveliness := None\<rparr>, z_undeclare (srv_liveliness d) (z_undeclare (qable d) w)))"

subsection \<open>Create and destroy\<close>

text \<open>
  The node data is used without taking a reference, although destroying releases one.  \<open>rmw_create_service\<close>
  and \<open>rmw_create_client\<close> are the same code up to the entity type, written twice; \<open>create_service_or_client\<close> is that code.
\<close>

definition create_service_or_client ::
  "ZenohPicoEntityType \<Rightarrow> rmw_node_t option \<Rightarrow> rosidl_service_type_support_t option option \<Rightarrow> string option
     \<Rightarrow> rmw_qos_profile_t option \<Rightarrow> rmw_mem \<Rightarrow> (rmw_endpoint_t option \<times> rmw_mem) res" where
  "create_service_or_client service_type node type_supports service_name qos_profile w =
     (case node of None \<Rightarrow> Inr (None, w) | Some n \<Rightarrow>
      if \<not> identifiers_match (implementation_identifier n) then Inr (None, w)
      else if type_supports = None then Inr (None, w)
      else if service_name = None then Inr (None, w)
      else if cstr (the service_name) = [] then Inr (None, w)
      else if qos_profile = None then Inr (None, w)
      else if \<not> avoid_ros_namespace_conventions (the qos_profile) \<and> \<not> rmw_zenoh_pico_check_validate_name (the service_name) w
      then Inr (None, w)
      else andthen (context_impl n w) (\<lambda>i.
        if i = None then Inr (None, w)
        else if data n = None then Inr (None, w)
        else andthen (deref (node_datas w) (data n)) (\<lambda>nd.
        andthen (isEnableSession (nd_session nd) w) (\<lambda>enabled.
        if \<not> enabled then Inr (None, w)
        else (case the type_supports of None \<Rightarrow> Inr (None, w) | Some type_support \<Rightarrow>
          andthen (zenoh_pico_generate_service_data (data n) (the service_name) type_support (the qos_profile) service_type w) (\<lambda>(d, w).
            if d = None then Inr (None, w)
            else (case z_malloc w of
                (None, w) \<Rightarrow> andthen (zenoh_pico_destroy_service_data d w) (\<lambda>(_, w). Inr (None, w))
              | (Some a, w) \<Rightarrow>
                  let w = buf_put a [] w in
                  (case name_buffer (the service_name) w of
                     (None, w) \<Rightarrow> andthen (zenoh_pico_destroy_service_data d w) (\<lambda>(_, w). Inr (None, w))
                   | (name, w) \<Rightarrow>
                      andthen (declaration_service_data d w) (\<lambda>(ok, w).
                        if \<not> ok then andthen (zenoh_pico_destroy_service_data d w) (\<lambda>(_, w). Inr (None, w))
                        else Inr (Some \<lparr>hdl = a, implementation_identifier = Some rmw_get_implementation_identifier, data = d,
                               topic_name = name\<rparr>, w))))))))))"

definition rmw_create_service where
  "rmw_create_service node type_supports service_name qos_profile w =
     create_service_or_client Service node type_supports service_name qos_profile w"

text \<open>Likewise \<open>rmw_destroy_service\<close> and \<open>rmw_destroy_client\<close>.\<close>

definition destroy_service_or_client ::
  "rmw_node_t option \<Rightarrow> rmw_endpoint_t option \<Rightarrow> rmw_mem \<Rightarrow> (rmw_ret_t \<times> rmw_mem) res" where
  "destroy_service_or_client node service w =
     (case node of None \<Rightarrow> Inr (RMW_RET_INVALID_ARGUMENT, w) | Some n \<Rightarrow>
      if node_context n = None then Inr (RMW_RET_INVALID_ARGUMENT, w)
      else (case service of None \<Rightarrow> Inr (RMW_RET_INVALID_ARGUMENT, w) | Some s \<Rightarrow>
      if \<not> identifiers_match (implementation_identifier n) then Inr (RMW_RET_INCORRECT_RMW_IMPLEMENTATION, w)
      else if \<not> identifiers_match (implementation_identifier s) then Inr (RMW_RET_INCORRECT_RMW_IMPLEMENTATION, w)
      else andthen (if data s \<noteq> None
                    then andthen (undeclaration_service_data (data s) w) (\<lambda>(_, w). zenoh_pico_destroy_service_data (data s) w)
                    else Inr (True, w)) (\<lambda>(_, w).
           andthen (z_free (topic_name s) w) (\<lambda>w.
           andthen (z_free (Some (hdl s)) w) (\<lambda>w. Inr (RMW_RET_OK, w))))))"

definition rmw_destroy_service where
  "rmw_destroy_service node service w = destroy_service_or_client node service w"

definition rmw_service_request_subscription_get_actual_qos ::
  "rmw_endpoint_t option \<Rightarrow> rmw_qos_profile_t option \<Rightarrow> rmw_mem \<Rightarrow> (rmw_ret_t \<times> rmw_qos_profile_t option) res" where
  "rmw_service_request_subscription_get_actual_qos service qos w =
     (case service of None \<Rightarrow> Inr (RMW_RET_INVALID_ARGUMENT, qos) | Some s \<Rightarrow>
      if \<not> identifiers_match (implementation_identifier s) then Inr (RMW_RET_INCORRECT_RMW_IMPLEMENTATION, qos)
      else if qos = None then Inr (RMW_RET_INVALID_ARGUMENT, qos)
      else if data s = None then Inr (RMW_RET_INVALID_ARGUMENT, qos)
      else andthen (deref (service_datas w) (data s)) (\<lambda>d. Inr (RMW_RET_OK, Some (srv_qos_profile d))))"

definition rmw_service_response_publisher_get_actual_qos ::
  "rmw_endpoint_t option \<Rightarrow> rmw_qos_profile_t option \<Rightarrow> rmw_mem \<Rightarrow> (rmw_ret_t \<times> rmw_qos_profile_t option) res" where
  "rmw_service_response_publisher_get_actual_qos service qos w =
     (if service = None then Inr (RMW_RET_INVALID_ARGUMENT, qos)
      else if qos = None then Inr (RMW_RET_INVALID_ARGUMENT, qos)
      else rmw_service_request_subscription_get_actual_qos service qos w)"

definition rmw_service_set_on_new_request_callback ::
  "rmw_service_t option \<Rightarrow> nat option \<Rightarrow> nat option \<Rightarrow> rmw_mem \<Rightarrow> (rmw_ret_t \<times> rmw_mem) res" where
  "rmw_service_set_on_new_request_callback service cb ud w =
     (case service of None \<Rightarrow> Inr (RMW_RET_INVALID_ARGUMENT, w) | Some s \<Rightarrow>
      if data s = None then Inr (RMW_RET_INVALID_ARGUMENT, w)
      else on_srv (data s) w (\<lambda>d w.
        andthen (data_callback_set ud cb (srv_event_mgr d) w) (\<lambda>(m, w). Inr (RMW_RET_OK, d\<lparr>srv_event_mgr := m\<rparr>, w))))"

subsection \<open>Taking requests and sending responses\<close>

definition srv_pop_request :: "addr option \<Rightarrow> rmw_mem \<Rightarrow> (addr option \<times> rmw_mem) res" where
  "srv_pop_request p w = on_srv p w (\<lambda>d w.
     andthen (recv_msg_list_pop (Some (request_queue d)) (msgs w)) (\<lambda>(m, l, h).
       Inr (m, d\<lparr>request_queue := the l\<rparr>, w\<lparr>msgs := h\<rparr>)))"

definition srv_append_response :: "addr option \<Rightarrow> addr option \<Rightarrow> rmw_mem \<Rightarrow> (unit \<times> rmw_mem) res" where
  "srv_append_response p m w = on_srv p w (\<lambda>d w.
     andthen (recv_msg_list_append (Some (response_queue d)) m (msgs w)) (\<lambda>(_, l, h).
       Inr ((), d\<lparr>response_queue := the l\<rparr>, w\<lparr>msgs := h\<rparr>)))"

text \<open>The result of deserialising only sets \<open>taken\<close>: the answer is OK and the request waits for a response either way.\<close>

definition rmw_take_request ::
  "rmw_service_t option \<Rightarrow> rmw_service_info_t option \<Rightarrow> ros_message \<Rightarrow> bool option \<Rightarrow> rmw_mem
     \<Rightarrow> (rmw_ret_t \<times> rmw_service_info_t option \<times> ros_message \<times> bool option \<times> rmw_mem) res" where
  "rmw_take_request service request_header ros_request taken w =
     (if taken = None then Inr (RMW_RET_INVALID_ARGUMENT, request_header, ros_request, taken, w)
      else (case service of None \<Rightarrow> Inr (RMW_RET_INVALID_ARGUMENT, request_header, ros_request, taken, w) | Some s \<Rightarrow>
      if topic_name s = None then Inr (RMW_RET_ERROR, request_header, ros_request, taken, w)
      else if data s = None then Inr (RMW_RET_ERROR, request_header, ros_request, taken, w)
      else if \<not> identifiers_match (implementation_identifier s)
      then Inr (RMW_RET_INCORRECT_RMW_IMPLEMENTATION, request_header, ros_request, taken, w)
      else andthen (srv_pop_request (data s) w) (\<lambda>(msg_data, w).
        if msg_data = None then Inr (RMW_RET_ERROR, request_header, ros_request, taken, w)
        else andthen (deref (service_datas w) (data s)) (\<lambda>d.
          andthen (rmw_zenoh_pico_deserialize_request_msg msg_data (request_callback d) ros_request request_header w)
            (\<lambda>(deserialize_rv, m, hd).
          andthen (srv_append_response (data s) msg_data w) (\<lambda>(_, w).
            Inr (RMW_RET_OK, hd, m, Some deserialize_rv, w)))))))"

record rmw_request_id_t =
  rid_writer_guid :: "byte list"
  rid_sequence_number :: "64 word"

text \<open>
  \<open>memcmp\<close> reads 16 bytes of the message's identifier, which has the length it arrived with: with 1 to 15 bytes the read goes
  past the end of the slice.  Only an empty slice, which has no data pointer, is tested for.
\<close>

definition compare_responce_msg :: "rmw_request_id_t \<Rightarrow> ReceiveMessageData \<Rightarrow> bool res" where
  "compare_responce_msg service msg =
     (let g = gid (attachment msg) in
      if g = [] then Inr False
      else if length g < RMW_GID_STORAGE_SIZE then Inl OutOfBounds
      else if take RMW_GID_STORAGE_SIZE g \<noteq> rid_writer_guid service then Inr False
      else if sequence_num (attachment msg) \<noteq> rid_sequence_number service then Inr False
      else Inr True)"

definition srv_pickup_response :: "addr option \<Rightarrow> rmw_request_id_t \<Rightarrow> rmw_mem \<Rightarrow> (addr option \<times> rmw_mem) res" where
  "srv_pickup_response p request_header w = on_srv p w (\<lambda>d w.
     andthen (recv_msg_list_pickup (next_addr w) (Some (response_queue d)) (compare_responce_msg request_header) (msgs w)) (\<lambda>(m, l, h).
       Inr (m, d\<lparr>response_queue := the l\<rparr>, w\<lparr>msgs := h\<rparr>)))"

definition srv_lock :: "addr option \<Rightarrow> rmw_mem \<Rightarrow> (unit \<times> rmw_mem) res" where
  "srv_lock p w = on_srv p w (\<lambda>d w. andthen (z_mutex_lock (srv_mutex d)) (\<lambda>m. Inr ((), d\<lparr>srv_mutex := m\<rparr>, w)))"

definition srv_unlock :: "addr option \<Rightarrow> rmw_mem \<Rightarrow> (unit \<times> rmw_mem) res" where
  "srv_unlock p w = on_srv p w (\<lambda>d w. andthen (z_mutex_unlock (srv_mutex d)) (\<lambda>m. Inr ((), d\<lparr>srv_mutex := m\<rparr>, w)))"

text \<open>
  The null checks of the service name and of the message found are written with a return code where the
  macro expects a statement: they set the error text and the code goes on.  So without a matching
  request the null pointer is used.  An attachment error leaves both the message and the bytes allocated.
\<close>

definition rmw_send_response ::
  "rmw_service_t option \<Rightarrow> rmw_request_id_t option \<Rightarrow> ros_message option \<Rightarrow> rmw_mem \<Rightarrow> (rmw_ret_t \<times> rmw_mem) res" where
  "rmw_send_response service request_header ros_response w =
     (case service of None \<Rightarrow> Inr (RMW_RET_INVALID_ARGUMENT, w) | Some s \<Rightarrow>
      if data s = None then Inr (RMW_RET_INVALID_ARGUMENT, w)
      else if request_header = None then Inr (RMW_RET_INVALID_ARGUMENT, w)
      else if ros_response = None then Inr (RMW_RET_INVALID_ARGUMENT, w)
      else if \<not> identifiers_match (implementation_identifier s) then Inr (RMW_RET_INCORRECT_RMW_IMPLEMENTATION, w)
      else andthen (srv_pickup_response (data s) (the request_header) w) (\<lambda>(msg_data, w).
        andthen (deref (service_datas w) (data s)) (\<lambda>d.
        (case rmw_zenoh_pico_serialize (response_callback d) (the ros_response) w of
           (None, w) \<Rightarrow> andthen (zenoh_pico_delete_recv_msg_data msg_data w) (\<lambda>(_, w). Inr (RMW_RET_ERROR, w))
         | (Some (msg_bytes, data_length), w) \<Rightarrow>
             andthen (srv_lock (data s) w) (\<lambda>(_, w).
             andthen (deref (msgs w) msg_data) (\<lambda>md.
             (case attachment_gen (attachment md) w of
                (None, att, w) \<Rightarrow>
                  andthen (srv_unlock (data s) (msg_put (the msg_data) (md\<lparr>attachment := att\<rparr>) w)) (\<lambda>(_, w). Inr (RMW_RET_ERROR, w))
              | (Some reply_attachment, att, w) \<Rightarrow>
                  let w = msg_put (the msg_data) (md\<lparr>attachment := att\<rparr>) w in
                  andthen (deref (bufs w) (Some msg_bytes)) (\<lambda>payload.
                  (case query md of None \<Rightarrow> Inl NullDeref | Some q \<Rightarrow>
                  (case zcall (ZQueryReply q (take data_length payload) reply_attachment) w of (ok, w) \<Rightarrow>
                  andthen (zenoh_pico_delete_recv_msg_data msg_data w) (\<lambda>(_, w).
                  andthen (z_free (Some msg_bytes) w) (\<lambda>w.
                  andthen (srv_unlock (data s) w) (\<lambda>(_, w).
                    Inr (if ok then RMW_RET_OK else RMW_RET_ERROR, w))))))))))))))"

subsection \<open>Requests reach the server\<close>

definition srv_received :: "ReceiveMessageDataList \<Rightarrow> ZenohPicoServiceData \<Rightarrow> ZenohPicoServiceData" where
  "srv_received l d = d\<lparr>request_queue := l, srv_event_mgr := announced (srv_event_mgr d)\<rparr>"

text \<open>
  Server or client data between two calls: \<open>reqs\<close> and \<open>resps\<close> wait in its two queues and nobody holds
  its mutexes.
\<close>

definition srv_ready :: "rmw_mem \<Rightarrow> addr \<Rightarrow> ZenohPicoServiceData \<Rightarrow> addr list \<Rightarrow> addr list \<Rightarrow> bool" where
  "srv_ready w a d reqs resps \<longleftrightarrow> service_datas w a = Some d \<and> queue_rep (msgs w) (request_queue d) reqs \<and>
     queue_rep (msgs w) (response_queue d) resps \<and> set reqs \<inter> set resps = {} \<and> mgr_ok (srv_event_mgr d) \<and>
     srv_condition_mutex d = Unlocked \<and> srv_mutex d = Unlocked \<and> waiter_ok w (srv_wait_set_data d)"

lemma add_new_request_message_run:
  assumes d: "service_datas w a = Some d" "mgr_ok (srv_event_mgr d)" "srv_condition_mutex d = Unlocked"
    and wt: "waiter_ok w (srv_wait_set_data d)"
    and ap: "recv_msg_list_append (Some (request_queue d)) (Some m) (msgs w) = Inr (Some m, Some l, h)"
  shows "add_new_request_message (Some a) (Some m) w = Inr ((), w\<lparr>msgs := h,
      trace := announcement (srv_event_mgr d) @ trace w, service_datas := (service_datas w)(a \<mapsto> srv_received l d),
      wait_sets := wake (srv_wait_set_data d) (wait_sets w)\<rparr>)"
proof -
  let ?d1 = "d\<lparr>request_queue := l\<rparr>"
  let ?w1 = "w\<lparr>msgs := h, service_datas := (service_datas w)(a \<mapsto> ?d1)\<rparr>"
  let ?d2 = "srv_received l d"
  let ?w2 = "w\<lparr>msgs := h, trace := announcement (srv_event_mgr d) @ trace w, service_datas := (service_datas w)(a \<mapsto> ?d2)\<rparr>"
  have 1: "srv_append (Some a) (Some m) w = Inr ((), ?w1)" using d(1) ap by (simp add: srv_append_def)
  have 2: "srv_callback_trigger (Some a) ?w1 = Inr ((), ?w2)"
    using d(2) by (simp add: srv_callback_trigger_def callback_trigger_announces srv_received_def)
  have wt: "waiter_ok ?w2 (wait_set_data_ptr (service_condition ?d2))"
    using wt waiter_ok_cong [of ?w2 w "srv_wait_set_data d"] by (simp add: service_condition_def srv_received_def)
  have c: "condition_mutex (service_condition ?d2) = Unlocked" using d(3) by (simp add: service_condition_def srv_received_def)
  have "put_service_condition (service_condition ?d2) ?d2 = ?d2" by (simp add: put_service_condition_def service_condition_def)
  then have 3: "service_condition_trigger (Some a) ?w2 = Inr ((), ?w2\<lparr>wait_sets := wake (srv_wait_set_data d) (wait_sets w)\<rparr>)"
    using condition_trigger_wakes [OF c wt]
    by (simp add: service_condition_trigger_def) (simp add: service_condition_def srv_received_def)
  show ?thesis unfolding add_new_request_message_def 1 andthen_Inr prod.case 2 3 by simp
qed

interpretation service_mailbox: mailbox service_datas request_queue srv_event_mgr srv_condition_mutex srv_wait_set_data srv_received
  add_new_request_message
proof
  fix w a d m l h
  assume "service_datas w a = Some d" "mgr_ok (srv_event_mgr d)" "srv_condition_mutex d = Unlocked" "waiter_ok w (srv_wait_set_data d)"
    "recv_msg_list_append (Some (request_queue d)) (Some m) (msgs w) = Inr (Some m, Some l, h)"
  from add_new_request_message_run [OF this]
  show "\<exists>w'. add_new_request_message (Some a) (Some m) w = Inr ((), w') \<and> service_datas w' = (service_datas w)(a \<mapsto> srv_received l d) \<and>
      msgs w' = h \<and> bufs w' = bufs w \<and> trace w' = announcement (srv_event_mgr d) @ trace w \<and>
      wait_sets w' = wake (srv_wait_set_data d) (wait_sets w)" by simp
qed (simp_all add: with_msg_def znote_def)

lemma request_handler_eq:
  "request_handler q (Some a) w = handle_query (error_reply q) (add_new_request_message (Some a)) q w"
  by (simp add: request_handler_def handle_query_def)

text \<open>
  C18: Delivery of a request. When a query with a readable attachment arrives for a server between two calls, with
  memory, request_handler clones the query and appends one new message with its payload and attachment to the request
  queue; the responses still to be sent are untouched. The user's callback runs once or the unread count grows by one,
  and a wait set attached to the server is triggered and signalled. No reply is sent.
\<close>

theorem request_is_queued:
  assumes "srv_ready w a d reqs resps" and "roomy w" and "msgs w (next_addr w) = None"
    and "attachment_data_get (codec (env w)) (query_attachment q) zero_attachment = (True, att)"
  shows "\<exists>w' d' md. request_handler q (Some a) w = Inr ((), w') \<and>
    service_datas w' = (service_datas w)(a \<mapsto> d') \<and> srv_event_mgr d' = announced (srv_event_mgr d) \<and>
    queue_rep (msgs w') (request_queue d') (reqs @ [next_addr w]) \<and> queue_rep (msgs w') (response_queue d') resps \<and>
    md = query_msg (Suc (next_addr w)) q (fst (zenoh_pico_gen_timestamp w)) att \<and>
    same_msgs ((msgs w)(next_addr w \<mapsto> md)) (msgs w') \<and>
    bufs w' = (bufs w)(Suc (next_addr w) \<mapsto> query_payload q) \<and>
    trace w' = announcement (srv_event_mgr d) @ ZQueryClone (query_id q) # trace w \<and>
    wait_sets w' = wake (srv_wait_set_data d) (wait_sets w)"
proof -
  have r: "service_mailbox.ready_for w a d reqs"
    using assms(1) by (simp add: service_mailbox.ready_for_def srv_ready_def)
  obtain w' l where run: "request_handler q (Some a) w = Inr ((), w')"
    "service_datas w' = (service_datas w)(a \<mapsto> srv_received l d)" "queue_rep (msgs w') l (reqs @ [next_addr w])"
    "same_msgs ((msgs w)(next_addr w \<mapsto> query_msg (Suc (next_addr w)) q (fst (zenoh_pico_gen_timestamp w)) att)) (msgs w')"
    "\<forall>x. x \<notin> set reqs \<longrightarrow> x \<noteq> next_addr w \<longrightarrow> msgs w' x = msgs w x"
    "bufs w' = (bufs w)(Suc (next_addr w) \<mapsto> query_payload q)"
    "trace w' = announcement (srv_event_mgr d) @ ZQueryClone (query_id q) # trace w"
    "wait_sets w' = wake (srv_wait_set_data d) (wait_sets w)"
    using service_mailbox.query_delivered [OF r assms(2-4)] unfolding request_handler_eq by blast
  have q: "queue_rep (msgs w) (response_queue d) resps" and disj: "set reqs \<inter> set resps = {}"
    using assms(1) by (simp_all add: srv_ready_def)
  have "next_addr w \<notin> set resps" using q assms(3) chain_dom [of "msgs w" _ resps "next_addr w"] by (auto simp: queue_rep_def)
  then have "queue_rep (msgs w') (response_queue d) resps"
    using run(5) disj q queue_rep_cong [of resps "msgs w'" "msgs w" "response_queue d"] by blast
  with run show ?thesis
    by (intro exI [of _ w'] exI [of _ "srv_received l d"] exI) (simp add: srv_received_def)
qed

subsection \<open>Requests are answered\<close>

text \<open>A request object in one of the queues: referenced once, with a payload buffer and a clone of its query.\<close>

definition waiting_request :: "rmw_mem \<Rightarrow> addr \<Rightarrow> ReceiveMessageData \<Rightarrow> byte list \<Rightarrow> nat \<Rightarrow> bool" where
  "waiting_request w m md bs q \<longleftrightarrow> live (msgs w) m md \<and> ref md = 1 \<and> msg_type md = Query \<and> query md = Some q \<and>
     (\<exists>p. payload_start md = Some p \<and> bufs w p = Some bs) \<and> payload_size md = length bs"

lemma fill_header_link [simp]: "rmw_zneoh_fill_request_header hdr (md\<lparr>next_msg := n\<rparr>) = rmw_zneoh_fill_request_header hdr md"
  by (simp add: rmw_zneoh_fill_request_header_def)

text \<open>
  C19: Taking a request. For a server of this implementation with a waiting request, rmw_take_request answers OK
  and moves the oldest request to the end of the response queue, unchanged and still holding its query. When
  its payload can be deserialised the caller gets the message, taken is set and the header carries the request's sequence
  number and gid; when it cannot, the answer is OK all the same, with taken cleared, and the request waits
  for a response too. Nothing is freed and no call is made.
\<close>

theorem take_request_moves:
  assumes "data h = Some s" "topic_name h = Some t" "identifiers_match (implementation_identifier h)"
    and "srv_ready w s d (m # reqs) resps" and "waiting_request w m md bs q" and "ROS2_MSG_OFFSET \<le> length bs"
    and "cdr_deserialize (request_callback d) (drop ROS2_MSG_OFFSET bs) = (ok, x)"
  shows "\<exists>w' d'. rmw_take_request (Some h) (Some hdr) old (Some b) w =
      Inr (RMW_RET_OK, Some (if ok then rmw_zneoh_fill_request_header hdr md else hdr), x, Some ok, w') \<and>
    service_datas w' = (service_datas w)(s \<mapsto> d') \<and> queue_rep (msgs w') (request_queue d') reqs \<and>
    queue_rep (msgs w') (response_queue d') (resps @ [m]) \<and> same_msgs (msgs w) (msgs w') \<and>
    bufs w' = bufs w \<and> trace w' = trace w"
proof -
  have d: "service_datas w s = Some d" "queue_rep (msgs w) (request_queue d) (m # reqs)" "queue_rep (msgs w) (response_queue d) resps"
    "set (m # reqs) \<inter> set resps = {}"
    using assms(4) by (simp_all add: srv_ready_def)
  obtain p where md: "msgs w m = Some md" "payload_start md = Some p" "bufs w p = Some bs" "payload_size md = length bs"
    using assms(5) by (auto simp: waiting_request_def live_def)
  let ?h = "(msgs w)(m \<mapsto> md\<lparr>next_msg := None\<rparr>)"
  obtain l where pop: "recv_msg_list_pop (Some (request_queue d)) (msgs w) = Inr (Some m, Some l, ?h)"
    and q: "queue_rep ?h l reqs"
    using pop_cons [OF d(2)] md(1) by auto
  let ?d1 = "d\<lparr>request_queue := l\<rparr>"
  let ?w1 = "w\<lparr>msgs := ?h, service_datas := (service_datas w)(s \<mapsto> ?d1)\<rparr>"
  have nin: "m \<notin> set resps" using d(4) by auto
  have r: "queue_rep ?h (response_queue d) resps"
    using d(3) nin by (simp add: queue_rep_frame)
  have hm: "?h m = Some (md\<lparr>next_msg := None\<rparr>)" by simp
  obtain l' h' where ap: "recv_msg_list_append (Some (response_queue d)) (Some m) ?h = Inr (Some m, Some l', h')"
    "queue_rep h' l' (resps @ [m])" "same_msgs ?h h'"
    using append_rep [OF r hm nin] by blast
  let ?d2 = "?d1\<lparr>response_queue := l'\<rparr>"
  let ?w2 = "w\<lparr>msgs := h', service_datas := (service_datas w)(s \<mapsto> ?d2)\<rparr>"
  have 1: "srv_pop_request (Some s) w = Inr (Some m, ?w1)" using d(1) pop by (simp add: srv_pop_request_def)
  have 2: "rmw_zenoh_pico_deserialize_request_msg (Some m) (request_callback ?d1) old (Some hdr) ?w1 =
      Inr (ok, x, Some (if ok then rmw_zneoh_fill_request_header hdr md else hdr))"
    using md assms(6,7) by (simp add: rmw_zenoh_pico_deserialize_request_msg_def rmw_zenoh_pico_deserialize_def)
  have 3: "srv_append_response (Some s) (Some m) ?w1 = Inr ((), ?w2)"
    using ap(1) by (simp add: srv_append_response_def)
  have run: "rmw_take_request (Some h) (Some hdr) old (Some b) w =
      Inr (RMW_RET_OK, Some (if ok then rmw_zneoh_fill_request_header hdr md else hdr), x, Some ok, ?w2)"
    using assms(1-3) 1 2 3 by (simp add: rmw_take_request_def)
  have dist: "m \<notin> set reqs" using d(2) by (simp add: queue_rep_def)
  have "h' y = ?h y" if "y \<in> set reqs" for y
    using append_frame [OF r ap(1), of y] that d(4) dist by auto
  then have "queue_rep h' l reqs" using q queue_rep_cong [of reqs h' ?h l] by blast
  moreover have "same_msgs (msgs w) h'"
    using same_msgs_upd [where h = "msgs w" and p = None, OF md(1)] ap(3) by (rule same_msgs_trans)
  ultimately show ?thesis using run ap(2) by (intro exI [of _ ?w2] exI [of _ ?d2]) simp
qed

lemma take_request_empty:
  assumes "data h = Some s" "topic_name h = Some t" "identifiers_match (implementation_identifier h)" and "srv_ready w s d [] resps"
  shows "rmw_take_request (Some h) hdr old (Some b) w = Inr (RMW_RET_ERROR, hdr, old, Some b, w)"
proof -
  have d: "service_datas w s = Some d" "queue_rep (msgs w) (request_queue d) []" using assms(4) by (simp_all add: srv_ready_def)
  have "d\<lparr>request_queue := request_queue d\<rparr> = d" by simp
  then show ?thesis
    using assms(1-3) d by (simp add: rmw_take_request_def srv_pop_request_def pop_empty fun_upd_idem)
qed

text \<open>The allocation counter is fuel enough for every queue.\<close>

lemma queue_below:
  assumes "rmw_ok w" and "queue_rep (msgs w) l as"
  shows "length as \<le> next_addr w"
proof -
  have "set as \<subseteq> dom (msgs w)" using assms(2) chain_dom [of "msgs w" "que_top l" as] by (auto simp: queue_rep_def)
  also have "\<dots> \<subseteq> {..<next_addr w}" using assms(1) by (auto simp: rmw_ok_def)
  finally have "card (set as) \<le> next_addr w" using card_mono [of "{..<next_addr w}" "set as"] by simp
  then show ?thesis using assms(2) distinct_card [of as] by (simp add: queue_rep_def)
qed

text \<open>What a comparison that returns tells, and when it does not.\<close>

definition request_matches :: "rmw_request_id_t \<Rightarrow> ReceiveMessageData \<Rightarrow> bool" where
  "request_matches rid d \<longleftrightarrow> gid (attachment d) \<noteq> [] \<and> take RMW_GID_STORAGE_SIZE (gid (attachment d)) = rid_writer_guid rid \<and>
     sequence_num (attachment d) = rid_sequence_number rid"

definition short_gid :: "ReceiveMessageData \<Rightarrow> bool" where
  "short_gid d \<longleftrightarrow> gid (attachment d) \<noteq> [] \<and> length (gid (attachment d)) < RMW_GID_STORAGE_SIZE"

lemma compare_responce_msg_eq:
  "compare_responce_msg rid d = (if short_gid d then Inl OutOfBounds else Inr (request_matches rid d))"
  by (simp add: compare_responce_msg_def short_gid_def request_matches_def Let_def)

lemma compare_responce_msg_Inr: "compare_responce_msg rid d = Inr b \<Longrightarrow> b = request_matches rid d"
  by (simp add: compare_responce_msg_eq split: if_splits)

lemma first_match_head:
  "msgs w m = Some md \<Longrightarrow> compare_responce_msg rid md = Inr True \<Longrightarrow> first_match (msgs w) (compare_responce_msg rid) (m # ms) = Inr (Some m)"
  by (simp add: first_match_def)

lemma srv_pickup_run:
  assumes "rmw_ok w" and "srv_ready w s d reqs resps" and "first_match (msgs w) (compare_responce_msg rid) resps = Inr r"
  shows "\<exists>l h. srv_pickup_response (Some s) rid w = Inr (r,
      w\<lparr>msgs := h, service_datas := (service_datas w)(s \<mapsto> d\<lparr>response_queue := l\<rparr>)\<rparr>) \<and>
    queue_rep h l (case r of None \<Rightarrow> resps | Some c \<Rightarrow> remove1 c resps) \<and>
    queue_rep h (request_queue d) reqs \<and> same_msgs (msgs w) h"
proof -
  have d: "service_datas w s = Some d" "queue_rep (msgs w) (request_queue d) reqs" "set reqs \<inter> set resps = {}"
    and q: "queue_rep (msgs w) (response_queue d) resps"
    using assms(2) by (simp_all add: srv_ready_def)
  obtain l h where p: "recv_msg_list_pickup (next_addr w) (Some (response_queue d)) (compare_responce_msg rid) (msgs w) =
      Inr (r, Some l, h)"
    "queue_rep h l (case r of None \<Rightarrow> resps | Some c \<Rightarrow> remove1 c resps)"
    "same_msgs (msgs w) h"
    using pickup_takes_first [OF q queue_below [OF assms(1) q] assms(3)] by blast
  have "h x = msgs w x" if "x \<in> set reqs" for x using pickup_frame [OF q p(1), of x] d(3) that by auto
  then have "queue_rep h (request_queue d) reqs" using d(2) queue_rep_cong [of reqs h "msgs w"] by blast
  with p d(1) show ?thesis by (intro exI [of _ l] exI [of _ h]) (simp add: srv_pickup_response_def)
qed

text \<open>
  A response nobody asked for. When all requests in the response queue can be compared and none has the gid and sequence number of the
  header, the missing return in rmw_send_response makes it go on with a null message: unless the serialisation runs
  out of memory, it uses the null pointer.
\<close>

theorem unmatched_response_faults:
  assumes "data h = Some s" "identifiers_match (implementation_identifier h)" and "rmw_ok w" "srv_ready w s d reqs resps"
    and "\<forall>m \<in> set resps. match_at (msgs w) (compare_responce_msg rid) m = Inr False" and "\<not> oom (env w) (next_addr w)"
  shows "rmw_send_response (Some h) (Some rid) (Some r) w = Inl NullDeref"
proof -
  have none: "first_match (msgs w) (compare_responce_msg rid) resps = Inr None"
    using assms(5) by (simp add: first_match_def find_res_None)
  obtain l h' where p: "srv_pickup_response (Some s) rid w =
      Inr (None, w\<lparr>msgs := h', service_datas := (service_datas w)(s \<mapsto> d\<lparr>response_queue := l\<rparr>)\<rparr>)"
    using srv_pickup_run [OF assms(3,4) none] by blast
  have "srv_mutex d = Unlocked" using assms(4) by (simp add: srv_ready_def)
  then show ?thesis
    using assms(1,2,6) p
    by (simp add: rmw_send_response_def rmw_zenoh_pico_serialize_def z_malloc_def buf_put_def srv_lock_def)
qed

text \<open>
  A waiting request with a short gid. When a request whose attachment arrived with a gid of 1 to 15 bytes waits for its response
  and no older one has the gid and number of the header, rmw_send_response reads past the end of that gid, whatever header the
  application answers with.
\<close>

theorem short_gid_overread:
  assumes "data h = Some s" "identifiers_match (implementation_identifier h)" and "rmw_ok w" "srv_ready w s d reqs (us @ m # vs)"
    and "\<forall>u \<in> set us. match_at (msgs w) (compare_responce_msg rid) u = Inr False" and "msgs w m = Some md" "short_gid md"
  shows "rmw_send_response (Some h) (Some rid) (Some r) w = Inl OutOfBounds"
proof -
  have d: "service_datas w s = Some d" and q: "queue_rep (msgs w) (response_queue d) (us @ m # vs)"
    using assms(4) by (simp_all add: srv_ready_def)
  have "first_match (msgs w) (compare_responce_msg rid) (us @ m # vs) = Inl OutOfBounds"
    unfolding first_match_def find_res_prefix [OF assms(5)] using assms(6,7) by (simp add: compare_responce_msg_eq)
  then have "recv_msg_list_pickup (next_addr w) (Some (response_queue d)) (compare_responce_msg rid) (msgs w) = Inl OutOfBounds"
    by (rule pickup_fault [OF q _ queue_below [OF assms(3) q]])
  then show ?thesis using assms(1,2) d by (simp add: rmw_send_response_def srv_pickup_response_def)
qed

lemma send_response_run:
  assumes "data h = Some s" "identifiers_match (implementation_identifier h)"
    and pick: "srv_pickup_response (Some s) rid w = Inr (Some m, w1)"
    and d: "service_datas w1 s = Some d" "srv_mutex d = Unlocked" and md: "waiting_request w1 m md bs q"
    and mem: "\<not> oom (env w1) (next_addr w1)" "bufs w1 (next_addr w1) = None"
    and att: "att_bytes (codec (env w1)) ((attachment md)\<lparr>timestamp := fst (zenoh_pico_gen_timestamp w1)\<rparr>) = Some ab"
  defines "reply \<equiv> \<lambda>r. ZQueryReply q (serialized_bytes (response_callback d) r) ab"
  shows "\<exists>w'. rmw_send_response (Some h) (Some rid) (Some r) w =
      Inr (if zok (env w1) (trace w1) (reply r) then RMW_RET_OK else RMW_RET_ERROR, w') \<and>
    trace w' = ZQueryDrop q # reply r # trace w1 \<and> msgs w' = (msgs w1)(m := None) \<and>
    bufs w' = (bufs w1)(the (payload_start md) := None) \<and> service_datas w' = service_datas w1 \<and>
    sub_datas w' = sub_datas w1 \<and> pub_datas w' = pub_datas w1 \<and> wait_sets w' = wait_sets w1 \<and> next_addr w' = Suc (next_addr w1) \<and>
    env w' = env w1"
proof -
  obtain p where p: "payload_start md = Some p" "bufs w1 p = Some bs" "live (msgs w1) m md" "ref md = 1" "msg_type md = Query"
    "query md = Some q"
    using md by (auto simp: waiting_request_def)
  have m1: "msgs w1 m = Some md" using p(3) by (simp add: live_def)
  have ne: "p \<noteq> next_addr w1" using p(2) mem(2) by auto
  let ?att = "(attachment md)\<lparr>timestamp := fst (zenoh_pico_gen_timestamp w1)\<rparr>"
  let ?bytes = "serialized_bytes (response_callback d) r"
  have id: "(service_datas w1)(s \<mapsto> d) = service_datas w1" using d(1) by (simp add: fun_upd_idem)
  let ?w2 = "w1\<lparr>next_addr := Suc (next_addr w1), bufs := (bufs w1)(next_addr w1 \<mapsto> ?bytes)\<rparr>"
  let ?dl = "d\<lparr>srv_mutex := Locked\<rparr>"
  let ?w3 = "?w2\<lparr>service_datas := (service_datas w1)(s \<mapsto> ?dl)\<rparr>"
  let ?md = "md\<lparr>attachment := ?att\<rparr>"
  let ?w4 = "w1\<lparr>next_addr := Suc (next_addr w1), bufs := (bufs w1)(next_addr w1 \<mapsto> ?bytes),
      service_datas := (service_datas w1)(s \<mapsto> ?dl), ticks := Suc (ticks w1), msgs := (msgs w1)(m \<mapsto> ?md),
      trace := reply r # trace w1\<rparr>"
  have ok: "msg_ok ?w4 m ?md" using p ne by (auto simp: msg_ok_def live_def)
  have del: "zenoh_pico_delete_recv_msg_data (Some m) ?w4 = Inr (True, msg_freed ?w4 m ?md)"
    using ok p(4) by (intro delete_msg_last) simp_all
  let ?w5 = "msg_freed ?w4 m ?md"
  have f: "bufs ?w5 = (bufs w1)(next_addr w1 \<mapsto> ?bytes, p := None)" "service_datas ?w5 = (service_datas w1)(s \<mapsto> ?dl)"
    "trace ?w5 = ZQueryDrop q # reply r # trace w1" "msgs ?w5 = (msgs w1)(m := None)"
    "sub_datas ?w5 = sub_datas w1" "pub_datas ?w5 = pub_datas w1" "wait_sets ?w5 = wait_sets w1" "next_addr ?w5 = Suc (next_addr w1)"
    "env ?w5 = env w1"
    using p by (simp_all add: msg_freed_def Let_def query_drop_eq fun_upd_twist)
  have l: "?dl\<lparr>srv_mutex := Unlocked\<rparr> = d" using d(2) by (cases d) simp
  let ?w6 = "?w5\<lparr>bufs := (bufs w1)(p := None), service_datas := service_datas w1\<rparr>"
  have free: "z_free (Some (next_addr w1)) ?w5 = Inr (?w5\<lparr>bufs := (bufs w1)(p := None)\<rparr>)"
  proof -
    have "bufs ?w5 (next_addr w1) = Some ?bytes" using ne by (simp add: f)
    moreover have "(bufs ?w5)(next_addr w1 := None) = (bufs w1)(p := None)" using mem(2) ne by (auto simp: f)
    ultimately show ?thesis by simp
  qed
  have unl: "srv_unlock (Some s) (?w5\<lparr>bufs := (bufs w1)(p := None)\<rparr>) = Inr ((), ?w6)"
    using l id f(2) by (simp add: srv_unlock_def)
  have tk: "fst (zenoh_pico_gen_timestamp ?w3) = fst (zenoh_pico_gen_timestamp w1)"
    by (simp add: zenoh_pico_gen_timestamp_def clock_gettime_def split: prod.split)
  have "rmw_send_response (Some h) (Some rid) (Some r) w =
      Inr (if zok (env w1) (trace w1) (reply r) then RMW_RET_OK else RMW_RET_ERROR, ?w6)"
    using assms(1,2) pick d mem m1 att p(1,2,6) del free unl
    by (simp add: rmw_send_response_def rmw_zenoh_pico_serialize_def z_malloc_def buf_put_def srv_lock_def attachment_gen_eq tk
        msg_put_def Let_def zcall_def reply_def)
  then show ?thesis using f p(1) by (intro exI [of _ ?w6]) simp
qed

text \<open>
  C20: Responses answer the request they name. When the comparisons, from the oldest request in the response queue on, reach one
  with the gid and sequence number of the header (so every older one has no gid or a gid of at least 16 bytes and differs),
  rmw_send_response replies once, to the query of the first of them, with the serialised response and an
  attachment that carries this sequence number, the request's gid and the current time. It answers OK exactly when
  zenoh accepted the reply. The request, its payload and its clone of the query are released, all other requests
  stay in their queues in order, and no buffer stays allocated.
\<close>

theorem send_response_answers:
  assumes "data h = Some s" "identifiers_match (implementation_identifier h)" and "rmw_ok w" "srv_ready w s d reqs resps"
    and "first_match (msgs w) (compare_responce_msg rid) resps = Inr (Some m)" and "waiting_request w m md bs q"
    and "\<not> oom (env w) (next_addr w)" and "codec_ok (codec (env w))"
    and "att_bytes (codec (env w)) ((attachment md)\<lparr>timestamp := fst (zenoh_pico_gen_timestamp w)\<rparr>) = Some ab"
  shows "\<exists>w' d'. rmw_send_response (Some h) (Some rid) (Some r) w =
      Inr (if zok (env w) (trace w) (ZQueryReply q (serialized_bytes (response_callback d) r) ab) then RMW_RET_OK else RMW_RET_ERROR, w') \<and>
    trace w' = ZQueryDrop q # ZQueryReply q (serialized_bytes (response_callback d) r) ab # trace w \<and>
    attachment_data_get (codec (env w)) ab zero_attachment = (True, \<lparr>sequence_num = rid_sequence_number rid,
      timestamp = fst (zenoh_pico_gen_timestamp w), gid = gid (attachment md)\<rparr>) \<and>
    service_datas w' = (service_datas w)(s \<mapsto> d') \<and> queue_rep (msgs w') (request_queue d') reqs \<and>
    queue_rep (msgs w') (response_queue d') (remove1 m resps) \<and> msgs w' m = None \<and>
    bufs w' = (bufs w)(the (payload_start md) := None)"
proof -
  have d: "service_datas w s = Some d" "srv_mutex d = Unlocked" "set reqs \<inter> set resps = {}"
    "queue_rep (msgs w) (response_queue d) resps"
    using assms(4) by (simp_all add: srv_ready_def)
  obtain l hp where p: "srv_pickup_response (Some s) rid w =
      Inr (Some m, w\<lparr>msgs := hp, service_datas := (service_datas w)(s \<mapsto> d\<lparr>response_queue := l\<rparr>)\<rparr>)"
    "queue_rep hp l (remove1 m resps)" "queue_rep hp (request_queue d) reqs" "same_msgs (msgs w) hp"
    using srv_pickup_run [OF assms(3-5)] by auto
  let ?d = "d\<lparr>response_queue := l\<rparr>"
  let ?w = "w\<lparr>msgs := hp, service_datas := (service_datas w)(s \<mapsto> ?d)\<rparr>"
  have md: "msgs w m = Some md" using assms(6) by (simp add: waiting_request_def live_def)
  obtain n where n: "hp m = Some (md\<lparr>next_msg := n\<rparr>)" using same_msgsD [OF p(4) md] by blast
  have wr: "waiting_request ?w m (md\<lparr>next_msg := n\<rparr>) bs q" using assms(6) n by (simp add: waiting_request_def live_def)
  have f: "service_datas ?w s = Some ?d" "srv_mutex ?d = Unlocked" "\<not> oom (env ?w) (next_addr ?w)" "bufs ?w (next_addr ?w) = None"
    using d(2) assms(7) rmw_ok_fresh(1) [OF assms(3), of "next_addr w"] by simp_all
  have t: "fst (zenoh_pico_gen_timestamp ?w) = fst (zenoh_pico_gen_timestamp w)"
    by (simp add: zenoh_pico_gen_timestamp_def clock_gettime_def split: prod.split)
  have ab: "att_bytes (codec (env ?w)) ((attachment (md\<lparr>next_msg := n\<rparr>))\<lparr>timestamp := fst (zenoh_pico_gen_timestamp ?w)\<rparr>) = Some ab"
    unfolding t using assms(9) by simp
  have "find (matches (msgs w) (request_matches rid)) resps = Some m"
    using assms(5) compare_responce_msg_Inr by (rule first_match_find)
  then have m: "m \<in> set resps" "request_matches rid md"
    using md by (auto simp: find_Some_iff matches_def)
  have "sequence_num (attachment md) = rid_sequence_number rid"
    using m(2) by (simp add: request_matches_def)
  then have read: "attachment_data_get (codec (env w)) ab zero_attachment = (True, \<lparr>sequence_num = rid_sequence_number rid,
      timestamp = fst (zenoh_pico_gen_timestamp w), gid = gid (attachment md)\<rparr>)"
    using att_bytes_read [OF assms(8,9), of zero_attachment] by (simp add: zero_attachment_def)
  have nin: "m \<notin> set reqs" "m \<notin> set (remove1 m resps)" using m(1) d(3,4) by (auto simp: queue_rep_def)
  have "queue_rep (hp(m := None)) (request_queue d) reqs" "queue_rep (hp(m := None)) l (remove1 m resps)"
    using p(2,3) nin by (simp_all add: queue_rep_frame)
  moreover obtain w' where "rmw_send_response (Some h) (Some rid) (Some r) w =
      Inr (if zok (env w) (trace w) (ZQueryReply q (serialized_bytes (response_callback d) r) ab) then RMW_RET_OK else RMW_RET_ERROR, w')"
    "trace w' = ZQueryDrop q # ZQueryReply q (serialized_bytes (response_callback d) r) ab # trace w"
    "msgs w' = hp(m := None)" "bufs w' = (bufs w)(the (payload_start md) := None)" "service_datas w' = (service_datas w)(s \<mapsto> ?d)"
    using send_response_run [OF assms(1,2) p(1) f(1,2) wr f(3,4) ab, of r] by auto
  ultimately show ?thesis using read by (intro exI [of _ w'] exI [of _ ?d]) simp
qed

subsection \<open>A server to try things on\<close>

definition ping :: z_query where
  "ping = \<lparr>query_id = 5, query_payload = [0, 1, 0, 0, 42],
     query_attachment = le_bytes 8 3 @ le_bytes 8 4 @ 16 # replicate 16 9, query_keyexpr = ''0/srv''\<rparr>"

definition ping_msg :: ReceiveMessageData where
  "ping_msg = query_msg 11 ping 6 \<lparr>sequence_num = 3, timestamp = 4, gid = replicate 16 9\<rparr>"

definition one_msg :: ReceiveMessageDataList where
  "one_msg = \<lparr>que_mutex = Unlocked, que_top = Some 1, que_bottom = Some 1, que_count = 1\<rparr>"

definition echo_server :: "ReceiveMessageDataList \<Rightarrow> ReceiveMessageDataList \<Rightarrow> ZenohPicoServiceData" where
  "echo_server reqs resps = zero_service_data\<lparr>ref := 1, request_callback := echo_callbacks, response_callback := echo_callbacks,
     request_queue := reqs, response_queue := resps, srv_topic_key := ''0/srv''\<rparr>"

definition server_mem :: "ReceiveMessageDataList \<Rightarrow> ReceiveMessageDataList \<Rightarrow> rmw_mem" where
  "server_mem reqs resps = start_mem\<lparr>next_addr := 41, bufs := [11 \<mapsto> query_payload ping], msgs := [1 \<mapsto> ping_msg],
     service_datas := [40 \<mapsto> echo_server reqs resps]\<rparr>"

definition server_handle :: rmw_endpoint_t where
  "server_handle = \<lparr>hdl = 3, implementation_identifier = None, data = Some 40, topic_name = Some 4\<rparr>"

lemma server_facts:
  "data server_handle = Some 40" "topic_name server_handle = Some 4" "identifiers_match (implementation_identifier server_handle)"
  "roomy (server_mem q r)" "rmw_ok (server_mem q r)" "codec_ok (codec (env (server_mem q r)))"
  "waiting_request (server_mem q r) 1 ping_msg (query_payload ping) 5" "env (server_mem q r) = small_env" "trace (server_mem q r) = []"
  "next_addr (server_mem q r) = 41" "msgs (server_mem q r) = [1 \<mapsto> ping_msg]" "bufs (server_mem q r) = [11 \<mapsto> query_payload ping]"
  using roomy_start le_codec_ok
  by (simp_all add: server_handle_def identifiers_match_def server_mem_def roomy_def rmw_ok_def mem_ok_def ent_ok_def
      waiting_request_def live_def ping_msg_def query_msg_def small_env_def) (simp add: ping_def)

lemma empty_queue_rep [simp]: "queue_rep h recv_msg_list_init []"
  by (simp add: queue_rep_def recv_msg_list_init_def)

lemma one_queue_rep [simp]: "h (Suc 0) = Some ping_msg \<Longrightarrow> queue_rep h one_msg [Suc 0]"
  by (auto simp: queue_rep_def one_msg_def ping_msg_def query_msg_def)

lemma server_ready:
  "srv_ready (server_mem recv_msg_list_init recv_msg_list_init) 40 (echo_server recv_msg_list_init recv_msg_list_init) [] []"
  "srv_ready (server_mem one_msg recv_msg_list_init) 40 (echo_server one_msg recv_msg_list_init) [1] []"
  "srv_ready (server_mem recv_msg_list_init one_msg) 40 (echo_server recv_msg_list_init one_msg) [] [1]"
  by (simp_all add: srv_ready_def server_mem_def echo_server_def zero_service_data_def mgr_ok_def zero_mgr_def waiter_ok_def)

lemma ping_attachment:
  "attachment_data_get le_codec (query_attachment ping) zero_attachment = (True, \<lparr>sequence_num = 3, timestamp = 4, gid = replicate 16 9\<rparr>)"
  by (simp add: attachment_data_get_def le_codec_def ping_def zero_attachment_def of_le_bytes_8)

theorem request_is_queued_witness:
  "\<exists>w' d'. request_handler ping (Some 40) (server_mem recv_msg_list_init recv_msg_list_init) = Inr ((), w') \<and>
     service_datas w' 40 = Some d' \<and> queue_rep (msgs w') (request_queue d') [41] \<and> trace w' = [ZQueryClone 5]"
proof -
  let ?w = "server_mem recv_msg_list_init recv_msg_list_init"
  have at: "attachment_data_get (codec (env ?w)) (query_attachment ping) zero_attachment =
      (True, \<lparr>sequence_num = 3, timestamp = 4, gid = replicate 16 9\<rparr>)"
    using ping_attachment by (simp add: server_facts small_env_def)
  have n: "msgs ?w (next_addr ?w) = None" by (simp add: server_facts)
  have "announcement (srv_event_mgr (echo_server recv_msg_list_init recv_msg_list_init)) = []" "query_id ping = 5"
    by (simp_all add: announcement_def echo_server_def zero_service_data_def zero_mgr_def ping_def)
  then show ?thesis
    using request_is_queued [OF server_ready(1) server_facts(4) n at] unfolding server_facts(9,10) by force
qed

definition blank_header :: rmw_service_info_t where
  "blank_header = \<lparr>si_source_timestamp = 0, si_received_timestamp = 0, request_sequence_number = 0, writer_guid = replicate 16 0\<rparr>"

theorem take_request_moves_witness:
  "\<exists>w' d' hdr'. rmw_take_request (Some server_handle) (Some blank_header) [] (Some False) (server_mem one_msg recv_msg_list_init) =
      Inr (RMW_RET_OK, Some hdr', [42], Some True, w') \<and> request_sequence_number hdr' = 3 \<and>
    service_datas w' 40 = Some d' \<and> queue_rep (msgs w') (request_queue d') [] \<and> queue_rep (msgs w') (response_queue d') [1]"
proof -
  have c: "ROS2_MSG_OFFSET \<le> length (query_payload ping)"
    "cdr_deserialize (request_callback (echo_server one_msg recv_msg_list_init)) (drop ROS2_MSG_OFFSET (query_payload ping)) = (True, [42])"
    by (simp_all add: ROS2_MSG_OFFSET_def ping_def echo_server_def echo_callbacks_def)
  have "request_sequence_number (rmw_zneoh_fill_request_header blank_header ping_msg) = 3"
    by (simp add: rmw_zneoh_fill_request_header_def ping_msg_def query_msg_def)
  then show ?thesis
    using take_request_moves [OF server_facts(1-3) server_ready(2) server_facts(7) c, of blank_header "[]" False] by force
qed

definition ping_id :: rmw_request_id_t where
  "ping_id = \<lparr>rid_writer_guid = replicate 16 9, rid_sequence_number = 3\<rparr>"

theorem unmatched_response_faults_witness:
  "rmw_send_response (Some server_handle) (Some ping_id) (Some [7]) (server_mem one_msg recv_msg_list_init) = Inl NullDeref"
  by (rule unmatched_response_faults [OF server_facts(1,3,5) server_ready(2)])
    (simp_all add: server_facts small_env_def)

definition stub_msg :: ReceiveMessageData where
  "stub_msg = ping_msg\<lparr>attachment := (attachment ping_msg)\<lparr>gid := [9, 9]\<rparr>\<rparr>"

theorem short_gid_overread_witness:
  "rmw_send_response (Some server_handle) (Some ping_id) (Some [7]) ((server_mem recv_msg_list_init one_msg)\<lparr>msgs := [1 \<mapsto> stub_msg]\<rparr>)
    = Inl OutOfBounds"
proof -
  let ?w = "(server_mem recv_msg_list_init one_msg)\<lparr>msgs := [1 \<mapsto> stub_msg]\<rparr>"
  have ok: "rmw_ok ?w" using server_facts(5) [of recv_msg_list_init one_msg] by (simp add: rmw_ok_def mem_ok_def ent_ok_def server_facts)
  have q: "queue_rep [1 \<mapsto> stub_msg] one_msg [1]"
    by (simp add: queue_rep_def one_msg_def stub_msg_def ping_msg_def query_msg_def)
  have r: "srv_ready ?w 40 (echo_server recv_msg_list_init one_msg) [] ([] @ 1 # [])"
    using q by (simp add: srv_ready_def server_mem_def echo_server_def zero_service_data_def mgr_ok_def zero_mgr_def waiter_ok_def)
  show ?thesis
    by (rule short_gid_overread [where md = stub_msg, OF server_facts(1,3) ok r])
      (simp_all add: short_gid_def stub_msg_def ping_msg_def query_msg_def RMW_GID_STORAGE_SIZE_def)
qed

theorem send_response_answers_witness:
  "\<exists>w' ab. rmw_send_response (Some server_handle) (Some ping_id) (Some [7]) (server_mem recv_msg_list_init one_msg) = Inr (RMW_RET_OK, w') \<and>
     trace w' = [ZQueryDrop 5, ZQueryReply 5 (serialized_bytes echo_callbacks [7]) ab] \<and> bufs w' = Map.empty"
proof -
  let ?w = "server_mem recv_msg_list_init one_msg"
  have cb: "response_callback (echo_server recv_msg_list_init one_msg) = echo_callbacks" by (simp add: echo_server_def)
  have "compare_responce_msg ping_id ping_msg = Inr True"
    by (simp add: compare_responce_msg_def ping_id_def ping_msg_def query_msg_def RMW_GID_STORAGE_SIZE_def)
  then have m: "first_match (msgs ?w) (compare_responce_msg ping_id) [1] = Inr (Some 1)"
    by (intro first_match_head) (simp_all add: server_facts)
  have oo: "\<not> oom (env ?w) (next_addr ?w)" by (simp add: server_facts small_env_def)
  have e: "encodes (codec (env ?w)) (gid (attachment ping_msg))"
    using le_codec_ok by (simp add: encodes_def server_facts small_env_def ping_msg_def query_msg_def le_codec_def)
  obtain ab where ab: "att_bytes (codec (env ?w)) ((attachment ping_msg)\<lparr>sequence_num := 3, timestamp := fst (zenoh_pico_gen_timestamp ?w)\<rparr>) = Some ab"
    using e by (rule encodes_bytes)
  have "(attachment ping_msg)\<lparr>sequence_num := 3, timestamp := t\<rparr> = (attachment ping_msg)\<lparr>timestamp := t\<rparr>" for t
    by (simp add: ping_msg_def query_msg_def)
  then have ab': "att_bytes (codec (env ?w)) ((attachment ping_msg)\<lparr>timestamp := fst (zenoh_pico_gen_timestamp ?w)\<rparr>) = Some ab"
    using ab by simp
  have "(bufs ?w)(the (payload_start ping_msg) := None) = Map.empty" by (simp add: server_facts ping_msg_def query_msg_def)
  moreover have "zok (env ?w) t c" for t c by (simp add: server_facts small_env_def)
  ultimately show ?thesis
    using send_response_answers [OF server_facts(1,3,5) server_ready(3) m server_facts(7) oo server_facts(6) ab', of "[7]"]
    by (auto simp: cb server_facts(9))
qed

end
