(* ===== verification/Client.thy ===== *)
theory Client
  imports Service
begin

section \<open>Clients\<close>

text \<open>
  \<open>rmw_client.c\<close>.  A request goes out as a zenoh query on the service key; the replies
  come back through \<open>reply_handler\<close> and wait in the response queue of the client.
\<close>

subsection \<open>Waiting conditions\<close>

definition client_condition :: "ZenohPicoServiceData \<Rightarrow> ZenohPicoWaitCondition" where
  "client_condition d = \<lparr>condition_mutex = srv_condition_mutex d, msg_queue = Some (response_queue d),
     wait_set_data_ptr = srv_wait_set_data d\<rparr>"

definition put_client_condition :: "ZenohPicoWaitCondition \<Rightarrow> ZenohPicoServiceData \<Rightarrow> ZenohPicoServiceData" where
  "put_client_condition c d = d\<lparr>srv_condition_mutex := condition_mutex c, response_queue := the (msg_queue c),
     srv_wait_set_data := wait_set_data_ptr c\<rparr>"

definition client_condition_trigger :: "addr option \<Rightarrow> rmw_mem \<Rightarrow> (unit \<times> rmw_mem) res" where
  "client_condition_trigger p w = on_srv p w (\<lambda>d w.
     andthen (zenoh_pico_condition_trigger (client_condition d) w) (\<lambda>(c, w). Inr ((), put_client_condition c d, w)))"

definition client_condition_check_and_attach :: "addr option \<Rightarrow> addr option \<Rightarrow> rmw_mem \<Rightarrow> (bool \<times> rmw_mem) res" where
  "client_condition_check_and_attach p ws w = on_srv p w (\<lambda>d w.
     andthen (zenoh_pico_condition_check_and_attach ws (client_condition d)) (\<lambda>(r, c). Inr (r, put_client_condition c d, w)))"

definition client_condition_detach_and_queue_is_empty :: "addr option \<Rightarrow> rmw_mem \<Rightarrow> (bool \<times> rmw_mem) res" where
  "client_condition_detach_and_queue_is_empty p w = on_srv p w (\<lambda>d w.
     andthen (zenoh_pico_condition_detach_and_queue_is_empty (client_condition d)) (\<lambda>(r, c). Inr (r, put_client_condition c d, w)))"

subsection \<open>Create and destroy\<close>

text \<open>Creating a client declares a queryable on the service key, as for a server.\<close>

definition rmw_create_client where
  "rmw_create_client node type_supports service_name qos_profile w =
     create_service_or_client Client node type_supports service_name qos_profile w"

definition rmw_destroy_client where
  "rmw_destroy_client node client w = destroy_service_or_client node client w"

definition rmw_client_request_publisher_get_actual_qos ::
  "rmw_client_t option \<Rightarrow> rmw_qos_profile_t option \<Rightarrow> rmw_mem \<Rightarrow> (rmw_ret_t \<times> rmw_qos_profile_t option) res" where
  "rmw_client_request_publisher_get_actual_qos client qos w =
     (case client of None \<Rightarrow> Inr (RMW_RET_INVALID_ARGUMENT, qos) | Some s \<Rightarrow>
      if \<not> identifiers_match (implementation_identifier s) then Inr (RMW_RET_INCORRECT_RMW_IMPLEMENTATION, qos)
      else if qos = None then Inr (RMW_RET_INVALID_ARGUMENT, qos)
      else if data s = None then Inr (RMW_RET_INVALID_ARGUMENT, qos)
      else andthen (deref (service_datas w) (data s)) (\<lambda>d. Inr (RMW_RET_OK, Some (srv_qos_profile d))))"

definition rmw_client_response_subscription_get_actual_qos where
  "rmw_client_response_subscription_get_actual_qos client qos w = rmw_client_request_publisher_get_actual_qos client qos w"

definition rmw_get_gid_for_client :: "rmw_client_t option \<Rightarrow> rmw_gid_t option \<Rightarrow> rmw_ret_t \<times> rmw_gid_t option" where
  "rmw_get_gid_for_client client g =
     (case client of None \<Rightarrow> (RMW_RET_INVALID_ARGUMENT, g) | Some s \<Rightarrow>
      if g = None then (RMW_RET_INVALID_ARGUMENT, g)
      else if \<not> identifiers_match (implementation_identifier s) then (RMW_RET_INCORRECT_RMW_IMPLEMENTATION, g)
      else (RMW_RET_ERROR, g))"

text \<open>The handle is read before any check of it.\<close>

definition rmw_client_set_on_new_response_callback ::
  "rmw_client_t option \<Rightarrow> nat option \<Rightarrow> nat option \<Rightarrow> rmw_mem \<Rightarrow> (rmw_ret_t \<times> rmw_mem) res" where
  "rmw_client_set_on_new_response_callback client cb ud w =
     (case client of None \<Rightarrow> Inl NullDeref | Some s \<Rightarrow>
      if data s = None then Inr (RMW_RET_INVALID_ARGUMENT, w)
      else on_srv (data s) w (\<lambda>d w.
        andthen (data_callback_set ud cb (srv_event_mgr d) w) (\<lambda>(m, w). Inr (RMW_RET_OK, d\<lparr>srv_event_mgr := m\<rparr>, w))))"

subsection \<open>Replies\<close>

definition add_new_replay_message :: "addr option \<Rightarrow> addr option \<Rightarrow> rmw_mem \<Rightarrow> (unit \<times> rmw_mem) res" where
  "add_new_replay_message p m w =
     andthen (srv_append_response p m w) (\<lambda>(_, w).
     andthen (srv_callback_trigger p w) (\<lambda>(_, w).
     client_condition_trigger p w))"

text \<open>
  An error reply is \<open>None\<close>.  The context is the address of the client data that was given to \<open>z_get\<close>;
  the closure holds no reference on it.
\<close>

definition reply_handler :: "z_sample option \<Rightarrow> addr option \<Rightarrow> rmw_mem \<Rightarrow> (unit \<times> rmw_mem) res" where
  "reply_handler reply ctx w =
     (case reply of None \<Rightarrow> Inr ((), w) | Some sample \<Rightarrow>
      if ctx = None then Inr ((), w)
      else (case zenoh_pico_gen_timestamp w of (ts, w) \<Rightarrow>
        andthen (rmw_zenoh_pico_generate_recv_sample_msg_data sample ts w) (\<lambda>(m, w).
          if m = None then Inr ((), w) else add_new_replay_message ctx m w)))"

subsection \<open>Sending requests and taking responses\<close>

text \<open>
  The caller is given the number before the increment, the attachment carries the one after it.  A missing
  service name only sets the error text.
\<close>

definition rmw_send_request ::
  "rmw_client_t option \<Rightarrow> ros_message \<Rightarrow> 64 word option \<Rightarrow> rmw_mem \<Rightarrow> (rmw_ret_t \<times> 64 word option \<times> rmw_mem) res" where
  "rmw_send_request client ros_request sequence_id w =
     (case client of None \<Rightarrow> Inr (RMW_RET_INVALID_ARGUMENT, sequence_id, w) | Some s \<Rightarrow>
      if data s = None then Inr (RMW_RET_INVALID_ARGUMENT, sequence_id, w)
      else if \<not> identifiers_match (implementation_identifier s)
      then Inr (RMW_RET_INCORRECT_RMW_IMPLEMENTATION, sequence_id, w)
      else andthen (on_srv (data s) w (\<lambda>d w.
        (case rmw_zenoh_pico_serialize (request_callback d) ros_request w of
           (None, w) \<Rightarrow> Inr ((RMW_RET_ERROR, sequence_id), d, w)
         | (Some (msg_bytes, data_length), w) \<Rightarrow>
             andthen (deref (node_datas w) (srv_node d)) (\<lambda>n.
             andthen (z_mutex_lock (srv_mutex d)) (\<lambda>l.
             case attachment_sequence_num_inc (srv_attachment d) of (number, att) \<Rightarrow>
             if sequence_id = None then Inl NullDeref
             else
               let d = d\<lparr>srv_mutex := l\<rparr>; sequence_id = Some number in
               (case attachment_gen att w of
                  (None, att, w) \<Rightarrow>
                    andthen (z_mutex_unlock (srv_mutex d)) (\<lambda>l.
                      Inr ((RMW_RET_ERROR, sequence_id), d\<lparr>srv_mutex := l, srv_attachment := att\<rparr>, w))
                | (Some bs, att, w) \<Rightarrow>
                    andthen (deref (bufs w) (Some msg_bytes)) (\<lambda>payload.
                    andthen (deref (sessions w) (nd_session n)) (\<lambda>_.
                    (case zcall (ZGet (srv_topic_key d) (take data_length payload) bs) w of (ok, w) \<Rightarrow>
                    andthen (z_free (Some msg_bytes) w) (\<lambda>w.
                    andthen (z_mutex_unlock (srv_mutex d)) (\<lambda>l.
                      Inr ((if ok then RMW_RET_OK else RMW_RET_ERROR, sequence_id),
                           d\<lparr>srv_mutex := l, srv_attachment := att\<rparr>, w)))))))))))) (\<lambda>((ret, sequence_id), w).
        Inr (ret, sequence_id, w)))"

definition rmw_take_response ::
  "rmw_client_t option \<Rightarrow> rmw_service_info_t option \<Rightarrow> ros_message \<Rightarrow> bool option \<Rightarrow> rmw_mem
     \<Rightarrow> (rmw_ret_t \<times> rmw_service_info_t option \<times> ros_message \<times> bool option \<times> rmw_mem) res" where
  "rmw_take_response client request_header ros_response taken w =
     (if taken = None then Inr (RMW_RET_INVALID_ARGUMENT, request_header, ros_response, taken, w)
      else (case client of None \<Rightarrow> Inr (RMW_RET_INVALID_ARGUMENT, request_header, ros_response, taken, w) | Some s \<Rightarrow>
      if data s = None then Inr (RMW_RET_INVALID_ARGUMENT, request_header, ros_response, taken, w)
      else if \<not> identifiers_match (implementation_identifier s)
      then Inr (RMW_RET_INCORRECT_RMW_IMPLEMENTATION, request_header, ros_response, taken, w)
      else andthen (on_srv (data s) w (\<lambda>d w.
          andthen (recv_msg_list_pop (Some (response_queue d)) (msgs w)) (\<lambda>(m, l, h).
            Inr (m, d\<lparr>response_queue := the l\<rparr>, w\<lparr>msgs := h\<rparr>)))) (\<lambda>(msg_data, w).
        if msg_data = None then Inr (RMW_RET_ERROR, request_header, ros_response, taken, w)
        else andthen (deref (service_datas w) (data s)) (\<lambda>d.
          andthen (rmw_zenoh_pico_deserialize_response_msg msg_data (response_callback d) ros_response request_header w)
            (\<lambda>(deserialize_rv, m, hd).
          if \<not> deserialize_rv then Inr (RMW_RET_ERROR, hd, m, Some False, w)
          else andthen (zenoh_pico_delete_recv_msg_data msg_data w) (\<lambda>(_, w).
            Inr (RMW_RET_OK, hd, m, Some True, w)))))))"

subsection \<open>Replies reach the client\<close>

definition client_received :: "ReceiveMessageDataList \<Rightarrow> ZenohPicoServiceData \<Rightarrow> ZenohPicoServiceData" where
  "client_received l d = d\<lparr>response_queue := l, srv_event_mgr := announced (srv_event_mgr d)\<rparr>"

lemma add_new_replay_message_run:
  assumes d: "service_datas w a = Some d" "mgr_ok (srv_event_mgr d)" "srv_condition_mutex d = Unlocked"
    and wt: "waiter_ok w (srv_wait_set_data d)"
    and ap: "recv_msg_list_append (Some (response_queue d)) (Some m) (msgs w) = Inr (Some m, Some l, h)"
  shows "add_new_replay_message (Some a) (Some m) w = Inr ((), w\<lparr>msgs := h,
      trace := announcement (srv_event_mgr d) @ trace w, service_datas := (service_datas w)(a \<mapsto> client_received l d),
      wait_sets := wake (srv_wait_set_data d) (wait_sets w)\<rparr>)"
proof -
  let ?d1 = "d\<lparr>response_queue := l\<rparr>"
  let ?w1 = "w\<lparr>msgs := h, service_datas := (service_datas w)(a \<mapsto> ?d1)\<rparr>"
  let ?d2 = "client_received l d"
  let ?w2 = "w\<lparr>msgs := h, trace := announcement (srv_event_mgr d) @ trace w, service_datas := (service_datas w)(a \<mapsto> ?d2)\<rparr>"
  have 1: "srv_append_response (Some a) (Some m) w = Inr ((), ?w1)" using d(1) ap by (simp add: srv_append_response_def)
  have 2: "srv_callback_trigger (Some a) ?w1 = Inr ((), ?w2)"
    using d(2) by (simp add: srv_callback_trigger_def callback_trigger_announces client_received_def)
  have wt: "waiter_ok ?w2 (wait_set_data_ptr (client_condition ?d2))"
    using wt waiter_ok_cong [of ?w2 w "srv_wait_set_data d"] by (simp add: client_condition_def client_received_def)
  have c: "condition_mutex (client_condition ?d2) = Unlocked" using d(3) by (simp add: client_condition_def client_received_def)
  have "put_client_condition (client_condition ?d2) ?d2 = ?d2" by (simp add: put_client_condition_def client_condition_def)
  then have 3: "client_condition_trigger (Some a) ?w2 = Inr ((), ?w2\<lparr>wait_sets := wake (srv_wait_set_data d) (wait_sets w)\<rparr>)"
    using condition_trigger_wakes [OF c wt]
    by (simp add: client_condition_trigger_def) (simp add: client_condition_def client_received_def)
  show ?thesis unfolding add_new_replay_message_def 1 andthen_Inr prod.case 2 3 by simp
qed

interpretation client_mailbox: mailbox service_datas response_queue srv_event_mgr srv_condition_mutex srv_wait_set_data client_received
  add_new_replay_message
proof
  fix w a d m l h
  assume "service_datas w a = Some d" "mgr_ok (srv_event_mgr d)" "srv_condition_mutex d = Unlocked" "waiter_ok w (srv_wait_set_data d)"
    "recv_msg_list_append (Some (response_queue d)) (Some m) (msgs w) = Inr (Some m, Some l, h)"
  from add_new_replay_message_run [OF this]
  show "\<exists>w'. add_new_replay_message (Some a) (Some m) w = Inr ((), w') \<and> service_datas w' = (service_datas w)(a \<mapsto> client_received l d) \<and>
      msgs w' = h \<and> bufs w' = bufs w \<and> trace w' = announcement (srv_event_mgr d) @ trace w \<and>
      wait_sets w' = wake (srv_wait_set_data d) (wait_sets w)" by simp
qed (simp_all add: with_msg_def znote_def)

lemma reply_handler_eq: "reply_handler (Some s) (Some a) w = handle_sample (add_new_replay_message (Some a)) s w"
  by (simp add: reply_handler_def handle_sample_def)

text \<open>
  Delivery of a reply. When a successful reply with a readable attachment arrives for a client between two
  calls, with memory, reply_handler appends one new message with its payload, attachment and time of reception to
  the response queue and leaves the other queue alone; the user's callback runs once or the unread count grows by
  one, and a wait set attached to the client is triggered and signalled. An error reply changes nothing.
\<close>

theorem reply_is_delivered:
  assumes "srv_ready w a d reqs resps" and "roomy w" and "msgs w (next_addr w) = None"
    and "attachment_data_get (codec (env w)) (sample_attachment s) zero_attachment = (True, att)"
  shows "reply_handler None (Some a) w = Inr ((), w) \<and>
    (\<exists>w' d' md. reply_handler (Some s) (Some a) w = Inr ((), w') \<and>
      service_datas w' = (service_datas w)(a \<mapsto> d') \<and> srv_event_mgr d' = announced (srv_event_mgr d) \<and>
      queue_rep (msgs w') (response_queue d') (resps @ [next_addr w]) \<and> queue_rep (msgs w') (request_queue d') reqs \<and>
      md = sample_msg (Suc (next_addr w)) (sample_payload s) (fst (zenoh_pico_gen_timestamp w)) att \<and>
      same_msgs ((msgs w)(next_addr w \<mapsto> md)) (msgs w') \<and>
      bufs w' = (bufs w)(Suc (next_addr w) \<mapsto> sample_payload s) \<and>
      trace w' = announcement (srv_event_mgr d) @ trace w \<and>
      wait_sets w' = wake (srv_wait_set_data d) (wait_sets w))"
proof -
  have r: "client_mailbox.ready_for w a d resps"
    using assms(1) by (simp add: client_mailbox.ready_for_def srv_ready_def)
  obtain w' l where run: "reply_handler (Some s) (Some a) w = Inr ((), w')"
    "service_datas w' = (service_datas w)(a \<mapsto> client_received l d)" "queue_rep (msgs w') l (resps @ [next_addr w])"
    "same_msgs ((msgs w)(next_addr w \<mapsto> sample_msg (Suc (next_addr w)) (sample_payload s) (fst (zenoh_pico_gen_timestamp w)) att)) (msgs w')"
    "\<forall>x. x \<notin> set resps \<longrightarrow> x \<noteq> next_addr w \<longrightarrow> msgs w' x = msgs w x"
    "bufs w' = (bufs w)(Suc (next_addr w) \<mapsto> sample_payload s)" "trace w' = announcement (srv_event_mgr d) @ trace w"
    "wait_sets w' = wake (srv_wait_set_data d) (wait_sets w)"
    using client_mailbox.sample_delivered [OF r assms(2-4)] unfolding reply_handler_eq by blast
  have q: "queue_rep (msgs w) (request_queue d) reqs" and disj: "set reqs \<inter> set resps = {}"
    using assms(1) by (simp_all add: srv_ready_def)
  have "next_addr w \<notin> set reqs" using q assms(3) chain_dom [of "msgs w" _ reqs "next_addr w"] by (auto simp: queue_rep_def)
  then have "queue_rep (msgs w') (request_queue d) reqs"
    using run(5) disj q queue_rep_cong [of reqs "msgs w'" "msgs w" "request_queue d"] by blast
  with run show ?thesis
    by (intro conjI exI [of _ w'] exI [of _ "client_received l d"] exI) (simp_all add: client_received_def reply_handler_def)
qed

subsection \<open>Requests and responses\<close>

lemma send_request_run:
  assumes h: "data h = Some s" "identifiers_match (implementation_identifier h)" and d: "service_datas w s = Some d" "srv_mutex d = Unlocked"
    and n: "srv_node d = Some n" "node_datas w n = Some nd" "nd_session nd = Some sp" "sessions w sp = Some ss"
    and m: "\<not> oom (env w) (next_addr w)" "bufs w (next_addr w) = None"
    and bs: "att_bytes (codec (env w)) (next_attachment w (srv_attachment d)) = Some bs"
  shows "\<exists>w'. rmw_send_request (Some h) r (Some old) w =
      Inr (if zok (env w) (trace w) (ZGet (srv_topic_key d) (serialized_bytes (request_callback d) r) bs) then RMW_RET_OK else RMW_RET_ERROR,
        Some (sequence_num (srv_attachment d)), w') \<and>
    trace w' = ZGet (srv_topic_key d) (serialized_bytes (request_callback d) r) bs # trace w \<and> bufs w' = bufs w \<and>
    service_datas w' = (service_datas w)(s \<mapsto> d\<lparr>srv_attachment := next_attachment w (srv_attachment d)\<rparr>)"
proof -
  have l: "d\<lparr>srv_mutex := Unlocked, srv_attachment := x\<rparr> = d\<lparr>srv_attachment := x\<rparr>" for x
    using d(2) by (cases d) simp
  show ?thesis
    using d h n m bs
    by (simp add: rmw_send_request_def rmw_zenoh_pico_serialize_def z_malloc_def buf_put_def attachment_sequence_num_inc_def
        attachment_gen_eq next_attachment_def zcall_def Let_def l fun_upd_idem)
qed

text \<open>
  Numbering of requests. For a client of this implementation with a live node and session, and memory for the
  payload, rmw_send_request sends exactly one query on the client's key with the serialised request. The attachment
  carries the incremented sequence number, the client's gid and the current time, but the caller is given the
  number before the increment, so the response to this request will carry a different number than its sender was told.
  The answer is OK exactly when zenoh accepted the query; the buffer is freed and the mutex released.
\<close>

theorem send_request_number:
  assumes "data h = Some s" "identifiers_match (implementation_identifier h)" and "srv_ready w s d reqs resps"
    and "srv_node d = Some n" "node_datas w n = Some nd" "nd_session nd = Some sp" "sessions w sp = Some ss"
    and "\<not> oom (env w) (next_addr w)" "bufs w (next_addr w) = None" and "codec_ok (codec (env w))"
    and "att_bytes (codec (env w)) (next_attachment w (srv_attachment d)) = Some bs"
  shows "\<exists>w'. rmw_send_request (Some h) r (Some old) w =
      Inr (if zok (env w) (trace w) (ZGet (srv_topic_key d) (serialized_bytes (request_callback d) r) bs) then RMW_RET_OK else RMW_RET_ERROR,
        Some (sequence_num (srv_attachment d)), w') \<and>
    trace w' = ZGet (srv_topic_key d) (serialized_bytes (request_callback d) r) bs # trace w \<and>
    attachment_data_get (codec (env w)) bs zero_attachment = (True, \<lparr>sequence_num = sequence_num (srv_attachment d) + 1,
      timestamp = fst (zenoh_pico_gen_timestamp w), gid = gid (srv_attachment d)\<rparr>) \<and> bufs w' = bufs w \<and>
    service_datas w' = (service_datas w)(s \<mapsto> d\<lparr>srv_attachment := next_attachment w (srv_attachment d)\<rparr>)"
proof -
  have d: "service_datas w s = Some d" "srv_mutex d = Unlocked" using assms(3) by (simp_all add: srv_ready_def)
  show ?thesis
    using send_request_run [OF assms(1,2) d assms(4-9,11), of r old] att_bytes_read [OF assms(10,11), of zero_attachment]
    by (auto simp: next_attachment_def zero_attachment_def)
qed

text \<open>A response object in the queue: referenced once, with a payload buffer.\<close>

definition waiting_response :: "rmw_mem \<Rightarrow> addr \<Rightarrow> ReceiveMessageData \<Rightarrow> addr \<Rightarrow> byte list \<Rightarrow> bool" where
  "waiting_response w m md p bs \<longleftrightarrow> live (msgs w) m md \<and> ref md = 1 \<and> msg_type md = Sample \<and> payload_start md = Some p \<and>
     bufs w p = Some bs \<and> payload_size md = length bs"

lemma take_response_run:
  assumes "data h = Some s" "identifiers_match (implementation_identifier h)" and d: "service_datas w s = Some d"
    "queue_rep (msgs w) (request_queue d) reqs" "queue_rep (msgs w) (response_queue d) (m # resps)" "m \<notin> set reqs"
    and md: "waiting_response w m md p bs" and len: "ROS2_MSG_OFFSET \<le> length bs"
    and c: "cdr_deserialize (response_callback d) (drop ROS2_MSG_OFFSET bs) = (ok, x)"
  shows "\<exists>w' l. rmw_take_response (Some h) (Some hdr) old (Some b) w =
      Inr (if ok then RMW_RET_OK else RMW_RET_ERROR, Some (if ok then rmw_zneoh_fill_request_header hdr md else hdr), x, Some ok, w') \<and>
    service_datas w' = (service_datas w)(s \<mapsto> d\<lparr>response_queue := l\<rparr>) \<and> queue_rep (msgs w') l resps \<and>
    queue_rep (msgs w') (request_queue d) reqs \<and>
    msgs w' = (msgs w)(m := if ok then None else Some (md\<lparr>next_msg := None\<rparr>)) \<and>
    bufs w' = (if ok then (bufs w)(p := None) else bufs w)"
proof -
  have m: "msgs w m = Some md" "lock md = Unlocked" "ref md = 1" "msg_type md = Sample" "payload_start md = Some p" "bufs w p = Some bs"
    "payload_size md = length bs"
    using md by (simp_all add: waiting_response_def live_def)
  let ?md = "md\<lparr>next_msg := None\<rparr>"
  obtain l where pop: "recv_msg_list_pop (Some (response_queue d)) (msgs w) = Inr (Some m, Some l, (msgs w)(m \<mapsto> ?md))"
    and q: "queue_rep ((msgs w)(m \<mapsto> ?md)) l resps"
    using pop_cons [OF d(3)] m(1) by auto
  let ?d = "d\<lparr>response_queue := l\<rparr>"
  let ?w = "w\<lparr>msgs := (msgs w)(m \<mapsto> ?md), service_datas := (service_datas w)(s \<mapsto> ?d)\<rparr>"
  have na: "m \<notin> set resps" using d(3) by (simp add: queue_rep_def)
  have rq: "queue_rep ((msgs w)(m := y)) (request_queue d) reqs" for y using d(2,4) by (simp add: queue_rep_frame)
  have lq: "queue_rep ((msgs w)(m := None)) l resps" using queue_rep_frame [OF na, of "(msgs w)(m \<mapsto> ?md)" None l] q by simp
  have des: "rmw_zenoh_pico_deserialize_response_msg (Some m) (response_callback ?d) old (Some hdr) ?w =
      Inr (ok, x, Some (if ok then rmw_zneoh_fill_request_header hdr md else hdr))"
    using m len c by (simp add: rmw_zenoh_pico_deserialize_response_msg_def rmw_zenoh_pico_deserialize_def)
  have run: "rmw_take_response (Some h) (Some hdr) old (Some b) w =
      (if ok then andthen (zenoh_pico_delete_recv_msg_data (Some m) ?w) (\<lambda>(_, w). Inr (RMW_RET_OK, Some (rmw_zneoh_fill_request_header hdr md), x, Some True, w))
       else Inr (RMW_RET_ERROR, Some hdr, x, Some False, ?w))"
    using assms(1,2) d(1) pop des by (simp add: rmw_take_response_def)
  show ?thesis
  proof (cases ok)
    case True
    have "msg_ok ?w m ?md" using m by (simp add: msg_ok_def live_def)
    then have del: "zenoh_pico_delete_recv_msg_data (Some m) ?w = Inr (True, msg_freed ?w m ?md)"
      using m(3) by (intro delete_msg_last) simp_all
    have v: "service_datas (msg_freed ?w m ?md) = (service_datas w)(s \<mapsto> ?d)" "msgs (msg_freed ?w m ?md) = (msgs w)(m := None)"
      "bufs (msg_freed ?w m ?md) = (bufs w)(p := None)"
      using m by (simp_all add: msg_freed_def Let_def)
    show ?thesis using run True del lq rq by (intro exI [of _ "msg_freed ?w m ?md"] exI [of _ l]) (simp add: v)
  next
    case False
    then show ?thesis using run q rq by (intro exI [of _ ?w] exI [of _ l]) simp
  qed
qed

text \<open>
  C22: Taking a response. For a client of this implementation, rmw_take_response takes the oldest response out of the
  queue. When its payload can be deserialised the caller gets the message with taken set, the header carries the
  sequence number and gid of its attachment, and the object and its payload are freed; when it cannot, the answer
  is RMW_RET_ERROR with taken cleared and the response stays allocated without an owner. On an empty queue the
  answer is RMW_RET_ERROR and taken keeps its value.
\<close>

theorem take_response_oldest:
  assumes "data h = Some s" "identifiers_match (implementation_identifier h)" and "srv_ready w s d reqs resps"
  shows "case resps of
      [] \<Rightarrow> rmw_take_response (Some h) (Some hdr) old (Some b) w = Inr (RMW_RET_ERROR, Some hdr, old, Some b, w)
    | m # resps' \<Rightarrow> \<forall>md p bs ok x. waiting_response w m md p bs \<longrightarrow> ROS2_MSG_OFFSET \<le> length bs \<longrightarrow>
        cdr_deserialize (response_callback d) (drop ROS2_MSG_OFFSET bs) = (ok, x) \<longrightarrow>
        (\<exists>w' l. rmw_take_response (Some h) (Some hdr) old (Some b) w =
            Inr (if ok then RMW_RET_OK else RMW_RET_ERROR, Some (if ok then rmw_zneoh_fill_request_header hdr md else hdr), x, Some ok, w') \<and>
          service_datas w' = (service_datas w)(s \<mapsto> d\<lparr>response_queue := l\<rparr>) \<and> queue_rep (msgs w') l resps' \<and>
          queue_rep (msgs w') (request_queue d) reqs \<and>
          msgs w' = (msgs w)(m := if ok then None else Some (md\<lparr>next_msg := None\<rparr>)) \<and>
          bufs w' = (if ok then (bufs w)(p := None) else bufs w))"
proof -
  have d: "service_datas w s = Some d" "queue_rep (msgs w) (request_queue d) reqs" "queue_rep (msgs w) (response_queue d) resps"
    "set reqs \<inter> set resps = {}"
    using assms(3) by (simp_all add: srv_ready_def)
  show ?thesis
  proof (cases resps)
    case Nil
    then have e: "queue_rep (msgs w) (response_queue d) []" using d(3) by simp
    have "d\<lparr>response_queue := response_queue d\<rparr> = d" by simp
    then show ?thesis
      using assms(1,2) d(1) e Nil by (simp add: rmw_take_response_def pop_empty fun_upd_idem)
  next
    case (Cons m resps')
    have "\<exists>w' l. rmw_take_response (Some h) (Some hdr) old (Some b) w =
            Inr (if ok then RMW_RET_OK else RMW_RET_ERROR, Some (if ok then rmw_zneoh_fill_request_header hdr md else hdr), x, Some ok, w') \<and>
          service_datas w' = (service_datas w)(s \<mapsto> d\<lparr>response_queue := l\<rparr>) \<and> queue_rep (msgs w') l resps' \<and>
          queue_rep (msgs w') (request_queue d) reqs \<and>
          msgs w' = (msgs w)(m := if ok then None else Some (md\<lparr>next_msg := None\<rparr>)) \<and>
          bufs w' = (if ok then (bufs w)(p := None) else bufs w)"
      if md: "waiting_response w m md p bs" and len: "ROS2_MSG_OFFSET \<le> length bs"
        and c: "cdr_deserialize (response_callback d) (drop ROS2_MSG_OFFSET bs) = (ok, x)" for md p bs ok x
      by (rule take_response_run [OF assms(1,2) d(1,2) _ _ md len c]) (use d(3,4) Cons in auto)
    then show ?thesis using Cons by simp
  qed
qed

subsection \<open>A client to try things on\<close>

definition pong :: z_sample where
  "pong = \<lparr>sample_payload = [0, 1, 0, 0, 42], sample_attachment = query_attachment ping\<rparr>"

definition pong_msg :: ReceiveMessageData where
  "pong_msg = sample_msg 11 (sample_payload pong) 6 \<lparr>sequence_num = 3, timestamp = 4, gid = replicate 16 9\<rparr>"

definition echo_client :: "ReceiveMessageDataList \<Rightarrow> ZenohPicoServiceData" where
  "echo_client resps = (echo_server recv_msg_list_init resps)\<lparr>srv_node := Some 30, srv_attachment := zero_attachment\<lparr>gid := [9]\<rparr>\<rparr>"

definition client_mem :: "ReceiveMessageDataList \<Rightarrow> rmw_mem" where
  "client_mem resps = start_mem\<lparr>next_addr := 41, bufs := [11 \<mapsto> sample_payload pong], msgs := [1 \<mapsto> pong_msg],
     node_datas := [30 \<mapsto> zero_node_data\<lparr>nd_session := Some zenohSession\<rparr>], sessions := [zenohSession \<mapsto> used_session 1 [] []],
     service_datas := [40 \<mapsto> echo_client resps]\<rparr>"

lemma client_facts:
  "roomy (client_mem r)" "codec_ok (codec (env (client_mem r)))" "env (client_mem r) = small_env" "trace (client_mem r) = []"
  "next_addr (client_mem r) = 41" "msgs (client_mem r) = [1 \<mapsto> pong_msg]" "bufs (client_mem r) = [11 \<mapsto> sample_payload pong]"
  "waiting_response (client_mem r) 1 pong_msg 11 (sample_payload pong)"
  using roomy_start le_codec_ok
  by (simp_all add: client_mem_def roomy_def waiting_response_def live_def pong_msg_def sample_msg_def small_env_def)

lemma client_ready:
  "srv_ready (client_mem recv_msg_list_init) 40 (echo_client recv_msg_list_init) [] []"
  "srv_ready (client_mem one_msg) 40 (echo_client one_msg) [] [1]"
  by (simp_all add: srv_ready_def client_mem_def echo_client_def echo_server_def zero_service_data_def mgr_ok_def zero_mgr_def
      waiter_ok_def) (auto simp: queue_rep_def one_msg_def pong_msg_def sample_msg_def)

theorem reply_is_delivered_witness:
  "\<exists>w' d'. reply_handler (Some pong) (Some 40) (client_mem recv_msg_list_init) = Inr ((), w') \<and>
     service_datas w' 40 = Some d' \<and> queue_rep (msgs w') (response_queue d') [41] \<and> bufs w' 42 = Some [0, 1, 0, 0, 42]"
proof -
  let ?w = "client_mem recv_msg_list_init"
  have at: "attachment_data_get (codec (env ?w)) (sample_attachment pong) zero_attachment =
      (True, \<lparr>sequence_num = 3, timestamp = 4, gid = replicate 16 9\<rparr>)"
    using ping_attachment by (simp add: client_facts small_env_def pong_def)
  have n: "msgs ?w (next_addr ?w) = None" by (simp add: client_facts)
  have "sample_payload pong = [0, 1, 0, 0, 42]" by (simp add: pong_def)
  then show ?thesis
    using reply_is_delivered [OF client_ready(1) client_facts(1) n at] unfolding client_facts(5) by force
qed

theorem send_request_number_witness:
  "\<exists>w' bs. rmw_send_request (Some server_handle) [7] (Some 99) (client_mem recv_msg_list_init) = Inr (RMW_RET_OK, Some 0, w') \<and>
     trace w' = [ZGet ''0/srv'' (serialized_bytes echo_callbacks [7]) bs] \<and> read_number le_codec bs = (True, 1, [9])"
proof -
  let ?w = "client_mem recv_msg_list_init" and ?d = "echo_client recv_msg_list_init"
  have c: "codec (env ?w) = le_codec" "\<And>t c. zok (env ?w) t c" by (simp_all add: client_facts small_env_def)
  have d: "srv_node ?d = Some 30" "srv_topic_key ?d = ''0/srv''" "request_callback ?d = echo_callbacks"
    "sequence_num (srv_attachment ?d) = 0" "gid (srv_attachment ?d) = [9]"
    by (simp_all add: echo_client_def echo_server_def zero_attachment_def)
  have n: "node_datas ?w 30 = Some (zero_node_data\<lparr>nd_session := Some zenohSession\<rparr>)"
    "nd_session (zero_node_data\<lparr>nd_session := Some zenohSession\<rparr>) = Some zenohSession"
    "sessions ?w zenohSession = Some (used_session 1 [] [])"
    by (simp_all add: client_mem_def)
  have m: "\<not> oom (env ?w) (next_addr ?w)" "bufs ?w (next_addr ?w) = None" by (simp_all add: client_facts small_env_def)
  have e: "encodes (codec (env ?w)) (gid (srv_attachment ?d))"
    using le_codec_ok unfolding c d by (simp add: encodes_def) (simp add: le_codec_def)
  obtain bs where bs: "att_bytes (codec (env ?w)) (next_attachment ?w (srv_attachment ?d)) = Some bs"
    "read_number (codec (env ?w)) bs = (True, sequence_num (srv_attachment ?d) + 1, gid (srv_attachment ?d))"
    unfolding next_attachment_def using e by (rule encodes_bytes)
  have "read_number le_codec bs = (True, 1, [9])" using bs(2) by (simp add: c d)
  moreover have "\<exists>w'. rmw_send_request (Some server_handle) [7] (Some 99) ?w = Inr (RMW_RET_OK, Some 0, w') \<and>
     trace w' = [ZGet ''0/srv'' (serialized_bytes echo_callbacks [7]) bs]"
    using send_request_number [OF server_facts(1,3) client_ready(1) d(1) n m client_facts(2) bs(1), of "[7]" 99]
    by (auto simp: c d client_facts(4))
  ultimately show ?thesis by blast
qed

theorem take_response_oldest_witness:
  "\<exists>w'. rmw_take_response (Some server_handle) (Some blank_header) [] (Some False) (client_mem one_msg) =
      Inr (RMW_RET_OK, Some (rmw_zneoh_fill_request_header blank_header pong_msg), [42], Some True, w') \<and>
    msgs w' 1 = None \<and> bufs w' 11 = None"
proof -
  have c: "ROS2_MSG_OFFSET \<le> length (sample_payload pong)"
    "cdr_deserialize (response_callback (echo_client one_msg)) (drop ROS2_MSG_OFFSET (sample_payload pong)) = (True, [42])"
    by (simp_all add: ROS2_MSG_OFFSET_def pong_def echo_client_def echo_server_def echo_callbacks_def)
  from take_response_oldest [OF server_facts(1,3) client_ready(2), of blank_header "[]" False]
  have "\<exists>w' l. rmw_take_response (Some server_handle) (Some blank_header) [] (Some False) (client_mem one_msg) =
      Inr (RMW_RET_OK, Some (rmw_zneoh_fill_request_header blank_header pong_msg), [42], Some True, w') \<and>
    msgs w' = (msgs (client_mem one_msg))(1 := None) \<and> bufs w' = (bufs (client_mem one_msg))(11 := None)"
    using client_facts(8) [of one_msg] c by fastforce
  then show ?thesis by auto
qed

end
