(* ===== verification/Rmw_Wait.thy ===== *)
theory Rmw_Wait
  imports Take Client
begin

section \<open>Waiting\<close>

text \<open>
  \<open>rmw_wait\<close> of \<open>rmw_wait.c\<close>.  The arrays of the caller hold pointers that may be null; a null
  array is \<open>None\<close>.  Event pointers refer to the event manager inside a data object.

  The other threads are two lists of actions: those that run between attaching and taking the lock of the wait set,
  and those that run while the thread sleeps.  A sleeping thread is woken when the count of signals has
  changed; an action that only adds a signal is a spurious wakeup.  When the actions are used up, a timed
  wait ends by its timeout and an untimed one lasts for ever, which is the fault \<open>Blocked\<close>.
\<close>

type_synonym action = "rmw_mem \<Rightarrow> rmw_mem res"

fun run_actions :: "action list \<Rightarrow> rmw_mem \<Rightarrow> rmw_mem res" where
  "run_actions [] w = Inr w"
| "run_actions (a # as) w = andthen (a w) (run_actions as)"

datatype event_ptr = SubEvents addr | PubEvents addr | ServiceEvents addr

definition on_event ::
  "event_ptr \<Rightarrow> rmw_mem \<Rightarrow> (DataEventManager \<Rightarrow> (bool \<times> DataEventManager) res) \<Rightarrow> (bool \<times> rmw_mem) res" where
  "on_event e w f = (case e of
      SubEvents a \<Rightarrow> on_sub (Some a) w (\<lambda>d w. andthen (f (sub_event_mgr d)) (\<lambda>(r, m). Inr (r, d\<lparr>sub_event_mgr := m\<rparr>, w)))
    | PubEvents a \<Rightarrow> on_pub (Some a) w (\<lambda>d w. andthen (f (pub_event_mgr d)) (\<lambda>(r, m). Inr (r, d\<lparr>pub_event_mgr := m\<rparr>, w)))
    | ServiceEvents a \<Rightarrow> on_srv (Some a) w (\<lambda>d w. andthen (f (srv_event_mgr d)) (\<lambda>(r, m). Inr (r, d\<lparr>srv_event_mgr := m\<rparr>, w))))"

subsection \<open>Checking and attaching\<close>

text \<open>The loops over the arrays skip null pointers and stop at the first object that is ready.\<close>

fun attach_loop :: "('p \<Rightarrow> rmw_mem \<Rightarrow> (bool \<times> rmw_mem) res) \<Rightarrow> 'p option list \<Rightarrow> rmw_mem \<Rightarrow> (bool \<times> rmw_mem) res" where
  "attach_loop f [] w = Inr (False, w)"
| "attach_loop f (None # ps) w = attach_loop f ps w"
| "attach_loop f (Some p # ps) w = andthen (f p w) (\<lambda>(r, w). if r then Inr (True, w) else attach_loop f ps w)"

definition attach_array :: "('p \<Rightarrow> rmw_mem \<Rightarrow> (bool \<times> rmw_mem) res) \<Rightarrow> 'p option list option \<Rightarrow> rmw_mem \<Rightarrow> (bool \<times> rmw_mem) res" where
  "attach_array f a w = (case a of None \<Rightarrow> Inr (False, w) | Some ps \<Rightarrow> attach_loop f ps w)"

definition check_and_attach_condition ::
  "addr option list option \<Rightarrow> guard_ptr option list option \<Rightarrow> addr option list option \<Rightarrow> addr option list option
     \<Rightarrow> event_ptr option list option \<Rightarrow> addr option \<Rightarrow> rmw_mem \<Rightarrow> (bool \<times> rmw_mem) res" where
  "check_and_attach_condition subscriptions guard_conditions services clients events ws w =
     andthen (attach_array (\<lambda>p. guard_condition_check_and_attach (Some p) ws) guard_conditions w) (\<lambda>(r, w). if r then Inr (True, w) else
     andthen (attach_array (\<lambda>p w. on_event p w (event_condition_check_and_attach ws)) events w) (\<lambda>(r, w). if r then Inr (True, w) else
     andthen (attach_array (\<lambda>p. subscription_condition_check_and_attach (Some p) ws) subscriptions w) (\<lambda>(r, w). if r then Inr (True, w) else
     andthen (attach_array (\<lambda>p. service_condition_check_and_attach (Some p) ws) services w) (\<lambda>(r, w). if r then Inr (True, w) else
     attach_array (\<lambda>p. client_condition_check_and_attach (Some p) ws) clients w))))"

subsection \<open>Sleeping\<close>

fun wait_triggered :: "nat \<Rightarrow> action list \<Rightarrow> addr option \<Rightarrow> rmw_mem \<Rightarrow> rmw_mem res" where
  "wait_triggered n [] p w = Inl Blocked"
| "wait_triggered n (a # as) p w =
     andthen (a w) (\<lambda>w.
     andthen (deref (wait_sets w) p) (\<lambda>s.
       if condition_variable s = n then wait_triggered n as p w
       else if ws_triggered s then Inr w
       else wait_triggered (condition_variable s) as p w))"

fun timed_wait :: "nat \<Rightarrow> action list \<Rightarrow> addr option \<Rightarrow> rmw_mem \<Rightarrow> rmw_mem res" where
  "timed_wait n [] p w = Inr w"
| "timed_wait n (a # as) p w =
     andthen (a w) (\<lambda>w.
     andthen (deref (wait_sets w) p) (\<lambda>s.
       if condition_variable s = n then timed_wait n as p w else Inr w))"

text \<open>
  The lock is given up while the thread sleeps and taken again when it wakes.  A timed wait does not look at
  \<open>triggered\<close> before it sleeps, and reads the clock for its deadline.
\<close>

definition wait_sleep :: "rmw_time_t option \<Rightarrow> action list \<Rightarrow> addr option \<Rightarrow> rmw_mem \<Rightarrow> rmw_mem res" where
  "wait_sleep wait_timeout others p w =
     andthen (wait_condition_lock p w) (\<lambda>w.
     andthen (deref (wait_sets w) p) (\<lambda>s.
     andthen (case wait_timeout of
         None \<Rightarrow> if ws_triggered s then Inr w
           else andthen (wait_condition_unlock p w) (\<lambda>w.
                andthen (wait_triggered (condition_variable s) others p w) (wait_condition_lock p))
       | Some t \<Rightarrow> if sec t \<noteq> 0 \<or> nsec t \<noteq> 0
           then (case clock_gettime w of (_, w) \<Rightarrow>
                andthen (wait_condition_unlock p w) (\<lambda>w.
                andthen (timed_wait (condition_variable s) others p w) (wait_condition_lock p)))
           else Inr w) (\<lambda>w.
     andthen (wait_condition_triggered p False w) (wait_condition_unlock p))))"

subsection \<open>Detaching\<close>

text \<open>The function answers whether the object is ready; objects that are not ready are replaced by null pointers.\<close>

fun detach_loop ::
  "('p \<Rightarrow> rmw_mem \<Rightarrow> (bool \<times> rmw_mem) res) \<Rightarrow> 'p option list \<Rightarrow> bool \<Rightarrow> rmw_mem \<Rightarrow> ('p option list \<times> bool \<times> rmw_mem) res" where
  "detach_loop f [] result w = Inr ([], result, w)"
| "detach_loop f (None # ps) result w = andthen (detach_loop f ps result w) (\<lambda>(ps, result, w). Inr (None # ps, result, w))"
| "detach_loop f (Some p # ps) result w =
     andthen (f p w) (\<lambda>(ready, w).
     andthen (detach_loop f ps (if ready then True else result) w) (\<lambda>(ps, result, w).
       Inr ((if ready then Some p else None) # ps, result, w)))"

definition detach_array ::
  "('p \<Rightarrow> rmw_mem \<Rightarrow> (bool \<times> rmw_mem) res) \<Rightarrow> 'p option list option \<Rightarrow> bool \<Rightarrow> rmw_mem
     \<Rightarrow> ('p option list option \<times> bool \<times> rmw_mem) res" where
  "detach_array f a result w = (case a of None \<Rightarrow> Inr (None, result, w)
     | Some ps \<Rightarrow> andthen (detach_loop f ps result w) (\<lambda>(ps, result, w). Inr (Some ps, result, w)))"

definition not_empty :: "(bool \<times> rmw_mem) res \<Rightarrow> (bool \<times> rmw_mem) res" where
  "not_empty r = andthen r (\<lambda>(empty, w). Inr (\<not> empty, w))"

text \<open>
  The event loop stands inside itself and returns \<open>true\<close> from \<open>rmw_wait\<close> as soon as a manager has nothing to
  report; \<open>true\<close> is the number of \<open>RMW_RET_ERROR\<close>.
\<close>

fun event_rounds :: "nat \<Rightarrow> event_ptr option list \<Rightarrow> rmw_mem \<Rightarrow> (bool \<times> rmw_mem) res" where
  "event_rounds 0 events w = Inr (False, w)"
| "event_rounds (Suc n) events w =
     andthen (attach_loop (\<lambda>p w. on_event p w event_condition_detach_and_queue_is_empty) events w) (\<lambda>(r, w).
       if r then Inr (True, w) else event_rounds n events w)"

definition detach_events :: "event_ptr option list option \<Rightarrow> rmw_mem \<Rightarrow> (bool \<times> rmw_mem) res" where
  "detach_events events w = (case events of None \<Rightarrow> Inr (False, w) | Some es \<Rightarrow> event_rounds (length es) es w)"

subsection \<open>rmw_wait\<close>

record wait_arrays =
  wa_subscriptions :: "addr option list option"
  wa_guard_conditions :: "guard_ptr option list option"
  wa_services :: "addr option list option"
  wa_clients :: "addr option list option"
  wa_events :: "event_ptr option list option"

definition wait_detach :: "wait_arrays \<Rightarrow> rmw_mem \<Rightarrow> (rmw_ret_t \<times> wait_arrays \<times> rmw_mem) res" where
  "wait_detach a w =
     andthen (detach_array (\<lambda>p. guard_condition_detach_and_is_trigger_set (Some p)) (wa_guard_conditions a) False w) (\<lambda>(gs, result, w).
     let a = a\<lparr>wa_guard_conditions := gs\<rparr> in
     andthen (detach_events (wa_events a) w) (\<lambda>(stop, w).
     if stop then Inr (ret_of_bool True, a, w)
     else
       andthen (detach_array (\<lambda>p w. not_empty (subscription_condition_detach_and_queue_is_empty (Some p) w)) (wa_subscriptions a) result w)
         (\<lambda>(ss, result, w).
       andthen (detach_array (\<lambda>p w. not_empty (service_condition_detach_and_queue_is_empty (Some p) w)) (wa_services a) result w)
         (\<lambda>(vs, result, w).
       andthen (detach_array (\<lambda>p w. not_empty (client_condition_detach_and_queue_is_empty (Some p) w)) (wa_clients a) result w)
         (\<lambda>(cs, result, w).
       Inr (if result then RMW_RET_OK else RMW_RET_TIMEOUT,
            a\<lparr>wa_subscriptions := ss, wa_services := vs, wa_clients := cs\<rparr>, w))))))"

definition rmw_wait ::
  "wait_arrays \<Rightarrow> rmw_wait_set_t option \<Rightarrow> rmw_time_t option \<Rightarrow> action list \<Rightarrow> action list \<Rightarrow> rmw_mem
     \<Rightarrow> (rmw_ret_t \<times> wait_arrays \<times> rmw_mem) res" where
  "rmw_wait a wait_set wait_timeout between asleep w =
     (case wait_set of None \<Rightarrow> Inr (RMW_RET_INVALID_ARGUMENT, a, w) | Some s \<Rightarrow>
      if \<not> identifiers_match (implementation_identifier s) then Inr (RMW_RET_INCORRECT_RMW_IMPLEMENTATION, a, w)
      else if data s = None then Inr (RMW_RET_ERROR, a, w)
      else andthen (check_and_attach_condition (wa_subscriptions a) (wa_guard_conditions a) (wa_services a) (wa_clients a)
            (wa_events a) (data s) w) (\<lambda>(skip_wait, w).
        andthen (if \<not> skip_wait then andthen (run_actions between w) (wait_sleep wait_timeout asleep (data s)) else Inr w)
          (wait_detach a)))"

end
