(* ===== verification/Waiting.thy ===== *)
theory Waiting
  imports Rmw_Wait
begin

section \<open>What rmw\_wait reports\<close>

text \<open>
  The lemmas about \<open>rmw_wait\<close>.  Attaching and detaching change nothing but the pointers from the listed
  objects to the wait set: \<open>unattached\<close> forgets these pointers, and whether an object is ready does not depend on
  them.  The locale \<open>listed\<close> states this for one kind of object, with the loops of
  \<open>rmw_wait\<close> as its lemmas, and is interpreted for guard conditions, subscriptions, servers and clients.
\<close>

subsection \<open>Pointers to wait sets\<close>

definition unattached :: "rmw_mem \<Rightarrow> rmw_mem" where
  "unattached w = w\<lparr>
     sub_datas := \<lambda>a. map_option (\<lambda>d. d\<lparr>sub_wait_set_data := None\<rparr>) (sub_datas w a),
     service_datas := \<lambda>a. map_option (\<lambda>d. d\<lparr>srv_wait_set_data := None\<rparr>) (service_datas w a),
     guards := \<lambda>a. map_option (\<lambda>d. d\<lparr>gc_wait_set_data := None\<rparr>) (guards w a)\<rparr>"

definition sub_attached :: "rmw_mem \<Rightarrow> addr \<Rightarrow> bool" where
  "sub_attached w a = (case sub_datas w a of None \<Rightarrow> False | Some d \<Rightarrow> sub_wait_set_data d \<noteq> None)"

definition srv_attached :: "rmw_mem \<Rightarrow> addr \<Rightarrow> bool" where
  "srv_attached w a = (case service_datas w a of None \<Rightarrow> False | Some d \<Rightarrow> srv_wait_set_data d \<noteq> None)"

definition guard_attached :: "rmw_mem \<Rightarrow> guard_ptr \<Rightarrow> bool" where
  "guard_attached w p = (case p of FunctionAddress \<Rightarrow> False | GuardData a \<Rightarrow>
     (case guards w a of None \<Rightarrow> False | Some d \<Rightarrow> gc_wait_set_data d \<noteq> None))"

definition only_detaches :: "rmw_mem \<Rightarrow> rmw_mem \<Rightarrow> bool" where
  "only_detaches w w' \<longleftrightarrow> unattached w' = unattached w \<and> (\<forall>a. sub_attached w' a \<longrightarrow> sub_attached w a) \<and>
     (\<forall>a. srv_attached w' a \<longrightarrow> srv_attached w a) \<and> (\<forall>p. guard_attached w' p \<longrightarrow> guard_attached w p)"

lemma only_detaches_refl [simp]: "only_detaches w w"
  by (simp add: only_detaches_def)

lemma only_detaches_trans: "only_detaches w w' \<Longrightarrow> only_detaches w' w'' \<Longrightarrow> only_detaches w w''"
  by (simp add: only_detaches_def)

text \<open>The pointers themselves, and steps that change them to one wait set only.\<close>

definition sub_link :: "rmw_mem \<Rightarrow> addr \<Rightarrow> addr option" where
  "sub_link w a = (case sub_datas w a of None \<Rightarrow> None | Some d \<Rightarrow> sub_wait_set_data d)"

definition srv_link :: "rmw_mem \<Rightarrow> addr \<Rightarrow> addr option" where
  "srv_link w a = (case service_datas w a of None \<Rightarrow> None | Some d \<Rightarrow> srv_wait_set_data d)"

definition guard_link :: "rmw_mem \<Rightarrow> guard_ptr \<Rightarrow> addr option" where
  "guard_link w p = (case p of FunctionAddress \<Rightarrow> None | GuardData a \<Rightarrow>
     (case guards w a of None \<Rightarrow> None | Some d \<Rightarrow> gc_wait_set_data d))"

lemmas link_defs = sub_link_def srv_link_def guard_link_def

definition only_attaches :: "addr option \<Rightarrow> rmw_mem \<Rightarrow> rmw_mem \<Rightarrow> bool" where
  "only_attaches ws w w' \<longleftrightarrow> (\<forall>a. sub_link w' a \<in> {sub_link w a, ws}) \<and> (\<forall>a. srv_link w' a \<in> {srv_link w a, ws}) \<and>
     (\<forall>p. guard_link w' p \<in> {guard_link w p, ws})"

lemma only_attaches_refl [simp]: "only_attaches ws w w"
  by (simp add: only_attaches_def)

lemma only_attaches_trans: "only_attaches ws w w' \<Longrightarrow> only_attaches ws w' w'' \<Longrightarrow> only_attaches ws w w''"
  unfolding only_attaches_def insert_iff empty_iff by metis

lemmas attached_defs = sub_attached_def srv_attached_def guard_attached_def

subsection \<open>Objects that can be listed, and when they are ready\<close>

definition sub_ok :: "rmw_mem \<Rightarrow> addr \<Rightarrow> bool" where
  "sub_ok w a \<longleftrightarrow> (\<exists>d as. sub_datas w a = Some d \<and> queue_rep (msgs w) (message_queue d) as \<and> sub_condition_mutex d = Unlocked)"

definition sub_full :: "rmw_mem \<Rightarrow> addr \<Rightarrow> bool" where
  "sub_full w a = (case sub_datas w a of None \<Rightarrow> False | Some d \<Rightarrow> que_count (message_queue d) \<noteq> 0)"

definition service_ok :: "rmw_mem \<Rightarrow> addr \<Rightarrow> bool" where
  "service_ok w a \<longleftrightarrow> (\<exists>d as. service_datas w a = Some d \<and> queue_rep (msgs w) (request_queue d) as \<and> srv_condition_mutex d = Unlocked)"

definition service_full :: "rmw_mem \<Rightarrow> addr \<Rightarrow> bool" where
  "service_full w a = (case service_datas w a of None \<Rightarrow> False | Some d \<Rightarrow> que_count (request_queue d) \<noteq> 0)"

definition client_ok :: "rmw_mem \<Rightarrow> addr \<Rightarrow> bool" where
  "client_ok w a \<longleftrightarrow> (\<exists>d as. service_datas w a = Some d \<and> queue_rep (msgs w) (response_queue d) as \<and> srv_condition_mutex d = Unlocked)"

definition client_full :: "rmw_mem \<Rightarrow> addr \<Rightarrow> bool" where
  "client_full w a = (case service_datas w a of None \<Rightarrow> False | Some d \<Rightarrow> que_count (response_queue d) \<noteq> 0)"

definition guard_ok :: "rmw_mem \<Rightarrow> guard_ptr \<Rightarrow> bool" where
  "guard_ok w p \<longleftrightarrow> (\<exists>a d. p = GuardData a \<and> guards w a = Some d \<and> guard_wf d)"

definition guard_raised :: "rmw_mem \<Rightarrow> guard_ptr \<Rightarrow> bool" where
  "guard_raised w p = (case p of FunctionAddress \<Rightarrow> False | GuardData a \<Rightarrow>
     (case guards w a of None \<Rightarrow> False | Some d \<Rightarrow> gc_triggered d))"

lemma ok_unattached:
  "sub_ok (unattached w) a = sub_ok w a" "service_ok (unattached w) a = service_ok w a"
  "client_ok (unattached w) a = client_ok w a" "guard_ok (unattached w) p = guard_ok w p"
  "sub_full (unattached w) a = sub_full w a" "service_full (unattached w) a = service_full w a"
  "client_full (unattached w) a = client_full w a" "guard_raised (unattached w) p = guard_raised w p"
  by (auto simp: unattached_def sub_ok_def service_ok_def client_ok_def guard_ok_def sub_full_def service_full_def
      client_full_def guard_raised_def guard_wf_def split: option.split guard_ptr.split)

text \<open>One object's pointer is changed.\<close>

lemma unattached_upd:
  "sub_datas w a = Some d \<Longrightarrow> unattached (w\<lparr>sub_datas := (sub_datas w)(a \<mapsto> d\<lparr>sub_wait_set_data := p\<rparr>)\<rparr>) = unattached w"
  "service_datas w a = Some e \<Longrightarrow> unattached (w\<lparr>service_datas := (service_datas w)(a \<mapsto> e\<lparr>srv_wait_set_data := p\<rparr>)\<rparr>) = unattached w"
  "guards w a = Some g \<Longrightarrow> unattached (w\<lparr>guards := (guards w)(a \<mapsto> g\<lparr>gc_wait_set_data := p\<rparr>)\<rparr>) = unattached w"
  by (auto simp: unattached_def fun_eq_iff intro!: rmw_mem.equality)

lemma detaches_upd:
  "sub_datas w a = Some d \<Longrightarrow> only_detaches w (w\<lparr>sub_datas := (sub_datas w)(a \<mapsto> d\<lparr>sub_wait_set_data := None\<rparr>)\<rparr>)"
  "service_datas w a = Some e \<Longrightarrow> only_detaches w (w\<lparr>service_datas := (service_datas w)(a \<mapsto> e\<lparr>srv_wait_set_data := None\<rparr>)\<rparr>)"
  "guards w a = Some g \<Longrightarrow> only_detaches w (w\<lparr>guards := (guards w)(a \<mapsto> g\<lparr>gc_wait_set_data := None\<rparr>)\<rparr>)"
  by (simp_all add: only_detaches_def unattached_upd del: fun_upd_apply)
    (auto simp: attached_defs split: guard_ptr.split option.split)

lemma attaches_upd:
  "sub_datas w a = Some d \<Longrightarrow> only_attaches ws w (w\<lparr>sub_datas := (sub_datas w)(a \<mapsto> d\<lparr>sub_wait_set_data := ws\<rparr>)\<rparr>)"
  "service_datas w a = Some e \<Longrightarrow> only_attaches ws w (w\<lparr>service_datas := (service_datas w)(a \<mapsto> e\<lparr>srv_wait_set_data := ws\<rparr>)\<rparr>)"
  "guards w a = Some g \<Longrightarrow> only_attaches ws w (w\<lparr>guards := (guards w)(a \<mapsto> g\<lparr>gc_wait_set_data := ws\<rparr>)\<rparr>)"
  by (auto simp: only_attaches_def link_defs split: guard_ptr.split)

subsection \<open>One kind of object\<close>

text \<open>What the result arrays keep.\<close>

definition keep_if :: "('p \<Rightarrow> bool) \<Rightarrow> 'p option list \<Rightarrow> 'p option list" where
  "keep_if r ps = map (\<lambda>x. case x of None \<Rightarrow> None | Some p \<Rightarrow> if r p then Some p else None) ps"

definition some_ready :: "('p \<Rightarrow> bool) \<Rightarrow> 'p option list \<Rightarrow> bool" where
  "some_ready r ps \<longleftrightarrow> (\<exists>p. Some p \<in> set ps \<and> r p)"

lemma keep_if_simps [simp]:
  "keep_if r [] = []" "keep_if r (None # ps) = None # keep_if r ps"
  "keep_if r (Some p # ps) = (if r p then Some p else None) # keep_if r ps"
  by (simp_all add: keep_if_def)

lemma some_ready_simps [simp]:
  "\<not> some_ready r []" "some_ready r (None # ps) = some_ready r ps" "some_ready r (Some p # ps) = (r p \<or> some_ready r ps)"
  by (auto simp: some_ready_def)

text \<open>An array may be a null pointer.\<close>

definition all_listed :: "('p \<Rightarrow> bool) \<Rightarrow> 'p option list option \<Rightarrow> bool" where
  "all_listed r arr \<longleftrightarrow> (case arr of None \<Rightarrow> True | Some ps \<Rightarrow> \<forall>p. Some p \<in> set ps \<longrightarrow> r p)"

definition any_listed :: "('p \<Rightarrow> bool) \<Rightarrow> 'p option list option \<Rightarrow> bool" where
  "any_listed r arr \<longleftrightarrow> (case arr of None \<Rightarrow> False | Some ps \<Rightarrow> some_ready r ps)"

locale listed =
  fixes ok :: "rmw_mem \<Rightarrow> 'p \<Rightarrow> bool"
    and ready :: "rmw_mem \<Rightarrow> 'p \<Rightarrow> bool"
    and attached :: "rmw_mem \<Rightarrow> 'p \<Rightarrow> bool"
    and link :: "rmw_mem \<Rightarrow> 'p \<Rightarrow> addr option"
    and attach :: "addr option \<Rightarrow> 'p \<Rightarrow> rmw_mem \<Rightarrow> (bool \<times> rmw_mem) res"
    and detach :: "'p \<Rightarrow> rmw_mem \<Rightarrow> (bool \<times> rmw_mem) res"
  assumes ok_unattached: "ok (unattached w) p = ok w p"
    and ready_unattached: "ready (unattached w) p = ready w p"
    and only_detaches: "only_detaches w w' \<Longrightarrow> attached w' p \<Longrightarrow> attached w p"
    and only_attaches: "only_attaches ws w w' \<Longrightarrow> link w' p = link w p \<or> link w' p = ws"
    and attach_law: "ok w p \<Longrightarrow> \<exists>w'. attach ws p w = Inr (ready w p, w') \<and> unattached w' = unattached w \<and> only_attaches ws w w' \<and>
      (ws \<noteq> None \<and> \<not> ready w p \<longrightarrow> link w' p = ws)"
    and detach_law: "ok w p \<Longrightarrow> \<exists>w'. detach p w = Inr (ready w p, w') \<and> only_detaches w w' \<and> \<not> attached w' p"
begin

lemma ok_same: "unattached w' = unattached w \<Longrightarrow> ok w' p = ok w p"
  using ok_unattached [of w p] ok_unattached [of w' p] by simp

lemma ready_same: "unattached w' = unattached w \<Longrightarrow> ready w' = ready w"
  using ready_unattached [of w] ready_unattached [of w'] by (simp add: fun_eq_iff)

lemma attach_loop_run:
  assumes "\<And>p. Some p \<in> set ps \<Longrightarrow> ok w p"
  shows "\<exists>w'. attach_loop (attach ws) ps w = Inr (some_ready (ready w) ps, w') \<and> unattached w' = unattached w \<and>
    only_attaches ws w w' \<and> (ws \<noteq> None \<and> \<not> some_ready (ready w) ps \<longrightarrow> (\<forall>p. Some p \<in> set ps \<longrightarrow> link w' p = ws))"
  using assms
proof (induction ps arbitrary: w)
  case (Cons x ps)
  show ?case
  proof (cases x)
    case None
    then show ?thesis using Cons by simp
  next
    case (Some p)
    obtain w1 where w1: "attach ws p w = Inr (ready w p, w1)" "unattached w1 = unattached w" "only_attaches ws w w1"
      "ws \<noteq> None \<and> \<not> ready w p \<longrightarrow> link w1 p = ws"
      using attach_law [of w p ws] Cons.prems [of p] Some by auto
    have "\<exists>w'. attach_loop (attach ws) ps w1 = Inr (some_ready (ready w1) ps, w') \<and> unattached w' = unattached w1 \<and>
        only_attaches ws w1 w' \<and> (ws \<noteq> None \<and> \<not> some_ready (ready w1) ps \<longrightarrow> (\<forall>p. Some p \<in> set ps \<longrightarrow> link w' p = ws))"
      by (rule Cons.IH) (use Cons.prems ok_same [OF w1(2)] in simp)
    then obtain w' where w': "attach_loop (attach ws) ps w1 = Inr (some_ready (ready w) ps, w')" "unattached w' = unattached w"
      "only_attaches ws w1 w'" "ws \<noteq> None \<and> \<not> some_ready (ready w) ps \<longrightarrow> (\<forall>p. Some p \<in> set ps \<longrightarrow> link w' p = ws)"
      unfolding ready_same [OF w1(2)] w1(2) by blast
    have "ws \<noteq> None \<and> \<not> ready w p \<longrightarrow> link w' p = ws" using w1(4) only_attaches [OF w'(3), of p] by auto
    then show ?thesis using Some w1(1-3) w' only_attaches_trans [OF w1(3) w'(3)] by (cases "ready w p") auto
  qed
qed simp

lemma detach_loop_run:
  assumes "\<And>p. Some p \<in> set ps \<Longrightarrow> ok w p"
  shows "\<exists>w'. detach_loop detach ps result w = Inr (keep_if (ready w) ps, result \<or> some_ready (ready w) ps, w') \<and>
    only_detaches w w' \<and> (\<forall>p. Some p \<in> set ps \<longrightarrow> \<not> attached w' p)"
  using assms
proof (induction ps arbitrary: w result)
  case (Cons x ps)
  show ?case
  proof (cases x)
    case None
    obtain w' where "detach_loop detach ps result w = Inr (keep_if (ready w) ps, result \<or> some_ready (ready w) ps, w')"
      "only_detaches w w'" "\<forall>p. Some p \<in> set ps \<longrightarrow> \<not> attached w' p"
      using Cons.IH [of w result] Cons.prems by auto
    then show ?thesis using None by simp
  next
    case (Some p)
    let ?res = "if ready w p then True else result"
    obtain w1 where w1: "detach p w = Inr (ready w p, w1)" "only_detaches w w1" "\<not> attached w1 p"
      using detach_law [of w p] Cons.prems [of p] Some by auto
    have u: "unattached w1 = unattached w" using w1(2) by (simp add: only_detaches_def)
    have "\<exists>w'. detach_loop detach ps ?res w1 = Inr (keep_if (ready w1) ps, ?res \<or> some_ready (ready w1) ps, w') \<and>
        only_detaches w1 w' \<and> (\<forall>p. Some p \<in> set ps \<longrightarrow> \<not> attached w' p)"
      by (rule Cons.IH) (use Cons.prems ok_same [OF u] in simp)
    then obtain w' where w': "detach_loop detach ps ?res w1 = Inr (keep_if (ready w) ps, ?res \<or> some_ready (ready w) ps, w')"
      "only_detaches w1 w'" "\<forall>p. Some p \<in> set ps \<longrightarrow> \<not> attached w' p"
      unfolding ready_same [OF u] by blast
    have "\<not> attached w' p" using only_detaches [OF w'(2)] w1(3) by blast
    then show ?thesis using Some w1(1) w' only_detaches_trans [OF w1(2) w'(2)] by auto
  qed
qed simp

lemma attach_array_run:
  assumes "all_listed (ok w) arr"
  shows "\<exists>w'. attach_array (attach ws) arr w = Inr (any_listed (ready w) arr, w') \<and> unattached w' = unattached w \<and>
    only_attaches ws w w' \<and> (ws \<noteq> None \<and> \<not> any_listed (ready w) arr \<longrightarrow> all_listed (\<lambda>p. link w' p = ws) arr)"
proof (cases arr)
  case None
  then show ?thesis by (simp add: attach_array_def any_listed_def all_listed_def)
next
  case (Some ps)
  then show ?thesis using attach_loop_run [of ps w ws] assms by (simp add: attach_array_def any_listed_def all_listed_def)
qed

lemma still_linked:
  "only_attaches ws w w' \<Longrightarrow> all_listed (\<lambda>p. link w p = ws) arr \<Longrightarrow> all_listed (\<lambda>p. link w' p = ws) arr"
  using only_attaches [of ws w w'] by (fastforce simp: all_listed_def split: option.splits)

lemma detach_array_run:
  assumes "all_listed (ok w) arr"
  shows "\<exists>w'. detach_array detach arr result w =
      Inr (map_option (keep_if (ready w)) arr, result \<or> any_listed (ready w) arr, w') \<and> only_detaches w w' \<and>
    all_listed (\<lambda>p. \<not> attached w' p) arr"
proof (cases arr)
  case None
  then show ?thesis by (simp add: detach_array_def any_listed_def all_listed_def)
next
  case (Some ps)
  then have "\<And>p. Some p \<in> set ps \<Longrightarrow> ok w p" using assms by (simp add: all_listed_def)
  then obtain w' where "detach_loop detach ps result w = Inr (keep_if (ready w) ps, result \<or> some_ready (ready w) ps, w')"
    "only_detaches w w'" "\<forall>p. Some p \<in> set ps \<longrightarrow> \<not> attached w' p"
    using detach_loop_run by blast
  then show ?thesis using Some by (simp add: detach_array_def any_listed_def all_listed_def)
qed

lemma still_detached:
  "only_detaches w w' \<Longrightarrow> all_listed (\<lambda>p. \<not> attached w p) arr \<Longrightarrow> all_listed (\<lambda>p. \<not> attached w' p) arr"
  using only_detaches by (fastforce simp: all_listed_def split: option.splits)

end

subsection \<open>The four kinds\<close>

lemma guard_attach_run:
  assumes "guard_ok w p"
  shows "\<exists>w'. guard_condition_check_and_attach (Some p) ws w = Inr (guard_raised w p, w') \<and> unattached w' = unattached w \<and>
    only_attaches ws w w' \<and> (ws \<noteq> None \<and> \<not> guard_raised w p \<longrightarrow> guard_link w' p = ws)"
proof -
  obtain a d where d: "p = GuardData a" "guards w a = Some d" "guard_wf d" using assms by (auto simp: guard_ok_def)
  have "guards w a = Some d \<Longrightarrow> w\<lparr>guards := (guards w)(a \<mapsto> d)\<rparr> = w" by (simp add: fun_upd_idem)
  then show ?thesis
    using d unattached_upd(3) [OF d(2), of ws] attaches_upd(3) [OF d(2), of ws]
    by (auto simp: guard_condition_check_and_attach_def guard_attach_wf guard_raised_def guard_link_def)
qed

lemma guard_detach_run:
  assumes "guard_ok w p"
  shows "\<exists>w'. guard_condition_detach_and_is_trigger_set (Some p) w = Inr (guard_raised w p, w') \<and>
    only_detaches w w' \<and> \<not> guard_attached w' p"
proof -
  obtain a d where d: "p = GuardData a" "guards w a = Some d" "guard_wf d" using assms by (auto simp: guard_ok_def)
  then show ?thesis
    using detaches_upd(3) [OF d(2)]
    by (auto simp: guard_condition_detach_and_is_trigger_set_def guard_detach_wf guard_raised_def guard_attached_def)
qed

interpretation guards_listed: listed guard_ok guard_raised guard_attached guard_link "\<lambda>ws p. guard_condition_check_and_attach (Some p) ws"
  "\<lambda>p. guard_condition_detach_and_is_trigger_set (Some p)"
  by unfold_locales (use guard_attach_run guard_detach_run in \<open>auto simp: ok_unattached only_detaches_def only_attaches_def\<close>)

text \<open>
  Subscriptions, servers and clients own a queue and pass it to the condition functions; the three
  kinds only differ in the fields these read and write.
\<close>

locale queue_owner =
  fixes datas :: "rmw_mem \<Rightarrow> addr \<rightharpoonup> 'd"
    and condition :: "'d \<Rightarrow> ZenohPicoWaitCondition"
    and put :: "ZenohPicoWaitCondition \<Rightarrow> 'd \<Rightarrow> 'd"
    and store :: "addr \<Rightarrow> 'd \<Rightarrow> rmw_mem \<Rightarrow> rmw_mem"
    and attached :: "rmw_mem \<Rightarrow> addr \<Rightarrow> bool"
    and link :: "rmw_mem \<Rightarrow> addr \<Rightarrow> addr option"
    and attach :: "addr option \<Rightarrow> addr \<Rightarrow> rmw_mem \<Rightarrow> (bool \<times> rmw_mem) res"
    and detach :: "addr \<Rightarrow> rmw_mem \<Rightarrow> (bool \<times> rmw_mem) res"
  assumes attach_eq: "datas w a = Some d \<Longrightarrow> attach ws a w =
      andthen (zenoh_pico_condition_check_and_attach ws (condition d)) (\<lambda>(r, c). Inr (r, store a (put c d) w))"
    and detach_eq: "datas w a = Some d \<Longrightarrow> detach a w =
      andthen (zenoh_pico_condition_detach_and_queue_is_empty (condition d)) (\<lambda>(r, c). Inr (\<not> r, store a (put c d) w))"
    and put_same: "datas w a = Some d \<Longrightarrow> store a (put (condition d) d) w = w"
    and put_pointer: "datas w a = Some d \<Longrightarrow> unattached (store a (put ((condition d)\<lparr>wait_set_data_ptr := ws\<rparr>) d) w) = unattached w \<and>
      only_attaches ws w (store a (put ((condition d)\<lparr>wait_set_data_ptr := ws\<rparr>) d) w) \<and>
      link (store a (put ((condition d)\<lparr>wait_set_data_ptr := ws\<rparr>) d) w) a = ws"
    and put_null: "datas w a = Some d \<Longrightarrow> only_detaches w (store a (put ((condition d)\<lparr>wait_set_data_ptr := None\<rparr>) d) w) \<and>
      \<not> attached (store a (put ((condition d)\<lparr>wait_set_data_ptr := None\<rparr>) d) w) a"
begin

definition owner_ok :: "rmw_mem \<Rightarrow> addr \<Rightarrow> bool" where
  "owner_ok w a \<longleftrightarrow> (\<exists>d as. datas w a = Some d \<and> queue_of (msgs w) (condition d) as)"

definition owner_full :: "rmw_mem \<Rightarrow> addr \<Rightarrow> bool" where
  "owner_full w a = (case datas w a of None \<Rightarrow> False | Some d \<Rightarrow> condition_ready (condition d))"

lemma attach_run:
  assumes "owner_ok w a"
  shows "\<exists>w'. attach ws a w = Inr (owner_full w a, w') \<and> unattached w' = unattached w \<and> only_attaches ws w w' \<and>
    (ws \<noteq> None \<and> \<not> owner_full w a \<longrightarrow> link w' a = ws)"
proof -
  obtain d as l where d: "datas w a = Some d" "condition_mutex (condition d) = Unlocked" "msg_queue (condition d) = Some l"
    "queue_rep (msgs w) l as"
    using assms by (auto simp: owner_ok_def queue_of_def)
  then show ?thesis
    using attach_queue [OF d(2-4), of ws] put_same [OF d(1)] put_pointer [OF d(1), of ws] condition_ready_rep [OF d(3,4)]
    by (cases "as = []") (simp_all add: attach_eq owner_full_def)
qed

lemma detach_run:
  assumes "owner_ok w a"
  shows "\<exists>w'. detach a w = Inr (owner_full w a, w') \<and> only_detaches w w' \<and> \<not> attached w' a"
proof -
  obtain d as l where d: "datas w a = Some d" "condition_mutex (condition d) = Unlocked" "msg_queue (condition d) = Some l"
    "queue_rep (msgs w) l as"
    using assms by (auto simp: owner_ok_def queue_of_def)
  then show ?thesis
    using detach_queue [OF d(2-4)] put_null [OF d(1)] condition_ready_rep [OF d(3,4)]
    by (simp add: detach_eq owner_full_def)
qed

end

lemmas condition_defs = sub_condition_def put_sub_condition_def service_condition_def put_service_condition_def
  client_condition_def put_client_condition_def

interpretation sub_owner: queue_owner sub_datas sub_condition put_sub_condition "\<lambda>a d w. w\<lparr>sub_datas := (sub_datas w)(a \<mapsto> d)\<rparr>" sub_attached sub_link
  "\<lambda>ws p. subscription_condition_check_and_attach (Some p) ws" "\<lambda>p w. not_empty (subscription_condition_detach_and_queue_is_empty (Some p) w)"
  by unfold_locales
    (simp_all add: subscription_condition_check_and_attach_def subscription_condition_detach_and_queue_is_empty_def not_empty_def andthen_assoc
      split_def condition_defs fun_upd_idem unattached_upd detaches_upd attaches_upd sub_attached_def sub_link_def)

lemma sub_owner_eqs: "sub_owner.owner_ok = sub_ok" "sub_owner.owner_full = sub_full"
  by (auto simp: fun_eq_iff sub_owner.owner_ok_def sub_ok_def queue_of_def sub_condition_def
      sub_owner.owner_full_def sub_full_def condition_ready_def split: option.split)

interpretation subs_listed: listed sub_ok sub_full sub_attached sub_link "\<lambda>ws p. subscription_condition_check_and_attach (Some p) ws"
  "\<lambda>p w. not_empty (subscription_condition_detach_and_queue_is_empty (Some p) w)"
  by unfold_locales
    (use sub_owner.attach_run sub_owner.detach_run in \<open>auto simp: sub_owner_eqs ok_unattached only_detaches_def only_attaches_def\<close>)

interpretation service_owner: queue_owner service_datas service_condition put_service_condition "\<lambda>a d w. w\<lparr>service_datas := (service_datas w)(a \<mapsto> d)\<rparr>" srv_attached srv_link
  "\<lambda>ws p. service_condition_check_and_attach (Some p) ws" "\<lambda>p w. not_empty (service_condition_detach_and_queue_is_empty (Some p) w)"
  by unfold_locales
    (simp_all add: service_condition_check_and_attach_def service_condition_detach_and_queue_is_empty_def not_empty_def andthen_assoc
      split_def condition_defs fun_upd_idem unattached_upd detaches_upd attaches_upd srv_attached_def srv_link_def)

lemma service_owner_eqs: "service_owner.owner_ok = service_ok" "service_owner.owner_full = service_full"
  by (auto simp: fun_eq_iff service_owner.owner_ok_def service_ok_def queue_of_def service_condition_def
      service_owner.owner_full_def service_full_def condition_ready_def split: option.split)

interpretation services_listed: listed service_ok service_full srv_attached srv_link "\<lambda>ws p. service_condition_check_and_attach (Some p) ws"
  "\<lambda>p w. not_empty (service_condition_detach_and_queue_is_empty (Some p) w)"
  by unfold_locales
    (use service_owner.attach_run service_owner.detach_run in \<open>auto simp: service_owner_eqs ok_unattached only_detaches_def only_attaches_def\<close>)

interpretation client_owner: queue_owner service_datas client_condition put_client_condition "\<lambda>a d w. w\<lparr>service_datas := (service_datas w)(a \<mapsto> d)\<rparr>" srv_attached srv_link
  "\<lambda>ws p. client_condition_check_and_attach (Some p) ws" "\<lambda>p w. not_empty (client_condition_detach_and_queue_is_empty (Some p) w)"
  by unfold_locales
    (simp_all add: client_condition_check_and_attach_def client_condition_detach_and_queue_is_empty_def not_empty_def andthen_assoc
      split_def condition_defs fun_upd_idem unattached_upd detaches_upd attaches_upd srv_attached_def srv_link_def)

lemma client_owner_eqs: "client_owner.owner_ok = client_ok" "client_owner.owner_full = client_full"
  by (auto simp: fun_eq_iff client_owner.owner_ok_def client_ok_def queue_of_def client_condition_def
      client_owner.owner_full_def client_full_def condition_ready_def split: option.split)

interpretation clients_listed: listed client_ok client_full srv_attached srv_link "\<lambda>ws p. client_condition_check_and_attach (Some p) ws"
  "\<lambda>p w. not_empty (client_condition_detach_and_queue_is_empty (Some p) w)"
  by unfold_locales
    (use client_owner.attach_run client_owner.detach_run in \<open>auto simp: client_owner_eqs ok_unattached only_detaches_def only_attaches_def\<close>)

subsection \<open>Event managers\<close>

text \<open>
  An event manager is a member of the data of a subscription, publisher, server or client.  It is never ready.  Its
  own pointer to a wait set is forgotten by \<open>unlinked\<close>, besides those that \<open>unattached\<close> forgets.
\<close>

definition event_mgr :: "rmw_mem \<Rightarrow> event_ptr \<Rightarrow> DataEventManager option" where
  "event_mgr w e = (case e of SubEvents a \<Rightarrow> map_option sub_event_mgr (sub_datas w a)
     | PubEvents a \<Rightarrow> map_option pub_event_mgr (pub_datas w a) | ServiceEvents a \<Rightarrow> map_option srv_event_mgr (service_datas w a))"

definition event_ok :: "rmw_mem \<Rightarrow> event_ptr \<Rightarrow> bool" where
  "event_ok w e \<longleftrightarrow> (\<exists>m. event_mgr w e = Some m \<and> mgr_ok m)"

definition mgr_unlinked :: "DataEventManager \<Rightarrow> DataEventManager" where
  "mgr_unlinked m = m\<lparr>ev_wait_set_data := None\<rparr>"

definition unlinked :: "rmw_mem \<Rightarrow> rmw_mem" where
  "unlinked w = (let v = unattached w in v\<lparr>
     sub_datas := \<lambda>a. map_option (\<lambda>d. d\<lparr>sub_event_mgr := mgr_unlinked (sub_event_mgr d)\<rparr>) (sub_datas v a),
     pub_datas := \<lambda>a. map_option (\<lambda>d. d\<lparr>pub_event_mgr := mgr_unlinked (pub_event_mgr d)\<rparr>) (pub_datas v a),
     service_datas := \<lambda>a. map_option (\<lambda>d. d\<lparr>srv_event_mgr := mgr_unlinked (srv_event_mgr d)\<rparr>) (service_datas v a)\<rparr>)"

definition same_links :: "rmw_mem \<Rightarrow> rmw_mem \<Rightarrow> bool" where
  "same_links w w' \<longleftrightarrow> sub_link w' = sub_link w \<and> srv_link w' = srv_link w \<and> guards w' = guards w"

lemma unlinked_cong: "unattached w' = unattached w \<Longrightarrow> unlinked w' = unlinked w"
  by (simp add: unlinked_def)

lemma same_links_guards: "same_links w w' \<Longrightarrow> guard_link w' = guard_link w"
  by (simp add: same_links_def guard_link_def [abs_def])

lemma same_links_attaches: "same_links w w' \<Longrightarrow> only_attaches ws w w'"
  using same_links_guards [of w w'] by (simp add: same_links_def only_attaches_def)

lemma same_links_trans: "same_links w w' \<Longrightarrow> same_links w' w'' \<Longrightarrow> same_links w w''"
  by (simp add: same_links_def)

lemma ok_unlinked:
  "guard_ok (unlinked w) = guard_ok w" "sub_ok (unlinked w) = sub_ok w" "service_ok (unlinked w) = service_ok w"
  "client_ok (unlinked w) = client_ok w" "guard_raised (unlinked w) = guard_raised w" "sub_full (unlinked w) = sub_full w"
  "service_full (unlinked w) = service_full w" "client_full (unlinked w) = client_full w"
proof -
  obtain v where v: "v = unattached w" by blast
  have s: "sub_datas (unlinked w) a = map_option (\<lambda>d. d\<lparr>sub_event_mgr := mgr_unlinked (sub_event_mgr d)\<rparr>) (sub_datas v a)"
    "service_datas (unlinked w) a = map_option (\<lambda>d. d\<lparr>srv_event_mgr := mgr_unlinked (srv_event_mgr d)\<rparr>) (service_datas v a)"
    "msgs (unlinked w) = msgs v" "guards (unlinked w) = guards v" for a
    by (simp_all add: unlinked_def Let_def v)
  have "guard_ok (unlinked w) = guard_ok v" "sub_ok (unlinked w) = sub_ok v" "service_ok (unlinked w) = service_ok v"
    "client_ok (unlinked w) = client_ok v" "guard_raised (unlinked w) = guard_raised v" "sub_full (unlinked w) = sub_full v"
    "service_full (unlinked w) = service_full v" "client_full (unlinked w) = client_full v"
    by (auto simp: fun_eq_iff guard_ok_def sub_ok_def service_ok_def client_ok_def guard_raised_def
        sub_full_def service_full_def client_full_def s split: option.split guard_ptr.split)
  then  show "guard_ok (unlinked w) = guard_ok w" "sub_ok (unlinked w) = sub_ok w" "service_ok (unlinked w) = service_ok w"
    "client_ok (unlinked w) = client_ok w" "guard_raised (unlinked w) = guard_raised w" "sub_full (unlinked w) = sub_full w"
    "service_full (unlinked w) = service_full w" "client_full (unlinked w) = client_full w"
    by (simp_all add: v fun_eq_iff ok_unattached)
qed

lemma event_ok_unlinked: "event_ok (unlinked w) = event_ok w"
  by (auto simp: fun_eq_iff event_ok_def event_mgr_def unlinked_def unattached_def mgr_unlinked_def mgr_ok_def Let_def split: event_ptr.split)

lemma event_write:
  assumes "event_mgr w e = Some m" and "f m = Inr (r, m\<lparr>ev_wait_set_data := p\<rparr>)"
  shows "\<exists>w'. on_event e w f = Inr (r, w') \<and> unlinked w' = unlinked w \<and> same_links w w'"
proof (cases e)
  case (SubEvents a)
  then obtain d where d: "sub_datas w a = Some d" "m = sub_event_mgr d" using assms(1) by (auto simp: event_mgr_def)
  then show ?thesis using SubEvents assms(2)
    by (auto simp: on_event_def unlinked_def unattached_def mgr_unlinked_def same_links_def link_defs Let_def fun_eq_iff intro!: rmw_mem.equality)
next
  case (PubEvents a)
  then obtain d where d: "pub_datas w a = Some d" "m = pub_event_mgr d" using assms(1) by (auto simp: event_mgr_def)
  then show ?thesis using PubEvents assms(2)
    by (auto simp: on_event_def unlinked_def unattached_def mgr_unlinked_def same_links_def link_defs Let_def fun_eq_iff intro!: rmw_mem.equality)
next
  case (ServiceEvents a)
  then obtain d where d: "service_datas w a = Some d" "m = srv_event_mgr d" using assms(1) by (auto simp: event_mgr_def)
  then show ?thesis using ServiceEvents assms(2)
    by (auto simp: on_event_def unlinked_def unattached_def mgr_unlinked_def same_links_def link_defs Let_def fun_eq_iff intro!: rmw_mem.equality)
qed

lemma event_attach_loop:
  assumes "\<And>e. Some e \<in> set es \<Longrightarrow> event_ok w e"
  shows "\<exists>w'. attach_loop (\<lambda>p w. on_event p w (event_condition_check_and_attach ws)) es w = Inr (False, w') \<and>
    unlinked w' = unlinked w \<and> same_links w w'"
  using assms
proof (induction es arbitrary: w)
  case Nil
  then show ?case by (simp add: same_links_def)
next
  case (Cons x es)
  show ?case
  proof (cases x)
    case None
    then show ?thesis using Cons by simp
  next
    case (Some e)
    then obtain m where m: "event_mgr w e = Some m" "mgr_ok m" using Cons.prems [of e] by (auto simp: event_ok_def)
    obtain w1 where w1: "on_event e w (event_condition_check_and_attach ws) = Inr (False, w1)" "unlinked w1 = unlinked w" "same_links w w1"
      using event_write [where f = "event_condition_check_and_attach ws", OF m(1) event_attach [OF m(2)]] by blast
    have "event_ok w1 = event_ok w" using event_ok_unlinked [of w1] event_ok_unlinked [of w] w1(2) by simp
    then obtain w' where "attach_loop (\<lambda>p w. on_event p w (event_condition_check_and_attach ws)) es w1 = Inr (False, w')"
      "unlinked w' = unlinked w1" "same_links w1 w'"
      using Cons.IH [of w1] Cons.prems by auto
    then show ?thesis using Some w1 same_links_trans [OF w1(3)] by simp
  qed
qed

lemma attach_events_run:
  assumes "all_listed (event_ok w) arr"
  shows "\<exists>w'. attach_array (\<lambda>p w. on_event p w (event_condition_check_and_attach ws)) arr w = Inr (False, w') \<and>
    unlinked w' = unlinked w \<and> same_links w w' \<and> (arr = None \<longrightarrow> w' = w)"
proof (cases arr)
  case None
  then show ?thesis by (simp add: attach_array_def same_links_def)
next
  case (Some es)
  then show ?thesis using event_attach_loop [of es w ws] assms by (simp add: attach_array_def all_listed_def)
qed


subsection \<open>All arrays\<close>

definition arrays_ok :: "wait_arrays \<Rightarrow> rmw_mem \<Rightarrow> bool" where
  "arrays_ok a w \<longleftrightarrow> all_listed (event_ok w) (wa_events a) \<and> all_listed (guard_ok w) (wa_guard_conditions a) \<and> all_listed (sub_ok w) (wa_subscriptions a) \<and>
     all_listed (service_ok w) (wa_services a) \<and> all_listed (client_ok w) (wa_clients a)"

definition arrays_ready :: "wait_arrays \<Rightarrow> rmw_mem \<Rightarrow> bool" where
  "arrays_ready a w \<longleftrightarrow> any_listed (guard_raised w) (wa_guard_conditions a) \<or> any_listed (sub_full w) (wa_subscriptions a) \<or>
     any_listed (service_full w) (wa_services a) \<or> any_listed (client_full w) (wa_clients a)"

definition ready_arrays :: "wait_arrays \<Rightarrow> rmw_mem \<Rightarrow> wait_arrays" where
  "ready_arrays a w = a\<lparr>wa_guard_conditions := map_option (keep_if (guard_raised w)) (wa_guard_conditions a),
     wa_subscriptions := map_option (keep_if (sub_full w)) (wa_subscriptions a),
     wa_services := map_option (keep_if (service_full w)) (wa_services a),
     wa_clients := map_option (keep_if (client_full w)) (wa_clients a)\<rparr>"

definition arrays_detached :: "wait_arrays \<Rightarrow> rmw_mem \<Rightarrow> bool" where
  "arrays_detached a w \<longleftrightarrow> all_listed (\<lambda>p. \<not> guard_attached w p) (wa_guard_conditions a) \<and>
     all_listed (\<lambda>p. \<not> sub_attached w p) (wa_subscriptions a) \<and> all_listed (\<lambda>p. \<not> srv_attached w p) (wa_services a) \<and>
     all_listed (\<lambda>p. \<not> srv_attached w p) (wa_clients a)"

definition arrays_linked :: "wait_arrays \<Rightarrow> addr option \<Rightarrow> rmw_mem \<Rightarrow> bool" where
  "arrays_linked a ws w \<longleftrightarrow> all_listed (\<lambda>p. guard_link w p = ws) (wa_guard_conditions a) \<and>
     all_listed (\<lambda>p. sub_link w p = ws) (wa_subscriptions a) \<and> all_listed (\<lambda>p. srv_link w p = ws) (wa_services a) \<and>
     all_listed (\<lambda>p. srv_link w p = ws) (wa_clients a)"

lemma listed_same:
  assumes "unlinked w' = unlinked w"
  shows "event_ok w' = event_ok w" "guard_ok w' = guard_ok w" "sub_ok w' = sub_ok w" "service_ok w' = service_ok w" "client_ok w' = client_ok w"
    "guard_raised w' = guard_raised w" "sub_full w' = sub_full w" "service_full w' = service_full w" "client_full w' = client_full w"
  using event_ok_unlinked [of w] event_ok_unlinked [of w'] ok_unlinked [of w] ok_unlinked [of w'] by (simp_all add: assms)

lemma arrays_same:
  assumes "unlinked w' = unlinked w"
  shows "arrays_ok a w' = arrays_ok a w" "arrays_ready a w' = arrays_ready a w" "ready_arrays a w' = ready_arrays a w"
    "wait_sets w' = wait_sets w"
proof -
  show "arrays_ok a w' = arrays_ok a w" "arrays_ready a w' = arrays_ready a w" "ready_arrays a w' = ready_arrays a w"
    by (simp_all add: arrays_ok_def arrays_ready_def ready_arrays_def listed_same [OF assms])
  show "wait_sets w' = wait_sets w" using arg_cong [where f = wait_sets, OF assms] by (simp add: unlinked_def unattached_def Let_def)
qed

lemma check_and_attach_run:
  assumes "arrays_ok a w"
  shows "\<exists>w'. check_and_attach_condition (wa_subscriptions a) (wa_guard_conditions a) (wa_services a) (wa_clients a) (wa_events a) ws w =
      Inr (arrays_ready a w, w') \<and> unlinked w' = unlinked w \<and> (wa_events a = None \<longrightarrow> unattached w' = unattached w) \<and>
    (ws \<noteq> None \<and> \<not> arrays_ready a w \<longrightarrow> arrays_linked a ws w')"
proof -
  let ?g = "any_listed (guard_raised w) (wa_guard_conditions a)" and ?s = "any_listed (sub_full w) (wa_subscriptions a)"
    and ?v = "any_listed (service_full w) (wa_services a)" and ?c = "any_listed (client_full w) (wa_clients a)"
  obtain w0 where 0: "attach_array (\<lambda>p. guard_condition_check_and_attach (Some p) ws) (wa_guard_conditions a) w = Inr (?g, w0)"
    "unattached w0 = unattached w" "ws \<noteq> None \<and> \<not> ?g \<longrightarrow> all_listed (\<lambda>p. guard_link w0 p = ws) (wa_guard_conditions a)"
    using guards_listed.attach_array_run [of w "wa_guard_conditions a" ws] assms(1) by (auto simp: arrays_ok_def)
  have u0: "unlinked w0 = unlinked w" using 0(2) by (rule unlinked_cong)
  obtain w1 where 1: "attach_array (\<lambda>p w. on_event p w (event_condition_check_and_attach ws)) (wa_events a) w0 = Inr (False, w1)"
    "unlinked w1 = unlinked w" "same_links w0 w1" "wa_events a = None \<longrightarrow> w1 = w0"
    using attach_events_run [of w0 "wa_events a" ws] assms(1) by (auto simp: arrays_ok_def listed_same [OF u0] u0)
  have e1: "wa_events a = None \<longrightarrow> unattached w1 = unattached w" using 1(4) 0(2) by simp
  obtain w2 where 2: "attach_array (\<lambda>p. subscription_condition_check_and_attach (Some p) ws) (wa_subscriptions a) w1 = Inr (?s, w2)"
    "unattached w2 = unattached w1" "only_attaches ws w1 w2"
    "ws \<noteq> None \<and> \<not> ?s \<longrightarrow> all_listed (\<lambda>p. sub_link w2 p = ws) (wa_subscriptions a)"
    using subs_listed.attach_array_run [of w1 "wa_subscriptions a" ws] assms(1) by (auto simp: arrays_ok_def listed_same [OF 1(2)])
  have u2: "unlinked w2 = unlinked w" using unlinked_cong [OF 2(2)] 1(2) by simp
  obtain w3 where 3: "attach_array (\<lambda>p. service_condition_check_and_attach (Some p) ws) (wa_services a) w2 = Inr (?v, w3)"
    "unattached w3 = unattached w2" "only_attaches ws w2 w3"
    "ws \<noteq> None \<and> \<not> ?v \<longrightarrow> all_listed (\<lambda>p. srv_link w3 p = ws) (wa_services a)"
    using services_listed.attach_array_run [of w2 "wa_services a" ws] assms(1) by (auto simp: arrays_ok_def listed_same [OF u2])
  have u3: "unlinked w3 = unlinked w" using unlinked_cong [OF 3(2)] u2 by simp
  obtain w4 where 4: "attach_array (\<lambda>p. client_condition_check_and_attach (Some p) ws) (wa_clients a) w3 = Inr (?c, w4)"
    "unattached w4 = unattached w3" "only_attaches ws w3 w4"
    "ws \<noteq> None \<and> \<not> ?c \<longrightarrow> all_listed (\<lambda>p. srv_link w4 p = ws) (wa_clients a)"
    using clients_listed.attach_array_run [of w3 "wa_clients a" ws] assms(1) by (auto simp: arrays_ok_def listed_same [OF u3])
  have u4: "unlinked w4 = unlinked w" using unlinked_cong [OF 4(2)] u3 by simp
  have t: "only_attaches ws w0 w4" "only_attaches ws w2 w4" "only_attaches ws w3 w4"
    using same_links_attaches [OF 1(3)] 2(3) 3(3) 4(3) only_attaches_trans by blast+
  have l: "ws \<noteq> None \<and> \<not> arrays_ready a w \<longrightarrow> arrays_linked a ws w4"
    using 0(3) 2(4) 3(4) 4(4) guards_listed.still_linked [OF t(1)] subs_listed.still_linked [OF t(2)] services_listed.still_linked [OF t(3)]
    by (simp add: arrays_ready_def arrays_linked_def)
  show ?thesis
  proof (cases "?g \<or> ?s \<or> ?v")
    case True
    then show ?thesis
      using 0(1,2) 1(1) 2(1,2) 3(1,2) e1 u0 u2 u3
      by (cases ?g; cases ?s) (simp_all add: check_and_attach_condition_def arrays_ready_def)
  next
    case False
    then show ?thesis
      using 0(1) 1(1) 2(1,2) 3(1,2) 4(1,2) e1 u4 l by (simp add: check_and_attach_condition_def arrays_ready_def)
  qed
qed

lemma wait_detach_run:
  assumes "arrays_ok a w" and "wa_events a = None"
  shows "\<exists>w'. wait_detach a w = Inr (if arrays_ready a w then RMW_RET_OK else RMW_RET_TIMEOUT, ready_arrays a w, w') \<and>
    only_detaches w w' \<and> arrays_detached a w'"
proof -
  obtain w1 where 1: "detach_array (\<lambda>p. guard_condition_detach_and_is_trigger_set (Some p)) (wa_guard_conditions a) False w =
      Inr (map_option (keep_if (guard_raised w)) (wa_guard_conditions a), False \<or> any_listed (guard_raised w) (wa_guard_conditions a), w1)"
    "only_detaches w w1" "all_listed (\<lambda>p. \<not> guard_attached w1 p) (wa_guard_conditions a)"
    using guards_listed.detach_array_run [of w "wa_guard_conditions a" False] assms(1) by (auto simp: arrays_ok_def)
  let ?r1 = "False \<or> any_listed (guard_raised w) (wa_guard_conditions a)"
  have u1: "unattached w1 = unattached w" using 1(2) by (simp add: only_detaches_def)
  obtain w2 where 2: "detach_array (\<lambda>p w. not_empty (subscription_condition_detach_and_queue_is_empty (Some p) w)) (wa_subscriptions a) ?r1 w1 =
      Inr (map_option (keep_if (sub_full w)) (wa_subscriptions a), ?r1 \<or> any_listed (sub_full w) (wa_subscriptions a), w2)"
    "only_detaches w1 w2" "all_listed (\<lambda>p. \<not> sub_attached w2 p) (wa_subscriptions a)"
    using subs_listed.detach_array_run [of w1 "wa_subscriptions a" ?r1] assms(1) by (auto simp: arrays_ok_def listed_same [OF unlinked_cong [OF u1]])
  let ?r2 = "?r1 \<or> any_listed (sub_full w) (wa_subscriptions a)"
  have u2: "unattached w2 = unattached w" using 2(2) u1 by (simp add: only_detaches_def)
  obtain w3 where 3: "detach_array (\<lambda>p w. not_empty (service_condition_detach_and_queue_is_empty (Some p) w)) (wa_services a) ?r2 w2 =
      Inr (map_option (keep_if (service_full w)) (wa_services a), ?r2 \<or> any_listed (service_full w) (wa_services a), w3)"
    "only_detaches w2 w3" "all_listed (\<lambda>p. \<not> srv_attached w3 p) (wa_services a)"
    using services_listed.detach_array_run [of w2 "wa_services a" ?r2] assms(1) by (auto simp: arrays_ok_def listed_same [OF unlinked_cong [OF u2]])
  let ?r3 = "?r2 \<or> any_listed (service_full w) (wa_services a)"
  have u3: "unattached w3 = unattached w" using 3(2) u2 by (simp add: only_detaches_def)
  obtain w4 where 4: "detach_array (\<lambda>p w. not_empty (client_condition_detach_and_queue_is_empty (Some p) w)) (wa_clients a) ?r3 w3 =
      Inr (map_option (keep_if (client_full w)) (wa_clients a), ?r3 \<or> any_listed (client_full w) (wa_clients a), w4)"
    "only_detaches w3 w4" "all_listed (\<lambda>p. \<not> srv_attached w4 p) (wa_clients a)"
    using clients_listed.detach_array_run [of w3 "wa_clients a" ?r3] assms(1) by (auto simp: arrays_ok_def listed_same [OF unlinked_cong [OF u3]])
  have t: "only_detaches w1 w4" "only_detaches w2 w4" "only_detaches w w4"
    using 1(2) 2(2) 3(2) 4(2) only_detaches_trans by blast+
  have "arrays_detached a w4"
    using guards_listed.still_detached [OF t(1) 1(3)] subs_listed.still_detached [OF t(2) 2(3)]
      services_listed.still_detached [OF 4(2) 3(3)] 4(3) by (simp add: arrays_detached_def)
  then show ?thesis
    using 1(1) 2(1) 3(1) 4(1) t(3) assms(2)
    by (simp add: wait_detach_def detach_events_def arrays_ready_def ready_arrays_def Let_def disj_assoc)
qed

subsection \<open>Sleeping\<close>

text \<open>
  Between two steps of other threads the listed objects are in order and the wait set is alive and not locked.
  \<open>stays_ready\<close> follows the actions of the other threads from a state: each of them returns and keeps it so.
\<close>

definition can_wait :: "wait_arrays \<Rightarrow> addr \<Rightarrow> rmw_mem \<Rightarrow> bool" where
  "can_wait a x w \<longleftrightarrow> arrays_ok a w \<and> (\<exists>s. ws_idle w x s)"

fun stays_ready :: "wait_arrays \<Rightarrow> addr \<Rightarrow> action list \<Rightarrow> rmw_mem \<Rightarrow> bool" where
  "stays_ready a x [] w \<longleftrightarrow> can_wait a x w"
| "stays_ready a x (act # acts) w \<longleftrightarrow> can_wait a x w \<and> (\<exists>w'. act w = Inr w' \<and> stays_ready a x acts w')"

definition clock_tick :: action where
  "clock_tick w = Inr (w\<lparr>ticks := Suc (ticks w)\<rparr>)"

definition clock_reads :: "rmw_time_t option \<Rightarrow> action list" where
  "clock_reads timeout = (case timeout of None \<Rightarrow> [] | Some t \<Rightarrow> if sec t \<noteq> 0 \<or> nsec t \<noteq> 0 then [clock_tick] else [])"

definition others_behave :: "wait_arrays \<Rightarrow> addr \<Rightarrow> rmw_time_t option \<Rightarrow> action list \<Rightarrow> action list \<Rightarrow> rmw_mem \<Rightarrow> bool" where
  "others_behave a x timeout between asleep w \<longleftrightarrow>
     (\<forall>w1. check_and_attach_condition (wa_subscriptions a) (wa_guard_conditions a) (wa_services a) (wa_clients a) (wa_events a)
        (Some x) w = Inr (False, w1) \<longrightarrow> stays_ready a x (between @ clock_reads timeout @ asleep) w1)"

lemma arrays_frame [simp]:
  "arrays_ok a (w\<lparr>wait_sets := h\<rparr>) = arrays_ok a w" "arrays_ok a (w\<lparr>ticks := n\<rparr>) = arrays_ok a w"
  by (simp_all add: arrays_ok_def all_listed_def guard_ok_def sub_ok_def service_ok_def client_ok_def event_ok_def event_mgr_def
      split: option.split event_ptr.split)

lemma stays_can: "stays_ready a x acts w \<Longrightarrow> can_wait a x w"
  by (cases acts) auto

lemma run_actions_stays: "stays_ready a x (xs @ ys) w \<Longrightarrow> \<exists>w'. run_actions xs w = Inr w' \<and> stays_ready a x ys w'"
  by (induction xs arbitrary: w) auto

lemma timed_wait_stays: "stays_ready a x acts w \<Longrightarrow> \<exists>w'. timed_wait n acts (Some x) w = Inr w' \<and> can_wait a x w'"
proof (induction acts arbitrary: w)
  case (Cons act acts)
  then obtain w1 where w1: "act w = Inr w1" "stays_ready a x acts w1" by auto
  then obtain s where "wait_sets w1 x = Some s" using stays_can [OF w1(2)] by (auto simp: can_wait_def ws_idle_def)
  then show ?case using Cons.IH [OF w1(2)] stays_can [OF w1(2)] w1(1) by auto
qed simp

lemma wait_triggered_stays:
  "stays_ready a x acts w \<Longrightarrow>
     wait_triggered n acts (Some x) w = Inl Blocked \<or> (\<exists>w'. wait_triggered n acts (Some x) w = Inr w' \<and> can_wait a x w')"
proof (induction acts arbitrary: w n)
  case (Cons act acts)
  then obtain w1 where w1: "act w = Inr w1" "stays_ready a x acts w1" by auto
  then obtain s where s: "wait_sets w1 x = Some s" using stays_can [OF w1(2)] by (auto simp: can_wait_def ws_idle_def)
  have "wait_triggered m acts (Some x) w1 = Inl Blocked \<or> (\<exists>w'. wait_triggered m acts (Some x) w1 = Inr w' \<and> can_wait a x w')" for m
    using Cons.IH [OF w1(2)] .
  then show ?case using w1 s stays_can [OF w1(2)] by simp
qed simp

text \<open>\<open>wait_sleep\<close> without its locking.\<close>

definition sleep_part :: "rmw_time_t option \<Rightarrow> action list \<Rightarrow> addr \<Rightarrow> ZenohPicoWaitSetData \<Rightarrow> rmw_mem \<Rightarrow> rmw_mem res" where
  "sleep_part timeout others x s w = (case timeout of
      None \<Rightarrow> if ws_triggered s then Inr w else wait_triggered (condition_variable s) others (Some x) w
    | Some t \<Rightarrow> if sec t \<noteq> 0 \<or> nsec t \<noteq> 0 then timed_wait (condition_variable s) others (Some x) (w\<lparr>ticks := Suc (ticks w)\<rparr>)
        else Inr w)"

lemma wait_sleep_eq:
  assumes "ws_idle w x s"
  shows "wait_sleep timeout others (Some x) w = andthen (sleep_part timeout others x s w) (\<lambda>w.
    andthen (wait_condition_lock (Some x) w) (\<lambda>w. andthen (wait_condition_triggered (Some x) False w) (wait_condition_unlock (Some x))))"
proof -
  have s: "wait_sets w x = Some s" "ws_condition_mutex s = Unlocked" using assms by (simp_all add: ws_idle_def)
  have "s\<lparr>ws_condition_mutex := Unlocked\<rparr> = s" using s(2) by (cases s) simp
  then have "w\<lparr>ticks := n, wait_sets := (wait_sets w)(x \<mapsto> s\<lparr>ws_condition_mutex := Unlocked\<rparr>)\<rparr> = w\<lparr>ticks := n\<rparr>"
    "w\<lparr>wait_sets := (wait_sets w)(x \<mapsto> s\<lparr>ws_condition_mutex := Unlocked\<rparr>)\<rparr> = w" for n
    using s(1) by (simp_all add: fun_upd_idem)
  then show ?thesis
    using s by (simp add: wait_sleep_def wait_set_ops sleep_part_def clock_gettime_def andthen_assoc split: option.split)
qed

lemma wake_up:
  assumes "ws_idle w x s"
  shows "andthen (wait_condition_lock (Some x) w) (\<lambda>w. andthen (wait_condition_triggered (Some x) False w) (wait_condition_unlock (Some x))) =
    Inr (w\<lparr>wait_sets := (wait_sets w)(x \<mapsto> s\<lparr>ws_triggered := False\<rparr>)\<rparr>)"
  using assms by (cases s) (simp add: ws_idle_def wait_set_ops)

lemma wait_sleep_stays:
  assumes "stays_ready a x (clock_reads timeout @ acts) w"
  shows "timeout = None \<and> wait_sleep timeout acts (Some x) w = Inl Blocked \<or>
    (\<exists>w'. wait_sleep timeout acts (Some x) w = Inr w' \<and> can_wait a x w')"
proof -
  obtain s where s: "ws_idle w x s" using stays_can [OF assms] by (auto simp: can_wait_def)
  have part: "timeout = None \<and> sleep_part timeout acts x s w = Inl Blocked \<or>
      (\<exists>w'. sleep_part timeout acts x s w = Inr w' \<and> can_wait a x w')"
  proof (cases "clock_reads timeout")
    case Nil
    then have st: "stays_ready a x acts w" using assms by simp
    from Nil have "timeout = None \<or> sleep_part timeout acts x s w = Inr w"
      by (auto simp: sleep_part_def clock_reads_def split: option.splits if_splits)
    then show ?thesis
    proof
      assume "timeout = None"
      then show ?thesis
        using wait_triggered_stays [OF st, of "condition_variable s"] stays_can [OF st] by (simp add: sleep_part_def)
    qed (use stays_can [OF st] in blast)
  next
    case (Cons c cs)
    then obtain t where t: "timeout = Some t" "sec t \<noteq> 0 \<or> nsec t \<noteq> 0" "clock_reads timeout = [clock_tick]"
      by (auto simp: clock_reads_def split: option.splits if_splits)
    then have "stays_ready a x acts (w\<lparr>ticks := Suc (ticks w)\<rparr>)" using assms by (simp add: clock_tick_def)
    then show ?thesis using timed_wait_stays [of a x acts _ "condition_variable s"] t(1,2) by (simp add: sleep_part_def)
  qed
  have "\<exists>w''. andthen (wait_condition_lock (Some x) w') (\<lambda>w. andthen (wait_condition_triggered (Some x) False w)
      (wait_condition_unlock (Some x))) = Inr w'' \<and> can_wait a x w''" if w': "can_wait a x w'" for w'
  proof -
    obtain s' where s': "ws_idle w' x s'" using w' by (auto simp: can_wait_def)
    show ?thesis unfolding wake_up [OF s'] using w' s' by (auto simp: can_wait_def ws_idle_def)
  qed
  then show ?thesis using part unfolding wait_sleep_eq [OF s] by fastforce
qed

text \<open>
  Other threads that leave the pointers from subscriptions, servers and clients to wait sets alone.  What the sleeping thread itself does to memory leaves them alone too.
\<close>

definition keeps_links :: "action \<Rightarrow> bool" where
  "keeps_links act \<longleftrightarrow> (\<forall>w w'. act w = Inr w' \<longrightarrow> sub_link w' = sub_link w \<and> srv_link w' = srv_link w)"

lemma keeps_links_frame [simp]:
  "sub_link (w\<lparr>wait_sets := h\<rparr>) = sub_link w" "srv_link (w\<lparr>wait_sets := h\<rparr>) = srv_link w"
  "sub_link (w\<lparr>ticks := n\<rparr>) = sub_link w" "srv_link (w\<lparr>ticks := n\<rparr>) = srv_link w"
  by (simp_all add: link_defs fun_eq_iff)

definition links :: "rmw_mem \<Rightarrow> (addr \<Rightarrow> addr option) \<times> (addr \<Rightarrow> addr option)" where
  "links w = (sub_link w, srv_link w)"

lemma keeps_linksD: "keeps_links act \<Longrightarrow> act w = Inr w' \<Longrightarrow> links w' = links w"
  by (simp add: keeps_links_def links_def)

lemma links_frame [simp]: "links (w\<lparr>wait_sets := h\<rparr>) = links w" "links (w\<lparr>ticks := n\<rparr>) = links w"
  by (simp_all add: links_def)

lemma run_actions_links:
  "run_actions acts w = Inr w' \<Longrightarrow> \<forall>act \<in> set acts. keeps_links act \<Longrightarrow> links w' = links w"
proof (induction acts arbitrary: w)
  case (Cons act acts)
  then obtain w1 where "act w = Inr w1" "run_actions acts w1 = Inr w'" by (auto simp: andthen_eq_Inr)
  then show ?case using Cons.IH [of w1] Cons.prems(2) keeps_linksD [of act w w1] by simp
qed simp

lemma timed_wait_links:
  "timed_wait n acts p w = Inr w' \<Longrightarrow> \<forall>act \<in> set acts. keeps_links act \<Longrightarrow> links w' = links w"
proof (induction acts arbitrary: w)
  case (Cons act acts)
  then obtain w1 and s :: ZenohPicoWaitSetData where 1: "act w = Inr w1" "(if condition_variable s = n then timed_wait n acts p w1 else Inr w1) = Inr w'"
    unfolding timed_wait.simps andthen_eq_Inr by blast
  have "links w' = links w1" using 1(2) Cons.IH [of w1] Cons.prems(2) by (simp split: if_splits)
  then show ?case using Cons.prems(2) keeps_linksD [where act = act, OF _ 1(1)] by simp
qed simp

lemma wait_triggered_links:
  "wait_triggered n acts p w = Inr w' \<Longrightarrow> \<forall>act \<in> set acts. keeps_links act \<Longrightarrow> links w' = links w"
proof (induction acts arbitrary: w n)
  case (Cons act acts)
  then obtain w1 and s :: ZenohPicoWaitSetData where 1: "act w = Inr w1" "(if condition_variable s = n then wait_triggered n acts p w1
      else if ws_triggered s then Inr w1 else wait_triggered (condition_variable s) acts p w1) = Inr w'"
    unfolding wait_triggered.simps andthen_eq_Inr by blast
  have "links w' = links w1" using 1(2) Cons.IH [of _ w1] Cons.prems(2) by (simp split: if_splits)
  then show ?case using Cons.prems(2) keeps_linksD [where act = act, OF _ 1(1)] by simp
qed simp

lemma on_wait_set_links: "on_wait_set p w f = Inr w' \<Longrightarrow> links w' = links w"
  by (auto simp: on_wait_set_def andthen_eq_Inr)

lemma wait_sleep_links:
  assumes "wait_sleep timeout acts (Some x) w = Inr w'" and "ws_idle w x s" and "\<forall>act \<in> set acts. keeps_links act"
  shows "links w' = links w"
proof -
  obtain v v1 v2 where v: "sleep_part timeout acts x s w = Inr v" "wait_condition_lock (Some x) v = Inr v1"
    "wait_condition_triggered (Some x) False v1 = Inr v2" "wait_condition_unlock (Some x) v2 = Inr w'"
    using assms(1) unfolding wait_sleep_eq [OF assms(2)] by (auto simp: andthen_eq_Inr)
  have "links v = links w"
    using v(1) wait_triggered_links [OF _ assms(3)] timed_wait_links [OF _ assms(3), of _ _ "w\<lparr>ticks := Suc (ticks w)\<rparr>"]
    by (auto simp: sleep_part_def split: option.splits if_splits)
  moreover have "links v1 = links v" "links v2 = links v1" "links w' = links v2"
    using v(2-4) unfolding wait_condition_lock_def wait_condition_triggered_def wait_condition_unlock_def
    by (blast intro: on_wait_set_links)+
  ultimately show ?thesis by simp
qed

text \<open>
  \<open>rmw_wait\<close> up to the moment when the thread is awake again: \<open>w1\<close> is the state after attaching and \<open>w2\<close> the one
  from which it detaches.
\<close>

lemma rmw_wait_wakes:
  assumes "data s = Some x" "identifiers_match (implementation_identifier s)" and "can_wait a x w"
    and "others_behave a x timeout between asleep w"
  shows "timeout = None \<and> rmw_wait a (Some s) timeout between asleep w = Inl Blocked \<or>
    (\<exists>w1 w2. rmw_wait a (Some s) timeout between asleep w = wait_detach a w2 \<and> can_wait a x w2 \<and>
      (wa_events a = None \<longrightarrow> unattached w1 = unattached w) \<and> (arrays_ready a w \<longrightarrow> w2 = w1) \<and>
      (\<not> arrays_ready a w \<longrightarrow> arrays_linked a (Some x) w1) \<and>
      (\<not> arrays_ready a w \<and> (\<forall>act \<in> set (between @ asleep). keeps_links act) \<longrightarrow> links w2 = links w1))"
proof -
  have ok: "arrays_ok a w" using assms(3) by (simp add: can_wait_def)
  obtain w1 where w1: "check_and_attach_condition (wa_subscriptions a) (wa_guard_conditions a) (wa_services a) (wa_clients a)
      (wa_events a) (Some x) w = Inr (arrays_ready a w, w1)" "unlinked w1 = unlinked w"
    "wa_events a = None \<longrightarrow> unattached w1 = unattached w" "\<not> arrays_ready a w \<longrightarrow> arrays_linked a (Some x) w1"
    using check_and_attach_run [OF ok, of "Some x"] by (elim exE conjE) (rule that, simp_all)
  have c1: "can_wait a x w1" using assms(3) arrays_same [OF w1(2)] by (simp add: can_wait_def ws_idle_def)
  let ?sleep = "if \<not> arrays_ready a w then andthen (run_actions between w1) (wait_sleep timeout asleep (Some x)) else Inr w1"
  have run: "rmw_wait a (Some s) timeout between asleep w = andthen ?sleep (wait_detach a)"
    using assms(1,2) w1(1) by (simp add: rmw_wait_def)
  show ?thesis
  proof (cases "arrays_ready a w")
    case True
    then show ?thesis using run c1 w1(3) by auto
  next
    case False
    then have "stays_ready a x (between @ clock_reads timeout @ asleep) w1" using assms(4) w1(1) by (simp add: others_behave_def)
    then obtain wb where b: "run_actions between w1 = Inr wb" "stays_ready a x (clock_reads timeout @ asleep) wb"
      using run_actions_stays by blast
    obtain sb where sb: "ws_idle wb x sb" using stays_can [OF b(2)] by (auto simp: can_wait_def)
    have r: "rmw_wait a (Some s) timeout between asleep w = andthen (wait_sleep timeout asleep (Some x) wb) (wait_detach a)"
      unfolding run using False b(1) by simp
    have l: "links w2 = links w1"
      if "wait_sleep timeout asleep (Some x) wb = Inr w2" "\<forall>act \<in> set (between @ asleep). keeps_links act" for w2
      using run_actions_links [OF b(1)] wait_sleep_links [OF that(1) sb] that(2) by simp
    from wait_sleep_stays [OF b(2)] show ?thesis
    proof (elim disjE exE conjE)
      fix w2 assume w2: "wait_sleep timeout asleep (Some x) wb = Inr w2" "can_wait a x w2"
      then have "rmw_wait a (Some s) timeout between asleep w = wait_detach a w2" unfolding r by simp
      then show ?thesis
        using False w2(2) w1(3,4) l [OF w2(1)] by - (rule disjI2, rule exI [of _ w1], rule exI [of _ w2], intro conjI impI, simp_all)
    next
      assume b: "timeout = None" "wait_sleep timeout asleep (Some x) wb = Inl Blocked"
      then have "rmw_wait a (Some s) timeout between asleep w = Inl Blocked" unfolding r by simp
      then show ?thesis using b(1) by blast
    qed
  qed
qed

text \<open>
  C14: What rmw_wait reports. For live, unlocked objects and a wait set of this implementation, and other threads
  whose actions before and during the sleep keep them so, rmw_wait without events either sleeps for ever, which only
  happens without a timeout, or returns without a fault. Then its arrays keep exactly the objects that are ready at the end,
  in their places, with null pointers for the others; the answer is OK when there is a ready object and TIMEOUT
  otherwise; and no listed object points to the wait set any more. When an object is ready at the start nothing else changes.
\<close>

theorem wait_reports_ready:
  assumes "data s = Some x" "identifiers_match (implementation_identifier s)" and "wa_events a = None" and "can_wait a x w"
    and "others_behave a x timeout between asleep w"
  shows "timeout = None \<and> rmw_wait a (Some s) timeout between asleep w = Inl Blocked \<or>
    (\<exists>w'. rmw_wait a (Some s) timeout between asleep w =
        Inr (if arrays_ready a w' then RMW_RET_OK else RMW_RET_TIMEOUT, ready_arrays a w', w') \<and> arrays_detached a w' \<and>
      (arrays_ready a w \<longrightarrow> unattached w' = unattached w))"
  using rmw_wait_wakes [OF assms(1,2,4,5)]
proof (elim disjE exE conjE)
  fix w1 w2
  assume w2: "rmw_wait a (Some s) timeout between asleep w = wait_detach a w2" "can_wait a x w2"
    and w1: "wa_events a = None \<longrightarrow> unattached w1 = unattached w" "arrays_ready a w \<longrightarrow> w2 = w1"
  have ok: "arrays_ok a w2" using w2(2) by (simp add: can_wait_def)
  obtain w' where w': "wait_detach a w2 = Inr (if arrays_ready a w2 then RMW_RET_OK else RMW_RET_TIMEOUT, ready_arrays a w2, w')"
    "only_detaches w2 w'" "arrays_detached a w'"
    using wait_detach_run [OF ok assms(3)] by blast
  have u: "unattached w' = unattached w2" using w'(2) by (simp add: only_detaches_def)
  have "arrays_ready a w \<Longrightarrow> unattached w' = unattached w" using u w1 assms(3) by simp
  then show ?thesis
    using w2(1) w' by (intro disjI2 exI [of _ w'] conjI impI) (simp_all only: arrays_same [OF unlinked_cong [OF u]])
qed blast

subsection \<open>Waiting for one subscription\<close>

definition waiting_for :: "addr \<Rightarrow> wait_arrays" where
  "waiting_for a = \<lparr>wa_subscriptions = Some [Some a], wa_guard_conditions = None, wa_services = None, wa_clients = None, wa_events = None\<rparr>"

definition deliver :: "z_sample \<Rightarrow> addr \<Rightarrow> action" where
  "deliver smp a w = andthen (subscription_data_handler smp (Some a) w) (\<lambda>(_, w). Inr w)"

lemma attach_sub:
  assumes "sub_ready w a d []"
  shows "check_and_attach_condition (Some [Some a]) None None None None (Some x) w =
    Inr (False, w\<lparr>sub_datas := (sub_datas w)(a \<mapsto> d\<lparr>sub_wait_set_data := Some x\<rparr>)\<rparr>)"
proof -
  have d: "sub_datas w a = Some d" "condition_mutex (sub_condition d) = Unlocked" "msg_queue (sub_condition d) = Some (message_queue d)"
    "queue_rep (msgs w) (message_queue d) []"
    using assms by (simp_all add: sub_ready_def sub_condition_def)
  have "put_sub_condition ((sub_condition d)\<lparr>wait_set_data_ptr := Some x\<rparr>) d = d\<lparr>sub_wait_set_data := Some x\<rparr>"
    by (simp add: put_sub_condition_def sub_condition_def)
  then show ?thesis
    using attach_queue [OF d(2-4), of "Some x"] d(1)
    by (simp add: check_and_attach_condition_def attach_array_def subscription_condition_check_and_attach_def)
qed

lemma sub_ready_attached:
  assumes "sub_ready w a d as" and "ws_idle w x s"
  shows "sub_ready (w\<lparr>sub_datas := (sub_datas w)(a \<mapsto> d\<lparr>sub_wait_set_data := Some x\<rparr>)\<rparr>) a (d\<lparr>sub_wait_set_data := Some x\<rparr>) as"
  using assms by (auto simp: sub_ready_def waiter_ok_def ws_idle_def)

text \<open>What a delivered sample leaves, for a subscription whose wait set is \<open>x\<close>.\<close>

definition woken_by :: "rmw_mem \<Rightarrow> addr \<Rightarrow> addr \<Rightarrow> ZenohPicoWaitSetData \<Rightarrow> rmw_mem \<Rightarrow> bool" where
  "woken_by w a x s w' \<longleftrightarrow> (\<exists>d' l. sub_datas w' a = Some d' \<and> message_queue d' = l \<and> sub_condition_mutex d' = Unlocked \<and>
     queue_rep (msgs w') l [next_addr w] \<and> wait_sets w' x = Some (signalled s) \<and> ticks w' = Suc (ticks w))"

lemma deliver_wakes:
  assumes "sub_ready w a d []" and "sub_wait_set_data d = Some x" and "ws_idle w x s" and "roomy w" "msgs w (next_addr w) = None"
    and "attachment_data_get (codec (env w)) (sample_attachment smp) zero_attachment = (True, att)"
  shows "\<exists>w'. deliver smp a w = Inr w' \<and> woken_by w a x s w'"
proof -
  let ?m = "next_addr w" and ?ts = "fst (zenoh_pico_gen_timestamp w)" and ?w1 = "w\<lparr>ticks := Suc (ticks w)\<rparr>"
  let ?md = "sample_msg (Suc ?m) (sample_payload smp) ?ts att"
  obtain w2 where w2: "w2 = with_msg ?md (sample_payload smp) ?w1" by blast
  have f: "msgs w2 = (msgs w)(?m \<mapsto> ?md)" "sub_datas w2 = sub_datas w" "wait_sets w2 = wait_sets w" "ticks w2 = Suc (ticks w)"
    by (simp_all add: w2 with_msg_def)
  have g: "rmw_zenoh_pico_generate_recv_sample_msg_data smp ?ts ?w1 = Inr (Some ?m, w2)"
    using recv_sample_roomy [of ?w1 smp att ?ts] assms(4,6) by (simp add: roomy_def w2)
  have d: "sub_datas w2 a = Some d" "mgr_ok (sub_event_mgr d)" "sub_condition_mutex d = Unlocked" "waiter_ok w2 (sub_wait_set_data d)"
    "queue_rep (msgs w2) (message_queue d) []"
    using assms(1) by (simp_all add: sub_ready_def f waiter_ok_cong [OF f(3)] queue_rep_def)
  have m: "msgs w2 ?m = Some ?md" by (simp add: f)
  obtain l h where ap: "recv_msg_list_append (Some (message_queue d)) (Some ?m) (msgs w2) = Inr (Some ?m, Some l, h)"
    "queue_rep h l [?m]"
    using append_rep [OF d(5) m] by auto
  have "subscription_data_handler smp (Some a) w = add_new_subscription_message (Some a) (Some ?m) w2"
    by (subst subscription_data_handler_def, subst timestamp_split) (simp only: option.simps if_False prod.case g andthen_Inr)
  then have "deliver smp a w = Inr (w2\<lparr>msgs := h, trace := announcement (sub_event_mgr d) @ trace w2,
      sub_datas := (sub_datas w2)(a \<mapsto> sub_received l d), wait_sets := wake (sub_wait_set_data d) (wait_sets w2)\<rparr>)"
    by (simp add: deliver_def add_new_subscription_message_run [OF d(1-4) ap(1)])
  moreover have "wait_sets w x = Some s" using assms(3) by (simp add: ws_idle_def)
  ultimately show ?thesis
    using ap(2) assms(2) d(3) by (simp add: woken_by_def sub_received_def wake_def f)
qed

text \<open>After waking up, the subscription is reported and detached.\<close>

lemma woken_reports:
  assumes "woken_by w a x s w2" and "ws_idle w x s"
  shows "\<exists>w' d'. andthen (wait_condition_lock (Some x) w2) (\<lambda>w. andthen (wait_condition_triggered (Some x) False w)
      (wait_condition_unlock (Some x))) = Inr (w2\<lparr>wait_sets := (wait_sets w2)(x \<mapsto> (signalled s)\<lparr>ws_triggered := False\<rparr>)\<rparr>) \<and>
    wait_detach (waiting_for a) (w2\<lparr>wait_sets := (wait_sets w2)(x \<mapsto> (signalled s)\<lparr>ws_triggered := False\<rparr>)\<rparr>) =
      Inr (RMW_RET_OK, waiting_for a, w') \<and>
    sub_datas w' a = Some d' \<and> queue_rep (msgs w') (message_queue d') [next_addr w] \<and> sub_wait_set_data d' = None \<and>
    ticks w' = ticks w2"
proof -
  obtain d2 where d2: "sub_datas w2 a = Some d2" "sub_condition_mutex d2 = Unlocked" "queue_rep (msgs w2) (message_queue d2) [next_addr w]"
    "wait_sets w2 x = Some (signalled s)"
    using assms(1) by (auto simp: woken_by_def)
  have i: "ws_idle w2 x (signalled s)" using d2(4) assms(2) by (simp add: ws_idle_def signalled_def)
  let ?w3 = "w2\<lparr>wait_sets := (wait_sets w2)(x \<mapsto> (signalled s)\<lparr>ws_triggered := False\<rparr>)\<rparr>"
  have d: "sub_datas ?w3 a = Some d2" "condition_mutex (sub_condition d2) = Unlocked" "msg_queue (sub_condition d2) = Some (message_queue d2)"
    "queue_rep (msgs ?w3) (message_queue d2) [next_addr w]"
    using d2 by (simp_all add: sub_condition_def)
  have "put_sub_condition ((sub_condition d2)\<lparr>wait_set_data_ptr := None\<rparr>) d2 = d2\<lparr>sub_wait_set_data := None\<rparr>"
    by (simp add: put_sub_condition_def sub_condition_def)
  then have "subscription_condition_detach_and_queue_is_empty (Some a) ?w3 =
      Inr (False, ?w3\<lparr>sub_datas := (sub_datas w2)(a \<mapsto> d2\<lparr>sub_wait_set_data := None\<rparr>)\<rparr>)"
    using detach_queue [OF d(2-4)] d(1) by (simp add: subscription_condition_detach_and_queue_is_empty_def)
  then have "wait_detach (waiting_for a) ?w3 =
      Inr (RMW_RET_OK, waiting_for a, ?w3\<lparr>sub_datas := (sub_datas w2)(a \<mapsto> d2\<lparr>sub_wait_set_data := None\<rparr>)\<rparr>)"
    by (simp add: wait_detach_def waiting_for_def detach_array_def detach_events_def not_empty_def Let_def)
  then show ?thesis using wake_up [OF i] d2 by simp
qed

text \<open>Time passes while the thread sleeps.\<close>

lemma ticks_pass:
  assumes "wait_sets w x = Some s" and "condition_variable s = n"
  shows "wait_triggered n (replicate k clock_tick @ acts) (Some x) w = wait_triggered n acts (Some x) (w\<lparr>ticks := ticks w + k\<rparr>)"
    and "timed_wait n (replicate k clock_tick) (Some x) w = Inr (w\<lparr>ticks := ticks w + k\<rparr>)"
  using assms by (induction k arbitrary: w) (simp_all add: clock_tick_def)

lemma rmw_wait_sub:
  assumes "sub_ready w a d []" and "data h = Some x" "identifiers_match (implementation_identifier h)"
  shows "rmw_wait (waiting_for a) (Some h) timeout between asleep w =
    andthen (run_actions between (w\<lparr>sub_datas := (sub_datas w)(a \<mapsto> d\<lparr>sub_wait_set_data := Some x\<rparr>)\<rparr>)) (\<lambda>w.
    andthen (wait_sleep timeout asleep (Some x) w) (wait_detach (waiting_for a)))"
  using attach_sub [OF assms(1)] assms(2,3) by (simp add: rmw_wait_def andthen_assoc waiting_for_def)

text \<open>
  C16: A sleeper is woken. A thread waits in rmw_wait without a timeout for one subscription with an empty queue. However long
  nothing else happens, when a readable sample arrives for the subscription it wakes up and answers OK: the
  subscription is kept in the array and holds the sample, it is detached, and the wait set's flag is lowered
  again. What other threads would do after the arrival does not matter.
\<close>

theorem sleeper_is_woken:
  assumes "data h = Some x" "identifiers_match (implementation_identifier h)"
    and "sub_ready w a d []" and "ws_idle w x s" "\<not> ws_triggered s" and "roomy w" "msgs w (next_addr w) = None"
    and "attachment_data_get (codec (env w)) (sample_attachment smp) zero_attachment = (True, att)"
  shows "\<exists>w' d'. rmw_wait (waiting_for a) (Some h) None [] (replicate k clock_tick @ deliver smp a # later) w =
      Inr (RMW_RET_OK, waiting_for a, w') \<and>
    sub_datas w' a = Some d' \<and> queue_rep (msgs w') (message_queue d') [next_addr w] \<and> sub_wait_set_data d' = None"
proof -
  let ?d = "d\<lparr>sub_wait_set_data := Some x\<rparr>"
  obtain w1 where w1: "w1 = w\<lparr>sub_datas := (sub_datas w)(a \<mapsto> ?d)\<rparr>" by blast
  let ?w1 = "w1\<lparr>ticks := ticks w1 + k\<rparr>"
  have "sub_ready w1 a ?d []" unfolding w1 using assms(3,4) by (rule sub_ready_attached)
  then have r: "sub_ready ?w1 a ?d []" by (simp add: sub_ready_def waiter_ok_def ws_idle_def [abs_def])
  have f: "ws_idle ?w1 x s" "roomy ?w1" "msgs ?w1 (next_addr ?w1) = None" "sub_wait_set_data ?d = Some x" "env ?w1 = env w"
    "next_addr ?w1 = next_addr w" "ws_idle w1 x s"
    using assms(4,6,7) by (simp_all add: w1 ws_idle_def roomy_def)
  obtain w2 where w2: "deliver smp a ?w1 = Inr w2" "woken_by ?w1 a x s w2"
    using deliver_wakes [OF r f(4,1-3)] assms(8) f(5) by auto
  have w2x: "wait_sets w2 x = Some (signalled s)" using w2(2) by (auto simp: woken_by_def)
  have "wait_triggered (condition_variable s) (replicate k clock_tick @ deliver smp a # later) (Some x) w1 = Inr w2"
    using ticks_pass(1) [of w1 x s "condition_variable s" k] f(7) w2(1) w2x by (simp add: ws_idle_def signalled_def)
  then have sl: "sleep_part None (replicate k clock_tick @ deliver smp a # later) x s w1 = Inr w2"
    using assms(5) by (simp add: sleep_part_def)
  show ?thesis
    unfolding rmw_wait_sub [OF assms(3,1,2)] run_actions.simps andthen_Inr w1 [symmetric] wait_sleep_eq [OF f(7)] sl
    using woken_reports [OF w2(2) f(1)] unfolding f(6) by auto
qed

text \<open>
  C31: A timed wait sleeps through what it has missed. A sample arrives after rmw_wait has attached the wait set to the
  subscription and before it takes the lock, and then nothing happens for n readings of the clock. Without a timeout
  rmw_wait sees the raised flag and returns without sleeping; with a timeout it does not look at the flag,
  sleeps until the timeout, with the clock read n + 1 times more, and only then answers OK for the waiting sample.
\<close>

theorem timed_wait_sleeps_through:
  assumes "data h = Some x" "identifiers_match (implementation_identifier h)"
    and "sub_ready w a d []" and "ws_idle w x s" and "roomy w" "msgs w (next_addr w) = None"
    and "attachment_data_get (codec (env w)) (sample_attachment smp) zero_attachment = (True, att)"
    and "sec t \<noteq> 0 \<or> nsec t \<noteq> 0"
  shows "(\<exists>w'. rmw_wait (waiting_for a) (Some h) None [deliver smp a] (replicate n clock_tick) w = Inr (RMW_RET_OK, waiting_for a, w') \<and>
      ticks w' = ticks w + 1) \<and>
    (\<exists>w'. rmw_wait (waiting_for a) (Some h) (Some t) [deliver smp a] (replicate n clock_tick) w = Inr (RMW_RET_OK, waiting_for a, w') \<and>
      ticks w' = ticks w + 1 + (n + 1))"
proof -
  let ?d = "d\<lparr>sub_wait_set_data := Some x\<rparr>"
  obtain w1 where w1: "w1 = w\<lparr>sub_datas := (sub_datas w)(a \<mapsto> ?d)\<rparr>" by blast
  have r: "sub_ready w1 a ?d []" unfolding w1 using assms(3,4) by (rule sub_ready_attached)
  have f: "ws_idle w1 x s" "roomy w1" "msgs w1 (next_addr w1) = None" "sub_wait_set_data ?d = Some x" "env w1 = env w"
    "ticks w1 = ticks w"
    using assms(4-6) by (simp_all add: w1 ws_idle_def roomy_def)
  obtain w2 where w2: "deliver smp a w1 = Inr w2" "woken_by w1 a x s w2"
    using deliver_wakes [OF r f(4,1-3)] assms(7) f(5) by auto
  have t2: "ticks w2 = ticks w + 1" and x2: "wait_sets w2 x = Some (signalled s)" using w2(2) f(6) by (auto simp: woken_by_def)
  have i2: "ws_idle w2 x (signalled s)" using x2 f(1) by (simp add: ws_idle_def signalled_def)
  let ?w2 = "w2\<lparr>ticks := Suc (ticks w2) + n\<rparr>"
  have v: "woken_by (w1\<lparr>ticks := Suc (ticks w1) + n\<rparr>) a x s ?w2" using w2(2) by (auto simp: woken_by_def)
  have i1: "ws_idle (w1\<lparr>ticks := Suc (ticks w1) + n\<rparr>) x s" using f(1) by (simp add: ws_idle_def)
  have u: "sleep_part None (replicate n clock_tick) x (signalled s) w2 = Inr w2"
    by (simp add: sleep_part_def signalled_def)
  have m: "sleep_part (Some t) (replicate n clock_tick) x (signalled s) w2 = Inr ?w2"
    using assms(8) ticks_pass(2) [of "w2\<lparr>ticks := Suc (ticks w2)\<rparr>" x "signalled s" "condition_variable (signalled s)" n] x2
    by (simp add: sleep_part_def)
  have run: "rmw_wait (waiting_for a) (Some h) timeout [deliver smp a] (replicate n clock_tick) w =
      andthen (wait_sleep timeout (replicate n clock_tick) (Some x) w2) (wait_detach (waiting_for a))" for timeout
    unfolding rmw_wait_sub [OF assms(3,1,2)] w1 [symmetric] by (simp add: w2(1))
  show ?thesis
    unfolding run wait_sleep_eq [OF i2] u m
    using woken_reports [OF w2(2) f(1)] woken_reports [OF v i1] t2 by auto
qed

subsection \<open>Waiting for a guard condition\<close>

definition waiting_guard :: "addr \<Rightarrow> wait_arrays" where
  "waiting_guard g = \<lparr>wa_subscriptions = None, wa_guard_conditions = Some [Some (GuardData g)], wa_services = None, wa_clients = None,
     wa_events = None\<rparr>"

definition poke :: "rmw_guard_condition_t \<Rightarrow> action" where
  "poke gc w = andthen (rmw_trigger_guard_condition (Some gc) w) (\<lambda>(_, w). Inr w)"

lemma poke_run:
  assumes "gh_data gc = Some (GuardData g)" "identifiers_match (gh_identifier gc)"
    and "guards w g = Some d" "guard_wf d" "gc_wait_set_data d = Some x" "ws_idle w x s"
  shows "poke gc w = Inr (w\<lparr>wait_sets := (wait_sets w)(x \<mapsto> s\<lparr>ws_triggered := True\<rparr>),
    guards := (guards w)(g \<mapsto> d\<lparr>gc_triggered := True\<rparr>)\<rparr>)"
  using assms by (simp add: poke_def rmw_trigger_guard_condition_def guard_condition_trigger_def guard_trigger_attached)

lemma pokes_do_not_wake:
  assumes "gh_data gc = Some (GuardData g)" "identifiers_match (gh_identifier gc)"
    and "guards w g = Some d" "guard_wf d" "gc_wait_set_data d = Some x" "ws_idle w x s"
  shows "wait_triggered (condition_variable s) (replicate n (poke gc)) (Some x) w = Inl Blocked"
  using assms(3-)
proof (induction n arbitrary: w d s)
  case (Suc n)
  let ?w = "w\<lparr>wait_sets := (wait_sets w)(x \<mapsto> s\<lparr>ws_triggered := True\<rparr>), guards := (guards w)(g \<mapsto> d\<lparr>gc_triggered := True\<rparr>)\<rparr>"
  have "wait_triggered (condition_variable (s\<lparr>ws_triggered := True\<rparr>)) (replicate n (poke gc)) (Some x) ?w = Inl Blocked"
    by (rule Suc.IH [of ?w "d\<lparr>gc_triggered := True\<rparr>"]) (use Suc.prems in \<open>simp_all add: ws_idle_def guard_wf_def\<close>)
  then show ?case using poke_run [OF assms(1,2) Suc.prems] by simp
qed simp

lemma rmw_wait_guard:
  assumes "data h = Some x" "identifiers_match (implementation_identifier h)"
    and "guards w g = Some d" "guard_wf d" "\<not> gc_triggered d"
  shows "rmw_wait (waiting_guard g) (Some h) timeout between asleep w =
    andthen (run_actions between (w\<lparr>guards := (guards w)(g \<mapsto> d\<lparr>gc_wait_set_data := Some x\<rparr>)\<rparr>)) (\<lambda>w.
    andthen (wait_sleep timeout asleep (Some x) w) (wait_detach (waiting_guard g)))"
  using assms
  by (simp add: rmw_wait_def andthen_assoc waiting_guard_def check_and_attach_condition_def attach_array_def
      guard_condition_check_and_attach_def guard_attach_wf)

text \<open>
  C32: Guard conditions do not wake sleepers. A thread waits without a timeout for a guard condition that is not triggered.
  However often rmw_trigger_guard_condition is called while it sleeps, it never returns. The same call made
  before it takes the lock of the wait set is noticed, and rmw_wait answers OK with the guard condition in its array.
\<close>

theorem guard_does_not_wake:
  assumes "data h = Some x" "identifiers_match (implementation_identifier h)"
    and "gh_data gc = Some (GuardData g)" "identifiers_match (gh_identifier gc)"
    and "guards w g = Some d" "guard_wf d" "\<not> gc_triggered d" and "ws_idle w x s" "\<not> ws_triggered s"
  shows "rmw_wait (waiting_guard g) (Some h) None [] (replicate n (poke gc)) w = Inl Blocked \<and>
    (\<exists>w'. rmw_wait (waiting_guard g) (Some h) None [poke gc] asleep w = Inr (RMW_RET_OK, waiting_guard g, w'))"
proof -
  let ?d = "d\<lparr>gc_wait_set_data := Some x\<rparr>"
  obtain w1 where w1: "w1 = w\<lparr>guards := (guards w)(g \<mapsto> ?d)\<rparr>" by blast
  have f: "guards w1 g = Some ?d" "guard_wf ?d" "gc_wait_set_data ?d = Some x" "ws_idle w1 x s"
    using assms(6,8) by (simp_all add: w1 guard_wf_def ws_idle_def)
  have "wait_sleep None (replicate n (poke gc)) (Some x) w1 = Inl Blocked"
    using pokes_do_not_wake [OF assms(3,4) f] assms(9) by (simp add: wait_sleep_eq [OF f(4)] sleep_part_def)
  then have 1: "rmw_wait (waiting_guard g) (Some h) None [] (replicate n (poke gc)) w = Inl Blocked"
    unfolding rmw_wait_guard [OF assms(1,2,5-7)] w1 [symmetric] by simp
  let ?s = "s\<lparr>ws_triggered := True\<rparr>" and ?dt = "?d\<lparr>gc_triggered := True\<rparr>"
  obtain w2 where w2: "poke gc w1 = Inr w2" "guards w2 g = Some ?dt" "ws_idle w2 x ?s"
    using poke_run [OF assms(3,4) f] f(4) by (simp add: ws_idle_def)
  have u: "sleep_part None asleep x ?s w2 = Inr w2" by (simp add: sleep_part_def)
  have g: "guard_wf ?dt" using assms(6) by (simp add: guard_wf_def)
  let ?w3 = "w2\<lparr>wait_sets := (wait_sets w2)(x \<mapsto> ?s\<lparr>ws_triggered := False\<rparr>)\<rparr>"
  have d: "wait_detach (waiting_guard g) ?w3 =
      Inr (RMW_RET_OK, waiting_guard g, ?w3\<lparr>guards := (guards w2)(g \<mapsto> ?dt\<lparr>gc_wait_set_data := None\<rparr>)\<rparr>)"
    using w2(2) guard_detach_wf [OF g]
    by (simp add: wait_detach_def waiting_guard_def detach_array_def detach_events_def guard_condition_detach_and_is_trigger_set_def Let_def)
  have 2: "rmw_wait (waiting_guard g) (Some h) None [poke gc] asleep w = wait_detach (waiting_guard g) ?w3"
    unfolding rmw_wait_guard [OF assms(1,2,5-7)] w1 [symmetric] run_actions.simps w2(1) andthen_Inr
      wait_sleep_eq [OF w2(3)] u wake_up [OF w2(3)] ..
  show ?thesis using 1 2 d by auto
qed

subsection \<open>Waiting with event managers\<close>









subsection \<open>Things to wait for\<close>

definition wait_mem1 :: "rmw_mem \<Rightarrow> rmw_mem" where
  "wait_mem1 w = w\<lparr>wait_sets := [4 \<mapsto> zero_wait_set\<lparr>ref := 1\<rparr>],
     guards := [5 \<mapsto> \<lparr>gc_condition_mutex = Unlocked, gc_triggered = False, gc_wait_set_data = None\<rparr>]\<rparr>"

definition wait_handle :: rmw_wait_set_t where
  "wait_handle = \<lparr>hdl = 3, implementation_identifier = None, data = Some 4\<rparr>"

definition two_subs :: rmw_mem where
  "two_subs = wait_mem1 (inbox_mem\<lparr>sub_datas := (sub_datas inbox_mem)(21 \<mapsto> echo_sub)\<rparr>)"

definition all_kinds :: wait_arrays where
  "all_kinds = \<lparr>wa_subscriptions = Some [Some 21, None, Some 20], wa_guard_conditions = Some [Some (GuardData 5)],
     wa_services = None, wa_clients = None, wa_events = None\<rparr>"

lemma wait_handle_facts:
  "data wait_handle = Some 4" "identifiers_match (implementation_identifier wait_handle)"
  "ws_idle (wait_mem1 w) 4 (zero_wait_set\<lparr>ref := 1\<rparr>)" "\<not> ws_triggered (zero_wait_set\<lparr>ref := 1\<rparr>)"
  by (simp_all add: wait_handle_def identifiers_match_def wait_mem1_def ws_idle_def zero_wait_set_def)

lemma two_subs_ok: "can_wait all_kinds 4 two_subs" "sub_full two_subs 20" "\<not> sub_full two_subs 21"
proof -
  have q: "queue_rep (msgs two_subs) (message_queue two_messages) [1, 2]" "queue_rep (msgs two_subs) (message_queue echo_sub) []"
    "sub_datas two_subs 20 = Some two_messages" "sub_datas two_subs 21 = Some echo_sub"
    using inbox_mem_facts(4,5) by (simp_all add: two_subs_def wait_mem1_def echo_sub_def zero_sub_data_def)
  have m: "sub_condition_mutex two_messages = Unlocked" "sub_condition_mutex echo_sub = Unlocked"
    by (simp_all add: two_messages_def inbox_mem_def echo_sub_def zero_sub_data_def)
  have "sub_ok two_subs 20" "sub_ok two_subs 21" using q m by (auto simp: sub_ok_def)
  moreover have "guard_ok two_subs (GuardData 5)" by (simp add: guard_ok_def guard_wf_def two_subs_def wait_mem1_def)
  moreover have "\<exists>s. ws_idle two_subs 4 s" using wait_handle_facts(3) unfolding two_subs_def by blast
  ultimately show "can_wait all_kinds 4 two_subs" by (simp add: can_wait_def arrays_ok_def all_kinds_def all_listed_def)
  show "sub_full two_subs 20" "\<not> sub_full two_subs 21" using q by (simp_all add: sub_full_def queue_rep_def)
qed

theorem wait_reports_ready_witness:
  "\<exists>w'. rmw_wait all_kinds (Some wait_handle) (Some \<lparr>sec = 1, nsec = 0\<rparr>) [] [clock_tick] two_subs =
      Inr (RMW_RET_OK, all_kinds\<lparr>wa_subscriptions := Some [None, None, Some 20], wa_guard_conditions := Some [None]\<rparr>, w') \<and>
    \<not> sub_attached w' 20 \<and> \<not> sub_attached w' 21"
proof -
  have e: "wa_events all_kinds = None" by (simp add: all_kinds_def)
  have ok: "arrays_ok all_kinds two_subs" using two_subs_ok(1) by (simp add: can_wait_def)
  have r: "arrays_ready all_kinds two_subs"
    using two_subs_ok(2) by (simp add: arrays_ready_def all_kinds_def any_listed_def)
  then have "others_behave all_kinds 4 t [] acts two_subs" for t acts
    using check_and_attach_run [OF ok, of "Some 4"] by (auto simp: others_behave_def)
  from wait_reports_ready [OF wait_handle_facts(1,2) e two_subs_ok(1) this, of "Some \<lparr>sec = 1, nsec = 0\<rparr>" "[clock_tick]"]
  obtain w' where w': "rmw_wait all_kinds (Some wait_handle) (Some \<lparr>sec = 1, nsec = 0\<rparr>) [] [clock_tick] two_subs =
      Inr (if arrays_ready all_kinds w' then RMW_RET_OK else RMW_RET_TIMEOUT, ready_arrays all_kinds w', w')"
    "arrays_detached all_kinds w'" "unattached w' = unattached two_subs"
    using r by auto
  have "\<not> guard_raised two_subs (GuardData 5)" by (simp add: guard_raised_def two_subs_def wait_mem1_def)
  then have "ready_arrays all_kinds two_subs =
      all_kinds\<lparr>wa_subscriptions := Some [None, None, Some 20], wa_guard_conditions := Some [None]\<rparr>"
    using two_subs_ok(2,3) by (simp add: ready_arrays_def all_kinds_def)
  moreover have "\<not> sub_attached w' 20" "\<not> sub_attached w' 21"
    using w'(2) by (auto simp: arrays_detached_def all_kinds_def all_listed_def)
  ultimately show ?thesis using w'(1) r unfolding arrays_same [OF unlinked_cong [OF w'(3)]] by simp
qed

lemma echo_sub_ready: "sub_ready (wait_mem1 sub_mem) 20 echo_sub []"
  by (simp add: sub_ready_def wait_mem1_def sub_mem_def echo_sub_def zero_sub_data_def mgr_ok_def zero_mgr_def waiter_ok_def)

definition hello :: z_sample where
  "hello = \<lparr>sample_payload = [0, 1, 0, 0, 7], sample_attachment = query_attachment example_query\<rparr>"

lemma wait_mem_facts:
  "roomy (wait_mem1 sub_mem)" "msgs (wait_mem1 sub_mem) (next_addr (wait_mem1 sub_mem)) = None"
  "attachment_data_get (codec (env (wait_mem1 sub_mem))) (sample_attachment hello) zero_attachment =
     (True, \<lparr>sequence_num = 3, timestamp = 4, gid = [9]\<rparr>)"
  using roomy_start example_query_attachment
  by (simp_all add: wait_mem1_def roomy_def sub_mem_def hello_def small_env_def)

theorem sleeper_is_woken_witness:
  "\<exists>w' d'. rmw_wait (waiting_for 20) (Some wait_handle) None [] (replicate 3 clock_tick @ [deliver hello 20]) (wait_mem1 sub_mem) =
      Inr (RMW_RET_OK, waiting_for 20, w') \<and> sub_datas w' 20 = Some d' \<and> queue_rep (msgs w') (message_queue d') [0]"
proof -
  have "next_addr (wait_mem1 sub_mem) = 0" by (simp add: wait_mem1_def sub_mem_def)
  then show ?thesis
    using sleeper_is_woken [OF wait_handle_facts(1,2) echo_sub_ready wait_handle_facts(3,4) wait_mem_facts, of 3 "[]"] by auto
qed

theorem timed_wait_sleeps_through_witness:
  "\<exists>w'. rmw_wait (waiting_for 20) (Some wait_handle) (Some \<lparr>sec = 1, nsec = 0\<rparr>) [deliver hello 20] (replicate 5 clock_tick)
      (wait_mem1 sub_mem) = Inr (RMW_RET_OK, waiting_for 20, w') \<and> ticks w' = ticks (wait_mem1 sub_mem) + 7"
  using timed_wait_sleeps_through [OF wait_handle_facts(1,2) echo_sub_ready wait_handle_facts(3) wait_mem_facts,
      of "\<lparr>sec = 1, nsec = 0\<rparr>" 5] by auto

definition echo_guard :: rmw_guard_condition_t where
  "echo_guard = \<lparr>gh_hdl = 6, gh_identifier = None, gh_data = Some (GuardData 5)\<rparr>"

theorem guard_does_not_wake_witness:
  "rmw_wait (waiting_guard 5) (Some wait_handle) None [] [poke echo_guard, poke echo_guard] (wait_mem1 sub_mem) = Inl Blocked"
proof -
  let ?d = "\<lparr>gc_condition_mutex = Unlocked, gc_triggered = False, gc_wait_set_data = None\<rparr>"
  have g: "gh_data echo_guard = Some (GuardData 5)" "identifiers_match (gh_identifier echo_guard)"
    "guards (wait_mem1 sub_mem) 5 = Some ?d" "guard_wf ?d" "\<not> gc_triggered ?d"
    by (simp_all add: echo_guard_def identifiers_match_def wait_mem1_def guard_wf_def)
  show ?thesis
    using guard_does_not_wake [OF wait_handle_facts(1,2) g wait_handle_facts(3,4), of 2 "[]"] by (simp add: numeral_2_eq_2)
qed



end
