(* ===== verification/Lifecycle.thy ===== *)
theory Lifecycle
  imports Waiting
begin

section \<open>Creating and destroying endpoints\<close>

text \<open>
  What \<open>rmw_create_*\<close> and \<open>rmw_destroy_*\<close> leave behind, for subscriptions and for services and clients, on a live
  node with an open session.
\<close>

subsection \<open>A node that can carry endpoints\<close>

definition open_node ::
  "rmw_mem \<Rightarrow> rmw_node_t \<Rightarrow> addr \<Rightarrow> ZenohPicoNodeData \<Rightarrow> addr \<Rightarrow> ZenohPicoEntity \<Rightarrow> addr \<Rightarrow> ZenohPicoNodeInfo \<Rightarrow> bool" where
  "open_node w n nd d ea e ni i \<longleftrightarrow> identifiers_match (implementation_identifier n) \<and> data n = Some nd \<and>
     (\<exists>c x. node_context n = Some c \<and> contexts w c = Some x \<and> impl x \<noteq> None) \<and>
     live (node_datas w) nd d \<and> (\<exists>s. deref (sessions w) (nd_session d) = Inr s \<and> enable_session s) \<and>
     nd_entity d = Some ea \<and> live (entities w) ea e \<and> node_info e = Some ni \<and> live (node_infos w) ni i"

lemma liveliness_components_ref [simp]: "liveliness_components (n\<lparr>ref := r\<rparr>) t e = liveliness_components n t e"
  by (simp add: liveliness_components_def node_components_def split: option.split)

lemma key_of_frame [simp]:
  "key_of (w\<lparr>node_infos := h\<rparr>) = key_of w" "key_of (v\<lparr>node_datas := nds\<rparr>) = key_of v" "key_of w (n\<lparr>ref := r\<rparr>) t e = key_of w n t e"
  by (simp_all add: key_of_def fun_eq_iff)

text \<open>The entity and topic description of a new endpoint.\<close>

definition endpoint_entity :: "rmw_mem \<Rightarrow> nat \<Rightarrow> ZenohPicoEntityType \<Rightarrow> addr \<Rightarrow> ZenohPicoEntity" where
  "endpoint_entity w nid type ni = entity_of w (info_zid (env w)) nid type (Some ni) (Some (next_addr w))"

definition endpoint_key :: "rmw_mem \<Rightarrow> nat \<Rightarrow> ZenohPicoEntityType \<Rightarrow> addr \<Rightarrow> ZenohPicoNodeInfo \<Rightarrow> ZenohPicoTopicInfo \<Rightarrow> string" where
  "endpoint_key w nid type ni i t = key_of w i (Some t) (endpoint_entity w nid type ni)"

subsection \<open>Subscriptions\<close>

definition sub_data_of ::
  "rmw_mem \<Rightarrow> addr \<Rightarrow> rosidl_message_type_support_t \<Rightarrow> rmw_qos_profile_t \<Rightarrow> string \<Rightarrow> string \<Rightarrow> ZenohPicoSubData" where
  "sub_data_of w nd ts qos key tkey = zero_sub_data\<lparr>ref := 1, sub_id := next_entity_id w, sub_liveliness_key := key,
     sub_topic_key := tkey, sub_node := Some nd, sub_entity := Some (Suc (next_addr w)), sub_qos_profile := qos,
     sub_callbacks := ts_data ts, sub_event_mgr := cleared_mgr zero_mgr\<rparr>"

definition made_sub ::
  "nat \<Rightarrow> addr \<Rightarrow> ZenohPicoNodeInfo \<Rightarrow> string \<Rightarrow> string \<Rightarrow> string \<Rightarrow> ZenohPicoSubData \<Rightarrow> rmw_mem \<Rightarrow> rmw_mem" where
  "made_sub nid ni i topic tname hash sd w = (with_topic_entity (info_zid (env w)) nid Subscription (Some ni) topic tname hash w)
     \<lparr>node_infos := (node_infos w)(ni \<mapsto> i\<lparr>ref := ref i + 1\<rparr>), next_addr := next_addr w + 3,
      sub_datas := (sub_datas w)(next_addr w + 2 \<mapsto> sd)\<rparr>"

lemma generate_subscription_data_eq:
  assumes n: "open_node w n nd d ea e ni i" and r: "roomy w" "len_ok w"
    and t: "convert_hash (\<lambda>_. True) (ts_hash ts) = Inr (Some hash)" "convert_message_type (\<lambda>_. True) (ts_data ts) = Inr (Some tname)"
    and k: "ros_topic_name_to_zenoh_key (lineness_len (env w)) (\<lambda>_. True) (ni_domain i) (cstr topic) tname hash = Inr (Some tkey)"
  defines "key \<equiv> endpoint_key w (nd_id d) Subscription ni i (topic_info_of topic tname hash)"
  shows "zenoh_pico_generate_subscription_data (Some nd) topic ts qos w =
    andthen (data_callback_init (layout (env w)) zero_mgr) (\<lambda>m.
      Inr (Some (next_addr w + 2), made_sub (nd_id d) ni i topic tname hash ((sub_data_of w nd ts qos key tkey)\<lparr>sub_event_mgr := m\<rparr>) w))"
proof -
  let ?w1 = "w\<lparr>node_infos := (node_infos w)(ni \<mapsto> i\<lparr>ref := ref i + 1\<rparr>)\<rparr>"
  let ?w2 = "with_topic_entity (info_zid (env w)) (nd_id d) Subscription (Some ni) topic tname hash ?w1"
  let ?e = "endpoint_entity w (nd_id d) Subscription ni" and ?ti = "topic_info_of topic tname hash"
  obtain s where o: "node_datas w nd = Some d" "deref (sessions w) (nd_session d) = Inr s" "nd_entity d = Some ea" "entities w ea = Some e"
    "node_info e = Some ni" "live (node_infos w) ni i"
    using n by (auto simp: open_node_def live_def)
  have c: "clone_node_info (Some nd) w = Inr (d, Some ni, ?w1)" by (rule clone_node_info_live [OF o])
  have g: "zenoh_pico_generate_subscription_entity (info_zid (env w)) (nd_id d) (Some ni) topic ts qos ?w1 =
      Inr (Some (Suc (next_addr w)), ?w2)"
    using generate_topic_entity_roomy [of ?w1, OF _ t] r(1) by (simp add: zenoh_pico_generate_subscription_entity_def)
  have f: "roomy ?w2" "env ?w2 = env w" "next_addr ?w2 = Suc (Suc (next_addr w))" "sub_datas ?w2 = sub_datas w"
    "entities ?w2 (Suc (next_addr w)) = Some ?e" "node_infos ?w2 ni = Some (i\<lparr>ref := ref i + 1\<rparr>)" "topic_infos ?w2 (next_addr w) = Some ?ti"
    using r(1) by (simp_all add: with_topic_entity_def roomy_def endpoint_entity_def)
  have e: "node_info ?e = Some ni" "topic_info ?e = Some (next_addr w)" "ent_id ?e = next_entity_id w"
    by (simp_all add: endpoint_entity_def entity_of_def)
  have key: "generate_liveliness (lineness_len (env w)) (copy_ok (env w)) v ?e = Inr (Some key)"
    if "env v = env w" "node_infos v = node_infos ?w2" "topic_infos v = topic_infos ?w2" for v :: rmw_mem
    using generate_key [of v ?e "i\<lparr>ref := ref i + 1\<rparr>" "Some ?ti"] that r f
    by (simp add: e roomy_def len_ok_def topic_of_def key_def endpoint_key_def key_of_def)
  have tk: "endpoint_topic_key (Some ni) (Some (next_addr w)) v = Inr (Some tkey)"
    if "env v = env w" "node_infos v = node_infos ?w2" "topic_infos v = topic_infos ?w2" for v
    using k that f r(1) by (simp add: endpoint_topic_key_def topic_info_of_def roomy_copy)
  show ?thesis
    by (simp add: zenoh_pico_generate_subscription_data_def c g roomy_generate [OF f(1)] data_obj_init_def f e key tk Let_def)
      (cases "data_callback_init (layout (env w)) zero_mgr";
        simp add: made_sub_def with_topic_entity_def sub_data_of_def zero_sub_data_def recv_msg_list_init_def)
qed

lemma generate_subscription_data_roomy:
  assumes n: "open_node w n nd d ea e ni i" and r: "roomy w" "len_ok w" "status_fits (layout (env w))"
    and t: "convert_hash (\<lambda>_. True) (ts_hash ts) = Inr (Some hash)" "convert_message_type (\<lambda>_. True) (ts_data ts) = Inr (Some tname)"
    and k: "ros_topic_name_to_zenoh_key (lineness_len (env w)) (\<lambda>_. True) (ni_domain i) (cstr topic) tname hash = Inr (Some tkey)"
  defines "key \<equiv> endpoint_key w (nd_id d) Subscription ni i (topic_info_of topic tname hash)"
  shows "zenoh_pico_generate_subscription_data (Some nd) topic ts qos w =
    Inr (Some (next_addr w + 2), made_sub (nd_id d) ni i topic tname hash (sub_data_of w nd ts qos key tkey) w)"
  unfolding generate_subscription_data_eq [OF n r(1,2) t k] key_def
  using r(3) by (simp add: data_callback_init_run(1) zero_mgr_def) (simp add: sub_data_of_def zero_mgr_def)

text \<open>Arguments for which \<open>rmw_create_subscription\<close> gets to the end when zenoh allows: there is memory, and the layout is one on which
  initialising the event manager does not write outside it.\<close>

definition topic_args_ok :: "rmw_mem \<Rightarrow> string \<Rightarrow> rmw_qos_profile_t \<Rightarrow> bool" where
  "topic_args_ok w topic qos \<longleftrightarrow> cstr topic \<noteq> [] \<and> (avoid_ros_namespace_conventions qos \<or> valid_topic (env w) topic) \<and>
     roomy w \<and> len_ok w \<and> status_fits (layout (env w))"

definition sub_handle :: "rmw_mem \<Rightarrow> rmw_subscription_t" where
  "sub_handle w = \<lparr>hdl = next_addr w + 3, implementation_identifier = Some rmw_get_implementation_identifier,
     data = Some (next_addr w + 2), topic_name = Some (next_addr w + 4)\<rparr>"

definition declared_sub :: "ZenohPicoSubData \<Rightarrow> ZenohPicoSubData" where
  "declared_sub sd = sd\<lparr>sub_topic := Some (sub_topic_key sd), sub_liveliness := Some (sub_liveliness_key sd)\<rparr>"

lemma context_impl_open: "open_node w n nd d ea e ni i \<Longrightarrow> \<exists>x. context_impl n w = Inr (Some x)"
  by (auto simp: open_node_def context_impl_def)

lemma made_sub_facts:
  "env (made_sub nid ni i topic tname hash sd w) = env w" "trace (made_sub nid ni i topic tname hash sd w) = trace w"
  "next_addr (made_sub nid ni i topic tname hash sd w) = next_addr w + 3" "bufs (made_sub nid ni i topic tname hash sd w) = bufs w"
  "node_datas (made_sub nid ni i topic tname hash sd w) = node_datas w" "sessions (made_sub nid ni i topic tname hash sd w) = sessions w"
  "sub_datas (made_sub nid ni i topic tname hash sd w) = (sub_datas w)(next_addr w + 2 \<mapsto> sd)"
  "entities (made_sub nid ni i topic tname hash sd w) = (entities w)(Suc (next_addr w) \<mapsto> endpoint_entity w nid Subscription ni)"
  "topic_infos (made_sub nid ni i topic tname hash sd w) = (topic_infos w)(next_addr w \<mapsto> topic_info_of topic tname hash)"
  "node_infos (made_sub nid ni i topic tname hash sd w) = (node_infos w)(ni \<mapsto> i\<lparr>ref := ref i + 1\<rparr>)"
  "msgs (made_sub nid ni i topic tname hash sd w) = msgs w"
  "next_entity_id (made_sub nid ni i topic tname hash sd w) = (next_entity_id w + 1) mod 2 ^ 64"
  by (simp_all add: made_sub_def with_topic_entity_def endpoint_entity_def)

lemma create_subscription_run:
  assumes n: "open_node w n nd d ea e ni i" and r: "topic_args_ok w topic qos"
    and t: "convert_hash (\<lambda>_. True) (ts_hash ts) = Inr (Some hash)" "convert_message_type (\<lambda>_. True) (ts_data ts) = Inr (Some tname)"
    and k: "ros_topic_name_to_zenoh_key (lineness_len (env w)) (\<lambda>_. True) (ni_domain i) (cstr topic) tname hash = Inr (Some tkey)"
  defines "key \<equiv> endpoint_key w (nd_id d) Subscription ni i (topic_info_of topic tname hash)"
  assumes z: "zok (env w) (trace w) (ZDeclareSubscriber tkey)" "zok (env w) (ZDeclareSubscriber tkey # trace w) (ZDeclareToken key)"
  defines "w1 \<equiv> made_sub (nd_id d) ni i topic tname hash (declared_sub (sub_data_of w nd ts qos key tkey)) w"
  shows "rmw_create_subscription (Some n) (Some (Some ts)) (Some topic) (Some qos) True w =
    Inr (Some (sub_handle w), w1\<lparr>next_addr := next_addr w + 5, node_datas := (node_datas w)(nd \<mapsto> d\<lparr>ref := ref d + 1\<rparr>),
      bufs := (bufs w)(next_addr w + 3 \<mapsto> [], next_addr w + 4 \<mapsto> bytes_of (cstr topic) @ [0]),
      trace := ZDeclareToken key # ZDeclareSubscriber tkey # trace w\<rparr>)"
proof -
  let ?v = "w\<lparr>node_datas := (node_datas w)(nd \<mapsto> d\<lparr>ref := ref d + 1\<rparr>)\<rparr>"
  let ?sd = "sub_data_of w nd ts qos key tkey"
  let ?m = "made_sub (nd_id d) ni i topic tname hash ?sd ?v"
  obtain x where x: "context_impl n w = Inr (Some x)" using context_impl_open [OF n] by blast
  have o: "data n = Some nd" "live (node_datas w) nd d" "\<exists>s. deref (sessions w) (nd_session d) = Inr s"
    using n by (auto simp: open_node_def)
  have a: "cstr topic \<noteq> []" "avoid_ros_namespace_conventions qos \<or> valid_topic (env w) topic" "roomy w" "len_ok w"
    "status_fits (layout (env w))" using r by (simp_all add: topic_args_ok_def)
  have ov: "open_node ?v n nd (d\<lparr>ref := ref d + 1\<rparr>) ea e ni i"
    using n by (auto simp: open_node_def live_def)
  have kv: "endpoint_key ?v = endpoint_key w" "sub_data_of ?v = sub_data_of w"
    by (simp_all add: fun_eq_iff endpoint_key_def endpoint_entity_def sub_data_of_def)
  have g: "zenoh_pico_generate_subscription_data (Some nd) topic ts qos ?v = Inr (Some (next_addr w + 2), ?m)"
    using generate_subscription_data_roomy [OF ov _ _ _ t, of topic tkey qos] a(3-5) k by (simp add: kv key_def len_ok_def)
  have rm: "roomy ?m" "roomy (?m\<lparr>next_addr := p, bufs := b\<rparr>)" for p b using a(3) by (simp_all add: roomy_def made_sub_facts)
  have s: "sub_entity ?sd = Some (Suc (next_addr w))" "sub_node ?sd = Some nd" "sub_topic_key ?sd = tkey" "sub_liveliness_key ?sd = key"
    "topic_info (endpoint_entity w nid type ni) = Some (next_addr w)" for nid type
    by (simp_all add: sub_data_of_def endpoint_entity_def entity_of_def)
  have e: "endpoint_entity ?v = endpoint_entity w" by (simp add: fun_eq_iff endpoint_entity_def)
  let ?b = "?m\<lparr>next_addr := next_addr w + 5, bufs := (bufs w)(next_addr w + 3 \<mapsto> [], next_addr w + 4 \<mapsto> bytes_of (cstr topic) @ [0])\<rparr>"
  have c: "zenoh_pico_string_clone (cstr topic) (?m\<lparr>next_addr := Suc (next_addr w + 3), bufs := (bufs w)(next_addr w + 3 \<mapsto> [])\<rparr>) =
      Inr (Some (next_addr w + 4), ?b)"
    using string_clone_roomy [OF rm(2), of "cstr topic"] by (simp add: eval_nat_numeral)
  have dd: "declaration_subscription_data (Some (next_addr w + 2)) ?b =
      Inr (True, ?b\<lparr>trace := ZDeclareToken key # ZDeclareSubscriber tkey # trace w,
        sub_datas := (sub_datas w)(next_addr w + 2 \<mapsto> declared_sub ?sd)\<rparr>)"
    using o(3) z by (auto simp: declaration_subscription_data_def made_sub_facts s zcall_def declaration_liveliness_def declared_sub_def)
  have "rmw_create_subscription (Some n) (Some (Some ts)) (Some topic) (Some qos) True w =
    Inr (Some (sub_handle w), ?b\<lparr>trace := ZDeclareToken key # ZDeclareSubscriber tkey # trace w,
        sub_datas := (sub_datas w)(next_addr w + 2 \<mapsto> declared_sub ?sd)\<rparr>)"
    using x o(1) a(1,2) RefClone_live [OF o(2)] g rm(1) c dd
    by (simp add: rmw_create_subscription_def rmw_zenoh_pico_check_validate_name_def made_sub_facts buf_put_def s e topic_info_of_def
        sub_handle_def)
  then show ?thesis by (simp add: w1_def made_sub_def with_topic_entity_def entity_of_def)
qed

text \<open>
  Initialising the event manager can write outside it. When the mutexes of the port are so short that an EventStatus, five
  words, is longer than a mutex and a pointer together, as with mutexes of one word,
  rmw_create_subscription on a live node never succeeds without writing behind the event manager of the new subscription:
  the code zeroes sizeof(EventStatus) bytes at an array that has no element.
\<close>

theorem event_status_overruns:
  assumes n: "open_node w n nd d ea e ni i" and r: "roomy w" "len_ok w" and m: "\<not> status_fits (layout (env w))"
    and a: "cstr topic \<noteq> []" "avoid_ros_namespace_conventions qos \<or> valid_topic (env w) topic"
    and t: "convert_hash (\<lambda>_. True) (ts_hash ts) = Inr (Some hash)" "convert_message_type (\<lambda>_. True) (ts_data ts) = Inr (Some tname)"
    and k: "ros_topic_name_to_zenoh_key (lineness_len (env w)) (\<lambda>_. True) (ni_domain i) (cstr topic) tname hash = Inr (Some tkey)"
  shows "rmw_create_subscription (Some n) (Some (Some ts)) (Some topic) (Some qos) True w = Inl OutOfBounds"
proof -
  let ?v = "w\<lparr>node_datas := (node_datas w)(nd \<mapsto> d\<lparr>ref := ref d + 1\<rparr>)\<rparr>"
  obtain x where x: "context_impl n w = Inr (Some x)" using context_impl_open [OF n] by blast
  have o: "data n = Some nd" "live (node_datas w) nd d" "identifiers_match (implementation_identifier n)"
    using n by (auto simp: open_node_def)
  have ov: "open_node ?v n nd (d\<lparr>ref := ref d + 1\<rparr>) ea e ni i"
    using n by (auto simp: open_node_def live_def)
  have "zenoh_pico_generate_subscription_data (Some nd) topic ts qos ?v = Inl OutOfBounds"
    using generate_subscription_data_eq [OF ov _ _ t, of topic tkey qos] r m k by (simp add: len_ok_def roomy_def data_callback_init_run(2))
  then show ?thesis
    using x o(1,3) a RefClone_live [OF o(2)] by (simp add: rmw_create_subscription_def rmw_zenoh_pico_check_validate_name_def)
qed

text \<open>
  The last release of an undeclared subscription on a node that others use too, with the loop over its queue as
  an assumption.
\<close>

lemma destroy_sub_data_last:
  assumes s: "live (sub_datas w) s d" "ref d = 1" "sub_topic d = None" "sub_liveliness d = None"
    and n: "sub_node d = Some nd" "live (node_datas w) nd nn" "ref nn \<noteq> 1"
    and e: "sub_entity d = Some ea" "live (entities w) ea e" "ref e = 1" "node_info e = Some ni" "live (node_infos w) ni i"
      "topic_info e = Some ti" "live (topic_infos w) ti t"
  defines "v \<equiv> w\<lparr>sub_datas := (sub_datas w)(s \<mapsto> d\<lparr>ref := 0\<rparr>)\<rparr>"
  assumes q: "pop_destroy_loop (next_addr w) (message_queue d) v = Inr (l, v\<lparr>msgs := h\<rparr>)" "queue_rep h l []"
  shows "zenoh_pico_destroy_subscription_data (Some s) w = Inr (True, w\<lparr>sub_datas := (sub_datas w)(s := None), msgs := h,
    node_datas := (node_datas w)(nd \<mapsto> nn\<lparr>ref := ref nn - 1\<rparr>), entities := (entities w)(ea := None),
    node_infos := drop_ref (node_infos w) ni, topic_infos := drop_ref (topic_infos w) ti\<rparr>)"
proof -
  have sd: "d\<lparr>ref := 0, sub_topic := None, sub_liveliness := None\<rparr> = d\<lparr>ref := 0\<rparr>" using s(3,4) by (cases d) simp
  have u: "undeclaration_subscription_data (Some s) v = Inr (True, v)"
    using s(3,4) by (simp add: undeclaration_subscription_data_def v_def sd)
  have r: "ZenohPicoDataRelease (sub_datas w) (Some s) = Inr (True, sub_datas v)"
    using Release_live [OF s(1)] s(2) by (simp add: v_def)
  let ?v2 = "v\<lparr>msgs := h\<rparr>"
  let ?v3 = "?v2\<lparr>node_datas := (node_datas w)(nd \<mapsto> nn\<lparr>ref := ref nn - 1\<rparr>)\<rparr>"
  have 1: "zenoh_pico_destroy_node_data (Some nd) ?v2 = Inr (True, ?v3)"
    using destroy_node_data_shared [of ?v2 nd nn] n(2,3) by (simp add: v_def)
  let ?v4 = "?v3\<lparr>entities := (entities w)(ea := None), node_infos := drop_ref (node_infos w) ni, topic_infos := drop_ref (topic_infos w) ti\<rparr>"
  have 2: "zenoh_pico_destroy_entity (Some ea) ?v3 = Inr (True, ?v4)"
    using destroy_entity_last [of ?v3 ea e ni i ti t] e by (simp add: v_def)
  have 3: "drain_queue l ?v4 = Inr (l, ?v4)" using q(2) by (intro drain_queue_empty) simp
  have w: "w\<lparr>sub_datas := sub_datas v\<rparr> = v" "next_addr v = next_addr w" "sub_datas v s = Some (d\<lparr>ref := 0\<rparr>)"
    by (simp_all add: v_def)
  have f: "sub_datas ?v4 = sub_datas v" by simp
  show ?thesis
    using u 1 2 3 q(1) n(1) e(1)
    by (simp add: zenoh_pico_destroy_subscription_data_def r w Let_def) (simp add: v_def)
qed

lemma drop_ref_clone: "live h a d \<Longrightarrow> 0 \<le> ref d \<Longrightarrow> ref d \<noteq> 0 \<Longrightarrow> drop_ref (h(a \<mapsto> d\<lparr>ref := ref d + 1\<rparr>)) a = h"
  by (auto simp: drop_ref_def live_def)

text \<open>What an endpoint took is given back: its entity and topic description, and the references on the node and its description.\<close>

lemma heaps_restored:
  assumes "rmw_ok w" "live (node_datas w) nd d" "live (node_infos w) ni i" "0 < ref i"
    and "entities u = (entities w)(Suc (next_addr w) \<mapsto> ent)" "topic_infos u = (topic_infos w)(next_addr w \<mapsto> topic_info_of topic tname hash)"
    and "node_infos u = (node_infos w)(ni \<mapsto> i\<lparr>ref := ref i + 1\<rparr>)" "node_datas u = (node_datas w)(nd \<mapsto> d\<lparr>ref := ref d + 1\<rparr>)"
  shows "(entities u)(Suc (next_addr w) := None) = entities w" "drop_ref (topic_infos u) (next_addr w) = topic_infos w"
    "drop_ref (node_infos u) ni = node_infos w"
    "(node_datas u)(nd \<mapsto> (d\<lparr>ref := ref d + 1\<rparr>)\<lparr>ref := ref (d\<lparr>ref := ref d + 1\<rparr>) - 1\<rparr>) = node_datas w"
proof -
  note fresh = rmw_ok_fresh [OF assms(1)] and freshs = rmw_ok_fresh_numeral [OF assms(1)]
  show "(entities u)(Suc (next_addr w) := None) = entities w" "drop_ref (topic_infos u) (next_addr w) = topic_infos w"
    using fresh freshs by (simp_all add: assms(5,6) drop_ref_def topic_info_of_def fun_upd_idem)
  show "drop_ref (node_infos u) ni = node_infos w" unfolding assms(7) using assms(3,4) by (intro drop_ref_clone) simp_all
  show "(node_datas u)(nd \<mapsto> (d\<lparr>ref := ref d + 1\<rparr>)\<lparr>ref := ref (d\<lparr>ref := ref d + 1\<rparr>) - 1\<rparr>) = node_datas w"
    using assms(2) by (simp add: assms(8) live_def fun_upd_idem)
qed

lemma handle_buffers_freed:
  "rmw_ok w \<Longrightarrow> (bufs w)(next_addr w + 3 \<mapsto> x, next_addr w + 4 \<mapsto> y, next_addr w + 4 := None, next_addr w + 3 := None) = bufs w"
  using rmw_ok_fresh_numeral(1) [of w] by (auto simp: fun_eq_iff)

lemma subscription_data_gone:
  assumes w: "rmw_ok w" "live (node_datas w) nd d" "live (node_infos w) ni i" "ref d \<noteq> 0" "0 < ref i"
    and u: "entities u = (entities w)(Suc (next_addr w) \<mapsto> endpoint_entity w (nd_id d) Subscription ni)"
      "topic_infos u = (topic_infos w)(next_addr w \<mapsto> topic_info_of topic tname hash)" "node_infos u = (node_infos w)(ni \<mapsto> i\<lparr>ref := ref i + 1\<rparr>)"
      "node_datas u = (node_datas w)(nd \<mapsto> d\<lparr>ref := ref d + 1\<rparr>)" "sub_datas u = (sub_datas w)(next_addr w + 2 \<mapsto> sd)"
    and sd: "sub_node sd = Some nd" "sub_entity sd = Some (Suc (next_addr w))" "message_queue sd = recv_msg_list_init" "ref sd = 1" "lock sd = Unlocked"
      "sub_topic sd = None" "sub_liveliness sd = None"
  shows "zenoh_pico_destroy_subscription_data (Some (next_addr w + 2)) u = Inr (True, u\<lparr>sub_datas := sub_datas w, node_datas := node_datas w,
    entities := entities w, node_infos := node_infos w, topic_infos := topic_infos w\<rparr>)"
proof -
  have "zenoh_pico_destroy_subscription_data (Some (next_addr w + 2)) u = Inr (True, u\<lparr>sub_datas := (sub_datas u)(next_addr w + 2 := None), msgs := msgs u,
    node_datas := (node_datas u)(nd \<mapsto> (d\<lparr>ref := ref d + 1\<rparr>)\<lparr>ref := ref (d\<lparr>ref := ref d + 1\<rparr>) - 1\<rparr>),
    entities := (entities u)(Suc (next_addr w) := None), node_infos := drop_ref (node_infos u) ni, topic_infos := drop_ref (topic_infos u) (next_addr w)\<rparr>)"
    by (rule destroy_sub_data_last [of _ _ sd nd "d\<lparr>ref := ref d + 1\<rparr>" "Suc (next_addr w)" "endpoint_entity w (nd_id d) Subscription ni" ni
          "i\<lparr>ref := ref i + 1\<rparr>" "next_addr w" "topic_info_of topic tname hash" recv_msg_list_init])
      (use w(2-4) in \<open>simp_all add: u sd live_def endpoint_entity_def entity_of_def topic_info_of_def pop_destroy_loop_empty\<close>)
  moreover have "(sub_datas u)(next_addr w + 2 := None) = sub_datas w"
    using rmw_ok_fresh [OF w(1)] rmw_ok_fresh_numeral [OF w(1)] by (simp add: u fun_upd_idem)
  ultimately show ?thesis using heaps_restored [OF w(1-3,5) u(1-4)] by simp
qed

text \<open>
  C24: A subscription's life. On a live node with an open session, with memory, valid names and zenoh's consent,
  rmw_create_subscription declares a subscriber on the topic key and then a liveliness token under the endpoint's key, and
  returns a handle. When no message has come in, rmw_destroy_subscription undeclares both and answers OK, and every heap is
  as it was: the handle, its name, the subscription data, its entity and topic description are freed and the
  references taken on the node and its description are given back.
\<close>

theorem subscription_roundtrip:
  assumes "open_node w n nd d ea e ni i" "ref d \<noteq> 0" "0 < ref i" and "topic_args_ok w topic qos" and "rmw_ok w"
    and "convert_hash (\<lambda>_. True) (ts_hash ts) = Inr (Some hash)" "convert_message_type (\<lambda>_. True) (ts_data ts) = Inr (Some tname)"
    and "ros_topic_name_to_zenoh_key (lineness_len (env w)) (\<lambda>_. True) (ni_domain i) (cstr topic) tname hash = Inr (Some tkey)"
    and "key = endpoint_key w (nd_id d) Subscription ni i (topic_info_of topic tname hash)"
    and "zok (env w) (trace w) (ZDeclareSubscriber tkey)" "zok (env w) (ZDeclareSubscriber tkey # trace w) (ZDeclareToken key)"
  shows "\<exists>h w'. rmw_create_subscription (Some n) (Some (Some ts)) (Some topic) (Some qos) True w = Inr (Some h, w') \<and>
    trace w' = [ZDeclareToken key, ZDeclareSubscriber tkey] @ trace w \<and>
    rmw_destroy_subscription (Some n) (Some h) w' = Inr (RMW_RET_OK, w\<lparr>next_addr := next_addr w + 5,
      next_entity_id := (next_entity_id w + 1) mod 2 ^ 64,
      trace := [ZUndeclare key, ZUndeclare tkey, ZDeclareToken key, ZDeclareSubscriber tkey] @ trace w\<rparr>)"
proof -
  let ?n = "next_addr w" and ?sd = "declared_sub (sub_data_of w nd ts qos key tkey)"
  let ?m = "made_sub (nd_id d) ni i topic tname hash ?sd w"
  let ?w = "?m\<lparr>next_addr := ?n + 5, node_datas := (node_datas w)(nd \<mapsto> d\<lparr>ref := ref d + 1\<rparr>),
      bufs := (bufs w)(?n + 3 \<mapsto> [], ?n + 4 \<mapsto> bytes_of (cstr topic) @ [0]),
      trace := ZDeclareToken key # ZDeclareSubscriber tkey # trace w\<rparr>"
  have c: "rmw_create_subscription (Some n) (Some (Some ts)) (Some topic) (Some qos) True w = Inr (Some (sub_handle w), ?w)"
    using create_subscription_run [OF assms(1,4,6-8)] assms(9-11) by simp
  let ?sd2 = "?sd\<lparr>sub_topic := None, sub_liveliness := None\<rparr>"
  let ?u = "?w\<lparr>trace := ZUndeclare key # ZUndeclare tkey # trace ?w, sub_datas := (sub_datas w)(?n + 2 \<mapsto> ?sd2)\<rparr>"
  have sd: "sub_topic ?sd = Some tkey" "sub_liveliness ?sd = Some key" "sub_node ?sd2 = Some nd" "sub_entity ?sd2 = Some (Suc ?n)"
    "message_queue ?sd2 = recv_msg_list_init" "ref ?sd2 = 1" "lock ?sd2 = Unlocked" "sub_topic ?sd2 = None" "sub_liveliness ?sd2 = None"
    by (simp_all add: declared_sub_def sub_data_of_def zero_sub_data_def)
  have u: "undeclaration_subscription_data (Some (?n + 2)) ?w = Inr (True, ?u)"
    using sd(1,2) by (simp add: undeclaration_subscription_data_def made_sub_facts znote_def)
  have l: "live (node_datas w) nd d" "live (node_infos w) ni i" "identifiers_match (implementation_identifier n)"
    using assms(1) by (simp_all add: open_node_def)
  obtain u where u0: "u = ?u" by blast
  have ent: "entities u = (entities w)(Suc ?n \<mapsto> endpoint_entity w (nd_id d) Subscription ni)"
    "topic_infos u = (topic_infos w)(?n \<mapsto> topic_info_of topic tname hash)"
    "node_infos u = (node_infos w)(ni \<mapsto> i\<lparr>ref := ref i + 1\<rparr>)" "sub_datas u = (sub_datas w)(?n + 2 \<mapsto> ?sd2)"
    "node_datas u = (node_datas w)(nd \<mapsto> d\<lparr>ref := ref d + 1\<rparr>)"
    by (simp_all add: u0 made_sub_facts)
  have de: "zenoh_pico_destroy_subscription_data (Some (?n + 2)) ?u = Inr (True, ?u\<lparr>sub_datas := sub_datas w,
    node_datas := node_datas w, entities := entities w, node_infos := node_infos w, topic_infos := topic_infos w\<rparr>)"
    using subscription_data_gone [OF assms(5) l(1,2) assms(2,3) ent(1-3,5,4) sd(3-9)] unfolding u0 by simp
  note b = handle_buffers_freed [OF assms(5)]
  have "rmw_destroy_subscription (Some n) (Some (sub_handle w)) ?w = Inr (RMW_RET_OK, w\<lparr>next_addr := next_addr w + 5,
      next_entity_id := (next_entity_id w + 1) mod 2 ^ 64,
      trace := ZUndeclare key # ZUndeclare tkey # ZDeclareToken key # ZDeclareSubscriber tkey # trace w\<rparr>)"
    using u de l(3) b
    by (simp add: rmw_destroy_subscription_def sub_handle_def identifiers_match_def [of "Some _"] z_free_def)
      (simp add: made_sub_def with_topic_entity_def)
  then show ?thesis using c by (intro exI [of _ "sub_handle w"] exI [of _ ?w]) simp
qed

subsection \<open>Services and clients\<close>

definition srv_data_of ::
  "rmw_mem \<Rightarrow> addr \<Rightarrow> rosidl_service_type_support_t \<Rightarrow> rmw_qos_profile_t \<Rightarrow> string \<Rightarrow> string \<Rightarrow> ZenohPicoServiceData" where
  "srv_data_of w nd ts qos key tkey = zero_service_data\<lparr>ref := 1, srv_id := next_entity_id w, srv_liveliness_key := key,
     srv_topic_key := tkey, srv_node := Some nd, srv_entity := Some (Suc (next_addr w)),
     request_callback := get_request_callback ts, response_callback := get_response_callback ts,
     srv_event_mgr := cleared_mgr zero_mgr,
     srv_attachment := zero_attachment\<lparr>gid := gid_of (env w) tkey, sequence_num := 0\<rparr>, srv_qos_profile := qos\<rparr>"

definition made_srv ::
  "ZenohPicoEntityType \<Rightarrow> nat \<Rightarrow> addr \<Rightarrow> ZenohPicoNodeInfo \<Rightarrow> string \<Rightarrow> string \<Rightarrow> string \<Rightarrow> ZenohPicoServiceData \<Rightarrow> rmw_mem \<Rightarrow> rmw_mem" where
  "made_srv type nid ni i topic tname hash sd w = (with_topic_entity (info_zid (env w)) nid type (Some ni) topic tname hash w)
     \<lparr>node_infos := (node_infos w)(ni \<mapsto> i\<lparr>ref := ref i + 1\<rparr>), next_addr := next_addr w + 3,
      service_datas := (service_datas w)(next_addr w + 2 \<mapsto> sd)\<rparr>"

lemma made_srv_facts:
  "env (made_srv type nid ni i topic tname hash sd w) = env w" "trace (made_srv type nid ni i topic tname hash sd w) = trace w"
  "next_addr (made_srv type nid ni i topic tname hash sd w) = next_addr w + 3" "bufs (made_srv type nid ni i topic tname hash sd w) = bufs w"
  "node_datas (made_srv type nid ni i topic tname hash sd w) = node_datas w" "sessions (made_srv type nid ni i topic tname hash sd w) = sessions w"
  "service_datas (made_srv type nid ni i topic tname hash sd w) = (service_datas w)(next_addr w + 2 \<mapsto> sd)"
  "entities (made_srv type nid ni i topic tname hash sd w) = (entities w)(Suc (next_addr w) \<mapsto> endpoint_entity w nid type ni)"
  "topic_infos (made_srv type nid ni i topic tname hash sd w) = (topic_infos w)(next_addr w \<mapsto> topic_info_of topic tname hash)"
  "node_infos (made_srv type nid ni i topic tname hash sd w) = (node_infos w)(ni \<mapsto> i\<lparr>ref := ref i + 1\<rparr>)"
  "msgs (made_srv type nid ni i topic tname hash sd w) = msgs w"
  by (simp_all add: made_srv_def with_topic_entity_def endpoint_entity_def)

lemma generate_service_data_roomy:
  assumes n: "open_node w n nd d ea e ni i" and r: "roomy w" "len_ok w" "status_fits (layout (env w))" and ty: "type = Service \<or> type = Client"
    and t: "convert_hash (\<lambda>_. True) (service_hash ts) = Inr (Some hash)" "convert_client_type (\<lambda>_. True) (get_request_callback ts) = Inr (Some tname)"
    and k: "ros_topic_name_to_zenoh_key (lineness_len (env w)) (\<lambda>_. True) (ni_domain i) (cstr topic) tname hash = Inr (Some tkey)"
  defines "key \<equiv> endpoint_key w (nd_id d) type ni i (topic_info_of topic tname hash)"
  shows "zenoh_pico_generate_service_data (Some nd) topic ts qos type w =
    Inr (Some (next_addr w + 2), made_srv type (nd_id d) ni i topic tname hash (srv_data_of w nd ts qos key tkey) w)"
proof -
  let ?w1 = "w\<lparr>node_infos := (node_infos w)(ni \<mapsto> i\<lparr>ref := ref i + 1\<rparr>)\<rparr>"
  let ?w2 = "with_topic_entity (info_zid (env w)) (nd_id d) type (Some ni) topic tname hash ?w1"
  let ?e = "endpoint_entity w (nd_id d) type ni" and ?ti = "topic_info_of topic tname hash"
  obtain s where o: "node_datas w nd = Some d" "deref (sessions w) (nd_session d) = Inr s" "nd_entity d = Some ea" "entities w ea = Some e"
    "node_info e = Some ni" "live (node_infos w) ni i"
    using n by (auto simp: open_node_def live_def)
  have c: "clone_node_info (Some nd) w = Inr (d, Some ni, ?w1)" by (rule clone_node_info_live [OF o])
  have g: "zenoh_pico_generate_service_entity_impl (info_zid (env w)) (nd_id d) (Some ni) topic ts qos type ?w1 = Inr (Some (Suc (next_addr w)), ?w2)"
    using generate_service_entity_roomy [of ?w1, OF _ t] r(1) by simp
  have ifs: "(if type = Service then zenoh_pico_generate_service_entity a b c t s q v else zenoh_pico_generate_client_entity a b c t s q v) =
      zenoh_pico_generate_service_entity_impl a b c t s q type v" for a b c t s q and v :: rmw_mem
    using ty by (auto simp: zenoh_pico_generate_service_entity_def zenoh_pico_generate_client_entity_def)
  have f: "roomy ?w2" "env ?w2 = env w" "next_addr ?w2 = Suc (Suc (next_addr w))" "service_datas ?w2 = service_datas w"
    "entities ?w2 (Suc (next_addr w)) = Some ?e" "node_infos ?w2 ni = Some (i\<lparr>ref := ref i + 1\<rparr>)" "topic_infos ?w2 (next_addr w) = Some ?ti"
    using r(1) by (simp_all add: with_topic_entity_def roomy_def endpoint_entity_def)
  have e: "node_info ?e = Some ni" "topic_info ?e = Some (next_addr w)" "ent_id ?e = next_entity_id w"
    by (simp_all add: endpoint_entity_def entity_of_def)
  have key: "generate_liveliness (lineness_len (env w)) (copy_ok (env w)) v ?e = Inr (Some key)"
    if "env v = env w" "node_infos v = node_infos ?w2" "topic_infos v = topic_infos ?w2" for v :: rmw_mem
    using generate_key [of v ?e "i\<lparr>ref := ref i + 1\<rparr>" "Some ?ti"] that r f
    by (simp add: e roomy_def len_ok_def topic_of_def key_def endpoint_key_def key_of_def)
  have tk: "endpoint_topic_key (Some ni) (Some (next_addr w)) v = Inr (Some tkey)"
    if "env v = env w" "node_infos v = node_infos ?w2" "topic_infos v = topic_infos ?w2" for v
    using k that f r(1) by (simp add: endpoint_topic_key_def topic_info_of_def roomy_copy)
  show ?thesis
    unfolding zenoh_pico_generate_service_data_def c ifs
    by (simp add: g roomy_generate [OF f(1)] data_obj_init_def f e key tk Let_def)
      (simp add: made_srv_def with_topic_entity_def srv_data_of_def gen_gid_eq zero_service_data_def recv_msg_list_init_def data_callback_init_run r(3) zero_mgr_def)
qed

definition srv_handle :: "rmw_mem \<Rightarrow> rmw_endpoint_t" where
  "srv_handle w = \<lparr>hdl = next_addr w + 3, implementation_identifier = Some rmw_get_implementation_identifier,
     data = Some (next_addr w + 2), topic_name = Some (next_addr w + 4)\<rparr>"

definition declared_srv :: "ZenohPicoServiceData \<Rightarrow> ZenohPicoServiceData" where
  "declared_srv sd = sd\<lparr>qable := Some (srv_topic_key sd), srv_liveliness := Some (srv_liveliness_key sd)\<rparr>"

lemma create_service_run:
  assumes n: "open_node w n nd d ea e ni i" and r: "topic_args_ok w topic qos" and ty: "type = Service \<or> type = Client"
    and t: "convert_hash (\<lambda>_. True) (service_hash ts) = Inr (Some hash)" "convert_client_type (\<lambda>_. True) (get_request_callback ts) = Inr (Some tname)"
    and k: "ros_topic_name_to_zenoh_key (lineness_len (env w)) (\<lambda>_. True) (ni_domain i) (cstr topic) tname hash = Inr (Some tkey)"
  defines "key \<equiv> endpoint_key w (nd_id d) type ni i (topic_info_of topic tname hash)"
  assumes z: "zok (env w) (trace w) (ZDeclareQueryable tkey)" "zok (env w) (ZDeclareQueryable tkey # trace w) (ZDeclareToken key)"
  defines "w1 \<equiv> made_srv type (nd_id d) ni i topic tname hash (declared_srv (srv_data_of w nd ts qos key tkey)) w"
  shows "create_service_or_client type (Some n) (Some (Some ts)) (Some topic) (Some qos) w =
    Inr (Some (srv_handle w), w1\<lparr>next_addr := next_addr w + 5,
      bufs := (bufs w)(next_addr w + 3 \<mapsto> [], next_addr w + 4 \<mapsto> bytes_of (cstr topic) @ [0]),
      trace := ZDeclareToken key # ZDeclareQueryable tkey # trace w\<rparr>)"
proof -
  let ?sd = "srv_data_of w nd ts qos key tkey"
  let ?m = "made_srv type (nd_id d) ni i topic tname hash ?sd w"
  obtain x where x: "context_impl n w = Inr (Some x)" using context_impl_open [OF n] by blast
  obtain s where o: "data n = Some nd" "node_datas w nd = Some d" "deref (sessions w) (nd_session d) = Inr s" "enable_session s"
    "identifiers_match (implementation_identifier n)"
    using n by (auto simp: open_node_def live_def)
  have en: "isEnableSession (nd_session d) w = Inr True" using o(3,4) by (auto simp: isEnableSession_def deref_eq_Inr)
  have a: "cstr topic \<noteq> []" "avoid_ros_namespace_conventions qos \<or> valid_topic (env w) topic" "roomy w" "len_ok w"
    "status_fits (layout (env w))" using r by (simp_all add: topic_args_ok_def)
  have g: "zenoh_pico_generate_service_data (Some nd) topic ts qos type w = Inr (Some (next_addr w + 2), ?m)"
    unfolding key_def by (rule generate_service_data_roomy [OF n a(3-5) ty t k])
  have rm: "roomy ?m" "roomy (?m\<lparr>next_addr := p, bufs := b\<rparr>)" for p b using a(3) by (simp_all add: roomy_def made_srv_facts)
  let ?b = "?m\<lparr>next_addr := next_addr w + 5, bufs := (bufs w)(next_addr w + 3 \<mapsto> [], next_addr w + 4 \<mapsto> bytes_of (cstr topic) @ [0])\<rparr>"
  have c: "name_buffer topic (?m\<lparr>next_addr := Suc (next_addr w + 3), bufs := (bufs w)(next_addr w + 3 \<mapsto> [])\<rparr>) = (Some (next_addr w + 4), ?b)"
    using name_buffer_roomy [OF rm(2), of topic] by (simp add: eval_nat_numeral)
  have s: "srv_node ?sd = Some nd" "srv_topic_key ?sd = tkey" "srv_liveliness_key ?sd = key"
    by (simp_all add: srv_data_of_def)
  have dd: "declaration_service_data (Some (next_addr w + 2)) ?b =
      Inr (True, ?b\<lparr>trace := ZDeclareToken key # ZDeclareQueryable tkey # trace w,
        service_datas := (service_datas w)(next_addr w + 2 \<mapsto> declared_srv ?sd)\<rparr>)"
    using o(2,3) z by (simp add: declaration_service_data_def made_srv_facts s zcall_def declaration_liveliness_def declared_srv_def)
  have "create_service_or_client type (Some n) (Some (Some ts)) (Some topic) (Some qos) w =
    Inr (Some (srv_handle w), ?b\<lparr>trace := ZDeclareToken key # ZDeclareQueryable tkey # trace w,
        service_datas := (service_datas w)(next_addr w + 2 \<mapsto> declared_srv ?sd)\<rparr>)"
    using x o(1,2,5) en a(1,2) g rm(1) c dd
    by (simp add: create_service_or_client_def rmw_zenoh_pico_check_validate_name_def made_srv_facts buf_put_def srv_handle_def)
  then show ?thesis by (simp add: w1_def made_srv_def with_topic_entity_def entity_of_def)
qed

text \<open>The last release of an undeclared service with empty queues, whose node has no other user.\<close>

lemma destroy_srv_data_last:
  assumes s: "live (service_datas w) s d" "ref d = 1" "srv_liveliness d = None"
    and q: "queue_rep (msgs w) (request_queue d) []" "queue_rep (msgs w) (response_queue d) []"
    and n: "srv_node d = Some nd" "live (node_datas w) nd nn" "ref nn = 1" "nd_entity nn = Some na" "live (entities w) na ne" "ref ne = 1"
      "node_info ne = Some ni" "live (node_infos w) ni i" "ref i \<noteq> 1" "topic_info ne = None"
    and e: "srv_entity d = Some ea" "ea \<noteq> na" "live (entities w) ea e" "ref e = 1" "node_info e = Some ni"
      "topic_info e = Some ti" "live (topic_infos w) ti t"
  shows "zenoh_pico_destroy_service_data (Some s) w = Inr (True, (z_undeclare (nd_token nn) w)\<lparr>
    service_datas := (service_datas w)(s := None), node_datas := (node_datas w)(nd := None),
    entities := (entities w)(na := None, ea := None), node_infos := drop_ref (drop_ref (node_infos w) ni) ni,
    topic_infos := drop_ref (topic_infos w) ti\<rparr>)"
proof -
  let ?u = "z_undeclare (nd_token nn) w"
  have u: "z_undeclare t (v\<lparr>service_datas := h\<rparr>) = (z_undeclare t v)\<lparr>service_datas := h\<rparr>" for t h and v :: rmw_mem
    by (cases t) (simp_all add: znote_def)
  have f: "entities ?u = entities w" "node_infos ?u = node_infos w" "topic_infos ?u = topic_infos w" "node_datas ?u = node_datas w"
    "service_datas ?u = service_datas w" "msgs ?u = msgs w"
    by (cases "nd_token nn"; simp add: znote_def)+
  have r: "ZenohPicoDataRelease (service_datas w) (Some s) = Inr (True, (service_datas w)(s \<mapsto> d\<lparr>ref := 0\<rparr>))"
    using Release_live [OF s(1)] s(2) by simp
  let ?v = "w\<lparr>service_datas := (service_datas w)(s \<mapsto> d\<lparr>ref := 0\<rparr>)\<rparr>"
  let ?v1 = "?u\<lparr>service_datas := (service_datas w)(s \<mapsto> d\<lparr>ref := 0\<rparr>), node_datas := (node_datas w)(nd := None),
      entities := (entities w)(na := None), node_infos := drop_ref (node_infos w) ni\<rparr>"
  have 1: "zenoh_pico_destroy_node_data (Some nd) ?v = Inr (True, ?v1)"
    using destroy_node_data_last [of ?v nd nn na ne ni i] n by (simp add: u)
  have l: "live (node_infos ?v1) ni (i\<lparr>ref := ref i - 1\<rparr>)" using n(8,9) by (simp add: live_def drop_ref_def)
  let ?v2 = "?v1\<lparr>entities := (entities w)(na := None, ea := None), node_infos := drop_ref (drop_ref (node_infos w) ni) ni,
      topic_infos := drop_ref (topic_infos w) ti\<rparr>"
  have 2: "zenoh_pico_destroy_entity (Some ea) ?v1 = Inr (True, ?v2)"
    using destroy_entity_last [OF _ e(4,5) l e(6)] e(2,3,7) f by (simp add: live_def)
  have 3: "drain_queue (request_queue d) ?v2 = Inr (request_queue d, ?v2)" "drain_queue (response_queue d) ?v2 = Inr (response_queue d, ?v2)"
    using q f(6) by (simp_all add: drain_queue_empty)
  show ?thesis
    using 1 2 3 s(3) n(1) e(1) f(5)
    by (simp add: zenoh_pico_destroy_service_data_def r Let_def)
qed

lemma reply_to_freed_client:
  assumes "roomy w" and "service_datas w a = None"
    and "attachment_data_get (codec (env w)) (sample_attachment s) zero_attachment = (True, att)"
  shows "reply_handler (Some s) (Some a) w = Inl UseAfterFree"
proof -
  let ?w1 = "w\<lparr>ticks := Suc (ticks w)\<rparr>"
  have "roomy ?w1" using assms(1) by (simp add: roomy_def)
  then have g: "rmw_zenoh_pico_generate_recv_sample_msg_data s t ?w1 = Inr (Some (next_addr w),
      with_msg (sample_msg (Suc (next_addr w)) (sample_payload s) t att) (sample_payload s) ?w1)" for t
    using recv_sample_roomy [of ?w1 s att t] assms(3) by simp
  have "service_datas (with_msg md bs ?w1) a = None" for md bs using assms(2) by (simp add: with_msg_def)
  then show ?thesis
    unfolding reply_handler_eq
    by (subst handle_sample_def, subst timestamp_split) (simp add: g add_new_replay_message_def srv_append_response_def)
qed

lemma destroy_node_freed:
  "identifiers_match (implementation_identifier n) \<Longrightarrow> data n = Some nd \<Longrightarrow> node_datas w nd = None \<Longrightarrow>
    rmw_destroy_node (Some n) w = Inl UseAfterFree"
  by (simp add: rmw_destroy_node_def rmw_node_destroy_def zenoh_pico_destroy_node_data_def ZenohPicoDataRelease_def ZenohPicoDataRefDec_def)

lemma destroy_service_run:
  assumes "open_node w n nd d ea e ni i" and "ref d = 1" "ref e = 1" "topic_info e = None" "0 < ref i" and ok: "rmw_ok w"
    and sd_def: "sd = declared_srv (srv_data_of w nd ts qos key tkey)"
    and v_def: "v = (made_srv type (nd_id d) ni i topic tname hash sd w)\<lparr>next_addr := next_addr w + 5,
      bufs := (bufs w)(next_addr w + 3 \<mapsto> [], next_addr w + 4 \<mapsto> bs), trace := tr\<rparr>"
  shows "\<exists>w'. destroy_service_or_client (Some n) (Some (srv_handle w)) v = Inr (RMW_RET_OK, w') \<and>
    trace w' = trace (z_undeclare (nd_token d) (v\<lparr>trace := ZUndeclare key # ZUndeclare tkey # tr\<rparr>)) \<and> env w' = env w \<and>
    node_datas w' = (node_datas w)(nd := None) \<and> service_datas w' = service_datas w \<and> bufs w' = bufs w \<and>
    entities w' = (entities w)(ea := None) \<and> topic_infos w' = topic_infos w \<and> node_infos w' = drop_ref (node_infos w) ni"
proof -
  let ?n = "next_addr w"
  let ?sd = "sd\<lparr>qable := None, srv_liveliness := None\<rparr>"
  let ?u = "v\<lparr>trace := ZUndeclare key # ZUndeclare tkey # tr, service_datas := (service_datas w)(?n + 2 \<mapsto> ?sd)\<rparr>"
  note fresh = rmw_ok_fresh [OF ok] and freshs = rmw_ok_fresh_numeral [OF ok]
  have sd: "qable sd = Some tkey" "srv_liveliness sd = Some key" "srv_node ?sd = Some nd" "srv_entity ?sd = Some (Suc ?n)"
    "request_queue ?sd = recv_msg_list_init" "response_queue ?sd = recv_msg_list_init" "ref ?sd = 1" "lock ?sd = Unlocked"
    "srv_liveliness ?sd = None"
    by (simp_all add: sd_def declared_srv_def srv_data_of_def zero_service_data_def)
  have u: "undeclaration_service_data (Some (?n + 2)) v = Inr (False, ?u)"
    using sd(1,2) by (simp add: undeclaration_service_data_def v_def made_srv_facts znote_def)
  have l: "live (node_datas w) nd d" "nd_entity d = Some ea" "live (entities w) ea e" "node_info e = Some ni" "live (node_infos w) ni i"
    "identifiers_match (implementation_identifier n)" "node_context n \<noteq> None"
    using assms(1) by (auto simp: open_node_def)
  have ea: "Suc ?n \<noteq> ea" using l(3) fresh(4) [of "Suc ?n"] by (auto simp: live_def)
  obtain x where x0: "x = ?u" by blast
  have ent: "entities x = (entities w)(Suc ?n \<mapsto> endpoint_entity w (nd_id d) type ni)"
    "topic_infos x = (topic_infos w)(?n \<mapsto> topic_info_of topic tname hash)" "node_infos x = (node_infos w)(ni \<mapsto> i\<lparr>ref := ref i + 1\<rparr>)"
    "service_datas x = (service_datas w)(?n + 2 \<mapsto> ?sd)" "node_datas x = node_datas w"
    "trace x = ZUndeclare key # ZUndeclare tkey # tr" "env x = env w" "bufs x = (bufs w)(?n + 3 \<mapsto> [], ?n + 4 \<mapsto> bs)"
    by (simp_all add: x0 v_def made_srv_facts)
  let ?y = "(z_undeclare (nd_token d) x)\<lparr>
    service_datas := (service_datas x)(?n + 2 := None), node_datas := (node_datas x)(nd := None),
    entities := (entities x)(ea := None, Suc ?n := None), node_infos := drop_ref (drop_ref (node_infos x) ni) ni,
    topic_infos := drop_ref (topic_infos x) ?n\<rparr>"
  have de: "zenoh_pico_destroy_service_data (Some (?n + 2)) x = Inr (True, ?y)"
    by (rule destroy_srv_data_last [of _ _ ?sd nd d ea e ni "i\<lparr>ref := ref i + 1\<rparr>" "Suc ?n" "endpoint_entity w (nd_id d) type ni"
          ?n "topic_info_of topic tname hash"])
      (use l assms(2-5) ea in \<open>simp_all add: ent sd live_def endpoint_entity_def entity_of_def topic_info_of_def\<close>)
  have "(service_datas x)(?n + 2 := None) = service_datas w" "drop_ref (topic_infos x) ?n = topic_infos w"
    using fresh freshs by (simp_all add: ent drop_ref_def topic_info_of_def fun_upd_idem)
  moreover have "(entities x)(ea := None, Suc ?n := None) = (entities w)(ea := None)"
    using fresh(4) [of "Suc ?n"] ea by (auto simp: ent fun_eq_iff)
  moreover have "drop_ref (drop_ref (node_infos x) ni) ni = drop_ref (node_infos w) ni"
    unfolding ent using drop_ref_clone [OF l(5)] assms(5) by simp
  moreover have tr: "trace (z_undeclare t x) = trace (z_undeclare t (v\<lparr>trace := ZUndeclare key # ZUndeclare tkey # tr\<rparr>))"
    "env (z_undeclare t x) = env x" "bufs (z_undeclare t x) = bufs x" for t
    using ent(6) by (cases t; simp add: znote_def)+
  ultimately have y: "service_datas ?y = service_datas w" "topic_infos ?y = topic_infos w" "entities ?y = (entities w)(ea := None)"
    "node_infos ?y = drop_ref (node_infos w) ni" "node_datas ?y = (node_datas w)(nd := None)" "env ?y = env w"
    "bufs ?y = (bufs w)(?n + 3 \<mapsto> [], ?n + 4 \<mapsto> bs)"
    "trace ?y = trace (z_undeclare (nd_token d) (v\<lparr>trace := ZUndeclare key # ZUndeclare tkey # tr\<rparr>))"
    by (simp_all add: ent(5,7,8))
  obtain y where y0: "y = ?y" by blast
  have b: "(bufs w)(?n + 3 \<mapsto> [], ?n + 4 \<mapsto> bs, ?n + 4 := None, ?n + 3 := None) = bufs w" using freshs(1) by (auto simp: fun_eq_iff)
  have ux: "undeclaration_service_data (Some (?n + 2)) v = Inr (False, x)" unfolding x0 by (rule u)
  have dx: "zenoh_pico_destroy_service_data (Some (?n + 2)) x = Inr (True, y)" unfolding y0 by (rule de)
  have yb: "bufs y (?n + 4) = Some bs" "bufs y (?n + 3) = Some []" "(bufs y)(?n + 4 := None, ?n + 3 := None) = bufs w"
    using y(7) b by (simp_all add: y0)
  have "destroy_service_or_client (Some n) (Some (srv_handle w)) v = Inr (RMW_RET_OK, y\<lparr>bufs := bufs w\<rparr>)"
    using ux dx l(6,7) yb
    by (simp add: destroy_service_or_client_def srv_handle_def identifiers_match_def [of "Some _"] z_free_def del: add_2_eq_Suc')
  then show ?thesis using y by (intro exI [of _ "y\<lparr>bufs := bufs w\<rparr>"]) (simp add: y0)
qed

text \<open>
  C29: A service takes the node away. rmw_create_service and rmw_create_client use the node data without taking a
  reference, but rmw_destroy_service and rmw_destroy_client release one. On a node without other users, with memory,
  valid names and zenoh's consent, creating either declares a queryable (for a client too) and a liveliness token and
  leaves the node's reference count alone; destroying it answers OK, undeclares both, and also undeclares the token of the
  node and frees the node data and its entity. From then on rmw_destroy_node uses freed memory, and so does the
  handler of a reply that is still on its way to the destroyed client.
\<close>

theorem service_takes_node_reference:
  assumes "open_node w n nd d ea e ni i" and "ref d = 1" "nd_token d = Some nkey" "ref e = 1" "topic_info e = None" "0 < ref i"
    and "topic_args_ok w topic qos" and "rmw_ok w"
    and "(type, create, destroy) \<in> {(Service, rmw_create_service, rmw_destroy_service), (Client, rmw_create_client, rmw_destroy_client)}"
    and "convert_hash (\<lambda>_. True) (service_hash ts) = Inr (Some hash)" "convert_client_type (\<lambda>_. True) (get_request_callback ts) = Inr (Some tname)"
    and "ros_topic_name_to_zenoh_key (lineness_len (env w)) (\<lambda>_. True) (ni_domain i) (cstr topic) tname hash = Inr (Some tkey)"
    and "key = endpoint_key w (nd_id d) type ni i (topic_info_of topic tname hash)"
    and "zok (env w) (trace w) (ZDeclareQueryable tkey)" "zok (env w) (ZDeclareQueryable tkey # trace w) (ZDeclareToken key)"
    and "attachment_data_get (codec (env w)) (sample_attachment s) zero_attachment = (True, att)"
  shows "\<exists>h w' w''. create (Some n) (Some (Some ts)) (Some topic) (Some qos) w = Inr (Some h, w') \<and>
    trace w' = [ZDeclareToken key, ZDeclareQueryable tkey] @ trace w \<and> node_datas w' nd = Some d \<and>
    destroy (Some n) (Some h) w' = Inr (RMW_RET_OK, w'') \<and>
    trace w'' = [ZUndeclare nkey, ZUndeclare key, ZUndeclare tkey] @ trace w' \<and>
    node_datas w'' nd = None \<and> entities w'' ea = None \<and> service_datas w'' = service_datas w \<and> bufs w'' = bufs w \<and>
    rmw_destroy_node (Some n) w'' = Inl UseAfterFree \<and> reply_handler (Some s) (data h) w'' = Inl UseAfterFree"
proof -
  let ?sd = "declared_srv (srv_data_of w nd ts qos key tkey)"
  let ?w = "(made_srv type (nd_id d) ni i topic tname hash ?sd w)\<lparr>next_addr := next_addr w + 5,
      bufs := (bufs w)(next_addr w + 3 \<mapsto> [], next_addr w + 4 \<mapsto> bytes_of (cstr topic) @ [0]),
      trace := ZDeclareToken key # ZDeclareQueryable tkey # trace w\<rparr>"
  have ty: "type = Service \<or> type = Client" and
    cd: "create (Some n) (Some (Some ts)) (Some topic) (Some qos) w = create_service_or_client type (Some n) (Some (Some ts)) (Some topic) (Some qos) w"
      "destroy (Some n) h v = destroy_service_or_client (Some n) h v" for h v
    using assms(9) by (auto simp: rmw_create_service_def rmw_create_client_def rmw_destroy_service_def rmw_destroy_client_def)
  have c: "create (Some n) (Some (Some ts)) (Some topic) (Some qos) w = Inr (Some (srv_handle w), ?w)"
    unfolding cd using create_service_run [OF assms(1,7) ty assms(10-12)] assms(13-15) by simp
  obtain w' where w': "destroy (Some n) (Some (srv_handle w)) ?w = Inr (RMW_RET_OK, w')"
    "trace w' = trace (z_undeclare (nd_token d) (?w\<lparr>trace := ZUndeclare key # ZUndeclare tkey # ZDeclareToken key # ZDeclareQueryable tkey # trace w\<rparr>))"
    "env w' = env w" "node_datas w' = (node_datas w)(nd := None)" "service_datas w' = service_datas w" "bufs w' = bufs w"
    "entities w' = (entities w)(ea := None)"
    unfolding cd using destroy_service_run [OF assms(1,2,4-6,8) refl refl] by blast
  have n: "identifiers_match (implementation_identifier n)" "data n = Some nd" "node_datas w nd = Some d" "roomy w"
    using assms(1,7) by (auto simp: open_node_def topic_args_ok_def live_def)
  have "rmw_destroy_node (Some n) w' = Inl UseAfterFree" using n w'(4) by (intro destroy_node_freed [of n nd]) simp_all
  moreover have "reply_handler (Some s) (data (srv_handle w)) w' = Inl UseAfterFree"
    using reply_to_freed_client [of w' "next_addr w + 2" s att] n(4) w'(3,5) rmw_ok_fresh_numeral(9) [OF assms(8), of 2] assms(16)
    by (simp add: srv_handle_def roomy_def)
  moreover have "trace w' = [ZUndeclare nkey, ZUndeclare key, ZUndeclare tkey] @ trace ?w"
    using w'(2) assms(3) by (simp add: znote_def)
  ultimately show ?thesis
    using c w' n(3) by (intro exI [of _ "srv_handle w"] exI [of _ ?w] exI [of _ w']) (simp add: made_srv_facts)
qed

subsection \<open>An example\<close>

text \<open>A node (data 12, entity 11, description 10) with one reference each.\<close>

definition life_info :: ZenohPicoNodeInfo where
  "life_info = \<lparr>ref = 1, lock = Unlocked, ni_domain = ''42'', ni_ns = ''/'', ni_name = ''talker'', ni_enclave = ''/''\<rparr>"

definition life_entity :: ZenohPicoEntity where
  "life_entity = \<lparr>ref = 1, lock = Unlocked, ent_zid = ''aabb'', ent_id = 0, ent_nid = 0, ent_type = Node,
     node_info = Some 10, topic_info = None\<rparr>"

definition life_data :: ZenohPicoNodeData where
  "life_data = zero_node_data\<lparr>ref := 1, nd_liveliness_key := ''k'', nd_token := Some ''k'', nd_session := Some zenohSession,
     nd_entity := Some 11\<rparr>"

definition life_mem :: rmw_mem where
  "life_mem = open_mem\<lparr>next_addr := 20, bufs := [13 \<mapsto> [], 14 \<mapsto> [], 15 \<mapsto> []], node_infos := [10 \<mapsto> life_info],
     entities := [11 \<mapsto> life_entity], node_datas := [12 \<mapsto> life_data]\<rparr>"

definition life_node :: rmw_node_t where
  "life_node = \<lparr>hdl = 13, implementation_identifier = Some rmw_get_implementation_identifier, data = Some 12,
     node_name = Some 14, node_namespace = Some 15, node_context = Some 7\<rparr>"

lemma life_mem_env [simp]: "env life_mem = small_env" "trace life_mem = []" "next_addr life_mem = 20"
  "node_infos life_mem = [10 \<mapsto> life_info]" "node_datas life_mem = [12 \<mapsto> life_data]" "entities life_mem = [11 \<mapsto> life_entity]"
  by (simp_all add: life_mem_def open_mem_def)

lemma life_mem_ok: "rmw_ok life_mem"
  using open_mem_ok by (simp add: rmw_ok_def ent_ok_def mem_ok_def life_mem_def)
    (simp add: open_mem_def start_mem_def wait_mem.defs small_wait_mem_def small_msg_mem_def msg_mem.defs ent_mem.defs mem.defs small_mem_def)

lemma life_open_node: "open_node life_mem life_node 12 life_data 11 life_entity 10 life_info"
  by (simp add: open_node_def live_def life_node_def life_data_def life_entity_def life_info_def zero_node_data_def identifiers_match_def)
    (simp add: life_mem_def open_mem_def open_context_def open_session_def used_session_def)

lemma life_roomy: "roomy life_mem" "len_ok life_mem"
  by (simp_all add: roomy_def len_ok_def small_env_def)

lemma life_topic_args: "topic_args_ok life_mem ''/chatter'' zero_qos"
  using life_roomy by (simp add: topic_args_ok_def small_env_def cstr_def NUL_def)

text \<open>The text of a type hash is a zenoh string of 71 characters, so a topic key with it stays within its buffer.\<close>

lemma hash_text:
  assumes "length value = ROSIDL_TYPE_HASH_SIZE"
  shows "\<exists>h. convert_hash (\<lambda>_. True) value = Inr (Some h) \<and> z_text h \<and> length h = 71"
proof -
  let ?s = "RIHS01_PREFIX @ concat (map hex_byte value)"
  have c: "NUL \<notin> set ?s" using hex_byte_clean by (auto simp: RIHS01_PREFIX_def NUL_def)
  then have "convert_hash (\<lambda>_. True) value = Inr (Some ?s)"
    using convert_hash_eq [OF assms, of "\<lambda>_. True"] cstr_id [of ?s] by (simp add: z_string_copy_from_str_def)
  moreover have "length ?s = 71" using assms by (simp add: length_hex RIHS01_PREFIX_def ROSIDL_TYPE_HASH_SIZE_def)
  ultimately show ?thesis using c by (intro exI [of _ ?s]) (simp only: z_text_def simp_thms)
qed

lemma topic_key_fits:
  assumes "z_text domain" "z_text name" "z_text type" "z_text hash" and "N < 2 ^ 31" "length (topic_key_text domain name type hash) < N"
  shows "ros_topic_name_to_zenoh_key N (\<lambda>_. True) domain name type hash = Inr (Some (topic_key_text domain name type hash))"
proof -
  have "length (key_front domain name) \<le> N" using assms(6) by (simp add: topic_key_text_def)
  then show ?thesis using topic_key_general [OF assms(1-4), of N "\<lambda>_. True"] assms(5,6) by (simp add: Let_def)
qed

theorem subscription_roundtrip_witness:
  "\<exists>h w' w''. rmw_create_subscription (Some life_node) (Some (Some example_type_support)) (Some ''/chatter'') (Some zero_qos) True life_mem
      = Inr (Some h, w') \<and> length (trace w') = 2 \<and>
    rmw_destroy_subscription (Some life_node) (Some h) w' = Inr (RMW_RET_OK, w'') \<and> sub_datas w'' = sub_datas life_mem \<and>
    length (trace w'') = 4"
proof -
  obtain hash where h: "convert_hash (\<lambda>_. True) (ts_hash example_type_support) = Inr (Some hash)" "z_text hash" "length hash = 71"
    using hash_text [of "replicate 32 0xAB"] by (auto simp: example_type_support_def ROSIDL_TYPE_HASH_SIZE_def)
  let ?t = "''example_interfaces::srv::dds_::AddTwoInts_Request_''" and ?topic = "''/chatter''"
  have t: "convert_message_type (\<lambda>_. True) (ts_data example_type_support) = Inr (Some ?t)"
    using example_type_name by (simp add: example_type_support_def)
  have k: "ros_topic_name_to_zenoh_key (lineness_len (env life_mem)) (\<lambda>_. True) (ni_domain life_info) (cstr ?topic) ?t hash =
      Inr (Some (topic_key_text ''42'' (cstr ?topic) ?t hash))"
    using h(2,3) topic_key_fits [of "''42''" "cstr ?topic" ?t hash 256]
    by (simp add: small_env_def life_info_def cstr_def NUL_def topic_key_text_def key_front_def name_part_def z_text_def)
  have r: "ref life_data \<noteq> 0" "0 < ref life_info" by (simp_all add: life_data_def life_info_def)
  have z: "zok (env life_mem) t c" for t c by (simp add: small_env_def)
  from subscription_roundtrip [OF life_open_node r life_topic_args life_mem_ok h(1) t k refl z z]
  obtain h w' w'' where "rmw_create_subscription (Some life_node) (Some (Some example_type_support)) (Some ?topic) (Some zero_qos) True life_mem
      = Inr (Some h, w')" "length (trace w') = 2" "rmw_destroy_subscription (Some life_node) (Some h) w' = Inr (RMW_RET_OK, w'')"
    "sub_datas w'' = sub_datas life_mem" "length (trace w'') = 4" by fastforce
  then show ?thesis by blast
qed

definition small_mutexes :: rmw_mem where
  "small_mutexes = life_mem\<lparr>env := small_env\<lparr>layout := \<lparr>word_bytes = 4, mutex_bytes = 4\<rparr>\<rparr>\<rparr>"

theorem event_status_overruns_witness:
  "rmw_create_subscription (Some life_node) (Some (Some example_type_support)) (Some ''/chatter'') (Some zero_qos) True small_mutexes =
    Inl OutOfBounds"
proof -
  obtain hash where h: "convert_hash (\<lambda>_. True) (ts_hash example_type_support) = Inr (Some hash)" "z_text hash" "length hash = 71"
    using hash_text [of "replicate 32 0xAB"] by (auto simp: example_type_support_def ROSIDL_TYPE_HASH_SIZE_def)
  let ?t = "''example_interfaces::srv::dds_::AddTwoInts_Request_''" and ?topic = "''/chatter''"
  have t: "convert_message_type (\<lambda>_. True) (ts_data example_type_support) = Inr (Some ?t)"
    using example_type_name by (simp add: example_type_support_def)
  have k: "ros_topic_name_to_zenoh_key (lineness_len (env small_mutexes)) (\<lambda>_. True) (ni_domain life_info) (cstr ?topic) ?t hash =
      Inr (Some (topic_key_text ''42'' (cstr ?topic) ?t hash))"
    using h(2,3) topic_key_fits [of "''42''" "cstr ?topic" ?t hash 256]
    by (simp add: small_mutexes_def small_env_def life_info_def cstr_def NUL_def topic_key_text_def key_front_def name_part_def z_text_def)
  have n: "open_node small_mutexes life_node 12 life_data 11 life_entity 10 life_info"
    using life_open_node by (simp add: open_node_def small_mutexes_def)
  have r: "roomy small_mutexes" "len_ok small_mutexes" "\<not> status_fits (layout (env small_mutexes))" "valid_topic (env small_mutexes) s" for s
    by (simp_all add: small_mutexes_def roomy_def len_ok_def small_env_def status_fits_def status_size_def mutex_size_def)
  show ?thesis by (rule event_status_overruns [OF n r(1-3) _ _ h(1) t k]) (simp_all add: r(4) cstr_def NUL_def)
qed

definition life_service :: rosidl_service_type_support_t where
  "life_service = \<lparr>request_members = example_type_support, response_members = example_type_support, service_hash = replicate 32 0xAB\<rparr>"

lemma life_service_type: "convert_client_type (\<lambda>_. True) (get_request_callback life_service) =
    Inr (Some ''example_interfaces::srv::dds_::AddTwoInts_'')"
  using convert_client_type_name [of example_callbacks "''AddTwoInts''" "''example_interfaces::srv''"]
  by (simp add: life_service_def get_request_callback_def example_type_support_def example_callbacks_def NUL_def)

theorem service_takes_node_reference_witness:
  "\<exists>h w' w''. rmw_create_client (Some life_node) (Some (Some life_service)) (Some ''/add'') (Some zero_qos) life_mem = Inr (Some h, w') \<and>
    rmw_destroy_client (Some life_node) (Some h) w' = Inr (RMW_RET_OK, w'') \<and> rmw_destroy_node (Some life_node) w'' = Inl UseAfterFree \<and>
    reply_handler (Some pong) (data h) w'' = Inl UseAfterFree"
proof -
  obtain hash where h: "convert_hash (\<lambda>_. True) (service_hash life_service) = Inr (Some hash)" "z_text hash" "length hash = 71"
    using hash_text [of "replicate 32 0xAB"] by (auto simp: life_service_def ROSIDL_TYPE_HASH_SIZE_def)
  let ?t = "''example_interfaces::srv::dds_::AddTwoInts_''" and ?topic = "''/add''"
  have k: "ros_topic_name_to_zenoh_key (lineness_len (env life_mem)) (\<lambda>_. True) (ni_domain life_info) (cstr ?topic) ?t hash =
      Inr (Some (topic_key_text ''42'' (cstr ?topic) ?t hash))"
    using h(2,3) topic_key_fits [of "''42''" "cstr ?topic" ?t hash 256]
    by (simp add: small_env_def life_info_def cstr_def NUL_def topic_key_text_def key_front_def name_part_def z_text_def)
  have r: "ref life_data = 1" "nd_token life_data = Some ''k''" "ref life_entity = 1" "topic_info life_entity = None" "0 < ref life_info"
    by (simp_all add: life_data_def life_info_def life_entity_def)
  have a: "topic_args_ok life_mem ?topic zero_qos"
    using life_roomy by (simp add: topic_args_ok_def small_env_def cstr_def NUL_def)
  have z: "zok (env life_mem) t c" for t c by (simp add: small_env_def)
  have m: "(Client, rmw_create_client, rmw_destroy_client) \<in>
    {(Service, rmw_create_service, rmw_destroy_service), (Client, rmw_create_client, rmw_destroy_client)}" by simp
  have att: "attachment_data_get (codec (env life_mem)) (sample_attachment pong) zero_attachment =
      (True, \<lparr>sequence_num = 3, timestamp = 4, gid = replicate 16 9\<rparr>)"
    using ping_attachment by (simp add: pong_def small_env_def)
  show ?thesis
    using service_takes_node_reference [OF life_open_node r a life_mem_ok m h(1) life_service_type k refl z z att] by blast
qed

end
