(* ===== verification/Running.thy ===== *)
theory Running
  imports Lifecycle
begin

section \<open>The running system\<close>

text \<open>
  Once its endpoints exist, the middleware runs as a transition system: samples, queries and replies arrive in any
  order for any endpoint, and the application publishes, takes, requests and responds in between, while memory
  runs out, attachments cannot be read and type supports fail as the environment likes.  This theory gives the invariant
  of that system, shows for each operation that it keeps it and comes back without a fault, and draws the conclusion for
  every reachable state.
\<close>

subsection \<open>Results that hold for sure\<close>

definition ensures :: "'a res \<Rightarrow> ('a \<Rightarrow> bool) \<Rightarrow> bool" where
  "ensures r P = (case r of Inl _ \<Rightarrow> False | Inr x \<Rightarrow> P x)"

lemma ensures_simps [simp]:
  "ensures (Inr x) P = P x" "\<not> ensures (Inl e) P" "ensures (andthen r f) P = ensures r (\<lambda>x. ensures (f x) P)"
  by (simp_all add: ensures_def andthen_def split: sum.split)

lemma ensures_mono: "ensures r P \<Longrightarrow> (\<And>x. P x \<Longrightarrow> Q x) \<Longrightarrow> ensures r Q"
  by (cases r) simp_all

lemma ensures_iff: "ensures r P \<longleftrightarrow> (\<exists>x. r = Inr x \<and> P x)"
  by (cases r) simp_all

lemma ensures_deref [simp]: "ensures (deref h p) P \<longleftrightarrow> (\<exists>a d. p = Some a \<and> h a = Some d \<and> P d)"
  by (auto simp: deref_def split: option.split)

subsection \<open>Messages with payloads of their own\<close>

text \<open>\<open>parcel h b m p\<close>: a message object referenced once whose payload lies in the buffer \<open>p\<close>, header included.\<close>

definition parcel :: "msg_heap \<Rightarrow> (addr \<rightharpoonup> byte list) \<Rightarrow> addr \<Rightarrow> addr \<Rightarrow> bool" where
  "parcel h b m p \<longleftrightarrow> (\<exists>d bs. h m = Some d \<and> lock d = Unlocked \<and> ref d = 1 \<and> payload_start d = Some p \<and>
     b p = Some bs \<and> payload_size d = length bs \<and> ROS2_MSG_OFFSET \<le> length bs)"

definition pool :: "msg_heap \<Rightarrow> (addr \<rightharpoonup> byte list) \<Rightarrow> addr set \<Rightarrow> bool" where
  "pool h b M \<longleftrightarrow> (\<forall>m \<in> M. \<exists>p. parcel h b m p) \<and> (\<forall>m \<in> M. \<forall>m' \<in> M. \<forall>p. parcel h b m p \<longrightarrow> parcel h b m' p \<longrightarrow> m = m')"

lemma parcel_unique: "parcel h b m p \<Longrightarrow> parcel h b m q \<Longrightarrow> p = q"
  by (auto simp: parcel_def)

lemma parcelD:
  assumes "parcel h b m p" and "h m = Some d"
  shows "lock d = Unlocked" "ref d = 1" "payload_start d = Some p" "\<exists>bs. b p = Some bs \<and> payload_size d = length bs \<and> ROS2_MSG_OFFSET \<le> length bs"
  using assms by (auto simp: parcel_def)

lemma parcel_cong:
  assumes "parcel h b m p" and "map_option (\<lambda>d. d\<lparr>next_msg := None\<rparr>) (h m) = map_option (\<lambda>d. d\<lparr>next_msg := None\<rparr>) (h' m)"
    and "b' p = b p"
  shows "parcel h' b' m p"
proof -
  obtain d bs where d: "h m = Some d" "lock d = Unlocked" "ref d = 1" "payload_start d = Some p" "b p = Some bs"
    "payload_size d = length bs" "ROS2_MSG_OFFSET \<le> length bs"
    using assms(1) unfolding parcel_def by blast
  have "same_msgs [m \<mapsto> d] [m \<mapsto> the (h' m)]"
    using assms(2) d(1) by (cases "h' m") (simp_all add: same_msgs_def)
  moreover have "[m \<mapsto> d] m = Some d" by simp
  ultimately obtain n where "[m \<mapsto> the (h' m)] m = Some (d\<lparr>next_msg := n\<rparr>)" using same_msgsD by blast
  then have "h' m = Some (d\<lparr>next_msg := n\<rparr>)" using assms(2) d(1) by (cases "h' m") simp_all
  then show ?thesis using d assms(3) by (simp add: parcel_def)
qed

lemma pool_subset: "pool h b M \<Longrightarrow> N \<subseteq> M \<Longrightarrow> pool h b N"
  unfolding pool_def by (meson subsetD)

lemma pool_cong:
  assumes "pool h b M" and s: "\<And>m. m \<in> M \<Longrightarrow> map_option (\<lambda>d. d\<lparr>next_msg := None\<rparr>) (h m) = map_option (\<lambda>d. d\<lparr>next_msg := None\<rparr>) (h' m)"
    and b: "\<And>m p. m \<in> M \<Longrightarrow> parcel h b m p \<Longrightarrow> b' p = b p"
  shows "pool h' b' M"
proof -
  have 1: "\<exists>p. parcel h b m p \<and> parcel h' b' m p" if m: "m \<in> M" for m
  proof -
    obtain p where p: "parcel h b m p" using assms(1) m unfolding pool_def by blast
    then have "parcel h' b' m p" using parcel_cong [of h b m p h' b'] s [OF m] b [OF m p] by simp
    with p show ?thesis by blast
  qed
  have 2: "parcel h b m p" if "m \<in> M" "parcel h' b' m p" for m p
    using 1 [OF that(1)] parcel_unique [OF that(2)] by blast
  have "m = m'" if "m \<in> M" "m' \<in> M" "parcel h' b' m p" "parcel h' b' m' p" for m m' p
    using assms(1) 2 [OF that(1,3)] 2 [OF that(2,4)] that(1,2) unfolding pool_def by blast
  with 1 show ?thesis unfolding pool_def by blast
qed

lemma pool_same: "pool h b M \<Longrightarrow> same_msgs h h' \<Longrightarrow> pool h' b M"
  by (erule pool_cong) (simp_all add: same_msgs_def)

lemma pool_insert:
  assumes "pool h b M" and "parcel h b m p" and "\<And>m'. m' \<in> M \<Longrightarrow> \<not> parcel h b m' p"
  shows "pool h b (insert m M)"
proof -
  have u: "q = p" if "parcel h b m q" for q using parcel_unique [OF that assms(2)] .
  have "m1 = m2" if "m1 \<in> insert m M" "m2 \<in> insert m M" "parcel h b m1 q" "parcel h b m2 q" for m1 m2 q
    using that u assms(1,3) unfolding pool_def by blast
  then show ?thesis using assms(1,2) unfolding pool_def by blast
qed

text \<open>
  What is inside: the fields of the message object that do not depend on where it lies, and the bytes of its payload.
  Unspecified for an address without a message.
\<close>

type_synonym letter = "ReceiveMessageData \<times> byte list"

definition letter_at :: "msg_heap \<Rightarrow> (addr \<rightharpoonup> byte list) \<Rightarrow> addr \<Rightarrow> letter" where
  "letter_at h b m = (let d = the (h m) in (d\<lparr>next_msg := None, payload_start := None\<rparr>, the (b (the (payload_start d)))))"

lemma letter_cong:
  assumes "parcel h b m p" and "map_option (\<lambda>d. d\<lparr>next_msg := None\<rparr>) (h m) = map_option (\<lambda>d. d\<lparr>next_msg := None\<rparr>) (h' m)"
    and "b' p = b p"
  shows "letter_at h' b' m = letter_at h b m"
proof -
  obtain d where d: "h m = Some d" "payload_start d = Some p" using assms(1) unfolding parcel_def by blast
  obtain d' where d': "h' m = Some d'" "d'\<lparr>next_msg := None\<rparr> = d\<lparr>next_msg := None\<rparr>" using assms(2) d(1) by (cases "h' m") simp_all
  have p: "payload_start d' = Some p" using arg_cong [OF d'(2), of payload_start] d(2) by simp
  have "d'\<lparr>next_msg := None, payload_start := None\<rparr> = d\<lparr>next_msg := None, payload_start := None\<rparr>"
    using arg_cong [OF d'(2), of "\<lambda>x. x\<lparr>payload_start := None\<rparr>"] by simp
  then show ?thesis using d d'(1) p assms(3) by (simp add: letter_at_def)
qed

lemma letter_same: "parcel h b m p \<Longrightarrow> same_msgs h h' \<Longrightarrow> letter_at h' b m = letter_at h b m"
  by (erule letter_cong) (simp_all add: same_msgs_def)

subsection \<open>The invariant\<close>

datatype queue_id = SubQ addr | ReqQ addr | RespQ addr

fun queue_at :: "rmw_mem \<Rightarrow> queue_id \<Rightarrow> ReceiveMessageDataList option" where
  "queue_at w (SubQ a) = map_option message_queue (sub_datas w a)"
| "queue_at w (ReqQ a) = map_option request_queue (service_datas w a)"
| "queue_at w (RespQ a) = map_option response_queue (service_datas w a)"

definition calm_sub :: "rmw_mem \<Rightarrow> ZenohPicoSubData \<Rightarrow> bool" where
  "calm_sub w d \<longleftrightarrow> mgr_ok (sub_event_mgr d) \<and> sub_condition_mutex d = Unlocked \<and> waiter_ok w (sub_wait_set_data d)"

definition calm_srv :: "rmw_mem \<Rightarrow> ZenohPicoServiceData \<Rightarrow> bool" where
  "calm_srv w d \<longleftrightarrow> mgr_ok (srv_event_mgr d) \<and> srv_condition_mutex d = Unlocked \<and> waiter_ok w (srv_wait_set_data d)"

text \<open>Between two operations no mutex is held, and all publishers are declared.\<close>

definition calm :: "rmw_mem \<Rightarrow> bool" where
  "calm w \<longleftrightarrow> (\<forall>a d. sub_datas w a = Some d \<longrightarrow> calm_sub w d) \<and>
     (\<forall>a d. service_datas w a = Some d \<longrightarrow> calm_srv w d \<and> srv_mutex d = Unlocked) \<and>
     (\<forall>a d. pub_datas w a = Some d \<longrightarrow> pub_mutex d = Unlocked \<and> pub_topic d \<noteq> None)"

definition fresh :: "rmw_mem \<Rightarrow> bool" where
  "fresh w \<longleftrightarrow> (\<forall>n \<ge> next_addr w. msgs w n = None \<and> bufs w n = None)"

text \<open>
  Every queue is a proper list, no message lies in two queues, and \<open>H\<close> are the messages that an operation has in
  hand; all of them are parcels.
\<close>

definition running :: "(queue_id \<Rightarrow> addr list) \<Rightarrow> addr set \<Rightarrow> rmw_mem \<Rightarrow> bool" where
  "running Q H w \<longleftrightarrow> calm w \<and> fresh w \<and> (\<forall>q. case queue_at w q of None \<Rightarrow> Q q = [] | Some l \<Rightarrow> queue_rep (msgs w) l (Q q)) \<and>
     (\<forall>q q'. q \<noteq> q' \<longrightarrow> set (Q q) \<inter> set (Q q') = {}) \<and> (\<forall>q. set (Q q) \<inter> H = {}) \<and>
     pool (msgs w) (bufs w) (H \<union> (\<Union>q. set (Q q)))"

text \<open>
  Endpoints come and go only when they are created and destroyed, and keep their type supports; the world around stays the
  same, and no query is answered.
\<close>

fun is_reply :: "zcall \<Rightarrow> bool" where
  "is_reply (ZQueryReply _ _ _) = True"
| "is_reply _ = False"

abbreviation replies :: "rmw_mem \<Rightarrow> zcall list" where
  "replies w \<equiv> filter is_reply (trace w)"

lemma no_reply [simp]: "filter is_reply (announcement m) = []" "filter is_reply (query_calls q t) = filter is_reply t"
  by (simp_all add: announcement_def query_calls_def split: option.split)

definition same_ends :: "rmw_mem \<Rightarrow> rmw_mem \<Rightarrow> bool" where
  "same_ends w w' \<longleftrightarrow> env w' = env w \<and> replies w' = replies w \<and> (\<forall>a. map_option sub_callbacks (sub_datas w' a) = map_option sub_callbacks (sub_datas w a)) \<and>
     (\<forall>a. map_option request_callback (service_datas w' a) = map_option request_callback (service_datas w a)) \<and>
     (\<forall>a. map_option response_callback (service_datas w' a) = map_option response_callback (service_datas w a)) \<and>
     dom (pub_datas w') = dom (pub_datas w)"

lemma same_ends_refl [simp]: "same_ends w w"
  by (simp add: same_ends_def)

lemma same_ends_trans: "same_ends w v \<Longrightarrow> same_ends v u \<Longrightarrow> same_ends w u"
  by (simp add: same_ends_def)

lemma runningD:
  assumes "running Q H w"
  shows "calm w" "fresh w" "queue_at w q = Some l \<Longrightarrow> queue_rep (msgs w) l (Q q)" "q \<noteq> q' \<Longrightarrow> set (Q q) \<inter> set (Q q') = {}"
    "set (Q q) \<inter> H = {}" "pool (msgs w) (bufs w) (H \<union> (\<Union>q. set (Q q)))" "queue_at w q = None \<Longrightarrow> Q q = []"
proof -
  have "case queue_at w q of None \<Rightarrow> Q q = [] | Some l \<Rightarrow> queue_rep (msgs w) l (Q q)" using assms unfolding running_def by blast
  then show "queue_at w q = Some l \<Longrightarrow> queue_rep (msgs w) l (Q q)" "queue_at w q = None \<Longrightarrow> Q q = []" by simp_all
qed (use assms in \<open>unfold running_def, blast+\<close>)

lemma runningI:
  assumes "calm w" "fresh w" "\<And>q l. queue_at w q = Some l \<Longrightarrow> queue_rep (msgs w) l (Q q)" "\<And>q. queue_at w q = None \<Longrightarrow> Q q = []"
    "\<And>q q'. q \<noteq> q' \<Longrightarrow> set (Q q) \<inter> set (Q q') = {}" "\<And>q. set (Q q) \<inter> H = {}" "pool (msgs w) (bufs w) (H \<union> (\<Union>q. set (Q q)))"
  shows "running Q H w"
proof -
  have "case queue_at w q of None \<Rightarrow> Q q = [] | Some l \<Rightarrow> queue_rep (msgs w) l (Q q)" for q
    using assms(3,4) by (cases "queue_at w q") simp_all
  then show ?thesis unfolding running_def using assms(1,2,5-7) by blast
qed

lemma calm_subD: "calm w \<Longrightarrow> sub_datas w a = Some d \<Longrightarrow> calm_sub w d"
  by (simp add: calm_def)

lemma calm_srvD:
  assumes "calm w" and "service_datas w a = Some d"
  shows "calm_srv w d" "srv_mutex d = Unlocked"
  using assms unfolding calm_def by blast+

lemma calm_pubD:
  assumes "calm w" and "pub_datas w a = Some d"
  shows "pub_mutex d = Unlocked" "\<exists>k. pub_topic d = Some k"
  using assms unfolding calm_def by blast+

text \<open>Addresses of messages and payloads were handed out before.\<close>

lemma running_below:
  assumes "running Q H w" and "parcel (msgs w) (bufs w) m p"
  shows "m < next_addr w" "p < next_addr w"
proof -
  have f: "msgs w n = None \<and> bufs w n = None" if "\<not> n < next_addr w" for n
    using runningD(2) [OF assms(1)] that by (simp add: fresh_def)
  have "msgs w m \<noteq> None" "bufs w p \<noteq> None" using assms(2) by (auto simp: parcel_def)
  with f [of m] f [of p] show "m < next_addr w" "p < next_addr w" by argo+
qed

lemma running_parcel: "running Q H w \<Longrightarrow> m \<in> H \<union> (\<Union>q. set (Q q)) \<Longrightarrow> \<exists>p. parcel (msgs w) (bufs w) m p"
  using runningD(6) unfolding pool_def by blast

text \<open>An operation that leaves the messages, their payloads and the queues alone.\<close>

lemma running_keep:
  assumes run: "running Q H w" and c: "calm w'" and q: "\<And>q. queue_at w' q = queue_at w q" and f: "fresh w'"
    and m: "\<And>x. x \<in> H \<union> (\<Union>q. set (Q q)) \<Longrightarrow> msgs w' x = msgs w x"
    and b: "\<And>x p. x \<in> H \<union> (\<Union>q. set (Q q)) \<Longrightarrow> parcel (msgs w) (bufs w) x p \<Longrightarrow> bufs w' p = bufs w p"
  shows "running Q H w'"
proof -
  have "pool (msgs w') (bufs w') (H \<union> (\<Union>q. set (Q q)))"
    by (rule pool_cong [OF runningD(6) [OF run]]) (use m b in simp_all)
  moreover have "queue_rep (msgs w') l (Q r)" if "queue_at w' r = Some l" for r l
  proof -
    have "queue_rep (msgs w) l (Q r)" using runningD(3) [OF run] that q by simp
    moreover have "msgs w' x = msgs w x" if "x \<in> set (Q r)" for x using m that by blast
    ultimately show ?thesis using queue_rep_cong [of "Q r" "msgs w'" "msgs w" l] by simp
  qed
  ultimately show ?thesis
    by (intro runningI [OF c f]) (use q runningD(4-7) [OF run] in simp_all)
qed

lemma running_frame:
  assumes run: "running Q H w" and c: "calm w'" and m: "\<And>m. m < next_addr w \<Longrightarrow> msgs w' m = msgs w m"
    and q: "\<And>q. queue_at w' q = queue_at w q"
    and b: "\<And>p. p < next_addr w \<Longrightarrow> bufs w' p = bufs w p" and f: "\<And>p. next_addr w' \<le> p \<Longrightarrow> msgs w' p = None \<and> bufs w' p = None"
  shows "running Q H w'"
proof (rule running_keep [OF run c q])
  show "fresh w'" using f by (simp add: fresh_def)
next
  fix x assume "x \<in> H \<union> (\<Union>q. set (Q q))"
  from running_parcel [OF run this] show "msgs w' x = msgs w x" using running_below(1) [OF run] m by blast
next
  fix x p assume "parcel (msgs w) (bufs w) x p"
  then show "bufs w' p = bufs w p" using running_below(2) [OF run] b by blast
qed

text \<open>Taking a new message in hand, and losing one.\<close>

lemma running_hold:
  assumes run: "running Q H w" and p: "parcel (msgs w) (bufs w) m p"
    and new: "\<And>m'. m' \<in> H \<union> (\<Union>q. set (Q q)) \<Longrightarrow> m' \<noteq> m \<and> \<not> parcel (msgs w) (bufs w) m' p"
  shows "running Q (insert m H) w"
proof -
  have "pool (msgs w) (bufs w) (insert m (H \<union> (\<Union>q. set (Q q))))"
    using pool_insert [OF runningD(6) [OF run] p] new by blast
  then have "pool (msgs w) (bufs w) (insert m H \<union> (\<Union>q. set (Q q)))" by simp
  moreover have "set (Q q) \<inter> insert m H = {}" for q
    using runningD(5) [OF run, of q] new by blast
  ultimately show ?thesis
    by (intro runningI) (use runningD(1-4,7) [OF run] in simp_all)
qed

lemma running_lose:
  assumes "running Q (insert m H) w" shows "running Q H w"
  by (intro runningI pool_subset [OF runningD(6) [OF assms]]) (use runningD(1-5,7) [OF assms] in auto)

text \<open>An operation that changes one queue and what is in hand.\<close>

lemma running_requeue:
  assumes run: "running Q H w" and c: "calm w'" and n: "next_addr w' = next_addr w" "bufs w' = bufs w"
    and others: "\<And>q'. q' \<noteq> q \<Longrightarrow> queue_at w' q' = queue_at w q'" and own: "queue_at w' q = Some l" "queue_rep (msgs w') l as"
    and same: "same_msgs (msgs w) (msgs w')" and keep: "\<And>x q'. q' \<noteq> q \<Longrightarrow> x \<in> set (Q q') \<Longrightarrow> msgs w' x = msgs w x"
    and sets: "set as \<union> H' \<subseteq> set (Q q) \<union> H" "set as \<inter> H' = {}"
  shows "running (Q(q := as)) H' w'"
proof -
  let ?Q = "Q(q := as)"
  have qr: "queue_rep (msgs w') l' (?Q q')" if "queue_at w' q' = Some l'" for q' l'
  proof (cases "q' = q")
    case True
    then show ?thesis using that own by simp
  next
    case False
    then have "queue_rep (msgs w) l' (Q q')" using runningD(3) [OF run] others that by simp
    then show ?thesis using False keep [OF False] queue_rep_cong [of "Q q'" "msgs w'" "msgs w" l'] by simp
  qed
  have dj: "set (Q r) \<inter> (set (Q q) \<union> H) = {}" if "r \<noteq> q" for r
    using runningD(4) [OF run that] runningD(5) [OF run, of r] by blast
  have "set (?Q r) \<inter> set (?Q r') = {}" if "r \<noteq> r'" for r r'
    using that dj [of r] dj [of r'] sets(1) runningD(4) [OF run that] by (cases "r = q"; cases "r' = q") auto
  moreover have "set (?Q r) \<inter> H' = {}" for r
    using dj [of r] sets by (cases "r = q") auto
  moreover have "H' \<union> (\<Union>r. set (?Q r)) \<subseteq> H \<union> (\<Union>r. set (Q r))"
  proof -
    have "set (?Q r) \<subseteq> H \<union> (\<Union>r. set (Q r))" for r using sets(1) by (cases "r = q") auto
    then show ?thesis using sets(1) by blast
  qed
  then have "pool (msgs w') (bufs w') (H' \<union> (\<Union>r. set (?Q r)))"
    unfolding n(2) using pool_same [OF runningD(6) [OF run] same] pool_subset by blast
  moreover have "fresh w'"
    using runningD(2) [OF run] same_msgs_dom [OF same] unfolding fresh_def n by (metis domIff)
  moreover have "?Q r = []" if "queue_at w' r = None" for r using that own others [of r] runningD(7) [OF run, of r] by (cases "r = q") simp_all
  ultimately show ?thesis using c qr by (intro runningI) simp_all
qed

text \<open>Waiters and mutexes.\<close>

lemma waiter_ok_wake: "wait_sets w' = wake q (wait_sets w) \<Longrightarrow> waiter_ok w p \<Longrightarrow> waiter_ok w' p"
  by (auto simp: waiter_ok_def ws_idle_def wake_def signalled_def split: option.splits)

lemma calm_frame:
  assumes "calm w" and "sub_datas w' = sub_datas w" "service_datas w' = service_datas w" "pub_datas w' = pub_datas w"
    and "wait_sets w' = wait_sets w"
  shows "calm w'"
  using assms(1) unfolding calm_def calm_sub_def calm_srv_def assms(2-4) waiter_ok_cong [OF assms(5)] .

lemma calm_update_sub:
  assumes "calm w" and "calm_sub w d'" and "sub_datas w' = (sub_datas w)(a \<mapsto> d')" "service_datas w' = service_datas w"
    "pub_datas w' = pub_datas w" and w: "\<And>p. waiter_ok w p \<Longrightarrow> waiter_ok w' p"
  shows "calm w'"
  using assms(1,2) w unfolding calm_def calm_sub_def calm_srv_def assms(3-5) by (auto simp: map_upd_Some_iff)

lemma calm_update_srv:
  assumes "calm w" and "calm_srv w d'" and "srv_mutex d' = Unlocked"
    and "service_datas w' = (service_datas w)(a \<mapsto> d')" "sub_datas w' = sub_datas w"
    "pub_datas w' = pub_datas w" and w: "\<And>p. waiter_ok w p \<Longrightarrow> waiter_ok w' p"
  shows "calm w'"
  using assms(1-3) w unfolding calm_def calm_sub_def calm_srv_def assms(4-6) by (auto simp: map_upd_Some_iff)

lemma queue_at_sub_upd:
  assumes "sub_datas w' = (sub_datas w)(a \<mapsto> d')" and "service_datas w' = service_datas w"
  shows "queue_at w' q = (if q = SubQ a then Some (message_queue d') else queue_at w q)"
  using assms by (cases q) auto

lemma queue_at_srv_upd:
  assumes "service_datas w' = (service_datas w)(a \<mapsto> d')" and "sub_datas w' = sub_datas w"
  shows "queue_at w' q = (if q = ReqQ a then Some (request_queue d') else if q = RespQ a then Some (response_queue d') else queue_at w q)"
  using assms by (cases q) auto

lemma queue_at_frame [simp]:
  "queue_at (w\<lparr>next_addr := n\<rparr>) q = queue_at w q" "queue_at (w\<lparr>bufs := b\<rparr>) q = queue_at w q" "queue_at (w\<lparr>msgs := h\<rparr>) q = queue_at w q"
  "queue_at (w\<lparr>trace := t\<rparr>) q = queue_at w q" "queue_at (w\<lparr>ticks := k\<rparr>) q = queue_at w q" "queue_at (w\<lparr>wait_sets := s\<rparr>) q = queue_at w q"
  "queue_at (w\<lparr>pub_datas := ps\<rparr>) q = queue_at w q"
  by (cases q; simp)+

lemma queue_at_cong: "sub_datas w' = sub_datas w \<Longrightarrow> service_datas w' = service_datas w \<Longrightarrow> queue_at w' q = queue_at w q"
  by (cases q) simp_all

subsection \<open>Moving messages\<close>

text \<open>What popping, appending and picking up do to the invariant, whatever queue it is.\<close>

lemma running_pop:
  assumes run: "running Q H w" and q: "queue_at w q = Some l"
  shows "\<exists>l' h. recv_msg_list_pop (Some l) (msgs w) = Inr (case Q q of [] \<Rightarrow> None | x # _ \<Rightarrow> Some x, Some l', h) \<and> same_msgs (msgs w) h \<and>
    (\<forall>w'. calm w' \<longrightarrow> next_addr w' = next_addr w \<longrightarrow> bufs w' = bufs w \<longrightarrow> msgs w' = h \<longrightarrow>
      (\<forall>q'. queue_at w' q' = (if q' = q then Some l' else queue_at w q')) \<longrightarrow>
      (case Q q of [] \<Rightarrow> running Q H w' | x # as \<Rightarrow> x \<notin> H \<and> running (Q(q := as)) (insert x H) w'))"
proof -
  have r: "queue_rep (msgs w) l (Q q)" using runningD(3) [OF run q] .
  show ?thesis
  proof (cases "Q q")
    case Nil
    have "running Q H w'" if "calm w'" "next_addr w' = next_addr w" "bufs w' = bufs w" "msgs w' = msgs w"
      "\<forall>q'. queue_at w' q' = (if q' = q then Some l else queue_at w q')" for w'
    proof -
      have "fresh w'" using runningD(2) [OF run] that by (simp add: fresh_def)
      moreover have "queue_at w' q' = queue_at w q'" for q' using that(5) q by simp
      ultimately show ?thesis by (intro running_keep [OF run that(1)]) (simp_all add: that(3,4))
    qed
    then show ?thesis using pop_empty [of "msgs w" l] r Nil by simp
  next
    case (Cons a as)
    obtain l' d where p: "msgs w a = Some d" "recv_msg_list_pop (Some l) (msgs w) = Inr (Some a, Some l', (msgs w)(a \<mapsto> d\<lparr>next_msg := None\<rparr>))"
      "queue_rep ((msgs w)(a \<mapsto> d\<lparr>next_msg := None\<rparr>)) l' as"
      using pop_cons r Cons by metis
    let ?h = "(msgs w)(a \<mapsto> d\<lparr>next_msg := None\<rparr>)"
    have a: "a \<notin> set as" "a \<notin> H" using r runningD(5) [OF run, of q] Cons by (auto simp: queue_rep_def)
    have H: "set as \<inter> H = {}" using runningD(5) [OF run, of q] Cons by auto
    have k: "?h x = msgs w x" if "q' \<noteq> q" "x \<in> set (Q q')" for x q'
      using runningD(4) [OF run that(1)] that(2) Cons by auto
    have "running (Q(q := as)) (insert a H) w'" if w: "calm w'" "next_addr w' = next_addr w" "bufs w' = bufs w" "msgs w' = ?h"
      "\<forall>q'. queue_at w' q' = (if q' = q then Some l' else queue_at w q')" for w'
      by (rule running_requeue [OF run w(1-3), of q l'])
        (use w p(3) same_msgs_upd [where h = "msgs w" and p = None, OF p(1)] k a H Cons in \<open>auto simp del: fun_upd_apply\<close>)
    moreover have "same_msgs (msgs w) ?h" using p(1) by (rule same_msgs_upd [where p = None])
    ultimately show ?thesis using p(2) a(2) Cons by (intro exI [of _ l'] exI [of _ ?h]) simp
  qed
qed

lemma running_append:
  assumes run: "running Q (insert m H) w" and m: "m \<notin> H" and q: "queue_at w q = Some l"
  shows "\<exists>l' h. recv_msg_list_append (Some l) (Some m) (msgs w) = Inr (Some m, Some l', h) \<and> same_msgs (msgs w) h \<and>
    (\<forall>w'. calm w' \<longrightarrow> next_addr w' = next_addr w \<longrightarrow> bufs w' = bufs w \<longrightarrow> msgs w' = h \<longrightarrow>
      (\<forall>q'. queue_at w' q' = (if q' = q then Some l' else queue_at w q')) \<longrightarrow> running (Q(q := Q q @ [m])) H w')"
proof -
  have r: "queue_rep (msgs w) l (Q q)" using runningD(3) [OF run q] .
  have nin: "m \<notin> set (Q q')" for q' using runningD(5) [OF run, of q'] by auto
  obtain p where "parcel (msgs w) (bufs w) m p" using runningD(6) [OF run] by (auto simp: pool_def)
  then obtain d where d: "msgs w m = Some d" by (auto simp: parcel_def)
  obtain l' h where ap: "recv_msg_list_append (Some l) (Some m) (msgs w) = Inr (Some m, Some l', h)"
    "queue_rep h l' (Q q @ [m])" "same_msgs (msgs w) h"
    using append_rep [OF r d nin] by blast
  have k: "h x = msgs w x" if "q' \<noteq> q" "x \<in> set (Q q')" for x q'
  proof -
    have "x \<noteq> m" using nin that(2) by auto
    moreover have "x \<notin> set (Q q)" using runningD(4) [OF run that(1)] that(2) by auto
    ultimately show ?thesis using append_frame [OF r ap(1)] by blast
  qed
  have "running (Q(q := Q q @ [m])) H w'" if w: "calm w'" "next_addr w' = next_addr w" "bufs w' = bufs w" "msgs w' = h"
    "\<forall>q'. queue_at w' q' = (if q' = q then Some l' else queue_at w q')" for w'
    by (rule running_requeue [OF run w(1-3), of q l']) (use w ap k m runningD(5) [OF run, of q] in auto)
  then show ?thesis using ap(1,3) by blast
qed

lemma running_walk_bound:
  assumes "running Q H w" and "queue_at w q = Some l"
  shows "length (Q q) \<le> next_addr w"
proof -
  have "set (Q q) \<subseteq> {..<next_addr w}"
    using running_parcel [OF assms(1)] running_below(1) [OF assms(1)] by (metis UN_I UNIV_I UnI2 lessThan_iff subsetI)
  then show ?thesis
    using card_mono [of "{..<next_addr w}" "set (Q q)"] runningD(3) [OF assms] distinct_card [of "Q q"] by (simp add: queue_rep_def)
qed

lemma running_pickup:
  assumes run: "running Q H w" and q: "queue_at w q = Some l" and found: "first_match (msgs w) f (Q q) = Inr r"
  shows "\<exists>l' h. recv_msg_list_pickup (next_addr w) (Some l) f (msgs w) = Inr (r, Some l', h) \<and>
    same_msgs (msgs w) h \<and>
    (\<forall>w'. calm w' \<longrightarrow> next_addr w' = next_addr w \<longrightarrow> bufs w' = bufs w \<longrightarrow> msgs w' = h \<longrightarrow>
      (\<forall>q'. queue_at w' q' = (if q' = q then Some l' else queue_at w q')) \<longrightarrow>
      (case r of None \<Rightarrow> running Q H w'
       | Some x \<Rightarrow> x \<notin> H \<and> running (Q(q := remove1 x (Q q))) (insert x H) w'))"
proof -
  have rep: "queue_rep (msgs w) l (Q q)" using runningD(3) [OF run q] .
  note len = running_walk_bound [OF run q]
  let ?as = "case r of None \<Rightarrow> Q q | Some c \<Rightarrow> remove1 c (Q q)"
  obtain l' h where p: "recv_msg_list_pickup (next_addr w) (Some l) f (msgs w) = Inr (r, Some l', h)"
    "queue_rep h l' ?as" "same_msgs (msgs w) h"
    using pickup_takes_first [OF rep len found] by blast
  have k: "h y = msgs w y" if "q' \<noteq> q" "y \<in> set (Q q')" for y q'
  proof -
    have "y \<notin> set (Q q)" using runningD(4) [OF run that(1)] that(2) by auto
    then show ?thesis using pickup_frame [OF rep p(1)] by blast
  qed
  have dj: "set (Q q) \<inter> H = {}" using runningD(5) [OF run] .
  have "case r of None \<Rightarrow> running Q H w' | Some x \<Rightarrow> x \<notin> H \<and> running (Q(q := remove1 x (Q q))) (insert x H) w'"
    if w: "calm w'" "next_addr w' = next_addr w" "bufs w' = bufs w" "msgs w' = h"
      "\<forall>q'. queue_at w' q' = (if q' = q then Some l' else queue_at w q')" for w'
  proof (cases r)
    case None
    have "running (Q(q := Q q)) H w'"
      by (rule running_requeue [OF run w(1-3), of q l']) (use w p k dj None in auto)
    then show ?thesis using None by simp
  next
    case (Some x)
    then have x: "x \<in> set (Q q)" using find_res_Some found by (fastforce simp: first_match_def)
    have d: "distinct (Q q)" using rep by (simp add: queue_rep_def)
    have "set (remove1 x (Q q)) = set (Q q) - {x}" using d by (rule set_remove1_eq)
    then have "running (Q(q := remove1 x (Q q))) (insert x H) w'"
      by (intro running_requeue [OF run w(1-3), of q l']) (use w p k dj Some x in auto)
    then show ?thesis using Some x dj by auto
  qed
  then show ?thesis using p(1,3) by blast
qed

subsection \<open>New messages\<close>

lemma parcel_new: "h m = Some d \<Longrightarrow> lock d = Unlocked \<Longrightarrow> ref d = 1 \<Longrightarrow> payload_start d = Some p \<Longrightarrow> b p = Some bs \<Longrightarrow>
    payload_size d = length bs \<Longrightarrow> ROS2_MSG_OFFSET \<le> length bs \<Longrightarrow> parcel h b m p"
  by (simp add: parcel_def)

lemma running_with_msg:
  assumes run: "running Q H w" and p: "payload_start d = Some (Suc (next_addr w))" "lock d = Unlocked" "ref d = 1"
    "payload_size d = length bs" "ROS2_MSG_OFFSET \<le> length bs"
    and c: "calm w'" "\<And>q. queue_at w' q = queue_at w q" "next_addr w' = Suc (Suc (next_addr w))"
    "msgs w' = (msgs w)(next_addr w \<mapsto> d)" "bufs w' = (bufs w)(Suc (next_addr w) \<mapsto> bs)"
  shows "next_addr w \<notin> H \<and> running Q (insert (next_addr w) H) w'"
proof -
  have fr: "msgs w n = None \<and> bufs w n = None" if "next_addr w \<le> n" for n using runningD(2) [OF run] that by (simp add: fresh_def)
  have r: "running Q H w'"
    by (rule running_frame [OF run c(1) _ c(2)]) (use c(3-5) fr in auto)
  have old: "m' < next_addr w \<and> (\<forall>p. parcel (msgs w') (bufs w') m' p \<longrightarrow> p < next_addr w)" if m': "m' \<in> H \<union> (\<Union>q. set (Q q))" for m'
  proof -
    obtain p' where p': "parcel (msgs w) (bufs w) m' p'" using running_parcel [OF run m'] by blast
    have lt: "m' < next_addr w" "p' < next_addr w" using running_below [OF run p'] by blast+
    have "parcel (msgs w') (bufs w') m' p'" using parcel_cong [OF p', of "msgs w'" "bufs w'"] lt c(4,5) by simp
    then show ?thesis using lt parcel_unique by blast
  qed
  have "parcel (msgs w') (bufs w') (next_addr w) (Suc (next_addr w))" using p c(4,5) by (intro parcel_new) auto
  then have "running Q (insert (next_addr w) H) w'"
  proof (rule running_hold [OF r])
    fix m' assume "m' \<in> H \<union> (\<Union>q. set (Q q))"
    from old [OF this] show "m' \<noteq> next_addr w \<and> \<not> parcel (msgs w') (bufs w') m' (Suc (next_addr w))" by fastforce
  qed
  then show ?thesis using old by blast
qed

text \<open>What failed attempts leave behind is new and belongs to nobody.\<close>

lemma running_junk:
  assumes run: "running Q H w" and "sub_datas w' = sub_datas w" "service_datas w' = service_datas w" "pub_datas w' = pub_datas w"
    "wait_sets w' = wait_sets w" and n: "next_addr w \<le> next_addr w'"
    and old: "\<And>x. x < next_addr w \<Longrightarrow> msgs w' x = msgs w x \<and> bufs w' x = bufs w x"
    and new: "\<And>x. next_addr w' \<le> x \<Longrightarrow> msgs w' x = None \<and> bufs w' x = None"
  shows "running Q H w'"
  by (rule running_frame [OF run calm_frame [OF runningD(1) [OF run] assms(2-5)] _ queue_at_cong [OF assms(2,3)]])
    (use old new in auto)

lemma running_fresh: "running Q H w \<Longrightarrow> next_addr w \<le> x \<Longrightarrow> msgs w x = None \<and> bufs w x = None"
  using runningD(2) unfolding fresh_def by blast

subsection \<open>The mail\<close>

text \<open>
  The abstract state: what is in each queue, as letters in order.  \<open>runs M H w\<close>: the concrete state \<open>w\<close> satisfies the invariant,
  its queues hold the letters \<open>M\<close>, and an operation has the letters \<open>H\<close> in hand, each at its address.
\<close>

definition letter_of :: "rmw_mem \<Rightarrow> addr \<Rightarrow> letter" where
  "letter_of w = letter_at (msgs w) (bufs w)"

definition runs :: "(queue_id \<Rightarrow> letter list) \<Rightarrow> (addr \<rightharpoonup> letter) \<Rightarrow> rmw_mem \<Rightarrow> bool" where
  "runs M H w \<longleftrightarrow> (\<exists>Q. running Q (dom H) w \<and> (\<forall>q. M q = map (letter_of w) (Q q)) \<and> (\<forall>x e. H x = Some e \<longrightarrow> letter_of w x = e))"

lemma runsE:
  assumes "runs M H w"
  obtains Q where "running Q (dom H) w" "\<And>q. M q = map (letter_of w) (Q q)" "\<And>x e. H x = Some e \<Longrightarrow> letter_of w x = e"
  using assms unfolding runs_def by blast

text \<open>From one state to the next: what the letters are does not change while they are kept.\<close>

lemma runs_next:
  assumes "running Q' (dom H') w'" and "\<And>q. M q = map (letter_of w) (Q' q)" and "\<And>x e. H' x = Some e \<Longrightarrow> letter_of w x = e"
    and same: "\<And>x. x \<in> dom H' \<union> (\<Union>q. set (Q' q)) \<Longrightarrow> letter_of w' x = letter_of w x"
  shows "runs M H' w'"
proof -
  have "letter_of w' x = letter_of w x" if "x \<in> set (Q' q)" for x q by (rule same) (use that in blast)
  then have "M q = map (letter_of w') (Q' q)" for q using assms(2) by simp
  moreover have "letter_of w' x = e" if "H' x = Some e" for x e
  proof -
    have "letter_of w' x = letter_of w x" by (rule same) (use that in blast)
    then show ?thesis using assms(3) [OF that] by simp
  qed
  ultimately show ?thesis using assms(1) unfolding runs_def by blast
qed

lemma letter_of_same:
  assumes "running Q H w" and "same_msgs (msgs w) (msgs w')" "bufs w' = bufs w" and "x \<in> H \<union> (\<Union>q. set (Q q))"
  shows "letter_of w' x = letter_of w x"
proof -
  obtain p where "parcel (msgs w) (bufs w) x p" using running_parcel [OF assms(1,4)] by blast
  from letter_same [OF this assms(2)] show ?thesis unfolding letter_of_def assms(3) .
qed

lemma runs_calm: "runs M H w \<Longrightarrow> calm w"
  by (elim runsE) (rule runningD)

lemma runs_fresh: "runs M H w \<Longrightarrow> next_addr w \<le> x \<Longrightarrow> msgs w x = None \<and> bufs w x = None"
  by (elim runsE) (rule running_fresh)

lemma runs_live: "runs M (H(m \<mapsto> e)) w \<Longrightarrow> \<exists>p. parcel (msgs w) (bufs w) m p"
  by (elim runsE) (rule running_parcel, auto)

lemma runs_letter: "runs M (H(m \<mapsto> e)) w \<Longrightarrow> letter_of w m = e"
  by (elim runsE) simp

text \<open>Where nothing happens to queues, messages and payloads handed out before.\<close>

lemma runs_frame:
  assumes run: "runs M H w" and c: "calm w'" and q: "\<And>q. queue_at w' q = queue_at w q" and n: "next_addr w \<le> next_addr w'"
    and old: "\<And>x. x < next_addr w \<Longrightarrow> msgs w' x = msgs w x \<and> bufs w' x = bufs w x"
    and new: "\<And>x. next_addr w' \<le> x \<Longrightarrow> msgs w' x = None \<and> bufs w' x = None"
  shows "runs M H w'"
  using run
proof (rule runsE)
  fix Q assume Q: "running Q (dom H) w" "\<And>q. M q = map (letter_of w) (Q q)" "\<And>x e. H x = Some e \<Longrightarrow> letter_of w x = e"
  have "running Q (dom H) w'" by (rule running_frame [OF Q(1) c]) (use q old new in auto)
  then show ?thesis
  proof (rule runs_next [OF _ Q(2,3)])
    fix x assume "x \<in> dom H \<union> (\<Union>q. set (Q q))"
    then obtain p where p: "parcel (msgs w) (bufs w) x p" using running_parcel [OF Q(1)] by blast
    have "x < next_addr w" "p < next_addr w" using running_below [OF Q(1) p] by auto
    then show "letter_of w' x = letter_of w x" using old letter_cong [OF p, of "msgs w'" "bufs w'"] by (simp add: letter_of_def)
  qed
qed

lemma runs_junk:
  assumes run: "runs M H w" and "sub_datas w' = sub_datas w" "service_datas w' = service_datas w" "pub_datas w' = pub_datas w"
    "wait_sets w' = wait_sets w" and "next_addr w \<le> next_addr w'"
    and "\<And>x. x < next_addr w \<Longrightarrow> msgs w' x = msgs w x \<and> bufs w' x = bufs w x"
    and "\<And>x. next_addr w' \<le> x \<Longrightarrow> msgs w' x = None \<and> bufs w' x = None"
  shows "runs M H w'"
  using run calm_frame [OF runs_calm [OF run] assms(2-5)] queue_at_cong [OF assms(2,3)] assms(6-8) by (rule runs_frame)

lemma runs_update:
  assumes run: "runs M H w" and "sub_datas w' = sub_datas w" "service_datas w' = service_datas w" "pub_datas w' = pub_datas w"
    "wait_sets w' = wait_sets w" "next_addr w' = next_addr w" "msgs w' = msgs w" "bufs w' = bufs w"
  shows "runs M H w'"
  by (rule runs_junk [OF run assms(2-5)]) (use assms(6-8) runs_fresh [OF run] in simp_all)

text \<open>A new letter in hand; a letter in hand that is given up, with its message and payload or without.\<close>

lemma runs_with_msg:
  assumes run: "runs M H w" and p: "payload_start d = Some (Suc (next_addr w))" "lock d = Unlocked" "ref d = 1"
    "payload_size d = length bs" "ROS2_MSG_OFFSET \<le> length bs"
    and c: "calm w'" "\<And>q. queue_at w' q = queue_at w q" "next_addr w' = Suc (Suc (next_addr w))"
    "msgs w' = (msgs w)(next_addr w \<mapsto> d)" "bufs w' = (bufs w)(Suc (next_addr w) \<mapsto> bs)"
  shows "next_addr w \<notin> dom H \<and> runs M (H(next_addr w \<mapsto> (d\<lparr>next_msg := None, payload_start := None\<rparr>, bs))) w'"
  using run
proof (rule runsE)
  fix Q assume Q: "running Q (dom H) w" "\<And>q. M q = map (letter_of w) (Q q)" "\<And>x e. H x = Some e \<Longrightarrow> letter_of w x = e"
  let ?n = "next_addr w"
  have r: "?n \<notin> dom H" "running Q (insert ?n (dom H)) w'" using running_with_msg [OF Q(1) p c] by simp_all
  have old: "letter_of w' x = letter_of w x" if "x \<in> dom H \<union> (\<Union>q. set (Q q))" for x
  proof -
    obtain p where p: "parcel (msgs w) (bufs w) x p" using running_parcel [OF Q(1) \<open>x \<in> _\<close>] by blast
    have "x < next_addr w" "p < next_addr w" using running_below [OF Q(1) p] by auto
    then show ?thesis using c(4,5) letter_cong [OF p, of "msgs w'" "bufs w'"] by (simp add: letter_of_def)
  qed
  have new: "letter_of w' ?n = (d\<lparr>next_msg := None, payload_start := None\<rparr>, bs)" using p(1) c(4,5) by (simp add: letter_of_def letter_at_def)
  have "letter_of w' x = e" if "H x = Some e" for x e
    using Q(3) [OF that] old [of x] that by auto
  moreover have "M q = map (letter_of w') (Q q)" for q
  proof -
    have "letter_of w' x = letter_of w x" if "x \<in> set (Q q)" for x by (rule old) (use that in blast)
    then show ?thesis using Q(2) by simp
  qed
  ultimately have "runs M (H(?n \<mapsto> (d\<lparr>next_msg := None, payload_start := None\<rparr>, bs))) w'"
    using r(2) new by (intro runs_next [where w = w' and Q' = Q]) (simp_all split: if_splits)
  with r(1) show ?thesis by blast
qed

lemma runs_drop:
  assumes run: "runs M (H(m \<mapsto> e)) w" and m: "m \<notin> dom H" and p: "parcel (msgs w) (bufs w) m p"
    and c: "calm w'" and q: "\<And>q. queue_at w' q = queue_at w q" and n: "next_addr w \<le> next_addr w'"
    and old: "\<And>x. x \<noteq> m \<Longrightarrow> x < next_addr w \<Longrightarrow> msgs w' x = msgs w x" "\<And>x. x \<noteq> p \<Longrightarrow> x < next_addr w \<Longrightarrow> bufs w' x = bufs w x"
    and new: "\<And>x. next_addr w' \<le> x \<Longrightarrow> msgs w' x = None \<and> bufs w' x = None"
  shows "runs M H w'"
  using run
proof (rule runsE)
  fix Q assume Q: "running Q (dom (H(m \<mapsto> e))) w" "\<And>q. M q = map (letter_of w) (Q q)"
    "\<And>x e'. (H(m \<mapsto> e)) x = Some e' \<Longrightarrow> letter_of w x = e'"
  have run: "running Q (insert m (dom H)) w" using Q(1) by simp
  have keep: "msgs w' x = msgs w x \<and> bufs w' y = bufs w y" if x: "x \<in> dom H \<union> (\<Union>q. set (Q q))" and y: "parcel (msgs w) (bufs w) x y" for x y
  proof -
    have "x \<noteq> m" using x m runningD(5) [OF run] by blast
    moreover have "x \<in> insert m (dom H) \<union> (\<Union>q. set (Q q))" "m \<in> insert m (dom H) \<union> (\<Union>q. set (Q q))" using x by auto
    ultimately have "y \<noteq> p" using runningD(6) [OF run] p y unfolding pool_def by blast
    with \<open>x \<noteq> m\<close> show ?thesis using old running_below [OF run y] by simp
  qed
  have "running Q (dom H) w'"
  proof (rule running_keep [OF running_lose [OF run] c q])
    show "fresh w'" using new by (simp add: fresh_def)
  next
    fix x assume x: "x \<in> dom H \<union> (\<Union>q. set (Q q))"
    from running_parcel [OF running_lose [OF run] this] show "msgs w' x = msgs w x" using keep [OF x] by blast
  qed (use keep in blast)
  then show ?thesis
  proof (rule runs_next [OF _ Q(2)])
    show "letter_of w x = e'" if "H x = Some e'" for x e'
    proof -
      have "x \<noteq> m" using that m by blast
      then show ?thesis using Q(3) [of x e'] that by simp
    qed
  next
    fix x assume x: "x \<in> dom H \<union> (\<Union>q. set (Q q))"
    then obtain y where y: "parcel (msgs w) (bufs w) x y" using running_parcel [OF running_lose [OF run]] by blast
    then show "letter_of w' x = letter_of w x" using keep [OF x y] letter_cong [OF y, of "msgs w'" "bufs w'"] by (simp add: letter_of_def)
  qed
qed

lemma runs_lose: "runs M (H(m \<mapsto> e)) w \<Longrightarrow> m \<notin> dom H \<Longrightarrow> runs M H w"
proof (elim runsE)
  fix Q assume m: "m \<notin> dom H" and Q: "running Q (dom (H(m \<mapsto> e))) w" "\<And>q. M q = map (letter_of w) (Q q)"
    "\<And>x e'. (H(m \<mapsto> e)) x = Some e' \<Longrightarrow> letter_of w x = e'"
  have "running Q (dom H) w" using Q(1) by (simp add: running_lose)
  then show ?thesis
  proof (rule runs_next [OF _ Q(2)])
    show "letter_of w x = e'" if "H x = Some e'" for x e'
    proof -
      have "x \<noteq> m" using that m by blast
      then show ?thesis using Q(3) [of x e'] that by simp
    qed
  qed simp
qed

text \<open>
  \<open>holding E M H m w\<close>: an operation was to get the letter \<open>E\<close>, and \<open>m\<close> is the message it got.
\<close>

definition holding :: "letter option \<Rightarrow> (queue_id \<Rightarrow> letter list) \<Rightarrow> (addr \<rightharpoonup> letter) \<Rightarrow> addr option \<Rightarrow> rmw_mem \<Rightarrow> bool" where
  "holding E M H m w \<longleftrightarrow> (case E of None \<Rightarrow> m = None \<and> runs M H w
     | Some e \<Rightarrow> \<exists>x. m = Some x \<and> x \<notin> dom H \<and> runs M (H(x \<mapsto> e)) w)"

lemma holding_simps [simp]:
  "holding None M H m w \<longleftrightarrow> m = None \<and> runs M H w"
  "holding (Some e) M H m w \<longleftrightarrow> (\<exists>x. m = Some x \<and> x \<notin> dom H \<and> runs M (H(x \<mapsto> e)) w)"
  by (simp_all add: holding_def)

lemma holding_of_running:
  assumes "running Q' (insert x (dom H)) w'" and "x \<notin> dom H" and "\<And>q. M q = map (letter_of w) (Q' q)" and "\<And>x e. H x = Some e \<Longrightarrow> letter_of w x = e"
    and "\<And>y. y \<in> insert x (dom H) \<union> (\<Union>q. set (Q' q)) \<Longrightarrow> letter_of w' y = letter_of w y"
  shows "holding (Some (letter_of w x)) M H (Some x) w'"
proof -
  have "runs M (H(x \<mapsto> letter_of w x)) w'"
    by (rule runs_next [of Q' _ _ _ w]) (use assms in \<open>simp_all split: if_splits\<close>)
  then show ?thesis using assms(2) by simp
qed

primrec first :: "'a list \<Rightarrow> 'a option" where
  "first [] = None" | "first (x # xs) = Some x"

primrec drop_first :: "('a \<Rightarrow> bool) \<Rightarrow> 'a list \<Rightarrow> 'a list" where
  "drop_first P [] = []" | "drop_first P (x # xs) = (if P x then xs else x # drop_first P xs)"

lemma find_map: "find P (map f xs) = map_option f (find (\<lambda>x. P (f x)) xs)"
  by (induction xs) simp_all

lemma drop_first_none: "find P xs = None \<Longrightarrow> drop_first P xs = xs"
  by (induction xs) (simp_all split: if_splits)

lemma drop_first_map: "distinct xs \<Longrightarrow> find (\<lambda>x. P (f x)) xs = Some y \<Longrightarrow> drop_first P (map f xs) = map f (remove1 y xs)"
proof (induction xs)
  case (Cons x xs)
  show ?case
  proof (cases "P (f x)")
    case False
    then have f: "find (\<lambda>x. P (f x)) xs = Some y" using Cons.prems(2) by simp
    then have "y \<in> set xs" by (auto simp: find_Some_iff)
    then have "x \<noteq> y" using Cons.prems(1) by auto
    then show ?thesis using Cons.IH Cons.prems(1) f False by simp
  qed (use Cons.prems in simp)
qed simp

lemma runs_pop:
  assumes run: "runs M H w" and q: "queue_at w q = Some l"
  shows "\<exists>m l' h. recv_msg_list_pop (Some l) (msgs w) = Inr (m, Some l', h) \<and>
    (\<forall>w'. calm w' \<longrightarrow> next_addr w' = next_addr w \<longrightarrow> bufs w' = bufs w \<longrightarrow> msgs w' = h \<longrightarrow>
      (\<forall>q'. queue_at w' q' = (if q' = q then Some l' else queue_at w q')) \<longrightarrow> holding (first (M q)) (M(q := tl (M q))) H m w')"
  using run
proof (rule runsE)
  fix Q assume Q: "running Q (dom H) w" "\<And>q. M q = map (letter_of w) (Q q)" "\<And>x e. H x = Some e \<Longrightarrow> letter_of w x = e"
  obtain l' h where p: "recv_msg_list_pop (Some l) (msgs w) = Inr (case Q q of [] \<Rightarrow> None | x # _ \<Rightarrow> Some x, Some l', h)" "same_msgs (msgs w) h"
    and k: "\<And>w'. calm w' \<Longrightarrow> next_addr w' = next_addr w \<Longrightarrow> bufs w' = bufs w \<Longrightarrow> msgs w' = h \<Longrightarrow>
      (\<forall>q'. queue_at w' q' = (if q' = q then Some l' else queue_at w q')) \<Longrightarrow>
      (case Q q of [] \<Rightarrow> running Q (dom H) w' | x # as \<Rightarrow> x \<notin> dom H \<and> running (Q(q := as)) (insert x (dom H)) w')"
    using running_pop [OF Q(1) q] by blast
  have "holding (first (M q)) (M(q := tl (M q))) H (case Q q of [] \<Rightarrow> None | x # _ \<Rightarrow> Some x) w'"
    if w: "calm w'" "next_addr w' = next_addr w" "bufs w' = bufs w" "msgs w' = h"
      "\<forall>q'. queue_at w' q' = (if q' = q then Some l' else queue_at w q')" for w'
  proof -
    have same: "letter_of w' x = letter_of w x" if "x \<in> dom H \<union> (\<Union>q. set (Q q))" for x
      using Q(1) p(2) [folded w(4)] w(3) that by (rule letter_of_same)
    show ?thesis
    proof (cases "Q q")
      case Nil
      have "running Q (dom H) w'" using k [OF w] Nil by simp
      then have "runs M H w'" using Q(2,3) same by (rule runs_next)
      moreover have "M(q := tl (M q)) = M" "M q = []" using Q(2) [of q] Nil by (simp_all add: fun_eq_iff)
      ultimately show ?thesis using Nil by simp
    next
      case (Cons x as)
      have r: "x \<notin> dom H" "running (Q(q := as)) (insert x (dom H)) w'" using k [OF w] Cons by simp_all
      have m: "M q = letter_of w x # map (letter_of w) as" using Q(2) [of q] Cons by simp
      have "x \<in> set (Q q)" "set ((Q(q := as)) r) \<subseteq> set (Q r)" for r using Cons by auto
      then have sub: "insert x (dom H) \<union> (\<Union>r. set ((Q(q := as)) r)) \<subseteq> dom H \<union> (\<Union>q. set (Q q))" by blast
      have "holding (Some (letter_of w x)) (M(q := tl (M q))) H (Some x) w'"
        by (rule holding_of_running [OF r(2,1) _ Q(3) same [OF subsetD [OF sub]]]) (use Q(2) m in simp_all)
      then show ?thesis using Cons m by simp
    qed
  qed
  then show ?thesis using p(1) by blast
qed

lemma runs_append:
  assumes run: "runs M (H(m \<mapsto> e)) w" and m: "m \<notin> dom H" and q: "queue_at w q = Some l"
  shows "\<exists>l' h. recv_msg_list_append (Some l) (Some m) (msgs w) = Inr (Some m, Some l', h) \<and>
    (\<forall>w'. calm w' \<longrightarrow> next_addr w' = next_addr w \<longrightarrow> bufs w' = bufs w \<longrightarrow> msgs w' = h \<longrightarrow>
      (\<forall>q'. queue_at w' q' = (if q' = q then Some l' else queue_at w q')) \<longrightarrow> runs (M(q := M q @ [e])) H w')"
  using run
proof (rule runsE)
  fix Q assume "running Q (dom (H(m \<mapsto> e))) w" and Q: "\<And>q. M q = map (letter_of w) (Q q)" "\<And>x e'. (H(m \<mapsto> e)) x = Some e' \<Longrightarrow> letter_of w x = e'"
  then have r: "running Q (insert m (dom H)) w" by simp
  obtain l' h where p: "recv_msg_list_append (Some l) (Some m) (msgs w) = Inr (Some m, Some l', h)" "same_msgs (msgs w) h"
    and k: "\<And>w'. calm w' \<Longrightarrow> next_addr w' = next_addr w \<Longrightarrow> bufs w' = bufs w \<Longrightarrow> msgs w' = h \<Longrightarrow>
      (\<forall>q'. queue_at w' q' = (if q' = q then Some l' else queue_at w q')) \<Longrightarrow> running (Q(q := Q q @ [m])) (dom H) w'"
    using running_append [OF r m q] by blast
  have "runs (M(q := M q @ [e])) H w'"
    if w: "calm w'" "next_addr w' = next_addr w" "bufs w' = bufs w" "msgs w' = h"
      "\<forall>q'. queue_at w' q' = (if q' = q then Some l' else queue_at w q')" for w'
  proof (rule runs_next [OF k [OF w], of _ w])
    show "(M(q := M q @ [e])) q' = map (letter_of w) ((Q(q := Q q @ [m])) q')" for q' using Q(1) Q(2) [of m e] by simp
    show "letter_of w x = e'" if "H x = Some e'" for x e'
    proof -
      have "x \<noteq> m" using that m by blast
      then show ?thesis using Q(2) [of x e'] that by simp
    qed
  next
    fix x assume "x \<in> dom H \<union> (\<Union>r. set ((Q(q := Q q @ [m])) r))"
    then have "x \<in> insert m (dom H) \<union> (\<Union>q. set (Q q))" by (auto split: if_splits)
    with r p(2) [folded w(4)] w(3) show "letter_of w' x = letter_of w x" by (rule letter_of_same)
  qed
  then show ?thesis using p(1) by blast
qed

lemma letters_first_match:
  assumes "running Q H w" and "\<And>d. f (d\<lparr>next_msg := None, payload_start := None\<rparr>) = f d"
  shows "find_res (\<lambda>e. f (fst e)) (map (letter_of w) (Q q)) =
    andthen (first_match (msgs w) f (Q q)) (\<lambda>r. Inr (map_option (letter_of w) r))"
proof -
  have "match_at (msgs w) f y = f (fst (letter_of w y))" if "y \<in> set (Q q)" for y
  proof -
    have "y \<in> H \<union> (\<Union>q. set (Q q))" using that by blast
    from running_parcel [OF assms(1) this] obtain d where "msgs w y = Some d" by (auto simp: parcel_def)
    then show ?thesis by (simp add: letter_of_def letter_at_def Let_def assms(2))
  qed
  then have "first_match (msgs w) f (Q q) = find_res (\<lambda>x. f (fst (letter_of w x))) (Q q)"
    unfolding first_match_def by (rule find_res_cong)
  then show ?thesis by (simp add: find_res_map)
qed

lemma runs_pickup_fault:
  assumes run: "runs M H w" and q: "queue_at w q = Some l" and f: "\<And>d. f (d\<lparr>next_msg := None, payload_start := None\<rparr>) = f d"
    and found: "find_res (\<lambda>e. f (fst e)) (M q) = Inl e"
  shows "recv_msg_list_pickup (next_addr w) (Some l) f (msgs w) = Inl e"
  using run
proof (rule runsE)
  fix Q assume Q: "running Q (dom H) w" "\<And>q. M q = map (letter_of w) (Q q)"
  have "first_match (msgs w) f (Q q) = Inl e"
    using found unfolding Q(2) letters_first_match [where f = f, OF Q(1) f] by (simp add: andthen_eq_Inl)
  then show ?thesis by (rule pickup_fault [OF runningD(3) [OF Q(1) q] _ running_walk_bound [OF Q(1) q]])
qed

lemma runs_pickup:
  assumes run: "runs M H w" and q: "queue_at w q = Some l" and f: "\<And>d. f (d\<lparr>next_msg := None, payload_start := None\<rparr>) = f d"
    and g: "\<And>d b. f d = Inr b \<Longrightarrow> b = g d" and g_same: "\<And>d. g (d\<lparr>next_msg := None, payload_start := None\<rparr>) = g d"
    and found: "find_res (\<lambda>e. f (fst e)) (M q) = Inr E"
  shows "\<exists>m l' h. recv_msg_list_pickup (next_addr w) (Some l) f (msgs w) = Inr (m, Some l', h) \<and>
    (\<forall>w'. calm w' \<longrightarrow> next_addr w' = next_addr w \<longrightarrow> bufs w' = bufs w \<longrightarrow> msgs w' = h \<longrightarrow>
      (\<forall>q'. queue_at w' q' = (if q' = q then Some l' else queue_at w q')) \<longrightarrow>
      holding E (M(q := drop_first (\<lambda>e. g (fst e)) (M q))) H m w')"
  using run
proof (rule runsE)
  fix Q assume Q: "running Q (dom H) w" "\<And>q. M q = map (letter_of w) (Q q)" "\<And>x e. H x = Some e \<Longrightarrow> letter_of w x = e"
  obtain x where x: "first_match (msgs w) f (Q q) = Inr x" "E = map_option (letter_of w) x"
    using found unfolding Q(2) letters_first_match [where f = f, OF Q(1) f] by (auto simp: andthen_eq_Inr)
  obtain l' h where p: "recv_msg_list_pickup (next_addr w) (Some l) f (msgs w) = Inr (x, Some l', h)" "same_msgs (msgs w) h"
    and k: "\<And>w'. calm w' \<Longrightarrow> next_addr w' = next_addr w \<Longrightarrow> bufs w' = bufs w \<Longrightarrow> msgs w' = h \<Longrightarrow>
      (\<forall>q'. queue_at w' q' = (if q' = q then Some l' else queue_at w q')) \<Longrightarrow>
      (case x of None \<Rightarrow> running Q (dom H) w' | Some x \<Rightarrow> x \<notin> dom H \<and> running (Q(q := remove1 x (Q q))) (insert x (dom H)) w')"
    using running_pickup [OF Q(1) q x(1)] by blast
  have ge: "find (\<lambda>e. g (fst e)) (M q) = E" using found g by (rule find_res_find)
  have d: "distinct (Q q)" using runningD(3) [OF Q(1) q] by (simp add: queue_rep_def)
  have "find (matches (msgs w) g) (Q q) = x" using x(1) g by (rule first_match_find)
  moreover have "matches (msgs w) g y = g (fst (letter_of w y))" if "y \<in> set (Q q)" for y
  proof -
    have "y \<in> dom H \<union> (\<Union>q. set (Q q))" using that by blast
    from running_parcel [OF Q(1) this] obtain d where "msgs w y = Some d" by (auto simp: parcel_def)
    then show ?thesis by (simp add: matches_def letter_of_def letter_at_def Let_def g_same)
  qed
  ultimately have gx: "find (\<lambda>x. g (fst (letter_of w x))) (Q q) = x" using find_cong [OF refl] by metis
  have "holding E (M(q := drop_first (\<lambda>e. g (fst e)) (M q))) H x w'"
    if w: "calm w'" "next_addr w' = next_addr w" "bufs w' = bufs w" "msgs w' = h"
      "\<forall>q'. queue_at w' q' = (if q' = q then Some l' else queue_at w q')" for w'
  proof -
    have same: "letter_of w' x = letter_of w x" if "x \<in> dom H \<union> (\<Union>q. set (Q q))" for x
      using Q(1) p(2) [folded w(4)] w(3) that by (rule letter_of_same)
    show ?thesis
    proof (cases x)
      case None
      have "running Q (dom H) w'" using k [OF w] None by simp
      then have "runs M H w'" using Q(2,3) same by (rule runs_next)
      moreover have "M(q := drop_first (\<lambda>e. g (fst e)) (M q)) = M" using ge x(2) None drop_first_none by fastforce
      ultimately show ?thesis using x(2) None by simp
    next
      case (Some c)
      have r: "c \<notin> dom H" "running (Q(q := remove1 c (Q q))) (insert c (dom H)) w'" using k [OF w] Some by simp_all
      have m: "drop_first (\<lambda>e. g (fst e)) (M q) = map (letter_of w) (remove1 c (Q q))"
        unfolding Q(2) by (rule drop_first_map [OF d]) (use Some gx in simp)
      have "c \<in> set (Q q)" using Some gx by (auto simp: find_Some_iff)
      moreover have "set ((Q(q := remove1 c (Q q))) r) \<subseteq> set (Q r)" for r using set_remove1_subset [of c "Q q"] by simp
      ultimately have sub: "insert c (dom H) \<union> (\<Union>r. set ((Q(q := remove1 c (Q q))) r)) \<subseteq> dom H \<union> (\<Union>q. set (Q q))" by blast
      have "holding (Some (letter_of w c)) (M(q := drop_first (\<lambda>e. g (fst e)) (M q))) H (Some c) w'"
        by (rule holding_of_running [OF r(2,1) _ Q(3) same [OF subsetD [OF sub]]]) (use Q(2) m in simp_all)
      then show ?thesis using Some x(2) by simp
    qed
  qed
  then show ?thesis using p(1) by blast
qed

end
