(* ===== verification/Moves.thy ===== *)
theory Moves
  imports Running
begin

section \<open>What each operation does to the mail\<close>

text \<open>
  Each callback and each call of the application, on a state of the running system: it comes back, keeps the invariant and
  changes the letters in the queues exactly as stated.
\<close>

text \<open>The endpoints stay, and the queues then hold the letters \<open>M\<close>, with \<open>H\<close> in hand.\<close>

definition becomes :: "(queue_id \<Rightarrow> letter list) \<Rightarrow> (addr \<rightharpoonup> letter) \<Rightarrow> rmw_mem \<Rightarrow> rmw_mem \<Rightarrow> bool" where
  "becomes M H w w' \<longleftrightarrow> same_ends w w' \<and> runs M H w'"

definition held :: "letter option \<Rightarrow> (queue_id \<Rightarrow> letter list) \<Rightarrow> (addr \<rightharpoonup> letter) \<Rightarrow> rmw_mem \<Rightarrow> addr option \<times> rmw_mem \<Rightarrow> bool" where
  "held E M H w = (\<lambda>(m, w'). same_ends w w' \<and> holding E M H m w')"

lemma becomesI: "runs M H w' \<Longrightarrow> same_ends w w' \<Longrightarrow> becomes M H w w'"
  by (simp add: becomes_def)

lemma becomes_trans: "same_ends w w' \<Longrightarrow> becomes M H w' w'' \<Longrightarrow> becomes M H w w''"
  using same_ends_trans by (auto simp: becomes_def)

lemma same_ends_upd:
  "sub_datas w a = Some d \<Longrightarrow> sub_datas w' = (sub_datas w)(a \<mapsto> d') \<Longrightarrow> service_datas w' = service_datas w \<Longrightarrow> pub_datas w' = pub_datas w \<Longrightarrow>
    env w' = env w \<Longrightarrow> replies w' = replies w \<Longrightarrow> sub_callbacks d' = sub_callbacks d \<Longrightarrow> same_ends w w'"
  "service_datas w a = Some e \<Longrightarrow> service_datas w' = (service_datas w)(a \<mapsto> e') \<Longrightarrow> sub_datas w' = sub_datas w \<Longrightarrow> pub_datas w' = pub_datas w \<Longrightarrow>
    env w' = env w \<Longrightarrow> replies w' = replies w \<Longrightarrow> request_callback e' = request_callback e \<Longrightarrow> response_callback e' = response_callback e \<Longrightarrow> same_ends w w'"
  "sub_datas w' = sub_datas w \<Longrightarrow> service_datas w' = service_datas w \<Longrightarrow> pub_datas w' = pub_datas w \<Longrightarrow> env w' = env w \<Longrightarrow> replies w' = replies w \<Longrightarrow>
    same_ends w w'"
  by (auto simp: same_ends_def)

lemma same_endsD:
  assumes "same_ends w w'"
  shows "sub_datas w a = Some d \<Longrightarrow> \<exists>d'. sub_datas w' a = Some d' \<and> sub_callbacks d' = sub_callbacks d"
    "service_datas w a = Some e \<Longrightarrow> \<exists>e'. service_datas w' a = Some e' \<and> request_callback e' = request_callback e \<and>
       response_callback e' = response_callback e"
    "env w' = env w" "replies w' = replies w"
proof -
  have s: "map_option sub_callbacks (sub_datas w' a) = map_option sub_callbacks (sub_datas w a)"
    "map_option request_callback (service_datas w' a) = map_option request_callback (service_datas w a)"
    "map_option response_callback (service_datas w' a) = map_option response_callback (service_datas w a)" "env w' = env w"
    "replies w' = replies w"
    using assms unfolding same_ends_def by blast+
  show "sub_datas w a = Some d \<Longrightarrow> \<exists>d'. sub_datas w' a = Some d' \<and> sub_callbacks d' = sub_callbacks d"
    using s(1) by (cases "sub_datas w' a") simp_all
  show "service_datas w a = Some e \<Longrightarrow> \<exists>e'. service_datas w' a = Some e' \<and> request_callback e' = request_callback e \<and>
       response_callback e' = response_callback e"
    using s(2,3) by (cases "service_datas w' a") simp_all
  show "env w' = env w" "replies w' = replies w" by (rule s(4,5))+
qed

subsection \<open>New messages\<close>

text \<open>
  A sample or query is accepted when its message object and its payload get memory and its attachment can be read; the letter
  then has its payload, the attachment that was read, and the time of arrival.
\<close>

definition accepts :: "rmw_mem \<Rightarrow> byte list \<Rightarrow> bool" where
  "accepts w att \<longleftrightarrow> \<not> oom (env w) (next_addr w) \<and> \<not> oom (env w) (Suc (next_addr w)) \<and>
     fst (attachment_data_get (codec (env w)) att zero_attachment)"

definition sample_letter :: "64 word \<Rightarrow> rmw_mem \<Rightarrow> z_sample \<Rightarrow> letter option" where
  "sample_letter ts w s = (if accepts w (sample_attachment s)
     then Some ((sample_msg 0 (sample_payload s) ts (snd (attachment_data_get (codec (env w)) (sample_attachment s) zero_attachment)))
       \<lparr>payload_start := None\<rparr>, sample_payload s) else None)"

definition query_letter :: "64 word \<Rightarrow> rmw_mem \<Rightarrow> z_query \<Rightarrow> letter option" where
  "query_letter ts w q = (if accepts w (query_attachment q)
     then Some ((query_msg 0 q ts (snd (attachment_data_get (codec (env w)) (query_attachment q) zero_attachment)))
       \<lparr>payload_start := None, keyexpr := z_string_clone (copy_ok (env w)) (query_keyexpr q)\<rparr>, query_payload q) else None)"

lemma held_nothing:
  assumes "runs M H w" and "sub_datas w' = sub_datas w" "service_datas w' = service_datas w" "pub_datas w' = pub_datas w"
    "wait_sets w' = wait_sets w" "next_addr w \<le> next_addr w'"
    "\<And>x. x < next_addr w \<Longrightarrow> msgs w' x = msgs w x \<and> bufs w' x = bufs w x"
    "\<And>x. next_addr w' \<le> x \<Longrightarrow> msgs w' x = None \<and> bufs w' x = None" "env w' = env w" "replies w' = replies w"
  shows "held None M H w (None, w')"
  using runs_junk [OF assms(1-8)] same_ends_upd(3) [OF assms(2-4,9,10)] by (simp add: held_def)

lemma held_new:
  assumes run: "runs M H w" and p: "payload_start d = Some (Suc (next_addr w))" "lock d = Unlocked" "ref d = 1"
    "payload_size d = length bs" "ROS2_MSG_OFFSET \<le> length bs"
    and w: "sub_datas w' = sub_datas w" "service_datas w' = service_datas w" "pub_datas w' = pub_datas w" "wait_sets w' = wait_sets w"
    "next_addr w' = Suc (Suc (next_addr w))" "msgs w' = (msgs w)(next_addr w \<mapsto> d)" "bufs w' = (bufs w)(Suc (next_addr w) \<mapsto> bs)"
    and e: "env w' = env w" "replies w' = replies w" "d\<lparr>next_msg := None, payload_start := None\<rparr> = dd"
  shows "held (Some (dd, bs)) M H w (Some (next_addr w), w')"
  using runs_with_msg [OF run p calm_frame [OF runs_calm [OF run] w(1-4)] queue_at_cong [OF w(1,2)] w(5-7)] same_ends_upd(3) [OF w(1-3) e(1,2)] e(3)
  by (auto simp: held_def)

lemma recv_sample_held:
  assumes run: "runs M H w" and len: "ROS2_MSG_OFFSET \<le> length (sample_payload s)"
  shows "ensures (rmw_zenoh_pico_generate_recv_sample_msg_data s ts w) (held (sample_letter ts w s) M H w)"
proof -
  let ?n = "next_addr w"
  obtain ok att where a: "attachment_data_get (codec (env w)) (sample_attachment s) zero_attachment = (ok, att)" by (rule prod.exhaust)
  note fr = runs_fresh [OF run]
  note run_defs = rmw_zenoh_pico_generate_recv_sample_msg_data_def ZenohPicoDataGenerate_def z_malloc_def Let_def zero_msg_def
    data_obj_init_def buf_put_def msg_put_def sample_letter_def accepts_def
  consider "oom (env w) ?n" | "\<not> oom (env w) ?n" "oom (env w) (Suc ?n)" | "\<not> oom (env w) ?n" "\<not> oom (env w) (Suc ?n)" "\<not> ok"
    | "\<not> oom (env w) ?n" "\<not> oom (env w) (Suc ?n)" ok by blast
  then show ?thesis
  proof cases
    case 4
    let ?d = "sample_msg (Suc ?n) (sample_payload s) ts att"
    have "rmw_zenoh_pico_generate_recv_sample_msg_data s ts w = Inr (Some ?n, with_msg ?d (sample_payload s) w)"
      using 4 a by (simp add: run_defs with_msg_def sample_msg_def)
    moreover have "held (sample_letter ts w s) M H w (Some ?n, with_msg ?d (sample_payload s) w)"
      using 4 a held_new [OF run, of ?d, OF _ _ _ _ len] by (simp add: with_msg_def sample_msg_def sample_letter_def accepts_def)
    ultimately show ?thesis by simp
  qed (use a in \<open>simp add: run_defs\<close>; rule held_nothing [OF run]; simp add: fr)+
qed

lemma recv_query_held:
  assumes run: "runs M H w" and len: "ROS2_MSG_OFFSET \<le> length (query_payload q)"
  shows "ensures (rmw_zenoh_pico_generate_recv_query_msg_data q ts w) (held (query_letter ts w q) M H w)"
proof -
  let ?n = "next_addr w"
  obtain ok att where a: "attachment_data_get (codec (env w)) (query_attachment q) zero_attachment = (ok, att)" by (rule prod.exhaust)
  note fr = runs_fresh [OF run]
  note run_defs = rmw_zenoh_pico_generate_recv_query_msg_data_def ZenohPicoDataGenerate_def z_malloc_def Let_def zero_msg_def
    data_obj_init_def buf_put_def msg_put_def znote_def query_letter_def accepts_def
  consider "oom (env w) ?n" | "\<not> oom (env w) ?n" "oom (env w) (Suc ?n)" | "\<not> oom (env w) ?n" "\<not> oom (env w) (Suc ?n)" "\<not> ok"
    | "\<not> oom (env w) ?n" "\<not> oom (env w) (Suc ?n)" ok by blast
  then show ?thesis
  proof cases
    case 4
    let ?d = "(query_msg (Suc ?n) q ts att)\<lparr>keyexpr := z_string_clone (copy_ok (env w)) (query_keyexpr q)\<rparr>"
    let ?w = "(with_msg ?d (query_payload q) w)\<lparr>trace := ZQueryClone (query_id q) # trace w\<rparr>"
    have "rmw_zenoh_pico_generate_recv_query_msg_data q ts w = Inr (Some ?n, ?w)"
      using 4 a by (simp add: run_defs with_msg_def query_msg_def)
    moreover have "held (query_letter ts w q) M H w (Some ?n, ?w)"
      using 4 a held_new [OF run, of ?d, OF _ _ _ _ len] by (simp add: with_msg_def query_msg_def query_letter_def accepts_def)
    ultimately show ?thesis by simp
  qed (use a in \<open>simp add: run_defs\<close>; rule held_nothing [OF run]; simp add: fr)+
qed

subsection \<open>Deliveries\<close>

lemma sub_message_becomes:
  assumes run: "runs M (H(m \<mapsto> e)) w" and m: "m \<notin> dom H" and d: "sub_datas w a = Some d"
  shows "ensures (add_new_subscription_message (Some a) (Some m) w) (\<lambda>(_, w'). becomes (M(SubQ a := M (SubQ a) @ [e])) H w w')"
proof -
  have q: "queue_at w (SubQ a) = Some (message_queue d)" using d by simp
  have c: "calm_sub w d" using runs_calm [OF run] d by (rule calm_subD)
  obtain l h where ap: "recv_msg_list_append (Some (message_queue d)) (Some m) (msgs w) = Inr (Some m, Some l, h)"
    and k: "\<And>w'. calm w' \<Longrightarrow> next_addr w' = next_addr w \<Longrightarrow> bufs w' = bufs w \<Longrightarrow> msgs w' = h \<Longrightarrow>
      (\<forall>q'. queue_at w' q' = (if q' = SubQ a then Some l else queue_at w q')) \<Longrightarrow> runs (M(SubQ a := M (SubQ a) @ [e])) H w'"
    using runs_append [OF run m q] by blast
  let ?w = "w\<lparr>msgs := h, trace := announcement (sub_event_mgr d) @ trace w, sub_datas := (sub_datas w)(a \<mapsto> sub_received l d),
      wait_sets := wake (sub_wait_set_data d) (wait_sets w)\<rparr>"
  have f: "sub_datas ?w = (sub_datas w)(a \<mapsto> sub_received l d)" "service_datas ?w = service_datas w" "pub_datas ?w = pub_datas w"
    "wait_sets ?w = wake (sub_wait_set_data d) (wait_sets w)" by simp_all
  have "calm ?w"
    by (rule calm_update_sub [OF runs_calm [OF run] _ f(1-3) waiter_ok_wake [OF f(4)]]) (use c in \<open>simp_all add: calm_sub_def sub_received_def\<close>)
  then have "runs (M(SubQ a := M (SubQ a) @ [e])) H ?w"
    by (rule k) (use queue_at_sub_upd [OF f(1,2)] in \<open>simp_all add: sub_received_def\<close>)
  moreover have "same_ends w ?w" by (rule same_ends_upd(1) [OF d f(1-3)]) (simp_all add: sub_received_def)
  moreover have "add_new_subscription_message (Some a) (Some m) w = Inr ((), ?w)"
    using c ap by (intro add_new_subscription_message_run [OF d]) (simp_all add: calm_sub_def)
  ultimately show ?thesis by (simp add: becomes_def)
qed

lemma request_message_becomes:
  assumes run: "runs M (H(m \<mapsto> e)) w" and m: "m \<notin> dom H" and d: "service_datas w a = Some d"
  shows "ensures (add_new_request_message (Some a) (Some m) w) (\<lambda>(_, w'). becomes (M(ReqQ a := M (ReqQ a) @ [e])) H w w')"
proof -
  have q: "queue_at w (ReqQ a) = Some (request_queue d)" using d by simp
  note c = calm_srvD [OF runs_calm [OF run] d]
  obtain l h where ap: "recv_msg_list_append (Some (request_queue d)) (Some m) (msgs w) = Inr (Some m, Some l, h)"
    and k: "\<And>w'. calm w' \<Longrightarrow> next_addr w' = next_addr w \<Longrightarrow> bufs w' = bufs w \<Longrightarrow> msgs w' = h \<Longrightarrow>
      (\<forall>q'. queue_at w' q' = (if q' = ReqQ a then Some l else queue_at w q')) \<Longrightarrow> runs (M(ReqQ a := M (ReqQ a) @ [e])) H w'"
    using runs_append [OF run m q] by blast
  let ?w = "w\<lparr>msgs := h, trace := announcement (srv_event_mgr d) @ trace w, service_datas := (service_datas w)(a \<mapsto> srv_received l d),
      wait_sets := wake (srv_wait_set_data d) (wait_sets w)\<rparr>"
  have f: "service_datas ?w = (service_datas w)(a \<mapsto> srv_received l d)" "sub_datas ?w = sub_datas w" "pub_datas ?w = pub_datas w"
    "wait_sets ?w = wake (srv_wait_set_data d) (wait_sets w)" by simp_all
  have "calm ?w"
    by (rule calm_update_srv [OF runs_calm [OF run] _ _ f(1-3) waiter_ok_wake [OF f(4)]])
      (use c in \<open>simp_all add: calm_srv_def srv_received_def\<close>)
  then have "runs (M(ReqQ a := M (ReqQ a) @ [e])) H ?w"
    by (rule k) (use queue_at_srv_upd [OF f(1,2)] d in \<open>simp_all add: srv_received_def\<close>)
  moreover have "same_ends w ?w" by (rule same_ends_upd(2) [OF d f(1-3)]) (simp_all add: srv_received_def)
  moreover have "add_new_request_message (Some a) (Some m) w = Inr ((), ?w)"
    using c ap by (intro add_new_request_message_run [OF d]) (simp_all add: calm_srv_def)
  ultimately show ?thesis by (simp add: becomes_def)
qed

lemma response_message_becomes:
  assumes run: "runs M (H(m \<mapsto> e)) w" and m: "m \<notin> dom H" and d: "service_datas w a = Some d"
  shows "ensures (add_new_replay_message (Some a) (Some m) w) (\<lambda>(_, w'). becomes (M(RespQ a := M (RespQ a) @ [e])) H w w')"
proof -
  have q: "queue_at w (RespQ a) = Some (response_queue d)" using d by simp
  note c = calm_srvD [OF runs_calm [OF run] d]
  obtain l h where ap: "recv_msg_list_append (Some (response_queue d)) (Some m) (msgs w) = Inr (Some m, Some l, h)"
    and k: "\<And>w'. calm w' \<Longrightarrow> next_addr w' = next_addr w \<Longrightarrow> bufs w' = bufs w \<Longrightarrow> msgs w' = h \<Longrightarrow>
      (\<forall>q'. queue_at w' q' = (if q' = RespQ a then Some l else queue_at w q')) \<Longrightarrow> runs (M(RespQ a := M (RespQ a) @ [e])) H w'"
    using runs_append [OF run m q] by blast
  let ?w = "w\<lparr>msgs := h, trace := announcement (srv_event_mgr d) @ trace w, service_datas := (service_datas w)(a \<mapsto> client_received l d),
      wait_sets := wake (srv_wait_set_data d) (wait_sets w)\<rparr>"
  have f: "service_datas ?w = (service_datas w)(a \<mapsto> client_received l d)" "sub_datas ?w = sub_datas w" "pub_datas ?w = pub_datas w"
    "wait_sets ?w = wake (srv_wait_set_data d) (wait_sets w)" by simp_all
  have "calm ?w"
    by (rule calm_update_srv [OF runs_calm [OF run] _ _ f(1-3) waiter_ok_wake [OF f(4)]])
      (use c in \<open>simp_all add: calm_srv_def client_received_def\<close>)
  then have "runs (M(RespQ a := M (RespQ a) @ [e])) H ?w"
    by (rule k) (use queue_at_srv_upd [OF f(1,2)] d in \<open>simp_all add: client_received_def\<close>)
  moreover have "same_ends w ?w" by (rule same_ends_upd(2) [OF d f(1-3)]) (simp_all add: client_received_def)
  moreover have "add_new_replay_message (Some a) (Some m) w = Inr ((), ?w)"
    using c ap by (intro add_new_replay_message_run [OF d]) (simp_all add: calm_srv_def)
  ultimately show ?thesis by (simp add: becomes_def)
qed

definition delivered :: "queue_id \<Rightarrow> letter option \<Rightarrow> (queue_id \<Rightarrow> letter list) \<Rightarrow> queue_id \<Rightarrow> letter list" where
  "delivered q E M = (case E of None \<Rightarrow> M | Some e \<Rightarrow> M(q := M q @ [e]))"

lemma held_becomes:
  assumes h: "held E M H v (m, w')" and e: "same_ends w v"
    and none: "runs M H w' \<Longrightarrow> same_ends w w' \<Longrightarrow> ensures r (\<lambda>(_, w''). becomes M H w w'')"
    and some: "\<And>x e. runs M (H(x \<mapsto> e)) w' \<Longrightarrow> x \<notin> dom H \<Longrightarrow> same_ends w w' \<Longrightarrow>
      ensures (add (Some x) w') (\<lambda>(_, w''). becomes (M(q := M q @ [e])) H w' w'')"
  shows "ensures (if m = None then r else add m w') (\<lambda>(_, w''). becomes (delivered q E M) H w w'')"
proof (cases E)
  case None
  then have "m = None" "runs M H w'" "same_ends w w'" using h same_ends_trans [OF e] by (auto simp: held_def)
  with none show ?thesis using None by (simp add: delivered_def)
next
  case (Some l)
  then obtain x where x: "m = Some x" "x \<notin> dom H" "runs M (H(x \<mapsto> l)) w'" and s: "same_ends w w'"
    using h same_ends_trans [OF e] by (auto simp: held_def)
  from some [OF x(3,2) s] have "ensures (add (Some x) w') (\<lambda>(_, w''). becomes (M(q := M q @ [l])) H w w'')"
    by (rule ensures_mono) (use becomes_trans [OF s] in auto)
  then show ?thesis using Some x(1) by (simp add: delivered_def)
qed

definition now :: "rmw_mem \<Rightarrow> 64 word" where
  "now w = fst (zenoh_pico_gen_timestamp w)"

lemma letter_ticks [simp]:
  "sample_letter ts (w\<lparr>ticks := k\<rparr>) s = sample_letter ts w s" "query_letter ts (w\<lparr>ticks := k\<rparr>) q = query_letter ts w q"
  by (simp_all add: sample_letter_def query_letter_def accepts_def)

lemma handle_sample_becomes:
  assumes run: "runs M H w" and len: "ROS2_MSG_OFFSET \<le> length (sample_payload s)"
    and add: "\<And>e m w'. runs M (H(m \<mapsto> e)) w' \<Longrightarrow> m \<notin> dom H \<Longrightarrow> same_ends w w' \<Longrightarrow>
      ensures (add (Some m) w') (\<lambda>(_, w''). becomes (M(q := M q @ [e])) H w' w'')"
  shows "ensures (handle_sample add s w) (\<lambda>(_, w'). becomes (delivered q (sample_letter (now w) w s) M) H w w')"
proof -
  let ?w = "w\<lparr>ticks := Suc (ticks w)\<rparr>"
  have r: "runs M H ?w" by (rule runs_update [OF run]) simp_all
  have e: "same_ends w ?w" by (simp add: same_ends_def)
  have go: "ensures (if m = None then Inr ((), w') else add m w') (\<lambda>(_, w'). becomes (delivered q (sample_letter (now w) w s) M) H w w')"
    if "held (sample_letter (now w) w s) M H ?w (m, w')" for m w'
    by (rule held_becomes [OF that e]) (auto intro: add becomesI)
  have "ensures (rmw_zenoh_pico_generate_recv_sample_msg_data s (now w) ?w) (held (sample_letter (now w) w s) M H ?w)"
    using recv_sample_held [OF r len, of "now w"] by simp
  then show ?thesis
    unfolding handle_sample_def
    by (subst timestamp_split) (auto intro: go simp flip: now_def elim!: ensures_mono)
qed

lemma handle_query_becomes:
  assumes run: "runs M H w" and len: "ROS2_MSG_OFFSET \<le> length (query_payload qy)"
    and add: "\<And>e m w'. runs M (H(m \<mapsto> e)) w' \<Longrightarrow> m \<notin> dom H \<Longrightarrow> same_ends w w' \<Longrightarrow>
      ensures (add (Some m) w') (\<lambda>(_, w''). becomes (M(q := M q @ [e])) H w' w'')"
  shows "ensures (handle_query (error_reply qy) add qy w) (\<lambda>(_, w'). becomes (delivered q (query_letter (now w) w qy) M) H w w')"
proof -
  let ?w = "w\<lparr>ticks := Suc (ticks w)\<rparr>"
  have r: "runs M H ?w" by (rule runs_update [OF run]) simp_all
  have e: "same_ends w ?w" by (simp add: same_ends_def)
  have err: "becomes M H w (error_reply qy w')" if "runs M H w'" "same_ends w w'" for w'
    using runs_update [OF that(1), of "error_reply qy w'"] that(2) by (auto simp: becomes_def same_ends_def error_reply_def znote_def)
  have go: "ensures (if m = None then Inr ((), error_reply qy w') else add m w') (\<lambda>(_, w'). becomes (delivered q (query_letter (now w) w qy) M) H w w')"
    if "held (query_letter (now w) w qy) M H ?w (m, w')" for m w'
    by (rule held_becomes [OF that e]) (auto intro: add err)
  have "ensures (rmw_zenoh_pico_generate_recv_query_msg_data qy (now w) ?w) (held (query_letter (now w) w qy) M H ?w)"
    using recv_query_held [OF r len, of "now w"] by simp
  then show ?thesis
    unfolding handle_query_def
    by (subst timestamp_split) (auto intro: go simp flip: now_def elim!: ensures_mono)
qed

text \<open>The three zenoh callbacks.\<close>

lemma subscription_data_handler_becomes:
  assumes run: "runs M H w" and len: "ROS2_MSG_OFFSET \<le> length (sample_payload s)" and a: "sub_datas w a = Some d"
  shows "ensures (subscription_data_handler s (Some a) w) (\<lambda>(_, w'). becomes (delivered (SubQ a) (sample_letter (now w) w s) M) H w w')"
  unfolding subscription_data_handler_eq
  by (rule handle_sample_becomes [OF run len]) (use same_endsD(1) [OF _ a] sub_message_becomes in blast)

lemma request_handler_becomes:
  assumes run: "runs M H w" and len: "ROS2_MSG_OFFSET \<le> length (query_payload q)" and a: "service_datas w a = Some d"
  shows "ensures (request_handler q (Some a) w) (\<lambda>(_, w'). becomes (delivered (ReqQ a) (query_letter (now w) w q) M) H w w')"
  unfolding request_handler_eq
  by (rule handle_query_becomes [OF run len]) (use same_endsD(2) [OF _ a] request_message_becomes in blast)

lemma reply_handler_becomes:
  assumes run: "runs M H w" and len: "ROS2_MSG_OFFSET \<le> length (sample_payload s)" and a: "service_datas w a = Some d"
  shows "ensures (reply_handler (Some s) (Some a) w) (\<lambda>(_, w'). becomes (delivered (RespQ a) (sample_letter (now w) w s) M) H w w')"
  unfolding reply_handler_eq
  by (rule handle_sample_becomes [OF run len]) (use same_endsD(2) [OF _ a] response_message_becomes in blast)

subsection \<open>Reading and releasing a message in hand\<close>

lemma delete_becomes:
  assumes run: "runs M (H(m \<mapsto> e)) w" and m: "m \<notin> dom H"
  shows "ensures (zenoh_pico_delete_recv_msg_data (Some m) w) (\<lambda>(_, w'). becomes M H w w')"
proof -
  obtain p where p: "parcel (msgs w) (bufs w) m p" using runs_live [OF run] by blast
  then obtain d where d: "msgs w m = Some d" by (auto simp: parcel_def)
  note pd = parcelD [OF p d]
  let ?w = "msg_freed w m d"
  have ok: "msg_ok w m d" using d pd by (auto simp: msg_ok_def live_def)
  have f: "msgs ?w = (msgs w)(m := None)" "bufs ?w = (bufs w)(p := None)" "sub_datas ?w = sub_datas w"
    "service_datas ?w = service_datas w" "pub_datas ?w = pub_datas w" "wait_sets ?w = wait_sets w" "next_addr ?w = next_addr w" "env ?w = env w"
    "replies ?w = replies w"
    using pd(3) by (simp_all add: msg_freed_def Let_def query_drop_eq)
  have "runs M H ?w"
    by (rule runs_drop [OF run m p calm_frame [OF runs_calm [OF run] f(3-6)] queue_at_cong [OF f(3,4)]])
      (use runs_fresh [OF run] in \<open>simp_all add: f\<close>)
  then show ?thesis using delete_msg_last [OF ok pd(2)] same_ends_upd(3) [OF f(3-5,8,9)] by (simp add: becomes_def)
qed

text \<open>What the type support makes of a letter: the bytes behind the header.\<close>

fun open_letter :: "message_type_support_callbacks_t \<Rightarrow> letter \<Rightarrow> bool \<times> ros_message" where
  "open_letter cb (d, bs) = cdr_deserialize cb (drop ROS2_MSG_OFFSET bs)"

lemma letter_in_hand:
  assumes "runs M (H(m \<mapsto> e)) w"
  shows "\<exists>d bs. msgs w m = Some d \<and> e = (d\<lparr>next_msg := None, payload_start := None\<rparr>, bs) \<and>
    (\<forall>cb old. rmw_zenoh_pico_deserialize (payload_start d) (payload_size d) cb old w = Inr (open_letter cb e))"
proof -
  obtain p where p: "parcel (msgs w) (bufs w) m p" using runs_live [OF assms] by blast
  then obtain d bs where d: "msgs w m = Some d" "payload_start d = Some p" "bufs w p = Some bs" "payload_size d = length bs"
    "ROS2_MSG_OFFSET \<le> length bs" by (auto simp: parcel_def)
  then have "e = (d\<lparr>next_msg := None, payload_start := None\<rparr>, bs)"
    using runs_letter [OF assms] by (simp add: letter_of_def letter_at_def)
  then show ?thesis using d by (intro exI [of _ d] exI [of _ bs]) (simp add: rmw_zenoh_pico_deserialize_def)
qed

lemma deserialize_in_hand:
  assumes "runs M (H(m \<mapsto> e)) w" and "open_letter cb e = (ok, x)"
  shows "rmw_zenoh_pico_deserialize_topic_msg (Some m) cb old info w = Inr (ok, x, if ok then map_option (info_of (fst e)) info else info)"
    "rmw_zenoh_pico_deserialize_request_msg (Some m) cb old hdr w =
       Inr (ok, x, if ok then map_option (\<lambda>h. rmw_zneoh_fill_request_header h (fst e)) hdr else hdr)"
    "rmw_zenoh_pico_deserialize_response_msg (Some m) cb old hdr w =
       Inr (ok, x, if ok then map_option (\<lambda>h. rmw_zneoh_fill_request_header h (fst e)) hdr else hdr)"
proof -
  obtain d bs where d: "msgs w m = Some d" "e = (d\<lparr>next_msg := None, payload_start := None\<rparr>, bs)"
    "rmw_zenoh_pico_deserialize (payload_start d) (payload_size d) cb old w = Inr (ok, x)"
    using letter_in_hand [OF assms(1)] assms(2) by metis
  then show "rmw_zenoh_pico_deserialize_topic_msg (Some m) cb old info w = Inr (ok, x, if ok then map_option (info_of (fst e)) info else info)"
    "rmw_zenoh_pico_deserialize_request_msg (Some m) cb old hdr w =
       Inr (ok, x, if ok then map_option (\<lambda>h. rmw_zneoh_fill_request_header h (fst e)) hdr else hdr)"
    "rmw_zenoh_pico_deserialize_response_msg (Some m) cb old hdr w =
       Inr (ok, x, if ok then map_option (\<lambda>h. rmw_zneoh_fill_request_header h (fst e)) hdr else hdr)"
    by (simp_all add: rmw_zenoh_pico_deserialize_topic_msg_def rmw_zenoh_pico_deserialize_request_msg_def
        rmw_zenoh_pico_deserialize_response_msg_def info_of_def rmw_zneoh_fill_request_header_def cong: map_option_cong)
qed

subsection \<open>Queues give up their oldest letter\<close>

lemma sub_pop_held:
  assumes run: "runs M H w" and d: "sub_datas w a = Some d"
  shows "ensures (sub_pop (Some a) w) (held (first (M (SubQ a))) (M(SubQ a := tl (M (SubQ a)))) H w)"
proof -
  have q: "queue_at w (SubQ a) = Some (message_queue d)" using d by simp
  obtain m l h where p: "recv_msg_list_pop (Some (message_queue d)) (msgs w) = Inr (m, Some l, h)"
    and k: "\<And>w'. calm w' \<Longrightarrow> next_addr w' = next_addr w \<Longrightarrow> bufs w' = bufs w \<Longrightarrow> msgs w' = h \<Longrightarrow>
      \<forall>q'. queue_at w' q' = (if q' = SubQ a then Some l else queue_at w q') \<Longrightarrow>
      holding (first (M (SubQ a))) (M(SubQ a := tl (M (SubQ a)))) H m w'"
    using runs_pop [OF run q] by blast
  let ?w = "w\<lparr>msgs := h, sub_datas := (sub_datas w)(a \<mapsto> d\<lparr>message_queue := l\<rparr>)\<rparr>"
  have f: "sub_datas ?w = (sub_datas w)(a \<mapsto> d\<lparr>message_queue := l\<rparr>)" "service_datas ?w = service_datas w" "pub_datas ?w = pub_datas w"
    by simp_all
  have c: "calm ?w"
    by (rule calm_update_sub [OF runs_calm [OF run] _ f])
      (use calm_subD [OF runs_calm [OF run] d] in \<open>simp_all add: calm_sub_def waiter_ok_cong [of ?w w]\<close>)
  have "sub_pop (Some a) w = Inr (m, ?w)" using d p by (simp add: sub_pop_def)
  moreover have "holding (first (M (SubQ a))) (M(SubQ a := tl (M (SubQ a)))) H m ?w"
    by (rule k [OF c]) (use queue_at_sub_upd [OF f(1,2)] in simp_all)
  moreover have "same_ends w ?w" by (rule same_ends_upd(1) [OF d f]) simp_all
  ultimately show ?thesis by (simp add: held_def)
qed

lemma srv_queue_calm:
  assumes run: "runs M H w" and d: "service_datas w a = Some d" and f: "service_datas w' = (service_datas w)(a \<mapsto> d')"
    "sub_datas w' = sub_datas w" "pub_datas w' = pub_datas w" "wait_sets w' = wait_sets w"
    and same: "srv_event_mgr d' = srv_event_mgr d" "srv_condition_mutex d' = srv_condition_mutex d"
    "srv_wait_set_data d' = srv_wait_set_data d" "srv_mutex d' = srv_mutex d"
  shows "calm w'"
  by (rule calm_update_srv [OF runs_calm [OF run] _ _ f(1-3)])
    (use calm_srvD [OF runs_calm [OF run] d] same in \<open>simp_all add: calm_srv_def waiter_ok_cong [OF f(4)]\<close>)

text \<open>The operations on a queue of a service or client store the changed queue and change nothing else of it.\<close>

lemma request_queue_step:
  assumes run: "runs M H w" and d: "service_datas w a = Some d" and w': "w' = w\<lparr>msgs := h, service_datas := (service_datas w)(a \<mapsto> d\<lparr>request_queue := l\<rparr>)\<rparr>"
  shows "calm w'" "\<forall>q. queue_at w' q = (if q = ReqQ a then Some l else queue_at w q)" "same_ends w w'"
    "next_addr w' = next_addr w" "bufs w' = bufs w" "msgs w' = h"
proof -
  have f: "service_datas w' = (service_datas w)(a \<mapsto> d\<lparr>request_queue := l\<rparr>)" "sub_datas w' = sub_datas w" "pub_datas w' = pub_datas w"
    "wait_sets w' = wait_sets w" "env w' = env w" "replies w' = replies w" by (simp_all add: w')
  show "calm w'" by (rule srv_queue_calm [OF run d f(1-4)]) simp_all
  show "\<forall>q. queue_at w' q = (if q = ReqQ a then Some l else queue_at w q)" using queue_at_srv_upd [OF f(1,2)] d by auto
  show "same_ends w w'" by (rule same_ends_upd(2) [OF d f(1-3,5,6)]) simp_all
qed (simp_all add: w')

lemma response_queue_step:
  assumes run: "runs M H w" and d: "service_datas w a = Some d" and w': "w' = w\<lparr>msgs := h, service_datas := (service_datas w)(a \<mapsto> d\<lparr>response_queue := l\<rparr>)\<rparr>"
  shows "calm w'" "\<forall>q. queue_at w' q = (if q = RespQ a then Some l else queue_at w q)" "same_ends w w'"
    "next_addr w' = next_addr w" "bufs w' = bufs w" "msgs w' = h"
proof -
  have f: "service_datas w' = (service_datas w)(a \<mapsto> d\<lparr>response_queue := l\<rparr>)" "sub_datas w' = sub_datas w" "pub_datas w' = pub_datas w"
    "wait_sets w' = wait_sets w" "env w' = env w" "replies w' = replies w" by (simp_all add: w')
  show "calm w'" by (rule srv_queue_calm [OF run d f(1-4)]) simp_all
  show "\<forall>q. queue_at w' q = (if q = RespQ a then Some l else queue_at w q)" using queue_at_srv_upd [OF f(1,2)] d by auto
  show "same_ends w w'" by (rule same_ends_upd(2) [OF d f(1-3,5,6)]) simp_all
qed (simp_all add: w')

lemma srv_pop_request_held:
  assumes run: "runs M H w" and d: "service_datas w a = Some d"
  shows "ensures (srv_pop_request (Some a) w) (held (first (M (ReqQ a))) (M(ReqQ a := tl (M (ReqQ a)))) H w)"
proof -
  have q: "queue_at w (ReqQ a) = Some (request_queue d)" using d by simp
  obtain m l h where p: "recv_msg_list_pop (Some (request_queue d)) (msgs w) = Inr (m, Some l, h)"
    and k: "\<And>w'. calm w' \<Longrightarrow> next_addr w' = next_addr w \<Longrightarrow> bufs w' = bufs w \<Longrightarrow> msgs w' = h \<Longrightarrow>
      \<forall>q'. queue_at w' q' = (if q' = ReqQ a then Some l else queue_at w q') \<Longrightarrow>
      holding (first (M (ReqQ a))) (M(ReqQ a := tl (M (ReqQ a)))) H m w'"
    using runs_pop [OF run q] by blast
  let ?w = "w\<lparr>msgs := h, service_datas := (service_datas w)(a \<mapsto> d\<lparr>request_queue := l\<rparr>)\<rparr>"
  note st = request_queue_step [OF run d, of ?w l h, OF refl]
  have "srv_pop_request (Some a) w = Inr (m, ?w)" using d p by (simp add: srv_pop_request_def)
  moreover have "holding (first (M (ReqQ a))) (M(ReqQ a := tl (M (ReqQ a)))) H m ?w" by (rule k [OF st(1,4,5,6,2)])
  ultimately show ?thesis using st(3) by (simp add: held_def)
qed

lemma srv_append_response_becomes:
  assumes run: "runs M (H(m \<mapsto> e)) w" and m: "m \<notin> dom H" and d: "service_datas w a = Some d"
  shows "ensures (srv_append_response (Some a) (Some m) w) (\<lambda>(_, w'). becomes (M(RespQ a := M (RespQ a) @ [e])) H w w')"
proof -
  have q: "queue_at w (RespQ a) = Some (response_queue d)" using d by simp
  obtain l h where p: "recv_msg_list_append (Some (response_queue d)) (Some m) (msgs w) = Inr (Some m, Some l, h)"
    and k: "\<And>w'. calm w' \<Longrightarrow> next_addr w' = next_addr w \<Longrightarrow> bufs w' = bufs w \<Longrightarrow> msgs w' = h \<Longrightarrow>
      \<forall>q'. queue_at w' q' = (if q' = RespQ a then Some l else queue_at w q') \<Longrightarrow> runs (M(RespQ a := M (RespQ a) @ [e])) H w'"
    using runs_append [OF run m q] by blast
  let ?w = "w\<lparr>msgs := h, service_datas := (service_datas w)(a \<mapsto> d\<lparr>response_queue := l\<rparr>)\<rparr>"
  note st = response_queue_step [OF run d, of ?w l h, OF refl]
  have "srv_append_response (Some a) (Some m) w = Inr ((), ?w)" using d p by (simp add: srv_append_response_def)
  moreover have "runs (M(RespQ a := M (RespQ a) @ [e])) H ?w" by (rule k [OF st(1,4,5,6,2)])
  ultimately show ?thesis using st(3) by (simp add: becomes_def)
qed

definition pop_response :: "addr option \<Rightarrow> rmw_mem \<Rightarrow> (addr option \<times> rmw_mem) res" where
  "pop_response p w = on_srv p w (\<lambda>d w. andthen (recv_msg_list_pop (Some (response_queue d)) (msgs w)) (\<lambda>(m, l, h).
     Inr (m, d\<lparr>response_queue := the l\<rparr>, w\<lparr>msgs := h\<rparr>)))"

lemma pop_response_held:
  assumes run: "runs M H w" and d: "service_datas w a = Some d"
  shows "ensures (pop_response (Some a) w) (held (first (M (RespQ a))) (M(RespQ a := tl (M (RespQ a)))) H w)"
proof -
  have q: "queue_at w (RespQ a) = Some (response_queue d)" using d by simp
  obtain m l h where p: "recv_msg_list_pop (Some (response_queue d)) (msgs w) = Inr (m, Some l, h)"
    and k: "\<And>w'. calm w' \<Longrightarrow> next_addr w' = next_addr w \<Longrightarrow> bufs w' = bufs w \<Longrightarrow> msgs w' = h \<Longrightarrow>
      \<forall>q'. queue_at w' q' = (if q' = RespQ a then Some l else queue_at w q') \<Longrightarrow>
      holding (first (M (RespQ a))) (M(RespQ a := tl (M (RespQ a)))) H m w'"
    using runs_pop [OF run q] by blast
  let ?w = "w\<lparr>msgs := h, service_datas := (service_datas w)(a \<mapsto> d\<lparr>response_queue := l\<rparr>)\<rparr>"
  note st = response_queue_step [OF run d, of ?w l h, OF refl]
  have "pop_response (Some a) w = Inr (m, ?w)" using d p by (simp add: pop_response_def)
  moreover have "holding (first (M (RespQ a))) (M(RespQ a := tl (M (RespQ a)))) H m ?w" by (rule k [OF st(1,4,5,6,2)])
  ultimately show ?thesis using st(3) by (simp add: held_def)
qed

text \<open>
  The request a header asks for: the comparisons with the waiting letters in turn, up to the first with its gid and number or
  the first whose gid is too short to be compared.
\<close>

definition asked_by :: "rmw_request_id_t \<Rightarrow> letter \<Rightarrow> bool" where
  "asked_by rid e = request_matches rid (fst e)"

definition search :: "rmw_request_id_t \<Rightarrow> letter list \<Rightarrow> letter option res" where
  "search rid es = find_res (\<lambda>e. compare_responce_msg rid (fst e)) es"

lemma search_find: "search rid es = Inr r \<Longrightarrow> find (asked_by rid) es = r"
  unfolding search_def asked_by_def by (rule find_res_find) (auto dest: compare_responce_msg_Inr)

lemma search_short: "\<forall>u \<in> set us. \<not> asked_by rid u \<Longrightarrow> short_gid (fst e) \<Longrightarrow> search rid (us @ e # vs) = Inl OutOfBounds"
  by (induction us) (simp_all add: search_def asked_by_def compare_responce_msg_eq)

lemma compare_linkless: "compare_responce_msg rid (d\<lparr>next_msg := None, payload_start := None\<rparr>) = compare_responce_msg rid d"
  by (simp add: compare_responce_msg_def)

lemma request_matches_linkless: "request_matches rid (d\<lparr>next_msg := None, payload_start := None\<rparr>) = request_matches rid d"
  by (simp add: request_matches_def)

lemma pickup_response_fault:
  assumes run: "runs M H w" and d: "service_datas w a = Some d" and an: "search rid (M (RespQ a)) = Inl e"
  shows "srv_pickup_response (Some a) rid w = Inl e"
proof -
  have "queue_at w (RespQ a) = Some (response_queue d)" using d by simp
  from runs_pickup_fault [where f = "compare_responce_msg rid", OF run this compare_linkless] an d show ?thesis
    by (simp add: search_def srv_pickup_response_def)
qed

lemma pickup_response_held:
  assumes run: "runs M H w" and d: "service_datas w a = Some d" and an: "search rid (M (RespQ a)) = Inr E"
  shows "ensures (srv_pickup_response (Some a) rid w)
    (held E (M(RespQ a := drop_first (asked_by rid) (M (RespQ a)))) H w)"
proof -
  have q: "queue_at w (RespQ a) = Some (response_queue d)" using d by simp
  note f = compare_linkless [of rid]
  obtain m l h where p: "recv_msg_list_pickup (next_addr w) (Some (response_queue d)) (compare_responce_msg rid) (msgs w) = Inr (m, Some l, h)"
    and k: "\<And>w'. calm w' \<Longrightarrow> next_addr w' = next_addr w \<Longrightarrow> bufs w' = bufs w \<Longrightarrow> msgs w' = h \<Longrightarrow>
      \<forall>q'. queue_at w' q' = (if q' = RespQ a then Some l else queue_at w q') \<Longrightarrow>
      holding E (M(RespQ a := drop_first (asked_by rid) (M (RespQ a)))) H m w'"
    using runs_pickup [where f = "compare_responce_msg rid" and g = "request_matches rid", OF run q f compare_responce_msg_Inr request_matches_linkless an [unfolded search_def]]
    unfolding asked_by_def by blast
  let ?w = "w\<lparr>msgs := h, service_datas := (service_datas w)(a \<mapsto> d\<lparr>response_queue := l\<rparr>)\<rparr>"
  note st = response_queue_step [OF run d, of ?w l h, OF refl]
  have "srv_pickup_response (Some a) rid w = Inr (m, ?w)" using d p by (simp add: srv_pickup_response_def)
  moreover have "holding E (M(RespQ a := drop_first (asked_by rid) (M (RespQ a)))) H m ?w"
    by (rule k [OF st(1,4,5,6,2)])
  ultimately show ?thesis using st(3) by (simp add: held_def)
qed

subsection \<open>Taking\<close>

lemma heldE:
  assumes "ensures r (held E M H w)"
  obtains (nothing) w' where "E = None" "r = Inr (None, w')" "same_ends w w'" "runs M H w'"
  | (something) e x w' where "E = Some e" "r = Inr (Some x, w')" "same_ends w w'" "x \<notin> dom H" "runs M (H(x \<mapsto> e)) w'"
proof -
  obtain m w' where r: "r = Inr (m, w')" "held E M H w (m, w')" using assms by (auto simp: ensures_iff)
  show ?thesis using r that by (cases E) (auto simp: held_def)
qed

text \<open>
  What the application gets for the letter \<open>E\<close>: \<open>rmw_zenoh_pico_take_one\<close>, \<open>rmw_take_request\<close> and \<open>rmw_take_response\<close> hand out
  what the type support makes of it, with the information that came along when it could be read.
\<close>

definition taken_topic ::
  "message_type_support_callbacks_t \<Rightarrow> ros_message \<Rightarrow> rmw_message_info_t option \<Rightarrow> bool option \<Rightarrow> letter option
     \<Rightarrow> rmw_ret_t \<times> bool option \<times> ros_message \<times> rmw_message_info_t option" where
  "taken_topic cb old info taken E = (case E of None \<Rightarrow> (RMW_RET_ERROR, taken, old, info)
     | Some e \<Rightarrow> (case open_letter cb e of (ok, m) \<Rightarrow>
         (if ok then RMW_RET_OK else RMW_RET_ERROR, map_option (\<lambda>_. ok) taken, m, if ok then map_option (info_of (fst e)) info else info)))"

definition taken_request ::
  "message_type_support_callbacks_t \<Rightarrow> rmw_service_info_t option \<Rightarrow> ros_message \<Rightarrow> bool option \<Rightarrow> letter option
     \<Rightarrow> rmw_ret_t \<times> rmw_service_info_t option \<times> ros_message \<times> bool option" where
  "taken_request cb hdr old taken E = (case E of None \<Rightarrow> (RMW_RET_ERROR, hdr, old, taken)
     | Some e \<Rightarrow> (case open_letter cb e of (ok, m) \<Rightarrow>
         (RMW_RET_OK, if ok then map_option (\<lambda>h. rmw_zneoh_fill_request_header h (fst e)) hdr else hdr, m, Some ok)))"

definition taken_response ::
  "message_type_support_callbacks_t \<Rightarrow> rmw_service_info_t option \<Rightarrow> ros_message \<Rightarrow> bool option \<Rightarrow> letter option
     \<Rightarrow> rmw_ret_t \<times> rmw_service_info_t option \<times> ros_message \<times> bool option" where
  "taken_response cb hdr old taken E = (case E of None \<Rightarrow> (RMW_RET_ERROR, hdr, old, taken)
     | Some e \<Rightarrow> (case open_letter cb e of (ok, m) \<Rightarrow>
         (if ok then RMW_RET_OK else RMW_RET_ERROR, if ok then map_option (\<lambda>h. rmw_zneoh_fill_request_header h (fst e)) hdr else hdr, m, Some ok)))"

lemma take_one_becomes:
  assumes run: "runs M H w" and d: "sub_datas w a = Some d"
  shows "ensures (rmw_zenoh_pico_take_one (Some a) old info taken w) (\<lambda>(r, t, m, i, w').
    becomes (M(SubQ a := tl (M (SubQ a)))) H w w' \<and> (r, t, m, i) = taken_topic (sub_callbacks d) old info taken (first (M (SubQ a))))"
  using sub_pop_held [OF run d]
proof (cases rule: heldE)
  case (nothing w')
  then show ?thesis by (simp add: rmw_zenoh_pico_take_one_def becomesI taken_topic_def)
next
  case (something e x w')
  obtain d' where d': "sub_datas w' a = Some d'" "sub_callbacks d' = sub_callbacks d" using same_endsD(1) [OF something(3) d] by blast
  obtain ok m where o: "open_letter (sub_callbacks d) e = (ok, m)" by (rule prod.exhaust)
  note read = deserialize_in_hand(1) [OF something(5) o, of old info]
  have lost: "becomes (M(SubQ a := tl (M (SubQ a)))) H w w'" using runs_lose [OF something(5,4)] something(3) by (rule becomesI)
  have "ensures (zenoh_pico_delete_recv_msg_data (Some x) w') (\<lambda>(_, v). becomes (M(SubQ a := tl (M (SubQ a)))) H w v)"
    by (rule ensures_mono [OF delete_becomes [OF something(5,4)]]) (use becomes_trans [OF something(3)] in auto)
  then show ?thesis using something(1,2) d' read o lost
    by (auto simp: rmw_zenoh_pico_take_one_def Let_def taken_topic_def ensures_iff)
qed

lemma take_request_becomes:
  assumes run: "runs M H w" and h: "data h = Some a" "topic_name h = Some tn" "identifiers_match (implementation_identifier h)"
    and d: "service_datas w a = Some d"
  shows "ensures (rmw_take_request (Some h) hdr old (Some b) w) (\<lambda>(r, hd, m, t, w').
    becomes (delivered (RespQ a) (first (M (ReqQ a))) (M(ReqQ a := tl (M (ReqQ a))))) H w w' \<and>
    (r, hd, m, t) = taken_request (request_callback d) hdr old (Some b) (first (M (ReqQ a))))"
  using srv_pop_request_held [OF run d]
proof (cases rule: heldE)
  case (nothing w')
  then show ?thesis using h by (simp add: rmw_take_request_def becomesI delivered_def taken_request_def)
next
  case (something e x w')
  let ?M = "M(ReqQ a := tl (M (ReqQ a)))"
  obtain d' where d': "service_datas w' a = Some d'" "request_callback d' = request_callback d" using same_endsD(2) [OF something(3) d] by blast
  obtain ok m where o: "open_letter (request_callback d) e = (ok, m)" by (rule prod.exhaust)
  note read = deserialize_in_hand(2) [OF something(5) o, of old hdr]
  have "ensures (srv_append_response (Some a) (Some x) w') (\<lambda>(_, v). becomes (?M(RespQ a := ?M (RespQ a) @ [e])) H w v)"
    by (rule ensures_mono [OF srv_append_response_becomes [OF something(5,4) d'(1)]]) (use becomes_trans [OF something(3)] in auto)
  then obtain v where ap: "srv_append_response (Some a) (Some x) w' = Inr ((), v)" "becomes (delivered (RespQ a) (Some e) ?M) H w v"
    by (auto simp: ensures_iff delivered_def)
  show ?thesis using something(1,2) h d' read o ap by (simp add: rmw_take_request_def taken_request_def)
qed

lemma take_response_becomes:
  assumes run: "runs M H w" and h: "data h = Some a" "identifiers_match (implementation_identifier h)"
    and d: "service_datas w a = Some d"
  shows "ensures (rmw_take_response (Some h) hdr old (Some b) w) (\<lambda>(r, hd, m, t, w').
    becomes (M(RespQ a := tl (M (RespQ a)))) H w w' \<and>
    (r, hd, m, t) = taken_response (response_callback d) hdr old (Some b) (first (M (RespQ a))))"
  using pop_response_held [OF run d]
proof (cases rule: heldE)
  case (nothing w')
  then show ?thesis using h by (simp add: rmw_take_response_def taken_response_def flip: pop_response_def) (simp add: becomesI)
next
  case (something e x w')
  let ?M = "M(RespQ a := tl (M (RespQ a)))"
  obtain d' where d': "service_datas w' a = Some d'" "response_callback d' = response_callback d" using same_endsD(2) [OF something(3) d] by blast
  obtain ok m where o: "open_letter (response_callback d) e = (ok, m)" by (rule prod.exhaust)
  note read = deserialize_in_hand(3) [OF something(5) o, of old hdr]
  have lost: "becomes ?M H w w'" using runs_lose [OF something(5,4)] something(3) by (rule becomesI)
  have "ensures (zenoh_pico_delete_recv_msg_data (Some x) w') (\<lambda>(_, v). becomes ?M H w v)"
    by (rule ensures_mono [OF delete_becomes [OF something(5,4)]]) (use becomes_trans [OF something(3)] in auto)
  then obtain u v where del: "zenoh_pico_delete_recv_msg_data (Some x) w' = Inr (u, v)" "becomes ?M H w v" by (auto simp: ensures_iff)
  show ?thesis using something(1,2) h d' read o lost del
    by (simp add: rmw_take_response_def taken_response_def flip: pop_response_def)
qed

subsection \<open>Publishing and requesting\<close>

lemma calm_update_pub:
  assumes "calm w" and "pub_mutex d' = Unlocked" "pub_topic d' \<noteq> None" and "pub_datas w' = (pub_datas w)(a \<mapsto> d')"
    "sub_datas w' = sub_datas w" "service_datas w' = service_datas w" and w: "wait_sets w' = wait_sets w"
  shows "calm w'"
  using assms(1-3) unfolding calm_def calm_sub_def calm_srv_def assms(4-6) waiter_ok_cong [OF w] by (auto simp: map_upd_Some_iff)

lemma publish_becomes:
  assumes run: "runs M H w" and d: "pub_datas w a = Some d"
  shows "ensures (rmw_zenoh_pico_publish (Some a) m w) (\<lambda>(_, w'). becomes M H w w')"
proof -
  let ?n = "next_addr w" and ?bs = "serialized_bytes (pub_callbacks d) m"
  have c: "calm w" using run by (rule runs_calm)
  obtain k where k: "pub_topic d = Some k" using calm_pubD(2) [OF c d] by blast
  have u: "pub_mutex d = Unlocked" using calm_pubD(1) [OF c d] .
  note fr = runs_fresh [OF run]
  have go: "becomes M H w w'"
    if w': "pub_datas w' = (pub_datas w)(a \<mapsto> d')" "pub_mutex d' = Unlocked" "pub_topic d' = Some k" "sub_datas w' = sub_datas w"
      "service_datas w' = service_datas w" "wait_sets w' = wait_sets w" "msgs w' = msgs w" "next_addr w' = Suc ?n"
      "bufs w' = bufs w \<or> bufs w' = (bufs w)(?n \<mapsto> ?bs)" "env w' = env w" "replies w' = replies w" for w' d'
  proof -
    have "calm w'" by (rule calm_update_pub [OF c w'(2) _ w'(1,4-6)]) (use w'(3) in simp)
    then have "runs M H w'"
      by (rule runs_frame [OF run _ queue_at_cong [OF w'(4,5)]]) (use w'(7-9) fr in auto)
    moreover have "same_ends w w'" using d w'(1,4,5,10,11) by (auto simp: same_ends_def)
    ultimately show ?thesis by (rule becomesI)
  qed
  let ?att = "next_attachment w (pub_attachment d)"
  show ?thesis
  proof (cases "oom (env w) ?n")
    case True
    have "becomes M H w (w\<lparr>next_addr := Suc ?n, pub_datas := (pub_datas w)(a \<mapsto> d)\<rparr>)" by (rule go) (use u k in simp_all)
    then show ?thesis using d True by (simp add: rmw_zenoh_pico_publish_def rmw_zenoh_pico_serialize_def z_malloc_def)
  next
    case False
    show ?thesis
    proof (cases "att_bytes (codec (env w)) ?att")
      case None
      have "becomes M H w (w\<lparr>next_addr := Suc ?n, bufs := (bufs w)(?n \<mapsto> ?bs), ticks := Suc (ticks w),
          pub_datas := (pub_datas w)(a \<mapsto> d\<lparr>pub_mutex := Unlocked, pub_attachment := ?att\<rparr>)\<rparr>)"
        by (rule go [of _ "d\<lparr>pub_mutex := Unlocked, pub_attachment := ?att\<rparr>"]) (use k in simp_all)
      then show ?thesis using d False None u
        by (simp add: rmw_zenoh_pico_publish_def rmw_zenoh_pico_serialize_def z_malloc_def buf_put_def attachment_sequence_num_inc_def
            attachment_gen_eq next_attachment_def Let_def)
    next
      case (Some ab)
      have "pub_ready w a d k" using d u k False fr by (simp add: pub_ready_def)
      then show ?thesis
        using publish_run [of w a d k ab m] Some
        by (auto intro!: go [of _ "d\<lparr>pub_attachment := ?att\<rparr>"] simp: u k)
    qed
  qed
qed

text \<open>A client that can send: its node and session are there.\<close>

definition connected :: "rmw_mem \<Rightarrow> addr \<Rightarrow> bool" where
  "connected w a \<longleftrightarrow> (case service_datas w a of None \<Rightarrow> False | Some d \<Rightarrow>
     (case deref (node_datas w) (srv_node d) of Inl _ \<Rightarrow> False | Inr n \<Rightarrow> returns (deref (sessions w) (nd_session n))))"

lemma send_request_becomes:
  assumes run: "runs M H w" and h: "data h = Some a" and d: "service_datas w a = Some d" and n: "connected w a"
  shows "ensures (rmw_send_request (Some h) r (Some number) w) (\<lambda>(_, _, w'). becomes M H w w')"
proof -
  let ?n = "next_addr w" and ?bs = "serialized_bytes (request_callback d) r"
  let ?att = "next_attachment w (srv_attachment d)"
  obtain nd ss where n: "deref (node_datas w) (srv_node d) = Inr nd" "deref (sessions w) (nd_session nd) = Inr ss"
    using n d by (auto simp: connected_def returns_iff split: sum.splits)
  have u: "srv_mutex d = Unlocked" using calm_srvD(2) [OF runs_calm [OF run] d] .
  note fr = runs_fresh [OF run]
  have go: "becomes M H w w'"
    if w': "service_datas w' = (service_datas w)(a \<mapsto> d')" "sub_datas w' = sub_datas w" "pub_datas w' = pub_datas w"
      "wait_sets w' = wait_sets w" "d' = d \<or> d' = d\<lparr>srv_mutex := Unlocked, srv_attachment := ?att\<rparr>"
      "msgs w' = msgs w" "next_addr w' = Suc ?n" "bufs w' = bufs w \<or> bufs w' = (bufs w)(?n \<mapsto> ?bs)" "env w' = env w" "replies w' = replies w"
    for w' d'
  proof -
    have c: "calm w'" by (rule srv_queue_calm [OF run d w'(1-4)]) (use w'(5) u in auto)
    have q: "queue_at w' q = queue_at w q" for q using queue_at_srv_upd [OF w'(1,2), of q] d w'(5) by auto
    have "runs M H w'" by (rule runs_frame [OF run c q]) (use w'(6-8) fr in auto)
    moreover have "same_ends w w'" by (rule same_ends_upd(2) [OF d w'(1-3,9,10)]) (use w'(5) in auto)
    ultimately show ?thesis by (rule becomesI)
  qed
  note run_defs = rmw_send_request_def rmw_zenoh_pico_serialize_def z_malloc_def buf_put_def attachment_sequence_num_inc_def
    attachment_gen_eq zcall_def Let_def
  have same: "becomes M H w w" using run by (rule becomesI) simp
  have att: "(srv_attachment d)\<lparr>sequence_num := sequence_num (srv_attachment d) + 1, timestamp := fst (zenoh_pico_gen_timestamp w)\<rparr> = ?att"
    by (simp add: next_attachment_def)
  show ?thesis
  proof (cases "oom (env w) ?n")
    case True
    have "becomes M H w (w\<lparr>next_addr := Suc ?n, service_datas := (service_datas w)(a \<mapsto> d)\<rparr>)" by (rule go [of _ d]) simp_all
    then show ?thesis using d h True same by (simp add: run_defs)
  next
    case False
    show ?thesis
    proof (cases "att_bytes (codec (env w)) ?att")
      case None
      have "becomes M H w (w\<lparr>next_addr := Suc ?n, bufs := (bufs w)(?n \<mapsto> ?bs), ticks := Suc (ticks w),
          service_datas := (service_datas w)(a \<mapsto> d\<lparr>srv_mutex := Unlocked, srv_attachment := ?att\<rparr>)\<rparr>)"
        by (rule go [of _ "d\<lparr>srv_mutex := Unlocked, srv_attachment := ?att\<rparr>"]) simp_all
      then show ?thesis using d h n u False None same by (simp add: run_defs att)
    next
      case (Some ab)
      have off: "(bufs w)(?n := None) = bufs w" using fr [of ?n] by (simp add: fun_upd_idem)
      have "becomes M H w (w\<lparr>next_addr := Suc ?n, bufs := bufs w, ticks := Suc (ticks w), trace := ZGet (srv_topic_key d) ?bs ab # trace w,
          service_datas := (service_datas w)(a \<mapsto> d\<lparr>srv_mutex := Unlocked, srv_attachment := ?att\<rparr>)\<rparr>)"
        by (rule go [of _ "d\<lparr>srv_mutex := Unlocked, srv_attachment := ?att\<rparr>"]) simp_all
      then show ?thesis using d h n u False Some same off by (simp add: run_defs att)
    qed
  qed
qed

subsection \<open>Responding\<close>

text \<open>
  \<open>rmw_send_response\<close> uses up the first waiting letter with the header's gid and number; when memory and attachment allow,
  its query gets one reply, otherwise the request is lost without one.
\<close>

definition answers :: "(queue_id \<Rightarrow> letter list) \<Rightarrow> nat \<Rightarrow> rmw_mem \<Rightarrow> rmw_mem \<Rightarrow> bool" where
  "answers M q w w' \<longleftrightarrow> (\<exists>v. becomes M Map.empty w v \<and> sub_datas w' = sub_datas v \<and> service_datas w' = service_datas v \<and>
     pub_datas w' = pub_datas v \<and> runs M Map.empty w' \<and> env w' = env v \<and>
     (replies w' = replies w \<or> (\<exists>bytes att. replies w' = ZQueryReply q bytes att # replies w)))"

lemma answers_lost: "becomes M Map.empty w w' \<Longrightarrow> answers M q w w'"
  unfolding answers_def by (intro exI [of _ w']) (simp add: becomes_def same_ends_def)

lemma send_response_answers_one:
  assumes run: "runs M Map.empty w" and h: "data h = Some a" "identifiers_match (implementation_identifier h)" and d: "service_datas w a = Some d"
    and an: "search rid (M (RespQ a)) = Inr (Some e)" "msg_type (fst e) = Query" "query (fst e) = Some qy"
  shows "ensures (rmw_send_response (Some h) (Some rid) (Some r) w)
    (\<lambda>(_, w'). answers (M(RespQ a := drop_first (asked_by rid) (M (RespQ a)))) qy w w')"
proof -
  let ?M = "M(RespQ a := drop_first (asked_by rid) (M (RespQ a)))"
  from pickup_response_held [OF run d an(1)] obtain m w1 where p: "srv_pickup_response (Some a) rid w = Inr (Some m, w1)" "same_ends w w1"
    "runs ?M [m \<mapsto> e] w1"
    by (cases rule: heldE) (use an in auto)
  obtain d1 where d1: "service_datas w1 a = Some d1" using same_endsD(2) [OF p(2) d] by blast
  obtain md bs where md: "msgs w1 m = Some md" "e = (md\<lparr>next_msg := None, payload_start := None\<rparr>, bs)"
    using letter_in_hand [OF p(3)] by blast
  have qy: "msg_type md = Query" "query md = Some qy" using an(2,3) md(2) by simp_all
  have u: "srv_mutex d1 = Unlocked" using calm_srvD(2) [OF runs_calm [OF p(3)] d1] .
  note fr = runs_fresh [OF p(3)]
  let ?n = "next_addr w1" and ?bs = "serialized_bytes (response_callback d1) r"
  let ?att = "(attachment md)\<lparr>timestamp := fst (zenoh_pico_gen_timestamp w1)\<rparr>"
  obtain pl where pl: "parcel (msgs w1) (bufs w1) m pl" using runs_live [OF p(3)] by blast
  note pd = parcelD [OF pl md(1)]
  have m: "m < ?n" using pl fr [of m] by (auto simp: parcel_def intro: ccontr)
  have drop: "becomes ?M Map.empty w w'"
    if w': "msgs w' = (msgs w1)(m := x)" "\<And>y. y \<noteq> pl \<Longrightarrow> y < ?n \<Longrightarrow> bufs w' y = bufs w1 y"
      "\<And>y. Suc ?n \<le> y \<Longrightarrow> bufs w' y = None" "next_addr w' = Suc ?n"
      "service_datas w' = service_datas w1" "sub_datas w' = sub_datas w1" "pub_datas w' = pub_datas w1" "wait_sets w' = wait_sets w1"
      "env w' = env w1" "replies w' = replies w1" for w' x
  proof (rule becomesI)
    show "runs ?M Map.empty w'"
      by (rule runs_drop [OF p(3) _ pl calm_frame [OF runs_calm [OF p(3)] w'(6,5,7,8)] queue_at_cong [OF w'(6,5)]])
        (use w'(1-4) m fr in simp_all)
    show "same_ends w w'" using same_ends_trans [OF p(2) same_ends_upd(3) [OF w'(6,5,7,9,10)]] .
  qed
  consider "oom (env w1) ?n" | "\<not> oom (env w1) ?n" "att_bytes (codec (env w1)) ?att = None"
    | ab where "\<not> oom (env w1) ?n" "att_bytes (codec (env w1)) ?att = Some ab" by blast
  then show ?thesis
  proof cases
    case 1
    let ?w = "w1\<lparr>next_addr := Suc ?n\<rparr>"
    have "runs ?M [m \<mapsto> e] ?w" by (rule runs_junk [OF p(3)]) (use fr in simp_all)
    then have "ensures (zenoh_pico_delete_recv_msg_data (Some m) ?w) (\<lambda>(_, v). becomes ?M Map.empty ?w v)" by (rule delete_becomes) simp
    then have "ensures (zenoh_pico_delete_recv_msg_data (Some m) ?w) (\<lambda>(_, v). becomes ?M Map.empty w v)"
      by (rule ensures_mono) (use p(2) in \<open>auto simp: becomes_def same_ends_def\<close>)
    then obtain x v where del: "zenoh_pico_delete_recv_msg_data (Some m) ?w = Inr (x, v)" "becomes ?M Map.empty w v" by (auto simp: ensures_iff)
    then show ?thesis using h p(1) d1 1 answers_lost [OF del(2)] by (simp add: rmw_send_response_def rmw_zenoh_pico_serialize_def z_malloc_def)
  next
    case 2
    have dl: "d1\<lparr>srv_mutex := Unlocked\<rparr> = d1" "(service_datas w1)(a \<mapsto> d1) = service_datas w1" using u d1 by (cases d1; simp add: fun_upd_idem)+
    let ?w = "w1\<lparr>next_addr := Suc ?n, bufs := (bufs w1)(?n \<mapsto> ?bs), ticks := Suc (ticks w1), msgs := (msgs w1)(m \<mapsto> md\<lparr>attachment := ?att\<rparr>),
        service_datas := (service_datas w1)(a \<mapsto> d1\<lparr>srv_mutex := Unlocked\<rparr>)\<rparr>"
    have "becomes ?M Map.empty w ?w" by (rule drop [of _ "Some (md\<lparr>attachment := ?att\<rparr>)"]) (use fr dl in simp_all)
    moreover have "fst (zenoh_pico_gen_timestamp (w1\<lparr>next_addr := k, bufs := b, service_datas := e\<rparr>)) = fst (zenoh_pico_gen_timestamp w1)" for k b e
      by (simp add: zenoh_pico_gen_timestamp_def clock_gettime_def split: prod.split)
    ultimately show ?thesis
      using h p(1) md(1) d1 u 2
      by (simp add: rmw_send_response_def rmw_zenoh_pico_serialize_def z_malloc_def buf_put_def srv_lock_def srv_unlock_def attachment_gen_eq msg_put_def
          answers_lost)
  next
    case (3 ab)
    have wr: "\<exists>bs. waiting_request w1 m md bs qy"
      using md(1) qy pd by (auto simp: waiting_request_def live_def)
    then obtain bs where wr: "waiting_request w1 m md bs qy" by blast
    have mem: "\<not> oom (env w1) ?n" "bufs w1 ?n = None" using 3 fr by simp_all
    obtain ret w' where s: "rmw_send_response (Some h) (Some rid) (Some r) w = Inr (ret, w')" "msgs w' = (msgs w1)(m := None)"
      "bufs w' = (bufs w1)(the (payload_start md) := None)" "service_datas w' = service_datas w1" "sub_datas w' = sub_datas w1"
      "pub_datas w' = pub_datas w1" "wait_sets w' = wait_sets w1" "next_addr w' = Suc ?n" "env w' = env w1"
      "trace w' = ZQueryDrop qy # ZQueryReply qy ?bs ab # trace w1"
      using send_response_run [OF h p(1) d1 u wr mem 3(2), of r] by blast
    let ?v = "w'\<lparr>trace := trace w1\<rparr>"
    have b: "bufs w' = (bufs w1)(pl := None)" using s(3) pd(3) by simp
    have v: "becomes ?M Map.empty w ?v" by (rule drop [of _ None]) (use s(2,4-9) b fr in simp_all)
    then have "runs ?M Map.empty ?v" by (simp add: becomes_def)
    then have "runs ?M Map.empty w'" by (rule runs_update) simp_all
    moreover have "replies w' = ZQueryReply qy ?bs ab # replies w" using s(10) same_endsD(4) [OF p(2)] by simp
    ultimately have "answers ?M qy w w'" using v unfolding answers_def by (intro exI [of _ ?v]) simp
    then show ?thesis using s(1) by simp
  qed
qed

subsection \<open>Waiting\<close>

lemma sub_waits_becomes:
  assumes run: "runs M H w" and d: "sub_datas w a = Some d" and p: "waiter_ok w p"
  shows "becomes M H w (w\<lparr>sub_datas := (sub_datas w)(a \<mapsto> d\<lparr>sub_wait_set_data := p\<rparr>)\<rparr>)" (is "becomes M H w ?w")
proof -
  have f: "sub_datas ?w = (sub_datas w)(a \<mapsto> d\<lparr>sub_wait_set_data := p\<rparr>)" "service_datas ?w = service_datas w" "pub_datas ?w = pub_datas w"
    by simp_all
  have c: "calm ?w"
    by (rule calm_update_sub [OF runs_calm [OF run] _ f])
      (use calm_subD [OF runs_calm [OF run] d] p in \<open>simp_all add: calm_sub_def waiter_ok_cong [of ?w w]\<close>)
  have q: "queue_at ?w q = queue_at w q" for q using queue_at_sub_upd [OF f(1,2), of q] d by auto
  have "runs M H ?w" by (rule runs_frame [OF run c q]) (use runs_fresh [OF run] in simp_all)
  moreover have "same_ends w ?w" by (rule same_ends_upd(1) [OF d f]) simp_all
  ultimately show ?thesis by (rule becomesI)
qed

lemma srv_waits_becomes:
  assumes run: "runs M H w" and d: "service_datas w a = Some d" and p: "waiter_ok w p"
  shows "becomes M H w (w\<lparr>service_datas := (service_datas w)(a \<mapsto> d\<lparr>srv_wait_set_data := p\<rparr>)\<rparr>)" (is "becomes M H w ?w")
proof -
  have f: "service_datas ?w = (service_datas w)(a \<mapsto> d\<lparr>srv_wait_set_data := p\<rparr>)" "sub_datas ?w = sub_datas w" "pub_datas ?w = pub_datas w"
    by simp_all
  have c: "calm ?w"
    by (rule calm_update_srv [OF runs_calm [OF run] _ _ f])
      (use calm_srvD [OF runs_calm [OF run] d] p in \<open>simp_all add: calm_srv_def waiter_ok_cong [of ?w w]\<close>)
  have q: "queue_at ?w q = queue_at w q" for q using queue_at_srv_upd [OF f(1,2), of q] d by auto
  have "runs M H ?w" by (rule runs_frame [OF run c q]) (use runs_fresh [OF run] in simp_all)
  moreover have "same_ends w ?w" by (rule same_ends_upd(2) [OF d f]) simp_all
  ultimately show ?thesis by (rule becomesI)
qed

text \<open>Attaching answers whether a letter is there, and leaves the wait set attached when there is none.\<close>

lemma condition_attach_becomes:
  assumes run: "runs M H w" and ws: "waiter_ok w ws"
  shows "sub_datas w a = Some d \<Longrightarrow> ensures (subscription_condition_check_and_attach (Some a) ws w)
      (\<lambda>(ready, w'). becomes M H w w' \<and> ready = (M (SubQ a) \<noteq> []))"
    "service_datas w a = Some e \<Longrightarrow> ensures (service_condition_check_and_attach (Some a) ws w)
      (\<lambda>(ready, w'). becomes M H w w' \<and> ready = (M (ReqQ a) \<noteq> []))"
    "service_datas w a = Some e \<Longrightarrow> ensures (client_condition_check_and_attach (Some a) ws w)
      (\<lambda>(ready, w'). becomes M H w w' \<and> ready = (M (RespQ a) \<noteq> []))"
proof -
  obtain Q where Q: "running Q (dom H) w" "\<And>q. M q = map (letter_of w) (Q q)" by (rule runsE [OF run], rule that)
  note c = runs_calm [OF run]
  have same: "becomes M H w w" using run by (rule becomesI) simp
  {
    assume d: "sub_datas w a = Some d"
    have p: "waiter_ok w p" if "p = ws \<or> p = sub_wait_set_data d" for p
      using that ws calm_subD [OF c d] by (auto simp: calm_sub_def)
    have "zenoh_pico_condition_check_and_attach ws (sub_condition d) = Inr (Q (SubQ a) \<noteq> [], if Q (SubQ a) = [] then
        (sub_condition d)\<lparr>wait_set_data_ptr := ws\<rparr> else sub_condition d)"
      using calm_subD [OF c d] runningD(3) [OF Q(1), of "SubQ a"] d
      by (intro attach_queue) (auto simp: sub_condition_def calm_sub_def)
    then show "ensures (subscription_condition_check_and_attach (Some a) ws w) (\<lambda>(ready, w'). becomes M H w w' \<and> ready = (M (SubQ a) \<noteq> []))"
      using d sub_waits_becomes [OF run d p] same Q(2) [of "SubQ a"]
      by (auto simp: fun_upd_idem subscription_condition_check_and_attach_def put_sub_condition_def sub_condition_def)
  next
    assume d: "service_datas w a = Some e"
    have p: "waiter_ok w p" if "p = ws \<or> p = srv_wait_set_data e" for p
      using that ws calm_srvD(1) [OF c d] by (auto simp: calm_srv_def)
    have "zenoh_pico_condition_check_and_attach ws (service_condition e) = Inr (Q (ReqQ a) \<noteq> [], if Q (ReqQ a) = [] then
        (service_condition e)\<lparr>wait_set_data_ptr := ws\<rparr> else service_condition e)"
      "zenoh_pico_condition_check_and_attach ws (client_condition e) = Inr (Q (RespQ a) \<noteq> [], if Q (RespQ a) = [] then
        (client_condition e)\<lparr>wait_set_data_ptr := ws\<rparr> else client_condition e)"
      using calm_srvD(1) [OF c d] runningD(3) [OF Q(1), of "ReqQ a"] runningD(3) [OF Q(1), of "RespQ a"] d
      by (intro attach_queue; auto simp: service_condition_def client_condition_def calm_srv_def)+
    then show "ensures (service_condition_check_and_attach (Some a) ws w) (\<lambda>(ready, w'). becomes M H w w' \<and> ready = (M (ReqQ a) \<noteq> []))"
      "ensures (client_condition_check_and_attach (Some a) ws w) (\<lambda>(ready, w'). becomes M H w w' \<and> ready = (M (RespQ a) \<noteq> []))"
      using d srv_waits_becomes [OF run d p] same Q(2) [of "ReqQ a"] Q(2) [of "RespQ a"]
      by (auto simp: fun_upd_idem service_condition_check_and_attach_def client_condition_check_and_attach_def
          put_service_condition_def service_condition_def put_client_condition_def client_condition_def)
  }
qed

lemma condition_detach_becomes:
  assumes run: "runs M H w"
  shows "sub_datas w a = Some d \<Longrightarrow> ensures (subscription_condition_detach_and_queue_is_empty (Some a) w)
      (\<lambda>(empty, w'). becomes M H w w' \<and> empty = (M (SubQ a) = []))"
    "service_datas w a = Some e \<Longrightarrow> ensures (service_condition_detach_and_queue_is_empty (Some a) w)
      (\<lambda>(empty, w'). becomes M H w w' \<and> empty = (M (ReqQ a) = []))"
    "service_datas w a = Some e \<Longrightarrow> ensures (client_condition_detach_and_queue_is_empty (Some a) w)
      (\<lambda>(empty, w'). becomes M H w w' \<and> empty = (M (RespQ a) = []))"
proof -
  obtain Q where Q: "running Q (dom H) w" "\<And>q. M q = map (letter_of w) (Q q)" by (rule runsE [OF run], rule that)
  note c = runs_calm [OF run]
  have p: "waiter_ok w None" by (simp add: waiter_ok_def)
  {
    assume d: "sub_datas w a = Some d"
    have "zenoh_pico_condition_detach_and_queue_is_empty (sub_condition d) = Inr (Q (SubQ a) = [], (sub_condition d)\<lparr>wait_set_data_ptr := None\<rparr>)"
      using calm_subD [OF c d] runningD(3) [OF Q(1), of "SubQ a"] d
      by (intro detach_queue) (auto simp: sub_condition_def calm_sub_def)
    then show "ensures (subscription_condition_detach_and_queue_is_empty (Some a) w) (\<lambda>(empty, w'). becomes M H w w' \<and> empty = (M (SubQ a) = []))"
      using d sub_waits_becomes [OF run d p] Q(2) [of "SubQ a"]
      by (auto simp: subscription_condition_detach_and_queue_is_empty_def put_sub_condition_def sub_condition_def)
  next
    assume d: "service_datas w a = Some e"
    have "zenoh_pico_condition_detach_and_queue_is_empty (service_condition e) = Inr (Q (ReqQ a) = [], (service_condition e)\<lparr>wait_set_data_ptr := None\<rparr>)"
      "zenoh_pico_condition_detach_and_queue_is_empty (client_condition e) = Inr (Q (RespQ a) = [], (client_condition e)\<lparr>wait_set_data_ptr := None\<rparr>)"
      using calm_srvD(1) [OF c d] runningD(3) [OF Q(1), of "ReqQ a"] runningD(3) [OF Q(1), of "RespQ a"] d
      by (intro detach_queue; auto simp: service_condition_def client_condition_def calm_srv_def)+
    then show "ensures (service_condition_detach_and_queue_is_empty (Some a) w) (\<lambda>(empty, w'). becomes M H w w' \<and> empty = (M (ReqQ a) = []))"
      "ensures (client_condition_detach_and_queue_is_empty (Some a) w) (\<lambda>(empty, w'). becomes M H w w' \<and> empty = (M (RespQ a) = []))"
      using d srv_waits_becomes [OF run d p] Q(2) [of "ReqQ a"] Q(2) [of "RespQ a"]
      by (auto simp: service_condition_detach_and_queue_is_empty_def client_condition_detach_and_queue_is_empty_def
          put_service_condition_def service_condition_def put_client_condition_def client_condition_def)
  }
qed

end
