(* ===== verification/System.thy ===== *)
theory System
  imports Moves
begin

section \<open>Every state the system reaches\<close>

text \<open>
  The transition system whose steps are the callbacks of zenoh and the calls of the application, in any order, and
  what holds in all its reachable states.  A waiting thread is present with the two halves of \<open>rmw_wait\<close> that touch
  other objects, attaching and detaching, so deliveries fall between them.
\<close>

subsection \<open>The transition system\<close>

text \<open>
  What can happen next, each with its arguments: the three zenoh callbacks, and the calls of the application with a handle.
  Return codes and output arguments go to the caller; the state stays.
\<close>

datatype wait_end = Sub_End addr | Server_End addr | Client_End addr

fun attach_end :: "wait_end \<Rightarrow> addr option \<Rightarrow> rmw_mem \<Rightarrow> (bool \<times> rmw_mem) res" where
  "attach_end (Sub_End a) ws w = subscription_condition_check_and_attach (Some a) ws w"
| "attach_end (Server_End a) ws w = service_condition_check_and_attach (Some a) ws w"
| "attach_end (Client_End a) ws w = client_condition_check_and_attach (Some a) ws w"

fun detach_end :: "wait_end \<Rightarrow> rmw_mem \<Rightarrow> (bool \<times> rmw_mem) res" where
  "detach_end (Sub_End a) w = subscription_condition_detach_and_queue_is_empty (Some a) w"
| "detach_end (Server_End a) w = service_condition_detach_and_queue_is_empty (Some a) w"
| "detach_end (Client_End a) w = client_condition_detach_and_queue_is_empty (Some a) w"

fun end_queue :: "wait_end \<Rightarrow> queue_id" where
  "end_queue (Sub_End a) = SubQ a"
| "end_queue (Server_End a) = ReqQ a"
| "end_queue (Client_End a) = RespQ a"

fun end_exists :: "rmw_mem \<Rightarrow> wait_end \<Rightarrow> bool" where
  "end_exists w (Sub_End a) \<longleftrightarrow> sub_datas w a \<noteq> None"
| "end_exists w (Server_End a) \<longleftrightarrow> service_datas w a \<noteq> None"
| "end_exists w (Client_End a) \<longleftrightarrow> service_datas w a \<noteq> None"

datatype operation =
    Sample_Arrives addr z_sample
  | Query_Arrives addr z_query
  | Reply_Arrives addr "z_sample option"
  | Publish rmw_publisher_t ros_message
  | Take rmw_subscription_t ros_message rmw_message_info_t
  | Take_Request rmw_service_t rmw_service_info_t ros_message
  | Send_Response rmw_service_t rmw_request_id_t ros_message
  | Send_Request rmw_client_t ros_message "64 word"
  | Take_Response rmw_client_t rmw_service_info_t ros_message
  | Attach wait_end addr
  | Detach wait_end

fun perform :: "operation \<Rightarrow> rmw_mem \<Rightarrow> rmw_mem res" where
  "perform (Sample_Arrives a s) w = andthen (subscription_data_handler s (Some a) w) (\<lambda>(_, w). Inr w)"
| "perform (Query_Arrives a q) w = andthen (request_handler q (Some a) w) (\<lambda>(_, w). Inr w)"
| "perform (Reply_Arrives a s) w = andthen (reply_handler s (Some a) w) (\<lambda>(_, w). Inr w)"
| "perform (Publish h m) w = andthen (rmw_publish (Some h) (Some m) w) (\<lambda>(_, w). Inr w)"
| "perform (Take h m i) w = andthen (rmw_take_with_info (Some h) (Some m) (Some False) (Some i) w) (\<lambda>(_, _, _, _, w). Inr w)"
| "perform (Take_Request h hdr m) w = andthen (rmw_take_request (Some h) (Some hdr) m (Some False) w) (\<lambda>(_, _, _, _, w). Inr w)"
| "perform (Send_Response h rid m) w = andthen (rmw_send_response (Some h) (Some rid) (Some m) w) (\<lambda>(_, w). Inr w)"
| "perform (Send_Request h m n) w = andthen (rmw_send_request (Some h) m (Some n) w) (\<lambda>(_, _, w). Inr w)"
| "perform (Take_Response h hdr m) w = andthen (rmw_take_response (Some h) (Some hdr) m (Some False) w) (\<lambda>(_, _, _, _, w). Inr w)"
| "perform (Attach e x) w = andthen (attach_end e (Some x) w) (\<lambda>(_, w). Inr w)"
| "perform (Detach e) w = andthen (detach_end e w) (\<lambda>(_, w). Inr w)"

subsection \<open>The mailboxes\<close>

text \<open>The letters in a queue, read off the state: from the top of the list along \<open>next\<close>, as many as it counts.\<close>

fun walk :: "nat \<Rightarrow> msg_heap \<Rightarrow> addr option \<Rightarrow> addr list" where
  "walk (Suc n) h (Some a) = a # walk n h (next_msg (the (h a)))"
| "walk _ h _ = []"

definition letters_in :: "rmw_mem \<Rightarrow> queue_id \<Rightarrow> letter list" where
  "letters_in w q = (case queue_at w q of None \<Rightarrow> [] | Some l \<Rightarrow> map (letter_of w) (walk (nat (que_count l)) (msgs w) (que_top l)))"

lemma walk_chain: "chain h p as \<Longrightarrow> walk (length as) h p = as"
proof (induction as arbitrary: p)
  case Nil
  then show ?case by (cases p) simp_all
next
  case (Cons a as)
  then show ?case by (cases p) auto
qed

lemma runs_letters_in:
  assumes "runs M H w" shows "letters_in w = M"
  using assms
proof (rule runsE)
  fix Q assume Q: "running Q (dom H) w" "\<And>q. M q = map (letter_of w) (Q q)"
  show "letters_in w = M"
  proof
    fix q
    show "letters_in w q = M q"
    proof (cases "queue_at w q")
      case None
      then show ?thesis using runningD(7) [OF Q(1) None] Q(2) [of q] by (simp add: letters_in_def)
    next
      case (Some l)
      have "walk (length (Q q)) (msgs w) (que_top l) = Q q" "que_count l = int (length (Q q))"
        using runningD(3) [OF Q(1) Some] walk_chain by (auto simp: queue_rep_def)
      then show ?thesis using Q(2) [of q] Some by (simp add: letters_in_def)
    qed
  qed
qed

text \<open>
  When it may happen: zenoh calls back for endpoints that exist, with payloads that have the four header bytes; the application
  uses handles of endpoints that exist, sends requests while node and session exist, and answers requests it has taken when
  \<open>rmw_send_response\<close> can find them: no older request that waits at the server has a gid of 1 to 15 bytes
  (\<open>short_gid_overread\<close>).
\<close>

definition answerable :: "rmw_mem \<Rightarrow> addr \<Rightarrow> rmw_request_id_t \<Rightarrow> bool" where
  "answerable w a rid \<longleftrightarrow> (case search rid (letters_in w (RespQ a)) of Inr (Some e) \<Rightarrow>
       msg_type (fst e) = Query \<and> query (fst e) \<noteq> None
     | _ \<Rightarrow> False)"

definition handle_in :: "(addr \<rightharpoonup> 'd) \<Rightarrow> 'e rmw_handle_scheme \<Rightarrow> bool" where
  "handle_in heap h \<longleftrightarrow> (case data h of None \<Rightarrow> False | Some a \<Rightarrow> heap a \<noteq> None)"

definition headed :: "byte list \<Rightarrow> bool" where
  "headed payload \<longleftrightarrow> ROS2_MSG_OFFSET \<le> length payload"

fun allowed :: "operation \<Rightarrow> rmw_mem \<Rightarrow> bool" where
  "allowed (Sample_Arrives a s) w \<longleftrightarrow> sub_datas w a \<noteq> None \<and> headed (sample_payload s)"
| "allowed (Query_Arrives a q) w \<longleftrightarrow> service_datas w a \<noteq> None \<and> headed (query_payload q)"
| "allowed (Reply_Arrives a s) w \<longleftrightarrow> service_datas w a \<noteq> None \<and> (case s of None \<Rightarrow> True | Some s \<Rightarrow> headed (sample_payload s))"
| "allowed (Publish h m) w \<longleftrightarrow> handle_in (pub_datas w) h"
| "allowed (Take h m i) w \<longleftrightarrow> handle_in (sub_datas w) h"
| "allowed (Take_Request h hdr m) w \<longleftrightarrow> handle_in (service_datas w) h"
| "allowed (Send_Response h rid m) w \<longleftrightarrow> handle_in (service_datas w) h \<and> answerable w (the (data h)) rid"
| "allowed (Send_Request h m n) w \<longleftrightarrow> handle_in (service_datas w) h \<and> connected w (the (data h))"
| "allowed (Take_Response h hdr m) w \<longleftrightarrow> handle_in (service_datas w) h"
| "allowed (Attach e x) w \<longleftrightarrow> end_exists w e \<and> waiter_ok w (Some x)"
| "allowed (Detach e) w \<longleftrightarrow> end_exists w e"

lemma handle_inE: "handle_in heap h \<Longrightarrow> (\<And>a d. data h = Some a \<Longrightarrow> heap a = Some d \<Longrightarrow> P) \<Longrightarrow> P"
  by (auto simp: handle_in_def split: option.splits)

text \<open>
  The abstract system: its state is what each mailbox holds.  \<open>incoming\<close> is the letter an arrival makes, when it is accepted;
  the abstract step appends it, or takes the oldest letter out, or moves it, or takes the one that is answered.
\<close>

type_synonym mail = "queue_id \<Rightarrow> letter list"

fun incoming :: "operation \<Rightarrow> rmw_mem \<Rightarrow> letter option" where
  "incoming (Sample_Arrives a s) w = sample_letter (now w) w s"
| "incoming (Query_Arrives a q) w = query_letter (now w) w q"
| "incoming (Reply_Arrives a (Some s)) w = sample_letter (now w) w s"
| "incoming _ w = None"

definition named :: "'e rmw_endpoint_t_scheme \<Rightarrow> bool" where
  "named h \<longleftrightarrow> topic_name h \<noteq> None \<and> identifiers_match (implementation_identifier h)"

fun mail_step :: "operation \<Rightarrow> letter option \<Rightarrow> mail \<Rightarrow> mail" where
  "mail_step (Sample_Arrives a s) E M = delivered (SubQ a) E M"
| "mail_step (Query_Arrives a q) E M = delivered (ReqQ a) E M"
| "mail_step (Reply_Arrives a s) E M = delivered (RespQ a) E M"
| "mail_step (Take h m i) E M = (let q = SubQ (the (data h)) in if named h then M(q := tl (M q)) else M)"
| "mail_step (Take_Request h hdr m) E M = (let q = ReqQ (the (data h)) in
     if named h then delivered (RespQ (the (data h))) (first (M q)) (M(q := tl (M q))) else M)"
| "mail_step (Send_Response h rid m) E M = (let q = RespQ (the (data h)) in
     if identifiers_match (implementation_identifier h) then M(q := drop_first (asked_by rid) (M q)) else M)"
| "mail_step (Take_Response h hdr m) E M = (let q = RespQ (the (data h)) in
     if identifiers_match (implementation_identifier h) then M(q := tl (M q)) else M)"
| "mail_step _ E M = M"

text \<open>The query an operation may answer.\<close>

fun asked :: "operation \<Rightarrow> mail \<Rightarrow> nat option" where
  "asked (Send_Response h rid m) M = (if identifiers_match (implementation_identifier h)
     then (case find (asked_by rid) (M (RespQ (the (data h)))) of None \<Rightarrow> None | Some e \<Rightarrow> query (fst e)) else None)"
| "asked _ M = None"

text \<open>What stays through every operation: the environment, the endpoints and their type supports.\<close>

definition lasting :: "rmw_mem \<Rightarrow> rmw_mem \<Rightarrow> bool" where
  "lasting w w' \<longleftrightarrow> same_ends w (w'\<lparr>trace := trace w\<rparr>)"

lemma lasting_refl [simp]: "lasting w w"
  by (simp add: lasting_def same_ends_def)

lemma lasting_trans: "lasting w v \<Longrightarrow> lasting v u \<Longrightarrow> lasting w u"
  by (simp add: lasting_def same_ends_def)

lemma same_ends_lasting: "same_ends w w' \<Longrightarrow> lasting w w'"
  by (simp add: lasting_def same_ends_def)

lemma lastingD:
  assumes "lasting w w'"
  shows "sub_datas w a = Some d \<Longrightarrow> \<exists>d'. sub_datas w' a = Some d' \<and> sub_callbacks d' = sub_callbacks d"
    "service_datas w a = Some e \<Longrightarrow> \<exists>e'. service_datas w' a = Some e' \<and> request_callback e' = request_callback e \<and>
       response_callback e' = response_callback e"
    "env w' = env w"
  using same_endsD(1-3) [OF assms [unfolded lasting_def]] by simp_all

definition moves_to :: "mail \<Rightarrow> nat option \<Rightarrow> rmw_mem \<Rightarrow> rmw_mem \<Rightarrow> bool" where
  "moves_to M Q w w' \<longleftrightarrow> lasting w w' \<and> runs M Map.empty w' \<and>
     (replies w' = replies w \<or> (\<exists>q bytes att. Q = Some q \<and> replies w' = ZQueryReply q bytes att # replies w))"

lemma moves_to_stay: "runs M Map.empty w \<Longrightarrow> moves_to M Q w w"
  by (simp add: moves_to_def)

lemma becomes_moves: "becomes M Map.empty w w' \<Longrightarrow> moves_to M Q w w'"
  by (simp add: becomes_def moves_to_def same_ends_lasting same_ends_def)

lemma answers_moves: "answers M q w w' \<Longrightarrow> moves_to M (Some q) w w'"
proof -
  assume "answers M q w w'"
  then obtain v where "same_ends w v" "sub_datas w' = sub_datas v" "service_datas w' = service_datas v" "pub_datas w' = pub_datas v"
    "runs M Map.empty w'" "env w' = env v" "replies w' = replies w \<or> (\<exists>bytes att. replies w' = ZQueryReply q bytes att # replies w)"
    unfolding answers_def becomes_def by blast
  then show ?thesis by (simp add: moves_to_def lasting_def same_ends_def)
qed

lemma attach_end_becomes:
  assumes "runs M H w" and "waiter_ok w (Some x)" and "end_exists w e"
  shows "ensures (attach_end e (Some x) w) (\<lambda>(ready, w'). becomes M H w w' \<and> ready = (M (end_queue e) \<noteq> []))"
proof (cases e)
  case (Sub_End a)
  then obtain d where "sub_datas w a = Some d" using assms(3) by auto
  from condition_attach_becomes(1) [OF assms(1,2) this] show ?thesis using Sub_End by simp
next
  case (Server_End a)
  then obtain d where "service_datas w a = Some d" using assms(3) by auto
  from condition_attach_becomes(2) [OF assms(1,2) this] show ?thesis using Server_End by simp
next
  case (Client_End a)
  then obtain d where "service_datas w a = Some d" using assms(3) by auto
  from condition_attach_becomes(3) [OF assms(1,2) this] show ?thesis using Client_End by simp
qed

lemma detach_end_becomes:
  assumes "runs M H w" and "end_exists w e"
  shows "ensures (detach_end e w) (\<lambda>(empty, w'). becomes M H w w' \<and> empty = (M (end_queue e) = []))"
proof (cases e)
  case (Sub_End a)
  then obtain d where "sub_datas w a = Some d" using assms(2) by auto
  from condition_detach_becomes(1) [OF assms(1) this] show ?thesis using Sub_End by simp
next
  case (Server_End a)
  then obtain d where "service_datas w a = Some d" using assms(2) by auto
  from condition_detach_becomes(2) [OF assms(1) this] show ?thesis using Server_End by simp
next
  case (Client_End a)
  then obtain d where "service_datas w a = Some d" using assms(2) by auto
  from condition_detach_becomes(3) [OF assms(1) this] show ?thesis using Client_End by simp
qed

lemma perform_moves:
  assumes run: "runs M Map.empty w" and "allowed op w"
  shows "ensures (perform op w) (moves_to (mail_step op (incoming op w) M) (asked op M) w)"
proof (cases op)
  case (Sample_Arrives a s)
  then obtain d where "sub_datas w a = Some d" "headed (sample_payload s)" using assms(2) by auto
  then show ?thesis using Sample_Arrives subscription_data_handler_becomes [OF run, of s a d]
    by (auto simp: headed_def elim!: ensures_mono intro: becomes_moves)
next
  case (Query_Arrives a q)
  then obtain d where "service_datas w a = Some d" "headed (query_payload q)" using assms(2) by auto
  then show ?thesis using Query_Arrives request_handler_becomes [OF run, of q a d]
    by (auto simp: headed_def elim!: ensures_mono intro: becomes_moves)
next
  case (Reply_Arrives a s)
  show ?thesis
  proof (cases s)
    case None
    then show ?thesis using Reply_Arrives moves_to_stay [OF run] by (simp add: reply_handler_def delivered_def)
  next
    case (Some x)
    then obtain d where "service_datas w a = Some d" "headed (sample_payload x)" using assms(2) Reply_Arrives by auto
    then show ?thesis using Reply_Arrives Some reply_handler_becomes [OF run, of x a d]
      by (auto simp: headed_def elim!: ensures_mono intro: becomes_moves)
  qed
next
  case (Publish h m)
  then obtain a d where "data h = Some a" "pub_datas w a = Some d" using assms(2) by (auto elim: handle_inE)
  then show ?thesis
    using Publish publish_becomes [OF run, of a d m] moves_to_stay [OF run] by (auto simp: rmw_publish_def elim!: ensures_mono intro: becomes_moves)
next
  case (Take h m i)
  then obtain a d where "data h = Some a" "sub_datas w a = Some d" using assms(2) by (auto elim: handle_inE)
  then show ?thesis
    using Take take_one_becomes [OF run, of a d m "Some i" "Some False"] moves_to_stay [OF run]
    by (auto simp: rmw_take_with_info_def named_def Let_def elim!: ensures_mono intro: becomes_moves)
next
  case (Take_Request h hdr m)
  then obtain a d where d: "data h = Some a" "service_datas w a = Some d" using assms(2) by (auto elim: handle_inE)
  show ?thesis
  proof (cases "named h")
    case True
    then obtain tn where "topic_name h = Some tn" "identifiers_match (implementation_identifier h)" by (auto simp: named_def)
    then show ?thesis using Take_Request True d take_request_becomes [OF run d(1) _ _ d(2), of tn "Some hdr" m False]
      by (auto simp: Let_def elim!: ensures_mono intro: becomes_moves)
  next
    case False
    then show ?thesis using Take_Request d moves_to_stay [OF run] by (auto simp: named_def rmw_take_request_def)
  qed
next
  case (Send_Response h rid m)
  then obtain a d where d: "data h = Some a" "service_datas w a = Some d" using assms(2) by (auto elim: handle_inE)
  obtain e qy where e: "search rid (M (RespQ a)) = Inr (Some e)" "msg_type (fst e) = Query" "query (fst e) = Some qy"
    using assms(2) Send_Response d(1) by (auto simp: answerable_def runs_letters_in [OF run] split: sum.splits option.splits)
  show ?thesis
  proof (cases "identifiers_match (implementation_identifier h)")
    case True
    then show ?thesis using Send_Response d e search_find [OF e(1)] send_response_answers_one [OF run d(1) _ d(2) e, of m]
      by (auto simp: Let_def elim!: ensures_mono intro: answers_moves)
  next
    case False
    then show ?thesis using Send_Response d moves_to_stay [OF run] by (simp add: rmw_send_response_def)
  qed
next
  case (Send_Request h m n)
  then obtain a d where "data h = Some a" "service_datas w a = Some d" using assms(2) by (auto elim: handle_inE)
  then show ?thesis
    using Send_Request assms(2) send_request_becomes [OF run, of h a d m n] by (auto elim!: ensures_mono intro: becomes_moves)
next
  case (Take_Response h hdr m)
  then obtain a d where d: "data h = Some a" "service_datas w a = Some d" using assms(2) by (auto elim: handle_inE)
  then show ?thesis
    using Take_Response take_response_becomes [OF run d(1) _ d(2), of "Some hdr" m False] moves_to_stay [OF run]
    by (cases "identifiers_match (implementation_identifier h)") (auto simp: rmw_take_response_def Let_def elim!: ensures_mono intro: becomes_moves)
next
  case (Attach e x)
  then have x: "waiter_ok w (Some x)" "end_exists w e" using assms(2) by simp_all
  show ?thesis using Attach attach_end_becomes [OF run x] by (auto elim!: ensures_mono intro: becomes_moves)
next
  case (Detach e)
  have "end_exists w e" using assms(2) Detach by simp
  from detach_end_becomes [OF run this] show ?thesis using Detach by (auto elim!: ensures_mono intro: becomes_moves)
qed

text \<open>A system that starts: endpoints between two calls whose queues were just initialised.\<close>

definition started :: "rmw_mem \<Rightarrow> bool" where
  "started w \<longleftrightarrow> calm w \<and> fresh w \<and> (\<forall>q l. queue_at w q = Some l \<longrightarrow> l = recv_msg_list_init)"

inductive reached :: "rmw_mem \<Rightarrow> rmw_mem \<Rightarrow> bool" for w0 where
  start: "reached w0 w0"
| step: "reached w0 w \<Longrightarrow> allowed op w \<Longrightarrow> perform op w = Inr w' \<Longrightarrow> reached w0 w'"

inductive_cases reachedE: "reached w0 w"

lemma started_runs:
  assumes "started w" shows "runs (\<lambda>_. []) Map.empty w"
proof -
  have "running (\<lambda>_. []) {} w"
    by (rule runningI) (use assms in \<open>simp_all add: started_def pool_def, metis queue_rep_init\<close>)
  then show ?thesis by (auto simp: runs_def)
qed

lemma reached_lasts:
  assumes "reached w0 w" and "started w0"
  shows "runs (letters_in w) Map.empty w" "lasting w0 w"
proof -
  have "runs (letters_in w) Map.empty w \<and> lasting w0 w"
    using assms(1)
  proof (induction rule: reached.induct)
    case start
    have r: "runs (\<lambda>_. []) Map.empty w0" using assms(2) by (rule started_runs)
    then show ?case using runs_letters_in [OF r] by simp
  next
    case (step w op w')
    then have "moves_to (mail_step op (incoming op w) (letters_in w)) (asked op (letters_in w)) w w'"
      using perform_moves [of "letters_in w" w op] by simp
    then show ?case using step.IH runs_letters_in lasting_trans unfolding moves_to_def by metis
  qed
  then show "runs (letters_in w) Map.empty w" "lasting w0 w" by blast+
qed

lemma reached_step:
  assumes "started w0" and "reached w0 w" and "allowed op w"
  shows "ensures (perform op w) (moves_to (mail_step op (incoming op w) (letters_in w)) (asked op (letters_in w)) w)"
  using reached_lasts(1) [OF assms(2,1)] assms(3) by (rule perform_moves)

text \<open>
  C1: The running system never faults. From any start, after any sequence of arriving samples, queries and replies and
  of calls that publish, take, request, respond, attach and detach (each of them whole), with memory running out and
  attachments or messages unreadable at any point: every further allowed operation comes back. No null or dangling pointer
  is used, no buffer is read beyond its end, nothing is freed twice, no mutex is locked twice and no walk through a queue fails to end.
  Attachments with identifiers of any length may arrive; but a response is allowed only for a request that the comparisons
  of rmw_send_response reach. Where they meet a waiting request with an identifier of 1 to 15 bytes first, the call is not
  allowed, and reads beyond that identifier: a peer that sends such a request and is taken stops the server's responses.
\<close>

theorem running_system_safe:
  assumes "started w0" and "reached w0 w"
  shows "(allowed op w \<longrightarrow> returns (perform op w)) \<and>
    (\<forall>h rid m a us e vs. data h = Some a \<and> service_datas w a \<noteq> None \<and> identifiers_match (implementation_identifier h) \<and>
       letters_in w (RespQ a) = us @ e # vs \<and> (\<forall>u \<in> set us. \<not> asked_by rid u) \<and> short_gid (fst e) \<longrightarrow>
       perform (Send_Response h rid m) w = Inl OutOfBounds)"
proof (intro conjI allI impI)
  assume "allowed op w"
  then show "returns (perform op w)" using reached_step [OF assms] by (auto simp: ensures_iff returns_iff)
next
  fix h :: rmw_endpoint_t and rid m a us e vs
  assume h: "data h = Some a \<and> service_datas w a \<noteq> None \<and> identifiers_match (implementation_identifier h) \<and>
    letters_in w (RespQ a) = us @ e # vs \<and> (\<forall>u \<in> set us. \<not> asked_by rid u) \<and> short_gid (fst e)"
  then obtain d where d: "service_datas w a = Some d" by blast
  have "search rid (letters_in w (RespQ a)) = Inl OutOfBounds" using h by (simp add: search_short)
  from pickup_response_fault [OF reached_lasts(1) [OF assms(2,1)] d this]
  show "perform (Send_Response h rid m) w = Inl OutOfBounds" using h by (simp add: rmw_send_response_def)
qed

text \<open>
  C2: What every reachable state looks like. In every state the running system reaches, each queue of each endpoint is a
  proper list (no cycle, the right end pointer and count, its mutex free), no message lies in two queues, every queued
  message is referenced once and unlocked, its payload lies completely in a live buffer that no other queued message uses, and no
  mutex of an endpoint is held.
\<close>

theorem queues_stay_sound:
  assumes "started w0" and "reached w0 w"
  shows "calm w \<and> (\<exists>Q. (\<forall>q l. queue_at w q = Some l \<longrightarrow> queue_rep (msgs w) l (Q q)) \<and> (\<forall>q q'. q \<noteq> q' \<longrightarrow> set (Q q) \<inter> set (Q q') = {}) \<and>
    pool (msgs w) (bufs w) (\<Union>q. set (Q q)))"
proof -
  obtain Q where r: "running Q {} w" using reached_lasts(1) [OF assms(2,1)] by (auto simp: runs_def)
  show ?thesis
    using runningD(1,3,4) [OF r] runningD(6) [OF r] by (intro conjI exI [of _ Q]) auto
qed

text \<open>
  C3: The middleware is a mail system. Read each queue of the middleware as a list of letters. In every reachable state, every allowed
  operation does to these lists exactly what the abstract mail system does: an accepted sample, query or reply is appended to the mailbox
  it is for; a take removes the oldest letter, rmw_take_request moves it to the end of the waiting requests, rmw_send_response
  removes the first one with the header's gid and number; every other mailbox, and every mailbox on every other operation, stays as it is, letter by letter.
\<close>

theorem middleware_refines_mail:
  assumes "started w0" and "reached w0 w" and "allowed op w" and "perform op w = Inr w'"
  shows "letters_in w' = mail_step op (incoming op w) (letters_in w)"
proof -
  have "runs (mail_step op (incoming op w) (letters_in w)) Map.empty w'"
    using reached_step [OF assms(1-3)] assms(4) by (simp add: moves_to_def)
  then show ?thesis by (rule runs_letters_in)
qed

subsection \<open>From creation to running\<close>

text \<open>Creating a subscription in a system that starts gives a system that starts, with the new endpoint.\<close>

lemma create_subscription_starts:
  assumes n: "open_node w n nd d ea e ni i" and r: "topic_args_ok w topic qos" and s: "started w"
    and t: "convert_hash (\<lambda>_. True) (ts_hash ts) = Inr (Some hash)" "convert_message_type (\<lambda>_. True) (ts_data ts) = Inr (Some tname)"
    and k: "ros_topic_name_to_zenoh_key (lineness_len (env w)) (\<lambda>_. True) (ni_domain i) (cstr topic) tname hash = Inr (Some tkey)"
    and z: "\<And>t c. zok (env w) t c"
  shows "\<exists>w'. rmw_create_subscription (Some n) (Some (Some ts)) (Some topic) (Some qos) True w = Inr (Some (sub_handle w), w') \<and>
    started w' \<and> handle_in (sub_datas w') (sub_handle w) \<and> env w' = env w"
proof -
  let ?key = "endpoint_key w (nd_id d) Subscription ni i (topic_info_of topic tname hash)"
  let ?sd = "declared_sub (sub_data_of w nd ts qos ?key tkey)"
  obtain w' where c: "rmw_create_subscription (Some n) (Some (Some ts)) (Some topic) (Some qos) True w = Inr (Some (sub_handle w), w')"
    and w': "w' = (made_sub (nd_id d) ni i topic tname hash ?sd w)\<lparr>next_addr := next_addr w + 5,
      node_datas := (node_datas w)(nd \<mapsto> d\<lparr>ref := ref d + 1\<rparr>),
      bufs := (bufs w)(next_addr w + 3 \<mapsto> [], next_addr w + 4 \<mapsto> bytes_of (cstr topic) @ [0]),
      trace := ZDeclareToken ?key # ZDeclareSubscriber tkey # trace w\<rparr>"
    using create_subscription_run [OF n r t k z z] by blast
  have f: "sub_datas w' = (sub_datas w)(next_addr w + 2 \<mapsto> ?sd)" "service_datas w' = service_datas w" "pub_datas w' = pub_datas w"
    "wait_sets w' = wait_sets w" "msgs w' = msgs w" "next_addr w' = next_addr w + 5" "env w' = env w"
    "bufs w' = (bufs w)(next_addr w + 3 \<mapsto> [], next_addr w + 4 \<mapsto> bytes_of (cstr topic) @ [0])"
    by (simp_all add: w' made_sub_def with_topic_entity_def)
  have sd: "calm_sub w ?sd" "message_queue ?sd = recv_msg_list_init"
    by (simp_all add: calm_sub_def declared_sub_def sub_data_of_def zero_sub_data_def waiter_ok_def mgr_ok_def cleared_mgr_def
        zero_mgr_def Let_def)
  have "calm w'"
    by (rule calm_update_sub [OF _ sd(1) f(1-3)]) (use s waiter_ok_cong [OF f(4)] in \<open>simp_all add: started_def\<close>)
  moreover have "fresh w'" using s by (simp add: started_def fresh_def f)
  moreover have "l = recv_msg_list_init" if "queue_at w' q = Some l" for q l
    using that s queue_at_sub_upd [OF f(1,2), of q] sd(2) by (auto simp: started_def split: if_splits)
  ultimately have "started w'" by (simp add: started_def)
  moreover have "handle_in (sub_datas w') (sub_handle w)" by (simp add: handle_in_def sub_handle_def f)
  ultimately show ?thesis using c f(7) by blast
qed

lemma life_started: "started life_mem"
proof -
  have f: "sub_datas life_mem = Map.empty" "service_datas life_mem = Map.empty" "pub_datas life_mem = Map.empty" "msgs life_mem = Map.empty"
    "bufs life_mem = [13 \<mapsto> [], 14 \<mapsto> [], 15 \<mapsto> []]"
    by (simp_all add: life_mem_def open_mem_def start_mem_def wait_mem.defs small_wait_mem_def small_msg_mem_def msg_mem.defs ent_mem.defs mem.defs small_mem_def)
  have "queue_at life_mem q = None" for q by (cases q) (simp_all add: f)
  then show ?thesis by (simp add: started_def calm_def fresh_def f)
qed

lemma life_subscription:
  "\<exists>w. rmw_create_subscription (Some life_node) (Some (Some example_type_support)) (Some ''/chatter'') (Some zero_qos) True life_mem =
      Inr (Some (sub_handle life_mem), w) \<and> started w \<and> handle_in (sub_datas w) (sub_handle life_mem) \<and> env w = env life_mem"
proof -
  obtain hash where h: "convert_hash (\<lambda>_. True) (ts_hash example_type_support) = Inr (Some hash)" "z_text hash" "length hash = 71"
    using hash_text [of "replicate 32 0xAB"] by (auto simp: example_type_support_def ROSIDL_TYPE_HASH_SIZE_def)
  let ?t = "''example_interfaces::srv::dds_::AddTwoInts_Request_''" and ?topic = "''/chatter''"
  have t: "convert_message_type (\<lambda>_. True) (ts_data example_type_support) = Inr (Some ?t)"
    using example_type_name by (simp add: example_type_support_def)
  have k: "ros_topic_name_to_zenoh_key (lineness_len (env life_mem)) (\<lambda>_. True) (ni_domain life_info) (cstr ?topic) ?t hash =
      Inr (Some (topic_key_text ''42'' (cstr ?topic) ?t hash))"
    using h(2,3) topic_key_fits [of "''42''" "cstr ?topic" ?t hash 256]
    by (simp add: small_env_def life_info_def cstr_def NUL_def topic_key_text_def key_front_def name_part_def z_text_def)
  have z: "zok (env life_mem) t c" for t c by (simp add: small_env_def)
  show ?thesis by (rule create_subscription_starts [OF life_open_node life_topic_args life_started h(1) t k z])
qed

text \<open>The first message of the new subscription: it can arrive, and the system can go on with it.\<close>

lemma life_arrival:
  "\<exists>w0 w1. rmw_create_subscription (Some life_node) (Some (Some example_type_support)) (Some ''/chatter'') (Some zero_qos) True life_mem =
      Inr (Some (sub_handle life_mem), w0) \<and> started w0 \<and> allowed (Sample_Arrives 22 pong) w0 \<and> perform (Sample_Arrives 22 pong) w0 = Inr w1 \<and>
    reached w0 w1 \<and> allowed (Take (sub_handle life_mem) [] empty_message_info) w1 \<and> env w0 = small_env"
proof -
  let ?op = "Sample_Arrives 22 pong"
  obtain w0 where w0: "rmw_create_subscription (Some life_node) (Some (Some example_type_support)) (Some ''/chatter'') (Some zero_qos) True life_mem =
      Inr (Some (sub_handle life_mem), w0)" "started w0" "handle_in (sub_datas w0) (sub_handle life_mem)" "env w0 = env life_mem"
    using life_subscription by blast
  have e: "env w0 = small_env"
    unfolding w0(4) by (simp add: life_mem_def open_mem_def start_mem_def wait_mem.defs small_wait_mem_def small_msg_mem_def msg_mem.defs ent_mem.defs
        mem.defs small_mem_def)
  have d: "data (sub_handle life_mem) = Some 22" by (simp add: sub_handle_def)
  then obtain sd where sd: "sub_datas w0 22 = Some sd" using w0(3) by (auto simp: handle_in_def)
  have al: "allowed ?op w0" using sd by (simp add: headed_def pong_def ROS2_MSG_OFFSET_def)
  obtain w1 where w1: "perform ?op w0 = Inr w1" "lasting w0 w1"
    using reached_step [OF w0(2) reached.start al] by (auto simp: ensures_iff moves_to_def)
  have "allowed (Take (sub_handle life_mem) [] empty_message_info) w1" using d lastingD(1) [OF w1(2) sd] by (auto simp: handle_in_def)
  then show ?thesis using w0(1,2) e w1(1) al reached.step [OF reached.start al w1(1)] by blast
qed

theorem running_system_safe_witness:
  "\<exists>w0 w1. rmw_create_subscription (Some life_node) (Some (Some example_type_support)) (Some ''/chatter'') (Some zero_qos) True life_mem =
      Inr (Some (sub_handle life_mem), w0) \<and> perform (Sample_Arrives 22 pong) w0 = Inr w1 \<and>
    returns (perform (Take (sub_handle life_mem) [] empty_message_info) w1)"
  using life_arrival running_system_safe by blast

theorem queues_stay_sound_witness:
  "\<exists>w0 w1 as l. rmw_create_subscription (Some life_node) (Some (Some example_type_support)) (Some ''/chatter'') (Some zero_qos) True life_mem =
      Inr (Some (sub_handle life_mem), w0) \<and> perform (Sample_Arrives 22 pong) w0 = Inr w1 \<and>
    queue_at w1 (SubQ 22) = Some l \<and> queue_rep (msgs w1) l as \<and> pool (msgs w1) (bufs w1) (set as)"
proof -
  obtain w0 w1 where w: "rmw_create_subscription (Some life_node) (Some (Some example_type_support)) (Some ''/chatter'') (Some zero_qos) True life_mem =
      Inr (Some (sub_handle life_mem), w0)" "started w0" "perform (Sample_Arrives 22 pong) w0 = Inr w1" "reached w0 w1"
    "allowed (Take (sub_handle life_mem) [] empty_message_info) w1"
    using life_arrival by blast
  obtain Q where Q: "\<forall>q l. queue_at w1 q = Some l \<longrightarrow> queue_rep (msgs w1) l (Q q)" "pool (msgs w1) (bufs w1) (\<Union>q. set (Q q))"
    using queues_stay_sound [OF w(2,4)] by blast
  obtain sd where "sub_datas w1 22 = Some sd" using w(5) by (auto simp: handle_in_def sub_handle_def)
  then have q: "queue_at w1 (SubQ 22) = Some (message_queue sd)" by simp
  moreover have "pool (msgs w1) (bufs w1) (set (Q (SubQ 22)))" by (rule pool_subset [OF Q(2)]) blast
  ultimately show ?thesis using w(1,3) Q(1) by blast
qed

theorem middleware_refines_mail_witness:
  "\<exists>w0 w1. rmw_create_subscription (Some life_node) (Some (Some example_type_support)) (Some ''/chatter'') (Some zero_qos) True life_mem =
      Inr (Some (sub_handle life_mem), w0) \<and> perform (Sample_Arrives 22 pong) w0 = Inr w1 \<and>
    letters_in w1 = delivered (SubQ 22) (sample_letter (now w0) w0 pong) (letters_in w0)"
  using life_arrival middleware_refines_mail [OF _ reached.start, of _ "Sample_Arrives 22 pong"] by fastforce

end
