(* ===== verification/History.thy ===== *)
theory History
  imports System "HOL-Library.Multiset"
begin

section \<open>Everything that happened\<close>

text \<open>
  Runs of the system with all their events, and what they add up to: which letters arrived, what the application was handed, which queries
  were answered.
\<close>

text \<open>An event is an operation with the state it was performed in; a history lists the events in order.\<close>

type_synonym event = "rmw_mem \<times> operation"

inductive happened :: "rmw_mem \<Rightarrow> event list \<Rightarrow> rmw_mem \<Rightarrow> bool" for w0 where
  nothing: "happened w0 [] w0"
| event: "happened w0 es w \<Longrightarrow> allowed op w \<Longrightarrow> perform op w = Inr w' \<Longrightarrow> happened w0 (es @ [(w, op)]) w'"

lemma history_reached: "happened w0 es w \<Longrightarrow> reached w0 w"
  by (induction rule: happened.induct) (auto intro: reached.intros)

lemma history_step:
  assumes "started w0" and "happened w0 es w" and "allowed op w" and "perform op w = Inr w'"
  shows "moves_to (mail_step op (incoming op w) (letters_in w)) (asked op (letters_in w)) w w'"
    "letters_in w' = mail_step op (incoming op w) (letters_in w)" "runs (letters_in w) Map.empty w"
proof -
  have r: "reached w0 w" using assms(2) by (rule history_reached)
  show m: "moves_to (mail_step op (incoming op w) (letters_in w)) (asked op (letters_in w)) w w'"
    using reached_step [OF assms(1) r assms(3)] assms(4) by simp
  then show "letters_in w' = mail_step op (incoming op w) (letters_in w)" unfolding moves_to_def using runs_letters_in by blast
  show "runs (letters_in w) Map.empty w" using r assms(1) by (rule reached_lasts)
qed

subsection \<open>What arrives and what is handed out\<close>

text \<open>The letters that an event puts into a mailbox from outside.\<close>

fun addressee :: "operation \<Rightarrow> queue_id option" where
  "addressee (Sample_Arrives a s) = Some (SubQ a)"
| "addressee (Query_Arrives a q) = Some (ReqQ a)"
| "addressee (Reply_Arrives a s) = Some (RespQ a)"
| "addressee _ = None"

definition letters :: "letter option \<Rightarrow> letter list" where
  "letters E = (case E of None \<Rightarrow> [] | Some e \<Rightarrow> [e])"

fun posted :: "queue_id \<Rightarrow> event \<Rightarrow> letter list" where
  "posted q (w, op) = (if addressee op = Some q then letters (incoming op w) else [])"

text \<open>
  What the application reads from a letter of a subscription: the message with its sequence number and source time, when the type support can
  make something of it; and what \<open>rmw_take_with_info\<close> of an event hands out.
\<close>

type_synonym news = "ros_message \<times> 64 word \<times> 64 word"

definition read_letter :: "message_type_support_callbacks_t \<Rightarrow> letter \<Rightarrow> news list" where
  "read_letter cb e = (case open_letter cb e of (ok, m) \<Rightarrow>
     if ok then [(m, sequence_num (attachment (fst e)), timestamp (attachment (fst e)))] else [])"

fun handed :: "addr \<Rightarrow> event \<Rightarrow> news list" where
  "handed a (w, Take h m i) = (if data h \<noteq> Some a then [] else
     (case rmw_take_with_info (Some h) (Some m) (Some False) (Some i) w of
        Inr (_, Some True, Some x, Some info, _) \<Rightarrow> [(x, publication_sequence_number info, source_timestamp info)]
      | _ \<Rightarrow> []))"
| "handed a (w, _) = []"

fun takes_from :: "addr \<Rightarrow> operation \<Rightarrow> bool" where
  "takes_from a (Take h m i) \<longleftrightarrow> named h \<and> data h = Some a"
| "takes_from a _ \<longleftrightarrow> False"

lemma delivered_at: "delivered q E M q' = (if q = q' then M q' @ letters E else M q')"
  by (simp add: delivered_def letters_def split: option.split)

lemma delivered_letters: "delivered q E M = M(q := M q @ letters E)"
  by (auto simp: delivered_at)

text \<open>What an operation does to the mailbox of a subscription.\<close>

lemma sub_mail_step:
  assumes "allowed op w"
  shows "mail_step op E M (SubQ a) = (if addressee op = Some (SubQ a) then M (SubQ a) @ letters E
    else if takes_from a op then tl (M (SubQ a)) else M (SubQ a))"
proof (cases op)
  case (Take h m i)
  then show ?thesis using assms by (auto simp: Let_def elim!: handle_inE)
qed (auto simp: delivered_at Let_def)

lemma handed_letters:
  assumes run: "runs M Map.empty w" and al: "allowed op w" and d: "sub_datas w a = Some d"
  shows "handed a (w, op) = (if takes_from a op then concat (map (read_letter (sub_callbacks d)) (take 1 (M (SubQ a)))) else [])"
proof (cases op)
  case (Take h m i)
  show ?thesis
  proof (cases "data h = Some a \<and> named h")
    case True
    then have h: "data h = Some a" "topic_name h \<noteq> None" "identifiers_match (implementation_identifier h)" by (auto simp: named_def)
    obtain r t x info w' where t: "rmw_zenoh_pico_take_one (Some a) m (Some i) (Some False) w = Inr (r, t, x, info, w')"
      "(r, t, x, info) = taken_topic (sub_callbacks d) m (Some i) (Some False) (first (M (SubQ a)))"
      using take_one_becomes [OF run d, of m "Some i" "Some False"] by (auto simp: ensures_iff)
    have "rmw_take_with_info (Some h) (Some m) (Some False) (Some i) w = Inr (r, t, Some x, info, w')"
      using h t(1) by (auto simp: rmw_take_with_info_def)
    then show ?thesis using Take True t(2)
      by (cases "M (SubQ a)") (auto simp: taken_topic_def read_letter_def info_of_def split: prod.splits if_splits)
  next
    case False
    then show ?thesis using Take al by (auto simp: named_def rmw_take_with_info_def)
  qed
qed simp_all

lemma sub_history:
  assumes "started w0" and "happened w0 es w" and "sub_datas w0 a = Some d"
  shows "\<exists>gone. concat (map (posted (SubQ a)) es) = gone @ letters_in w (SubQ a) \<and>
    concat (map (handed a) es) = concat (map (read_letter (sub_callbacks d)) gone)"
  using assms(2)
proof (induction rule: happened.induct)
  case nothing
  have r: "runs (\<lambda>_. []) Map.empty w0" using assms(1) by (rule started_runs)
  then show ?case using runs_letters_in [OF r] by simp
next
  case (event es w op w')
  let ?M = "letters_in w"
  obtain gone where g: "concat (map (posted (SubQ a)) es) = gone @ ?M (SubQ a)"
    "concat (map (handed a) es) = concat (map (read_letter (sub_callbacks d)) gone)" using event.IH by blast
  note st = history_step [OF assms(1) event.hyps]
  obtain d' where d': "sub_datas w a = Some d'" "sub_callbacks d' = sub_callbacks d"
    using lastingD(1) [OF reached_lasts(2) [OF history_reached [OF event.hyps(1)] assms(1)] assms(3)] by blast
  have h: "handed a (w, op) = (if takes_from a op then concat (map (read_letter (sub_callbacks d)) (take 1 (?M (SubQ a)))) else [])"
    using handed_letters [OF st(3) event.hyps(2) d'(1)] d'(2) by simp
  have m: "letters_in w' (SubQ a) = (if addressee op = Some (SubQ a) then ?M (SubQ a) @ letters (incoming op w)
    else if takes_from a op then tl (?M (SubQ a)) else ?M (SubQ a))"
    unfolding st(2) using event.hyps(2) by (rule sub_mail_step)
  let ?gone = "gone @ (if takes_from a op then take 1 (?M (SubQ a)) else [])"
  have "concat (map (posted (SubQ a)) (es @ [(w, op)])) = ?gone @ letters_in w' (SubQ a)"
    using g(1) m by (cases op; cases "?M (SubQ a)") auto
  moreover have "concat (map (handed a) (es @ [(w, op)])) = concat (map (read_letter (sub_callbacks d)) ?gone)"
    using g(2) h by simp
  ultimately show ?case by blast
qed

text \<open>The samples that arrived for a subscription.\<close>

fun samples :: "addr \<Rightarrow> event \<Rightarrow> z_sample list" where
  "samples a (w, Sample_Arrives b s) = (if b = a then [s] else [])"
| "samples a (w, _) = []"

lemma history_env:
  assumes "started w0" and "happened w0 es w" shows "env w = env w0"
  using lastingD(3) [OF reached_lasts(2) [OF history_reached [OF assms(2)] assms(1)]] .

lemma all_samples_accepted:
  assumes "started w0" and "happened w0 es w" and "\<forall>n. \<not> oom (env w0) n"
    and "\<forall>s \<in> set (concat (map (samples a) es)). fst (attachment_data_get (codec (env w0)) (sample_attachment s) zero_attachment)"
  shows "map snd (concat (map (posted (SubQ a)) es)) = map sample_payload (concat (map (samples a) es))"
  using assms(2,4)
proof (induction rule: happened.induct)
  case (event es w op w')
  have "env w = env w0" using history_env [OF assms(1) event.hyps(1)] .
  then have "map snd (posted (SubQ a) (w, op)) = map sample_payload (samples a (w, op))"
    using event.prems assms(3) by (cases op) (auto simp: letters_def sample_letter_def accepts_def)
  then show ?case using event.IH event.prems by simp
qed simp

text \<open>
  C4: A subscription's messages come in order, each once, and none from nowhere. Over any history of the system, the letters accepted for a
  subscription are, in order, those taken from it followed by those still in its queue; what rmw_take_with_info handed to the application
  in all this time is exactly what the type support reads from the letters taken, in that order, with the sequence number and time stamp of
  the sender. While no allocation fails and the attachments can be read, these letters are all samples that arrived: none is lost.
\<close>

theorem subscription_fifo:
  assumes "started w0" and "happened w0 es w" and "sub_datas w0 a = Some d"
  shows "\<exists>gone. concat (map (posted (SubQ a)) es) = gone @ letters_in w (SubQ a) \<and>
    concat (map (handed a) es) = concat (map (read_letter (sub_callbacks d)) gone) \<and>
    ((\<forall>n. \<not> oom (env w0) n) \<and>
      (\<forall>s \<in> set (concat (map (samples a) es)). fst (attachment_data_get (codec (env w0)) (sample_attachment s) zero_attachment)) \<longrightarrow>
      map sample_payload (concat (map (samples a) es)) = map snd (gone @ letters_in w (SubQ a)))"
proof -
  have "\<exists>gone. concat (map (posted (SubQ a)) es) = gone @ letters_in w (SubQ a) \<and>
      concat (map (handed a) es) = concat (map (read_letter (sub_callbacks d)) gone)"
    using assms by (rule sub_history)
  then show ?thesis using all_samples_accepted [OF assms(1,2), of a] by metis
qed

subsection \<open>Which queries are answered\<close>

fun new_replies :: "event \<Rightarrow> zcall list" where
  "new_replies (w, op) = (case perform op w of Inl _ \<Rightarrow> [] | Inr w' \<Rightarrow> take (length (replies w') - length (replies w)) (replies w'))"

fun answers_at :: "addr \<Rightarrow> operation \<Rightarrow> bool" where
  "answers_at a (Send_Response h rid m) \<longleftrightarrow> data h = Some a"
| "answers_at a _ \<longleftrightarrow> False"

fun replied_query :: "zcall \<Rightarrow> nat" where
  "replied_query (ZQueryReply q _ _) = q"
| "replied_query _ = 0"

definition answered :: "addr \<Rightarrow> event \<Rightarrow> nat list" where
  "answered a e = (if answers_at a (snd e) then map replied_query (new_replies e) else [])"

definition ids :: "letter list \<Rightarrow> nat list" where
  "ids es = List.map_filter (\<lambda>e. query (fst e)) es"

lemma ids_simps [simp]: "ids [] = []" "ids (e # es) = (case query (fst e) of None \<Rightarrow> [] | Some q \<Rightarrow> [q]) @ ids es"
  "ids (es @ fs) = ids es @ ids fs"
  by (simp_all add: ids_def List.map_filter_def split: option.split)

lemma ids_drop_first: "find P es = Some e \<Longrightarrow> mset (ids es) = mset (ids [e]) + mset (ids (drop_first P es))"
  by (induction es) (auto split: if_splits option.split)

lemma ids_tl: "mset (ids (tl es)) \<subseteq># mset (ids es)"
  by (cases es) simp_all

lemma new_replies_of:
  assumes "perform op w = Inr w'" and "moves_to M Q w w'"
  shows "replies w' = new_replies (w, op) @ replies w" "map replied_query (new_replies (w, op)) \<in> {[]} \<union> (case Q of None \<Rightarrow> {} | Some q \<Rightarrow> {[q]})"
proof -
  consider "replies w' = replies w" | q bytes att where "Q = Some q" "replies w' = ZQueryReply q bytes att # replies w"
    using assms(2) unfolding moves_to_def by blast
  then have "replies w' = new_replies (w, op) @ replies w \<and>
      map replied_query (new_replies (w, op)) \<in> {[]} \<union> (case Q of None \<Rightarrow> {} | Some q \<Rightarrow> {[q]})"
    by cases (use assms(1) in simp_all)
  then show "replies w' = new_replies (w, op) @ replies w" "map replied_query (new_replies (w, op)) \<in> {[]} \<union> (case Q of None \<Rightarrow> {} | Some q \<Rightarrow> {[q]})"
    by blast+
qed

text \<open>Requests of a server that have not been answered: not yet taken, or taken and waiting.\<close>

definition open_requests :: "addr \<Rightarrow> mail \<Rightarrow> nat multiset" where
  "open_requests a M = mset (ids (M (ReqQ a))) + mset (ids (M (RespQ a)))"

lemma reply_letter_no_query: "ids (letters (incoming (Reply_Arrives a s) w)) = []"
  by (cases s) (simp_all add: letters_def sample_letter_def sample_msg_def)

lemma open_requests_step:
  assumes "allowed op w" and "perform op w = Inr w'" and "moves_to (mail_step op (incoming op w) M) (asked op M) w w'"
  shows "open_requests a (mail_step op (incoming op w) M) + mset (answered a (w, op)) \<subseteq># open_requests a M + mset (ids (posted (ReqQ a) (w, op)))"
proof (cases op)
  case (Take_Request h hdr m)
  then obtain b where "data h = Some b" using assms(1) by (auto elim: handle_inE)
  then show ?thesis using Take_Request
    by (cases "M (ReqQ b)") (auto simp: open_requests_def answered_def delivered_letters letters_def Let_def split: option.split)
next
  case (Send_Response h rid m)
  then obtain b where b: "data h = Some b" using assms(1) by (auto elim: handle_inE)
  show ?thesis
  proof (cases "identifiers_match (implementation_identifier h) \<and> b = a")
    case True
    let ?found = "find (asked_by rid) (M (RespQ a))"
    have r: "map replied_query (new_replies (w, op)) \<in> {[]} \<union> (case asked op M of None \<Rightarrow> {} | Some q \<Rightarrow> {[q]})"
      using assms(2,3) by (rule new_replies_of)
    show ?thesis
    proof (cases ?found)
      case None
      then show ?thesis using Send_Response True b r drop_first_none [OF None] by (simp add: open_requests_def answered_def Let_def)
    next
      case (Some e)
      have "mset (map replied_query (new_replies (w, op))) \<subseteq># mset (ids [e])"
        using r Some Send_Response True b by (auto split: option.splits)
      then show ?thesis using Send_Response True b ids_drop_first [OF Some] by (simp add: open_requests_def answered_def Let_def)
    qed
  next
    case False
    have "new_replies (w, op) = []" if "\<not> identifiers_match (implementation_identifier h)"
      using new_replies_of(2) [OF assms(2,3)] Send_Response that by simp
    then show ?thesis using Send_Response False b by (auto simp: open_requests_def answered_def Let_def)
  qed
next
  case (Take_Response h hdr m)
  then show ?thesis using ids_tl [of "M (RespQ a)"] by (auto simp: open_requests_def answered_def Let_def)
next
  case (Reply_Arrives b s)
  then show ?thesis using reply_letter_no_query [of b s w] by (simp add: open_requests_def answered_def delivered_letters)
qed (auto simp: open_requests_def answered_def delivered_letters Let_def)

lemma mset_balance:
  fixes A :: "'a multiset"
  assumes "A + B \<subseteq># C" and "B' + D \<subseteq># B + E"
  shows "A + D + B' \<subseteq># C + E"
  unfolding subseteq_mset_def count_union
proof
  fix x
  have "count A x + count B x \<le> count C x" "count B' x + count D x \<le> count B x + count E x"
    using assms by (simp_all add: subseteq_mset_def)
  then show "count A x + count D x + count B' x \<le> count C x + count E x" by linarith
qed

text \<open>
  C5: No query is answered twice, and none that did not come. Over any history, the queries answered at a server, the requests still in its
  queue and those taken and waiting for their response are, counted with multiplicity, among the queries accepted for the server; and
  zenoh got no other replies than the ones made by rmw_send_response.
\<close>

theorem each_query_answered_once:
  assumes "started w0" and "happened w0 es w"
  shows "mset (concat (map (answered a) es)) + open_requests a (letters_in w) \<subseteq># mset (ids (concat (map (posted (ReqQ a)) es))) \<and>
    replies w = concat (rev (map new_replies es)) @ replies w0 \<and>
    (\<forall>e \<in> set es. new_replies e \<noteq> [] \<longrightarrow> (\<exists>b. answers_at b (snd e)))"
  using assms(2)
proof (induction rule: happened.induct)
  case nothing
  have r: "runs (\<lambda>_. []) Map.empty w0" using assms(1) by (rule started_runs)
  then show ?case using runs_letters_in [OF r] by (simp add: open_requests_def)
next
  case (event es w op w')
  let ?M = "letters_in w"
  note st = history_step [OF assms(1) event.hyps]
  note new = new_replies_of [OF event.hyps(3) st(1)]
  have "\<exists>b. answers_at b op" if "new_replies (w, op) \<noteq> []"
    using new(2) that event.hyps(2) by (cases op) (auto elim: handle_inE)
  moreover have "mset (concat (map (answered a) (es @ [(w, op)]))) + open_requests a (letters_in w') \<subseteq>#
      mset (ids (concat (map (posted (ReqQ a)) (es @ [(w, op)]))))"
    unfolding st(2) using mset_balance [OF conjunct1 [OF event.IH] open_requests_step [OF event.hyps(2,3) st(1), of a]] by simp
  ultimately show ?case using event.IH new(1) by auto
qed

subsection \<open>A subscription and a server at work\<close>

lemma history_goes_on:
  assumes "started w0" and "happened w0 es w" and "allowed op w"
  shows "\<exists>w'. perform op w = Inr w' \<and> happened w0 (es @ [(w, op)]) w' \<and> lasting w w' \<and> letters_in w' = mail_step op (incoming op w) (letters_in w)"
proof -
  obtain w' where w': "perform op w = Inr w'"
    using reached_step [OF assms(1) history_reached [OF assms(2)] assms(3)] by (auto simp: ensures_iff)
  have "lasting w w'" using history_step(1) [OF assms w'] by (simp add: moves_to_def)
  then show ?thesis using w' happened.event [OF assms(2,3) w'] history_step(2) [OF assms w'] by blast
qed

theorem subscription_fifo_witness:
  "\<exists>w0 w1 w2 d gone. started w0 \<and> sub_datas w0 22 = Some d \<and>
    happened w0 [(w0, Sample_Arrives 22 pong), (w1, Take (sub_handle life_mem) [] empty_message_info)] w2 \<and>
    [sample_payload pong] = map snd (gone @ letters_in w2 (SubQ 22)) \<and>
    handed 22 (w1, Take (sub_handle life_mem) [] empty_message_info) = concat (map (read_letter (sub_callbacks d)) gone)"
proof -
  let ?take = "Take (sub_handle life_mem) [] empty_message_info"
  obtain w0 w1 where w: "started w0" "allowed (Sample_Arrives 22 pong) w0" "perform (Sample_Arrives 22 pong) w0 = Inr w1" "allowed ?take w1"
    "env w0 = small_env"
    using life_arrival by blast
  let ?es = "([] @ [(w0, Sample_Arrives 22 pong)]) @ [(w1, ?take)]"
  obtain d where d: "sub_datas w0 22 = Some d" using w(2) by auto
  have h1: "happened w0 ([] @ [(w0, Sample_Arrives 22 pong)]) w1" using happened.nothing w(2,3) by (rule happened.event)
  obtain w2 where h2: "happened w0 ?es w2" using history_goes_on [OF w(1) h1 w(4)] by blast
  have e: "\<forall>n. \<not> oom (env w0) n" "\<forall>s \<in> set (concat (map (samples 22) ?es)). fst (attachment_data_get (codec (env w0)) (sample_attachment s) zero_attachment)"
    using ping_attachment by (simp_all add: w(5) small_env_def pong_def)
  obtain gone where "concat (map (handed 22) ?es) = concat (map (read_letter (sub_callbacks d)) gone)"
    "map sample_payload (concat (map (samples 22) ?es)) = map snd (gone @ letters_in w2 (SubQ 22))"
    using subscription_fifo [OF w(1) h2 d] e by blast
  then show ?thesis using w(1) d h2 by (intro exI conjI) simp_all
qed

definition idle_server :: rmw_mem where
  "idle_server = server_mem recv_msg_list_init recv_msg_list_init"

lemma idle_server_facts:
  "started idle_server" "env idle_server = small_env" "service_datas idle_server 40 = Some (echo_server recv_msg_list_init recv_msg_list_init)"
proof -
  have q: "queue_at idle_server q = Some l \<Longrightarrow> l = recv_msg_list_init" for q l
    by (cases q) (auto simp: idle_server_def server_mem_def start_mem_def wait_mem.defs small_wait_mem_def echo_server_def zero_service_data_def split: if_splits)
  have "calm idle_server"
    by (auto simp: calm_def idle_server_def server_mem_def start_mem_def wait_mem.defs small_wait_mem_def calm_srv_def echo_server_def
        zero_service_data_def mgr_ok_def zero_mgr_def waiter_ok_def split: if_splits)
  moreover have "fresh idle_server"
    by (auto simp: fresh_def idle_server_def server_facts)
  ultimately show "started idle_server" using q by (auto simp: started_def)
  show "env idle_server = small_env" "service_datas idle_server 40 = Some (echo_server recv_msg_list_init recv_msg_list_init)"
    by (simp_all add: idle_server_def server_facts) (simp add: server_mem_def)
qed

definition ping_events :: "rmw_mem \<Rightarrow> rmw_mem \<Rightarrow> event list" where
  "ping_events w1 w2 = [(idle_server, Query_Arrives 40 ping), (w1, Take_Request server_handle blank_header []),
     (w2, Send_Response server_handle ping_id [7])]"

lemma ping_history: "\<exists>w1 w2 w3. happened idle_server (ping_events w1 w2) w3"
proof -
  let ?w0 = idle_server and ?q = "Query_Arrives 40 ping" and ?t = "Take_Request server_handle blank_header []"
    and ?s = "Send_Response server_handle ping_id [7]"
  note s = idle_server_facts
  have l0: "letters_in ?w0 = (\<lambda>_. [])" using started_runs [OF s(1)] by (rule runs_letters_in)
  have al: "allowed ?q ?w0" using s(3) by (simp add: headed_def ping_def ROS2_MSG_OFFSET_def)
  obtain w1 where w1: "happened ?w0 ([] @ [(?w0, ?q)]) w1" "lasting ?w0 w1" "letters_in w1 = mail_step ?q (incoming ?q ?w0) (letters_in ?w0)"
    using history_goes_on [OF s(1) happened.nothing al] by blast
  have n: "named server_handle" "data server_handle = Some 40" using server_facts(1-3) by (simp_all add: named_def)
  have "allowed ?t w1" using lastingD(2) [OF w1(2) s(3)] n(2) by (auto simp: handle_in_def)
  then obtain w2 where w2: "happened ?w0 (([] @ [(?w0, ?q)]) @ [(w1, ?t)]) w2" "lasting w1 w2" "letters_in w2 = mail_step ?t (incoming ?t w1) (letters_in w1)"
    using history_goes_on [OF s(1) w1(1)] by blast
  have "\<exists>e. letters_in w2 (RespQ 40) = [e] \<and> compare_responce_msg ping_id (fst e) = Inr True \<and> msg_type (fst e) = Query \<and> query (fst e) = Some 5"
    using ping_attachment n unfolding w2(3) w1(3) l0
    by (simp add: Let_def delivered_letters letters_def query_letter_def accepts_def s(2) small_env_def compare_responce_msg_def
        query_msg_def ping_id_def RMW_GID_STORAGE_SIZE_def) (simp add: ping_def)
  then obtain e where "letters_in w2 (RespQ 40) = [e]" "compare_responce_msg ping_id (fst e) = Inr True" "msg_type (fst e) = Query" "query (fst e) = Some 5" by blast
  then have "answerable w2 40 ping_id" by (simp add: answerable_def search_def)
  then have "allowed ?s w2" using lastingD(2) [OF lasting_trans [OF w1(2) w2(2)] s(3)] n(2) by (auto simp: handle_in_def)
  then obtain w3 where "happened ?w0 ((([] @ [(?w0, ?q)]) @ [(w1, ?t)]) @ [(w2, ?s)]) w3"
    using history_goes_on [OF s(1) w2(1)] by blast
  then show ?thesis unfolding ping_events_def by (intro exI) simp
qed

theorem each_query_answered_once_witness:
  "\<exists>w1 w2 w3. happened idle_server (ping_events w1 w2) w3 \<and> mset (answered 40 (w2, Send_Response server_handle ping_id [7])) \<subseteq># {#5#}"
proof -
  obtain w1 w2 w3 where h: "happened idle_server (ping_events w1 w2) w3" using ping_history by blast
  have "ids (letters (query_letter (now idle_server) idle_server ping)) = [5]"
    using ping_attachment by (simp add: letters_def query_letter_def accepts_def idle_server_facts(2) small_env_def query_msg_def ping_def)
  then have p: "mset (ids (concat (map (posted (ReqQ 40)) (ping_events w1 w2)))) = {#5#}" by (simp add: ping_events_def)
  have "mset (answered 40 (w2, Send_Response server_handle ping_id [7])) \<subseteq># mset (concat (map (answered 40) (ping_events w1 w2)))"
    by (simp add: ping_events_def)
  also have "\<dots> \<subseteq># mset (ids (concat (map (posted (ReqQ 40)) (ping_events w1 w2))))"
    using conjunct1 [OF each_query_answered_once [OF idle_server_facts(1) h, of 40]] by (meson mset_subset_eq_add_left subset_mset.dual_order.trans)
  finally show ?thesis using h unfolding p by blast
qed

end
