(* ===== verification/Identity.thy ===== *)
theory Identity
  imports Lifecycle
begin

section \<open>Who is behind an identifier\<close>

text \<open>
  The identifier of an endpoint is the hash of its topic key and nothing else, and every endpoint counts its messages from zero.  What
  this means for the clients of a service, and for the server that tells their requests apart by identifier and number.
\<close>

text \<open>A program with an open node, memory and zenoh's consent, in which the client of a service can be created; \<open>tkey\<close> is its topic key.\<close>

definition client_site ::
  "rmw_mem \<Rightarrow> rmw_node_t \<Rightarrow> string \<Rightarrow> rmw_qos_profile_t \<Rightarrow> rosidl_service_type_support_t \<Rightarrow> string \<Rightarrow> bool" where
  "client_site w n topic qos ts tkey \<longleftrightarrow> (\<exists>nd d ea e ni i hash tname. open_node w n nd d ea e ni i \<and> topic_args_ok w topic qos \<and> rmw_ok w \<and>
     convert_hash (\<lambda>_. True) (service_hash ts) = Inr (Some hash) \<and> convert_client_type (\<lambda>_. True) (get_request_callback ts) = Inr (Some tname) \<and>
     ros_topic_name_to_zenoh_key (lineness_len (env w)) (\<lambda>_. True) (ni_domain i) (cstr topic) tname hash = Inr (Some tkey) \<and>
     zok (env w) (trace w) (ZDeclareQueryable tkey) \<and>
     zok (env w) (ZDeclareQueryable tkey # trace w) (ZDeclareToken (endpoint_key w (nd_id d) Client ni i (topic_info_of topic tname hash))) \<and>
     encodes (codec (env w)) (gid_of (env w) tkey))"

text \<open>The first request of a new client carries number 1 and the identifier made from the topic key.\<close>

lemma first_request:
  assumes "client_site w n topic qos ts tkey"
  shows "\<exists>h w1 r w2 bs a. rmw_create_client (Some n) (Some (Some ts)) (Some topic) (Some qos) w = Inr (Some h, w1) \<and>
    rmw_send_request (Some h) m (Some old) w1 = Inr (r, Some 0, w2) \<and>
    trace w2 = ZGet tkey (serialized_bytes (get_request_callback ts) m) bs # trace w1 \<and>
    attachment_data_get (codec (env w)) bs zero_attachment = (True, a) \<and> sequence_num a = 1 \<and> gid a = gid_of (env w) tkey"
proof -
  obtain nd d ea e ni i hash tname where s: "open_node w n nd d ea e ni i" "topic_args_ok w topic qos" "rmw_ok w"
    "convert_hash (\<lambda>_. True) (service_hash ts) = Inr (Some hash)" "convert_client_type (\<lambda>_. True) (get_request_callback ts) = Inr (Some tname)"
    "ros_topic_name_to_zenoh_key (lineness_len (env w)) (\<lambda>_. True) (ni_domain i) (cstr topic) tname hash = Inr (Some tkey)"
    "zok (env w) (trace w) (ZDeclareQueryable tkey)"
    "zok (env w) (ZDeclareQueryable tkey # trace w) (ZDeclareToken (endpoint_key w (nd_id d) Client ni i (topic_info_of topic tname hash)))"
    "encodes (codec (env w)) (gid_of (env w) tkey)"
    using assms unfolding client_site_def by blast
  let ?d = "declared_srv (srv_data_of w nd ts qos (endpoint_key w (nd_id d) Client ni i (topic_info_of topic tname hash)) tkey)"
  let ?key = "endpoint_key w (nd_id d) Client ni i (topic_info_of topic tname hash)"
  let ?w1 = "(made_srv Client (nd_id d) ni i topic tname hash ?d w)\<lparr>next_addr := next_addr w + 5,
      bufs := (bufs w)(next_addr w + 3 \<mapsto> [], next_addr w + 4 \<mapsto> bytes_of (cstr topic) @ [0]),
      trace := ZDeclareToken ?key # ZDeclareQueryable tkey # trace w\<rparr>"
  have c: "rmw_create_client (Some n) (Some (Some ts)) (Some topic) (Some qos) w = Inr (Some (srv_handle w), ?w1)"
    unfolding rmw_create_client_def by (rule create_service_run [OF s(1,2) disjI2 [OF refl] s(4-8)])
  have f: "env ?w1 = env w" "service_datas ?w1 (next_addr w + 2) = Some ?d" "node_datas ?w1 = node_datas w" "sessions ?w1 = sessions w"
      "next_addr ?w1 = next_addr w + 5" "bufs ?w1 (next_addr w + 5) = None"
    using rmw_ok_fresh(1) [OF s(3), of "next_addr w + 5"] by (simp_all add: made_srv_facts)
  obtain ss sp where o: "node_datas w nd = Some d" "nd_session d = Some sp" "sessions w sp = Some ss"
    using s(1) by (auto simp: open_node_def live_def deref_eq_Inr)
  let ?a = "srv_attachment ?d"
  have a: "gid ?a = gid_of (env w) tkey" "sequence_num ?a = 0" "srv_topic_key ?d = tkey" "request_callback ?d = get_request_callback ts"
    "srv_node ?d = Some nd" "srv_mutex ?d = Unlocked"
    by (simp_all add: declared_srv_def srv_data_of_def zero_service_data_def)
  have e: "encodes (codec (env w)) (gid ?a)" unfolding a(1) by (rule s(9))
  obtain bs where bs: "att_bytes (codec (env w)) (?a\<lparr>sequence_num := 1, timestamp := fst (zenoh_pico_gen_timestamp ?w1)\<rparr>) = Some bs"
    using e by (rule encodes_bytes)
  have r: "\<exists>w'. rmw_send_request (Some (srv_handle w)) m (Some old) ?w1 =
      Inr (if zok (env ?w1) (trace ?w1) (ZGet (srv_topic_key ?d) (serialized_bytes (request_callback ?d) m) bs) then RMW_RET_OK else RMW_RET_ERROR,
        Some (sequence_num ?a), w') \<and>
    trace w' = ZGet (srv_topic_key ?d) (serialized_bytes (request_callback ?d) m) bs # trace ?w1 \<and> bufs w' = bufs ?w1 \<and>
    service_datas w' = (service_datas ?w1)(next_addr w + 2 \<mapsto> ?d\<lparr>srv_attachment := next_attachment ?w1 ?a\<rparr>)"
  proof (rule send_request_run [OF _ _ f(2) a(6,5)])
    show "data (srv_handle w) = Some (next_addr w + 2)" "identifiers_match (implementation_identifier (srv_handle w))"
      by (simp_all add: srv_handle_def identifiers_match_def)
    show "node_datas ?w1 nd = Some d" "nd_session d = Some sp" "sessions ?w1 sp = Some ss" using o by (simp_all only: f)
    show "\<not> oom (env ?w1) (next_addr ?w1)" using s(2) by (simp only: topic_args_ok_def roomy_def f) blast
    show "bufs ?w1 (next_addr ?w1) = None" using f(6) by (simp only: f(5))
    show "att_bytes (codec (env ?w1)) (next_attachment ?w1 ?a) = Some bs" using bs by (simp add: next_attachment_def a(2) f(1))
  qed
  have read: "attachment_data_get (codec (env w)) bs zero_attachment =
      (True, \<lparr>sequence_num = 1, timestamp = fst (zenoh_pico_gen_timestamp ?w1), gid = gid ?a\<rparr>)"
    using att_bytes_read [OF _ bs, of zero_attachment] s(9) by (simp add: encodes_def zero_attachment_def)
  from r show ?thesis unfolding a(2,3,4)
    by (elim exE conjE) (intro exI conjI, rule c, assumption, assumption, rule read, simp, simp add: a(1))
qed

lemma gid_of_byte_order:
  "little_endian (target z) = little_endian (target z') \<Longrightarrow> alike (target z) (target z') (length key) \<Longrightarrow> gid_of z key = gid_of z' key"
  by (simp add: gid_of_def native_bytes_def Let_def hash_of_alike [of "target z" "target z'"])

text \<open>
  Clients of one service have one identity. Two programs, on different machines or the same, each create a client of
  a service with the same topic key and send a request. Then both requests carry the number 1, and if the machines have
  the same byte order and hash the key alike also the same identifier, whatever the nodes, sessions and requests: a server cannot tell them apart by what
  rmw_take_request hands out.
\<close>

theorem clients_share_identity:
  assumes "client_site w n topic qos ts tkey" and "client_site w' n' topic' qos' ts' tkey"
    and "little_endian (target (env w)) = little_endian (target (env w'))" and "alike (target (env w)) (target (env w')) (length tkey)"
  shows "\<exists>h w1 r w2 bs a h' w1' r' w2' bs' a'.
    rmw_create_client (Some n) (Some (Some ts)) (Some topic) (Some qos) w = Inr (Some h, w1) \<and>
    rmw_send_request (Some h) m (Some old) w1 = Inr (r, Some 0, w2) \<and>
    trace w2 = ZGet tkey (serialized_bytes (get_request_callback ts) m) bs # trace w1 \<and>
    rmw_create_client (Some n') (Some (Some ts')) (Some topic') (Some qos') w' = Inr (Some h', w1') \<and>
    rmw_send_request (Some h') m' (Some old') w1' = Inr (r', Some 0, w2') \<and>
    trace w2' = ZGet tkey (serialized_bytes (get_request_callback ts') m') bs' # trace w1' \<and>
    attachment_data_get (codec (env w)) bs zero_attachment = (True, a) \<and>
    attachment_data_get (codec (env w')) bs' zero_attachment = (True, a') \<and>
    sequence_num a = 1 \<and> sequence_num a' = 1 \<and> gid a = gid a'"
  using first_request [OF assms(1), of m old] first_request [OF assms(2), of m' old'] gid_of_byte_order [OF assms(3,4)]
  by (elim exE conjE) (intro exI conjI, assumption+, simp)

subsection \<open>The server\<close>

text \<open>The identifier under which the application answers a request: what \<open>rmw_take_request\<close> put into its header.\<close>

definition header_id :: "rmw_service_info_t \<Rightarrow> rmw_request_id_t" where
  "header_id hdr = \<lparr>rid_writer_guid = writer_guid hdr, rid_sequence_number = request_sequence_number hdr\<rparr>"

lemma header_id_matches:
  assumes "length (gid (attachment md)) = RMW_GID_STORAGE_SIZE" and "gid (attachment md') = gid (attachment md)"
    and "sequence_num (attachment md') = sequence_num (attachment md)" and "length (writer_guid hdr) = RMW_GID_STORAGE_SIZE"
  shows "compare_responce_msg (header_id (rmw_zneoh_fill_request_header hdr md)) md' = Inr True"
proof -
  have "gid (attachment md) \<noteq> []" using assms(1) by (auto simp: RMW_GID_STORAGE_SIZE_def)
  then show ?thesis using assms
    by (simp add: compare_responce_msg_def header_id_def rmw_zneoh_fill_request_header_def copy_gid_def Let_def)
qed

text \<open>
  C21: A response goes to the oldest request of the same name. Two requests from different queries wait for their responses, the older at the
  top of the response queue, and their attachments have the same identifier and number. The application answers the younger
  with the header that rmw_take_request gave it for it, and memory suffices. Then rmw_send_response replies to the query of the
  older request and releases that; the request that was answered goes on waiting.
\<close>

theorem response_goes_to_oldest_twin:
  assumes "data h = Some s" "identifiers_match (implementation_identifier h)" and "rmw_ok w" "srv_ready w s d reqs (m # ms)"
    and "waiting_request w m md bs q" and "m' \<in> set ms" "waiting_request w m' md' bs' q'" "q' \<noteq> q"
    and "length (gid (attachment md')) = RMW_GID_STORAGE_SIZE" "gid (attachment md) = gid (attachment md')"
    and "sequence_num (attachment md) = sequence_num (attachment md')"
    and "length (writer_guid hdr) = RMW_GID_STORAGE_SIZE" and "\<not> oom (env w) (next_addr w)" and "encodes (codec (env w)) (gid (attachment md))"
  shows "\<exists>ret w' d' ab. rmw_send_response (Some h) (Some (header_id (rmw_zneoh_fill_request_header hdr md'))) (Some r) w = Inr (ret, w') \<and>
    trace w' = ZQueryDrop q # ZQueryReply q (serialized_bytes (response_callback d) r) ab # trace w \<and>
    service_datas w' s = Some d' \<and> queue_rep (msgs w') (response_queue d') ms \<and> msgs w' m = None"
proof -
  let ?id = "header_id (rmw_zneoh_fill_request_header hdr md')"
  have d: "service_datas w s = Some d" "srv_mutex d = Unlocked" "m \<notin> set ms"
    using assms(4) by (auto simp: srv_ready_def queue_rep_def)
  have md: "msgs w m = Some md" using assms(5) by (simp add: waiting_request_def live_def)
  have "compare_responce_msg ?id md = Inr True" by (rule header_id_matches [OF assms(9-12)])
  then have found: "first_match (msgs w) (compare_responce_msg ?id) (m # ms) = Inr (Some m)" by (rule first_match_head [OF md])
  obtain l hp where p: "srv_pickup_response (Some s) ?id w =
      Inr (Some m, w\<lparr>msgs := hp, service_datas := (service_datas w)(s \<mapsto> d\<lparr>response_queue := l\<rparr>)\<rparr>)"
    "queue_rep hp l ms" "same_msgs (msgs w) hp"
    using srv_pickup_run [OF assms(3,4) found] by auto
  let ?d = "d\<lparr>response_queue := l\<rparr>"
  let ?w = "w\<lparr>msgs := hp, service_datas := (service_datas w)(s \<mapsto> ?d)\<rparr>"
  obtain n where n: "hp m = Some (md\<lparr>next_msg := n\<rparr>)" using same_msgsD [OF p(3) md] by blast
  have wr: "waiting_request ?w m (md\<lparr>next_msg := n\<rparr>) bs q" using assms(5) n by (simp add: waiting_request_def live_def)
  have f: "service_datas ?w s = Some ?d" "srv_mutex ?d = Unlocked" "\<not> oom (env ?w) (next_addr ?w)" "bufs ?w (next_addr ?w) = None"
    using d(2) assms(13) rmw_ok_fresh(1) [OF assms(3), of "next_addr w"] by simp_all
  obtain ab where "att_bytes (codec (env w)) ((attachment md)\<lparr>sequence_num := sequence_num (attachment md), timestamp := fst (zenoh_pico_gen_timestamp ?w)\<rparr>) = Some ab"
    using assms(14) by (rule encodes_bytes)
  then have ab: "att_bytes (codec (env ?w)) ((attachment (md\<lparr>next_msg := n\<rparr>))\<lparr>timestamp := fst (zenoh_pico_gen_timestamp ?w)\<rparr>) = Some ab"
    by simp
  from send_response_run [OF assms(1,2) p(1) f(1,2) wr f(3,4) ab, of r]
  obtain w' ret where w': "rmw_send_response (Some h) (Some ?id) (Some r) w = Inr (ret, w')"
    "trace w' = ZQueryDrop q # ZQueryReply q (serialized_bytes (response_callback d) r) ab # trace w"
    "msgs w' = hp(m := None)" "service_datas w' = (service_datas w)(s \<mapsto> ?d)" by auto
  have "queue_rep (hp(m := None)) l ms" using p(2) d(3) by (simp add: queue_rep_frame)
  with w' show ?thesis by (intro exI [of _ ret] exI [of _ w'] exI [of _ ?d] exI [of _ ab]) simp
qed

subsection \<open>Examples\<close>

lemma small_encodes: "length g < 256 \<Longrightarrow> encodes (codec small_env) g"
  using le_codec_ok by (simp add: encodes_def small_env_def) (simp add: le_codec_def)

lemma life_client_site: "\<exists>tkey. client_site life_mem life_node ''/add'' zero_qos life_service tkey"
proof -
  obtain hash where h: "convert_hash (\<lambda>_. True) (service_hash life_service) = Inr (Some hash)" "z_text hash" "length hash = 71"
    using hash_text [of "replicate 32 0xAB"] by (auto simp: life_service_def ROSIDL_TYPE_HASH_SIZE_def)
  let ?t = "''example_interfaces::srv::dds_::AddTwoInts_''" and ?topic = "''/add''"
  let ?k = "topic_key_text ''42'' (cstr ?topic) ?t hash"
  have k: "ros_topic_name_to_zenoh_key (lineness_len (env life_mem)) (\<lambda>_. True) (ni_domain life_info) (cstr ?topic) ?t hash = Inr (Some ?k)"
    using h(2,3) topic_key_fits [of "''42''" "cstr ?topic" ?t hash 256]
    by (simp add: small_env_def life_info_def cstr_def NUL_def topic_key_text_def key_front_def name_part_def z_text_def)
  have a: "topic_args_ok life_mem ?topic zero_qos"
    using life_roomy by (simp add: topic_args_ok_def small_env_def cstr_def NUL_def)
  have z: "zok (env life_mem) t c" for t c by (simp add: small_env_def)
  have e: "encodes (codec (env life_mem)) (gid_of (env life_mem) ?k)" by (simp add: small_encodes gid_of_def Let_def)
  show ?thesis
    unfolding client_site_def
    by (intro exI conjI) (rule life_open_node a life_mem_ok h(1) life_service_type k z e)+
qed

theorem clients_share_identity_witness:
  "\<exists>tkey h w1 r w2 bs a h' w1' r' w2' bs' a'.
    rmw_create_client (Some life_node) (Some (Some life_service)) (Some ''/add'') (Some zero_qos) life_mem = Inr (Some h, w1) \<and>
    rmw_send_request (Some h) [1, 2] (Some 0) w1 = Inr (r, Some 0, w2) \<and>
    trace w2 = ZGet tkey (serialized_bytes (get_request_callback life_service) [1, 2]) bs # trace w1 \<and>
    rmw_create_client (Some life_node) (Some (Some life_service)) (Some ''/add'') (Some zero_qos) life_mem = Inr (Some h', w1') \<and>
    rmw_send_request (Some h') [3, 4] (Some 0) w1' = Inr (r', Some 0, w2') \<and>
    trace w2' = ZGet tkey (serialized_bytes (get_request_callback life_service) [3, 4]) bs' # trace w1' \<and>
    attachment_data_get (codec (env life_mem)) bs zero_attachment = (True, a) \<and>
    attachment_data_get (codec (env life_mem)) bs' zero_attachment = (True, a') \<and>
    sequence_num a = 1 \<and> sequence_num a' = 1 \<and> gid a = gid a'"
proof -
  obtain tkey where s: "client_site life_mem life_node ''/add'' zero_qos life_service tkey" using life_client_site by blast
  from clients_share_identity [OF s s refl alike_refl, of "[1, 2]" 0 "[3, 4]" 0] show ?thesis
    by (elim exE conjE) (intro exI conjI, assumption+)
qed

definition late_msg :: ReceiveMessageData where
  "late_msg = query_msg 12 (ping\<lparr>query_id := 8\<rparr>) 9 \<lparr>sequence_num = 3, timestamp = 7, gid = replicate 16 9\<rparr>"

definition two_msgs :: ReceiveMessageDataList where
  "two_msgs = \<lparr>que_mutex = Unlocked, que_top = Some 1, que_bottom = Some 2, que_count = 2\<rparr>"

definition twin_mem :: rmw_mem where
  "twin_mem = (server_mem recv_msg_list_init two_msgs)\<lparr>bufs := [11 \<mapsto> query_payload ping, 12 \<mapsto> query_payload ping],
     msgs := [1 \<mapsto> ping_msg\<lparr>next_msg := Some 2\<rparr>, 2 \<mapsto> late_msg]\<rparr>"

lemma twin_facts:
  "env twin_mem = small_env" "next_addr twin_mem = 41" "trace twin_mem = []" "rmw_ok twin_mem"
  "srv_ready twin_mem 40 (echo_server recv_msg_list_init two_msgs) [] [1, 2]"
  "waiting_request twin_mem 1 (ping_msg\<lparr>next_msg := Some 2\<rparr>) (query_payload ping) 5"
  "waiting_request twin_mem 2 late_msg (query_payload ping) 8"
  using server_facts(5) [of recv_msg_list_init two_msgs]
  by (simp_all add: twin_mem_def server_facts rmw_ok_def mem_ok_def ent_ok_def)
    (simp_all add: server_mem_def srv_ready_def echo_server_def zero_service_data_def mgr_ok_def zero_mgr_def waiter_ok_def queue_rep_def
      two_msgs_def recv_msg_list_init_def waiting_request_def live_def ping_msg_def late_msg_def query_msg_def ping_def)

theorem response_goes_to_oldest_twin_witness:
  "\<exists>ret w' ab. rmw_send_response (Some server_handle) (Some (header_id (rmw_zneoh_fill_request_header blank_header late_msg))) (Some [7]) twin_mem
      = Inr (ret, w') \<and> trace w' = [ZQueryDrop 5, ZQueryReply 5 (serialized_bytes echo_callbacks [7]) ab] \<and> msgs w' 1 = None"
proof -
  have m: "2 \<in> set [2 :: addr]" "(8 :: nat) \<noteq> 5" by simp_all
  have g: "length (gid (attachment late_msg)) = RMW_GID_STORAGE_SIZE" "gid (attachment (ping_msg\<lparr>next_msg := Some 2\<rparr>)) = gid (attachment late_msg)"
    "sequence_num (attachment (ping_msg\<lparr>next_msg := Some 2\<rparr>)) = sequence_num (attachment late_msg)"
    "length (writer_guid blank_header) = RMW_GID_STORAGE_SIZE"
    by (simp_all add: late_msg_def ping_msg_def query_msg_def RMW_GID_STORAGE_SIZE_def blank_header_def)
  have o: "\<not> oom (env twin_mem) (next_addr twin_mem)" "encodes (codec (env twin_mem)) (gid (attachment (ping_msg\<lparr>next_msg := Some 2\<rparr>)))"
    by (simp add: twin_facts small_env_def) (simp add: twin_facts small_encodes ping_msg_def query_msg_def)
  have cb: "response_callback (echo_server recv_msg_list_init two_msgs) = echo_callbacks" by (simp add: echo_server_def)
  from response_goes_to_oldest_twin [OF server_facts(1,3) twin_facts(4-6) m(1) twin_facts(7) m(2) g o, of "[7]"]
  show ?thesis unfolding twin_facts cb by blast
qed

end
