(* ===== verification/Remote_Call.thy ===== *)
theory Remote_Call
  imports History Identity
begin

section \<open>A call and its answer\<close>

text \<open>
  The composition of the six steps of a service call: the request of the client, its arrival at the server, the server's taking and
  answering it, the arrival of the response at the client and the client's taking it.  The network is a parameter in that
  it hands over the query and the reply with the payloads and attachments they were sent with.
\<close>

subsection \<open>The server's half\<close>

lemma serialized_readable:
  assumes "cdr_ok cb m"
  shows "ROS2_MSG_OFFSET \<le> length (serialized_bytes cb m)" "cdr_deserialize cb (drop ROS2_MSG_OFFSET (serialized_bytes cb m)) = (True, m)"
  using assms by (simp_all add: serialized_bytes_eq cdr_ok_def ROS2_MSG_OFFSET_def)

text \<open>With memory and an attachment that can be encoded, a response becomes exactly one reply.\<close>

lemma send_response_replies:
  assumes run: "runs M Map.empty w" and h: "data h = Some a" "identifiers_match (implementation_identifier h)" and d: "service_datas w a = Some d"
    and an: "search rid (M (RespQ a)) = Inr (Some e)" "msg_type (fst e) = Query" "query (fst e) = Some qy"
    and room: "roomy w" and enc: "encodes (codec (env w)) (gid (attachment (fst e)))"
  shows "\<exists>ret w' ab ts. rmw_send_response (Some h) (Some rid) (Some r) w = Inr (ret, w') \<and>
    replies w' = ZQueryReply qy (serialized_bytes (response_callback d) r) ab # replies w \<and>
    attachment_data_get (codec (env w)) ab zero_attachment = (True, (attachment (fst e))\<lparr>timestamp := ts\<rparr>)"
proof -
  let ?M = "M(RespQ a := drop_first (asked_by rid) (M (RespQ a)))"
  from pickup_response_held [OF run d an(1)] obtain m w1 where p: "srv_pickup_response (Some a) rid w = Inr (Some m, w1)" "same_ends w w1"
    "runs ?M [m \<mapsto> e] w1"
    by (cases rule: heldE) (use an in auto)
  obtain d1 where d1: "service_datas w1 a = Some d1" "response_callback d1 = response_callback d" using same_endsD(2) [OF p(2) d] by blast
  obtain md bs where md: "msgs w1 m = Some md" "e = (md\<lparr>next_msg := None, payload_start := None\<rparr>, bs)"
    using letter_in_hand [OF p(3)] by blast
  have qy: "msg_type md = Query" "query md = Some qy" and at: "attachment (fst e) = attachment md" using an(2,3) md(2) by simp_all
  have u: "srv_mutex d1 = Unlocked" using calm_srvD(2) [OF runs_calm [OF p(3)] d1(1)] .
  obtain pl where pl: "parcel (msgs w1) (bufs w1) m pl" using runs_live [OF p(3)] by blast
  have "\<exists>bs. waiting_request w1 m md bs qy"
    using md(1) qy parcelD [OF pl md(1)] by (auto simp: waiting_request_def live_def)
  then obtain bs where wr: "waiting_request w1 m md bs qy" by blast
  have ev: "env w1 = env w" by (rule same_endsD(3) [OF p(2)])
  have mem: "\<not> oom (env w1) (next_addr w1)" "bufs w1 (next_addr w1) = None" using room runs_fresh [OF p(3)] by (simp_all add: ev roomy_def)
  let ?ts = "fst (zenoh_pico_gen_timestamp w1)"
  have e: "encodes (codec (env w1)) (gid (attachment md))" using enc unfolding at ev .
  obtain ab where "att_bytes (codec (env w1)) ((attachment md)\<lparr>sequence_num := sequence_num (attachment md), timestamp := ?ts\<rparr>) = Some ab"
    using e by (rule encodes_bytes)
  then have ab: "att_bytes (codec (env w1)) ((attachment md)\<lparr>timestamp := ?ts\<rparr>) = Some ab" by simp
  obtain ret w' where s: "rmw_send_response (Some h) (Some rid) (Some r) w = Inr (ret, w')"
    "trace w' = ZQueryDrop qy # ZQueryReply qy (serialized_bytes (response_callback d1) r) ab # trace w1"
    using send_response_run [OF h p(1) d1(1) u wr mem ab, of r] by blast
  have "attachment_data_get (codec (env w1)) ab zero_attachment = (True, (attachment md)\<lparr>timestamp := ?ts\<rparr>)"
    using att_bytes_read [OF _ ab, of zero_attachment] e by (simp add: encodes_def)
  moreover have "replies w' = ZQueryReply qy (serialized_bytes (response_callback d) r) ab # replies w"
    using s(2) same_endsD(4) [OF p(2)] by (simp add: d1(2))
  ultimately show ?thesis using s(1) unfolding ev at by blast
qed

text \<open>A query arrives, the application takes the request and responds under the name it got with it.\<close>

lemma server_answers:
  assumes run: "runs M Map.empty w" and q0: "M (ReqQ a) = []" "M (RespQ a) = []"
    and h: "data h = Some a" "topic_name h = Some tn" "identifiers_match (implementation_identifier h)" and d: "service_datas w a = Some d"
    and room: "roomy w" and att: "attachment_data_get (codec (env w)) (query_attachment q) zero_attachment = (True, t)"
    and g: "length (gid t) = RMW_GID_STORAGE_SIZE" "encodes (codec (env w)) (gid t)" "length (writer_guid hdr) = RMW_GID_STORAGE_SIZE"
    and pl: "ROS2_MSG_OFFSET \<le> length (query_payload q)"
      "cdr_deserialize (request_callback d) (drop ROS2_MSG_OFFSET (query_payload q)) = (True, m)"
  shows "\<exists>w1 hdr' w2 ret w3 ab ts. request_handler q (Some a) w = Inr ((), w1) \<and>
    rmw_take_request (Some h) (Some hdr) old (Some b) w1 = Inr (RMW_RET_OK, Some hdr', m, Some True, w2) \<and>
    request_sequence_number hdr' = sequence_num t \<and> writer_guid hdr' = gid t \<and>
    rmw_send_response (Some h) (Some (header_id hdr')) (Some r) w2 = Inr (ret, w3) \<and>
    replies w3 = ZQueryReply (query_id q) (serialized_bytes (response_callback d) r) ab # replies w \<and>
    attachment_data_get (codec (env w)) ab zero_attachment = (True, t\<lparr>timestamp := ts\<rparr>) \<and> runs M Map.empty w3"
proof -
  let ?e = "((query_msg 0 q (now w) t)\<lparr>payload_start := None, keyexpr := z_string_clone (copy_ok (env w)) (query_keyexpr q)\<rparr>, query_payload q)"
  have e: "query_letter (now w) w q = Some ?e" using room att by (simp add: query_letter_def accepts_def roomy_def)
  have f: "attachment (fst ?e) = t" "msg_type (fst ?e) = Query" "query (fst ?e) = Some (query_id q)" "snd ?e = query_payload q"
    by (simp_all add: query_msg_def)
  obtain w1 where w1: "request_handler q (Some a) w = Inr ((), w1)" "same_ends w w1" "runs (M(ReqQ a := [?e])) Map.empty w1"
    using request_handler_becomes [OF run pl(1) d] q0 by (auto simp: ensures_iff becomes_def e delivered_letters letters_def)
  obtain d1 where d1: "service_datas w1 a = Some d1" "request_callback d1 = request_callback d" "response_callback d1 = response_callback d"
    using same_endsD(2) [OF w1(2) d] by blast
  let ?hdr = "rmw_zneoh_fill_request_header hdr (fst ?e)"
  have o: "open_letter (request_callback d1) ?e = (True, m)" using pl(2) by (simp add: d1(2))
  have M2: "delivered (RespQ a) (first ((M(ReqQ a := [?e])) (ReqQ a))) ((M(ReqQ a := [?e]))(ReqQ a := tl ((M(ReqQ a := [?e])) (ReqQ a)))) =
      M(RespQ a := [?e])"
    using q0 by (auto simp: delivered_letters letters_def fun_upd_idem)
  obtain w2 where w2: "rmw_take_request (Some h) (Some hdr) old (Some b) w1 = Inr (RMW_RET_OK, Some ?hdr, m, Some True, w2)"
    "same_ends w1 w2" "runs (M(RespQ a := [?e])) Map.empty w2"
    using take_request_becomes [OF w1(3) h d1(1), of "Some hdr" old b] unfolding M2
    by (auto simp: ensures_iff becomes_def taken_request_def o simp del: open_letter.simps)
  obtain d2 where d2: "service_datas w2 a = Some d2" "response_callback d2 = response_callback d"
    using same_endsD(2) [OF w2(2) d1(1)] d1(3) by auto
  have ev: "env w2 = env w" using same_endsD(3) [OF w2(2)] same_endsD(3) [OF w1(2)] by simp
  have rp: "replies w2 = replies w" using same_endsD(4) [OF w2(2)] same_endsD(4) [OF w1(2)] by simp
  have named: "compare_responce_msg (header_id ?hdr) (fst ?e) = Inr True"
    by (rule header_id_matches [OF _ refl refl g(3)]) (simp only: f(1) g(1))
  then have fd: "search (header_id ?hdr) ((M(RespQ a := [?e])) (RespQ a)) = Inr (Some ?e)" by (simp add: search_def)
  have r2: "roomy w2" using room by (simp add: roomy_def ev)
  have en: "encodes (codec (env w2)) (gid (attachment (fst ?e)))" using g(2) by (simp only: f(1) ev)
  obtain ret w3 ab ts where s: "rmw_send_response (Some h) (Some (header_id ?hdr)) (Some r) w2 = Inr (ret, w3)"
    "replies w3 = ZQueryReply (query_id q) (serialized_bytes (response_callback d2) r) ab # replies w2"
    "attachment_data_get (codec (env w2)) ab zero_attachment = (True, (attachment (fst ?e))\<lparr>timestamp := ts\<rparr>)"
    using send_response_replies [OF w2(3) h(1,3) d2(1) fd f(2,3) r2 en] by blast
  have dr: "(M(RespQ a := [?e]))(RespQ a := drop_first (asked_by (header_id ?hdr)) ((M(RespQ a := [?e])) (RespQ a))) = M"
    using compare_responce_msg_Inr [OF named] q0 by (simp add: asked_by_def fun_upd_idem)
  have "answers M (query_id q) w2 w3"
    using send_response_answers_one [OF w2(3) h(1,3) d2(1) fd f(2,3), of r] unfolding dr s(1) by simp
  then have "runs M Map.empty w3" unfolding answers_def by blast
  moreover have "request_sequence_number ?hdr = sequence_num t" "writer_guid ?hdr = gid t"
    using g(1,3) f(1) by (simp_all add: rmw_zneoh_fill_request_header_def copy_gid_def)
  ultimately show ?thesis using w1(1) w2(1) s unfolding f(1) ev rp d2(2) by blast
qed

subsection \<open>The client's half\<close>

text \<open>A reply arrives and the application takes it.\<close>

lemma client_hears:
  assumes run: "runs M Map.empty w" and q0: "M (RespQ a) = []"
    and h: "data h = Some a" "identifiers_match (implementation_identifier h)" and d: "service_datas w a = Some d"
    and room: "roomy w" and att: "attachment_data_get (codec (env w)) (sample_attachment s) zero_attachment = (True, t)"
    and g: "length (gid t) = RMW_GID_STORAGE_SIZE" "length (writer_guid hdr) = RMW_GID_STORAGE_SIZE"
    and pl: "ROS2_MSG_OFFSET \<le> length (sample_payload s)"
      "cdr_deserialize (response_callback d) (drop ROS2_MSG_OFFSET (sample_payload s)) = (True, m)"
  shows "\<exists>w1 hdr' w2. reply_handler (Some s) (Some a) w = Inr ((), w1) \<and>
    rmw_take_response (Some h) (Some hdr) old (Some b) w1 = Inr (RMW_RET_OK, Some hdr', m, Some True, w2) \<and>
    request_sequence_number hdr' = sequence_num t \<and> writer_guid hdr' = gid t \<and> runs M Map.empty w2"
proof -
  let ?e = "((sample_msg 0 (sample_payload s) (now w) t)\<lparr>payload_start := None\<rparr>, sample_payload s)"
  have e: "sample_letter (now w) w s = Some ?e" using room att by (simp add: sample_letter_def accepts_def roomy_def)
  have f: "attachment (fst ?e) = t" by (simp add: sample_msg_def)
  obtain w1 where w1: "reply_handler (Some s) (Some a) w = Inr ((), w1)" "same_ends w w1" "runs (M(RespQ a := [?e])) Map.empty w1"
    using reply_handler_becomes [OF run pl(1) d] q0 by (auto simp: ensures_iff becomes_def e delivered_letters letters_def)
  obtain d1 where d1: "service_datas w1 a = Some d1" "response_callback d1 = response_callback d"
    using same_endsD(2) [OF w1(2) d] by blast
  let ?hdr = "rmw_zneoh_fill_request_header hdr (fst ?e)"
  have o: "open_letter (response_callback d1) ?e = (True, m)" using pl(2) by (simp add: d1(2))
  have M2: "(M(RespQ a := [?e]))(RespQ a := tl ((M(RespQ a := [?e])) (RespQ a))) = M" using q0 by (simp add: fun_upd_idem)
  obtain w2 where "rmw_take_response (Some h) (Some hdr) old (Some b) w1 = Inr (RMW_RET_OK, Some ?hdr, m, Some True, w2)"
    "runs M Map.empty w2"
    using take_response_becomes [OF w1(3) h d1(1), of "Some hdr" old b] unfolding M2
    by (auto simp: ensures_iff becomes_def taken_response_def o simp del: open_letter.simps)
  moreover have "request_sequence_number ?hdr = sequence_num t" "writer_guid ?hdr = gid t"
    using g f by (simp_all add: rmw_zneoh_fill_request_header_def copy_gid_def)
  ultimately show ?thesis using w1(1) by blast
qed

lemma sent_request:
  assumes run: "runs M Map.empty v" and h: "data h = Some a" "identifiers_match (implementation_identifier h)" and d: "service_datas v a = Some d"
    and c: "connected v a" and room: "roomy v" and enc: "encodes (codec (env v)) (gid (srv_attachment d))"
  shows "\<exists>ret w bs ts. rmw_send_request (Some h) m (Some old) v = Inr (ret, Some (sequence_num (srv_attachment d)), w) \<and>
    trace w = ZGet (srv_topic_key d) (serialized_bytes (request_callback d) m) bs # trace v \<and>
    attachment_data_get (codec (env v)) bs zero_attachment =
      (True, (srv_attachment d)\<lparr>sequence_num := sequence_num (srv_attachment d) + 1, timestamp := ts\<rparr>) \<and>
    same_ends v w \<and> runs M Map.empty w"
proof -
  obtain n nd sp ss where o: "srv_node d = Some n" "node_datas v n = Some nd" "nd_session nd = Some sp" "sessions v sp = Some ss"
    using c d by (auto simp: connected_def returns_def deref_eq_Inr split: sum.splits)
  let ?a = "srv_attachment d" and ?ts = "fst (zenoh_pico_gen_timestamp v)"
  obtain bs where bs: "att_bytes (codec (env v)) (?a\<lparr>sequence_num := sequence_num ?a + 1, timestamp := ?ts\<rparr>) = Some bs"
    using enc by (rule encodes_bytes)
  have u: "srv_mutex d = Unlocked" using calm_srvD(2) [OF runs_calm [OF run] d] .
  have mem: "\<not> oom (env v) (next_addr v)" "bufs v (next_addr v) = None" using room runs_fresh [OF run] by (simp_all add: roomy_def)
  obtain ret w where s: "rmw_send_request (Some h) m (Some old) v = Inr (ret, Some (sequence_num ?a), w)"
    "trace w = ZGet (srv_topic_key d) (serialized_bytes (request_callback d) m) bs # trace v"
    using send_request_run [OF h d u o mem bs [folded next_attachment_def], of m old] by blast
  have "same_ends v w" "runs M Map.empty w"
    using send_request_becomes [OF run h(1) d c, of m old] s(1) by (simp_all add: becomes_def)
  moreover have "attachment_data_get (codec (env v)) bs zero_attachment = (True, ?a\<lparr>sequence_num := sequence_num ?a + 1, timestamp := ?ts\<rparr>)"
    using att_bytes_read [OF _ bs, of zero_attachment] enc by (simp add: encodes_def)
  ultimately show ?thesis using s by blast
qed

text \<open>
  C9: A call is answered. In any reachable states of a client's and a server's program, whose queues for one service are empty and
  which have memory, the same serialiser and the same type supports, a request that the client sends arrives as a query, is taken, is answered
  under the name that rmw_take_request gave, arrives as a reply to that very query and is taken. Then the server has taken
  exactly the request that was sent, the client exactly the response, with its own identifier, and all queues hold again what they held before. The
  response carries the number of the request's attachment, one more than the number the caller of rmw_send_request got.
\<close>

theorem request_is_answered:
  assumes "started v0" "reached v0 v" "letters_in v (RespQ c) = []" and "data ch = Some c" "identifiers_match (implementation_identifier ch)"
    and "service_datas v c = Some dc" "connected v c" "roomy v"
    and "started w0" "reached w0 w" "letters_in w (ReqQ s) = []" "letters_in w (RespQ s) = []"
    and "data sh = Some s" "topic_name sh = Some tn" "identifiers_match (implementation_identifier sh)"
    and "service_datas w s = Some ds" "roomy w" and "codec (env w) = codec (env v)"
    and "encodes (codec (env v)) (gid (srv_attachment dc))" "length (gid (srv_attachment dc)) = RMW_GID_STORAGE_SIZE"
    and "request_callback ds = request_callback dc" "response_callback ds = response_callback dc"
    and "cdr_ok (request_callback dc) m" "cdr_ok (response_callback dc) r"
    and "length (writer_guid hs) = RMW_GID_STORAGE_SIZE" "length (writer_guid hc) = RMW_GID_STORAGE_SIZE"
  shows "\<exists>ret v1 payload att w1 hs' w2 ret' w3 payload' att' v2 hc' v3.
    rmw_send_request (Some ch) m (Some old) v = Inr (ret, Some (sequence_num (srv_attachment dc)), v1) \<and> trace v1 = ZGet (srv_topic_key dc) payload att # trace v \<and>
    request_handler \<lparr>query_id = q, query_payload = payload, query_attachment = att, query_keyexpr = srv_topic_key dc\<rparr> (Some s) w = Inr ((), w1) \<and>
    rmw_take_request (Some sh) (Some hs) [] (Some False) w1 = Inr (RMW_RET_OK, Some hs', m, Some True, w2) \<and>
    rmw_send_response (Some sh) (Some (header_id hs')) (Some r) w2 = Inr (ret', w3) \<and>
    replies w3 = ZQueryReply q payload' att' # replies w \<and>
    reply_handler (Some \<lparr>sample_payload = payload', sample_attachment = att'\<rparr>) (Some c) v1 = Inr ((), v2) \<and>
    rmw_take_response (Some ch) (Some hc) [] (Some False) v2 = Inr (RMW_RET_OK, Some hc', r, Some True, v3) \<and>
    request_sequence_number hc' = sequence_num (srv_attachment dc) + 1 \<and> writer_guid hc' = gid (srv_attachment dc) \<and>
    letters_in v3 = letters_in v \<and> letters_in w3 = letters_in w"
proof -
  have rv: "runs (letters_in v) Map.empty v" and rw: "runs (letters_in w) Map.empty w"
    using reached_lasts(1) assms(1,2,9,10) by blast+
  obtain ret v1 bs ts where s: "rmw_send_request (Some ch) m (Some old) v = Inr (ret, Some (sequence_num (srv_attachment dc)), v1)"
    "trace v1 = ZGet (srv_topic_key dc) (serialized_bytes (request_callback dc) m) bs # trace v"
    "attachment_data_get (codec (env v)) bs zero_attachment =
      (True, (srv_attachment dc)\<lparr>sequence_num := sequence_num (srv_attachment dc) + 1, timestamp := ts\<rparr>)"
    "same_ends v v1" "runs (letters_in v) Map.empty v1"
    using sent_request [OF rv assms(4-8,19)] by blast
  let ?t = "(srv_attachment dc)\<lparr>sequence_num := sequence_num (srv_attachment dc) + 1, timestamp := ts\<rparr>"
  let ?q = "\<lparr>query_id = q, query_payload = serialized_bytes (request_callback dc) m, query_attachment = bs, query_keyexpr = srv_topic_key dc\<rparr>"
  have t: "attachment_data_get (codec (env w)) (query_attachment ?q) zero_attachment = (True, ?t)" "length (gid ?t) = RMW_GID_STORAGE_SIZE"
    "encodes (codec (env w)) (gid ?t)"
    using s(3) assms(18-20) by simp_all
  have pl: "ROS2_MSG_OFFSET \<le> length (query_payload ?q)"
    "cdr_deserialize (request_callback ds) (drop ROS2_MSG_OFFSET (query_payload ?q)) = (True, m)"
    using serialized_readable [OF assms(23)] assms(21) by simp_all
  obtain w1 hs' w2 ret' w3 ab ts' where a: "request_handler ?q (Some s) w = Inr ((), w1)"
    "rmw_take_request (Some sh) (Some hs) [] (Some False) w1 = Inr (RMW_RET_OK, Some hs', m, Some True, w2)"
    "rmw_send_response (Some sh) (Some (header_id hs')) (Some r) w2 = Inr (ret', w3)"
    "replies w3 = ZQueryReply q (serialized_bytes (response_callback ds) r) ab # replies w"
    "attachment_data_get (codec (env w)) ab zero_attachment = (True, ?t\<lparr>timestamp := ts'\<rparr>)" "runs (letters_in w) Map.empty w3"
    using server_answers [OF rw assms(11-17) t(1-3) assms(25) pl, of "[]" False r] by fastforce
  obtain d1 where d1: "service_datas v1 c = Some d1" "response_callback d1 = response_callback dc"
    using same_endsD(2) [OF s(4) assms(6)] by blast
  let ?s = "\<lparr>sample_payload = serialized_bytes (response_callback ds) r, sample_attachment = ab\<rparr>"
  have ev: "env v1 = env v" by (rule same_endsD(3) [OF s(4)])
  have u: "roomy v1" "attachment_data_get (codec (env v1)) (sample_attachment ?s) zero_attachment = (True, ?t\<lparr>timestamp := ts'\<rparr>)"
    "length (gid (?t\<lparr>timestamp := ts'\<rparr>)) = RMW_GID_STORAGE_SIZE"
    using assms(8,18,20) a(5) by (simp_all add: roomy_def ev)
  have pr: "ROS2_MSG_OFFSET \<le> length (sample_payload ?s)"
    "cdr_deserialize (response_callback d1) (drop ROS2_MSG_OFFSET (sample_payload ?s)) = (True, r)"
    using serialized_readable [OF assms(24)] assms(22) d1(2) by simp_all
  obtain v2 hc' v3 where b: "reply_handler (Some ?s) (Some c) v1 = Inr ((), v2)"
    "rmw_take_response (Some ch) (Some hc) [] (Some False) v2 = Inr (RMW_RET_OK, Some hc', r, Some True, v3)"
    "request_sequence_number hc' = sequence_num (srv_attachment dc) + 1" "writer_guid hc' = gid (srv_attachment dc)" "runs (letters_in v) Map.empty v3"
    using client_hears [OF s(5) assms(3-5) d1(1) u assms(26) pr, of "[]" False] by fastforce
  show ?thesis
    by (intro exI conjI, rule s(1), rule s(2), rule a(1), rule a(2), rule a(3), rule a(4), rule b(1), rule b(2), rule b(3), rule b(4),
        rule runs_letters_in [OF b(5)], rule runs_letters_in [OF a(6)])
qed

subsection \<open>An example\<close>

definition calling_client :: ZenohPicoServiceData where
  "calling_client = (echo_client recv_msg_list_init)\<lparr>srv_attachment := zero_attachment\<lparr>gid := replicate 16 9\<rparr>\<rparr>"

definition idle_client :: rmw_mem where
  "idle_client = (client_mem recv_msg_list_init)\<lparr>service_datas := [40 \<mapsto> calling_client]\<rparr>"

lemma idle_client_facts:
  "started idle_client" "env idle_client = small_env" "trace idle_client = []" "service_datas idle_client 40 = Some calling_client"
  "connected idle_client 40" "roomy idle_client"
proof -
  note defs = idle_client_def client_mem_def calling_client_def echo_client_def echo_server_def zero_service_data_def start_mem_def wait_mem.defs
    small_wait_mem_def
  have q: "queue_at idle_client q = Some l \<Longrightarrow> l = recv_msg_list_init" for q l
    by (cases q) (auto simp: defs split: if_splits)
  have "calm idle_client" by (auto simp: calm_def calm_srv_def mgr_ok_def zero_mgr_def waiter_ok_def defs split: if_splits)
  moreover have "fresh idle_client" by (auto simp: fresh_def idle_client_def client_mem_def)
  ultimately show "started idle_client" using q by (auto simp: started_def)
  show "env idle_client = small_env" "trace idle_client = []" "service_datas idle_client 40 = Some calling_client" "roomy idle_client"
    using client_facts(1) [of recv_msg_list_init] by (simp_all add: idle_client_def client_facts roomy_def)
  show "connected idle_client 40" by (simp add: connected_def defs zero_node_data_def)
qed

theorem request_is_answered_witness:
  "\<exists>ret v1 payload att hs' w1 w2 ret' w3 payload' att' hc' v2 v3.
    rmw_send_request (Some server_handle) [1, 2] (Some 0) idle_client = Inr (ret, Some 0, v1) \<and> trace v1 = [ZGet ''0/srv'' payload att] \<and>
    rmw_take_request (Some server_handle) (Some blank_header) [] (Some False) w1 = Inr (RMW_RET_OK, Some hs', [1, 2], Some True, w2) \<and>
    rmw_send_response (Some server_handle) (Some (header_id hs')) (Some [3]) w2 = Inr (ret', w3) \<and> replies w3 = [ZQueryReply 77 payload' att'] \<and>
    rmw_take_response (Some server_handle) (Some blank_header) [] (Some False) v2 = Inr (RMW_RET_OK, Some hc', [3], Some True, v3)"
proof -
  note c = idle_client_facts and s = idle_server_facts
  have q: "letters_in idle_client = (\<lambda>_. [])" "letters_in idle_server = (\<lambda>_. [])"
    using started_runs [OF c(1)] started_runs [OF s(1)] runs_letters_in by blast+
  have n: "srv_topic_key calling_client = ''0/srv''" "sequence_num (srv_attachment calling_client) = 0"
    by (simp_all add: calling_client_def echo_client_def echo_server_def zero_attachment_def)
  have g: "encodes (codec (env idle_client)) (gid (srv_attachment calling_client))" "length (gid (srv_attachment calling_client)) = RMW_GID_STORAGE_SIZE"
    unfolding c(2) by (rule small_encodes) (simp_all add: calling_client_def RMW_GID_STORAGE_SIZE_def)
  have e: "codec (env idle_server) = codec (env idle_client)" "roomy idle_server" "replies idle_server = []"
    using server_facts(4) by (simp_all add: s(2) c(2) idle_server_def server_facts)
  let ?srv = "echo_server recv_msg_list_init recv_msg_list_init"
  have cb: "request_callback ?srv = request_callback calling_client" "response_callback ?srv = response_callback calling_client"
    "cdr_ok (request_callback calling_client) m" "cdr_ok (response_callback calling_client) m" for m
    by (simp_all add: calling_client_def echo_client_def echo_server_def echo_cdr_ok)
  have l: "letters_in idle_client (RespQ 40) = []" "letters_in idle_server (ReqQ 40) = []" "letters_in idle_server (RespQ 40) = []"
    by (simp_all add: q)
  have b: "length (writer_guid blank_header) = RMW_GID_STORAGE_SIZE" by (simp add: blank_header_def RMW_GID_STORAGE_SIZE_def)
  have r: "reached idle_client idle_client" "reached idle_server idle_server" by (rule reached.start)+
  note request_is_answered [where old = 0 and q = 77, OF c(1) r(1) l(1) server_facts(1,3) c(4-6) s(1) r(2) l(2,3) server_facts(1-3) s(3) e(2,1)
    g cb(1,2) cb(3) [of "[1, 2]"] cb(4) [of "[3]"] b b]
  then show ?thesis unfolding n c(3) e(3) add_0 q
    by (elim exE conjE) (intro exI conjI, assumption+)
qed

end
