(* ===== verification/Publisher_Life.thy ===== *)
theory Publisher_Life
  imports Identity
begin

section \<open>A publisher's life\<close>

text \<open>
  \<open>rmw_create_publisher\<close> and \<open>rmw_destroy_publisher\<close> with the messages published in between, and what happens when memory runs
  out while a publisher is created.
\<close>

definition pub_data_of ::
  "rmw_mem \<Rightarrow> addr \<Rightarrow> rosidl_message_type_support_t \<Rightarrow> rmw_qos_profile_t \<Rightarrow> string \<Rightarrow> string \<Rightarrow> ZenohPicoPubData" where
  "pub_data_of w nd ts qos key tkey = zero_pub_data\<lparr>ref := 1, pub_id := next_entity_id w, pub_liveliness_key := key,
     pub_topic_key := tkey, pub_node := Some nd, pub_entity := Some (Suc (next_addr w)), pub_qos_profile := qos,
     pub_callbacks := ts_data ts, pub_attachment := zero_attachment\<lparr>gid := gid_of (env w) tkey, sequence_num := 0\<rparr>\<rparr>"

definition made_pub ::
  "nat \<Rightarrow> addr \<Rightarrow> ZenohPicoNodeInfo \<Rightarrow> string \<Rightarrow> string \<Rightarrow> string \<Rightarrow> ZenohPicoPubData \<Rightarrow> rmw_mem \<Rightarrow> rmw_mem" where
  "made_pub nid ni i topic tname hash pd w = (with_topic_entity (info_zid (env w)) nid Publisher (Some ni) topic tname hash w)
     \<lparr>node_infos := (node_infos w)(ni \<mapsto> i\<lparr>ref := ref i + 1\<rparr>), next_addr := next_addr w + 3,
      pub_datas := (pub_datas w)(next_addr w + 2 \<mapsto> pd)\<rparr>"

lemma made_pub_facts:
  "env (made_pub nid ni i topic tname hash pd w) = env w" "trace (made_pub nid ni i topic tname hash pd w) = trace w"
  "next_addr (made_pub nid ni i topic tname hash pd w) = next_addr w + 3" "bufs (made_pub nid ni i topic tname hash pd w) = bufs w"
  "node_datas (made_pub nid ni i topic tname hash pd w) = node_datas w" "sessions (made_pub nid ni i topic tname hash pd w) = sessions w"
  "pub_datas (made_pub nid ni i topic tname hash pd w) = (pub_datas w)(next_addr w + 2 \<mapsto> pd)"
  "entities (made_pub nid ni i topic tname hash pd w) = (entities w)(Suc (next_addr w) \<mapsto> endpoint_entity w nid Publisher ni)"
  "topic_infos (made_pub nid ni i topic tname hash pd w) = (topic_infos w)(next_addr w \<mapsto> topic_info_of topic tname hash)"
  "node_infos (made_pub nid ni i topic tname hash pd w) = (node_infos w)(ni \<mapsto> i\<lparr>ref := ref i + 1\<rparr>)"
  by (simp_all add: made_pub_def with_topic_entity_def endpoint_entity_def)

lemma generate_publisher_data_roomy:
  assumes n: "open_node w n nd d ea e ni i" and r: "roomy w" "len_ok w"
    and t: "convert_hash (\<lambda>_. True) (ts_hash ts) = Inr (Some hash)" "convert_message_type (\<lambda>_. True) (ts_data ts) = Inr (Some tname)"
    and k: "ros_topic_name_to_zenoh_key (lineness_len (env w)) (\<lambda>_. True) (ni_domain i) (cstr topic) tname hash = Inr (Some tkey)"
  defines "key \<equiv> endpoint_key w (nd_id d) Publisher ni i (topic_info_of topic tname hash)"
  shows "zenoh_pico_generate_publisher_data (Some nd) topic ts qos w =
    Inr (Some (next_addr w + 2), made_pub (nd_id d) ni i topic tname hash (pub_data_of w nd ts qos key tkey) w)"
proof -
  let ?w1 = "w\<lparr>node_infos := (node_infos w)(ni \<mapsto> i\<lparr>ref := ref i + 1\<rparr>)\<rparr>"
  let ?w2 = "with_topic_entity (info_zid (env w)) (nd_id d) Publisher (Some ni) topic tname hash ?w1"
  let ?e = "endpoint_entity w (nd_id d) Publisher ni" and ?ti = "topic_info_of topic tname hash"
  obtain s where o: "node_datas w nd = Some d" "deref (sessions w) (nd_session d) = Inr s" "nd_entity d = Some ea" "entities w ea = Some e"
    "node_info e = Some ni" "live (node_infos w) ni i"
    using n by (auto simp: open_node_def live_def)
  have c: "clone_node_info (Some nd) w = Inr (d, Some ni, ?w1)" by (rule clone_node_info_live [OF o])
  have g: "zenoh_pico_generate_publisher_entity (info_zid (env w)) (nd_id d) (Some ni) topic ts qos ?w1 =
      Inr (Some (Suc (next_addr w)), ?w2)"
    using generate_topic_entity_roomy [of ?w1, OF _ t] r(1) by (simp add: zenoh_pico_generate_publisher_entity_def)
  have f: "roomy ?w2" "env ?w2 = env w" "next_addr ?w2 = Suc (Suc (next_addr w))" "pub_datas ?w2 = pub_datas w"
    "entities ?w2 (Suc (next_addr w)) = Some ?e" "node_infos ?w2 ni = Some (i\<lparr>ref := ref i + 1\<rparr>)" "topic_infos ?w2 (next_addr w) = Some ?ti"
    using r(1) by (simp_all add: with_topic_entity_def roomy_def endpoint_entity_def)
  have e: "node_info ?e = Some ni" "topic_info ?e = Some (next_addr w)" "ent_id ?e = next_entity_id w"
    by (simp_all add: endpoint_entity_def entity_of_def)
  have key: "generate_liveliness (lineness_len (env w)) (copy_ok (env w)) v ?e = Inr (Some key)"
    if "env v = env w" "node_infos v = node_infos ?w2" "topic_infos v = topic_infos ?w2" for v :: rmw_mem
    using generate_key [of v ?e "i\<lparr>ref := ref i + 1\<rparr>" "Some ?ti"] that r f
    by (simp add: e roomy_def len_ok_def topic_of_def key_def endpoint_key_def key_of_def)
  have tk: "endpoint_topic_key (Some ni) (Some (next_addr w)) v = Inr (Some tkey)"
    if "env v = env w" "node_infos v = node_infos ?w2" "topic_infos v = topic_infos ?w2" for v
    using k that f r(1) by (simp add: endpoint_topic_key_def topic_info_of_def roomy_copy)
  show ?thesis
    by (simp add: zenoh_pico_generate_publisher_data_def c g roomy_generate [OF f(1)] data_obj_init_def f e key tk Let_def)
      (simp add: made_pub_def with_topic_entity_def pub_data_of_def zero_pub_data_def gen_gid_eq)
qed

definition pub_handle :: "rmw_mem \<Rightarrow> rmw_publisher_t" where
  "pub_handle w = \<lparr>hdl = next_addr w + 3, implementation_identifier = Some rmw_get_implementation_identifier,
     data = Some (next_addr w + 2), topic_name = Some (next_addr w + 4)\<rparr>"

definition declared_pub :: "ZenohPicoPubData \<Rightarrow> ZenohPicoPubData" where
  "declared_pub pd = pd\<lparr>pub_event_mgr := cleared_mgr (pub_event_mgr pd), pub_topic := Some (pub_topic_key pd),
     pub_liveliness := Some (pub_liveliness_key pd)\<rparr>"

lemma create_publisher_run:
  assumes n: "open_node w n nd d ea e ni i" and r: "topic_args_ok w topic qos"
    and t: "convert_hash (\<lambda>_. True) (ts_hash ts) = Inr (Some hash)" "convert_message_type (\<lambda>_. True) (ts_data ts) = Inr (Some tname)"
    and k: "ros_topic_name_to_zenoh_key (lineness_len (env w)) (\<lambda>_. True) (ni_domain i) (cstr topic) tname hash = Inr (Some tkey)"
  defines "key \<equiv> endpoint_key w (nd_id d) Publisher ni i (topic_info_of topic tname hash)"
  defines "dcl \<equiv> ZDeclarePublisher tkey (blocking_congestion qos)"
  assumes z: "zok (env w) (trace w) dcl" "zok (env w) (dcl # trace w) (ZDeclareToken key)"
  defines "w1 \<equiv> made_pub (nd_id d) ni i topic tname hash (declared_pub (pub_data_of w nd ts qos key tkey)) w"
  shows "rmw_create_publisher (Some n) (Some (Some ts)) (Some topic) (Some qos) (Some False) w =
    Inr (Some (pub_handle w), w1\<lparr>next_addr := next_addr w + 5, node_datas := (node_datas w)(nd \<mapsto> d\<lparr>ref := ref d + 1\<rparr>),
      bufs := (bufs w)(next_addr w + 3 \<mapsto> [], next_addr w + 4 \<mapsto> bytes_of (cstr topic) @ [0]),
      trace := ZDeclareToken key # dcl # trace w\<rparr>)"
proof -
  let ?v = "w\<lparr>node_datas := (node_datas w)(nd \<mapsto> d\<lparr>ref := ref d + 1\<rparr>)\<rparr>"
  let ?pd = "pub_data_of w nd ts qos key tkey"
  let ?m = "made_pub (nd_id d) ni i topic tname hash ?pd ?v"
  obtain x where x: "context_impl n w = Inr (Some x)" using context_impl_open [OF n] by blast
  have o: "data n = Some nd" "live (node_datas w) nd d" "\<exists>s. deref (sessions w) (nd_session d) = Inr s" "identifiers_match (implementation_identifier n)"
    using n by (auto simp: open_node_def)
  have a: "cstr topic \<noteq> []" "avoid_ros_namespace_conventions qos \<or> valid_topic (env w) topic" "roomy w" "len_ok w"
    "status_fits (layout (env w))" using r by (simp_all add: topic_args_ok_def)
  have ov: "open_node ?v n nd (d\<lparr>ref := ref d + 1\<rparr>) ea e ni i"
    using n by (auto simp: open_node_def live_def)
  have kv: "endpoint_key ?v = endpoint_key w" "pub_data_of ?v = pub_data_of w"
    by (simp_all add: fun_eq_iff endpoint_key_def endpoint_entity_def pub_data_of_def)
  have g: "zenoh_pico_generate_publisher_data (Some nd) topic ts qos ?v = Inr (Some (next_addr w + 2), ?m)"
    using generate_publisher_data_roomy [OF ov _ _ t, of topic tkey qos] a(3,4) k by (simp add: kv key_def len_ok_def)
  have rm: "roomy ?m" "roomy (?m\<lparr>next_addr := p, bufs := b\<rparr>)" for p b using a(3) by (simp_all add: roomy_def made_pub_facts)
  have s: "pub_entity ?pd = Some (Suc (next_addr w))" "pub_node ?pd = Some nd" "pub_topic_key ?pd = tkey" "pub_liveliness_key ?pd = key"
    "pub_qos_profile ?pd = qos" "data_callback_init (layout (env w)) (pub_event_mgr ?pd) = Inr (cleared_mgr (pub_event_mgr ?pd))"
    "topic_info (endpoint_entity w nid type ni) = Some (next_addr w)" for nid type
    using a(5) by (simp_all add: pub_data_of_def endpoint_entity_def entity_of_def zero_pub_data_def zero_mgr_def data_callback_init_run)
  have e: "endpoint_entity ?v = endpoint_entity w" by (simp add: fun_eq_iff endpoint_entity_def)
  let ?b = "?m\<lparr>next_addr := next_addr w + 5, bufs := (bufs w)(next_addr w + 3 \<mapsto> [], next_addr w + 4 \<mapsto> bytes_of (cstr topic) @ [0])\<rparr>"
  have c: "zenoh_pico_string_clone (cstr topic) (?m\<lparr>next_addr := Suc (next_addr w + 3), bufs := (bufs w)(next_addr w + 3 \<mapsto> [])\<rparr>) =
      Inr (Some (next_addr w + 4), ?b)"
    using string_clone_roomy [OF rm(2), of "cstr topic"] by (simp add: eval_nat_numeral)
  let ?pe = "?pd\<lparr>pub_event_mgr := cleared_mgr (pub_event_mgr ?pd)\<rparr>"
  let ?b2 = "?b\<lparr>pub_datas := (pub_datas w)(next_addr w + 2 \<mapsto> ?pe)\<rparr>"
  have dd: "declaration_publisher_data (Some (next_addr w + 2)) ?b2 =
      Inr (True, ?b2\<lparr>trace := ZDeclareToken key # dcl # trace w, pub_datas := (pub_datas w)(next_addr w + 2 \<mapsto> declared_pub ?pd)\<rparr>)"
    using o(3) z by (auto simp: declaration_publisher_data_def made_pub_facts s zcall_def declaration_liveliness_def declared_pub_def dcl_def)
  have "rmw_create_publisher (Some n) (Some (Some ts)) (Some topic) (Some qos) (Some False) w =
    Inr (Some (pub_handle w), ?b2\<lparr>trace := ZDeclareToken key # dcl # trace w,
        pub_datas := (pub_datas w)(next_addr w + 2 \<mapsto> declared_pub ?pd)\<rparr>)"
    using x o(1,4) a(1,2) RefClone_live [OF o(2)] g rm(1) c dd
    by (simp add: rmw_create_publisher_def rmw_zenoh_pico_check_validate_name_def made_pub_facts buf_put_def s e topic_info_of_def
        pub_handle_def)
  then show ?thesis by (simp add: w1_def made_pub_def with_topic_entity_def entity_of_def)
qed

text \<open>The last release of an undeclared publisher on a node that others use too.\<close>

lemma destroy_pub_data_last:
  assumes s: "live (pub_datas w) s d" "ref d = 1" "pub_topic d = None" "pub_liveliness d = None"
    and n: "pub_node d = Some nd" "live (node_datas w) nd nn" "ref nn \<noteq> 1"
    and e: "pub_entity d = Some ea" "live (entities w) ea e" "ref e = 1" "node_info e = Some ni" "live (node_infos w) ni i"
      "topic_info e = Some ti" "live (topic_infos w) ti t"
  shows "zenoh_pico_destroy_publisher_data (Some s) w = Inr (True, w\<lparr>pub_datas := (pub_datas w)(s := None),
    node_datas := (node_datas w)(nd \<mapsto> nn\<lparr>ref := ref nn - 1\<rparr>), entities := (entities w)(ea := None),
    node_infos := drop_ref (node_infos w) ni, topic_infos := drop_ref (topic_infos w) ti\<rparr>)"
proof -
  let ?v = "w\<lparr>pub_datas := (pub_datas w)(s \<mapsto> d\<lparr>ref := 0\<rparr>)\<rparr>"
  have sd: "d\<lparr>ref := 0, pub_topic := None, pub_liveliness := None\<rparr> = d\<lparr>ref := 0\<rparr>" using s(3,4) by (cases d) simp
  have u: "undeclaration_publisher_data (Some s) ?v = Inr (True, ?v)"
    using s(3,4) by (simp add: undeclaration_publisher_data_def sd)
  have r: "ZenohPicoDataRelease (pub_datas w) (Some s) = Inr (True, pub_datas ?v)"
    using Release_live [OF s(1)] s(2) by simp
  let ?v3 = "?v\<lparr>node_datas := (node_datas w)(nd \<mapsto> nn\<lparr>ref := ref nn - 1\<rparr>)\<rparr>"
  have 1: "zenoh_pico_destroy_node_data (Some nd) ?v = Inr (True, ?v3)"
    using destroy_node_data_shared [of ?v nd nn] n(2,3) by simp
  let ?v4 = "?v3\<lparr>entities := (entities w)(ea := None), node_infos := drop_ref (node_infos w) ni, topic_infos := drop_ref (topic_infos w) ti\<rparr>"
  have 2: "zenoh_pico_destroy_entity (Some ea) ?v3 = Inr (True, ?v4)"
    using destroy_entity_last [of ?v3 ea e ni i ti t] e by simp
  show ?thesis
    using u 1 2 n(1) e(1) r by (simp add: zenoh_pico_destroy_publisher_data_def Let_def)
qed

lemma publisher_data_gone:
  assumes w: "rmw_ok w" "live (node_datas w) nd d" "live (node_infos w) ni i" "ref d \<noteq> 0" "0 < ref i"
    and u: "entities u = (entities w)(Suc (next_addr w) \<mapsto> endpoint_entity w (nd_id d) Publisher ni)"
      "topic_infos u = (topic_infos w)(next_addr w \<mapsto> topic_info_of topic tname hash)" "node_infos u = (node_infos w)(ni \<mapsto> i\<lparr>ref := ref i + 1\<rparr>)"
      "node_datas u = (node_datas w)(nd \<mapsto> d\<lparr>ref := ref d + 1\<rparr>)" "pub_datas u = (pub_datas w)(next_addr w + 2 \<mapsto> pd)"
    and pd: "pub_node pd = Some nd" "pub_entity pd = Some (Suc (next_addr w))" "ref pd = 1" "lock pd = Unlocked" "pub_topic pd = None" "pub_liveliness pd = None"
  shows "zenoh_pico_destroy_publisher_data (Some (next_addr w + 2)) u = Inr (True, u\<lparr>pub_datas := pub_datas w, node_datas := node_datas w,
    entities := entities w, node_infos := node_infos w, topic_infos := topic_infos w\<rparr>)"
proof -
  have "zenoh_pico_destroy_publisher_data (Some (next_addr w + 2)) u = Inr (True, u\<lparr>pub_datas := (pub_datas u)(next_addr w + 2 := None),
    node_datas := (node_datas u)(nd \<mapsto> (d\<lparr>ref := ref d + 1\<rparr>)\<lparr>ref := ref (d\<lparr>ref := ref d + 1\<rparr>) - 1\<rparr>),
    entities := (entities u)(Suc (next_addr w) := None), node_infos := drop_ref (node_infos u) ni, topic_infos := drop_ref (topic_infos u) (next_addr w)\<rparr>)"
    by (rule destroy_pub_data_last [of _ _ pd nd "d\<lparr>ref := ref d + 1\<rparr>" "Suc (next_addr w)" "endpoint_entity w (nd_id d) Publisher ni" ni
          "i\<lparr>ref := ref i + 1\<rparr>" "next_addr w" "topic_info_of topic tname hash"])
      (use w(2-4) in \<open>simp_all add: u pd live_def endpoint_entity_def entity_of_def topic_info_of_def\<close>)
  moreover have "(pub_datas u)(next_addr w + 2 := None) = pub_datas w"
    using rmw_ok_fresh [OF w(1)] rmw_ok_fresh_numeral [OF w(1)] by (simp add: u fun_upd_idem)
  ultimately show ?thesis using heaps_restored [OF w(1-3,5) u(1-4)] by simp
qed

text \<open>
  C25: A publisher's life. On a live node with an open session, with memory, valid names and zenoh's consent, rmw_create_publisher declares
  a publisher on the topic key and then a liveliness token; the messages published with its handle are put on this key with the
  numbers 1, 2, 3 and so on and the identifier made from the key; rmw_destroy_publisher then undeclares both and answers OK. Afterwards
  every heap is as it was before, whatever was published: only counters and clock have moved.
\<close>

theorem publisher_roundtrip:
  assumes "open_node w n nd d ea e ni i" "ref d \<noteq> 0" "0 < ref i" and "topic_args_ok w topic qos" and "rmw_ok w"
    and "convert_hash (\<lambda>_. True) (ts_hash ts) = Inr (Some hash)" "convert_message_type (\<lambda>_. True) (ts_data ts) = Inr (Some tname)"
    and "ros_topic_name_to_zenoh_key (lineness_len (env w)) (\<lambda>_. True) (ni_domain i) (cstr topic) tname hash = Inr (Some tkey)"
    and "key = endpoint_key w (nd_id d) Publisher ni i (topic_info_of topic tname hash)"
    and "zok (env w) (trace w) (ZDeclarePublisher tkey (blocking_congestion qos))"
    and "zok (env w) (ZDeclarePublisher tkey (blocking_congestion qos) # trace w) (ZDeclareToken key)"
    and "encodes (codec (env w)) (gid_of (env w) tkey)"
  shows "\<exists>h w' bss w'' k t. rmw_create_publisher (Some n) (Some (Some ts)) (Some topic) (Some qos) (Some False) w = Inr (Some h, w') \<and>
    trace w' = [ZDeclareToken key, ZDeclarePublisher tkey (blocking_congestion qos)] @ trace w \<and>
    publish_all h ms w' = Inr w'' \<and> length bss = length ms \<and>
    trace w'' = rev (map (put_of tkey (ts_data ts)) (zip ms bss)) @ trace w' \<and>
    map (read_number (codec (env w))) bss = map (\<lambda>i. (True, of_nat (Suc i), gid_of (env w) tkey)) [0..<length ms] \<and>
    rmw_destroy_publisher (Some n) (Some h) w'' = Inr (RMW_RET_OK, w\<lparr>next_addr := k, ticks := t,
      next_entity_id := (next_entity_id w + 1) mod 2 ^ 64, trace := [ZUndeclare key, ZUndeclare tkey] @ trace w''\<rparr>)"
proof -
  let ?n = "next_addr w" and ?pd = "declared_pub (pub_data_of w nd ts qos key tkey)"
  let ?m = "made_pub (nd_id d) ni i topic tname hash ?pd w" and ?dcl = "ZDeclarePublisher tkey (blocking_congestion qos)"
  define w' where w': "w' = ?m\<lparr>next_addr := ?n + 5, node_datas := (node_datas w)(nd \<mapsto> d\<lparr>ref := ref d + 1\<rparr>),
      bufs := (bufs w)(?n + 3 \<mapsto> [], ?n + 4 \<mapsto> bytes_of (cstr topic) @ [0]), trace := ZDeclareToken key # ?dcl # trace w\<rparr>"
  have c: "rmw_create_publisher (Some n) (Some (Some ts)) (Some topic) (Some qos) (Some False) w = Inr (Some (pub_handle w), w')"
    unfolding w' using create_publisher_run [OF assms(1,4,6-8)] assms(9-11) by simp
  note fresh = rmw_ok_fresh [OF assms(5)]
  have f: "env w' = env w" "next_addr w' = ?n + 5" "pub_datas w' (?n + 2) = Some ?pd" "roomy w'"
    "trace w' = [ZDeclareToken key, ?dcl] @ trace w"
    using assms(4) by (simp_all add: w' made_pub_facts topic_args_ok_def roomy_def)
  have b: "bufs w' k = None" if "next_addr w' \<le> k" for k
    using fresh(1) [of k] that unfolding f(2) by (simp add: w')
  have pd: "pub_mutex ?pd = Unlocked" "pub_topic ?pd = Some tkey" "pub_liveliness ?pd = Some key" "gid (pub_attachment ?pd) = gid_of (env w) tkey"
    "sequence_num (pub_attachment ?pd) = 0" "pub_callbacks ?pd = ts_data ts" "ref ?pd = 1" "lock ?pd = Unlocked" "pub_node ?pd = Some nd"
    "pub_entity ?pd = Some (Suc ?n)"
    by (simp_all add: declared_pub_def pub_data_of_def zero_pub_data_def)
  have h: "data (pub_handle w) = Some (?n + 2)" "identifiers_match (implementation_identifier (pub_handle w))"
    by (simp_all add: pub_handle_def identifiers_match_def)
  have enc: "encodes (codec (env w')) (gid (pub_attachment ?pd))" using assms(12) by (simp only: f(1) pd(4))
  obtain w'' bss k t x where p: "publish_all (pub_handle w) ms w' = Inr w''" "length bss = length ms"
    "trace w'' = rev (map (put_of tkey (ts_data ts)) (zip ms bss)) @ trace w'"
    "map (read_number (codec (env w))) bss = map (\<lambda>i. (True, of_nat (Suc i), gid_of (env w) tkey)) [0..<length ms]"
    "w'' = w'\<lparr>next_addr := k, ticks := t, trace := trace w'', pub_datas := (pub_datas w')(?n + 2 \<mapsto> ?pd\<lparr>pub_attachment := x\<rparr>)\<rparr>"
    using publish_all_run [OF h f(3) pd(1,2) enc f(4) b, of ms] unfolding pd(4-6) f(1) add_0 by blast
  obtain T where T: "trace w'' = T" by blast
  define pd where pd': "pd = ?pd\<lparr>pub_attachment := x, pub_topic := None, pub_liveliness := None\<rparr>"
  define u where u': "u = w'\<lparr>next_addr := k, ticks := t, trace := [ZUndeclare key, ZUndeclare tkey] @ T, pub_datas := (pub_datas w')(?n + 2 \<mapsto> pd)\<rparr>"
  have un: "undeclaration_publisher_data (Some (?n + 2)) w'' = Inr (True, u)"
    using pd(2,3) by (subst p(5)) (simp add: T undeclaration_publisher_data_def u' pd' znote_def)
  have l: "live (node_datas w) nd d" "live (node_infos w) ni i" "identifiers_match (implementation_identifier n)"
    using assms(1) by (simp_all add: open_node_def)
  have ent: "entities u = (entities w)(Suc ?n \<mapsto> endpoint_entity w (nd_id d) Publisher ni)"
    "topic_infos u = (topic_infos w)(?n \<mapsto> topic_info_of topic tname hash)"
    "node_infos u = (node_infos w)(ni \<mapsto> i\<lparr>ref := ref i + 1\<rparr>)" "pub_datas u = (pub_datas w)(?n + 2 \<mapsto> pd)"
    "node_datas u = (node_datas w)(nd \<mapsto> d\<lparr>ref := ref d + 1\<rparr>)"
    by (simp_all add: u' w' made_pub_facts)
  have "pub_node pd = Some nd" "pub_entity pd = Some (Suc ?n)" "ref pd = 1" "lock pd = Unlocked" "pub_topic pd = None" "pub_liveliness pd = None"
    by (simp_all add: pd' pd)
  note de = publisher_data_gone [OF assms(5) l(1,2) assms(2,3) ent(1-3,5,4) this] and bu = handle_buffers_freed [OF assms(5)]
  have gone: "rmw_destroy_publisher (Some n) (Some (pub_handle w)) w'' = Inr (RMW_RET_OK, w\<lparr>next_addr := k, ticks := t,
      next_entity_id := (next_entity_id w + 1) mod 2 ^ 64, trace := [ZUndeclare key, ZUndeclare tkey] @ T\<rparr>)"
    using un de l(3) bu
    by (simp add: rmw_destroy_publisher_def pub_handle_def identifiers_match_def [of "Some _"] z_free_def)
      (simp add: u' w' made_pub_def with_topic_entity_def)
  show ?thesis
    by (intro exI conjI, rule c, rule f(5), rule p(1), rule p(2), rule p(3), rule p(4), rule gone [folded T])
qed

lemma life_topic_key:
  assumes h: "z_text hash" "length hash = 71"
  shows "ros_topic_name_to_zenoh_key (lineness_len (env life_mem)) (\<lambda>_. True) (ni_domain life_info) (cstr ''/chatter'')
      ''example_interfaces::srv::dds_::AddTwoInts_Request_'' hash =
    Inr (Some (topic_key_text ''42'' (cstr ''/chatter'') ''example_interfaces::srv::dds_::AddTwoInts_Request_'' hash))"
  using h topic_key_fits [of "''42''" "cstr ''/chatter''" "''example_interfaces::srv::dds_::AddTwoInts_Request_''" hash 256]
  by (simp add: small_env_def life_info_def cstr_def NUL_def topic_key_text_def key_front_def name_part_def z_text_def)

lemma life_types:
  "convert_message_type (\<lambda>_. True) (ts_data example_type_support) = Inr (Some ''example_interfaces::srv::dds_::AddTwoInts_Request_'')"
  "\<exists>hash. convert_hash (\<lambda>_. True) (ts_hash example_type_support) = Inr (Some hash) \<and> z_text hash \<and> length hash = 71"
  using example_type_name hash_text [of "replicate 32 0xAB"]
  by (auto simp: example_type_support_def ROSIDL_TYPE_HASH_SIZE_def)

theorem publisher_roundtrip_witness:
  "\<exists>h w' w'' v. rmw_create_publisher (Some life_node) (Some (Some example_type_support)) (Some ''/chatter'') (Some zero_qos) (Some False)
      life_mem = Inr (Some h, w') \<and> length (trace w') = 2 \<and> publish_all h [[1], [2, 3]] w' = Inr w'' \<and> length (trace w'') = 4 \<and>
    rmw_destroy_publisher (Some life_node) (Some h) w'' = Inr (RMW_RET_OK, v) \<and> pub_datas v = pub_datas life_mem \<and>
    entities v = entities life_mem \<and> bufs v = bufs life_mem \<and> length (trace v) = 6"
proof -
  obtain hash where h: "convert_hash (\<lambda>_. True) (ts_hash example_type_support) = Inr (Some hash)" "z_text hash" "length hash = 71"
    using life_types(2) by blast
  note k = life_topic_key [OF h(2,3)]
  have r: "ref life_data \<noteq> 0" "0 < ref life_info" by (simp_all add: life_data_def life_info_def)
  have z: "zok (env life_mem) t c" for t c by (simp add: small_env_def)
  have e: "encodes (codec (env life_mem)) (gid_of (env life_mem) g)" for g by (simp add: small_encodes gid_of_def Let_def)
  show ?thesis
    using publisher_roundtrip [OF life_open_node r life_topic_args life_mem_ok h(1) life_types(1) k refl z z e, of "[[1], [2, 3]]"]
    apply (elim exE conjE)
    by (intro exI conjI, assumption, simp, assumption, simp, assumption) simp_all
qed

subsection \<open>Memory runs out\<close>

text \<open>
  The error path of creating a publisher. When memory runs out before the publisher's data exists, that is when the allocation of its topic
  description, of its entity or of the data itself fails, rmw_create_publisher jumps over the declaration of topic_info and its clean-up reads
  this variable, which has no value.
\<close>

theorem publisher_alloc_failures:
  assumes "open_node w n nd d ea e ni i" and "cstr topic \<noteq> []" "avoid_ros_namespace_conventions qos \<or> valid_topic (env w) topic"
    and "\<And>s. copy_ok (env w) s" and "convert_hash (\<lambda>_. True) (ts_hash ts) = Inr (Some hash)"
    and "convert_message_type (\<lambda>_. True) (ts_data ts) = Inr (Some tname)"
    and "k \<in> {0, 1, 2}" "oom (env w) (next_addr w + k)" "\<And>j. j < k \<Longrightarrow> \<not> oom (env w) (next_addr w + j)"
  shows "rmw_create_publisher (Some n) (Some (Some ts)) (Some topic) (Some qos) (Some False) w = Inl Uninitialised"
proof -
  let ?v = "w\<lparr>node_datas := (node_datas w)(nd \<mapsto> d\<lparr>ref := ref d + 1\<rparr>), node_infos := (node_infos w)(ni \<mapsto> i\<lparr>ref := ref i + 1\<rparr>)\<rparr>"
  obtain x where x: "context_impl n w = Inr (Some x)" using context_impl_open [OF assms(1)] by blast
  have o: "data n = Some nd" "live (node_datas w) nd d" "identifiers_match (implementation_identifier n)"
    using assms(1) by (auto simp: open_node_def)
  obtain s where "deref (sessions w) (nd_session d) = Inr s" "nd_entity d = Some ea" "entities w ea = Some e"
    "node_info e = Some ni" "live (node_infos w) ni i"
    using assms(1) by (auto simp: open_node_def live_def)
  then have c: "clone_node_info (Some nd) (w\<lparr>node_datas := (node_datas w)(nd \<mapsto> d\<lparr>ref := ref d + 1\<rparr>)\<rparr>) = Inr (d\<lparr>ref := ref d + 1\<rparr>, Some ni, ?v)"
    using clone_node_info_live [of "w\<lparr>node_datas := (node_datas w)(nd \<mapsto> d\<lparr>ref := ref d + 1\<rparr>)\<rparr>" nd "d\<lparr>ref := ref d + 1\<rparr>"] by simp
  have cp: "copy_ok (env w) = (\<lambda>_. True)" using assms(4) by auto
  have g: "zenoh_pico_generate_publisher_data (Some nd) topic ts qos (w\<lparr>node_datas := (node_datas w)(nd \<mapsto> d\<lparr>ref := ref d + 1\<rparr>)\<rparr>)
      = Inl Uninitialised"
  proof (cases "k = 0")
    case True
    then show ?thesis using assms(8)
      by (simp add: zenoh_pico_generate_publisher_data_def c zenoh_pico_generate_publisher_entity_def zenoh_pico_generate_topic_entity_def cp
          assms(5,6) zenoh_pico_generate_topic_info_def ZenohPicoDataGenerate_def z_malloc_def pub_error_def)
  next
    case False
    then have k: "k = 1 \<or> k = 2" "\<not> oom (env w) (next_addr w)" using assms(7) assms(9) [of 0] by auto
    let ?v1 = "?v\<lparr>next_addr := Suc (next_addr w), topic_infos := (topic_infos w)(next_addr w \<mapsto> topic_info_of topic tname hash)\<rparr>"
    have t: "zenoh_pico_generate_topic_info topic qos tname hash ?v = Inr (Some (next_addr w), ?v1)"
      using k(2) by (simp add: zenoh_pico_generate_topic_info_def ZenohPicoDataGenerate_def z_malloc_def cp test_qos_keyexpr topic_info_of_def
          data_obj_init_def zero_topic_info_def z_string_copy_from_str_def z_string_clone_def)
    show ?thesis
    proof (cases "k = 1")
      case True
      then show ?thesis using assms(8) t
        by (simp add: zenoh_pico_generate_publisher_data_def c zenoh_pico_generate_publisher_entity_def zenoh_pico_generate_topic_entity_def cp
            assms(5,6) zenoh_pico_generate_entity_def ZenohPicoDataGenerate_def z_malloc_def pub_error_def)
    next
      case False
      then have "k = 2" "\<not> oom (env w) (Suc (next_addr w))" using k assms(9) [of 1] by auto
      then show ?thesis using assms(8) t
        by (simp add: zenoh_pico_generate_publisher_data_def c zenoh_pico_generate_publisher_entity_def zenoh_pico_generate_topic_entity_def cp
            assms(5,6) zenoh_pico_generate_entity_def ZenohPicoDataGenerate_def z_malloc_def pub_error_def zenoh_pico_get_next_entity_id_def)
    qed
  qed
  show ?thesis using x o(1,3) assms(2,3) RefClone_live [OF o(2)] g
    by (simp add: rmw_create_publisher_def rmw_zenoh_pico_check_validate_name_def)
qed

definition starved_mem :: rmw_mem where
  "starved_mem = life_mem\<lparr>env := small_env\<lparr>oom := (\<lambda>a. a = 21)\<rparr>\<rparr>"

theorem publisher_alloc_failures_witness:
  "rmw_create_publisher (Some life_node) (Some (Some example_type_support)) (Some ''/chatter'') (Some zero_qos) (Some False) starved_mem
    = Inl Uninitialised"
proof -
  obtain hash where h: "convert_hash (\<lambda>_. True) (ts_hash example_type_support) = Inr (Some hash)" "z_text hash" "length hash = 71"
    using life_types(2) by blast
  have o: "open_node starved_mem life_node 12 life_data 11 life_entity 10 life_info"
    using life_open_node by (simp add: open_node_def starved_mem_def)
  show ?thesis
    by (rule publisher_alloc_failures [OF o _ _ _ h(1) life_types(1), of _ _ 1])
      (simp_all add: starved_mem_def small_env_def cstr_def NUL_def zero_qos_def)
qed

end
