(* ===== verification/End_To_End.thy ===== *)
theory End_To_End
  imports Lifecycle
begin

section \<open>From a publisher to a subscription\<close>

text \<open>
  The composition of \<open>rmw_publish\<close>, the zenoh callback of a subscription and \<open>rmw_take_with_info\<close>: what one
  application publishes is what the other takes.  The network is a parameter only in that it hands over each put as a
  sample with the same payload and attachment, in order.
\<close>

fun deliver_all :: "z_sample list \<Rightarrow> addr option \<Rightarrow> rmw_mem \<Rightarrow> rmw_mem res" where
  "deliver_all [] a w = Inr w"
| "deliver_all (s # ss) a w = andthen (subscription_data_handler s a w) (\<lambda>(_, w). deliver_all ss a w)"

fun take_all ::
  "rmw_subscription_t \<Rightarrow> nat \<Rightarrow> rmw_mem \<Rightarrow> ((ros_message \<times> rmw_message_info_t) list \<times> rmw_mem) res" where
  "take_all h 0 w = Inr ([], w)"
| "take_all h (Suc n) w =
     andthen (rmw_take_with_info (Some h) (Some []) (Some False) (Some empty_message_info) w) (\<lambda>(r, taken, m, info, w).
       if r \<noteq> RMW_RET_OK then Inr ([], w)
       else andthen (take_all h n w) (\<lambda>(rs, w). Inr ((the m, the info) # rs, w)))"

subsection \<open>The inbox of a subscription\<close>

lemma inbox_same:
  assumes "inbox cb w as ps ms" and "same_msgs (msgs w) (msgs w')" and "\<And>p. p \<in> set ps \<Longrightarrow> bufs w' p = bufs w p"
  shows "inbox cb w' as ps ms"
  using assms
proof (induction cb w as ps ms rule: inbox.induct)
  case (2 cb w a as p ps m ms)
  obtain d bs where d: "live (msgs w) a d" "ref d = 1" "msg_type d = Sample" "payload_start d = Some p" "bufs w p = Some bs"
    "payload_size d = length bs" "ROS2_MSG_OFFSET \<le> length bs" "cdr_deserialize cb (drop ROS2_MSG_OFFSET bs) = (True, m)"
    using "2.prems"(1) by (auto simp: holds_msg_def)
  obtain n where "msgs w' a = Some (d\<lparr>next_msg := n\<rparr>)"
    using same_msgsD [OF "2.prems"(2), of a d] d(1) by (auto simp: live_def)
  then have "holds_msg cb w' a p m"
    using d "2.prems"(3) [of p] by (auto simp: holds_msg_def live_def intro!: exI [of _ "d\<lparr>next_msg := n\<rparr>"])
  with 2 show ?case by simp
qed simp_all

lemma inbox_snoc:
  assumes "inbox cb w as ps ms" and "holds_msg cb w a p m" and "a \<notin> set as" and "p \<notin> set ps"
  shows "inbox cb w (as @ [a]) (ps @ [p]) (ms @ [m])"
  using assms by (induction cb w as ps ms rule: inbox.induct) auto

text \<open>
  \<open>collects w s d as ps ms ats\<close>: the subscription \<open>s\<close> is between two calls and its queue holds the messages \<open>ms\<close>,
  which came with the attachments \<open>ats\<close>; all new addresses are free.
\<close>

definition collects ::
  "rmw_mem \<Rightarrow> addr \<Rightarrow> ZenohPicoSubData \<Rightarrow> addr list \<Rightarrow> addr list \<Rightarrow> ros_message list \<Rightarrow> zenoh_pico_attachemt_data list \<Rightarrow> bool" where
  "collects w s d as ps ms ats \<longleftrightarrow> sub_ready w s d as \<and> inbox (sub_callbacks d) w as ps ms \<and>
     map (\<lambda>a. map_option attachment (msgs w a)) as = map Some ats \<and> roomy w \<and>
     set as \<union> set ps \<subseteq> {..<next_addr w} \<and> (\<forall>n \<ge> next_addr w. msgs w n = None)"

definition sample_of :: "message_type_support_callbacks_t \<Rightarrow> ze_codec \<Rightarrow> z_sample \<Rightarrow> ros_message \<Rightarrow> zenoh_pico_attachemt_data \<Rightarrow> bool" where
  "sample_of cb c s m att \<longleftrightarrow> ROS2_MSG_OFFSET \<le> length (sample_payload s) \<and>
     cdr_deserialize cb (drop ROS2_MSG_OFFSET (sample_payload s)) = (True, m) \<and>
     attachment_data_get c (sample_attachment s) zero_attachment = (True, att)"

lemma same_msgs_attachments:
  "same_msgs h h' \<Longrightarrow> map_option attachment (h' a) = map_option attachment (h a)"
proof -
  assume "same_msgs h h'"
  then have "map_option (\<lambda>d. d\<lparr>next_msg := None\<rparr>) (h' a) = map_option (\<lambda>d. d\<lparr>next_msg := None\<rparr>) (h a)" by (simp add: same_msgs_def)
  then have "map_option attachment (map_option (\<lambda>d. d\<lparr>next_msg := None\<rparr>) (h' a)) =
      map_option attachment (map_option (\<lambda>d. d\<lparr>next_msg := None\<rparr>) (h a))" by simp
  then show ?thesis by (simp add: option.map_comp comp_def)
qed

lemma delivery_step:
  assumes c: "collects w s d as ps ms ats" and s: "sample_of (sub_callbacks d) (codec (env w)) x m att"
  shows "\<exists>w' d'. subscription_data_handler x (Some s) w = Inr ((), w') \<and>
    collects w' s d' (as @ [next_addr w]) (ps @ [Suc (next_addr w)]) (ms @ [m]) (ats @ [att]) \<and>
    sub_callbacks d' = sub_callbacks d \<and> env w' = env w \<and> next_addr w' = next_addr w + 2 \<and>
    (\<forall>a. a \<notin> set as \<longrightarrow> a \<noteq> next_addr w \<longrightarrow> msgs w' a = msgs w a) \<and> bufs w' = (bufs w)(Suc (next_addr w) \<mapsto> sample_payload x)"
proof -
  let ?n = "next_addr w"
  let ?md = "sample_msg (Suc ?n) (sample_payload x) (fst (zenoh_pico_gen_timestamp w)) att"
  let ?w1 = "with_msg ?md (sample_payload x) (w\<lparr>ticks := Suc (ticks w)\<rparr>)"
  have r: "sub_ready w s d as" and ib: "inbox (sub_callbacks d) w as ps ms" and ro: "roomy w"
    and at: "map (\<lambda>a. map_option attachment (msgs w a)) as = map Some ats"
    and below: "set as \<union> set ps \<subseteq> {..<?n}" and free: "\<forall>n \<ge> ?n. msgs w n = None"
    using c by (simp_all add: collects_def)
  have rd: "attachment_data_get (codec (env w)) (sample_attachment x) zero_attachment = (True, att)" using s by (simp add: sample_of_def)
  have d: "sub_datas w s = Some d" "mgr_ok (sub_event_mgr d)" "sub_condition_mutex d = Unlocked" "waiter_ok w (sub_wait_set_data d)"
    "queue_rep (msgs w) (message_queue d) as"
    using r by (simp_all add: sub_ready_def)
  have nin: "?n \<notin> set as" "Suc ?n \<notin> set ps" using below by auto
  have m1: "msgs ?w1 = (msgs w)(?n \<mapsto> ?md)" "sub_datas ?w1 = sub_datas w" "wait_sets ?w1 = wait_sets w" "env ?w1 = env w"
    "next_addr ?w1 = Suc (Suc ?n)" "bufs ?w1 = (bufs w)(Suc ?n \<mapsto> sample_payload x)"
    by (simp_all add: with_msg_def)
  have q1: "queue_rep (msgs ?w1) (message_queue d) as" unfolding m1 using d(5) nin(1) by (simp add: queue_rep_frame)
  have md: "msgs ?w1 ?n = Some ?md" by (simp add: m1)
  obtain l h where ap: "recv_msg_list_append (Some (message_queue d)) (Some ?n) (msgs ?w1) = Inr (Some ?n, Some l, h)"
    "queue_rep h l (as @ [?n])" "same_msgs (msgs ?w1) h"
    using append_rep [OF q1 md nin(1)] by blast
  let ?w2 = "?w1\<lparr>msgs := h, trace := announcement (sub_event_mgr d) @ trace ?w1, sub_datas := (sub_datas ?w1)(s \<mapsto> sub_received l d),
      wait_sets := wake (sub_wait_set_data d) (wait_sets ?w1)\<rparr>"
  have g: "rmw_zenoh_pico_generate_recv_sample_msg_data x (fst (zenoh_pico_gen_timestamp w)) (w\<lparr>ticks := Suc (ticks w)\<rparr>) = Inr (Some ?n, ?w1)"
    using recv_sample_roomy [of "w\<lparr>ticks := Suc (ticks w)\<rparr>" x att] ro rd by (simp add: roomy_def)
  have d1: "sub_datas ?w1 s = Some d" "waiter_ok ?w1 (sub_wait_set_data d)" using d(1,4) by (simp_all add: m1 waiter_ok_cong [OF m1(3)])
  have run: "subscription_data_handler x (Some s) w = Inr ((), ?w2)"
    unfolding subscription_data_handler_eq handle_sample_def
    by (subst timestamp_split)
      (simp only: option.simps if_False prod.case g andthen_Inr add_new_subscription_message_run [OF d1(1) d(2,3) d1(2) ap(1)])
  have fr: "msgs ?w2 a = msgs w a" if "a \<notin> set as" "a \<noteq> ?n" for a
    using append_frame [OF q1 ap(1), of a] that by (simp add: m1)
  have sm: "same_msgs (msgs ?w1) (msgs ?w2)" using ap(3) by simp
  have "inbox (sub_callbacks d) ?w1 as ps ms" by (rule inbox_frame [OF ib]) (use below in \<open>auto simp: m1\<close>)
  moreover have "holds_msg (sub_callbacks d) ?w1 ?n (Suc ?n) m"
    using s by (simp add: holds_msg_def m1 live_def sample_of_def) (simp add: sample_msg_def)
  ultimately have "inbox (sub_callbacks d) ?w1 (as @ [?n]) (ps @ [Suc ?n]) (ms @ [m])" using nin by (rule inbox_snoc)
  then have ib2: "inbox (sub_callbacks d) ?w2 (as @ [?n]) (ps @ [Suc ?n]) (ms @ [m])" using sm by (rule inbox_same) simp
  have "map_option attachment (msgs ?w2 a) = map_option attachment (msgs w a)" if "a \<in> set as" for a
    using same_msgs_attachments [OF sm, of a] that nin(1) by (auto simp: m1)
  moreover have "map_option attachment (msgs ?w2 ?n) = map_option attachment (Some ?md)" unfolding same_msgs_attachments [OF sm] md ..
  moreover have "attachment ?md = att" by (simp add: sample_msg_def)
  ultimately have at2: "map (\<lambda>a. map_option attachment (msgs ?w2 a)) (as @ [?n]) = map Some (ats @ [att])"
    using at by (simp cong: map_cong)
  have w2: "waiter_ok ?w2 (sub_wait_set_data d)"
    using d(4) by (auto simp: waiter_ok_def ws_idle_def wake_def m1 signalled_def split: option.splits)
  have "msgs ?w2 k = None" if "next_addr ?w2 \<le> k" for k
  proof -
    have k: "?n < k" using that by (simp add: m1)
    then have "k \<notin> set as" "k \<noteq> ?n" using below by auto
    then show ?thesis using fr [of k] free k by simp
  qed
  then have fn: "\<forall>n \<ge> next_addr ?w2. msgs ?w2 n = None" by blast
  have bl: "set (as @ [?n]) \<union> set (ps @ [Suc ?n]) \<subseteq> {..<next_addr ?w2}" using below by (auto simp: m1)
  have ro2: "roomy ?w2" using ro by (simp add: roomy_def m1)
  have sr: "sub_ready ?w2 s (sub_received l d) (as @ [?n])"
    using d(2,3) ap(2) w2 by (simp add: sub_ready_def sub_received_def)
  have cb: "sub_callbacks (sub_received l d) = sub_callbacks d" by (simp add: sub_received_def)
  have "collects ?w2 s (sub_received l d) (as @ [?n]) (ps @ [Suc ?n]) (ms @ [m]) (ats @ [att])"
    unfolding collects_def cb using sr ib2 at2 ro2 bl fn by (intro conjI)
  then show ?thesis
    using run fr by (intro exI [of _ ?w2] exI [of _ "sub_received l d"]) (simp add: m1 sub_received_def)
qed

text \<open>A series of samples, the i-th of them carrying the i-th message.\<close>

lemma deliver_all_run:
  assumes "collects w s d as ps ms ats" and "list_all2 (\<lambda>x (m, att). sample_of (sub_callbacks d) (codec (env w)) x m att) xs (zip ns ats')"
    and "length ns = length ats'"
  shows "\<exists>w' d' as' ps'. deliver_all xs (Some s) w = Inr w' \<and> collects w' s d' (as @ as') (ps @ ps') (ms @ ns) (ats @ ats') \<and>
    sub_callbacks d' = sub_callbacks d \<and> set as' \<union> set ps' \<subseteq> {next_addr w..} \<and>
    (\<forall>a. a \<notin> set (as @ as') \<longrightarrow> msgs w' a = msgs w a) \<and> (\<forall>p. p \<notin> set ps' \<longrightarrow> bufs w' p = bufs w p)"
  using assms
proof (induction xs arbitrary: w d as ps ms ats ns ats')
  case Nil
  then have "ns = []" "ats' = []" by (cases ns; cases ats'; simp)+
  then show ?case using Nil by (intro exI [of _ w] exI [of _ d] exI [of _ "[]"]) simp
next
  case (Cons x xs)
  obtain m ns' att ats'' where l: "ns = m # ns'" "ats' = att # ats''"
    using Cons.prems(2,3) by (cases ns; cases ats') simp_all
  let ?n = "next_addr w"
  obtain w1 d1 where 1: "subscription_data_handler x (Some s) w = Inr ((), w1)"
    "collects w1 s d1 (as @ [?n]) (ps @ [Suc ?n]) (ms @ [m]) (ats @ [att])" "sub_callbacks d1 = sub_callbacks d" "env w1 = env w"
    "next_addr w1 = ?n + 2" "\<forall>a. a \<notin> set as \<longrightarrow> a \<noteq> ?n \<longrightarrow> msgs w1 a = msgs w a" "bufs w1 = (bufs w)(Suc ?n \<mapsto> sample_payload x)"
    using delivery_step [OF Cons.prems(1), of x m att] Cons.prems(2) l by auto
  have rest: "list_all2 (\<lambda>x (m, att). sample_of (sub_callbacks d1) (codec (env w1)) x m att) xs (zip ns' ats'')" "length ns' = length ats''"
    using Cons.prems(2,3) l 1(3,4) by simp_all
  obtain w' d' as' ps' where r: "deliver_all xs (Some s) w1 = Inr w'"
    "collects w' s d' ((as @ [?n]) @ as') ((ps @ [Suc ?n]) @ ps') ((ms @ [m]) @ ns') ((ats @ [att]) @ ats'')" "sub_callbacks d' = sub_callbacks d1"
    "set as' \<union> set ps' \<subseteq> {next_addr w1..}" "\<forall>a. a \<notin> set ((as @ [?n]) @ as') \<longrightarrow> msgs w' a = msgs w1 a"
    "\<forall>p. p \<notin> set ps' \<longrightarrow> bufs w' p = bufs w1 p"
    using Cons.IH [OF 1(2) rest] by blast
  have "deliver_all (x # xs) (Some s) w = Inr w'" using 1(1) r(1) by simp
  moreover have "set (?n # as') \<union> set (Suc ?n # ps') \<subseteq> {?n..}" using r(4) 1(5) by auto
  moreover have "\<forall>a. a \<notin> set (as @ ?n # as') \<longrightarrow> msgs w' a = msgs w a" using r(5) 1(6) by simp
  moreover have "\<forall>p. p \<notin> set (Suc ?n # ps') \<longrightarrow> bufs w' p = bufs w p" using r(6) 1(7) by simp
  ultimately show ?case
    using r(2,3) 1(3) l by (intro exI [of _ w'] exI [of _ d'] exI [of _ "?n # as'"] exI [of _ "Suc ?n # ps'"]) simp
qed

subsection \<open>Taking everything\<close>

definition taken_info :: "zenoh_pico_attachemt_data \<Rightarrow> rmw_message_info_t \<Rightarrow> bool" where
  "taken_info att info \<longleftrightarrow> source_timestamp info = timestamp att \<and> publication_sequence_number info = sequence_num att \<and>
     publisher_gid info = copy_gid (replicate 16 0) (gid att)"

lemma take_all_run:
  assumes h: "data h = Some s" "topic_name h = Some t" "identifiers_match (implementation_identifier h)"
    and "sub_datas w s = Some d" "queue_rep (msgs w) (message_queue d) as" "inbox (sub_callbacks d) w as ps ms"
    and "map (\<lambda>a. map_option attachment (msgs w a)) as = map Some ats"
  shows "\<exists>infos w' l. take_all h (length as) w = Inr (zip ms infos, w') \<and> length infos = length ms \<and> length as = length ms \<and>
    list_all2 taken_info ats infos \<and> sub_datas w' s = Some (d\<lparr>message_queue := l\<rparr>) \<and> queue_rep (msgs w') l [] \<and>
    (\<forall>a. msgs w' a = (if a \<in> set as then None else msgs w a)) \<and> (\<forall>p. bufs w' p = (if p \<in> set ps then None else bufs w p))"
  using assms(4-)
proof (induction as arbitrary: w d ps ms ats)
  case Nil
  then have "ms = []" "ps = []" "ats = []" by (cases ms; cases ps; simp)+
  then show ?case using Nil by (intro exI [of _ "[]"] exI [of _ w] exI [of _ "message_queue d"]) simp
next
  case (Cons a as)
  obtain p ps' m ms' att ats' where l: "ps = p # ps'" "ms = m # ms'" "ats = att # ats'"
    using Cons.prems(3,4) by (cases ps; cases ms; cases ats) auto
  obtain md where md: "msgs w a = Some md" "attachment md = att" using Cons.prems(4) l by auto
  obtain w1 l1 where 1: "rmw_zenoh_pico_take_one (Some s) [] (Some empty_message_info) (Some False) w =
      Inr (RMW_RET_OK, Some True, m, Some (info_of md empty_message_info), w1)" "sub_datas w1 = (sub_datas w)(s \<mapsto> d\<lparr>message_queue := l1\<rparr>)"
    "queue_rep (msgs w1) l1 as" "inbox (sub_callbacks d) w1 as ps' ms'" "msgs w1 = (msgs w)(a := None)" "bufs w1 = (bufs w)(p := None)"
    using take_one_front [OF Cons.prems(1), of a as p ps' m ms' md "[]" "Some empty_message_info" "Some False"] Cons.prems(2,3) l md(1) by auto
  have nin: "a \<notin> set as" "p \<notin> set ps'" using Cons.prems(3) l by simp_all
  have off: "map (\<lambda>a. map_option attachment (msgs w1 a)) as = map (\<lambda>a. map_option attachment (msgs w a)) as"
    using nin(1) by (intro map_cong) (auto simp: 1(5))
  have at1: "map (\<lambda>a. map_option attachment (msgs w1 a)) as = map Some ats'"
    unfolding off using Cons.prems(4) l by simp
  have prems: "sub_datas w1 s = Some (d\<lparr>message_queue := l1\<rparr>)" "queue_rep (msgs w1) (message_queue (d\<lparr>message_queue := l1\<rparr>)) as"
    "inbox (sub_callbacks (d\<lparr>message_queue := l1\<rparr>)) w1 as ps' ms'"
    using 1(2-4) by simp_all
  obtain infos w' l' where r: "take_all h (length as) w1 = Inr (zip ms' infos, w')" "length infos = length ms'" "length as = length ms'"
    "list_all2 taken_info ats' infos" "sub_datas w' s = Some ((d\<lparr>message_queue := l1\<rparr>)\<lparr>message_queue := l'\<rparr>)" "queue_rep (msgs w') l' []"
    "\<forall>x. msgs w' x = (if x \<in> set as then None else msgs w1 x)" "\<forall>x. bufs w' x = (if x \<in> set ps' then None else bufs w1 x)"
    using Cons.IH [OF prems at1] by blast
  have "rmw_take_with_info (Some h) (Some []) (Some False) (Some empty_message_info) w =
      Inr (RMW_RET_OK, Some True, Some m, Some (info_of md empty_message_info), w1)"
    using h 1(1) by (simp add: rmw_take_with_info_def)
  then have "take_all h (length (a # as)) w = Inr (zip ms (info_of md empty_message_info # infos), w')"
    using r(1) l by simp
  moreover have "taken_info att (info_of md empty_message_info)"
    using md(2) by (simp add: taken_info_def info_of_def empty_message_info_def)
  moreover have "\<forall>x. msgs w' x = (if x \<in> set (a # as) then None else msgs w x)" using r(7) 1(5) by simp
  moreover have "\<forall>x. bufs w' x = (if x \<in> set ps then None else bufs w x)" using r(8) 1(6) l by simp
  moreover have "length (info_of md empty_message_info # infos) = length ms" "length (a # as) = length ms"
    "sub_datas w' s = Some (d\<lparr>message_queue := l'\<rparr>)"
    using r(2,3,5) l by simp_all
  moreover have "list_all2 taken_info ats (info_of md empty_message_info # infos)" using calculation(2) r(4) l by simp
  ultimately show ?case using r(6) by blast
qed

end
