(* ===== verification/Teardown.thy ===== *)
theory Teardown
  imports Lifecycle
begin

section \<open>Emptying queues when an endpoint is destroyed\<close>

text \<open>
  Services and clients empty their queues with \<open>drain_queue\<close>, which releases every message.  Subscriptions first run a
  loop that pops each message and frees it only when its count is zero.
\<close>

subsection \<open>Services and clients\<close>

text \<open>The messages of a queue with a reference each, and payloads of their own.\<close>

fun owned :: "rmw_mem \<Rightarrow> addr list \<Rightarrow> addr list \<Rightarrow> bool" where
  "owned w [] [] \<longleftrightarrow> True"
| "owned w (a # as) (p # ps) \<longleftrightarrow> (\<exists>d. live (msgs w) a d \<and> ref d = 1 \<and> payload_start d = Some p \<and> bufs w p \<noteq> None) \<and>
     a \<notin> set as \<and> p \<notin> set ps \<and> owned w as ps"
| "owned _ _ _ \<longleftrightarrow> False"

lemma owned_frame:
  assumes "owned w as ps" and "\<And>a. a \<in> set as \<Longrightarrow> msgs w' a = msgs w a" and "\<And>p. p \<in> set ps \<Longrightarrow> bufs w' p = bufs w p"
  shows "owned w' as ps"
  using assms by (induction w as ps rule: owned.induct) (auto simp: live_def)

fun drops :: "msg_heap \<Rightarrow> addr list \<Rightarrow> zcall list" where
  "drops h [] = []"
| "drops h (a # as) = drops h as @
     (case h a of None \<Rightarrow> [] | Some d \<Rightarrow> if msg_type d = Query then (case query d of None \<Rightarrow> [] | Some q \<Rightarrow> [ZQueryDrop q]) else [])"

lemma drops_cong: "(\<And>a. a \<in> set as \<Longrightarrow> h' a = h a) \<Longrightarrow> drops h' as = drops h as"
  by (induction as) auto

lemma pop_delete_loop_frees:
  assumes "queue_rep (msgs w) l as" and "owned w as ps"
  shows "\<exists>l' w'. (\<forall>n. pop_delete_loop n l w = (if length as \<le> n then Inr (l', w') else Inl Nontermination)) \<and> queue_rep (msgs w') l' [] \<and>
    (\<forall>a. msgs w' a = (if a \<in> set as then None else msgs w a)) \<and> (\<forall>p. bufs w' p = (if p \<in> set ps then None else bufs w p)) \<and>
    trace w' = drops (msgs w) as @ trace w"
  using assms
proof (induction as arbitrary: l w ps)
  case Nil
  then have "ps = []" by (cases ps) simp_all
  moreover have "pop_delete_loop n l w = Inr (l, w)" for n
    using Nil(1) by (subst pop_delete_loop.simps) (simp add: pop_empty Let_def)
  ultimately show ?case using Nil(1) by (intro exI [of _ l] exI [of _ w]) simp
next
  case (Cons a as)
  obtain p ps' where ps: "ps = p # ps'" using Cons.prems(2) by (cases ps) simp_all
  obtain l1 d where pop: "msgs w a = Some d" "recv_msg_list_pop (Some l) (msgs w) = Inr (Some a, Some l1, (msgs w)(a \<mapsto> d\<lparr>next_msg := None\<rparr>))"
    "queue_rep ((msgs w)(a \<mapsto> d\<lparr>next_msg := None\<rparr>)) l1 as"
    using pop_cons [OF Cons.prems(1)] by blast
  let ?d = "d\<lparr>next_msg := None\<rparr>" and ?w = "w\<lparr>msgs := (msgs w)(a \<mapsto> d\<lparr>next_msg := None\<rparr>)\<rparr>"
  have d: "lock d = Unlocked" "ref d = 1" "payload_start d = Some p" "bufs w p \<noteq> None" "a \<notin> set as" "p \<notin> set ps'" "owned w as ps'"
    using Cons.prems(2) pop(1) ps by (auto simp: live_def)
  let ?v = "msg_freed ?w a ?d"
  have del: "zenoh_pico_delete_recv_msg_data (Some a) ?w = Inr (True, ?v)"
    using d(1-4) by (intro delete_msg_last) (auto simp: msg_ok_def live_def)
  have v: "msgs ?v = (msgs w)(a := None)" "bufs ?v = (bufs w)(p := None)" "trace ?v = drops (msgs w) [a] @ trace w"
    using d(3) pop(1) by (auto simp: msg_freed_def Let_def query_drop_def znote_def split: option.split)
  have q: "queue_rep (msgs ?v) l1 as"
    using pop(3) d(5) by (simp add: v queue_rep_frame)
  have ow: "owned ?v as ps'" by (rule owned_frame [OF d(7)]) (use d(5,6) in \<open>auto simp: v\<close>)
  have dr: "drops (msgs ?v) as = drops (msgs w) as" by (rule drops_cong) (use d(5) in \<open>auto simp: v\<close>)
  obtain l' w' where r: "\<And>m. pop_delete_loop m l1 ?v = (if length as \<le> m then Inr (l', w') else Inl Nontermination)" "queue_rep (msgs w') l' []"
    "\<forall>x. msgs w' x = (if x \<in> set as then None else msgs ?v x)" "\<forall>x. bufs w' x = (if x \<in> set ps' then None else bufs ?v x)"
    "trace w' = drops (msgs ?v) as @ trace ?v"
    using Cons.IH [OF q ow] by blast
  have "pop_delete_loop n l w = (if length (a # as) \<le> n then Inr (l', w') else Inl Nontermination)" for n
    using r(1) del by (cases n; subst pop_delete_loop.simps) (simp_all add: pop(2) Let_def)
  moreover have "\<forall>x. msgs w' x = (if x \<in> set (a # as) then None else msgs w x)" using r(3) by (simp add: v)
  moreover have "\<forall>x. bufs w' x = (if x \<in> set ps then None else bufs w x)" using r(4) by (simp add: v ps)
  moreover have "trace w' = drops (msgs w) (a # as) @ trace w" using r(5) unfolding dr v(3) by simp
  ultimately show ?case using r(2) by blast
qed

text \<open>
  C26: Draining a queue ends after as many rounds as there are messages and frees everything. In a well-formed state,
  when each message of the queue has one reference and a payload of its own, the loop with which a destroyed service, client
  or subscription empties a queue returns exactly when it is given at least as many rounds as the queue has messages, and
  draining the queue gives what the loop returns: all messages and payloads are freed, each clone of a query is
  dropped once in the order of the queue, no other message or buffer changes and the queue is empty.
\<close>

theorem drain_frees_queue:
  assumes "rmw_ok w" and "queue_rep (msgs w) l as" and "owned w as ps"
  shows "\<exists>l' w'. (\<forall>n. pop_delete_loop n l w = (if length as \<le> n then Inr (l', w') else Inl Nontermination)) \<and>
    drain_queue l w = Inr (l', w') \<and> recv_msg_list_empty (Some l') = Inr (True, Some l') \<and>
    (\<forall>a. msgs w' a = (if a \<in> set as then None else msgs w a)) \<and> (\<forall>p. bufs w' p = (if p \<in> set ps then None else bufs w p)) \<and>
    trace w' = drops (msgs w) as @ trace w"
proof -
  obtain l' w' where r: "\<And>n. pop_delete_loop n l w = (if length as \<le> n then Inr (l', w') else Inl Nontermination)" "queue_rep (msgs w') l' []"
    "\<forall>a. msgs w' a = (if a \<in> set as then None else msgs w a)" "\<forall>p. bufs w' p = (if p \<in> set ps then None else bufs w p)"
    "trace w' = drops (msgs w) as @ trace w"
    using pop_delete_loop_frees [OF assms(2,3)] by blast
  have "drain_queue l w = Inr (l', w')"
  proof (cases as)
    case Nil
    have "pop_delete_loop 0 l w = Inr (l, w)"
      using assms(2) Nil by (subst pop_delete_loop.simps) (simp add: pop_empty Let_def)
    then show ?thesis using r(1) [of 0] Nil drain_queue_empty assms(2) by simp
  next
    case (Cons a as')
    then show ?thesis using r(1) [of "next_addr w"] queue_below [OF assms(1,2)] by (simp add: drain_queue_def count_rep [OF assms(2)])
  qed
  moreover have "recv_msg_list_empty (Some l') = Inr (True, Some l')" using empty_rep [OF r(2)] by simp
  ultimately show ?thesis using r(1,3-5) by blast
qed

theorem drain_frees_queue_witness:
  "\<exists>l' w'. drain_queue one_msg (server_mem one_msg recv_msg_list_init) = Inr (l', w') \<and>
    pop_delete_loop 1 one_msg (server_mem one_msg recv_msg_list_init) = Inr (l', w') \<and>
    pop_delete_loop 0 one_msg (server_mem one_msg recv_msg_list_init) = Inl Nontermination \<and> msgs w' 1 = None \<and> bufs w' 11 = None \<and>
    trace w' = [ZQueryDrop 5]"
proof -
  let ?w = "server_mem one_msg recv_msg_list_init"
  have q: "queue_rep (msgs ?w) one_msg [1]" by (simp add: server_facts)
  have o: "owned ?w [1] [11]" by (simp add: server_facts live_def ping_msg_def query_msg_def)
  have d: "drops (msgs ?w) [1] = [ZQueryDrop 5]" by (simp add: server_facts ping_msg_def query_msg_def ping_def)
  obtain l' w' where "\<And>n. pop_delete_loop n one_msg ?w = (if length [1::nat] \<le> n then Inr (l', w') else Inl Nontermination)"
    "drain_queue one_msg ?w = Inr (l', w')" "\<forall>a. msgs w' a = (if a \<in> set [1] then None else msgs ?w a)"
    "\<forall>p. bufs w' p = (if p \<in> set [11] then None else bufs ?w p)" "trace w' = drops (msgs ?w) [1] @ trace ?w"
    using drain_frees_queue [OF server_facts(5) q o] by blast
  then show ?thesis unfolding d by (intro exI [of _ l'] exI [of _ w']) (simp add: server_facts)
qed

subsection \<open>Subscriptions\<close>

text \<open>
  C27: Destroying a subscription leaks its queue. rmw_destroy_subscription answers OK and frees the subscription, its
  handle and its name, but every message that is still in the queue, with the reference it was made with, stays
  allocated with its payload and nothing refers to it any more.
\<close>

theorem subscription_queue_leaks:
  assumes "data h = Some s" "topic_name h = Some b" "bufs w b \<noteq> None" "bufs w (hdl h) \<noteq> None" "b \<noteq> hdl h"
    and "identifiers_match (implementation_identifier n)" "identifiers_match (implementation_identifier h)"
    and "live (sub_datas w) s d" "ref d = 1"
    and "sub_node d = Some nd" "live (node_datas w) nd nn" "ref nn \<noteq> 1"
    and "sub_entity d = Some ea" "live (entities w) ea e" "ref e = 1" "node_info e = Some ni" "live (node_infos w) ni i"
    and "topic_info e = Some ti" "live (topic_infos w) ti t"
    and "rmw_ok w" "queue_rep (msgs w) (message_queue d) as" "\<And>a m. a \<in> set as \<Longrightarrow> msgs w a = Some m \<Longrightarrow> ref m = 1"
  shows "\<exists>w'. rmw_destroy_subscription (Some n) (Some h) w = Inr (RMW_RET_OK, w') \<and> sub_datas w' = (sub_datas w)(s := None) \<and>
    entities w' = (entities w)(ea := None) \<and> same_msgs (msgs w) (msgs w') \<and> bufs w' = (bufs w)(b := None, hdl h := None) \<and>
    (\<forall>a \<in> set as. \<exists>m. msgs w' a = Some m \<and> ref m = 1)"
proof -
  let ?d = "d\<lparr>sub_topic := None, sub_liveliness := None\<rparr>"
  let ?u = "z_undeclare (sub_liveliness d) (z_undeclare (sub_topic d) w)"
  obtain u where u0: "u = ?u\<lparr>sub_datas := (sub_datas w)(s \<mapsto> ?d)\<rparr>" by blast
  have f: "sub_datas ?u = sub_datas w" "node_datas ?u = node_datas w" "entities ?u = entities w" "node_infos ?u = node_infos w"
    "topic_infos ?u = topic_infos w" "msgs ?u = msgs w" "bufs ?u = bufs w" "next_addr ?u = next_addr w"
    by (cases "sub_liveliness d"; cases "sub_topic d"; simp add: znote_def)+
  then have g: "sub_datas u = (sub_datas w)(s \<mapsto> ?d)" "node_datas u = node_datas w" "entities u = entities w" "node_infos u = node_infos w"
    "topic_infos u = topic_infos w" "msgs u = msgs w" "bufs u = bufs w" "next_addr u = next_addr w"
    by (simp_all add: u0)
  have un: "undeclaration_subscription_data (Some s) w = Inr (True, u)"
    using assms(8) f(1) by (simp add: undeclaration_subscription_data_def live_def u0)
  let ?v = "u\<lparr>sub_datas := (sub_datas u)(s \<mapsto> ?d\<lparr>ref := 0\<rparr>)\<rparr>"
  have q: "queue_rep (msgs ?v) (message_queue ?d) as" using assms(21) g(6) by simp
  have nz: "ref m \<noteq> 0" if "a \<in> set as" "msgs ?v a = Some m" for a m using assms(22) that g(6) by simp
  have le: "length as \<le> next_addr u" using queue_below [OF assms(20,21)] g(8) by simp
  have sm: "msgs ?v = msgs w" using g(6) by simp
  have ex: "\<exists>l m. pop_destroy_loop (next_addr u) (message_queue ?d) ?v = Inr (l, ?v\<lparr>msgs := m\<rparr>) \<and> queue_rep m l [] \<and> same_msgs (msgs ?v) m"
    by (rule pop_destroy_loop_leaks [OF q le]) (rule nz)
  obtain l m where p: "pop_destroy_loop (next_addr u) (message_queue ?d) ?v = Inr (l, ?v\<lparr>msgs := m\<rparr>)" "queue_rep m l []"
    "same_msgs (msgs w) m"
    using ex unfolding sm by blast
  have de: "zenoh_pico_destroy_subscription_data (Some s) u = Inr (True, u\<lparr>sub_datas := (sub_datas u)(s := None), msgs := m,
    node_datas := (node_datas u)(nd \<mapsto> nn\<lparr>ref := ref nn - 1\<rparr>), entities := (entities u)(ea := None),
    node_infos := drop_ref (node_infos u) ni, topic_infos := drop_ref (topic_infos u) ti\<rparr>)"
    by (rule destroy_sub_data_last [of u s ?d nd nn ea e ni i ti t, OF _ _ _ _ _ _ _ _ _ _ _ _ _ _ p(1,2)])
      (use assms(8-19) in \<open>simp_all add: g live_def\<close>)
  have "\<exists>w'. rmw_destroy_subscription (Some n) (Some h) w = Inr (RMW_RET_OK, w') \<and> sub_datas w' = (sub_datas u)(s := None) \<and>
    entities w' = (entities u)(ea := None) \<and> msgs w' = m \<and> bufs w' = (bufs u)(b := None, hdl h := None)"
    using assms(1-7) un de g(7) by (auto simp: rmw_destroy_subscription_def z_free_def)
  moreover have "\<exists>x. m a = Some x \<and> ref x = 1" if a: "a \<in> set as" for a
  proof -
    obtain x where x: "msgs w a = Some x" using assms(21) a chain_dom [of "msgs w" "que_top (message_queue d)" as a]
      by (auto simp: queue_rep_def)
    then show ?thesis using same_msgsD [OF p(3) x] assms(22) [OF a x] by auto
  qed
  ultimately show ?thesis using p(3) by (auto simp: g)
qed

definition leak_sub :: ZenohPicoSubData where
  "leak_sub = two_messages\<lparr>sub_node := Some 12, sub_entity := Some 31, sub_topic := Some ''t'', sub_liveliness := Some ''k''\<rparr>"

definition leak_entity :: ZenohPicoEntity where
  "leak_entity = life_entity\<lparr>ent_type := Subscription, topic_info := Some 32\<rparr>"

definition leak_mem :: rmw_mem where
  "leak_mem = life_mem\<lparr>next_addr := 40, bufs := [33 \<mapsto> [], 34 \<mapsto> []], msgs := msgs inbox_mem, node_infos := [10 \<mapsto> life_info\<lparr>ref := 2\<rparr>],
     entities := [11 \<mapsto> life_entity, 31 \<mapsto> leak_entity], topic_infos := [32 \<mapsto> example_topic_info],
     node_datas := [12 \<mapsto> life_data\<lparr>ref := 2\<rparr>], sub_datas := [30 \<mapsto> leak_sub]\<rparr>"

definition leak_handle :: rmw_subscription_t where
  "leak_handle = \<lparr>hdl = 33, implementation_identifier = None, data = Some 30, topic_name = Some 34\<rparr>"

lemma leak_mem_ok: "rmw_ok leak_mem"
  by (simp add: rmw_ok_def ent_ok_def mem_ok_def leak_mem_def life_mem_def open_mem_def inbox_mem_def)

theorem subscription_queue_leaks_witness:
  "\<exists>w'. rmw_destroy_subscription (Some life_node) (Some leak_handle) leak_mem = Inr (RMW_RET_OK, w') \<and> sub_datas w' = Map.empty \<and>
    map_option ref (msgs w' 1) = Some 1 \<and> map_option ref (msgs w' 2) = Some 1"
proof -
  have f: "data leak_handle = Some 30" "topic_name leak_handle = Some 34" "bufs leak_mem 34 \<noteq> None" "bufs leak_mem (hdl leak_handle) \<noteq> None"
    "34 \<noteq> hdl leak_handle" "identifiers_match (implementation_identifier life_node)" "identifiers_match (implementation_identifier leak_handle)"
    by (simp_all add: leak_handle_def leak_mem_def life_node_def identifiers_match_def)
  have s: "live (sub_datas leak_mem) 30 leak_sub" "ref leak_sub = 1" "sub_node leak_sub = Some 12"
    using inbox_mem_facts(4) by (simp_all add: live_def leak_mem_def leak_sub_def inbox_mem_def two_messages_def echo_sub_def zero_sub_data_def)
  have n: "live (node_datas leak_mem) 12 (life_data\<lparr>ref := 2\<rparr>)" "ref (life_data\<lparr>ref := 2\<rparr>) \<noteq> 1"
    by (simp_all add: live_def leak_mem_def life_data_def zero_node_data_def)
  have e: "sub_entity leak_sub = Some 31" "live (entities leak_mem) 31 leak_entity" "ref leak_entity = 1" "node_info leak_entity = Some 10"
    "live (node_infos leak_mem) 10 (life_info\<lparr>ref := 2\<rparr>)" "topic_info leak_entity = Some 32" "live (topic_infos leak_mem) 32 example_topic_info"
    by (simp_all add: leak_sub_def leak_entity_def life_entity_def live_def leak_mem_def life_info_def example_topic_info_def)
  have q: "queue_rep (msgs leak_mem) (message_queue leak_sub) [1, 2]"
    using inbox_mem_facts(5) by (simp add: leak_mem_def leak_sub_def)
  have r: "ref m = 1" if "a \<in> set [1, 2]" "msgs leak_mem a = Some m" for a m
    using that by (auto simp: leak_mem_def inbox_mem_def sample_msg_def)
  have sd: "(sub_datas leak_mem)(30 := None) = Map.empty" by (simp add: leak_mem_def)
  have "\<exists>w'. rmw_destroy_subscription (Some life_node) (Some leak_handle) leak_mem = Inr (RMW_RET_OK, w') \<and>
    sub_datas w' = (sub_datas leak_mem)(30 := None) \<and> entities w' = (entities leak_mem)(31 := None) \<and>
    same_msgs (msgs leak_mem) (msgs w') \<and> bufs w' = (bufs leak_mem)(34 := None, hdl leak_handle := None) \<and>
    (\<forall>a \<in> set [1, 2]. \<exists>m. msgs w' a = Some m \<and> ref m = 1)"
    by (rule subscription_queue_leaks [OF f s n e leak_mem_ok q]) (rule r)
  then show ?thesis unfolding sd by fastforce
qed

end
