(* ===== verification/Type_Support.thy ===== *)
theory Type_Support
  imports Publisher Client
begin

section \<open>Finding the type support\<close>

text \<open>
  \<open>zenoh_pico_messageType.c\<close>.  The create functions get a collection of type supports and look for the one of micro XRCE-DDS in it.
  The collection is searched by the type support library (\<open>lookup\<close>, which may set an error of its own), and the error is
  kept by rcutils; both are outside the repository and parameters: \<open>rc_get\<close>, \<open>rc_reset\<close>, \<open>rc_set\<close> act on an unknown error state.
\<close>

record 'e rcutils =
  rc_get :: "'e \<Rightarrow> string"
  rc_reset :: "'e \<Rightarrow> 'e"
  rc_set :: "string \<Rightarrow> 'e \<Rightarrow> 'e"

text \<open>What is documented of them: the error that was set last is read, and none after a reset.\<close>

definition rcutils_ok :: "string \<Rightarrow> 'e rcutils \<Rightarrow> bool" where
  "rcutils_ok none_set rc \<longleftrightarrow> (\<forall>s e. rc_get rc (rc_set rc s e) = s) \<and> (\<forall>e. rc_get rc (rc_reset rc e) = none_set)"

definition not_from_here :: "string \<Rightarrow> string" where
  "not_from_here got = ''Type support not from this implementation. Got:'' @ [CHR 0x0A] @ ''    '' @ got @ [CHR 0x0A] @ ''while fetching it''"

definition find_message_type_support ::
  "'e rcutils \<Rightarrow> ('c \<Rightarrow> string \<Rightarrow> 'e \<Rightarrow> rosidl_message_type_support_t option \<times> 'e) \<Rightarrow> 'c \<Rightarrow> 'e
     \<Rightarrow> rosidl_message_type_support_t option \<times> 'e" where
  "find_message_type_support rc get_message_typesupport_handle type_supports e =
     (case get_message_typesupport_handle type_supports rmw_zenoh_pico_typesupport_c e of
        (None, e) \<Rightarrow>
          let error_string = rc_get rc e;
              e = rc_set rc (not_from_here error_string) e
          in (None, e)
      | (Some type_support, e) \<Rightarrow> (Some type_support, e))"

definition find_service_type_support ::
  "'e rcutils \<Rightarrow> ('c \<Rightarrow> string \<Rightarrow> 'e \<Rightarrow> rosidl_service_type_support_t option \<times> 'e) \<Rightarrow> 'c \<Rightarrow> 'e
     \<Rightarrow> rosidl_service_type_support_t option \<times> 'e" where
  "find_service_type_support rc get_service_typesupport_handle type_supports e =
     (case get_service_typesupport_handle type_supports rmw_zenoh_pico_typesupport_c e of
        (None, e) \<Rightarrow>
          let error_string = rc_get rc e;
              e = rc_reset rc e;
              e = rc_set rc (not_from_here error_string) e
          in (None, e)
      | (Some type_support, e) \<Rightarrow> (Some type_support, e))"

text \<open>An instance: the last error, and how often one was set while another was.\<close>

definition warning_rcutils :: "(string option \<times> nat) rcutils" where
  "warning_rcutils = \<lparr>rc_get = (\<lambda>(s, _). case s of None \<Rightarrow> ''error not set'' | Some t \<Rightarrow> t), rc_reset = (\<lambda>(_, n). (None, n)),
     rc_set = (\<lambda>t (s, n). (Some t, if s = None then n else Suc n))\<rparr>"

lemma warning_rcutils_ok: "rcutils_ok ''error not set'' warning_rcutils"
  by (simp add: rcutils_ok_def warning_rcutils_def split_def)

lemma without_type_support:
  "rmw_create_subscription node (Some None) topic qos opt w = Inr (s, w') \<Longrightarrow> s = None \<and> w' = w"
  "rmw_create_publisher node (Some None) topic qos flow w = Inr (p, w') \<Longrightarrow> p = None \<and> w' = w"
  "create_service_or_client ty node (Some None) topic qos w = Inr (x, w') \<Longrightarrow> x = None \<and> w' = w"
  by (auto simp: rmw_create_subscription_def rmw_create_publisher_def create_service_or_client_def andthen_eq_Inr Let_def
      split: option.splits if_splits)

text \<open>
  An unknown type support is refused before anything is made. The lookup asks for the type support of micro XRCE-DDS and hands on what the
  library finds, leaving the error alone; if it finds none, the error names this implementation and quotes the library's error, and
  creating a subscription, publisher, service or client with it, whatever the other arguments, makes nothing and changes nothing.
\<close>

theorem unknown_type_support_refused:
  assumes "rcutils_ok none_set rc"
  shows "(\<forall>s e'. get_m c ''rosidl_typesupport_microxrcedds_c'' e = (Some s, e') \<longrightarrow> find_message_type_support rc get_m c e = (Some s, e')) \<and>
    (\<forall>e'. get_m c ''rosidl_typesupport_microxrcedds_c'' e = (None, e') \<longrightarrow>
       (\<exists>e''. find_message_type_support rc get_m c e = (None, e'') \<and> rc_get rc e'' = not_from_here (rc_get rc e')) \<and>
       (rmw_create_subscription node (Some (fst (find_message_type_support rc get_m c e))) topic qos opt w = Inr (s, w') \<longrightarrow> s = None \<and> w' = w) \<and>
       (rmw_create_publisher node (Some (fst (find_message_type_support rc get_m c e))) topic qos flow w = Inr (p, w') \<longrightarrow> p = None \<and> w' = w)) \<and>
    (\<forall>e'. get_s c ''rosidl_typesupport_microxrcedds_c'' e = (None, e') \<longrightarrow>
       (\<exists>e''. find_service_type_support rc get_s c e = (None, e'') \<and> rc_get rc e'' = not_from_here (rc_get rc e')) \<and>
       (rmw_create_service node (Some (fst (find_service_type_support rc get_s c e))) topic qos w = Inr (x, w') \<longrightarrow> x = None \<and> w' = w) \<and>
       (rmw_create_client node (Some (fst (find_service_type_support rc get_s c e))) topic qos w = Inr (x, w') \<longrightarrow> x = None \<and> w' = w))"
proof -
  have id: "rmw_zenoh_pico_typesupport_c = ''rosidl_typesupport_microxrcedds_c''"
    by (simp add: rmw_zenoh_pico_typesupport_c_def rosidl_typesupport_rmw_zenoh_identifier_def)
  have get: "rc_get rc (rc_set rc t d) = t" for t d using assms by (simp add: rcutils_ok_def)
  show ?thesis
    by (auto simp: find_message_type_support_def find_service_type_support_def id get rmw_create_service_def rmw_create_client_def Let_def
        dest: without_type_support)
qed

theorem unknown_type_support_refused_witness:
  "\<exists>e. find_message_type_support warning_rcutils (\<lambda>_ i e. (None, rc_set warning_rcutils (''no '' @ i) e)) () (None, 0) = (None, e) \<and>
     rc_get warning_rcutils e = not_from_here ''no rosidl_typesupport_microxrcedds_c''"
  (is "\<exists>e. find_message_type_support _ ?get () _ = _ \<and> _")
proof -
  have "?get () ''rosidl_typesupport_microxrcedds_c'' (None, 0) = (None, (Some ''no rosidl_typesupport_microxrcedds_c'', 0))"
    by (simp add: warning_rcutils_def)
  moreover have "rc_get warning_rcutils (Some ''no rosidl_typesupport_microxrcedds_c'', 0) = ''no rosidl_typesupport_microxrcedds_c''"
    by (simp add: warning_rcutils_def)
  ultimately show ?thesis
    using unknown_type_support_refused [OF warning_rcutils_ok, of ?get "()" "(None, 0)"] by metis
qed

end
