(* ===== verification/Logging.thy ===== *)
theory Logging
  imports Attachment
begin

section \<open>Logging\<close>

text \<open>
  \<open>rmw_logging.c\<close> and the macros of \<open>rmw_zenoh_pico_logging.h\<close>: the level read from the process environment, the mutex around
  log lines, and the lines themselves as text on standard output.  The macros evaluate their arguments only when the
  level asks for it, so arguments are results that may be faults.
\<close>

subsection \<open>The debug level\<close>

definition Z_LOG_LVL_ERROR :: int where "Z_LOG_LVL_ERROR = 1"
definition Z_LOG_LVL_INFO :: int where "Z_LOG_LVL_INFO = 2"
definition Z_LOG_LVL_DEBUG :: int where "Z_LOG_LVL_DEBUG = 3"

text \<open>The variable before \<open>rmw_zenoh_pico_debug_level_init\<close> runs.\<close>

definition initial_debug_level :: int where
  "initial_debug_level = Z_LOG_LVL_ERROR"

text \<open>
  \<open>strncmp\<close> over the length of the name with its terminator compares the whole strings.
\<close>

definition rmw_zenoh_pico_debug_level_init :: "(string \<rightharpoonup> string) \<Rightarrow> int \<Rightarrow> int" where
  "rmw_zenoh_pico_debug_level_init getenv level =
     (case getenv ''RMW_ZNEOH_PICO_LOG'' of None \<Rightarrow> level
      | Some pathvar \<Rightarrow> let level = Z_LOG_LVL_ERROR in
          if pathvar = ''Z_LOG_DEBUG'' then (if level < Z_LOG_LVL_DEBUG then Z_LOG_LVL_DEBUG else level)
          else if pathvar = ''Z_LOG_INFO'' then (if level < Z_LOG_LVL_INFO then Z_LOG_LVL_INFO else level)
          else if pathvar = ''Z_LOG_ERROR'' then (if level < Z_LOG_LVL_ERROR then Z_LOG_LVL_ERROR else level)
          else level)"

definition rmw_zenoh_pico_debug_level_get :: "int \<Rightarrow> int" where
  "rmw_zenoh_pico_debug_level_get level = level"

text \<open>The new value of the variable and the result.\<close>

definition rmw_zenoh_pico_debug_level_set :: "int \<Rightarrow> int \<Rightarrow> int \<times> int" where
  "rmw_zenoh_pico_debug_level_set new level = (let level = new in (level, rmw_zenoh_pico_debug_level_get level))"

definition rmw_zenoh_pico_log_init :: mutex where
  "rmw_zenoh_pico_log_init = Unlocked"

definition rmw_zenoh_pico_log_lock :: "mutex \<Rightarrow> mutex res" where
  "rmw_zenoh_pico_log_lock m = z_mutex_lock m"

definition rmw_zenoh_pico_log_unlock :: "mutex \<Rightarrow> mutex res" where
  "rmw_zenoh_pico_log_unlock m = z_mutex_unlock m"

text \<open>
  The debug level comes from a misspelt variable. Only the variable RMW_ZNEOH_PICO_LOG is read: it selects debug or
  info level when it has exactly that value, and the level is error otherwise; every other
  variable, the correctly spelt RMW_ZENOH_PICO_LOG among them, has no influence.
\<close>

theorem debug_level_from_misspelt_variable:
  "rmw_zenoh_pico_debug_level_init vars initial_debug_level =
     (if vars ''RMW_ZNEOH_PICO_LOG'' = Some ''Z_LOG_DEBUG'' then Z_LOG_LVL_DEBUG
      else if vars ''RMW_ZNEOH_PICO_LOG'' = Some ''Z_LOG_INFO'' then Z_LOG_LVL_INFO
      else Z_LOG_LVL_ERROR) \<and>
   rmw_zenoh_pico_debug_level_init (vars(''RMW_ZENOH_PICO_LOG'' := v)) l = rmw_zenoh_pico_debug_level_init vars l"
  by (simp add: rmw_zenoh_pico_debug_level_init_def initial_debug_level_def Z_LOG_LVL_ERROR_def Z_LOG_LVL_INFO_def
      Z_LOG_LVL_DEBUG_def split: option.split)

subsection \<open>Log lines\<close>

text \<open>The static variables of the file, and what was printed.\<close>

record logger =
  log_level :: int
  log_mutex :: mutex
  log_tstamp :: "char list"
  log_msg :: "char list"
  log_out :: string

definition newline :: string where
  "newline = [CHR 0x0A]"

text \<open>\<open>%09ld\<close> and \<open>%-5s\<close>.\<close>

definition pad_left :: "char \<Rightarrow> nat \<Rightarrow> string \<Rightarrow> string" where
  "pad_left c n s = replicate (n - length s) c @ s"

definition pad_right :: "nat \<Rightarrow> string \<Rightarrow> string" where
  "pad_right n s = s @ replicate (n - length s) (CHR '' '')"

text \<open>\<open>text\<close> is what \<open>fmt\<close> and its arguments come to; \<open>vsnprintf\<close> cuts it.\<close>

definition z_log_prefix :: "string \<Rightarrow> string \<Rightarrow> string \<Rightarrow> logger \<Rightarrow> 'a mem_scheme \<Rightarrow> (logger \<times> 'a mem_scheme) res" where
  "z_log_prefix prefix func_name text l w =
     (case clock_gettime w of ((sec, nsec), w) \<Rightarrow>
      andthen (snprintf_at (log_tstamp l) 0 (64 - 1) (show_nat sec @ ''.'' @ pad_left (CHR ''0'') 9 (show_nat nsec))) (\<lambda>tstamp.
      andthen (snprintf_at (log_msg l) 0 (128 - 1) text) (\<lambda>msg.
        Inr (l\<lparr>log_tstamp := tstamp, log_msg := msg,
          log_out := log_out l @ ''['' @ pad_right 5 prefix @ ''] ['' @ cstr tstamp @ ''] ['' @ func_name @ ''] : '' @ cstr msg @ newline\<rparr>, w))))"

definition log_at :: "int \<Rightarrow> string \<Rightarrow> string \<Rightarrow> string res \<Rightarrow> logger \<Rightarrow> 'a mem_scheme \<Rightarrow> (logger \<times> 'a mem_scheme) res" where
  "log_at level prefix func text l w =
     (if level \<le> rmw_zenoh_pico_debug_level_get (log_level l)
      then andthen (rmw_zenoh_pico_log_lock (log_mutex l)) (\<lambda>m.
           andthen text (\<lambda>t.
           andthen (z_log_prefix prefix func t (l\<lparr>log_mutex := m\<rparr>) w) (\<lambda>(l, w).
           andthen (rmw_zenoh_pico_log_unlock (log_mutex l)) (\<lambda>m. Inr (l\<lparr>log_mutex := m\<rparr>, w)))))
      else Inr (l, w))"

definition Z_DEBUG :: "string \<Rightarrow> string res \<Rightarrow> logger \<Rightarrow> 'a mem_scheme \<Rightarrow> (logger \<times> 'a mem_scheme) res" where
  "Z_DEBUG = log_at Z_LOG_LVL_DEBUG ''DEBUG''"

definition Z_INFO :: "string \<Rightarrow> string res \<Rightarrow> logger \<Rightarrow> 'a mem_scheme \<Rightarrow> (logger \<times> 'a mem_scheme) res" where
  "Z_INFO = log_at Z_LOG_LVL_INFO ''INFO''"

definition Z_ERROR :: "string \<Rightarrow> string res \<Rightarrow> logger \<Rightarrow> 'a mem_scheme \<Rightarrow> (logger \<times> 'a mem_scheme) res" where
  "Z_ERROR = log_at Z_LOG_LVL_ERROR ''ERROR''"

text \<open>\<open>printf\<close> for formats with at most one conversion, \<open>%s\<close> or \<open>%p\<close>, and the text its argument comes to.\<close>

fun printf1 :: "string \<Rightarrow> string \<Rightarrow> string" where
  "printf1 (c # d # f) v = (if c = CHR ''%'' \<and> (d = CHR ''s'' \<or> d = CHR ''p'') then v @ f else c # printf1 (d # f) v)"
| "printf1 f v = f"

text \<open>The format is put together in a local buffer of 64 characters; the argument is read only when the line is printed.\<close>

definition RMW_ZENOH_LOG_PRINT_FORMAT :: "string \<Rightarrow> string \<Rightarrow> string \<Rightarrow> string res \<Rightarrow> logger \<Rightarrow> 'a mem_scheme \<Rightarrow> (logger \<times> 'a mem_scheme) res" where
  "RMW_ZENOH_LOG_PRINT_FORMAT func t f v l w =
     andthen (snprintf_at (replicate 64 NUL) 0 64 (t @ f)) (\<lambda>format. Z_DEBUG func (andthen v (\<lambda>v. Inr (printf1 (cstr format) v))) l w)"

text \<open>A logger between two lines.\<close>

definition logger_ok :: "logger \<Rightarrow> bool" where
  "logger_ok l \<longleftrightarrow> log_mutex l = Unlocked \<and> length (log_tstamp l) = 64 \<and> length (log_msg l) = 128"

definition log_line :: "string \<Rightarrow> string \<Rightarrow> nat \<times> nat \<Rightarrow> string \<Rightarrow> string" where
  "log_line prefix func t text = ''['' @ pad_right 5 prefix @ ''] ['' @ show_nat (fst t) @ ''.'' @ pad_left (CHR ''0'') 9 (show_nat (snd t)) @
     ''] ['' @ func @ ''] : '' @ take 126 text @ newline"

lemma snprintf_cstr:
  assumes "Suc 0 < n" and "n \<le> length buf" and "NUL \<notin> set s"
  shows "\<exists>b. snprintf_at buf 0 n s = Inr b \<and> length b = length buf \<and> cstr b = take (n - 1) s"
proof -
  let ?out = "take (n - 1) s @ [NUL]"
  have l: "length ?out \<le> length buf" using assms(1,2) by auto
  have "snprintf_at buf 0 n s = Inr (?out @ drop (length ?out) buf)" using l assms(1) by (simp add: snprintf_at_def Let_def)
  moreover have "NUL \<notin> set (take (n - 1) s)" using assms(3) by (auto dest: in_set_takeD)
  then have "cstr (?out @ drop (length ?out) buf) = take (n - 1) s"
    by (simp add: cstr_def takeWhile_tail takeWhile_append2)
  moreover have "length (?out @ drop (length ?out) buf) = length buf" using l by simp
  ultimately show ?thesis by blast
qed

lemma snprintf_fits:
  assumes "Suc 0 < n" and "n \<le> length buf" and "NUL \<notin> set s" and "length s < n"
  shows "\<exists>b. snprintf_at buf 0 n s = Inr b \<and> cstr b = s"
proof -
  obtain b where "snprintf_at buf 0 n s = Inr b" "cstr b = take (n - 1) s" using snprintf_cstr [OF assms(1-3)] by blast
  moreover have "take (n - 1) s = s" using assms(4) by simp
  ultimately show ?thesis by metis
qed

lemma show_nat_no_NUL: "NUL \<notin> set (show_nat n)"
  using show_nat_decimal decimal_char_not by blast

lemma log_at_off: "log_level l < level \<Longrightarrow> log_at level prefix func text l w = Inr (l, w)"
  by (simp add: log_at_def rmw_zenoh_pico_debug_level_get_def)

lemma log_at_on:
  assumes "level \<le> log_level l" and "logger_ok l" and "NUL \<notin> set t" and clk: "clk (env w) (ticks w) = (sec, nsec)" "sec < 10 ^ 20" "nsec < 10 ^ 9"
  shows "\<exists>l'. log_at level prefix func (Inr t) l w = Inr (l', w\<lparr>ticks := Suc (ticks w)\<rparr>) \<and> logger_ok l' \<and> log_level l' = log_level l \<and>
    log_out l' = log_out l @ log_line prefix func (sec, nsec) t"
proof -
  let ?ts = "show_nat sec @ ''.'' @ pad_left (CHR ''0'') 9 (show_nat nsec)"
  have n: "NUL \<notin> set ?ts" using show_nat_no_NUL by (simp add: pad_left_def) (simp add: NUL_def)
  have "length (show_nat sec) \<le> 20" "length (show_nat nsec) \<le> 9"
    using length_show_nat_le [of sec 20] length_show_nat_le [of nsec 9] clk(2,3) by simp_all
  then have len: "length ?ts \<le> 62" by (simp add: pad_left_def)
  obtain b where b: "snprintf_at (log_tstamp l) 0 (64 - 1) ?ts = Inr b" "length b = 64" "cstr b = take (64 - 1 - 1) ?ts"
    using snprintf_cstr [of "64 - 1" "log_tstamp l" ?ts] n assms(2) by (auto simp: logger_ok_def)
  obtain c where c: "snprintf_at (log_msg l) 0 (128 - 1) t = Inr c" "length c = 128" "cstr c = take (128 - 1 - 1) t"
    using snprintf_cstr [of "128 - 1" "log_msg l" t] assms(2,3) by (auto simp: logger_ok_def)
  have "cstr b = ?ts" using b(3) len by simp
  then show ?thesis using assms(1,2) b(1,2) c clk(1)
    by (simp add: log_at_def rmw_zenoh_pico_debug_level_get_def rmw_zenoh_pico_log_lock_def rmw_zenoh_pico_log_unlock_def z_log_prefix_def
        clock_gettime_def logger_ok_def log_line_def)
qed

text \<open>
  A log line is complete, in its place and never too long. A message of a level that is switched on becomes one line with the level
  padded to five characters, the time, the function and the first 126 characters of the message; its static buffers are not overrun, and
  the mutex is free again. A message of a level that is switched off is not even put together.
\<close>

theorem log_line_printed:
  assumes "logger_ok l" and "clk (env w) (ticks w) = (sec, nsec)" "sec < 10 ^ 20" "nsec < 10 ^ 9"
  shows "(level \<le> log_level l \<and> text = Inr t \<and> NUL \<notin> set t \<longrightarrow>
      (\<exists>l'. log_at level prefix func text l w = Inr (l', w\<lparr>ticks := Suc (ticks w)\<rparr>) \<and> logger_ok l' \<and>
         log_out l' = log_out l @ log_line prefix func (sec, nsec) t)) \<and>
    (log_level l < level \<longrightarrow> log_at level prefix func text l w = Inr (l, w))"
  using log_at_on [OF _ assms(1) _ assms(2-4)] log_at_off by blast

theorem log_line_printed_witness:
  "\<exists>l l' w'. logger_ok l \<and> Z_ERROR ''rmw_init'' (Inr ''no config'') l small_mem = Inr (l', w') \<and> log_out l = [] \<and>
     log_out l' = log_line ''ERROR'' ''rmw_init'' (clk small_env (ticks small_mem)) ''no config''"
proof -
  let ?l = "\<lparr>log_level = 1, log_mutex = Unlocked, log_tstamp = replicate 64 NUL, log_msg = replicate 128 NUL, log_out = []\<rparr>"
  have "logger_ok ?l" by (simp add: logger_ok_def)
  moreover obtain sec nsec where c: "clk (env small_mem) (ticks small_mem) = (sec, nsec)" by (meson prod.exhaust)
  moreover have "sec < 10 ^ 20" "nsec < 10 ^ 9" using c by (simp_all add: small_mem_def small_env_def)
  ultimately have "(Z_LOG_LVL_ERROR \<le> log_level ?l \<and> Inr ''no config'' = (Inr ''no config'' :: string res) \<and> NUL \<notin> set ''no config'' \<longrightarrow>
      (\<exists>l'. log_at Z_LOG_LVL_ERROR ''ERROR'' ''rmw_init'' (Inr ''no config'') ?l small_mem = Inr (l', small_mem\<lparr>ticks := Suc (ticks small_mem)\<rparr>) \<and>
         logger_ok l' \<and> log_out l' = log_out ?l @ log_line ''ERROR'' ''rmw_init'' (sec, nsec) ''no config''))"
    using log_line_printed by blast
  moreover have "Z_LOG_LVL_ERROR \<le> log_level ?l" "NUL \<notin> set ''no config''" by (simp_all add: Z_LOG_LVL_ERROR_def NUL_def)
  ultimately obtain l' where "Z_ERROR ''rmw_init'' (Inr ''no config'') ?l small_mem = Inr (l', small_mem\<lparr>ticks := Suc (ticks small_mem)\<rparr>)"
    "log_out l' = log_out ?l @ log_line ''ERROR'' ''rmw_init'' (sec, nsec) ''no config''"
    unfolding Z_ERROR_def by blast
  moreover have "clk small_env (ticks small_mem) = (sec, nsec)" using c by (simp add: small_mem_def)
  moreover have "log_out ?l = []" "log_out ?l @ log_line ''ERROR'' ''rmw_init'' (sec, nsec) ''no config'' =
      log_line ''ERROR'' ''rmw_init'' (sec, nsec) ''no config''" by simp_all
  ultimately show ?thesis using \<open>logger_ok ?l\<close> by metis
qed

end
