(* ===== verification/Debug_Print.thy ===== *)
theory Debug_Print
  imports Logging Take Client Init
begin

section \<open>What is printed at debug level\<close>

text \<open>
  The printers behind \<open>RMW_ZENOH_FUNC_ENTRY\<close> (\<open>rmw_zenoh_pico_logging.h\<close>), which every function of the interface calls before anything
  else, and the printers of the data objects.  Text that \<open>printf\<close> makes of \<open>%p\<close> is implementation-defined and a parameter \<open>pp\<close>;
  a null pointer for \<open>%s\<close> prints as \<open>(null)\<close>, as the C libraries of the supported platforms do.
\<close>

subsection \<open>Function entries\<close>

definition str_arg :: "string option \<Rightarrow> string" where
  "str_arg s = (case s of None \<Rightarrow> ''(null)'' | Some t \<Rightarrow> cstr t)"

text \<open>A string in a buffer, read for \<open>%s\<close>.\<close>

definition text_at :: "addr option \<Rightarrow> 'a mem_scheme \<Rightarrow> string res" where
  "text_at p w = (case p of None \<Rightarrow> Inr ''(null)'' | Some _ \<Rightarrow> andthen (deref (bufs w) p) (\<lambda>bs. Inr (cstr (map (\<lambda>b. char_of (unat b)) bs))))"

text \<open>Reading a member of the object behind a handle.\<close>

definition member :: "'a option \<Rightarrow> ('a \<Rightarrow> 'b res) \<Rightarrow> 'b res" where
  "member h f = (case h of None \<Rightarrow> Inl NullDeref | Some x \<Rightarrow> f x)"

lemma member_simps [simp]: "member None f = Inl NullDeref" "member (Some x) f = f x"
  by (simp_all add: member_def)

definition debug_print_log_ptr ::
  "(addr option \<Rightarrow> string) \<Rightarrow> addr option \<Rightarrow> string \<Rightarrow> string \<Rightarrow> logger \<Rightarrow> rmw_mem \<Rightarrow> (logger \<times> rmw_mem) res" where
  "debug_print_log_ptr pp v func tag l w =
     (if v = None then RMW_ZENOH_LOG_PRINT_FORMAT func tag ''()'' (Inr (pp v)) l w
      else RMW_ZENOH_LOG_PRINT_FORMAT func tag ''(%p)'' (Inr (pp v)) l w)"

definition debug_print_log_char :: "string option \<Rightarrow> string \<Rightarrow> string \<Rightarrow> logger \<Rightarrow> rmw_mem \<Rightarrow> (logger \<times> rmw_mem) res" where
  "debug_print_log_char v func tag l w = RMW_ZENOH_LOG_PRINT_FORMAT func tag ''(%s)'' (Inr (str_arg v)) l w"

definition debug_print_log_context ::
  "(addr option \<Rightarrow> string) \<Rightarrow> addr option \<Rightarrow> string \<Rightarrow> string \<Rightarrow> logger \<Rightarrow> rmw_mem \<Rightarrow> (logger \<times> rmw_mem) res" where
  "debug_print_log_context pp v func tag l w = RMW_ZENOH_LOG_PRINT_FORMAT func tag ''(%p)'' (Inr (pp v)) l w"

definition debug_print_log_node ::
  "(addr option \<Rightarrow> string) \<Rightarrow> rmw_node_t option \<Rightarrow> string \<Rightarrow> string \<Rightarrow> logger \<Rightarrow> rmw_mem \<Rightarrow> (logger \<times> rmw_mem) res" where
  "debug_print_log_node pp v func tag l w =
     RMW_ZENOH_LOG_PRINT_FORMAT func tag ''(%p)'' (member v (\<lambda>n. Inr (pp (node_context n)))) l w"

definition debug_print_log_subscription :: "rmw_subscription_t option \<Rightarrow> string \<Rightarrow> string \<Rightarrow> logger \<Rightarrow> rmw_mem \<Rightarrow> (logger \<times> rmw_mem) res" where
  "debug_print_log_subscription v func tag l w =
     RMW_ZENOH_LOG_PRINT_FORMAT func tag ''(%s)'' (member v (\<lambda>s. text_at (topic_name s) w)) l w"

definition debug_print_log_publisher :: "rmw_publisher_t option \<Rightarrow> string \<Rightarrow> string \<Rightarrow> logger \<Rightarrow> rmw_mem \<Rightarrow> (logger \<times> rmw_mem) res" where
  "debug_print_log_publisher v func tag l w =
     RMW_ZENOH_LOG_PRINT_FORMAT func tag ''(%s)'' (member v (\<lambda>p. text_at (topic_name p) w)) l w"

definition debug_print_log_event :: "rmw_event_t option \<Rightarrow> string \<Rightarrow> string \<Rightarrow> logger \<Rightarrow> rmw_mem \<Rightarrow> (logger \<times> rmw_mem) res" where
  "debug_print_log_event v func tag l w =
     RMW_ZENOH_LOG_PRINT_FORMAT func tag ''(%s)'' (member v (\<lambda>e. Inr (str_arg (ev_identifier e)))) l w"

definition debug_print_log_service :: "rmw_service_t option \<Rightarrow> string \<Rightarrow> string \<Rightarrow> logger \<Rightarrow> rmw_mem \<Rightarrow> (logger \<times> rmw_mem) res" where
  "debug_print_log_service v func tag l w =
     RMW_ZENOH_LOG_PRINT_FORMAT func tag ''(%s)'' (member v (\<lambda>s. text_at (topic_name s) w)) l w"

definition debug_print_log_client :: "rmw_client_t option \<Rightarrow> string \<Rightarrow> string \<Rightarrow> logger \<Rightarrow> rmw_mem \<Rightarrow> (logger \<times> rmw_mem) res" where
  "debug_print_log_client v func tag l w =
     RMW_ZENOH_LOG_PRINT_FORMAT func tag ''(%s)'' (member v (\<lambda>c. text_at (topic_name c) w)) l w"

definition debug_print_log_guard_condition ::
  "rmw_guard_condition_t option \<Rightarrow> string \<Rightarrow> string \<Rightarrow> logger \<Rightarrow> rmw_mem \<Rightarrow> (logger \<times> rmw_mem) res" where
  "debug_print_log_guard_condition v func tag l w =
     RMW_ZENOH_LOG_PRINT_FORMAT func tag ''(%s)'' (member v (\<lambda>g. Inr (str_arg (gh_identifier g)))) l w"

definition debug_print_log_init_options ::
  "rmw_init_options_t option \<Rightarrow> string \<Rightarrow> string \<Rightarrow> logger \<Rightarrow> rmw_mem \<Rightarrow> (logger \<times> rmw_mem) res" where
  "debug_print_log_init_options v func tag l w =
     RMW_ZENOH_LOG_PRINT_FORMAT func tag ''(%s)'' (member v (\<lambda>i. Inr (str_arg (opt_identifier i)))) l w"

definition debug_print_log_wait_set :: "rmw_wait_set_t option \<Rightarrow> string \<Rightarrow> string \<Rightarrow> logger \<Rightarrow> rmw_mem \<Rightarrow> (logger \<times> rmw_mem) res" where
  "debug_print_log_wait_set v func tag l w =
     RMW_ZENOH_LOG_PRINT_FORMAT func tag ''(%s)'' (member v (\<lambda>s. Inr (str_arg (implementation_identifier s)))) l w"

text \<open>
  Strings of zenoh have a length; at most 63 characters are copied into a buffer of 64 zeroes.  \<open>strncpy\<close> stops at a zero character.
\<close>

definition work_copy :: "string \<Rightarrow> char list res" where
  "work_copy s = (let n = (if 64 - 1 \<le> length s then 64 - 1 else length s); out = cstr (take n s) in
     if n \<le> 64 then Inr (out @ replicate (64 - length out) NUL) else Inl OutOfBounds)"

definition debug_print_log_loaned_string :: "string \<Rightarrow> string \<Rightarrow> string \<Rightarrow> logger \<Rightarrow> rmw_mem \<Rightarrow> (logger \<times> rmw_mem) res" where
  "debug_print_log_loaned_string v func tag l w =
     andthen (work_copy v) (\<lambda>work. RMW_ZENOH_LOG_PRINT_FORMAT func tag ''(%s)'' (Inr (cstr work)) l w)"

definition debug_print_log_keyexpr :: "string \<Rightarrow> string \<Rightarrow> string \<Rightarrow> logger \<Rightarrow> rmw_mem \<Rightarrow> (logger \<times> rmw_mem) res" where
  "debug_print_log_keyexpr suffix func tag l w =
     andthen (work_copy suffix) (\<lambda>work. RMW_ZENOH_LOG_PRINT_FORMAT func tag ''(%s)'' (Inr (cstr work)) l w)"

text \<open>
  A sample's key expression, and the selection of the printer by the static type of the argument.  The selection lists pointers to
  constant objects only, and no wait sets: every other pointer goes to the default, \<open>Entry_Ptr\<close>, which does not look behind it.
\<close>


definition debug_print_log_loaned_sample :: "string \<Rightarrow> string \<Rightarrow> string \<Rightarrow> logger \<Rightarrow> rmw_mem \<Rightarrow> (logger \<times> rmw_mem) res" where
  "debug_print_log_loaned_sample key func tag l w = debug_print_log_keyexpr key func tag l w"

datatype entry_arg =
    Entry_Char "string option"
  | Entry_Context "addr option"
  | Entry_Node "rmw_node_t option"
  | Entry_Subscription "rmw_subscription_t option"
  | Entry_Publisher "rmw_publisher_t option"
  | Entry_Event "rmw_event_t option"
  | Entry_Service "rmw_service_t option"
  | Entry_Client "rmw_client_t option"
  | Entry_Guard_Condition "rmw_guard_condition_t option"
  | Entry_Init_Options "rmw_init_options_t option"
  | Entry_Loaned_String string
  | Entry_Keyexpr string
  | Entry_Loaned_Sample string
  | Entry_Ptr "addr option"

fun RMW_ZENOH_DEBUG_PRINT ::
  "(addr option \<Rightarrow> string) \<Rightarrow> entry_arg \<Rightarrow> string \<Rightarrow> string \<Rightarrow> logger \<Rightarrow> rmw_mem \<Rightarrow> (logger \<times> rmw_mem) res" where
  "RMW_ZENOH_DEBUG_PRINT pp (Entry_Char v) = debug_print_log_char v"
| "RMW_ZENOH_DEBUG_PRINT pp (Entry_Context v) = debug_print_log_context pp v"
| "RMW_ZENOH_DEBUG_PRINT pp (Entry_Node v) = debug_print_log_node pp v"
| "RMW_ZENOH_DEBUG_PRINT pp (Entry_Subscription v) = debug_print_log_subscription v"
| "RMW_ZENOH_DEBUG_PRINT pp (Entry_Publisher v) = debug_print_log_publisher v"
| "RMW_ZENOH_DEBUG_PRINT pp (Entry_Event v) = debug_print_log_event v"
| "RMW_ZENOH_DEBUG_PRINT pp (Entry_Service v) = debug_print_log_service v"
| "RMW_ZENOH_DEBUG_PRINT pp (Entry_Client v) = debug_print_log_client v"
| "RMW_ZENOH_DEBUG_PRINT pp (Entry_Guard_Condition v) = debug_print_log_guard_condition v"
| "RMW_ZENOH_DEBUG_PRINT pp (Entry_Init_Options v) = debug_print_log_init_options v"
| "RMW_ZENOH_DEBUG_PRINT pp (Entry_Loaned_String v) = debug_print_log_loaned_string v"
| "RMW_ZENOH_DEBUG_PRINT pp (Entry_Keyexpr v) = debug_print_log_keyexpr v"
| "RMW_ZENOH_DEBUG_PRINT pp (Entry_Loaned_Sample v) = debug_print_log_loaned_sample v"
| "RMW_ZENOH_DEBUG_PRINT pp (Entry_Ptr v) = debug_print_log_ptr pp v"

definition RMW_ZENOH_FUNC_ENTRY ::
  "(addr option \<Rightarrow> string) \<Rightarrow> entry_arg \<Rightarrow> string \<Rightarrow> logger \<Rightarrow> rmw_mem \<Rightarrow> (logger \<times> rmw_mem) res" where
  "RMW_ZENOH_FUNC_ENTRY pp v func l w = RMW_ZENOH_DEBUG_PRINT pp v func ''start : '' l w"

text \<open>What is printed between the parentheses; reading it from a null handle is a fault.\<close>

fun entry_text :: "(addr option \<Rightarrow> string) \<Rightarrow> rmw_mem \<Rightarrow> entry_arg \<Rightarrow> string res" where
  "entry_text pp w (Entry_Char v) = Inr (str_arg v)"
| "entry_text pp w (Entry_Context v) = Inr (pp v)"
| "entry_text pp w (Entry_Node v) = member v (\<lambda>n. Inr (pp (node_context n)))"
| "entry_text pp w (Entry_Subscription v) = member v (\<lambda>s. text_at (topic_name s) w)"
| "entry_text pp w (Entry_Publisher v) = member v (\<lambda>s. text_at (topic_name s) w)"
| "entry_text pp w (Entry_Event v) = member v (\<lambda>e. Inr (str_arg (ev_identifier e)))"
| "entry_text pp w (Entry_Service v) = member v (\<lambda>s. text_at (topic_name s) w)"
| "entry_text pp w (Entry_Client v) = member v (\<lambda>s. text_at (topic_name s) w)"
| "entry_text pp w (Entry_Guard_Condition v) = member v (\<lambda>g. Inr (str_arg (gh_identifier g)))"
| "entry_text pp w (Entry_Init_Options v) = member v (\<lambda>i. Inr (str_arg (opt_identifier i)))"
| "entry_text pp w (Entry_Loaned_String s) = Inr (cstr (take 63 s))"
| "entry_text pp w (Entry_Keyexpr s) = Inr (cstr (take 63 s))"
| "entry_text pp w (Entry_Loaned_Sample s) = Inr (cstr (take 63 s))"
| "entry_text pp w (Entry_Ptr v) = Inr (if v = None then [] else pp v)"

lemmas printer_defs = debug_print_log_ptr_def debug_print_log_char_def debug_print_log_context_def debug_print_log_node_def
  debug_print_log_subscription_def debug_print_log_publisher_def debug_print_log_event_def debug_print_log_service_def
  debug_print_log_client_def debug_print_log_guard_condition_def debug_print_log_init_options_def debug_print_log_wait_set_def

lemma print_format_start:
  "RMW_ZENOH_LOG_PRINT_FORMAT func ''start : '' ''(%p)'' v l w = Z_DEBUG func (andthen v (\<lambda>v. Inr (''start : ('' @ v @ '')''))) l w"
  "RMW_ZENOH_LOG_PRINT_FORMAT func ''start : '' ''(%s)'' v l w = Z_DEBUG func (andthen v (\<lambda>v. Inr (''start : ('' @ v @ '')''))) l w"
  "RMW_ZENOH_LOG_PRINT_FORMAT func ''start : '' ''()'' v l w = Z_DEBUG func (andthen v (\<lambda>v. Inr ''start : ()'')) l w"
proof -
  have go: "RMW_ZENOH_LOG_PRINT_FORMAT func t f v l w = Z_DEBUG func (andthen v (\<lambda>v. Inr (printf1 (t @ f) v))) l w"
    if n: "NUL \<notin> set (t @ f)" "length (t @ f) \<le> 63" for t f
  proof -
    have "\<exists>b. snprintf_at (replicate 64 NUL) 0 64 (t @ f) = Inr b \<and> cstr b = t @ f"
      by (rule snprintf_fits) (use n in simp_all)
    then obtain b where "snprintf_at (replicate 64 NUL) 0 64 (t @ f) = Inr b" "cstr b = t @ f" by blast
    then show ?thesis by (simp add: RMW_ZENOH_LOG_PRINT_FORMAT_def)
  qed
  show "RMW_ZENOH_LOG_PRINT_FORMAT func ''start : '' ''(%p)'' v l w = Z_DEBUG func (andthen v (\<lambda>v. Inr (''start : ('' @ v @ '')''))) l w"
    "RMW_ZENOH_LOG_PRINT_FORMAT func ''start : '' ''(%s)'' v l w = Z_DEBUG func (andthen v (\<lambda>v. Inr (''start : ('' @ v @ '')''))) l w"
    "RMW_ZENOH_LOG_PRINT_FORMAT func ''start : '' ''()'' v l w = Z_DEBUG func (andthen v (\<lambda>v. Inr ''start : ()'')) l w"
    using go [of "''start : ''" "''(%p)''"] go [of "''start : ''" "''(%s)''"] go [of "''start : ''" "''()''"] by (simp_all add: NUL_def)
qed

lemma work_copy_text: "\<exists>b. work_copy s = Inr b \<and> cstr b = cstr (take 63 s)"
proof -
  have t: "take (if 64 - 1 \<le> length s then 64 - 1 else length s) s = take 63 s" by simp
  have "cstr (cstr (take 63 s) @ replicate n NUL) = cstr (take 63 s)" for n
  proof -
    have "\<forall>c \<in> set (cstr (take 63 s)). c \<noteq> NUL" using NUL_notin_cstr by metis
    then show ?thesis by (cases n) (simp_all add: cstr_def takeWhile_append2)
  qed
  then show ?thesis unfolding work_copy_def Let_def t by simp
qed

lemma func_entry_eq:
  "RMW_ZENOH_FUNC_ENTRY pp v func l w = Z_DEBUG func (andthen (entry_text pp w v) (\<lambda>t. Inr (''start : ('' @ t @ '')''))) l w"
proof -
  have work: "debug_print_log_loaned_string s func ''start : '' l w = Z_DEBUG func (Inr (''start : ('' @ cstr (take 63 s) @ '')'')) l w"
    "debug_print_log_keyexpr s func ''start : '' l w = Z_DEBUG func (Inr (''start : ('' @ cstr (take 63 s) @ '')'')) l w" for s
  proof -
    obtain b where "work_copy s = Inr b" "cstr b = cstr (take 63 s)" using work_copy_text by blast
    then show "debug_print_log_loaned_string s func ''start : '' l w = Z_DEBUG func (Inr (''start : ('' @ cstr (take 63 s) @ '')'')) l w"
      "debug_print_log_keyexpr s func ''start : '' l w = Z_DEBUG func (Inr (''start : ('' @ cstr (take 63 s) @ '')'')) l w"
      by (simp_all add: debug_print_log_loaned_string_def debug_print_log_keyexpr_def print_format_start)
  qed
  show ?thesis
    by (cases v) (simp_all add: RMW_ZENOH_FUNC_ENTRY_def work debug_print_log_loaned_sample_def printer_defs print_format_start)
qed

text \<open>The entries whose object is read, and whether there is one.\<close>

fun entry_null :: "entry_arg \<Rightarrow> bool" where
  "entry_null (Entry_Node v) \<longleftrightarrow> v = None"
| "entry_null (Entry_Subscription v) \<longleftrightarrow> v = None"
| "entry_null (Entry_Publisher v) \<longleftrightarrow> v = None"
| "entry_null (Entry_Event v) \<longleftrightarrow> v = None"
| "entry_null (Entry_Service v) \<longleftrightarrow> v = None"
| "entry_null (Entry_Client v) \<longleftrightarrow> v = None"
| "entry_null (Entry_Guard_Condition v) \<longleftrightarrow> v = None"
| "entry_null (Entry_Init_Options v) \<longleftrightarrow> v = None"
| "entry_null _ \<longleftrightarrow> False"

lemma entry_null_faults: "entry_null v \<Longrightarrow> entry_text pp w v = Inl NullDeref"
  by (cases v) simp_all

text \<open>
  C39: At debug level a null handle crashes before it is refused. The functions of the interface report their start with their handle before they
  check their arguments. While the level is below debug this does nothing at all; at debug level a constant handle of a node, subscription,
  publisher, service, client, event, guard condition or init options is read, so that a null handle, for which
  the functions promise an error code, is a null pointer access: rmw_take answers invalid argument at one
  level and crashes at the other.
\<close>

theorem func_entry_null_handle:
  "(log_level l < Z_LOG_LVL_DEBUG \<longrightarrow> RMW_ZENOH_FUNC_ENTRY pp v func l w = Inr (l, w) \<and>
      andthen (RMW_ZENOH_FUNC_ENTRY pp (Entry_Subscription None) ''rmw_take'' l w) (\<lambda>(l, w). rmw_take None m t w) =
        Inr (RMW_RET_INVALID_ARGUMENT, t, m, w)) \<and>
   (Z_LOG_LVL_DEBUG \<le> log_level l \<and> log_mutex l = Unlocked \<and> entry_null v \<longrightarrow>
      RMW_ZENOH_FUNC_ENTRY pp v func l w = Inl NullDeref \<and>
      andthen (RMW_ZENOH_FUNC_ENTRY pp (Entry_Subscription None) ''rmw_take'' l w) (\<lambda>(l, w). rmw_take None m t w) = Inl NullDeref)"
proof (intro conjI impI)
  assume "log_level l < Z_LOG_LVL_DEBUG"
  then have off: "Z_DEBUG f t l w = Inr (l, w)" for f t by (simp add: Z_DEBUG_def log_at_off)
  show "RMW_ZENOH_FUNC_ENTRY pp v func l w = Inr (l, w)"
    "andthen (RMW_ZENOH_FUNC_ENTRY pp (Entry_Subscription None) ''rmw_take'' l w) (\<lambda>(l, w). rmw_take None m t w) =
      Inr (RMW_RET_INVALID_ARGUMENT, t, m, w)"
    by (simp_all add: func_entry_eq off rmw_take_def)
next
  assume "Z_LOG_LVL_DEBUG \<le> log_level l \<and> log_mutex l = Unlocked \<and> entry_null v"
  then have on: "Z_DEBUG f (Inl NullDeref) l w = Inl NullDeref" and v: "entry_null v" for f
    by (simp_all add: Z_DEBUG_def log_at_def rmw_zenoh_pico_debug_level_get_def rmw_zenoh_pico_log_lock_def)
  show "RMW_ZENOH_FUNC_ENTRY pp v func l w = Inl NullDeref"
    "andthen (RMW_ZENOH_FUNC_ENTRY pp (Entry_Subscription None) ''rmw_take'' l w) (\<lambda>(l, w). rmw_take None m t w) = Inl NullDeref"
    by (simp_all add: func_entry_eq on entry_null_faults [OF v])
qed

theorem func_entry_null_handle_witness:
  "\<exists>l w. RMW_ZENOH_FUNC_ENTRY (\<lambda>_. []) (Entry_Node None) ''rmw_count_publishers'' l w = Inl NullDeref \<and>
     andthen (RMW_ZENOH_FUNC_ENTRY (\<lambda>_. []) (Entry_Subscription None) ''rmw_take'' l w) (\<lambda>(l, w). rmw_take None None None w) = Inl NullDeref"
proof -
  let ?l = "\<lparr>log_level = Z_LOG_LVL_DEBUG, log_mutex = Unlocked, log_tstamp = replicate 64 NUL, log_msg = replicate 128 NUL, log_out = []\<rparr>"
  have "Z_LOG_LVL_DEBUG \<le> log_level ?l \<and> log_mutex ?l = Unlocked \<and> entry_null (Entry_Node None)" by simp
  then show ?thesis using func_entry_null_handle [of ?l "\<lambda>_. []" "Entry_Node None"] by blast
qed

end
