(* ===== verification/Data_Print.thy ===== *)
theory Data_Print
  imports Logging Service
begin

section \<open>Printing the data objects\<close>

text \<open>They print to standard output; the value is the text, or the fault of an access outside an object.\<close>

definition line_of :: "string list \<Rightarrow> string" where
  "line_of ts = concat ts @ newline"

definition bracketed :: "string \<Rightarrow> string \<Rightarrow> string" where
  "bracketed tag t = line_of [tag, ''['', t, '']'']"

text \<open>\<open>Z_STRING_PRINTF\<close>: \<open>%.*s\<close> prints a string of zenoh up to its length or a zero character.\<close>

definition Z_STRING_PRINTF :: "string \<Rightarrow> string \<Rightarrow> string" where
  "Z_STRING_PRINTF s tag = (if s = [] then line_of [tag, '' = []''] else line_of [tag, '' = ['', cstr s, '']''])"

text \<open>The loop reads four bytes of the gid in each round.\<close>

fun gid_groups :: "byte list \<Rightarrow> string res" where
  "gid_groups [] = Inr []"
| "gid_groups (a # b # c # d # r) = andthen (gid_groups r) (\<lambda>t. Inr (hex_byte a @ hex_byte b @ hex_byte c @ hex_byte d @ t))"
| "gid_groups _ = Inl OutOfBounds"

definition attachment_debug :: "zenoh_pico_attachemt_data \<Rightarrow> string res" where
  "attachment_debug d =
     andthen (gid_groups (gid d)) (\<lambda>g.
       Inr (line_of [''--------- attachment data ----------''] @
            bracketed ''sequence_num = '' (show_nat (unat (sequence_num d))) @
            bracketed ''timestamp    = '' (show_nat (unat (timestamp d))) @
            line_of [''gid          = ['', g, ''][''  , show_nat (length (gid d)), '']'']))"

definition PAYLOAD_DUMP_MAX :: nat where
  "PAYLOAD_DUMP_MAX = 32"

definition peek :: "byte list \<Rightarrow> nat \<Rightarrow> byte res" where
  "peek p i = (if i < length p then Inr (p ! i) else Inl OutOfBounds)"

definition is_alpha :: "char \<Rightarrow> bool" where
  "is_alpha c = (let n = (of_char c :: nat) in 65 \<le> n \<and> n \<le> 90 \<or> 97 \<le> n \<and> n \<le> 122)"

definition shown_char :: "byte \<Rightarrow> char" where
  "shown_char b = (let c = char_of (unat b) in if is_alpha c then c else CHR ''.'')"

text \<open>A row of the dump: the bytes in hexadecimal, the gap of the format, and the letters among them.\<close>

fun separate :: "string \<Rightarrow> string list \<Rightarrow> string list" where
  "separate sep (s # t # r) = s # sep # separate sep (t # r)"
| "separate sep ss = ss"

primrec peeks :: "byte list \<Rightarrow> nat \<Rightarrow> nat \<Rightarrow> byte list res" where
  "peeks p i 0 = Inr []"
| "peeks p i (Suc n) = andthen (peek p i) (\<lambda>b. andthen (peeks p (Suc i) n) (\<lambda>bs. Inr (b # bs)))"

definition dump_row :: "byte list \<Rightarrow> nat \<Rightarrow> nat \<Rightarrow> string res" where
  "dump_row p start left =
     (let row = \<lambda>n gap. andthen (peeks p start n) (\<lambda>bs.
        Inr (concat (separate '' '' (map hex_byte bs)) @ gap @ [CHR 0x09] @ concat (separate '' '' (map (\<lambda>b. [shown_char b]) bs)))) in
      if 4 \<le> left then row 4 []
      else if 3 \<le> left then row 3 ''     ''
      else if 2 \<le> left then row 2 ''          ''
      else if 1 \<le> left then row 1 ''               ''
      else Inr [])"

text \<open>The loop condition lets the row that starts at byte 32 pass, so that up to 36 bytes are shown.\<close>

function dump_loop :: "byte list \<Rightarrow> nat \<Rightarrow> nat \<Rightarrow> string res" where
  "dump_loop p sz count =
     (if count < sz \<and> count \<le> PAYLOAD_DUMP_MAX
      then andthen (dump_row p count (sz - count)) (\<lambda>r. andthen (dump_loop p sz (count + 4)) (\<lambda>t. Inr (r @ newline @ t)))
      else Inr [])"
  by pat_completeness auto
termination by (relation "measure (\<lambda>(p, sz, count). sz - count)") auto

declare dump_loop.simps [simp del]

definition zenoh_pico_debug_dump_msg :: "byte list \<Rightarrow> nat \<Rightarrow> string res" where
  "zenoh_pico_debug_dump_msg start sz =
     andthen (dump_loop start sz 0) (\<lambda>t. Inr (bracketed ''size = '' (show_int (int_of_size sz)) @ t))"

text \<open>\<open>strong_count\<close> is the reference count zenoh keeps for a query.\<close>

definition rmw_zenoh_pico_debug_recv_msg_data :: "(nat option \<Rightarrow> nat) \<Rightarrow> addr option \<Rightarrow> 'a msg_mem_scheme \<Rightarrow> string res" where
  "rmw_zenoh_pico_debug_recv_msg_data strong_count recv_data w =
     andthen (deref (msgs w) recv_data) (\<lambda>d.
     andthen (attachment_debug (attachment d)) (\<lambda>att.
     andthen (if payload_size d = 0 then Inr [] else deref (bufs w) (payload_start d)) (\<lambda>payload.
     andthen (zenoh_pico_debug_dump_msg payload (payload_size d)) (\<lambda>dump.
       Inr (line_of [''--------- recv msg data ----------''] @
            line_of [''ref              = '', show_int (ref d)] @
            bracketed ''recv_timestamp   = '' (show_nat (unat (recv_timestamp d))) @
            bracketed ''query ref        = '' (show_nat (strong_count (query d))) @
            att @ line_of [''--------- recv simple data ----------''] @ dump)))))"

text \<open>The loop of \<open>recv_msg_list_debug\<close>, with fuel; the mutex of the queue is held during the loop and free afterwards.\<close>

fun debug_loop :: "nat \<Rightarrow> nat \<Rightarrow> (nat option \<Rightarrow> nat) \<Rightarrow> addr option \<Rightarrow> 'a msg_mem_scheme \<Rightarrow> string res" where
  "debug_loop fuel count rc p w =
     (if p = None then Inr []
      else (case fuel of 0 \<Rightarrow> Inl Nontermination | Suc n \<Rightarrow>
        andthen (rmw_zenoh_pico_debug_recv_msg_data rc p w) (\<lambda>t.
        andthen (deref (msgs w) p) (\<lambda>d.
        andthen (debug_loop n (Suc count) rc (next_msg d) w) (\<lambda>r.
          Inr (line_of [''['', show_int (int_of_size count), '']''] @ t @ r))))))"

declare debug_loop.simps [simp del]

definition recv_msg_list_debug ::
  "(addr option \<Rightarrow> string) \<Rightarrow> (nat option \<Rightarrow> nat) \<Rightarrow> ReceiveMessageDataList option \<Rightarrow> 'a msg_mem_scheme
     \<Rightarrow> (string \<times> ReceiveMessageDataList option) res" where
  "recv_msg_list_debug pp rc msg_list w =
     (case msg_list of None \<Rightarrow> Inr (line_of [''msg_list is NULL''], None) | Some l \<Rightarrow>
        andthen (z_mutex_lock (que_mutex l)) (\<lambda>m.
        andthen (debug_loop (next_addr w) 0 rc (que_top l) w) (\<lambda>t.
        andthen (z_mutex_unlock m) (\<lambda>m.
          Inr (line_of [''data dump start ['', show_int (que_count l), '']... ''] @
               bracketed ''que top    = '' (pp (que_top l)) @ bracketed ''que bottom = '' (pp (que_bottom l)) @
               t @ line_of [''data dump end  ... ''], Some (l\<lparr>que_mutex := m\<rparr>))))))"

definition zenoh_pico_debug_node_info :: "addr option \<Rightarrow> 'a ent_mem_scheme \<Rightarrow> string res" where
  "zenoh_pico_debug_node_info p w = andthen (deref (node_infos w) p) (\<lambda>i.
     Inr (line_of [''node info ...''] @
       line_of [[CHR 0x09], ''domain        = '', cstr (ni_domain i)] @ line_of [[CHR 0x09], ''namespace     = '', cstr (ni_ns i)] @
       line_of [[CHR 0x09], ''name          = '', cstr (ni_name i)] @ line_of [[CHR 0x09], ''enclave_      = '', cstr (ni_enclave i)]))"

definition topic_line :: "string \<Rightarrow> string \<Rightarrow> string" where
  "topic_line tag s = line_of [[CHR 0x09], tag, '' = ['', cstr s, ''][''  , show_nat (length s), '']'']"

definition zenoh_pico_debug_topic_info :: "addr option \<Rightarrow> 'a ent_mem_scheme \<Rightarrow> string res" where
  "zenoh_pico_debug_topic_info p w = andthen (deref (topic_infos w) p) (\<lambda>i.
     Inr (line_of [''topic info ...''] @ topic_line ''name'' (ti_name i) @ topic_line ''type'' (ti_type i) @
       topic_line ''hash'' (ti_hash i) @ topic_line ''qos '' (ti_qos i)))"

fun entity_type_name :: "ZenohPicoEntityType \<Rightarrow> string" where
  "entity_type_name Node = ''Node''"
| "entity_type_name Publisher = ''Publisher''"
| "entity_type_name Subscription = ''Subscription''"
| "entity_type_name Service = ''Service''"
| "entity_type_name Client = ''Client''"

definition zenoh_pico_debug_entity :: "addr option \<Rightarrow> 'a ent_mem_scheme \<Rightarrow> string res" where
  "zenoh_pico_debug_entity p w = andthen (deref (entities w) p) (\<lambda>e.
     andthen (if node_info e \<noteq> None then zenoh_pico_debug_node_info (node_info e) w else Inr (line_of [''not found node info''])) (\<lambda>n.
     andthen (if topic_info e \<noteq> None then zenoh_pico_debug_topic_info (topic_info e) w else Inr (line_of [''not found topic info''])) (\<lambda>t.
       Inr (line_of [''--------- entity data ----------''] @ line_of [''ref = '', show_int (ref e)] @ Z_STRING_PRINTF (ent_zid e) ''zid'' @
         line_of [''id  = '', show_int (int_of_size (ent_id e))] @ line_of [''nid = '', show_int (int_of_size (ent_nid e))] @
         line_of [''type = '', entity_type_name (ent_type e)] @ n @ t))))"

definition zenoh_pico_debug_node_data :: "addr option \<Rightarrow> rmw_mem \<Rightarrow> string res" where
  "zenoh_pico_debug_node_data p w = andthen (deref (node_datas w) p) (\<lambda>d. andthen (zenoh_pico_debug_entity (nd_entity d) w) (\<lambda>e.
     Inr (line_of [''--------- node data ----------''] @ line_of [''ref = '', show_int (ref d)] @
       Z_STRING_PRINTF (nd_liveliness_key d) ''liveliness_key'' @ e)))"

definition zenoh_pico_debug_subscription_data :: "addr option \<Rightarrow> rmw_mem \<Rightarrow> string res" where
  "zenoh_pico_debug_subscription_data p w = andthen (deref (sub_datas w) p) (\<lambda>d.
     andthen (recv_msg_list_count (Some (message_queue d))) (\<lambda>(n, _). andthen (zenoh_pico_debug_entity (sub_entity d) w) (\<lambda>e.
     Inr (line_of [''--------- subscription data ----------''] @ line_of [''ref = '', show_int (ref d)] @
       Z_STRING_PRINTF (sub_liveliness_key d) ''liveliness_key'' @ Z_STRING_PRINTF (sub_topic_key d) ''topic_key'' @
       line_of [''message_queue = '', show_int n] @ e))))"

definition zenoh_pico_debug_publisher_data :: "addr option \<Rightarrow> rmw_mem \<Rightarrow> string res" where
  "zenoh_pico_debug_publisher_data p w = andthen (deref (pub_datas w) p) (\<lambda>d.
     andthen (attachment_debug (pub_attachment d)) (\<lambda>a. andthen (zenoh_pico_debug_entity (pub_entity d) w) (\<lambda>e.
     Inr (line_of [''--------- publisher data ----------''] @ line_of [''ref = '', show_int (ref d)] @
       Z_STRING_PRINTF (pub_liveliness_key d) ''liveliness_key'' @ Z_STRING_PRINTF (pub_topic_key d) ''topic_key'' @ a @ e))))"

definition zenoh_pico_debug_service_data :: "addr option \<Rightarrow> rmw_mem \<Rightarrow> string res" where
  "zenoh_pico_debug_service_data p w = andthen (deref (service_datas w) p) (\<lambda>d.
     andthen (recv_msg_list_count (Some (request_queue d))) (\<lambda>(n, _).
     andthen (attachment_debug (srv_attachment d)) (\<lambda>a. andthen (zenoh_pico_debug_entity (srv_entity d) w) (\<lambda>e.
     Inr (line_of [''--------- client data ----------''] @ line_of [''ref = '', show_int (ref d)] @
       Z_STRING_PRINTF (srv_liveliness_key d) ''liveliness_key'' @ Z_STRING_PRINTF (srv_topic_key d) ''topic_key'' @
       line_of [''request_queue = '', show_int n] @ a @ e)))))"

subsection \<open>Which reads stay inside\<close>

lemma gid_groups_eq: "gid_groups g = (if 4 dvd length g then Inr (concat (map hex_byte g)) else Inl OutOfBounds)"
proof (induction g rule: gid_groups.induct)
  case (2 a b c d r)
  have "4 dvd length (a # b # c # d # r) \<longleftrightarrow> 4 dvd length r" by (simp add: numeral_eq_Suc dvd_def) presburger
  then show ?case using 2 by simp
qed (auto simp: numeral_eq_Suc dest: dvd_imp_le)

lemma attachment_debug_returns: "returns (attachment_debug d) \<longleftrightarrow> 4 dvd length (gid d)"
  by (simp add: attachment_debug_def gid_groups_eq)

lemma attachment_debug_fault: "\<not> 4 dvd length (gid d) \<Longrightarrow> attachment_debug d = Inl OutOfBounds"
  by (simp add: attachment_debug_def gid_groups_eq)

lemma peeks_eq: "peeks p i n = (if n = 0 \<or> i + n \<le> length p then Inr (take n (drop i p)) else Inl OutOfBounds)"
proof (induction n arbitrary: i)
  case (Suc n)
  show ?case
  proof (cases "i < length p")
    case True
    then have "take (Suc n) (drop i p) = p ! i # take n (drop (Suc i) p)" by (metis Cons_nth_drop_Suc take_Suc_Cons)
    then show ?thesis using True Suc by (auto simp: peek_def)
  qed (simp add: peek_def)
qed simp

lemma dump_row_returns: "0 < left \<Longrightarrow> returns (dump_row p start left) \<longleftrightarrow> start + min left 4 \<le> length p"
  by (auto simp: dump_row_def peeks_eq)

lemma dump_row_fault: "0 < left \<Longrightarrow> \<not> start + min left 4 \<le> length p \<Longrightarrow> dump_row p start left = Inl OutOfBounds"
  by (auto simp: dump_row_def peeks_eq)

lemma dump_loop_bounds:
  "4 dvd count \<Longrightarrow>
     (if min sz 36 \<le> count \<or> min sz 36 \<le> length p then returns (dump_loop p sz count) else dump_loop p sz count = Inl OutOfBounds)"
proof (induction p sz count rule: dump_loop.induct)
  case (1 p sz count)
  have step: "dump_loop p sz count =
     (if count < sz \<and> count \<le> 32
      then andthen (dump_row p count (sz - count)) (\<lambda>r. andthen (dump_loop p sz (count + 4)) (\<lambda>t. Inr (r @ newline @ t)))
      else Inr [])" by (subst dump_loop.simps) (simp add: PAYLOAD_DUMP_MAX_def)
  show ?case
  proof (cases "count < sz \<and> count \<le> 32")
    case False
    then have "min sz 36 \<le> count" using 1(2) by (auto simp: dvd_def)
    moreover have "dump_loop p sz count = Inr []" using False step by auto
    ultimately show ?thesis by simp
  next
    case True
    show ?thesis
    proof (cases "count + min (sz - count) 4 \<le> length p")
      case False
      then have "dump_row p count (sz - count) = Inl OutOfBounds" using True by (intro dump_row_fault) auto
      moreover have "\<not> min sz 36 \<le> count" "\<not> min sz 36 \<le> length p" using True False by auto
      ultimately show ?thesis using True step by simp
    next
      case ok: True
      then obtain r where r: "dump_row p count (sz - count) = Inr r"
        using True dump_row_returns [of "sz - count" p count] by (auto simp: returns_iff)
      have "PAYLOAD_DUMP_MAX = 32" by (simp add: PAYLOAD_DUMP_MAX_def)
      then have ih: "if min sz 36 \<le> count + 4 \<or> min sz 36 \<le> length p then returns (dump_loop p sz (count + 4))
          else dump_loop p sz (count + 4) = Inl OutOfBounds"
        using 1 True r by simp
      have "min sz 36 \<le> length p" if "min sz 36 \<le> count + 4" using that ok True by (auto simp: min_def split: if_splits)
      then show ?thesis using ih True step r by (auto simp: returns_iff split: if_splits)
    qed
  qed
qed

lemma peeks_take: "i + n \<le> k \<Longrightarrow> peeks (take k p) i n = peeks p i n"
  by (auto simp: peeks_eq drop_take min_def)

lemma dump_row_take: "start + 4 \<le> k \<Longrightarrow> dump_row (take k p) start left = dump_row p start left"
  by (simp add: dump_row_def peeks_take del: peeks.simps)

lemma dump_loop_take: "dump_loop (take 36 p) sz count = dump_loop p sz count"
proof (induction p sz count rule: dump_loop.induct)
  case (1 p sz count)
  show ?case
    by (subst (1 2) dump_loop.simps)
      (use 1 in \<open>auto simp: PAYLOAD_DUMP_MAX_def dump_row_take intro!: andthen_cong\<close>)
qed

text \<open>
  The dump of a message reads its size, or 36 bytes. It reads outside the message exactly when the
  message is shorter than both the size it is given and 36 bytes, and it never looks at what lies behind the first 36 bytes, one row more than its
  limit of 32.
\<close>

theorem dump_msg_bounds:
  "(returns (zenoh_pico_debug_dump_msg p sz) \<longleftrightarrow> min sz (PAYLOAD_DUMP_MAX + 4) \<le> length p) \<and>
   zenoh_pico_debug_dump_msg (take (PAYLOAD_DUMP_MAX + 4) p) sz = zenoh_pico_debug_dump_msg p sz"
proof -
  have "min sz 36 = 0 \<Longrightarrow> min sz 36 \<le> length p" by simp
  then have "returns (dump_loop p sz 0) \<longleftrightarrow> min sz 36 \<le> length p"
    using dump_loop_bounds [of 0 sz p] by (auto split: if_splits)
  then show ?thesis by (auto simp: zenoh_pico_debug_dump_msg_def PAYLOAD_DUMP_MAX_def dump_loop_take returns_iff andthen_eq_Inr)
qed

subsection \<open>A whole queue\<close>

text \<open>A message whose payload buffer is as long as its size says.\<close>

definition printable :: "'a msg_mem_scheme \<Rightarrow> addr \<Rightarrow> bool" where
  "printable w a = (case msgs w a of None \<Rightarrow> False | Some d \<Rightarrow> payload_size d = 0 \<or>
     (case payload_start d of None \<Rightarrow> False | Some p \<Rightarrow> (case bufs w p of None \<Rightarrow> False | Some b \<Rightarrow> payload_size d \<le> length b)))"

definition gid_in_words :: "msg_heap \<Rightarrow> addr \<Rightarrow> bool" where
  "gid_in_words h a = (case h a of None \<Rightarrow> False | Some d \<Rightarrow> 4 dvd length (gid (attachment d)))"

lemma recv_msg_data_printed:
  assumes "printable w a"
  shows "if gid_in_words (msgs w) a then returns (rmw_zenoh_pico_debug_recv_msg_data rc (Some a) w)
    else rmw_zenoh_pico_debug_recv_msg_data rc (Some a) w = Inl OutOfBounds"
proof -
  obtain d where d: "msgs w a = Some d" using assms by (auto simp: printable_def split: option.splits)
  obtain b where b: "(if payload_size d = 0 then Inr [] else deref (bufs w) (payload_start d)) = Inr b" "payload_size d \<le> length b"
    using assms d by (cases "payload_size d = 0") (auto simp: printable_def split: option.splits)
  then have "returns (zenoh_pico_debug_dump_msg b (payload_size d))"
    using dump_loop_bounds [of 0 "payload_size d" b] by (auto simp: zenoh_pico_debug_dump_msg_def returns_iff split: if_splits)
  then show ?thesis using d b(1) attachment_debug_fault [of "attachment d"] attachment_debug_returns [of "attachment d"]
    by (auto simp: rmw_zenoh_pico_debug_recv_msg_data_def gid_in_words_def returns_iff)
qed

definition numbered :: "nat \<Rightarrow> string \<Rightarrow> string" where
  "numbered i t = line_of [''['', show_int (int_of_size i), '']''] @ t"

lemma debug_loop_printed:
  assumes "chain (msgs w) p as" and "\<forall>a \<in> set as. printable w a" and "length as \<le> n"
  shows "if \<forall>a \<in> set as. gid_in_words (msgs w) a
    then \<exists>ts. list_all2 (\<lambda>a t. rmw_zenoh_pico_debug_recv_msg_data rc (Some a) w = Inr t) as ts \<and>
      debug_loop n i rc p w = Inr (concat (map (\<lambda>(i, t). numbered i t) (enumerate i ts)))
    else debug_loop n i rc p w = Inl OutOfBounds"
  using assms
proof (induction as arbitrary: p n i)
  case Nil
  then show ?case by (simp add: debug_loop.simps [of n i rc None])
next
  case (Cons a as)
  obtain m where n: "n = Suc m" using Cons.prems(3) by (cases n) auto
  obtain d where d: "msgs w a = Some d" "p = Some a" "chain (msgs w) (next_msg d) as" using Cons.prems(1) by auto
  let ?r = "rmw_zenoh_pico_debug_recv_msg_data rc (Some a) w"
  have step: "debug_loop n i rc p w = andthen ?r (\<lambda>t. andthen (debug_loop m (Suc i) rc (next_msg d) w) (\<lambda>r. Inr (numbered i t @ r)))"
    using d n by (subst debug_loop.simps) (simp add: numbered_def)
  have ih: "if \<forall>a \<in> set as. gid_in_words (msgs w) a
    then \<exists>ts. list_all2 (\<lambda>a t. rmw_zenoh_pico_debug_recv_msg_data rc (Some a) w = Inr t) as ts \<and>
      debug_loop m (Suc i) rc (next_msg d) w = Inr (concat (map (\<lambda>(i, t). numbered i t) (enumerate (Suc i) ts)))
    else debug_loop m (Suc i) rc (next_msg d) w = Inl OutOfBounds"
    by (rule Cons.IH [OF d(3)]) (use Cons.prems n in auto)
  show ?case
  proof (cases "gid_in_words (msgs w) a")
    case True
    then obtain t where t: "?r = Inr t" using recv_msg_data_printed [of w a rc] Cons.prems(2) by (auto simp: returns_iff)
    show ?thesis
    proof (cases "\<forall>a \<in> set as. gid_in_words (msgs w) a")
      case all: True
      then obtain ts where "list_all2 (\<lambda>a t. rmw_zenoh_pico_debug_recv_msg_data rc (Some a) w = Inr t) as ts"
        "debug_loop m (Suc i) rc (next_msg d) w = Inr (concat (map (\<lambda>(i, t). numbered i t) (enumerate (Suc i) ts)))"
        using ih by auto
      then show ?thesis using all True step t by (auto intro!: exI [of _ "t # ts"])
    qed (use ih step t in auto)
  next
    case False
    then have "?r = Inl OutOfBounds" using recv_msg_data_printed [of w a rc] Cons.prems(2) by simp
    then show ?thesis using False step by simp
  qed
qed

definition queue_head :: "(addr option \<Rightarrow> string) \<Rightarrow> ReceiveMessageDataList \<Rightarrow> string" where
  "queue_head pp l = line_of [''data dump start ['', show_int (que_count l), '']... ''] @
     bracketed ''que top    = '' (pp (que_top l)) @ bracketed ''que bottom = '' (pp (que_bottom l))"

text \<open>
  Printing a queue shows every message once, in order, or reads outside a gid. When every message of the queue has a payload as long as its
  size and a gid whose length is a multiple of four, the messages are printed under their numbers from the top on, and the queue and its
  mutex are as before; when some message came with a gid of another length, which a sender chooses freely, the printing reads past its end.
\<close>

theorem queue_printed:
  assumes "queue_rep (msgs w) l as" and "length as \<le> next_addr w" and "\<forall>a \<in> set as. printable w a"
  shows "if \<forall>a \<in> set as. gid_in_words (msgs w) a
    then \<exists>ts. list_all2 (\<lambda>a t. rmw_zenoh_pico_debug_recv_msg_data rc (Some a) w = Inr t) as ts \<and>
      recv_msg_list_debug pp rc (Some l) w =
        Inr (queue_head pp l @ concat (map (\<lambda>(i, t). numbered i t) (enumerate 0 ts)) @ line_of [''data dump end  ... ''], Some l)
    else recv_msg_list_debug pp rc (Some l) w = Inl OutOfBounds"
proof -
  have q: "que_mutex l = Unlocked" "chain (msgs w) (que_top l) as" using assms(1) by (simp_all add: queue_rep_def)
  then have l: "l\<lparr>que_mutex := Unlocked\<rparr> = l" by (cases l) simp
  have "recv_msg_list_debug pp rc (Some l) w = andthen (debug_loop (next_addr w) 0 rc (que_top l) w) (\<lambda>t.
      Inr (queue_head pp l @ t @ line_of [''data dump end  ... ''], Some l))"
    by (simp add: recv_msg_list_debug_def queue_head_def q(1) l)
  then show ?thesis using debug_loop_printed [OF q(2) assms(3,2), of rc 0] by (auto split: if_splits)
qed

theorem queue_printed_witness:
  "recv_msg_list_debug (\<lambda>_. []) (\<lambda>_. 0) (Some \<lparr>que_mutex = Unlocked, que_top = Some 1, que_bottom = Some 1, que_count = 1\<rparr>)
     (small_msg_mem\<lparr>next_addr := 20, msgs := [1 \<mapsto> sample_msg 11 [1] 0 \<lparr>sequence_num = 1, timestamp = 0, gid = [1, 2, 3]\<rparr>],
        bufs := [11 \<mapsto> [1]]\<rparr>) = Inl OutOfBounds"
  (is "recv_msg_list_debug ?pp ?rc (Some ?l) ?w = _")
proof -
  have "queue_rep (msgs ?w) ?l [1]" "length [1 :: addr] \<le> next_addr ?w" "\<forall>a \<in> set [1]. printable ?w a"
    by (simp_all add: queue_rep_def printable_def sample_msg_def)
  moreover have "\<not> (\<forall>a \<in> set [1]. gid_in_words (msgs ?w) a)" by (simp add: gid_in_words_def sample_msg_def dvd_def) presburger
  ultimately show ?thesis using queue_printed [of ?w ?l "[1]" ?rc ?pp] by meson
qed

end
