(* ===== verification/Unsupported.thy ===== *)
theory Unsupported
  imports Prelude
begin

section \<open>Entry points without implementation\<close>

text \<open>
  The functions of the middleware interface that only report \<open>RMW_RET_UNSUPPORTED\<close>, and
  \<open>rmw_feature_supported\<close>.  A definition returns the code and what the function leaves in the objects its
  caller passed for output; none of them reads or changes the state.
\<close>

subsection \<open>Counting\<close>

definition rmw_count_publishers where
  "rmw_count_publishers node topic_name count =
     (RMW_RET_UNSUPPORTED, count)"

definition rmw_count_subscribers where
  "rmw_count_subscribers node topic_name count =
     (RMW_RET_UNSUPPORTED, count)"

definition rmw_count_clients where
  "rmw_count_clients node service_name count =
     (RMW_RET_UNSUPPORTED, count)"

definition rmw_count_services where
  "rmw_count_services node service_name count =
     (RMW_RET_UNSUPPORTED, count)"

subsection \<open>Names and types in the graph\<close>

definition rmw_get_publisher_names_and_types_by_node where
  "rmw_get_publisher_names_and_types_by_node node allocator node_name node_namespace demangle topic_names_and_types =
     (RMW_RET_UNSUPPORTED, topic_names_and_types)"

definition rmw_get_subscriber_names_and_types_by_node where
  "rmw_get_subscriber_names_and_types_by_node node allocator node_name node_namespace demangle topic_names_and_types =
     (RMW_RET_UNSUPPORTED, topic_names_and_types)"

definition rmw_get_service_names_and_types_by_node where
  "rmw_get_service_names_and_types_by_node node allocator node_name node_namespace service_names_and_types =
     (RMW_RET_UNSUPPORTED, service_names_and_types)"

definition rmw_get_client_names_and_types_by_node where
  "rmw_get_client_names_and_types_by_node node allocator node_name node_namespace service_names_and_types =
     (RMW_RET_UNSUPPORTED, service_names_and_types)"

definition rmw_get_service_names_and_types where
  "rmw_get_service_names_and_types node allocator service_names_and_types =
     (RMW_RET_UNSUPPORTED, service_names_and_types)"

definition rmw_get_node_names where
  "rmw_get_node_names node node_names node_namespaces =
     (RMW_RET_UNSUPPORTED, node_names, node_namespaces)"

definition rmw_get_node_names_with_enclaves where
  "rmw_get_node_names_with_enclaves node node_names node_namespaces enclaves =
     (case rmw_get_node_names node node_names node_namespaces of (ret, names, namespaces) \<Rightarrow>
       (ret, names, namespaces, enclaves))"

definition rmw_get_topic_names_and_types where
  "rmw_get_topic_names_and_types node allocator no_demangle topic_names_and_types =
     (RMW_RET_UNSUPPORTED, topic_names_and_types)"

subsection \<open>Publishers\<close>

definition rmw_init_publisher_allocation where
  "rmw_init_publisher_allocation type_support message_bounds allocation =
     (RMW_RET_UNSUPPORTED, allocation)"

definition rmw_fini_publisher_allocation where
  "rmw_fini_publisher_allocation allocation =
     (RMW_RET_UNSUPPORTED, allocation)"

definition rmw_publisher_count_matched_subscriptions where
  "rmw_publisher_count_matched_subscriptions publisher subscription_count =
     (RMW_RET_UNSUPPORTED, subscription_count)"

definition rmw_publisher_assert_liveliness where
  "rmw_publisher_assert_liveliness publisher =
     RMW_RET_UNSUPPORTED"

definition rmw_borrow_loaned_message where
  "rmw_borrow_loaned_message publisher type_support ros_message =
     (RMW_RET_UNSUPPORTED, ros_message)"

definition rmw_return_loaned_message_from_publisher where
  "rmw_return_loaned_message_from_publisher publisher loaned_message =
     (RMW_RET_UNSUPPORTED, loaned_message)"

definition rmw_publish_serialized_message where
  "rmw_publish_serialized_message publisher serialized_message allocation =
     (RMW_RET_UNSUPPORTED, allocation)"

definition rmw_publish_loaned_message where
  "rmw_publish_loaned_message publisher ros_message allocation =
     (RMW_RET_UNSUPPORTED, ros_message, allocation)"

definition rmw_publisher_wait_for_all_acked where
  "rmw_publisher_wait_for_all_acked publisher wait_timeout =
     RMW_RET_UNSUPPORTED"

definition rmw_publisher_get_network_flow_endpoints where
  "rmw_publisher_get_network_flow_endpoints publisher allocator network_flow_endpoint_array =
     (RMW_RET_UNSUPPORTED, network_flow_endpoint_array)"

definition rmw_get_publishers_info_by_topic where
  "rmw_get_publishers_info_by_topic node allocator topic_name no_mangle publishers_info =
     (RMW_RET_UNSUPPORTED, publishers_info)"

subsection \<open>Subscriptions\<close>

definition rmw_init_subscription_allocation where
  "rmw_init_subscription_allocation type_support message_bounds allocation =
     (RMW_RET_UNSUPPORTED, allocation)"

definition rmw_fini_subscription_allocation where
  "rmw_fini_subscription_allocation allocation =
     (RMW_RET_UNSUPPORTED, allocation)"

definition rmw_subscription_count_matched_publishers where
  "rmw_subscription_count_matched_publishers subscription publisher_count =
     (RMW_RET_UNSUPPORTED, publisher_count)"

definition rmw_subscription_set_content_filter where
  "rmw_subscription_set_content_filter subscription options =
     RMW_RET_UNSUPPORTED"

definition rmw_subscription_get_content_filter where
  "rmw_subscription_get_content_filter subscription allocator options =
     (RMW_RET_UNSUPPORTED, options)"

definition rmw_subscription_get_network_flow_endpoints where
  "rmw_subscription_get_network_flow_endpoints subscription allocator network_flow_endpoint_array =
     (RMW_RET_UNSUPPORTED, network_flow_endpoint_array)"

definition rmw_get_subscriptions_info_by_topic where
  "rmw_get_subscriptions_info_by_topic node allocator topic_name no_mangle subscriptions_info =
     (RMW_RET_UNSUPPORTED, subscriptions_info)"

subsection \<open>Taking without deserialising\<close>

definition rmw_take_serialized_message where
  "rmw_take_serialized_message subscription serialized_message taken allocation =
     (RMW_RET_UNSUPPORTED, serialized_message, taken, allocation)"

definition rmw_take_serialized_message_with_info where
  "rmw_take_serialized_message_with_info subscription serialized_message taken message_info allocation =
     (RMW_RET_UNSUPPORTED, serialized_message, taken, message_info, allocation)"

definition rmw_take_loaned_message where
  "rmw_take_loaned_message subscription loaned_message taken allocation =
     (RMW_RET_UNSUPPORTED, loaned_message, taken, allocation)"

definition rmw_take_loaned_message_with_info where
  "rmw_take_loaned_message_with_info subscription loaned_message taken message_info allocation =
     (RMW_RET_UNSUPPORTED, loaned_message, taken, message_info, allocation)"

definition rmw_return_loaned_message_from_subscription where
  "rmw_return_loaned_message_from_subscription subscription loaned_message =
     (RMW_RET_UNSUPPORTED, loaned_message)"

subsection \<open>Clients\<close>

definition rmw_service_server_is_available where
  "rmw_service_server_is_available node client is_available =
     (RMW_RET_UNSUPPORTED, is_available)"

subsection \<open>Dynamic messages\<close>

definition rmw_take_dynamic_message where
  "rmw_take_dynamic_message subscription dynamic_message taken allocation =
     (RMW_RET_UNSUPPORTED, dynamic_message, taken, allocation)"

definition rmw_take_dynamic_message_with_info where
  "rmw_take_dynamic_message_with_info subscription dynamic_message taken message_info allocation =
     (RMW_RET_UNSUPPORTED, dynamic_message, taken, message_info, allocation)"

definition rmw_serialization_support_init where
  "rmw_serialization_support_init serialization_lib_name allocator serialization_support =
     (RMW_RET_UNSUPPORTED, serialization_support)"

subsection \<open>Serialisation outside of topics\<close>

definition rmw_serialize where
  "rmw_serialize ros_message type_support serialized_message =
     (RMW_RET_UNSUPPORTED, serialized_message)"

definition rmw_deserialize where
  "rmw_deserialize serialized_message type_support ros_message =
     (RMW_RET_UNSUPPORTED, ros_message)"

definition rmw_get_serialized_message_size where
  "rmw_get_serialized_message_size type_support message_bounds size_out =
     (RMW_RET_UNSUPPORTED, size_out)"

subsection \<open>Quality of service\<close>

definition rmw_qos_profile_check_compatible where
  "rmw_qos_profile_check_compatible publisher_profile subscription_profile compatibility reason reason_size =
     (RMW_RET_UNSUPPORTED, compatibility, reason)"

subsection \<open>Logging\<close>

definition rmw_set_log_severity where
  "rmw_set_log_severity severity =
     RMW_RET_UNSUPPORTED"

subsection \<open>Features\<close>

datatype rmw_feature_t =
    RMW_FEATURE_MESSAGE_INFO_PUBLICATION_SEQUENCE_NUMBER | RMW_FEATURE_MESSAGE_INFO_RECEPTION_SEQUENCE_NUMBER | OTHER_FEATURE

definition rmw_feature_supported :: "rmw_feature_t \<Rightarrow> bool" where
  "rmw_feature_supported feature = (case feature of
      RMW_FEATURE_MESSAGE_INFO_PUBLICATION_SEQUENCE_NUMBER \<Rightarrow> False
    | RMW_FEATURE_MESSAGE_INFO_RECEPTION_SEQUENCE_NUMBER \<Rightarrow> False
    | OTHER_FEATURE \<Rightarrow> False)"

end
