(* ===== verification/XXH_Blocks.thy ===== *)
theory XXH_Blocks
  imports XXH3_Targets
begin

section \<open>Hashing in blocks, at once or piece by piece\<close>

text \<open>
  What the streaming hashes of \<open>utilities/xxhash.h\<close> have in common.  A hash consumes its input in blocks of a fixed size and keeps the rest for the
  end.  The locale \<open>block_hash\<close> shows once that a buffer which collects input until a block is full leads to the same state as reading the
  whole input.
\<close>

datatype XXH_errorcode = XXH_OK | XXH_ERROR

datatype XXH_alignment = XXH_aligned | XXH_unaligned

lemma andthen_if: "andthen (if c then a else b) f = (if c then andthen a f else andthen b f)"
  by simp

lemma andthen_case_prod: "andthen (case p of (x, y) \<Rightarrow> g x y) f = (case p of (x, y) \<Rightarrow> andthen (g x y) f)"
  by (cases p) simp

subsection \<open>Memory and the machine\<close>

text \<open>
  An integer of the machine as bytes in memory, and a copy into a buffer.  \<open>XXH_readLE32_align\<close> reads an aligned integer through a pointer to it:
  the address of \<open>p\<close>'s first byte is an argument, and an address that is not a multiple of the size is a fault.
\<close>

definition bytes32 :: "xxh_target \<Rightarrow> 32 word \<Rightarrow> 8 word list" where
  "bytes32 t x = (let bs = [ucast x, ucast (drop_bit 8 x), ucast (drop_bit 16 x), ucast (drop_bit 24 x)] in
     if little_endian t then bs else rev bs)"

definition bytes64 :: "xxh_target \<Rightarrow> 64 word \<Rightarrow> 8 word list" where
  "bytes64 t x = (let bs = map (\<lambda>n. ucast (drop_bit (8 * n) x)) [0, 1, 2, 3, 4, 5, 6, 7] in if little_endian t then bs else rev bs)"

definition XXH_memcpy :: "8 word list \<Rightarrow> nat \<Rightarrow> 8 word list \<Rightarrow> nat \<Rightarrow> nat \<Rightarrow> 8 word list res" where
  "XXH_memcpy dest d src s n =
     (if d + n \<le> length dest \<and> s + n \<le> length src
      then Inr (take d dest @ take n (drop s src) @ drop (d + n) dest) else Inl OutOfBounds)"

definition XXH_readBE32 :: "xxh_target \<Rightarrow> 8 word list \<Rightarrow> nat \<Rightarrow> 32 word res" where
  "XXH_readBE32 t p i = andthen (XXH_read32 t p i) (\<lambda>v. Inr (if little_endian t then XXH_swap32 v else v))"

definition XXH_readBE64 :: "xxh_target \<Rightarrow> 8 word list \<Rightarrow> nat \<Rightarrow> 64 word res" where
  "XXH_readBE64 t p i = andthen (XXH_read64 t p i) (\<lambda>v. Inr (if little_endian t then XXH_swap64 v else v))"

definition XXH_readLE32_align :: "xxh_target \<Rightarrow> nat \<Rightarrow> XXH_alignment \<Rightarrow> 8 word list \<Rightarrow> nat \<Rightarrow> 32 word res" where
  "XXH_readLE32_align t address align p i =
     (if align = XXH_unaligned then XXH_readLE32 t p i
      else if (address + i) mod 4 \<noteq> 0 then Inl BadPointer
      else andthen (XXH_read32 t p i) (\<lambda>v. Inr (if little_endian t then v else XXH_swap32 v)))"

definition XXH_readLE64_align :: "xxh_target \<Rightarrow> nat \<Rightarrow> XXH_alignment \<Rightarrow> 8 word list \<Rightarrow> nat \<Rightarrow> 64 word res" where
  "XXH_readLE64_align t address align p i =
     (if align = XXH_unaligned then XXH_readLE64 t p i
      else if (address + i) mod 8 \<noteq> 0 then Inl BadPointer
      else andthen (XXH_read64 t p i) (\<lambda>v. Inr (if little_endian t then v else XXH_swap64 v)))"

definition XXH_rotl64 :: "64 word \<Rightarrow> nat \<Rightarrow> 64 word" where
  "XXH_rotl64 x r = push_bit r x OR drop_bit (64 - r) x"

text \<open>The build switches of the hashes with 32 and 64 bits: \<open>XXH_FORCE_ALIGN_CHECK\<close>, \<open>XXH_SIZE_OPT >= 2\<close> and \<open>XXH32_ENDJMP\<close>.\<close>

record xxh_switches =
  force_align_check :: bool
  size_opt_2 :: bool
  endjmp :: bool

definition small_target :: xxh_target where
  "small_target = \<lparr>processor = Big_Endian, has_int128 = False, wide_pointers = False, size_opt = False\<rparr>"

definition small_switches :: xxh_switches where
  "small_switches = \<lparr>force_align_check = True, size_opt_2 = False, endjmp = False\<rparr>"

lemma readLE32_align:
  "align = XXH_aligned \<Longrightarrow> (address + i) mod 4 = 0 \<Longrightarrow> XXH_readLE32_align t address align p i = XXH_readLE32 t p i"
  "align = XXH_unaligned \<Longrightarrow> XXH_readLE32_align t address align p i = XXH_readLE32 t p i"
  by (simp_all add: XXH_readLE32_align_def XXH_readLE32_def)

lemma readLE64_align:
  "align = XXH_aligned \<Longrightarrow> (address + i) mod 8 = 0 \<Longrightarrow> XXH_readLE64_align t address align p i = XXH_readLE64 t p i"
  "align = XXH_unaligned \<Longrightarrow> XXH_readLE64_align t address align p i = XXH_readLE64 t p i"
  by (simp_all add: XXH_readLE64_align_def XXH_readLE64_def)

definition half_at :: "8 word list \<Rightarrow> nat \<Rightarrow> 32 word" where
  "half_at p i = le32 (p ! i) (p ! (i+1)) (p ! (i+2)) (p ! (i+3))"

lemma readLE32_half: "i + 4 \<le> length p \<Longrightarrow> XXH_readLE32 t p i = Inr (half_at p i)"
  by (simp add: readLE32_eq half_at_def)

lemma readLE64_word: "i + 8 \<le> length p \<Longrightarrow> XXH_readLE64 t p i = Inr (word_at p i)"
  by (simp add: readLE64_eq)

lemma half_at_drop: "length p \<ge> d \<Longrightarrow> half_at (drop d p) i = half_at p (d + i)"
  by (simp add: half_at_def algebra_simps)

lemma word_at_drop: "length p \<ge> d \<Longrightarrow> word_at (drop d p) i = word_at p (d + i)"
  by (simp add: word_at_def algebra_simps)

lemma half_at_take: "i + 4 \<le> n \<Longrightarrow> half_at (take n p) i = half_at p i"
  by (simp add: half_at_def)

lemma word_at_take: "i + 8 \<le> n \<Longrightarrow> word_at (take n p) i = word_at p i"
  by (simp add: word_at_def)

lemma le32_bytes: "le32 (ucast h) (ucast (drop_bit 8 h)) (ucast (drop_bit 16 h)) (ucast (drop_bit 24 h)) = h"
proof (rule bit_word_eqI)
  fix n assume "n < LENGTH(32)"
  then consider "n < 8" | "8 \<le> n" "n < 16" | "16 \<le> n" "n < 24" | "24 \<le> n" "n < 32" by fastforce
  then show "bit (le32 (ucast h) (ucast (drop_bit 8 h)) (ucast (drop_bit 16 h)) (ucast (drop_bit 24 h))) n \<longleftrightarrow> bit h n"
    by cases (simp_all add: le32_def bit_simps less_diff_conv2)
qed

lemma le64_bytes: "le64 (ucast h) (ucast (drop_bit 8 h)) (ucast (drop_bit 16 h)) (ucast (drop_bit 24 h)) (ucast (drop_bit 32 h))
    (ucast (drop_bit 40 h)) (ucast (drop_bit 48 h)) (ucast (drop_bit 56 h)) = h" (is "?l = h")
proof (rule bit_word_eqI)
  fix n assume "n < LENGTH(64)"
  then have "n < 8 \<or> 8 \<le> n \<and> n < 16 \<or> 16 \<le> n \<and> n < 24 \<or> 24 \<le> n \<and> n < 32 \<or> 32 \<le> n \<and> n < 40 \<or> 40 \<le> n \<and> n < 48 \<or>
      48 \<le> n \<and> n < 56 \<or> 56 \<le> n \<and> n < 64" unfolding len_num1 by (simp, presburger)
  then show "bit ?l n \<longleftrightarrow> bit h n"
    by (elim disjE conjE) (simp_all add: le64_def bit_simps less_diff_conv2)
qed

lemma memcpy_into: "d + n \<le> length dest \<Longrightarrow> s + n \<le> length src \<Longrightarrow>
    XXH_memcpy dest d src s n = Inr (take d dest @ take n (drop s src) @ drop (d + n) dest)"
  by (simp add: XXH_memcpy_def)

text \<open>An offset at which an aligned read of \<open>n\<close> bytes is allowed.\<close>

definition aligned_at :: "nat \<Rightarrow> nat \<Rightarrow> XXH_alignment \<Rightarrow> nat \<Rightarrow> bool" where
  "aligned_at n address align i \<longleftrightarrow> align = XXH_unaligned \<or> address mod n = 0 \<and> i mod n = 0"

lemma aligned_unaligned [simp]: "aligned_at n address XXH_unaligned i"
  by (simp add: aligned_at_def)

lemma aligned_add: "aligned_at n address align i \<Longrightarrow> m mod n = 0 \<Longrightarrow> aligned_at n address align (i + m)"
  by (auto simp: aligned_at_def)

lemma aligned_read32: "aligned_at 4 address align i \<Longrightarrow> i + 4 \<le> length p \<Longrightarrow> XXH_readLE32_align t address align p i = Inr (half_at p i)"
  using readLE32_half [of i p t] by (cases align) (auto simp: aligned_at_def readLE32_align)

lemma aligned_read64: "aligned_at 8 address align i \<Longrightarrow> i + 8 \<le> length p \<Longrightarrow> XXH_readLE64_align t address align p i = Inr (word_at p i)"
  using readLE64_word [of i p t] by (cases align) (auto simp: aligned_at_def readLE64_align)

subsection \<open>Blocks\<close>

text \<open>\<open>absorb B f xs v\<close>: all full blocks of \<open>xs\<close> into \<open>v\<close>, and the rest.\<close>

function absorb :: "nat \<Rightarrow> (8 word list \<Rightarrow> 'v \<Rightarrow> 'v) \<Rightarrow> 8 word list \<Rightarrow> 'v \<Rightarrow> 'v \<times> 8 word list" where
  "absorb B f xs v = (if 0 < B \<and> B \<le> length xs then absorb B f (drop B xs) (f (take B xs) v) else (v, xs))"
  by pat_completeness auto
termination by (relation "measure (\<lambda>(B, f, xs, v). length xs)") auto

declare absorb.simps [simp del]

locale block_hash =
  fixes B :: nat and block :: "8 word list \<Rightarrow> 'v \<Rightarrow> 'v"
  assumes B_pos: "0 < B"
begin

abbreviation "whole \<equiv> absorb B block"

lemma short: "length xs < B \<Longrightarrow> whole xs v = (v, xs)"
  by (subst absorb.simps) simp

lemma step: "B \<le> length xs \<Longrightarrow> whole xs v = whole (drop B xs) (block (take B xs) v)"
  using B_pos by (subst absorb.simps) simp

lemma append: "whole (xs @ ys) v = (case whole xs v of (w, r) \<Rightarrow> whole (r @ ys) w)"
proof (induction xs arbitrary: v rule: length_induct)
  case (1 xs)
  show ?case
  proof (cases "B \<le> length xs")
    case True
    then show ?thesis using 1 [rule_format, of "drop B xs"] B_pos by (simp add: step [of xs] step [of "xs @ ys"])
  qed (simp add: short)
qed

lemma length_rest: "length (snd (whole xs v)) = length xs mod B"
proof (induction xs arbitrary: v rule: length_induct)
  case (1 xs)
  show ?case
  proof (cases "B \<le> length xs")
    case True
    then show ?thesis using 1 [rule_format, of "drop B xs"] B_pos by (simp add: step [of xs] le_mod_geq)
  qed (simp add: short)
qed

lemma rest: "snd (whole xs v) = drop (length xs - length xs mod B) xs"
proof (induction xs arbitrary: v rule: length_induct)
  case (1 xs)
  show ?case
  proof (cases "B \<le> length xs")
    case True
    define m where "m = (length xs - B) mod B"
    have "m \<le> length xs - B" by (simp add: m_def)
    then have "length xs - (B + m) + B = length xs - m" using True by simp
    then show ?thesis using True 1 [rule_format, of "drop B xs"] B_pos by (simp add: step [of xs] le_mod_geq m_def)
  qed (simp add: short)
qed

lemma rest_short: "whole xs v = (w, r) \<Longrightarrow> length r < B"
  using length_rest [of xs v] B_pos by simp

text \<open>A buffer with \<open>r\<close> in it, to which \<open>ys\<close> comes.\<close>

definition feed :: "'v \<Rightarrow> 8 word list \<Rightarrow> 8 word list \<Rightarrow> 'v \<times> 8 word list" where
  "feed v r ys =
     (if length r + length ys < B then (v, r @ ys)
      else let k = (if r = [] then 0 else B - length r) in whole (drop k ys) (if r = [] then v else block (r @ take k ys) v))"

lemma feed_whole: "whole xs v = (w, r) \<Longrightarrow> feed w r ys = whole (xs @ ys) v"
proof -
  assume w: "whole xs v = (w, r)"
  then have r: "length r < B" by (rule rest_short)
  have "feed w r ys = whole (r @ ys) w"
  proof (cases "length r + length ys < B")
    case False
    show ?thesis
    proof (cases "r = []")
      case True
      with False show ?thesis by (simp add: feed_def Let_def)
    next
      case nonempty: False
      have "whole (r @ ys) w = whole (drop B (r @ ys)) (block (take B (r @ ys)) w)" using False by (intro step) simp
      with False nonempty r show ?thesis by (simp add: feed_def Let_def)
    qed
  qed (simp add: feed_def short)
  then show ?thesis using append [of xs ys v] by (simp add: w)
qed

end

subsection \<open>Filling the buffer\<close>

text \<open>
  The part that \<open>XXH32_update\<close> and \<open>XXH64_update\<close> share, on the lanes, the buffer and the number of bytes in it: \<open>rounds\<close> reads one block
  of the buffer, \<open>loop\<close> all blocks of the input from an offset on.
\<close>

definition refill where
  "refill B rounds loop v mem n p len =
     (if n + len < B then andthen (XXH_memcpy mem n p 0 len) (\<lambda>m. Inr (v, m, n + len))
      else andthen (if n \<noteq> 0 then andthen (XXH_memcpy mem n p 0 (B - n)) (\<lambda>m. andthen (rounds m v) (\<lambda>v. Inr ((v, m, 0), B - n)))
                    else Inr ((v, mem, n), 0)) (\<lambda>((v, mem, n), i).
        andthen (if i + B \<le> len then loop p i len v else Inr (v, i)) (\<lambda>(v, i).
          if i < len then andthen (XXH_memcpy mem 0 p i (len - i)) (\<lambda>m. Inr (v, m, len - i)) else Inr (v, mem, n))))"

locale block_stream = block_hash B block for B :: nat and block :: "8 word list \<Rightarrow> 'v \<Rightarrow> 'v" +
  fixes rounds :: "8 word list \<Rightarrow> 'v \<Rightarrow> 'v res" and loop :: "8 word list \<Rightarrow> nat \<Rightarrow> nat \<Rightarrow> 'v \<Rightarrow> ('v \<times> nat) res"
  assumes rounds: "B \<le> length m \<Longrightarrow> rounds m v = Inr (block (take B m) v)"
    and loop: "i + B \<le> len \<Longrightarrow> len \<le> length p \<Longrightarrow>
      loop p i len v = (case absorb B block (drop i (take len p)) v of (w, r) \<Rightarrow> Inr (w, len - length r))"
begin

lemma refill_rest:
  assumes i: "i \<le> len" "len \<le> length p" "length mem = B" and w: "whole (drop i (take len p)) v = (w, r)"
  shows "\<exists>m n. andthen (if i + B \<le> len then loop p i len v else Inr (v, i)) (\<lambda>(v, i).
      if i < len then andthen (XXH_memcpy mem 0 p i (len - i)) (\<lambda>m. Inr (v, m, len - i)) else Inr (v, mem, 0)) = Inr (w, m, n) \<and>
    length m = B \<and> n \<le> B \<and> take n m = r"
proof -
  let ?j = "len - length r"
  have r: "length r < B" "length r \<le> len - i" "r = drop ?j (take len p)"
    using rest_short [OF w] length_rest [of "drop i (take len p)" v] rest [of "drop i (take len p)" v] w i
    by (simp_all add: min_absorb2)
  have "(if i + B \<le> len then loop p i len v else Inr (v, i)) = Inr (w, ?j)"
  proof (cases "i + B \<le> len")
    case True
    then show ?thesis using loop [OF True i(2)] w by simp
  next
    case False
    then have "w = v" "r = drop i (take len p)" using w i by (simp_all add: short min_absorb2)
    then show ?thesis using False i by (simp add: min_absorb2)
  qed
  moreover have "take (len - ?j) (drop ?j p) = r" using r(3) by (simp add: drop_take)
  ultimately show ?thesis using r i by (auto simp: memcpy_into)
qed

lemma refill_ok:
  assumes w: "whole xs v0 = (v, take n mem)" and n: "length mem = B" "n \<le> B" and len: "len \<le> length p"
  shows "\<exists>v' mem' n'. refill B rounds loop v mem n p len = Inr (v', mem', n') \<and> length mem' = B \<and> n' \<le> B \<and>
    whole (xs @ take len p) v0 = (v', take n' mem')"
proof -
  have lr: "n < B" "length (take n mem) = n" using rest_short [OF w] n by simp_all
  have f: "whole (xs @ take len p) v0 = feed v (take n mem) (take len p)" using feed_whole [OF w] by simp
  show ?thesis
  proof (cases "n + len < B")
    case True
    then show ?thesis using f lr n len by (auto simp: refill_def memcpy_into feed_def min_absorb2)
  next
    case False
    define k where "k = (if n = 0 then 0 else B - n)"
    define u where "u = (if n = 0 then v else block (take n mem @ take k (take len p)) v)"
    define mem1 where "mem1 = (if n = 0 then mem else take n mem @ take (B - n) p)"
    have k: "k \<le> len" "length mem1 = B" using False n lr len by (auto simp: k_def mem1_def)
    obtain w r where wr: "whole (drop k (take len p)) u = (w, r)" by fastforce
    have "(if n \<noteq> 0 then andthen (XXH_memcpy mem n p 0 (B - n)) (\<lambda>m. andthen (rounds m v) (\<lambda>v. Inr ((v, m, 0), B - n)))
       else Inr ((v, mem, n), 0)) = Inr ((u, mem1, 0), k)"
      using False n lr len by (auto simp: memcpy_into rounds u_def mem1_def k_def min_absorb1)
    moreover have "whole (xs @ take len p) v0 = (w, r)"
      using f wr False lr n len by (auto simp: feed_def Let_def u_def k_def min_absorb2)
    ultimately show ?thesis using refill_rest [OF k(1) len k(2) wr] False by (auto simp: refill_def)
  qed
qed

end

end
