(* ===== verification/XXH32.thy ===== *)
theory XXH32
  imports XXH_Blocks
begin

unbundle bit_operations_syntax

section \<open>XXH32\<close>

text \<open>
  The hash with 32 bits of \<open>utilities/xxhash.h\<close>, at once and as a stream.  Its four lanes \<open>v[4]\<close> are a tuple; the buffer \<open>mem32\<close> is the list
  of its 16 bytes.  An input is a pointer that may be null, with the address that the switch \<open>XXH_FORCE_ALIGN_CHECK\<close> looks at.  Pointers into it are
  offsets.
\<close>

definition XXH_PRIME32_4 :: "32 word" where "XXH_PRIME32_4 = 0x27D4EB2F"
definition XXH_PRIME32_5 :: "32 word" where "XXH_PRIME32_5 = 0x165667B1"

type_synonym lanes32 = "32 word \<times> 32 word \<times> 32 word \<times> 32 word"

record XXH32_state_t =
  total_len_32 :: "32 word"
  large_len :: bool
  v32 :: lanes32
  mem32 :: "8 word list"
  memsize32 :: nat

subsection \<open>At once\<close>

definition XXH32_round :: "32 word \<Rightarrow> 32 word \<Rightarrow> 32 word" where
  "XXH32_round acc input = (let acc = acc + input * XXH_PRIME32_2; acc = XXH_rotl32 acc 13; acc = acc * XXH_PRIME32_1 in acc)"

definition XXH32_avalanche :: "32 word \<Rightarrow> 32 word" where
  "XXH32_avalanche hash =
     (let hash = hash XOR drop_bit 15 hash; hash = hash * XXH_PRIME32_2; hash = hash XOR drop_bit 13 hash;
          hash = hash * XXH_PRIME32_3; hash = hash XOR drop_bit 16 hash in hash)"

definition XXH32_process1 :: "8 word list \<Rightarrow> nat \<Rightarrow> 32 word \<Rightarrow> 32 word res" where
  "XXH32_process1 p i hash =
     andthen (read8 p i) (\<lambda>b. let hash = hash + ucast b * XXH_PRIME32_5 in Inr (XXH_rotl32 hash 11 * XXH_PRIME32_1))"

definition XXH32_process4 :: "xxh_target \<Rightarrow> nat \<Rightarrow> XXH_alignment \<Rightarrow> 8 word list \<Rightarrow> nat \<Rightarrow> 32 word \<Rightarrow> 32 word res" where
  "XXH32_process4 t address align p i hash =
     andthen (XXH_readLE32_align t address align p i) (\<lambda>w.
       let hash = hash + w * XXH_PRIME32_3 in Inr (XXH_rotl32 hash 17 * XXH_PRIME32_4))"

text \<open>The last bytes, in two loops or by a jump into a row of steps, which is followed from label to label.\<close>

fun XXH32_bytes :: "8 word list \<Rightarrow> nat \<Rightarrow> nat \<Rightarrow> 32 word \<Rightarrow> 32 word res" where
  "XXH32_bytes p i len hash =
     (if len > 0 then andthen (XXH32_process1 p i hash) (XXH32_bytes p (i + 1) (len - 1)) else Inr (XXH32_avalanche hash))"

fun XXH32_words :: "xxh_target \<Rightarrow> nat \<Rightarrow> XXH_alignment \<Rightarrow> 8 word list \<Rightarrow> nat \<Rightarrow> nat \<Rightarrow> 32 word \<Rightarrow> 32 word res" where
  "XXH32_words t address align p i len hash =
     (if len \<ge> 4 then andthen (XXH32_process4 t address align p i hash) (XXH32_words t address align p (i + 4) (len - 4))
      else XXH32_bytes p i len hash)"

fun XXH32_jump :: "xxh_target \<Rightarrow> nat \<Rightarrow> XXH_alignment \<Rightarrow> 8 word list \<Rightarrow> nat \<Rightarrow> nat \<Rightarrow> 32 word \<Rightarrow> 32 word res" where
  "XXH32_jump t address align p i label hash =
     (let process4 = XXH32_process4 t address align p; process1 = XXH32_process1 p in
      if label \<in> {8, 12, 9, 13, 10, 14, 7, 11, 15} then andthen (process4 i hash) (XXH32_jump t address align p (i + 4) (label - 4))
      else if label = 4 then andthen (process4 i hash) (\<lambda>hash. Inr (XXH32_avalanche hash))
      else if label = 5 then andthen (process4 i hash) (\<lambda>hash. andthen (process1 (i + 4) hash) (\<lambda>hash. Inr (XXH32_avalanche hash)))
      else if label = 6 then andthen (process4 i hash) (\<lambda>hash. andthen (process1 (i + 4) hash) (\<lambda>hash.
        andthen (process1 (i + 5) hash) (\<lambda>hash. Inr (XXH32_avalanche hash))))
      else if label \<in> {1, 2, 3} then andthen (process1 i hash) (XXH32_jump t address align p (i + 1) (label - 1))
      else if label = 0 then Inr (XXH32_avalanche hash)
      else Inr hash)"

declare XXH32_bytes.simps [simp del] XXH32_words.simps [simp del] XXH32_jump.simps [simp del]

definition XXH32_finalize ::
  "xxh_target \<Rightarrow> xxh_switches \<Rightarrow> 32 word \<Rightarrow> nat \<Rightarrow> 8 word list \<Rightarrow> nat \<Rightarrow> nat \<Rightarrow> XXH_alignment \<Rightarrow> 32 word res" where
  "XXH32_finalize t k hash address p i len align =
     (if \<not> endjmp k then XXH32_words t address align p i (len AND 15) hash else XXH32_jump t address align p i (len AND 15) hash)"

definition XXH32_rounds :: "xxh_target \<Rightarrow> nat \<Rightarrow> XXH_alignment \<Rightarrow> 8 word list \<Rightarrow> nat \<Rightarrow> lanes32 \<Rightarrow> lanes32 res" where
  "XXH32_rounds t address align p i = (\<lambda>(v1, v2, v3, v4).
     andthen (XXH_readLE32_align t address align p i) (\<lambda>w1. andthen (XXH_readLE32_align t address align p (i + 4)) (\<lambda>w2.
     andthen (XXH_readLE32_align t address align p (i + 8)) (\<lambda>w3. andthen (XXH_readLE32_align t address align p (i + 12)) (\<lambda>w4.
       Inr (XXH32_round v1 w1, XXH32_round v2 w2, XXH32_round v3 w3, XXH32_round v4 w4))))))"

text \<open>The loop runs until the offset reaches \<open>limit\<close>.\<close>

function XXH32_loop ::
  "xxh_target \<Rightarrow> nat \<Rightarrow> XXH_alignment \<Rightarrow> 8 word list \<Rightarrow> nat \<Rightarrow> nat \<Rightarrow> lanes32 \<Rightarrow> (lanes32 \<times> nat) res" where
  "XXH32_loop t address align p i limit v =
     andthen (XXH32_rounds t address align p i v) (\<lambda>v.
       if i + 16 < limit then XXH32_loop t address align p (i + 16) limit v else Inr (v, i + 16))"
  by pat_completeness auto
termination by (relation "measure (\<lambda>(t, address, align, p, i, limit, v). limit - i)") auto

declare XXH32_loop.simps [simp del]

definition XXH32_init :: "32 word \<Rightarrow> lanes32" where
  "XXH32_init seed = (seed + XXH_PRIME32_1 + XXH_PRIME32_2, seed + XXH_PRIME32_2, seed + 0, seed - XXH_PRIME32_1)"

definition XXH32_merge :: "lanes32 \<Rightarrow> 32 word" where
  "XXH32_merge = (\<lambda>(v1, v2, v3, v4). XXH_rotl32 v1 1 + XXH_rotl32 v2 7 + XXH_rotl32 v3 12 + XXH_rotl32 v4 18)"

definition XXH32_endian_align ::
  "xxh_target \<Rightarrow> xxh_switches \<Rightarrow> nat \<Rightarrow> 8 word list option \<Rightarrow> nat \<Rightarrow> 32 word \<Rightarrow> XXH_alignment \<Rightarrow> 32 word res" where
  "XXH32_endian_align t k address input len seed align =
     (if input = None \<and> len \<noteq> 0 then Inl Unreachable
      else let p = (case input of None \<Rightarrow> [] | Some p \<Rightarrow> p) in
        andthen (if len \<ge> 16 then andthen (XXH32_loop t address align p 0 (len - 15) (XXH32_init seed)) (\<lambda>(v, i). Inr (XXH32_merge v, i))
                 else Inr (seed + XXH_PRIME32_5, 0)) (\<lambda>(h32, i).
          let h32 = h32 + of_nat len in XXH32_finalize t k h32 address p i (len AND 15) align))"

subsection \<open>As a stream\<close>

definition XXH32_reset :: "32 word \<Rightarrow> XXH_errorcode \<times> XXH32_state_t" where
  "XXH32_reset seed =
     (XXH_OK, \<lparr>total_len_32 = 0, large_len = False, v32 = XXH32_init seed, mem32 = replicate 16 0, memsize32 = 0\<rparr>)"

definition XXH32_update ::
  "xxh_target \<Rightarrow> XXH32_state_t \<Rightarrow> 8 word list option \<Rightarrow> nat \<Rightarrow> (XXH_errorcode \<times> XXH32_state_t) res" where
  "XXH32_update t state input len =
     (case input of None \<Rightarrow> if len \<noteq> 0 then Inl Unreachable else Inr (XXH_OK, state) | Some p \<Rightarrow>
      let state = state\<lparr>total_len_32 := total_len_32 state + of_nat len\<rparr>;
          state = state\<lparr>large_len := large_len state \<or> (len \<ge> 16 \<or> total_len_32 state \<ge> 16)\<rparr> in
      if memsize32 state + len < 16
      then andthen (XXH_memcpy (mem32 state) (memsize32 state) p 0 len) (\<lambda>m.
        Inr (XXH_OK, state\<lparr>mem32 := m, memsize32 := memsize32 state + len\<rparr>))
      else andthen (if memsize32 state \<noteq> 0
          then andthen (XXH_memcpy (mem32 state) (memsize32 state) p 0 (16 - memsize32 state)) (\<lambda>m.
               andthen (XXH32_rounds t 0 XXH_unaligned m 0 (v32 state)) (\<lambda>v.
                 Inr (state\<lparr>mem32 := m, v32 := v, memsize32 := 0\<rparr>, 16 - memsize32 state)))
          else Inr (state, 0)) (\<lambda>(state, i).
        andthen (if i + 16 \<le> len then XXH32_loop t 0 XXH_unaligned p i (len - 16 + 1) (v32 state) else Inr (v32 state, i)) (\<lambda>(v, i).
          let state = state\<lparr>v32 := v\<rparr> in
          if i < len then andthen (XXH_memcpy (mem32 state) 0 p i (len - i)) (\<lambda>m. Inr (XXH_OK, state\<lparr>mem32 := m, memsize32 := len - i\<rparr>))
          else Inr (XXH_OK, state))))"

definition XXH32_digest :: "xxh_target \<Rightarrow> xxh_switches \<Rightarrow> XXH32_state_t \<Rightarrow> 32 word res" where
  "XXH32_digest t k state =
     (let h32 = (if large_len state then XXH32_merge (v32 state) else fst (snd (snd (v32 state))) + XXH_PRIME32_5);
          h32 = h32 + total_len_32 state
      in XXH32_finalize t k h32 0 (mem32 state) 0 (memsize32 state) XXH_aligned)"

definition XXH32 :: "xxh_target \<Rightarrow> xxh_switches \<Rightarrow> nat \<Rightarrow> 8 word list option \<Rightarrow> nat \<Rightarrow> 32 word \<Rightarrow> 32 word res" where
  "XXH32 t k address input len seed =
     (if size_opt_2 k
      then andthen (XXH32_update t (snd (XXH32_reset seed)) input len) (\<lambda>(_, state). XXH32_digest t k state)
      else if force_align_check k \<and> address AND 3 = 0 then XXH32_endian_align t k address input len seed XXH_aligned
      else XXH32_endian_align t k address input len seed XXH_unaligned)"

definition XXH32_canonicalFromHash :: "xxh_target \<Rightarrow> 32 word \<Rightarrow> 8 word list" where
  "XXH32_canonicalFromHash t hash = (let hash = (if little_endian t then XXH_swap32 hash else hash) in bytes32 t hash)"

definition XXH32_hashFromCanonical :: "xxh_target \<Rightarrow> 8 word list \<Rightarrow> 32 word res" where
  "XXH32_hashFromCanonical t src = XXH_readBE32 t src 0"

subsection \<open>What is computed\<close>

text \<open>The value of the hash as a function of the bytes: all full blocks into the lanes, then the rest.\<close>

definition block32 :: "8 word list \<Rightarrow> lanes32 \<Rightarrow> lanes32" where
  "block32 p = (\<lambda>(v1, v2, v3, v4). (XXH32_round v1 (half_at p 0), XXH32_round v2 (half_at p 4), XXH32_round v3 (half_at p 8),
     XXH32_round v4 (half_at p 12)))"

fun rest32 :: "8 word list \<Rightarrow> 32 word \<Rightarrow> 32 word" where
  "rest32 (a # b # c # d # bs) h = rest32 bs (XXH_rotl32 (h + le32 a b c d * XXH_PRIME32_3) 17 * XXH_PRIME32_4)"
| "rest32 (b # bs) h = rest32 bs (XXH_rotl32 (h + ucast b * XXH_PRIME32_5) 11 * XXH_PRIME32_1)"
| "rest32 [] h = XXH32_avalanche h"

definition xxh32_value :: "32 word \<Rightarrow> 8 word list \<Rightarrow> 32 word" where
  "xxh32_value seed bs = (case absorb 16 block32 bs (XXH32_init seed) of (v, r) \<Rightarrow>
     rest32 r ((if length bs \<ge> 16 then XXH32_merge v else seed + XXH_PRIME32_5) + of_nat (length bs)))"

interpretation xxh32: block_hash 16 block32
  by unfold_locales simp

lemma rounds32:
  assumes "aligned_at 4 address align i" "i + 16 \<le> length p"
  shows "XXH32_rounds t address align p i v = Inr (block32 (take 16 (drop i p)) v)"
proof -
  have "XXH_readLE32_align t address align p (i + n) = Inr (half_at (take 16 (drop i p)) n)" if "n \<in> {0, 4, 8, 12}" for n
    using that assms(2) aligned_read32 [of address align "i + n" p t] aligned_add [OF assms(1), of n]
    by (auto simp: half_at_take half_at_drop)
  from this [of 0] this [of 4] this [of 8] this [of 12] show ?thesis
    by (simp add: XXH32_rounds_def block32_def split: prod.split)
qed

lemma loop32:
  assumes "aligned_at 4 address align i" "i + 16 \<le> len" "len \<le> length p"
  shows "XXH32_loop t address align p i (len - 15) v =
    (case absorb 16 block32 (drop i (take len p)) v of (w, r) \<Rightarrow> Inr (w, len - length r))"
  using assms
proof (induction "len - i" arbitrary: i v rule: less_induct)
  case less
  have r: "XXH32_rounds t address align p i v = Inr (block32 (take 16 (drop i p)) v)" using less.prems by (intro rounds32) simp_all
  have a: "absorb 16 block32 (drop i (take len p)) v = absorb 16 block32 (drop (i + 16) (take len p)) (block32 (take 16 (drop i p)) v)"
    using less.prems(2,3) by (subst xxh32.step) (simp_all add: drop_take min_absorb2 add.commute)
  show ?case
  proof (cases "i + 32 \<le> len")
    case True
    then show ?thesis using less.hyps [of "i + 16"] less.prems r a aligned_add [OF less.prems(1), of 16]
      by (subst XXH32_loop.simps) (simp add: less_diff_conv)
  next
    case False
    then have "\<not> i + 16 < len - 15" by simp
    then show ?thesis using False less.prems r a by (subst XXH32_loop.simps) (simp add: xxh32.short)
  qed
qed

lemma rest32_byte: "length q < 3 \<Longrightarrow> rest32 (b # q) h = rest32 q (XXH_rotl32 (h + ucast b * XXH_PRIME32_5) 11 * XXH_PRIME32_1)"
  by (cases "(b # q, h)" rule: rest32.cases) auto

lemma rest32_word: "4 \<le> length q \<Longrightarrow> rest32 q h = rest32 (drop 4 q) (XXH_rotl32 (h + half_at q 0 * XXH_PRIME32_3) 17 * XXH_PRIME32_4)"
  by (cases "(q, h)" rule: rest32.cases) (auto simp: half_at_def)

lemma bytes32: "i + len \<le> length p \<Longrightarrow> len < 4 \<Longrightarrow> XXH32_bytes p i len h = Inr (rest32 (take len (drop i p)) h)"
proof (induction len arbitrary: i h)
  case 0
  then show ?case by (simp add: XXH32_bytes.simps)
next
  case (Suc len)
  have "take (Suc len) (drop i p) = p ! i # take len (drop (Suc i) p)" using Suc.prems(1) by (simp add: Cons_nth_drop_Suc [symmetric])
  then have "rest32 (take (Suc len) (drop i p)) h =
      rest32 (take len (drop (Suc i) p)) (XXH_rotl32 (h + ucast (p ! i) * XXH_PRIME32_5) 11 * XXH_PRIME32_1)"
    using Suc.prems(2) by (simp add: rest32_byte)
  then show ?case
    using Suc.prems Suc.IH [of "Suc i"] by (subst XXH32_bytes.simps) (simp add: XXH32_process1_def read8_def)
qed

lemma words32:
  "aligned_at 4 address align i \<Longrightarrow> i + len \<le> length p \<Longrightarrow> XXH32_words t address align p i len h = Inr (rest32 (take len (drop i p)) h)"
proof (induction len arbitrary: i h rule: less_induct)
  case (less len)
  show ?case
  proof (cases "4 \<le> len")
    case True
    have "XXH32_words t address align p (i + 4) (len - 4) h' = Inr (rest32 (drop 4 (take len (drop i p))) h')" for h'
      using less.IH [of "len - 4" "i + 4"] less.prems True aligned_add [OF less.prems(1), of 4] by (simp add: drop_take add.commute)
    then show ?thesis using less.prems True
      by (subst XXH32_words.simps) (simp add: XXH32_process4_def aligned_read32 rest32_word [of "take len (drop i p)"] half_at_take half_at_drop)
  next
    case False
    then show ?thesis using less.prems by (subst XXH32_words.simps) (simp add: bytes32)
  qed
qed

lemma jump32: "len < 16 \<Longrightarrow> XXH32_jump t address align p i len h = XXH32_words t address align p i len h"
proof (induction len arbitrary: i h rule: less_induct)
  case (less len)
  have small: "XXH32_words t address align p i 0 = (\<lambda>h. Inr (XXH32_avalanche h))" "XXH32_bytes p i 0 = (\<lambda>h. Inr (XXH32_avalanche h))"
    "XXH32_words t address align p i 1 = XXH32_bytes p i 1" "XXH32_words t address align p i 2 = XXH32_bytes p i 2"
    "XXH32_bytes p i 1 = (\<lambda>h. andthen (XXH32_process1 p i h) (XXH32_bytes p (i + 1) 0))"
    "XXH32_bytes p i 2 = (\<lambda>h. andthen (XXH32_process1 p i h) (XXH32_bytes p (i + 1) 1))" for i
    by (simp_all add: fun_eq_iff XXH32_words.simps XXH32_bytes.simps)
  have "len \<in> {8, 12, 9, 13, 10, 14, 7, 11, 15} \<or> len = 4 \<or> len = 5 \<or> len = 6 \<or> len \<in> {1, 2, 3} \<or> len = 0"
    using less.prems by (simp only: insert_iff empty_iff) presburger
  then consider "len \<in> {8, 12, 9, 13, 10, 14, 7, 11, 15}" | "len = 4" | "len = 5" | "len = 6" | "len \<in> {1, 2, 3}" | "len = 0"
    by blast
  then show ?case
  proof cases
    case 1
    then have "XXH32_jump t address align p (i + 4) (len - 4) = XXH32_words t address align p (i + 4) (len - 4)"
      using less by (auto simp: fun_eq_iff)
    then show ?thesis using 1 by (subst XXH32_jump.simps, subst XXH32_words.simps) auto
  next
    case 5
    then have "XXH32_jump t address align p (i + 1) (len - 1) = XXH32_words t address align p (i + 1) (len - 1)"
      using less by (auto simp: fun_eq_iff)
    also have "\<dots> = XXH32_bytes p (i + 1) (len - 1)" using 5 by (auto simp: fun_eq_iff XXH32_words.simps)
    finally show ?thesis using 5 by (subst XXH32_jump.simps, subst XXH32_words.simps, subst XXH32_bytes.simps) auto
  next
    case 3
    then show ?thesis by (subst XXH32_jump.simps, subst XXH32_words.simps) (simp add: small [simplified])
  next
    case 4
    then show ?thesis by (subst XXH32_jump.simps, subst XXH32_words.simps) (simp add: small [simplified] Let_def add.commute)
  qed (simp_all add: XXH32_jump.simps XXH32_words.simps XXH32_bytes.simps small)
qed

lemma and15: "n AND 15 = n mod 16" for n :: nat
proof -
  have "(15 :: nat) = mask 4" by (simp add: mask_eq_exp_minus_1)
  then show ?thesis by (simp only: take_bit_eq_mask [symmetric]) (simp add: take_bit_eq_mod)
qed

lemma finalize32:
  "aligned_at 4 address align i \<Longrightarrow> i + len mod 16 \<le> length p \<Longrightarrow>
    XXH32_finalize t k h address p i len align = Inr (rest32 (take (len mod 16) (drop i p)) h)"
  using words32 [of address align i "len mod 16" p t h] by (simp add: XXH32_finalize_def and15 jump32)

lemma endian_align32:
  assumes "aligned_at 4 address align 0" "len \<le> length p"
  shows "XXH32_endian_align t k address (Some p) len seed align = Inr (xxh32_value seed (take len p))"
proof -
  obtain v r where w: "absorb 16 block32 (take len p) (XXH32_init seed) = (v, r)" by fastforce
  have r: "r = drop (len - length r) (take len p)" "length r = len mod 16"
    using xxh32.rest [of "take len p" "XXH32_init seed"] xxh32.length_rest [of "take len p" "XXH32_init seed"] w assms(2)
    by (simp_all add: min_absorb2)
  have "(len - len mod 16) mod 4 = 0" by (simp add: minus_mod_eq_div_mult)
  then have "aligned_at 4 address align (len - length r)" using assms(1) unfolding r(2) by (simp add: aligned_at_def)
  then have f: "XXH32_finalize t k h address p (len - length r) (len mod 16) align = Inr (rest32 r h)" for h
    using finalize32 [of address align "len - length r" "len mod 16" p t k h] assms(2) r by (simp add: drop_take)
  show ?thesis
  proof (cases "len \<ge> 16")
    case True
    then show ?thesis using loop32 [OF assms(1) _ assms(2), of t "XXH32_init seed"] w f assms(2)
      by (simp add: XXH32_endian_align_def and15 xxh32_value_def min_absorb2)
  next
    case False
    then have "v = XXH32_init seed" "length r = len" using w r(2) assms(2) by (simp_all add: xxh32.short min_absorb2)
    then show ?thesis using False w f assms(2) by (simp add: XXH32_endian_align_def and15 xxh32_value_def min_absorb2)
  qed
qed

lemma null32: "XXH32_endian_align t k address None 0 seed align = Inr (xxh32_value seed [])"
  by (simp add: XXH32_endian_align_def xxh32_value_def xxh32.short XXH32_finalize_def jump32 XXH32_words.simps XXH32_bytes.simps)

subsection \<open>The stream\<close>

interpretation stream32: block_stream 16 block32 "\<lambda>m. XXH32_rounds t 0 XXH_unaligned m 0"
    "\<lambda>p i len. XXH32_loop t 0 XXH_unaligned p i (len - 16 + 1)"
proof unfold_locales
  fix i len :: nat and p :: "8 word list" and v assume a: "i + 16 \<le> len" "len \<le> length p"
  then have "len - 16 + 1 = len - 15" by simp
  then show "XXH32_loop t 0 XXH_unaligned p i (len - 16 + 1) v = (case absorb 16 block32 (drop i (take len p)) v of (w, r) \<Rightarrow> Inr (w, len - length r))"
    using loop32 [OF aligned_unaligned a] by (simp only:)
qed (simp add: rounds32)

definition holds32 :: "32 word \<Rightarrow> 8 word list \<Rightarrow> XXH32_state_t \<Rightarrow> bool" where
  "holds32 seed bs s \<longleftrightarrow> absorb 16 block32 bs (XXH32_init seed) = (v32 s, take (memsize32 s) (mem32 s)) \<and>
     length (mem32 s) = 16 \<and> memsize32 s \<le> 16 \<and> total_len_32 s = of_nat (length bs) \<and> (large_len s \<longleftrightarrow> length bs \<ge> 16)"

lemma reset32: "holds32 seed [] (snd (XXH32_reset seed))"
  by (simp add: holds32_def XXH32_reset_def xxh32.short)

lemma update_refill32:
  "XXH32_update t s (Some p) len =
    (let total = total_len_32 s + of_nat len; s = s\<lparr>total_len_32 := total, large_len := large_len s \<or> len \<ge> 16 \<or> total \<ge> 16\<rparr> in
     andthen (refill 16 (\<lambda>m. XXH32_rounds t 0 XXH_unaligned m 0) (\<lambda>p i len. XXH32_loop t 0 XXH_unaligned p i (len - 16 + 1))
        (v32 s) (mem32 s) (memsize32 s) p len) (\<lambda>(v, m, n). Inr (XXH_OK, s\<lparr>v32 := v, mem32 := m, memsize32 := n\<rparr>)))"
  by (cases s) (simp add: XXH32_update_def refill_def Let_def andthen_assoc andthen_if andthen_case_prod cong: if_cong)

lemma update32:
  assumes "holds32 seed bs s" "len \<le> length p"
  shows "\<exists>s'. XXH32_update t s (Some p) len = Inr (XXH_OK, s') \<and> holds32 seed (bs @ take len p) s'"
proof -
  have large: "len \<ge> 16 \<or> length bs \<ge> 16 \<or> (of_nat (length bs + len) :: 32 word) \<ge> 16 \<longleftrightarrow> length bs + len \<ge> 16"
  proof -
    have "(of_nat (length bs + len) :: 32 word) \<ge> 16 \<longleftrightarrow> (length bs + len) mod 2 ^ 32 \<ge> 16"
      by (simp add: word_le_nat_alt unat_of_nat del: of_nat_add)
    moreover have "(length bs + len) mod 2 ^ 32 \<le> length bs + len" by (rule mod_less_eq_dividend)
    moreover have "(length bs + len) mod 2 ^ 32 = length bs + len" if "len < 16" "length bs < 16" using that by simp
    ultimately show ?thesis by linarith
  qed
  have h: "absorb 16 block32 bs (XXH32_init seed) = (v32 s, take (memsize32 s) (mem32 s))" "length (mem32 s) = 16" "memsize32 s \<le> 16"
    using assms(1) by (simp_all add: holds32_def)
  obtain v m n where "refill 16 (\<lambda>m. XXH32_rounds t 0 XXH_unaligned m 0) (\<lambda>p i len. XXH32_loop t 0 XXH_unaligned p i (len - 16 + 1))
      (v32 s) (mem32 s) (memsize32 s) p len = Inr (v, m, n)" "length m = 16" "n \<le> 16"
    "absorb 16 block32 (bs @ take len p) (XXH32_init seed) = (v, take n m)"
    using stream32.refill_ok [OF h assms(2)] by blast
  then show ?thesis using assms large by (auto simp: update_refill32 holds32_def Let_def)
qed

lemma digest32:
  assumes "holds32 seed bs s"
  shows "XXH32_digest t k s = Inr (xxh32_value seed bs)"
proof -
  have w: "absorb 16 block32 bs (XXH32_init seed) = (v32 s, take (memsize32 s) (mem32 s))" and m: "length (mem32 s) = 16" "memsize32 s \<le> 16"
    and l: "total_len_32 s = of_nat (length bs)" "large_len s \<longleftrightarrow> length bs \<ge> 16"
    using assms by (simp_all add: holds32_def)
  have n: "memsize32 s < 16" using xxh32.rest_short [OF w] m by simp
  have third: "fst (snd (snd (v32 s))) = seed" if "length bs < 16"
  proof -
    have "v32 s = XXH32_init seed" using w that by (simp add: xxh32.short)
    then show ?thesis by (simp add: XXH32_init_def)
  qed
  have f: "XXH32_finalize t k h 0 (mem32 s) 0 (memsize32 s) XXH_aligned = Inr (rest32 (take (memsize32 s) (mem32 s)) h)" for h
    using finalize32 [of 0 XXH_aligned 0 "memsize32 s" "mem32 s" t k h] n m by (simp add: aligned_at_def)
  show ?thesis using w l third f by (cases "large_len s") (simp_all add: XXH32_digest_def xxh32_value_def Let_def)
qed

subsection \<open>The properties of XXH32\<close>

definition XXH32_feed :: "xxh_target \<Rightarrow> 8 word list list \<Rightarrow> XXH32_state_t \<Rightarrow> XXH32_state_t res" where
  "XXH32_feed t = each_step (\<lambda>p s. andthen (XXH32_update t s (Some p) (length p)) (\<lambda>(_, s). Inr s))"

lemma feed32: "holds32 seed bs s \<Longrightarrow> \<exists>s'. XXH32_feed t ps s = Inr s' \<and> holds32 seed (bs @ concat ps) s'"
proof (induction ps arbitrary: bs s)
  case (Cons p ps)
  obtain s1 where "XXH32_update t s (Some p) (length p) = Inr (XXH_OK, s1)" "holds32 seed (bs @ p) s1"
    using update32 [OF Cons.prems, of "length p" p t] by auto
  then show ?case using Cons.IH [of "bs @ p" s1] by (simp add: XXH32_feed_def)
qed (simp add: XXH32_feed_def)

lemma xxh32_eq: "len \<le> length p \<Longrightarrow> XXH32 t k address (Some p) len seed = Inr (xxh32_value seed (take len p))"
proof -
  assume len: "len \<le> length p"
  obtain s where "XXH32_update t (snd (XXH32_reset seed)) (Some p) len = Inr (XXH_OK, s)" "holds32 seed (take len p) s"
    using update32 [OF reset32 len, where seed = seed and t = t] by auto
  moreover have "(3 :: nat) = mask 2" by (simp add: mask_eq_exp_minus_1)
  then have "address AND 3 = address mod 4" by (simp only: take_bit_eq_mask [symmetric]) (simp add: take_bit_eq_mod)
  ultimately show ?thesis using len digest32 [of seed "take len p" s t k] by (simp add: XXH32_def endian_align32 aligned_at_def)
qed

text \<open>
  C38: XXH32 in pieces. Whatever pieces an input comes in, resetting a state, updating it with each piece and taking the digest gives the hash of
  the whole input, without a fault; this hash does not depend on the processor, on the address of the input or on the build switches. There is no bound on
  the length of the input, although the state counts it with 32 bits.
\<close>

theorem xxh32_in_pieces:
  "andthen (XXH32_feed t parts (snd (XXH32_reset seed))) (XXH32_digest t k)
      = XXH32 t' k' address (Some (concat parts)) (length (concat parts)) seed \<and>
   returns (XXH32 t' k' address (Some (concat parts)) (length (concat parts)) seed)"
proof -
  obtain s where "XXH32_feed t parts (snd (XXH32_reset seed)) = Inr s" "holds32 seed (concat parts) s"
    using feed32 [OF reset32, where seed = seed and t = t and ps = parts] by auto
  then show ?thesis by (simp add: digest32 xxh32_eq)
qed

lemma xxh32_test_values: "xxh32_value 0 [] = 0x02CC5D05" "xxh32_value 0 [0x61, 0x62, 0x63] = 0x32D153FF"
  by code_simp+

text \<open>The canonical form of a hash is its four bytes with the highest first, and the hash is read back from it.\<close>

lemma canonical32: "XXH32_canonicalFromHash t h = map (\<lambda>n. ucast (drop_bit n h)) [24, 16, 8, 0]"
  by (simp add: XXH32_canonicalFromHash_def bytes32_def swap32_bytes bytes_le32)

lemma canonical32_roundtrip: "XXH32_hashFromCanonical t (XXH32_canonicalFromHash u h) = Inr h"
  by (simp add: XXH32_hashFromCanonical_def canonical32 XXH_readBE32_def XXH_read32_def swap32_bytes bytes_le32 le32_bytes)

end
