(* ===== verification/XXH64.thy ===== *)
theory XXH64
  imports XXH_Blocks
begin

unbundle bit_operations_syntax

section \<open>XXH64\<close>

text \<open>The hash with 64 bits of \<open>utilities/xxhash.h\<close>, at once and as a stream, in the manner of theory XXH32.\<close>

type_synonym lanes64 = "64 word \<times> 64 word \<times> 64 word \<times> 64 word"

record XXH64_state_t =
  total_len :: "64 word"
  v64 :: lanes64
  mem64 :: "8 word list"
  memsize64 :: nat

subsection \<open>At once\<close>

definition XXH64_round :: "64 word \<Rightarrow> 64 word \<Rightarrow> 64 word" where
  "XXH64_round acc input = (let acc = acc + input * XXH_PRIME64_2; acc = XXH_rotl64 acc 31; acc = acc * XXH_PRIME64_1 in acc)"

definition XXH64_mergeRound :: "64 word \<Rightarrow> 64 word \<Rightarrow> 64 word" where
  "XXH64_mergeRound acc val =
     (let val = XXH64_round 0 val; acc = acc XOR val; acc = acc * XXH_PRIME64_1 + XXH_PRIME64_4 in acc)"

text \<open>The last bytes: words of eight bytes, at most one of four, and single bytes.\<close>

fun XXH64_bytes :: "8 word list \<Rightarrow> nat \<Rightarrow> nat \<Rightarrow> 64 word \<Rightarrow> 64 word res" where
  "XXH64_bytes p i len hash =
     (if len > 0 then andthen (read8 p i) (\<lambda>b.
        let hash = hash XOR ucast b * XXH_PRIME64_5; hash = XXH_rotl64 hash 11 * XXH_PRIME64_1 in
        XXH64_bytes p (i + 1) (len - 1) hash)
      else Inr (XXH64_avalanche hash))"

definition XXH64_half :: "xxh_target \<Rightarrow> nat \<Rightarrow> XXH_alignment \<Rightarrow> 8 word list \<Rightarrow> nat \<Rightarrow> nat \<Rightarrow> 64 word \<Rightarrow> 64 word res" where
  "XXH64_half t address align p i len hash =
     (if len \<ge> 4 then andthen (XXH_readLE32_align t address align p i) (\<lambda>w.
        let hash = hash XOR ucast w * XXH_PRIME64_1; hash = XXH_rotl64 hash 23 * XXH_PRIME64_2 + XXH_PRIME64_3 in
        XXH64_bytes p (i + 4) (len - 4) hash)
      else XXH64_bytes p i len hash)"

fun XXH64_words :: "xxh_target \<Rightarrow> nat \<Rightarrow> XXH_alignment \<Rightarrow> 8 word list \<Rightarrow> nat \<Rightarrow> nat \<Rightarrow> 64 word \<Rightarrow> 64 word res" where
  "XXH64_words t address align p i len hash =
     (if len \<ge> 8 then andthen (XXH_readLE64_align t address align p i) (\<lambda>w.
        let k1 = XXH64_round 0 w; hash = hash XOR k1; hash = XXH_rotl64 hash 27 * XXH_PRIME64_1 + XXH_PRIME64_4 in
        XXH64_words t address align p (i + 8) (len - 8) hash)
      else XXH64_half t address align p i len hash)"

declare XXH64_bytes.simps [simp del] XXH64_words.simps [simp del]

definition XXH64_finalize ::
  "xxh_target \<Rightarrow> 64 word \<Rightarrow> nat \<Rightarrow> 8 word list \<Rightarrow> nat \<Rightarrow> nat \<Rightarrow> XXH_alignment \<Rightarrow> 64 word res" where
  "XXH64_finalize t hash address p i len align = XXH64_words t address align p i (len AND 31) hash"

definition XXH64_rounds :: "xxh_target \<Rightarrow> nat \<Rightarrow> XXH_alignment \<Rightarrow> 8 word list \<Rightarrow> nat \<Rightarrow> lanes64 \<Rightarrow> lanes64 res" where
  "XXH64_rounds t address align p i = (\<lambda>(v1, v2, v3, v4).
     andthen (XXH_readLE64_align t address align p i) (\<lambda>w1. andthen (XXH_readLE64_align t address align p (i + 8)) (\<lambda>w2.
     andthen (XXH_readLE64_align t address align p (i + 16)) (\<lambda>w3. andthen (XXH_readLE64_align t address align p (i + 24)) (\<lambda>w4.
       Inr (XXH64_round v1 w1, XXH64_round v2 w2, XXH64_round v3 w3, XXH64_round v4 w4))))))"

function XXH64_loop ::
  "xxh_target \<Rightarrow> nat \<Rightarrow> XXH_alignment \<Rightarrow> 8 word list \<Rightarrow> nat \<Rightarrow> nat \<Rightarrow> lanes64 \<Rightarrow> (lanes64 \<times> nat) res" where
  "XXH64_loop t address align p i limit v =
     andthen (XXH64_rounds t address align p i v) (\<lambda>v.
       if i + 32 < limit then XXH64_loop t address align p (i + 32) limit v else Inr (v, i + 32))"
  by pat_completeness auto
termination by (relation "measure (\<lambda>(t, address, align, p, i, limit, v). limit - i)") auto

declare XXH64_loop.simps [simp del]

definition XXH64_init :: "64 word \<Rightarrow> lanes64" where
  "XXH64_init seed = (seed + XXH_PRIME64_1 + XXH_PRIME64_2, seed + XXH_PRIME64_2, seed + 0, seed - XXH_PRIME64_1)"

definition XXH64_merge :: "lanes64 \<Rightarrow> 64 word" where
  "XXH64_merge = (\<lambda>(v1, v2, v3, v4).
     let h64 = XXH_rotl64 v1 1 + XXH_rotl64 v2 7 + XXH_rotl64 v3 12 + XXH_rotl64 v4 18;
         h64 = XXH64_mergeRound h64 v1; h64 = XXH64_mergeRound h64 v2; h64 = XXH64_mergeRound h64 v3; h64 = XXH64_mergeRound h64 v4
     in h64)"

definition XXH64_endian_align :: "xxh_target \<Rightarrow> nat \<Rightarrow> 8 word list option \<Rightarrow> nat \<Rightarrow> 64 word \<Rightarrow> XXH_alignment \<Rightarrow> 64 word res" where
  "XXH64_endian_align t address input len seed align =
     (if input = None \<and> len \<noteq> 0 then Inl Unreachable
      else let p = (case input of None \<Rightarrow> [] | Some p \<Rightarrow> p) in
        andthen (if len \<ge> 32 then andthen (XXH64_loop t address align p 0 (len - 31) (XXH64_init seed)) (\<lambda>(v, i). Inr (XXH64_merge v, i))
                 else Inr (seed + XXH_PRIME64_5, 0)) (\<lambda>(h64, i).
          let h64 = h64 + of_nat len in XXH64_finalize t h64 address p i len align))"

subsection \<open>As a stream\<close>

definition XXH64_reset :: "64 word \<Rightarrow> XXH_errorcode \<times> XXH64_state_t" where
  "XXH64_reset seed = (XXH_OK, \<lparr>total_len = 0, v64 = XXH64_init seed, mem64 = replicate 32 0, memsize64 = 0\<rparr>)"

definition XXH64_update ::
  "xxh_target \<Rightarrow> XXH64_state_t \<Rightarrow> 8 word list option \<Rightarrow> nat \<Rightarrow> (XXH_errorcode \<times> XXH64_state_t) res" where
  "XXH64_update t state input len =
     (case input of None \<Rightarrow> if len \<noteq> 0 then Inl Unreachable else Inr (XXH_OK, state) | Some p \<Rightarrow>
      let state = state\<lparr>total_len := total_len state + of_nat len\<rparr> in
      if memsize64 state + len < 32
      then andthen (XXH_memcpy (mem64 state) (memsize64 state) p 0 len) (\<lambda>m.
        Inr (XXH_OK, state\<lparr>mem64 := m, memsize64 := memsize64 state + len\<rparr>))
      else andthen (if memsize64 state \<noteq> 0
          then andthen (XXH_memcpy (mem64 state) (memsize64 state) p 0 (32 - memsize64 state)) (\<lambda>m.
               andthen (XXH64_rounds t 0 XXH_unaligned m 0 (v64 state)) (\<lambda>v.
                 Inr (state\<lparr>mem64 := m, v64 := v, memsize64 := 0\<rparr>, 32 - memsize64 state)))
          else Inr (state, 0)) (\<lambda>(state, i).
        andthen (if i + 32 \<le> len then XXH64_loop t 0 XXH_unaligned p i (len - 32 + 1) (v64 state) else Inr (v64 state, i)) (\<lambda>(v, i).
          let state = state\<lparr>v64 := v\<rparr> in
          if i < len then andthen (XXH_memcpy (mem64 state) 0 p i (len - i)) (\<lambda>m. Inr (XXH_OK, state\<lparr>mem64 := m, memsize64 := len - i\<rparr>))
          else Inr (XXH_OK, state))))"

definition XXH64_digest :: "xxh_target \<Rightarrow> XXH64_state_t \<Rightarrow> 64 word res" where
  "XXH64_digest t state =
     (let h64 = (if total_len state \<ge> 32 then XXH64_merge (v64 state) else fst (snd (snd (v64 state))) + XXH_PRIME64_5);
          h64 = h64 + total_len state
      in XXH64_finalize t h64 0 (mem64 state) 0 (unat (total_len state)) XXH_aligned)"

definition XXH64 :: "xxh_target \<Rightarrow> xxh_switches \<Rightarrow> nat \<Rightarrow> 8 word list option \<Rightarrow> nat \<Rightarrow> 64 word \<Rightarrow> 64 word res" where
  "XXH64 t k address input len seed =
     (if size_opt_2 k
      then andthen (XXH64_update t (snd (XXH64_reset seed)) input len) (\<lambda>(_, state). XXH64_digest t state)
      else if force_align_check k \<and> address AND 7 = 0 then XXH64_endian_align t address input len seed XXH_aligned
      else XXH64_endian_align t address input len seed XXH_unaligned)"

definition XXH64_canonicalFromHash :: "xxh_target \<Rightarrow> 64 word \<Rightarrow> 8 word list" where
  "XXH64_canonicalFromHash t hash = (let hash = (if little_endian t then XXH_swap64 hash else hash) in bytes64 t hash)"

definition XXH64_hashFromCanonical :: "xxh_target \<Rightarrow> 8 word list \<Rightarrow> 64 word res" where
  "XXH64_hashFromCanonical t src = XXH_readBE64 t src 0"

subsection \<open>What is computed\<close>

definition block64 :: "8 word list \<Rightarrow> lanes64 \<Rightarrow> lanes64" where
  "block64 p = (\<lambda>(v1, v2, v3, v4). (XXH64_round v1 (word_at p 0), XXH64_round v2 (word_at p 8), XXH64_round v3 (word_at p 16),
     XXH64_round v4 (word_at p 24)))"

fun tail64 :: "8 word list \<Rightarrow> 64 word \<Rightarrow> 64 word" where
  "tail64 (b # bs) h = tail64 bs (XXH_rotl64 (h XOR ucast b * XXH_PRIME64_5) 11 * XXH_PRIME64_1)"
| "tail64 [] h = XXH64_avalanche h"

fun rest64 :: "8 word list \<Rightarrow> 64 word \<Rightarrow> 64 word" where
  "rest64 bs h = (if 8 \<le> length bs
     then rest64 (drop 8 bs) (XXH_rotl64 (h XOR XXH64_round 0 (word_at bs 0)) 27 * XXH_PRIME64_1 + XXH_PRIME64_4)
     else if 4 \<le> length bs then tail64 (drop 4 bs) (XXH_rotl64 (h XOR ucast (half_at bs 0) * XXH_PRIME64_1) 23 * XXH_PRIME64_2 + XXH_PRIME64_3)
     else tail64 bs h)"

declare rest64.simps [simp del]

definition xxh64_value :: "64 word \<Rightarrow> 8 word list \<Rightarrow> 64 word" where
  "xxh64_value seed bs = (case absorb 32 block64 bs (XXH64_init seed) of (v, r) \<Rightarrow>
     rest64 r ((if length bs \<ge> 32 then XXH64_merge v else seed + XXH_PRIME64_5) + of_nat (length bs)))"

lemma xxh64_test_values: "xxh64_value 0 [] = 0xEF46DB3751D8E999" "xxh64_value 0 [0x61, 0x62, 0x63] = 0x44BC2CF5AD770999"
  by code_simp+

interpretation xxh64: block_hash 32 block64
  by unfold_locales simp

lemma rounds64:
  assumes "aligned_at 8 address align i" "i + 32 \<le> length p"
  shows "XXH64_rounds t address align p i v = Inr (block64 (take 32 (drop i p)) v)"
proof -
  have "XXH_readLE64_align t address align p (i + n) = Inr (word_at (take 32 (drop i p)) n)" if "n \<in> {0, 8, 16, 24}" for n
    using that assms(2) aligned_read64 [of address align "i + n" p t] aligned_add [OF assms(1), of n]
    by (auto simp: word_at_take word_at_drop)
  from this [of 0] this [of 8] this [of 16] this [of 24] show ?thesis
    by (simp add: XXH64_rounds_def block64_def split: prod.split)
qed

lemma loop64:
  assumes "aligned_at 8 address align i" "i + 32 \<le> len" "len \<le> length p"
  shows "XXH64_loop t address align p i (len - 31) v =
    (case absorb 32 block64 (drop i (take len p)) v of (w, r) \<Rightarrow> Inr (w, len - length r))"
  using assms
proof (induction "len - i" arbitrary: i v rule: less_induct)
  case less
  have r: "XXH64_rounds t address align p i v = Inr (block64 (take 32 (drop i p)) v)" using less.prems by (intro rounds64) simp_all
  have a: "absorb 32 block64 (drop i (take len p)) v = absorb 32 block64 (drop (i + 32) (take len p)) (block64 (take 32 (drop i p)) v)"
    using less.prems(2,3) by (subst xxh64.step) (simp_all add: drop_take min_absorb2 add.commute)
  show ?case
  proof (cases "i + 64 \<le> len")
    case True
    then show ?thesis using less.hyps [of "i + 32"] less.prems r a aligned_add [OF less.prems(1), of 32]
      by (subst XXH64_loop.simps) (simp add: less_diff_conv)
  next
    case False
    then have "\<not> i + 32 < len - 31" by simp
    then show ?thesis using False less.prems r a by (subst XXH64_loop.simps) (simp add: xxh64.short)
  qed
qed

lemma bytes_tail64: "i + len \<le> length p \<Longrightarrow> XXH64_bytes p i len h = Inr (tail64 (take len (drop i p)) h)"
proof (induction len arbitrary: i h)
  case (Suc len)
  have "take (Suc len) (drop i p) = p ! i # take len (drop (Suc i) p)" using Suc.prems(1) by (simp add: Cons_nth_drop_Suc [symmetric])
  then show ?case
    using Suc.prems Suc.IH [of "Suc i"] by (subst XXH64_bytes.simps) (simp add: read8_def)
qed (simp add: XXH64_bytes.simps)

lemma half64:
  "aligned_at 4 address align i \<Longrightarrow> i + len \<le> length p \<Longrightarrow> len < 8 \<Longrightarrow>
    XXH64_half t address align p i len h = Inr (rest64 (take len (drop i p)) h)"
  by (subst rest64.simps)
    (simp add: XXH64_half_def aligned_read32 bytes_tail64 half_at_take half_at_drop drop_take min_absorb2 add.commute)

lemma words64:
  "aligned_at 8 address align i \<Longrightarrow> i + len \<le> length p \<Longrightarrow> XXH64_words t address align p i len h = Inr (rest64 (take len (drop i p)) h)"
proof (induction len arbitrary: i h rule: less_induct)
  case (less len)
  have "aligned_at 4 address align i"
    using less.prems(1) mod_mod_cancel [of 4 8 address] mod_mod_cancel [of 4 8 i] by (auto simp: aligned_at_def)
  show ?case
  proof (cases "8 \<le> len")
    case True
    have "XXH64_words t address align p (i + 8) (len - 8) h' = Inr (rest64 (drop 8 (take len (drop i p))) h')" for h'
      using less.IH [of "len - 8" "i + 8"] less.prems True aligned_add [OF less.prems(1), of 8] by (simp add: drop_take add.commute)
    then show ?thesis using less.prems True
      by (subst XXH64_words.simps) (simp add: aligned_read64 rest64.simps [of "take len (drop i p)"] word_at_take word_at_drop min_absorb2)
  next
    case False
    then show ?thesis using less.prems \<open>aligned_at 4 address align i\<close> by (subst XXH64_words.simps) (simp add: half64)
  qed
qed

lemma and31: "n AND 31 = n mod 32" for n :: nat
proof -
  have "(31 :: nat) = mask 5" by (simp add: mask_eq_exp_minus_1)
  then show ?thesis by (simp only: take_bit_eq_mask [symmetric]) (simp add: take_bit_eq_mod)
qed

lemma finalize64:
  "aligned_at 8 address align i \<Longrightarrow> i + len mod 32 \<le> length p \<Longrightarrow>
    XXH64_finalize t h address p i len align = Inr (rest64 (take (len mod 32) (drop i p)) h)"
  using words64 [of address align i "len mod 32" p t h] by (simp add: XXH64_finalize_def and31)

lemma endian_align64:
  assumes "aligned_at 8 address align 0" "len \<le> length p"
  shows "XXH64_endian_align t address (Some p) len seed align = Inr (xxh64_value seed (take len p))"
proof -
  obtain v r where w: "absorb 32 block64 (take len p) (XXH64_init seed) = (v, r)" by fastforce
  have r: "r = drop (len - length r) (take len p)" "length r = len mod 32"
    using xxh64.rest [of "take len p" "XXH64_init seed"] xxh64.length_rest [of "take len p" "XXH64_init seed"] w assms(2)
    by (simp_all add: min_absorb2)
  have "(len - len mod 32) mod 8 = 0" by (simp add: minus_mod_eq_div_mult)
  then have "aligned_at 8 address align (len - length r)" using assms(1) unfolding r(2) by (simp add: aligned_at_def)
  then have f: "XXH64_finalize t h address p (len - length r) len align = Inr (rest64 r h)" for h
    using finalize64 [of address align "len - length r" len p t h] assms(2) r by (simp add: drop_take)
  show ?thesis
  proof (cases "len \<ge> 32")
    case True
    then show ?thesis using loop64 [OF assms(1) _ assms(2), of t "XXH64_init seed"] w f assms(2)
      by (simp add: XXH64_endian_align_def xxh64_value_def min_absorb2)
  next
    case False
    then have "v = XXH64_init seed" "length r = len" using w r(2) assms(2) by (simp_all add: xxh64.short min_absorb2)
    then show ?thesis using False w f assms(2) by (simp add: XXH64_endian_align_def xxh64_value_def min_absorb2)
  qed
qed

subsection \<open>The stream\<close>

interpretation stream64: block_stream 32 block64 "\<lambda>m. XXH64_rounds t 0 XXH_unaligned m 0"
    "\<lambda>p i len. XXH64_loop t 0 XXH_unaligned p i (len - 32 + 1)"
proof unfold_locales
  fix i len :: nat and p :: "8 word list" and v assume a: "i + 32 \<le> len" "len \<le> length p"
  then have "len - 32 + 1 = len - 31" by simp
  then show "XXH64_loop t 0 XXH_unaligned p i (len - 32 + 1) v = (case absorb 32 block64 (drop i (take len p)) v of (w, r) \<Rightarrow> Inr (w, len - length r))"
    using loop64 [OF aligned_unaligned a] by (simp only:)
qed (simp add: rounds64)

definition holds64 :: "64 word \<Rightarrow> 8 word list \<Rightarrow> XXH64_state_t \<Rightarrow> bool" where
  "holds64 seed bs s \<longleftrightarrow> absorb 32 block64 bs (XXH64_init seed) = (v64 s, take (memsize64 s) (mem64 s)) \<and>
     length (mem64 s) = 32 \<and> memsize64 s \<le> 32 \<and> total_len s = of_nat (length bs)"

lemma reset64: "holds64 seed [] (snd (XXH64_reset seed))"
  by (simp add: holds64_def XXH64_reset_def xxh64.short)

lemma update_refill64:
  "XXH64_update t s (Some p) len =
    (let s = s\<lparr>total_len := total_len s + of_nat len\<rparr> in
     andthen (refill 32 (\<lambda>m. XXH64_rounds t 0 XXH_unaligned m 0) (\<lambda>p i len. XXH64_loop t 0 XXH_unaligned p i (len - 32 + 1))
        (v64 s) (mem64 s) (memsize64 s) p len) (\<lambda>(v, m, n). Inr (XXH_OK, s\<lparr>v64 := v, mem64 := m, memsize64 := n\<rparr>)))"
  by (cases s) (simp add: XXH64_update_def refill_def Let_def andthen_assoc andthen_if andthen_case_prod cong: if_cong)

lemma update64:
  assumes "holds64 seed bs s" "len \<le> length p"
  shows "\<exists>s'. XXH64_update t s (Some p) len = Inr (XXH_OK, s') \<and> holds64 seed (bs @ take len p) s'"
proof -
  have h: "absorb 32 block64 bs (XXH64_init seed) = (v64 s, take (memsize64 s) (mem64 s))" "length (mem64 s) = 32" "memsize64 s \<le> 32"
    using assms(1) by (simp_all add: holds64_def)
  obtain v m n where "refill 32 (\<lambda>m. XXH64_rounds t 0 XXH_unaligned m 0) (\<lambda>p i len. XXH64_loop t 0 XXH_unaligned p i (len - 32 + 1))
      (v64 s) (mem64 s) (memsize64 s) p len = Inr (v, m, n)" "length m = 32" "n \<le> 32"
    "absorb 32 block64 (bs @ take len p) (XXH64_init seed) = (v, take n m)"
    using stream64.refill_ok [OF h assms(2)] by blast
  then show ?thesis using assms by (auto simp: update_refill64 holds64_def Let_def)
qed

lemma digest64:
  assumes "holds64 seed bs s" "length bs < 2 ^ 64"
  shows "XXH64_digest t s = Inr (xxh64_value seed bs)"
proof -
  have w: "absorb 32 block64 bs (XXH64_init seed) = (v64 s, take (memsize64 s) (mem64 s))" and m: "length (mem64 s) = 32" "memsize64 s \<le> 32"
    and l: "total_len s = of_nat (length bs)"
    using assms by (simp_all add: holds64_def)
  have n: "memsize64 s = length bs mod 32" using xxh64.length_rest [of bs "XXH64_init seed"] w m by simp
  have u: "unat (total_len s) = length bs" unfolding l using assms(2) by (simp add: unat_of_nat)
  then have large: "total_len s \<ge> 32 \<longleftrightarrow> length bs \<ge> 32" by (simp add: word_le_nat_alt)
  have third: "fst (snd (snd (v64 s))) = seed" if "length bs < 32"
  proof -
    have "v64 s = XXH64_init seed" using w that by (simp add: xxh64.short)
    then show ?thesis by (simp add: XXH64_init_def)
  qed
  have f: "XXH64_finalize t h 0 (mem64 s) 0 (length bs) XXH_aligned = Inr (rest64 (take (memsize64 s) (mem64 s)) h)" for h
    using finalize64 [of 0 XXH_aligned 0 "length bs" "mem64 s" t h] m n by (simp add: aligned_at_def)
  show ?thesis using w l third f u large by (cases "length bs \<ge> 32") (simp_all add: XXH64_digest_def xxh64_value_def Let_def)
qed

subsection \<open>The properties of XXH64\<close>

definition XXH64_feed :: "xxh_target \<Rightarrow> 8 word list list \<Rightarrow> XXH64_state_t \<Rightarrow> XXH64_state_t res" where
  "XXH64_feed t = each_step (\<lambda>p s. andthen (XXH64_update t s (Some p) (length p)) (\<lambda>(_, s). Inr s))"

lemma feed64: "holds64 seed bs s \<Longrightarrow> \<exists>s'. XXH64_feed t ps s = Inr s' \<and> holds64 seed (bs @ concat ps) s'"
proof (induction ps arbitrary: bs s)
  case (Cons p ps)
  obtain s1 where "XXH64_update t s (Some p) (length p) = Inr (XXH_OK, s1)" "holds64 seed (bs @ p) s1"
    using update64 [OF Cons.prems, of "length p" p t] by auto
  then show ?case using Cons.IH [of "bs @ p" s1] by (simp add: XXH64_feed_def)
qed (simp add: XXH64_feed_def)

lemma xxh64_eq: "len \<le> length p \<Longrightarrow> len < 2 ^ 64 \<Longrightarrow> XXH64 t k address (Some p) len seed = Inr (xxh64_value seed (take len p))"
proof -
  assume len: "len \<le> length p" "len < 2 ^ 64"
  obtain s where "XXH64_update t (snd (XXH64_reset seed)) (Some p) len = Inr (XXH_OK, s)" "holds64 seed (take len p) s"
    using update64 [OF reset64 len(1), where seed = seed and t = t] by auto
  moreover have "(7 :: nat) = mask 3" by (simp add: mask_eq_exp_minus_1)
  then have "address AND 7 = address mod 8" by (simp only: take_bit_eq_mask [symmetric]) (simp add: take_bit_eq_mod)
  ultimately show ?thesis using len digest64 [of seed "take len p" s t] by (simp add: XXH64_def endian_align64 aligned_at_def)
qed

text \<open>
  XXH64 in pieces. For an input of less than 2 to the 64 bytes, whatever pieces it comes in, resetting a state, updating it with each piece
  and taking the digest gives the hash of the whole input, without a fault; this hash does not depend on the processor, on the address of the input or on the
  build switches.
\<close>

theorem xxh64_in_pieces:
  assumes "length (concat parts) < 2 ^ 64"
  shows "andthen (XXH64_feed t parts (snd (XXH64_reset seed))) (XXH64_digest t)
      = XXH64 t' k address (Some (concat parts)) (length (concat parts)) seed"
    and "returns (XXH64 t' k address (Some (concat parts)) (length (concat parts)) seed)"
proof -
  obtain s where "XXH64_feed t parts (snd (XXH64_reset seed)) = Inr s" "holds64 seed (concat parts) s"
    using feed64 [OF reset64, where seed = seed and t = t and ps = parts] by auto
  then show "andthen (XXH64_feed t parts (snd (XXH64_reset seed))) (XXH64_digest t)
      = XXH64 t' k address (Some (concat parts)) (length (concat parts)) seed"
    using assms by (simp add: digest64 xxh64_eq)
  show "returns (XXH64 t' k address (Some (concat parts)) (length (concat parts)) seed)" using assms by (simp add: xxh64_eq)
qed

theorem xxh64_in_pieces_witness:
  "andthen (XXH64_feed small_target [[0x61], [0x62, 0x63]] (snd (XXH64_reset 0))) (XXH64_digest small_target) = Inr 0x44BC2CF5AD770999"
  using xxh64_in_pieces(1) [of "[[0x61], [0x62, 0x63]]" small_target 0 small_target small_switches 0]
    xxh64_eq [of 3 "[0x61, 0x62, 0x63]" small_target small_switches 0 0] xxh64_test_values(2)
  by (simp add: numeral_3_eq_3)

text \<open>The canonical form of a hash is its eight bytes with the highest first, and the hash is read back from it.\<close>

lemma canonical64: "XXH64_canonicalFromHash t h = map (\<lambda>n. ucast (drop_bit n h)) [56, 48, 40, 32, 24, 16, 8, 0]"
  by (simp add: XXH64_canonicalFromHash_def bytes64_def swap64_bytes bytes_le64)

lemma canonical64_roundtrip: "XXH64_hashFromCanonical t (XXH64_canonicalFromHash u h) = Inr h"
  by (simp add: XXH64_hashFromCanonical_def canonical64 XXH_readBE64_def XXH_read64_def swap64_bytes bytes_le64 le64_bytes)

end
