(* ===== verification/XXH3_Secrets.thy ===== *)
theory XXH3_Secrets
  imports XXH3_Stripes XXH_Blocks
begin

unbundle bit_operations_syntax

section \<open>XXH3 with a seed or a secret of one's own\<close>

text \<open>
  The variants of the 128-bit hash that take a seed or a secret, the secrets they make, in the portable way and with vector units, and the
  operations on hash values.  Inputs and secrets are lists of bytes with a length that goes with them.
\<close>

subsection \<open>Writing memory\<close>

definition XXH_writeLE64 :: "xxh_target \<Rightarrow> 8 word list \<Rightarrow> nat \<Rightarrow> 64 word \<Rightarrow> 8 word list res" where
  "XXH_writeLE64 t dst i v = (let v = (if \<not> little_endian t then XXH_swap64 v else v) in XXH_memcpy dst i (bytes64 t v) 0 8)"

primrec mm_storeu :: "xxh_target \<Rightarrow> 8 word list \<Rightarrow> nat \<Rightarrow> lanes \<Rightarrow> 8 word list res" where
  "mm_storeu t p i [] = Inr p"
| "mm_storeu t p i (x # v) = andthen (XXH_memcpy p i (bytes64 t x) 0 8) (\<lambda>p. mm_storeu t p (i + 8) v)"

subsection \<open>The secret of a seed\<close>

definition XXH_SECRET_DEFAULT_SIZE :: nat where "XXH_SECRET_DEFAULT_SIZE = 192"

definition XXH3_initCustomSecret_scalar :: "xxh_target \<Rightarrow> 8 word list \<Rightarrow> 64 word \<Rightarrow> 8 word list res" where
  "XXH3_initCustomSecret_scalar t customSecret seed64 =
     each_step (\<lambda>i dst.
       andthen (XXH_readLE64 t XXH3_kSecret (16 * i)) (\<lambda>a. let lo = a + seed64 in
       andthen (XXH_readLE64 t XXH3_kSecret (16 * i + 8)) (\<lambda>b. let hi = b - seed64 in
       andthen (XXH_writeLE64 t dst (16 * i) lo) (\<lambda>dst. XXH_writeLE64 t dst (16 * i + 8) hi)))) [0..<XXH_SECRET_DEFAULT_SIZE div 16] customSecret"

definition XXH3_initCustomSecret_sse2 :: "xxh_target \<Rightarrow> 8 word list \<Rightarrow> 64 word \<Rightarrow> 8 word list res" where
  "XXH3_initCustomSecret_sse2 t customSecret seed64 =
     (let seed = [seed64, 0 - seed64] in
      each_step (\<lambda>i dst. andthen (mm_loadu 2 t XXH3_kSecret (16 * i)) (\<lambda>v. mm_storeu t dst (16 * i) (mm_add_epi64 v seed)))
        [0..<XXH_SECRET_DEFAULT_SIZE div 16] customSecret)"

definition XXH3_initCustomSecret_avx2 :: "xxh_target \<Rightarrow> 8 word list \<Rightarrow> 64 word \<Rightarrow> 8 word list res" where
  "XXH3_initCustomSecret_avx2 t customSecret seed64 =
     (let seed = [seed64, 0 - seed64, seed64, 0 - seed64] in
      each_step (\<lambda>i dst. andthen (mm_loadu 4 t XXH3_kSecret (32 * i)) (\<lambda>v. mm_storeu t dst (32 * i) (mm_add_epi64 v seed)))
        [0, 1, 2, 3, 4, 5] customSecret)"

text \<open>\<open>_mm512_mask_sub_epi64\<close> subtracts in the lanes whose bit is set and takes the others from its first register.\<close>

definition mm512_mask_sub_epi64 :: "lanes \<Rightarrow> nat \<Rightarrow> lanes \<Rightarrow> lanes \<Rightarrow> lanes" where
  "mm512_mask_sub_epi64 src k a b = map (\<lambda>i. if bit k i then a ! i - b ! i else src ! i) [0..<8]"

definition XXH3_initCustomSecret_avx512 :: "xxh_target \<Rightarrow> 8 word list \<Rightarrow> 64 word \<Rightarrow> 8 word list res" where
  "XXH3_initCustomSecret_avx512 t customSecret seed64 =
     (let seed_pos = replicate 8 seed64; seed = mm512_mask_sub_epi64 seed_pos 0xAA (replicate 8 0) seed_pos in
      each_step (\<lambda>i dst. andthen (mm_loadu 8 t XXH3_kSecret (64 * i)) (\<lambda>v. mm_storeu t dst (64 * i) (mm_add_epi64 v seed)))
        [0..<XXH_SECRET_DEFAULT_SIZE div 64] customSecret)"

definition XXH3_initCustomSecret :: "xxh_target \<Rightarrow> 8 word list \<Rightarrow> 64 word \<Rightarrow> 8 word list res" where
  "XXH3_initCustomSecret t =
     (if size_opt t then XXH3_initCustomSecret_scalar t
      else (case simd t of XXH_SCALAR \<Rightarrow> XXH3_initCustomSecret_scalar t | XXH_SSE2 \<Rightarrow> XXH3_initCustomSecret_sse2 t
         | XXH_AVX2 \<Rightarrow> XXH3_initCustomSecret_avx2 t | XXH_AVX512 \<Rightarrow> XXH3_initCustomSecret_avx512 t
         | _ \<Rightarrow> XXH3_initCustomSecret_scalar t))"

subsection \<open>The hashes of 128 bits\<close>

text \<open>The secret on the stack has no contents before it is made: the list of zeros stands for any.\<close>

definition XXH3_hashLong_128b_withSecret :: "xxh_target \<Rightarrow> XXH3_hashLong128_f" where
  "XXH3_hashLong_128b_withSecret t input len seed64 secret secretLen = XXH3_hashLong_128b_internal t input len secret secretLen"

definition XXH3_hashLong_128b_withSeed :: "xxh_target \<Rightarrow> XXH3_hashLong128_f" where
  "XXH3_hashLong_128b_withSeed t input len seed64 secret secretLen =
     (if seed64 = 0 then XXH3_hashLong_128b_internal t input len XXH3_kSecret (length XXH3_kSecret)
      else andthen (XXH3_initCustomSecret t (replicate XXH_SECRET_DEFAULT_SIZE 0) seed64) (\<lambda>secret.
        XXH3_hashLong_128b_internal t input len secret (length secret)))"

definition XXH3_128bits_withSecret :: "xxh_target \<Rightarrow> 8 word list \<Rightarrow> nat \<Rightarrow> 8 word list \<Rightarrow> nat \<Rightarrow> XXH128_hash_t res" where
  "XXH3_128bits_withSecret t input len secret secretSize =
     XXH3_128bits_internal t input len 0 secret secretSize (XXH3_hashLong_128b_withSecret t)"

definition XXH3_128bits_withSeed :: "xxh_target \<Rightarrow> 8 word list \<Rightarrow> nat \<Rightarrow> 64 word \<Rightarrow> XXH128_hash_t res" where
  "XXH3_128bits_withSeed t input len seed =
     XXH3_128bits_internal t input len seed XXH3_kSecret (length XXH3_kSecret) (XXH3_hashLong_128b_withSeed t)"

definition XXH3_128bits_withSecretandSeed ::
  "xxh_target \<Rightarrow> 8 word list \<Rightarrow> nat \<Rightarrow> 8 word list \<Rightarrow> nat \<Rightarrow> 64 word \<Rightarrow> XXH128_hash_t res" where
  "XXH3_128bits_withSecretandSeed t input len secret secretSize seed =
     (if len \<le> XXH3_MIDSIZE_MAX
      then XXH3_128bits_internal t input len seed XXH3_kSecret (length XXH3_kSecret) (\<lambda>_ _ _ _ _. Inl NullCall)
      else XXH3_hashLong_128b_withSecret t input len seed secret secretSize)"

definition XXH128 :: "xxh_target \<Rightarrow> 8 word list \<Rightarrow> nat \<Rightarrow> 64 word \<Rightarrow> XXH128_hash_t res" where
  "XXH128 t input len seed = XXH3_128bits_withSeed t input len seed"

subsection \<open>Every vector unit makes the same secret\<close>

definition word_bytes :: "64 word \<Rightarrow> 8 word list" where
  "word_bytes x = map (\<lambda>n. ucast (drop_bit n x)) [0, 8, 16, 24, 32, 40, 48, 56]"

definition secret_part :: "64 word \<Rightarrow> nat \<Rightarrow> 8 word list" where
  "secret_part seed i = word_bytes (word_at XXH3_kSecret (16 * i) + seed) @ word_bytes (word_at XXH3_kSecret (16 * i + 8) - seed)"

definition seeded_secret :: "64 word \<Rightarrow> 8 word list" where
  "seeded_secret seed = concat (map (secret_part seed) [0..<12])"

lemma length_word_bytes [simp]: "length (word_bytes x) = 8" and length_secret_part [simp]: "length (secret_part seed i) = 16"
  by (simp_all add: word_bytes_def secret_part_def)

lemma length_seeded_secret [simp]: "length (seeded_secret seed) = 192"
  by (simp add: seeded_secret_def upt_rec)

lemma bytes64_little: "little_endian t \<Longrightarrow> bytes64 t x = word_bytes x"
  by (simp add: bytes64_def word_bytes_def)

lemma writeLE64_eq: "i + 8 \<le> length dst \<Longrightarrow> XXH_writeLE64 t dst i v = Inr (take i dst @ word_bytes v @ drop (i + 8) dst)"
  by (simp add: XXH_writeLE64_def bytes64_def word_bytes_def swap64_bytes bytes_le64 memcpy_into)

lemma storeu_eq:
  "little_endian t \<Longrightarrow> i + 8 * length v \<le> length p \<Longrightarrow>
    mm_storeu t p i v = Inr (take i p @ concat (map word_bytes v) @ drop (i + 8 * length v) p)"
proof (induction v arbitrary: p i)
  case (Cons x v)
  have "XXH_memcpy p i (bytes64 t x) 0 8 = Inr (take i p @ word_bytes x @ drop (i + 8) p)"
    using Cons.prems by (simp add: memcpy_into bytes64_little)
  then show ?case using Cons.prems Cons.IH [of "i + 8" "take i p @ word_bytes x @ drop (i + 8) p"] by (simp add: algebra_simps)
qed simp

text \<open>Parts written one after the other.\<close>

lemma write_parts:
  assumes f: "\<And>i dst. i < m \<Longrightarrow> length dst = n * m \<Longrightarrow> f i dst = Inr (take (n * i) dst @ g i @ drop (n * i + n) dst)"
    and g: "\<And>i. length (g i) = n" and dst: "length dst = n * m"
  shows "each_step f [0..<m] dst = Inr (concat (map g [0..<m]))"
proof -
  have "each_step f [j..<m] (concat (map g [0..<j]) @ drop (n * j) dst) = Inr (concat (map g [0..<m]))" if "j \<le> m" for j
    using that
  proof (induction "m - j" arbitrary: j)
    case 0
    then show ?case using dst by simp
  next
    case (Suc d)
    have l: "length (concat (map g [0..<k])) = n * k" for k by (induction k) (simp_all add: g)
    have "n * j + n \<le> n * m" using Suc.hyps(2) by (metis Suc_leI add.commute mult_Suc_right mult_le_mono2 zero_less_Suc zero_less_diff)
    then have "f j (concat (map g [0..<j]) @ drop (n * j) dst) = Inr (concat (map g [0..<Suc j]) @ drop (n * Suc j) dst)"
      using Suc.hyps(2) l dst by (subst f) (simp_all add: algebra_simps)
    then show ?case using Suc.hyps Suc.hyps(1) [of "Suc j"] by (simp add: upt_conv_Cons del: upt_Suc)
  qed
  from this [of 0] show ?thesis by simp
qed

lemma init_scalar: "length dst = 192 \<Longrightarrow> XXH3_initCustomSecret_scalar t dst seed = Inr (seeded_secret seed)"
  unfolding XXH3_initCustomSecret_scalar_def seeded_secret_def XXH_SECRET_DEFAULT_SIZE_def Let_def
  by (simp only: div_by_1 numeral_div_numeral, rule trans, rule write_parts [where n = 16 and g = "secret_part seed"])
    (simp_all add: readLE64_eq writeLE64_eq secret_part_def add.commute)

lemma init_lanes:
  assumes "little_endian t" "w * m = 24" "length seed = w" "length dst = 192"
  shows "each_step (\<lambda>i dst. andthen (mm_loadu w t XXH3_kSecret (8 * w * i)) (\<lambda>v. mm_storeu t dst (8 * w * i) (mm_add_epi64 v seed))) [0..<m] dst =
    Inr (concat (map (\<lambda>i. concat (map word_bytes (map2 (+) (map (\<lambda>j. word_at XXH3_kSecret (8 * w * i + 8 * j)) [0..<w]) seed))) [0..<m]))"
proof (rule write_parts [where n = "8 * w"])
  fix i and dst :: "8 word list" assume i: "i < m" "length dst = 8 * w * m"
  have "w * Suc i \<le> w * m" using i(1) by (intro mult_le_mono2) simp
  then have b: "8 * w * i + 8 * w \<le> 192" using assms(2) by simp
  then have d: "8 * w * i + 8 * w \<le> length dst" using i(2) assms(2) by simp
  show "andthen (mm_loadu w t XXH3_kSecret (8 * w * i)) (\<lambda>v. mm_storeu t dst (8 * w * i) (mm_add_epi64 v seed)) =
      Inr (take (8 * w * i) dst @ concat (map word_bytes (map2 (+) (map (\<lambda>j. word_at XXH3_kSecret (8 * w * i + 8 * j)) [0..<w]) seed)) @
        drop (8 * w * i + 8 * w) dst)"
    using b d assms(1,3) by (simp add: mm_loadu_eq storeu_eq mm_add_epi64_def)
next
  show "length (concat (map word_bytes (map2 (+) (map (\<lambda>j. word_at XXH3_kSecret (8 * w * i + 8 * j)) [0..<w]) seed))) = 8 * w" for i
    using assms(3) by (simp add: length_concat comp_def sum_list_triv)
qed (use assms in \<open>simp add: mult.commute\<close>)

lemma init_secret:
  assumes "length dst = 192"
  shows "XXH3_initCustomSecret t dst seed = Inr (seeded_secret seed)"
proof -
  have p: "secret_part seed i = concat (map word_bytes [word_at XXH3_kSecret (16 * i) + seed, word_at XXH3_kSecret (16 * i + 8) - seed])" for i
    by (simp add: secret_part_def)
  have d: "(192 :: nat) div 16 = 12" "(192 :: nat) div 64 = 3" by simp_all
  have upt: "[0..<12] = [0, 1, 2, 3, 4, 5, 6, 7, 8, 9, 10, 11 :: nat]" "[0..<6] = [0, 1, 2, 3, 4, 5 :: nat]" "[0..<3] = [0, 1, 2 :: nat]"
    by (simp_all add: upt_rec)
  have m: "mm512_mask_sub_epi64 (replicate 8 seed) 0xAA (replicate 8 0) (replicate 8 seed) =
      [seed, 0 - seed, seed, 0 - seed, seed, 0 - seed, seed, 0 - seed]"
    by (simp add: mm512_mask_sub_epi64_def upto8 bit_Suc_0_iff)
  have two: "XXH3_initCustomSecret_sse2 t dst seed = Inr (seeded_secret seed)" if "little_endian t"
    using init_lanes [OF that, of 2 12 "[seed, 0 - seed]" dst] assms
    by (simp add: XXH3_initCustomSecret_sse2_def XXH_SECRET_DEFAULT_SIZE_def d upt seeded_secret_def p upto2)
  have four: "XXH3_initCustomSecret_avx2 t dst seed = Inr (seeded_secret seed)" if "little_endian t"
    using init_lanes [OF that, of 4 6 "[seed, 0 - seed, seed, 0 - seed]" dst] assms
    by (simp add: XXH3_initCustomSecret_avx2_def upt seeded_secret_def p upto4)
  have eight: "XXH3_initCustomSecret_avx512 t dst seed = Inr (seeded_secret seed)" if "little_endian t"
    using init_lanes [OF that, of 8 3 "[seed, 0 - seed, seed, 0 - seed, seed, 0 - seed, seed, 0 - seed]" dst] assms
    by (simp add: XXH3_initCustomSecret_avx512_def XXH_SECRET_DEFAULT_SIZE_def d m upt seeded_secret_def p upto8)
  show ?thesis
    using init_scalar [OF assms] two four eight simd_little_endian [of t] by (cases "simd t") (auto simp: XXH3_initCustomSecret_def)
qed

lemma word_bytes_word:
  assumes "i + 8 \<le> length p"
  shows "word_bytes (word_at p i) = take 8 (drop i p)"
proof -
  have "take 8 (drop i p) = map (\<lambda>j. p ! (i + j)) [0..<8]" by (rule nth_equalityI) (use assms in simp_all)
  then show ?thesis by (simp add: upto8 word_bytes_def word_at_def bytes_le64)
qed

lemma concat_parts: "n * m \<le> length xs \<Longrightarrow> concat (map (\<lambda>i. take n (drop (n * i) xs)) [0..<m]) = take (n * m) xs"
proof (induction m)
  case (Suc m)
  have "take (n * Suc m) xs = take (n * m) xs @ take n (drop (n * m) xs)" by (simp add: take_add [symmetric] add.commute)
  then show ?case using Suc by simp
qed simp

lemma seeded_zero: "seeded_secret 0 = XXH3_kSecret"
proof -
  have "secret_part 0 i = take 16 (drop (16 * i) XXH3_kSecret)" if "i < 12" for i
    using that take_add [of 8 8 "drop (16 * i) XXH3_kSecret"] by (simp add: secret_part_def word_bytes_word add.commute)
  then have "seeded_secret 0 = concat (map (\<lambda>i. take 16 (drop (16 * i) XXH3_kSecret)) [0..<12])"
    unfolding seeded_secret_def by (intro arg_cong [where f = concat] map_cong) simp_all
  then show ?thesis using concat_parts [of 16 12 XXH3_kSecret] by simp
qed

subsection \<open>The variants on every target\<close>

lemma withSecret_agree:
  assumes "alike t u len" and "len \<le> length p" "136 \<le> sz" "sz \<le> length s"
  shows "agree (XXH3_128bits_withSecret t p len s sz) (XXH3_128bits_withSecret u p len s sz)"
  unfolding XXH3_128bits_withSecret_def XXH3_hashLong_128b_withSecret_def
  by (rule internal_cases [OF assms(2-4)]) (use assms alike_long in \<open>intro long_agree; simp\<close>)

lemma long_withSeed:
  "XXH3_hashLong_128b_withSeed t p len seed s sz = XXH3_hashLong_128b_internal t p len (seeded_secret seed) 192"
  by (simp add: XXH3_hashLong_128b_withSeed_def init_secret XXH_SECRET_DEFAULT_SIZE_def seeded_zero)

lemma withSeed_agree: "alike t u len \<Longrightarrow> len \<le> length p \<Longrightarrow> agree (XXH3_128bits_withSeed t p len seed) (XXH3_128bits_withSeed u p len seed)"
  unfolding XXH3_128bits_withSeed_def by (rule internal_cases) (simp_all add: long_withSeed long_agree alike_long)

lemma withSecretandSeed_agree:
  assumes "alike t u len" and "len \<le> length p" "136 \<le> sz" "sz \<le> length s"
  shows "agree (XXH3_128bits_withSecretandSeed t p len s sz seed) (XXH3_128bits_withSecretandSeed u p len s sz seed)"
proof (cases "len \<le> XXH3_MIDSIZE_MAX")
  case True
  then show ?thesis unfolding XXH3_128bits_withSecretandSeed_def if_P [OF True]
    by (intro internal_cases) (use assms in \<open>simp_all add: XXH3_MIDSIZE_MAX_def\<close>)
next
  case False
  then show ?thesis using assms long_agree [of t u len p sz s] alike_long [OF assms(1)]
    by (simp add: XXH3_128bits_withSecretandSeed_def XXH3_hashLong_128b_withSecret_def XXH3_MIDSIZE_MAX_def)
qed

text \<open>
  Seeds and secrets on every target. Whatever the seed, and for every secret of at least 136 bytes, the hashes with a seed, with a
  secret and with both read nothing outside the input and the secret, and are the same on all targets that hash inputs of this length alike; the secret made
  from a seed does not depend on the vector unit it is made with.
\<close>

theorem xxh3_seeded_same_on_alike_targets:
  assumes "alike t u len" and "len \<le> length p" "136 \<le> sz" "sz \<le> length s"
  shows "XXH3_128bits_withSecret t p len s sz = XXH3_128bits_withSecret u p len s sz"
    and "XXH3_128bits_withSeed t p len seed = XXH3_128bits_withSeed u p len seed"
    and "XXH3_128bits_withSecretandSeed t p len s sz seed = XXH3_128bits_withSecretandSeed u p len s sz seed"
    and "returns (XXH3_128bits_withSecret t p len s sz)" "returns (XXH3_128bits_withSeed t p len seed)"
    and "returns (XXH3_128bits_withSecretandSeed t p len s sz seed)"
  using withSecret_agree [OF assms] withSeed_agree [OF assms(1,2), of seed] withSecretandSeed_agree [OF assms, of seed]
  by (simp_all add: agreeD)

theorem xxh3_seeded_same_on_alike_targets_witness:
  "XXH3_128bits_withSeed small_board [0x61] 1 7 = XXH3_128bits_withSeed big_server [0x61] 1 7 \<and>
   returns (XXH3_128bits_withSecret small_board [0x61] 1 (seeded_secret 7) 192)"
  using xxh3_seeded_same_on_alike_targets(2,4) [of small_board big_server 1 "[0x61]" 192 "seeded_secret 7"] by (simp add: alike_def)

subsection \<open>Operations on hash values\<close>

text \<open>Memory holds a hash value as its low and its high half, in the byte order of the processor.\<close>

definition bytes128 :: "xxh_target \<Rightarrow> XXH128_hash_t \<Rightarrow> 8 word list" where
  "bytes128 t h = bytes64 t (low64 h) @ bytes64 t (high64 h)"

definition XXH128_isEqual :: "xxh_target \<Rightarrow> XXH128_hash_t \<Rightarrow> XXH128_hash_t \<Rightarrow> bool" where
  "XXH128_isEqual t h1 h2 \<longleftrightarrow> bytes128 t h1 = bytes128 t h2"

definition XXH128_cmp :: "XXH128_hash_t \<Rightarrow> XXH128_hash_t \<Rightarrow> int" where
  "XXH128_cmp h1 h2 =
     (let hcmp = of_bool (high64 h1 > high64 h2) - of_bool (high64 h2 > high64 h1) in
      if hcmp \<noteq> 0 then hcmp else of_bool (low64 h1 > low64 h2) - of_bool (low64 h2 > low64 h1))"

definition XXH128_canonicalFromHash :: "xxh_target \<Rightarrow> XXH128_hash_t \<Rightarrow> 8 word list" where
  "XXH128_canonicalFromHash t hash =
     (let hash = (if little_endian t then hash\<lparr>high64 := XXH_swap64 (high64 hash), low64 := XXH_swap64 (low64 hash)\<rparr> else hash)
      in bytes64 t (high64 hash) @ bytes64 t (low64 hash))"

definition XXH128_hashFromCanonical :: "xxh_target \<Rightarrow> 8 word list \<Rightarrow> XXH128_hash_t res" where
  "XXH128_hashFromCanonical t src =
     andthen (XXH_readBE64 t src 0) (\<lambda>h. andthen (XXH_readBE64 t src 8) (\<lambda>l. Inr \<lparr>low64 = l, high64 = h\<rparr>))"

lemma word_bytes_inject: "word_bytes x = word_bytes y \<longleftrightarrow> x = y"
proof
  assume "word_bytes x = word_bytes y"
  then have "le64 (ucast x) (ucast (drop_bit 8 x)) (ucast (drop_bit 16 x)) (ucast (drop_bit 24 x)) (ucast (drop_bit 32 x))
      (ucast (drop_bit 40 x)) (ucast (drop_bit 48 x)) (ucast (drop_bit 56 x)) =
    le64 (ucast y) (ucast (drop_bit 8 y)) (ucast (drop_bit 16 y)) (ucast (drop_bit 24 y)) (ucast (drop_bit 32 y))
      (ucast (drop_bit 40 y)) (ucast (drop_bit 48 y)) (ucast (drop_bit 56 y))" by (simp add: word_bytes_def)
  then show "x = y" by (simp only: le64_bytes)
qed simp

lemma bytes64_eq: "bytes64 t x = (if little_endian t then word_bytes x else rev (word_bytes x))"
  by (simp add: bytes64_def word_bytes_def)

lemma canonical128: "XXH128_canonicalFromHash t h = rev (word_bytes (low64 h) @ word_bytes (high64 h))"
  by (simp add: XXH128_canonicalFromHash_def bytes64_eq word_bytes_def swap64_bytes bytes_le64)

lemma from_canonical128: "XXH128_hashFromCanonical t (XXH128_canonicalFromHash u h) = Inr h"
  unfolding canonical128
  by (cases h) (simp add: XXH128_hashFromCanonical_def word_bytes_def XXH_readBE64_def XXH_read64_def swap64_bytes bytes_le64 le64_bytes)

text \<open>
  Comparing and storing hash values. Equality of the bytes is equality of the values; XXH128_cmp is negative, zero or positive as
  the values are less, equal or greater as 128-bit numbers; the canonical form is the 16 bytes of this number, highest first, on every
  processor, and the value is read back from it.
\<close>

definition hash_number :: "XXH128_hash_t \<Rightarrow> nat" where
  "hash_number h = unat (high64 h) * 2 ^ 64 + unat (low64 h)"

lemma hash_number_less: "hash_number h < hash_number g \<longleftrightarrow> high64 h < high64 g \<or> high64 h = high64 g \<and> low64 h < low64 g"
proof -
  have l: "unat (low64 h) < 2 ^ 64" "unat (low64 g) < 2 ^ 64" using unsigned_less [of "low64 h"] unsigned_less [of "low64 g"] by simp_all
  have "a * 2 ^ 64 + x < b * 2 ^ 64 + y" if "a < b" "x < 2 ^ 64" for a b x y :: nat
  proof -
    have "a * 2 ^ 64 + x < Suc a * 2 ^ 64" using that(2) by simp
    also have "\<dots> \<le> b * 2 ^ 64" using that(1) by (intro mult_le_mono1) simp
    finally show ?thesis by simp
  qed
  note lt = this
  consider "unat (high64 h) < unat (high64 g)" | "high64 h = high64 g" | "unat (high64 g) < unat (high64 h)"
    by (meson linorder_neqE_nat unsigned_word_eqI)
  then show ?thesis
  proof cases
    case 1
    then show ?thesis using lt [OF 1 l(1), of "unat (low64 g)"] by (simp add: hash_number_def word_less_nat_alt)
  next
    case 2
    then show ?thesis by (simp add: hash_number_def word_less_nat_alt)
  next
    case 3
    then show ?thesis using lt [OF 3 l(2), of "unat (low64 h)"] by (auto simp: hash_number_def word_less_nat_alt)
  qed
qed

theorem hash_values_ordered:
  "XXH128_isEqual t h g \<longleftrightarrow> h = g"
  "XXH128_cmp h g < 0 \<longleftrightarrow> hash_number h < hash_number g" "XXH128_cmp h g = 0 \<longleftrightarrow> h = g" "XXH128_cmp h g > 0 \<longleftrightarrow> hash_number h > hash_number g"
  "XXH128_canonicalFromHash t h = rev (word_bytes (low64 h) @ word_bytes (high64 h))"
  "XXH128_hashFromCanonical t (XXH128_canonicalFromHash u h) = Inr h"
proof -
  show "XXH128_isEqual t h g \<longleftrightarrow> h = g"
    by (cases h, cases g) (simp add: XXH128_isEqual_def bytes128_def bytes64_eq word_bytes_inject)
  show "XXH128_cmp h g < 0 \<longleftrightarrow> hash_number h < hash_number g" "XXH128_cmp h g > 0 \<longleftrightarrow> hash_number h > hash_number g"
    by (auto simp: XXH128_cmp_def hash_number_less Let_def)
  show "XXH128_cmp h g = 0 \<longleftrightarrow> h = g" by (cases h, cases g) (auto simp: XXH128_cmp_def Let_def)
qed (rule canonical128, rule from_canonical128)

subsection \<open>Making a secret\<close>

definition XXH3_combine16 :: "xxh_target \<Rightarrow> 8 word list \<Rightarrow> nat \<Rightarrow> XXH128_hash_t \<Rightarrow> 8 word list res" where
  "XXH3_combine16 t dst i h128 =
     andthen (XXH_readLE64 t dst i) (\<lambda>a. andthen (XXH_writeLE64 t dst i (a XOR low64 h128)) (\<lambda>dst.
     andthen (XXH_readLE64 t dst (i + 8)) (\<lambda>b. XXH_writeLE64 t dst (i + 8) (b XOR high64 h128))))"

text \<open>The loop that fills the buffer would not end with an empty seed; its caller replaces an empty seed by the default secret.\<close>

function XXH3_fillSecret :: "8 word list \<Rightarrow> nat \<Rightarrow> nat \<Rightarrow> 8 word list \<Rightarrow> nat \<Rightarrow> 8 word list res" where
  "XXH3_fillSecret secretBuffer pos secretSize customSeed customSeedSize =
     (if pos < secretSize
      then if customSeedSize = 0 then Inl Nontermination
           else let toCopy = (if secretSize - pos > customSeedSize then customSeedSize else secretSize - pos) in
             andthen (XXH_memcpy secretBuffer pos customSeed 0 toCopy) (\<lambda>secretBuffer.
               XXH3_fillSecret secretBuffer (pos + toCopy) secretSize customSeed customSeedSize)
      else Inr secretBuffer)"
  by pat_completeness auto
termination by (relation "measure (\<lambda>(b, pos, secretSize, c, n). secretSize - pos)") auto

declare XXH3_fillSecret.simps [simp del]

definition XXH3_generateSecret ::
  "xxh_target \<Rightarrow> 8 word list option \<Rightarrow> nat \<Rightarrow> 8 word list option \<Rightarrow> nat \<Rightarrow> (XXH_errorcode \<times> 8 word list option) res" where
  "XXH3_generateSecret t secretBuffer secretSize customSeed customSeedSize =
     (case secretBuffer of None \<Rightarrow> Inr (XXH_ERROR, secretBuffer) | Some buffer \<Rightarrow>
      if secretSize < XXH3_SECRET_SIZE_MIN then Inr (XXH_ERROR, secretBuffer)
      else let (customSeed, customSeedSize) =
            (if customSeedSize = 0 then (Some XXH3_kSecret, XXH_SECRET_DEFAULT_SIZE) else (customSeed, customSeedSize)) in
        (case customSeed of None \<Rightarrow> Inr (XXH_ERROR, secretBuffer) | Some customSeed \<Rightarrow>
          andthen (XXH3_fillSecret buffer 0 secretSize customSeed customSeedSize) (\<lambda>buffer.
          andthen (XXH128 t customSeed customSeedSize 0) (\<lambda>h.
          let scrambler = XXH128_canonicalFromHash t h in
          andthen (each_step (\<lambda>n buffer. andthen (XXH128 t scrambler (length scrambler) (of_nat n)) (XXH3_combine16 t buffer (n * 16)))
            [0..<secretSize div 16] buffer) (\<lambda>buffer.
          andthen (XXH128_hashFromCanonical t scrambler) (\<lambda>h.
          andthen (XXH3_combine16 t buffer (secretSize - 16) h) (\<lambda>buffer. Inr (XXH_OK, Some buffer))))))))"

definition XXH3_generateSecret_fromSeed :: "xxh_target \<Rightarrow> 8 word list \<Rightarrow> 64 word \<Rightarrow> 8 word list res" where
  "XXH3_generateSecret_fromSeed t secretBuffer seed =
     andthen (XXH3_initCustomSecret t (replicate XXH_SECRET_DEFAULT_SIZE 0) seed) (\<lambda>secret.
       XXH_memcpy secretBuffer 0 secret 0 XXH_SECRET_DEFAULT_SIZE)"

lemma combine16_eq:
  assumes "i + 16 \<le> length dst"
  shows "\<exists>dst'. XXH3_combine16 t dst i h = Inr dst' \<and> XXH3_combine16 u dst i h = Inr dst' \<and> length dst' = length dst"
  using assms by (simp add: XXH3_combine16_def readLE64_eq writeLE64_eq)

lemma fill_returns:
  assumes "secretSize \<le> length buffer" "0 < n" "n \<le> length seed"
  shows "\<exists>b. XXH3_fillSecret buffer pos secretSize seed n = Inr b \<and> length b = length buffer"
  using assms
proof (induction "secretSize - pos" arbitrary: pos buffer rule: less_induct)
  case less
  show ?case
  proof (cases "pos < secretSize")
    case True
    define k where "k = (if secretSize - pos > n then n else secretSize - pos)"
    have k: "0 < k" "pos + k \<le> length buffer" "k \<le> length seed" "secretSize - (pos + k) < secretSize - pos"
      using True less.prems by (auto simp: k_def)
    obtain b where b: "XXH_memcpy buffer pos seed 0 k = Inr b" "length b = length buffer" using k by (simp add: memcpy_into)
    then show ?thesis using True less.prems less.hyps [OF k(4), of b] by (subst XXH3_fillSecret.simps) (simp add: k_def [symmetric] Let_def)
  qed (use less.prems in \<open>simp add: XXH3_fillSecret.simps\<close>)
qed

lemma each_step_agree:
  assumes "\<And>x s. x \<in> set xs \<Longrightarrow> P s \<Longrightarrow> \<exists>s'. f x s = Inr s' \<and> g x s = Inr s' \<and> P s'" and "P s"
  shows "\<exists>s'. each_step f xs s = Inr s' \<and> each_step g xs s = Inr s' \<and> P s'"
  using assms
proof (induction xs arbitrary: s)
  case (Cons x xs)
  obtain s1 where "f x s = Inr s1" "g x s = Inr s1" "P s1" using Cons.prems by (meson list.set_intros(1))
  moreover have "\<exists>s'. each_step f xs s1 = Inr s' \<and> each_step g xs s1 = Inr s' \<and> P s'"
    using Cons.prems(1) calculation(3) by (intro Cons.IH) auto
  ultimately show ?case by auto
qed simp

lemma generate_agree:
  assumes "136 \<le> secretSize" "secretSize \<le> length buffer" "0 < n" "n \<le> length seed" and alike: "alike t u n"
  shows "\<exists>b. XXH3_generateSecret t (Some buffer) secretSize (Some seed) n = Inr (XXH_OK, Some b) \<and>
    XXH3_generateSecret u (Some buffer) secretSize (Some seed) n = Inr (XXH_OK, Some b) \<and> length b = length buffer"
proof -
  obtain b where b: "XXH3_fillSecret buffer 0 secretSize seed n = Inr b" "length b = length buffer"
    using fill_returns [OF assms(2-4)] by blast
  obtain h where h: "XXH128 t seed n 0 = Inr h" "XXH128 u seed n 0 = Inr h"
    using withSeed_agree [OF alike assms(4), of 0] by (auto simp: agree_def XXH128_def)
  define scr where "scr = rev (word_bytes (low64 h) @ word_bytes (high64 h))"
  have scr: "XXH128_canonicalFromHash t' h = scr" "XXH128_hashFromCanonical t' scr = Inr h" "length scr = 16" for t'
    using from_canonical128 [of t' u h] by (simp_all add: scr_def canonical128)
  obtain b1 where b1: "each_step (\<lambda>n buffer. andthen (XXH128 t scr 16 (of_nat n)) (XXH3_combine16 t buffer (n * 16))) [0..<secretSize div 16] b = Inr b1"
    "each_step (\<lambda>n buffer. andthen (XXH128 u scr 16 (of_nat n)) (XXH3_combine16 u buffer (n * 16))) [0..<secretSize div 16] b = Inr b1"
    "length b1 = length buffer"
  proof (rule exE [OF each_step_agree [where P = "\<lambda>b. length b = length buffer" and s = b and xs = "[0..<secretSize div 16]"
          and f = "\<lambda>n buffer. andthen (XXH128 t scr 16 (of_nat n)) (XXH3_combine16 t buffer (n * 16))"
          and g = "\<lambda>n buffer. andthen (XXH128 u scr 16 (of_nat n)) (XXH3_combine16 u buffer (n * 16))"]])
    fix k and c :: "8 word list" assume "k \<in> set [0..<secretSize div 16]" and c: "length c = length buffer"
    then have "k * 16 + 16 \<le> length c" using assms(2) by auto
    moreover obtain g where "XXH128 t scr 16 (of_nat k) = Inr g" "XXH128 u scr 16 (of_nat k) = Inr g"
      using withSeed_agree [of t u 16 scr "of_nat k"] scr(3) by (auto simp: agree_def XXH128_def alike_def)
    ultimately show "\<exists>s'. andthen (XXH128 t scr 16 (of_nat k)) (XXH3_combine16 t c (k * 16)) = Inr s' \<and>
        andthen (XXH128 u scr 16 (of_nat k)) (XXH3_combine16 u c (k * 16)) = Inr s' \<and> length s' = length buffer"
      using combine16_eq [of "k * 16" c t g u] c by auto
  qed (use b(2) in blast)+
  obtain b2 where "XXH3_combine16 t b1 (secretSize - 16) h = Inr b2" "XXH3_combine16 u b1 (secretSize - 16) h = Inr b2" "length b2 = length buffer"
    using combine16_eq [of "secretSize - 16" b1 t h u] b1(3) assms(1,2) by auto
  then show ?thesis using assms b h scr b1 by (simp add: XXH3_generateSecret_def XXH3_SECRET_SIZE_MIN_def)
qed

text \<open>
  Making a secret. With a buffer of at least 136 bytes and a seed of at least one byte XXH3_generateSecret answers OK, writes
  nothing outside the buffer, reads nothing outside the seed, and makes the same secret on all targets that hash the seed alike; without a buffer or with a smaller one
  it answers ERROR and writes nothing, and an empty seed stands for the default secret. XXH3_generateSecret_fromSeed writes the secret of the seed.
\<close>

theorem secret_generated:
  assumes "136 \<le> secretSize" "secretSize \<le> length buffer" "n \<le> length seed" and "alike t u n"
  shows "\<exists>b. XXH3_generateSecret t (Some buffer) secretSize (Some seed) n = Inr (XXH_OK, Some b) \<and>
      XXH3_generateSecret u (Some buffer) secretSize (if n = 0 then None else Some seed) n = Inr (XXH_OK, Some b) \<and> length b = length buffer"
    and "XXH3_generateSecret t None k s m = Inr (XXH_ERROR, None)"
    and "k < 136 \<Longrightarrow> XXH3_generateSecret t (Some buffer) k s m = Inr (XXH_ERROR, Some buffer)"
    and "192 \<le> length buffer \<Longrightarrow> XXH3_generateSecret_fromSeed t buffer x = Inr (seeded_secret x @ drop 192 buffer)"
proof -
  have zero: "XXH3_generateSecret v (Some buffer) secretSize c 0 = XXH3_generateSecret v (Some buffer) secretSize (Some XXH3_kSecret) 192" for v c
    by (simp add: XXH3_generateSecret_def XXH_SECRET_DEFAULT_SIZE_def)
  show "\<exists>b. XXH3_generateSecret t (Some buffer) secretSize (Some seed) n = Inr (XXH_OK, Some b) \<and>
      XXH3_generateSecret u (Some buffer) secretSize (if n = 0 then None else Some seed) n = Inr (XXH_OK, Some b) \<and> length b = length buffer"
  proof (cases "n = 0")
    case True
    then show ?thesis using generate_agree [OF assms(1,2), of 192 XXH3_kSecret t u] by (simp add: zero alike_def)
  next
    case False
    then show ?thesis using generate_agree [OF assms(1,2) _ assms(3,4)] by simp
  qed
qed (simp_all add: XXH3_generateSecret_def XXH3_SECRET_SIZE_MIN_def XXH3_generateSecret_fromSeed_def XXH_SECRET_DEFAULT_SIZE_def init_secret memcpy_into)

theorem secret_generated_witness:
  "\<exists>b. XXH3_generateSecret small_board (Some (replicate 136 0)) 136 (Some [1]) 1 = Inr (XXH_OK, Some b) \<and> length b = 136"
  using secret_generated(1) [of 136 "replicate 136 0" 1 "[1]" small_board small_board] by auto

end
