(* ===== verification/XXH3_64.thy ===== *)
theory XXH3_64
  imports XXH3_Secrets
begin

unbundle bit_operations_syntax

section \<open>XXH3 with 64 bits\<close>

text \<open>The 64-bit variant of XXH3: with the default secret, with a seed, with a secret and with both.  It shares the stripes with the 128-bit one.\<close>

definition XXH3_rrmxmx :: "64 word \<Rightarrow> 64 word \<Rightarrow> 64 word" where
  "XXH3_rrmxmx h64 len =
     (let h64 = h64 XOR (XXH_rotl64 h64 49 XOR XXH_rotl64 h64 24); h64 = h64 * PRIME_MX2; h64 = h64 XOR (drop_bit 35 h64 + len);
          h64 = h64 * PRIME_MX2
      in XXH_xorshift64 h64 28)"

definition XXH3_len_1to3_64b :: "xxh_target \<Rightarrow> 8 word list \<Rightarrow> nat \<Rightarrow> 8 word list \<Rightarrow> 64 word \<Rightarrow> 64 word res" where
  "XXH3_len_1to3_64b t input len secret seed =
     andthen (read8 input 0) (\<lambda>c1. andthen (read8 input (len div 2)) (\<lambda>c2. andthen (read8 input (len - 1)) (\<lambda>c3.
     andthen (XXH_readLE32 t secret 0) (\<lambda>s0. andthen (XXH_readLE32 t secret 4) (\<lambda>s4.
       let combined = push_bit 16 (ucast c1) OR push_bit 24 (ucast c2) OR ucast c3 OR push_bit 8 (of_nat len) :: 32 word;
           bitflip = ucast (s0 XOR s4) + seed;
           keyed = ucast combined XOR bitflip
       in Inr (XXH64_avalanche keyed))))))"

definition XXH3_len_4to8_64b :: "xxh_target \<Rightarrow> 8 word list \<Rightarrow> nat \<Rightarrow> 8 word list \<Rightarrow> 64 word \<Rightarrow> 64 word res" where
  "XXH3_len_4to8_64b t input len secret seed =
     (let seed = seed XOR push_bit 32 (ucast (XXH_swap32 (ucast seed))) in
      andthen (XXH_readLE32 t input 0) (\<lambda>input1. andthen (XXH_readLE32 t input (len - 4)) (\<lambda>input2.
      andthen (XXH_readLE64 t secret 8) (\<lambda>s8. andthen (XXH_readLE64 t secret 16) (\<lambda>s16.
        let bitflip = (s8 XOR s16) - seed;
            input64 = ucast input2 + push_bit 32 (ucast input1);
            keyed = input64 XOR bitflip
        in Inr (XXH3_rrmxmx keyed (of_nat len)))))))"

definition XXH3_len_9to16_64b :: "xxh_target \<Rightarrow> 8 word list \<Rightarrow> nat \<Rightarrow> 8 word list \<Rightarrow> 64 word \<Rightarrow> 64 word res" where
  "XXH3_len_9to16_64b t input len secret seed =
     andthen (XXH_readLE64 t secret 24) (\<lambda>s24. andthen (XXH_readLE64 t secret 32) (\<lambda>s32.
     andthen (XXH_readLE64 t secret 40) (\<lambda>s40. andthen (XXH_readLE64 t secret 48) (\<lambda>s48.
     andthen (XXH_readLE64 t input 0) (\<lambda>i0. andthen (XXH_readLE64 t input (len - 8)) (\<lambda>i8.
       let bitflip1 = (s24 XOR s32) + seed;
           bitflip2 = (s40 XOR s48) - seed;
           input_lo = i0 XOR bitflip1;
           input_hi = i8 XOR bitflip2;
           acc = of_nat len + XXH_swap64 input_lo + input_hi + XXH3_mul128_fold64 t input_lo input_hi
       in Inr (XXH3_avalanche acc)))))))"

definition XXH3_len_0to16_64b :: "xxh_target \<Rightarrow> 8 word list \<Rightarrow> nat \<Rightarrow> 8 word list \<Rightarrow> 64 word \<Rightarrow> 64 word res" where
  "XXH3_len_0to16_64b t input len secret seed =
     (if len > 8 then XXH3_len_9to16_64b t input len secret seed
      else if len \<ge> 4 then XXH3_len_4to8_64b t input len secret seed
      else if len \<noteq> 0 then XXH3_len_1to3_64b t input len secret seed
      else andthen (XXH_readLE64 t secret 56) (\<lambda>s56. andthen (XXH_readLE64 t secret 64) (\<lambda>s64.
        Inr (XXH64_avalanche (seed XOR (s56 XOR s64))))))"

text \<open>The addition of a mixed pair, and the loop of the version for small code from round \<open>i\<close> down to 0.\<close>

definition add_mix :: "xxh_target \<Rightarrow> 8 word list \<Rightarrow> nat \<Rightarrow> 8 word list \<Rightarrow> nat \<Rightarrow> 64 word \<Rightarrow> 64 word \<Rightarrow> 64 word res" where
  "add_mix t input i secret k seed acc = andthen (XXH3_mix16B t input i secret k seed) (\<lambda>m. Inr (acc + m))"

definition mix_ends :: "xxh_target \<Rightarrow> 8 word list \<Rightarrow> nat \<Rightarrow> 8 word list \<Rightarrow> 64 word \<Rightarrow> nat \<Rightarrow> 64 word \<Rightarrow> 64 word res" where
  "mix_ends t input len secret seed i acc =
     andthen (add_mix t input (16 * i) secret (32 * i) seed acc) (add_mix t input (len - 16 * (i + 1)) secret (32 * i + 16) seed)"

primrec small_loop_64b :: "xxh_target \<Rightarrow> 8 word list \<Rightarrow> nat \<Rightarrow> 8 word list \<Rightarrow> 64 word \<Rightarrow> nat \<Rightarrow> 64 word \<Rightarrow> 64 word res" where
  "small_loop_64b t input len secret seed 0 acc = mix_ends t input len secret seed 0 acc"
| "small_loop_64b t input len secret seed (Suc i) acc =
     andthen (mix_ends t input len secret seed (Suc i) acc) (small_loop_64b t input len secret seed i)"

definition XXH3_len_17to128_64b :: "xxh_target \<Rightarrow> 8 word list \<Rightarrow> nat \<Rightarrow> 8 word list \<Rightarrow> 64 word \<Rightarrow> 64 word res" where
  "XXH3_len_17to128_64b t input len secret seed =
     (let acc = of_nat len * XXH_PRIME64_1; mix = (\<lambda>i k. add_mix t input i secret k seed) in
      andthen (if size_opt t then small_loop_64b t input len secret seed ((len - 1) div 32) acc
               else andthen (if len > 32
                     then andthen (if len > 64
                          then andthen (if len > 96 then andthen (mix 48 96 acc) (mix (len - 64) 112) else Inr acc) (\<lambda>acc.
                            andthen (mix 32 64 acc) (mix (len - 48) 80))
                          else Inr acc) (\<lambda>acc. andthen (mix 16 32 acc) (mix (len - 32) 48))
                     else Inr acc) (\<lambda>acc. andthen (mix 0 0 acc) (mix (len - 16) 16))) (\<lambda>acc.
        Inr (XXH3_avalanche acc)))"

definition XXH3_len_129to240_64b :: "xxh_target \<Rightarrow> 8 word list \<Rightarrow> nat \<Rightarrow> 8 word list \<Rightarrow> 64 word \<Rightarrow> 64 word res" where
  "XXH3_len_129to240_64b t input len secret seed =
     (let acc = of_nat len * XXH_PRIME64_1; nbRounds = len div 16 in
      andthen (each_step (\<lambda>i. add_mix t input (16 * i) secret (16 * i) seed) [0..<8] acc) (\<lambda>acc.
      andthen (XXH3_mix16B t input (len - 16) secret (XXH3_SECRET_SIZE_MIN - XXH3_MIDSIZE_LASTOFFSET) seed) (\<lambda>acc_end.
      let acc = XXH3_avalanche acc in
      andthen (each_step (\<lambda>i. add_mix t input (16 * i) secret (16 * (i - 8) + XXH3_MIDSIZE_STARTOFFSET) seed) [8..<nbRounds] acc_end) (\<lambda>acc_end.
        Inr (XXH3_avalanche (acc + acc_end))))))"

subsection \<open>Long inputs and the entry points\<close>

definition XXH3_hashLong_64b_internal :: "xxh_target \<Rightarrow> 8 word list \<Rightarrow> nat \<Rightarrow> 8 word list \<Rightarrow> nat \<Rightarrow> 64 word res" where
  "XXH3_hashLong_64b_internal t input len secret secretSize =
     andthen (XXH3_hashLong_internal_loop t input len secret secretSize XXH3_INIT_ACC) (\<lambda>acc.
       XXH3_mergeAccs t acc secret XXH_SECRET_MERGEACCS_START (of_nat len * XXH_PRIME64_1))"

type_synonym XXH3_hashLong64_f = "8 word list \<Rightarrow> nat \<Rightarrow> 64 word \<Rightarrow> 8 word list \<Rightarrow> nat \<Rightarrow> 64 word res"

definition XXH3_hashLong_64b_withSecret :: "xxh_target \<Rightarrow> XXH3_hashLong64_f" where
  "XXH3_hashLong_64b_withSecret t input len seed64 secret secretLen = XXH3_hashLong_64b_internal t input len secret secretLen"

definition XXH3_hashLong_64b_default :: "xxh_target \<Rightarrow> XXH3_hashLong64_f" where
  "XXH3_hashLong_64b_default t input len seed64 secret secretLen = XXH3_hashLong_64b_internal t input len XXH3_kSecret (length XXH3_kSecret)"

text \<open>The version for small code makes a secret for the seed 0 too.\<close>

definition XXH3_hashLong_64b_withSeed :: "xxh_target \<Rightarrow> XXH3_hashLong64_f" where
  "XXH3_hashLong_64b_withSeed t input len seed64 secret secretLen =
     (if \<not> size_opt t \<and> seed64 = 0 then XXH3_hashLong_64b_internal t input len XXH3_kSecret (length XXH3_kSecret)
      else andthen (XXH3_initCustomSecret t (replicate XXH_SECRET_DEFAULT_SIZE 0) seed64) (\<lambda>secret.
        XXH3_hashLong_64b_internal t input len secret (length secret)))"

definition XXH3_64bits_internal ::
  "xxh_target \<Rightarrow> 8 word list \<Rightarrow> nat \<Rightarrow> 64 word \<Rightarrow> 8 word list \<Rightarrow> nat \<Rightarrow> XXH3_hashLong64_f \<Rightarrow> 64 word res" where
  "XXH3_64bits_internal t input len seed64 secret secretLen f_hashLong =
     (if \<not> secretLen \<ge> XXH3_SECRET_SIZE_MIN then Inl Unreachable
      else if len \<le> 16 then XXH3_len_0to16_64b t input len secret seed64
      else if len \<le> 128 then XXH3_len_17to128_64b t input len secret seed64
      else if len \<le> XXH3_MIDSIZE_MAX then XXH3_len_129to240_64b t input len secret seed64
      else f_hashLong input len seed64 secret secretLen)"

definition XXH3_64bits :: "xxh_target \<Rightarrow> 8 word list \<Rightarrow> nat \<Rightarrow> 64 word res" where
  "XXH3_64bits t input len = XXH3_64bits_internal t input len 0 XXH3_kSecret (length XXH3_kSecret) (XXH3_hashLong_64b_default t)"

definition XXH3_64bits_withSecret :: "xxh_target \<Rightarrow> 8 word list \<Rightarrow> nat \<Rightarrow> 8 word list \<Rightarrow> nat \<Rightarrow> 64 word res" where
  "XXH3_64bits_withSecret t input len secret secretSize =
     XXH3_64bits_internal t input len 0 secret secretSize (XXH3_hashLong_64b_withSecret t)"

definition XXH3_64bits_withSeed :: "xxh_target \<Rightarrow> 8 word list \<Rightarrow> nat \<Rightarrow> 64 word \<Rightarrow> 64 word res" where
  "XXH3_64bits_withSeed t input len seed =
     XXH3_64bits_internal t input len seed XXH3_kSecret (length XXH3_kSecret) (XXH3_hashLong_64b_withSeed t)"

definition XXH3_64bits_withSecretandSeed :: "xxh_target \<Rightarrow> 8 word list \<Rightarrow> nat \<Rightarrow> 8 word list \<Rightarrow> nat \<Rightarrow> 64 word \<Rightarrow> 64 word res" where
  "XXH3_64bits_withSecretandSeed t input len secret secretSize seed =
     (if len \<le> XXH3_MIDSIZE_MAX
      then XXH3_64bits_internal t input len seed XXH3_kSecret (length XXH3_kSecret) (\<lambda>_ _ _ _ _. Inl NullCall)
      else XXH3_hashLong_64b_withSecret t input len seed secret secretSize)"

subsection \<open>Every target computes the same\<close>

lemma short64_eq: "XXH3_len_0to16_64b t = XXH3_len_0to16_64b u"
  by (intro ext) (simp add: XXH3_len_0to16_64b_def XXH3_len_9to16_64b_def XXH3_len_4to8_64b_def XXH3_len_1to3_64b_def readLE64_eq readLE32_eq
      fold64_eq [of t u] Let_def)

lemma add_mix_eq: "add_mix t = add_mix u"
  by (intro ext) (simp add: add_mix_def XXH3_mix16B_def readLE64_eq fold64_eq [of t u])

lemma add_mix_returns: "i + 16 \<le> length p \<Longrightarrow> k + 16 \<le> length s \<Longrightarrow> \<exists>r. add_mix t p i s k seed acc = Inr r"
  by (simp add: add_mix_def XXH3_mix16B_def readLE64_eq)

lemma mix16B_eq: "XXH3_mix16B t = XXH3_mix16B u"
  by (intro ext) (simp add: XXH3_mix16B_def readLE64_eq fold64_eq [of t u])

lemma mix_ends_eq: "mix_ends t = mix_ends u"
  by (intro ext) (simp add: mix_ends_def add_mix_eq [of t u])

lemma small_loop64_eq: "small_loop_64b t input len secret seed i = small_loop_64b u input len secret seed i"
proof (induction i)
  case (Suc i)
  show ?case by (rule ext) (simp add: Suc mix_ends_eq [of t u])
qed (simp add: fun_eq_iff mix_ends_eq [of t u])

lemma small_loop64_unrolled:
  fixes t :: xxh_target and input secret :: "8 word list" and seed :: "64 word"
  assumes "16 < len" "len \<le> 128"
  defines mix: "mix \<equiv> (\<lambda>i k. add_mix t input i secret k seed)"
  shows "small_loop_64b t input len secret seed ((len - 1) div 32) acc =
    andthen (if len > 32
             then andthen (if len > 64
                  then andthen (if len > 96 then andthen (mix 48 96 acc) (mix (len - 64) 112) else Inr acc) (\<lambda>acc.
                    andthen (mix 32 64 acc) (mix (len - 48) 80))
                  else Inr acc) (\<lambda>acc. andthen (mix 16 32 acc) (mix (len - 32) 48))
             else Inr acc) (\<lambda>acc. andthen (mix 0 0 acc) (mix (len - 16) 16))"
proof -
  have zero: "small_loop_64b t input len secret seed 0 = mix_ends t input len secret seed 0"
    "small_loop_64b t input len secret seed (Suc i) =
      (\<lambda>acc. andthen (mix_ends t input len secret seed (Suc i) acc) (small_loop_64b t input len secret seed i))" for i
    by (rule ext, simp)+
  have ends: "mix_ends t input len secret seed i =
      (\<lambda>acc. andthen (mix (16 * i) (32 * i) acc) (mix (len - 16 * (i + 1)) (32 * i + 16)))" for i
    by (rule ext) (simp add: mix_ends_def mix)
  consider "len \<le> 32" | "32 < len" "len \<le> 64" | "64 < len" "len \<le> 96" | "96 < len" using assms by linarith
  then show ?thesis
  proof cases
    case 1
    then have "(len - 1) div 32 = 0" using assms by auto
    then show ?thesis using 1 by (simp add: ends)
  next
    case 2
    then have "(len - 1) div 32 = Suc 0" using assms by auto
    then show ?thesis using 2 by (simp add: zero andthen_assoc ends del: small_loop_64b.simps)
  next
    case 3
    then have "(len - 1) div 32 = Suc (Suc 0)" using assms by auto
    then show ?thesis using 3 by (simp add: zero andthen_assoc ends del: small_loop_64b.simps)
  next
    case 4
    then have "(len - 1) div 32 = Suc (Suc (Suc 0))" using assms by auto
    then show ?thesis using 4 by (simp add: zero andthen_assoc ends del: small_loop_64b.simps)
  qed
qed

lemma medium64_eq:
  assumes "16 < len" "len \<le> 128"
  shows "XXH3_len_17to128_64b t input len secret seed = XXH3_len_17to128_64b u input len secret seed"
  unfolding XXH3_len_17to128_64b_def Let_def small_loop64_unrolled [OF assms] add_mix_eq [of t u] by simp

lemma mid64_eq: "XXH3_len_129to240_64b t = XXH3_len_129to240_64b u"
  by (intro ext) (simp only: XXH3_len_129to240_64b_def add_mix_eq [of t u] mix16B_eq [of t u])

lemma short64_returns: "len \<le> 16 \<Longrightarrow> len \<le> length p \<Longrightarrow> 136 \<le> length s \<Longrightarrow> \<exists>r. XXH3_len_0to16_64b t p len s seed = Inr r"
  by (auto simp: XXH3_len_0to16_64b_def XXH3_len_9to16_64b_def XXH3_len_4to8_64b_def XXH3_len_1to3_64b_def readLE64_eq readLE32_eq
      read8_def Let_def)

lemma medium64_returns:
  assumes "16 < len" "len \<le> 128" "len \<le> length p" "136 \<le> length s"
  shows "\<exists>r. XXH3_len_17to128_64b t p len s seed = Inr r"
proof -
  have two: "\<exists>r. andthen (add_mix t p i s k seed a) (add_mix t p i' s k' seed) = Inr r"
    if "i + 16 \<le> len" "i' + 16 \<le> len" "k + 16 \<le> 136" "k' + 16 \<le> 136" for i i' k k' a
    by (intro andthen_returns add_mix_returns) (use that assms in simp_all)
  have l3: "\<exists>r. (if len > 96 then andthen (add_mix t p 48 s 96 seed a) (add_mix t p (len - 64) s 112 seed) else Inr a) = Inr r" for a
    using two [of 48 "len - 64" 96 112] assms by auto
  have l2: "\<exists>r. (if len > 64 then andthen
      (if len > 96 then andthen (add_mix t p 48 s 96 seed a) (add_mix t p (len - 64) s 112 seed) else Inr a)
      (\<lambda>acc. andthen (add_mix t p 32 s 64 seed acc) (add_mix t p (len - 48) s 80 seed)) else Inr a) = Inr r" for a
  proof (cases "64 < len")
    case True
    show ?thesis unfolding if_P [OF True] by (rule andthen_returns [OF l3]) (rule two; use True assms in simp)
  qed simp
  have l1: "\<exists>r. (if len > 32 then andthen (if len > 64 then andthen
      (if len > 96 then andthen (add_mix t p 48 s 96 seed a) (add_mix t p (len - 64) s 112 seed) else Inr a)
      (\<lambda>acc. andthen (add_mix t p 32 s 64 seed acc) (add_mix t p (len - 48) s 80 seed)) else Inr a)
      (\<lambda>acc. andthen (add_mix t p 16 s 32 seed acc) (add_mix t p (len - 32) s 48 seed)) else Inr a) = Inr r" for a
  proof (cases "32 < len")
    case True
    show ?thesis unfolding if_P [OF True] by (rule andthen_returns [OF l2]) (rule two; use True assms in simp)
  qed simp
  have l0: "\<exists>r. andthen (add_mix t p 0 s 0 seed a) (add_mix t p (len - 16) s 16 seed) = Inr r" for a
    by (rule two) (use assms in simp_all)
  show ?thesis
    unfolding XXH3_len_17to128_64b_def Let_def small_loop64_unrolled [OF assms(1,2)] if_cancel
    by (rule andthen_returns [OF andthen_returns [OF l1 l0] Inr_ex])
qed

lemma mid64_returns:
  assumes "128 < len" "len \<le> 240" "len \<le> length p" "136 \<le> length s"
  shows "\<exists>r. XXH3_len_129to240_64b t p len s seed = Inr r"
proof -
  have one: "\<exists>r. each_step (\<lambda>i. add_mix t p (16 * i) s (16 * i) seed) [0..<8] a = Inr r \<and> True" for a
    by (rule each_step_invariant) (use assms in \<open>auto intro!: add_mix_returns\<close>)
  have two: "\<exists>r. each_step (\<lambda>i. add_mix t p (16 * i) s (16 * (i - 8) + XXH3_MIDSIZE_STARTOFFSET) seed) [8..<len div 16] a = Inr r \<and> True" for a
  proof (rule each_step_invariant)
    fix i b
    assume "i \<in> set [8..<len div 16]"
    then have "8 \<le> i" "16 * i + 16 \<le> len" by auto
    then show "\<exists>s'. add_mix t p (16 * i) s (16 * (i - 8) + XXH3_MIDSIZE_STARTOFFSET) seed b = Inr s' \<and> True"
      using assms by (auto intro!: add_mix_returns simp: XXH3_MIDSIZE_STARTOFFSET_def)
  qed simp
  have three: "\<exists>r. XXH3_mix16B t p (len - 16) s (XXH3_SECRET_SIZE_MIN - XXH3_MIDSIZE_LASTOFFSET) seed = Inr r"
    using assms by (simp add: XXH3_mix16B_def readLE64_eq XXH3_SECRET_SIZE_MIN_def XXH3_MIDSIZE_LASTOFFSET_def)
  have one': "\<exists>r. each_step (\<lambda>i. add_mix t p (16 * i) s (16 * i) seed) [0..<8] a = Inr r" for a using one by blast
  have two': "\<exists>r. each_step (\<lambda>i. add_mix t p (16 * i) s (16 * (i - 8) + XXH3_MIDSIZE_STARTOFFSET) seed) [8..<len div 16] a = Inr r" for a
    using two by blast
  show ?thesis unfolding XXH3_len_129to240_64b_def Let_def by (intro andthen_returns one' two' three Inr_ex)
qed

lemma internal64_agree:
  assumes "len \<le> length p" "136 \<le> sz" "sz \<le> length s" and "240 < len \<Longrightarrow> agree (f p len seed s sz) (f' p len seed s sz)"
  shows "agree (XXH3_64bits_internal t p len seed s sz f) (XXH3_64bits_internal u p len seed s sz f')"
proof -
  have s: "136 \<le> length s" "\<not> sz < 136" using assms(2,3) by simp_all
  consider "len \<le> 16" | "16 < len" "len \<le> 128" | "128 < len" "len \<le> 240" | "240 < len" by linarith
  then show ?thesis
  proof cases
    case 1
    then show ?thesis using short64_returns [OF 1 assms(1) s(1)] s
      by (intro agreeI) (simp_all add: XXH3_64bits_internal_def xxh_sizes short64_eq [of t u])
  next
    case 2
    then show ?thesis using medium64_returns [OF 2 assms(1) s(1)] medium64_eq [OF 2, of t] s
      by (intro agreeI) (simp_all add: XXH3_64bits_internal_def xxh_sizes)
  next
    case 3
    then show ?thesis using mid64_returns [OF 3 assms(1) s(1)] s
      by (intro agreeI) (simp_all add: XXH3_64bits_internal_def xxh_sizes mid64_eq [of t u])
  next
    case 4
    then show ?thesis using assms(4) s by (simp add: XXH3_64bits_internal_def xxh_sizes)
  qed
qed

lemma long64_agree:
  assumes "native_stripes t = native_stripes u" and "64 < len" "len \<le> length p" "136 \<le> sz" "sz \<le> length s"
  shows "agree (XXH3_hashLong_64b_internal t p len s sz) (XXH3_hashLong_64b_internal u p len s sz)"
  unfolding XXH3_hashLong_64b_internal_def internal_loop_eq [OF assms(2-5)] andthen_Inr mergeAccs_eq [of t u] hash_stripes_alike [OF assms(1)]
  by (rule agreeI, rule refl, rule mergeAccs_returns) (use assms(4,5) in \<open>simp add: XXH_SECRET_MERGEACCS_START_def\<close>)

lemma long64_withSeed: "XXH3_hashLong_64b_withSeed t p len seed s sz = XXH3_hashLong_64b_internal t p len (seeded_secret seed) 192"
  by (simp add: XXH3_hashLong_64b_withSeed_def init_secret XXH_SECRET_DEFAULT_SIZE_def seeded_zero)

lemma xxh64bits_agree:
  assumes "len \<le> length p" and alike: "alike t u len"
  shows "agree (XXH3_64bits t p len) (XXH3_64bits u p len)" and "agree (XXH3_64bits_withSeed t p len seed) (XXH3_64bits_withSeed u p len seed)"
    and "136 \<le> sz \<Longrightarrow> sz \<le> length s \<Longrightarrow> agree (XXH3_64bits_withSecret t p len s sz) (XXH3_64bits_withSecret u p len s sz)"
    and "136 \<le> sz \<Longrightarrow> sz \<le> length s \<Longrightarrow>
      agree (XXH3_64bits_withSecretandSeed t p len s sz seed) (XXH3_64bits_withSecretandSeed u p len s sz seed)"
proof -
  show "agree (XXH3_64bits t p len) (XXH3_64bits u p len)" "agree (XXH3_64bits_withSeed t p len seed) (XXH3_64bits_withSeed u p len seed)"
    unfolding XXH3_64bits_def XXH3_64bits_withSeed_def
    by (rule internal64_agree; use assms alike_long [OF alike] in \<open>simp add: XXH3_hashLong_64b_default_def long64_withSeed long64_agree\<close>)+
  assume s: "136 \<le> sz" "sz \<le> length s"
  show "agree (XXH3_64bits_withSecret t p len s sz) (XXH3_64bits_withSecret u p len s sz)"
    unfolding XXH3_64bits_withSecret_def
    by (rule internal64_agree; use assms s alike_long [OF alike] in \<open>simp add: XXH3_hashLong_64b_withSecret_def long64_agree\<close>)
  show "agree (XXH3_64bits_withSecretandSeed t p len s sz seed) (XXH3_64bits_withSecretandSeed u p len s sz seed)"
  proof (cases "len \<le> XXH3_MIDSIZE_MAX")
    case True
    then show ?thesis unfolding XXH3_64bits_withSecretandSeed_def if_P [OF True]
      by (intro internal64_agree) (use assms in \<open>simp_all add: XXH3_MIDSIZE_MAX_def\<close>)
  next
    case False
    then show ?thesis using assms s alike_long [OF alike] by (simp add: XXH3_64bits_withSecretandSeed_def XXH3_hashLong_64b_withSecret_def XXH3_MIDSIZE_MAX_def long64_agree)
  qed
qed

text \<open>
  The 64-bit hash on every target. For every input, seed and secret of at least 136 bytes the four entry points return a value without reading
  outside the input and the secret, and the value is the same on all targets that hash inputs of this length alike.
\<close>

theorem xxh3_64_same_on_alike_targets:
  assumes "len \<le> length p" "136 \<le> sz" "sz \<le> length s" and "alike t u len"
  shows "agree (XXH3_64bits t p len) (XXH3_64bits u p len)
    \<and> agree (XXH3_64bits_withSeed t p len seed) (XXH3_64bits_withSeed u p len seed)
    \<and> agree (XXH3_64bits_withSecret t p len s sz) (XXH3_64bits_withSecret u p len s sz)
    \<and> agree (XXH3_64bits_withSecretandSeed t p len s sz seed) (XXH3_64bits_withSecretandSeed u p len s sz seed)"
  using xxh64bits_agree [OF assms(1,4)] assms(2,3) by simp

theorem xxh3_64_same_on_alike_targets_witness:
  "\<exists>h. XXH3_64bits small_board [0x61] 1 = Inr h \<and> XXH3_64bits big_server [0x61] 1 = Inr h"
  using xxh3_64_same_on_alike_targets [of 1 "[0x61]" 192 XXH3_kSecret small_board big_server] by (simp add: agree_def alike_def)

end
