(* ===== verification/XXH3_Stream.thy ===== *)
theory XXH3_Stream
  imports XXH3_64
begin

unbundle bit_operations_syntax

section \<open>XXH3 piece by piece\<close>

text \<open>
  The streaming interface of XXH3.  A state collects input in a buffer of 256 bytes; when it is full the stripes in it are consumed, but at least one byte
  always stays behind, since the last stripe of the input is treated on its own.  The 64-bit and the 128-bit hash share everything but the digest.
\<close>

subsection \<open>The state\<close>

text \<open>The external secret is the memory behind the pointer, which the caller keeps as it is.  \<open>reserved64\<close> is never read or written.\<close>

definition XXH3_INTERNALBUFFER_SIZE :: nat where "XXH3_INTERNALBUFFER_SIZE = 256"

record XXH3_state_t =
  acc3 :: "64 word list"
  customSecret :: "8 word list"
  buffer3 :: "8 word list"
  bufferedSize :: nat
  useSeed :: bool
  nbStripesSoFar :: nat
  totalLen :: "64 word"
  nbStripesPerBlock :: nat
  secretLimit :: nat
  seed3 :: "64 word"
  extSecret :: "8 word list option"

definition XXH3_INITSTATE :: "XXH3_state_t \<Rightarrow> XXH3_state_t" where
  "XXH3_INITSTATE s = s\<lparr>seed3 := 0, extSecret := None\<rparr>"

text \<open>A new state on the heap has no contents but those that \<open>XXH3_INITSTATE\<close> writes: \<open>garbage\<close> is what the memory held.\<close>

definition XXH3_createState :: "XXH3_state_t option \<Rightarrow> XXH3_state_t option" where
  "XXH3_createState garbage = (case garbage of None \<Rightarrow> None | Some s \<Rightarrow> Some (XXH3_INITSTATE s))"

definition XXH3_copyState :: "XXH3_state_t \<Rightarrow> XXH3_state_t \<Rightarrow> XXH3_state_t" where
  "XXH3_copyState dst_state src_state = src_state"

subsection \<open>Reset\<close>

definition XXH3_reset_internal :: "XXH3_state_t \<Rightarrow> 64 word \<Rightarrow> 8 word list option \<Rightarrow> nat \<Rightarrow> XXH3_state_t res" where
  "XXH3_reset_internal s seed secret secretSize =
     (let s = s\<lparr>bufferedSize := 0, useSeed := False, nbStripesSoFar := 0, totalLen := 0\<rparr>;
          s = s\<lparr>acc3 := [ucast XXH_PRIME32_3, XXH_PRIME64_1, XXH_PRIME64_2, XXH_PRIME64_3,
                XXH_PRIME64_4, ucast XXH_PRIME32_2, XXH_PRIME64_5, ucast XXH_PRIME32_1]\<rparr>;
          s = s\<lparr>seed3 := seed, useSeed := seed \<noteq> 0, extSecret := secret\<rparr> in
      if \<not> secretSize \<ge> XXH3_SECRET_SIZE_MIN then Inl Unreachable
      else let limit = secretSize - XXH_STRIPE_LEN in
        Inr (s\<lparr>secretLimit := limit, nbStripesPerBlock := limit div XXH_SECRET_CONSUME_RATE\<rparr>))"

type_synonym XXH3_reset_result = "(XXH_errorcode \<times> XXH3_state_t option) res"

definition XXH3_64bits_reset :: "XXH3_state_t option \<Rightarrow> XXH3_reset_result" where
  "XXH3_64bits_reset statePtr =
     (case statePtr of None \<Rightarrow> Inr (XXH_ERROR, None) | Some s \<Rightarrow>
        andthen (XXH3_reset_internal s 0 (Some XXH3_kSecret) XXH_SECRET_DEFAULT_SIZE) (\<lambda>s. Inr (XXH_OK, Some s)))"

definition XXH3_64bits_reset_withSecret :: "XXH3_state_t option \<Rightarrow> 8 word list option \<Rightarrow> nat \<Rightarrow> XXH3_reset_result" where
  "XXH3_64bits_reset_withSecret statePtr secret secretSize =
     (case statePtr of None \<Rightarrow> Inr (XXH_ERROR, None) | Some s \<Rightarrow>
        andthen (XXH3_reset_internal s 0 secret secretSize) (\<lambda>s.
          if secret = None then Inr (XXH_ERROR, Some s)
          else if secretSize < XXH3_SECRET_SIZE_MIN then Inr (XXH_ERROR, Some s)
          else Inr (XXH_OK, Some s)))"

definition XXH3_64bits_reset_withSeed :: "xxh_target \<Rightarrow> XXH3_state_t option \<Rightarrow> 64 word \<Rightarrow> XXH3_reset_result" where
  "XXH3_64bits_reset_withSeed t statePtr seed =
     (case statePtr of None \<Rightarrow> Inr (XXH_ERROR, None) | Some s \<Rightarrow>
        if seed = 0 then XXH3_64bits_reset (Some s)
        else andthen (if seed \<noteq> seed3 s \<or> extSecret s \<noteq> None
                      then andthen (XXH3_initCustomSecret t (customSecret s) seed) (\<lambda>c. Inr (s\<lparr>customSecret := c\<rparr>)) else Inr s) (\<lambda>s.
             andthen (XXH3_reset_internal s seed None XXH_SECRET_DEFAULT_SIZE) (\<lambda>s. Inr (XXH_OK, Some s))))"

definition XXH3_64bits_reset_withSecretandSeed ::
  "XXH3_state_t option \<Rightarrow> 8 word list option \<Rightarrow> nat \<Rightarrow> 64 word \<Rightarrow> XXH3_reset_result" where
  "XXH3_64bits_reset_withSecretandSeed statePtr secret secretSize seed64 =
     (case statePtr of None \<Rightarrow> Inr (XXH_ERROR, None) | Some s \<Rightarrow>
        if secret = None then Inr (XXH_ERROR, Some s)
        else if secretSize < XXH3_SECRET_SIZE_MIN then Inr (XXH_ERROR, Some s)
        else andthen (XXH3_reset_internal s seed64 secret secretSize) (\<lambda>s. Inr (XXH_OK, Some (s\<lparr>useSeed := True\<rparr>))))"

definition XXH3_128bits_reset :: "XXH3_state_t option \<Rightarrow> XXH3_reset_result" where
  "XXH3_128bits_reset statePtr = XXH3_64bits_reset statePtr"

definition XXH3_128bits_reset_withSecret :: "XXH3_state_t option \<Rightarrow> 8 word list option \<Rightarrow> nat \<Rightarrow> XXH3_reset_result" where
  "XXH3_128bits_reset_withSecret statePtr secret secretSize = XXH3_64bits_reset_withSecret statePtr secret secretSize"

definition XXH3_128bits_reset_withSeed :: "xxh_target \<Rightarrow> XXH3_state_t option \<Rightarrow> 64 word \<Rightarrow> XXH3_reset_result" where
  "XXH3_128bits_reset_withSeed t statePtr seed = XXH3_64bits_reset_withSeed t statePtr seed"

definition XXH3_128bits_reset_withSecretandSeed ::
  "XXH3_state_t option \<Rightarrow> 8 word list option \<Rightarrow> nat \<Rightarrow> 64 word \<Rightarrow> XXH3_reset_result" where
  "XXH3_128bits_reset_withSecretandSeed statePtr secret secretSize seed = XXH3_64bits_reset_withSecretandSeed statePtr secret secretSize seed"

subsection \<open>Update\<close>

text \<open>
  The \<open>do\<close> loop of \<open>XXH3_consumeStripes\<close>: a block of \<open>this\<close> stripes from offset \<open>i\<close> of the input and \<open>k\<close> of the secret, then
  whole blocks while there are stripes for one.  With no stripes in a block it would not end.
\<close>

function consume_blocks ::
  "xxh_target \<Rightarrow> nat \<Rightarrow> 8 word list \<Rightarrow> nat \<Rightarrow> 8 word list \<Rightarrow> nat \<Rightarrow> nat \<Rightarrow> nat \<Rightarrow> nat \<Rightarrow> 64 word list \<Rightarrow>
    (64 word list \<times> nat \<times> nat) res" where
  "consume_blocks t perBlock secret limit input i k this nbStripes acc =
     andthen (XXH3_accumulate t input i secret k this acc) (\<lambda>acc.
     andthen (XXH3_scrambleAcc t secret limit acc) (\<lambda>acc.
       let i = i + this * XXH_STRIPE_LEN; rest = nbStripes - this in
       if rest \<ge> perBlock
       then if perBlock = 0 then Inl Nontermination else consume_blocks t perBlock secret limit input i 0 perBlock rest acc
       else Inr (acc, i, rest)))"
  by pat_completeness auto
termination
  by (relation "measure (\<lambda>(t, perBlock, secret, limit, input, i, k, this, nbStripes, acc). 2 * nbStripes + of_bool (this = 0))") auto

declare consume_blocks.simps [simp del]

text \<open>The result: accumulators, stripes so far in the block, and the offset behind the input read.\<close>

definition XXH3_consumeStripes ::
  "xxh_target \<Rightarrow> 64 word list \<Rightarrow> nat \<Rightarrow> nat \<Rightarrow> 8 word list \<Rightarrow> nat \<Rightarrow> nat \<Rightarrow> 8 word list \<Rightarrow> nat \<Rightarrow> (64 word list \<times> nat \<times> nat) res" where
  "XXH3_consumeStripes t acc soFar perBlock input i nbStripes secret limit =
     (let initialSecret = soFar * XXH_SECRET_CONSUME_RATE in
      andthen (if nbStripes \<ge> perBlock - soFar
               then andthen (consume_blocks t perBlock secret limit input i initialSecret (perBlock - soFar) nbStripes acc)
                      (\<lambda>(acc, i, nbStripes). Inr (acc, i, nbStripes, 0, 0))
               else Inr (acc, i, nbStripes, initialSecret, soFar)) (\<lambda>(acc, i, nbStripes, initialSecret, soFar).
      if nbStripes > 0
      then andthen (XXH3_accumulate t input i secret initialSecret nbStripes acc) (\<lambda>acc.
             Inr (acc, soFar + nbStripes, i + nbStripes * XXH_STRIPE_LEN))
      else Inr (acc, soFar, i)))"

definition secret_of :: "XXH3_state_t \<Rightarrow> 8 word list" where
  "secret_of s = (case extSecret s of None \<Rightarrow> customSecret s | Some e \<Rightarrow> e)"

definition XXH3_update :: "xxh_target \<Rightarrow> XXH3_state_t \<Rightarrow> 8 word list option \<Rightarrow> nat \<Rightarrow> (XXH_errorcode \<times> XXH3_state_t) res" where
  "XXH3_update t s input len =
     (case input of None \<Rightarrow> if len \<noteq> 0 then Inl Unreachable else Inr (XXH_OK, s)
      | Some p \<Rightarrow>
        let secret = secret_of s; acc = acc3 s; s = s\<lparr>totalLen := totalLen s + of_nat len\<rparr> in
        if \<not> bufferedSize s \<le> XXH3_INTERNALBUFFER_SIZE then Inl Unreachable
        else if len \<le> XXH3_INTERNALBUFFER_SIZE - bufferedSize s
        then andthen (XXH_memcpy (buffer3 s) (bufferedSize s) p 0 len) (\<lambda>b.
               Inr (XXH_OK, s\<lparr>buffer3 := b, bufferedSize := bufferedSize s + len\<rparr>))
        else andthen (if bufferedSize s \<noteq> 0
             then let loadSize = XXH3_INTERNALBUFFER_SIZE - bufferedSize s in
               andthen (XXH_memcpy (buffer3 s) (bufferedSize s) p 0 loadSize) (\<lambda>b.
               andthen (XXH3_consumeStripes t acc (nbStripesSoFar s) (nbStripesPerBlock s) b 0 (XXH3_INTERNALBUFFER_SIZE div XXH_STRIPE_LEN)
                   secret (secretLimit s)) (\<lambda>(acc, soFar, _).
               Inr (s\<lparr>buffer3 := b, nbStripesSoFar := soFar, bufferedSize := 0\<rparr>, acc, loadSize)))
             else Inr (s, acc, 0)) (\<lambda>(s, acc, i).
           if \<not> i < len then Inl Unreachable
           else andthen (if len - i > XXH3_INTERNALBUFFER_SIZE
             then let nbStripes = (len - 1 - i) div XXH_STRIPE_LEN in
               andthen (XXH3_consumeStripes t acc (nbStripesSoFar s) (nbStripesPerBlock s) p i nbStripes secret (secretLimit s)) (\<lambda>(acc, soFar, i).
               andthen (XXH_memcpy (buffer3 s) (XXH3_INTERNALBUFFER_SIZE - XXH_STRIPE_LEN) p (i - XXH_STRIPE_LEN) XXH_STRIPE_LEN) (\<lambda>b.
               Inr (s\<lparr>buffer3 := b, nbStripesSoFar := soFar\<rparr>, acc, i)))
             else Inr (s, acc, i)) (\<lambda>(s, acc, i).
           if \<not> (i < len \<and> len - i \<le> XXH3_INTERNALBUFFER_SIZE \<and> bufferedSize s = 0) then Inl Unreachable
           else andthen (XXH_memcpy (buffer3 s) 0 p i (len - i)) (\<lambda>b.
             Inr (XXH_OK, s\<lparr>buffer3 := b, bufferedSize := len - i, acc3 := acc\<rparr>)))))"

definition XXH3_64bits_update :: "xxh_target \<Rightarrow> XXH3_state_t \<Rightarrow> 8 word list option \<Rightarrow> nat \<Rightarrow> (XXH_errorcode \<times> XXH3_state_t) res" where
  "XXH3_64bits_update t s input len = XXH3_update t s input len"

definition XXH3_128bits_update :: "xxh_target \<Rightarrow> XXH3_state_t \<Rightarrow> 8 word list option \<Rightarrow> nat \<Rightarrow> (XXH_errorcode \<times> XXH3_state_t) res" where
  "XXH3_128bits_update t s input len = XXH3_64bits_update t s input len"

subsection \<open>Digest\<close>

definition XXH3_digest_long :: "xxh_target \<Rightarrow> XXH3_state_t \<Rightarrow> 8 word list \<Rightarrow> 64 word list res" where
  "XXH3_digest_long t s secret =
     (let acc = acc3 s in
      andthen (if bufferedSize s \<ge> XXH_STRIPE_LEN
        then let nbStripes = (bufferedSize s - 1) div XXH_STRIPE_LEN in
          andthen (XXH3_consumeStripes t acc (nbStripesSoFar s) (nbStripesPerBlock s) (buffer3 s) 0 nbStripes secret (secretLimit s)) (\<lambda>(acc, _, _).
            Inr (acc, buffer3 s, bufferedSize s - XXH_STRIPE_LEN))
        else if \<not> bufferedSize s > 0 then Inl Unreachable
        else let lastStripe = replicate XXH_STRIPE_LEN 0; catchupSize = XXH_STRIPE_LEN - bufferedSize s in
          andthen (XXH_memcpy lastStripe 0 (buffer3 s) (XXH3_INTERNALBUFFER_SIZE - catchupSize) catchupSize) (\<lambda>lastStripe.
          andthen (XXH_memcpy lastStripe catchupSize (buffer3 s) 0 (bufferedSize s)) (\<lambda>lastStripe.
            Inr (acc, lastStripe, 0)))) (\<lambda>(acc, lastStripe, i).
        XXH3_accumulate_512 t lastStripe i secret (secretLimit s - XXH_SECRET_LASTACC_START) acc))"

definition XXH3_64bits_digest :: "xxh_target \<Rightarrow> XXH3_state_t \<Rightarrow> 64 word res" where
  "XXH3_64bits_digest t s =
     (let secret = secret_of s in
      if totalLen s > of_nat XXH3_MIDSIZE_MAX
      then andthen (XXH3_digest_long t s secret) (\<lambda>acc.
        XXH3_mergeAccs t acc secret XXH_SECRET_MERGEACCS_START (totalLen s * XXH_PRIME64_1))
      else if useSeed s then XXH3_64bits_withSeed t (buffer3 s) (unat (totalLen s)) (seed3 s)
      else XXH3_64bits_withSecret t (buffer3 s) (unat (totalLen s)) secret (secretLimit s + XXH_STRIPE_LEN))"

definition XXH3_128bits_digest :: "xxh_target \<Rightarrow> XXH3_state_t \<Rightarrow> XXH128_hash_t res" where
  "XXH3_128bits_digest t s =
     (let secret = secret_of s in
      if totalLen s > of_nat XXH3_MIDSIZE_MAX
      then andthen (XXH3_digest_long t s secret) (\<lambda>acc.
        if \<not> secretLimit s + XXH_STRIPE_LEN \<ge> 64 + XXH_SECRET_MERGEACCS_START then Inl Unreachable
        else andthen (XXH3_mergeAccs t acc secret XXH_SECRET_MERGEACCS_START (totalLen s * XXH_PRIME64_1)) (\<lambda>lo.
        andthen (XXH3_mergeAccs t acc secret (secretLimit s + XXH_STRIPE_LEN - 64 - XXH_SECRET_MERGEACCS_START)
            (NOT (totalLen s * XXH_PRIME64_2))) (\<lambda>hi.
          Inr \<lparr>low64 = lo, high64 = hi\<rparr>)))
      else if seed3 s \<noteq> 0 then XXH3_128bits_withSeed t (buffer3 s) (unat (totalLen s)) (seed3 s)
      else XXH3_128bits_withSecret t (buffer3 s) (unat (totalLen s)) secret (secretLimit s + XXH_STRIPE_LEN))"

end
