(* ===== verification/XXH3_Feed.thy ===== *)
theory XXH3_Feed
  imports XXH3_Stream
begin

unbundle bit_operations_syntax

section \<open>XXH3 in pieces is XXH3 at once\<close>

subsection \<open>Stripe after stripe\<close>

text \<open>
  One stripe on the accumulators and the number of stripes so far in the block, and \<open>n\<close> of them from an offset on.  Hashing at once and hashing in pieces
  are both runs over the stripes of the input.
\<close>

definition one_stripe :: "xxh_target \<Rightarrow> 8 word list \<Rightarrow> nat \<Rightarrow> 8 word list \<Rightarrow> nat \<Rightarrow> 64 word list \<times> nat \<Rightarrow> 64 word list \<times> nat" where
  "one_stripe t s limit p i ak =
     (let acc = stripe (stripe_words t p i) (stripe_words t s (8 * snd ak)) (fst ak) in
      if Suc (snd ak) = limit div 8 then (scramble (words8 s limit) acc, 0) else (acc, Suc (snd ak)))"

definition run3 :: "xxh_target \<Rightarrow> 8 word list \<Rightarrow> nat \<Rightarrow> 8 word list \<Rightarrow> nat \<Rightarrow> nat \<Rightarrow> 64 word list \<times> nat \<Rightarrow> 64 word list \<times> nat" where
  "run3 t s limit p i n = fold (\<lambda>j. one_stripe t s limit p (i + 64 * j)) [0..<n]"

lemma run3_0 [simp]: "run3 t s limit p i 0 ak = ak"
  by (simp add: run3_def)

lemma run3_Suc: "run3 t s limit p i (Suc n) ak = one_stripe t s limit p (i + 64 * n) (run3 t s limit p i n ak)"
  by (simp add: run3_def)

lemma run3_add: "run3 t s limit p i (m + n) ak = run3 t s limit p (i + 64 * m) n (run3 t s limit p i m ak)"
  by (induction n) (simp_all add: run3_Suc algebra_simps)

lemma stripe_words_take_drop: "i \<le> length p \<Longrightarrow> stripe_words t p i = stripe_words t (take 64 (drop i p)) 0"
  by (simp add: stripe_words_def words8_explicit word_at_take word_at_drop)

lemma run3_cong:
  assumes "take (64 * n) (drop i p) = take (64 * n) (drop j q)" "i \<le> length p" "j \<le> length q" "i + 64 * n \<le> length p" "j + 64 * n \<le> length q"
  shows "run3 t s limit p i n ak = run3 t s limit q j n ak"
proof -
  have "stripe_words t p (i + 64 * m) = stripe_words t q (j + 64 * m)" if "m < n" for m
  proof -
    have "64 * m + 64 \<le> 64 * n" using that by simp
    then have t: "take 64 (drop (i' + 64 * m) r) = take 64 (drop (64 * m) (take (64 * n) (drop i' r)))" for i' and r :: "8 word list"
      by (simp add: drop_take min_absorb1 add.commute)
    show ?thesis using stripe_words_take_drop [of "i + 64 * m" p t] stripe_words_take_drop [of "j + 64 * m" q t] assms that by (simp add: t)
  qed
  then show ?thesis unfolding run3_def by (intro fold_cong) (simp_all add: one_stripe_def fun_eq_iff)
qed

lemma stripes_0 [simp]: "stripes t s p i k 0 acc = acc"
  by (simp add: stripes_def)

lemma run3_partial: "k + n < limit div 8 \<Longrightarrow> run3 t s limit p i n (acc, k) = (stripes t s p i (8 * k) n acc, k + n)"
  by (induction n) (simp_all add: run3_Suc one_stripe_def stripes_def)

lemma run3_block:
  assumes "k < limit div 8"
  shows "run3 t s limit p i (limit div 8 - k) (acc, k) = (scramble (words8 s limit) (stripes t s p i (8 * k) (limit div 8 - k) acc), 0)"
proof -
  obtain n where n: "limit div 8 - k = Suc n" using assms by (metis Suc_diff_Suc)
  then have "run3 t s limit p i n (acc, k) = (stripes t s p i (8 * k) n acc, k + n)" by (intro run3_partial) simp
  moreover have "Suc (k + n) = limit div 8" using n by simp
  ultimately show ?thesis by (simp add: n run3_Suc one_stripe_def stripes_def)
qed

subsection \<open>Consuming stripes\<close>

lemma consume_blocks_eq:
  assumes "k < limit div 8" "limit div 8 - k \<le> n" "length acc = 8" "i + 64 * n \<le> length p" "limit + 64 \<le> length s"
  shows "\<exists>q acc'. consume_blocks t (limit div 8) s limit p i (8 * k) (limit div 8 - k) n acc = Inr (acc', i + 64 * q, n - q) \<and> q \<le> n \<and>
    n - q < limit div 8 \<and> run3 t s limit p i q (acc, k) = (acc', 0) \<and> length acc' = 8"
  using assms(1-4)
proof (induction n arbitrary: k i acc rule: less_induct)
  case (less n)
  let ?N = "limit div 8" and ?m = "limit div 8 - k"
  let ?acc = "scramble (words8 s limit) (stripes t s p i (8 * k) ?m acc)"
  have a: "XXH3_accumulate t p i s (8 * k) ?m acc = Inr (stripes t s p i (8 * k) ?m acc)"
    by (rule accumulate_eq) (use less.prems assms(5) in auto)
  have b: "XXH3_scrambleAcc t s limit (stripes t s p i (8 * k) ?m acc) = Inr ?acc"
    by (rule scrambleAcc_eq) (use less.prems assms(5) in \<open>simp_all add: length_stripes\<close>)
  have r: "run3 t s limit p i ?m (acc, k) = (?acc, 0)" by (rule run3_block) fact
  show ?case
  proof (cases "?N \<le> n - ?m")
    case True
    have "\<exists>q acc'. consume_blocks t ?N s limit p (i + 64 * ?m) (8 * 0) (?N - 0) (n - ?m) ?acc =
        Inr (acc', i + 64 * ?m + 64 * q, n - ?m - q) \<and> q \<le> n - ?m \<and> n - ?m - q < ?N \<and>
      run3 t s limit p (i + 64 * ?m) q (?acc, 0) = (acc', 0) \<and> length acc' = 8"
    proof (rule less.IH)
      have "64 * ?m + 64 * (n - ?m) = 64 * n" using less.prems(2) by (simp only: add_mult_distrib2 [symmetric] le_add_diff_inverse)
      then show "i + 64 * ?m + 64 * (n - ?m) \<le> length p" using less.prems(4) by (simp only: add.assoc)
    qed (use less.prems True in auto)
    then obtain q acc' where q: "consume_blocks t ?N s limit p (i + 64 * ?m) 0 ?N (n - ?m) ?acc =
        Inr (acc', i + 64 * ?m + 64 * q, n - ?m - q)" "q \<le> n - ?m" "n - ?m - q < ?N"
      "run3 t s limit p (i + 64 * ?m) q (?acc, 0) = (acc', 0)" "length acc' = 8"
      unfolding mult_0_right diff_zero by blast
    have "run3 t s limit p i (?m + q) (acc, k) = (acc', 0)" unfolding run3_add r by (rule q(4))
    moreover have "consume_blocks t ?N s limit p i (8 * k) ?m n acc = Inr (acc', i + 64 * (?m + q), n - (?m + q))"
      using True q(1) less.prems(1) a b by (subst consume_blocks.simps) (simp add: Let_def XXH_STRIPE_LEN_def algebra_simps)
    moreover have "?m + q \<le> n" "n - (?m + q) < ?N" using q(2,3) less.prems(2) by arith+
    ultimately show ?thesis using q(5) by blast
  next
    case False
    then have "consume_blocks t ?N s limit p i (8 * k) ?m n acc = Inr (?acc, i + 64 * ?m, n - ?m)"
      using a b by (subst consume_blocks.simps) (simp add: Let_def XXH_STRIPE_LEN_def algebra_simps)
    then show ?thesis using False r less.prems by (intro exI [of _ ?m] exI [of _ ?acc]) auto
  qed
qed

lemma consume_eq:
  assumes "k < limit div 8" "length acc = 8" "i + 64 * n \<le> length p" "limit + 64 \<le> length s"
  shows "\<exists>acc' k'. XXH3_consumeStripes t acc k (limit div 8) p i n s limit = Inr (acc', k', i + 64 * n) \<and>
    run3 t s limit p i n (acc, k) = (acc', k') \<and> k' < limit div 8 \<and> length acc' = 8"
proof (cases "limit div 8 - k \<le> n")
  case True
  obtain q acc' where q: "consume_blocks t (limit div 8) s limit p i (8 * k) (limit div 8 - k) n acc = Inr (acc', i + 64 * q, n - q)" "q \<le> n"
    "n - q < limit div 8" "run3 t s limit p i q (acc, k) = (acc', 0)" "length acc' = 8"
    using consume_blocks_eq [OF assms(1) True assms(2-4)] by blast
  have run: "run3 t s limit p i n (acc, k) = (stripes t s p (i + 64 * q) 0 (n - q) acc', n - q)"
    using run3_add [of t s limit p i q "n - q" "(acc, k)"] run3_partial [of 0 "n - q" limit t s p "i + 64 * q" acc'] q by simp
  have "XXH3_accumulate t p (i + 64 * q) s 0 (n - q) acc' = Inr (stripes t s p (i + 64 * q) 0 (n - q) acc')"
    by (rule accumulate_eq) (use q assms in auto)
  then show ?thesis using True q run assms(1)
    by (auto simp: XXH3_consumeStripes_def Let_def XXH_SECRET_CONSUME_RATE_def XXH_STRIPE_LEN_def mult.commute length_stripes)
next
  case False
  then have run: "run3 t s limit p i n (acc, k) = (stripes t s p i (8 * k) n acc, k + n)" by (intro run3_partial) simp
  have "XXH3_accumulate t p i s (8 * k) n acc = Inr (stripes t s p i (8 * k) n acc)"
    by (rule accumulate_eq) (use False assms in auto)
  then show ?thesis using False run assms(1,2)
    by (auto simp: XXH3_consumeStripes_def Let_def XXH_SECRET_CONSUME_RATE_def XXH_STRIPE_LEN_def mult.commute length_stripes)
qed

subsection \<open>Hashing at once is a run\<close>

lemma run3_blocks:
  assumes "0 < limit div 8"
  shows "run3 t s limit p i (limit div 8 * b) (acc, 0) = (fold (\<lambda>b. one_block t s limit p (i + 64 * (limit div 8) * b)) [0..<b] acc, 0)"
proof (induction b)
  case (Suc b)
  have "run3 t s limit p i (limit div 8 * Suc b) (acc, 0) =
      run3 t s limit p (i + 64 * (limit div 8 * b)) (limit div 8) (run3 t s limit p i (limit div 8 * b) (acc, 0))"
    using run3_add [of t s limit p i "limit div 8 * b" "limit div 8"] by (simp add: add.commute)
  then show ?case using Suc run3_block [OF assms, of t s p "i + 64 * (limit div 8 * b)"] by (simp add: one_block_def mult.assoc)
qed simp

lemma hash_stripes_run:
  assumes "0 < limit div 8"
  shows "hash_stripes t s limit p len =
    stripe (stripe_words t p (len - 64)) (stripe_words t s (limit - 7)) (fst (run3 t s limit p 0 ((len - 1) div 64) (XXH3_INIT_ACC, 0)))"
proof -
  define N where "N = limit div 8"
  define b where "b = (len - 1) div (64 * N)"
  define r where "r = (len - 1 - 64 * N * b) div 64"
  have N: "0 < N" using assms by (simp add: N_def)
  have "len - 1 - 64 * N * b < 64 * N" using N by (simp add: b_def minus_mult_div_eq_mod)
  then have r: "r < N" by (simp add: r_def less_mult_imp_div_less mult.commute)
  have "64 * (N * b) \<le> len - 1" using times_div_less_eq_dividend [of "64 * N" "len - 1"] by (simp add: b_def mult.assoc)
  then have q: "(len - 1) div 64 = N * b + r"
    using div_mult_self1 [of 64 "len - 1 - 64 * (N * b)" "N * b"] by (simp add: r_def mult.assoc)
  have "run3 t s limit p 0 (N * b + r) (XXH3_INIT_ACC, 0) =
      (stripes t s p (64 * N * b) 0 r (fold (\<lambda>b. one_block t s limit p (64 * N * b)) [0..<b] XXH3_INIT_ACC), r)"
    using run3_blocks [OF assms, of t s p 0 b XXH3_INIT_ACC] run3_partial [of 0 r limit t s p "64 * N * b"] r
    unfolding run3_add by (simp add: N_def [symmetric] mult.assoc)
  then show ?thesis
    unfolding hash_stripes_def Let_def N_def [symmetric] b_def [symmetric] r_def [symmetric] q by simp
qed

subsection \<open>What a state holds\<close>

lemma run3_append: "64 * m \<le> length xs \<Longrightarrow> run3 t s limit (xs @ ys) 0 m ak = run3 t s limit xs 0 m ak"
  by (rule run3_cong) simp_all

lemma run3_more:
  assumes "length xs = 64 * m" "i + 64 * q \<le> length p"
  shows "run3 t s limit (xs @ take (64 * q) (drop i p)) 0 (m + q) ak = run3 t s limit p i q (run3 t s limit xs 0 m ak)"
proof -
  have "run3 t s limit (xs @ take (64 * q) (drop i p)) (64 * m) q ak = run3 t s limit p i q ak" for ak
    by (rule run3_cong) (use assms in simp_all)
  then show ?thesis using assms(1) by (simp add: run3_add run3_append)
qed

lemma consume_more:
  assumes "length xs = 64 * m" "run3 t s limit xs 0 m ak = (acc, k)" "k < limit div 8" "length acc = 8" "i + 64 * q \<le> length p"
    "limit + 64 \<le> length s"
  shows "\<exists>acc' k'. XXH3_consumeStripes t acc k (limit div 8) p i q s limit = Inr (acc', k', i + 64 * q) \<and>
    run3 t s limit (xs @ take (64 * q) (drop i p)) 0 (m + q) ak = (acc', k') \<and> k' < limit div 8 \<and> length acc' = 8"
  using consume_eq [OF assms(3-6), of t] by (simp add: run3_more [OF assms(1,5)] assms(2))

text \<open>
  All whole stripes have been consumed and nothing is left: \<open>b\<close> is the buffer, and its last stripe is the last one consumed.
\<close>

definition consumed :: "xxh_target \<Rightarrow> 8 word list \<Rightarrow> nat \<Rightarrow> 8 word list \<Rightarrow> nat \<Rightarrow> 64 word list \<Rightarrow> nat \<Rightarrow> 8 word list \<Rightarrow> bool" where
  "consumed t s limit xs m acc k b \<longleftrightarrow>
     length xs = 64 * m \<and> run3 t s limit xs 0 m (XXH3_INIT_ACC, 0) = (acc, k) \<and> k < limit div 8 \<and> length acc = 8 \<and> length b = 256 \<and>
     (0 < m \<longrightarrow> drop 192 b = drop (64 * m - 64) xs)"

text \<open>Some of the input, but never the end of a long one, may have been consumed; the rest is in the buffer.\<close>

definition buffered :: "xxh_target \<Rightarrow> 8 word list \<Rightarrow> nat \<Rightarrow> 8 word list \<Rightarrow> 64 word list \<Rightarrow> nat \<Rightarrow> 8 word list \<Rightarrow> nat \<Rightarrow> nat \<Rightarrow> bool" where
  "buffered t s limit xs acc k b n m \<longleftrightarrow>
     length xs = 64 * m + n \<and> run3 t s limit xs 0 m (XXH3_INIT_ACC, 0) = (acc, k) \<and> k < limit div 8 \<and> length acc = 8 \<and> length b = 256 \<and>
     n \<le> 256 \<and> take n b = drop (64 * m) xs \<and>
     (0 < m \<longrightarrow> 256 < length xs \<and> 0 < n \<and> (n < 64 \<longrightarrow> drop (192 + n) b @ take n b = drop (length xs - 64) xs))"

text \<open>Filling the buffer and consuming it.\<close>

lemma fill_buffer:
  assumes b: "buffered t s limit xs acc k b n m" and n: "n \<noteq> 0" and len: "256 - n < len" "len \<le> length p" and s: "limit + 64 \<le> length s"
  shows "\<exists>b' acc' k' e. XXH_memcpy b n p 0 (256 - n) = Inr b' \<and> XXH3_consumeStripes t acc k (limit div 8) b' 0 4 s limit = Inr (acc', k', e) \<and>
    consumed t s limit (xs @ take (256 - n) p) (m + 4) acc' k' b'"
proof -
  have h: "length xs = 64 * m + n" "run3 t s limit xs 0 m (XXH3_INIT_ACC, 0) = (acc, k)" "k < limit div 8" "length acc = 8" "length b = 256" "n \<le> 256"
    "take n b = drop (64 * m) xs" using b by (simp_all add: buffered_def)
  define b' where "b' = take n b @ take (256 - n) p"
  have m: "XXH_memcpy b n p 0 (256 - n) = Inr b'" "length b' = 256" using h len by (simp_all add: memcpy_into b'_def)
  have xs: "take (64 * m) xs @ b' = xs @ take (256 - n) p" unfolding b'_def h(7) append_assoc [symmetric] append_take_drop_id ..
  have "run3 t s limit (take (64 * m) xs) 0 m (XXH3_INIT_ACC, 0) = (acc, k)"
    using run3_append [of m "take (64 * m) xs" t s limit "drop (64 * m) xs"] h(1,2) by simp
  then obtain acc' k' where c: "XXH3_consumeStripes t acc k (limit div 8) b' 0 4 s limit = Inr (acc', k', 256)"
    "run3 t s limit (take (64 * m) xs @ take 256 b') 0 (m + 4) (XXH3_INIT_ACC, 0) = (acc', k')" "k' < limit div 8" "length acc' = 8"
    using consume_more [of "take (64 * m) xs" m t s limit "(XXH3_INIT_ACC, 0)" acc k 0 4 b'] h(1,3,4) m(2) s by auto
  have "take 256 b' = b'" using m(2) by simp
  then have r: "run3 t s limit (xs @ take (256 - n) p) 0 (m + 4) (XXH3_INIT_ACC, 0) = (acc', k')" using c(2) xs by simp
  have "drop 192 b' = drop (64 * (m + 4) - 64) (take (64 * m) xs @ b')" using h(1) by simp
  then have "consumed t s limit (xs @ take (256 - n) p) (m + 4) acc' k' b'"
    using r c(3,4) m(2) h(1,6) len unfolding xs by (simp add: consumed_def)
  then show ?thesis using m(1) c(1) by blast
qed

text \<open>Consuming the input itself up to its last bytes.\<close>

lemma consume_input:
  assumes c: "consumed t s limit xs m acc k b" and i: "256 < len - i" "len \<le> length p" and s: "limit + 64 \<le> length s"
    and q: "q = (len - 1 - i) div 64"
  shows "\<exists>b' acc' k'. XXH3_consumeStripes t acc k (limit div 8) p i q s limit = Inr (acc', k', i + 64 * q) \<and>
    XXH_memcpy b 192 p (i + 64 * q - 64) 64 = Inr b' \<and> consumed t s limit (xs @ take (64 * q) (drop i p)) (m + q) acc' k' b' \<and>
    0 < m + q \<and> i + 64 * q < len \<and> len - (i + 64 * q) \<le> 64"
proof -
  have h: "length xs = 64 * m" "run3 t s limit xs 0 m (XXH3_INIT_ACC, 0) = (acc, k)" "k < limit div 8" "length acc = 8" "length b = 256"
    using c by (simp_all add: consumed_def)
  have q': "0 < q" "i + 64 * q < len" "len - (i + 64 * q) \<le> 64" using i(1) by (auto simp: q div_greater_zero_iff)
  then have b: "i + 64 * q \<le> length p" "i + 64 * q - 64 + 64 = i + 64 * q" using i by simp_all
  obtain acc' k' where c: "XXH3_consumeStripes t acc k (limit div 8) p i q s limit = Inr (acc', k', i + 64 * q)"
    "run3 t s limit (xs @ take (64 * q) (drop i p)) 0 (m + q) (XXH3_INIT_ACC, 0) = (acc', k')" "k' < limit div 8" "length acc' = 8"
    using consume_more [OF h(1-4) b(1) s] by blast
  have m: "XXH_memcpy b 192 p (i + 64 * q - 64) 64 = Inr (take 192 b @ take 64 (drop (i + 64 * q - 64) p))"
    using h(5) b by (simp add: memcpy_into)
  have "64 * (m + q) - 64 - length xs = 64 * q - 64" "64 * (m + q) - 64 \<ge> length xs" using q'(1) h(1) by simp_all
  then have "drop (64 * (m + q) - 64) (xs @ take (64 * q) (drop i p)) = drop (64 * q - 64) (take (64 * q) (drop i p))" by simp
  also have "\<dots> = take 64 (drop (i + 64 * q - 64) p)" using q'(1) by (simp add: drop_take add.commute)
  finally have "consumed t s limit (xs @ take (64 * q) (drop i p)) (m + q) acc' k' (take 192 b @ take 64 (drop (i + 64 * q - 64) p))"
    using c h b by (simp add: consumed_def)
  then show ?thesis using c(1) m q' by blast
qed

text \<open>The rest goes to the buffer.\<close>

lemma keep_rest:
  assumes c: "consumed t s limit xs m acc k b" and m: "0 < m" and r: "j < len" "len - j \<le> 256" "len \<le> length p" "256 < 64 * m + (len - j)"
  shows "\<exists>b'. XXH_memcpy b 0 p j (len - j) = Inr b' \<and> buffered t s limit (xs @ take (len - j) (drop j p)) acc k b' (len - j) m"
proof -
  let ?r = "take (len - j) (drop j p)" and ?n = "len - j"
  have h: "length xs = 64 * m" "run3 t s limit xs 0 m (XXH3_INIT_ACC, 0) = (acc, k)" "length b = 256" "drop 192 b = drop (64 * m - 64) xs"
    using c m by (simp_all add: consumed_def)
  have l: "length ?r = ?n" using r by simp
  have b: "XXH_memcpy b 0 p j ?n = Inr (?r @ drop ?n b)" using h(3) r by (simp add: memcpy_into)
  have "drop (192 + ?n) b @ ?r = drop (64 * m + ?n - 64) (xs @ ?r)" if "?n < 64"
  proof -
    have "drop (192 + ?n) b = drop ?n (drop (64 * m - 64) xs)" unfolding h(4) [symmetric] by (simp add: add.commute)
    also have "\<dots> = drop (64 * m + ?n - 64) xs" using m by (simp add: add.commute)
    finally show ?thesis using that h(1) by simp
  qed
  then have "buffered t s limit (xs @ ?r) acc k (?r @ drop ?n b) ?n m"
    using c h l r by (auto simp: buffered_def consumed_def run3_append)
  then show ?thesis using b by blast
qed

lemma buffer_more:
  assumes "buffered t s limit xs acc k b n m" "len \<le> 256 - n" "len \<le> length p"
  shows "\<exists>b'. XXH_memcpy b n p 0 len = Inr b' \<and> buffered t s limit (xs @ take len p) acc k b' (n + len) m"
proof -
  have h: "length xs = 64 * m + n" "run3 t s limit xs 0 m (XXH3_INIT_ACC, 0) = (acc, k)" "k < limit div 8" "length acc = 8" "length b = 256" "n \<le> 256"
    "take n b = drop (64 * m) xs" "0 < m \<longrightarrow> 256 < length xs \<and> 0 < n \<and> (n < 64 \<longrightarrow> drop (192 + n) b @ take n b = drop (length xs - 64) xs)"
    using assms(1) unfolding buffered_def by blast+
  have b: "XXH_memcpy b n p 0 len = Inr (take n b @ take len p @ drop (n + len) b)" using h assms(2,3) by (simp add: memcpy_into)
  have "drop (192 + (n + len)) b @ take n b @ take len p = drop (length xs + len - 64) (xs @ take len p)" if "0 < m" "n + len < 64"
  proof -
    have "drop (192 + n) b @ take n b = drop (length xs - 64) xs" "64 \<le> length xs" using h(8) that by simp_all
    then have "drop len (drop (192 + n) b @ take n b) = drop (length xs + len - 64) xs" by (simp add: add.commute)
    moreover have "drop len (drop (192 + n) b @ take n b) = drop (192 + (n + len)) b @ take n b" using that h(5) by (simp add: ac_simps)
    moreover have "length xs + len - 64 \<le> length xs" using that by simp
    ultimately show ?thesis by simp
  qed
  then have "buffered t s limit (xs @ take len p) acc k (take n b @ take len p @ drop (n + len) b) (n + len) m"
    using h assms(2,3) by (auto simp: buffered_def run3_append min_absorb2)
  then show ?thesis using b by blast
qed

subsection \<open>Updates\<close>

definition holds3 :: "xxh_target \<Rightarrow> 8 word list \<Rightarrow> XXH3_state_t \<Rightarrow> bool" where
  "holds3 t xs s \<longleftrightarrow> (\<exists>m. buffered t (secret_of s) (secretLimit s) xs (acc3 s) (nbStripesSoFar s) (buffer3 s) (bufferedSize s) m) \<and>
     nbStripesPerBlock s = secretLimit s div 8 \<and> 72 \<le> secretLimit s \<and> secretLimit s + 64 \<le> length (secret_of s) \<and>
     totalLen s = of_nat (length xs)"

text \<open>What an update leaves as it was.\<close>

definition same_mode :: "XXH3_state_t \<Rightarrow> XXH3_state_t \<Rightarrow> bool" where
  "same_mode s s' \<longleftrightarrow> extSecret s' = extSecret s \<and> customSecret s' = customSecret s \<and> secretLimit s' = secretLimit s \<and>
     seed3 s' = seed3 s \<and> useSeed s' = useSeed s"

lemma same_mode_trans: "same_mode s s' \<Longrightarrow> same_mode s' s'' \<Longrightarrow> same_mode s s''" and same_mode_refl [simp]: "same_mode s s"
  by (simp_all add: same_mode_def)

lemma holds3I:
  assumes "holds3 t xs s" "buffered t (secret_of s) (secretLimit s) ys a k b n m" "acc3 s' = a" "nbStripesSoFar s' = k" "buffer3 s' = b"
    "bufferedSize s' = n" "same_mode s s'" "nbStripesPerBlock s' = nbStripesPerBlock s" "totalLen s' = of_nat (length ys)"
  shows "holds3 t ys s'"
proof -
  have "secret_of s' = secret_of s" "secretLimit s' = secretLimit s" using assms(7) by (simp_all add: secret_of_def same_mode_def split: option.split)
  then show ?thesis using assms by (auto simp: holds3_def)
qed

lemma full_buffer_hashed:
  assumes b: "buffered t sec limit xs acc k buf n m" and L: "limit + 64 \<le> length sec" and len: "len \<le> length p" and big: "256 - n < len"
  obtains i m1 acc1 k1 b1 where "i < len" "i \<le> 256" "consumed t sec limit (xs @ take i p) m1 acc1 k1 b1"
    "n = 0 \<Longrightarrow> b1 = buf \<and> acc1 = acc \<and> k1 = k \<and> i = 0" "n \<noteq> 0 \<Longrightarrow> 0 < m1 \<and> i = 256 - n"
    "n \<noteq> 0 \<Longrightarrow> XXH_memcpy buf n p 0 (256 - n) = Inr b1 \<and> (\<exists>e. XXH3_consumeStripes t acc k (limit div 8) b1 0 4 sec limit = Inr (acc1, k1, e))"
proof (cases "n = 0")
  case True
  then have "m = 0" using b by (cases m) (simp_all add: buffered_def)
  then have "consumed t sec limit (xs @ take 0 p) m acc k buf" using b True by (auto simp: buffered_def consumed_def)
  then show ?thesis using that [of 0 m acc k buf] True big by simp
next
  case False
  obtain b' acc' k' e where "XXH_memcpy buf n p 0 (256 - n) = Inr b'" "XXH3_consumeStripes t acc k (limit div 8) b' 0 4 sec limit = Inr (acc', k', e)"
      "consumed t sec limit (xs @ take (256 - n) p) (m + 4) acc' k' b'"
    using fill_buffer [OF b False _ len L] big by auto
  then show ?thesis using that [of "256 - n" "m + 4" acc' k' b'] False big by auto
qed

text \<open>Stripes are hashed from the input itself while more than a buffer of it is left.\<close>

lemma input_hashed:
  assumes c: "consumed t sec limit (xs @ take i p) m1 acc1 k1 b1" and i: "i < len" "len \<le> length p" and L: "limit + 64 \<le> length sec"
    and enough: "\<not> 256 < len - i \<Longrightarrow> 256 < 64 * m1 + (len - i) \<and> 0 < m1"
  obtains j m2 acc2 k2 b2 where "i \<le> j" "j < len" "len - j \<le> 256" "consumed t sec limit (xs @ take j p) m2 acc2 k2 b2" "0 < m2"
    "256 < 64 * m2 + (len - j)" "\<not> 256 < len - i \<Longrightarrow> b2 = b1 \<and> acc2 = acc1 \<and> k2 = k1 \<and> j = i"
    "256 < len - i \<Longrightarrow> XXH3_consumeStripes t acc1 k1 (limit div 8) p i ((len - 1 - i) div 64) sec limit = Inr (acc2, k2, j) \<and>
      XXH_memcpy b1 192 p (j - 64) 64 = Inr b2"
proof (cases "256 < len - i")
  case True
  define q where "q = (len - 1 - i) div 64"
  have x: "xs @ take i p @ take (64 * q) (drop i p) = xs @ take (i + 64 * q) p" by (simp add: take_add)
  obtain b' acc' k' where r: "XXH3_consumeStripes t acc1 k1 (limit div 8) p i q sec limit = Inr (acc', k', i + 64 * q)"
      "XXH_memcpy b1 192 p (i + 64 * q - 64) 64 = Inr b'" "consumed t sec limit (xs @ take (i + 64 * q) p) (m1 + q) acc' k' b'"
      "0 < m1 + q" "i + 64 * q < len" "len - (i + 64 * q) \<le> 64"
    using consume_input [OF c True i(2) L q_def] unfolding append_assoc x by blast
  have "length (xs @ take (i + 64 * q) p) = 64 * (m1 + q)" using r(3) by (simp add: consumed_def)
  then have "256 < 64 * (m1 + q) + (len - (i + 64 * q))" using r(5) i(2) True by simp
  then show ?thesis using that [of "i + 64 * q" "m1 + q" acc' k' b'] True r by (simp add: q_def)
next
  case False
  then show ?thesis using that [of i m1 acc1 k1 b1] c enough i(1) by auto
qed

lemma update3:
  assumes holds: "holds3 t xs s" and len: "len \<le> length p"
  shows "\<exists>s'. XXH3_update t s (Some p) len = Inr (XXH_OK, s') \<and> holds3 t (xs @ take len p) s' \<and> same_mode s s'"
proof -
  let ?sec = "secret_of s" and ?L = "secretLimit s" and ?n = "bufferedSize s"
  note sizes = XXH3_INTERNALBUFFER_SIZE_def XXH_STRIPE_LEN_def
  obtain m where b: "buffered t ?sec ?L xs (acc3 s) (nbStripesSoFar s) (buffer3 s) ?n m" and L: "nbStripesPerBlock s = ?L div 8" "72 \<le> ?L"
      "?L + 64 \<le> length ?sec" and t: "totalLen s = of_nat (length xs)"
    using holds by (auto simp: holds3_def)
  have n: "?n \<le> 256" "length xs = 64 * m + ?n" using b by (simp_all add: buffered_def)
  show ?thesis
  proof (cases "len \<le> 256 - ?n")
    case True
    obtain b' where "XXH_memcpy (buffer3 s) ?n p 0 len = Inr b'" "buffered t ?sec ?L (xs @ take len p) (acc3 s) (nbStripesSoFar s) b' (?n + len) m"
      using buffer_more [OF b True len] by blast
    then show ?thesis using True n len by (simp add: XXH3_update_def Let_def sizes holds3I [OF holds] same_mode_def t)
  next
    case big: False
    then have big': "256 - ?n < len" by simp
    obtain i m1 acc1 k1 b1 where one: "i < len" "i \<le> 256" "consumed t ?sec ?L (xs @ take i p) m1 acc1 k1 b1"
        "?n = 0 \<Longrightarrow> b1 = buffer3 s \<and> acc1 = acc3 s \<and> k1 = nbStripesSoFar s \<and> i = 0" "?n \<noteq> 0 \<Longrightarrow> 0 < m1 \<and> i = 256 - ?n"
        "?n \<noteq> 0 \<Longrightarrow> XXH_memcpy (buffer3 s) ?n p 0 (256 - ?n) = Inr b1 \<and>
          (\<exists>e. XXH3_consumeStripes t (acc3 s) (nbStripesSoFar s) (?L div 8) b1 0 4 ?sec ?L = Inr (acc1, k1, e))"
      using full_buffer_hashed [OF b L(3) len big'] by blast
    have all: "?n = 0 \<Longrightarrow> 256 < len - i" using one(4) big by simp
    have "length (xs @ take i p) = 64 * m1" using one(3) by (simp add: consumed_def)
    then have "256 < 64 * m1 + (len - i) \<and> 0 < m1" if "\<not> 256 < len - i" using all one(1,5) n that big len by auto
    then obtain j m2 acc2 k2 b2 where two: "i \<le> j" "j < len" "len - j \<le> 256" "consumed t ?sec ?L (xs @ take j p) m2 acc2 k2 b2" "0 < m2"
        "256 < 64 * m2 + (len - j)" "\<not> 256 < len - i \<Longrightarrow> b2 = b1 \<and> acc2 = acc1 \<and> k2 = k1 \<and> j = i"
        "256 < len - i \<Longrightarrow> XXH3_consumeStripes t acc1 k1 (?L div 8) p i ((len - 1 - i) div 64) ?sec ?L = Inr (acc2, k2, j) \<and>
          XXH_memcpy b1 192 p (j - 64) 64 = Inr b2"
      using input_hashed [OF one(3,1) len L(3)] by blast
    obtain b3 where three: "XXH_memcpy b2 0 p j (len - j) = Inr b3"
        "buffered t ?sec ?L ((xs @ take j p) @ take (len - j) (drop j p)) acc2 k2 b3 (len - j) m2"
      using keep_rest [OF two(4,5,2,3) len two(6)] by blast
    have "(xs @ take j p) @ take (len - j) (drop j p) = xs @ take len p" using take_add [of j "len - j" p] two(2) by simp
    then have fin: "buffered t ?sec ?L (xs @ take len p) acc2 k2 b3 (len - j) m2" using three(2) by simp
    note facts = two(2,3) big n three(1) fin L(1) len and run = XXH3_update_def Let_def sizes holds3I [OF holds fin] same_mode_def t
    consider "?n = 0" "256 < len - i" | "?n \<noteq> 0" "256 < len - i" | "?n \<noteq> 0" "\<not> 256 < len - i" using all by blast
    then show ?thesis
    proof cases
      case 1
      then show ?thesis using one(4) two(8) facts by (simp add: run)
    next
      case 2
      then show ?thesis using one(1,5,6) two(8) facts by (auto simp add: run)
    next
      case 3
      then show ?thesis using one(1,5,6) two(7) facts by (auto simp add: run)
    qed
  qed
qed

subsection \<open>The digest of a long input\<close>

lemma digest_long3:
  assumes b: "buffered t sec limit xs (acc3 s) (nbStripesSoFar s) (buffer3 s) (bufferedSize s) m" and L: "72 \<le> limit" "limit + 64 \<le> length sec"
    and s: "nbStripesPerBlock s = limit div 8" "secretLimit s = limit" and len: "240 < length xs"
  shows "XXH3_digest_long t s sec = Inr (hash_stripes t sec limit xs (length xs))"
proof -
  let ?n = "bufferedSize s" and ?b = "buffer3 s" and ?last = "drop (length xs - 64) xs"
  have h: "length xs = 64 * m + ?n" "run3 t sec limit xs 0 m (XXH3_INIT_ACC, 0) = (acc3 s, nbStripesSoFar s)" "nbStripesSoFar s < limit div 8"
      "length (acc3 s) = 8" "length ?b = 256" "?n \<le> 256" "take ?n ?b = drop (64 * m) xs"
      "0 < m \<longrightarrow> 256 < length xs \<and> 0 < ?n \<and> (?n < 64 \<longrightarrow> drop (192 + ?n) ?b @ take ?n ?b = ?last)"
    using b unfolding buffered_def by blast+
  have N: "0 < limit div 8" using L by (simp add: div_greater_zero_iff)
  have last: "stripe_words t xs (length xs - 64) = stripe_words t ?last 0" using stripe_words_take_drop [of "length xs - 64" xs t] len by simp
  have stripe: "XXH3_accumulate_512 t p i sec (limit - 7) acc = Inr (stripe (stripe_words t ?last 0) (stripe_words t sec (limit - 7)) acc)"
    if "take 64 (drop i p) = ?last" "length acc = 8" for p i acc
  proof -
    have "length (take 64 (drop i p)) = 64" using that(1) len by simp
    then have "i + 64 \<le> length p" by simp
    then show ?thesis using accumulate_512_eq [OF that(2), of i p "limit - 7" sec t] stripe_words_take_drop [of i p t] that(1) L by simp
  qed
  show ?thesis
  proof (cases "64 \<le> ?n")
    case True
    define q where "q = (?n - Suc 0) div 64"
    have q: "64 * q < ?n" "(length xs - Suc 0) div 64 = m + q" using True h(1) div_mult_self1 [of 64 "?n - Suc 0" m] by (simp_all add: q_def)
    obtain acc' k' where c: "XXH3_consumeStripes t (acc3 s) (nbStripesSoFar s) (limit div 8) ?b 0 q sec limit = Inr (acc', k', 64 * q)"
        "run3 t sec limit ?b 0 q (acc3 s, nbStripesSoFar s) = (acc', k')" "length acc' = 8"
      using consume_eq [OF h(3,4), of 0 q ?b sec t] q(1) h(5,6) L by auto
    have "run3 t sec limit ?b 0 q ak = run3 t sec limit xs (64 * m) q ak" for ak
    proof (rule run3_cong)
      have "take (64 * q) (take ?n ?b) = take (64 * q) (drop (64 * m) xs)" using h(7) by simp
      then show "take (64 * q) (drop 0 ?b) = take (64 * q) (drop (64 * m) xs)" using q(1) by (simp add: min_absorb1)
    qed (use h(1,5,6) q(1) in simp_all)
    then have r: "run3 t sec limit xs 0 (m + q) (XXH3_INIT_ACC, 0) = (acc', k')" using c(2) h(2) by (simp add: run3_add)
    have "take 64 (drop (?n - 64) ?b) = drop (?n - 64) (take ?n ?b)" using True h(5,6) by (simp add: drop_take)
    then have "take 64 (drop (?n - 64) ?b) = ?last" using True h(1,7) by (simp add: add.commute)
    then show ?thesis using True c(1) r N L s by (simp add: XXH3_digest_long_def xxh_sizes Let_def q_def [symmetric] stripe c(3) hash_stripes_run q(2) last)
  next
    case False
    then have m: "0 < m" using h(1) len by (cases m) simp_all
    then have n: "0 < ?n" "drop (192 + ?n) ?b @ take ?n ?b = ?last" "(length xs - Suc 0) div 64 = m"
      using False h(1,8) div_mult_self1 [of 64 "?n - Suc 0" m] by (simp_all add: add.commute)
    have "length ?last = 64" using len by simp
    then show ?thesis using False n(1,3) h(2,4,5) N s n(2)
      by (simp add: XXH3_digest_long_def xxh_sizes Let_def XXH3_INTERNALBUFFER_SIZE_def memcpy_into stripe hash_stripes_run last min_absorb2)
  qed
qed

end
