(* ===== verification/XXH3_Pieces.thy ===== *)
theory XXH3_Pieces
  imports XXH3_Feed
begin

unbundle bit_operations_syntax

section \<open>The streaming hashes\<close>

text \<open>
  What the digests of a state compute, for both widths and all four ways to reset a state, against the functions that hash at once.
\<close>

subsection \<open>A short hash reads its input only\<close>

lemma readLE_take:
  "i + 8 \<le> len \<Longrightarrow> len \<le> length p \<Longrightarrow> XXH_readLE64 t (take len p) i = XXH_readLE64 t p i"
  "i + 4 \<le> len \<Longrightarrow> len \<le> length p \<Longrightarrow> XXH_readLE32 t (take len p) i = XXH_readLE32 t p i"
  by (simp_all add: readLE64_eq readLE32_eq word_at_take)

lemma read8_take: "i < len \<Longrightarrow> len \<le> length p \<Longrightarrow> read8 (take len p) i = read8 p i"
  by (simp add: read8_def)

lemma mix16B_take: "i + 16 \<le> len \<Longrightarrow> len \<le> length p \<Longrightarrow> XXH3_mix16B t (take len p) i s k seed = XXH3_mix16B t p i s k seed"
  by (simp add: XXH3_mix16B_def readLE_take)

lemma add_mix_take: "i + 16 \<le> len \<Longrightarrow> len \<le> length p \<Longrightarrow> add_mix t (take len p) i s k seed = add_mix t p i s k seed"
  by (simp add: add_mix_def fun_eq_iff mix16B_take)

lemma mix32B_take:
  "i + 16 \<le> len \<Longrightarrow> j + 16 \<le> len \<Longrightarrow> len \<le> length p \<Longrightarrow> XXH128_mix32B t (take len p) i j s k seed = XXH128_mix32B t p i j s k seed"
  by (simp add: XXH128_mix32B_def fun_eq_iff mix16B_take readLE_take)

lemma each_step_cong: "(\<And>x. x \<in> set xs \<Longrightarrow> f x = g x) \<Longrightarrow> each_step f xs s = each_step g xs s"
  by (induction xs arbitrary: s) (simp_all cong: andthen_cong)

lemma short64_take: "len \<le> 16 \<Longrightarrow> len \<le> length p \<Longrightarrow> XXH3_len_0to16_64b t (take len p) len s seed = XXH3_len_0to16_64b t p len s seed"
  by (simp add: XXH3_len_0to16_64b_def XXH3_len_9to16_64b_def XXH3_len_4to8_64b_def XXH3_len_1to3_64b_def readLE_take read8_take Let_def)

lemma short128_take: "len \<le> 16 \<Longrightarrow> len \<le> length p \<Longrightarrow> XXH3_len_0to16_128b t (take len p) len s seed = XXH3_len_0to16_128b t p len s seed"
  by (simp add: XXH3_len_0to16_128b_def XXH3_len_9to16_128b_def XXH3_len_4to8_128b_def XXH3_len_1to3_128b_def readLE_take read8_take Let_def)

lemma medium64_take:
  assumes "16 < len" "len \<le> 128" "len \<le> length p"
  shows "XXH3_len_17to128_64b t (take len p) len s seed = XXH3_len_17to128_64b t p len s seed"
  unfolding XXH3_len_17to128_64b_def Let_def small_loop64_unrolled [OF assms(1,2)] if_cancel
  using assms by (cases "32 < len"; cases "64 < len"; cases "96 < len") (simp_all add: add_mix_take)

lemma medium128_take:
  assumes "16 < len" "len \<le> 128" "len \<le> length p"
  shows "XXH3_len_17to128_128b t (take len p) len s seed = XXH3_len_17to128_128b t p len s seed"
  unfolding XXH3_len_17to128_128b_def Let_def small_loop_unrolled [OF assms(1,2)] if_cancel
  using assms by (cases "32 < len"; cases "64 < len"; cases "96 < len") (simp_all add: mix32B_take)

lemma mid64_take:
  assumes "128 < len" "len \<le> 240" "len \<le> length p"
  shows "XXH3_len_129to240_64b t (take len p) len s seed = XXH3_len_129to240_64b t p len s seed"
proof -
  have 1: "each_step (\<lambda>i. add_mix t (take len p) (16 * i) s (16 * i) seed) [0..<8] a = each_step (\<lambda>i. add_mix t p (16 * i) s (16 * i) seed) [0..<8] a" for a
    by (rule each_step_cong) (use assms in \<open>auto intro!: add_mix_take\<close>)
  have 2: "each_step (\<lambda>i. add_mix t (take len p) (16 * i) s (16 * (i - 8) + XXH3_MIDSIZE_STARTOFFSET) seed) [8..<len div 16] a =
      each_step (\<lambda>i. add_mix t p (16 * i) s (16 * (i - 8) + XXH3_MIDSIZE_STARTOFFSET) seed) [8..<len div 16] a" for a
    by (rule each_step_cong) (use assms in \<open>auto intro!: add_mix_take\<close>)
  have 3: "XXH3_mix16B t (take len p) (len - 16) = XXH3_mix16B t p (len - 16)" using assms by (intro ext mix16B_take) simp_all
  show ?thesis unfolding XXH3_len_129to240_64b_def Let_def 1 2 3 ..
qed

lemma mid128_take:
  assumes "128 < len" "len \<le> 240" "len \<le> length p"
  shows "XXH3_len_129to240_128b t (take len p) len s seed = XXH3_len_129to240_128b t p len s seed"
proof -
  have 1: "each_step (\<lambda>i. XXH128_mix32B t (take len p) (i - 32) (i - 16) s (i - 32) seed) [32, 64, 96, 128] a =
      each_step (\<lambda>i. XXH128_mix32B t p (i - 32) (i - 16) s (i - 32) seed) [32, 64, 96, 128] a" for a
    by (rule each_step_cong) (use assms in \<open>auto intro!: mix32B_take\<close>)
  have 2: "each_step (\<lambda>i. XXH128_mix32B t (take len p) (i - 32) (i - 16) s (XXH3_MIDSIZE_STARTOFFSET + i - 160) seed)
        (map (\<lambda>n. 160 + 32 * n) [0..<(len - 128) div 32]) a =
      each_step (\<lambda>i. XXH128_mix32B t p (i - 32) (i - 16) s (XXH3_MIDSIZE_STARTOFFSET + i - 160) seed)
        (map (\<lambda>n. 160 + 32 * n) [0..<(len - 128) div 32]) a" for a
    by (rule each_step_cong) (use assms in \<open>auto intro!: mix32B_take\<close>)
  have 3: "XXH128_mix32B t (take len p) (len - 16) (len - 32) = XXH128_mix32B t p (len - 16) (len - 32)"
    using assms by (intro ext mix32B_take [THEN fun_cong]) simp_all
  show ?thesis unfolding XXH3_len_129to240_128b_def Let_def 1 2 3 ..
qed

lemma internal64_take:
  assumes "len \<le> 240" "len \<le> length p"
  shows "XXH3_64bits_internal t (take len p) len seed s sz f = XXH3_64bits_internal t p len seed s sz g"
  using assms by (simp add: XXH3_64bits_internal_def xxh_sizes short64_take medium64_take mid64_take)

lemma internal128_take:
  assumes "len \<le> 240" "len \<le> length p"
  shows "XXH3_128bits_internal t (take len p) len seed s sz f = XXH3_128bits_internal t p len seed s sz g"
  using assms by (simp add: XXH3_128bits_internal_def xxh_sizes short128_take medium128_take mid128_take)

subsection \<open>The digests\<close>

lemma total_cases: "length xs < 2 ^ 64 \<Longrightarrow> (of_nat (length xs) :: 64 word) > of_nat XXH3_MIDSIZE_MAX \<longleftrightarrow> 240 < length xs"
  "length xs < 2 ^ 64 \<Longrightarrow> unat (of_nat (length xs) :: 64 word) = length xs"
  by (simp_all add: word_less_nat_alt unat_of_nat XXH3_MIDSIZE_MAX_def)

lemma hash_long3:
  assumes "holds3 t xs s" "240 < length xs"
  shows "XXH3_digest_long t s (secret_of s) = XXH3_hashLong_internal_loop t xs (length xs) (secret_of s) (secretLimit s + 64) XXH3_INIT_ACC"
proof -
  obtain m where m: "buffered t (secret_of s) (secretLimit s) xs (acc3 s) (nbStripesSoFar s) (buffer3 s) (bufferedSize s) m"
      "nbStripesPerBlock s = secretLimit s div 8" "72 \<le> secretLimit s" "secretLimit s + 64 \<le> length (secret_of s)"
    using assms(1) by (auto simp: holds3_def)
  show ?thesis using digest_long3 [OF m(1,3,4,2) refl assms(2)] internal_loop_eq [of "length xs" xs "secretLimit s + 64" "secret_of s" t] assms(2) m
    by simp
qed

lemma digest64_long:
  assumes "holds3 t xs s" "240 < length xs" "length xs < 2 ^ 64"
  shows "XXH3_64bits_digest t s = XXH3_hashLong_64b_internal t xs (length xs) (secret_of s) (secretLimit s + 64)"
proof -
  have "totalLen s = of_nat (length xs)" using assms(1) by (simp add: holds3_def)
  then show ?thesis using assms total_cases [OF assms(3)]
    by (simp add: XXH3_64bits_digest_def XXH3_hashLong_64b_internal_def Let_def hash_long3)
qed

lemma digest128_long:
  assumes "holds3 t xs s" "240 < length xs" "length xs < 2 ^ 64"
  shows "XXH3_128bits_digest t s = XXH3_hashLong_128b_internal t xs (length xs) (secret_of s) (secretLimit s + 64)"
proof -
  have "totalLen s = of_nat (length xs)" "72 \<le> secretLimit s" using assms(1) by (simp_all add: holds3_def)
  then show ?thesis using assms total_cases [OF assms(3)]
    by (simp add: XXH3_128bits_digest_def XXH3_hashLong_128b_internal_def Let_def hash_long3 xxh_sizes)
qed

text \<open>A short input is in the buffer as a whole.\<close>

lemma whole_in_buffer:
  assumes "holds3 t xs s" "length xs \<le> 240"
  shows "xs = take (length xs) (buffer3 s)" "length xs \<le> length (buffer3 s)"
proof -
  obtain m where b: "length xs = 64 * m + bufferedSize s" "length (buffer3 s) = 256" "take (bufferedSize s) (buffer3 s) = drop (64 * m) xs"
      "0 < m \<longrightarrow> 256 < length xs"
    using assms(1) unfolding holds3_def buffered_def by blast
  then have "m = 0" using assms(2) by simp
  then show "xs = take (length xs) (buffer3 s)" "length xs \<le> length (buffer3 s)" using b assms(2) by simp_all
qed

lemma digest64_short:
  assumes "holds3 t xs s" "length xs \<le> 240"
  shows "XXH3_64bits_digest t s = (if useSeed s then XXH3_64bits_withSeed t xs (length xs) (seed3 s)
    else XXH3_64bits_withSecret t xs (length xs) (secret_of s) (secretLimit s + 64))"
proof -
  have l: "length xs < 2 ^ 64" using assms(2) by simp
  have "totalLen s = of_nat (length xs)" using assms(1) by (simp add: holds3_def)
  moreover have "XXH3_64bits_internal t xs (length xs) seed sec sz f = XXH3_64bits_internal t (buffer3 s) (length xs) seed sec sz f" for seed sec sz f
    using internal64_take [OF assms(2) whole_in_buffer(2) [OF assms], of t seed sec sz f f] whole_in_buffer(1) [OF assms] by simp
  ultimately show ?thesis using total_cases [OF l] assms(2)
    by (simp add: XXH3_64bits_digest_def Let_def XXH3_64bits_withSeed_def XXH3_64bits_withSecret_def XXH_STRIPE_LEN_def)
qed

lemma digest128_short:
  assumes "holds3 t xs s" "length xs \<le> 240"
  shows "XXH3_128bits_digest t s = (if seed3 s \<noteq> 0 then XXH3_128bits_withSeed t xs (length xs) (seed3 s)
    else XXH3_128bits_withSecret t xs (length xs) (secret_of s) (secretLimit s + 64))"
proof -
  have l: "length xs < 2 ^ 64" using assms(2) by simp
  have "totalLen s = of_nat (length xs)" using assms(1) by (simp add: holds3_def)
  moreover have "XXH3_128bits_internal t xs (length xs) seed sec sz f = XXH3_128bits_internal t (buffer3 s) (length xs) seed sec sz f" for seed sec sz f
    using internal128_take [OF assms(2) whole_in_buffer(2) [OF assms], of t seed sec sz f f] whole_in_buffer(1) [OF assms] by simp
  ultimately show ?thesis using total_cases [OF l] assms(2)
    by (simp add: XXH3_128bits_digest_def Let_def XXH3_128bits_withSeed_def XXH3_128bits_withSecret_def XXH_STRIPE_LEN_def)
qed

subsection \<open>Resetting a state\<close>

text \<open>
  A state that has been initialised: what it holds in its secret belongs to the seed it holds, unless the secret is outside.
\<close>

definition state_ok :: "XXH3_state_t \<Rightarrow> bool" where
  "state_ok s \<longleftrightarrow> length (buffer3 s) = 256 \<and> length (customSecret s) = 192 \<and>
     (extSecret s = None \<longrightarrow> seed3 s \<noteq> 0 \<longrightarrow> customSecret s = seeded_secret (seed3 s))"

definition begun :: "XXH3_state_t \<Rightarrow> 8 word list \<Rightarrow> nat \<Rightarrow> 64 word \<Rightarrow> bool \<Rightarrow> bool" where
  "begun s sec limit seed use \<longleftrightarrow> (\<forall>t. holds3 t [] s) \<and> state_ok s \<and> secret_of s = sec \<and> secretLimit s = limit \<and> seed3 s = seed \<and> useSeed s = use"

lemma reset_internal_ok:
  assumes "state_ok s" "136 \<le> sz" "sz \<le> length (case sec of None \<Rightarrow> customSecret s | Some e \<Rightarrow> e)"
    "sec = None \<Longrightarrow> seed \<noteq> 0 \<Longrightarrow> customSecret s = seeded_secret seed"
  shows "\<exists>s'. XXH3_reset_internal s seed sec sz = Inr s' \<and>
    begun s' (case sec of None \<Rightarrow> customSecret s | Some e \<Rightarrow> e) (sz - 64) seed (seed \<noteq> 0) \<and> customSecret s' = customSecret s \<and> extSecret s' = sec"
proof -
  have "0 < (sz - 64) div 8" using assms(2) by (simp add: div_greater_zero_iff)
  moreover have "length XXH3_INIT_ACC = 8" by (simp add: XXH3_INIT_ACC_def)
  ultimately show ?thesis using assms
    by (auto simp: XXH3_reset_internal_def Let_def xxh_sizes begun_def holds3_def buffered_def state_ok_def secret_of_def XXH3_INIT_ACC_def
        split: option.splits)
qed

lemma reset3:
  assumes "state_ok s"
  shows "\<exists>s'. XXH3_64bits_reset (Some s) = Inr (XXH_OK, Some s') \<and> begun s' XXH3_kSecret 128 0 False"
  using reset_internal_ok [OF assms, of 192 "Some XXH3_kSecret" 0] by (auto simp: XXH3_64bits_reset_def XXH_SECRET_DEFAULT_SIZE_def)

lemma reset_secret3:
  assumes "state_ok s" "136 \<le> sz" "sz \<le> length sec"
  shows "\<exists>s'. XXH3_64bits_reset_withSecret (Some s) (Some sec) sz = Inr (XXH_OK, Some s') \<and> begun s' sec (sz - 64) 0 False"
  using reset_internal_ok [OF assms(1,2), of "Some sec" 0] assms by (auto simp: XXH3_64bits_reset_withSecret_def xxh_sizes)

lemma reset_secret_seed3:
  assumes "state_ok s" "136 \<le> sz" "sz \<le> length sec"
  shows "\<exists>s'. XXH3_64bits_reset_withSecretandSeed (Some s) (Some sec) sz seed = Inr (XXH_OK, Some s') \<and> begun s' sec (sz - 64) seed True"
proof -
  obtain s' where "XXH3_reset_internal s seed (Some sec) sz = Inr s'" "begun s' sec (sz - 64) seed (seed \<noteq> 0)"
    using reset_internal_ok [OF assms(1,2), of "Some sec" seed] assms by auto
  then show ?thesis using assms(2)
    by (auto simp: XXH3_64bits_reset_withSecretandSeed_def xxh_sizes begun_def holds3_def state_ok_def secret_of_def split: option.splits)
qed

lemma reset_seed3:
  assumes "state_ok s"
  shows "\<exists>s'. XXH3_64bits_reset_withSeed t (Some s) seed = Inr (XXH_OK, Some s') \<and>
    begun s' (seeded_secret seed) 128 seed (seed \<noteq> 0)"
proof (cases "seed = 0")
  case True
  then show ?thesis using reset3 [OF assms] by (simp add: XXH3_64bits_reset_withSeed_def seeded_zero)
next
  case False
  let ?s = "s\<lparr>customSecret := seeded_secret seed\<rparr>"
  have c: "(if seed \<noteq> seed3 s \<or> extSecret s \<noteq> None
       then andthen (XXH3_initCustomSecret t (customSecret s) seed) (\<lambda>c. Inr (s\<lparr>customSecret := c\<rparr>)) else Inr s) = Inr ?s"
    using assms False by (cases s) (auto simp: init_secret state_ok_def)
  obtain s' where "XXH3_reset_internal ?s seed None 192 = Inr s'" "begun s' (seeded_secret seed) 128 seed (seed \<noteq> 0)"
  proof -
    have "seed3 s = seed \<or> seed3 s \<noteq> seed" by simp
    define s0 where "s0 = ?s\<lparr>extSecret := Some []\<rparr>"
    have "state_ok s0" using assms by (simp add: s0_def state_ok_def)
    moreover have "XXH3_reset_internal ?s seed None 192 = XXH3_reset_internal s0 seed None 192"
      by (simp add: XXH3_reset_internal_def s0_def Let_def)
    ultimately show ?thesis using that reset_internal_ok [of s0 192 None seed] by (auto simp: s0_def)
  qed
  then show ?thesis using False c by (simp add: XXH3_64bits_reset_withSeed_def XXH_SECRET_DEFAULT_SIZE_def)
qed

subsection \<open>In pieces and at once\<close>

text \<open>A reset, an update for each piece, and the digest.\<close>

definition in_pieces ::
  "(XXH_errorcode \<times> XXH3_state_t option) res \<Rightarrow> (XXH3_state_t \<Rightarrow> 8 word list option \<Rightarrow> nat \<Rightarrow> (XXH_errorcode \<times> XXH3_state_t) res) \<Rightarrow>
    (XXH3_state_t \<Rightarrow> 'h res) \<Rightarrow> 8 word list list \<Rightarrow> 'h res" where
  "in_pieces reset update digest parts =
     andthen reset (\<lambda>(_, statePtr). case statePtr of None \<Rightarrow> Inl NullDeref | Some s \<Rightarrow>
       andthen (each_step (\<lambda>p s. andthen (update s (Some p) (length p)) (\<lambda>(_, s). Inr s)) parts s) digest)"

lemma feed3: "holds3 t xs s \<Longrightarrow> \<exists>s'. each_step (\<lambda>p s. andthen (XXH3_update t s (Some p) (length p)) (\<lambda>(_, s). Inr s)) parts s = Inr s' \<and>
    holds3 t (xs @ concat parts) s' \<and> same_mode s s'"
proof (induction parts arbitrary: xs s)
  case (Cons p parts)
  obtain s1 where s1: "XXH3_update t s (Some p) (length p) = Inr (XXH_OK, s1)" "holds3 t (xs @ p) s1" "same_mode s s1"
    using update3 [OF Cons.prems, of "length p" p] by auto
  show ?case using Cons.IH [OF s1(2)] s1(1) same_mode_trans [OF s1(3)] by auto
qed simp

lemma pieces3:
  assumes "begun s sec limit seed use" "update = XXH3_update t"
  shows "\<exists>s'. in_pieces (Inr (XXH_OK, Some s)) update digest parts = digest s' \<and> holds3 t (concat parts) s' \<and>
    secret_of s' = sec \<and> secretLimit s' = limit \<and> seed3 s' = seed \<and> useSeed s' = use"
proof -
  have "holds3 t [] s" using assms(1) by (simp add: begun_def)
  then obtain s' where "each_step (\<lambda>p s. andthen (XXH3_update t s (Some p) (length p)) (\<lambda>(_, s). Inr s)) parts s = Inr s'"
      "holds3 t (concat parts) s'" "same_mode s s'" using feed3 [of t "[]" s parts] by auto
  then show ?thesis using assms by (auto simp: in_pieces_def begun_def same_mode_def secret_of_def split: option.splits)
qed

lemma pieces64:
  assumes "begun s sec limit seed use" "length (concat parts) < 2 ^ 64"
  shows "in_pieces (Inr (XXH_OK, Some s)) (XXH3_64bits_update t) (XXH3_64bits_digest t) parts =
    (let xs = concat parts in
     if 240 < length xs then XXH3_hashLong_64b_internal t xs (length xs) sec (limit + 64)
     else if use then XXH3_64bits_withSeed t xs (length xs) seed else XXH3_64bits_withSecret t xs (length xs) sec (limit + 64))"
proof -
  have "XXH3_64bits_update t = XXH3_update t" by (simp add: fun_eq_iff XXH3_64bits_update_def)
  then show ?thesis
    using pieces3 [OF assms(1), of "XXH3_64bits_update t" t "XXH3_64bits_digest t" parts] digest64_long [OF _ _ assms(2)] digest64_short [of t "concat parts"]
    by (auto simp: Let_def)
qed

lemma pieces128:
  assumes "begun s sec limit seed use" "length (concat parts) < 2 ^ 64"
  shows "in_pieces (Inr (XXH_OK, Some s)) (XXH3_128bits_update t) (XXH3_128bits_digest t) parts =
    (let xs = concat parts in
     if 240 < length xs then XXH3_hashLong_128b_internal t xs (length xs) sec (limit + 64)
     else if seed \<noteq> 0 then XXH3_128bits_withSeed t xs (length xs) seed else XXH3_128bits_withSecret t xs (length xs) sec (limit + 64))"
proof -
  have "XXH3_128bits_update t = XXH3_update t" by (simp add: fun_eq_iff XXH3_64bits_update_def XXH3_128bits_update_def)
  then show ?thesis
    using pieces3 [OF assms(1), of "XXH3_128bits_update t" t "XXH3_128bits_digest t" parts] digest128_long [OF _ _ assms(2)]
      digest128_short [of t "concat parts"]
    by (auto simp: Let_def)
qed

lemma sum192: "(128 :: nat) + 64 = 192"
  by simp

text \<open>Up to 240 bytes the function for long inputs does not matter.\<close>

lemma internal64_any: "len \<le> 240 \<Longrightarrow> XXH3_64bits_internal t p len seed s sz f = XXH3_64bits_internal t p len seed s sz g"
  and internal128_any: "len \<le> 240 \<Longrightarrow> XXH3_128bits_internal t p len seed s sz f' = XXH3_128bits_internal t p len seed s sz g'"
  by (simp_all add: XXH3_64bits_internal_def XXH3_128bits_internal_def xxh_sizes)

lemma at_once64:
  "XXH3_64bits t p len = (if 240 < len then XXH3_hashLong_64b_internal t p len XXH3_kSecret 192 else XXH3_64bits_withSecret t p len XXH3_kSecret 192)"
  "XXH3_64bits_withSeed t p len seed =
    (if 240 < len then XXH3_hashLong_64b_internal t p len (seeded_secret seed) 192
     else if seed \<noteq> 0 then XXH3_64bits_withSeed t p len seed else XXH3_64bits_withSecret t p len (seeded_secret seed) 192)"
  "136 \<le> sz \<Longrightarrow> XXH3_64bits_withSecret t p len s sz =
    (if 240 < len then XXH3_hashLong_64b_internal t p len s sz else XXH3_64bits_withSecret t p len s sz)"
  "XXH3_64bits_withSecretandSeed t p len s sz seed =
    (if 240 < len then XXH3_hashLong_64b_internal t p len s sz else XXH3_64bits_withSeed t p len seed)"
  using internal64_any [of len] long64_withSeed
  by (auto simp: XXH3_64bits_def XXH3_64bits_withSecret_def XXH3_64bits_withSeed_def XXH3_64bits_withSecretandSeed_def XXH3_64bits_internal_def
      XXH3_hashLong_64b_default_def XXH3_hashLong_64b_withSecret_def xxh_sizes seeded_zero)

lemma at_once128:
  "XXH3_128bits t p len = (if 240 < len then XXH3_hashLong_128b_internal t p len XXH3_kSecret 192 else XXH3_128bits_withSecret t p len XXH3_kSecret 192)"
  "XXH3_128bits_withSeed t p len seed =
    (if 240 < len then XXH3_hashLong_128b_internal t p len (seeded_secret seed) 192
     else if seed \<noteq> 0 then XXH3_128bits_withSeed t p len seed else XXH3_128bits_withSecret t p len (seeded_secret seed) 192)"
  "136 \<le> sz \<Longrightarrow> XXH3_128bits_withSecret t p len s sz =
    (if 240 < len then XXH3_hashLong_128b_internal t p len s sz else XXH3_128bits_withSecret t p len s sz)"
  "XXH3_128bits_withSecretandSeed t p len s sz seed =
    (if 240 < len then XXH3_hashLong_128b_internal t p len s sz else XXH3_128bits_withSeed t p len seed)"
  using internal128_any [of len] long_withSeed
  by (auto simp: XXH3_128bits_def XXH3_128bits_withSecret_def XXH3_128bits_withSeed_def XXH3_128bits_withSecretandSeed_def XXH3_128bits_internal_def
      XXH3_hashLong_128b_default_def XXH3_hashLong_128b_withSecret_def xxh_sizes seeded_zero)

lemma pieces_begin:
  assumes "reset = Inr (XXH_OK, Some s)" "in_pieces (Inr (XXH_OK, Some s)) update digest parts = h" "agree h h'"
  shows "agree (in_pieces reset update digest parts) h'"
  using assms by simp

lemma pieces_at_once64:
  assumes s: "state_ok s" and len: "length (concat parts) < 2 ^ 64" and sz: "136 \<le> sz" "sz \<le> length sec"
    and alike: "alike t u (length (concat parts))"
  shows "agree (in_pieces (XXH3_64bits_reset (Some s)) (XXH3_64bits_update t) (XXH3_64bits_digest t) parts)
      (XXH3_64bits u (concat parts) (length (concat parts)))
    \<and> agree (in_pieces (XXH3_64bits_reset_withSeed t (Some s) seed) (XXH3_64bits_update t) (XXH3_64bits_digest t) parts)
      (XXH3_64bits_withSeed u (concat parts) (length (concat parts)) seed)
    \<and> agree (in_pieces (XXH3_64bits_reset_withSecret (Some s) (Some sec) sz) (XXH3_64bits_update t) (XXH3_64bits_digest t) parts)
      (XXH3_64bits_withSecret u (concat parts) (length (concat parts)) sec sz)
    \<and> agree (in_pieces (XXH3_64bits_reset_withSecretandSeed (Some s) (Some sec) sz seed) (XXH3_64bits_update t) (XXH3_64bits_digest t) parts)
      (XXH3_64bits_withSecretandSeed u (concat parts) (length (concat parts)) sec sz seed)"
proof (intro conjI)
  let ?xs = "concat parts"
  note same = xxh64bits_agree [where len = "length ?xs" and p = ?xs, OF order_refl alike]
  obtain s1 where "XXH3_64bits_reset (Some s) = Inr (XXH_OK, Some s1)" "begun s1 XXH3_kSecret 128 0 False" using reset3 [OF s] by blast
  then show "agree (in_pieces (XXH3_64bits_reset (Some s)) (XXH3_64bits_update t) (XXH3_64bits_digest t) parts) (XXH3_64bits u ?xs (length ?xs))"
    using pieces64 [OF _ len, of s1 XXH3_kSecret 128 0 False t] at_once64(1) [of t ?xs "length ?xs"] same(1)
    by (cases "240 < length ?xs") (simp_all add: Let_def)
  obtain s2 where "XXH3_64bits_reset_withSeed t (Some s) seed = Inr (XXH_OK, Some s2)" "begun s2 (seeded_secret seed) 128 seed (seed \<noteq> 0)"
    using reset_seed3 [OF s] by blast
  then show "agree (in_pieces (XXH3_64bits_reset_withSeed t (Some s) seed) (XXH3_64bits_update t) (XXH3_64bits_digest t) parts)
      (XXH3_64bits_withSeed u ?xs (length ?xs) seed)"
    using pieces64 [OF _ len, of s2 "seeded_secret seed" 128 seed "seed \<noteq> 0" t] same(2) [where seed = seed]
      at_once64(2) [of t ?xs "length ?xs" seed, symmetric]
    by (simp only: Let_def sum192 if_cancel)
  obtain s3 where "XXH3_64bits_reset_withSecret (Some s) (Some sec) sz = Inr (XXH_OK, Some s3)" "begun s3 sec (sz - 64) 0 False"
    using reset_secret3 [OF s sz] by blast
  then show "agree (in_pieces (XXH3_64bits_reset_withSecret (Some s) (Some sec) sz) (XXH3_64bits_update t) (XXH3_64bits_digest t) parts)
      (XXH3_64bits_withSecret u ?xs (length ?xs) sec sz)"
    using pieces64 [OF _ len, of s3 sec "sz - 64" 0 False t] same(3) [OF sz] sz
      at_once64(3) [of sz t ?xs "length ?xs" sec]
    by (cases "240 < length ?xs") (simp_all add: Let_def)
  obtain s4 where "XXH3_64bits_reset_withSecretandSeed (Some s) (Some sec) sz seed = Inr (XXH_OK, Some s4)" "begun s4 sec (sz - 64) seed True"
    using reset_secret_seed3 [OF s sz] by blast
  then show "agree (in_pieces (XXH3_64bits_reset_withSecretandSeed (Some s) (Some sec) sz seed) (XXH3_64bits_update t) (XXH3_64bits_digest t) parts)
      (XXH3_64bits_withSecretandSeed u ?xs (length ?xs) sec sz seed)"
    using pieces64 [OF _ len, of s4 sec "sz - 64" seed True t] same(4) [OF sz, where seed = seed] sz
      at_once64(4) [of t ?xs "length ?xs" sec sz seed]
    by (cases "240 < length ?xs") (simp_all add: Let_def)
qed

text \<open>A state whose memory held zeros.\<close>

definition zero_state :: XXH3_state_t where
  "zero_state = XXH3_INITSTATE \<lparr>acc3 = [], customSecret = replicate 192 0, buffer3 = replicate 256 0, bufferedSize = 0, useSeed = False, nbStripesSoFar = 0,
     totalLen = 0, nbStripesPerBlock = 0, secretLimit = 0, seed3 = 0, extSecret = None\<rparr>"

lemma zero_state_ok: "state_ok zero_state"
  by (simp add: zero_state_def XXH3_INITSTATE_def state_ok_def)

lemma pieces_at_once128:
  assumes s: "state_ok s" and len: "length (concat parts) < 2 ^ 64" and sz: "136 \<le> sz" "sz \<le> length sec"
    and alike: "alike t u (length (concat parts))"
  shows "agree (in_pieces (XXH3_128bits_reset (Some s)) (XXH3_128bits_update t) (XXH3_128bits_digest t) parts)
      (XXH3_128bits u (concat parts) (length (concat parts)))
    \<and> agree (in_pieces (XXH3_128bits_reset_withSeed t (Some s) seed) (XXH3_128bits_update t) (XXH3_128bits_digest t) parts)
      (XXH3_128bits_withSeed u (concat parts) (length (concat parts)) seed)
    \<and> agree (in_pieces (XXH3_128bits_reset_withSecret (Some s) (Some sec) sz) (XXH3_128bits_update t) (XXH3_128bits_digest t) parts)
      (XXH3_128bits_withSecret u (concat parts) (length (concat parts)) sec sz)
    \<and> agree (in_pieces (XXH3_128bits_reset_withSecretandSeed (Some s) (Some sec) sz seed) (XXH3_128bits_update t) (XXH3_128bits_digest t) parts)
      (if seed = 0 \<and> length (concat parts) \<le> 240 then XXH3_128bits_withSecret u (concat parts) (length (concat parts)) sec sz
       else XXH3_128bits_withSecretandSeed u (concat parts) (length (concat parts)) sec sz seed)"
proof (intro conjI)
  let ?xs = "concat parts"
  note same = xxh3_agree [OF alike order_refl] withSeed_agree [OF alike order_refl, where seed = seed] withSecret_agree [OF alike order_refl sz]
    withSecretandSeed_agree [OF alike order_refl sz, where seed = seed]
  obtain s1 where "XXH3_128bits_reset (Some s) = Inr (XXH_OK, Some s1)" "begun s1 XXH3_kSecret 128 0 False"
    using reset3 [OF s] unfolding XXH3_128bits_reset_def by blast
  then show "agree (in_pieces (XXH3_128bits_reset (Some s)) (XXH3_128bits_update t) (XXH3_128bits_digest t) parts) (XXH3_128bits u ?xs (length ?xs))"
    using pieces128 [OF _ len, of s1 XXH3_kSecret 128 0 False t] at_once128(1) [of t ?xs "length ?xs"] same(1)
    by (cases "240 < length ?xs") (simp_all add: Let_def)
  obtain s2 where "XXH3_128bits_reset_withSeed t (Some s) seed = Inr (XXH_OK, Some s2)" "begun s2 (seeded_secret seed) 128 seed (seed \<noteq> 0)"
    using reset_seed3 [OF s] unfolding XXH3_128bits_reset_withSeed_def by blast
  then show "agree (in_pieces (XXH3_128bits_reset_withSeed t (Some s) seed) (XXH3_128bits_update t) (XXH3_128bits_digest t) parts)
      (XXH3_128bits_withSeed u ?xs (length ?xs) seed)"
    using pieces128 [OF _ len, of s2 "seeded_secret seed" 128 seed "seed \<noteq> 0" t] same(2)
      at_once128(2) [of t ?xs "length ?xs" seed, symmetric]
    by (simp only: Let_def sum192 if_cancel)
  obtain s3 where "XXH3_128bits_reset_withSecret (Some s) (Some sec) sz = Inr (XXH_OK, Some s3)" "begun s3 sec (sz - 64) 0 False"
    using reset_secret3 [OF s sz] unfolding XXH3_128bits_reset_withSecret_def by blast
  then show "agree (in_pieces (XXH3_128bits_reset_withSecret (Some s) (Some sec) sz) (XXH3_128bits_update t) (XXH3_128bits_digest t) parts)
      (XXH3_128bits_withSecret u ?xs (length ?xs) sec sz)"
    using pieces128 [OF _ len, of s3 sec "sz - 64" 0 False t] same(3) sz
      at_once128(3) [of sz t ?xs "length ?xs" sec]
    by (cases "240 < length ?xs") (simp_all add: Let_def)
  obtain s4 where s4: "XXH3_128bits_reset_withSecretandSeed (Some s) (Some sec) sz seed = Inr (XXH_OK, Some s4)" "begun s4 sec (sz - 64) seed True"
    using reset_secret_seed3 [OF s sz] unfolding XXH3_128bits_reset_withSecretandSeed_def by blast
  show "agree (in_pieces (XXH3_128bits_reset_withSecretandSeed (Some s) (Some sec) sz seed) (XXH3_128bits_update t) (XXH3_128bits_digest t) parts)
      (if seed = 0 \<and> length ?xs \<le> 240 then XXH3_128bits_withSecret u ?xs (length ?xs) sec sz
       else XXH3_128bits_withSecretandSeed u ?xs (length ?xs) sec sz seed)"
    using pieces128 [OF s4(2) len, of t] same(3,4) sz s4(1) at_once128(4) [of t ?xs "length ?xs" sec sz seed]
    by (cases "240 < length ?xs"; cases "seed = 0") (simp_all add: Let_def)
qed

text \<open>
  C11: XXH3 in pieces. Whatever pieces an input of less than 2^64 bytes comes in, resetting a state in any of the four ways,
  updating it with each piece and taking the digest, of 64 or of 128 bits, returns what the function for this width that hashes at once returns,
  with the same seed and secret, on this target and on every other that hashes inputs of this length alike. There is one exception, in the 128-bit digest: a
  state that was reset with a secret and the seed 0 hashes inputs of up to 240 bytes as with the secret alone, while the function that hashes at
  once uses the default secret for them (xxh3_128_zero_seed_differs). The state may have served for any other hash before.
\<close>

theorem xxh3_in_pieces:
  assumes "state_ok s" and "length (concat parts) < 2 ^ 64" and "136 \<le> sz" "sz \<le> length sec"
    and "alike t u (length (concat parts))"
  shows "agree (in_pieces (XXH3_64bits_reset (Some s)) (XXH3_64bits_update t) (XXH3_64bits_digest t) parts)
      (XXH3_64bits u (concat parts) (length (concat parts)))
    \<and> agree (in_pieces (XXH3_64bits_reset_withSeed t (Some s) seed) (XXH3_64bits_update t) (XXH3_64bits_digest t) parts)
      (XXH3_64bits_withSeed u (concat parts) (length (concat parts)) seed)
    \<and> agree (in_pieces (XXH3_64bits_reset_withSecret (Some s) (Some sec) sz) (XXH3_64bits_update t) (XXH3_64bits_digest t) parts)
      (XXH3_64bits_withSecret u (concat parts) (length (concat parts)) sec sz)
    \<and> agree (in_pieces (XXH3_64bits_reset_withSecretandSeed (Some s) (Some sec) sz seed) (XXH3_64bits_update t) (XXH3_64bits_digest t) parts)
      (XXH3_64bits_withSecretandSeed u (concat parts) (length (concat parts)) sec sz seed)
    \<and> agree (in_pieces (XXH3_128bits_reset (Some s)) (XXH3_128bits_update t) (XXH3_128bits_digest t) parts)
      (XXH3_128bits u (concat parts) (length (concat parts)))
    \<and> agree (in_pieces (XXH3_128bits_reset_withSeed t (Some s) seed) (XXH3_128bits_update t) (XXH3_128bits_digest t) parts)
      (XXH3_128bits_withSeed u (concat parts) (length (concat parts)) seed)
    \<and> agree (in_pieces (XXH3_128bits_reset_withSecret (Some s) (Some sec) sz) (XXH3_128bits_update t) (XXH3_128bits_digest t) parts)
      (XXH3_128bits_withSecret u (concat parts) (length (concat parts)) sec sz)
    \<and> agree (in_pieces (XXH3_128bits_reset_withSecretandSeed (Some s) (Some sec) sz seed) (XXH3_128bits_update t) (XXH3_128bits_digest t) parts)
      (if seed = 0 \<and> length (concat parts) \<le> 240 then XXH3_128bits_withSecret u (concat parts) (length (concat parts)) sec sz
       else XXH3_128bits_withSecretandSeed u (concat parts) (length (concat parts)) sec sz seed)"
  using pieces_at_once64 [OF assms] pieces_at_once128 [OF assms] by blast

theorem xxh3_in_pieces_witness:
  "agree (in_pieces (XXH3_64bits_reset (Some zero_state)) (XXH3_64bits_update small_board) (XXH3_64bits_digest small_board) [[0x61], [0x62, 0x63]])
     (XXH3_64bits big_server [0x61, 0x62, 0x63] 3)
   \<and> agree (in_pieces (XXH3_128bits_reset (Some zero_state)) (XXH3_128bits_update big_sve) (XXH3_128bits_digest big_sve) [replicate 200 7, replicate 200 8])
     (XXH3_128bits big_sve (replicate 200 7 @ replicate 200 8) 400)"
  using xxh3_in_pieces [where s = zero_state and parts = "[[0x61], [0x62, 0x63]]" and sz = 192 and sec = XXH3_kSecret and t = small_board
      and u = big_server and seed = 0] xxh3_in_pieces [where s = zero_state and parts = "[replicate 200 7, replicate 200 8]" and sz = 192
      and sec = XXH3_kSecret and t = big_sve and u = big_sve and seed = 0]
  by (simp add: zero_state_ok alike_def numeral_3_eq_3)

text \<open>
  The seed 0 with a secret. With a secret of zeros the two ways to hash the empty input of the 128-bit variant with the
  seed 0 differ; those of the 64-bit variant agree.
\<close>

theorem xxh3_128_zero_seed_differs:
  "in_pieces (XXH3_128bits_reset_withSecretandSeed (Some zero_state) (Some (replicate 136 0)) 136 0) (XXH3_128bits_update t) (XXH3_128bits_digest t) []
     = Inr \<lparr>low64 = 0, high64 = 0\<rparr> \<and>
   XXH3_128bits_withSecretandSeed t [] 0 (replicate 136 0) 136 0 = Inr \<lparr>low64 = 0x6001c324468d497f, high64 = 0x99aa06d3014798d8\<rparr>"
proof
  obtain s where s: "XXH3_128bits_reset_withSecretandSeed (Some zero_state) (Some (replicate 136 0)) 136 0 = Inr (XXH_OK, Some s)"
      "begun s (replicate 136 0) 72 0 True"
    using reset_secret_seed3 [OF zero_state_ok, of 136 "replicate 136 0" 0] by (auto simp: XXH3_128bits_reset_withSecretandSeed_def)
  have z: "word_at (replicate 136 0) i = 0" if "i + 8 \<le> 136" for i using that by (simp add: word_at_def le64_def)
  have "XXH3_128bits_withSecret t [] 0 (replicate 136 0) 136 = Inr \<lparr>low64 = 0, high64 = 0\<rparr>"
    by (simp add: XXH3_128bits_withSecret_def XXH3_128bits_internal_def xxh_sizes XXH3_len_0to16_128b_def readLE64_eq z XXH64_avalanche_def Let_def)
  then show "in_pieces (XXH3_128bits_reset_withSecretandSeed (Some zero_state) (Some (replicate 136 0)) 136 0) (XXH3_128bits_update t)
      (XXH3_128bits_digest t) [] = Inr \<lparr>low64 = 0, high64 = 0\<rparr>"
    using s pieces128 [OF s(2), of "[]" t] by simp
  show "XXH3_128bits_withSecretandSeed t [] 0 (replicate 136 0) 136 0 = Inr \<lparr>low64 = 0x6001c324468d497f, high64 = 0x99aa06d3014798d8\<rparr>"
    using xxh3_empty [of t] internal128_any [of 0 t "[]" 0 XXH3_kSecret 192 "\<lambda>_ _ _ _ _. Inl NullCall" "XXH3_hashLong_128b_default t"] by (simp add: XXH3_128bits_def XXH3_128bits_withSecretandSeed_def xxh_sizes)
qed

text \<open>
  Wrong arguments to a reset. Without a state every reset answers ERROR. With a state but no secret or too short a secret,
  the reset with a secret and a seed answers ERROR and leaves the state alone; the reset with a secret answers ERROR for a missing secret only
  after it has reset the state, and for one that is too short it fails the assertion of XXH3_reset_internal before it can answer.
\<close>

theorem xxh3_reset_errors:
  "XXH3_64bits_reset None = Inr (XXH_ERROR, None) \<and> XXH3_64bits_reset_withSecret None sec sz = Inr (XXH_ERROR, None) \<and>
   XXH3_64bits_reset_withSeed t None seed = Inr (XXH_ERROR, None) \<and>
   XXH3_64bits_reset_withSecretandSeed None sec sz seed = Inr (XXH_ERROR, None) \<and>
   XXH3_64bits_reset_withSecretandSeed (Some s) None sz seed = Inr (XXH_ERROR, Some s) \<and>
   (sz < 136 \<longrightarrow> XXH3_64bits_reset_withSecretandSeed (Some s) sec sz seed = Inr (XXH_ERROR, Some s) \<and>
      XXH3_64bits_reset_withSecret (Some s) sec sz = Inl Unreachable) \<and>
   (136 \<le> sz \<longrightarrow> (\<exists>s'. XXH3_64bits_reset_withSecret (Some s) None sz = Inr (XXH_ERROR, Some s') \<and> totalLen s' = 0 \<and> extSecret s' = None))"
  by (simp add: XXH3_64bits_reset_def XXH3_64bits_reset_withSecret_def XXH3_64bits_reset_withSeed_def XXH3_64bits_reset_withSecretandSeed_def
      XXH3_reset_internal_def xxh_sizes Let_def)

theorem xxh3_reset_errors_witness:
  "XXH3_64bits_reset_withSecret (Some zero_state) (Some [1]) 1 = Inl Unreachable \<and>
   XXH3_64bits_reset_withSecretandSeed (Some zero_state) (Some [1]) 1 0 = Inr (XXH_ERROR, Some zero_state)"
  using xxh3_reset_errors [of "Some [1]" 1 small_board 0 zero_state] by simp

text \<open>
  The secret of a seed next to the seed. With the secret that XXH3_generateSecret_fromSeed writes, hashing with secret and seed is
  hashing with the seed, for both widths, as the header promises.
\<close>

theorem xxh3_secret_of_seed:
  "XXH3_64bits_withSecretandSeed t p len (seeded_secret seed) 192 seed = XXH3_64bits_withSeed t p len seed \<and>
   XXH3_128bits_withSecretandSeed t p len (seeded_secret seed) 192 seed = XXH3_128bits_withSeed t p len seed"
  using at_once64(2,4) [of t p len] at_once128(2,4) [of t p len] by metis

end
