(* ===== verification/XXH_Alloc.thy ===== *)
theory XXH_Alloc
  imports XXH3_Stream
begin

unbundle bit_operations_syntax

section \<open>Aligned memory for a state\<close>

text \<open>
  \<open>XXH_alignedMalloc\<close> takes more memory than it is asked for, moves the start up to a multiple of the alignment and keeps the distance in
  the byte before it; \<open>XXH_alignedFree\<close> finds the start with that byte.  Addresses and sizes are machine words, memory is a map from addresses to bytes.
  \<open>malloc\<close> is a parameter.
\<close>

type_synonym address = "64 word"

definition XXH_alignedMalloc ::
  "(address \<Rightarrow> address option) \<Rightarrow> (address \<Rightarrow> 8 word) \<Rightarrow> address \<Rightarrow> address \<Rightarrow> (address option \<times> (address \<Rightarrow> 8 word)) res" where
  "XXH_alignedMalloc malloc mem s align =
     (if \<not> (align \<le> 128 \<and> align \<ge> 8) then Inl Unreachable
      else if align AND (align - 1) \<noteq> 0 then Inl Unreachable
      else if \<not> (s \<noteq> 0 \<and> s < s + align) then Inl Unreachable
      else case malloc (s + align) of None \<Rightarrow> Inr (None, mem)
        | Some base \<Rightarrow>
          let offset = align - (base AND (align - 1)); ptr = base + offset in
          if ptr mod align \<noteq> 0 then Inl Unreachable
          else Inr (Some ptr, mem(ptr - 1 := ucast offset)))"

text \<open>The pointer that goes to \<open>XXH_free\<close>.\<close>

definition XXH_alignedFree :: "(address \<Rightarrow> 8 word) \<Rightarrow> address option \<Rightarrow> address option" where
  "XXH_alignedFree mem p = (case p of None \<Rightarrow> None | Some ptr \<Rightarrow> let offset = mem (ptr - 1) in Some (ptr - ucast offset))"

definition XXH3_freeState :: "(address \<Rightarrow> 8 word) \<Rightarrow> address option \<Rightarrow> XXH_errorcode \<times> address option" where
  "XXH3_freeState mem statePtr = (XXH_OK, XXH_alignedFree mem statePtr)"

lemma powers: "8 \<le> a \<Longrightarrow> a \<le> 128 \<Longrightarrow> a AND (a - 1) = 0 \<Longrightarrow> \<exists>k. a = 2 ^ k \<and> 3 \<le> k \<and> k \<le> 7" for a :: address
proof -
  assume a: "8 \<le> a" "a \<le> 128" "a AND (a - 1) = 0"
  have all: "\<forall>n \<in> set [8..<129]. (of_nat n :: address) AND (of_nat n - 1) = 0 \<longrightarrow> n = 8 \<or> n = 16 \<or> n = 32 \<or> n = 64 \<or> n = 128"
    by code_simp
  have "8 \<le> unat a" "unat a \<le> 128" using a(1,2) by (simp_all add: word_le_nat_alt)
  then have "unat a \<in> set [8..<129]" by (simp only: set_upt atLeastLessThan_iff) simp
  then have "unat a = 8 \<or> unat a = 16 \<or> unat a = 32 \<or> unat a = 64 \<or> unat a = 128" using all [rule_format, of "unat a"] a(3) by simp
  then have "a = 2 ^ 3 \<or> a = 2 ^ 4 \<or> a = 2 ^ 5 \<or> a = 2 ^ 6 \<or> a = 2 ^ 7" by (auto simp: word_unat_eq_iff)
  moreover have "3 \<le> (3 :: nat)" "3 \<le> (4 :: nat)" "3 \<le> (5 :: nat)" "3 \<le> (6 :: nat)" "3 \<le> (7 :: nat)" "(6 :: nat) \<le> 7" "(5 :: nat) \<le> 7"
      "(4 :: nat) \<le> 7" "(3 :: nat) \<le> 7" by simp_all
  ultimately show ?thesis by blast
qed

lemma offset_bounds:
  fixes base align :: address
  assumes "8 \<le> align" "align \<le> 128" "align AND (align - 1) = 0"
  defines "offset \<equiv> align - (base AND (align - 1))"
  shows "1 \<le> unat offset" "unat offset \<le> unat align" "unat align \<le> 128" "(unat base + unat offset) mod unat align = 0"
proof -
  obtain k where k: "align = 2 ^ k" "3 \<le> k" "k \<le> 7" using powers [OF assms(1-3)] by blast
  have "(2 :: nat) ^ k \<le> 2 ^ 7" using k(3) by (intro power_increasing) simp_all
  moreover have "k = 3 \<or> k = 4 \<or> k = 5 \<or> k = 6 \<or> k = 7" using k(2,3) by arith
  ultimately have u: "unat align = 2 ^ k" "(2 :: nat) ^ k \<le> 128" using k by auto
  have "align - 1 = mask k" by (simp add: k mask_eq_exp_minus_1)
  then have "unat (base AND (align - 1)) = unat base mod 2 ^ k"
    by (simp only: take_bit_eq_mask [symmetric] unsigned_take_bit_eq) (simp add: take_bit_eq_mod)
  moreover have "unat base mod 2 ^ k < 2 ^ k" by simp
  ultimately have o: "unat offset = 2 ^ k - unat base mod 2 ^ k"
    unfolding offset_def using u(1) by (subst unat_sub) (simp_all add: word_le_nat_alt)
  then show "1 \<le> unat offset" "unat offset \<le> unat align" "unat align \<le> 128" using u by (simp_all add: Suc_le_eq)
  have "unat base = 2 ^ k * (unat base div 2 ^ k) + unat base mod 2 ^ k" "unat base mod 2 ^ k < 2 ^ k" by simp_all
  then have "unat base + (2 ^ k - unat base mod 2 ^ k) = 2 ^ k * (unat base div 2 ^ k) + 2 ^ k" by linarith
  then show "(unat base + unat offset) mod unat align = 0" by (simp add: o u(1))
qed

text \<open>
  Aligned memory and back. With any allocator whose blocks do not wrap around the address space, XXH_alignedMalloc with an alignment
  that is a power of two from 8 to 128 answers NULL exactly when the allocator does; otherwise the pointer is a multiple of the alignment, the bytes
  asked for and the byte before them lie in the allocated block, only this byte is written, and XXH_alignedFree gives the allocator back the pointer
  it came from, whatever is written to the bytes asked for in the meantime.
\<close>

theorem aligned_malloc_free:
  assumes align: "8 \<le> align" "align \<le> 128" "align AND (align - 1) = 0" and s: "s \<noteq> 0" "unat s + unat align < 2 ^ 64"
    and malloc: "\<And>n base. malloc n = Some base \<Longrightarrow> unat base + unat n < 2 ^ 64"
  shows "case malloc (s + align) of
      None \<Rightarrow> XXH_alignedMalloc malloc mem s align = Inr (None, mem)
    | Some base \<Rightarrow> \<exists>ptr mem'. XXH_alignedMalloc malloc mem s align = Inr (Some ptr, mem') \<and> ptr mod align = 0 \<and>
        unat base \<le> unat (ptr - 1) \<and> unat (ptr - 1) + 1 = unat ptr \<and> unat ptr + unat s \<le> unat base + unat (s + align) \<and>
        (\<forall>a. a \<noteq> ptr - 1 \<longrightarrow> mem' a = mem a) \<and>
        (\<forall>mem''. mem'' (ptr - 1) = mem' (ptr - 1) \<longrightarrow> XXH_alignedFree mem'' (Some ptr) = Some base)"
proof -
  have sum: "unat (s + align) = unat s + unat align" using s(2) by (simp add: unat_word_ariths)
  have a0: "0 < unat align" using align(1) by (simp add: word_le_nat_alt)
  have ok: "s < s + align" using a0 by (simp add: word_less_nat_alt sum)
  show ?thesis
  proof (cases "malloc (s + align)")
    case None
    then show ?thesis using align s ok by (simp add: XXH_alignedMalloc_def)
  next
    case (Some base)
    define offset where "offset = align - (base AND (align - 1))"
    have o: "1 \<le> unat offset" "unat offset \<le> unat align" "unat align \<le> 128" "(unat base + unat offset) mod unat align = 0"
      unfolding offset_def using align by (rule offset_bounds)+
    define ptr where "ptr = base + offset"
    have room: "unat base + unat s + unat align < 2 ^ 64" using malloc [OF Some] by (simp add: sum)
    then have p: "unat ptr = unat base + unat offset" using o(2) s(1) by (simp add: ptr_def unat_word_ariths)
    have m: "ptr mod align = 0" using o(4) by (simp only: word_unat_eq_iff unat_mod_distrib p unsigned_0)
    have "1 \<le> ptr" using o(1) by (simp add: word_le_nat_alt p)
    then have q: "unat (ptr - 1) = unat ptr - 1" by (simp add: unat_sub)
    have "unat (ucast (ucast offset :: 8 word) :: 64 word) = unat offset" using o(2,3) by (simp add: unat_ucast_mod)
    then have same: "ucast (ucast offset :: 8 word) = offset" by (simp only: word_unat_eq_iff)
    have r: "XXH_alignedMalloc malloc mem s align = Inr (Some ptr, mem(ptr - 1 := ucast offset))"
      using align s ok Some m by (simp add: XXH_alignedMalloc_def Let_def offset_def ptr_def)
    have f: "XXH_alignedFree mem'' (Some ptr) = Some base" if "mem'' (ptr - 1) = ucast offset" for mem''
      using that by (simp add: XXH_alignedFree_def Let_def same) (simp add: ptr_def)
    have b: "unat base \<le> unat (ptr - 1)" "unat (ptr - 1) + 1 = unat ptr" "unat ptr + unat s \<le> unat base + unat (s + align)"
      using o(1,2) by (simp_all add: q p sum)
    show ?thesis unfolding Some option.case
      by (rule exI [of _ ptr], rule exI [of _ "mem(ptr - 1 := ucast offset)"]) (use r m b f in simp)
  qed
qed

text \<open>An allocator that always answers the address 4096 + 8 for small blocks.\<close>

theorem aligned_malloc_free_witness:
  "\<exists>ptr mem'. XXH_alignedMalloc (\<lambda>n. if n \<le> 4096 then Some 4104 else None) (\<lambda>_. 0) 576 64 = Inr (Some ptr, mem') \<and> ptr mod 64 = 0 \<and>
     XXH_alignedFree mem' (Some ptr) = Some 4104"
proof -
  have "unat (4104 :: address) + unat n < 2 ^ 64" if "n \<le> 4096" for n :: address
    using that by (simp add: word_le_nat_alt)
  note bound = this
  let ?malloc = "\<lambda>n :: address. if n \<le> 4096 then Some 4104 else None :: address option"
  have "case ?malloc (576 + 64) of
      None \<Rightarrow> XXH_alignedMalloc ?malloc (\<lambda>_. 0) 576 64 = Inr (None, \<lambda>_. 0)
    | Some base \<Rightarrow> \<exists>ptr mem'. XXH_alignedMalloc ?malloc (\<lambda>_. 0) 576 64 = Inr (Some ptr, mem') \<and> ptr mod 64 = 0 \<and>
        unat base \<le> unat (ptr - 1) \<and> unat (ptr - 1) + 1 = unat ptr \<and> unat ptr + unat (576 :: address) \<le> unat base + unat (576 + 64 :: address) \<and>
        (\<forall>a. a \<noteq> ptr - 1 \<longrightarrow> mem' a = (\<lambda>_. 0) a) \<and>
        (\<forall>mem''. mem'' (ptr - 1) = mem' (ptr - 1) \<longrightarrow> XXH_alignedFree mem'' (Some ptr) = Some base)"
    by (rule aligned_malloc_free [where malloc = ?malloc and mem = "\<lambda>_. 0" and s = 576 and align = 64]) (use bound in \<open>simp_all split: if_splits\<close>)
  moreover have "?malloc (576 + 64) = Some 4104" by simp
  ultimately have "\<exists>ptr mem'. XXH_alignedMalloc ?malloc (\<lambda>_. 0) 576 64 = Inr (Some ptr, mem') \<and> ptr mod 64 = 0 \<and>
      (\<forall>mem''. mem'' (ptr - 1) = mem' (ptr - 1) \<longrightarrow> XXH_alignedFree mem'' (Some ptr) = Some 4104)"
    by (simp only: option.case) (elim exE conjE, intro exI conjI)
  then obtain ptr mem' where r: "XXH_alignedMalloc ?malloc (\<lambda>_. 0) 576 64 = Inr (Some ptr, mem')" "ptr mod 64 = 0"
      "\<forall>mem''. mem'' (ptr - 1) = mem' (ptr - 1) \<longrightarrow> XXH_alignedFree mem'' (Some ptr) = Some 4104" by (elim exE conjE)
  show ?thesis by (rule exI [of _ ptr], rule exI [of _ mem'], intro conjI r(1,2) r(3) [rule_format] refl)
qed

end
