(* ===== verification/XXH_States.thy ===== *)
theory XXH_States
  imports XXH32 XXH64
begin

section \<open>States on the heap\<close>

text \<open>
  Creating, copying and freeing the states of XXH32 and XXH64.  A heap of states is a map from addresses; a freed address has no entry.  What a new state holds is
  a parameter, and none when there is no memory; with \<open>XXH_NO_STDLIB\<close> there never is.
\<close>

record 's state_heap =
  cells :: "nat \<rightharpoonup> 's"
  next_cell :: nat

definition XXH_malloc :: "'s option \<Rightarrow> 's state_heap \<Rightarrow> nat option \<times> 's state_heap" where
  "XXH_malloc garbage h = (case garbage of None \<Rightarrow> (None, h)
     | Some s \<Rightarrow> (Some (next_cell h), h\<lparr>cells := (cells h)(next_cell h \<mapsto> s), next_cell := next_cell h + 1\<rparr>))"

definition XXH_free :: "nat option \<Rightarrow> 's state_heap \<Rightarrow> 's state_heap res" where
  "XXH_free p h = (case p of None \<Rightarrow> Inr h
     | Some a \<Rightarrow> if cells h a = None then Inl BadPointer else Inr (h\<lparr>cells := (cells h)(a := None)\<rparr>))"

definition XXH32_createState :: "XXH32_state_t option \<Rightarrow> XXH32_state_t state_heap \<Rightarrow> nat option \<times> XXH32_state_t state_heap" where
  "XXH32_createState garbage h = XXH_malloc garbage h"

definition XXH32_freeState :: "nat option \<Rightarrow> XXH32_state_t state_heap \<Rightarrow> (XXH_errorcode \<times> XXH32_state_t state_heap) res" where
  "XXH32_freeState statePtr h = andthen (XXH_free statePtr h) (\<lambda>h. Inr (XXH_OK, h))"

definition memcpy_state :: "nat option \<Rightarrow> nat option \<Rightarrow> 's state_heap \<Rightarrow> 's state_heap res" where
  "memcpy_state dst src h = andthen (deref (cells h) src) (\<lambda>s. andthen (deref (cells h) dst) (\<lambda>_. Inr (h\<lparr>cells := (cells h)(the dst \<mapsto> s)\<rparr>)))"

definition XXH32_copyState :: "nat option \<Rightarrow> nat option \<Rightarrow> XXH32_state_t state_heap \<Rightarrow> XXH32_state_t state_heap res" where
  "XXH32_copyState dstState srcState h = memcpy_state dstState srcState h"

definition XXH64_createState :: "XXH64_state_t option \<Rightarrow> XXH64_state_t state_heap \<Rightarrow> nat option \<times> XXH64_state_t state_heap" where
  "XXH64_createState garbage h = XXH_malloc garbage h"

definition XXH64_freeState :: "nat option \<Rightarrow> XXH64_state_t state_heap \<Rightarrow> (XXH_errorcode \<times> XXH64_state_t state_heap) res" where
  "XXH64_freeState statePtr h = andthen (XXH_free statePtr h) (\<lambda>h. Inr (XXH_OK, h))"

definition XXH64_copyState :: "nat option \<Rightarrow> nat option \<Rightarrow> XXH64_state_t state_heap \<Rightarrow> XXH64_state_t state_heap res" where
  "XXH64_copyState dstState srcState h = memcpy_state dstState srcState h"

lemmas state_functions = XXH32_createState_def XXH32_freeState_def XXH32_copyState_def XXH64_createState_def XXH64_freeState_def XXH64_copyState_def

subsection \<open>Two streams with a common start\<close>

text \<open>An operation on the state at an address.\<close>

definition state_at :: "('s \<Rightarrow> 's res) \<Rightarrow> nat option \<Rightarrow> 's state_heap \<Rightarrow> 's state_heap res" where
  "state_at f p h = andthen (deref (cells h) p) (\<lambda>s. andthen (f s) (\<lambda>s. Inr (h\<lparr>cells := (cells h)(the p \<mapsto> s)\<rparr>)))"

text \<open>
  The use that copying is there for: a first stream reads \<open>xs\<close> and is copied, then the two go on with \<open>ys\<close> and with \<open>zs\<close>, and both are freed.  The functions
  of the state are arguments.
\<close>

definition fork_stream ::
  "('s state_heap \<Rightarrow> nat option \<times> 's state_heap) \<Rightarrow> (nat option \<Rightarrow> nat option \<Rightarrow> 's state_heap \<Rightarrow> 's state_heap res) \<Rightarrow>
   (nat option \<Rightarrow> 's state_heap \<Rightarrow> (XXH_errorcode \<times> 's state_heap) res) \<Rightarrow> 's \<Rightarrow> (8 word list list \<Rightarrow> 's \<Rightarrow> 's res) \<Rightarrow> ('s \<Rightarrow> 'h res) \<Rightarrow>
   8 word list list \<Rightarrow> 8 word list list \<Rightarrow> 8 word list list \<Rightarrow> 's state_heap \<Rightarrow> ('h \<times> 'h \<times> 's state_heap) res" where
  "fork_stream create copy free start feed digest xs ys zs h =
     (case create h of (p, h) \<Rightarrow>
      andthen (state_at (\<lambda>_. Inr start) p h) (\<lambda>h. andthen (state_at (feed xs) p h) (\<lambda>h.
      case create h of (q, h) \<Rightarrow>
      andthen (copy q p h) (\<lambda>h. andthen (state_at (feed ys) p h) (\<lambda>h. andthen (state_at (feed zs) q h) (\<lambda>h.
      andthen (andthen (deref (cells h) p) digest) (\<lambda>d. andthen (andthen (deref (cells h) q) digest) (\<lambda>d'.
      andthen (free p h) (\<lambda>(_, h). andthen (free q h) (\<lambda>(_, h). Inr (d, d', h)))))))))))"

locale hash_state =
  fixes holds :: "8 word list \<Rightarrow> 's \<Rightarrow> bool" and start :: 's and feed :: "8 word list list \<Rightarrow> 's \<Rightarrow> 's res" and digest :: "'s \<Rightarrow> 'h res"
    and val :: "8 word list \<Rightarrow> 'h" and fits :: "8 word list \<Rightarrow> bool"
  assumes holds_start: "holds [] start"
    and holds_feed: "holds bs s \<Longrightarrow> \<exists>s'. feed ps s = Inr s' \<and> holds (bs @ concat ps) s'"
    and holds_digest: "holds bs s \<Longrightarrow> fits bs \<Longrightarrow> digest s = Inr (val bs)"
begin

lemma forked:
  assumes "\<And>a. next_cell h \<le> a \<Longrightarrow> cells h a = None" "fits (concat xs @ concat ys)" "fits (concat xs @ concat zs)"
  shows "\<exists>h'. fork_stream (XXH_malloc (Some g)) memcpy_state (\<lambda>p h. andthen (XXH_free p h) (\<lambda>h. Inr (XXH_OK, h))) start feed digest xs ys zs h
      = Inr (val (concat xs @ concat ys), val (concat xs @ concat zs), h') \<and> cells h' = cells h"
proof -
  obtain s where s: "feed xs start = Inr s" "holds (concat xs) s" using holds_feed [OF holds_start, of xs] by auto
  obtain y where y: "feed ys s = Inr y" "holds (concat xs @ concat ys) y" using holds_feed [OF s(2), of ys] by auto
  obtain z where z: "feed zs s = Inr z" "holds (concat xs @ concat zs) z" using holds_feed [OF s(2), of zs] by auto
  have free: "cells h (next_cell h) = None" "cells h (Suc (next_cell h)) = None" using assms(1) by simp_all
  show ?thesis
    by (simp add: fork_stream_def XXH_malloc_def XXH_free_def memcpy_state_def state_at_def s(1) y(1) z(1) holds_digest [OF y(2) assms(2)]
        holds_digest [OF z(2) assms(3)] fun_upd_twist fun_upd_idem free)
qed

end

interpretation state32: hash_state "holds32 seed" "snd (XXH32_reset seed)" "XXH32_feed t" "XXH32_digest t k" "xxh32_value seed" "\<lambda>bs. True"
  for t :: xxh_target and k seed
  by unfold_locales (use reset32 feed32 digest32 in auto)

interpretation state64: hash_state "holds64 seed" "snd (XXH64_reset seed)" "XXH64_feed t" "XXH64_digest t" "xxh64_value seed" "\<lambda>bs. length bs < 2 ^ 64"
  for t :: xxh_target and seed
  by unfold_locales (use reset64 feed64 digest64 in auto)

text \<open>
  Property: two streams with a common start, on the heap, with XXH32 and with XXH64. Each digest is the hash of all that its own stream has read, what one
  reads after the copy does not reach the other, and the heap is left as it was.
\<close>

theorem xxh_states_fork:
  assumes "\<And>a. next_cell h \<le> a \<Longrightarrow> cells h a = None" "\<And>a. next_cell h' \<le> a \<Longrightarrow> cells h' a = None"
    and "length (concat (xs @ ys)) < 2 ^ 64" "length (concat (xs @ zs)) < 2 ^ 64"
  shows "(\<exists>r. fork_stream (XXH32_createState (Some g)) XXH32_copyState XXH32_freeState (snd (XXH32_reset seed)) (XXH32_feed t) (XXH32_digest t k) xs ys zs h
      = Inr (xxh32_value seed (concat (xs @ ys)), xxh32_value seed (concat (xs @ zs)), r) \<and> cells r = cells h)
    \<and> (\<exists>r. fork_stream (XXH64_createState (Some g')) XXH64_copyState XXH64_freeState (snd (XXH64_reset seed')) (XXH64_feed t) (XXH64_digest t) xs ys zs h'
      = Inr (xxh64_value seed' (concat (xs @ ys)), xxh64_value seed' (concat (xs @ zs)), r) \<and> cells r = cells h')"
proof -
  have f: "XXH32_createState (Some g) = XXH_malloc (Some g)" "XXH64_createState (Some g') = XXH_malloc (Some g')" "XXH32_copyState = memcpy_state"
    "XXH64_copyState = memcpy_state" "XXH32_freeState = (\<lambda>p h. andthen (XXH_free p h) (\<lambda>h. Inr (XXH_OK, h)))"
    "XXH64_freeState = (\<lambda>p h. andthen (XXH_free p h) (\<lambda>h. Inr (XXH_OK, h)))"
    by (simp_all add: state_functions fun_eq_iff)
  show ?thesis
    unfolding f using state32.forked [OF assms(1), where xs = xs and ys = ys and zs = zs and g = g and t = t and k = k and seed = seed]
      state64.forked [OF assms(2), where xs = xs and ys = ys and zs = zs and g = g' and t = t and seed = seed'] assms(3,4) by simp
qed

end
