(* ===== verification/Examples.thy ===== *)
theory Examples
  imports C_Strings
begin

section \<open>The example applications\<close>

text \<open>
  The four programs under \<open>examples/microros/app\<close>: talker, listener, client and server.  They are written against rcl and rclc, which are not in the
  repository: every call is recorded, and its status is a parameter that may depend on all calls before it.  The executor is a list of events, for each
  of which it runs the callback.  What the programs print is recorded too; the line that \<open>__LINE__\<close> gives for a call over several lines is up to the
  compiler and therefore a parameter.
\<close>

subsection \<open>Calls\<close>

datatype rclc_call =
    Support_Init
  | Init_Options_Init
  | Init_Options_Set_Domain_Id nat
  | Support_Init_With_Options
  | Node_Init string
  | Publisher_Init string
  | Subscription_Init string
  | Client_Init string
  | Service_Init string
  | Timer_Init nat
  | Executor_Init nat
  | Executor_Add_Timer
  | Executor_Add_Subscription
  | Executor_Add_Client
  | Executor_Add_Service
  | Executor_Spin
  | Rcl_Publish string
  | Rcl_Send_Request int int
  | Publisher_Fini
  | Subscription_Fini
  | Client_Fini
  | Service_Fini
  | Node_Fini

text \<open>\<open>fixed_domain\<close> is the switch \<open>USE_ROS_DOMAIN_ID\<close>, \<open>domain_variable\<close> the environment variable, \<open>long_width\<close> the width of \<open>long\<close>
  and of \<open>size_t\<close>.\<close>

record rcl_env =
  rcl_status :: "rclc_call list \<Rightarrow> rclc_call \<Rightarrow> int"
  line_of_call :: "rclc_call \<Rightarrow> nat"
  fixed_domain :: bool
  domain_variable :: "string option"
  long_width :: nat
  malloc_succeeds :: bool

record ros_app =
  calls_made :: "rclc_call list"
  lines_printed :: "string list"

definition rcl_call :: "rcl_env \<Rightarrow> rclc_call \<Rightarrow> 'a ros_app_scheme \<Rightarrow> int \<times> 'a ros_app_scheme" where
  "rcl_call e c a = (rcl_status e (calls_made a) c, a\<lparr>calls_made := calls_made a @ [c]\<rparr>)"

definition print_line :: "string \<Rightarrow> 'a ros_app_scheme \<Rightarrow> 'a ros_app_scheme" where
  "print_line s a = a\<lparr>lines_printed := lines_printed a @ [s]\<rparr>"

definition failed_line :: "rcl_env \<Rightarrow> rclc_call \<Rightarrow> int \<Rightarrow> string \<Rightarrow> string" where
  "failed_line e c rc what = ''Failed status on line '' @ show_nat (line_of_call e c) @ '': '' @ show_int rc @ ''. '' @ what @ ''.\<newline>''"

text \<open>A program ends with an exit code and the state it leaves.\<close>

type_synonym 'a exits = "(int \<times> 'a) res"

definition RCCHECK :: "rcl_env \<Rightarrow> rclc_call \<Rightarrow> ('a ros_app_scheme \<Rightarrow> 'a ros_app_scheme exits) \<Rightarrow> 'a ros_app_scheme \<Rightarrow> 'a ros_app_scheme exits" where
  "RCCHECK e c k a =
     (case rcl_call e c a of (temp_rc, a) \<Rightarrow> if temp_rc \<noteq> 0 then Inr (1, print_line (failed_line e c temp_rc ''Aborting'') a) else k a)"

definition RCSOFTCHECK :: "rcl_env \<Rightarrow> rclc_call \<Rightarrow> 'a ros_app_scheme \<Rightarrow> 'a ros_app_scheme" where
  "RCSOFTCHECK e c a =
     (case rcl_call e c a of (temp_rc, a) \<Rightarrow> if temp_rc \<noteq> 0 then print_line (failed_line e c temp_rc ''Continuing'') a else a)"

subsection \<open>The domain\<close>

text \<open>
  \<open>strtol\<close> with base 10: white space, a sign, digits; the value is cut to the range of \<open>long\<close>, and the end pointer, which is never null, points behind
  the digits, or to the start when there are none.
\<close>

definition isspace :: "char \<Rightarrow> bool" where
  "isspace c \<longleftrightarrow> (of_char c :: nat) \<in> {9, 10, 11, 12, 13, 32}"

definition strtol :: "nat \<Rightarrow> string \<Rightarrow> int \<times> string option" where
  "strtol width s =
     (let t = dropWhile isspace (cstr s);
          (minus, t) = (case t of c # r \<Rightarrow> if c = CHR ''-'' then (True, r) else if c = CHR ''+'' then (False, r) else (False, t) | [] \<Rightarrow> (False, t));
          digits = takeWhile decimal_char t;
          v = (if minus then - int (read_nat digits) else int (read_nat digits))
      in (max (- (2 ^ (width - 1))) (min (2 ^ (width - 1) - 1) v), Some (if digits = [] then cstr s else dropWhile decimal_char t)))"

text \<open>The conversion of \<open>long\<close> to \<open>int\<close>, and of \<open>int\<close> to \<open>size_t\<close>, the type of a domain.\<close>

definition long_to_int :: "int \<Rightarrow> int" where
  "long_to_int v = (v + 2 ^ 31) mod 2 ^ 32 - 2 ^ 31"

definition int_to_domain :: "nat \<Rightarrow> int \<Rightarrow> nat" where
  "int_to_domain width v = nat (v mod 2 ^ width)"

definition ROS_DOMAIN_ID :: nat where "ROS_DOMAIN_ID = 64"

text \<open>All four programs have this text between the first initialisation and the node.\<close>

definition set_domain :: "rcl_env \<Rightarrow> ('a ros_app_scheme \<Rightarrow> 'a ros_app_scheme exits) \<Rightarrow> 'a ros_app_scheme \<Rightarrow> 'a ros_app_scheme exits" where
  "set_domain e k =
     (if fixed_domain e
      then RCCHECK e Init_Options_Init (RCCHECK e (Init_Options_Set_Domain_Id ROS_DOMAIN_ID) (RCCHECK e Support_Init_With_Options k))
      else case domain_variable e of None \<Rightarrow> k
        | Some domain_id_ptr \<Rightarrow>
          (case strtol (long_width e) domain_id_ptr of (v, endl) \<Rightarrow>
            let domain_id = long_to_int v in
            if endl \<noteq> None
            then RCCHECK e Init_Options_Init (RCCHECK e (Init_Options_Set_Domain_Id (int_to_domain (long_width e) domain_id))
                   (RCCHECK e Support_Init_With_Options k))
            else k))"

subsection \<open>Events\<close>

primrec spin :: "('ev \<Rightarrow> 'a ros_app_scheme \<Rightarrow> 'a ros_app_scheme res) \<Rightarrow> 'ev list \<Rightarrow> 'a ros_app_scheme \<Rightarrow> 'a ros_app_scheme res" where
  "spin f [] a = Inr a"
| "spin f (ev # evs) a = andthen (f ev a) (spin f evs)"

definition rclc_executor_spin ::
  "rcl_env \<Rightarrow> ('ev \<Rightarrow> 'a ros_app_scheme \<Rightarrow> 'a ros_app_scheme res) \<Rightarrow> 'ev list \<Rightarrow> ('a ros_app_scheme \<Rightarrow> 'a ros_app_scheme exits) \<Rightarrow>
    'a ros_app_scheme \<Rightarrow> 'a ros_app_scheme exits" where
  "rclc_executor_spin e f evs k a = (case rcl_call e Executor_Spin a of (_, a) \<Rightarrow> andthen (spin f evs a) k)"

subsection \<open>Talker\<close>

definition ARRAY_LEN :: nat where "ARRAY_LEN = 200"

text \<open>The global message \<open>msg\<close> of talker and listener: a buffer that may be null, a size and a capacity.  Its memory is zero here; nothing reads it before
  it is written.\<close>

record text_app = ros_app +
  msg_data :: "string option"
  msg_size :: nat
  msg_capacity :: nat

definition allocate_text :: "rcl_env \<Rightarrow> 'a text_app_scheme \<Rightarrow> 'a text_app_scheme" where
  "allocate_text e a =
     (let a = a\<lparr>msg_data := if malloc_succeeds e then Some (replicate ARRAY_LEN NUL) else None\<rparr>; a = a\<lparr>msg_size := 0\<rparr>
      in a\<lparr>msg_capacity := ARRAY_LEN\<rparr>)"

text \<open>A timer event tells whether the timer is not null.\<close>

record talker_app = text_app +
  talk_counter :: int

definition talker_timer_callback :: "rcl_env \<Rightarrow> bool \<Rightarrow> 'a talker_app_scheme \<Rightarrow> 'a talker_app_scheme res" where
  "talker_timer_callback e timer a =
     (if \<not> timer then Inr a
      else case msg_data a of None \<Rightarrow> Inl NullDeref
        | Some buf \<Rightarrow>
          let text = ''Hello World: '' @ show_int (talk_counter a) in
          if talk_counter a = 2 ^ 31 - 1 then Inl Overflow
          else if length text + 1 > length buf then Inl OutOfBounds
          else let buf = text @ [NUL] @ drop (length text + 1) buf;
                   a = a\<lparr>talk_counter := talk_counter a + 1, msg_data := Some buf\<rparr>;
                   a = a\<lparr>msg_size := length (cstr buf)\<rparr>;
                   a = RCSOFTCHECK e (Rcl_Publish (take (msg_size a) buf)) a
               in Inr (print_line (''I have publish: '' @ [CHR 0x22] @ cstr buf @ [CHR 0x22] @ ''\<newline>'') a))"

definition talker_main :: "rcl_env \<Rightarrow> bool list \<Rightarrow> 'a talker_app_scheme \<Rightarrow> 'a talker_app_scheme exits" where
  "talker_main e fires =
     RCCHECK e Support_Init (set_domain e
     (RCCHECK e (Node_Init ''talker_node'')
     (RCCHECK e (Publisher_Init ''/chatter'')
     (RCCHECK e (Timer_Init (1000 * 1000000)) (\<lambda>a.
       RCCHECK e (Executor_Init 1)
       (RCCHECK e Executor_Add_Timer
       (rclc_executor_spin e (talker_timer_callback e) fires
       (RCCHECK e Publisher_Fini
       (RCCHECK e Node_Fini (\<lambda>a. Inr (0, a)))))) (allocate_text e a))))))"

subsection \<open>Listener\<close>

text \<open>An event is what the executor leaves in the message when it has taken one: its buffer, or none when the message has no buffer.\<close>

definition subscription_callback :: "'a text_app_scheme \<Rightarrow> 'a text_app_scheme res" where
  "subscription_callback a =
     (case msg_data a of None \<Rightarrow> Inl NullDeref
      | Some buf \<Rightarrow> Inr (print_line (''I have heard: '' @ [CHR 0x22] @ cstr buf @ [CHR 0x22] @ ''\<newline>'') a))"

definition listener_main :: "rcl_env \<Rightarrow> string option list \<Rightarrow> 'a text_app_scheme \<Rightarrow> 'a text_app_scheme exits" where
  "listener_main e heard =
     RCCHECK e Support_Init (set_domain e
     (RCCHECK e (Node_Init ''listener_node'')
     (RCCHECK e (Subscription_Init ''chatter'')
     (RCCHECK e (Executor_Init 1)
     (RCCHECK e Executor_Add_Subscription (\<lambda>a.
       rclc_executor_spin e (\<lambda>buf a. subscription_callback (a\<lparr>msg_data := buf\<rparr>)) heard
       (RCCHECK e Subscription_Fini
       (RCCHECK e Node_Fini (\<lambda>a. Inr (0, a)))) (allocate_text e a)))))))"

subsection \<open>Client\<close>

text \<open>The global request and the static counter of the timer callback.\<close>

record client_app = ros_app +
  req_a :: int
  req_b :: int
  next_val :: int

datatype client_event = Client_Timer bool | Client_Response int

definition client_callback :: "int \<Rightarrow> 'a client_app_scheme \<Rightarrow> 'a client_app_scheme" where
  "client_callback answer a =
     print_line (''Result of add_two_ints: '' @ show_int (req_a a) @ '' + '' @ show_int (req_b a) @ '' = '' @ show_int answer @ ''\<newline>'') a"

definition client_timer_callback :: "rcl_env \<Rightarrow> bool \<Rightarrow> 'a client_app_scheme \<Rightarrow> 'a client_app_scheme res" where
  "client_timer_callback e timer a =
     (if \<not> timer then Inr a
      else let a = a\<lparr>req_a := next_val a\<rparr>; a = a\<lparr>req_b := next_val a\<rparr>; a = RCSOFTCHECK e (Rcl_Send_Request (req_a a) (req_b a)) a in
        if next_val a = 2 ^ 63 - 1 then Inl Overflow else Inr (a\<lparr>next_val := next_val a + 1\<rparr>))"

definition client_handle :: "rcl_env \<Rightarrow> client_event \<Rightarrow> 'a client_app_scheme \<Rightarrow> 'a client_app_scheme res" where
  "client_handle e ev a = (case ev of Client_Timer t \<Rightarrow> client_timer_callback e t a | Client_Response answer \<Rightarrow> Inr (client_callback answer a))"

definition client_main :: "rcl_env \<Rightarrow> client_event list \<Rightarrow> 'a client_app_scheme \<Rightarrow> 'a client_app_scheme exits" where
  "client_main e evs =
     RCCHECK e Support_Init (set_domain e
     (RCCHECK e (Node_Init ''add_two_ints_client_rclc'')
     (RCCHECK e (Client_Init ''add_two_ints'')
     (RCCHECK e (Executor_Init 2)
     (RCCHECK e Executor_Add_Client (\<lambda>a.
       let a = a\<lparr>req_a := 0, req_b := 0\<rparr> in
       RCCHECK e (Timer_Init (1000 * 1000000))
       (RCCHECK e Executor_Add_Timer
       (rclc_executor_spin e (client_handle e) evs
       (RCCHECK e Client_Fini
       (RCCHECK e Node_Fini (\<lambda>a. Inr (0, a)))))) a))))))"

subsection \<open>Server\<close>

text \<open>An event is a request; the sums go to the executor, which sends them.\<close>

record server_app = ros_app +
  sums_answered :: "int list"

definition service_callback :: "int \<times> int \<Rightarrow> 'a server_app_scheme \<Rightarrow> 'a server_app_scheme res" where
  "service_callback req a =
     (case req of (x, y) \<Rightarrow>
        let answer = x + y in
        if \<not> (- (2 ^ 63) \<le> answer \<and> answer < 2 ^ 63) then Inl Overflow
        else Inr (print_line (''Incoming request [a:'' @ show_int x @ '' + b:'' @ show_int y @ ''] => '' @ show_int answer @ ''\<newline>'')
          (a\<lparr>sums_answered := sums_answered a @ [answer]\<rparr>)))"

definition server_main :: "rcl_env \<Rightarrow> (int \<times> int) list \<Rightarrow> 'a server_app_scheme \<Rightarrow> 'a server_app_scheme exits" where
  "server_main e requests =
     RCCHECK e Support_Init (set_domain e
     (RCCHECK e (Node_Init ''add_two_ints_server_rclc'')
     (RCCHECK e (Service_Init ''add_two_ints'')
     (RCCHECK e (Executor_Init 1)
     (RCCHECK e Executor_Add_Service
     (rclc_executor_spin e service_callback requests
     (RCCHECK e Service_Fini
     (RCCHECK e Node_Fini (\<lambda>a. Inr (0, a))))))))))"

subsection \<open>Lists of checked calls\<close>

definition domain_calls :: "rcl_env \<Rightarrow> rclc_call list" where
  "domain_calls e =
     (if fixed_domain e then [Init_Options_Init, Init_Options_Set_Domain_Id 64, Support_Init_With_Options]
      else case domain_variable e of None \<Rightarrow> []
        | Some s \<Rightarrow> [Init_Options_Init, Init_Options_Set_Domain_Id (int_to_domain (long_width e) (long_to_int (fst (strtol (long_width e) s)))),
            Support_Init_With_Options])"

lemma strtol_end: "\<exists>v r. strtol w s = (v, Some r)"
  by (simp add: strtol_def Let_def split: prod.split)

lemma set_domain_calls: "set_domain e k = foldr (RCCHECK e) (domain_calls e) k"
proof (cases "domain_variable e")
  case (Some s)
  then show ?thesis using strtol_end [of "long_width e" s] by (auto simp: set_domain_def domain_calls_def ROS_DOMAIN_ID_def)
qed (simp add: set_domain_def domain_calls_def ROS_DOMAIN_ID_def)

definition all_ok :: "rcl_env \<Rightarrow> rclc_call list \<Rightarrow> rclc_call list \<Rightarrow> bool" where
  "all_ok e before cs \<longleftrightarrow> (\<forall>i < length cs. rcl_status e (before @ take i cs) (cs ! i) = 0)"

definition fails_at :: "rcl_env \<Rightarrow> rclc_call list \<Rightarrow> nat \<Rightarrow> bool" where
  "fails_at e cs j \<longleftrightarrow> j < length cs \<and> all_ok e [] (take j cs) \<and> rcl_status e (take j cs) (cs ! j) \<noteq> 0"

definition stops_at :: "rcl_env \<Rightarrow> rclc_call list \<Rightarrow> nat \<Rightarrow> 'a ros_app_scheme exits \<Rightarrow> bool" where
  "stops_at e cs j r \<longleftrightarrow> (\<exists>a. r = Inr (1, a) \<and> calls_made a = take (Suc j) cs \<and>
     lines_printed a = [failed_line e (cs ! j) (rcl_status e (take j cs) (cs ! j)) ''Aborting''])"

lemma all_ok_Nil [simp]: "all_ok e before []"
  by (simp add: all_ok_def)

lemma all_ok_Cons: "all_ok e before (c # cs) \<longleftrightarrow> rcl_status e before c = 0 \<and> all_ok e (before @ [c]) cs"
  by (auto simp: all_ok_def nth_Cons take_Cons less_Suc_eq_0_disj split: nat.splits)

lemma all_ok_append: "all_ok e before (cs @ ds) \<longleftrightarrow> all_ok e before cs \<and> all_ok e (before @ cs) ds"
  by (induction cs arbitrary: before) (simp_all add: all_ok_Cons)

lemma checked_ok: "all_ok e (calls_made a) cs \<Longrightarrow> foldr (RCCHECK e) cs k a = k (a\<lparr>calls_made := calls_made a @ cs\<rparr>)"
  by (induction cs arbitrary: a) (simp_all add: all_ok_Cons RCCHECK_def rcl_call_def)

lemma checked_stops:
  assumes "fails_at e (before @ cs @ ds) j" "length before \<le> j" "j < length (before @ cs)" "calls_made a = before" "lines_printed a = []"
  shows "stops_at e (before @ cs @ ds) j (foldr (RCCHECK e) cs k a)"
proof -
  obtain ps c qs where cs: "cs = ps @ c # qs" "length ps = j - length before"
    using id_take_nth_drop [of "j - length before" cs] assms(2,3) by (metis (no_types, lifting) add_diff_inverse_nat length_append length_take
        less_diff_conv2 min_absorb2 nat_add_left_cancel_less not_le order_less_imp_le)
  have j: "j = length (before @ ps)" using cs(2) assms(2) by simp
  have ok: "all_ok e before ps" and bad: "rcl_status e (before @ ps) c \<noteq> 0"
    using assms(1) unfolding fails_at_def cs j by (simp_all add: all_ok_append nth_append)
  have "foldr (RCCHECK e) cs k a = RCCHECK e c (foldr (RCCHECK e) qs k) (a\<lparr>calls_made := before @ ps\<rparr>)"
    using checked_ok [of e a ps "RCCHECK e c (foldr (RCCHECK e) qs k)"] ok assms(4) by (simp add: cs)
  then show ?thesis using bad assms(5) unfolding cs j by (simp add: RCCHECK_def rcl_call_def stops_at_def print_line_def nth_append)
qed

text \<open>Two lists of checked calls with a step between them that makes no call and prints nothing.\<close>

lemma checked_stops2:
  assumes f: "fails_at e (cs @ ds) j" and a: "calls_made a = []" "lines_printed a = []"
    and g: "\<And>a. calls_made (g a) = calls_made a" "\<And>a. lines_printed (g a) = lines_printed a"
  shows "stops_at e (cs @ ds) j (foldr (RCCHECK e) cs (\<lambda>a. foldr (RCCHECK e) ds k (g a)) a)"
proof (cases "j < length cs")
  case True
  then show ?thesis using checked_stops [of e "[]" cs ds j a] f a by simp
next
  case False
  have "all_ok e [] cs" using f False by (simp add: fails_at_def all_ok_append take_add [of "length cs" "j - length cs", simplified])
  then have "foldr (RCCHECK e) cs (\<lambda>a. foldr (RCCHECK e) ds k (g a)) a = foldr (RCCHECK e) ds k (g (a\<lparr>calls_made := cs\<rparr>))"
    using checked_ok [of e a cs] a(1) by simp
  then show ?thesis using checked_stops [of e cs ds "[]" j "g (a\<lparr>calls_made := cs\<rparr>)"] f False a g by (simp add: fails_at_def)
qed

subsection \<open>Setting up\<close>

definition talker_setup :: "rcl_env \<Rightarrow> rclc_call list" where
  "talker_setup e = (Support_Init # domain_calls e @ [Node_Init ''talker_node'', Publisher_Init ''/chatter'', Timer_Init 1000000000])
     @ [Executor_Init 1, Executor_Add_Timer]"

definition listener_setup :: "rcl_env \<Rightarrow> rclc_call list" where
  "listener_setup e = Support_Init # domain_calls e
     @ [Node_Init ''listener_node'', Subscription_Init ''chatter'', Executor_Init 1, Executor_Add_Subscription]"

definition client_setup :: "rcl_env \<Rightarrow> rclc_call list" where
  "client_setup e = (Support_Init # domain_calls e
     @ [Node_Init ''add_two_ints_client_rclc'', Client_Init ''add_two_ints'', Executor_Init 2, Executor_Add_Client])
     @ [Timer_Init 1000000000, Executor_Add_Timer]"

definition server_setup :: "rcl_env \<Rightarrow> rclc_call list" where
  "server_setup e = Support_Init # domain_calls e
     @ [Node_Init ''add_two_ints_server_rclc'', Service_Init ''add_two_ints'', Executor_Init 1, Executor_Add_Service]"

lemmas setup_defs = talker_setup_def listener_setup_def client_setup_def server_setup_def

text \<open>Every program is its setup, the executor, and one \<open>fini\<close> call for the endpoint and one for the node.\<close>

definition finish :: "rcl_env \<Rightarrow> rclc_call \<Rightarrow> 'a ros_app_scheme \<Rightarrow> 'a ros_app_scheme exits" where
  "finish e c = foldr (RCCHECK e) [c, Node_Fini] (\<lambda>a. Inr (0, a))"

lemma talker_main_split:
  "talker_main e fires = foldr (RCCHECK e) (Support_Init # domain_calls e @ [Node_Init ''talker_node'', Publisher_Init ''/chatter'', Timer_Init 1000000000])
     (\<lambda>a. foldr (RCCHECK e) [Executor_Init 1, Executor_Add_Timer] (rclc_executor_spin e (talker_timer_callback e) fires (finish e Publisher_Fini))
       (allocate_text e a))"
  by (simp add: talker_main_def set_domain_calls finish_def)

lemma listener_main_split:
  "listener_main e heard = foldr (RCCHECK e) (listener_setup e)
     (\<lambda>a. rclc_executor_spin e (\<lambda>buf a. subscription_callback (a\<lparr>msg_data := buf\<rparr>)) heard (finish e Subscription_Fini) (allocate_text e a))"
  by (simp add: listener_main_def set_domain_calls finish_def listener_setup_def)

lemma client_main_split:
  "client_main e evs = foldr (RCCHECK e) (Support_Init # domain_calls e
       @ [Node_Init ''add_two_ints_client_rclc'', Client_Init ''add_two_ints'', Executor_Init 2, Executor_Add_Client])
     (\<lambda>a. foldr (RCCHECK e) [Timer_Init 1000000000, Executor_Add_Timer] (rclc_executor_spin e (client_handle e) evs (finish e Client_Fini))
       (a\<lparr>req_a := 0, req_b := 0\<rparr>))"
  by (simp add: client_main_def set_domain_calls finish_def)

lemma server_main_split:
  "server_main e requests = foldr (RCCHECK e) (server_setup e) (rclc_executor_spin e service_callback requests (finish e Service_Fini))"
  by (simp add: server_main_def set_domain_calls finish_def server_setup_def)

lemma allocate_text_quiet [simp]: "calls_made (allocate_text e a) = calls_made a" "lines_printed (allocate_text e a) = lines_printed a"
  by (simp_all add: allocate_text_def Let_def)

lemma request_init_quiet: "calls_made (a\<lparr>req_a := x, req_b := y\<rparr>) = calls_made a" "lines_printed (a\<lparr>req_a := x, req_b := y\<rparr>) = lines_printed a"
  by simp_all

lemma talker_stops: "fails_at e (talker_setup e) j \<Longrightarrow> calls_made a = [] \<Longrightarrow> lines_printed a = [] \<Longrightarrow> stops_at e (talker_setup e) j (talker_main e fires a)"
  unfolding talker_setup_def talker_main_split by (rule checked_stops2) simp_all

lemma listener_stops:
  "fails_at e (listener_setup e) j \<Longrightarrow> calls_made a = [] \<Longrightarrow> lines_printed a = [] \<Longrightarrow> stops_at e (listener_setup e) j (listener_main e heard a)"
  unfolding listener_main_split using checked_stops [of e "[]" "listener_setup e" "[]" j a] by (simp add: fails_at_def)

lemma client_stops: "fails_at e (client_setup e) j \<Longrightarrow> calls_made a = [] \<Longrightarrow> lines_printed a = [] \<Longrightarrow> stops_at e (client_setup e) j (client_main e evs a)"
  unfolding client_setup_def client_main_split by (rule checked_stops2) simp_all

lemma server_stops:
  "fails_at e (server_setup e) j \<Longrightarrow> calls_made a = [] \<Longrightarrow> lines_printed a = [] \<Longrightarrow> stops_at e (server_setup e) j (server_main e requests a)"
  unfolding server_main_split using checked_stops [of e "[]" "server_setup e" "[]" j a] by (simp add: fails_at_def)

text \<open>
  C40: Property: when the j-th call of the setup of one of the four programs is the first to fail, the program makes the calls up to it, and none after, prints
  the one line with its line number and status, and exits with 1.  The setup is the first initialisation, the domain, the node, the endpoint and the
  executor in this order; memory, the executor's events and the status of any later call do not matter.
\<close>

theorem examples_stop_at_first_failure:
  assumes "calls_made a = []" "lines_printed a = []" "calls_made b = []" "lines_printed b = []"
    and "calls_made c = []" "lines_printed c = []" "calls_made d = []" "lines_printed d = []"
  shows "(fails_at e (talker_setup e) j \<longrightarrow> stops_at e (talker_setup e) j (talker_main e fires a))
    \<and> (fails_at e (listener_setup e) j \<longrightarrow> stops_at e (listener_setup e) j (listener_main e heard b))
    \<and> (fails_at e (client_setup e) j \<longrightarrow> stops_at e (client_setup e) j (client_main e evs c))
    \<and> (fails_at e (server_setup e) j \<longrightarrow> stops_at e (server_setup e) j (server_main e requests d))"
  using assms by (simp add: talker_stops listener_stops client_stops server_stops)

text \<open>An environment for the witnesses: the domain text is \<open>abc\<close>, and the calls that \<open>bad\<close> names fail with status 1.\<close>

definition some_env :: "(rclc_call \<Rightarrow> bool) \<Rightarrow> rcl_env" where
  "some_env bad = \<lparr>rcl_status = (\<lambda>before c. if bad c then 1 else 0), line_of_call = (\<lambda>c. 110), fixed_domain = False,
     domain_variable = Some ''abc'', long_width = 64, malloc_succeeds = True\<rparr>"

definition talker_start :: talker_app where
  "talker_start = \<lparr>calls_made = [], lines_printed = [], msg_data = None, msg_size = 0, msg_capacity = 0, talk_counter = 0\<rparr>"

definition listener_start :: text_app where
  "listener_start = \<lparr>calls_made = [], lines_printed = [], msg_data = None, msg_size = 0, msg_capacity = 0\<rparr>"

definition client_start :: client_app where
  "client_start = \<lparr>calls_made = [], lines_printed = [], req_a = 0, req_b = 0, next_val = 16\<rparr>"

definition server_start :: server_app where
  "server_start = \<lparr>calls_made = [], lines_printed = [], sums_answered = []\<rparr>"

lemmas start_defs = talker_start_def listener_start_def client_start_def server_start_def

lemma some_domain_calls: "domain_calls (some_env bad) = [Init_Options_Init, Init_Options_Set_Domain_Id 0, Support_Init_With_Options]"
  by (simp add: domain_calls_def some_env_def) code_simp

lemma examples_stop_at_first_failure_witness:
  "stops_at (some_env (\<lambda>c. c = Publisher_Init ''/chatter'')) (talker_setup (some_env (\<lambda>c. c = Publisher_Init ''/chatter''))) 5
     (talker_main (some_env (\<lambda>c. c = Publisher_Init ''/chatter'')) [True] talker_start)"
proof -
  let ?e = "some_env (\<lambda>c. c = Publisher_Init ''/chatter'')"
  have "fails_at ?e (talker_setup ?e) 5"
    by (simp add: fails_at_def talker_setup_def some_domain_calls all_ok_Cons) (simp add: some_env_def)
  moreover have "calls_made talker_start = []" "lines_printed talker_start = []" "calls_made listener_start = []" "lines_printed listener_start = []"
    "calls_made client_start = []" "lines_printed client_start = []" "calls_made server_start = []" "lines_printed server_start = []"
    by (simp_all add: start_defs)
  ultimately show ?thesis by (rule examples_stop_at_first_failure [THEN conjunct1, THEN mp, rotated 8])
qed

subsection \<open>The talker runs\<close>

definition greeting :: "nat \<Rightarrow> string" where
  "greeting k = ''Hello World: '' @ show_nat k"

lemma greeting_text: "''Hello World: '' @ show_int (int k) = greeting k"
  by (simp add: greeting_def show_int_def)

lemma greeting_no_NUL: "NUL \<notin> set (greeting k)"
  using show_int_clean(1) [of "int k"] by (simp add: greeting_def show_int_def NUL_def)

lemma greeting_fits: "k < 2 ^ 31 \<Longrightarrow> length (greeting k) + 1 \<le> ARRAY_LEN"
  using length_show_nat_le [of k 10] by (simp add: greeting_def ARRAY_LEN_def)

lemma cstr_written: "NUL \<notin> set t \<Longrightarrow> cstr (t @ [NUL] @ r) = t"
  by (simp add: cstr_def takeWhile_append2 takeWhile_tail)

lemma RCSOFTCHECK_calls: "calls_made (RCSOFTCHECK e c a) = calls_made a @ [c]"
  by (simp add: RCSOFTCHECK_def rcl_call_def print_line_def)

lemma print_line_calls [simp]: "calls_made (print_line s a) = calls_made a"
  by (simp add: print_line_def)

lemma finish_returns: "\<exists>rc a' n. finish e c a = Inr (rc, a') \<and> calls_made a' = calls_made a @ take (Suc n) [c, Node_Fini]"
proof (cases "rcl_status e (calls_made a) c = 0")
  case True
  have "\<exists>rc a'. finish e c a = Inr (rc, a') \<and> calls_made a' = calls_made a @ [c, Node_Fini]"
    using True by (simp add: finish_def RCCHECK_def rcl_call_def)
  then show ?thesis by (metis take_Suc_Cons take_Nil)
next
  case False
  have "\<exists>rc a'. finish e c a = Inr (rc, a') \<and> calls_made a' = calls_made a @ [c]"
    using False by (simp add: finish_def RCCHECK_def rcl_call_def)
  then show ?thesis by (metis take_Suc_Cons take_0)
qed

text \<open>The buffer is there and the counter has the value \<open>k\<close>.\<close>

definition talking :: "nat \<Rightarrow> 'a talker_app_scheme \<Rightarrow> bool" where
  "talking k a \<longleftrightarrow> talk_counter a = int k \<and> (\<exists>buf. msg_data a = Some buf \<and> length buf = ARRAY_LEN)"

lemma talker_softcheck:
  "talk_counter (RCSOFTCHECK e c a) = talk_counter a" "msg_data (RCSOFTCHECK e c a) = msg_data a"
  "talk_counter (print_line s a) = talk_counter a" "msg_data (print_line s a) = msg_data a" for a :: "'a talker_app_scheme"
  by (simp_all add: RCSOFTCHECK_def rcl_call_def print_line_def)

lemma talker_event:
  assumes "talking k a" "k < 2 ^ 31 - 1"
  shows "\<exists>a'. talker_timer_callback e True a = Inr a' \<and> talking (Suc k) a' \<and> calls_made a' = calls_made a @ [Rcl_Publish (greeting k)]"
proof -
  obtain buf where buf: "msg_data a = Some buf" "length buf = ARRAY_LEN" and k: "talk_counter a = int k"
    using assms(1) by (auto simp: talking_def)
  have fits: "length (greeting k) + 1 \<le> ARRAY_LEN" using greeting_fits [of k] assms(2) by simp
  have "int k \<noteq> 2 ^ 31 - 1" using assms(2) by auto
  then show ?thesis
    using fits buf(2) cstr_written [OF greeting_no_NUL [of k]] unfolding talker_timer_callback_def buf(1) k greeting_text
    by (simp add: Let_def RCSOFTCHECK_calls talking_def talker_softcheck)
qed

lemma talker_spins:
  "talking k a \<Longrightarrow> k + n < 2 ^ 31 \<Longrightarrow> \<exists>a'. spin (talker_timer_callback e) (replicate n True) a = Inr a' \<and> talking (k + n) a'
     \<and> calls_made a' = calls_made a @ map (\<lambda>i. Rcl_Publish (greeting i)) [k..<k + n]"
proof (induction n arbitrary: k a)
  case (Suc n)
  obtain b where b: "talker_timer_callback e True a = Inr b" "talking (Suc k) b" "calls_made b = calls_made a @ [Rcl_Publish (greeting k)]"
    using talker_event [OF Suc.prems(1), of e] Suc.prems(2) by auto
  show ?case using Suc.IH [OF b(2)] Suc.prems(2) b upt_conv_Cons [of k "k + Suc n"] by (simp del: upt_Suc)
qed simp

lemma talker_overflows: "talking (2 ^ 31 - 1) a \<Longrightarrow> talker_timer_callback e True a = Inl Overflow"
  by (auto simp: talking_def talker_timer_callback_def)

lemma spin_append: "spin f (xs @ ys) a = andthen (spin f xs a) (spin f ys)"
  by (induction xs arbitrary: a) (simp_all add: andthen_def split: sum.split)

lemma talker_spins_over:
  assumes "talking 0 a" "2 ^ 31 \<le> n"
  shows "spin (talker_timer_callback e) (replicate n True) a = Inl Overflow"
proof -
  obtain m where n: "n = (2 ^ 31 - 1) + Suc m" using assms(2) le_Suc_ex [of "2 ^ 31" n] by auto
  obtain a' where "spin (talker_timer_callback e) (replicate (2 ^ 31 - 1) True) a = Inr a'" "talking (2 ^ 31 - 1) a'"
    using talker_spins [OF assms(1), of "2 ^ 31 - 1" e] by auto
  then show ?thesis unfolding n replicate_add spin_append using talker_overflows [of a' e] by simp
qed

lemma talker_runs:
  assumes "all_ok e [] (talker_setup e)" "calls_made a = []"
  shows "\<exists>b. talker_main e fires a = andthen (spin (talker_timer_callback e) fires b) (finish e Publisher_Fini)
    \<and> calls_made b = talker_setup e @ [Executor_Spin] \<and> talk_counter b = talk_counter a
    \<and> msg_data b = (if malloc_succeeds e then Some (replicate ARRAY_LEN NUL) else None)"
proof -
  let ?s = "Support_Init # domain_calls e @ [Node_Init ''talker_node'', Publisher_Init ''/chatter'', Timer_Init 1000000000]"
  let ?a = "allocate_text e (a\<lparr>calls_made := ?s\<rparr>)"
  have ok: "all_ok e (calls_made a) ?s" "all_ok e (calls_made ?a) [Executor_Init 1, Executor_Add_Timer]"
    using assms by (simp_all only: talker_setup_def all_ok_append allocate_text_quiet) simp_all
  have "talker_main e fires a = rclc_executor_spin e (talker_timer_callback e) fires (finish e Publisher_Fini)
      (?a\<lparr>calls_made := calls_made ?a @ [Executor_Init 1, Executor_Add_Timer]\<rparr>)"
    using checked_ok [OF ok(1)] checked_ok [OF ok(2)] assms(2) by (simp add: talker_main_split)
  then show ?thesis
    by (intro exI [of _ "?a\<lparr>calls_made := talker_setup e @ [Executor_Spin]\<rparr>"])
      (simp add: rclc_executor_spin_def rcl_call_def talker_setup_def allocate_text_def Let_def)
qed


text \<open>
  Property: once its setup has succeeded and memory was there, the talker publishes \<open>Hello World: 0\<close>, \<open>Hello World: 1\<close> and so on, one text per timer event
  and in this order, whatever the publisher answers, and never leaves its buffer of 200 bytes; it then finishes publisher and node.  The event number
  \<open>2 ^ 31\<close> overflows its counter.  Without memory the first event writes through a null pointer.
\<close>

theorem talker_publishes:
  assumes "all_ok e [] (talker_setup e)" "calls_made a = []" "talk_counter a = 0"
  shows "(malloc_succeeds e \<and> n < 2 ^ 31 \<longrightarrow> (\<exists>rc b k. talker_main e (replicate n True) a = Inr (rc, b) \<and>
       calls_made b = talker_setup e @ Executor_Spin # map (\<lambda>i. Rcl_Publish (greeting i)) [0..<n] @ take (Suc k) [Publisher_Fini, Node_Fini]))
    \<and> (malloc_succeeds e \<and> 2 ^ 31 \<le> n \<longrightarrow> talker_main e (replicate n True) a = Inl Overflow)
    \<and> (\<not> malloc_succeeds e \<and> 0 < n \<longrightarrow> talker_main e (replicate n True) a = Inl NullDeref)"
proof -
  let ?f = "talker_timer_callback e"
  obtain b where b: "talker_main e (replicate n True) a = andthen (spin ?f (replicate n True) b) (finish e Publisher_Fini)"
    "calls_made b = talker_setup e @ [Executor_Spin]" "talk_counter b = 0"
    "msg_data b = (if malloc_succeeds e then Some (replicate ARRAY_LEN NUL) else None)"
    using talker_runs [OF assms(1,2)] assms(3) by metis
  have start: "malloc_succeeds e \<Longrightarrow> talking 0 b" using b(3,4) by (simp add: talking_def)
  have good: "\<exists>rc b k. talker_main e (replicate n True) a = Inr (rc, b) \<and>
       calls_made b = talker_setup e @ Executor_Spin # map (\<lambda>i. Rcl_Publish (greeting i)) [0..<n] @ take (Suc k) [Publisher_Fini, Node_Fini]"
    if m: "malloc_succeeds e" and n: "n < 2 ^ 31"
  proof -
    obtain c where c: "spin ?f (replicate n True) b = Inr c" "calls_made c = calls_made b @ map (\<lambda>i. Rcl_Publish (greeting i)) [0..<n]"
      using talker_spins [OF start [OF m], of n e] n by auto
    then show ?thesis using finish_returns [of e Publisher_Fini c] unfolding b(1) b(2) by (auto simp: b(2) simp del: take_Suc_Cons)
  qed
  have over: "talker_main e (replicate n True) a = Inl Overflow" if "malloc_succeeds e" "2 ^ 31 \<le> n"
    using talker_spins_over [OF start that(2)] that(1) by (simp add: b(1))
  have null: "talker_main e (replicate n True) a = Inl NullDeref" if "\<not> malloc_succeeds e" "0 < n"
  proof -
    have "spin ?f (replicate n True) b = Inl NullDeref" using that b(4) by (cases n) (simp_all add: talker_timer_callback_def)
    then show ?thesis by (simp add: b(1))
  qed
  show ?thesis using good over null by blast
qed

lemma talker_publishes_witness:
  "\<exists>rc b k. talker_main (some_env (\<lambda>c. False)) (replicate 2 True) talker_start = Inr (rc, b) \<and>
     calls_made b = talker_setup (some_env (\<lambda>c. False)) @ Executor_Spin # map (\<lambda>i. Rcl_Publish (greeting i)) [0..<2]
       @ take (Suc k) [Publisher_Fini, Node_Fini]"
proof -
  have "all_ok (some_env (\<lambda>c. False)) [] (talker_setup (some_env (\<lambda>c. False)))" by (simp add: all_ok_def some_env_def)
  moreover have "calls_made talker_start = []" "talk_counter talker_start = 0" by (simp_all add: start_defs)
  moreover have "malloc_succeeds (some_env (\<lambda>c. False)) \<and> (2 :: nat) < 2 ^ 31" by (simp add: some_env_def)
  ultimately show ?thesis by (rule talker_publishes [THEN conjunct1, THEN mp])
qed

subsection \<open>The domain text\<close>

definition domain_of :: "nat \<Rightarrow> string \<Rightarrow> nat" where
  "domain_of w s = int_to_domain w (long_to_int (fst (strtol w s)))"

lemma domain_calls_text:
  "\<not> fixed_domain e \<Longrightarrow> domain_variable e = Some s \<Longrightarrow>
   domain_calls e = [Init_Options_Init, Init_Options_Set_Domain_Id (domain_of (long_width e) s), Support_Init_With_Options]"
  by (simp add: domain_calls_def domain_of_def)

lemma decimal_not_space: "decimal_char c \<Longrightarrow> \<not> isspace c"
  by (auto simp: decimal_char_def isspace_def)

lemma strtol_digits:
  assumes "ds \<noteq> []" "\<forall>c \<in> set ds. decimal_char c"
  shows "strtol w ds = (max (- (2 ^ (w - 1))) (min (2 ^ (w - 1) - 1) (int (read_nat ds))), Some [])"
proof -
  have "NUL \<notin> set ds" using assms(2) decimal_char_not by blast
  then have "cstr ds = ds" by (rule cstr_id)
  moreover obtain c r where ds: "ds = c # r" using assms(1) by (cases ds) auto
  moreover have "\<not> isspace c" "c \<noteq> CHR ''-''" "c \<noteq> CHR ''+''" "decimal_char c" "decimal_char (CHR ''+'') = False"
    using assms(2) decimal_not_space decimal_char_not by (auto simp: ds decimal_char_def)
  moreover have "takeWhile decimal_char r = r" "dropWhile decimal_char r = []" using assms(2) by (simp_all add: ds takeWhile_eq_all_conv)
  ultimately show ?thesis by (simp add: strtol_def takeWhile_eq_all_conv [THEN iffD2])
qed

lemma int_clamp: "0 \<le> v \<Longrightarrow> v < 2 ^ 31 \<Longrightarrow> 32 \<le> w \<Longrightarrow> max (- (2 ^ (w - 1))) (min (2 ^ (w - 1) - 1) v) = v" for v :: int
proof -
  assume v: "0 \<le> v" "v < 2 ^ 31" "32 \<le> w"
  have "(2 :: int) ^ 31 \<le> 2 ^ (w - 1)" by (rule power_increasing) (use v(3) in auto)
  moreover have "- ((2 :: int) ^ (w - 1)) \<le> 0" by simp
  ultimately show ?thesis using v by linarith
qed

text \<open>A domain below \<open>2 ^ 31\<close> written in decimal is the one that is set.\<close>

lemma domain_of_decimal: "d < 2 ^ 31 \<Longrightarrow> 32 \<le> w \<Longrightarrow> domain_of w (show_nat d) = d"
proof -
  assume d: "d < 2 ^ 31" and w: "32 \<le> w"
  have small: "int d < 2 ^ 31" using d by simp
  moreover have "(2 :: int) ^ 31 \<le> 2 ^ w" by (rule power_increasing) (use w in auto)
  ultimately have "int d < 2 ^ w" by (rule less_le_trans)
  then have "int d mod 2 ^ w = int d" by (intro mod_pos_pos_trivial) simp_all
  moreover have "long_to_int (int d) = int d" using small unfolding long_to_int_def by (subst mod_pos_pos_trivial) simp_all
  moreover have "fst (strtol w (show_nat d)) = int d"
    using strtol_digits [of "show_nat d" w] show_nat_decimal int_clamp [of "int d" w] small w by simp
  ultimately show ?thesis by (simp add: domain_of_def int_to_domain_def)
qed

text \<open>
  Nothing else is refused: the check compares the end pointer with null, and \<open>strtol\<close> never makes it null.  A text without digits gives domain 0, and a
  number too long for \<open>long\<close> the largest \<open>size_t\<close>.
\<close>

lemma domain_of_no_digits: "decimal_char c = False \<Longrightarrow> \<not> isspace c \<Longrightarrow> c \<noteq> CHR ''-'' \<Longrightarrow> c \<noteq> CHR ''+'' \<Longrightarrow> domain_of w (c # s) = 0"
proof -
  assume c: "decimal_char c = False" "\<not> isspace c" "c \<noteq> CHR ''-''" "c \<noteq> CHR ''+''"
  have "fst (strtol w (c # s)) = 0" using c by (cases "c = NUL") (simp_all add: strtol_def cstr_def read_nat_def)
  then show ?thesis by (simp add: domain_of_def long_to_int_def int_to_domain_def)
qed

lemma domain_of_huge: "2 ^ 63 \<le> d \<Longrightarrow> domain_of 64 (show_nat d) = 2 ^ 64 - 1"
  using strtol_digits [of "show_nat d" 64] show_nat_decimal by (simp add: domain_of_def long_to_int_def int_to_domain_def)

subsection \<open>The client and the server run\<close>

text \<open>The client sends the numbers from its counter on, whatever answers come between.\<close>

definition timer_events :: "client_event list \<Rightarrow> nat" where
  "timer_events evs = length (filter (\<lambda>ev. ev = Client_Timer True) evs)"

lemma client_requests:
  "next_val a + int (timer_events evs) < 2 ^ 63 \<Longrightarrow> \<exists>b. spin (client_handle e) evs a = Inr b \<and> next_val b = next_val a + int (timer_events evs)
     \<and> calls_made b = calls_made a @ map (\<lambda>i. Rcl_Send_Request (next_val a + int i) (next_val a + int i)) [0..<timer_events evs]"
proof (induction evs arbitrary: a)
  case (Cons ev evs)
  show ?case
  proof (cases "ev = Client_Timer True")
    case True
    let ?b = "(RCSOFTCHECK e (Rcl_Send_Request (next_val a) (next_val a)) (a\<lparr>req_a := next_val a, req_b := next_val a\<rparr>))\<lparr>next_val := next_val a + 1\<rparr>"
    have n: "timer_events (ev # evs) = Suc (timer_events evs)" using True by (simp add: timer_events_def)
    have "next_val a \<noteq> 2 ^ 63 - 1" using Cons.prems n by simp
    then have "client_handle e ev a = Inr ?b"
      by (simp add: True client_handle_def client_timer_callback_def RCSOFTCHECK_def rcl_call_def print_line_def Let_def)
    moreover have "calls_made ?b = calls_made a @ [Rcl_Send_Request (next_val a) (next_val a)]" by (simp add: RCSOFTCHECK_calls)
    moreover have "[0..<Suc (timer_events evs)] = 0 # map Suc [0..<timer_events evs]" by (simp add: upt_conv_Cons map_Suc_upt del: upt_Suc)
    ultimately show ?thesis using Cons.IH [of ?b] Cons.prems unfolding n by (auto simp: comp_def algebra_simps)
  next
    case False
    then have "\<exists>b. client_handle e ev a = Inr b \<and> next_val b = next_val a \<and> calls_made b = calls_made a"
      by (cases ev) (auto simp: client_handle_def client_timer_callback_def client_callback_def print_line_def)
    then obtain b where b: "client_handle e ev a = Inr b" "next_val b = next_val a" "calls_made b = calls_made a" by blast
    have "timer_events (ev # evs) = timer_events evs" using False by (simp add: timer_events_def)
    then show ?thesis using Cons.IH [of b] Cons.prems b by simp
  qed
qed (simp add: timer_events_def)

text \<open>An answer is printed beside the newest request, which is not the one it answers when two were sent before it came.\<close>

lemma client_prints_newest:
  assumes "next_val a < 2 ^ 63 - 2" "\<And>before c. rcl_status e before c = 0"
  shows "\<exists>b. spin (client_handle e) [Client_Timer True, Client_Timer True, Client_Response (next_val a + next_val a)] a = Inr b
    \<and> lines_printed b = lines_printed a @ [''Result of add_two_ints: '' @ show_int (next_val a + 1) @ '' + '' @ show_int (next_val a + 1) @ '' = ''
        @ show_int (next_val a + next_val a) @ ''\<newline>'']"
  using assms by (simp add: client_handle_def client_timer_callback_def client_callback_def RCSOFTCHECK_def rcl_call_def print_line_def)

definition sum_fits :: "int \<times> int \<Rightarrow> bool" where
  "sum_fits r \<longleftrightarrow> - (2 ^ 63) \<le> fst r + snd r \<and> fst r + snd r < 2 ^ 63"

text \<open>The server answers every request with its sum, in order, up to the first sum that does not fit.\<close>

lemma server_event:
  "sum_fits (x, y) \<Longrightarrow> \<exists>b. service_callback (x, y) a = Inr b \<and> sums_answered b = sums_answered a @ [x + y]
     \<and> length (lines_printed b) = Suc (length (lines_printed a)) \<and> calls_made b = calls_made a"
  by (auto simp: service_callback_def sum_fits_def print_line_def Let_def)

lemma server_adds:
  "list_all sum_fits requests \<Longrightarrow> \<exists>b. spin service_callback requests a = Inr b \<and> sums_answered b = sums_answered a @ map (\<lambda>(x, y). x + y) requests
     \<and> length (lines_printed b) = length (lines_printed a) + length requests \<and> calls_made b = calls_made a"
proof (induction requests arbitrary: a)
  case (Cons r requests)
  obtain x y where r: "r = (x, y)" by (cases r)
  obtain b where b: "service_callback (x, y) a = Inr b" "sums_answered b = sums_answered a @ [x + y]"
    "length (lines_printed b) = Suc (length (lines_printed a))" "calls_made b = calls_made a"
    using server_event [of x y a] Cons.prems r by auto
  show ?case using Cons.IH [of b] Cons.prems b by (simp add: r)
qed simp

lemma server_overflows: "list_all sum_fits before \<Longrightarrow> \<not> sum_fits r \<Longrightarrow> spin service_callback (before @ r # later) a = Inl Overflow"
proof -
  assume ok: "list_all sum_fits before" and bad: "\<not> sum_fits r"
  obtain b where "spin service_callback before a = Inr b" using server_adds [OF ok, of a] by blast
  moreover have "service_callback r b = Inl Overflow" using bad by (cases r) (simp add: service_callback_def sum_fits_def)
  ultimately show ?thesis by (simp add: spin_append)
qed

end
