(* ===== verification/Spec2Isabelle.thy ===== *)
theory Spec2Isabelle
  imports Remote_Call Publisher_Life History End_To_End Teardown Identity Topic_Key Init Type_Support Debug_Print Data_Print Unsupported
    XXH32 XXH64 XXH3_Pieces XXH_Alloc XXH_States Examples
begin

text \<open>
  A verification of \<open>rmw_zenoh_pico\<close>, the implementation of the ROS 2 middleware interface (rmw) on top of the
  zenoh-pico client.  All paths are below \<open>src/rmw_zenoh_pico/src\<close>.

  \<^bold>\<open>The program.\<close>  An application initialises a context (\<open>rmw_init.c\<close>), creates nodes (\<open>rmw_node.c\<close>) and on them
  publishers, subscriptions, services and clients (\<open>rmw_publisher.c\<close>, \<open>rmw_subscription.c\<close>, \<open>rmw_service.c\<close>, \<open>rmw_client.c\<close>).  Each of
  these is a reference-counted data object (\<open>zenoh_pico_data.c\<close>) that refers to an entity, which refers to a node description and a
  topic description (\<open>zenoh_pico_entity.c\<close>, \<open>zenoh_pico_nodeInfo.c\<close>, \<open>zenoh_pico_topicInfo.c\<close>).  An entity is announced
  to others by a liveliness token whose key holds all of its description (\<open>zenoh_pico_liveliness.c\<close>); data travels on a
  topic key.  A published message is serialised (\<open>zenoh_pico_rosMessage.c\<close>) and put on the topic key with an attachment
  of sequence number, time and identifier (\<open>zenoh_pico_attach.c\<close>, \<open>zenoh_pico_gid.c\<close>).  zenoh's threads call back with
  samples and queries; the callback makes a message object, appends it to the queue of its endpoint, tells the event manager
  (\<open>rmw_event.c\<close>) and triggers the wait set attached to the endpoint (\<open>zenoh_pico_condition.c\<close>).  The application sleeps in
  \<open>rmw_wait\<close> (\<open>rmw_wait.c\<close>) until an endpoint or a guard condition (\<open>rmw_guard_condition.c\<close>) is ready and
  then takes the messages (\<open>rmw_take.c\<close>, \<open>rmw_service.c\<close>, \<open>rmw_client.c\<close>).

  \<^bold>\<open>The state.\<close>  \<open>rmw_mem\<close> (theories Memory, Entity_Data, Ros_Message, Wait_Set, State) is a record with one heap for each
  type of object, from addresses to records with the fields of the C struct; a freed address has no entry.  \<open>next_addr\<close> is the address the
  next allocation gets, \<open>trace\<close> the calls made to zenoh and to user callbacks, newest first.  Operations are functions on this state
  in the type \<open>res\<close>: \<open>Inl\<close> is undefined behaviour of C (null or freed pointer, access outside a buffer, uninitialised
  value, a pointer to program code, a mutex locked twice by its thread, a loop out of fuel), \<open>Inr\<close> the value and the new state.  Error returns
  of the code are ordinary values.  Integers are \<open>int\<close> or \<open>nat\<close> with \<open>mod\<close> written out, or \<open>word\<close>s
  where bits matter; C strings are lists with the zero character in them.

  \<^bold>\<open>The environment.\<close>  The record \<open>zenv\<close> (Memory) holds what is not in the repository: which allocations fail, what
  zenoh-pico answers to each call, the clock, its serialiser \<open>codec\<close> with the law \<open>codec_ok\<close> (what was written is read back),
  the session id and its text, the compilation target \<open>target\<close> (processor, vector unit, integer widths), the sizes of a word and a mutex \<open>layout\<close>, the configured buffer size and the name checks of \<open>rmw\<close>.  Type support
  callbacks are arguments; \<open>cdr_ok\<close> says that a message can be read back.

  \<^bold>\<open>Theories, in the order of the imports.\<close>
  \<^item> Prelude: results, pointers, mutexes and the automation for them.  Memory: environment, allocation, calls into zenoh.
    C_Strings: C strings, \<open>snprintf\<close>, decimal numbers.
  \<^item> XXH3, XXH3_Lanes, XXH3_Arm, XXH3_Long: the hash \<open>XXH3_128bits\<close> of \<open>utilities/xxhash.h\<close>, from which identifiers are made, with the variants that the
    header selects by compiler and processor: portable, SSE2, AVX2 and AVX512 in XXH3_Lanes, NEON, VSX and SVE in XXH3_Arm.  XXH3_Targets, XXH3_Units, XXH3_Arm_Units,
    XXH3_Stripes: no variant reads outside its input, and all give the same value, but for SVE on a big-endian processor, which
    hashes inputs of more than 240 bytes in its own way (\<open>native_stripes\<close>; \<open>alike\<close> says that two targets agree on a length).
  \<^item> XXH_Blocks, XXH32, XXH64, XXH3_Secrets, XXH3_64, XXH3_Stream, XXH3_Feed, XXH3_Pieces, XXH_Alloc, XXH_States: the rest of this header.  The locales \<open>block_hash\<close>
    and \<open>block_stream\<close> (XXH_Blocks) show once that a buffer of one block leads to the hash of the whole input; XXH32 and XXH64 interpret them.  XXH3_Secrets has
    seeds and secrets for 128 bits, the secret generators and the operations on hash values; XXH3_64 the hash with 64 bits; XXH3_Stream the stream, whose
    buffer keeps the end of the input back.  XXH3_Feed shows that hashing at once and updating in pieces are the same run over the stripes (\<open>run3\<close>, with the
    invariant \<open>buffered\<close>), XXH3_Pieces compares the digests with the functions that hash at once.  XXH_Alloc: aligned memory.  XXH_States: states
    on the heap and their copies, with the locale \<open>hash_state\<close> for both kinds.
  \<^item> Data_Object: \<open>zenoh_pico_data.c\<close>; the locale \<open>typed_heap\<close> for the heaps of the state.
  \<^item> Entity_Data, Type_Names, Liveliness, Topic_Key, Entity_Ops: entities, their descriptions and their texts.  Keys are built by the
    pointer-and-space code of the source; the lemmas show which text results, that nothing is written outside the buffer, and which
    entities share a key.
  \<^item> Attachment, Ros_Message, Message_Queue: attachments, message objects and the linked queue, refined to lists by \<open>queue_rep\<close>; the locale
    of queues states the laws of append, pop and pick-up that the clients use.
  \<^item> Guard_Condition, Wait_Set, Event_Manager: the objects that wake a thread.  Initialising an event manager clears an element of an array that has
    none: Event_Manager says which members that clears for which \<open>layout\<close>, and \<open>status_fits\<close> when it stays inside.  State: the remaining objects and the whole state.
  \<^item> Session, Init, Node: session, options, initialisation, shutdown and nodes.
  \<^item> Endpoint, Mailbox, Subscription, Take, Publisher, Service, Client: the endpoints.  The locale \<open>mailbox\<close> holds the delivery of a sample
    or query once for subscriptions, services and clients, which interpret it.
  \<^item> Rmw_Wait, Waiting: \<open>rmw_wait\<close>.  Rmw_Wait is the code, Waiting its lemmas; the locales \<open>listed\<close> and \<open>queue_owner\<close> hold what
    attaching and detaching do to any kind of listed object, and are interpreted for all four; listed event managers are treated after them.
  \<^item> Lifecycle, Publisher_Life, Teardown: what creating and destroying endpoints leaves in the heaps, what a failed allocation does to it, and
    the loops that empty queues.  Identity: which
    endpoints share an identifier, and what a server makes of requests that do.
  \<^item> Running, Moves, System, History: the endpoints in operation as a transition system.  Its steps are the zenoh callbacks and the calls of the
    application, in any order and with any failure of the environment.  Running has the invariant (\<open>running\<close>: who owns which message and payload,
    with the messages an operation has in hand) and its abstraction (\<open>runs\<close>: each queue as a list of letters); Moves has one lemma for each operation
    that it returns, keeps the invariant and changes the letters in a given way; System has the step relation \<open>reached\<close>, the abstract mail system
    (\<open>mail_step\<close>) that it refines, and what holds in all reachable states; History has runs with all their events (\<open>happened\<close>) and what they add up to.
  \<^item> End_To_End, Remote_Call and this theory: publishing, delivery and taking composed; the way of a service call to the server and back.  Type_Support: the lookup of type supports.
  \<^item> Logging, Debug_Print, Data_Print: the log lines, the entry printer that every function of the interface calls first, and the printers of the
    data objects; which of them read outside their objects.  Unsupported: the rest of the interface.
  \<^item> Examples: talker, listener, client and server under \<open>src/examples/microros/app\<close>.  They call rcl and rclc, which are not in the repository: each
    call is recorded and its answer is a parameter, and the executor is a list of events.  The lemmas show where each program stops when a call fails, what
    talker, client and server send for any events, and which domain they take from the environment.

  \<^bold>\<open>Fuel.\<close>  The loops that walk or empty a queue get \<open>next_addr\<close> as fuel.  In a well-formed state (\<open>rmw_ok\<close>) every message has an
  address below it and a queue holds each once, so it is never used up (\<open>queue_below\<close>); emptying a queue takes as many rounds as it has
  messages, no fewer and no more (\<open>drain_frees_queue\<close>).  All other loops are structural.

  \<^bold>\<open>Concurrency.\<close>  An operation runs without interruption, except that \<open>rmw_wait\<close> takes the actions of other threads as
  two lists: those that run between attaching and sleeping, and those that run while it sleeps, after each of which the sleeping thread
  looks at its condition variable.  Condition variables count their signals.  In System attaching and detaching a wait set are
  steps of their own, so that deliveries fall between them.  Interleavings inside a callback or a call are not modelled.

  \<^bold>\<open>Findings.\<close>  Many properties describe what the code does where that is not what it should do: services and clients release a
  reference on the node that they never took; \<open>rmw_wait\<close> with an event manager answers an error; a timed wait does not see a message
  that comes just before it sleeps; triggering a guard condition does not wake a sleeper; a destroyed subscription leaks its
  queue; the last shutdown destroys the address of a function; long topic names write outside a buffer; all clients of a service
  have the same identifier, so a server can send one the response meant for another; a server compares 16 bytes of a received identifier
  however short it is, so a request with a shorter one makes its responses read outside it (\<open>short_gid_overread\<close>, and the second half of
  \<open>running_system_safe\<close>); initialising an event manager writes outside it where mutexes are very small (\<open>event_status_overruns\<close>).

  \<^bold>\<open>Output.\<close>  What is printed is modelled apart from the operations: a printer is a function from an object to its text, or to the fault of
    a read outside it, and its calls are not repeated in the operations.  The operations are therefore those of a level below debug, where
    only log lines of error level are printed; at debug level they may in addition fail as the theorems on the printers say.

  \<^bold>\<open>Not modelled.\<close>  Of \<open>xxhash.h\<close> the prefetch and compiler hints; a failed \<open>XXH_ASSERT\<close> is the fault \<open>Unreachable\<close>.  What rcl and rclc do for the examples; the two create functions
  of services and clients are one definition, since the source has the same text twice.  The text of \<open>%p\<close> and zenoh's reference count of a
  query are parameters of the printers.
\<close>

section \<open>The whole path of a message\<close>

text \<open>
  C8: What is published is what is taken. A publisher publishes a list of messages with rmw_publish; each put it makes is handed,
  in order and with its payload and attachment, to the zenoh callback of a subscription whose queue is empty, in
  another application with the same type support and memory. Then the publisher makes one put for each message, and calling
  rmw_take_with_info once for each gives exactly these messages in order, with the publisher's identifier and consecutive
  sequence numbers; afterwards the queue is empty and the receiver's message objects and buffers are as before.
\<close>

theorem published_is_taken:
  assumes "data ph = Some p" "identifiers_match (implementation_identifier ph)" and "pub_datas v p = Some dp"
    and "pub_mutex dp = Unlocked" "pub_topic dp = Some key" and "encodes (codec (env v)) (gid (pub_attachment dp))"
    and "roomy v" "\<And>n. next_addr v \<le> n \<Longrightarrow> bufs v n = None"
    and "data sh = Some s" "topic_name sh = Some t" "identifiers_match (implementation_identifier sh)"
    and "sub_ready w s ds []" and "roomy w" "\<And>n. next_addr w \<le> n \<Longrightarrow> msgs w n = None \<and> bufs w n = None"
    and "codec (env w) = codec (env v)" "sub_callbacks ds = pub_callbacks dp" "\<And>m. m \<in> set ms \<Longrightarrow> cdr_ok (pub_callbacks dp) m"
  shows "\<exists>v' xs w1 infos w2. publish_all ph ms v = Inr v' \<and> length xs = length ms \<and>
    trace v' = rev (map (\<lambda>x. ZPublisherPut key (sample_payload x) (sample_attachment x)) xs) @ trace v \<and>
    deliver_all xs (Some s) w = Inr w1 \<and> take_all sh (length ms) w1 = Inr (zip ms infos, w2) \<and>
    map (\<lambda>i. (publication_sequence_number i, publisher_gid i)) infos =
      map (\<lambda>i. (sequence_num (pub_attachment dp) + of_nat (Suc i), copy_gid (replicate 16 0) (gid (pub_attachment dp)))) [0..<length ms] \<and>
    (\<exists>d. sub_datas w2 s = Some d \<and> queue_rep (msgs w2) (message_queue d) []) \<and> msgs w2 = msgs w \<and> bufs w2 = bufs w"
proof -
  let ?cb = "pub_callbacks dp" and ?c = "codec (env v)"
  obtain v' bss where pb: "publish_all ph ms v = Inr v'" "length bss = length ms" "trace v' = rev (map (put_of key ?cb) (zip ms bss)) @ trace v"
    "map (read_number ?c) bss = map (\<lambda>i. (True, sequence_num (pub_attachment dp) + of_nat (Suc i), gid (pub_attachment dp))) [0..<length ms]"
    using publish_all_run [OF assms(1-8), of ms] by blast
  let ?x = "\<lambda>(m, bs). \<lparr>sample_payload = serialized_bytes ?cb m, sample_attachment = bs\<rparr>"
  let ?xs = "map ?x (zip ms bss)" and ?ats = "map (\<lambda>bs. snd (attachment_data_get ?c bs zero_attachment)) bss"
  have lx: "length ?xs = length ms" and la: "length ?ats = length ms" using pb(2) by simp_all
  have tr: "map (put_of key ?cb) (zip ms bss) = map (\<lambda>x. ZPublisherPut key (sample_payload x) (sample_attachment x)) ?xs"
    by (simp add: put_of_def split_def)
  have ok: "fst (attachment_data_get ?c (bss ! i) zero_attachment)" "sequence_num (?ats ! i) = sequence_num (pub_attachment dp) + of_nat (Suc i)"
    "gid (?ats ! i) = gid (pub_attachment dp)" if "i < length ms" for i
    using arg_cong [OF pb(4), of "\<lambda>l. l ! i"] that pb(2) by (auto simp: read_number_def split: prod.splits)
  have sm: "list_all2 (\<lambda>x (m, att). sample_of (sub_callbacks ds) (codec (env w)) x m att) ?xs (zip ms ?ats)"
  proof (rule list_all2_all_nthI)
    fix i assume "i < length ?xs"
    then have i: "i < length ms" using lx by simp
    have "cdr_ok ?cb (ms ! i)" using assms(17) i by simp
    then show "case zip ms ?ats ! i of (m, att) \<Rightarrow> sample_of (sub_callbacks ds) (codec (env w)) (?xs ! i) m att"
      using ok(1) [OF i] i pb(2) assms(15,16) by (auto simp: sample_of_def serialized_bytes_eq cdr_ok_def ROS2_MSG_OFFSET_def prod_eq_iff)
  qed (use pb(2) in simp)
  have c: "collects w s ds [] [] [] []" using assms(12-14) by (simp add: collects_def)
  obtain w1 d1 as ps where d: "deliver_all ?xs (Some s) w = Inr w1" "collects w1 s d1 ([] @ as) ([] @ ps) ([] @ ms) ([] @ ?ats)"
    "set as \<union> set ps \<subseteq> {next_addr w..}" "\<forall>a. a \<notin> set ([] @ as) \<longrightarrow> msgs w1 a = msgs w a" "\<forall>p. p \<notin> set ps \<longrightarrow> bufs w1 p = bufs w p"
    using deliver_all_run [OF c sm] la by auto
  have cd: "sub_datas w1 s = Some d1" "queue_rep (msgs w1) (message_queue d1) as" "inbox (sub_callbacks d1) w1 as ps ms"
    "map (\<lambda>a. map_option attachment (msgs w1 a)) as = map Some ?ats"
    using d(2) by (simp_all add: collects_def sub_ready_def)
  obtain infos w2 l where r: "take_all sh (length as) w1 = Inr (zip ms infos, w2)" "length infos = length ms" "length as = length ms"
    "list_all2 taken_info ?ats infos" "sub_datas w2 s = Some (d1\<lparr>message_queue := l\<rparr>)" "queue_rep (msgs w2) l []"
    "\<forall>a. msgs w2 a = (if a \<in> set as then None else msgs w1 a)" "\<forall>p. bufs w2 p = (if p \<in> set ps then None else bufs w1 p)"
    using take_all_run [OF assms(9-11) cd] by blast
  have "msgs w2 = msgs w" "bufs w2 = bufs w" using r(7,8) d(3-5) assms(14) by (fastforce simp: fun_eq_iff)+
  moreover have "map (\<lambda>i. (publication_sequence_number i, publisher_gid i)) infos =
      map (\<lambda>i. (sequence_num (pub_attachment dp) + of_nat (Suc i), copy_gid (replicate 16 0) (gid (pub_attachment dp)))) [0..<length ms]"
    using ok(2,3) r(2,4) la by (intro nth_equalityI) (auto simp: taken_info_def list_all2_conv_all_nth)
  ultimately show ?thesis using pb(1,3) tr lx d(1) r(1,3,5,6)
    by (intro exI [of _ v'] exI [of _ ?xs] exI [of _ w1] exI [of _ infos] exI [of _ w2] conjI) simp_all
qed

theorem published_is_taken_witness:
  "\<exists>v' xs w1 infos w2. publish_all echo_publisher [[7], [8]] pub_mem = Inr v' \<and> length (trace v') = 2 \<and>
    deliver_all xs (Some 20) sub_mem = Inr w1 \<and> take_all inbox_sub 2 w1 = Inr (zip [[7], [8]] infos, w2) \<and>
    map publication_sequence_number infos = [1, 2] \<and> msgs w2 = Map.empty"
proof -
  have f: "codec (env sub_mem) = codec (env pub_mem)" "sub_callbacks echo_sub = pub_callbacks echo_pub" "trace pub_mem = []"
    "msgs sub_mem = Map.empty" "bufs sub_mem = Map.empty" "roomy sub_mem" "cdr_ok (pub_callbacks echo_pub) m" for m
    using echo_cdr_ok [of m] roomy_start by (simp_all add: sub_mem_def pub_mem_def echo_sub_def echo_pub_def roomy_def)
  have r: "sub_ready sub_mem 20 echo_sub []"
    by (simp add: sub_ready_def sub_mem_def echo_sub_def zero_sub_data_def mgr_ok_def zero_mgr_def queue_rep_def recv_msg_list_init_def
        waiter_ok_def)
  have n: "sequence_num (pub_attachment echo_pub) = 0" by (simp add: echo_pub_def zero_attachment_def)
  have e: "msgs sub_mem k = None \<and> bufs sub_mem k = None" for k by (simp add: f)
  obtain v' xs w1 infos w2 where p: "publish_all echo_publisher [[7], [8]] pub_mem = Inr v'" "length xs = length [[7::byte], [8]]"
    "trace v' = rev (map (\<lambda>x. ZPublisherPut ''0/chatter'' (sample_payload x) (sample_attachment x)) xs) @ trace pub_mem"
    "deliver_all xs (Some 20) sub_mem = Inr w1" "take_all inbox_sub (length [[7::byte], [8]]) w1 = Inr (zip [[7], [8]] infos, w2)"
    "map (\<lambda>i. (publication_sequence_number i, publisher_gid i)) infos =
      map (\<lambda>i. (sequence_num (pub_attachment echo_pub) + of_nat (Suc i), copy_gid (replicate 16 0) (gid (pub_attachment echo_pub))))
        [0..<length [[7::byte], [8]]]" "msgs w2 = msgs sub_mem"
    using published_is_taken [OF pub_mem_facts(1-8) inbox_mem_facts(1-3) r f(6) e f(1,2,7), of "[[7], [8]]"] by blast
  have "map publication_sequence_number infos = map fst (map (\<lambda>i. (publication_sequence_number i, publisher_gid i)) infos)"
    by simp
  also have "\<dots> = [1, 2]" unfolding p(6) by (simp add: n upt_rec)
  finally have nums: "map publication_sequence_number infos = [1, 2]" .
  have two: "length [[7::byte], [8]] = 2" by simp
  have "length (trace v') = 2" "msgs w2 = Map.empty" using p(2,3,7) f by simp_all
  then show ?thesis using p(1,4) p(5) [unfolded two] nums
    by (intro exI [of _ v'] exI [of _ xs] exI [of _ w1] exI [of _ infos] exI [of _ w2] conjI)
qed

end
